(* ===== verification/Prelude.thy ===== *)
theory Prelude
  imports Main "HOL-Library.Word" "HOL-Library.Monad_Syntax" "HOL-Library.While_Combinator"
begin

text \<open>
  What the components share: the widths of \<^verbatim>\<open>ifx_types.h\<close>, the return codes, the lemmas on bit
  fields and on tables kept as lists, and the sequencing of statements that may return early.

  Early returns. A C function body is modelled as a \<open>cmd\<close>: it maps the state to \<open>None\<close> when a
  polling loop on the hardware never ends, to \<open>Some (Some r, s)\<close> when the statement has executed
  \<open>return r\<close> with \<open>s\<close> the state it leaves behind, and to \<open>Some (None, s)\<close> when control goes on
  to the next statement.
\<close>

unbundle bit_operations_syntax

named_theorems field_simps_hw \<open>reads of register fields after writes\<close>

type_synonym u8 = "8 word"
type_synonym u16 = "16 word"
type_synonym u32 = "32 word"

abbreviation (input) IFX_SUCCESS :: int where "IFX_SUCCESS \<equiv> 0"
abbreviation (input) IFX_ERROR :: int where "IFX_ERROR \<equiv> -1"

section \<open>Statements with early return\<close>

type_synonym 's cmd = "'s \<Rightarrow> (int option \<times> 's) option"

definition skip :: "'s cmd" where
  "skip s = Some (None, s)"

definition return_with :: "int \<Rightarrow> 's cmd" where
  "return_with r s = Some (Some r, s)"

definition modify :: "('s \<Rightarrow> 's) \<Rightarrow> 's cmd" where
  "modify f s = Some (None, f s)"

definition seq :: "'s cmd \<Rightarrow> 's cmd \<Rightarrow> 's cmd" where
  "seq c d s = (case c s of
      None \<Rightarrow> None
    | Some (Some r, s') \<Rightarrow> Some (Some r, s')
    | Some (None, s') \<Rightarrow> d s')"

fun seqs :: "'s cmd list \<Rightarrow> 's cmd" where
  "seqs [] = skip"
| "seqs (c # cs) = seq c (seqs cs)"

definition when_c :: "bool \<Rightarrow> 's cmd \<Rightarrow> 's cmd" where
  "when_c b c = (if b then c else skip)"

text \<open>
  Total correctness: from a state in \<open>P\<close> the statement ends; normal exit leaves a state in \<open>Q\<close> and
  \<open>return r\<close> leaves a state in \<open>R r\<close>.
\<close>

definition triple :: "('s \<Rightarrow> bool) \<Rightarrow> 's cmd \<Rightarrow> ('s \<Rightarrow> bool) \<Rightarrow> (int \<Rightarrow> 's \<Rightarrow> bool) \<Rightarrow> bool" where
  "triple P c Q R \<longleftrightarrow> (\<forall>s. P s \<longrightarrow>
     (\<exists>s'. c s = Some (None, s') \<and> Q s') \<or> (\<exists>r s'. c s = Some (Some r, s') \<and> R r s'))"

lemma tripleI:
  assumes "\<And>s. P s \<Longrightarrow> (\<exists>s'. c s = Some (None, s') \<and> Q s') \<or> (\<exists>r s'. c s = Some (Some r, s') \<and> R r s')"
  shows "triple P c Q R"
  using assms by (simp add: triple_def)

lemma tripleE:
  assumes "triple P c Q R" "P s"
  obtains (normal) s' where "c s = Some (None, s')" "Q s'"
  | (return) r s' where "c s = Some (Some r, s')" "R r s'"
  using assms unfolding triple_def by blast

lemma triple_skip: "triple P skip P R"
  by (simp add: triple_def skip_def)

lemma triple_seq: "triple P c Q R \<Longrightarrow> triple Q d S R \<Longrightarrow> triple P (seq c d) S R"
  unfolding triple_def seq_def by fastforce

lemma triple_Nil: "triple P (seqs []) P R"
  by (simp add: triple_skip)

lemma triple_Cons: "triple P c Q R \<Longrightarrow> triple Q (seqs cs) S R \<Longrightarrow> triple P (seqs (c # cs)) S R"
  by (simp add: triple_seq)

lemma triple_modify: "(\<And>s. P s \<Longrightarrow> Q (f s)) \<Longrightarrow> triple P (modify f) Q R"
  by (simp add: triple_def modify_def)

lemma triple_return: "(\<And>s. P s \<Longrightarrow> R r s) \<Longrightarrow> triple P (return_with r) Q R"
  by (simp add: triple_def return_with_def)

lemma triple_when_c: "(b \<Longrightarrow> triple P c Q R) \<Longrightarrow> (\<And>s. \<not> b \<Longrightarrow> P s \<Longrightarrow> Q s) \<Longrightarrow> triple P (when_c b c) Q R"
  by (auto simp: when_c_def skip_def triple_def)

lemma triple_weaken:
  "triple P c Q R \<Longrightarrow> (\<And>s. P' s \<Longrightarrow> P s) \<Longrightarrow> (\<And>s. Q s \<Longrightarrow> Q' s) \<Longrightarrow>
   (\<And>r s. R r s \<Longrightarrow> R' r s) \<Longrightarrow> triple P' c Q' R'"
  unfolding triple_def by blast

lemma triple_if:
  "(b \<Longrightarrow> triple P c Q R) \<Longrightarrow> (\<not> b \<Longrightarrow> triple P d Q R) \<Longrightarrow> triple P (if b then c else d) Q R"
  by simp

lemma seq_normalE:
  assumes "seq c d s = Some (None, s')"
  obtains t where "c s = Some (None, t)" "d t = Some (None, s')"
  using assms by (auto simp: seq_def split: option.splits)

section \<open>Bit fields\<close>

text \<open>
  The two expressions of the register access layer: extracting the \<open>sz\<close> bits at \<open>sh\<close>, and
  replacing them.
\<close>

definition fld_get :: "u32 \<Rightarrow> nat \<Rightarrow> nat \<Rightarrow> u32" where
  "fld_get w sh sz = drop_bit sh w AND (push_bit sz 1 - 1)"

definition fld_put :: "u32 \<Rightarrow> nat \<Rightarrow> nat \<Rightarrow> u32 \<Rightarrow> u32" where
  "fld_put w sh sz v =
     (let m = push_bit sh (push_bit sz 1 - 1) in (w AND NOT m) OR (push_bit sh v AND m))"

lemma push_bit_one_minus_one: "push_bit n 1 - 1 = (mask n :: 'a::len word)"
  by (simp add: mask_eq_exp_minus_1 push_bit_of_1)

lemma fld_get_mask: "fld_get w sh sz = drop_bit sh w AND mask sz"
  unfolding fld_get_def push_bit_one_minus_one ..

lemma fld_put_mask:
  "fld_put w sh sz v = (w AND NOT (push_bit sh (mask sz))) OR (push_bit sh v AND push_bit sh (mask sz))"
  unfolding fld_put_def push_bit_one_minus_one Let_def ..

lemma fld_get_put_same:
  "sh + sz \<le> 32 \<Longrightarrow> fld_get (fld_put w sh sz v) sh sz = v AND mask sz"
  by (rule bit_word_eqI) (auto simp: fld_get_mask fld_put_mask bit_simps)

lemma fld_get_put_other:
  "sh + sz \<le> sh' \<or> sh' + sz' \<le> sh \<Longrightarrow> fld_get (fld_put w sh sz v) sh' sz' = fld_get w sh' sz'"
  by (rule bit_word_eqI) (auto simp: fld_get_mask fld_put_mask bit_simps dest: bit_imp_le_length)

lemma fld_put_put:
  "fld_put (fld_put w sh sz v) sh sz v' = fld_put w sh sz v'"
  by (rule bit_word_eqI) (auto simp: fld_put_mask bit_simps)

lemma fld_get_less:
  assumes "sz < 32" shows "unat (fld_get w sh sz) < 2 ^ sz"
proof -
  have "fld_get w sh sz = take_bit sz (drop_bit sh w)"
    by (simp add: fld_get_mask take_bit_eq_mask)
  with assms show ?thesis by (simp add: unsigned_take_bit_eq take_bit_nat_less_exp)
qed

lemma ucast_and_mask [simp]:
  "LENGTH('a::len) \<le> n \<Longrightarrow> (ucast (k::'a word) :: u32) AND mask n = ucast k"
  by (rule bit_word_eqI) (auto simp: bit_simps dest: bit_imp_le_length)

lemma and_mask_small:
  assumes "unat v < 2 ^ n" shows "(v::u32) AND mask n = v"
proof -
  have "unat (take_bit n v) = unat v"
    using assms by (simp add: unsigned_take_bit_eq take_bit_nat_eq_self)
  then show ?thesis
    by (metis word_eq_iff_unsigned take_bit_eq_mask)
qed

lemma ucast_ucast_id [simp]:
  "LENGTH('a) \<le> LENGTH('b) \<Longrightarrow> (ucast (ucast (k::'a::len word) :: 'b::len word) :: 'a word) = k"
  by (rule bit_word_eqI) (auto simp: bit_simps)

lemma unat_ucast_up [simp]:
  assumes "LENGTH('a) \<le> LENGTH('b)"
  shows "unat (ucast (w::'a::len word) :: 'b::len word) = unat w"
proof -
  have "unat w < 2 ^ LENGTH('a)" by (rule unsigned_less)
  also have "(2::nat) ^ LENGTH('a) \<le> 2 ^ LENGTH('b)"
    using assms by (intro power_increasing) auto
  finally show ?thesis by (simp add: unsigned_ucast_eq take_bit_nat_eq_self)
qed

lemma unat_of_nat_small: "n < 2 ^ LENGTH('a) \<Longrightarrow> unat (of_nat n :: 'a::len word) = n"
  by (simp add: unsigned_of_nat take_bit_nat_eq_self)

section \<open>Tables as lists\<close>

lemma find_upt_Some:
  "find P [0..<n] = Some i \<longleftrightarrow> i < n \<and> P i \<and> (\<forall>j<i. \<not> P j)"
  by (auto simp: find_Some_iff)

lemma find_upt_None: "find P [0..<n] = None \<longleftrightarrow> (\<forall>i<n. \<not> P i)"
  by (auto simp: find_None_iff)

lemma unat_dec_word: "w \<noteq> 0 \<Longrightarrow> unat (w - 1) = unat w - (1::nat)"
  by (rule unat_minus_one)

lemma unat_inc_word: "unat (w :: u16) < 65535 \<Longrightarrow> unat (w + 1) = unat w + 1"
  by (simp add: unat_word_ariths)

end
