(* ===== verification/Regs.thy ===== *)
theory Regs
  imports Prelude
begin

text \<open>
  The register access layer, \<^verbatim>\<open>ltq_flow_ral.c\<close>. The switch is a bank of 32-bit registers at
  \<^verbatim>\<open>VR9_BASE_ADDRESS\<close>, addressed by a signed 16-bit \<open>Offset\<close> in words; the driver reads and writes
  bit fields of it. \<open>hw\<close> holds the registers by offset (\<open>reg_addr_inj\<close> says that distinct
  offsets are distinct addresses) and, in \<open>priv\<close>, whatever else the device keeps. What
  the device does by itself is a parameter \<open>hwstep\<close> of the models, applied once per turn of a
  polling loop.
\<close>

record 'p hw =
  regs :: "16 word \<Rightarrow> u32"
  priv :: 'p

text \<open>The bus address of a register: \<^verbatim>\<open>VR9_BASE_ADDRESS + (Offset * 4)\<close>, \<open>Offset\<close> being an int16.\<close>

definition VR9_BASE_ADDRESS :: u32 where
  "VR9_BASE_ADDRESS = 0xBE108000"

definition reg_addr :: "16 word \<Rightarrow> u32" where
  "reg_addr off = VR9_BASE_ADDRESS + scast off * 4"

definition ifx_ethsw_ll_DirectAccessRead :: "16 word \<Rightarrow> nat \<Rightarrow> nat \<Rightarrow> 'p hw \<Rightarrow> u32" where
  "ifx_ethsw_ll_DirectAccessRead off sh sz h =
     (let regValue = regs h off;
          mask = push_bit sz 1 - 1;
          regValue = drop_bit sh regValue
      in regValue AND mask)"

definition ifx_ethsw_ll_DirectAccessWrite :: "16 word \<Rightarrow> nat \<Rightarrow> nat \<Rightarrow> u32 \<Rightarrow> 'p hw \<Rightarrow> 'p hw" where
  "ifx_ethsw_ll_DirectAccessWrite off sh sz value h =
     (let regValue = regs h off;
          mask = push_bit sz 1 - 1;
          mask = push_bit sh mask;
          value = push_bit sh value AND mask;
          value = (regValue AND NOT mask) OR value
      in h\<lparr>regs := (regs h)(off := value)\<rparr>)"

text \<open>
  A register field as the headers define it: \<^verbatim>\<open>_OFFSET\<close>, \<^verbatim>\<open>_SHIFT\<close>, \<^verbatim>\<open>_SIZE\<close>.
  \<open>at F k\<close> is the field of the \<open>k\<close>-th register after it.
\<close>

type_synonym field = "16 word \<times> nat \<times> nat"

fun rdf :: "field \<Rightarrow> 'p hw \<Rightarrow> u32" where
  "rdf (off, sh, sz) h = ifx_ethsw_ll_DirectAccessRead off sh sz h"

fun wrf :: "field \<Rightarrow> u32 \<Rightarrow> 'p hw \<Rightarrow> 'p hw" where
  "wrf (off, sh, sz) v h = ifx_ethsw_ll_DirectAccessWrite off sh sz v h"

fun at :: "field \<Rightarrow> 16 word \<Rightarrow> field" where
  "at (off, sh, sz) k = (off + k, sh, sz)"

fun fwf :: "field \<Rightarrow> bool" where
  "fwf (off, sh, sz) \<longleftrightarrow> sh + sz \<le> 32"

fun fwidth :: "field \<Rightarrow> nat" where
  "fwidth (off, sh, sz) = sz"

fun fdisj :: "field \<Rightarrow> field \<Rightarrow> bool" where
  "fdisj (off, sh, sz) (off', sh', sz') \<longleftrightarrow> off \<noteq> off' \<or> sh + sz \<le> sh' \<or> sh' + sz' \<le> sh"

lemma read_fld_get: "ifx_ethsw_ll_DirectAccessRead off sh sz h = fld_get (regs h off) sh sz"
  by (simp only: ifx_ethsw_ll_DirectAccessRead_def fld_get_def Let_def)

lemma write_fld_put:
  "ifx_ethsw_ll_DirectAccessWrite off sh sz v h = h\<lparr>regs := (regs h)(off := fld_put (regs h off) sh sz v)\<rparr>"
  by (simp only: ifx_ethsw_ll_DirectAccessWrite_def fld_put_def Let_def)

lemma reg_addr_inj: "reg_addr a = reg_addr b \<longleftrightarrow> a = b"
proof
  assume "reg_addr a = reg_addr b"
  then have *: "push_bit 2 (scast a :: u32) = push_bit 2 (scast b)"
    by (simp add: reg_addr_def push_bit_eq_mult mult.commute)
  show "a = b"
  proof (rule bit_word_eqI)
    fix n assume n: "n < LENGTH(16)"
    have "bit (push_bit 2 (scast a :: u32)) (n + 2) = bit (push_bit 2 (scast b :: u32)) (n + 2)"
      by (simp add: *)
    with n show "bit a n = bit b n" by (simp add: bit_simps)
  qed
qed simp

lemma rdf_wrf_same [field_simps_hw]: "fwf F \<Longrightarrow> rdf F (wrf F v h) = v AND mask (fwidth F)"
  by (cases F) (simp add: read_fld_get write_fld_put fld_get_put_same)

lemma rdf_wrf_other [field_simps_hw]: "fdisj F G \<Longrightarrow> rdf G (wrf F v h) = rdf G h"
  by (cases F, cases G) (auto simp: read_fld_get write_fld_put fld_get_put_other)

lemma rdf_less: "fwidth F < 32 \<Longrightarrow> unat (rdf F h) < 2 ^ fwidth F"
  by (cases F) (simp add: read_fld_get fld_get_less)

lemma wrf_wrf_same: "wrf F v (wrf F w h) = wrf F v h"
  by (cases F) (simp add: write_fld_put fld_put_put)

lemma priv_wrf [simp]: "priv (wrf F v h) = priv h"
  by (cases F) (simp add: write_fld_put)

lemma regs_wrf_other [simp]: "fst F \<noteq> off \<Longrightarrow> regs (wrf F v h) off = regs h off"
  by (cases F) (simp add: write_fld_put)

declare rdf.simps [simp del] wrf.simps [simp del]

section \<open>Sequences of writes\<close>

text \<open>A sequence of field writes, in order.\<close>

fun wrfs :: "(field \<times> u32) list \<Rightarrow> 'p hw \<Rightarrow> 'p hw" where
  "wrfs [] h = h"
| "wrfs ((F, v) # ws) h = wrfs ws (wrf F v h)"

text \<open>The writes of a loop over the ports, in order; \<open>f j\<close> are those of its body.\<close>

definition port_loop :: "nat \<Rightarrow> (nat \<Rightarrow> (field \<times> u32) list) \<Rightarrow> 'p hw \<Rightarrow> 'p hw" where
  "port_loop n f = wrfs (concat (map f [0..<n]))"

lemma wrfs_other: "(\<And>F v. (F, v) \<in> set ws \<Longrightarrow> fdisj F G) \<Longrightarrow> rdf G (wrfs ws h) = rdf G h"
proof (induction ws arbitrary: h)
  case (Cons w ws)
  obtain F v where w: "w = (F, v)" by (cases w)
  with Cons.prems [of F v] have "fdisj F G" by simp
  moreover have "rdf G (wrfs ws (wrf F v h)) = rdf G (wrf F v h)" using Cons.prems by (intro Cons.IH) auto
  ultimately show ?case by (simp add: w rdf_wrf_other)
qed simp

lemma wrfs_all:
  assumes "(G, v) \<in> set ws" "fwf G" "\<And>F u. (F, u) \<in> set ws \<Longrightarrow> (F, u) = (G, v) \<or> fdisj F G"
  shows "rdf G (wrfs ws h) = v AND mask (fwidth G)"
  using assms(1,3)
proof (induction ws arbitrary: h)
  case (Cons w ws)
  obtain F u where w: "w = (F, u)" by (cases w)
  show ?case
  proof (cases "(G, v) \<in> set ws")
    case True with Cons show ?thesis by (simp add: w)
  next
    case False
    with Cons.prems have e: "F = G" "u = v" by (auto simp: w)
    have "rdf G (wrfs ws (wrf G v h)) = rdf G (wrf G v h)"
      using Cons.prems(2) False by (intro wrfs_other) auto
    then show ?thesis by (simp add: w e rdf_wrf_same assms(2))
  qed
qed simp

lemma priv_wrfs [simp]: "priv (wrfs ws h) = priv h"
proof (induction ws arbitrary: h)
  case (Cons w ws) then show ?case by (cases w) simp
qed simp

lemma regs_wrfs_other: "(\<And>F v. (F, v) \<in> set ws \<Longrightarrow> fst F \<noteq> off) \<Longrightarrow> regs (wrfs ws h) off = regs h off"
proof (induction ws arbitrary: h)
  case (Cons w ws)
  obtain F v where w: "w = (F, v)" by (cases w)
  have "regs (wrfs ws (wrf F v h)) off = regs (wrf F v h) off" using Cons.prems by (intro Cons.IH) auto
  also have "\<dots> = regs h off" using Cons.prems [of F v] by (simp add: w)
  finally show ?case by (simp add: w)
qed simp

text \<open>
  Registers that repeat per port: the offsets of different ports and of different blocks differ as
  numbers, and \<open>unat\<close> of an offset is computed without wrap-around.
\<close>

named_theorems port_simps \<open>offsets of registers that repeat\<close>

lemma fdisj_unat [port_simps]:
  "fdisj (off, sh, sz) (off', sh', sz') \<longleftrightarrow> unat off \<noteq> unat off' \<or> sh + sz \<le> sh' \<or> sh' + sz' \<le> sh"
  unfolding fdisj.simps by (metis unsigned_word_eqI)

lemma unat_port_off [port_simps]:
  assumes "numeral k + p * numeral s < (65536 :: nat)"
  shows "unat (numeral k + of_nat p * numeral s :: 16 word) = numeral k + p * numeral s"
proof -
  have "(numeral k + of_nat p * numeral s :: 16 word) = of_nat (numeral k + p * numeral s)" by simp
  moreover have "unat (of_nat (numeral k + p * numeral s) :: 16 word) = numeral k + p * numeral s"
    by (rule unat_of_nat_small) (use assms in simp)
  ultimately show ?thesis by (simp only:)
qed

lemma unat_preg [port_simps]:
  assumes "numeral k + numeral n * unat (p::'a::len word) < (65536 :: nat)"
  shows "unat (numeral k + numeral n * ucast p :: 16 word) = numeral k + numeral n * unat p"
proof -
  have "(ucast p :: 16 word) = of_nat (unat p)" by simp
  then have "(numeral k + numeral n * ucast p :: 16 word) = of_nat (numeral k + numeral n * unat p)" by simp
  moreover have "unat (of_nat (numeral k + numeral n * unat p) :: 16 word) = numeral k + numeral n * unat p"
    by (rule unat_of_nat_small) (use assms in simp)
  ultimately show ?thesis by (simp only:)
qed

lemma wrf_outside: "fdisj F (off, 0, 32) \<Longrightarrow> regs (wrf F v h) off = regs h off"
  by (cases F) (auto simp: wrf.simps write_fld_put fld_put_mask)

section \<open>Polling\<close>

text \<open>
  \<open>do { read F } while (value != 0)\<close>. Between two reads the device makes a step. The result is
  \<open>None\<close> when the field never reads 0, i.e. when the driver spins forever.
\<close>

definition poll :: "('p hw \<Rightarrow> 'p hw) \<Rightarrow> field \<Rightarrow> 'p hw \<Rightarrow> 'p hw option" where
  "poll hwstep F h = while_option (\<lambda>h. rdf F h \<noteq> 0) hwstep h"

lemma poll_ready [simp]: "rdf F h = 0 \<Longrightarrow> poll hwstep F h = Some h"
  by (simp add: poll_def while_option_unfold)

lemma poll_step: "rdf F h \<noteq> 0 \<Longrightarrow> poll hwstep F h = poll hwstep F (hwstep h)"
  unfolding poll_def by (subst while_option_unfold) simp

lemma poll_done: "poll hwstep F h = Some h' \<Longrightarrow> rdf F h' = 0"
  unfolding poll_def by (drule while_option_stop) simp

lemma poll_terminates:
  assumes "\<And>h. rdf F h \<noteq> 0 \<Longrightarrow> rdf F (hwstep h) = 0 \<or> (m (hwstep h) :: nat) < m h"
  shows "\<exists>h'. poll hwstep F h = Some h'"
proof (induction "m h" arbitrary: h rule: less_induct)
  case less
  show ?case
  proof (cases "rdf F h = 0")
    case False
    with assms [OF False] less show ?thesis by (auto simp: poll_step)
  qed simp
qed

end
