(* ===== verification/PCE_Access.thy ===== *)
theory PCE_Access
  imports Regs
begin

text \<open>
  Access to the lookup tables of the packet classification engine (PCE): the entry of
  \<^verbatim>\<open>ltq_flow_pce.h\<close> and the four access routines of \<^verbatim>\<open>ltq_flow_pce.c\<close>, which pass an entry to
  the device through a window of registers and poll the busy bit \<^verbatim>\<open>PCE_TBL_CTRL.BAS\<close>.
  What the device does with the window is the interface \<open>pce_engine\<close>; \<open>ref_step\<close> is a device
  that honours it.
\<close>

unbundle bit_operations_syntax

section \<open>The table window\<close>

abbreviation (input) TBL_ADDR_ADDR :: field where "TBL_ADDR_ADDR \<equiv> (0x44E, 0, 11)"
abbreviation (input) TBL_CTRL_BAS :: field where "TBL_CTRL_BAS \<equiv> (0x44F, 15, 1)"
abbreviation (input) TBL_CTRL_TYPE :: field where "TBL_CTRL_TYPE \<equiv> (0x44F, 13, 1)"
abbreviation (input) TBL_CTRL_VLD :: field where "TBL_CTRL_VLD \<equiv> (0x44F, 12, 1)"
abbreviation (input) TBL_CTRL_GMAP :: field where "TBL_CTRL_GMAP \<equiv> (0x44F, 7, 4)"
abbreviation (input) TBL_CTRL_OPMOD :: field where "TBL_CTRL_OPMOD \<equiv> (0x44F, 5, 2)"
abbreviation (input) TBL_CTRL_ADDR :: field where "TBL_CTRL_ADDR \<equiv> (0x44F, 0, 5)"
abbreviation (input) TBL_MASK_0 :: field where "TBL_MASK_0 \<equiv> (0x448, 0, 16)"

text \<open>\<^verbatim>\<open>PCE_TBL_KEY_0\<close> to \<^verbatim>\<open>KEY_8\<close> and \<^verbatim>\<open>PCE_TBL_VAL_0\<close> to \<^verbatim>\<open>VAL_6\<close>.\<close>

abbreviation (input) TBL_KEYS :: "field list" where
  "TBL_KEYS \<equiv> [(0x447, 0, 16), (0x446, 0, 16), (0x445, 0, 16), (0x444, 0, 16), (0x443, 0, 16),
     (0x442, 0, 16), (0x441, 0, 16), (0x440, 0, 16), (0x43F, 0, 16)]"

abbreviation (input) TBL_VALS :: "field list" where
  "TBL_VALS \<equiv> [(0x44D, 0, 16), (0x44C, 0, 16), (0x44B, 0, 16), (0x44A, 0, 16), (0x449, 0, 16),
     (0x437, 0, 16), (0x436, 0, 16)]"

abbreviation (input) OP_ADRD :: u32 where "OP_ADRD \<equiv> 0"
abbreviation (input) OP_ADWR :: u32 where "OP_ADWR \<equiv> 1"
abbreviation (input) OP_KSRD :: u32 where "OP_KSRD \<equiv> 2"
abbreviation (input) OP_KSWR :: u32 where "OP_KSWR \<equiv> 3"

text \<open>\<^verbatim>\<open>LOOKUP_TABLE_ADDRESS_t\<close>, the tables used by the modelled code.\<close>

abbreviation (input) PCE_PARS_INDEX :: u16 where "PCE_PARS_INDEX \<equiv> 0x00"
abbreviation (input) PCE_ACTVLAN_INDEX :: u16 where "PCE_ACTVLAN_INDEX \<equiv> 0x01"
abbreviation (input) PCE_VLANMAP_INDEX :: u16 where "PCE_VLANMAP_INDEX \<equiv> 0x02"
abbreviation (input) PCE_PPPOE_INDEX :: u16 where "PCE_PPPOE_INDEX \<equiv> 0x03"
abbreviation (input) PCE_PROTOCOL_INDEX :: u16 where "PCE_PROTOCOL_INDEX \<equiv> 0x04"
abbreviation (input) PCE_APPLICATION_INDEX :: u16 where "PCE_APPLICATION_INDEX \<equiv> 0x05"
abbreviation (input) PCE_IP_DASA_MSB_INDEX :: u16 where "PCE_IP_DASA_MSB_INDEX \<equiv> 0x06"
abbreviation (input) PCE_IP_DASA_LSB_INDEX :: u16 where "PCE_IP_DASA_LSB_INDEX \<equiv> 0x07"
abbreviation (input) PCE_PACKET_INDEX :: u16 where "PCE_PACKET_INDEX \<equiv> 0x08"
abbreviation (input) PCE_MAC_BRIDGE_INDEX :: u16 where "PCE_MAC_BRIDGE_INDEX \<equiv> 0x0B"
abbreviation (input) PCE_MAC_DASA_INDEX :: u16 where "PCE_MAC_DASA_INDEX \<equiv> 0x0C"
abbreviation (input) PCE_TFLOW_INDEX :: u16 where "PCE_TFLOW_INDEX \<equiv> 0x0F"

text \<open>
  \<^verbatim>\<open>IFX_ETHSW_XWAYFLOW_PCE_TABLE_ENTRY_t\<close>: 16 keys, 7 values; \<open>zero_entry\<close> is the structure
  after \<^verbatim>\<open>memset(&pcetable, 0, ...)\<close>.
\<close>

record pce_entry =
  e_key :: "u16 list"
  e_mask :: u16
  e_val :: "u16 list"
  e_table :: u16
  e_index :: u16
  e_type :: "1 word"
  e_valid :: "1 word"
  e_group :: "4 word"

definition zero_entry :: pce_entry where
  "zero_entry = \<lparr>e_key = replicate 16 0, e_mask = 0, e_val = replicate 7 0, e_table = 0, e_index = 0,
     e_type = 0, e_valid = 0, e_group = 0\<rparr>"

definition entry_wf :: "pce_entry \<Rightarrow> bool" where
  "entry_wf e \<longleftrightarrow> length (e_key e) = 16 \<and> length (e_val e) = 7"

section \<open>The access routines\<close>

text \<open>
  The keys are written from the highest down, like the values. The routines always return
  \<^verbatim>\<open>IFX_SUCCESS\<close> if they return, so the result is the device state alone (and the entry, for the
  reads); the last read of \<^verbatim>\<open>pce_table_write\<close>, whose value is not used, is left out.
\<close>

definition key_writes :: "pce_entry \<Rightarrow> (field \<times> u32) list" where
  "key_writes e = map (\<lambda>k. (TBL_KEYS ! k, ucast (e_key e ! k))) [8, 7, 6, 5, 4, 3, 2, 1, 0]"

definition val_writes :: "pce_entry \<Rightarrow> (field \<times> u32) list" where
  "val_writes e = map (\<lambda>k. (TBL_VALS ! k, ucast (e_val e ! k))) [6, 5, 4, 3, 2, 1, 0]"

definition flag_writes :: "pce_entry \<Rightarrow> (field \<times> u32) list" where
  "flag_writes e = [(TBL_CTRL_TYPE, ucast (e_type e)), (TBL_CTRL_VLD, ucast (e_valid e)),
     (TBL_CTRL_GMAP, ucast (e_group e))]"

definition ifx_ethsw_xwayflow_pce_table_write ::
  "('p hw \<Rightarrow> 'p hw) \<Rightarrow> pce_entry \<Rightarrow> 'p hw \<Rightarrow> 'p hw option" where
  "ifx_ethsw_xwayflow_pce_table_write hwstep e h0 = do {
     h1 \<leftarrow> poll hwstep TBL_CTRL_BAS h0;
     let h2 = wrfs [(TBL_ADDR_ADDR, ucast (e_index e)), (TBL_CTRL_ADDR, ucast (e_table e)),
                    (TBL_CTRL_OPMOD, OP_ADWR)] h1;
     let h3 = wrfs (key_writes e @ [(TBL_MASK_0, ucast (e_mask e))] @ val_writes e) h2;
     let h4 = wrfs (flag_writes e @ [(TBL_CTRL_BAS, 1)]) h3;
     poll hwstep TBL_CTRL_BAS h4 }"

definition read_vals :: "'p hw \<Rightarrow> u16 list" where
  "read_vals h = map (\<lambda>F. ucast (rdf F h)) TBL_VALS"

definition read_keys :: "'p hw \<Rightarrow> u16 list" where
  "read_keys h = map (\<lambda>F. ucast (rdf F h)) TBL_KEYS"

definition read_flags :: "'p hw \<Rightarrow> pce_entry \<Rightarrow> pce_entry" where
  "read_flags h e = e\<lparr>e_mask := ucast (rdf TBL_MASK_0 h), e_type := ucast (rdf TBL_CTRL_TYPE h),
     e_valid := ucast (rdf TBL_CTRL_VLD h), e_group := ucast (rdf TBL_CTRL_GMAP h)\<rparr>"

definition ifx_ethsw_xwayflow_pce_table_read ::
  "('p hw \<Rightarrow> 'p hw) \<Rightarrow> pce_entry \<Rightarrow> 'p hw \<Rightarrow> (pce_entry \<times> 'p hw) option" where
  "ifx_ethsw_xwayflow_pce_table_read hwstep e h0 = do {
     h1 \<leftarrow> poll hwstep TBL_CTRL_BAS h0;
     let h2 = wrfs [(TBL_ADDR_ADDR, ucast (e_index e)), (TBL_CTRL_ADDR, ucast (e_table e)),
                    (TBL_CTRL_OPMOD, OP_ADRD), (TBL_CTRL_BAS, 1)] h1;
     h3 \<leftarrow> poll hwstep TBL_CTRL_BAS h2;
     Some (read_flags h3 (e\<lparr>e_key := read_keys h3 @ drop 9 (e_key e), e_val := read_vals h3\<rparr>), h3) }"

definition ifx_ethsw_xwayflow_pce_table_key_read ::
  "('p hw \<Rightarrow> 'p hw) \<Rightarrow> pce_entry \<Rightarrow> 'p hw \<Rightarrow> (pce_entry \<times> 'p hw) option" where
  "ifx_ethsw_xwayflow_pce_table_key_read hwstep e h0 = do {
     h1 \<leftarrow> poll hwstep TBL_CTRL_BAS h0;
     let h2 = wrfs ([(TBL_CTRL_ADDR, ucast (e_table e))] @ key_writes e @
                    [(TBL_CTRL_OPMOD, OP_KSRD), (TBL_CTRL_BAS, 1)]) h1;
     h3 \<leftarrow> poll hwstep TBL_CTRL_BAS h2;
     Some (read_flags h3 (e\<lparr>e_val := read_vals h3\<rparr>), h3) }"

definition ifx_ethsw_xwayflow_pce_table_key_write ::
  "('p hw \<Rightarrow> 'p hw) \<Rightarrow> pce_entry \<Rightarrow> 'p hw \<Rightarrow> 'p hw option" where
  "ifx_ethsw_xwayflow_pce_table_key_write hwstep e h0 = do {
     h1 \<leftarrow> poll hwstep TBL_CTRL_BAS h0;
     let h2 = wrfs [(TBL_CTRL_ADDR, ucast (e_table e)), (TBL_CTRL_OPMOD, OP_KSWR)] h1;
     let h3 = wrfs (key_writes e @ [(TBL_MASK_0, ucast (e_mask e))] @ val_writes e) h2;
     let h4 = wrfs (flag_writes e @ [(TBL_CTRL_BAS, 1)]) h3;
     poll hwstep TBL_CTRL_BAS h4 }"

section \<open>What the device sees\<close>

text \<open>
  The columns of an entry that pass through the window, the window as the device reads it, and
  the command it finds there.
\<close>

record pce_img =
  i_key :: "u16 list"
  i_mask :: u16
  i_val :: "u16 list"
  i_type :: "1 word"
  i_valid :: "1 word"
  i_group :: "4 word"

definition img_of :: "pce_entry \<Rightarrow> pce_img" where
  "img_of e = \<lparr>i_key = take 9 (e_key e), i_mask = e_mask e, i_val = e_val e, i_type = e_type e,
     i_valid = e_valid e, i_group = e_group e\<rparr>"

definition zero_img :: pce_img where
  "zero_img = \<lparr>i_key = replicate 9 0, i_mask = 0, i_val = replicate 7 0, i_type = 0, i_valid = 0,
     i_group = 0\<rparr>"

definition win :: "'p hw \<Rightarrow> pce_img" where
  "win h = \<lparr>i_key = read_keys h, i_mask = ucast (rdf TBL_MASK_0 h), i_val = read_vals h,
     i_type = ucast (rdf TBL_CTRL_TYPE h), i_valid = ucast (rdf TBL_CTRL_VLD h),
     i_group = ucast (rdf TBL_CTRL_GMAP h)\<rparr>"

definition with_img :: "pce_img \<Rightarrow> pce_entry \<Rightarrow> pce_entry" where
  "with_img m e = e\<lparr>e_key := i_key m @ drop 9 (e_key e), e_mask := i_mask m, e_val := i_val m,
     e_type := i_type m, e_valid := i_valid m, e_group := i_group m\<rparr>"

definition idle :: "'p hw \<Rightarrow> bool" where
  "idle h \<longleftrightarrow> rdf TBL_CTRL_BAS h = 0"

definition cmd_op :: "'p hw \<Rightarrow> nat" where "cmd_op h = unat (rdf TBL_CTRL_OPMOD h)"
definition cmd_tbl :: "'p hw \<Rightarrow> nat" where "cmd_tbl h = unat (rdf TBL_CTRL_ADDR h)"
definition cmd_idx :: "'p hw \<Rightarrow> nat" where "cmd_idx h = unat (rdf TBL_ADDR_ADDR h)"

text \<open>The registers of the window, and the number of rows of the tables (\<^verbatim>\<open>ltq_flow_pce.h\<close>, \<^verbatim>\<open>ltq_flow_core.h\<close>).\<close>

definition in_window :: "16 word \<Rightarrow> bool" where
  "in_window off \<longleftrightarrow> off \<in> set (map fst (TBL_KEYS @ TBL_VALS @ [TBL_MASK_0, TBL_ADDR_ADDR, TBL_CTRL_BAS]))"

definition pce_table_size :: "nat \<Rightarrow> nat" where
  "pce_table_size t =
     (if t \<in> {3, 6, 8} then 16 else if t = 4 then 32
      else if t \<in> {0, 1, 2, 5, 7, 10, 12, 13, 14, 15} then 64 else if t = 11 then 2048
      else if t \<in> {9, 18, 19} then 8 else if t = 16 then 16 else if t = 17 then 128 else 0)"

lemma idx_bits: "ucast (ucast (i::u16) :: u32) = i" by simp

lemma mask_eq_simps:
  "(mask 16 :: u32) = 0xFFFF" "(mask 11 :: u32) = 0x7FF" "(mask 5 :: u32) = 0x1F"
  "(mask 4 :: u32) = 0xF" "(mask 2 :: u32) = 3" "(mask (Suc 0) :: u32) = 1"
  by (simp_all add: mask_eq_exp_minus_1)

lemma ucast_1_and_1 [simp]: "(ucast (k :: 1 word) :: u32) AND 1 = ucast k"
  using ucast_and_mask [of 1 k] by (simp add: mask_eq_simps)

lemma entry_wf_zero [simp]: "entry_wf zero_entry"
  by (simp add: entry_wf_def zero_entry_def)

lemma nine_keys:
  "length ks = 16 \<Longrightarrow> [ks ! 0, ks ! Suc 0, ks ! 2, ks ! 3, ks ! 4, ks ! 5, ks ! 6, ks ! 7, ks ! 8] = take 9 ks"
  by (rule nth_equalityI) (auto simp: less_Suc_eq numeral_eq_Suc)

lemma seven_vals:
  "length vs = 7 \<Longrightarrow> [vs ! 0, vs ! Suc 0, vs ! 2, vs ! 3, vs ! 4, vs ! 5, vs ! 6] = vs"
  by (rule nth_equalityI) (auto simp: less_Suc_eq numeral_eq_Suc)

text \<open>What the writes of \<^verbatim>\<open>pce_table_write\<close> leave in the window.\<close>

definition write_setup :: "pce_entry \<Rightarrow> 'p hw \<Rightarrow> 'p hw" where
  "write_setup e h1 = wrfs (flag_writes e @ [(TBL_CTRL_BAS, 1)])
     (wrfs (key_writes e @ [(TBL_MASK_0, ucast (e_mask e))] @ val_writes e)
       (wrfs [(TBL_ADDR_ADDR, ucast (e_index e)), (TBL_CTRL_ADDR, ucast (e_table e)),
              (TBL_CTRL_OPMOD, OP_ADWR)] h1))"

definition read_setup :: "pce_entry \<Rightarrow> 'p hw \<Rightarrow> 'p hw" where
  "read_setup e h1 = wrfs [(TBL_ADDR_ADDR, ucast (e_index e)), (TBL_CTRL_ADDR, ucast (e_table e)),
                    (TBL_CTRL_OPMOD, OP_ADRD), (TBL_CTRL_BAS, 1)] h1"

lemmas setup_defs = key_writes_def val_writes_def flag_writes_def

lemma write_setup_win: "entry_wf e \<Longrightarrow> win (write_setup e h) = img_of e"
  by (simp add: win_def read_keys_def read_vals_def write_setup_def setup_defs field_simps_hw img_of_def
      nine_keys seven_vals entry_wf_def)

lemma write_setup_cmd:
  "rdf TBL_CTRL_BAS (write_setup e h) = 1"
  "rdf TBL_CTRL_OPMOD (write_setup e h) = OP_ADWR"
  "rdf TBL_CTRL_ADDR (write_setup e h) = ucast (e_table e) AND mask 5"
  "rdf TBL_ADDR_ADDR (write_setup e h) = ucast (e_index e) AND mask 11"
  by (simp_all add: write_setup_def setup_defs field_simps_hw mask_eq_simps)

lemma write_setup_priv [simp]: "priv (write_setup e h) = priv h"
  by (simp add: write_setup_def setup_defs)

lemma write_setup_regs [simp]: "\<not> in_window off \<Longrightarrow> regs (write_setup e h) off = regs h off"
  by (simp add: write_setup_def setup_defs in_window_def)

lemma read_setup_cmd:
  "rdf TBL_CTRL_BAS (read_setup e h) = 1"
  "rdf TBL_CTRL_OPMOD (read_setup e h) = OP_ADRD"
  "rdf TBL_CTRL_ADDR (read_setup e h) = ucast (e_table e) AND mask 5"
  "rdf TBL_ADDR_ADDR (read_setup e h) = ucast (e_index e) AND mask 11"
  by (simp_all add: read_setup_def field_simps_hw mask_eq_simps)

lemma read_setup_priv [simp]: "priv (read_setup e h) = priv h"
  by (simp add: read_setup_def)

lemma read_setup_regs [simp]: "\<not> in_window off \<Longrightarrow> regs (read_setup e h) off = regs h off"
  by (simp add: read_setup_def in_window_def)

lemma table_write_idle:
  "idle h \<Longrightarrow> ifx_ethsw_xwayflow_pce_table_write hwstep e h = poll hwstep TBL_CTRL_BAS (write_setup e h)"
  by (simp add: ifx_ethsw_xwayflow_pce_table_write_def write_setup_def idle_def)

lemma table_read_idle:
  "idle h \<Longrightarrow> ifx_ethsw_xwayflow_pce_table_read hwstep e h =
     map_option (\<lambda>h. (with_img (win h) e, h)) (poll hwstep TBL_CTRL_BAS (read_setup e h))"
  by (simp add: ifx_ethsw_xwayflow_pce_table_read_def read_setup_def idle_def with_img_def win_def
      read_flags_def map_option_case split: bind_split option.splits)

lemma unat_low_bits: "unat (w::u16) < 2 ^ n \<Longrightarrow> unat ((ucast w :: u32) AND mask n) = unat w"
  by (subst and_mask_small) (simp_all add: unat_ucast_up)

section \<open>The interface of the device\<close>

text \<open>
  \<open>tbl p t i\<close> is row \<open>i\<close> of table \<open>t\<close> in the device state \<open>p\<close>, and \<open>keep t m\<close> what table \<open>t\<close>
  stores of a window \<open>m\<close> (a table has only some of the columns). When the driver has set the
  busy bit the device ends the access; an address-based write stores the window in the addressed
  row, an address-based read loads it. The bridging table (11) also changes by itself, as
  addresses are learned and age out: nothing is promised of it. Registers outside the window
  named by \<open>stable\<close> are left alone.
\<close>

definition driver_tbl :: "('p \<Rightarrow> nat \<Rightarrow> nat \<Rightarrow> pce_img) \<Rightarrow> 'p hw \<Rightarrow> nat \<Rightarrow> nat \<Rightarrow> pce_img" where
  "driver_tbl tbl h t i = (if t = 11 then zero_img else tbl (priv h) t i)"

definition set_row :: "(nat \<Rightarrow> nat \<Rightarrow> pce_img) \<Rightarrow> nat \<Rightarrow> nat \<Rightarrow> pce_img \<Rightarrow> nat \<Rightarrow> nat \<Rightarrow> pce_img" where
  "set_row T t i m = T(t := (T t)(i := m))"

locale pce_engine =
  fixes hwstep :: "'p hw \<Rightarrow> 'p hw"
    and tbl :: "'p \<Rightarrow> nat \<Rightarrow> nat \<Rightarrow> pce_img"
    and keep :: "nat \<Rightarrow> pce_img \<Rightarrow> pce_img"
    and stable :: "16 word set"
  assumes completes: "\<not> idle h \<Longrightarrow> \<exists>h'. poll hwstep TBL_CTRL_BAS h = Some h'"
    and adwr: "\<not> idle h \<Longrightarrow> poll hwstep TBL_CTRL_BAS h = Some h' \<Longrightarrow> cmd_op h = 1 \<Longrightarrow>
        cmd_tbl h \<noteq> 11 \<Longrightarrow> cmd_idx h < pce_table_size (cmd_tbl h) \<Longrightarrow>
        driver_tbl tbl h' = set_row (driver_tbl tbl h) (cmd_tbl h) (cmd_idx h) (keep (cmd_tbl h) (win h))"
    and adrd: "\<not> idle h \<Longrightarrow> poll hwstep TBL_CTRL_BAS h = Some h' \<Longrightarrow> cmd_op h = 0 \<Longrightarrow>
        cmd_tbl h \<noteq> 11 \<Longrightarrow> cmd_idx h < pce_table_size (cmd_tbl h) \<Longrightarrow>
        driver_tbl tbl h' = driver_tbl tbl h \<and> win h' = driver_tbl tbl h (cmd_tbl h) (cmd_idx h)"
    and frame: "\<not> idle h \<Longrightarrow> poll hwstep TBL_CTRL_BAS h = Some h' \<Longrightarrow> off \<in> stable \<Longrightarrow>
        \<not> in_window off \<Longrightarrow> regs h' off = regs h off"
begin

lemma table_write_spec:
  assumes "idle h" "entry_wf e" "unat (e_table e) = t" "unat (e_index e) = i"
    and "t < 32" "t \<noteq> 11" "i < pce_table_size t"
  obtains h' where "ifx_ethsw_xwayflow_pce_table_write hwstep e h = Some h'" "idle h'"
    "driver_tbl tbl h' = set_row (driver_tbl tbl h) t i (keep t (img_of e))"
    "\<And>off. off \<in> stable \<Longrightarrow> \<not> in_window off \<Longrightarrow> regs h' off = regs h off"
proof -
  let ?s = "write_setup e h"
  have i: "i < 2048" using assms(7) by (auto simp: pce_table_size_def split: if_splits)
  have b: "\<not> idle ?s" using write_setup_cmd(1) [of e h] by (simp add: idle_def)
  have t: "cmd_tbl ?s = t" using assms by (simp add: cmd_tbl_def write_setup_cmd unat_low_bits)
  have x: "cmd_idx ?s = i" using assms i by (simp add: cmd_idx_def write_setup_cmd unat_low_bits)
  have o: "cmd_op ?s = 1" by (simp add: cmd_op_def write_setup_cmd)
  have d: "driver_tbl tbl ?s = driver_tbl tbl h" by (simp add: driver_tbl_def fun_eq_iff)
  from completes [OF b] obtain h' where h': "poll hwstep TBL_CTRL_BAS ?s = Some h'" by blast
  show ?thesis
  proof
    show "ifx_ethsw_xwayflow_pce_table_write hwstep e h = Some h'"
      using h' by (simp add: table_write_idle assms(1))
    show "idle h'" using poll_done [OF h'] by (simp add: idle_def)
    show "driver_tbl tbl h' = set_row (driver_tbl tbl h) t i (keep t (img_of e))"
      using adwr [OF b h' o] assms by (simp add: t x d write_setup_win)
    show "regs h' off = regs h off" if "off \<in> stable" "\<not> in_window off" for off
      using frame [OF b h' that] that by simp
  qed
qed

lemma table_read_spec:
  assumes "idle h" "unat (e_table e) = t" "unat (e_index e) = i"
    and "t < 32" "t \<noteq> 11" "i < pce_table_size t"
  obtains h' where "ifx_ethsw_xwayflow_pce_table_read hwstep e h
      = Some (with_img (driver_tbl tbl h t i) e, h')" "idle h'"
    "driver_tbl tbl h' = driver_tbl tbl h"
    "length (i_key (driver_tbl tbl h t i)) = 9" "length (i_val (driver_tbl tbl h t i)) = 7"
    "\<And>off. off \<in> stable \<Longrightarrow> \<not> in_window off \<Longrightarrow> regs h' off = regs h off"
proof -
  let ?s = "read_setup e h"
  have i: "i < 2048" using assms(6) by (auto simp: pce_table_size_def split: if_splits)
  have b: "\<not> idle ?s" using read_setup_cmd(1) [of e h] by (simp add: idle_def)
  have t: "cmd_tbl ?s = t" using assms by (simp add: cmd_tbl_def read_setup_cmd unat_low_bits)
  have x: "cmd_idx ?s = i" using assms i by (simp add: cmd_idx_def read_setup_cmd unat_low_bits)
  have o: "cmd_op ?s = 0" by (simp add: cmd_op_def read_setup_cmd)
  have d: "driver_tbl tbl ?s = driver_tbl tbl h" by (simp add: driver_tbl_def fun_eq_iff)
  from completes [OF b] obtain h' where h': "poll hwstep TBL_CTRL_BAS ?s = Some h'" by blast
  show ?thesis
  proof
    show "ifx_ethsw_xwayflow_pce_table_read hwstep e h = Some (with_img (driver_tbl tbl h t i) e, h')"
      using h' adrd [OF b h' o] assms by (simp add: table_read_idle t x d)
    show "idle h'" using poll_done [OF h'] by (simp add: idle_def)
    show "driver_tbl tbl h' = driver_tbl tbl h"
      using adrd [OF b h' o] assms by (simp add: t x d)
    have w: "driver_tbl tbl h t i = win h'" using adrd [OF b h' o] assms by (simp add: t x d)
    show "length (i_key (driver_tbl tbl h t i)) = 9" "length (i_val (driver_tbl tbl h t i)) = 7"
      by (simp_all add: w win_def read_keys_def read_vals_def)
    show "regs h' off = regs h off" if "off \<in> stable" "\<not> in_window off" for off
      using frame [OF b h' that] that by simp
  qed
qed

end

section \<open>A device\<close>

text \<open>
  A device that honours the interface: its tables are full rows, an access takes \<open>lat\<close> further
  turns of the polling loop, and then the command of the window is executed.
\<close>

record ref_priv =
  rows :: "nat \<Rightarrow> nat \<Rightarrow> pce_img"
  wait :: nat
  lat :: nat

definition load_img :: "pce_img \<Rightarrow> 'p hw \<Rightarrow> 'p hw" where
  "load_img m h = wrfs (map (\<lambda>k. (TBL_KEYS ! k, ucast (i_key m ! k))) [0, 1, 2, 3, 4, 5, 6, 7, 8] @
      [(TBL_MASK_0, ucast (i_mask m))] @
      map (\<lambda>k. (TBL_VALS ! k, ucast (i_val m ! k))) [0, 1, 2, 3, 4, 5, 6] @
      [(TBL_CTRL_TYPE, ucast (i_type m)), (TBL_CTRL_VLD, ucast (i_valid m)),
       (TBL_CTRL_GMAP, ucast (i_group m))]) h"

definition norm_img :: "pce_img \<Rightarrow> pce_img" where
  "norm_img m = m\<lparr>i_key := map (\<lambda>k. i_key m ! k) [0, 1, 2, 3, 4, 5, 6, 7, 8],
     i_val := map (\<lambda>k. i_val m ! k) [0, 1, 2, 3, 4, 5, 6]\<rparr>"

definition ref_exec :: "ref_priv hw \<Rightarrow> ref_priv hw" where
  "ref_exec h =
     (let p = priv h; t = cmd_tbl h; i = cmd_idx h
      in if cmd_op h = 1 then h\<lparr>priv := p\<lparr>rows := set_row (rows p) t i (win h)\<rparr>\<rparr>
         else if cmd_op h = 0 then load_img (rows p t i) h
         else h)"

definition ref_step :: "ref_priv hw \<Rightarrow> ref_priv hw" where
  "ref_step h =
     (if idle h then h
      else if wait (priv h) > 0 then h\<lparr>priv := (priv h)\<lparr>wait := wait (priv h) - 1\<rparr>\<rparr>
      else wrf TBL_CTRL_BAS 0 (ref_exec (h\<lparr>priv := (priv h)\<lparr>wait := lat (priv h)\<rparr>\<rparr>)))"

definition ref_tbl :: "ref_priv \<Rightarrow> nat \<Rightarrow> nat \<Rightarrow> pce_img" where
  "ref_tbl p t i = norm_img (rows p t i)"

definition ref_init :: "nat \<Rightarrow> ref_priv hw" where
  "ref_init n = \<lparr>regs = (\<lambda>_. 0), priv = \<lparr>rows = (\<lambda>_ _. zero_img), wait = n, lat = n\<rparr>\<rparr>"

lemma rdf_priv_update [simp]: "rdf F (h\<lparr>priv := q\<rparr>) = rdf F h"
  by (cases F) (simp add: rdf.simps read_fld_get)

lemma win_priv_update [simp]: "win (h\<lparr>priv := q\<rparr>) = win h"
  by (simp add: win_def read_keys_def read_vals_def)

lemma cmd_priv_update [simp]:
  "cmd_op (h\<lparr>priv := q\<rparr>) = cmd_op h" "cmd_tbl (h\<lparr>priv := q\<rparr>) = cmd_tbl h"
  "cmd_idx (h\<lparr>priv := q\<rparr>) = cmd_idx h" "idle (h\<lparr>priv := q\<rparr>) = idle h"
  by (simp_all add: cmd_op_def cmd_tbl_def cmd_idx_def idle_def)

lemma win_load_img: "win (load_img m h) = norm_img m"
  by (cases m) (simp add: win_def read_keys_def read_vals_def load_img_def field_simps_hw norm_img_def)

lemma win_clear_bas: "win (wrf TBL_CTRL_BAS v h) = win h"
  by (simp add: win_def read_keys_def read_vals_def field_simps_hw)

lemma load_img_priv [simp]: "priv (load_img m h) = priv h"
  by (simp add: load_img_def)

lemma load_img_regs [simp]: "\<not> in_window off \<Longrightarrow> regs (load_img m h) off = regs h off"
  by (simp add: load_img_def in_window_def)

lemma norm_img_win [simp]: "norm_img (win h) = win h"
  by (simp add: norm_img_def win_def read_keys_def read_vals_def)

lemma ref_exec_regs [simp]: "\<not> in_window off \<Longrightarrow> regs (ref_exec h) off = regs h off"
  by (simp add: ref_exec_def Let_def)

lemma idle_clear_bas [simp]: "idle (wrf TBL_CTRL_BAS 0 h)"
  using rdf_wrf_same [of TBL_CTRL_BAS 0 h] by (simp add: idle_def)

text \<open>Once busy, the device executes the window after \<open>wait\<close> turns and becomes ready.\<close>

lemma ref_poll:
  assumes "\<not> idle h"
  shows "poll ref_step TBL_CTRL_BAS h =
    Some (wrf TBL_CTRL_BAS 0 (ref_exec (h\<lparr>priv := (priv h)\<lparr>wait := lat (priv h)\<rparr>\<rparr>)))"
  using assms
proof (induction "wait (priv h)" arbitrary: h)
  case 0
  let ?r = "wrf TBL_CTRL_BAS 0 (ref_exec (h\<lparr>priv := (priv h)\<lparr>wait := lat (priv h)\<rparr>\<rparr>))"
  from 0 have "ref_step h = ?r" by (simp add: ref_step_def)
  moreover have "poll ref_step TBL_CTRL_BAS h = poll ref_step TBL_CTRL_BAS (ref_step h)"
    using 0 by (intro poll_step) (simp add: idle_def)
  moreover have "rdf TBL_CTRL_BAS ?r = 0" using idle_clear_bas by (simp only: idle_def)
  ultimately show ?case by simp
next
  case (Suc n)
  let ?g = "h\<lparr>priv := (priv h)\<lparr>wait := n\<rparr>\<rparr>"
  from Suc.hyps(2) Suc.prems have "ref_step h = ?g" by (simp add: ref_step_def flip: Suc.hyps(2))
  moreover have "poll ref_step TBL_CTRL_BAS h = poll ref_step TBL_CTRL_BAS (ref_step h)"
    using Suc.prems by (intro poll_step) (simp add: idle_def)
  ultimately show ?case using Suc.hyps(1) [of ?g] Suc.prems by simp
qed

lemma ref_poll_eq:
  "\<not> idle h \<Longrightarrow> poll ref_step TBL_CTRL_BAS h = Some h' \<Longrightarrow>
   h' = wrf TBL_CTRL_BAS 0 (ref_exec (h\<lparr>priv := (priv h)\<lparr>wait := lat (priv h)\<rparr>\<rparr>))"
  using ref_poll [of h] by simp

interpretation ref: pce_engine ref_step ref_tbl "\<lambda>_ m. m" UNIV
proof (unfold_locales, goal_cases)
  case (1 h)
  from ref_poll [OF this] show ?case by blast
next
  case (2 h h')
  from ref_poll_eq [OF 2(1,2)] 2(3-) show ?case
    by (auto simp: ref_exec_def Let_def driver_tbl_def ref_tbl_def set_row_def fun_eq_iff)
next
  case (3 h h')
  have "win h' = win (ref_exec (h\<lparr>priv := (priv h)\<lparr>wait := lat (priv h)\<rparr>\<rparr>))"
    unfolding ref_poll_eq [OF 3(1,2)] by (rule win_clear_bas)
  with ref_poll_eq [OF 3(1,2)] 3(3-) show ?case
    by (auto simp: ref_exec_def Let_def driver_tbl_def ref_tbl_def win_load_img fun_eq_iff)
next
  case (4 h h' off)
  from ref_poll_eq [OF 4(1,2)] 4(3-) show ?case by (auto simp: in_window_def)
qed



end
