(* ===== verification/PCE_Tables.thy ===== *)
theory PCE_Tables
  imports PCE_Access
begin

text \<open>
  The pattern tables of the classification engine (\<^verbatim>\<open>IFX_PCE_HANDLE_t\<close>): packet lengths, MAC
  addresses, application fields, the two halves of IP addresses, protocols and PPPoE sessions. Each
  is cached in software with a reference counter per row, and mirrored in the device. \<open>tbl_write\<close>
  shares equal rows; the delete routines give a row back and clear it when the last user is gone.
  A structure is modelled by its bytes as \<^verbatim>\<open>memcmp\<close> sees them: the padding byte of
  \<^verbatim>\<open>IFX_PCE_APPL_TBL_t\<close> is a field, the unions of \<^verbatim>\<open>IFX_PCE_PTCL_TBL_t\<close> are their 16 bits
  (the CPU is big-endian). The locale \<open>rc_table\<close> states what the seven tables have in common.
\<close>

unbundle bit_operations_syntax

section \<open>Data\<close>

record IFX_PCE_PKG_LNG_TBL =
  pkg_lng :: u16
  pkg_lng_rng :: u16

record IFX_PCE_DASA_MAC_TBL =
  mac :: "u8 list"
  mac_mask :: u16

record IFX_PCE_APPL_TBL =
  appl_data :: u16
  mask_range :: u16
  mask_range_type :: u8
  appl_pad :: u8

record IFX_PCE_IP_DASA_TBL =
  ip_bytes :: "u8 list"
  ip_mask :: u16

record IFX_PCE_PTCL_TBL =
  ptcl_key :: u16
  ptcl_mask :: u16

record IFX_PCE_PPPOE_TBL =
  sess_id :: u16

definition zero_pkg_lng :: IFX_PCE_PKG_LNG_TBL where "zero_pkg_lng = \<lparr>pkg_lng = 0, pkg_lng_rng = 0\<rparr>"
definition zero_mac :: IFX_PCE_DASA_MAC_TBL where "zero_mac = \<lparr>mac = replicate 6 0, mac_mask = 0\<rparr>"
definition zero_appl :: IFX_PCE_APPL_TBL where
  "zero_appl = \<lparr>appl_data = 0, mask_range = 0, mask_range_type = 0, appl_pad = 0\<rparr>"
definition zero_ip :: IFX_PCE_IP_DASA_TBL where "zero_ip = \<lparr>ip_bytes = replicate 8 0, ip_mask = 0\<rparr>"
definition zero_ptcl :: IFX_PCE_PTCL_TBL where "zero_ptcl = \<lparr>ptcl_key = 0, ptcl_mask = 0\<rparr>"
definition zero_pppoe :: IFX_PCE_PPPOE_TBL where "zero_pppoe = \<lparr>sess_id = 0\<rparr>"

definition IFX_PCE_PKG_LNG_TBL_SIZE :: nat where "IFX_PCE_PKG_LNG_TBL_SIZE = 16"
definition IFX_PCE_DASA_MAC_TBL_SIZE :: nat where "IFX_PCE_DASA_MAC_TBL_SIZE = 64"
definition IFX_PCE_APPL_TBL_SIZE :: nat where "IFX_PCE_APPL_TBL_SIZE = 64"
definition IFX_PCE_IP_DASA_MSB_TBL_SIZE :: nat where "IFX_PCE_IP_DASA_MSB_TBL_SIZE = 16"
definition IFX_PCE_IP_DASA_LSB_TBL_SIZE :: nat where "IFX_PCE_IP_DASA_LSB_TBL_SIZE = 64"
definition IFX_PCE_PTCL_TBL_SIZE :: nat where "IFX_PCE_PTCL_TBL_SIZE = 32"
definition IFX_PCE_PPPOE_TBL_SIZE :: nat where "IFX_PCE_PPPOE_TBL_SIZE = 16"
definition IFX_PCE_VLAN_ACT_TBL_SIZE :: nat where "IFX_PCE_VLAN_ACT_TBL_SIZE = 64"

lemmas tbl_sizes = IFX_PCE_PKG_LNG_TBL_SIZE_def IFX_PCE_DASA_MAC_TBL_SIZE_def IFX_PCE_APPL_TBL_SIZE_def
  IFX_PCE_IP_DASA_MSB_TBL_SIZE_def IFX_PCE_IP_DASA_LSB_TBL_SIZE_def IFX_PCE_PTCL_TBL_SIZE_def
  IFX_PCE_PPPOE_TBL_SIZE_def IFX_PCE_VLAN_ACT_TBL_SIZE_def

record IFX_PCE_HANDLE =
  pkg_lng_tbl_cnt :: "u16 list"
  dasa_mac_tbl_cnt :: "u16 list"
  appl_tbl_cnt :: "u16 list"
  ip_dasa_msb_tbl_cnt :: "u16 list"
  ip_dasa_lsb_tbl_cnt :: "u16 list"
  ptcl_tbl_cnt :: "u16 list"
  pppoe_tbl_cnt :: "u16 list"
  vlan_act_tbl_cnt :: "u16 list"
  pkg_lng_tbl :: "IFX_PCE_PKG_LNG_TBL list"
  dasa_mac_tbl :: "IFX_PCE_DASA_MAC_TBL list"
  appl_tbl :: "IFX_PCE_APPL_TBL list"
  ip_dasa_msb_tbl :: "IFX_PCE_IP_DASA_TBL list"
  ip_dasa_lsb_tbl :: "IFX_PCE_IP_DASA_TBL list"
  ptcl_tbl :: "IFX_PCE_PTCL_TBL list"
  pppoe_tbl :: "IFX_PCE_PPPOE_TBL list"

text \<open>The handle with the device, which every operation below updates.\<close>

type_synonym 'p sub = "IFX_PCE_HANDLE \<times> 'p hw"

section \<open>Shared table code\<close>

text \<open>
  \<open>tbl_write\<close>: an entry in use with the same bytes is shared, else the first free entry is
  taken, else \<open>-1\<close>. The result is the index with the new table and counters.
\<close>

definition tbl_write :: "'e list \<Rightarrow> u16 list \<Rightarrow> 'e \<Rightarrow> nat \<Rightarrow> int \<times> 'e list \<times> u16 list" where
  "tbl_write tab cnt par n =
     (case find (\<lambda>i. cnt ! i > 0 \<and> tab ! i = par) [0..<n] of
        Some i \<Rightarrow> (int i, tab, cnt[i := cnt ! i + 1])
      | None \<Rightarrow>
         (case find (\<lambda>i. cnt ! i = 0) [0..<n] of
            Some i \<Rightarrow> (int i, tab[i := par], cnt[i := cnt ! i + 1])
          | None \<Rightarrow> (-1, tab, cnt)))"

definition tbl_idx_delete :: "u16 list \<Rightarrow> nat \<Rightarrow> nat \<Rightarrow> int \<times> u16 list" where
  "tbl_idx_delete cnt index n =
     (if index \<ge> n then (-1, cnt)
      else (IFX_SUCCESS, if cnt ! index > 0 then cnt[index := cnt ! index - 1] else cnt))"

definition get_tbl_index :: "'e list \<Rightarrow> 'e \<Rightarrow> nat \<Rightarrow> int" where
  "get_tbl_index tab par n =
     (case find (\<lambda>i. tab ! i = par) [0..<n] of Some i \<Rightarrow> int i | None \<Rightarrow> 0xFF)"

definition tbl_read :: "'e list \<Rightarrow> int \<Rightarrow> nat \<Rightarrow> 'e option" where
  "tbl_read tab index n = (if index < int n then Some (tab ! nat index) else None)"

section \<open>Packet length table\<close>

definition ifx_pce_tm_pkg_lng_tbl_write ::
  "('p hw \<Rightarrow> 'p hw) \<Rightarrow> IFX_PCE_PKG_LNG_TBL \<Rightarrow> 'p sub \<Rightarrow> (int \<times> 'p sub) option" where
  "ifx_pce_tm_pkg_lng_tbl_write hwstep pPar = (\<lambda>(H, h).
     let (table_index, tab, cnt) = tbl_write (pkg_lng_tbl H) (pkg_lng_tbl_cnt H) pPar IFX_PCE_PKG_LNG_TBL_SIZE
     in if table_index < 0 then Some (table_index, (H, h))
        else do {
          let H = H\<lparr>pkg_lng_tbl := tab, pkg_lng_tbl_cnt := cnt\<rparr>;
          let pcetable = zero_entry\<lparr>e_table := PCE_PACKET_INDEX, e_index := of_int table_index,
            e_key := (e_key zero_entry)[0 := pkg_lng pPar], e_mask := pkg_lng_rng pPar, e_valid := 1\<rparr>;
          h \<leftarrow> ifx_ethsw_xwayflow_pce_table_write hwstep pcetable h;
          Some (table_index, (H, h)) })"

definition ifx_pce_tm_pkg_lng_tbl_delete ::
  "('p hw \<Rightarrow> 'p hw) \<Rightarrow> nat \<Rightarrow> 'p sub \<Rightarrow> (int \<times> 'p sub) option" where
  "ifx_pce_tm_pkg_lng_tbl_delete hwstep index = (\<lambda>(H, h).
     if index \<ge> IFX_PCE_PKG_LNG_TBL_SIZE then Some (-1, (H, h))
     else
       let cnt = (if pkg_lng_tbl_cnt H ! index > 0
                  then (pkg_lng_tbl_cnt H)[index := pkg_lng_tbl_cnt H ! index - 1] else pkg_lng_tbl_cnt H);
           H = H\<lparr>pkg_lng_tbl_cnt := cnt\<rparr>
       in if cnt ! index = 0 then do {
            let H = H\<lparr>pkg_lng_tbl := (pkg_lng_tbl H)[index := zero_pkg_lng]\<rparr>;
            h \<leftarrow> ifx_ethsw_xwayflow_pce_table_write hwstep
              (zero_entry\<lparr>e_table := PCE_PACKET_INDEX, e_index := of_nat index\<rparr>) h;
            Some (IFX_SUCCESS, (H, h)) }
          else Some (IFX_SUCCESS, (H, h)))"

definition ifx_pce_tm_pkg_lng_tbl_read :: "IFX_PCE_HANDLE \<Rightarrow> int \<Rightarrow> IFX_PCE_PKG_LNG_TBL option" where
  "ifx_pce_tm_pkg_lng_tbl_read H index = tbl_read (pkg_lng_tbl H) index IFX_PCE_PKG_LNG_TBL_SIZE"

section \<open>MAC address table\<close>

definition mac_entry :: "IFX_PCE_DASA_MAC_TBL \<Rightarrow> pce_entry" where
  "mac_entry pPar = zero_entry\<lparr>
     e_key := (e_key zero_entry)
       [0 := push_bit 8 (ucast (mac pPar ! 4)) OR ucast (mac pPar ! 5),
        1 := push_bit 8 (ucast (mac pPar ! 2)) OR ucast (mac pPar ! 3),
        2 := push_bit 8 (ucast (mac pPar ! 0)) OR ucast (mac pPar ! 1)],
     e_mask := mac_mask pPar, e_valid := 1\<rparr>"

definition ifx_pce_tm_dasa_mac_tbl_write ::
  "('p hw \<Rightarrow> 'p hw) \<Rightarrow> IFX_PCE_DASA_MAC_TBL \<Rightarrow> 'p sub \<Rightarrow> (int \<times> 'p sub) option" where
  "ifx_pce_tm_dasa_mac_tbl_write hwstep pPar = (\<lambda>(H, h).
     let (table_index, tab, cnt) = tbl_write (dasa_mac_tbl H) (dasa_mac_tbl_cnt H) pPar IFX_PCE_DASA_MAC_TBL_SIZE
     in if table_index < 0 then Some (table_index, (H, h))
        else do {
          let H = H\<lparr>dasa_mac_tbl := tab, dasa_mac_tbl_cnt := cnt\<rparr>;
          let pcetable = (mac_entry pPar)\<lparr>e_table := PCE_MAC_DASA_INDEX, e_index := of_int table_index\<rparr>;
          h \<leftarrow> ifx_ethsw_xwayflow_pce_table_write hwstep pcetable h;
          Some (table_index, (H, h)) })"

definition ifx_pce_tm_dasa_mac_tbl_delete ::
  "('p hw \<Rightarrow> 'p hw) \<Rightarrow> nat \<Rightarrow> 'p sub \<Rightarrow> (int \<times> 'p sub) option" where
  "ifx_pce_tm_dasa_mac_tbl_delete hwstep index = (\<lambda>(H, h).
     if index \<ge> IFX_PCE_DASA_MAC_TBL_SIZE then Some (-1, (H, h))
     else
       let cnt = (if dasa_mac_tbl_cnt H ! index > 0
                  then (dasa_mac_tbl_cnt H)[index := dasa_mac_tbl_cnt H ! index - 1] else dasa_mac_tbl_cnt H);
           H = H\<lparr>dasa_mac_tbl_cnt := cnt\<rparr>
       in if cnt ! index = 0 then do {
            let H = H\<lparr>dasa_mac_tbl := (dasa_mac_tbl H)[index := zero_mac]\<rparr>;
            h \<leftarrow> ifx_ethsw_xwayflow_pce_table_write hwstep
              (zero_entry\<lparr>e_table := PCE_MAC_DASA_INDEX, e_index := of_nat index\<rparr>) h;
            Some (IFX_SUCCESS, (H, h)) }
          else Some (IFX_SUCCESS, (H, h)))"

definition ifx_pce_tm_dasa_mac_tbl_read :: "IFX_PCE_HANDLE \<Rightarrow> int \<Rightarrow> IFX_PCE_DASA_MAC_TBL option" where
  "ifx_pce_tm_dasa_mac_tbl_read H index = tbl_read (dasa_mac_tbl H) index IFX_PCE_DASA_MAC_TBL_SIZE"

section \<open>Application field table\<close>

definition ifx_pce_tm_appl_tbl_write ::
  "('p hw \<Rightarrow> 'p hw) \<Rightarrow> IFX_PCE_APPL_TBL \<Rightarrow> 'p sub \<Rightarrow> (int \<times> 'p sub) option" where
  "ifx_pce_tm_appl_tbl_write hwstep pPar = (\<lambda>(H, h).
     let (table_index, tab, cnt) = tbl_write (appl_tbl H) (appl_tbl_cnt H) pPar IFX_PCE_APPL_TBL_SIZE
     in if table_index < 0 then Some (table_index, (H, h))
        else do {
          let H = H\<lparr>appl_tbl := tab, appl_tbl_cnt := cnt\<rparr>;
          let pcetable = zero_entry\<lparr>e_table := PCE_APPLICATION_INDEX, e_index := of_int table_index,
            e_key := (e_key zero_entry)[0 := appl_data pPar], e_mask := mask_range pPar,
            e_type := ucast (mask_range_type pPar), e_valid := 1\<rparr>;
          h \<leftarrow> ifx_ethsw_xwayflow_pce_table_write hwstep pcetable h;
          Some (table_index, (H, h)) })"

definition ifx_pce_tm_appl_tbl_delete ::
  "('p hw \<Rightarrow> 'p hw) \<Rightarrow> nat \<Rightarrow> 'p sub \<Rightarrow> (int \<times> 'p sub) option" where
  "ifx_pce_tm_appl_tbl_delete hwstep index = (\<lambda>(H, h).
     if index \<ge> IFX_PCE_APPL_TBL_SIZE then Some (-1, (H, h))
     else
       let cnt = (if appl_tbl_cnt H ! index > 0
                  then (appl_tbl_cnt H)[index := appl_tbl_cnt H ! index - 1] else appl_tbl_cnt H);
           H = H\<lparr>appl_tbl_cnt := cnt\<rparr>
       in if cnt ! index = 0 then do {
            let H = H\<lparr>appl_tbl := (appl_tbl H)[index := zero_appl]\<rparr>;
            h \<leftarrow> ifx_ethsw_xwayflow_pce_table_write hwstep
              (zero_entry\<lparr>e_table := PCE_APPLICATION_INDEX, e_index := of_nat index\<rparr>) h;
            Some (IFX_SUCCESS, (H, h)) }
          else Some (IFX_SUCCESS, (H, h)))"

definition ifx_pce_tm_appl_tbl_read :: "IFX_PCE_HANDLE \<Rightarrow> int \<Rightarrow> IFX_PCE_APPL_TBL option" where
  "ifx_pce_tm_appl_tbl_read H index = tbl_read (appl_tbl H) index IFX_PCE_APPL_TBL_SIZE"

section \<open>IP address tables\<close>

text \<open>\<^verbatim>\<open>key[i] = (ip[2 * i + 1] << 8) | ip[2 * i]\<close> for the four 16-bit words of a half.\<close>

definition ip_entry :: "IFX_PCE_IP_DASA_TBL \<Rightarrow> pce_entry" where
  "ip_entry pPar = zero_entry\<lparr>
     e_key := map (\<lambda>i. push_bit 8 (ucast (ip_bytes pPar ! (i * 2 + 1))) OR ucast (ip_bytes pPar ! (i * 2)))
                [0, 1, 2, 3] @ drop 4 (e_key zero_entry),
     e_mask := ip_mask pPar, e_valid := 1\<rparr>"

definition ifx_pce_tm_ip_dasa_msb_tbl_write ::
  "('p hw \<Rightarrow> 'p hw) \<Rightarrow> IFX_PCE_IP_DASA_TBL \<Rightarrow> 'p sub \<Rightarrow> (int \<times> 'p sub) option" where
  "ifx_pce_tm_ip_dasa_msb_tbl_write hwstep pPar = (\<lambda>(H, h).
     let (table_index, tab, cnt) = tbl_write (ip_dasa_msb_tbl H) (ip_dasa_msb_tbl_cnt H) pPar IFX_PCE_IP_DASA_MSB_TBL_SIZE
     in if table_index < 0 then Some (table_index, (H, h))
        else do {
          let H = H\<lparr>ip_dasa_msb_tbl := tab, ip_dasa_msb_tbl_cnt := cnt\<rparr>;
          let pcetable = (ip_entry pPar)\<lparr>e_table := PCE_IP_DASA_MSB_INDEX, e_index := of_int table_index\<rparr>;
          h \<leftarrow> ifx_ethsw_xwayflow_pce_table_write hwstep pcetable h;
          Some (table_index, (H, h)) })"

definition ifx_pce_tm_ip_dasa_msb_tbl_delete ::
  "('p hw \<Rightarrow> 'p hw) \<Rightarrow> nat \<Rightarrow> 'p sub \<Rightarrow> (int \<times> 'p sub) option" where
  "ifx_pce_tm_ip_dasa_msb_tbl_delete hwstep index = (\<lambda>(H, h).
     if index \<ge> IFX_PCE_IP_DASA_MSB_TBL_SIZE then Some (-1, (H, h))
     else
       let cnt = (if ip_dasa_msb_tbl_cnt H ! index > 0
                  then (ip_dasa_msb_tbl_cnt H)[index := ip_dasa_msb_tbl_cnt H ! index - 1] else ip_dasa_msb_tbl_cnt H);
           H = H\<lparr>ip_dasa_msb_tbl_cnt := cnt\<rparr>
       in if cnt ! index = 0 then do {
            let H = H\<lparr>ip_dasa_msb_tbl := (ip_dasa_msb_tbl H)[index := zero_ip]\<rparr>;
            h \<leftarrow> ifx_ethsw_xwayflow_pce_table_write hwstep
              (zero_entry\<lparr>e_table := PCE_IP_DASA_MSB_INDEX, e_index := of_nat index\<rparr>) h;
            Some (IFX_SUCCESS, (H, h)) }
          else Some (IFX_SUCCESS, (H, h)))"

definition ifx_pce_tm_ip_dasa_msb_tbl_read :: "IFX_PCE_HANDLE \<Rightarrow> int \<Rightarrow> IFX_PCE_IP_DASA_TBL option" where
  "ifx_pce_tm_ip_dasa_msb_tbl_read H index = tbl_read (ip_dasa_msb_tbl H) index IFX_PCE_IP_DASA_MSB_TBL_SIZE"

definition ifx_pce_tm_ip_dasa_lsb_tbl_write ::
  "('p hw \<Rightarrow> 'p hw) \<Rightarrow> IFX_PCE_IP_DASA_TBL \<Rightarrow> 'p sub \<Rightarrow> (int \<times> 'p sub) option" where
  "ifx_pce_tm_ip_dasa_lsb_tbl_write hwstep pPar = (\<lambda>(H, h).
     let (table_index, tab, cnt) = tbl_write (ip_dasa_lsb_tbl H) (ip_dasa_lsb_tbl_cnt H) pPar IFX_PCE_IP_DASA_LSB_TBL_SIZE
     in if table_index < 0 then Some (table_index, (H, h))
        else do {
          let H = H\<lparr>ip_dasa_lsb_tbl := tab, ip_dasa_lsb_tbl_cnt := cnt\<rparr>;
          let pcetable = (ip_entry pPar)\<lparr>e_table := PCE_IP_DASA_LSB_INDEX, e_index := of_int table_index\<rparr>;
          h \<leftarrow> ifx_ethsw_xwayflow_pce_table_write hwstep pcetable h;
          Some (table_index, (H, h)) })"

definition ifx_pce_tm_ip_dasa_lsb_tbl_delete ::
  "('p hw \<Rightarrow> 'p hw) \<Rightarrow> nat \<Rightarrow> 'p sub \<Rightarrow> (int \<times> 'p sub) option" where
  "ifx_pce_tm_ip_dasa_lsb_tbl_delete hwstep index = (\<lambda>(H, h).
     if index \<ge> IFX_PCE_IP_DASA_LSB_TBL_SIZE then Some (-1, (H, h))
     else
       let cnt = (if ip_dasa_lsb_tbl_cnt H ! index > 0
                  then (ip_dasa_lsb_tbl_cnt H)[index := ip_dasa_lsb_tbl_cnt H ! index - 1] else ip_dasa_lsb_tbl_cnt H);
           H = H\<lparr>ip_dasa_lsb_tbl_cnt := cnt\<rparr>
       in if cnt ! index = 0 then do {
            let H = H\<lparr>ip_dasa_lsb_tbl := (ip_dasa_lsb_tbl H)[index := zero_ip]\<rparr>;
            h \<leftarrow> ifx_ethsw_xwayflow_pce_table_write hwstep
              (zero_entry\<lparr>e_table := PCE_IP_DASA_LSB_INDEX, e_index := of_nat index\<rparr>) h;
            Some (IFX_SUCCESS, (H, h)) }
          else Some (IFX_SUCCESS, (H, h)))"

definition ifx_pce_tm_ip_dasa_lsb_tbl_read :: "IFX_PCE_HANDLE \<Rightarrow> int \<Rightarrow> IFX_PCE_IP_DASA_TBL option" where
  "ifx_pce_tm_ip_dasa_lsb_tbl_read H index = tbl_read (ip_dasa_lsb_tbl H) index IFX_PCE_IP_DASA_LSB_TBL_SIZE"

definition find_software_tbl_entry :: "IFX_PCE_HANDLE \<Rightarrow> IFX_PCE_IP_DASA_TBL \<Rightarrow> int" where
  "find_software_tbl_entry H pPar = get_tbl_index (ip_dasa_lsb_tbl H) pPar IFX_PCE_IP_DASA_LSB_TBL_SIZE"

definition find_software_msb_tbl_entry :: "IFX_PCE_HANDLE \<Rightarrow> IFX_PCE_IP_DASA_TBL \<Rightarrow> int" where
  "find_software_msb_tbl_entry H pPar = get_tbl_index (ip_dasa_msb_tbl H) pPar IFX_PCE_IP_DASA_MSB_TBL_SIZE"

definition ifx_pce_tm_ip_dasa_lsb_tbl_idx_delete :: "nat \<Rightarrow> IFX_PCE_HANDLE \<Rightarrow> int \<times> IFX_PCE_HANDLE" where
  "ifx_pce_tm_ip_dasa_lsb_tbl_idx_delete index H =
     (let (r, cnt) = tbl_idx_delete (ip_dasa_lsb_tbl_cnt H) index IFX_PCE_IP_DASA_LSB_TBL_SIZE
      in (r, H\<lparr>ip_dasa_lsb_tbl_cnt := cnt\<rparr>))"

definition ifx_pce_tm_ip_dasa_msb_tbl_idx_delete :: "nat \<Rightarrow> IFX_PCE_HANDLE \<Rightarrow> int \<times> IFX_PCE_HANDLE" where
  "ifx_pce_tm_ip_dasa_msb_tbl_idx_delete index H =
     (let (r, cnt) = tbl_idx_delete (ip_dasa_msb_tbl_cnt H) index IFX_PCE_IP_DASA_MSB_TBL_SIZE
      in (r, H\<lparr>ip_dasa_msb_tbl_cnt := cnt\<rparr>))"

section \<open>Protocol table\<close>

definition ifx_pce_tm_ptcl_tbl_write ::
  "('p hw \<Rightarrow> 'p hw) \<Rightarrow> IFX_PCE_PTCL_TBL \<Rightarrow> 'p sub \<Rightarrow> (int \<times> 'p sub) option" where
  "ifx_pce_tm_ptcl_tbl_write hwstep pPar = (\<lambda>(H, h).
     let (table_index, tab, cnt) = tbl_write (ptcl_tbl H) (ptcl_tbl_cnt H) pPar IFX_PCE_PTCL_TBL_SIZE
     in if table_index < 0 then Some (table_index, (H, h))
        else do {
          let H = H\<lparr>ptcl_tbl := tab, ptcl_tbl_cnt := cnt\<rparr>;
          let pcetable = zero_entry\<lparr>e_table := PCE_PROTOCOL_INDEX, e_index := of_int table_index,
            e_key := (e_key zero_entry)[0 := ptcl_key pPar], e_mask := ptcl_mask pPar, e_valid := 1\<rparr>;
          h \<leftarrow> ifx_ethsw_xwayflow_pce_table_write hwstep pcetable h;
          Some (table_index, (H, h)) })"

definition ifx_pce_tm_ptcl_tbl_delete ::
  "('p hw \<Rightarrow> 'p hw) \<Rightarrow> nat \<Rightarrow> 'p sub \<Rightarrow> (int \<times> 'p sub) option" where
  "ifx_pce_tm_ptcl_tbl_delete hwstep index = (\<lambda>(H, h).
     if index \<ge> IFX_PCE_PTCL_TBL_SIZE then Some (-1, (H, h))
     else
       let cnt = (if ptcl_tbl_cnt H ! index > 0
                  then (ptcl_tbl_cnt H)[index := ptcl_tbl_cnt H ! index - 1] else ptcl_tbl_cnt H);
           H = H\<lparr>ptcl_tbl_cnt := cnt\<rparr>
       in if cnt ! index = 0 then do {
            let H = H\<lparr>ptcl_tbl := (ptcl_tbl H)[index := zero_ptcl]\<rparr>;
            h \<leftarrow> ifx_ethsw_xwayflow_pce_table_write hwstep
              (zero_entry\<lparr>e_table := PCE_PROTOCOL_INDEX, e_index := of_nat index\<rparr>) h;
            Some (IFX_SUCCESS, (H, h)) }
          else Some (IFX_SUCCESS, (H, h)))"

definition ifx_pce_tm_ptcl_tbl_read :: "IFX_PCE_HANDLE \<Rightarrow> int \<Rightarrow> IFX_PCE_PTCL_TBL option" where
  "ifx_pce_tm_ptcl_tbl_read H index = tbl_read (ptcl_tbl H) index IFX_PCE_PTCL_TBL_SIZE"

section \<open>PPPoE session table\<close>

definition ifx_pce_tm_pppoe_tbl_write ::
  "('p hw \<Rightarrow> 'p hw) \<Rightarrow> IFX_PCE_PPPOE_TBL \<Rightarrow> 'p sub \<Rightarrow> (int \<times> 'p sub) option" where
  "ifx_pce_tm_pppoe_tbl_write hwstep pPar = (\<lambda>(H, h).
     let (table_index, tab, cnt) = tbl_write (pppoe_tbl H) (pppoe_tbl_cnt H) pPar IFX_PCE_PPPOE_TBL_SIZE
     in if table_index < 0 then Some (table_index, (H, h))
        else do {
          let H = H\<lparr>pppoe_tbl := tab, pppoe_tbl_cnt := cnt\<rparr>;
          let pcetable = zero_entry\<lparr>e_table := PCE_PPPOE_INDEX, e_index := of_int table_index,
            e_key := (e_key zero_entry)[0 := sess_id pPar], e_valid := 1\<rparr>;
          h \<leftarrow> ifx_ethsw_xwayflow_pce_table_write hwstep pcetable h;
          Some (table_index, (H, h)) })"

definition ifx_pce_tm_pppoe_tbl_delete ::
  "('p hw \<Rightarrow> 'p hw) \<Rightarrow> nat \<Rightarrow> 'p sub \<Rightarrow> (int \<times> 'p sub) option" where
  "ifx_pce_tm_pppoe_tbl_delete hwstep index = (\<lambda>(H, h).
     if index \<ge> IFX_PCE_PPPOE_TBL_SIZE then Some (-1, (H, h))
     else
       let cnt = (if pppoe_tbl_cnt H ! index > 0
                  then (pppoe_tbl_cnt H)[index := pppoe_tbl_cnt H ! index - 1] else pppoe_tbl_cnt H);
           H = H\<lparr>pppoe_tbl_cnt := cnt\<rparr>
       in if cnt ! index = 0 then do {
            let H = H\<lparr>pppoe_tbl := (pppoe_tbl H)[index := zero_pppoe]\<rparr>;
            h \<leftarrow> ifx_ethsw_xwayflow_pce_table_write hwstep
              (zero_entry\<lparr>e_table := PCE_PPPOE_INDEX, e_index := of_nat index\<rparr>) h;
            Some (IFX_SUCCESS, (H, h)) }
          else Some (IFX_SUCCESS, (H, h)))"

definition ifx_pce_tm_pppoe_tbl_read :: "IFX_PCE_HANDLE \<Rightarrow> int \<Rightarrow> IFX_PCE_PPPOE_TBL option" where
  "ifx_pce_tm_pppoe_tbl_read H index = tbl_read (pppoe_tbl H) index IFX_PCE_PPPOE_TBL_SIZE"

section \<open>Use counts of the active VLAN table\<close>

text \<open>
  Rules do not own rows of the active VLAN table: they find the row of a VLAN id by reading the
  device, row by row, and count the use.
\<close>

definition get_ifx_pce_tm_vlan_act_tbl_index :: "IFX_PCE_HANDLE \<Rightarrow> nat \<Rightarrow> int" where
  "get_ifx_pce_tm_vlan_act_tbl_index H index =
     (if index \<ge> IFX_PCE_VLAN_ACT_TBL_SIZE then -1
      else if vlan_act_tbl_cnt H ! index = 0 then IFX_SUCCESS else IFX_ERROR)"

definition ifx_pce_tm_vlan_act_tbl_delete :: "nat \<Rightarrow> 'p sub \<Rightarrow> (int \<times> 'p sub) option" where
  "ifx_pce_tm_vlan_act_tbl_delete index = (\<lambda>(H, h).
     if index \<ge> IFX_PCE_VLAN_ACT_TBL_SIZE then Some (-1, (H, h))
     else Some (IFX_SUCCESS,
       (if vlan_act_tbl_cnt H ! index > 0
        then H\<lparr>vlan_act_tbl_cnt := (vlan_act_tbl_cnt H)[index := vlan_act_tbl_cnt H ! index - 1]\<rparr> else H, h)))"

text \<open>
  The loop of the two searches, over the rows that are left: the first valid row whose key is
  the VLAN id, with its first value (\<open>0x7F\<close> and no value if there is none).
\<close>

fun find_vlan_rows :: "('p hw \<Rightarrow> 'p hw) \<Rightarrow> u16 \<Rightarrow> nat list \<Rightarrow> 'p hw \<Rightarrow> ((nat \<times> u16) option \<times> 'p hw) option" where
  "find_vlan_rows hwstep vid [] h = Some (None, h)"
| "find_vlan_rows hwstep vid (i # is) h =
     (case ifx_ethsw_xwayflow_pce_table_read hwstep
             (zero_entry\<lparr>e_table := PCE_ACTVLAN_INDEX, e_index := of_nat i\<rparr>) h of
        None \<Rightarrow> None
      | Some (e, h) \<Rightarrow>
          if e_valid e = 1 \<and> e_key e ! 0 = vid then Some (Some (i, e_val e ! 0), h)
          else find_vlan_rows hwstep vid is h)"

definition ifx_pce_tm_find_vlan_id_fd_index ::
  "('p hw \<Rightarrow> 'p hw) \<Rightarrow> u16 \<Rightarrow> 'p sub \<Rightarrow> ((int \<times> u32) \<times> 'p sub) option" where
  "ifx_pce_tm_find_vlan_id_fd_index hwstep vid = (\<lambda>(H, h).
     case find_vlan_rows hwstep vid [0..<IFX_PCE_VLAN_ACT_TBL_SIZE] h of
       None \<Rightarrow> None
     | Some (None, h) \<Rightarrow> Some ((0x7F, 0), (H, h))
     | Some (Some (i, v), h) \<Rightarrow> Some ((int i, ucast v AND 0xFF),
         (H\<lparr>vlan_act_tbl_cnt := (vlan_act_tbl_cnt H)[i := vlan_act_tbl_cnt H ! i + 1]\<rparr>, h)))"

definition ifx_pce_tm_find_vlan_id_index ::
  "('p hw \<Rightarrow> 'p hw) \<Rightarrow> u16 \<Rightarrow> 'p sub \<Rightarrow> (int \<times> 'p sub) option" where
  "ifx_pce_tm_find_vlan_id_index hwstep vid = (\<lambda>(H, h).
     case find_vlan_rows hwstep vid [0..<IFX_PCE_VLAN_ACT_TBL_SIZE] h of
       None \<Rightarrow> None
     | Some (None, h) \<Rightarrow> Some (0x7F, (H, h))
     | Some (Some (i, v), h) \<Rightarrow> Some (int i,
         (H\<lparr>vlan_act_tbl_cnt := (vlan_act_tbl_cnt H)[i := vlan_act_tbl_cnt H ! i + 1]\<rparr>, h)))"

section \<open>The tables as one family\<close>

text \<open>
  The seven tables, indexed by \<open>tkind\<close>, with their rows as one type: \<open>tabs\<close> and \<open>cnts\<close> are what
  the operations below are specified on.
\<close>

datatype tkind = PKG | MAC | APPL | IPMSB | IPLSB | PTCL | PPPOE

datatype tentry =
    E_pkg IFX_PCE_PKG_LNG_TBL
  | E_mac IFX_PCE_DASA_MAC_TBL
  | E_appl IFX_PCE_APPL_TBL
  | E_ip IFX_PCE_IP_DASA_TBL
  | E_ptcl IFX_PCE_PTCL_TBL
  | E_pppoe IFX_PCE_PPPOE_TBL

fun tno :: "tkind \<Rightarrow> nat" where
  "tno PKG = 8" | "tno MAC = 12" | "tno APPL = 5" | "tno IPMSB = 6" | "tno IPLSB = 7"
| "tno PTCL = 4" | "tno PPPOE = 3"

fun tsize :: "tkind \<Rightarrow> nat" where
  "tsize PKG = IFX_PCE_PKG_LNG_TBL_SIZE" | "tsize MAC = IFX_PCE_DASA_MAC_TBL_SIZE"
| "tsize APPL = IFX_PCE_APPL_TBL_SIZE" | "tsize IPMSB = IFX_PCE_IP_DASA_MSB_TBL_SIZE"
| "tsize IPLSB = IFX_PCE_IP_DASA_LSB_TBL_SIZE" | "tsize PTCL = IFX_PCE_PTCL_TBL_SIZE"
| "tsize PPPOE = IFX_PCE_PPPOE_TBL_SIZE"

fun tzero :: "tkind \<Rightarrow> tentry" where
  "tzero PKG = E_pkg zero_pkg_lng" | "tzero MAC = E_mac zero_mac" | "tzero APPL = E_appl zero_appl"
| "tzero IPMSB = E_ip zero_ip" | "tzero IPLSB = E_ip zero_ip" | "tzero PTCL = E_ptcl zero_ptcl"
| "tzero PPPOE = E_pppoe zero_pppoe"

text \<open>The device row for a software row, without table and index.\<close>

fun trow :: "tentry \<Rightarrow> pce_entry" where
  "trow (E_pkg e) = zero_entry\<lparr>e_key := (e_key zero_entry)[0 := pkg_lng e], e_mask := pkg_lng_rng e, e_valid := 1\<rparr>"
| "trow (E_mac e) = mac_entry e"
| "trow (E_appl e) = zero_entry\<lparr>e_key := (e_key zero_entry)[0 := appl_data e], e_mask := mask_range e,
     e_type := ucast (mask_range_type e), e_valid := 1\<rparr>"
| "trow (E_ip e) = ip_entry e"
| "trow (E_ptcl e) = zero_entry\<lparr>e_key := (e_key zero_entry)[0 := ptcl_key e], e_mask := ptcl_mask e, e_valid := 1\<rparr>"
| "trow (E_pppoe e) = zero_entry\<lparr>e_key := (e_key zero_entry)[0 := sess_id e], e_valid := 1\<rparr>"

fun cnts :: "IFX_PCE_HANDLE \<Rightarrow> tkind \<Rightarrow> u16 list" where
  "cnts H PKG = pkg_lng_tbl_cnt H" | "cnts H MAC = dasa_mac_tbl_cnt H" | "cnts H APPL = appl_tbl_cnt H"
| "cnts H IPMSB = ip_dasa_msb_tbl_cnt H" | "cnts H IPLSB = ip_dasa_lsb_tbl_cnt H"
| "cnts H PTCL = ptcl_tbl_cnt H" | "cnts H PPPOE = pppoe_tbl_cnt H"

fun tabs :: "IFX_PCE_HANDLE \<Rightarrow> tkind \<Rightarrow> tentry list" where
  "tabs H PKG = map E_pkg (pkg_lng_tbl H)" | "tabs H MAC = map E_mac (dasa_mac_tbl H)"
| "tabs H APPL = map E_appl (appl_tbl H)" | "tabs H IPMSB = map E_ip (ip_dasa_msb_tbl H)"
| "tabs H IPLSB = map E_ip (ip_dasa_lsb_tbl H)" | "tabs H PTCL = map E_ptcl (ptcl_tbl H)"
| "tabs H PPPOE = map E_pppoe (pppoe_tbl H)"

text \<open>
  What the driver maintains of the tables: their lengths, cleared free rows, and the device
  showing exactly the rows in use.
\<close>

definition dev_row :: "tentry \<Rightarrow> u16 \<Rightarrow> pce_img" where
  "dev_row e c = (if c = 0 then zero_img else img_of (trow e))"

definition tables_ok :: "IFX_PCE_HANDLE \<Rightarrow> bool" where
  "tables_ok H \<longleftrightarrow> (\<forall>k. length (cnts H k) = tsize k \<and> length (tabs H k) = tsize k \<and>
     (\<forall>i<tsize k. cnts H k ! i = 0 \<longrightarrow> tabs H k ! i = tzero k)) \<and>
     length (vlan_act_tbl_cnt H) = IFX_PCE_VLAN_ACT_TBL_SIZE"

definition mirrored :: "(nat \<Rightarrow> pce_img \<Rightarrow> pce_img) \<Rightarrow> (nat \<Rightarrow> nat \<Rightarrow> pce_img) \<Rightarrow> IFX_PCE_HANDLE \<Rightarrow> bool" where
  "mirrored keep T H \<longleftrightarrow> (\<forall>k. \<forall>i<tsize k.
     T (tno k) i = keep (tno k) (dev_row (tabs H k ! i) (cnts H k ! i)))"

definition sub_inv :: "('p \<Rightarrow> nat \<Rightarrow> nat \<Rightarrow> pce_img) \<Rightarrow> (nat \<Rightarrow> pce_img \<Rightarrow> pce_img) \<Rightarrow> 'p sub \<Rightarrow> bool" where
  "sub_inv tbl keep s \<longleftrightarrow> idle (snd s) \<and> tables_ok (fst s) \<and> mirrored keep (driver_tbl tbl (snd s)) (fst s)"

lemma tno_simps [simp]: "tno k < 32" "tno k \<noteq> 11" "tno k \<noteq> 15" "tno k \<noteq> Suc 0" "tno k \<noteq> 1"
  by (cases k; simp)+

lemma tno_inj: "tno k = tno k' \<longleftrightarrow> k = k'"
  by (cases k; cases k'; simp)

lemma tsize_hw: "tsize k = pce_table_size (tno k)"
  by (cases k) (simp_all add: tbl_sizes pce_table_size_def)

lemma tsize_le: "tsize k \<le> 64"
  by (cases k) (simp_all add: tbl_sizes)

lemma trow_wf [simp]: "entry_wf (trow e)"
  by (cases e) (simp_all add: entry_wf_def zero_entry_def mac_entry_def ip_entry_def)

lemma img_of_index [simp]: "img_of (e\<lparr>e_table := t, e_index := i\<rparr>) = img_of e"
  by (simp add: img_of_def)

lemma img_of_zero [simp]: "img_of zero_entry = zero_img"
  by (simp add: img_of_def zero_entry_def zero_img_def)

lemma entry_wf_index [simp]: "entry_wf (e\<lparr>e_table := t, e_index := i\<rparr>) = entry_wf e"
  by (simp add: entry_wf_def)

text \<open>
  The effect of a write and of a delete on the family: \<open>acquire\<close> takes row \<open>i\<close> for \<open>e\<close>, either free
  or already holding \<open>e\<close>; \<open>release\<close> gives it back. Neither touches the other tables of the device.
\<close>

definition acquire :: "tkind \<Rightarrow> tentry \<Rightarrow> nat \<Rightarrow> IFX_PCE_HANDLE \<Rightarrow> IFX_PCE_HANDLE \<Rightarrow> bool" where
  "acquire k e i H H' \<longleftrightarrow> i < tsize k \<and> (cnts H k ! i = 0 \<or> tabs H k ! i = e) \<and>
     cnts H' = (cnts H)(k := (cnts H k)[i := cnts H k ! i + 1]) \<and>
     tabs H' = (tabs H)(k := (tabs H k)[i := e]) \<and> vlan_act_tbl_cnt H' = vlan_act_tbl_cnt H"

definition dec :: "u16 \<Rightarrow> u16" where
  "dec c = (if c > 0 then c - 1 else c)"

definition release :: "tkind \<Rightarrow> nat \<Rightarrow> IFX_PCE_HANDLE \<Rightarrow> IFX_PCE_HANDLE \<Rightarrow> bool" where
  "release k i H H' \<longleftrightarrow> i < tsize k \<and>
     cnts H' = (cnts H)(k := (cnts H k)[i := dec (cnts H k ! i)]) \<and>
     tabs H' = (tabs H)(k := (if dec (cnts H k ! i) = 0 then (tabs H k)[i := tzero k] else tabs H k)) \<and>
     vlan_act_tbl_cnt H' = vlan_act_tbl_cnt H"

definition hw_frame :: "('p \<Rightarrow> nat \<Rightarrow> nat \<Rightarrow> pce_img) \<Rightarrow> 16 word set \<Rightarrow> 'p hw \<Rightarrow> 'p hw \<Rightarrow> bool" where
  "hw_frame tbl S h h' \<longleftrightarrow> (\<forall>t. t \<notin> range tno \<longrightarrow> driver_tbl tbl h' t = driver_tbl tbl h t) \<and>
     (\<forall>off\<in>S. \<not> in_window off \<longrightarrow> regs h' off = regs h off)"

lemma hw_frame_refl [simp]: "hw_frame tbl S h h"
  by (simp add: hw_frame_def)

lemma hw_frame_trans: "hw_frame tbl S h h' \<Longrightarrow> hw_frame tbl S h' h'' \<Longrightarrow> hw_frame tbl S h h''"
  by (simp add: hw_frame_def)

lemma set_row_other [simp]: "t' \<noteq> t \<Longrightarrow> set_row T t i m t' = T t'"
  by (simp add: set_row_def)

lemma tno_not_11 [simp]: "11 \<notin> range tno"
  by auto

lemma update_tables_ok:
  assumes ok: "tables_ok H" and i: "i < tsize k"
    and c: "cnts H' = (cnts H)(k := (cnts H k)[i := c])"
    and t: "tabs H' = (tabs H)(k := (tabs H k)[i := e])"
    and v: "vlan_act_tbl_cnt H' = vlan_act_tbl_cnt H"
    and z: "c = 0 \<longrightarrow> e = tzero k"
  shows "tables_ok H'"
  using ok i z by (auto simp: tables_ok_def c t v nth_list_update)

lemma update_mirrored:
  assumes ok: "tables_ok H" and m: "mirrored keep T H" and i: "i < tsize k"
    and c: "cnts H' = (cnts H)(k := (cnts H k)[i := c])"
    and t: "tabs H' = (tabs H)(k := (tabs H k)[i := e])"
  shows "mirrored keep (set_row T (tno k) i (keep (tno k) (dev_row e c))) H'"
  using ok m i by (auto simp: tables_ok_def mirrored_def c t set_row_def tno_inj nth_list_update)

section \<open>What the seven tables have in common\<close>

text \<open>
  A reference-counted table of the handle: \<open>put\<close> replaces its rows and counters and nothing else,
  \<open>wr\<close> and \<open>dl\<close> are the write and delete routines of the code. The last two laws say what these
  routines are, in terms of \<open>tbl_write\<close> and of the device access.
\<close>

locale rc_table =
  fixes kind :: tkind
    and inj :: "'e \<Rightarrow> tentry"
    and tab :: "IFX_PCE_HANDLE \<Rightarrow> 'e list"
    and put :: "'e list \<Rightarrow> u16 list \<Rightarrow> IFX_PCE_HANDLE \<Rightarrow> IFX_PCE_HANDLE"
    and zero :: 'e
    and wr :: "('p hw \<Rightarrow> 'p hw) \<Rightarrow> 'e \<Rightarrow> 'p sub \<Rightarrow> (int \<times> 'p sub) option"
    and dl :: "('p hw \<Rightarrow> 'p hw) \<Rightarrow> nat \<Rightarrow> 'p sub \<Rightarrow> (int \<times> 'p sub) option"
  assumes inj_eq: "inj a = inj b \<longleftrightarrow> a = b"
    and zero_inj: "inj zero = tzero kind"
    and tabs_kind: "tabs H kind = map inj (tab H)"
    and tabs_put: "tabs (put t c H) = (tabs H)(kind := map inj t)"
    and cnts_put: "cnts (put t c H) = (cnts H)(kind := c)"
    and vlan_put: "vlan_act_tbl_cnt (put t c H) = vlan_act_tbl_cnt H"
    and wr_eq: "wr hwstep e (H, h) =
       (case tbl_write (tab H) (cnts H kind) e (tsize kind) of (i, t, c) \<Rightarrow>
          if i < 0 then Some (i, (H, h))
          else map_option (\<lambda>h. (i, (put t c H, h))) (ifx_ethsw_xwayflow_pce_table_write hwstep
                 ((trow (inj e))\<lparr>e_table := of_nat (tno kind), e_index := of_int i\<rparr>) h))"
    and dl_eq: "dl hwstep i (H, h) =
       (if i \<ge> tsize kind then Some (-1, (H, h))
        else let c = (if cnts H kind ! i > 0 then (cnts H kind)[i := cnts H kind ! i - 1] else cnts H kind)
             in if c ! i = 0
                then map_option (\<lambda>h. (0, (put ((tab H)[i := zero]) c H, h)))
                  (ifx_ethsw_xwayflow_pce_table_write hwstep
                     (zero_entry\<lparr>e_table := of_nat (tno kind), e_index := of_nat i\<rparr>) h)
                else Some (0, (put (tab H) c H, h)))"
begin

lemma tbl_write_cases:
  obtains (full) "tbl_write t c e n = (-1, t, c)" "\<forall>i<n. c ! i > 0 \<and> t ! i \<noteq> e"
  | (ok) i where "i < n" "tbl_write t c e n = (int i, t[i := e], c[i := c ! i + 1])"
      "c ! i = 0 \<or> t ! i = (e::'e)"
proof (cases "find (\<lambda>i. c ! i > 0 \<and> t ! i = e) [0..<n]")
  case (Some i)
  then have i: "i < n" "c ! i > 0" "t ! i = e" by (auto simp: find_upt_Some)
  have "t[i := e] = t" using i(3) by (metis list_update_id)
  with Some i ok [of i] show ?thesis by (simp add: tbl_write_def)
next
  case None
  then have N: "\<forall>i<n. c ! i > 0 \<longrightarrow> t ! i \<noteq> e" by (auto simp: find_upt_None)
  show ?thesis
  proof (cases "find (\<lambda>i. c ! i = 0) [0..<n]")
    case (Some i)
    with None ok [of i] show ?thesis by (auto simp: tbl_write_def find_upt_Some)
  next
    case N2: None
    then have "\<forall>i<n. c ! i > 0" by (auto simp: find_upt_None word_gt_0)
    with N N2 None full show ?thesis by (auto simp: tbl_write_def)
  qed
qed

lemma row_write:
  assumes E: "pce_engine hwstep tbl keep S" and I: "sub_inv tbl keep (H, h)"
    and i: "i < tsize kind" and wf: "entry_wf r"
    and ix: "x = of_nat i"
    and img: "img_of r = dev_row e c"
    and cH: "cnts H' = (cnts H)(kind := (cnts H kind)[i := c])"
    and tH: "tabs H' = (tabs H)(kind := (tabs H kind)[i := e])"
    and vH: "vlan_act_tbl_cnt H' = vlan_act_tbl_cnt H"
    and z: "c = 0 \<longrightarrow> e = tzero kind"
  obtains h' where "ifx_ethsw_xwayflow_pce_table_write hwstep (r\<lparr>e_table := of_nat (tno kind), e_index := x\<rparr>) h = Some h'"
    "sub_inv tbl keep (H', h')" "hw_frame tbl S h h'"
proof -
  let ?r = "r\<lparr>e_table := of_nat (tno kind), e_index := x\<rparr>"
  from I have I': "idle h" "tables_ok H" "mirrored keep (driver_tbl tbl h) H" by (simp_all add: sub_inv_def)
  have t: "unat (e_table ?r) = tno kind"
    by (cases kind) simp_all
  have x: "unat (e_index ?r) = i"
    using i tsize_le [of kind] by (simp add: ix unat_of_nat_small)
  have wf': "entry_wf ?r" using wf by simp
  obtain h' where h': "ifx_ethsw_xwayflow_pce_table_write hwstep ?r h = Some h'" "idle h'"
    "driver_tbl tbl h' = set_row (driver_tbl tbl h) (tno kind) i (keep (tno kind) (img_of ?r))"
    "\<And>off. off \<in> S \<Longrightarrow> \<not> in_window off \<Longrightarrow> regs h' off = regs h off"
    using pce_engine.table_write_spec [OF E I'(1) wf' t x] i by (metis tno_simps(1,2) tsize_hw)
  have "sub_inv tbl keep (H', h')"
    using update_tables_ok [OF I'(2) i cH tH vH z] update_mirrored [OF I'(2,3) i cH tH]
    by (simp add: sub_inv_def h'(2,3) img)
  moreover have "hw_frame tbl S h h'"
    using h'(3,4) by (simp add: hw_frame_def set_row_def image_def)
  ultimately show ?thesis using h'(1) that by blast
qed

lemma wr_spec:
  assumes E: "pce_engine hwstep tbl keep S" and I: "sub_inv tbl keep (H, h)"
    and ovf: "\<forall>i<tsize kind. unat (cnts H kind ! i) < 65535"
  obtains (full) "wr hwstep e (H, h) = Some (-1, (H, h))"
      "\<forall>i<tsize kind. cnts H kind ! i > 0 \<and> tabs H kind ! i \<noteq> inj e"
  | (ok) i H' h' where "wr hwstep e (H, h) = Some (int i, (H', h'))" "acquire kind (inj e) i H H'"
      "sub_inv tbl keep (H', h')" "hw_frame tbl S h h'"
proof -
  from I have tok: "tables_ok H" by (simp add: sub_inv_def)
  then have len: "length (tab H) = tsize kind" by (metis length_map tables_ok_def tabs_kind)
  show ?thesis
  proof (rule tbl_write_cases [of "tab H" "cnts H kind" e "tsize kind"], goal_cases)
    case 1
    then show ?case using full by (simp add: wr_eq tabs_kind inj_eq len)
  next
    case (2 i)
    let ?c = "cnts H kind ! i + 1"
    let ?H = "put ((tab H)[i := e]) ((cnts H kind)[i := ?c]) H"
    have c: "?c \<noteq> 0" using ovf 2(1) unat_inc_word [of "cnts H kind ! i"] by auto
    have img: "img_of (trow (inj e)) = dev_row (inj e) ?c" using c by (simp add: dev_row_def)
    obtain h' where "ifx_ethsw_xwayflow_pce_table_write hwstep
        ((trow (inj e))\<lparr>e_table := of_nat (tno kind), e_index := of_int (int i)\<rparr>) h = Some h'"
      "sub_inv tbl keep (?H, h')" "hw_frame tbl S h h'"
      using row_write [OF E I 2(1) trow_wf _ img, of "of_int (int i)" ?H] c
      by (auto simp: tabs_put cnts_put vlan_put tabs_kind map_update)
    then show ?case
      using 2 by (intro ok [of i ?H h'])
        (auto simp: wr_eq acquire_def tabs_put cnts_put vlan_put tabs_kind map_update len inj_eq)
  qed
qed

lemma dl_spec:
  assumes E: "pce_engine hwstep tbl keep S" and I: "sub_inv tbl keep (H, h)" and i: "i < tsize kind"
  obtains H' h' where "dl hwstep i (H, h) = Some (0, (H', h'))" "release kind i H H'"
      "sub_inv tbl keep (H', h')" "hw_frame tbl S h h'"
proof -
  let ?c = "dec (cnts H kind ! i)"
  let ?cs = "(cnts H kind)[i := ?c]"
  from I have ok: "tables_ok H" by (simp add: sub_inv_def)
  then have len: "length (cnts H kind) = tsize kind" "length (tab H) = tsize kind"
    by (simp add: tables_ok_def) (metis ok length_map tables_ok_def tabs_kind)
  have cs: "(if cnts H kind ! i > 0 then (cnts H kind)[i := cnts H kind ! i - 1] else cnts H kind) = ?cs"
    by (simp add: dec_def)
  have csi: "?cs ! i = ?c" using i len by simp
  show ?thesis
  proof (cases "?c = 0")
    case True
    let ?H = "put ((tab H)[i := zero]) ?cs H"
    have img: "img_of zero_entry = dev_row (tzero kind) ?c" by (simp add: dev_row_def True)
    obtain h' where "ifx_ethsw_xwayflow_pce_table_write hwstep
        (zero_entry\<lparr>e_table := of_nat (tno kind), e_index := of_nat i\<rparr>) h = Some h'"
      "sub_inv tbl keep (?H, h')" "hw_frame tbl S h h'"
      using row_write [OF E I i entry_wf_zero _ img, of "of_nat i" ?H]
      by (auto simp: tabs_put cnts_put vlan_put tabs_kind map_update zero_inj)
    then show ?thesis
      using i True len by (intro that [of ?H h'])
        (auto simp: dl_eq cs csi Let_def release_def tabs_put cnts_put vlan_put tabs_kind map_update zero_inj)
  next
    case False
    let ?H = "put (tab H) ?cs H"
    have th: "tabs ?H = tabs H" by (simp add: tabs_put tabs_kind fun_eq_iff)
    then have e: "tabs ?H = (tabs H)(kind := (tabs H kind)[i := tabs H kind ! i])" by simp
    have c0: "cnts H kind ! i \<noteq> 0" using False by (auto simp: dec_def)
    have "mirrored keep (driver_tbl tbl h) ?H"
      using I False c0 i len by (auto simp: sub_inv_def mirrored_def th cnts_put dev_row_def nth_list_update)
    moreover have "tables_ok ?H"
      using False by (intro update_tables_ok [OF ok i _ e]) (auto simp: cnts_put vlan_put)
    ultimately have "sub_inv tbl keep (?H, h)" using I by (simp add: sub_inv_def)
    then show ?thesis
      using i False len by (intro that [of ?H h])
        (auto simp: dl_eq cs csi Let_def release_def tabs_put cnts_put vlan_put tabs_kind)
  qed
qed

end

section \<open>The seven tables\<close>

text \<open>A function on the family is given by its seven values.\<close>

lemma tkind_fun_eq: "f = g \<longleftrightarrow> f PKG = g PKG \<and> f MAC = g MAC \<and> f APPL = g APPL \<and> f IPMSB = g IPMSB \<and>
    f IPLSB = g IPLSB \<and> f PTCL = g PTCL \<and> f PPPOE = g PPPOE"
  by (rule iffI, simp, rule ext, rename_tac k, case_tac k) simp_all

lemmas rc_laws = map_option_case Let_def tkind_fun_eq zero_entry_def mac_entry_def ip_entry_def
lemmas rc_splits = bind_split option.splits prod.splits

interpretation pkg: rc_table PKG E_pkg pkg_lng_tbl "\<lambda>t c H. H\<lparr>pkg_lng_tbl := t, pkg_lng_tbl_cnt := c\<rparr>"
  zero_pkg_lng ifx_pce_tm_pkg_lng_tbl_write ifx_pce_tm_pkg_lng_tbl_delete
  by unfold_locales
    (auto simp: ifx_pce_tm_pkg_lng_tbl_write_def ifx_pce_tm_pkg_lng_tbl_delete_def rc_laws split: rc_splits)

interpretation macs: rc_table MAC E_mac dasa_mac_tbl "\<lambda>t c H. H\<lparr>dasa_mac_tbl := t, dasa_mac_tbl_cnt := c\<rparr>"
  zero_mac ifx_pce_tm_dasa_mac_tbl_write ifx_pce_tm_dasa_mac_tbl_delete
  by unfold_locales
    (auto simp: ifx_pce_tm_dasa_mac_tbl_write_def ifx_pce_tm_dasa_mac_tbl_delete_def rc_laws split: rc_splits)

interpretation appl: rc_table APPL E_appl appl_tbl "\<lambda>t c H. H\<lparr>appl_tbl := t, appl_tbl_cnt := c\<rparr>"
  zero_appl ifx_pce_tm_appl_tbl_write ifx_pce_tm_appl_tbl_delete
  by unfold_locales
    (auto simp: ifx_pce_tm_appl_tbl_write_def ifx_pce_tm_appl_tbl_delete_def rc_laws split: rc_splits)

interpretation ipm: rc_table IPMSB E_ip ip_dasa_msb_tbl "\<lambda>t c H. H\<lparr>ip_dasa_msb_tbl := t, ip_dasa_msb_tbl_cnt := c\<rparr>"
  zero_ip ifx_pce_tm_ip_dasa_msb_tbl_write ifx_pce_tm_ip_dasa_msb_tbl_delete
  by unfold_locales
    (auto simp: ifx_pce_tm_ip_dasa_msb_tbl_write_def ifx_pce_tm_ip_dasa_msb_tbl_delete_def rc_laws split: rc_splits)

interpretation ipl: rc_table IPLSB E_ip ip_dasa_lsb_tbl "\<lambda>t c H. H\<lparr>ip_dasa_lsb_tbl := t, ip_dasa_lsb_tbl_cnt := c\<rparr>"
  zero_ip ifx_pce_tm_ip_dasa_lsb_tbl_write ifx_pce_tm_ip_dasa_lsb_tbl_delete
  by unfold_locales
    (auto simp: ifx_pce_tm_ip_dasa_lsb_tbl_write_def ifx_pce_tm_ip_dasa_lsb_tbl_delete_def rc_laws split: rc_splits)

interpretation ptcl: rc_table PTCL E_ptcl ptcl_tbl "\<lambda>t c H. H\<lparr>ptcl_tbl := t, ptcl_tbl_cnt := c\<rparr>"
  zero_ptcl ifx_pce_tm_ptcl_tbl_write ifx_pce_tm_ptcl_tbl_delete
  by unfold_locales
    (auto simp: ifx_pce_tm_ptcl_tbl_write_def ifx_pce_tm_ptcl_tbl_delete_def rc_laws split: rc_splits)

interpretation pppoe: rc_table PPPOE E_pppoe pppoe_tbl "\<lambda>t c H. H\<lparr>pppoe_tbl := t, pppoe_tbl_cnt := c\<rparr>"
  zero_pppoe ifx_pce_tm_pppoe_tbl_write ifx_pce_tm_pppoe_tbl_delete
  by unfold_locales
    (auto simp: ifx_pce_tm_pppoe_tbl_write_def ifx_pce_tm_pppoe_tbl_delete_def rc_laws split: rc_splits)

end
