(* ===== verification/PCE_Rules.thy ===== *)
theory PCE_Rules
  imports PCE_Tables
begin

text \<open>
  Rules of the classification engine: the pattern and action structures of \<^verbatim>\<open>ifx_ethsw_flow.h\<close>, the
  driver's rule state \<^verbatim>\<open>IFX_PCE_t\<close>, and \<^verbatim>\<open>ifx_pce_rule_write\<close>, \<^verbatim>\<open>ifx_pce_rule_read\<close>,
  \<^verbatim>\<open>ifx_pce_pattern_delete\<close>, \<^verbatim>\<open>ifx_pce_action_delete\<close> of \<^verbatim>\<open>ltq_flow_pce.c\<close>. A rule write is a long
  sequence of phases, one per field of the pattern and per group of the action; a phase that
  fails returns at once and leaves what the earlier ones did.

  API booleans are \<open>bool\<close>: a caller passes 0 or 1. The bytes the C code leaves uninitialised on its
  stack, and the padding of the caller's structure, are the parameter \<open>garbage\<close>.
\<close>

unbundle bit_operations_syntax

section \<open>Patterns\<close>

datatype IFX_FLOW_PCE_IP = IP_DISABLED | IP_V4 | IP_V6

text \<open>
  \<^verbatim>\<open>IFX_FLOW_PCE_pattern_t\<close>. The union \<^verbatim>\<open>IFX_ETHSW_IP_t\<close> is its eight 16-bit words; on the
  big-endian CPU \<^verbatim>\<open>nIPv4\<close> is the first two of them.
\<close>

record IFX_FLOW_PCE_pattern =
  nIndex :: u32
  bEnable :: bool
  bPortIdEnable :: bool
  nPortId :: u8
  bDSCP_Enable :: bool
  nDSCP :: u8
  bPCP_Enable :: bool
  nPCP :: u8
  bPktLngEnable :: bool
  nPktLng :: u16
  nPktLngRange :: u16
  bMAC_DstEnable :: bool
  nMAC_Dst :: "u8 list"
  nMAC_DstMask :: u16
  bMAC_SrcEnable :: bool
  nMAC_Src :: "u8 list"
  nMAC_SrcMask :: u16
  bAppDataMSB_Enable :: bool
  nAppDataMSB :: u16
  bAppMaskRangeMSB_Select :: bool
  nAppMaskRangeMSB :: u16
  bAppDataLSB_Enable :: bool
  nAppDataLSB :: u16
  bAppMaskRangeLSB_Select :: bool
  nAppMaskRangeLSB :: u16
  eDstIP_Select :: IFX_FLOW_PCE_IP
  nDstIP :: "u16 list"
  nDstIP_Mask :: u32
  eSrcIP_Select :: IFX_FLOW_PCE_IP
  nSrcIP :: "u16 list"
  nSrcIP_Mask :: u32
  bEtherTypeEnable :: bool
  nEtherType :: u16
  nEtherTypeMask :: u16
  bProtocolEnable :: bool
  nProtocol :: u8
  nProtocolMask :: u8
  bSessionIdEnable :: bool
  nSessionId :: u16
  bVid :: bool
  nVid :: u16

definition nIPv4 :: "u16 list \<Rightarrow> u32" where
  "nIPv4 ip = push_bit 16 (ucast (ip ! 0)) OR ucast (ip ! 1)"

definition set_nIPv4 :: "u32 \<Rightarrow> u16 list \<Rightarrow> u16 list" where
  "set_nIPv4 w ip = ip[0 := ucast (drop_bit 16 w), 1 := ucast w]"

definition zero_pattern :: IFX_FLOW_PCE_pattern where
  "zero_pattern = \<lparr>nIndex = 0, bEnable = False, bPortIdEnable = False, nPortId = 0,
     bDSCP_Enable = False, nDSCP = 0, bPCP_Enable = False, nPCP = 0,
     bPktLngEnable = False, nPktLng = 0, nPktLngRange = 0,
     bMAC_DstEnable = False, nMAC_Dst = replicate 6 0, nMAC_DstMask = 0,
     bMAC_SrcEnable = False, nMAC_Src = replicate 6 0, nMAC_SrcMask = 0,
     bAppDataMSB_Enable = False, nAppDataMSB = 0, bAppMaskRangeMSB_Select = False, nAppMaskRangeMSB = 0,
     bAppDataLSB_Enable = False, nAppDataLSB = 0, bAppMaskRangeLSB_Select = False, nAppMaskRangeLSB = 0,
     eDstIP_Select = IP_DISABLED, nDstIP = replicate 8 0, nDstIP_Mask = 0,
     eSrcIP_Select = IP_DISABLED, nSrcIP = replicate 8 0, nSrcIP_Mask = 0,
     bEtherTypeEnable = False, nEtherType = 0, nEtherTypeMask = 0,
     bProtocolEnable = False, nProtocol = 0, nProtocolMask = 0,
     bSessionIdEnable = False, nSessionId = 0, bVid = False, nVid = 0\<rparr>"

section \<open>Actions\<close>

datatype ActionIGMP_Snoop = SNOOP_DISABLE | SNOOP_REGULAR | SNOOP_REPORT | SNOOP_LEAVE | SNOOP_AD
  | SNOOP_QUERY | SNOOP_QUERY_GROUP | SNOOP_QUERY_NO_ROUTER
datatype ActionLearning = LEARNING_DISABLE | LEARNING_REGULAR | LEARNING_FORCE_NOT | LEARNING_FORCE
datatype ActionMeter = METER_DISABLE | METER_REGULAR | METER_1 | METER_1_2
datatype ActionTrafficClass = TRAFFIC_CLASS_DISABLE | TRAFFIC_CLASS_REGULAR | TRAFFIC_CLASS_ALTERNATIVE
datatype ActionIrq = IRQ_DISABLE | IRQ_REGULAR | IRQ_EVENT
datatype ActionCrossState = CROSS_STATE_DISABLE | CROSS_STATE_REGULAR | CROSS_STATE_CROSS
datatype ActionCriticalFrame = CRITICAL_FRAME_DISABLE | CRITICAL_FRAME_REGULAR | CRITICAL_FRAME_CRITICAL
datatype ActionTimestamp = TIMESTAMP_DISABLE | TIMESTAMP_REGULAR | TIMESTAMP_STORED
datatype ActionPortmap = PORTMAP_DISABLE | PORTMAP_REGULAR | PORTMAP_DISCARD | PORTMAP_CPU
  | PORTMAP_ALTERNATIVE | PORTMAP_MULTICAST_ROUTER | PORTMAP_MULTICAST_HW_TABLE
datatype ActionVLAN = VLAN_DISABLE | VLAN_REGULAR | VLAN_ALTERNATIVE
datatype ActionCrossVLAN = CROSS_VLAN_DISABLE | CROSS_VLAN_REGULAR | CROSS_VLAN_CROSS

record IFX_FLOW_PCE_action =
  eTrafficClassAction :: ActionTrafficClass
  nTrafficClassAlternate :: u8
  eSnoopingTypeAction :: ActionIGMP_Snoop
  eLearningAction :: ActionLearning
  eIrqAction :: ActionIrq
  eCrossStateAction :: ActionCrossState
  eCritFrameAction :: ActionCriticalFrame
  eTimestampAction :: ActionTimestamp
  ePortMapAction :: ActionPortmap
  nForwardPortMap :: u32
  bRemarkAction :: bool
  bRemarkPCP :: bool
  bRemarkDSCP :: bool
  bRemarkClass :: bool
  eMeterAction :: ActionMeter
  nMeterId :: u8
  bRMON_Action :: bool
  nRMON_Id :: u8
  eVLAN_Action :: ActionVLAN
  nVLAN_Id :: u16
  eVLAN_CrossAction :: ActionCrossVLAN
  bPortBitMapMuxControl :: bool
  bPortTrunkAction :: bool
  bPortLinkSelection :: bool
  bFlowID_Action :: bool
  nFlowID :: u16

definition zero_action :: IFX_FLOW_PCE_action where
  "zero_action = \<lparr>eTrafficClassAction = TRAFFIC_CLASS_DISABLE, nTrafficClassAlternate = 0,
     eSnoopingTypeAction = SNOOP_DISABLE, eLearningAction = LEARNING_DISABLE, eIrqAction = IRQ_DISABLE,
     eCrossStateAction = CROSS_STATE_DISABLE, eCritFrameAction = CRITICAL_FRAME_DISABLE,
     eTimestampAction = TIMESTAMP_DISABLE, ePortMapAction = PORTMAP_DISABLE, nForwardPortMap = 0,
     bRemarkAction = False, bRemarkPCP = False, bRemarkDSCP = False, bRemarkClass = False,
     eMeterAction = METER_DISABLE, nMeterId = 0, bRMON_Action = False, nRMON_Id = 0,
     eVLAN_Action = VLAN_DISABLE, nVLAN_Id = 0, eVLAN_CrossAction = CROSS_VLAN_DISABLE,
     bPortBitMapMuxControl = False, bPortTrunkAction = False, bPortLinkSelection = False,
     bFlowID_Action = False, nFlowID = 0\<rparr>"

record IFX_FLOW_PCE_rule =
  pattern :: IFX_FLOW_PCE_pattern
  action :: IFX_FLOW_PCE_action

section \<open>The rule table\<close>

definition IFX_PCE_TBL_SIZE :: nat where "IFX_PCE_TBL_SIZE = 64"

text \<open>\<^verbatim>\<open>IFX_PCE_TBL_t\<close>, the row of a rule: per field an index, all ones meaning ``any''.\<close>

record IFX_PCE_TBL =
  dscp :: "7 word"
  pcp :: "4 word"
  pkt_lng_idx :: "5 word"
  dst_mac_addr_idx :: u8
  src_mac_addr_idx :: u8
  dst_appl_fld_idx :: u8
  src_appl_fld_idx :: u8
  dip_msb_idx :: u8
  dip_lsb_idx :: u8
  sip_msb_idx :: u8
  sip_lsb_idx :: u8
  ip_prot_idx :: u8
  ethertype_idx :: u8
  pppoe_idx :: "5 word"
  vlan_idx :: "7 word"
  port_id :: u8

definition zero_row :: IFX_PCE_TBL where
  "zero_row = \<lparr>dscp = 0, pcp = 0, pkt_lng_idx = 0, dst_mac_addr_idx = 0, src_mac_addr_idx = 0,
     dst_appl_fld_idx = 0, src_appl_fld_idx = 0, dip_msb_idx = 0, dip_lsb_idx = 0, sip_msb_idx = 0,
     sip_lsb_idx = 0, ip_prot_idx = 0, ethertype_idx = 0, pppoe_idx = 0, vlan_idx = 0, port_id = 0\<rparr>"

text \<open>The row after \<^verbatim>\<open>memset(pFet, 0xFF, ...)\<close>.\<close>

definition ones_row :: IFX_PCE_TBL where
  "ones_row = \<lparr>dscp = 0x7F, pcp = 0xF, pkt_lng_idx = 0x1F, dst_mac_addr_idx = 0xFF, src_mac_addr_idx = 0xFF,
     dst_appl_fld_idx = 0xFF, src_appl_fld_idx = 0xFF, dip_msb_idx = 0xFF, dip_lsb_idx = 0xFF,
     sip_msb_idx = 0xFF, sip_lsb_idx = 0xFF, ip_prot_idx = 0xFF, ethertype_idx = 0xFF,
     pppoe_idx = 0x1F, vlan_idx = 0x7F, port_id = 0xFF\<rparr>"

record IFX_PCE =
  pce_sub_tbl :: IFX_PCE_HANDLE
  pce_tbl :: "IFX_PCE_TBL list"
  pce_act :: "IFX_FLOW_PCE_action list"
  pce_tbl_used :: "u8 list"

definition zero_handle :: IFX_PCE_HANDLE where
  "zero_handle = \<lparr>
     pkg_lng_tbl_cnt = replicate IFX_PCE_PKG_LNG_TBL_SIZE 0,
     dasa_mac_tbl_cnt = replicate IFX_PCE_DASA_MAC_TBL_SIZE 0,
     appl_tbl_cnt = replicate IFX_PCE_APPL_TBL_SIZE 0,
     ip_dasa_msb_tbl_cnt = replicate IFX_PCE_IP_DASA_MSB_TBL_SIZE 0,
     ip_dasa_lsb_tbl_cnt = replicate IFX_PCE_IP_DASA_LSB_TBL_SIZE 0,
     ptcl_tbl_cnt = replicate IFX_PCE_PTCL_TBL_SIZE 0,
     pppoe_tbl_cnt = replicate IFX_PCE_PPPOE_TBL_SIZE 0,
     vlan_act_tbl_cnt = replicate IFX_PCE_VLAN_ACT_TBL_SIZE 0,
     pkg_lng_tbl = replicate IFX_PCE_PKG_LNG_TBL_SIZE zero_pkg_lng,
     dasa_mac_tbl = replicate IFX_PCE_DASA_MAC_TBL_SIZE zero_mac,
     appl_tbl = replicate IFX_PCE_APPL_TBL_SIZE zero_appl,
     ip_dasa_msb_tbl = replicate IFX_PCE_IP_DASA_MSB_TBL_SIZE zero_ip,
     ip_dasa_lsb_tbl = replicate IFX_PCE_IP_DASA_LSB_TBL_SIZE zero_ip,
     ptcl_tbl = replicate IFX_PCE_PTCL_TBL_SIZE zero_ptcl,
     pppoe_tbl = replicate IFX_PCE_PPPOE_TBL_SIZE zero_pppoe\<rparr>"

text \<open>
  \<^verbatim>\<open>ifx_pce_table_init\<close>. \<^verbatim>\<open>sizeof(IFX_PCE_TBL_t)\<close> and \<^verbatim>\<open>sizeof(IFX_FLOW_PCE_action_t)\<close> are the sizes
  of one element, so only the first row and the first action are cleared.
\<close>

definition ifx_pce_table_init :: "IFX_PCE \<Rightarrow> int \<times> IFX_PCE" where
  "ifx_pce_table_init P = (IFX_SUCCESS,
     P\<lparr>pce_sub_tbl := zero_handle, pce_tbl := (pce_tbl P)[0 := zero_row],
       pce_act := (pce_act P)[0 := zero_action], pce_tbl_used := replicate IFX_PCE_TBL_SIZE 0\<rparr>)"

section \<open>The state of the rule operations\<close>

text \<open>The driver's rules, the device, and the local \<^verbatim>\<open>pcetable\<close> of \<^verbatim>\<open>ifx_pce_rule_write\<close>.\<close>

record 'p pce_st =
  st_pce :: IFX_PCE
  st_hw :: "'p hw"
  st_ent :: pce_entry

record garbage =
  g_pad_eq :: bool
  g_appl_pad :: "u8 \<times> u8"
  g_ip_dst :: "u8 list"
  g_ip_src :: "u8 list"
  g_ptcl_res :: "12 word"

text \<open>A call of a table routine on \<^verbatim>\<open>&pHandle->pce_sub_tbl\<close>, its result passed on.\<close>

definition call_sub :: "('p sub \<Rightarrow> ('r \<times> 'p sub) option) \<Rightarrow> ('r \<Rightarrow> 'p pce_st cmd) \<Rightarrow> 'p pce_st cmd" where
  "call_sub f k s = (case f (pce_sub_tbl (st_pce s), st_hw s) of
      None \<Rightarrow> None
    | Some (r, (H, h)) \<Rightarrow> k r (s\<lparr>st_pce := (st_pce s)\<lparr>pce_sub_tbl := H\<rparr>, st_hw := h\<rparr>))"

definition fet :: "nat \<Rightarrow> 'p pce_st \<Rightarrow> IFX_PCE_TBL" where
  "fet idx s = pce_tbl (st_pce s) ! idx"

definition upd_fet :: "nat \<Rightarrow> (IFX_PCE_TBL \<Rightarrow> IFX_PCE_TBL) \<Rightarrow> 'p pce_st \<Rightarrow> 'p pce_st" where
  "upd_fet idx f s = s\<lparr>st_pce := (st_pce s)\<lparr>pce_tbl := (pce_tbl (st_pce s))[idx := f (fet idx s)]\<rparr>\<rparr>"

text \<open>Updates of one key or value of \<^verbatim>\<open>pcetable\<close>.\<close>

definition upd_key :: "nat \<Rightarrow> (u16 \<Rightarrow> u16) \<Rightarrow> 'p pce_st \<Rightarrow> 'p pce_st" where
  "upd_key k f s = s\<lparr>st_ent := (st_ent s)\<lparr>e_key := (e_key (st_ent s))[k := f (e_key (st_ent s) ! k)]\<rparr>\<rparr>"

definition upd_vals :: "(u16 list \<Rightarrow> u16 list) \<Rightarrow> 'p pce_st \<Rightarrow> 'p pce_st" where
  "upd_vals f s = s\<lparr>st_ent := (st_ent s)\<lparr>e_val := f (e_val (st_ent s))\<rparr>\<rparr>"

section \<open>Deleting\<close>

text \<open>
  \<^verbatim>\<open>ifx_pce_action_delete\<close>: the row of the traffic flow table is read back, and if it is valid
  with the VLAN action bit set, the use of the VLAN row named by its third value is given back;
  then the row is written back invalid.
\<close>

definition ifx_pce_action_delete :: "('p hw \<Rightarrow> 'p hw) \<Rightarrow> nat \<Rightarrow> 'p pce_st \<Rightarrow> (int \<times> 'p pce_st) option" where
  "ifx_pce_action_delete hwstep index s =
     (if index \<ge> IFX_PCE_TBL_SIZE then Some (-1, s)
      else do {
        let P = (st_pce s)\<lparr>pce_act := (pce_act (st_pce s))[index := zero_action]\<rparr>;
        (e, h) \<leftarrow> ifx_ethsw_xwayflow_pce_table_read hwstep
          (zero_entry\<lparr>e_table := PCE_TFLOW_INDEX, e_index := of_nat index\<rparr>) (st_hw s);
        let v = unat (e_val e ! 2 AND 0x3F);
        let H = pce_sub_tbl P;
        let H = (if e_valid e = 1 \<and> bit (e_val e ! 0) 1 \<and> vlan_act_tbl_cnt H ! v > 0
                 then H\<lparr>vlan_act_tbl_cnt := (vlan_act_tbl_cnt H)[v := vlan_act_tbl_cnt H ! v - 1]\<rparr> else H);
        h \<leftarrow> ifx_ethsw_xwayflow_pce_table_write hwstep (e\<lparr>e_valid := 0\<rparr>) h;
        Some (IFX_SUCCESS, s\<lparr>st_pce := P\<lparr>pce_sub_tbl := H\<rparr>, st_hw := h\<rparr>) })"

text \<open>\<^verbatim>\<open>IFX_PCE_TM_IDX_DELETE(x, y, z)\<close>\<close>

definition idx_delete :: "nat \<Rightarrow> nat \<Rightarrow> (nat \<Rightarrow> 'p sub \<Rightarrow> (int \<times> 'p sub) option) \<Rightarrow> 'p pce_st cmd" where
  "idx_delete x y z = when_c (x \<noteq> y) (call_sub (z y) (\<lambda>r. when_c (r \<noteq> 0) (return_with (-1))))"

definition idx_deletes :: "('p hw \<Rightarrow> 'p hw) \<Rightarrow> IFX_PCE_TBL \<Rightarrow> 'p pce_st cmd" where
  "idx_deletes hwstep F = seqs
    [idx_delete 0x1F (unat (pkt_lng_idx F)) (ifx_pce_tm_pkg_lng_tbl_delete hwstep),
     idx_delete 0xFF (unat (dst_mac_addr_idx F)) (ifx_pce_tm_dasa_mac_tbl_delete hwstep),
     idx_delete 0xFF (unat (src_mac_addr_idx F)) (ifx_pce_tm_dasa_mac_tbl_delete hwstep),
     idx_delete 0xFF (unat (dst_appl_fld_idx F)) (ifx_pce_tm_appl_tbl_delete hwstep),
     idx_delete 0xFF (unat (src_appl_fld_idx F)) (ifx_pce_tm_appl_tbl_delete hwstep),
     idx_delete 0xFF (unat (dip_msb_idx F)) (ifx_pce_tm_ip_dasa_msb_tbl_delete hwstep),
     idx_delete 0xFF (unat (dip_lsb_idx F)) (ifx_pce_tm_ip_dasa_lsb_tbl_delete hwstep),
     idx_delete 0xFF (unat (sip_msb_idx F)) (ifx_pce_tm_ip_dasa_msb_tbl_delete hwstep),
     idx_delete 0xFF (unat (sip_lsb_idx F)) (ifx_pce_tm_ip_dasa_lsb_tbl_delete hwstep),
     idx_delete 0xFF (unat (ip_prot_idx F)) (ifx_pce_tm_ptcl_tbl_delete hwstep),
     idx_delete 0xFF (unat (ethertype_idx F)) (ifx_pce_tm_ptcl_tbl_delete hwstep),
     idx_delete 0x1F (unat (pppoe_idx F)) (ifx_pce_tm_pppoe_tbl_delete hwstep),
     idx_delete 0x7F (unat (vlan_idx F)) ifx_pce_tm_vlan_act_tbl_delete]"

definition clear_row :: "nat \<Rightarrow> 'p pce_st \<Rightarrow> 'p pce_st" where
  "clear_row index s = s\<lparr>st_pce := (st_pce s)\<lparr>pce_tbl_used := (pce_tbl_used (st_pce s))[index := 0],
     pce_tbl := (pce_tbl (st_pce s))[index := ones_row]\<rparr>\<rparr>"

definition ifx_pce_pattern_delete :: "('p hw \<Rightarrow> 'p hw) \<Rightarrow> nat \<Rightarrow> 'p pce_st \<Rightarrow> (int \<times> 'p pce_st) option" where
  "ifx_pce_pattern_delete hwstep index s =
     (if index \<ge> IFX_PCE_TBL_SIZE then Some (-1, s)
      else if pce_tbl_used (st_pce s) ! index = 0 then Some (IFX_SUCCESS, s)
      else case idx_deletes hwstep (fet index s) s of
          None \<Rightarrow> None
        | Some (Some r, s) \<Rightarrow> Some (r, s)
        | Some (None, s) \<Rightarrow> ifx_pce_action_delete hwstep index (clear_row index s))"

section \<open>Reading a rule\<close>

text \<open>
  The fields of the pattern in the order of \<^verbatim>\<open>ifx_pce_rule_read\<close>; \<open>None\<close> is \<^verbatim>\<open>IFX_RETURN_PCE\<close>
  (an index outside its table), after which the caller's structure is not used.
\<close>

definition rd_port :: "IFX_PCE_TBL \<Rightarrow> IFX_FLOW_PCE_pattern \<Rightarrow> IFX_FLOW_PCE_pattern" where
  "rd_port F p = p\<lparr>nPortId := (if port_id F = 0xFF then 0 else port_id F), bPortIdEnable := (port_id F \<noteq> 0xFF)\<rparr>"

definition rd_dscp :: "IFX_PCE_TBL \<Rightarrow> IFX_FLOW_PCE_pattern \<Rightarrow> IFX_FLOW_PCE_pattern" where
  "rd_dscp F p = p\<lparr>nDSCP := (if dscp F = 0x7F then 0 else ucast (dscp F)), bDSCP_Enable := (dscp F \<noteq> 0x7F)\<rparr>"

definition rd_pcp :: "IFX_PCE_TBL \<Rightarrow> IFX_FLOW_PCE_pattern \<Rightarrow> IFX_FLOW_PCE_pattern" where
  "rd_pcp F p = p\<lparr>nPCP := (if pcp F = 0xF then 0 else ucast (pcp F)), bPCP_Enable := (pcp F \<noteq> 0xF)\<rparr>"

definition rd_pkt_lng :: "IFX_PCE_HANDLE \<Rightarrow> IFX_PCE_TBL \<Rightarrow> IFX_FLOW_PCE_pattern \<Rightarrow> IFX_FLOW_PCE_pattern option" where
  "rd_pkt_lng H F p = (if pkt_lng_idx F \<noteq> 0x1F then do {
       t \<leftarrow> ifx_pce_tm_pkg_lng_tbl_read H (uint (pkt_lng_idx F));
       Some (p\<lparr>bPktLngEnable := True, nPktLng := pkg_lng t, nPktLngRange := pkg_lng_rng t\<rparr>) }
     else Some p)"

definition rd_dst_mac :: "IFX_PCE_HANDLE \<Rightarrow> IFX_PCE_TBL \<Rightarrow> IFX_FLOW_PCE_pattern \<Rightarrow> IFX_FLOW_PCE_pattern option" where
  "rd_dst_mac H F p = (if dst_mac_addr_idx F \<noteq> 0xFF then do {
       t \<leftarrow> ifx_pce_tm_dasa_mac_tbl_read H (uint (dst_mac_addr_idx F));
       Some (p\<lparr>bMAC_DstEnable := True, nMAC_Dst := map (\<lambda>i. mac t ! i) [0..<6], nMAC_DstMask := mac_mask t\<rparr>) }
     else Some p)"

definition rd_src_mac :: "IFX_PCE_HANDLE \<Rightarrow> IFX_PCE_TBL \<Rightarrow> IFX_FLOW_PCE_pattern \<Rightarrow> IFX_FLOW_PCE_pattern option" where
  "rd_src_mac H F p = (if src_mac_addr_idx F \<noteq> 0xFF then do {
       t \<leftarrow> ifx_pce_tm_dasa_mac_tbl_read H (uint (src_mac_addr_idx F));
       Some (p\<lparr>bMAC_SrcEnable := True, nMAC_Src := map (\<lambda>i. mac t ! i) [0..<6], nMAC_SrcMask := mac_mask t\<rparr>) }
     else Some p)"

definition rd_dst_appl :: "IFX_PCE_HANDLE \<Rightarrow> IFX_PCE_TBL \<Rightarrow> IFX_FLOW_PCE_pattern \<Rightarrow> IFX_FLOW_PCE_pattern option" where
  "rd_dst_appl H F p = (if dst_appl_fld_idx F \<noteq> 0xFF then do {
       t \<leftarrow> ifx_pce_tm_appl_tbl_read H (uint (dst_appl_fld_idx F));
       Some (p\<lparr>bAppDataMSB_Enable := True, nAppDataMSB := appl_data t,
         bAppMaskRangeMSB_Select := (mask_range_type t \<noteq> 0), nAppMaskRangeMSB := mask_range t\<rparr>) }
     else Some p)"

definition rd_src_appl :: "IFX_PCE_HANDLE \<Rightarrow> IFX_PCE_TBL \<Rightarrow> IFX_FLOW_PCE_pattern \<Rightarrow> IFX_FLOW_PCE_pattern option" where
  "rd_src_appl H F p = (if src_appl_fld_idx F \<noteq> 0xFF then do {
       t \<leftarrow> ifx_pce_tm_appl_tbl_read H (uint (src_appl_fld_idx F));
       Some (p\<lparr>bAppDataLSB_Enable := True, nAppDataLSB := appl_data t,
         bAppMaskRangeLSB_Select := (mask_range_type t \<noteq> 0), nAppMaskRangeLSB := mask_range t\<rparr>) }
     else Some p)"

text \<open>
  An IPv6 address is two table rows of eight bytes, the words in reverse order and each with
  its low byte first; an IPv4 address is the low four bytes of one row.
\<close>

definition half_words :: "u8 list \<Rightarrow> u16 list" where
  "half_words b = map (\<lambda>i. push_bit 8 (ucast (b ! (7 - 2 * i))) OR ucast (b ! (6 - 2 * i))) [0, 1, 2, 3]"

definition bytes_nIPv4 :: "u8 list \<Rightarrow> u32" where
  "bytes_nIPv4 b = ucast (b ! 0) OR push_bit 8 (ucast (b ! 1)) OR push_bit 16 (ucast (b ! 2)) OR push_bit 24 (ucast (b ! 3))"

definition rd_dip :: "IFX_PCE_HANDLE \<Rightarrow> IFX_PCE_TBL \<Rightarrow> IFX_FLOW_PCE_pattern \<Rightarrow> IFX_FLOW_PCE_pattern option" where
  "rd_dip H F p =
    (if dip_msb_idx F \<noteq> 0xFF \<and> dip_lsb_idx F \<noteq> 0xFF then do {
       m \<leftarrow> ifx_pce_tm_ip_dasa_msb_tbl_read H (uint (dip_msb_idx F));
       l \<leftarrow> ifx_pce_tm_ip_dasa_lsb_tbl_read H (uint (dip_lsb_idx F));
       Some (p\<lparr>eDstIP_Select := IP_V6, nDstIP := half_words (ip_bytes m) @ half_words (ip_bytes l),
         nDstIP_Mask := push_bit 16 (ucast (ip_mask m)) OR ucast (ip_mask l)\<rparr>) }
     else if dip_lsb_idx F \<noteq> 0xFF then do {
       l \<leftarrow> ifx_pce_tm_ip_dasa_lsb_tbl_read H (uint (dip_lsb_idx F));
       Some (p\<lparr>eDstIP_Select := IP_V4, nDstIP := set_nIPv4 (bytes_nIPv4 (ip_bytes l)) (nDstIP p),
         nDstIP_Mask := ucast (ip_mask l)\<rparr>) }
     else Some p)"

definition rd_sip :: "IFX_PCE_HANDLE \<Rightarrow> IFX_PCE_TBL \<Rightarrow> IFX_FLOW_PCE_pattern \<Rightarrow> IFX_FLOW_PCE_pattern option" where
  "rd_sip H F p =
    (if sip_msb_idx F \<noteq> 0xFF \<and> sip_lsb_idx F \<noteq> 0xFF then do {
       m \<leftarrow> ifx_pce_tm_ip_dasa_msb_tbl_read H (uint (sip_msb_idx F));
       l \<leftarrow> ifx_pce_tm_ip_dasa_lsb_tbl_read H (uint (sip_lsb_idx F));
       Some (p\<lparr>eSrcIP_Select := IP_V6, nSrcIP := half_words (ip_bytes m) @ half_words (ip_bytes l),
         nSrcIP_Mask := push_bit 16 (ucast (ip_mask m)) OR ucast (ip_mask l)\<rparr>) }
     else if sip_lsb_idx F \<noteq> 0xFF then do {
       l \<leftarrow> ifx_pce_tm_ip_dasa_lsb_tbl_read H (uint (sip_lsb_idx F));
       Some (p\<lparr>eSrcIP_Select := IP_V4, nSrcIP := set_nIPv4 (bytes_nIPv4 (ip_bytes l)) (nSrcIP p),
         nSrcIP_Mask := ucast (ip_mask l)\<rparr>) }
     else Some p)"

definition rd_ethertype :: "IFX_PCE_HANDLE \<Rightarrow> IFX_PCE_TBL \<Rightarrow> IFX_FLOW_PCE_pattern \<Rightarrow> IFX_FLOW_PCE_pattern option" where
  "rd_ethertype H F p = (if ethertype_idx F \<noteq> 0xFF then do {
       t \<leftarrow> ifx_pce_tm_ptcl_tbl_read H (uint (ethertype_idx F));
       Some (p\<lparr>bEtherTypeEnable := True, nEtherType := ptcl_key t, nEtherTypeMask := ptcl_mask t\<rparr>) }
     else Some p)"

text \<open>\<^verbatim>\<open>key.prot.protocol\<close> is the high byte, \<^verbatim>\<open>mask.prot.protocol_mask\<close> are the bits 3..2.\<close>

definition rd_prot :: "IFX_PCE_HANDLE \<Rightarrow> IFX_PCE_TBL \<Rightarrow> IFX_FLOW_PCE_pattern \<Rightarrow> IFX_FLOW_PCE_pattern option" where
  "rd_prot H F p = (if ip_prot_idx F \<noteq> 0xFF then do {
       t \<leftarrow> ifx_pce_tm_ptcl_tbl_read H (uint (ip_prot_idx F));
       Some (p\<lparr>bProtocolEnable := True, nProtocol := ucast (drop_bit 8 (ptcl_key t)),
         nProtocolMask := ucast (drop_bit 2 (ptcl_mask t)) AND 3\<rparr>) }
     else Some p)"

definition rd_pppoe :: "IFX_PCE_HANDLE \<Rightarrow> IFX_PCE_TBL \<Rightarrow> IFX_FLOW_PCE_pattern \<Rightarrow> IFX_FLOW_PCE_pattern option" where
  "rd_pppoe H F p = (if pppoe_idx F \<noteq> 0x1F then do {
       t \<leftarrow> ifx_pce_tm_pppoe_tbl_read H (uint (pppoe_idx F));
       Some (p\<lparr>bSessionIdEnable := True, nSessionId := sess_id t\<rparr>) }
     else Some p)"

definition rd_fields :: "IFX_PCE_HANDLE \<Rightarrow> IFX_PCE_TBL \<Rightarrow> IFX_FLOW_PCE_pattern \<Rightarrow> IFX_FLOW_PCE_pattern option" where
  "rd_fields H F p = do {
     let p = rd_pcp F (rd_dscp F (rd_port F p));
     p \<leftarrow> rd_pkt_lng H F p;
     p \<leftarrow> rd_dst_mac H F p;
     p \<leftarrow> rd_src_mac H F p;
     p \<leftarrow> rd_dst_appl H F p;
     p \<leftarrow> rd_src_appl H F p;
     p \<leftarrow> rd_dip H F p;
     p \<leftarrow> rd_sip H F p;
     p \<leftarrow> rd_ethertype H F p;
     p \<leftarrow> rd_prot H F p;
     rd_pppoe H F p }"

definition rd_vlan :: "('p hw \<Rightarrow> 'p hw) \<Rightarrow> IFX_PCE_TBL \<Rightarrow> IFX_FLOW_PCE_pattern \<Rightarrow> 'p hw \<Rightarrow>
    (IFX_FLOW_PCE_pattern \<times> 'p hw) option" where
  "rd_vlan hwstep F p h =
    (if vlan_idx F \<noteq> 0x7F then do {
       (e, h) \<leftarrow> ifx_ethsw_xwayflow_pce_table_read hwstep
         (zero_entry\<lparr>e_table := PCE_ACTVLAN_INDEX, e_index := ucast (vlan_idx F)\<rparr>) h;
       Some (if e_valid e = 1 then p\<lparr>bVid := True, nVid := e_key e ! 0 AND 0xFFF\<rparr> else p\<lparr>bVid := True\<rparr>, h) }
     else Some (p, h))"

text \<open>The result is the rule (\<open>None\<close> for an error) and the device; the outer option is the polling.\<close>

definition ifx_pce_rule_read :: "('p hw \<Rightarrow> 'p hw) \<Rightarrow> u32 \<Rightarrow> IFX_PCE \<Rightarrow> 'p hw \<Rightarrow>
    (IFX_FLOW_PCE_rule option \<times> 'p hw) option" where
  "ifx_pce_rule_read hwstep nIdx P h =
    (let idx = unat nIdx; zero = zero_pattern\<lparr>nIndex := nIdx\<rparr>
     in if idx \<ge> IFX_PCE_TBL_SIZE then Some (None, h)
        else if pce_tbl_used P ! idx = 0 then Some (Some \<lparr>pattern = zero, action = zero_action\<rparr>, h)
        else case rd_fields (pce_sub_tbl P) (pce_tbl P ! idx) (zero\<lparr>bEnable := True\<rparr>) of
            None \<Rightarrow> Some (None, h)
          | Some p \<Rightarrow> do {
              (p, h) \<leftarrow> rd_vlan hwstep (pce_tbl P ! idx) p h;
              Some (Some \<lparr>pattern = p, action = pce_act P ! idx\<rparr>, h) })"

section \<open>Writing the pattern\<close>

text \<open>
  A field kept in a table: when enabled, an index is taken (a negative one is returned to the
  caller) and stored in the row of the rule, else the field is set to ``any''.
\<close>

definition phase_index :: "bool \<Rightarrow> ('p sub \<Rightarrow> (int \<times> 'p sub) option) \<Rightarrow> (int \<Rightarrow> IFX_PCE_TBL \<Rightarrow> IFX_PCE_TBL) \<Rightarrow>
    int \<Rightarrow> nat \<Rightarrow> 'p pce_st cmd" where
  "phase_index en wr upd any idx =
    (if en then call_sub wr (\<lambda>tab_index. if tab_index < 0 then return_with tab_index
                                       else modify (upd_fet idx (upd tab_index)))
     else modify (upd_fet idx (upd any)))"

definition wr_port :: "nat \<Rightarrow> IFX_FLOW_PCE_pattern \<Rightarrow> 'p pce_st cmd" where
  "wr_port idx p = seqs
    [modify (upd_fet idx (\<lambda>F. F\<lparr>port_id := (if bPortIdEnable p then nPortId p else 0xFF)\<rparr>)),
     modify (\<lambda>s. upd_key 0 (\<lambda>_. ucast (port_id (fet idx s))) s)]"

definition wr_dscp :: "nat \<Rightarrow> IFX_FLOW_PCE_pattern \<Rightarrow> 'p pce_st cmd" where
  "wr_dscp idx p = seqs
    [modify (upd_fet idx (\<lambda>F. F\<lparr>dscp := (if bDSCP_Enable p then ucast (nDSCP p) else 0x7F)\<rparr>)),
     modify (\<lambda>s. upd_key 6 (\<lambda>k. k OR push_bit 8 (ucast (dscp (fet idx s)))) s)]"

definition wr_pcp :: "nat \<Rightarrow> IFX_FLOW_PCE_pattern \<Rightarrow> 'p pce_st cmd" where
  "wr_pcp idx p = seqs
    [modify (upd_fet idx (\<lambda>F. F\<lparr>pcp := (if bPCP_Enable p then ucast (nPCP p) else 0xF)\<rparr>)),
     modify (\<lambda>s. upd_key 6 (\<lambda>k. k OR ucast (pcp (fet idx s))) s)]"

definition wr_pkt_lng :: "('p hw \<Rightarrow> 'p hw) \<Rightarrow> nat \<Rightarrow> IFX_FLOW_PCE_pattern \<Rightarrow> 'p pce_st cmd" where
  "wr_pkt_lng hwstep idx p = seqs
    [phase_index (bPktLngEnable p)
       (ifx_pce_tm_pkg_lng_tbl_write hwstep \<lparr>pkg_lng = nPktLng p, pkg_lng_rng = nPktLngRange p\<rparr>)
       (\<lambda>t F. F\<lparr>pkt_lng_idx := of_int t\<rparr>) 0x1F idx,
     modify (\<lambda>s. upd_key 7 (\<lambda>_. ucast (pkt_lng_idx (fet idx s))) s)]"

definition wr_dst_mac :: "('p hw \<Rightarrow> 'p hw) \<Rightarrow> nat \<Rightarrow> IFX_FLOW_PCE_pattern \<Rightarrow> 'p pce_st cmd" where
  "wr_dst_mac hwstep idx p = seqs
    [phase_index (bMAC_DstEnable p)
       (ifx_pce_tm_dasa_mac_tbl_write hwstep \<lparr>mac = map (\<lambda>i. nMAC_Dst p ! i) [0..<6], mac_mask = nMAC_DstMask p\<rparr>)
       (\<lambda>t F. F\<lparr>dst_mac_addr_idx := of_int t\<rparr>) 0xFF idx,
     modify (\<lambda>s. upd_key 5 (\<lambda>k. k OR push_bit 8 (ucast (dst_mac_addr_idx (fet idx s)))) s)]"

definition wr_src_mac :: "('p hw \<Rightarrow> 'p hw) \<Rightarrow> nat \<Rightarrow> IFX_FLOW_PCE_pattern \<Rightarrow> 'p pce_st cmd" where
  "wr_src_mac hwstep idx p = seqs
    [phase_index (bMAC_SrcEnable p)
       (ifx_pce_tm_dasa_mac_tbl_write hwstep \<lparr>mac = map (\<lambda>i. nMAC_Src p ! i) [0..<6], mac_mask = nMAC_SrcMask p\<rparr>)
       (\<lambda>t F. F\<lparr>src_mac_addr_idx := of_int t\<rparr>) 0xFF idx,
     modify (\<lambda>s. upd_key 5 (\<lambda>k. k OR ucast (src_mac_addr_idx (fet idx s))) s)]"

text \<open>\<^verbatim>\<open>appl_tbl\<close> is a local structure: its padding byte is what the stack held.\<close>

definition wr_dst_appl :: "('p hw \<Rightarrow> 'p hw) \<Rightarrow> garbage \<Rightarrow> nat \<Rightarrow> IFX_FLOW_PCE_pattern \<Rightarrow> 'p pce_st cmd" where
  "wr_dst_appl hwstep g idx p = seqs
    [phase_index (bAppDataMSB_Enable p)
       (ifx_pce_tm_appl_tbl_write hwstep \<lparr>appl_data = nAppDataMSB p, mask_range = nAppMaskRangeMSB p,
          mask_range_type = of_bool (bAppMaskRangeMSB_Select p), appl_pad = fst (g_appl_pad g)\<rparr>)
       (\<lambda>t F. F\<lparr>dst_appl_fld_idx := of_int t\<rparr>) 0xFF idx,
     modify (\<lambda>s. upd_key 4 (\<lambda>k. k OR ucast (dst_appl_fld_idx (fet idx s))) s)]"

definition wr_src_appl :: "('p hw \<Rightarrow> 'p hw) \<Rightarrow> garbage \<Rightarrow> nat \<Rightarrow> IFX_FLOW_PCE_pattern \<Rightarrow> 'p pce_st cmd" where
  "wr_src_appl hwstep g idx p = seqs
    [phase_index (bAppDataLSB_Enable p)
       (ifx_pce_tm_appl_tbl_write hwstep \<lparr>appl_data = nAppDataLSB p, mask_range = nAppMaskRangeLSB p,
          mask_range_type = of_bool (bAppMaskRangeLSB_Select p), appl_pad = snd (g_appl_pad g)\<rparr>)
       (\<lambda>t F. F\<lparr>src_appl_fld_idx := of_int t\<rparr>) 0xFF idx,
     modify (\<lambda>s. upd_key 4 (\<lambda>k. k OR push_bit 8 (ucast (src_appl_fld_idx (fet idx s)))) s)]"

text \<open>
  IP addresses. A row with the wanted bytes is used wherever it is found, without counting the
  use; else one is written. \<open>half_bytes\<close> lays out four words of an IPv6 address, \<open>v4_bytes\<close> an
  IPv4 address (the upper four bytes of the local structure are not initialised).
\<close>

definition half_bytes :: "u16 list \<Rightarrow> u8 list" where
  "half_bytes w = concat (map (\<lambda>i. [ucast (w ! i), ucast (drop_bit 8 (w ! i))]) [3, 2, 1, 0])"

definition v4_bytes :: "u16 list \<Rightarrow> u8 list \<Rightarrow> u8 list" where
  "v4_bytes ip g = map (\<lambda>i. ucast (drop_bit (i * 8) (nIPv4 ip))) [0, 1, 2, 3] @ map (\<lambda>i. g ! i) [0, 1, 2, 3]"

definition msb_row :: "u16 list \<Rightarrow> u32 \<Rightarrow> IFX_PCE_IP_DASA_TBL" where
  "msb_row ip m = \<lparr>ip_bytes = half_bytes (take 4 ip), ip_mask = ucast (drop_bit 16 m)\<rparr>"

definition lsb_row :: "u16 list \<Rightarrow> u32 \<Rightarrow> IFX_PCE_IP_DASA_TBL" where
  "lsb_row ip m = \<lparr>ip_bytes = half_bytes (drop 4 ip), ip_mask = ucast m\<rparr>"

definition v4_row :: "u16 list \<Rightarrow> u32 \<Rightarrow> u8 list \<Rightarrow> IFX_PCE_IP_DASA_TBL" where
  "v4_row ip m g = \<lparr>ip_bytes = v4_bytes ip g, ip_mask = ucast m OR 0xFF00\<rparr>"

definition find_or_write ::
  "(IFX_PCE_HANDLE \<Rightarrow> int) \<Rightarrow> ('p sub \<Rightarrow> (int \<times> 'p sub) option) \<Rightarrow> 'p sub \<Rightarrow> (int \<times> 'p sub) option" where
  "find_or_write look wr = (\<lambda>(H, h). if look H = 0xFF then wr (H, h) else Some (look H, (H, h)))"

text \<open>For the destination the index is tested before the write, so a failed write is stored.\<close>

definition phase_dip ::
  "(IFX_PCE_HANDLE \<Rightarrow> int) \<Rightarrow> ('p sub \<Rightarrow> (int \<times> 'p sub) option) \<Rightarrow> (int \<Rightarrow> IFX_PCE_TBL \<Rightarrow> IFX_PCE_TBL) \<Rightarrow>
    nat \<Rightarrow> 'p pce_st cmd" where
  "phase_dip look wr upd idx = (\<lambda>s.
     if look (pce_sub_tbl (st_pce s)) < 0 then return_with IFX_ERROR s
     else call_sub (find_or_write look wr) (\<lambda>t. modify (upd_fet idx (upd t))) s)"

definition wr_dip :: "('p hw \<Rightarrow> 'p hw) \<Rightarrow> garbage \<Rightarrow> nat \<Rightarrow> IFX_FLOW_PCE_pattern \<Rightarrow> 'p pce_st cmd" where
  "wr_dip hwstep g idx p = seqs
    [modify (upd_fet idx (\<lambda>F. F\<lparr>dip_msb_idx := 0xFF, dip_lsb_idx := 0xFF\<rparr>)),
     (case eDstIP_Select p of
        IP_V6 \<Rightarrow> seqs
          [let e = msb_row (nDstIP p) (nDstIP_Mask p) in
           phase_dip (\<lambda>H. find_software_msb_tbl_entry H e) (ifx_pce_tm_ip_dasa_msb_tbl_write hwstep e)
             (\<lambda>t F. F\<lparr>dip_msb_idx := of_int t\<rparr>) idx,
           let e = lsb_row (nDstIP p) (nDstIP_Mask p) in
           phase_dip (\<lambda>H. find_software_tbl_entry H e) (ifx_pce_tm_ip_dasa_lsb_tbl_write hwstep e)
             (\<lambda>t F. F\<lparr>dip_lsb_idx := of_int t\<rparr>) idx]
      | IP_V4 \<Rightarrow>
          let e = v4_row (nDstIP p) (nDstIP_Mask p) (g_ip_dst g) in
          phase_dip (\<lambda>H. find_software_tbl_entry H e) (ifx_pce_tm_ip_dasa_lsb_tbl_write hwstep e)
             (\<lambda>t F. F\<lparr>dip_lsb_idx := of_int t\<rparr>) idx
      | IP_DISABLED \<Rightarrow> skip),
     modify (\<lambda>s. upd_key 3 (\<lambda>k. k OR push_bit 8 (ucast (dip_msb_idx (fet idx s)))) s),
     modify (\<lambda>s. upd_key 3 (\<lambda>k. k OR ucast (dip_lsb_idx (fet idx s))) s)]"

text \<open>
  For the source, the upper half is treated as for the destination; for the lower half the test
  follows the write, and a full table ends the rule write with \<^verbatim>\<open>IFX_ERROR\<close>.
\<close>

definition phase_sip ::
  "(IFX_PCE_HANDLE \<Rightarrow> int) \<Rightarrow> ('p sub \<Rightarrow> (int \<times> 'p sub) option) \<Rightarrow> (int \<Rightarrow> IFX_PCE_TBL \<Rightarrow> IFX_PCE_TBL) \<Rightarrow>
    nat \<Rightarrow> 'p pce_st cmd" where
  "phase_sip look wr upd idx =
     call_sub (find_or_write look wr)
       (\<lambda>t. if t < 0 then return_with IFX_ERROR else modify (upd_fet idx (upd t)))"

definition wr_sip :: "('p hw \<Rightarrow> 'p hw) \<Rightarrow> garbage \<Rightarrow> nat \<Rightarrow> IFX_FLOW_PCE_pattern \<Rightarrow> 'p pce_st cmd" where
  "wr_sip hwstep g idx p = seqs
    [modify (upd_fet idx (\<lambda>F. F\<lparr>sip_msb_idx := 0xFF, sip_lsb_idx := 0xFF\<rparr>)),
     (case eSrcIP_Select p of
        IP_V6 \<Rightarrow> seqs
          [let e = msb_row (nSrcIP p) (nSrcIP_Mask p) in
           phase_dip (\<lambda>H. find_software_msb_tbl_entry H e) (ifx_pce_tm_ip_dasa_msb_tbl_write hwstep e)
             (\<lambda>t F. F\<lparr>sip_msb_idx := of_int t\<rparr>) idx,
           let e = lsb_row (nSrcIP p) (nSrcIP_Mask p) in
           phase_sip (\<lambda>H. find_software_tbl_entry H e) (ifx_pce_tm_ip_dasa_lsb_tbl_write hwstep e)
             (\<lambda>t F. F\<lparr>sip_lsb_idx := of_int t\<rparr>) idx]
      | IP_V4 \<Rightarrow>
          let e = v4_row (nSrcIP p) (nSrcIP_Mask p) (g_ip_src g) in
          phase_sip (\<lambda>H. find_software_tbl_entry H e) (ifx_pce_tm_ip_dasa_lsb_tbl_write hwstep e)
             (\<lambda>t F. F\<lparr>sip_lsb_idx := of_int t\<rparr>) idx
      | IP_DISABLED \<Rightarrow> skip),
     modify (\<lambda>s. upd_key 2 (\<lambda>k. k OR push_bit 8 (ucast (sip_msb_idx (fet idx s)))) s),
     modify (\<lambda>s. upd_key 2 (\<lambda>k. k OR ucast (sip_lsb_idx (fet idx s))) s)]"

definition wr_ethertype :: "('p hw \<Rightarrow> 'p hw) \<Rightarrow> nat \<Rightarrow> IFX_FLOW_PCE_pattern \<Rightarrow> 'p pce_st cmd" where
  "wr_ethertype hwstep idx p = seqs
    [phase_index (bEtherTypeEnable p)
       (ifx_pce_tm_ptcl_tbl_write hwstep \<lparr>ptcl_key = nEtherType p, ptcl_mask = nEtherTypeMask p\<rparr>)
       (\<lambda>t F. F\<lparr>ethertype_idx := of_int t\<rparr>) 0xFF idx,
     modify (\<lambda>s. upd_key 1 (\<lambda>k. k OR ucast (ethertype_idx (fet idx s))) s)]"

text \<open>The protocol, with flags \<open>0xFF\<close>; the 12 reserved bits of the mask are not initialised.\<close>

definition prot_row :: "IFX_FLOW_PCE_pattern \<Rightarrow> garbage \<Rightarrow> IFX_PCE_PTCL_TBL" where
  "prot_row p g = \<lparr>ptcl_key = push_bit 8 (ucast (nProtocol p)) OR 0xFF,
     ptcl_mask = push_bit 4 (ucast (g_ptcl_res g)) OR push_bit 2 (ucast (nProtocolMask p) AND 3) OR 3\<rparr>"

definition wr_prot :: "('p hw \<Rightarrow> 'p hw) \<Rightarrow> garbage \<Rightarrow> nat \<Rightarrow> IFX_FLOW_PCE_pattern \<Rightarrow> 'p pce_st cmd" where
  "wr_prot hwstep g idx p = seqs
    [phase_index (bProtocolEnable p) (ifx_pce_tm_ptcl_tbl_write hwstep (prot_row p g))
       (\<lambda>t F. F\<lparr>ip_prot_idx := of_int t\<rparr>) 0xFF idx,
     modify (\<lambda>s. upd_key 1 (\<lambda>k. k OR push_bit 8 (ucast (ip_prot_idx (fet idx s)))) s)]"

text \<open>
  The argument of the call is \<^verbatim>\<open>(IFX_PCE_PPPOE_TBL_t *)pPar\<close>, not the local \<^verbatim>\<open>pppoe_tbl\<close>: the session
  id stored is the first two bytes of the rule, the upper half of \<^verbatim>\<open>nIndex\<close>.
\<close>

definition wr_pppoe :: "('p hw \<Rightarrow> 'p hw) \<Rightarrow> nat \<Rightarrow> IFX_FLOW_PCE_pattern \<Rightarrow> 'p pce_st cmd" where
  "wr_pppoe hwstep idx p = seqs
    [phase_index (bSessionIdEnable p)
       (ifx_pce_tm_pppoe_tbl_write hwstep \<lparr>sess_id = ucast (drop_bit 16 (nIndex p))\<rparr>)
       (\<lambda>t F. F\<lparr>pppoe_idx := of_int t\<rparr>) 0x1F idx,
     modify (\<lambda>s. upd_key 7 (\<lambda>k. k OR push_bit 8 (ucast (pppoe_idx (fet idx s)))) s)]"

definition wr_vlan :: "('p hw \<Rightarrow> 'p hw) \<Rightarrow> nat \<Rightarrow> IFX_FLOW_PCE_pattern \<Rightarrow> 'p pce_st cmd" where
  "wr_vlan hwstep idx p = seqs
    [(if bVid p then call_sub (ifx_pce_tm_find_vlan_id_index hwstep (nVid p))
          (\<lambda>t. modify (upd_fet idx (\<lambda>F. F\<lparr>vlan_idx := of_int t\<rparr>)))
      else modify (upd_fet idx (\<lambda>F. F\<lparr>vlan_idx := 0x7F\<rparr>))),
     modify (upd_key 0 (\<lambda>k. k AND NOT (push_bit 8 0xFF))),
     modify (\<lambda>s. upd_key 0 (\<lambda>k. k OR push_bit 8 (ucast (vlan_idx (fet idx s)))) s)]"

definition wr_pattern :: "('p hw \<Rightarrow> 'p hw) \<Rightarrow> garbage \<Rightarrow> nat \<Rightarrow> IFX_FLOW_PCE_pattern \<Rightarrow> 'p pce_st cmd" where
  "wr_pattern hwstep g idx p = seqs
    [wr_port idx p, wr_dscp idx p, wr_pcp idx p, wr_pkt_lng hwstep idx p, wr_dst_mac hwstep idx p,
     wr_src_mac hwstep idx p, wr_dst_appl hwstep g idx p, wr_src_appl hwstep g idx p, wr_dip hwstep g idx p,
     wr_sip hwstep g idx p, wr_ethertype hwstep idx p, wr_prot hwstep g idx p, wr_pppoe hwstep idx p,
     wr_vlan hwstep idx p]"

section \<open>Writing the action\<close>

text \<open>
  The seven values of \<^verbatim>\<open>pcetable\<close>: \<open>vor k m\<close>, \<open>vclr k m\<close>, \<open>vput k m\<close> are
  \<^verbatim>\<open>val[k] |= m\<close>, \<^verbatim>\<open>val[k] &= ~m\<close>, \<^verbatim>\<open>val[k] = m\<close>; \<open>bit_at n\<close> is \<^verbatim>\<open>1 << n\<close>. One function per action group,
  in the order of the code.
\<close>

definition vor :: "nat \<Rightarrow> u16 \<Rightarrow> u16 list \<Rightarrow> u16 list" where "vor k m v = v[k := v ! k OR m]"
definition vclr :: "nat \<Rightarrow> u16 \<Rightarrow> u16 list \<Rightarrow> u16 list" where "vclr k m v = v[k := v ! k AND NOT m]"
definition vput :: "nat \<Rightarrow> u16 \<Rightarrow> u16 list \<Rightarrow> u16 list" where "vput k m v = v[k := m]"
definition bit_at :: "nat \<Rightarrow> u16" where "bit_at n = push_bit n 1"

definition av_forward :: "IFX_FLOW_PCE_action \<Rightarrow> u16 list \<Rightarrow> u16 list" where
  "av_forward a v =
    (if ePortMapAction a \<noteq> PORTMAP_DISABLE then
       if eSnoopingTypeAction a = SNOOP_DISABLE then
         (let v = vor 4 (push_bit 2 3) (vput 0 1 v) in
          case ePortMapAction a of
            PORTMAP_REGULAR \<Rightarrow> vclr 4 (push_bit 2 3) v
          | PORTMAP_DISCARD \<Rightarrow> vput 1 0 v
          | PORTMAP_CPU \<Rightarrow> vor 4 (push_bit 2 1) (vclr 4 (push_bit 2 3) (vput 1 (ucast (nForwardPortMap a)) v))
          | PORTMAP_ALTERNATIVE \<Rightarrow> vput 1 (ucast (nForwardPortMap a)) v
          | _ \<Rightarrow> v)
       else
         (case eSnoopingTypeAction a of
            SNOOP_REPORT \<Rightarrow> vor 4 (push_bit 2 1) (vclr 4 (push_bit 2 3) (vput 0 1 v))
          | SNOOP_LEAVE \<Rightarrow> vor 4 (push_bit 2 1) (vclr 4 (push_bit 2 3) (vput 0 1 v))
          | _ \<Rightarrow> vor 4 (push_bit 2 0) (vclr 4 (push_bit 2 3) (vput 0 1 v)))
     else vclr 4 (push_bit 2 3) (vput 1 0xFFFF (vput 0 0 v)))"

definition av_flowid :: "IFX_FLOW_PCE_action \<Rightarrow> u16 list \<Rightarrow> u16 list" where
  "av_flowid a v = (if bFlowID_Action a then vput 1 (nFlowID a) (vor 4 (bit_at 4) v) else v)"

text \<open>The VLAN group, given the row and the filter id that were found (row \<open>0x7F\<close>: none).\<close>

definition av_vlan0 :: "IFX_FLOW_PCE_action \<Rightarrow> u16 list \<Rightarrow> u16 list" where
  "av_vlan0 a v = (let v = vclr 0 (bit_at 13) (vput 2 0 v) in if eVLAN_Action a \<noteq> VLAN_DISABLE then vor 0 (bit_at 1) v else v)"

definition av_vlan1 :: "int \<times> u32 \<Rightarrow> u16 list \<Rightarrow> u16 list" where
  "av_vlan1 = (\<lambda>(t, fid) v. if t \<noteq> 0x7F
     then vor 0 (bit_at 13) (vor 2 (push_bit 8 (ucast fid AND 0xFF)) (vput 2 (of_int t AND 0xFF) v)) else v)"

definition av_tclass :: "IFX_FLOW_PCE_action \<Rightarrow> u16 list \<Rightarrow> u16 list" where
  "av_tclass a v =
    (case eTrafficClassAction a of
       TRAFFIC_CLASS_REGULAR \<Rightarrow> vclr 0 (bit_at 14) (vor 0 (bit_at 2) v)
     | TRAFFIC_CLASS_ALTERNATIVE \<Rightarrow>
         vor 3 (push_bit 8 (ucast (nTrafficClassAlternate a) AND 0xF)) (vclr 3 (push_bit 8 0xF) (vor 0 (bit_at 14) (vor 0 (bit_at 2) v)))
     | TRAFFIC_CLASS_DISABLE \<Rightarrow> vor 3 (push_bit 8 0xF) (vclr 0 (bit_at 2 OR bit_at 14) v))"

definition av_remark :: "IFX_FLOW_PCE_action \<Rightarrow> u16 list \<Rightarrow> u16 list" where
  "av_remark a v = (if bRemarkAction a then vor 0 (bit_at 3) v else vclr 0 (bit_at 3) v)"

definition av_xvlan :: "IFX_FLOW_PCE_action \<Rightarrow> u16 list \<Rightarrow> u16 list" where
  "av_xvlan a v =
    (case eVLAN_CrossAction a of
       CROSS_VLAN_REGULAR \<Rightarrow> vclr 3 (push_bit 15 0) (vor 0 (bit_at 4) v)
     | CROSS_VLAN_CROSS \<Rightarrow> vor 3 (bit_at 15) (vor 0 (bit_at 4) v)
     | CROSS_VLAN_DISABLE \<Rightarrow> vclr 3 (push_bit 15 0) (vclr 0 (bit_at 4) v))"

definition av_xstate :: "IFX_FLOW_PCE_action \<Rightarrow> u16 list \<Rightarrow> u16 list" where
  "av_xstate a v =
    (case eCrossStateAction a of
       CROSS_STATE_CROSS \<Rightarrow> vor 4 (bit_at 13) (vor 0 (bit_at 5) v)
     | CROSS_STATE_REGULAR \<Rightarrow> vclr 4 (bit_at 13) (vor 0 (bit_at 5) v)
     | CROSS_STATE_DISABLE \<Rightarrow> vclr 0 (bit_at 5) (vclr 4 (bit_at 13) v))"

definition av_crit :: "IFX_FLOW_PCE_action \<Rightarrow> u16 list \<Rightarrow> u16 list" where
  "av_crit a v =
    (case eCritFrameAction a of
       CRITICAL_FRAME_CRITICAL \<Rightarrow> vor 4 (bit_at 14) (vor 0 (bit_at 6) v)
     | CRITICAL_FRAME_REGULAR \<Rightarrow> vclr 4 (bit_at 14) (vor 0 (bit_at 6) v)
     | CRITICAL_FRAME_DISABLE \<Rightarrow> vclr 4 (bit_at 14) (vclr 0 (bit_at 6) v))"

definition av_tstamp :: "IFX_FLOW_PCE_action \<Rightarrow> u16 list \<Rightarrow> u16 list" where
  "av_tstamp a v =
    (case eTimestampAction a of
       TIMESTAMP_STORED \<Rightarrow> vor 4 (bit_at 15) (vor 0 (bit_at 7) v)
     | TIMESTAMP_REGULAR \<Rightarrow> vclr 4 (bit_at 15) (vor 0 (bit_at 7) v)
     | TIMESTAMP_DISABLE \<Rightarrow> vclr 4 (bit_at 15) (vclr 0 (bit_at 7) v))"

definition av_irq :: "IFX_FLOW_PCE_action \<Rightarrow> u16 list \<Rightarrow> u16 list" where
  "av_irq a v =
    (case eIrqAction a of
       IRQ_EVENT \<Rightarrow> vor 0 (bit_at 15) (vor 0 (bit_at 8) v)
     | IRQ_REGULAR \<Rightarrow> vclr 0 (bit_at 15) (vor 0 (bit_at 8) v)
     | IRQ_DISABLE \<Rightarrow> vclr 0 (bit_at 8 OR bit_at 15) v)"

definition av_learn :: "IFX_FLOW_PCE_action \<Rightarrow> u16 list \<Rightarrow> u16 list" where
  "av_learn a v =
    (case eLearningAction a of
       LEARNING_REGULAR \<Rightarrow> vclr 4 3 (vor 0 (bit_at 9) v)
     | LEARNING_FORCE_NOT \<Rightarrow> vor 4 2 (vclr 4 3 (vor 0 (bit_at 9) v))
     | LEARNING_FORCE \<Rightarrow> vor 4 3 (vor 0 (bit_at 9) v)
     | LEARNING_DISABLE \<Rightarrow> vclr 4 3 (vclr 0 (bit_at 9) v))"

definition av_igmp :: "IFX_FLOW_PCE_action \<Rightarrow> u16 list \<Rightarrow> u16 list" where
  "av_igmp a v =
    (if eSnoopingTypeAction a \<noteq> SNOOP_DISABLE then
       (let v = vclr 4 (push_bit 5 7) (vor 0 (bit_at 10) v) in
        case eSnoopingTypeAction a of
          SNOOP_REGULAR \<Rightarrow> vor 4 (push_bit 5 0) v
        | SNOOP_REPORT \<Rightarrow> vor 4 (push_bit 5 1) v
        | SNOOP_LEAVE \<Rightarrow> vor 4 (push_bit 5 2) v
        | SNOOP_AD \<Rightarrow> vor 4 (push_bit 5 3) v
        | SNOOP_QUERY \<Rightarrow> vor 4 (push_bit 5 4) v
        | SNOOP_QUERY_GROUP \<Rightarrow> vor 4 (push_bit 5 5) v
        | SNOOP_QUERY_NO_ROUTER \<Rightarrow> vor 4 (push_bit 5 6) v
        | SNOOP_DISABLE \<Rightarrow> v)
     else vclr 4 (push_bit 5 7) (vclr 0 (bit_at 10) v))"

text \<open>The meter group assigns the whole of \<^verbatim>\<open>val[3]\<close>.\<close>

definition av_meter :: "IFX_FLOW_PCE_action \<Rightarrow> u16 list \<Rightarrow> u16 list" where
  "av_meter a v =
    (if eMeterAction a \<noteq> METER_DISABLE then
       (let v = vput 3 (ucast (nMeterId a) AND 0x1F) (vor 0 (bit_at 11) v) in
        case eMeterAction a of
          METER_REGULAR \<Rightarrow> vor 3 (push_bit 6 0) v
        | METER_1 \<Rightarrow> vor 3 (push_bit 6 1) v
        | METER_1_2 \<Rightarrow> vor 3 (push_bit 6 3) v
        | METER_DISABLE \<Rightarrow> v)
     else vor 3 0x1F (vclr 0 (bit_at 11) v))"

definition av_rmon :: "IFX_FLOW_PCE_action \<Rightarrow> u16 list \<Rightarrow> u16 list" where
  "av_rmon a v =
    (if bRMON_Action a
     then vor 4 (push_bit 8 (ucast (nRMON_Id a) + 1)) (vclr 4 (push_bit 8 0x1F) (vor 0 (bit_at 12) v))
     else vclr 4 (push_bit 8 0x1F) (vclr 0 (bit_at 12) v))"

definition av_remark_bits :: "IFX_FLOW_PCE_action \<Rightarrow> u16 list \<Rightarrow> u16 list" where
  "av_remark_bits a v =
    (let v = vor 3 (push_bit 12 7) v;
         v = (if bRemarkDSCP a then vclr 3 (bit_at 12) v else v);
         v = (if bRemarkClass a then vclr 3 (bit_at 13) v else v)
     in if bRemarkPCP a then vclr 3 (bit_at 14) v else v)"

definition av_ports :: "IFX_FLOW_PCE_action \<Rightarrow> u16 list \<Rightarrow> u16 list" where
  "av_ports a v =
    (let v = (if bPortBitMapMuxControl a then vor 6 (bit_at 0) v else vclr 6 (bit_at 0) v);
         v = (if bPortTrunkAction a then vor 5 (bit_at 0) v else vclr 5 (bit_at 0) v)
     in if bPortLinkSelection a then vor 5 (bit_at 1) v else vclr 5 (bit_at 1) v)"

definition wr_flowid :: "IFX_FLOW_PCE_action \<Rightarrow> 'p pce_st cmd" where
  "wr_flowid a = (if bFlowID_Action a \<and> ePortMapAction a \<noteq> PORTMAP_DISABLE then return_with IFX_ERROR
                  else modify (upd_vals (av_flowid a)))"

definition wr_act_vlan :: "('p hw \<Rightarrow> 'p hw) \<Rightarrow> IFX_FLOW_PCE_action \<Rightarrow> 'p pce_st cmd" where
  "wr_act_vlan hwstep a = seqs
    [modify (upd_vals (av_vlan0 a)),
     when_c (eVLAN_Action a = VLAN_ALTERNATIVE)
       (call_sub (ifx_pce_tm_find_vlan_id_fd_index hwstep (nVLAN_Id a)) (\<lambda>r. modify (upd_vals (av_vlan1 r))))]"

definition av_middle :: "IFX_FLOW_PCE_action \<Rightarrow> u16 list \<Rightarrow> u16 list" where
  "av_middle a v = av_meter a (av_igmp a (av_learn a (av_irq a (av_tstamp a (av_crit a (av_xstate a
     (av_xvlan a (av_remark a (av_tclass a v)))))))))"

definition wr_rmon :: "IFX_FLOW_PCE_action \<Rightarrow> 'p pce_st cmd" where
  "wr_rmon a = (if bRMON_Action a \<and> \<not> nRMON_Id a < 24 then return_with IFX_ERROR
                else modify (upd_vals (av_rmon a)))"

definition wr_action :: "('p hw \<Rightarrow> 'p hw) \<Rightarrow> nat \<Rightarrow> IFX_FLOW_PCE_action \<Rightarrow> 'p pce_st cmd" where
  "wr_action hwstep idx a = seqs
    [modify (\<lambda>s. s\<lparr>st_pce := (st_pce s)\<lparr>pce_act := (pce_act (st_pce s))[idx := a]\<rparr>\<rparr>),
     modify (upd_vals (av_forward a)),
     wr_flowid a,
     wr_act_vlan hwstep a,
     modify (upd_vals (av_middle a)),
     wr_rmon a,
     modify (upd_vals (\<lambda>v. av_ports a (av_remark_bits a v)))]"

section \<open>Writing a rule\<close>

definition wr_commit :: "('p hw \<Rightarrow> 'p hw) \<Rightarrow> nat \<Rightarrow> 'p pce_st cmd" where
  "wr_commit hwstep idx s = do {
     let e = (st_ent s)\<lparr>e_index := of_nat idx, e_table := PCE_TFLOW_INDEX, e_valid := 1\<rparr>;
     h \<leftarrow> ifx_ethsw_xwayflow_pce_table_write hwstep e (st_hw s);
     Some (Some IFX_SUCCESS, s\<lparr>st_ent := e, st_hw := h\<rparr>) }"

text \<open>The part of \<^verbatim>\<open>ifx_pce_rule_write\<close> after the comparison with the present rule.\<close>

definition wr_old :: "('p hw \<Rightarrow> 'p hw) \<Rightarrow> nat \<Rightarrow> 'p pce_st cmd" where
  "wr_old hwstep idx s =
    (if pce_tbl_used (st_pce s) ! idx \<noteq> 0
     then case ifx_pce_pattern_delete hwstep idx s of
         None \<Rightarrow> None
       | Some (r, s) \<Rightarrow> if r \<noteq> 0 then Some (Some (-1), s) else Some (None, s)
     else Some (None, s))"

definition wr_begin :: "nat \<Rightarrow> 'p pce_st \<Rightarrow> 'p pce_st" where
  "wr_begin idx s = s\<lparr>st_pce := (st_pce s)\<lparr>pce_tbl_used := (pce_tbl_used (st_pce s))[idx := 1]\<rparr>,
     st_ent := zero_entry\<lparr>e_key := (e_key zero_entry)[8 := 0xFFFF]\<rparr>\<rparr>"

definition wr_program :: "('p hw \<Rightarrow> 'p hw) \<Rightarrow> garbage \<Rightarrow> nat \<Rightarrow> IFX_FLOW_PCE_rule \<Rightarrow> 'p pce_st cmd" where
  "wr_program hwstep g idx r = seqs
    [wr_old hwstep idx, modify (wr_begin idx), wr_pattern hwstep g idx (pattern r),
     wr_action hwstep idx (action r), wr_commit hwstep idx]"

definition result_of :: "(int option \<times> 's) option \<Rightarrow> (int \<times> 's) option" where
  "result_of = map_option (\<lambda>(r, s). (case r of Some r \<Rightarrow> r | None \<Rightarrow> IFX_SUCCESS, s))"

definition ifx_pce_rule_write :: "('p hw \<Rightarrow> 'p hw) \<Rightarrow> garbage \<Rightarrow> IFX_FLOW_PCE_rule \<Rightarrow> 'p pce_st \<Rightarrow>
    (int \<times> 'p pce_st) option" where
  "ifx_pce_rule_write hwstep g r s =
    (let idx = unat (nIndex (pattern r))
     in if idx \<ge> IFX_PCE_TBL_SIZE then Some (-1, s)
        else if \<not> bEnable (pattern r) then ifx_pce_pattern_delete hwstep idx s
        else case ifx_pce_rule_read hwstep (nIndex (pattern r)) (st_pce s) (st_hw s) of
            None \<Rightarrow> None
          | Some (None, h) \<Rightarrow> Some (-1, s\<lparr>st_hw := h\<rparr>)
          | Some (Some key_current, h) \<Rightarrow>
              if key_current = r \<and> g_pad_eq g then Some (0, s\<lparr>st_hw := h\<rparr>)
              else result_of (wr_program hwstep g idx r (s\<lparr>st_hw := h\<rparr>)))"

end
