(* ===== verification/PCE_Refcount.thy ===== *)
theory PCE_Refcount
  imports PCE_Rules
begin

text \<open>
  The reference counters of the pattern tables. \<open>ffield\<close> names the fields of a rule row that hold
  a table index; \<open>refs\<close> counts the rows in use that name an index. The driver keeps each counter
  equal to it (\<open>counted\<close>), except for the IP tables, whose rows are also shared without being
  counted: there the counter is only a lower bound.
\<close>

section \<open>The index fields of a rule row\<close>

datatype ffield = FPkt | FDMac | FSMac | FDAppl | FSAppl | FDMsb | FDLsb | FSMsb | FSLsb | FProt | FEty | FPpp

lemma ffield_UNIV: "UNIV = {FPkt, FDMac, FSMac, FDAppl, FSAppl, FDMsb, FDLsb, FSMsb, FSLsb, FProt, FEty, FPpp}"
  by (auto intro: ffield.exhaust)

lemma ffield_finite [simp]: "finite (A :: ffield set)"
  by (rule finite_subset [of _ UNIV], simp, simp add: ffield_UNIV)

lemma ffield_all: "(\<forall>f. P f) \<longleftrightarrow> P FPkt \<and> P FDMac \<and> P FSMac \<and> P FDAppl \<and> P FSAppl \<and> P FDMsb \<and> P FDLsb \<and>
    P FSMsb \<and> P FSLsb \<and> P FProt \<and> P FEty \<and> P FPpp"
proof -
  have "(\<forall>f. P f) \<longleftrightarrow> (\<forall>f\<in>UNIV. P f)" by simp
  then show ?thesis by (simp only: ffield_UNIV ball_simps simp_thms)
qed

fun fkind :: "ffield \<Rightarrow> tkind" where
  "fkind FPkt = PKG" | "fkind FDMac = MAC" | "fkind FSMac = MAC" | "fkind FDAppl = APPL" | "fkind FSAppl = APPL"
| "fkind FDMsb = IPMSB" | "fkind FDLsb = IPLSB" | "fkind FSMsb = IPMSB" | "fkind FSLsb = IPLSB"
| "fkind FProt = PTCL" | "fkind FEty = PTCL" | "fkind FPpp = PPPOE"

fun fget :: "ffield \<Rightarrow> IFX_PCE_TBL \<Rightarrow> nat" where
  "fget FPkt F = unat (pkt_lng_idx F)"
| "fget FDMac F = unat (dst_mac_addr_idx F)" | "fget FSMac F = unat (src_mac_addr_idx F)"
| "fget FDAppl F = unat (dst_appl_fld_idx F)" | "fget FSAppl F = unat (src_appl_fld_idx F)"
| "fget FDMsb F = unat (dip_msb_idx F)" | "fget FDLsb F = unat (dip_lsb_idx F)"
| "fget FSMsb F = unat (sip_msb_idx F)" | "fget FSLsb F = unat (sip_lsb_idx F)"
| "fget FProt F = unat (ip_prot_idx F)" | "fget FEty F = unat (ethertype_idx F)"
| "fget FPpp F = unat (pppoe_idx F)"

fun fput :: "ffield \<Rightarrow> int \<Rightarrow> IFX_PCE_TBL \<Rightarrow> IFX_PCE_TBL" where
  "fput FPkt t F = F\<lparr>pkt_lng_idx := of_int t\<rparr>"
| "fput FDMac t F = F\<lparr>dst_mac_addr_idx := of_int t\<rparr>" | "fput FSMac t F = F\<lparr>src_mac_addr_idx := of_int t\<rparr>"
| "fput FDAppl t F = F\<lparr>dst_appl_fld_idx := of_int t\<rparr>" | "fput FSAppl t F = F\<lparr>src_appl_fld_idx := of_int t\<rparr>"
| "fput FDMsb t F = F\<lparr>dip_msb_idx := of_int t\<rparr>" | "fput FDLsb t F = F\<lparr>dip_lsb_idx := of_int t\<rparr>"
| "fput FSMsb t F = F\<lparr>sip_msb_idx := of_int t\<rparr>" | "fput FSLsb t F = F\<lparr>sip_lsb_idx := of_int t\<rparr>"
| "fput FProt t F = F\<lparr>ip_prot_idx := of_int t\<rparr>" | "fput FEty t F = F\<lparr>ethertype_idx := of_int t\<rparr>"
| "fput FPpp t F = F\<lparr>pppoe_idx := of_int t\<rparr>"

fun fany :: "ffield \<Rightarrow> nat" where
  "fany FPkt = 0x1F" | "fany FPpp = 0x1F" | "fany _ = 0xFF"

lemma tsize_any: "tsize (fkind f) \<le> fany f"
  by (cases f) (simp_all add: tbl_sizes)

lemma fget_fput_same: "i \<le> fany f \<Longrightarrow> fget f (fput f (int i) F) = i"
  by (cases f) (simp_all add: unat_of_nat_small)

lemma fget_fput_other: "g \<noteq> f \<Longrightarrow> fget g (fput f t F) = fget g F"
  by (cases f; cases g; simp)

lemma unat_minus_one_word: "unat (- 1 :: 'a::len word) = 2 ^ LENGTH('a) - 1"
  by (simp add: unsigned_minus_1_eq_mask mask_eq_exp_minus_1)

lemma fget_fput_neg: "fget f (fput f (-1) F) = fany f"
  by (cases f) (simp_all add: unat_minus_one_word)

lemma fget_ones [simp]: "fget f ones_row = fany f"
  by (cases f) (simp_all add: ones_row_def)

text \<open>A row whose indices are in range or ``any''.\<close>

definition row_wf :: "IFX_PCE_TBL \<Rightarrow> bool" where
  "row_wf F \<longleftrightarrow> (\<forall>f. fget f F = fany f \<or> fget f F < tsize (fkind f)) \<and>
     (unat (vlan_idx F) = 0x7F \<or> unat (vlan_idx F) < IFX_PCE_VLAN_ACT_TBL_SIZE)"

lemma row_wf_ones [simp]: "row_wf ones_row"
  by (simp add: row_wf_def ones_row_def) (simp flip: ones_row_def)

lemma row_wf_zero [simp]: "row_wf zero_row"
  by (simp add: row_wf_def ffield_all zero_row_def tbl_sizes)

section \<open>Counting references\<close>

text \<open>References to row \<open>i\<close> of table \<open>k\<close> from the fields \<open>D\<close> of one rule row, from all rules, and from all but one.\<close>

definition own_refs :: "ffield set \<Rightarrow> u8 \<Rightarrow> IFX_PCE_TBL \<Rightarrow> tkind \<Rightarrow> nat \<Rightarrow> nat" where
  "own_refs D u F k i = (if u = 0 then 0 else card {f \<in> D. fkind f = k \<and> fget f F = i})"

definition refs :: "IFX_PCE \<Rightarrow> tkind \<Rightarrow> nat \<Rightarrow> nat" where
  "refs P k i = (\<Sum>r<IFX_PCE_TBL_SIZE. own_refs UNIV (pce_tbl_used P ! r) (pce_tbl P ! r) k i)"

definition other_refs :: "nat \<Rightarrow> IFX_PCE \<Rightarrow> tkind \<Rightarrow> nat \<Rightarrow> nat" where
  "other_refs idx P k i =
     (\<Sum>r\<in>{..<IFX_PCE_TBL_SIZE} - {idx}. own_refs UNIV (pce_tbl_used P ! r) (pce_tbl P ! r) k i)"

definition exact :: "tkind \<Rightarrow> bool" where
  "exact k \<longleftrightarrow> k \<noteq> IPMSB \<and> k \<noteq> IPLSB"

text \<open>The counters agree with the references, counting only the fields \<open>D\<close> of row \<open>idx\<close>.\<close>

definition counted_at :: "ffield set \<Rightarrow> nat \<Rightarrow> IFX_PCE \<Rightarrow> bool" where
  "counted_at D idx P \<longleftrightarrow> (\<forall>k. \<forall>i<tsize k.
     let n = other_refs idx P k i + own_refs D (pce_tbl_used P ! idx) (pce_tbl P ! idx) k i;
         c = unat (cnts (pce_sub_tbl P) k ! i)
     in c \<le> n \<and> (exact k \<longrightarrow> c = n))"

definition counted :: "IFX_PCE \<Rightarrow> bool" where
  "counted P \<longleftrightarrow> (\<forall>k. \<forall>i<tsize k.
     unat (cnts (pce_sub_tbl P) k ! i) \<le> refs P k i \<and>
     (exact k \<longrightarrow> unat (cnts (pce_sub_tbl P) k ! i) = refs P k i))"

lemma refs_split:
  "idx < IFX_PCE_TBL_SIZE \<Longrightarrow>
   refs P k i = other_refs idx P k i + own_refs UNIV (pce_tbl_used P ! idx) (pce_tbl P ! idx) k i"
  unfolding refs_def other_refs_def by (subst sum.remove [of _ idx]) auto

lemma counted_at_UNIV: "idx < IFX_PCE_TBL_SIZE \<Longrightarrow> counted_at UNIV idx P \<longleftrightarrow> counted P"
  by (simp add: counted_at_def counted_def refs_split Let_def)

lemma own_refs_insert:
  "f \<notin> D \<Longrightarrow> own_refs (insert f D) u F k i = own_refs D u F k i + of_bool (u \<noteq> 0 \<and> fkind f = k \<and> fget f F = i)"
proof -
  assume f: "f \<notin> D"
  have "{g \<in> insert f D. fkind g = k \<and> fget g F = i} =
    (if fkind f = k \<and> fget f F = i then insert f {g \<in> D. fkind g = k \<and> fget g F = i}
     else {g \<in> D. fkind g = k \<and> fget g F = i})"
    by auto
  then show ?thesis using f by (auto simp: own_refs_def)
qed

lemma own_refs_cong: "(\<And>g. g \<in> D \<Longrightarrow> fget g F' = fget g F) \<Longrightarrow> own_refs D u F' k i = own_refs D u F k i"
  unfolding own_refs_def by (metis (mono_tags, lifting) Collect_cong)

lemma own_refs_le: "own_refs D u F k i \<le> 12"
proof -
  have "card {f \<in> D. fkind f = k \<and> fget f F = i} \<le> card (UNIV :: ffield set)"
    by (rule card_mono) auto
  also have "\<dots> = 12" by (simp add: ffield_UNIV)
  finally show ?thesis by (simp add: own_refs_def)
qed

lemma own_refs_empty [simp]: "own_refs {} u F k i = 0" "own_refs D 0 F k i = 0"
  by (simp_all add: own_refs_def)

lemma other_refs_le: "other_refs idx P k i \<le> 768"
proof -
  have "other_refs idx P k i \<le> (\<Sum>r\<in>{..<IFX_PCE_TBL_SIZE} - {idx}. 12)"
    unfolding other_refs_def by (rule sum_mono) (rule own_refs_le)
  also have "\<dots> \<le> (\<Sum>r<IFX_PCE_TBL_SIZE. 12)" by (rule sum_mono2) auto
  also have "\<dots> = 768" by (simp add: IFX_PCE_TBL_SIZE_def)
  finally show ?thesis .
qed

lemma other_refs_cong:
  "(\<And>r. r \<noteq> idx \<Longrightarrow> pce_tbl_used P' ! r = pce_tbl_used P ! r) \<Longrightarrow>
   (\<And>r. r \<noteq> idx \<Longrightarrow> pce_tbl P' ! r = pce_tbl P ! r) \<Longrightarrow> other_refs idx P' k i = other_refs idx P k i"
  unfolding other_refs_def by (rule sum.cong) auto

text \<open>No counter comes near its limit.\<close>

lemma counted_bound:
  assumes "counted_at D idx P" "i < tsize k"
  shows "unat (cnts (pce_sub_tbl P) k ! i) < 65535"
proof -
  have "unat (cnts (pce_sub_tbl P) k ! i) \<le> other_refs idx P k i + own_refs D (pce_tbl_used P ! idx) (pce_tbl P ! idx) k i"
    using assms by (auto simp: counted_at_def Let_def)
  then show ?thesis
    using other_refs_le [of idx P k i] own_refs_le [of D "pce_tbl_used P ! idx" "pce_tbl P ! idx" k i] by linarith
qed

section \<open>Steps of the counters\<close>

lemma counted_release:
  assumes c: "counted_at D idx P" and ok: "tables_ok (pce_sub_tbl P)"
    and r: "release (fkind f) (fget f (pce_tbl P ! idx)) (pce_sub_tbl P) H'"
    and f: "f \<in> D" and u: "pce_tbl_used P ! idx \<noteq> 0"
  shows "counted_at (D - {f}) idx (P\<lparr>pce_sub_tbl := H'\<rparr>)"
  unfolding counted_at_def Let_def
proof (intro allI impI)
  fix k i assume i: "i < tsize k"
  let ?F = "pce_tbl P ! idx" and ?u = "pce_tbl_used P ! idx"
  have o: "own_refs D ?u ?F k i = own_refs (D - {f}) ?u ?F k i + of_bool (fkind f = k \<and> fget f ?F = i)"
    using own_refs_insert [of f "D - {f}" ?u ?F k i] f u by (simp add: insert_absorb)
  have oth: "other_refs idx (P\<lparr>pce_sub_tbl := H'\<rparr>) k i = other_refs idx P k i"
    by (rule other_refs_cong) simp_all
  let ?c = "cnts (pce_sub_tbl P) k ! i"
  have old: "unat ?c \<le> other_refs idx P k i + own_refs D ?u ?F k i"
    "exact k \<longrightarrow> unat ?c = other_refs idx P k i + own_refs D ?u ?F k i"
    using c i by (auto simp: counted_at_def Let_def)
  have len: "length (cnts (pce_sub_tbl P) k) = tsize k" using ok by (simp add: tables_ok_def)
  have new: "cnts H' k ! i = (if fkind f = k \<and> fget f ?F = i then dec ?c else ?c)"
    using r i len by (auto simp: release_def)
  have "unat (dec ?c) = unat ?c - 1"
    by (auto simp: dec_def word_gt_0 unat_dec_word)
  then show "unat (cnts (pce_sub_tbl (P\<lparr>pce_sub_tbl := H'\<rparr>)) k ! i)
      \<le> other_refs idx (P\<lparr>pce_sub_tbl := H'\<rparr>) k i +
        own_refs (D - {f}) (pce_tbl_used (P\<lparr>pce_sub_tbl := H'\<rparr>) ! idx) (pce_tbl (P\<lparr>pce_sub_tbl := H'\<rparr>) ! idx) k i \<and>
    (exact k \<longrightarrow> unat (cnts (pce_sub_tbl (P\<lparr>pce_sub_tbl := H'\<rparr>)) k ! i)
      = other_refs idx (P\<lparr>pce_sub_tbl := H'\<rparr>) k i +
        own_refs (D - {f}) (pce_tbl_used (P\<lparr>pce_sub_tbl := H'\<rparr>) ! idx) (pce_tbl (P\<lparr>pce_sub_tbl := H'\<rparr>) ! idx) k i)"
    using old o by (auto simp: oth new)
qed

text \<open>Storing an index in a field that was not counted yet: \<open>d\<close> says whether the counter was raised.\<close>

lemma counted_insert:
  assumes c: "counted_at D idx P" and ok: "tables_ok (pce_sub_tbl P)" and len: "idx < length (pce_tbl P)"
    and cn: "\<And>k i. i < tsize k \<Longrightarrow> cnts H' k ! i = cnts (pce_sub_tbl P) k ! i + of_bool (d \<and> k = fkind f \<and> i = fget f F')"
    and d: "d \<or> \<not> exact (fkind f) \<or> fget f F' \<ge> tsize (fkind f)"
    and f: "f \<notin> D" and u: "pce_tbl_used P ! idx \<noteq> 0"
    and F': "\<And>g. g \<in> D \<Longrightarrow> fget g F' = fget g (pce_tbl P ! idx)"
  shows "counted_at (insert f D) idx (P\<lparr>pce_sub_tbl := H', pce_tbl := (pce_tbl P)[idx := F']\<rparr>)"
  unfolding counted_at_def Let_def
proof (intro allI impI)
  fix k i assume i: "i < tsize k"
  let ?P = "P\<lparr>pce_sub_tbl := H', pce_tbl := (pce_tbl P)[idx := F']\<rparr>"
  let ?F = "pce_tbl P ! idx" and ?u = "pce_tbl_used P ! idx" and ?c = "cnts (pce_sub_tbl P) k ! i"
  have o: "own_refs (insert f D) ?u F' k i = own_refs D ?u ?F k i + of_bool (fkind f = k \<and> fget f F' = i)"
    using own_refs_insert [OF f, of ?u F' k i] own_refs_cong [OF F', of D ?u k i] u by simp
  have oth: "other_refs idx ?P k i = other_refs idx P k i"
    by (rule other_refs_cong) simp_all
  have old: "unat ?c \<le> other_refs idx P k i + own_refs D ?u ?F k i"
    "exact k \<longrightarrow> unat ?c = other_refs idx P k i + own_refs D ?u ?F k i"
    using c i by (auto simp: counted_at_def Let_def)
  have "unat (?c + 1) = unat ?c + 1" using counted_bound [OF c i] by (rule unat_inc_word)
  then show "unat (cnts (pce_sub_tbl ?P) k ! i) \<le> other_refs idx ?P k i +
        own_refs (insert f D) (pce_tbl_used ?P ! idx) (pce_tbl ?P ! idx) k i \<and>
    (exact k \<longrightarrow> unat (cnts (pce_sub_tbl ?P) k ! i) = other_refs idx ?P k i +
        own_refs (insert f D) (pce_tbl_used ?P ! idx) (pce_tbl ?P ! idx) k i)"
    using old o i d len by (auto simp: oth cn)
qed

text \<open>Changing what is not an index field.\<close>

lemma counted_same:
  assumes c: "counted_at D idx P" and len: "idx < length (pce_tbl P)"
    and F': "\<And>g. g \<in> D \<Longrightarrow> fget g F' = fget g (pce_tbl P ! idx)"
    and H': "cnts H' = cnts (pce_sub_tbl P)"
  shows "counted_at D idx (P\<lparr>pce_sub_tbl := H', pce_tbl := (pce_tbl P)[idx := F']\<rparr>)"
proof -
  have "other_refs idx (P\<lparr>pce_sub_tbl := H', pce_tbl := (pce_tbl P)[idx := F']\<rparr>) k i = other_refs idx P k i" for k i
    by (rule other_refs_cong) simp_all
  moreover have "own_refs D (pce_tbl_used P ! idx) F' k i = own_refs D (pce_tbl_used P ! idx) (pce_tbl P ! idx) k i" for k i
    by (rule own_refs_cong) (rule F')
  ultimately show ?thesis using c len by (simp add: counted_at_def H')
qed

section \<open>The invariant of the rule state\<close>

definition shape :: "IFX_PCE \<Rightarrow> bool" where
  "shape P \<longleftrightarrow> length (pce_tbl P) = IFX_PCE_TBL_SIZE \<and> length (pce_act P) = IFX_PCE_TBL_SIZE \<and>
     length (pce_tbl_used P) = IFX_PCE_TBL_SIZE \<and> (\<forall>r<IFX_PCE_TBL_SIZE. row_wf (pce_tbl P ! r))"

definition st_ok :: "('p \<Rightarrow> nat \<Rightarrow> nat \<Rightarrow> pce_img) \<Rightarrow> (nat \<Rightarrow> pce_img \<Rightarrow> pce_img) \<Rightarrow> 'p pce_st \<Rightarrow> bool" where
  "st_ok tbl keep s \<longleftrightarrow> shape (st_pce s) \<and> sub_inv tbl keep (pce_sub_tbl (st_pce s), st_hw s)"

definition rules_inv :: "('p \<Rightarrow> nat \<Rightarrow> nat \<Rightarrow> pce_img) \<Rightarrow> (nat \<Rightarrow> pce_img \<Rightarrow> pce_img) \<Rightarrow> 'p pce_st \<Rightarrow> bool" where
  "rules_inv tbl keep s \<longleftrightarrow> st_ok tbl keep s \<and> counted (st_pce s)"

text \<open>Only the tables and the device changed, the device only in the pattern tables.\<close>

definition sub_only :: "('p \<Rightarrow> nat \<Rightarrow> nat \<Rightarrow> pce_img) \<Rightarrow> 16 word set \<Rightarrow> 'p pce_st \<Rightarrow> 'p pce_st \<Rightarrow> bool" where
  "sub_only tbl S s0 s \<longleftrightarrow> s = s0\<lparr>st_pce := (st_pce s0)\<lparr>pce_sub_tbl := pce_sub_tbl (st_pce s)\<rparr>, st_hw := st_hw s\<rparr> \<and>
     hw_frame tbl S (st_hw s0) (st_hw s)"

lemma sub_only_refl [simp]: "sub_only tbl S s s"
  by (simp add: sub_only_def)

lemma sub_only_eqs:
  assumes "sub_only tbl S s0 s"
  shows "pce_tbl (st_pce s) = pce_tbl (st_pce s0)" "pce_tbl_used (st_pce s) = pce_tbl_used (st_pce s0)"
    "pce_act (st_pce s) = pce_act (st_pce s0)" "st_ent s = st_ent s0"
proof -
  have *: "s = s0\<lparr>st_pce := (st_pce s0)\<lparr>pce_sub_tbl := pce_sub_tbl (st_pce s)\<rparr>, st_hw := st_hw s\<rparr>"
    using assms by (simp add: sub_only_def)
  show "pce_tbl (st_pce s) = pce_tbl (st_pce s0)" by (subst *) simp
  show "pce_tbl_used (st_pce s) = pce_tbl_used (st_pce s0)" by (subst *) simp
  show "pce_act (st_pce s) = pce_act (st_pce s0)" by (subst *) simp
  show "st_ent s = st_ent s0" by (subst *) simp
qed

lemma sub_only_step:
  assumes "sub_only tbl S s0 s" "hw_frame tbl S (st_hw s) h"
  shows "sub_only tbl S s0 (s\<lparr>st_pce := (st_pce s)\<lparr>pce_sub_tbl := H\<rparr>, st_hw := h\<rparr>)"
proof -
  have *: "s = s0\<lparr>st_pce := (st_pce s0)\<lparr>pce_sub_tbl := pce_sub_tbl (st_pce s)\<rparr>, st_hw := st_hw s\<rparr>"
    using assms(1) by (simp add: sub_only_def)
  have "s\<lparr>st_pce := (st_pce s)\<lparr>pce_sub_tbl := H\<rparr>, st_hw := h\<rparr>
      = s0\<lparr>st_pce := (st_pce s0)\<lparr>pce_sub_tbl := H\<rparr>, st_hw := h\<rparr>"
    by (subst (1 2) *) simp
  moreover have "hw_frame tbl S (st_hw s0) h"
    using assms by (auto simp: sub_only_def intro: hw_frame_trans)
  ultimately show ?thesis by (simp add: sub_only_def)
qed

section \<open>Deleting a rule\<close>

text \<open>
  The tables after the fields \<open>D\<close> of rule \<open>idx\<close> were released: each counter is lower by the number
  of these fields that name the row (it does not fall below zero), and a row is cleared exactly
  when its counter is zero.
\<close>

definition released :: "nat \<Rightarrow> ffield set \<Rightarrow> IFX_PCE \<Rightarrow> IFX_PCE_HANDLE \<Rightarrow> bool" where
  "released idx D P H \<longleftrightarrow> (\<forall>k. \<forall>i<tsize k.
     unat (cnts H k ! i) = unat (cnts (pce_sub_tbl P) k ! i) - own_refs D (pce_tbl_used P ! idx) (pce_tbl P ! idx) k i \<and>
     tabs H k ! i = (if cnts H k ! i = 0 then tzero k else tabs (pce_sub_tbl P) k ! i))"

lemma released_none: "tables_ok (pce_sub_tbl P) \<Longrightarrow> released idx {} P (pce_sub_tbl P)"
  by (simp add: released_def tables_ok_def)

lemma released_cong: "released idx D P H \<Longrightarrow> cnts H' = cnts H \<Longrightarrow> tabs H' = tabs H \<Longrightarrow> released idx D P H'"
  by (simp add: released_def)

lemma released_step:
  assumes d: "released idx D P H" and ok: "tables_ok H" and f: "f \<notin> D" and u: "pce_tbl_used P ! idx \<noteq> 0"
    and r: "release (fkind f) (fget f (pce_tbl P ! idx)) H H'"
  shows "released idx (insert f D) P H'"
  unfolding released_def
proof (intro allI impI)
  fix k i assume i: "i < tsize k"
  let ?F = "pce_tbl P ! idx" and ?u = "pce_tbl_used P ! idx"
  have o: "own_refs (insert f D) ?u ?F k i = own_refs D ?u ?F k i + of_bool (fkind f = k \<and> fget f ?F = i)"
    using own_refs_insert [OF f] u by simp
  have len: "length (cnts H k) = tsize k" "length (tabs H k) = tsize k" using ok by (simp_all add: tables_ok_def)
  have new: "cnts H' k ! i = (if fkind f = k \<and> fget f ?F = i then dec (cnts H k ! i) else cnts H k ! i)"
    "tabs H' k ! i = (if fkind f = k \<and> fget f ?F = i \<and> dec (cnts H k ! i) = 0 then tzero k else tabs H k ! i)"
    using r i len by (auto simp: release_def nth_list_update)
  have dc: "unat (dec c) = unat c - 1" "c = 0 \<Longrightarrow> dec c = 0" for c :: u16
    by (auto simp: dec_def word_gt_0 unat_dec_word)
  have old: "unat (cnts H k ! i) = unat (cnts (pce_sub_tbl P) k ! i) - own_refs D ?u ?F k i"
    "tabs H k ! i = (if cnts H k ! i = 0 then tzero k else tabs (pce_sub_tbl P) k ! i)"
    using d i by (auto simp: released_def)
  have "unat (cnts H' k ! i) = unat (cnts (pce_sub_tbl P) k ! i) - own_refs (insert f D) ?u ?F k i"
    unfolding new(1) o using old(1) by (simp add: dc(1))
  moreover have "tabs H' k ! i = (if cnts H' k ! i = 0 then tzero k else tabs (pce_sub_tbl P) k ! i)"
    unfolding new old(2) using dc(2) by auto
  ultimately show "unat (cnts H' k ! i) = unat (cnts (pce_sub_tbl P) k ! i) - own_refs (insert f D) ?u ?F k i \<and>
    tabs H' k ! i = (if cnts H' k ! i = 0 then tzero k else tabs (pce_sub_tbl P) k ! i)" by blast
qed

text \<open>
  The rows that others count on: a row whose counter exceeds the references of rule \<open>idx\<close> keeps its
  content and stays in use.
\<close>

definition rows_kept :: "nat \<Rightarrow> IFX_PCE \<Rightarrow> IFX_PCE \<Rightarrow> bool" where
  "rows_kept idx P P' \<longleftrightarrow> (\<forall>k. \<forall>i<tsize k.
     own_refs UNIV (pce_tbl_used P ! idx) (pce_tbl P ! idx) k i < unat (cnts (pce_sub_tbl P) k ! i) \<longrightarrow>
     tabs (pce_sub_tbl P') k ! i = tabs (pce_sub_tbl P) k ! i \<and> cnts (pce_sub_tbl P') k ! i > 0)"

lemma rows_kept_refl [simp]: "rows_kept idx P P"
  by (auto simp: rows_kept_def word_gt_0)

lemma released_rows_kept: "released idx UNIV P (pce_sub_tbl P') \<Longrightarrow> rows_kept idx P P'"
  unfolding released_def rows_kept_def word_gt_0 by (metis less_irrefl unat_0 zero_less_diff)

definition del_inv :: "('p \<Rightarrow> nat \<Rightarrow> nat \<Rightarrow> pce_img) \<Rightarrow> (nat \<Rightarrow> pce_img \<Rightarrow> pce_img) \<Rightarrow> 16 word set \<Rightarrow> 'p pce_st \<Rightarrow>
    nat \<Rightarrow> ffield set \<Rightarrow> 'p pce_st \<Rightarrow> bool" where
  "del_inv tbl keep S s0 idx D s \<longleftrightarrow> sub_only tbl S s0 s \<and> idx < IFX_PCE_TBL_SIZE \<and>
     pce_tbl_used (st_pce s) ! idx \<noteq> 0 \<and> st_ok tbl keep s \<and> counted_at D idx (st_pce s) \<and>
     released idx (UNIV - D) (st_pce s0) (pce_sub_tbl (st_pce s))"

lemma st_ok_sub:
  "st_ok tbl keep s \<Longrightarrow> sub_inv tbl keep (H, h) \<Longrightarrow>
   st_ok tbl keep (s\<lparr>st_pce := (st_pce s)\<lparr>pce_sub_tbl := H\<rparr>, st_hw := h\<rparr>)"
  by (simp add: st_ok_def shape_def)

lemma st_ok_tables: "st_ok tbl keep s \<Longrightarrow> tables_ok (pce_sub_tbl (st_pce s))"
  by (simp add: st_ok_def sub_inv_def)

context rc_table
begin

lemma triple_delete:
  assumes E: "pce_engine hwstep tbl keep S" and k: "fkind f = kind" and f: "f \<in> D"
  shows "triple (del_inv tbl keep S s0 idx D)
    (idx_delete (fany f) (fget f (fet idx s0)) (dl hwstep))
    (del_inv tbl keep S s0 idx (D - {f})) (\<lambda>_ _. False)"
proof (rule tripleI)
  fix s assume I: "del_inv tbl keep S s0 idx D s"
  let ?P = "st_pce s" and ?F = "fet idx s0"
  from I have so: "sub_only tbl S s0 s" and ix: "idx < IFX_PCE_TBL_SIZE" and u: "pce_tbl_used ?P ! idx \<noteq> 0"
    and ok: "st_ok tbl keep s" and c: "counted_at D idx ?P"
    and rl: "released idx (UNIV - D) (st_pce s0) (pce_sub_tbl ?P)" by (simp_all add: del_inv_def)
  have D: "UNIV - (D - {f}) = insert f (UNIV - D)" by auto
  have F: "?F = pce_tbl ?P ! idx" using sub_only_eqs(1) [OF so] by (simp add: fet_def)
  have wf: "row_wf ?F" using ok ix by (simp add: st_ok_def shape_def F)
  let ?g = "\<exists>s'. idx_delete (fany f) (fget f ?F) (dl hwstep) s = Some (None, s') \<and> del_inv tbl keep S s0 idx (D - {f}) s'"
  have ?g
  proof (cases "fget f ?F = fany f")
    case True
    have "own_refs D u ?F k i = own_refs (D - {f}) u ?F k i" if "i < tsize k" for u k i
    proof -
      have "\<not> (fkind f = k \<and> fget f ?F = i)" using True that tsize_any [of f] by auto
      then show ?thesis using own_refs_insert [of f "D - {f}" u ?F k i] f by (simp add: insert_absorb)
    qed
    then have "counted_at (D - {f}) idx ?P" using c by (auto simp: counted_at_def Let_def simp flip: F)
    moreover have "own_refs (insert f (UNIV - D)) u ?F k i = own_refs (UNIV - D) u ?F k i" if "i < tsize k" for u k i
    proof -
      have "\<not> (fkind f = k \<and> fget f ?F = i)" using True that tsize_any [of f] by auto
      then show ?thesis using own_refs_insert [of f "UNIV - D" u ?F k i] f by simp
    qed
    then have "released idx (UNIV - (D - {f})) (st_pce s0) (pce_sub_tbl ?P)"
      using rl by (simp add: released_def D fet_def)
    ultimately show ?thesis using I True by (auto simp: idx_delete_def when_c_def skip_def del_inv_def)
  next
    case False
    then have i: "fget f ?F < tsize kind" using wf k by (auto simp: row_wf_def)
    have sub: "sub_inv tbl keep (pce_sub_tbl ?P, st_hw s)" using ok by (simp add: st_ok_def)
    obtain H h where dl: "dl hwstep (fget f ?F) (pce_sub_tbl ?P, st_hw s) = Some (0, (H, h))"
      "release kind (fget f ?F) (pce_sub_tbl ?P) H" "sub_inv tbl keep (H, h)" "hw_frame tbl S (st_hw s) h"
      using dl_spec [OF E sub i] by blast
    let ?s = "s\<lparr>st_pce := ?P\<lparr>pce_sub_tbl := H\<rparr>, st_hw := h\<rparr>"
    have "counted_at (D - {f}) idx (?P\<lparr>pce_sub_tbl := H\<rparr>)"
      using counted_release [OF c st_ok_tables [OF ok] _ f u] dl(2) by (simp add: k F)
    moreover have "released idx (insert f (UNIV - D)) (st_pce s0) H"
      using released_step [OF rl st_ok_tables [OF ok], of f H] dl(2) f u sub_only_eqs(2) [OF so]
      by (simp add: k fet_def)
    ultimately have "del_inv tbl keep S s0 idx (D - {f}) ?s"
      using sub_only_step [OF so dl(4)] st_ok_sub [OF ok dl(3)] ix u by (simp add: del_inv_def D)
    then show ?thesis
      using False dl(1) by (auto simp: idx_delete_def when_c_def call_sub_def skip_def)
  qed
  then show "(\<exists>s'. idx_delete (fany f) (fget f ?F) (dl hwstep) s = Some (None, s') \<and> del_inv tbl keep S s0 idx (D - {f}) s') \<or>
    (\<exists>r s'. idx_delete (fany f) (fget f ?F) (dl hwstep) s = Some (Some r, s') \<and> False)" by blast
qed

end

lemma cnts_vlan [simp]:
  "cnts (H\<lparr>vlan_act_tbl_cnt := v\<rparr>) = cnts H" "tabs (H\<lparr>vlan_act_tbl_cnt := v\<rparr>) = tabs H"
  by (rule ext, rename_tac k, case_tac k; simp)+

lemma sub_inv_vlan:
  "sub_inv tbl keep (H, h) \<Longrightarrow> length v = IFX_PCE_VLAN_ACT_TBL_SIZE \<Longrightarrow>
   sub_inv tbl keep (H\<lparr>vlan_act_tbl_cnt := v\<rparr>, h)"
  by (simp add: sub_inv_def tables_ok_def mirrored_def)

lemma counted_at_vlan:
  "counted_at D idx P \<Longrightarrow> counted_at D idx (P\<lparr>pce_sub_tbl := (pce_sub_tbl P)\<lparr>vlan_act_tbl_cnt := v\<rparr>\<rparr>)"
  by (simp add: counted_at_def other_refs_def)

lemma triple_delete_vlan:
  "triple (del_inv tbl keep S s0 idx D)
    (idx_delete 0x7F (unat (vlan_idx (fet idx s0))) ifx_pce_tm_vlan_act_tbl_delete)
    (del_inv tbl keep S s0 idx D) (\<lambda>_ _. False)"
proof (rule tripleI)
  fix s assume I: "del_inv tbl keep S s0 idx D s"
  let ?P = "st_pce s" and ?i = "unat (vlan_idx (fet idx s0))"
  from I have so: "sub_only tbl S s0 s" and ix: "idx < IFX_PCE_TBL_SIZE" and ok: "st_ok tbl keep s"
    by (simp_all add: del_inv_def)
  have "row_wf (fet idx s0)"
    using ok ix sub_only_eqs(1) [OF so] by (simp add: st_ok_def shape_def fet_def)
  then consider "?i = 0x7F" | "?i < IFX_PCE_VLAN_ACT_TBL_SIZE" "?i \<noteq> 0x7F" by (auto simp: row_wf_def)
  then have "\<exists>s'. idx_delete 0x7F ?i ifx_pce_tm_vlan_act_tbl_delete s = Some (None, s') \<and> del_inv tbl keep S s0 idx D s'"
  proof cases
    case 1
    with I show ?thesis by (simp add: idx_delete_def when_c_def skip_def)
  next
    case 2
    let ?v = "vlan_act_tbl_cnt (pce_sub_tbl ?P)"
    let ?H = "if ?v ! ?i > 0 then (pce_sub_tbl ?P)\<lparr>vlan_act_tbl_cnt := ?v[?i := ?v ! ?i - 1]\<rparr> else pce_sub_tbl ?P"
    have len: "length ?v = IFX_PCE_VLAN_ACT_TBL_SIZE" using st_ok_tables [OF ok] by (simp add: tables_ok_def)
    let ?s = "s\<lparr>st_pce := ?P\<lparr>pce_sub_tbl := ?H\<rparr>, st_hw := st_hw s\<rparr>"
    have "sub_inv tbl keep (?H, st_hw s)"
      using ok len by (auto simp: st_ok_def intro: sub_inv_vlan)
    then have "st_ok tbl keep ?s" by (rule st_ok_sub [OF ok])
    moreover have "sub_only tbl S s0 ?s" by (rule sub_only_step [OF so]) simp
    moreover have "counted_at D idx (?P\<lparr>pce_sub_tbl := ?H\<rparr>)"
      using I counted_at_vlan [of D idx ?P] by (simp add: del_inv_def)
    moreover have "released idx (UNIV - D) (st_pce s0) ?H"
      using I by (auto simp: del_inv_def intro: released_cong)
    ultimately have "del_inv tbl keep S s0 idx D ?s" using I by (simp add: del_inv_def)
    moreover have "idx_delete 0x7F ?i ifx_pce_tm_vlan_act_tbl_delete s = Some (None, ?s)"
      using 2 by (simp add: idx_delete_def when_c_def call_sub_def skip_def ifx_pce_tm_vlan_act_tbl_delete_def)
    ultimately show ?thesis by blast
  qed
  then show "(\<exists>s'. idx_delete 0x7F ?i ifx_pce_tm_vlan_act_tbl_delete s = Some (None, s') \<and> del_inv tbl keep S s0 idx D s') \<or>
    (\<exists>r s'. idx_delete 0x7F ?i ifx_pce_tm_vlan_act_tbl_delete s = Some (Some r, s') \<and> False)" by blast
qed

lemma triple_idx_deletes:
  assumes E: "pce_engine hwstep tbl keep S"
  shows "triple (del_inv tbl keep S s0 idx UNIV) (idx_deletes hwstep (fet idx s0))
    (del_inv tbl keep S s0 idx {}) (\<lambda>_ _. False)"
proof -
  let ?I = "del_inv tbl keep S s0 idx"
  note d = pkg.triple_delete [OF E, of FPkt] macs.triple_delete [OF E, of FDMac] macs.triple_delete [OF E, of FSMac]
    appl.triple_delete [OF E, of FDAppl] appl.triple_delete [OF E, of FSAppl]
    ipm.triple_delete [OF E, of FDMsb] ipl.triple_delete [OF E, of FDLsb]
    ipm.triple_delete [OF E, of FSMsb] ipl.triple_delete [OF E, of FSLsb]
    ptcl.triple_delete [OF E, of FProt] ptcl.triple_delete [OF E, of FEty]
    pppoe.triple_delete [OF E, of FPpp]
  note d' = d [unfolded fany.simps fget.simps]
  have e: "UNIV - {FPkt} - {FDMac} - {FSMac} - {FDAppl} - {FSAppl} - {FDMsb} - {FDLsb} - {FSMsb} - {FSLsb} - {FProt} -
     {FEty} - {FPpp} = ({} :: ffield set)"
    by (auto simp: ffield_UNIV)
  show ?thesis
    unfolding idx_deletes_def
    by ((rule triple_Cons, rule d', simp, simp)+, rule triple_Cons, rule triple_delete_vlan,
        rule triple_weaken [OF triple_Nil], simp_all add: e)
qed

lemma set_row_15_mirrored: "mirrored keep (set_row T 15 i m) H \<longleftrightarrow> mirrored keep T H"
  by (simp add: mirrored_def)

text \<open>What the removal of an action does: the row is written back invalid.\<close>

lemma action_delete_spec:
  assumes E: "pce_engine hwstep tbl keep S" and ok: "st_ok tbl keep s" and ix: "idx < IFX_PCE_TBL_SIZE"
  obtains H h where "ifx_pce_action_delete hwstep idx s
      = Some (0, s\<lparr>st_pce := (st_pce s)\<lparr>pce_act := (pce_act (st_pce s))[idx := zero_action], pce_sub_tbl := H\<rparr>, st_hw := h\<rparr>)"
    "sub_inv tbl keep (H, h)" "cnts H = cnts (pce_sub_tbl (st_pce s))" "tabs H = tabs (pce_sub_tbl (st_pce s))"
    "driver_tbl tbl h = set_row (driver_tbl tbl (st_hw s)) 15 idx
       (keep 15 ((driver_tbl tbl (st_hw s) 15 idx)\<lparr>i_valid := 0\<rparr>))"
    "\<And>off. off \<in> S \<Longrightarrow> \<not> in_window off \<Longrightarrow> regs h off = regs (st_hw s) off"
proof -
  let ?P = "st_pce s" and ?Hs = "pce_sub_tbl (st_pce s)" and ?m = "driver_tbl tbl (st_hw s) 15 idx"
  let ?e = "zero_entry\<lparr>e_table := PCE_TFLOW_INDEX, e_index := of_nat idx\<rparr>"
  from ok have I: "idle (st_hw s)" "tables_ok ?Hs" "mirrored keep (driver_tbl tbl (st_hw s)) ?Hs"
    by (simp_all add: st_ok_def sub_inv_def)
  have t: "unat (e_table ?e) = 15" and x: "unat (e_index ?e) = idx" and n: "idx < pce_table_size 15"
    using ix by (simp_all add: unat_of_nat_small IFX_PCE_TBL_SIZE_def pce_table_size_def)
  obtain h1 where h1: "ifx_ethsw_xwayflow_pce_table_read hwstep ?e (st_hw s) = Some (with_img ?m ?e, h1)"
    "idle h1" "driver_tbl tbl h1 = driver_tbl tbl (st_hw s)" "length (i_key ?m) = 9" "length (i_val ?m) = 7"
    "\<And>off. off \<in> S \<Longrightarrow> \<not> in_window off \<Longrightarrow> regs h1 off = regs (st_hw s) off"
    using pce_engine.table_read_spec [OF E I(1) t x _ _ n] by auto
  let ?w = "(with_img ?m ?e)\<lparr>e_valid := 0\<rparr>"
  have wf: "entry_wf ?w" using h1(4,5) by (simp add: entry_wf_def with_img_def zero_entry_def)
  have img: "img_of ?w = ?m\<lparr>i_valid := 0\<rparr>"
    using h1(4) by (cases ?m) (simp add: img_of_def with_img_def)
  have t': "unat (e_table ?w) = 15" and x': "unat (e_index ?w) = idx"
    using t x by (simp_all add: with_img_def)
  obtain h2 where h2: "ifx_ethsw_xwayflow_pce_table_write hwstep ?w h1 = Some h2" "idle h2"
    "driver_tbl tbl h2 = set_row (driver_tbl tbl h1) 15 idx (keep 15 (img_of ?w))"
    "\<And>off. off \<in> S \<Longrightarrow> \<not> in_window off \<Longrightarrow> regs h2 off = regs h1 off"
    using pce_engine.table_write_spec [OF E h1(2) wf t' x' _ _ n] by auto
  let ?v = "vlan_act_tbl_cnt ?Hs" and ?i = "unat (i_val ?m ! 2 AND 0x3F)"
  let ?H = "if i_valid ?m = 1 \<and> bit (i_val ?m ! 0) 1 \<and> ?v ! ?i > 0
            then ?Hs\<lparr>vlan_act_tbl_cnt := ?v[?i := ?v ! ?i - 1]\<rparr> else ?Hs"
  have "sub_inv tbl keep (?Hs, h2)"
    using I h2(2,3) h1(3) by (simp add: sub_inv_def set_row_15_mirrored)
  then have sub: "sub_inv tbl keep (?H, h2)"
    using sub_inv_vlan [where H = ?Hs and h = h2 and v = "?v[?i := ?v ! ?i - 1]"] I(2) by (simp add: tables_ok_def)
  moreover have "cnts ?H = cnts ?Hs" "tabs ?H = tabs ?Hs" by simp_all
  moreover have "ifx_pce_action_delete hwstep idx s
      = Some (0, s\<lparr>st_pce := ?P\<lparr>pce_act := (pce_act ?P)[idx := zero_action], pce_sub_tbl := ?H\<rparr>, st_hw := h2\<rparr>)"
    using ix h1(1) h2(1) by (simp add: ifx_pce_action_delete_def Let_def with_img_def)
  ultimately show ?thesis
    using that [where H = ?H and h = h2] h1(3,6) h2(3,4) by (simp add: img)
qed

lemma counted_cong:
  assumes "cnts (pce_sub_tbl P') = cnts (pce_sub_tbl P)" "\<And>k i. refs P' k i = refs P k i"
  shows "counted P' \<longleftrightarrow> counted P"
  using assms by (simp add: counted_def)

lemma counted_clear:
  assumes c: "counted_at {} idx P" and ix: "idx < IFX_PCE_TBL_SIZE" and sh: "shape P"
    and P': "pce_tbl P' = (pce_tbl P)[idx := F']" "pce_tbl_used P' = (pce_tbl_used P)[idx := 0]"
      "cnts (pce_sub_tbl P') = cnts (pce_sub_tbl P)"
  shows "counted P'"
proof -
  have "other_refs idx P' k i = other_refs idx P k i" for k i
    by (rule other_refs_cong) (simp_all add: P')
  then have "counted_at UNIV idx P'"
    using c ix sh by (simp add: counted_at_def P' shape_def)
  then show ?thesis using ix by (simp add: counted_at_UNIV)
qed

text \<open>
  Removing a rule: the counters stay exact, the row is free and means ``any'', the device has
  disabled it, and no other rule is touched.
\<close>

lemma pattern_delete_spec:
  assumes E: "pce_engine hwstep tbl keep S" and I: "rules_inv tbl keep s" and ix: "idx < IFX_PCE_TBL_SIZE"
    and u: "pce_tbl_used (st_pce s) ! idx \<noteq> 0"
  obtains H h where "ifx_pce_pattern_delete hwstep idx s = Some (0, s\<lparr>st_pce := (st_pce s)\<lparr>pce_sub_tbl := H,
       pce_tbl := (pce_tbl (st_pce s))[idx := ones_row], pce_act := (pce_act (st_pce s))[idx := zero_action],
       pce_tbl_used := (pce_tbl_used (st_pce s))[idx := 0]\<rparr>, st_hw := h\<rparr>)"
    "rules_inv tbl keep (s\<lparr>st_pce := (st_pce s)\<lparr>pce_sub_tbl := H,
       pce_tbl := (pce_tbl (st_pce s))[idx := ones_row], pce_act := (pce_act (st_pce s))[idx := zero_action],
       pce_tbl_used := (pce_tbl_used (st_pce s))[idx := 0]\<rparr>, st_hw := h\<rparr>)"
    "\<And>t. t \<notin> range tno \<Longrightarrow> driver_tbl tbl h t = set_row (driver_tbl tbl (st_hw s)) 15 idx
       (keep 15 ((driver_tbl tbl (st_hw s) 15 idx)\<lparr>i_valid := 0\<rparr>)) t"
    "\<And>off. off \<in> S \<Longrightarrow> \<not> in_window off \<Longrightarrow> regs h off = regs (st_hw s) off"
    "released idx UNIV (st_pce s) H"
proof -
  have "del_inv tbl keep S s idx UNIV s"
    using I ix u released_none [OF st_ok_tables, of tbl keep s idx]
    by (simp add: del_inv_def rules_inv_def counted_at_UNIV)
  with triple_idx_deletes [OF E, of s idx]
  obtain s1 where s1: "idx_deletes hwstep (fet idx s) s = Some (None, s1)" "del_inv tbl keep S s idx {} s1"
    by (auto elim: tripleE)
  let ?P = "st_pce s" and ?H1 = "pce_sub_tbl (st_pce s1)" and ?h1 = "st_hw s1"
  from s1(2) have so: "sub_only tbl S s s1" and ok1: "st_ok tbl keep s1" and c1: "counted_at {} idx (st_pce s1)"
    and rl: "released idx UNIV ?P ?H1"
    by (simp_all add: del_inv_def)
  let ?s2 = "clear_row idx s1"
  have s2: "?s2 = s\<lparr>st_pce := ?P\<lparr>pce_sub_tbl := ?H1, pce_tbl := (pce_tbl ?P)[idx := ones_row],
      pce_tbl_used := (pce_tbl_used ?P)[idx := 0]\<rparr>, st_hw := ?h1\<rparr>"
  proof -
    have *: "s1 = s\<lparr>st_pce := ?P\<lparr>pce_sub_tbl := ?H1\<rparr>, st_hw := ?h1\<rparr>" using so by (simp add: sub_only_def)
    show ?thesis by (subst *) (simp add: clear_row_def)
  qed
  have ok2: "st_ok tbl keep ?s2"
    using ok1 ix by (auto simp: st_ok_def shape_def clear_row_def nth_list_update)
  obtain H h where d: "ifx_pce_action_delete hwstep idx ?s2
      = Some (0, ?s2\<lparr>st_pce := (st_pce ?s2)\<lparr>pce_act := (pce_act (st_pce ?s2))[idx := zero_action], pce_sub_tbl := H\<rparr>, st_hw := h\<rparr>)"
    "sub_inv tbl keep (H, h)" "cnts H = cnts (pce_sub_tbl (st_pce ?s2))" "tabs H = tabs (pce_sub_tbl (st_pce ?s2))"
    "driver_tbl tbl h = set_row (driver_tbl tbl (st_hw ?s2)) 15 idx
       (keep 15 ((driver_tbl tbl (st_hw ?s2) 15 idx)\<lparr>i_valid := 0\<rparr>))"
    "\<And>off. off \<in> S \<Longrightarrow> \<not> in_window off \<Longrightarrow> regs h off = regs (st_hw ?s2) off"
    using action_delete_spec [OF E ok2 ix] by blast
  let ?s3 = "s\<lparr>st_pce := ?P\<lparr>pce_sub_tbl := H, pce_tbl := (pce_tbl ?P)[idx := ones_row],
       pce_act := (pce_act ?P)[idx := zero_action], pce_tbl_used := (pce_tbl_used ?P)[idx := 0]\<rparr>, st_hw := h\<rparr>"
  have res: "ifx_pce_pattern_delete hwstep idx s = Some (0, ?s3)"
    using ix u s1(1) d(1) by (simp add: ifx_pce_pattern_delete_def s2)
  have shP: "shape ?P" using I by (simp add: rules_inv_def st_ok_def)
  have "counted (st_pce ?s3)"
    using shP sub_only_eqs [OF so] d(3,4) ok1
    by (intro counted_clear [OF c1 ix]) (simp_all add: st_ok_def s2)
  moreover have "shape (st_pce ?s3)" using shP ix by (auto simp: shape_def nth_list_update)
  ultimately have inv: "rules_inv tbl keep ?s3" using d(2) by (simp add: rules_inv_def st_ok_def)
  have fr: "hw_frame tbl S (st_hw s) ?h1" using so by (simp add: sub_only_def)
  have n15: "15 \<notin> range tno" by (metis rangeE tno_simps(3))
  show ?thesis
  proof (rule that [OF res inv])
    show "driver_tbl tbl h t = set_row (driver_tbl tbl (st_hw s)) 15 idx
       (keep 15 ((driver_tbl tbl (st_hw s) 15 idx)\<lparr>i_valid := 0\<rparr>)) t" if "t \<notin> range tno" for t
      using fr that n15 by (simp add: d(5) s2 set_row_def hw_frame_def)
    show "released idx UNIV ?P H" by (rule released_cong [OF rl]) (simp_all add: d(3,4) clear_row_def)
    show "regs h off = regs (st_hw s) off" if "off \<in> S" "\<not> in_window off" for off
      using d(6) [OF that] fr that by (simp add: s2 hw_frame_def)
  qed
qed

end
