(* ===== verification/PCE_Write.thy ===== *)
theory PCE_Write
  imports PCE_Refcount
begin

text \<open>
  What \<^verbatim>\<open>ifx_pce_rule_write\<close> achieves. \<open>asked\<close> is the table row that each enabled field of a pattern
  asks for and \<open>want\<close> the row that the driver stores for it; \<open>winv\<close> is the invariant of the phases: the fields written so far name counted rows with
  the wanted content, the key of the device entry is packed from the row of the rule, the counters
  are exact for what is written, and other rules are untouched.
\<close>

unbundle bit_operations_syntax

section \<open>What a pattern asks for\<close>

fun asked :: "garbage \<Rightarrow> IFX_FLOW_PCE_pattern \<Rightarrow> ffield \<Rightarrow> tentry option" where
  "asked g p FPkt = (if bPktLngEnable p then Some (E_pkg \<lparr>pkg_lng = nPktLng p, pkg_lng_rng = nPktLngRange p\<rparr>) else None)"
| "asked g p FDMac = (if bMAC_DstEnable p
     then Some (E_mac \<lparr>mac = map (\<lambda>i. nMAC_Dst p ! i) [0..<6], mac_mask = nMAC_DstMask p\<rparr>) else None)"
| "asked g p FSMac = (if bMAC_SrcEnable p
     then Some (E_mac \<lparr>mac = map (\<lambda>i. nMAC_Src p ! i) [0..<6], mac_mask = nMAC_SrcMask p\<rparr>) else None)"
| "asked g p FDAppl = (if bAppDataMSB_Enable p
     then Some (E_appl \<lparr>appl_data = nAppDataMSB p, mask_range = nAppMaskRangeMSB p,
       mask_range_type = of_bool (bAppMaskRangeMSB_Select p), appl_pad = fst (g_appl_pad g)\<rparr>) else None)"
| "asked g p FSAppl = (if bAppDataLSB_Enable p
     then Some (E_appl \<lparr>appl_data = nAppDataLSB p, mask_range = nAppMaskRangeLSB p,
       mask_range_type = of_bool (bAppMaskRangeLSB_Select p), appl_pad = snd (g_appl_pad g)\<rparr>) else None)"
| "asked g p FDMsb = (if eDstIP_Select p = IP_V6 then Some (E_ip (msb_row (nDstIP p) (nDstIP_Mask p))) else None)"
| "asked g p FDLsb = (case eDstIP_Select p of IP_V6 \<Rightarrow> Some (E_ip (lsb_row (nDstIP p) (nDstIP_Mask p)))
     | IP_V4 \<Rightarrow> Some (E_ip (v4_row (nDstIP p) (nDstIP_Mask p) (g_ip_dst g))) | IP_DISABLED \<Rightarrow> None)"
| "asked g p FSMsb = (if eSrcIP_Select p = IP_V6 then Some (E_ip (msb_row (nSrcIP p) (nSrcIP_Mask p))) else None)"
| "asked g p FSLsb = (case eSrcIP_Select p of IP_V6 \<Rightarrow> Some (E_ip (lsb_row (nSrcIP p) (nSrcIP_Mask p)))
     | IP_V4 \<Rightarrow> Some (E_ip (v4_row (nSrcIP p) (nSrcIP_Mask p) (g_ip_src g))) | IP_DISABLED \<Rightarrow> None)"
| "asked g p FProt = (if bProtocolEnable p then Some (E_ptcl (prot_row p g)) else None)"
| "asked g p FEty = (if bEtherTypeEnable p then Some (E_ptcl \<lparr>ptcl_key = nEtherType p, ptcl_mask = nEtherTypeMask p\<rparr>) else None)"
| "asked g p FPpp = (if bSessionIdEnable p then Some (E_pppoe \<lparr>sess_id = nSessionId p\<rparr>) else None)"

text \<open>
  The rows that the driver stores for it: those asked for, except that it takes the session id of
  PPPoE from the upper half of the rule number.
\<close>

definition want :: "garbage \<Rightarrow> IFX_FLOW_PCE_pattern \<Rightarrow> ffield \<Rightarrow> tentry option" where
  "want g p f = (if f = FPpp \<and> bSessionIdEnable p then Some (E_pppoe \<lparr>sess_id = ucast (drop_bit 16 (nIndex p))\<rparr>) else asked g p f)"

lemma want_simps [simp]:
  "f \<noteq> FPpp \<Longrightarrow> want g p f = asked g p f"
  "want g p FPpp = (if bSessionIdEnable p then Some (E_pppoe \<lparr>sess_id = ucast (drop_bit 16 (nIndex p))\<rparr>) else None)"
  by (simp_all add: want_def)

text \<open>A row in use with a given content.\<close>

definition holds :: "IFX_PCE_HANDLE \<Rightarrow> tkind \<Rightarrow> nat \<Rightarrow> tentry \<Rightarrow> bool" where
  "holds H k i e \<longleftrightarrow> i < tsize k \<and> cnts H k ! i > 0 \<and> tabs H k ! i = e"

text \<open>
  A field as it should be: ``any'' if nothing is wanted, else a row with the wanted content. Two
  exceptions the code makes for IP addresses: a full table leaves ``any'' in three of the four
  fields, and an all-zero row may be shared with the free rows of the table.
\<close>

definition table_full :: "tkind \<Rightarrow> IFX_PCE_HANDLE \<Rightarrow> bool" where
  "table_full k H \<longleftrightarrow> (\<forall>i<tsize k. cnts H k ! i > 0)"

definition field_ok :: "(ffield \<Rightarrow> tentry option) \<Rightarrow> ffield \<Rightarrow> IFX_PCE_TBL \<Rightarrow> IFX_PCE_HANDLE \<Rightarrow> bool" where
  "field_ok W f F H \<longleftrightarrow>
     (case W f of
        None \<Rightarrow> fget f F = fany f
      | Some e \<Rightarrow> f \<in> {FDMsb, FDLsb, FSMsb} \<and> fget f F = fany f \<and> table_full (fkind f) H \<or>
          (exact (fkind f) \<or> e \<noteq> tzero (fkind f) \<longrightarrow> holds H (fkind f) (fget f F) e))"

text \<open>The key of the device entry after \<open>n\<close> of the 14 phases.\<close>

definition kp :: "nat \<Rightarrow> nat \<Rightarrow> u16 \<Rightarrow> u16" where
  "kp n m w = (if m < n then w else 0)"

definition pack_key :: "nat \<Rightarrow> IFX_PCE_TBL \<Rightarrow> u16 list" where
  "pack_key n F =
    [kp n 0 (ucast (port_id F)) OR kp n 13 (push_bit 8 (ucast (vlan_idx F))),
     kp n 10 (ucast (ethertype_idx F)) OR kp n 11 (push_bit 8 (ucast (ip_prot_idx F))),
     kp n 9 (push_bit 8 (ucast (sip_msb_idx F)) OR ucast (sip_lsb_idx F)),
     kp n 8 (push_bit 8 (ucast (dip_msb_idx F)) OR ucast (dip_lsb_idx F)),
     kp n 6 (ucast (dst_appl_fld_idx F)) OR kp n 7 (push_bit 8 (ucast (src_appl_fld_idx F))),
     kp n 4 (push_bit 8 (ucast (dst_mac_addr_idx F))) OR kp n 5 (ucast (src_mac_addr_idx F)),
     kp n 1 (push_bit 8 (ucast (dscp F))) OR kp n 2 (ucast (pcp F)),
     kp n 3 (ucast (pkt_lng_idx F)) OR kp n 12 (push_bit 8 (ucast (pppoe_idx F))),
     0xFFFF, 0, 0, 0, 0, 0, 0, 0]"

section \<open>The invariant of the phases\<close>

definition keeps :: "IFX_PCE_HANDLE \<Rightarrow> IFX_PCE_HANDLE \<Rightarrow> bool" where
  "keeps H H' \<longleftrightarrow> (\<forall>k i e. holds H k i e \<longrightarrow> holds H' k i e)"

definition other_rules_same :: "nat \<Rightarrow> 'p pce_st \<Rightarrow> 'p pce_st \<Rightarrow> bool" where
  "other_rules_same idx s0 s \<longleftrightarrow> pce_tbl_used (st_pce s) = pce_tbl_used (st_pce s0) \<and>
     (\<forall>r. r \<noteq> idx \<longrightarrow> pce_tbl (st_pce s) ! r = pce_tbl (st_pce s0) ! r \<and> pce_act (st_pce s) ! r = pce_act (st_pce s0) ! r)"

definition wframe :: "('p \<Rightarrow> nat \<Rightarrow> nat \<Rightarrow> pce_img) \<Rightarrow> 16 word set \<Rightarrow> nat \<Rightarrow> 'p pce_st \<Rightarrow> 'p pce_st \<Rightarrow> bool" where
  "wframe tbl S idx s0 s \<longleftrightarrow> other_rules_same idx s0 s \<and> hw_frame tbl S (st_hw s0) (st_hw s) \<and>
     keeps (pce_sub_tbl (st_pce s0)) (pce_sub_tbl (st_pce s))"

text \<open>
  \<open>Q n\<close> is what is known of the fields that hold no table index; \<open>fresh\<close>: the row of the rule was all ``any'' to begin
  with.
\<close>

definition winv :: "('p \<Rightarrow> nat \<Rightarrow> nat \<Rightarrow> pce_img) \<Rightarrow> (nat \<Rightarrow> pce_img \<Rightarrow> pce_img) \<Rightarrow> 16 word set \<Rightarrow>
    (ffield \<Rightarrow> tentry option) \<Rightarrow> (nat \<Rightarrow> IFX_PCE_TBL \<Rightarrow> bool) \<Rightarrow> bool \<Rightarrow> nat \<Rightarrow> 'p pce_st \<Rightarrow> ffield set \<Rightarrow> nat \<Rightarrow> 'p pce_st \<Rightarrow> bool" where
  "winv tbl keep S W Q fresh idx s0 D n s \<longleftrightarrow>
     idx < IFX_PCE_TBL_SIZE \<and> pce_tbl_used (st_pce s) ! idx \<noteq> 0 \<and> st_ok tbl keep s \<and>
     counted_at D idx (st_pce s) \<and> wframe tbl S idx s0 s \<and>
     st_ent s = zero_entry\<lparr>e_key := pack_key n (fet idx s)\<rparr> \<and>
     (\<forall>f\<in>D. field_ok W f (fet idx s) (pce_sub_tbl (st_pce s))) \<and>
     Q n (fet idx s) \<and> (\<forall>f t F. Q n (fput f t F) = Q n F) \<and>
     (fresh \<longrightarrow> (\<forall>f. f \<notin> D \<longrightarrow> fget f (fet idx s) = fany f))"

text \<open>
  After an error the tables are still in order, and exactly counted if the row was fresh;
  in any case no row is in use that is not named by a rule.
\<close>

definition covered :: "IFX_PCE \<Rightarrow> bool" where
  "covered P \<longleftrightarrow> (\<forall>k. \<forall>i<tsize k. unat (cnts (pce_sub_tbl P) k ! i) \<le> refs P k i)"

lemma counted_covered: "counted P \<Longrightarrow> covered P"
  by (simp add: counted_def covered_def)

lemma own_refs_UNIV: "own_refs D u F k i \<le> own_refs UNIV u F k i"
  by (auto simp: own_refs_def intro!: card_mono)

lemma counted_at_covered:
  assumes "counted_at D idx P" "idx < IFX_PCE_TBL_SIZE"
  shows "covered P"
  unfolding covered_def
proof (intro allI impI)
  fix k i assume "i < tsize k"
  then have "unat (cnts (pce_sub_tbl P) k ! i) \<le> other_refs idx P k i + own_refs D (pce_tbl_used P ! idx) (pce_tbl P ! idx) k i"
    using assms(1) by (simp add: counted_at_def Let_def)
  then show "unat (cnts (pce_sub_tbl P) k ! i) \<le> refs P k i"
    using own_refs_UNIV [of D "pce_tbl_used P ! idx" "pce_tbl P ! idx" k i]
    unfolding refs_split [OF assms(2)] by linarith
qed

definition werr :: "('p \<Rightarrow> nat \<Rightarrow> nat \<Rightarrow> pce_img) \<Rightarrow> (nat \<Rightarrow> pce_img \<Rightarrow> pce_img) \<Rightarrow> 16 word set \<Rightarrow>
    bool \<Rightarrow> nat \<Rightarrow> 'p pce_st \<Rightarrow> int \<Rightarrow> 'p pce_st \<Rightarrow> bool" where
  "werr tbl keep S fresh idx s0 r s \<longleftrightarrow> r < 0 \<and> st_ok tbl keep s \<and> (fresh \<longrightarrow> counted (st_pce s)) \<and>
     covered (st_pce s) \<and> wframe tbl S idx s0 s"

text \<open>The only reason a phase of the pattern has to fail: a table it needs has no free row.\<close>

definition werrW :: "('p \<Rightarrow> nat \<Rightarrow> nat \<Rightarrow> pce_img) \<Rightarrow> (nat \<Rightarrow> pce_img \<Rightarrow> pce_img) \<Rightarrow> 16 word set \<Rightarrow>
    (ffield \<Rightarrow> tentry option) \<Rightarrow> bool \<Rightarrow> nat \<Rightarrow> 'p pce_st \<Rightarrow> int \<Rightarrow> 'p pce_st \<Rightarrow> bool" where
  "werrW tbl keep S W fresh idx s0 r s \<longleftrightarrow> werr tbl keep S fresh idx s0 r s \<and>
     (\<exists>f. W f \<noteq> None \<and> table_full (fkind f) (pce_sub_tbl (st_pce s)))"

lemma keeps_refl [simp]: "keeps H H"
  by (simp add: keeps_def)

lemma keeps_trans: "keeps H H' \<Longrightarrow> keeps H' H'' \<Longrightarrow> keeps H H''"
  by (simp add: keeps_def)

lemma acquire_keeps:
  assumes a: "acquire k e i H H'" and ok: "tables_ok H" and o: "unat (cnts H k ! i) < 65535"
  shows "keeps H H'" "holds H' k i e"
proof -
  have "unat (cnts H k ! i + 1) = unat (cnts H k ! i) + 1" using o by (rule unat_inc_word)
  then have nz: "cnts H k ! i + 1 > 0" 
    by (metis add_gr_0 unat_0 word_gt_0 zero_less_one less_irrefl)
  have len: "length (cnts H k') = tsize k'" "length (tabs H k') = tsize k'" for k'
    using ok by (simp_all add: tables_ok_def)
  show "keeps H H'"
    using a nz len by (auto simp: keeps_def holds_def acquire_def nth_list_update)
  show "holds H' k i e"
    using a nz len by (auto simp: holds_def acquire_def)
qed

lemma acquire_cnts:
  assumes "acquire k e i H H'" "tables_ok H" "j < tsize k'"
  shows "cnts H' k' ! j = cnts H k' ! j + of_bool (k' = k \<and> j = i)"
  using assms by (auto simp: acquire_def tables_ok_def nth_list_update)

lemma table_full_mono: "table_full k H \<Longrightarrow> keeps H H' \<Longrightarrow> table_full k H'"
  by (auto simp: table_full_def keeps_def holds_def)

lemma field_ok_mono: "field_ok W f F H \<Longrightarrow> keeps H H' \<Longrightarrow> field_ok W f F H'"
  using table_full_mono [of "fkind f" H H'] by (auto simp: field_ok_def keeps_def split: option.splits)

lemma field_ok_cong: "fget f F = fget f F' \<Longrightarrow> field_ok W f F H = field_ok W f F' H"
  by (simp add: field_ok_def split: option.splits)

lemma field_ok_any:
  "fget f F = fany f \<Longrightarrow> W f = None \<or> f \<in> {FDMsb, FDLsb, FSMsb} \<and> table_full (fkind f) H \<Longrightarrow> field_ok W f F H"
  by (auto simp: field_ok_def split: option.splits)

lemma field_ok_holds: "W f = Some e \<Longrightarrow> holds H (fkind f) (fget f F) e \<Longrightarrow> field_ok W f F H"
  by (simp add: field_ok_def)

lemma winv_werr:
  assumes w: "winv tbl keep S W Q fresh idx s0 D n s" and r: "r < 0"
  shows "werr tbl keep S fresh idx s0 r s"
proof -
  have "counted (st_pce s)" if fresh
  proof -
    have "own_refs D u (fet idx s) k i = own_refs UNIV u (fet idx s) k i" if "i < tsize k" for u k i
    proof -
      have "{f \<in> D. fkind f = k \<and> fget f (fet idx s) = i} = {f \<in> UNIV. fkind f = k \<and> fget f (fet idx s) = i}"
      proof (intro equalityI subsetI CollectI conjI; clarsimp)
        fix f assume "i = fget f (fet idx s)" "k = fkind f"
        then have "fget f (fet idx s) \<noteq> fany f" using that tsize_any [of f] by auto
        then show "f \<in> D" using w \<open>fresh\<close> by (auto simp: winv_def)
      qed
      then show ?thesis by (simp add: own_refs_def)
    qed
    then have "counted_at UNIV idx (st_pce s)"
      using w by (simp add: winv_def counted_at_def fet_def Let_def)
    then show ?thesis using w by (simp add: winv_def counted_at_UNIV)
  qed
  moreover have "covered (st_pce s)" using w by (auto simp: winv_def intro: counted_at_covered)
  ultimately show ?thesis using w r by (simp add: werr_def winv_def)
qed

lemma upd_fet_simps [simp]:
  "pce_tbl (st_pce (upd_fet idx u s)) = (pce_tbl (st_pce s))[idx := u (fet idx s)]"
  "pce_sub_tbl (st_pce (upd_fet idx u s)) = pce_sub_tbl (st_pce s)"
  "pce_tbl_used (st_pce (upd_fet idx u s)) = pce_tbl_used (st_pce s)"
  "pce_act (st_pce (upd_fet idx u s)) = pce_act (st_pce s)"
  "st_hw (upd_fet idx u s) = st_hw s" "st_ent (upd_fet idx u s) = st_ent s"
  by (simp_all add: upd_fet_def)

text \<open>
  One step: the tables go from \<open>H\<close> to \<open>H'\<close> and a field of the row is stored. \<open>d\<close> tells whether a
  counter was raised.
\<close>

lemma winv_store:
  assumes w: "winv tbl keep S W Q fresh idx s0 D n s"
    and sub: "sub_inv tbl keep (H', h')" and fr: "hw_frame tbl S (st_hw s) h'"
    and ks: "keeps (pce_sub_tbl (st_pce s)) H'"
    and cn: "\<And>k i. i < tsize k \<Longrightarrow> cnts H' k ! i = cnts (pce_sub_tbl (st_pce s)) k ! i +
               of_bool (d \<and> k = fkind f \<and> i = fget f (fput f t (fet idx s)))"
    and d: "d \<or> \<not> exact (fkind f) \<or> fget f (fput f t (fet idx s)) \<ge> tsize (fkind f)"
    and f: "f \<notin> D"
    and ky: "\<And>F. pack_key n (fput f t F) = pack_key n F"
    and fo: "field_ok W f (fput f t (fet idx s)) H'"
    and wf: "row_wf (fput f t (fet idx s))"
  shows "winv tbl keep S W Q fresh idx s0 (insert f D) n
    (upd_fet idx (fput f t) (s\<lparr>st_pce := (st_pce s)\<lparr>pce_sub_tbl := H'\<rparr>, st_hw := h'\<rparr>))"
proof -
  let ?P = "st_pce s" and ?F = "fet idx s"
  let ?F' = "fput f t ?F"
  let ?s = "upd_fet idx (fput f t) (s\<lparr>st_pce := ?P\<lparr>pce_sub_tbl := H'\<rparr>, st_hw := h'\<rparr>)"
  from w have ix: "idx < IFX_PCE_TBL_SIZE" and u: "pce_tbl_used ?P ! idx \<noteq> 0" and ok: "st_ok tbl keep s"
    and c: "counted_at D idx ?P" and wfr: "wframe tbl S idx s0 s"
    and en: "st_ent s = zero_entry\<lparr>e_key := pack_key n ?F\<rparr>"
    and fs: "\<forall>f\<in>D. field_ok W f ?F (pce_sub_tbl ?P)"
    and fre: "fresh \<longrightarrow> (\<forall>f. f \<notin> D \<longrightarrow> fget f ?F = fany f)"
    by (simp_all add: winv_def)
  have len: "idx < length (pce_tbl ?P)" using ok ix by (simp add: st_ok_def shape_def)
  have F: "fet idx (s\<lparr>st_pce := ?P\<lparr>pce_sub_tbl := H'\<rparr>, st_hw := h'\<rparr>) = ?F" by (simp add: fet_def)
  have fet: "fet idx ?s = ?F'" using len by (simp add: fet_def upd_fet_def)
  have P: "st_pce ?s = ?P\<lparr>pce_sub_tbl := H', pce_tbl := (pce_tbl ?P)[idx := ?F']\<rparr>"
    by (simp add: upd_fet_def F)
  have FD: "fget g ?F' = fget g (pce_tbl ?P ! idx)" if "g \<in> D" for g
    using that f fget_fput_other [of g f t ?F] by (auto simp: fet_def)
  have "counted_at (insert f D) idx (st_pce ?s)"
    unfolding P using u f fget_fput_other [of _ f t ?F] FD
    by (intro counted_insert [OF c st_ok_tables [OF ok] len cn d f u]) (auto simp: fet_def)
  moreover have "st_ok tbl keep ?s"
    using ok sub wf ix by (auto simp: st_ok_def shape_def P nth_list_update)
  moreover have "wframe tbl S idx s0 ?s"
    using wfr hw_frame_trans [OF _ fr] keeps_trans [OF _ ks]
    by (auto simp: wframe_def other_rules_same_def P)
  moreover have "\<forall>g\<in>insert f D. field_ok W g ?F' H'"
  proof
    fix g assume g: "g \<in> insert f D"
    show "field_ok W g ?F' H'"
    proof (cases "g = f")
      case False
      then have "field_ok W g ?F H'" using g fs ks by (auto intro: field_ok_mono)
      then show ?thesis using fget_fput_other [OF False] field_ok_cong by metis
    qed (simp add: fo)
  qed
  moreover have "\<forall>g. g \<notin> insert f D \<longrightarrow> fget g ?F' = fany g" if fresh
    using fre that fget_fput_other [of _ f t ?F] by auto
  ultimately show ?thesis
    using ix u en w by (simp add: winv_def fet ky)
qed

section \<open>The phases\<close>

lemma winv_add_any:
  assumes w: "winv tbl keep S W Q fresh idx s0 D n s" and a: "fget f (fet idx s) = fany f"
    and W: "W f = None \<or> f \<in> {FDMsb, FDLsb, FSMsb} \<and> table_full (fkind f) (pce_sub_tbl (st_pce s))"
  shows "winv tbl keep S W Q fresh idx s0 (insert f D) n s"
proof (cases "f \<in> D")
  case True
  then show ?thesis using w by (simp add: insert_absorb)
next
  case False
  have "own_refs (insert f D) u (fet idx s) k i = own_refs D u (fet idx s) k i" if "i < tsize k" for u k i
  proof -
    have "\<not> (fkind f = k \<and> fget f (fet idx s) = i)" using that a tsize_any [of f] by auto
    then show ?thesis by (simp add: own_refs_insert [OF False])
  qed
  then have "counted_at (insert f D) idx (st_pce s)"
    using w by (simp add: winv_def counted_at_def fet_def Let_def)
  then show ?thesis
    using w field_ok_any [of f "fet idx s" W] a W by (auto simp: winv_def)
qed

text \<open>Changes of the row outside the fields \<open>D\<close>, and of the key.\<close>

lemma winv_update:
  assumes w: "winv tbl keep S W Q fresh idx s0 D n s"
    and g1: "\<And>f F. f \<in> D \<Longrightarrow> fget f (u F) = fget f F"
    and g2: "\<And>f F. f \<notin> D \<Longrightarrow> fget f (u F) = fget f F \<or> fget f (u F) = fany f"
    and v: "\<And>F. vlan_idx (u F) = vlan_idx F \<or> unat (vlan_idx (u F)) = 0x7F \<or>
              unat (vlan_idx (u F)) < IFX_PCE_VLAN_ACT_TBL_SIZE"
    and ky: "\<And>F. pack_key n (u F) = pack_key n F" and q: "\<And>F. Q n F \<Longrightarrow> Q n (u F)"
  shows "winv tbl keep S W Q fresh idx s0 D n (upd_fet idx u s)"
proof -
  let ?P = "st_pce s" and ?F = "fet idx s"
  from w have ix: "idx < IFX_PCE_TBL_SIZE" and us: "pce_tbl_used ?P ! idx \<noteq> 0" and ok: "st_ok tbl keep s"
    and c: "counted_at D idx ?P" and wfr: "wframe tbl S idx s0 s"
    by (simp_all add: winv_def)
  have len: "idx < length (pce_tbl ?P)" using ok ix by (simp add: st_ok_def shape_def)
  have fet: "fet idx (upd_fet idx u s) = u ?F" using len by (simp add: fet_def upd_fet_def)
  have "row_wf ?F" using ok ix by (simp add: st_ok_def shape_def fet_def)
  then have wf: "row_wf (u ?F)" unfolding row_wf_def by (metis g1 g2 v)
  have "counted_at D idx (st_pce (upd_fet idx u s))"
    using counted_same [OF c len, of "u ?F" "pce_sub_tbl ?P"] g1 by (simp add: upd_fet_def fet_def)
  moreover have "st_ok tbl keep (upd_fet idx u s)"
    using ok wf ix by (auto simp: st_ok_def shape_def nth_list_update)
  moreover have "wframe tbl S idx s0 (upd_fet idx u s)"
    using wfr by (auto simp: wframe_def other_rules_same_def)
  moreover have "\<forall>f\<in>D. field_ok W f (u ?F) (pce_sub_tbl ?P)"
    using w g1 field_ok_cong by (metis winv_def)
  moreover have "fresh \<longrightarrow> (\<forall>f. f \<notin> D \<longrightarrow> fget f (u ?F) = fany f)"
    using w g2 by (metis winv_def)
  ultimately show ?thesis
    using w q by (simp add: winv_def fet ky)
qed

lemma triple_row:
  assumes "\<And>f F. f \<in> D \<Longrightarrow> fget f (u F) = fget f F" "\<And>f F. f \<notin> D \<Longrightarrow> fget f (u F) = fget f F \<or> fget f (u F) = fany f"
    and "\<And>F. vlan_idx (u F) = vlan_idx F" "\<And>F. pack_key n (u F) = pack_key n F" "\<And>F. Q n F \<Longrightarrow> Q n (u F)"
    and X: "\<And>F. X (u F)"
  shows "triple (winv tbl keep S W Q fresh idx s0 D n) (modify (upd_fet idx u))
    (\<lambda>s. winv tbl keep S W Q fresh idx s0 D n s \<and> X (fet idx s)) R"
proof (rule triple_modify)
  fix s assume w: "winv tbl keep S W Q fresh idx s0 D n s"
  have "winv tbl keep S W Q fresh idx s0 D n (upd_fet idx u s)"
    by (rule winv_update [OF w]) (simp_all add: assms)
  moreover have "idx < length (pce_tbl (st_pce s))" using w by (simp add: winv_def st_ok_def shape_def)
  ultimately show "winv tbl keep S W Q fresh idx s0 D n (upd_fet idx u s) \<and> X (fet idx (upd_fet idx u s))"
    using X by (simp add: fet_def)
qed

lemma triple_key:
  assumes ky: "\<And>F. (pack_key n F)[j := v F (pack_key n F ! j)] = pack_key m F"
    and q: "\<And>F. Q n F \<Longrightarrow> X F \<Longrightarrow> Q m F" and q': "\<And>f t F. Q m (fput f t F) = Q m F"
  shows "triple (\<lambda>s. winv tbl keep S W Q fresh idx s0 D n s \<and> X (fet idx s)) (modify (\<lambda>s. upd_key j (v (fet idx s)) s))
    (winv tbl keep S W Q fresh idx s0 D m) R"
proof (rule triple_modify)
  fix s assume w': "winv tbl keep S W Q fresh idx s0 D n s \<and> X (fet idx s)"
  then have w: "winv tbl keep S W Q fresh idx s0 D n s" by simp
  let ?s = "upd_key j (v (fet idx s)) s"
  have p: "st_pce ?s = st_pce s" "st_hw ?s = st_hw s" "fet idx ?s = fet idx s"
    by (simp_all add: upd_key_def fet_def)
  have "st_ent ?s = zero_entry\<lparr>e_key := pack_key m (fet idx s)\<rparr>"
    using w ky [of "fet idx s"] by (simp add: winv_def upd_key_def)
  moreover have "st_ok tbl keep ?s = st_ok tbl keep s" "wframe tbl S idx s0 ?s = wframe tbl S idx s0 s"
    by (simp_all add: st_ok_def wframe_def other_rules_same_def p)
  moreover have "Q m (fet idx s)" using w w' q by (simp add: winv_def)
  ultimately show "winv tbl keep S W Q fresh idx s0 D m ?s"
    using w q' by (simp add: winv_def p)
qed

lemma winv_Q: "winv tbl keep S W Q fresh idx s0 D n s \<Longrightarrow> Q n (fput f t F) = Q n F"
  by (simp add: winv_def)

lemma winv_row_wf:
  assumes "winv tbl keep S W Q fresh idx s0 D n s"
  shows "row_wf (fet idx s)" "idx < length (pce_tbl (st_pce s))"
  using assms by (simp_all add: winv_def st_ok_def shape_def fet_def)

lemma winv_store_any:
  assumes w: "winv tbl keep S W Q fresh idx s0 D n s" and f: "f \<notin> D"
    and ky: "\<And>t F. pack_key n (fput f t F) = pack_key n F"
    and g: "\<And>F. fget f (fput f t F) = fany f" and W: "W f = None \<or> f \<in> {FDMsb, FDLsb, FSMsb} \<and> table_full (fkind f) (pce_sub_tbl (st_pce s))"
  shows "winv tbl keep S W Q fresh idx s0 (insert f D) n (upd_fet idx (fput f t) s)"
proof -
  let ?s = "upd_fet idx (fput f t) s"
  have "winv tbl keep S W Q fresh idx s0 D n ?s"
    using g fget_fput_other [of _ f t] f ky winv_Q [OF w]
    by (intro winv_update [OF w]) (metis, metis, cases f, simp_all)
  moreover have "fget f (fet idx ?s) = fany f" using g winv_row_wf(2) [OF w] by (simp add: fet_def)
  ultimately show ?thesis using W by (intro winv_add_any) simp_all
qed

context rc_table
begin

lemma wr_in_phase:
  assumes E: "pce_engine hwstep tbl keep S" and w: "winv tbl keep S W Q fresh idx s0 D n s"
    and k: "fkind f = kind" and f: "f \<notin> D" and W: "W f = Some (inj e)"
    and ky: "\<And>t F. pack_key n (fput f t F) = pack_key n F"
  obtains (full) "wr hwstep e (pce_sub_tbl (st_pce s), st_hw s) = Some (-1, (pce_sub_tbl (st_pce s), st_hw s))"
      "\<forall>i<tsize kind. cnts (pce_sub_tbl (st_pce s)) kind ! i > 0 \<and> tabs (pce_sub_tbl (st_pce s)) kind ! i \<noteq> inj e"
  | (ok) i H h where "wr hwstep e (pce_sub_tbl (st_pce s), st_hw s) = Some (int i, (H, h))"
      "winv tbl keep S W Q fresh idx s0 (insert f D) n
         (upd_fet idx (fput f (int i)) (s\<lparr>st_pce := (st_pce s)\<lparr>pce_sub_tbl := H\<rparr>, st_hw := h\<rparr>))"
proof -
  let ?P = "st_pce s"
  from w have ix: "idx < IFX_PCE_TBL_SIZE" and sok: "st_ok tbl keep s" and c: "counted_at D idx ?P"
    by (simp_all add: winv_def)
  have I: "sub_inv tbl keep (pce_sub_tbl ?P, st_hw s)" using sok by (simp add: st_ok_def)
  have ovf: "\<forall>i<tsize kind. unat (cnts (pce_sub_tbl ?P) kind ! i) < 65535"
    using counted_bound [OF c] by blast
  show ?thesis
  proof (rule wr_spec [OF E I ovf, of e], goal_cases)
    case 1 then show ?case by (rule full)
  next
    case (2 i H h)
    note tok = st_ok_tables [OF sok]
    have i: "i < tsize kind" using 2(2) by (simp add: acquire_def)
    have g: "fget f (fput f (int i) F) = i" for F
      using i tsize_any [of f] k by (intro fget_fput_same) simp
    have hk: "keeps (pce_sub_tbl ?P) H" "holds H kind i (inj e)"
      using acquire_keeps [OF 2(2) tok] ovf i by blast+
    have "row_wf (fet idx s)" using sok ix by (simp add: st_ok_def shape_def fet_def)
    then have wf: "row_wf (fput f (int i) (fet idx s))"
      using i g k fget_fput_other [of _ f "int i" "fet idx s"]
      by (cases f) (simp_all add: row_wf_def ffield_all)
    have "winv tbl keep S W Q fresh idx s0 (insert f D) n
         (upd_fet idx (fput f (int i)) (s\<lparr>st_pce := ?P\<lparr>pce_sub_tbl := H\<rparr>, st_hw := h\<rparr>))"
      by (rule winv_store [OF w 2(3,4) hk(1), where d = True])
        (use acquire_cnts [OF 2(2) tok] k f ky wf hk(2) W in
          \<open>auto simp: g intro!: field_ok_holds [of W f "inj e"]\<close>)
    then show ?case using 2(1) by (intro ok)
  qed
qed

lemma triple_index:
  assumes E: "pce_engine hwstep tbl keep S" and k: "fkind f = kind" and f: "f \<notin> D"
    and W: "W f = (if en then Some (inj e) else None)"
    and u: "\<And>t F. upd t F = fput f t F" and a: "any = int (fany f)"
    and ky: "\<And>t F. pack_key n (fput f t F) = pack_key n F"
  shows "triple (winv tbl keep S W Q fresh idx s0 D n) (phase_index en (wr hwstep e) upd any idx)
    (winv tbl keep S W Q fresh idx s0 (insert f D) n) (werrW tbl keep S W fresh idx s0)"
proof (rule tripleI)
  fix s assume w: "winv tbl keep S W Q fresh idx s0 D n s"
  have ue: "upd = fput f" by (intro ext) (rule u)
  let ?Q = "winv tbl keep S W Q fresh idx s0 (insert f D) n" and ?R = "werrW tbl keep S W fresh idx s0"
  let ?c = "phase_index en (wr hwstep e) upd any idx"
  show "(\<exists>s'. ?c s = Some (None, s') \<and> ?Q s') \<or> (\<exists>r s'. ?c s = Some (Some r, s') \<and> ?R r s')"
  proof (cases en)
    case True
    then have "W f = Some (inj e)" by (simp add: W)
    show ?thesis
    proof (rule wr_in_phase [OF E w k f \<open>W f = Some (inj e)\<close> ky], goal_cases)
      case 1
      then have "?c s = Some (Some (-1), s)"
        using True by (simp add: phase_index_def call_sub_def return_with_def)
      moreover have "table_full (fkind f) (pce_sub_tbl (st_pce s))" using 1(2) by (simp add: table_full_def k)
      ultimately show ?case using winv_werr [OF w, of "-1"] \<open>W f = Some (inj e)\<close> by (auto simp: werrW_def)
    next
      case (2 i H h)
      then show ?case using True by (auto simp: phase_index_def call_sub_def modify_def ue)
    qed
  next
    case False
    have "fget f (fput f any F) = fany f" for F unfolding a by (rule fget_fput_same) simp
    then have "?Q (upd_fet idx (fput f any) s)"
      using W False by (intro winv_store_any [OF w f ky]) simp_all
    then show ?thesis using False by (auto simp: phase_index_def modify_def ue)
  qed
qed

end

lemma get_tbl_index_cases:
  obtains (hit) i where "i < n" "t ! i = e" "get_tbl_index t e n = int i"
  | (miss) "get_tbl_index t e n = 0xFF" "\<forall>i<n. t ! i \<noteq> e"
  by (cases "find (\<lambda>i. t ! i = e) [0..<n]")
    (auto simp: get_tbl_index_def find_upt_Some find_upt_None)

lemma get_tbl_index_nonneg: "\<not> get_tbl_index t e n < 0"
  by (simp add: get_tbl_index_def split: option.splits)

lemma call_sub_same: "f (pce_sub_tbl (st_pce s), st_hw s) = Some (r, (pce_sub_tbl (st_pce s), st_hw s)) \<Longrightarrow>
  call_sub f k s = k r s"
  by (simp add: call_sub_def)

context rc_table
begin

text \<open>A row found in the software table is shared without being counted.\<close>

lemma winv_share:
  assumes w: "winv tbl keep S W Q fresh idx s0 D n s"
    and k: "fkind f = kind" and f: "f \<notin> D" and W: "W f = Some (inj e)" and ex: "\<not> exact kind"
    and ky: "\<And>t F. pack_key n (fput f t F) = pack_key n F"
    and i: "i < tsize kind" and e: "tab (pce_sub_tbl (st_pce s)) ! i = e"
  shows "winv tbl keep S W Q fresh idx s0 (insert f D) n (upd_fet idx (fput f (int i)) s)"
proof -
  let ?H = "pce_sub_tbl (st_pce s)"
  from w have sok: "st_ok tbl keep s" by (simp add: winv_def)
  note tok = st_ok_tables [OF sok]
  have len: "length (tab ?H) = tsize kind" using tok by (metis length_map tables_ok_def tabs_kind)
  have te: "tabs ?H kind ! i = inj e" using i len e by (simp add: tabs_kind)
  have g: "fget f (fput f (int i) F) = i" for F
    using i tsize_any [of f] k by (intro fget_fput_same) simp
  have "row_wf (fet idx s)" using w by (rule winv_row_wf)
  then have wf: "row_wf (fput f (int i) (fet idx s))"
    using i g k fget_fput_other [of _ f "int i" "fet idx s"]
    by (cases f) (simp_all add: row_wf_def ffield_all)
  have fo: "field_ok W f (fput f (int i) (fet idx s)) ?H"
  proof (cases "inj e = tzero kind")
    case False
    then have "cnts ?H kind ! i \<noteq> 0" using tok i te by (auto simp: tables_ok_def)
    then show ?thesis using i te k W g by (intro field_ok_holds [of W f "inj e"]) (auto simp: holds_def word_gt_0)
  qed (simp add: field_ok_def W k ex)
  have "winv tbl keep S W Q fresh idx s0 (insert f D) n (upd_fet idx (fput f (int i))
      (s\<lparr>st_pce := (st_pce s)\<lparr>pce_sub_tbl := ?H\<rparr>, st_hw := st_hw s\<rparr>))"
    by (rule winv_store [OF w, where d = False]) (use sok f k ex ky fo wf in \<open>simp_all add: st_ok_def\<close>)
  then show ?thesis by simp
qed

lemma triple_dip:
  assumes E: "pce_engine hwstep tbl keep S" and k: "fkind f = kind" and f: "f \<notin> D" "f \<in> {FDMsb, FDLsb, FSMsb}"
    and W: "W f = Some (inj e)" and ex: "\<not> exact kind"
    and u: "\<And>t F. upd t F = fput f t F" and l: "\<And>H. look H = get_tbl_index (tab H) e (tsize kind)"
    and ky: "\<And>t F. pack_key n (fput f t F) = pack_key n F"
  shows "triple (winv tbl keep S W Q fresh idx s0 D n) (phase_dip look (wr hwstep e) upd idx)
    (winv tbl keep S W Q fresh idx s0 (insert f D) n) (werrW tbl keep S W fresh idx s0)"
proof (rule tripleI)
  fix s assume w: "winv tbl keep S W Q fresh idx s0 D n s"
  have ue: "upd = fput f" by (intro ext) (rule u)
  let ?Q = "winv tbl keep S W Q fresh idx s0 (insert f D) n" and ?H = "pce_sub_tbl (st_pce s)"
  let ?c = "phase_dip look (wr hwstep e) upd idx"
  have ts: "tsize kind \<le> 0xFF" using tsize_le [of kind] by simp
  have "\<exists>s'. ?c s = Some (None, s') \<and> ?Q s'"
  proof (rule get_tbl_index_cases [of "tsize kind" "tab ?H" e], goal_cases)
    case (1 i)
    then have "?c s = Some (None, upd_fet idx (fput f (int i)) s)"
      using ts by (simp add: phase_dip_def l ue find_or_write_def call_sub_same modify_def)
    then show ?case using winv_share [OF w k f(1) W ex ky 1(1,2)] by blast
  next
    case miss: 2
    show ?case
    proof (rule wr_in_phase [OF E w k f(1) W ky], goal_cases)
      case 1
      then have "?c s = Some (None, upd_fet idx (fput f (-1)) s)"
        using miss by (simp add: phase_dip_def l ue find_or_write_def call_sub_same modify_def)
      moreover have "table_full (fkind f) ?H" using 1(2) by (simp add: table_full_def k)
      ultimately show ?case using winv_store_any [OF w f(1) ky fget_fput_neg] f(2) by blast
    next
      case (2 i H h)
      then show ?case using miss
        by (auto simp: phase_dip_def l ue find_or_write_def call_sub_def modify_def)
    qed
  qed
  then show "(\<exists>s'. ?c s = Some (None, s') \<and> ?Q s') \<or>
    (\<exists>r s'. ?c s = Some (Some r, s') \<and> werrW tbl keep S W fresh idx s0 r s')" by blast
qed

lemma triple_sip:
  assumes E: "pce_engine hwstep tbl keep S" and k: "fkind f = kind" and f: "f \<notin> D"
    and W: "W f = Some (inj e)" and ex: "\<not> exact kind"
    and u: "\<And>t F. upd t F = fput f t F" and l: "\<And>H. look H = get_tbl_index (tab H) e (tsize kind)"
    and ky: "\<And>t F. pack_key n (fput f t F) = pack_key n F"
  shows "triple (winv tbl keep S W Q fresh idx s0 D n) (phase_sip look (wr hwstep e) upd idx)
    (winv tbl keep S W Q fresh idx s0 (insert f D) n) (werrW tbl keep S W fresh idx s0)"
proof (rule tripleI)
  fix s assume w: "winv tbl keep S W Q fresh idx s0 D n s"
  have ue: "upd = fput f" by (intro ext) (rule u)
  let ?Q = "winv tbl keep S W Q fresh idx s0 (insert f D) n" and ?H = "pce_sub_tbl (st_pce s)"
  let ?c = "phase_sip look (wr hwstep e) upd idx"
  have ts: "tsize kind \<le> 0xFF" using tsize_le [of kind] by simp
  show "(\<exists>s'. ?c s = Some (None, s') \<and> ?Q s') \<or>
    (\<exists>r s'. ?c s = Some (Some r, s') \<and> werrW tbl keep S W fresh idx s0 r s')"
  proof (rule get_tbl_index_cases [of "tsize kind" "tab ?H" e], goal_cases)
    case (1 i)
    then have "?c s = Some (None, upd_fet idx (fput f (int i)) s)"
      using ts by (simp add: phase_sip_def l ue find_or_write_def call_sub_same modify_def)
    then show ?case using winv_share [OF w k f W ex ky 1(1,2)] by blast
  next
    case miss: 2
    show ?case
    proof (rule wr_in_phase [OF E w k f W ky], goal_cases)
      case 1
      then have "?c s = Some (Some (-1), s)"
        using miss by (simp add: phase_sip_def l find_or_write_def call_sub_same return_with_def)
      moreover have "table_full (fkind f) (pce_sub_tbl (st_pce s))" using 1(2) by (simp add: table_full_def k)
      ultimately show ?case using winv_werr [OF w, of "-1"] \<open>W f = Some (inj e)\<close> by (auto simp: werrW_def)
    next
      case (2 i H h)
      then show ?case using miss
        by (auto simp: phase_sip_def l ue find_or_write_def call_sub_def modify_def)
    qed
  qed
qed

end

section \<open>The VLAN of a rule\<close>

text \<open>The row of the active VLAN table that a search finds: the first valid one with the id.\<close>

definition row_key0 :: "pce_img \<Rightarrow> u16" where
  "row_key0 m = i_key m ! 0"

definition vlan_row :: "(nat \<Rightarrow> nat \<Rightarrow> pce_img) \<Rightarrow> u16 \<Rightarrow> nat option" where
  "vlan_row T vid = find (\<lambda>i. i_valid (T 1 i) = 1 \<and> row_key0 (T 1 i) = vid) [0..<IFX_PCE_VLAN_ACT_TBL_SIZE]"

lemma find_vlan_rows_spec:
  assumes E: "pce_engine hwstep tbl keep S" and h: "idle h" and rng: "\<forall>i\<in>set is. i < 64"
  obtains h' where "find_vlan_rows hwstep vid is h = Some (map_option (\<lambda>i. (i, i_val (driver_tbl tbl h 1 i) ! 0))
      (find (\<lambda>i. i_valid (driver_tbl tbl h 1 i) = 1 \<and> row_key0 (driver_tbl tbl h 1 i) = vid) is), h')"
    "idle h'" "driver_tbl tbl h' = driver_tbl tbl h" "hw_frame tbl S h h'"
  using h rng
proof (induction "is" arbitrary: h thesis)
  case Nil
  show ?case by (rule Nil(1) [of h]) (simp_all add: Nil)
next
  case (Cons i "is")
  let ?m = "driver_tbl tbl h 1 i"
  let ?e = "zero_entry\<lparr>e_table := PCE_ACTVLAN_INDEX, e_index := of_nat i\<rparr>"
  have i: "i < 64" and rng: "\<forall>i\<in>set is. i < 64" using Cons.prems(3) by auto
  have t: "unat (e_table ?e) = 1" and x: "unat (e_index ?e) = i" and n: "i < pce_table_size 1"
    using i by (simp_all add: unat_of_nat_small pce_table_size_def)
  obtain h1 where h1: "ifx_ethsw_xwayflow_pce_table_read hwstep ?e h = Some (with_img ?m ?e, h1)" "idle h1"
    "driver_tbl tbl h1 = driver_tbl tbl h" "length (i_key ?m) = 9"
    "\<And>off. off \<in> S \<Longrightarrow> \<not> in_window off \<Longrightarrow> regs h1 off = regs h off"
    using pce_engine.table_read_spec [OF E Cons.prems(2) t x _ _ n] by auto
  have fr: "hw_frame tbl S h h1" using h1(3,5) by (simp add: hw_frame_def)
  have k0: "e_key (with_img ?m ?e) ! 0 = row_key0 ?m" "e_valid (with_img ?m ?e) = i_valid ?m"
    "e_val (with_img ?m ?e) = i_val ?m"
    using h1(4) by (simp_all add: with_img_def row_key0_def nth_append)
  show ?case
  proof (cases "i_valid ?m = 1 \<and> row_key0 ?m = vid")
    case True
    show ?thesis by (rule Cons.prems(1) [of h1]) (use True h1 k0 fr in simp_all)
  next
    case False
    obtain h2 where h2: "find_vlan_rows hwstep vid is h1 = Some (map_option (\<lambda>i. (i, i_val (driver_tbl tbl h1 1 i) ! 0))
        (find (\<lambda>i. i_valid (driver_tbl tbl h1 1 i) = 1 \<and> row_key0 (driver_tbl tbl h1 1 i) = vid) is), h2)"
      "idle h2" "driver_tbl tbl h2 = driver_tbl tbl h1" "hw_frame tbl S h1 h2"
      using Cons.IH [OF _ h1(2) rng] by blast
    show ?thesis
      by (rule Cons.prems(1) [of h2]) (use False h1 h2 k0 hw_frame_trans [OF fr] in auto)
  qed
qed

text \<open>The row index of the VLAN, or \<open>0x7F\<close>; the table has a filter id in the low byte of its first value.\<close>

definition vlan_result :: "(nat \<Rightarrow> nat \<Rightarrow> pce_img) \<Rightarrow> u16 \<Rightarrow> int \<times> u32" where
  "vlan_result T vid = (case vlan_row T vid of None \<Rightarrow> (0x7F, 0)
     | Some i \<Rightarrow> (int i, ucast (i_val (T 1 i) ! 0) AND 0xFF))"

lemma vlan_result_range: "0 \<le> fst (vlan_result T vid) \<and> (fst (vlan_result T vid) = 0x7F \<or> fst (vlan_result T vid) < 64)"
  by (auto simp: vlan_result_def vlan_row_def find_upt_Some tbl_sizes split: option.splits)

lemma find_vlan_id_fd_spec:
  assumes E: "pce_engine hwstep tbl keep S" and I: "sub_inv tbl keep (H, h)"
  obtains v h' where "ifx_pce_tm_find_vlan_id_fd_index hwstep vid (H, h)
      = Some (vlan_result (driver_tbl tbl h) vid, (H\<lparr>vlan_act_tbl_cnt := v\<rparr>, h'))"
    "ifx_pce_tm_find_vlan_id_index hwstep vid (H, h)
      = Some (fst (vlan_result (driver_tbl tbl h) vid), (H\<lparr>vlan_act_tbl_cnt := v\<rparr>, h'))"
    "sub_inv tbl keep (H\<lparr>vlan_act_tbl_cnt := v\<rparr>, h')" "hw_frame tbl S h h'"
    "driver_tbl tbl h' = driver_tbl tbl h"
proof -
  let ?T = "driver_tbl tbl h"
  from I have i: "idle h" and tok: "tables_ok H" and m: "mirrored keep ?T H" by (simp_all add: sub_inv_def)
  have "\<forall>i\<in>set [0..<IFX_PCE_VLAN_ACT_TBL_SIZE]. i < 64" by (simp add: tbl_sizes)
  from find_vlan_rows_spec [OF E i this, of vid] obtain h' where
    h': "find_vlan_rows hwstep vid [0..<IFX_PCE_VLAN_ACT_TBL_SIZE] h
        = Some (map_option (\<lambda>i. (i, i_val (?T 1 i) ! 0)) (vlan_row ?T vid), h')"
    "idle h'" "driver_tbl tbl h' = ?T" "hw_frame tbl S h h'"
    unfolding vlan_row_def by blast
  have sub: "sub_inv tbl keep (H\<lparr>vlan_act_tbl_cnt := v\<rparr>, h')" if "length v = IFX_PCE_VLAN_ACT_TBL_SIZE" for v
    using sub_inv_vlan [of tbl keep H h' v] that h'(2,3) tok m by (simp add: sub_inv_def)
  have len: "length (vlan_act_tbl_cnt H) = IFX_PCE_VLAN_ACT_TBL_SIZE" using tok by (simp add: tables_ok_def)
  show ?thesis
  proof (cases "vlan_row ?T vid")
    case None
    show ?thesis
      by (rule that [of "vlan_act_tbl_cnt H" h'])
        (use None h' sub [OF len] in \<open>simp_all add: ifx_pce_tm_find_vlan_id_fd_index_def ifx_pce_tm_find_vlan_id_index_def vlan_result_def\<close>)
  next
    case (Some i)
    show ?thesis
      by (rule that [of "(vlan_act_tbl_cnt H)[i := vlan_act_tbl_cnt H ! i + 1]" h'])
        (use Some h' len sub in \<open>simp_all add: ifx_pce_tm_find_vlan_id_fd_index_def ifx_pce_tm_find_vlan_id_index_def vlan_result_def\<close>)
  qed
qed

lemma tables_ok_vlan:
  "tables_ok H \<Longrightarrow> length v = IFX_PCE_VLAN_ACT_TBL_SIZE \<Longrightarrow> tables_ok (H\<lparr>vlan_act_tbl_cnt := v\<rparr>)"
  by (simp add: tables_ok_def)

lemma holds_vlan [simp]: "holds (H\<lparr>vlan_act_tbl_cnt := v\<rparr>) k i e = holds H k i e"
  by (simp add: holds_def)

lemma keeps_vlan [simp]: "keeps H' (H\<lparr>vlan_act_tbl_cnt := v\<rparr>) = keeps H' H"
  by (simp add: keeps_def)

lemma table_full_vlan [simp]: "table_full k (H\<lparr>vlan_act_tbl_cnt := v\<rparr>) = table_full k H"
  by (cases k) (simp_all add: table_full_def)

lemma field_ok_vlan [simp]: "field_ok W f F (H\<lparr>vlan_act_tbl_cnt := v\<rparr>) = field_ok W f F H"
  by (simp add: field_ok_def split: option.splits)

text \<open>A use count of the VLAN table changes nothing the invariant speaks of.\<close>

lemma winv_vlan_cnt:
  assumes w: "winv tbl keep S W Q fresh idx s0 D n s"
    and sub: "sub_inv tbl keep ((pce_sub_tbl (st_pce s))\<lparr>vlan_act_tbl_cnt := v\<rparr>, h')"
    and fr: "hw_frame tbl S (st_hw s) h'"
  shows "winv tbl keep S W Q fresh idx s0 D n
    (s\<lparr>st_pce := (st_pce s)\<lparr>pce_sub_tbl := (pce_sub_tbl (st_pce s))\<lparr>vlan_act_tbl_cnt := v\<rparr>\<rparr>, st_hw := h'\<rparr>)"
    (is "winv tbl keep S W Q fresh idx s0 D n ?s")
proof -
  from w have ok: "st_ok tbl keep s" and c: "counted_at D idx (st_pce s)" and wf: "wframe tbl S idx s0 s"
    by (simp_all add: winv_def)
  have "st_ok tbl keep ?s" by (rule st_ok_sub [OF ok sub])
  moreover have "counted_at D idx (st_pce ?s)" using counted_at_vlan [OF c, of v] by simp
  moreover have "wframe tbl S idx s0 ?s"
    using wf hw_frame_trans [OF _ fr] by (simp add: wframe_def other_rules_same_def)
  moreover have "fet idx ?s = fet idx s" by (simp add: fet_def)
  ultimately show ?thesis using w by (simp add: winv_def)
qed

section \<open>The pattern as a whole\<close>

text \<open>The fields kept in the row itself; \<open>t\<close> is the VLAN row the search finds.\<close>

definition plain :: "IFX_FLOW_PCE_pattern \<Rightarrow> int \<Rightarrow> nat \<Rightarrow> IFX_PCE_TBL \<Rightarrow> bool" where
  "plain p t n F \<longleftrightarrow>
     (0 < n \<longrightarrow> port_id F = (if bPortIdEnable p then nPortId p else 0xFF)) \<and>
     (1 < n \<longrightarrow> dscp F = (if bDSCP_Enable p then ucast (nDSCP p) else 0x7F)) \<and>
     (2 < n \<longrightarrow> pcp F = (if bPCP_Enable p then ucast (nPCP p) else 0xF)) \<and>
     (13 < n \<longrightarrow> vlan_idx F = of_int t)"

lemma fput_plain [simp]:
  "port_id (fput f t F) = port_id F" "dscp (fput f t F) = dscp F" "pcp (fput f t F) = pcp F"
  "vlan_idx (fput f t F) = vlan_idx F"
  by (cases f; simp)+

lemma plain_fput: "plain p t n (fput f i F) = plain p t n F"
  by (simp add: plain_def)

lemma plain_Suc: "plain p t n F \<Longrightarrow> 2 < n \<Longrightarrow> n \<noteq> 13 \<Longrightarrow> plain p t (Suc n) F"
  by (auto simp: plain_def less_Suc_eq)

abbreviation pinv where
  "pinv tbl keep S g p t fresh idx s0 \<equiv> winv tbl keep S (want g p) (plain p t) fresh idx s0"

lemma triple_phase:
  assumes c: "triple (pinv tbl keep S g p t fresh idx s0 D n) c (pinv tbl keep S g p t fresh idx s0 D' n) R"
    and ky: "\<And>F. (pack_key n F)[j := v F (pack_key n F ! j)] = pack_key m F"
    and n: "2 < n" "n \<noteq> 13" "m = Suc n"
  shows "triple (pinv tbl keep S g p t fresh idx s0 D n) (seqs [c, modify (\<lambda>s. upd_key j (v (fet idx s)) s)])
    (pinv tbl keep S g p t fresh idx s0 D' m) R"
proof (rule triple_Cons [OF c], rule triple_Cons [OF _ triple_Nil])
  have "triple (\<lambda>s. pinv tbl keep S g p t fresh idx s0 D' n s \<and> True) (modify (\<lambda>s. upd_key j (v (fet idx s)) s))
    (pinv tbl keep S g p t fresh idx s0 D' m) R"
    by (rule triple_key [where X = "\<lambda>_. True" and v = v])
      (simp_all add: ky plain_Suc n plain_fput)
  then show "triple (pinv tbl keep S g p t fresh idx s0 D' n) (modify (\<lambda>s. upd_key j (v (fet idx s)) s))
    (pinv tbl keep S g p t fresh idx s0 D' m) R" by simp
qed

lemmas key_simps = pack_key_def kp_def

lemma triple_wr_port:
  "triple (pinv tbl keep S g p t fresh idx s0 {} 0) (wr_port idx p) (pinv tbl keep S g p t fresh idx s0 {} 1) R"
  unfolding wr_port_def
proof (rule triple_Cons, rule triple_row [where X = "\<lambda>F. port_id F = (if bPortIdEnable p then nPortId p else 0xFF)"])
  fix f F assume "f \<notin> ({} :: ffield set)"
  show "fget f (F\<lparr>port_id := if bPortIdEnable p then nPortId p else 0xFF\<rparr>) = fget f F \<or>
    fget f (F\<lparr>port_id := if bPortIdEnable p then nPortId p else 0xFF\<rparr>) = fany f" by (cases f) simp_all
next
  show "triple (\<lambda>s. pinv tbl keep S g p t fresh idx s0 {} 0 s \<and> port_id (fet idx s) = (if bPortIdEnable p then nPortId p else 0xFF))
     (seqs [modify (\<lambda>s. upd_key 0 (\<lambda>_. ucast (port_id (fet idx s))) s)]) (pinv tbl keep S g p t fresh idx s0 {} 1) R"
    by (rule triple_Cons [OF _ triple_Nil], rule triple_key [where v = "\<lambda>F _. ucast (port_id F)"])
      (auto simp: key_simps plain_def plain_fput)
qed (simp_all add: key_simps plain_def)

lemma triple_wr_dscp:
  "triple (pinv tbl keep S g p t fresh idx s0 {} 1) (wr_dscp idx p) (pinv tbl keep S g p t fresh idx s0 {} 2) R"
  unfolding wr_dscp_def
proof (rule triple_Cons, rule triple_row [where X = "\<lambda>F. dscp F = (if bDSCP_Enable p then ucast (nDSCP p) else 0x7F)"])
  fix f F assume "f \<notin> ({} :: ffield set)"
  show "fget f (F\<lparr>dscp := if bDSCP_Enable p then ucast (nDSCP p) else 0x7F\<rparr>) = fget f F \<or>
    fget f (F\<lparr>dscp := if bDSCP_Enable p then ucast (nDSCP p) else 0x7F\<rparr>) = fany f" by (cases f) simp_all
next
  show "triple (\<lambda>s. pinv tbl keep S g p t fresh idx s0 {} 1 s \<and> dscp (fet idx s) = (if bDSCP_Enable p then ucast (nDSCP p) else 0x7F))
     (seqs [modify (\<lambda>s. upd_key 6 (\<lambda>k. k OR push_bit 8 (ucast (dscp (fet idx s)))) s)]) (pinv tbl keep S g p t fresh idx s0 {} 2) R"
    by (rule triple_Cons [OF _ triple_Nil], rule triple_key [where v = "\<lambda>F k. k OR push_bit 8 (ucast (dscp F))"])
      (auto simp: key_simps plain_def plain_fput)
qed (simp_all add: key_simps plain_def)

lemma triple_wr_pcp:
  "triple (pinv tbl keep S g p t fresh idx s0 {} 2) (wr_pcp idx p) (pinv tbl keep S g p t fresh idx s0 {} 3) R"
  unfolding wr_pcp_def
proof (rule triple_Cons, rule triple_row [where X = "\<lambda>F. pcp F = (if bPCP_Enable p then ucast (nPCP p) else 0xF)"])
  fix f F assume "f \<notin> ({} :: ffield set)"
  show "fget f (F\<lparr>pcp := if bPCP_Enable p then ucast (nPCP p) else 0xF\<rparr>) = fget f F \<or>
    fget f (F\<lparr>pcp := if bPCP_Enable p then ucast (nPCP p) else 0xF\<rparr>) = fany f" by (cases f) simp_all
next
  show "triple (\<lambda>s. pinv tbl keep S g p t fresh idx s0 {} 2 s \<and> pcp (fet idx s) = (if bPCP_Enable p then ucast (nPCP p) else 0xF))
     (seqs [modify (\<lambda>s. upd_key 6 (\<lambda>k. k OR ucast (pcp (fet idx s))) s)]) (pinv tbl keep S g p t fresh idx s0 {} 3) R"
    by (rule triple_Cons [OF _ triple_Nil], rule triple_key [where v = "\<lambda>F k. k OR ucast (pcp F)"])
      (auto simp: key_simps plain_def plain_fput)
qed (simp_all add: key_simps plain_def)

lemma triple_wr_pkt_lng:
  assumes E: "pce_engine hwstep tbl keep S" and f: "FPkt \<notin> D"
  shows "triple (pinv tbl keep S g p t fresh idx s0 D 3) (wr_pkt_lng hwstep idx p)
    (pinv tbl keep S g p t fresh idx s0 (insert FPkt D) 4) (werrW tbl keep S (want g p) fresh idx s0)"
  unfolding wr_pkt_lng_def
  by (rule triple_phase [where v = "\<lambda>F k. ucast (pkt_lng_idx F)" and n = 3],
      rule pkg.triple_index [OF E, where f = FPkt]) (simp_all add: key_simps f)

lemma triple_wr_dst_mac:
  assumes E: "pce_engine hwstep tbl keep S" and f: "FDMac \<notin> D"
  shows "triple (pinv tbl keep S g p t fresh idx s0 D 4) (wr_dst_mac hwstep idx p)
    (pinv tbl keep S g p t fresh idx s0 (insert FDMac D) 5) (werrW tbl keep S (want g p) fresh idx s0)"
  unfolding wr_dst_mac_def
  by (rule triple_phase [where v = "\<lambda>F k. k OR push_bit 8 (ucast (dst_mac_addr_idx F))" and n = 4],
      rule macs.triple_index [OF E, where f = FDMac]) (simp_all add: key_simps f)

lemma triple_wr_src_mac:
  assumes E: "pce_engine hwstep tbl keep S" and f: "FSMac \<notin> D"
  shows "triple (pinv tbl keep S g p t fresh idx s0 D 5) (wr_src_mac hwstep idx p)
    (pinv tbl keep S g p t fresh idx s0 (insert FSMac D) 6) (werrW tbl keep S (want g p) fresh idx s0)"
  unfolding wr_src_mac_def
  by (rule triple_phase [where v = "\<lambda>F k. k OR ucast (src_mac_addr_idx F)" and n = 5],
      rule macs.triple_index [OF E, where f = FSMac]) (simp_all add: key_simps f)

lemma triple_wr_dst_appl:
  assumes E: "pce_engine hwstep tbl keep S" and f: "FDAppl \<notin> D"
  shows "triple (pinv tbl keep S g p t fresh idx s0 D 6) (wr_dst_appl hwstep g idx p)
    (pinv tbl keep S g p t fresh idx s0 (insert FDAppl D) 7) (werrW tbl keep S (want g p) fresh idx s0)"
  unfolding wr_dst_appl_def
  by (rule triple_phase [where v = "\<lambda>F k. k OR ucast (dst_appl_fld_idx F)" and n = 6],
      rule appl.triple_index [OF E, where f = FDAppl]) (simp_all add: key_simps f)

lemma triple_wr_src_appl:
  assumes E: "pce_engine hwstep tbl keep S" and f: "FSAppl \<notin> D"
  shows "triple (pinv tbl keep S g p t fresh idx s0 D 7) (wr_src_appl hwstep g idx p)
    (pinv tbl keep S g p t fresh idx s0 (insert FSAppl D) 8) (werrW tbl keep S (want g p) fresh idx s0)"
  unfolding wr_src_appl_def
  by (rule triple_phase [where v = "\<lambda>F k. k OR push_bit 8 (ucast (src_appl_fld_idx F))" and n = 7],
      rule appl.triple_index [OF E, where f = FSAppl]) (simp_all add: key_simps f)

lemma upd_key_twice:
  "upd_key j (\<lambda>k. k OR w (fet idx (upd_key j (\<lambda>k. k OR v) s))) (upd_key j (\<lambda>k. k OR v) s)
   = upd_key j (\<lambda>k. (k OR v) OR w (fet idx s)) s"
  by (cases "j < length (e_key (st_ent s))") (simp_all add: upd_key_def fet_def list_update_beyond)

lemma triple_wr_dip:
  assumes E: "pce_engine hwstep tbl keep S" and f: "FDMsb \<notin> D" "FDLsb \<notin> D"
  shows "triple (pinv tbl keep S g p t fresh idx s0 D 8) (wr_dip hwstep g idx p)
    (pinv tbl keep S g p t fresh idx s0 (insert FDLsb (insert FDMsb D)) 9) (werrW tbl keep S (want g p) fresh idx s0)"
proof -
  let ?I = "\<lambda>D. pinv tbl keep S g p t fresh idx s0 D 8" and ?R = "werrW tbl keep S (want g p) fresh idx s0"
  let ?X = "\<lambda>F. fget FDMsb F = fany FDMsb \<and> fget FDLsb F = fany FDLsb"
  have 1: "triple (?I D) (modify (upd_fet idx (\<lambda>F. F\<lparr>dip_msb_idx := 0xFF, dip_lsb_idx := 0xFF\<rparr>)))
    (\<lambda>s. ?I D s \<and> ?X (fet idx s)) ?R"
  proof (rule triple_row)
    fix h F assume "h \<in> D"
    then show "fget h (F\<lparr>dip_msb_idx := 0xFF, dip_lsb_idx := 0xFF\<rparr>) = fget h F" using f by (cases h) auto
  next
    fix h F
    show "fget h (F\<lparr>dip_msb_idx := 0xFF, dip_lsb_idx := 0xFF\<rparr>) = fget h F \<or>
      fget h (F\<lparr>dip_msb_idx := 0xFF, dip_lsb_idx := 0xFF\<rparr>) = fany h" by (cases h) simp_all
  qed (simp_all add: key_simps plain_def)
  let ?J = "\<lambda>s. ?I D s \<and> ?X (fet idx s)" and ?D = "insert FDLsb (insert FDMsb D)"
  note lk = find_software_msb_tbl_entry_def find_software_tbl_entry_def
  let ?mid = "case eDstIP_Select p of
        IP_V6 \<Rightarrow> seqs
          [let e = msb_row (nDstIP p) (nDstIP_Mask p) in
           phase_dip (\<lambda>H. find_software_msb_tbl_entry H e) (ifx_pce_tm_ip_dasa_msb_tbl_write hwstep e)
             (\<lambda>t F. F\<lparr>dip_msb_idx := of_int t\<rparr>) idx,
           let e = lsb_row (nDstIP p) (nDstIP_Mask p) in
           phase_dip (\<lambda>H. find_software_tbl_entry H e) (ifx_pce_tm_ip_dasa_lsb_tbl_write hwstep e)
             (\<lambda>t F. F\<lparr>dip_lsb_idx := of_int t\<rparr>) idx]
      | IP_V4 \<Rightarrow>
          let e = v4_row (nDstIP p) (nDstIP_Mask p) (g_ip_dst g) in
          phase_dip (\<lambda>H. find_software_tbl_entry H e) (ifx_pce_tm_ip_dasa_lsb_tbl_write hwstep e)
             (\<lambda>t F. F\<lparr>dip_lsb_idx := of_int t\<rparr>) idx
      | IP_DISABLED \<Rightarrow> skip"
  have 2: "triple ?J ?mid (?I ?D) ?R"
  proof (cases "eDstIP_Select p")
    case IP_DISABLED
    have "triple ?J skip ?J ?R" by (rule triple_skip)
    then have "triple ?J skip (?I ?D) ?R"
      by (rule triple_weaken) (use IP_DISABLED in \<open>auto intro!: winv_add_any\<close>)
    then show ?thesis by (simp add: IP_DISABLED)
  next
    case IP_V4
    let ?e = "v4_row (nDstIP p) (nDstIP_Mask p) (g_ip_dst g)"
    have "triple (?I (insert FDMsb D)) (phase_dip (\<lambda>H. find_software_tbl_entry H ?e)
        (ifx_pce_tm_ip_dasa_lsb_tbl_write hwstep ?e) (\<lambda>t F. F\<lparr>dip_lsb_idx := of_int t\<rparr>) idx) (?I ?D) ?R"
      by (rule ipl.triple_dip [OF E]) (use f IP_V4 in \<open>simp_all add: lk exact_def key_simps\<close>)
    then have "triple ?J (phase_dip (\<lambda>H. find_software_tbl_entry H ?e)
        (ifx_pce_tm_ip_dasa_lsb_tbl_write hwstep ?e) (\<lambda>t F. F\<lparr>dip_lsb_idx := of_int t\<rparr>) idx) (?I ?D) ?R"
      by (rule triple_weaken) (use IP_V4 in \<open>auto intro!: winv_add_any\<close>)
    then show ?thesis by (simp add: IP_V4 Let_def)
  next
    case IP_V6
    let ?e = "msb_row (nDstIP p) (nDstIP_Mask p)" and ?l = "lsb_row (nDstIP p) (nDstIP_Mask p)"
    have "triple (?I D) (phase_dip (\<lambda>H. find_software_msb_tbl_entry H ?e)
        (ifx_pce_tm_ip_dasa_msb_tbl_write hwstep ?e) (\<lambda>t F. F\<lparr>dip_msb_idx := of_int t\<rparr>) idx)
        (?I (insert FDMsb D)) ?R"
      by (rule ipm.triple_dip [OF E]) (use f IP_V6 in \<open>simp_all add: lk exact_def key_simps\<close>)
    moreover have "triple (?I (insert FDMsb D)) (phase_dip (\<lambda>H. find_software_tbl_entry H ?l)
        (ifx_pce_tm_ip_dasa_lsb_tbl_write hwstep ?l) (\<lambda>t F. F\<lparr>dip_lsb_idx := of_int t\<rparr>) idx) (?I ?D) ?R"
      by (rule ipl.triple_dip [OF E]) (use f IP_V6 in \<open>simp_all add: lk exact_def key_simps\<close>)
    ultimately have "triple (?I D) ?mid (?I ?D) ?R"
      unfolding IP_V6 Let_def IFX_FLOW_PCE_IP.case
      by - (rule triple_Cons, assumption, rule triple_Cons, assumption, rule triple_Nil)
    then show ?thesis by (rule triple_weaken) simp_all
  qed
  let ?m2 = "\<lambda>s. upd_key 3 (\<lambda>k. k OR ucast (dip_lsb_idx (fet idx s))) (upd_key 3 (\<lambda>k. k OR push_bit 8 (ucast (dip_msb_idx (fet idx s)))) s)"
  have "triple (?I ?D) (seqs [skip, modify (\<lambda>s. upd_key 3 (\<lambda>k. (k OR push_bit 8 (ucast (dip_msb_idx (fet idx s)))) OR ucast (dip_lsb_idx (fet idx s))) s)])
      (pinv tbl keep S g p t fresh idx s0 ?D 9) ?R"
    by (rule triple_phase [where v = "\<lambda>F k. (k OR push_bit 8 (ucast (dip_msb_idx F))) OR ucast (dip_lsb_idx F)" and n = 8])
      (simp_all add: triple_skip key_simps)
  then have 3: "triple (?I ?D) (seqs [modify (\<lambda>s. upd_key 3 (\<lambda>k. k OR push_bit 8 (ucast (dip_msb_idx (fet idx s)))) s),
     modify (\<lambda>s. upd_key 3 (\<lambda>k. k OR ucast (dip_lsb_idx (fet idx s))) s)])
      (pinv tbl keep S g p t fresh idx s0 ?D 9) ?R"
    by (simp add: triple_def seq_def skip_def modify_def upd_key_twice [where w = "\<lambda>F. ucast (dip_lsb_idx F)"])
  show ?thesis
    unfolding wr_dip_def by (rule triple_Cons [OF 1], rule triple_Cons [OF 2 3])
qed

lemma triple_wr_sip:
  assumes E: "pce_engine hwstep tbl keep S" and f: "FSMsb \<notin> D" "FSLsb \<notin> D"
  shows "triple (pinv tbl keep S g p t fresh idx s0 D 9) (wr_sip hwstep g idx p)
    (pinv tbl keep S g p t fresh idx s0 (insert FSLsb (insert FSMsb D)) 10) (werrW tbl keep S (want g p) fresh idx s0)"
proof -
  let ?I = "\<lambda>D. pinv tbl keep S g p t fresh idx s0 D 9" and ?R = "werrW tbl keep S (want g p) fresh idx s0"
  let ?X = "\<lambda>F. fget FSMsb F = fany FSMsb \<and> fget FSLsb F = fany FSLsb"
  have 1: "triple (?I D) (modify (upd_fet idx (\<lambda>F. F\<lparr>sip_msb_idx := 0xFF, sip_lsb_idx := 0xFF\<rparr>)))
    (\<lambda>s. ?I D s \<and> ?X (fet idx s)) ?R"
  proof (rule triple_row)
    fix h F assume "h \<in> D"
    then show "fget h (F\<lparr>sip_msb_idx := 0xFF, sip_lsb_idx := 0xFF\<rparr>) = fget h F" using f by (cases h) auto
  next
    fix h F
    show "fget h (F\<lparr>sip_msb_idx := 0xFF, sip_lsb_idx := 0xFF\<rparr>) = fget h F \<or>
      fget h (F\<lparr>sip_msb_idx := 0xFF, sip_lsb_idx := 0xFF\<rparr>) = fany h" by (cases h) simp_all
  qed (simp_all add: key_simps plain_def)
  let ?J = "\<lambda>s. ?I D s \<and> ?X (fet idx s)" and ?D = "insert FSLsb (insert FSMsb D)"
  note lk = find_software_msb_tbl_entry_def find_software_tbl_entry_def
  let ?mid = "case eSrcIP_Select p of
        IP_V6 \<Rightarrow> seqs
          [let e = msb_row (nSrcIP p) (nSrcIP_Mask p) in
           phase_dip (\<lambda>H. find_software_msb_tbl_entry H e) (ifx_pce_tm_ip_dasa_msb_tbl_write hwstep e)
             (\<lambda>t F. F\<lparr>sip_msb_idx := of_int t\<rparr>) idx,
           let e = lsb_row (nSrcIP p) (nSrcIP_Mask p) in
           phase_sip (\<lambda>H. find_software_tbl_entry H e) (ifx_pce_tm_ip_dasa_lsb_tbl_write hwstep e)
             (\<lambda>t F. F\<lparr>sip_lsb_idx := of_int t\<rparr>) idx]
      | IP_V4 \<Rightarrow>
          let e = v4_row (nSrcIP p) (nSrcIP_Mask p) (g_ip_src g) in
          phase_sip (\<lambda>H. find_software_tbl_entry H e) (ifx_pce_tm_ip_dasa_lsb_tbl_write hwstep e)
             (\<lambda>t F. F\<lparr>sip_lsb_idx := of_int t\<rparr>) idx
      | IP_DISABLED \<Rightarrow> skip"
  have 2: "triple ?J ?mid (?I ?D) ?R"
  proof (cases "eSrcIP_Select p")
    case IP_DISABLED
    have "triple ?J skip ?J ?R" by (rule triple_skip)
    then have "triple ?J skip (?I ?D) ?R"
      by (rule triple_weaken) (use IP_DISABLED in \<open>auto intro!: winv_add_any\<close>)
    then show ?thesis by (simp add: IP_DISABLED)
  next
    case IP_V4
    let ?e = "v4_row (nSrcIP p) (nSrcIP_Mask p) (g_ip_src g)"
    have "triple (?I (insert FSMsb D)) (phase_sip (\<lambda>H. find_software_tbl_entry H ?e)
        (ifx_pce_tm_ip_dasa_lsb_tbl_write hwstep ?e) (\<lambda>t F. F\<lparr>sip_lsb_idx := of_int t\<rparr>) idx) (?I ?D) ?R"
      by (rule ipl.triple_sip [OF E]) (use f IP_V4 in \<open>simp_all add: lk exact_def key_simps\<close>)
    then have "triple ?J (phase_sip (\<lambda>H. find_software_tbl_entry H ?e)
        (ifx_pce_tm_ip_dasa_lsb_tbl_write hwstep ?e) (\<lambda>t F. F\<lparr>sip_lsb_idx := of_int t\<rparr>) idx) (?I ?D) ?R"
      by (rule triple_weaken) (use IP_V4 in \<open>auto intro!: winv_add_any\<close>)
    then show ?thesis by (simp add: IP_V4 Let_def)
  next
    case IP_V6
    let ?e = "msb_row (nSrcIP p) (nSrcIP_Mask p)" and ?l = "lsb_row (nSrcIP p) (nSrcIP_Mask p)"
    have "triple (?I D) (phase_dip (\<lambda>H. find_software_msb_tbl_entry H ?e)
        (ifx_pce_tm_ip_dasa_msb_tbl_write hwstep ?e) (\<lambda>t F. F\<lparr>sip_msb_idx := of_int t\<rparr>) idx)
        (?I (insert FSMsb D)) ?R"
      by (rule ipm.triple_dip [OF E]) (use f IP_V6 in \<open>simp_all add: lk exact_def key_simps\<close>)
    moreover have "triple (?I (insert FSMsb D)) (phase_sip (\<lambda>H. find_software_tbl_entry H ?l)
        (ifx_pce_tm_ip_dasa_lsb_tbl_write hwstep ?l) (\<lambda>t F. F\<lparr>sip_lsb_idx := of_int t\<rparr>) idx) (?I ?D) ?R"
      by (rule ipl.triple_sip [OF E]) (use f IP_V6 in \<open>simp_all add: lk exact_def key_simps\<close>)
    ultimately have "triple (?I D) ?mid (?I ?D) ?R"
      unfolding IP_V6 Let_def IFX_FLOW_PCE_IP.case
      by - (rule triple_Cons, assumption, rule triple_Cons, assumption, rule triple_Nil)
    then show ?thesis by (rule triple_weaken) simp_all
  qed
  let ?m2 = "\<lambda>s. upd_key 2 (\<lambda>k. k OR ucast (sip_lsb_idx (fet idx s))) (upd_key 2 (\<lambda>k. k OR push_bit 8 (ucast (sip_msb_idx (fet idx s)))) s)"
  have "triple (?I ?D) (seqs [skip, modify (\<lambda>s. upd_key 2 (\<lambda>k. (k OR push_bit 8 (ucast (sip_msb_idx (fet idx s)))) OR ucast (sip_lsb_idx (fet idx s))) s)])
      (pinv tbl keep S g p t fresh idx s0 ?D 10) ?R"
    by (rule triple_phase [where v = "\<lambda>F k. (k OR push_bit 8 (ucast (sip_msb_idx F))) OR ucast (sip_lsb_idx F)" and n = 9])
      (simp_all add: triple_skip key_simps)
  then have 3: "triple (?I ?D) (seqs [modify (\<lambda>s. upd_key 2 (\<lambda>k. k OR push_bit 8 (ucast (sip_msb_idx (fet idx s)))) s),
     modify (\<lambda>s. upd_key 2 (\<lambda>k. k OR ucast (sip_lsb_idx (fet idx s))) s)])
      (pinv tbl keep S g p t fresh idx s0 ?D 10) ?R"
    by (simp add: triple_def seq_def skip_def modify_def upd_key_twice [where w = "\<lambda>F. ucast (sip_lsb_idx F)"])
  show ?thesis
    unfolding wr_sip_def by (rule triple_Cons [OF 1], rule triple_Cons [OF 2 3])
qed

lemma triple_wr_ethertype:
  assumes E: "pce_engine hwstep tbl keep S" and f: "FEty \<notin> D"
  shows "triple (pinv tbl keep S g p t fresh idx s0 D 10) (wr_ethertype hwstep idx p)
    (pinv tbl keep S g p t fresh idx s0 (insert FEty D) 11) (werrW tbl keep S (want g p) fresh idx s0)"
  unfolding wr_ethertype_def
  by (rule triple_phase [where v = "\<lambda>F k. k OR ucast (ethertype_idx F)" and n = 10],
      rule ptcl.triple_index [OF E, where f = FEty]) (simp_all add: key_simps f)

lemma triple_wr_prot:
  assumes E: "pce_engine hwstep tbl keep S" and f: "FProt \<notin> D"
  shows "triple (pinv tbl keep S g p t fresh idx s0 D 11) (wr_prot hwstep g idx p)
    (pinv tbl keep S g p t fresh idx s0 (insert FProt D) 12) (werrW tbl keep S (want g p) fresh idx s0)"
  unfolding wr_prot_def
  by (rule triple_phase [where v = "\<lambda>F k. k OR push_bit 8 (ucast (ip_prot_idx F))" and n = 11],
      rule ptcl.triple_index [OF E, where f = FProt]) (simp_all add: key_simps f)

lemma triple_wr_pppoe:
  assumes E: "pce_engine hwstep tbl keep S" and f: "FPpp \<notin> D"
  shows "triple (pinv tbl keep S g p t fresh idx s0 D 12) (wr_pppoe hwstep idx p)
    (pinv tbl keep S g p t fresh idx s0 (insert FPpp D) 13) (werrW tbl keep S (want g p) fresh idx s0)"
  unfolding wr_pppoe_def
  by (rule triple_phase [where v = "\<lambda>F k. k OR push_bit 8 (ucast (pppoe_idx F))" and n = 12],
      rule pppoe.triple_index [OF E, where f = FPpp]) (simp_all add: key_simps f)

definition want_vlan :: "(nat \<Rightarrow> nat \<Rightarrow> pce_img) \<Rightarrow> IFX_FLOW_PCE_pattern \<Rightarrow> int" where
  "want_vlan T p = (if bVid p then fst (vlan_result T (nVid p)) else 0x7F)"

lemma want_vlan_range: "want_vlan T p = 0x7F \<or> 0 \<le> want_vlan T p \<and> want_vlan T p < 64"
  using vlan_result_range [of T "nVid p"] by (auto simp: want_vlan_def)

lemma unat_want_vlan:
  "unat (of_int (want_vlan T p) :: 7 word) = 0x7F \<or> unat (of_int (want_vlan T p) :: 7 word) < IFX_PCE_VLAN_ACT_TBL_SIZE"
proof -
  from want_vlan_range [of T p] obtain n where n: "want_vlan T p = int n" "n = 0x7F \<or> n < 64"
    by (intro that [of "nat (want_vlan T p)"]) auto
  then have "unat (of_int (want_vlan T p) :: 7 word) = n" by (auto simp: unat_of_nat_small)
  with n show ?thesis by (simp add: IFX_PCE_VLAN_ACT_TBL_SIZE_def)
qed

lemma row1_same: "hw_frame tbl S h h' \<Longrightarrow> driver_tbl tbl h' 1 = driver_tbl tbl h 1"
  by (simp add: hw_frame_def) (metis One_nat_def rangeE tno_simps(4))

lemma vlan_result_frame:
  assumes "hw_frame tbl S h h'"
  shows "vlan_result (driver_tbl tbl h') vid = vlan_result (driver_tbl tbl h) vid"
  unfolding vlan_result_def vlan_row_def by (simp only: row1_same [OF assms])

lemma triple_wr_vlan:
  assumes E: "pce_engine hwstep tbl keep S"
    and t: "t = want_vlan (driver_tbl tbl (st_hw s0)) p"
  shows "triple (pinv tbl keep S g p t fresh idx s0 D 13) (wr_vlan hwstep idx p)
    (pinv tbl keep S g p t fresh idx s0 D 14) R"
proof -
  let ?I = "pinv tbl keep S g p t fresh idx s0 D 13" and ?J = "\<lambda>s. pinv tbl keep S g p t fresh idx s0 D 13 s \<and> vlan_idx (fet idx s) = of_int t"
  let ?u = "\<lambda>t F. F\<lparr>vlan_idx := of_int t\<rparr>"
  have gF: "fget f (?u i F) = fget f F" for f i F by (cases f) simp_all
  have st: "?J (upd_fet idx (?u t) s)" if w: "?I s" for s
  proof -
    have "?I (upd_fet idx (?u t) s)"
      by (rule winv_update [OF w]) (use unat_want_vlan [of _ p] in \<open>auto simp: gF key_simps plain_def t\<close>)
    moreover have "idx < length (pce_tbl (st_pce s))" using w by (rule winv_row_wf)
    ultimately show ?thesis by (simp add: fet_def)
  qed
  have 1: "triple ?I (if bVid p then call_sub (ifx_pce_tm_find_vlan_id_index hwstep (nVid p))
        (\<lambda>t. modify (upd_fet idx (?u t))) else modify (upd_fet idx (\<lambda>F. F\<lparr>vlan_idx := 0x7F\<rparr>))) ?J R"
  proof (rule triple_if)
    assume v: "bVid p"
    show "triple ?I (call_sub (ifx_pce_tm_find_vlan_id_index hwstep (nVid p)) (\<lambda>t. modify (upd_fet idx (?u t)))) ?J R"
    proof (rule tripleI)
      fix s assume w: "?I s"
      let ?H = "pce_sub_tbl (st_pce s)"
      have sub: "sub_inv tbl keep (?H, st_hw s)" using w by (simp add: winv_def st_ok_def)
      have fr: "hw_frame tbl S (st_hw s0) (st_hw s)" using w by (simp add: winv_def wframe_def)
      obtain v' h' where h': "ifx_pce_tm_find_vlan_id_index hwstep (nVid p) (?H, st_hw s)
          = Some (fst (vlan_result (driver_tbl tbl (st_hw s)) (nVid p)), (?H\<lparr>vlan_act_tbl_cnt := v'\<rparr>, h'))"
        "sub_inv tbl keep (?H\<lparr>vlan_act_tbl_cnt := v'\<rparr>, h')" "hw_frame tbl S (st_hw s) h'"
        using find_vlan_id_fd_spec [OF E sub, of "nVid p"] by metis
      have "fst (vlan_result (driver_tbl tbl (st_hw s)) (nVid p)) = t"
        using v vlan_result_frame [OF fr] by (simp add: t want_vlan_def)
      then show "(\<exists>s'. call_sub (ifx_pce_tm_find_vlan_id_index hwstep (nVid p)) (\<lambda>t. modify (upd_fet idx (?u t))) s
            = Some (None, s') \<and> ?J s') \<or>
        (\<exists>r s'. call_sub (ifx_pce_tm_find_vlan_id_index hwstep (nVid p)) (\<lambda>t. modify (upd_fet idx (?u t))) s
            = Some (Some r, s') \<and> R r s')"
        using st [OF winv_vlan_cnt [OF w h'(2,3)]] h'(1) by (auto simp: call_sub_def modify_def)
    qed
  next
    assume "\<not> bVid p"
    then have e0: "(\<lambda>F. F\<lparr>vlan_idx := 0x7F\<rparr>) = ?u t" by (simp add: t want_vlan_def fun_eq_iff)
    show "triple ?I (modify (upd_fet idx (\<lambda>F. F\<lparr>vlan_idx := 0x7F\<rparr>))) ?J R"
      unfolding e0 by (rule triple_modify) (rule st)
  qed
  let ?v = "\<lambda>F k. (k AND NOT (push_bit 8 0xFF)) OR push_bit 8 (ucast (vlan_idx F))"
  have 2: "triple ?J (modify (\<lambda>s. upd_key 0 (?v (fet idx s)) s)) (pinv tbl keep S g p t fresh idx s0 D 14) R"
  proof (rule triple_key)
    fix F :: IFX_PCE_TBL
    have m: "(0xFF :: u16) = mask 8" by (simp add: mask_eq_exp_minus_1)
    have "(ucast (port_id F) :: u16) AND NOT (push_bit 8 (mask 8)) = ucast (port_id F)"
      by (rule bit_word_eqI) (auto simp: bit_simps dest: bit_imp_le_length)
    then have "(ucast (port_id F) :: u16) AND NOT (push_bit 8 0xFF) = ucast (port_id F)" by (simp only: m)
    then show "(pack_key 13 F)[0 := ?v F (pack_key 13 F ! 0)] = pack_key 14 F" by (simp add: key_simps)
  qed (auto simp: plain_def)
  have e: "upd_key 0 (\<lambda>k. k OR push_bit 8 (ucast (vlan_idx (fet idx (upd_key 0 (\<lambda>k. k AND m) s))))) (upd_key 0 (\<lambda>k. k AND m) s)
      = upd_key 0 (\<lambda>k. (k AND m) OR push_bit 8 (ucast (vlan_idx (fet idx s)))) s" for m :: u16 and s :: "'a pce_st"
    by (cases "0 < length (e_key (st_ent s))") (simp_all add: upd_key_def fet_def list_update_beyond)
  from 2 have "triple ?J (seqs [modify (upd_key 0 (\<lambda>k. k AND NOT (push_bit 8 0xFF))),
     modify (\<lambda>s. upd_key 0 (\<lambda>k. k OR push_bit 8 (ucast (vlan_idx (fet idx s)))) s)])
     (pinv tbl keep S g p t fresh idx s0 D 14) R"
    by (simp only: triple_def seqs.simps seq_def skip_def modify_def e option.case prod.case simp_thms option.inject prod.inject option.distinct ex_simps)
  then show ?thesis unfolding wr_vlan_def by (rule triple_Cons [OF 1])
qed

lemma triple_wr_pattern:
  assumes E: "pce_engine hwstep tbl keep S"
    and t: "t = want_vlan (driver_tbl tbl (st_hw s0)) p"
  shows "triple (pinv tbl keep S g p t fresh idx s0 {} 0) (wr_pattern hwstep g idx p)
    (pinv tbl keep S g p t fresh idx s0 UNIV 14) (werrW tbl keep S (want g p) fresh idx s0)"
proof -
  have U: "insert FPpp (insert FProt (insert FEty (insert FSLsb (insert FSMsb (insert FDLsb (insert FDMsb
     (insert FSAppl (insert FDAppl (insert FSMac (insert FDMac (insert FPkt {}))))))))))) = (UNIV :: ffield set)"
    by (auto simp: ffield_UNIV)
  show ?thesis
    unfolding wr_pattern_def
    apply (rule triple_Cons, rule triple_wr_port)
    apply (rule triple_Cons, rule triple_wr_dscp)
    apply (rule triple_Cons, rule triple_wr_pcp)
    apply (rule triple_Cons, rule triple_wr_pkt_lng [OF E], simp)
    apply (rule triple_Cons, rule triple_wr_dst_mac [OF E], simp)
    apply (rule triple_Cons, rule triple_wr_src_mac [OF E], simp)
    apply (rule triple_Cons, rule triple_wr_dst_appl [OF E], simp)
    apply (rule triple_Cons, rule triple_wr_src_appl [OF E], simp)
    apply (rule triple_Cons, rule triple_wr_dip [OF E], simp, simp)
    apply (rule triple_Cons, rule triple_wr_sip [OF E], simp, simp)
    apply (rule triple_Cons, rule triple_wr_ethertype [OF E], simp)
    apply (rule triple_Cons, rule triple_wr_prot [OF E], simp)
    apply (rule triple_Cons, rule triple_wr_pppoe [OF E], simp)
    apply (rule triple_Cons, rule triple_wr_vlan [OF E t])
    apply (simp only: U)
    apply (rule triple_Nil)
    done
qed

section \<open>The action and the device row\<close>

text \<open>The values programmed for an action, given the VLAN row of its VLAN id.\<close>

definition act_vals :: "int \<times> u32 \<Rightarrow> IFX_FLOW_PCE_action \<Rightarrow> u16 list" where
  "act_vals r a =
    (let v = av_vlan0 a (av_flowid a (av_forward a (replicate 7 0)));
         v = (if eVLAN_Action a = VLAN_ALTERNATIVE then av_vlan1 r v else v)
     in av_ports a (av_remark_bits a (av_rmon a (av_middle a v))))"

definition act_ok :: "IFX_FLOW_PCE_action \<Rightarrow> bool" where
  "act_ok a \<longleftrightarrow> \<not> (bFlowID_Action a \<and> ePortMapAction a \<noteq> PORTMAP_DISABLE) \<and> (bRMON_Action a \<longrightarrow> nRMON_Id a < 24)"

definition rule_img :: "IFX_PCE_TBL \<Rightarrow> u16 list \<Rightarrow> pce_img" where
  "rule_img F vals = \<lparr>i_key = take 9 (pack_key 14 F), i_mask = 0, i_val = vals, i_type = 0, i_valid = 1, i_group = 0\<rparr>"

text \<open>The phases of the action: the pattern part of the invariant, and the values so far.\<close>

definition ainv where
  "ainv I idx a v s \<longleftrightarrow> I (s\<lparr>st_ent := (st_ent s)\<lparr>e_val := replicate 7 0\<rparr>\<rparr>) \<and> e_val (st_ent s) = v \<and>
     pce_act (st_pce s) ! idx = a"

lemma triple_vals:
  "triple (ainv I idx a v) (modify (upd_vals f)) (ainv I idx a (f v)) R"
  by (rule triple_modify) (auto simp: ainv_def upd_vals_def)

lemma ainv_werr:
  assumes "ainv (winv tbl keep S W Q fresh idx s0 D n) idx a v s" "r < 0"
  shows "werr tbl keep S fresh idx s0 r s"
proof -
  let ?s = "s\<lparr>st_ent := (st_ent s)\<lparr>e_val := replicate 7 0\<rparr>\<rparr>"
  have "werr tbl keep S fresh idx s0 r ?s"
    using assms by (auto simp: ainv_def intro: winv_werr)
  then show ?thesis by (simp add: werr_def st_ok_def wframe_def other_rules_same_def)
qed

lemma ainv_weaken: "ainv I idx a v s \<Longrightarrow> v = v' \<Longrightarrow> ainv I idx a v' s"
  by simp

lemma triple_wr_action:
  fixes s0 :: "'p pce_st" and idx :: nat and fresh :: bool and a :: IFX_FLOW_PCE_action
  assumes E: "pce_engine hwstep tbl keep S"
  defines "R \<equiv> \<lambda>r s. werr tbl keep S fresh idx s0 r s \<and> \<not> act_ok a"
  shows "triple (pinv tbl keep S g p t fresh idx s0 UNIV 14) (wr_action hwstep idx a)
    (ainv (pinv tbl keep S g p t fresh idx s0 UNIV 14) idx a
       (act_vals (vlan_result (driver_tbl tbl (st_hw s0)) (nVLAN_Id a)) a)) R"
proof -
  let ?I = "pinv tbl keep S g p t fresh idx s0 UNIV 14" and ?r = "vlan_result (driver_tbl tbl (st_hw s0)) (nVLAN_Id a)"
  let ?v1 = "av_forward a (replicate 7 0)"
  let ?v2 = "av_flowid a ?v1"
  let ?v3 = "if eVLAN_Action a = VLAN_ALTERNATIVE then av_vlan1 ?r (av_vlan0 a ?v2) else av_vlan0 a ?v2"
  have 0: "triple ?I (modify (\<lambda>s. s\<lparr>st_pce := (st_pce s)\<lparr>pce_act := (pce_act (st_pce s))[idx := a]\<rparr>\<rparr>))
    (ainv ?I idx a (replicate 7 0)) R"
  proof (rule triple_modify)
    fix s assume w: "?I s"
    let ?s = "s\<lparr>st_pce := (st_pce s)\<lparr>pce_act := (pce_act (st_pce s))[idx := a]\<rparr>\<rparr>"
    have len: "idx < length (pce_act (st_pce s))" using w by (simp add: winv_def st_ok_def shape_def)
    have v: "(st_ent s)\<lparr>e_val := replicate 7 0\<rparr> = st_ent s" "e_val (st_ent s) = replicate 7 0"
      using w by (simp_all add: winv_def zero_entry_def)
    have "counted_at UNIV idx (st_pce ?s) = counted_at UNIV idx (st_pce s)"
      by (simp add: counted_at_def other_refs_def)
    moreover have "st_ok tbl keep ?s = st_ok tbl keep s" by (simp add: st_ok_def shape_def)
    moreover have "wframe tbl S idx s0 ?s = wframe tbl S idx s0 s"
      by (simp add: wframe_def other_rules_same_def nth_list_update)
    moreover have "fet idx ?s = fet idx s" by (simp add: fet_def)
    ultimately have "?I ?s" using w by (simp add: winv_def)
    moreover have e: "?s\<lparr>st_ent := (st_ent ?s)\<lparr>e_val := replicate 7 0\<rparr>\<rparr> = ?s"
      using v(1) by (cases s) simp
    ultimately show "ainv ?I idx a (replicate 7 0) ?s" unfolding ainv_def e using len v(2) by simp
  qed
  have 1: "triple (ainv ?I idx a v) (wr_flowid a) (ainv ?I idx a (av_flowid a v)) R" for v
    unfolding wr_flowid_def
    by (intro triple_if triple_return triple_vals) (auto simp: R_def act_ok_def dest: ainv_werr [where r = "-1"])
  have 2: "triple (ainv ?I idx a v) (wr_act_vlan hwstep a)
      (ainv ?I idx a (if eVLAN_Action a = VLAN_ALTERNATIVE then av_vlan1 ?r (av_vlan0 a v) else av_vlan0 a v)) R" for v
    unfolding wr_act_vlan_def
  proof (rule triple_Cons [OF triple_vals], rule triple_Cons [OF _ triple_Nil], rule triple_when_c)
    show "ainv ?I idx a (if eVLAN_Action a = VLAN_ALTERNATIVE then av_vlan1 ?r (av_vlan0 a v) else av_vlan0 a v) s"
      if "eVLAN_Action a \<noteq> VLAN_ALTERNATIVE" "ainv ?I idx a (av_vlan0 a v) s" for s using that by simp
    let ?c = "call_sub (ifx_pce_tm_find_vlan_id_fd_index hwstep (nVLAN_Id a)) (\<lambda>r. modify (upd_vals (av_vlan1 r)))"
    assume alt: "eVLAN_Action a = VLAN_ALTERNATIVE"
    show "triple (ainv ?I idx a (av_vlan0 a v)) ?c
      (ainv ?I idx a (if eVLAN_Action a = VLAN_ALTERNATIVE then av_vlan1 ?r (av_vlan0 a v) else av_vlan0 a v)) R"
    proof (rule tripleI)
      fix s assume a: "ainv ?I idx a (av_vlan0 a v) s"
      let ?s = "s\<lparr>st_ent := (st_ent s)\<lparr>e_val := replicate 7 0\<rparr>\<rparr>" and ?H = "pce_sub_tbl (st_pce s)"
      have w: "?I ?s" using a by (simp add: ainv_def)
      have sub: "sub_inv tbl keep (?H, st_hw s)" using w by (simp add: winv_def st_ok_def)
      have fr: "hw_frame tbl S (st_hw s0) (st_hw s)" using w by (simp add: winv_def wframe_def)
      obtain v' h' where h': "ifx_pce_tm_find_vlan_id_fd_index hwstep (nVLAN_Id a) (?H, st_hw s)
          = Some (vlan_result (driver_tbl tbl (st_hw s)) (nVLAN_Id a), (?H\<lparr>vlan_act_tbl_cnt := v'\<rparr>, h'))"
        "sub_inv tbl keep (?H\<lparr>vlan_act_tbl_cnt := v'\<rparr>, h')" "hw_frame tbl S (st_hw s) h'"
        using find_vlan_id_fd_spec [OF E sub, of "nVLAN_Id a"] by metis
      let ?t = "s\<lparr>st_pce := (st_pce s)\<lparr>pce_sub_tbl := ?H\<lparr>vlan_act_tbl_cnt := v'\<rparr>\<rparr>, st_hw := h'\<rparr>"
      have "ainv ?I idx a (av_vlan0 a v) ?t"
        using winv_vlan_cnt [OF w, of v' h'] h'(2,3) a by (cases s) (simp add: ainv_def)
      then have "ainv ?I idx a (av_vlan1 ?r (av_vlan0 a v)) (upd_vals (av_vlan1 ?r) ?t)"
        by (auto simp: ainv_def upd_vals_def)
      moreover have "?c s = Some (None, upd_vals (av_vlan1 ?r) ?t)"
        using h'(1) by (simp add: call_sub_def modify_def vlan_result_frame [OF fr])
      ultimately show "(\<exists>s'. ?c s = Some (None, s') \<and> ainv ?I idx a (if eVLAN_Action a = VLAN_ALTERNATIVE
          then av_vlan1 ?r (av_vlan0 a v) else av_vlan0 a v) s') \<or> (\<exists>r s'. ?c s = Some (Some r, s') \<and> R r s')"
        using alt by auto
    qed
  qed
  have 3: "triple (ainv ?I idx a v) (wr_rmon a) (ainv ?I idx a (av_rmon a v)) R" for v
    unfolding wr_rmon_def
    by (intro triple_if triple_return triple_vals) (auto simp: R_def act_ok_def dest: ainv_werr [where r = "-1"])
  have eq: "av_ports a (av_remark_bits a (av_rmon a (av_middle a ?v3))) = act_vals ?r a"
    by (simp add: act_vals_def Let_def)
  show ?thesis
    unfolding wr_action_def eq [symmetric]
    by (rule triple_Cons [OF 0], rule triple_Cons [OF triple_vals], rule triple_Cons [OF 1],
        rule triple_Cons [OF 2], rule triple_Cons [OF triple_vals], rule triple_Cons [OF 3],
        rule triple_Cons [OF triple_vals], rule triple_Nil)
qed

section \<open>The rule as a whole\<close>

text \<open>
  Everything but rule \<open>idx\<close>: the other rules, their device rows, the tables that hold no pattern
  fields, and (\<open>rule_frame\<close>) the rows of the pattern tables that other rules count on.
\<close>

definition others_same :: "('p \<Rightarrow> nat \<Rightarrow> nat \<Rightarrow> pce_img) \<Rightarrow> 16 word set \<Rightarrow> nat \<Rightarrow> 'p pce_st \<Rightarrow> 'p pce_st \<Rightarrow> bool" where
  "others_same tbl S idx s s' \<longleftrightarrow>
     (\<forall>r. r \<noteq> idx \<longrightarrow> pce_tbl_used (st_pce s') ! r = pce_tbl_used (st_pce s) ! r \<and>
        pce_tbl (st_pce s') ! r = pce_tbl (st_pce s) ! r \<and> pce_act (st_pce s') ! r = pce_act (st_pce s) ! r \<and>
        driver_tbl tbl (st_hw s') 15 r = driver_tbl tbl (st_hw s) 15 r) \<and>
     (\<forall>t. t \<notin> range tno \<and> t \<noteq> 15 \<longrightarrow> driver_tbl tbl (st_hw s') t = driver_tbl tbl (st_hw s) t) \<and>
     (\<forall>off\<in>S. \<not> in_window off \<longrightarrow> regs (st_hw s') off = regs (st_hw s) off)"

definition rule_frame :: "('p \<Rightarrow> nat \<Rightarrow> nat \<Rightarrow> pce_img) \<Rightarrow> 16 word set \<Rightarrow> nat \<Rightarrow> 'p pce_st \<Rightarrow> 'p pce_st \<Rightarrow> bool" where
  "rule_frame tbl S idx s s' \<longleftrightarrow>
     (\<forall>r. r \<noteq> idx \<longrightarrow> pce_tbl_used (st_pce s') ! r = pce_tbl_used (st_pce s) ! r \<and>
        pce_tbl (st_pce s') ! r = pce_tbl (st_pce s) ! r \<and> pce_act (st_pce s') ! r = pce_act (st_pce s) ! r \<and>
        driver_tbl tbl (st_hw s') 15 r = driver_tbl tbl (st_hw s) 15 r) \<and>
     (\<forall>t. t \<notin> range tno \<and> t \<noteq> 15 \<longrightarrow> driver_tbl tbl (st_hw s') t = driver_tbl tbl (st_hw s) t) \<and>
     (\<forall>off\<in>S. \<not> in_window off \<longrightarrow> regs (st_hw s') off = regs (st_hw s) off) \<and>
     rows_kept idx (st_pce s) (st_pce s')"

text \<open>A rule as it should be after it was written, \<open>T\<close> being the device tables before.\<close>

definition written :: "('p \<Rightarrow> nat \<Rightarrow> nat \<Rightarrow> pce_img) \<Rightarrow> (nat \<Rightarrow> pce_img \<Rightarrow> pce_img) \<Rightarrow> garbage \<Rightarrow>
    (nat \<Rightarrow> nat \<Rightarrow> pce_img) \<Rightarrow> nat \<Rightarrow> IFX_FLOW_PCE_rule \<Rightarrow> 'p pce_st \<Rightarrow> bool" where
  "written tbl keep g T idx r s \<longleftrightarrow> rules_inv tbl keep s \<and> pce_tbl_used (st_pce s) ! idx = 1 \<and>
     pce_act (st_pce s) ! idx = action r \<and>
     plain (pattern r) (want_vlan T (pattern r)) 14 (fet idx s) \<and>
     (\<forall>f. field_ok (want g (pattern r)) f (fet idx s) (pce_sub_tbl (st_pce s))) \<and>
     driver_tbl tbl (st_hw s) 15 idx
       = keep 15 (rule_img (fet idx s) (act_vals (vlan_result T (nVLAN_Id (action r))) (action r)))"

lemma n15 [simp]: "15 \<notin> range tno" "Suc 0 \<notin> range tno" "1 \<notin> range tno"
  by (metis rangeE tno_simps(3), metis rangeE tno_simps(4), metis rangeE tno_simps(5))

lemma rule_frame_split:
  "rule_frame tbl S idx s s' \<longleftrightarrow> others_same tbl S idx s s' \<and> rows_kept idx (st_pce s) (st_pce s')"
  by (auto simp: rule_frame_def others_same_def)

lemma others_same_trans: "others_same tbl S idx s s' \<Longrightarrow> others_same tbl S idx s' s'' \<Longrightarrow> others_same tbl S idx s s''"
  by (simp add: others_same_def)

lemma rule_frame_trans:
  "rule_frame tbl S idx s s' \<Longrightarrow> st_pce s' = st_pce s \<Longrightarrow> rule_frame tbl S idx s' s'' \<Longrightarrow> rule_frame tbl S idx s s''"
  by (auto simp: rule_frame_split intro: others_same_trans)

lemma rows_kept_keeps:
  assumes "rows_kept idx P P'" "keeps (pce_sub_tbl P') (pce_sub_tbl P'')"
  shows "rows_kept idx P P''"
  using assms by (auto simp: rows_kept_def keeps_def holds_def)

lemma rule_frame_keeps:
  assumes "rule_frame tbl S idx s s'" "others_same tbl S idx s' s''"
    "keeps (pce_sub_tbl (st_pce s')) (pce_sub_tbl (st_pce s''))"
  shows "rule_frame tbl S idx s s''"
  using assms rows_kept_keeps others_same_trans unfolding rule_frame_split by blast

lemma wframe_others: "wframe tbl S idx s s' \<Longrightarrow> others_same tbl S idx s s' \<and> keeps (pce_sub_tbl (st_pce s)) (pce_sub_tbl (st_pce s'))"
  by (simp add: wframe_def other_rules_same_def hw_frame_def others_same_def)

lemma rule_frame_vlan: "rule_frame tbl S idx s s' \<Longrightarrow> driver_tbl tbl (st_hw s') 1 = driver_tbl tbl (st_hw s) 1"
  by (simp add: rule_frame_def)

text \<open>After \<open>wr_old\<close> the row is free.\<close>

lemma wr_old_spec:
  assumes E: "pce_engine hwstep tbl keep S" and I: "rules_inv tbl keep s" and ix: "idx < IFX_PCE_TBL_SIZE"
  obtains s1 where "wr_old hwstep idx s = Some (None, s1)" "rules_inv tbl keep s1"
    "pce_tbl_used (st_pce s1) ! idx = 0" "rule_frame tbl S idx s s1"
    "pce_tbl_used (st_pce s) ! idx \<noteq> 0 \<Longrightarrow> fet idx s1 = ones_row"
    "pce_tbl_used (st_pce s) ! idx = 0 \<Longrightarrow> s1 = s"
proof (cases "pce_tbl_used (st_pce s) ! idx = 0")
  case True
  then show ?thesis using I by (intro that [of s]) (simp_all add: wr_old_def rule_frame_def)
next
  case False
  have sh: "shape (st_pce s)" using I by (simp add: rules_inv_def st_ok_def)
  let ?d = "\<lambda>H h. s\<lparr>st_pce := (st_pce s)\<lparr>pce_sub_tbl := H,
       pce_tbl := (pce_tbl (st_pce s))[idx := ones_row], pce_act := (pce_act (st_pce s))[idx := zero_action],
       pce_tbl_used := (pce_tbl_used (st_pce s))[idx := 0]\<rparr>, st_hw := h\<rparr>"
  obtain H h where d: "ifx_pce_pattern_delete hwstep idx s = Some (0, ?d H h)" "rules_inv tbl keep (?d H h)"
    "\<And>t. t \<notin> range tno \<Longrightarrow> driver_tbl tbl h t = set_row (driver_tbl tbl (st_hw s)) 15 idx
       (keep 15 ((driver_tbl tbl (st_hw s) 15 idx)\<lparr>i_valid := 0\<rparr>)) t"
    "\<And>off. off \<in> S \<Longrightarrow> \<not> in_window off \<Longrightarrow> regs h off = regs (st_hw s) off"
    "released idx UNIV (st_pce s) H"
    by (rule pattern_delete_spec [OF E I ix False]) (rule that)
  show ?thesis
  proof (rule that [of "?d H h"])
    show "wr_old hwstep idx s = Some (None, ?d H h)" using False d(1) by (simp add: wr_old_def)
    have "rows_kept idx (st_pce s) (st_pce (?d H h))" using d(5) by (intro released_rows_kept) simp
    then show "rule_frame tbl S idx s (?d H h)"
      using d(3,4) by (simp add: rule_frame_def) (simp add: set_row_def)
  qed (use sh ix d(2) False in \<open>simp_all add: shape_def fet_def\<close>)
qed

lemma begin_winv:
  assumes I: "rules_inv tbl keep s" and ix: "idx < IFX_PCE_TBL_SIZE" and u: "pce_tbl_used (st_pce s) ! idx = 0"
    and fr: "fresh \<longrightarrow> (\<forall>f. fget f (fet idx s) = fany f)"
  shows "pinv tbl keep S g p t fresh idx (wr_begin idx s) {} 0 (wr_begin idx s)"
proof -
  let ?P = "st_pce s"
  have sh: "shape ?P" using I by (simp add: rules_inv_def st_ok_def)
  have "counted_at UNIV idx ?P" using I ix by (simp add: rules_inv_def counted_at_UNIV)
  moreover have "other_refs idx (?P\<lparr>pce_tbl_used := (pce_tbl_used ?P)[idx := 1]\<rparr>) k i = other_refs idx ?P k i" for k i
    by (rule other_refs_cong) simp_all
  ultimately have "counted_at {} idx (st_pce (wr_begin idx s))"
    using u by (simp add: counted_at_def wr_begin_def)
  moreover have "st_ok tbl keep (wr_begin idx s)"
    using I by (simp add: rules_inv_def st_ok_def wr_begin_def shape_def)
  moreover have "pack_key 0 F = (e_key zero_entry)[8 := 0xFFFF]" for F
    by (simp add: key_simps zero_entry_def numeral_eq_Suc)
  moreover have "wframe tbl S idx (wr_begin idx s) (wr_begin idx s)"
    by (simp add: wframe_def other_rules_same_def)
  moreover have "fet idx (wr_begin idx s) = fet idx s" by (simp add: fet_def wr_begin_def)
  ultimately show ?thesis
    using ix sh fr by (simp add: winv_def plain_def) (simp add: wr_begin_def shape_def)
qed

lemma commit_spec:
  assumes E: "pce_engine hwstep tbl keep S"
    and A: "ainv (pinv tbl keep S g (pattern r) (want_vlan T (pattern r)) fresh idx s0 UNIV 14) idx (action r) v s"
    and v: "v = act_vals (vlan_result T (nVLAN_Id (action r))) (action r)" "length v = 7"
    and u: "pce_tbl_used (st_pce s0) ! idx = 1"
  obtains s' where "wr_commit hwstep idx s = Some (Some 0, s')" "written tbl keep g T idx r s'"
    "others_same tbl S idx s0 s'" "keeps (pce_sub_tbl (st_pce s0)) (pce_sub_tbl (st_pce s'))"
proof -
  let ?s = "s\<lparr>st_ent := (st_ent s)\<lparr>e_val := replicate 7 0\<rparr>\<rparr>"
  let ?p = "pattern r" and ?F = "fet idx s"
  have w: "pinv tbl keep S g ?p (want_vlan T ?p) fresh idx s0 UNIV 14 ?s"
    and ev: "e_val (st_ent s) = v" and ac: "pce_act (st_pce s) ! idx = action r"
    using A by (simp_all add: ainv_def)
  have F: "fet idx ?s = ?F" by (simp add: fet_def)
  have ix: "idx < IFX_PCE_TBL_SIZE" and ok: "st_ok tbl keep s" and c': "counted_at UNIV idx (st_pce s)"
    using w by (simp_all add: winv_def st_ok_def)
  have wf: "wframe tbl S idx s0 s" using w by (simp add: winv_def wframe_def other_rules_same_def)
  have c: "counted (st_pce s)" using c' by (simp add: counted_at_UNIV [OF ix])
  have ent: "st_ent s = zero_entry\<lparr>e_key := pack_key 14 ?F, e_val := v\<rparr>"
  proof -
    have "(st_ent s)\<lparr>e_val := replicate 7 0\<rparr> = zero_entry\<lparr>e_key := pack_key 14 ?F\<rparr>"
      using w F by (simp add: winv_def)
    then have "(st_ent s)\<lparr>e_val := replicate 7 0, e_val := e_val (st_ent s)\<rparr>
        = zero_entry\<lparr>e_key := pack_key 14 ?F, e_val := e_val (st_ent s)\<rparr>" by (rule arg_cong)
    then show ?thesis using ev by (cases "st_ent s") simp
  qed
  let ?e = "(st_ent s)\<lparr>e_index := of_nat idx, e_table := PCE_TFLOW_INDEX, e_valid := 1\<rparr>"
  have wfe: "entry_wf ?e" using v(2) by (simp add: ent entry_wf_def pack_key_def)
  have t: "unat (e_table ?e) = 15" and x: "unat (e_index ?e) = idx" and n: "idx < pce_table_size 15"
    using ix by (simp_all add: unat_of_nat_small IFX_PCE_TBL_SIZE_def pce_table_size_def)
  have img: "img_of ?e = rule_img ?F v" by (simp add: img_of_def rule_img_def ent zero_entry_def)
  have I: "idle (st_hw s)" using ok by (simp add: st_ok_def sub_inv_def)
  obtain h where h: "ifx_ethsw_xwayflow_pce_table_write hwstep ?e (st_hw s) = Some h" "idle h"
    "driver_tbl tbl h = set_row (driver_tbl tbl (st_hw s)) 15 idx (keep 15 (img_of ?e))"
    "\<And>off. off \<in> S \<Longrightarrow> \<not> in_window off \<Longrightarrow> regs h off = regs (st_hw s) off"
    using pce_engine.table_write_spec [OF E I wfe t x _ _ n] by auto
  let ?s' = "s\<lparr>st_ent := ?e, st_hw := h\<rparr>"
  have us: "pce_tbl_used (st_pce s) ! idx = 1" using wf u by (simp add: wframe_def other_rules_same_def)
  have "sub_inv tbl keep (pce_sub_tbl (st_pce s), h)"
    using ok h(2,3) by (simp add: st_ok_def sub_inv_def set_row_15_mirrored)
  then have "rules_inv tbl keep ?s'" using ok c by (simp add: rules_inv_def st_ok_def)
  moreover have "fet idx ?s' = ?F" by (simp add: fet_def)
  ultimately have "written tbl keep g T idx r ?s'"
    using us ac w F h(3) img v(1) by (simp add: written_def winv_def set_row_def)
  moreover have "others_same tbl S idx s0 ?s'"
    using wframe_others [OF wf] h(3,4) by (simp add: others_same_def set_row_def)
  moreover have "keeps (pce_sub_tbl (st_pce s0)) (pce_sub_tbl (st_pce ?s'))" using wf by (simp add: wframe_def)
  moreover have "wr_commit hwstep idx s = Some (Some 0, ?s')" using h(1) by (simp add: wr_commit_def Let_def)
  ultimately show ?thesis using that by blast
qed

lemma vals_length [simp]:
  "length (vor k m v) = length v" "length (vclr k m v) = length v" "length (vput k m v) = length v"
  by (simp_all add: vor_def vclr_def vput_def)

lemmas av_defs = av_forward_def av_flowid_def av_vlan0_def av_vlan1_def av_tclass_def av_remark_def av_xvlan_def
  av_xstate_def av_crit_def av_tstamp_def av_irq_def av_learn_def av_igmp_def av_meter_def av_rmon_def
  av_remark_bits_def av_ports_def

lemma av_length [simp]:
  "length (av_forward a v) = length v" "length (av_flowid a v) = length v" "length (av_vlan0 a v) = length v"
  "length (av_vlan1 r v) = length v" "length (av_tclass a v) = length v" "length (av_remark a v) = length v"
  "length (av_xvlan a v) = length v" "length (av_xstate a v) = length v" "length (av_crit a v) = length v"
  "length (av_tstamp a v) = length v" "length (av_irq a v) = length v" "length (av_learn a v) = length v"
  "length (av_igmp a v) = length v" "length (av_meter a v) = length v" "length (av_rmon a v) = length v"
  "length (av_remark_bits a v) = length v" "length (av_ports a v) = length v"
  by (simp_all add: av_defs Let_def split: ActionPortmap.split ActionIGMP_Snoop.split ActionTrafficClass.split
      ActionCrossVLAN.split ActionCrossState.split ActionCriticalFrame.split ActionTimestamp.split ActionIrq.split
      ActionLearning.split ActionMeter.split prod.split)

lemma act_vals_length [simp]: "length (act_vals r a) = 7"
  by (simp add: act_vals_def av_middle_def Let_def)

lemma wr_action_normal: "wr_action hwstep idx a s = Some (None, s') \<Longrightarrow> act_ok a"
  unfolding wr_action_def
  by (cases "act_ok a")
    (auto simp: seq_def wr_flowid_def wr_rmon_def act_ok_def return_with_def modify_def
      split: option.splits if_splits)

text \<open>
  Programming a rule: it ends; either the rule is written, or an error is returned, and then
  the row counts as used, nothing else has changed, and the counters are exact if the row was
  free of stale indices.
\<close>

lemma program_spec:
  assumes E: "pce_engine hwstep tbl keep S" and I: "rules_inv tbl keep s" and ix: "idx < IFX_PCE_TBL_SIZE"
  obtains (ok) s' where "wr_program hwstep g idx r s = Some (Some 0, s')"
      "written tbl keep g (driver_tbl tbl (st_hw s)) idx r s'" "rule_frame tbl S idx s s'" "act_ok (action r)"
  | (err) e s' where "wr_program hwstep g idx r s = Some (Some e, s')" "e < 0" "st_ok tbl keep s'"
      "rule_frame tbl S idx s s'"
      "covered (st_pce s')" "\<not> act_ok (action r) \<or> (\<exists>f. want g (pattern r) f \<noteq> None \<and> table_full (fkind f) (pce_sub_tbl (st_pce s')))"
      "pce_tbl_used (st_pce s) ! idx \<noteq> 0 \<or> (\<forall>f. fget f (fet idx s) = fany f) \<Longrightarrow> rules_inv tbl keep s'"
proof -
  let ?T = "driver_tbl tbl (st_hw s)" and ?p = "pattern r" and ?a = "action r"
  let ?fresh = "pce_tbl_used (st_pce s) ! idx \<noteq> 0 \<or> (\<forall>f. fget f (fet idx s) = fany f)"
  obtain s1 where s1: "wr_old hwstep idx s = Some (None, s1)" "rules_inv tbl keep s1"
    "pce_tbl_used (st_pce s1) ! idx = 0" "rule_frame tbl S idx s s1"
    "pce_tbl_used (st_pce s) ! idx \<noteq> 0 \<Longrightarrow> fet idx s1 = ones_row"
    "pce_tbl_used (st_pce s) ! idx = 0 \<Longrightarrow> s1 = s"
    by (rule wr_old_spec [OF E I ix]) (rule that)
  let ?s0 = "wr_begin idx s1"
  have fr: "?fresh \<longrightarrow> (\<forall>f. fget f (fet idx s1) = fany f)"
    using s1(5,6) by (cases "pce_tbl_used (st_pce s) ! idx = 0") auto
  have sh: "idx < length (pce_tbl_used (st_pce s1))"
    using s1(2) ix by (simp add: rules_inv_def st_ok_def shape_def)
  have u0: "pce_tbl_used (st_pce ?s0) ! idx = 1" using sh by (simp add: wr_begin_def)
  have f0: "rule_frame tbl S idx s ?s0"
    using s1(4) by (simp add: rule_frame_def wr_begin_def rows_kept_def)
  have T1: "driver_tbl tbl (st_hw ?s0) 1 = ?T 1" by (rule rule_frame_vlan [OF f0])
  have wv: "want_vlan (driver_tbl tbl (st_hw ?s0)) ?p = want_vlan ?T ?p"
    "vlan_result (driver_tbl tbl (st_hw ?s0)) vid = vlan_result ?T vid" for vid
    unfolding want_vlan_def vlan_result_def vlan_row_def by (simp_all only: T1)
  note w0 = begin_winv [OF s1(2) ix s1(3) fr, of S g ?p "want_vlan ?T ?p"]
  have err': "st_ok tbl keep s2 \<and> rule_frame tbl S idx s s2 \<and> (?fresh \<longrightarrow> rules_inv tbl keep s2) \<and> covered (st_pce s2) \<and> e < 0"
    if "werr tbl keep S ?fresh idx ?s0 e s2" for e s2
    using that rule_frame_keeps [OF f0] wframe_others unfolding werr_def rules_inv_def by blast
  show ?thesis
  proof (rule tripleE [OF triple_wr_pattern [OF E wv(1) [symmetric]] w0], goal_cases)
    case (2 e s2)
    then have "wr_program hwstep g idx r s = Some (Some e, s2)"
      by (simp add: wr_program_def seq_def s1(1) modify_def)
    then show ?case using 2(2) err' [of e s2] unfolding werrW_def by (intro err) blast+
  next
    case (1 s2)
    show ?case
    proof (rule tripleE [OF triple_wr_action [OF E] 1(2), of ?a], goal_cases)
      case (2 e s3)
      then have "wr_program hwstep g idx r s = Some (Some e, s3)"
        by (simp add: wr_program_def seq_def s1(1) modify_def 1(1))
      then show ?case using 2(2) err' [of e s3] by (intro err) blast+
    next
      case (1 s3)
      note A = 1(2) [unfolded wv(2)]
      obtain s4 where s4: "wr_commit hwstep idx s3 = Some (Some 0, s4)" "written tbl keep g ?T idx r s4"
        "others_same tbl S idx ?s0 s4" "keeps (pce_sub_tbl (st_pce ?s0)) (pce_sub_tbl (st_pce s4))"
        by (rule commit_spec [OF E A refl act_vals_length u0]) (rule that)
      have "wr_program hwstep g idx r s = Some (Some 0, s4)"
        using s4(1) 1(1) \<open>wr_pattern hwstep g idx ?p ?s0 = Some (None, s2)\<close>
        by (simp add: wr_program_def seq_def s1(1) modify_def skip_def)
      then show ?case using s4(2) rule_frame_keeps [OF f0 s4(3,4)] wr_action_normal [OF 1(1)] by (rule ok)
    qed
  qed
qed

end
