(* ===== verification/PCE_Action.thy ===== *)
theory PCE_Action
  imports PCE_Write
begin

text \<open>
  The layout of the seven action values of a traffic-flow row (\<open>act_vals\<close>): which bit stands for
  which part of the action. Each action group touches its own bits, except the meter group,
  which assigns the whole of the fourth value.
\<close>

unbundle bit_operations_syntax

section \<open>One group at a time\<close>

named_theorems av_bits

lemmas av_ops = vor_def vclr_def vput_def

lemma bit_list_update: "k < length v \<Longrightarrow> bit ((v[k := x]) ! j) n = (if j = k then bit x n else bit (v ! j) n)"
  by simp

lemma bit_bit_at: "bit (bit_at k) n \<longleftrightarrow> n = k \<and> k < 16"
  by (auto simp: bit_at_def bit_simps)

lemma bit_mask2: "bit (3 :: u16) n \<longleftrightarrow> n < 2" "bit (2 :: u16) n \<longleftrightarrow> n = 1" "bit (7 :: u16) n \<longleftrightarrow> n < 3"
  "bit (0x1F :: u16) n \<longleftrightarrow> n < 5" "bit (0xF :: u16) n \<longleftrightarrow> n < 4"
proof -
  have "(3 :: u16) = mask 2" "(2 :: u16) = bit_at 1" "(7 :: u16) = mask 3" "(0x1F :: u16) = mask 5" "(0xF :: u16) = mask 4"
    by (simp_all add: mask_eq_exp_minus_1 bit_at_def)
  then show "bit (3 :: u16) n \<longleftrightarrow> n < 2" "bit (2 :: u16) n \<longleftrightarrow> n = 1" "bit (7 :: u16) n \<longleftrightarrow> n < 3"
    "bit (0x1F :: u16) n \<longleftrightarrow> n < 5" "bit (0xF :: u16) n \<longleftrightarrow> n < 4"
    by (simp_all only: bit_bit_at bit_mask_iff min_def) auto
qed

lemmas av_solve = av_defs av_ops Let_def bit_simps bit_bit_at bit_mask2

text \<open>The first value: the bits that enable the groups, and three alternatives.\<close>

lemma av_forward_0 [av_bits]:
  "length v = 7 \<Longrightarrow> v ! 0 = 0 \<Longrightarrow> bit (av_forward a v ! 0) n \<longleftrightarrow> n = 0 \<and> ePortMapAction a \<noteq> PORTMAP_DISABLE"
  by (cases "ePortMapAction a"; cases "eSnoopingTypeAction a") (auto simp: av_solve)

lemma av_same_0 [av_bits]:
  "av_flowid a v ! 0 = v ! 0" "av_remark_bits a v ! 0 = v ! 0" "av_ports a v ! 0 = v ! 0"
  by (simp_all add: av_defs av_ops Let_def)

lemma av_vlan0_0 [av_bits]:
  "length v = 7 \<Longrightarrow> n < 16 \<Longrightarrow> bit (av_vlan0 a v ! 0) n \<longleftrightarrow>
     (if n = 13 then False else if n = 1 then eVLAN_Action a \<noteq> VLAN_DISABLE \<or> bit (v ! 0) 1 else bit (v ! 0) n)"
  by (auto simp: av_solve)

lemma av_vlan1_0 [av_bits]:
  "length v = 7 \<Longrightarrow> n < 16 \<Longrightarrow> bit (av_vlan1 r v ! 0) n \<longleftrightarrow> n = 13 \<and> fst r \<noteq> 0x7F \<or> bit (v ! 0) n"
  by (cases r) (auto simp: av_solve)

lemma av_tclass_0 [av_bits]:
  "length v = 7 \<Longrightarrow> n < 16 \<Longrightarrow> bit (av_tclass a v ! 0) n \<longleftrightarrow>
     (if n = 2 then eTrafficClassAction a \<noteq> TRAFFIC_CLASS_DISABLE
      else if n = 14 then eTrafficClassAction a = TRAFFIC_CLASS_ALTERNATIVE else bit (v ! 0) n)"
  by (cases "eTrafficClassAction a") (auto simp: av_solve)

lemma av_remark_0 [av_bits]:
  "length v = 7 \<Longrightarrow> n < 16 \<Longrightarrow> bit (av_remark a v ! 0) n \<longleftrightarrow> (if n = 3 then bRemarkAction a else bit (v ! 0) n)"
  by (auto simp: av_solve)

lemma av_xvlan_0 [av_bits]:
  "length v = 7 \<Longrightarrow> n < 16 \<Longrightarrow> bit (av_xvlan a v ! 0) n \<longleftrightarrow>
     (if n = 4 then eVLAN_CrossAction a \<noteq> CROSS_VLAN_DISABLE else bit (v ! 0) n)"
  by (cases "eVLAN_CrossAction a") (auto simp: av_solve)

lemma av_xstate_0 [av_bits]:
  "length v = 7 \<Longrightarrow> n < 16 \<Longrightarrow> bit (av_xstate a v ! 0) n \<longleftrightarrow>
     (if n = 5 then eCrossStateAction a \<noteq> CROSS_STATE_DISABLE else bit (v ! 0) n)"
  by (cases "eCrossStateAction a") (auto simp: av_solve)

lemma av_crit_0 [av_bits]:
  "length v = 7 \<Longrightarrow> n < 16 \<Longrightarrow> bit (av_crit a v ! 0) n \<longleftrightarrow>
     (if n = 6 then eCritFrameAction a \<noteq> CRITICAL_FRAME_DISABLE else bit (v ! 0) n)"
  by (cases "eCritFrameAction a") (auto simp: av_solve)

lemma av_tstamp_0 [av_bits]:
  "length v = 7 \<Longrightarrow> n < 16 \<Longrightarrow> bit (av_tstamp a v ! 0) n \<longleftrightarrow>
     (if n = 7 then eTimestampAction a \<noteq> TIMESTAMP_DISABLE else bit (v ! 0) n)"
  by (cases "eTimestampAction a") (auto simp: av_solve)

lemma av_irq_0 [av_bits]:
  "length v = 7 \<Longrightarrow> n < 16 \<Longrightarrow> bit (av_irq a v ! 0) n \<longleftrightarrow>
     (if n = 8 then eIrqAction a \<noteq> IRQ_DISABLE else if n = 15 then eIrqAction a = IRQ_EVENT else bit (v ! 0) n)"
  by (cases "eIrqAction a") (auto simp: av_solve)

lemma av_learn_0 [av_bits]:
  "length v = 7 \<Longrightarrow> n < 16 \<Longrightarrow> bit (av_learn a v ! 0) n \<longleftrightarrow>
     (if n = 9 then eLearningAction a \<noteq> LEARNING_DISABLE else bit (v ! 0) n)"
  by (cases "eLearningAction a") (auto simp: av_solve)

lemma av_igmp_0 [av_bits]:
  "length v = 7 \<Longrightarrow> n < 16 \<Longrightarrow> bit (av_igmp a v ! 0) n \<longleftrightarrow>
     (if n = 10 then eSnoopingTypeAction a \<noteq> SNOOP_DISABLE else bit (v ! 0) n)"
  by (cases "eSnoopingTypeAction a") (auto simp: av_solve)

lemma av_meter_0 [av_bits]:
  "length v = 7 \<Longrightarrow> n < 16 \<Longrightarrow> bit (av_meter a v ! 0) n \<longleftrightarrow>
     (if n = 11 then eMeterAction a \<noteq> METER_DISABLE else bit (v ! 0) n)"
  by (cases "eMeterAction a") (auto simp: av_solve)

lemma av_rmon_0 [av_bits]:
  "length v = 7 \<Longrightarrow> n < 16 \<Longrightarrow> bit (av_rmon a v ! 0) n \<longleftrightarrow> (if n = 12 then bRMON_Action a else bit (v ! 0) n)"
  by (auto simp: av_solve)

definition enable_bits :: "int \<times> u32 \<Rightarrow> IFX_FLOW_PCE_action \<Rightarrow> bool list" where
  "enable_bits r a =
    [ePortMapAction a \<noteq> PORTMAP_DISABLE, eVLAN_Action a \<noteq> VLAN_DISABLE, eTrafficClassAction a \<noteq> TRAFFIC_CLASS_DISABLE,
     bRemarkAction a, eVLAN_CrossAction a \<noteq> CROSS_VLAN_DISABLE, eCrossStateAction a \<noteq> CROSS_STATE_DISABLE,
     eCritFrameAction a \<noteq> CRITICAL_FRAME_DISABLE, eTimestampAction a \<noteq> TIMESTAMP_DISABLE, eIrqAction a \<noteq> IRQ_DISABLE,
     eLearningAction a \<noteq> LEARNING_DISABLE, eSnoopingTypeAction a \<noteq> SNOOP_DISABLE, eMeterAction a \<noteq> METER_DISABLE,
     bRMON_Action a, eVLAN_Action a = VLAN_ALTERNATIVE \<and> fst r \<noteq> 0x7F,
     eTrafficClassAction a = TRAFFIC_CLASS_ALTERNATIVE, eIrqAction a = IRQ_EVENT]"

lemma less16: "n < (16 :: nat) \<Longrightarrow> n \<in> {0, 1, 2, 3, 4, 5, 6, 7, 8, 9, 10, 11, 12, 13, 14, 15}"
  by (auto simp: less_Suc_eq eval_nat_numeral)

lemma act_vals_enable: "n < 16 \<Longrightarrow> bit (act_vals r a ! 0) n \<longleftrightarrow> enable_bits r a ! n"
  by (drule less16, elim insertE emptyE; simp add: act_vals_def av_middle_def Let_def av_bits enable_bits_def)

section \<open>The fifth value\<close>

text \<open>Learning, forwarding and snooping codes, the RMON counter, and the state overrides.\<close>

definition learn_code :: "IFX_FLOW_PCE_action \<Rightarrow> u16" where
  "learn_code a = (case eLearningAction a of LEARNING_FORCE_NOT \<Rightarrow> 2 | LEARNING_FORCE \<Rightarrow> 3 | _ \<Rightarrow> 0)"

definition forward_code :: "IFX_FLOW_PCE_action \<Rightarrow> u16" where
  "forward_code a = (if ePortMapAction a = PORTMAP_DISABLE then 0
     else if eSnoopingTypeAction a = SNOOP_DISABLE
     then case ePortMapAction a of PORTMAP_REGULAR \<Rightarrow> 0 | PORTMAP_CPU \<Rightarrow> 1 | _ \<Rightarrow> 3
     else if eSnoopingTypeAction a \<in> {SNOOP_REPORT, SNOOP_LEAVE} then 1 else 0)"

definition snoop_code :: "IFX_FLOW_PCE_action \<Rightarrow> u16" where
  "snoop_code a = (case eSnoopingTypeAction a of SNOOP_REPORT \<Rightarrow> 1 | SNOOP_LEAVE \<Rightarrow> 2 | SNOOP_AD \<Rightarrow> 3
     | SNOOP_QUERY \<Rightarrow> 4 | SNOOP_QUERY_GROUP \<Rightarrow> 5 | SNOOP_QUERY_NO_ROUTER \<Rightarrow> 6 | _ \<Rightarrow> 0)"

definition rmon_code :: "IFX_FLOW_PCE_action \<Rightarrow> u16" where
  "rmon_code a = (if bRMON_Action a then ucast (nRMON_Id a) + 1 else 0)"

lemmas av_enum = av_ops Let_def bit_simps bit_bit_at

lemma av_forward_4 [av_bits]:
  "length v = 7 \<Longrightarrow> v ! 4 = 0 \<Longrightarrow> n < 16 \<Longrightarrow>
   bit (av_forward a v ! 4) n \<longleftrightarrow> 2 \<le> n \<and> n < 4 \<and> bit (forward_code a) (n - 2)"
  by (drule less16, cases "ePortMapAction a"; cases "eSnoopingTypeAction a"; elim insertE emptyE;
      simp add: av_forward_def forward_code_def av_enum)

lemma av_flowid_4 [av_bits]:
  "length v = 7 \<Longrightarrow> n < 16 \<Longrightarrow> bit (av_flowid a v ! 4) n \<longleftrightarrow> n = 4 \<and> bFlowID_Action a \<or> bit (v ! 4) n"
  by (auto simp: av_flowid_def av_enum)

lemma av_same_4 [av_bits]:
  "av_vlan0 a v ! 4 = v ! 4" "av_vlan1 r v ! 4 = v ! 4" "av_tclass a v ! 4 = v ! 4" "av_remark a v ! 4 = v ! 4"
  "av_xvlan a v ! 4 = v ! 4" "av_irq a v ! 4 = v ! 4" "av_meter a v ! 4 = v ! 4" "av_remark_bits a v ! 4 = v ! 4"
  "av_ports a v ! 4 = v ! 4"
  by (simp_all add: av_defs av_ops Let_def split: prod.split ActionTrafficClass.split ActionCrossVLAN.split
      ActionIrq.split ActionMeter.split)

lemma av_xstate_4 [av_bits]:
  "length v = 7 \<Longrightarrow> n < 16 \<Longrightarrow> bit (av_xstate a v ! 4) n \<longleftrightarrow>
     (if n = 13 then eCrossStateAction a = CROSS_STATE_CROSS else bit (v ! 4) n)"
  by (cases "eCrossStateAction a") (auto simp: av_xstate_def av_enum)

lemma av_crit_4 [av_bits]:
  "length v = 7 \<Longrightarrow> n < 16 \<Longrightarrow> bit (av_crit a v ! 4) n \<longleftrightarrow>
     (if n = 14 then eCritFrameAction a = CRITICAL_FRAME_CRITICAL else bit (v ! 4) n)"
  by (cases "eCritFrameAction a") (auto simp: av_crit_def av_enum)

lemma av_tstamp_4 [av_bits]:
  "length v = 7 \<Longrightarrow> n < 16 \<Longrightarrow> bit (av_tstamp a v ! 4) n \<longleftrightarrow>
     (if n = 15 then eTimestampAction a = TIMESTAMP_STORED else bit (v ! 4) n)"
  by (cases "eTimestampAction a") (auto simp: av_tstamp_def av_enum)

lemma av_learn_4 [av_bits]:
  "length v = 7 \<Longrightarrow> n < 16 \<Longrightarrow> bit (av_learn a v ! 4) n \<longleftrightarrow> (if n < 2 then bit (learn_code a) n else bit (v ! 4) n)"
  by (drule less16, cases "eLearningAction a"; elim insertE emptyE; simp add: av_learn_def learn_code_def av_enum)

lemma av_igmp_4 [av_bits]:
  "length v = 7 \<Longrightarrow> n < 16 \<Longrightarrow> bit (av_igmp a v ! 4) n \<longleftrightarrow>
     (if 5 \<le> n \<and> n < 8 then bit (snoop_code a) (n - 5) else bit (v ! 4) n)"
  by (drule less16, cases "eSnoopingTypeAction a"; elim insertE emptyE; simp add: av_igmp_def snoop_code_def av_enum)

lemma rmon_code_bits: "nRMON_Id a < 24 \<Longrightarrow> 5 \<le> n \<Longrightarrow> \<not> bit (rmon_code a) n"
proof -
  assume r: "nRMON_Id a < 24" and n: "5 \<le> n"
  have "unat (nRMON_Id a) < 24" using r by (simp add: word_less_nat_alt)
  moreover have "unat (ucast (nRMON_Id a) :: u16) = unat (nRMON_Id a)" by (rule unat_ucast_up) simp
  ultimately have "unat (ucast (nRMON_Id a) + 1 :: u16) < 2 ^ 5" by (simp add: unat_word_ariths)
  then have "rmon_code a < 2 ^ 5" by (simp add: rmon_code_def word_less_nat_alt)
  then have "rmon_code a = rmon_code a AND mask 5" by (simp add: less_mask_eq)
  then show "\<not> bit (rmon_code a) n" using n by (metis bit_and_iff bit_mask_iff leD)
qed

lemma av_rmon_4 [av_bits]:
  assumes "length v = 7" "n < 16" "bRMON_Action a \<longrightarrow> nRMON_Id a < 24"
  shows "bit (av_rmon a v ! 4) n \<longleftrightarrow> (if 8 \<le> n \<and> n < 13 then bit (rmon_code a) (n - 8) else bit (v ! 4) n)"
proof (cases "bRMON_Action a")
  case True
  have m: "(0x1F :: u16) = mask 5" by (simp add: mask_eq_exp_minus_1)
  have "av_rmon a v ! 4 = (v ! 4 AND NOT (push_bit 8 (mask 5))) OR push_bit 8 (rmon_code a)"
    using assms(1) True by (simp add: av_rmon_def av_ops rmon_code_def flip: m)
  moreover have "\<not> n < 13 \<Longrightarrow> \<not> bit (rmon_code a) (n - 8)" using rmon_code_bits [of a "n - 8"] assms(3) True by simp
  ultimately show ?thesis using assms(2) by (auto simp: bit_simps)
next
  case False
  show ?thesis using less16 [OF assms(2)] assms(1) False
    by (elim insertE emptyE; simp add: av_rmon_def rmon_code_def av_enum)
qed

lemma act_vals_code:
  assumes "n < 16" "act_ok a"
  shows "bit (act_vals r a ! 4) n \<longleftrightarrow>
    (if n < 2 then bit (learn_code a) n
     else if n < 4 then bit (forward_code a) (n - 2)
     else if n = 4 then bFlowID_Action a
     else if n < 8 then bit (snoop_code a) (n - 5)
     else if n < 13 then bit (rmon_code a) (n - 8)
     else if n = 13 then eCrossStateAction a = CROSS_STATE_CROSS
     else if n = 14 then eCritFrameAction a = CRITICAL_FRAME_CRITICAL
     else eTimestampAction a = TIMESTAMP_STORED)"
proof -
  have "bRMON_Action a \<longrightarrow> nRMON_Id a < 24" using assms(2) by (simp add: act_ok_def)
  then show ?thesis using assms(1) by (auto simp: act_vals_def av_middle_def Let_def av_bits)
qed

section \<open>The fourth value\<close>

text \<open>
  Meter, traffic class, remarking and the cross-VLAN override. The meter group is written after
  the traffic class and the cross-VLAN bit, and with an assignment: with a meter they are lost.
\<close>

definition tclass_code :: "IFX_FLOW_PCE_action \<Rightarrow> u16" where
  "tclass_code a = (case eTrafficClassAction a of TRAFFIC_CLASS_DISABLE \<Rightarrow> 0xF | TRAFFIC_CLASS_REGULAR \<Rightarrow> 0
     | TRAFFIC_CLASS_ALTERNATIVE \<Rightarrow> ucast (nTrafficClassAlternate a) AND 0xF)"

lemma av_same_3 [av_bits]:
  "av_forward a v ! 3 = v ! 3" "av_flowid a v ! 3 = v ! 3" "av_vlan0 a v ! 3 = v ! 3" "av_vlan1 r v ! 3 = v ! 3"
  "av_remark a v ! 3 = v ! 3" "av_xstate a v ! 3 = v ! 3" "av_crit a v ! 3 = v ! 3" "av_tstamp a v ! 3 = v ! 3"
  "av_irq a v ! 3 = v ! 3" "av_learn a v ! 3 = v ! 3" "av_igmp a v ! 3 = v ! 3" "av_rmon a v ! 3 = v ! 3"
  "av_ports a v ! 3 = v ! 3"
  by (simp_all add: av_defs av_ops Let_def split: prod.split ActionPortmap.split ActionIGMP_Snoop.split
      ActionCrossState.split ActionCriticalFrame.split ActionTimestamp.split ActionIrq.split ActionLearning.split)

lemma av_tclass_3 [av_bits]:
  assumes "length v = 7" "v ! 3 = 0" "n < 16"
  shows "bit (av_tclass a v ! 3) n \<longleftrightarrow> 8 \<le> n \<and> n < 12 \<and> bit (tclass_code a) (n - 8)"
  using less16 [OF assms(3)] assms(1,2)
  by (cases "eTrafficClassAction a"; elim insertE emptyE; simp add: av_tclass_def tclass_code_def av_enum)

lemma av_xvlan_3 [av_bits]:
  "length v = 7 \<Longrightarrow> n < 16 \<Longrightarrow> bit (av_xvlan a v ! 3) n \<longleftrightarrow> n = 15 \<and> eVLAN_CrossAction a = CROSS_VLAN_CROSS \<or> bit (v ! 3) n"
  by (cases "eVLAN_CrossAction a") (auto simp: av_xvlan_def av_enum)

definition meter_code :: "IFX_FLOW_PCE_action \<Rightarrow> u16" where
  "meter_code a = (ucast (nMeterId a) AND 0x1F) OR
     (case eMeterAction a of METER_1 \<Rightarrow> 0x40 | METER_1_2 \<Rightarrow> 0xC0 | _ \<Rightarrow> 0)"

lemma av_meter_3 [av_bits]:
  assumes "length v = 7"
  shows "av_meter a v ! 3 = (if eMeterAction a = METER_DISABLE then v ! 3 OR 0x1F else meter_code a)"
  using assms by (cases "eMeterAction a") (simp_all add: av_meter_def meter_code_def av_ops Let_def)

lemma av_remark_bits_3 [av_bits]:
  assumes "length v = 7" "n < 16"
  shows "bit (av_remark_bits a v ! 3) n \<longleftrightarrow>
     (if n = 12 then \<not> bRemarkDSCP a else if n = 13 then \<not> bRemarkClass a else if n = 14 then \<not> bRemarkPCP a
      else bit (v ! 3) n)"
  using less16 [OF assms(2)] assms(1)
  by (elim insertE emptyE; simp add: av_remark_bits_def av_enum)

lemma act_vals_meter:
  assumes n: "n < 16"
  shows "bit (act_vals r a ! 3) n \<longleftrightarrow>
    (if n = 12 then \<not> bRemarkDSCP a else if n = 13 then \<not> bRemarkClass a else if n = 14 then \<not> bRemarkPCP a
     else if eMeterAction a \<noteq> METER_DISABLE then bit (meter_code a) n
     else if n < 5 then True
     else if 8 \<le> n \<and> n < 12 then bit (tclass_code a) (n - 8)
     else n = 15 \<and> eVLAN_CrossAction a = CROSS_VLAN_CROSS)"
proof -
  have "bit (0x1F :: u16) n \<longleftrightarrow> n < 5" by (rule bit_mask2)
  then show ?thesis using n by (auto simp: act_vals_def av_middle_def Let_def av_bits bit_or_iff)
qed

end
