(* ===== verification/PCE_Roundtrip.thy ===== *)
theory PCE_Roundtrip
  imports PCE_Read
begin

text \<open>
  What is written is read back. \<open>canonical\<close> are the patterns in the form \<^verbatim>\<open>ifx_pce_rule_read\<close> produces:
  fields that are not enabled are zero, values fit the bits the tables keep of them. The lemmas
  follow the reader field by field; the tables of a written rule hold what the pattern asked for.
\<close>

unbundle bit_operations_syntax

section \<open>Byte order\<close>

lemma join_bytes16: "push_bit 8 (ucast (ucast (drop_bit 8 x) :: u8)) OR ucast (ucast x :: u8) = (x :: u16)"
  by (rule bit_word_eqI) (auto simp: bit_simps)

lemma join_halves32: "push_bit 16 (ucast (ucast (drop_bit 16 m) :: u16)) OR ucast (ucast m :: u16) = (m :: u32)"
  by (rule bit_word_eqI) (auto simp: bit_simps)

lemma length4: "length w = 4 \<Longrightarrow> [w ! 0, w ! 1, w ! 2, w ! 3] = w"
  by (auto simp: length_Suc_conv eval_nat_numeral)

lemma half_words_bytes: "length w = 4 \<Longrightarrow> half_words (half_bytes w) = w"
  using length4 [of w] by (simp add: half_words_def half_bytes_def join_bytes16 [simplified])

lemma ipv6_halves: "length ip = 8 \<Longrightarrow> half_words (half_bytes (take 4 ip)) @ half_words (half_bytes (drop 4 ip)) = ip"
  by (simp add: half_words_bytes)

lemma bytes_nIPv4_v4_bytes: "bytes_nIPv4 (v4_bytes ip g) = nIPv4 ip"
proof -
  have "ucast (ucast w :: u8) OR push_bit 8 (ucast (ucast (drop_bit 8 w) :: u8)) OR
      push_bit 16 (ucast (ucast (drop_bit 16 w) :: u8)) OR push_bit 24 (ucast (ucast (drop_bit 24 w) :: u8)) = w" for w :: u32
  proof (rule bit_word_eqI)
    fix n assume "n < LENGTH(32)"
    then show "bit (ucast (ucast w :: u8) OR push_bit 8 (ucast (ucast (drop_bit 8 w) :: u8)) OR
      push_bit 16 (ucast (ucast (drop_bit 16 w) :: u8)) OR push_bit 24 (ucast (ucast (drop_bit 24 w) :: u8)) :: u32) n = bit w n"
      by (cases "n < 16"; cases "n < 24") (auto simp: bit_simps)
  qed
  then show ?thesis by (simp add: bytes_nIPv4_def v4_bytes_def)
qed

lemma nIPv4_words: "ucast (drop_bit 16 (nIPv4 ip)) = ip ! 0" "ucast (nIPv4 ip) = ip ! 1"
  by (rule bit_word_eqI, auto simp: nIPv4_def bit_simps dest: bit_imp_le_length)+

lemma set_nIPv4_nIPv4:
  assumes "length ip = 8" "drop 2 ip = replicate 6 0"
  shows "set_nIPv4 (nIPv4 ip) (replicate 8 0) = ip"
proof -
  have "replicate 8 (0::u16) = 0 # 0 # replicate 6 0" by (simp add: eval_nat_numeral)
  then have "set_nIPv4 (nIPv4 ip) (replicate 8 0) = [ip ! 0, ip ! 1] @ replicate 6 0"
    by (simp add: set_nIPv4_def nIPv4_words)
  also have "[ip ! 0, ip ! 1] = take 2 ip"
    using assms(1) by (intro nth_equalityI) (auto simp: less_Suc_eq numeral_eq_Suc)
  finally show ?thesis unfolding assms(2) [symmetric] by simp
qed

lemma map_nth6: "length xs = 6 \<Longrightarrow> map (\<lambda>i. xs ! i) [0..<6] = xs"
  by (metis map_nth)

section \<open>Canonical patterns\<close>

definition canon_ip :: "IFX_FLOW_PCE_IP \<Rightarrow> u16 list \<Rightarrow> u32 \<Rightarrow> bool" where
  "canon_ip sel ip m \<longleftrightarrow> length ip = 8 \<and>
     (case sel of IP_DISABLED \<Rightarrow> ip = replicate 8 0 \<and> m = 0
      | IP_V4 \<Rightarrow> drop 2 ip = replicate 6 0 \<and> m = ucast (ucast m OR 0xFF00 :: u16)
      | IP_V6 \<Rightarrow> msb_row ip m \<noteq> zero_ip \<and> lsb_row ip m \<noteq> zero_ip)"

definition canonical :: "IFX_FLOW_PCE_pattern \<Rightarrow> bool" where
  "canonical p \<longleftrightarrow> bEnable p \<and>
     (if bPortIdEnable p then nPortId p \<noteq> 0xFF else nPortId p = 0) \<and>
     (if bDSCP_Enable p then nDSCP p < 0x7F else nDSCP p = 0) \<and>
     (if bPCP_Enable p then nPCP p < 0xF else nPCP p = 0) \<and>
     (\<not> bPktLngEnable p \<longrightarrow> nPktLng p = 0 \<and> nPktLngRange p = 0) \<and>
     length (nMAC_Dst p) = 6 \<and> (\<not> bMAC_DstEnable p \<longrightarrow> nMAC_Dst p = replicate 6 0 \<and> nMAC_DstMask p = 0) \<and>
     length (nMAC_Src p) = 6 \<and> (\<not> bMAC_SrcEnable p \<longrightarrow> nMAC_Src p = replicate 6 0 \<and> nMAC_SrcMask p = 0) \<and>
     (\<not> bAppDataMSB_Enable p \<longrightarrow> nAppDataMSB p = 0 \<and> \<not> bAppMaskRangeMSB_Select p \<and> nAppMaskRangeMSB p = 0) \<and>
     (\<not> bAppDataLSB_Enable p \<longrightarrow> nAppDataLSB p = 0 \<and> \<not> bAppMaskRangeLSB_Select p \<and> nAppMaskRangeLSB p = 0) \<and>
     canon_ip (eDstIP_Select p) (nDstIP p) (nDstIP_Mask p) \<and> canon_ip (eSrcIP_Select p) (nSrcIP p) (nSrcIP_Mask p) \<and>
     (\<not> bEtherTypeEnable p \<longrightarrow> nEtherType p = 0 \<and> nEtherTypeMask p = 0) \<and>
     (if bProtocolEnable p then nProtocolMask p < 4 else nProtocol p = 0 \<and> nProtocolMask p = 0) \<and>
     nSessionId p = 0 \<and> (if bVid p then nVid p < 0x1000 else nVid p = 0)"

section \<open>The reader, field by field\<close>

text \<open>A field of a written rule, when no IP table is full.\<close>

definition stored :: "(ffield \<Rightarrow> tentry option) \<Rightarrow> IFX_PCE_TBL \<Rightarrow> IFX_PCE_HANDLE \<Rightarrow> bool" where
  "stored W F H \<longleftrightarrow> (\<forall>f. case W f of None \<Rightarrow> fget f F = fany f
     | Some e \<Rightarrow> fget f F < tsize (fkind f) \<and> tabs H (fkind f) ! fget f F = e)"

lemma stored_None: "stored W F H \<Longrightarrow> W f = None \<Longrightarrow> fget f F = fany f"
  by (auto simp: stored_def dest: spec [of _ f])

lemma stored_Some: "stored W F H \<Longrightarrow> W f = Some e \<Longrightarrow> fget f F < tsize (fkind f) \<and> tabs H (fkind f) ! fget f F = e"
  by (auto simp: stored_def split: option.splits)

lemma field_ok_stored:
  assumes f: "\<And>f. field_ok W f F H" and n: "\<not> table_full IPMSB H" "\<not> table_full IPLSB H"
    and z: "\<And>f. \<not> exact (fkind f) \<Longrightarrow> W f \<noteq> Some (tzero (fkind f))"
  shows "stored W F H"
  unfolding stored_def
proof
  fix f
  have "\<not> (f \<in> {FDMsb, FDLsb, FSMsb} \<and> table_full (fkind f) H)" using n by auto
  then show "case W f of None \<Rightarrow> fget f F = fany f
     | Some e \<Rightarrow> fget f F < tsize (fkind f) \<and> tabs H (fkind f) ! fget f F = e"
    using f [of f] z [of f] by (auto simp: field_ok_def holds_def split: option.splits)
qed

lemma mask3: "(3 :: u16) = mask 2"
  by (simp add: mask_eq_exp_minus_1)

lemma prot_row_read:
  "ucast (drop_bit 8 (ptcl_key (prot_row p g))) = nProtocol p"
  "nProtocolMask p < 4 \<Longrightarrow> ucast (drop_bit 2 (ptcl_mask (prot_row p g))) AND 3 = nProtocolMask p"
proof -
  show "ucast (drop_bit 8 (ptcl_key (prot_row p g))) = nProtocol p"
    by (rule bit_word_eqI) (auto simp: prot_row_def bit_simps)
  assume "nProtocolMask p < 4"
  then have "nProtocolMask p AND mask 2 = nProtocolMask p" by (simp add: less_mask_eq)
  moreover have "ucast (drop_bit 2 (ptcl_mask (prot_row p g))) AND mask 2 = nProtocolMask p AND mask 2"
    by (rule bit_word_eqI) (auto simp: prot_row_def mask3 bit_simps)
  moreover have "mask 2 = (3 :: u8)" by (simp add: mask_eq_exp_minus_1)
  ultimately show "ucast (drop_bit 2 (ptcl_mask (prot_row p g))) AND 3 = nProtocolMask p" by simp
qed

lemma sess_id_zero: "nIndex p < 64 \<Longrightarrow> (ucast (drop_bit 16 (nIndex p)) :: u16) = 0"
proof -
  assume "nIndex p < 64"
  then have "unat (nIndex p) < 2 ^ 16" by (simp add: word_less_nat_alt)
  then have "drop_bit 16 (nIndex p) = 0"
    by (metis div_less unat_drop_bit_eq unat_eq_0 drop_bit_eq_div)
  then show ?thesis by simp
qed

lemma stored_row:
  assumes "stored W F H" "tables_ok H"
  shows "(W f = None \<and> fget f F = fany f) \<or> (\<exists>e. W f = Some e \<and> fget f F < tsize (fkind f) \<and> fget f F \<noteq> fany f \<and>
    length (tabs H (fkind f)) = tsize (fkind f) \<and> tabs H (fkind f) ! fget f F = e)"
  using assms tsize_any [of f] by (cases "W f") (auto simp: tables_ok_def dest: stored_None stored_Some)

text \<open>Each reader yields the values of the pattern, given that what it leaves alone is already so.\<close>

lemma stored_pkt_lng:
  assumes st: "stored (want g p) F H" "tables_ok H"
    and z: "\<not> bPktLngEnable p \<Longrightarrow> \<not> bPktLngEnable q \<and> nPktLng q = nPktLng p \<and> nPktLngRange q = nPktLngRange p"
  shows "rd_pkt_lng H F q = Some (q\<lparr>bPktLngEnable := bPktLngEnable p, nPktLng := nPktLng p, nPktLngRange := nPktLngRange p\<rparr>)"
proof (cases "bPktLngEnable p")
  case True
  then show ?thesis using stored_row [OF st, of FPkt] by (auto simp: rd_defs read_defs)
next
  case False
  then have any: "rd_pkt_lng H F q = Some q" using stored_None [OF st(1), of FPkt] by (simp add: rd_defs unat_eq_num)
  have "bPktLngEnable p = bPktLngEnable q" "nPktLng p = nPktLng q" "nPktLngRange p = nPktLngRange q" using z False by simp_all
  then show ?thesis by (simp add: any)
qed

lemma stored_dst_mac:
  assumes st: "stored (want g p) F H" "tables_ok H" and l: "length (nMAC_Dst p) = 6"
    and z: "\<not> bMAC_DstEnable p \<Longrightarrow> \<not> bMAC_DstEnable q \<and> nMAC_Dst q = nMAC_Dst p \<and> nMAC_DstMask q = nMAC_DstMask p"
  shows "rd_dst_mac H F q = Some (q\<lparr>bMAC_DstEnable := bMAC_DstEnable p, nMAC_Dst := nMAC_Dst p, nMAC_DstMask := nMAC_DstMask p\<rparr>)"
proof (cases "bMAC_DstEnable p")
  case True
  then show ?thesis using stored_row [OF st, of FDMac] map_nth6 [OF l] by (auto simp: rd_defs read_defs cong: map_cong)
next
  case False
  then have any: "rd_dst_mac H F q = Some q" using stored_None [OF st(1), of FDMac] by (simp add: rd_defs unat_eq_num)
  have "bMAC_DstEnable p = bMAC_DstEnable q" "nMAC_Dst p = nMAC_Dst q" "nMAC_DstMask p = nMAC_DstMask q" using z False by simp_all
  then show ?thesis by (simp add: any)
qed

lemma stored_src_mac:
  assumes st: "stored (want g p) F H" "tables_ok H" and l: "length (nMAC_Src p) = 6"
    and z: "\<not> bMAC_SrcEnable p \<Longrightarrow> \<not> bMAC_SrcEnable q \<and> nMAC_Src q = nMAC_Src p \<and> nMAC_SrcMask q = nMAC_SrcMask p"
  shows "rd_src_mac H F q = Some (q\<lparr>bMAC_SrcEnable := bMAC_SrcEnable p, nMAC_Src := nMAC_Src p, nMAC_SrcMask := nMAC_SrcMask p\<rparr>)"
proof (cases "bMAC_SrcEnable p")
  case True
  then show ?thesis using stored_row [OF st, of FSMac] map_nth6 [OF l] by (auto simp: rd_defs read_defs cong: map_cong)
next
  case False
  then have any: "rd_src_mac H F q = Some q" using stored_None [OF st(1), of FSMac] by (simp add: rd_defs unat_eq_num)
  have "bMAC_SrcEnable p = bMAC_SrcEnable q" "nMAC_Src p = nMAC_Src q" "nMAC_SrcMask p = nMAC_SrcMask q" using z False by simp_all
  then show ?thesis by (simp add: any)
qed

lemma stored_dst_appl:
  assumes st: "stored (want g p) F H" "tables_ok H"
    and z: "\<not> bAppDataMSB_Enable p \<Longrightarrow> \<not> bAppDataMSB_Enable q \<and> nAppDataMSB q = nAppDataMSB p \<and> bAppMaskRangeMSB_Select q = bAppMaskRangeMSB_Select p \<and> nAppMaskRangeMSB q = nAppMaskRangeMSB p"
  shows "rd_dst_appl H F q = Some (q\<lparr>bAppDataMSB_Enable := bAppDataMSB_Enable p, nAppDataMSB := nAppDataMSB p, bAppMaskRangeMSB_Select := bAppMaskRangeMSB_Select p, nAppMaskRangeMSB := nAppMaskRangeMSB p\<rparr>)"
proof (cases "bAppDataMSB_Enable p")
  case True
  then show ?thesis using stored_row [OF st, of FDAppl] by (auto simp: rd_defs read_defs)
next
  case False
  then have any: "rd_dst_appl H F q = Some q" using stored_None [OF st(1), of FDAppl] by (simp add: rd_defs unat_eq_num)
  have "bAppDataMSB_Enable p = bAppDataMSB_Enable q" "nAppDataMSB p = nAppDataMSB q" "bAppMaskRangeMSB_Select p = bAppMaskRangeMSB_Select q" "nAppMaskRangeMSB p = nAppMaskRangeMSB q" using z False by simp_all
  then show ?thesis by (simp add: any)
qed

lemma stored_src_appl:
  assumes st: "stored (want g p) F H" "tables_ok H"
    and z: "\<not> bAppDataLSB_Enable p \<Longrightarrow> \<not> bAppDataLSB_Enable q \<and> nAppDataLSB q = nAppDataLSB p \<and> bAppMaskRangeLSB_Select q = bAppMaskRangeLSB_Select p \<and> nAppMaskRangeLSB q = nAppMaskRangeLSB p"
  shows "rd_src_appl H F q = Some (q\<lparr>bAppDataLSB_Enable := bAppDataLSB_Enable p, nAppDataLSB := nAppDataLSB p, bAppMaskRangeLSB_Select := bAppMaskRangeLSB_Select p, nAppMaskRangeLSB := nAppMaskRangeLSB p\<rparr>)"
proof (cases "bAppDataLSB_Enable p")
  case True
  then show ?thesis using stored_row [OF st, of FSAppl] by (auto simp: rd_defs read_defs)
next
  case False
  then have any: "rd_src_appl H F q = Some q" using stored_None [OF st(1), of FSAppl] by (simp add: rd_defs unat_eq_num)
  have "bAppDataLSB_Enable p = bAppDataLSB_Enable q" "nAppDataLSB p = nAppDataLSB q" "bAppMaskRangeLSB_Select p = bAppMaskRangeLSB_Select q" "nAppMaskRangeLSB p = nAppMaskRangeLSB q" using z False by simp_all
  then show ?thesis by (simp add: any)
qed

lemma stored_ethertype:
  assumes st: "stored (want g p) F H" "tables_ok H"
    and z: "\<not> bEtherTypeEnable p \<Longrightarrow> \<not> bEtherTypeEnable q \<and> nEtherType q = nEtherType p \<and> nEtherTypeMask q = nEtherTypeMask p"
  shows "rd_ethertype H F q = Some (q\<lparr>bEtherTypeEnable := bEtherTypeEnable p, nEtherType := nEtherType p, nEtherTypeMask := nEtherTypeMask p\<rparr>)"
proof (cases "bEtherTypeEnable p")
  case True
  then show ?thesis using stored_row [OF st, of FEty] by (auto simp: rd_defs read_defs)
next
  case False
  then have any: "rd_ethertype H F q = Some q" using stored_None [OF st(1), of FEty] by (simp add: rd_defs unat_eq_num)
  have "bEtherTypeEnable p = bEtherTypeEnable q" "nEtherType p = nEtherType q" "nEtherTypeMask p = nEtherTypeMask q" using z False by simp_all
  then show ?thesis by (simp add: any)
qed

lemma stored_prot:
  assumes st: "stored (want g p) F H" "tables_ok H" and m: "bProtocolEnable p \<longrightarrow> nProtocolMask p < 4"
    and z: "\<not> bProtocolEnable p \<Longrightarrow> \<not> bProtocolEnable q \<and> nProtocol q = nProtocol p \<and> nProtocolMask q = nProtocolMask p"
  shows "rd_prot H F q = Some (q\<lparr>bProtocolEnable := bProtocolEnable p, nProtocol := nProtocol p, nProtocolMask := nProtocolMask p\<rparr>)"
proof (cases "bProtocolEnable p")
  case True
  then have r: "unat (ip_prot_idx F) < IFX_PCE_PTCL_TBL_SIZE" "ip_prot_idx F \<noteq> 0xFF" "ptcl_tbl H ! unat (ip_prot_idx F) = prot_row p g"
    using stored_row [OF st, of FProt] by auto
  show ?thesis using True m r(1,2) by (simp add: rd_defs read_defs r(3) prot_row_read)
next
  case False
  then have any: "rd_prot H F q = Some q" using stored_None [OF st(1), of FProt] by (simp add: rd_defs unat_eq_num)
  have "bProtocolEnable p = bProtocolEnable q" "nProtocol p = nProtocol q" "nProtocolMask p = nProtocolMask q" using z False by simp_all
  then show ?thesis by (simp add: any)
qed

lemma stored_pppoe:
  assumes st: "stored (want g p) F H" "tables_ok H" and s: "nSessionId p = 0" and i: "nIndex p < 64"
    and z: "\<not> bSessionIdEnable p \<Longrightarrow> \<not> bSessionIdEnable q \<and> nSessionId q = nSessionId p"
  shows "rd_pppoe H F q = Some (q\<lparr>bSessionIdEnable := bSessionIdEnable p, nSessionId := nSessionId p\<rparr>)"
proof (cases "bSessionIdEnable p")
  case True
  then have r: "unat (pppoe_idx F) < IFX_PCE_PPPOE_TBL_SIZE" "pppoe_idx F \<noteq> 0x1F"
      "pppoe_tbl H ! unat (pppoe_idx F) = \<lparr>sess_id = ucast (drop_bit 16 (nIndex p))\<rparr>"
    using stored_row [OF st, of FPpp] by auto
  show ?thesis using True s r(1,2) by (simp add: rd_defs read_defs r(3) sess_id_zero [OF i])
next
  case False
  then have any: "rd_pppoe H F q = Some q" using stored_None [OF st(1), of FPpp] by (simp add: rd_defs unat_eq_num)
  have "bSessionIdEnable p = bSessionIdEnable q" "nSessionId p = nSessionId q" using z False by simp_all
  then show ?thesis by (simp add: any)
qed

lemma stored_dip:
  assumes st: "stored (want g p) F H" "tables_ok H"
    and c: "canon_ip (eDstIP_Select p) (nDstIP p) (nDstIP_Mask p)"
    and z: "eDstIP_Select q = IP_DISABLED" "nDstIP q = replicate 8 0" "nDstIP_Mask q = 0"
  shows "rd_dip H F q = Some (q\<lparr>eDstIP_Select := eDstIP_Select p, nDstIP := nDstIP p, nDstIP_Mask := nDstIP_Mask p\<rparr>)"
proof (cases "eDstIP_Select p")
  case IP_DISABLED
  then have "rd_dip H F q = Some q"
    using stored_None [OF st(1), of FDMsb] stored_None [OF st(1), of FDLsb] by (simp add: rd_defs unat_eq_num)
  moreover have "eDstIP_Select p = eDstIP_Select q" "nDstIP p = nDstIP q" "nDstIP_Mask p = nDstIP_Mask q"
    using c z IP_DISABLED by (simp_all add: canon_ip_def)
  ultimately show ?thesis by simp
next
  case IP_V4
  then have r: "unat (dip_lsb_idx F) < IFX_PCE_IP_DASA_LSB_TBL_SIZE" "dip_lsb_idx F \<noteq> 0xFF" "dip_msb_idx F = 0xFF"
      "ip_dasa_lsb_tbl H ! unat (dip_lsb_idx F) = v4_row (nDstIP p) (nDstIP_Mask p) (g_ip_dst g)"
    using stored_row [OF st, of FDLsb] stored_None [OF st(1), of FDMsb] by (auto simp: unat_eq_num)
  have m: "ucast (ucast (nDstIP_Mask p) OR 0xFF00 :: u16) = nDstIP_Mask p"
    and a: "set_nIPv4 (nIPv4 (nDstIP p)) (replicate 8 0) = nDstIP p"
    using c IP_V4 by (simp_all add: canon_ip_def set_nIPv4_nIPv4)
  show ?thesis
    using r(1-3) by (simp add: rd_defs read_defs r(4) v4_row_def bytes_nIPv4_v4_bytes IP_V4 z(2) m a)
next
  case IP_V6
  then have l: "unat (dip_lsb_idx F) < IFX_PCE_IP_DASA_LSB_TBL_SIZE" "dip_lsb_idx F \<noteq> 0xFF"
      "ip_dasa_lsb_tbl H ! unat (dip_lsb_idx F) = lsb_row (nDstIP p) (nDstIP_Mask p)"
    using stored_row [OF st, of FDLsb] by auto
  from IP_V6 have m: "unat (dip_msb_idx F) < IFX_PCE_IP_DASA_MSB_TBL_SIZE" "dip_msb_idx F \<noteq> 0xFF"
      "ip_dasa_msb_tbl H ! unat (dip_msb_idx F) = msb_row (nDstIP p) (nDstIP_Mask p)"
    using stored_row [OF st, of FDMsb] by auto
  have h: "half_words (half_bytes (take 4 (nDstIP p))) @ half_words (half_bytes (drop 4 (nDstIP p))) = nDstIP p"
    using c by (simp add: canon_ip_def ipv6_halves)
  show ?thesis
    using l(1,2) m(1,2) by (simp add: rd_defs read_defs l(3) m(3) msb_row_def lsb_row_def IP_V6 h join_halves32)
qed

lemma stored_sip:
  assumes st: "stored (want g p) F H" "tables_ok H"
    and c: "canon_ip (eSrcIP_Select p) (nSrcIP p) (nSrcIP_Mask p)"
    and z: "eSrcIP_Select q = IP_DISABLED" "nSrcIP q = replicate 8 0" "nSrcIP_Mask q = 0"
  shows "rd_sip H F q = Some (q\<lparr>eSrcIP_Select := eSrcIP_Select p, nSrcIP := nSrcIP p, nSrcIP_Mask := nSrcIP_Mask p\<rparr>)"
proof (cases "eSrcIP_Select p")
  case IP_DISABLED
  then have "rd_sip H F q = Some q"
    using stored_None [OF st(1), of FSMsb] stored_None [OF st(1), of FSLsb] by (simp add: rd_defs unat_eq_num)
  moreover have "eSrcIP_Select p = eSrcIP_Select q" "nSrcIP p = nSrcIP q" "nSrcIP_Mask p = nSrcIP_Mask q"
    using c z IP_DISABLED by (simp_all add: canon_ip_def)
  ultimately show ?thesis by simp
next
  case IP_V4
  then have r: "unat (sip_lsb_idx F) < IFX_PCE_IP_DASA_LSB_TBL_SIZE" "sip_lsb_idx F \<noteq> 0xFF" "sip_msb_idx F = 0xFF"
      "ip_dasa_lsb_tbl H ! unat (sip_lsb_idx F) = v4_row (nSrcIP p) (nSrcIP_Mask p) (g_ip_src g)"
    using stored_row [OF st, of FSLsb] stored_None [OF st(1), of FSMsb] by (auto simp: unat_eq_num)
  have m: "ucast (ucast (nSrcIP_Mask p) OR 0xFF00 :: u16) = nSrcIP_Mask p"
    and a: "set_nIPv4 (nIPv4 (nSrcIP p)) (replicate 8 0) = nSrcIP p"
    using c IP_V4 by (simp_all add: canon_ip_def set_nIPv4_nIPv4)
  show ?thesis
    using r(1-3) by (simp add: rd_defs read_defs r(4) v4_row_def bytes_nIPv4_v4_bytes IP_V4 z(2) m a)
next
  case IP_V6
  then have l: "unat (sip_lsb_idx F) < IFX_PCE_IP_DASA_LSB_TBL_SIZE" "sip_lsb_idx F \<noteq> 0xFF"
      "ip_dasa_lsb_tbl H ! unat (sip_lsb_idx F) = lsb_row (nSrcIP p) (nSrcIP_Mask p)"
    using stored_row [OF st, of FSLsb] by auto
  from IP_V6 have m: "unat (sip_msb_idx F) < IFX_PCE_IP_DASA_MSB_TBL_SIZE" "sip_msb_idx F \<noteq> 0xFF"
      "ip_dasa_msb_tbl H ! unat (sip_msb_idx F) = msb_row (nSrcIP p) (nSrcIP_Mask p)"
    using stored_row [OF st, of FSMsb] by auto
  have h: "half_words (half_bytes (take 4 (nSrcIP p))) @ half_words (half_bytes (drop 4 (nSrcIP p))) = nSrcIP p"
    using c by (simp add: canon_ip_def ipv6_halves)
  show ?thesis
    using l(1,2) m(1,2) by (simp add: rd_defs read_defs l(3) m(3) msb_row_def lsb_row_def IP_V6 h join_halves32)
qed

section \<open>The pattern as a whole\<close>

lemma dscp_fits: "(x :: u8) < 0x7F \<Longrightarrow> (ucast x :: 7 word) \<noteq> 0x7F \<and> ucast (ucast x :: 7 word) = x"
proof -
  assume "x < 0x7F"
  then have u: "unat x < 127" by (simp add: word_less_nat_alt)
  then have "unat (ucast x :: 7 word) = unat x" by (simp add: unsigned_ucast_eq take_bit_eq_mod)
  moreover have "unat (ucast (ucast x :: 7 word) :: u8) = unat (ucast x :: 7 word)" by (rule unat_ucast_up) simp
  ultimately show ?thesis using u by (auto simp: word_unat_eq_iff)
qed

lemma pcp_fits: "(x :: u8) < 0xF \<Longrightarrow> (ucast x :: 4 word) \<noteq> 0xF \<and> ucast (ucast x :: 4 word) = x"
proof -
  assume "x < 0xF"
  then have u: "unat x < 15" by (simp add: word_less_nat_alt)
  then have "unat (ucast x :: 4 word) = unat x" by (simp add: unsigned_ucast_eq take_bit_eq_mod)
  moreover have "unat (ucast (ucast x :: 4 word) :: u8) = unat (ucast x :: 4 word)" by (rule unat_ucast_up) simp
  ultimately show ?thesis using u by (auto simp: word_unat_eq_iff)
qed

lemma rd_plain:
  assumes pl: "plain p t 14 F" and c: "canonical p"
  shows "rd_port F q = q\<lparr>nPortId := nPortId p, bPortIdEnable := bPortIdEnable p\<rparr>"
    "rd_dscp F q = q\<lparr>nDSCP := nDSCP p, bDSCP_Enable := bDSCP_Enable p\<rparr>"
    "rd_pcp F q = q\<lparr>nPCP := nPCP p, bPCP_Enable := bPCP_Enable p\<rparr>"
proof -
  show "rd_port F q = q\<lparr>nPortId := nPortId p, bPortIdEnable := bPortIdEnable p\<rparr>"
    using pl c by (cases "bPortIdEnable p") (simp_all add: rd_port_def plain_def canonical_def)
  have "nDSCP p < 0x7F" if "bDSCP_Enable p" using c that by (simp add: canonical_def)
  then show "rd_dscp F q = q\<lparr>nDSCP := nDSCP p, bDSCP_Enable := bDSCP_Enable p\<rparr>"
    using pl c dscp_fits [of "nDSCP p"] by (cases "bDSCP_Enable p") (simp_all add: rd_dscp_def plain_def canonical_def)
  have "nPCP p < 0xF" if "bPCP_Enable p" using c that by (simp add: canonical_def)
  then show "rd_pcp F q = q\<lparr>nPCP := nPCP p, bPCP_Enable := bPCP_Enable p\<rparr>"
    using pl c pcp_fits [of "nPCP p"] by (cases "bPCP_Enable p") (simp_all add: rd_pcp_def plain_def canonical_def)
qed

lemma rd_fields_stored:
  assumes st: "stored (want g p) F H" "tables_ok H" and c: "canonical p" and i: "nIndex p < 64" and pl: "plain p t 14 F"
  shows "rd_fields H F (zero_pattern\<lparr>nIndex := nIndex p, bEnable := True\<rparr>) = Some (p\<lparr>bVid := False, nVid := 0\<rparr>)"
proof -
  note cs = c [unfolded canonical_def]
  note r = stored_pkt_lng [OF st] stored_dst_mac [OF st] stored_src_mac [OF st] stored_dst_appl [OF st]
    stored_src_appl [OF st] stored_dip [OF st] stored_sip [OF st] stored_ethertype [OF st] stored_prot [OF st]
    stored_pppoe [OF st _ i]
  show ?thesis
    unfolding rd_fields_def Let_def rd_plain [OF pl c]
    by (simp add: r cs zero_pattern_def)
qed

lemma vid_mask: "(v :: u16) < 0x1000 \<Longrightarrow> v AND 0xFFF = v"
proof -
  assume "v < 0x1000"
  then have "v AND mask 12 = v" by (simp add: less_mask_eq)
  moreover have "mask 12 = (0xFFF :: u16)" by (simp add: mask_eq_exp_minus_1)
  ultimately show ?thesis by simp
qed

lemma want_ip_nonzero: "canonical p \<Longrightarrow> \<not> exact (fkind f) \<Longrightarrow> want g p f \<noteq> Some (tzero (fkind f))"
proof -
  have o: "(w OR 0xFF00 :: u16) \<noteq> 0" for w :: u16
  proof
    assume "w OR 0xFF00 = 0"
    then have "bit (w OR 0xFF00) 8 = bit (0 :: u16) 8" by simp
    then show False by (simp add: bit_simps)
  qed
  have v4: "v4_row ip m b \<noteq> zero_ip" for ip m b
    using o [of "ucast m"] by (simp add: v4_row_def zero_ip_def)
  assume "canonical p" "\<not> exact (fkind f)"
  then show ?thesis
    using v4 by (cases f) (auto simp: exact_def canonical_def canon_ip_def split: IFX_FLOW_PCE_IP.splits)
qed

lemma rd_vlan_written:
  assumes E: "pce_engine hwstep tbl keep S" and h: "idle h" and wf: "row_wf F" and pl: "plain p (want_vlan T p) 14 F"
    and T: "driver_tbl tbl h 1 = T 1" and c: "canonical p" and v: "bVid p \<longrightarrow> vlan_row T (nVid p) \<noteq> None"
  obtains h' where "rd_vlan hwstep F (p\<lparr>bVid := False, nVid := 0\<rparr>) h = Some (p, h')"
    "idle h'" "driver_tbl tbl h' = driver_tbl tbl h" "\<And>off. off \<in> S \<Longrightarrow> \<not> in_window off \<Longrightarrow> regs h' off = regs h off"
proof -
  have idx: "vlan_idx F = of_int (want_vlan T p)" using pl by (simp add: plain_def)
  obtain h' where h': "rd_vlan hwstep F (p\<lparr>bVid := False, nVid := 0\<rparr>) h = Some
      (if vlan_idx F = 0x7F then p\<lparr>bVid := False, nVid := 0\<rparr>
       else let m = driver_tbl tbl h 1 (unat (vlan_idx F))
            in if i_valid m = 1 then (p\<lparr>bVid := False, nVid := 0\<rparr>)\<lparr>bVid := True, nVid := row_key0 m AND 0xFFF\<rparr>
               else (p\<lparr>bVid := False, nVid := 0\<rparr>)\<lparr>bVid := True\<rparr>, h')"
    "idle h'" "driver_tbl tbl h' = driver_tbl tbl h" "\<And>off. off \<in> S \<Longrightarrow> \<not> in_window off \<Longrightarrow> regs h' off = regs h off"
    by (rule rd_vlan_spec [OF E h wf, of "p\<lparr>bVid := False, nVid := 0\<rparr>"]) (rule that)
  have "rd_vlan hwstep F (p\<lparr>bVid := False, nVid := 0\<rparr>) h = Some (p, h')"
  proof (cases "bVid p")
    case False
    then have "False = bVid p" "0 = nVid p" using c by (simp_all add: canonical_def)
    then have "p\<lparr>bVid := False, nVid := 0\<rparr> = p" by simp
    then show ?thesis using h'(1) idx False by (simp add: want_vlan_def)
  next
    case True
    then obtain i where i: "vlan_row T (nVid p) = Some i" using v by blast
    then have r: "i < 64" "i_valid (T 1 i) = 1" "row_key0 (T 1 i) = nVid p"
      by (auto simp: vlan_row_def find_upt_Some IFX_PCE_VLAN_ACT_TBL_SIZE_def)
    have u: "unat (vlan_idx F) = i"
      using True i r(1) by (simp add: idx want_vlan_def vlan_result_def unat_of_nat_small)
    then have n: "vlan_idx F \<noteq> 0x7F" using r(1) by auto
    have "nVid p < 0x1000" using c True by (simp add: canonical_def)
    then have m: "row_key0 (T 1 i) AND 0xFFF = nVid p" using r(3) vid_mask by simp
    have "True = bVid p" using True by simp
    then have "(p\<lparr>bVid := False, nVid := 0\<rparr>)\<lparr>bVid := True, nVid := nVid p\<rparr> = p" by simp
    then show ?thesis using h'(1) [unfolded u T] n r(2) m by (simp add: Let_def)
  qed
  then show ?thesis using h'(2-) by (rule that)
qed

lemma written_reads:
  assumes E: "pce_engine hwstep tbl keep S" and w: "written tbl keep g T (unat (nIndex (pattern r))) r s"
    and i: "unat (nIndex (pattern r)) < IFX_PCE_TBL_SIZE" and c: "canonical (pattern r)"
    and T: "driver_tbl tbl (st_hw s) 1 = T 1" and v: "bVid (pattern r) \<longrightarrow> vlan_row T (nVid (pattern r)) \<noteq> None"
    and n: "\<not> table_full IPMSB (pce_sub_tbl (st_pce s))" "\<not> table_full IPLSB (pce_sub_tbl (st_pce s))"
  obtains h' where "ifx_pce_rule_read hwstep (nIndex (pattern r)) (st_pce s) (st_hw s) = Some (Some r, h')"
    "driver_tbl tbl h' = driver_tbl tbl (st_hw s)"
proof -
  let ?p = "pattern r" and ?H = "pce_sub_tbl (st_pce s)"
  let ?F = "fet (unat (nIndex ?p)) s"
  have ok: "st_ok tbl keep s" using w by (simp add: written_def rules_inv_def)
  have st: "stored (want g ?p) ?F ?H"
    using w n c by (intro field_ok_stored) (auto simp: written_def dest: want_ip_nonzero)
  have tok: "tables_ok ?H" using ok by (rule st_ok_tables)
  have ix: "nIndex ?p < 64" using i by (simp add: word_less_nat_alt IFX_PCE_TBL_SIZE_def)
  have pl: "plain ?p (want_vlan T ?p) 14 ?F" using w by (simp add: written_def)
  have pl': "plain ?p t 14 ?F \<Longrightarrow> rd_fields ?H ?F (zero_pattern\<lparr>nIndex := nIndex ?p, bEnable := True\<rparr>)
      = Some (?p\<lparr>bVid := False, nVid := 0\<rparr>)" for t
    by (rule rd_fields_stored [OF st tok c ix])
  have wf: "row_wf ?F" and id: "idle (st_hw s)"
    using ok i by (simp_all add: st_ok_def shape_def fet_def sub_inv_def)
  obtain h' where h': "rd_vlan hwstep ?F (?p\<lparr>bVid := False, nVid := 0\<rparr>) (st_hw s) = Some (?p, h')"
    "driver_tbl tbl h' = driver_tbl tbl (st_hw s)"
    by (rule rd_vlan_written [OF E id wf pl T c v]) (rule that)
  have "ifx_pce_rule_read hwstep (nIndex ?p) (st_pce s) (st_hw s) = Some (Some r, h')"
    using w i pl' [OF pl] h'(1) unfolding ifx_pce_rule_read_def Let_def
    by (simp add: written_def fet_def)
  then show ?thesis using h'(2) by (rule that)
qed

section \<open>Writing a rule\<close>

text \<open>The outcomes of \<^verbatim>\<open>ifx_pce_rule_write\<close> for an enabled rule.\<close>

lemma rule_write_cases:
  assumes E: "pce_engine hwstep tbl keep S" and I: "rules_inv tbl keep s"
    and ix: "unat (nIndex (pattern r)) < IFX_PCE_TBL_SIZE" and en: "bEnable (pattern r)"
  obtains (same) h' where "ifx_pce_rule_write hwstep g r s = Some (0, s\<lparr>st_hw := h'\<rparr>)"
      "ifx_pce_rule_read hwstep (nIndex (pattern r)) (st_pce s) (st_hw s) = Some (Some r, h')"
      "rules_inv tbl keep (s\<lparr>st_hw := h'\<rparr>)" "driver_tbl tbl h' = driver_tbl tbl (st_hw s)"
      "rule_frame tbl S (unat (nIndex (pattern r))) s (s\<lparr>st_hw := h'\<rparr>)"
      "rule_value (driver_tbl tbl (st_hw s)) (st_pce s) (nIndex (pattern r)) = Some r"
  | (ok) s' where "ifx_pce_rule_write hwstep g r s = Some (0, s')"
      "written tbl keep g (driver_tbl tbl (st_hw s)) (unat (nIndex (pattern r))) r s'"
      "rule_frame tbl S (unat (nIndex (pattern r))) s s'" "act_ok (action r)"
  | (err) e s' where "ifx_pce_rule_write hwstep g r s = Some (e, s')" "e < 0" "st_ok tbl keep s'"
      "rule_frame tbl S (unat (nIndex (pattern r))) s s'"
      "covered (st_pce s')" "\<not> act_ok (action r) \<or> (\<exists>f. want g (pattern r) f \<noteq> None \<and> table_full (fkind f) (pce_sub_tbl (st_pce s')))"
      "pce_tbl_used (st_pce s) ! unat (nIndex (pattern r)) \<noteq> 0 \<or> (\<forall>f. fget f (fet (unat (nIndex (pattern r))) s) = fany f)
        \<Longrightarrow> rules_inv tbl keep s'"
proof -
  let ?n = "nIndex (pattern r)" and ?w = "ifx_pce_rule_write hwstep g r s"
  obtain r0 h' where rd: "ifx_pce_rule_read hwstep ?n (st_pce s) (st_hw s) = Some (Some r0, h')"
    "rule_value (driver_tbl tbl (st_hw s)) (st_pce s) ?n = Some r0"
    "rules_inv tbl keep (s\<lparr>st_hw := h'\<rparr>)" "driver_tbl tbl h' = driver_tbl tbl (st_hw s)"
    "rule_frame tbl S (unat ?n) s (s\<lparr>st_hw := h'\<rparr>)"
    by (rule rule_read_total [OF E I ix]) (rule that)
  note rd = rd(1,3-) rd(2)
  have w: "?w = (if r0 = r \<and> g_pad_eq g then Some (0, s\<lparr>st_hw := h'\<rparr>)
      else result_of (wr_program hwstep g (unat ?n) r (s\<lparr>st_hw := h'\<rparr>)))"
    using ix en rd(1) by (simp add: ifx_pce_rule_write_def Let_def)
  show ?thesis
  proof (cases "r0 = r \<and> g_pad_eq g")
    case True
    then show ?thesis using rd w by (intro same [of h']) simp_all
  next
    case False
    have f: "fet (unat ?n) (s\<lparr>st_hw := h'\<rparr>) = fet (unat ?n) s" by (simp add: fet_def)
    show ?thesis
    proof (rule program_spec [OF E rd(2) ix, of g r], goal_cases)
      case (1 s')
      then show ?case using w False rd(3) rule_frame_trans [OF rd(4)]
        by (intro ok [of s']) (auto simp: result_of_def)
    next
      case (2 e s')
      show ?case
      proof (rule err [of e s'])
        show "?w = Some (e, s')" using 2(1) w False by (simp add: result_of_def)
        show "rules_inv tbl keep s'" if "pce_tbl_used (st_pce s) ! unat ?n \<noteq> 0 \<or> (\<forall>h. fget h (fet (unat ?n) s) = fany h)"
          using 2(7) that by (simp add: f)
        show "rule_frame tbl S (unat ?n) s s'" by (rule rule_frame_trans [OF rd(4) _ 2(4)]) simp
      qed (use 2(2,3,5,6) in simp_all)
    qed
  qed
qed

section \<open>Room in the tables\<close>

text \<open>Every row in use is named by a rule, and a rule names at most two rows of a table.\<close>

definition used_rules :: "IFX_PCE \<Rightarrow> nat" where
  "used_rules P = card {r. r < IFX_PCE_TBL_SIZE \<and> pce_tbl_used P ! r \<noteq> 0}"

lemma fields_of_kind: "card {f. fkind f = k} \<le> (if k = PKG \<or> k = PPPOE then 1 else 2)"
proof -
  have "{f. fkind f = PKG} = {FPkt}" "{f. fkind f = MAC} = {FDMac, FSMac}" "{f. fkind f = APPL} = {FDAppl, FSAppl}"
    "{f. fkind f = IPMSB} = {FDMsb, FSMsb}" "{f. fkind f = IPLSB} = {FDLsb, FSLsb}" "{f. fkind f = PTCL} = {FProt, FEty}"
    "{f. fkind f = PPPOE} = {FPpp}"
    by (auto elim: fkind.elims)
  then show ?thesis by (cases k) simp_all
qed

lemma own_refs_sum: "(\<Sum>i<n. own_refs UNIV u F k i) \<le> (if u = 0 then 0 else card {f. fkind f = k})"
proof -
  have "(\<Sum>i<n. card {f. fkind f = k \<and> fget f F = i}) = card (\<Union>i<n. {f. fkind f = k \<and> fget f F = i})"
    by (rule card_UN_disjoint [symmetric]) auto
  also have "\<dots> \<le> card {f. fkind f = k}" by (rule card_mono) auto
  finally show ?thesis by (simp add: own_refs_def)
qed

lemma refs_total: "(\<Sum>i<n. refs P k i) \<le> used_rules P * card {f. fkind f = k}"
proof -
  let ?u = "\<lambda>r. pce_tbl_used P ! r" and ?c = "card {f. fkind f = k}"
  have "(\<Sum>i<n. refs P k i) = (\<Sum>r<IFX_PCE_TBL_SIZE. \<Sum>i<n. own_refs UNIV (?u r) (pce_tbl P ! r) k i)"
    unfolding refs_def by (rule sum.swap)
  also have "\<dots> \<le> (\<Sum>r<IFX_PCE_TBL_SIZE. if ?u r = 0 then 0 else ?c)"
    by (rule sum_mono) (rule own_refs_sum)
  also have "\<dots> = (\<Sum>r\<in>{r. r < IFX_PCE_TBL_SIZE \<and> ?u r \<noteq> 0}. ?c)"
    by (rule sum.mono_neutral_cong_right) auto
  also have "\<dots> = used_rules P * ?c" by (simp add: used_rules_def)
  finally show ?thesis .
qed

lemma no_table_full_kind:
  assumes c: "covered P" and u: "used_rules P * card {f. fkind f = k} < tsize k"
  shows "\<not> table_full k (pce_sub_tbl P)"
proof
  assume full: "table_full k (pce_sub_tbl P)"
  have "1 \<le> refs P k i" if "i < tsize k" for i
  proof -
    have "0 < unat (cnts (pce_sub_tbl P) k ! i)"
      using full that by (auto simp: table_full_def word_gt_0 unat_gt_0)
    moreover have "unat (cnts (pce_sub_tbl P) k ! i) \<le> refs P k i" using c that by (simp add: covered_def)
    ultimately show ?thesis by linarith
  qed
  then have "tsize k \<le> (\<Sum>i<tsize k. refs P k i)"
    using sum_mono [of "{..<tsize k}" "\<lambda>_. 1" "refs P k"] by simp
  also have "\<dots> \<le> used_rules P * card {f. fkind f = k}" by (rule refs_total)
  finally show False using u by simp
qed

lemma no_table_full:
  assumes "covered P" "used_rules P < 8"
  shows "\<not> table_full k (pce_sub_tbl P)"
proof (rule no_table_full_kind [OF assms(1)])
  have "used_rules P * card {f. fkind f = k} \<le> 7 * (if k = PKG \<or> k = PPPOE then 1 else 2)"
    using assms(2) fields_of_kind [of k] by (intro mult_le_mono) auto
  then show "used_rules P * card {f. fkind f = k} < tsize k" by (cases k) (simp_all add: tbl_sizes)
qed

lemma used_rules_frame:
  assumes "rule_frame tbl S idx s s'" "idx < IFX_PCE_TBL_SIZE"
  shows "used_rules (st_pce s') \<le> Suc (used_rules (st_pce s))"
proof -
  have "{r. r < IFX_PCE_TBL_SIZE \<and> pce_tbl_used (st_pce s') ! r \<noteq> 0}
      \<subseteq> insert idx {r. r < IFX_PCE_TBL_SIZE \<and> pce_tbl_used (st_pce s) ! r \<noteq> 0}"
    using assms(1) by (auto simp: rule_frame_def)
  then have "used_rules (st_pce s') \<le> card (insert idx {r. r < IFX_PCE_TBL_SIZE \<and> pce_tbl_used (st_pce s) ! r \<noteq> 0})"
    unfolding used_rules_def by (rule card_mono [rotated]) simp
  also have "\<dots> \<le> Suc (used_rules (st_pce s))" by (simp add: used_rules_def card_insert_if)
  finally show ?thesis .
qed

section \<open>Write, then read\<close>

lemma write_then_read:
  assumes E: "pce_engine hwstep tbl keep S" and I: "rules_inv tbl keep s"
    and ix: "unat (nIndex (pattern r)) < IFX_PCE_TBL_SIZE" and c: "canonical (pattern r)" and a: "act_ok (action r)"
    and v: "bVid (pattern r) \<longrightarrow> vlan_row (driver_tbl tbl (st_hw s)) (nVid (pattern r)) \<noteq> None"
    and u: "used_rules (st_pce s) < 7"
  obtains s' h' where "ifx_pce_rule_write hwstep g r s = Some (0, s')" "rules_inv tbl keep s'"
    "ifx_pce_rule_read hwstep (nIndex (pattern r)) (st_pce s') (st_hw s') = Some (Some r, h')"
proof -
  let ?n = "nIndex (pattern r)"
  have en: "bEnable (pattern r)" using c by (simp add: canonical_def)
  show ?thesis
  proof (rule rule_write_cases [OF E I ix en, of g], goal_cases)
    case (1 h')
    have "rule_value (driver_tbl tbl h') (st_pce s) ?n = Some r" using 1(4,6) by simp
    moreover obtain r' h'' where "ifx_pce_rule_read hwstep ?n (st_pce s) h' = Some (Some r', h'')"
      "rule_value (driver_tbl tbl h') (st_pce s) ?n = Some r'"
      by (rule rule_read_total [OF E 1(3) ix]) (auto intro: that)
    ultimately show ?case using 1(1,3) by (intro that [of "s\<lparr>st_hw := h'\<rparr>" h'']) simp_all
  next
    case (2 s')
    have inv: "rules_inv tbl keep s'" using 2(2) by (simp add: written_def)
    have "used_rules (st_pce s') < 8" using used_rules_frame [OF 2(3) ix] u by simp
    then have nf: "\<not> table_full k (pce_sub_tbl (st_pce s'))" for k
      using inv by (intro no_table_full counted_covered) (simp_all add: rules_inv_def)
    obtain h' where "ifx_pce_rule_read hwstep ?n (st_pce s') (st_hw s') = Some (Some r, h')"
      by (rule written_reads [OF E 2(2) ix c rule_frame_vlan [OF 2(3)] v nf nf]) (rule that)
    with 2(1) inv show ?case by (rule that)
  next
    case (3 e s')
    have "used_rules (st_pce s') < 8" using used_rules_frame [OF 3(4) ix] u by simp
    then have "\<not> table_full k (pce_sub_tbl (st_pce s'))" for k using 3(5) by (intro no_table_full)
    then show ?case using 3(6) a by simp
  qed
qed

section \<open>What the device matches\<close>

text \<open>The table rows that the key of a traffic-flow row names, as the device reads it.\<close>

fun key_field :: "ffield \<Rightarrow> u16 list \<Rightarrow> nat" where
  "key_field FPkt k = unat (k ! 7 AND 0xFF)" | "key_field FPpp k = unat (drop_bit 8 (k ! 7))"
| "key_field FDMac k = unat (drop_bit 8 (k ! 5))" | "key_field FSMac k = unat (k ! 5 AND 0xFF)"
| "key_field FDAppl k = unat (k ! 4 AND 0xFF)" | "key_field FSAppl k = unat (drop_bit 8 (k ! 4))"
| "key_field FDMsb k = unat (drop_bit 8 (k ! 3))" | "key_field FDLsb k = unat (k ! 3 AND 0xFF)"
| "key_field FSMsb k = unat (drop_bit 8 (k ! 2))" | "key_field FSLsb k = unat (k ! 2 AND 0xFF)"
| "key_field FProt k = unat (drop_bit 8 (k ! 1))" | "key_field FEty k = unat (k ! 1 AND 0xFF)"

lemma byte_mask: "(0xFF :: u16) = mask 8"
  by (simp add: mask_eq_exp_minus_1)

lemma packed_bytes:
  fixes a :: "'a::len word" and b :: "'b::len word"
  assumes "LENGTH('a) \<le> 8" "LENGTH('b) \<le> 8"
  shows "unat ((ucast a OR push_bit 8 (ucast b) :: u16) AND 0xFF) = unat a"
    "unat (drop_bit 8 (ucast a OR push_bit 8 (ucast b) :: u16)) = unat b"
    "unat ((push_bit 8 (ucast b) OR ucast a :: u16) AND 0xFF) = unat a"
    "unat (drop_bit 8 (push_bit 8 (ucast b) OR ucast a :: u16)) = unat b"
proof -
  have a: "(ucast a OR push_bit 8 (ucast b) :: u16) AND 0xFF = ucast a"
    unfolding byte_mask using assms by (intro bit_word_eqI) (auto simp: bit_simps dest: bit_imp_le_length)
  have b: "drop_bit 8 (ucast a OR push_bit 8 (ucast b) :: u16) = ucast b"
    using assms by (intro bit_word_eqI) (auto simp: bit_simps dest: bit_imp_le_length)
  show "unat ((ucast a OR push_bit 8 (ucast b) :: u16) AND 0xFF) = unat a"
    unfolding a using assms by (intro unat_ucast_up) simp
  then show "unat ((push_bit 8 (ucast b) OR ucast a :: u16) AND 0xFF) = unat a" by (simp add: or.commute)
  show "unat (drop_bit 8 (ucast a OR push_bit 8 (ucast b) :: u16)) = unat b"
    unfolding b using assms by (intro unat_ucast_up) simp
  then show "unat (drop_bit 8 (push_bit 8 (ucast b) OR ucast a :: u16)) = unat b" by (simp add: or.commute)
qed

lemma key_field_rule_img: "key_field f (i_key (rule_img F v)) = fget f F"
  by (cases f) (simp_all add: rule_img_def pack_key_def kp_def packed_bytes del: drop_bit_or)

text \<open>
  The fields that the key holds itself: the port, the row of the VLAN in the VLAN table, the low seven bits of the
  DSCP and the low four of the priority. A VLAN that is not in the table is ``any''.
\<close>

definition inline_fields :: "(nat \<Rightarrow> nat \<Rightarrow> pce_img) \<Rightarrow> IFX_FLOW_PCE_pattern \<Rightarrow> u16 list \<Rightarrow> bool" where
  "inline_fields T p k \<longleftrightarrow>
     unat (k ! 0 AND 0xFF) = (if bPortIdEnable p then unat (nPortId p) else 0xFF) \<and>
     unat (drop_bit 8 (k ! 0)) = (case if bVid p then vlan_row T (nVid p) else None of Some j \<Rightarrow> j | None \<Rightarrow> 0x7F) \<and>
     unat (drop_bit 8 (k ! 6)) = (if bDSCP_Enable p then unat (nDSCP p) mod 128 else 0x7F) \<and>
     unat (k ! 6 AND 0xFF) = (if bPCP_Enable p then unat (nPCP p) mod 16 else 0xF)"

lemma plain_inline:
  assumes pl: "plain p (want_vlan T p) 14 F"
  shows "inline_fields T p (i_key (rule_img F v))"
proof -
  have k: "i_key (rule_img F v) ! 0 = ucast (port_id F) OR push_bit 8 (ucast (vlan_idx F))"
    "i_key (rule_img F v) ! 6 = ucast (pcp F) OR push_bit 8 (ucast (dscp F))"
    by (simp_all add: rule_img_def pack_key_def kp_def or.commute)
  have b: "unat (i_key (rule_img F v) ! 0 AND 0xFF) = unat (port_id F)" "unat (drop_bit 8 (i_key (rule_img F v) ! 0)) = unat (vlan_idx F)"
    "unat (i_key (rule_img F v) ! 6 AND 0xFF) = unat (pcp F)" "unat (drop_bit 8 (i_key (rule_img F v) ! 6)) = unat (dscp F)"
    unfolding k by (simp_all add: packed_bytes del: drop_bit_or)
  have "unat (vlan_idx F) = (case if bVid p then vlan_row T (nVid p) else None of Some j \<Rightarrow> j | None \<Rightarrow> 0x7F)"
  proof (cases "if bVid p then vlan_row T (nVid p) else None")
    case None
    then have "want_vlan T p = 0x7F" by (auto simp: want_vlan_def vlan_result_def split: if_splits)
    then show ?thesis using pl None by (simp add: plain_def)
  next
    case (Some j)
    then have v: "bVid p" "vlan_row T (nVid p) = Some j" by (auto split: if_splits)
    then have "j < 64" by (auto simp: vlan_row_def find_upt_Some IFX_PCE_VLAN_ACT_TBL_SIZE_def)
    then show ?thesis using pl v by (simp add: plain_def want_vlan_def vlan_result_def unat_of_nat_small)
  qed
  moreover have "unat (ucast (x :: u8) :: 7 word) = unat x mod 128" "unat (ucast (x :: u8) :: 4 word) = unat x mod 16" for x
    by (simp_all add: unsigned_ucast_eq unsigned_take_bit_eq take_bit_eq_mod)
  ultimately show ?thesis unfolding inline_fields_def b using pl by (simp add: plain_def)
qed

text \<open>
  After a successful write the traffic-flow row of the device is valid, and each enabled field of
  the pattern is in the table row its key names. Excepted are an all-zero IP row, and a field left
  ``any'' by a full IP table.
\<close>

lemma written_device:
  assumes w: "written tbl keep g T idx r s"
  shows "\<exists>m. driver_tbl tbl (st_hw s) 15 idx = keep 15 m \<and> i_valid m = 1 \<and>
    i_val m = act_vals (vlan_result T (nVLAN_Id (action r))) (action r) \<and> inline_fields T (pattern r) (i_key m) \<and>
    (\<forall>f e. want g (pattern r) f = Some e \<and> (exact (fkind f) \<or> e \<noteq> tzero (fkind f)) \<and>
       \<not> table_full (fkind f) (pce_sub_tbl (st_pce s)) \<longrightarrow>
       driver_tbl tbl (st_hw s) (tno (fkind f)) (key_field f (i_key m)) = keep (tno (fkind f)) (img_of (trow e))) \<and>
    (\<forall>f. want g (pattern r) f = None \<longrightarrow> key_field f (i_key m) = fany f)"
proof (intro exI conjI allI impI)
  let ?F = "fet idx s" and ?H = "pce_sub_tbl (st_pce s)"
  let ?m = "rule_img ?F (act_vals (vlan_result T (nVLAN_Id (action r))) (action r))"
  have fo: "field_ok (want g (pattern r)) f ?F ?H" for f using w by (simp add: written_def)
  show "driver_tbl tbl (st_hw s) 15 idx = keep 15 ?m" using w by (simp add: written_def)
  show "inline_fields T (pattern r) (i_key ?m)" using w by (intro plain_inline) (simp add: written_def)
  show "i_valid ?m = 1" "i_val ?m = act_vals (vlan_result T (nVLAN_Id (action r))) (action r)"
    by (simp_all add: rule_img_def)
  show "key_field f (i_key ?m) = fany f" if "want g (pattern r) f = None" for f
    using fo [of f] that by (simp add: key_field_rule_img field_ok_def)
  fix f e assume a: "want g (pattern r) f = Some e \<and> (exact (fkind f) \<or> e \<noteq> tzero (fkind f)) \<and> \<not> table_full (fkind f) ?H"
  then have h: "holds ?H (fkind f) (fget f ?F) e" using fo [of f] by (auto simp: field_ok_def)
  have "mirrored keep (driver_tbl tbl (st_hw s)) ?H"
    using w by (simp add: written_def rules_inv_def st_ok_def sub_inv_def)
  then show "driver_tbl tbl (st_hw s) (tno (fkind f)) (key_field f (i_key ?m)) = keep (tno (fkind f)) (img_of (trow e))"
    using h by (auto simp: mirrored_def holds_def key_field_rule_img dev_row_def)
qed

end
