(* ===== verification/PCE_Boot.thy ===== *)
theory PCE_Boot
  imports PCE_Roundtrip
begin

text \<open>
  The driver after start-up, the states the rule operations lead to from there, and the rules used
  as concrete inputs by the examples.
\<close>

unbundle bit_operations_syntax

section \<open>Start-up\<close>

text \<open>\<^verbatim>\<open>IFX_FLOW_SwitchCoreInit\<close> clears the device structure and then calls \<^verbatim>\<open>ifx_pce_table_init\<close>.\<close>

definition zeroed_PCE :: IFX_PCE where
  "zeroed_PCE = \<lparr>pce_sub_tbl = zero_handle, pce_tbl = replicate IFX_PCE_TBL_SIZE zero_row,
     pce_act = replicate IFX_PCE_TBL_SIZE zero_action, pce_tbl_used = replicate IFX_PCE_TBL_SIZE 0\<rparr>"

definition boot_state :: "nat \<Rightarrow> ref_priv pce_st" where
  "boot_state n = \<lparr>st_pce = snd (ifx_pce_table_init zeroed_PCE), st_hw = ref_init n, st_ent = zero_entry\<rparr>"

lemma zero_handle_ok: "tables_ok zero_handle"
proof -
  have "length (cnts zero_handle k) = tsize k \<and> length (tabs zero_handle k) = tsize k \<and>
     (\<forall>i<tsize k. cnts zero_handle k ! i = 0 \<and> tabs zero_handle k ! i = tzero k)" for k
    by (cases k) (simp_all add: zero_handle_def)
  then show ?thesis by (simp add: tables_ok_def) (simp add: zero_handle_def)
qed

lemma zero_handle_rows: "i < tsize k \<Longrightarrow> cnts zero_handle k ! i = 0" "i < tsize k \<Longrightarrow> tabs zero_handle k ! i = tzero k"
  by (cases k; simp add: zero_handle_def)+

lemma table_init_inv:
  assumes l: "length (pce_tbl P) = IFX_PCE_TBL_SIZE" "length (pce_act P) = IFX_PCE_TBL_SIZE"
    and w: "\<forall>r<IFX_PCE_TBL_SIZE. 0 < r \<longrightarrow> row_wf (pce_tbl P ! r)"
    and h: "idle h" "\<forall>k. \<forall>i<tsize k. driver_tbl tbl h (tno k) i = keep (tno k) zero_img"
  shows "rules_inv tbl keep \<lparr>st_pce = snd (ifx_pce_table_init P), st_hw = h, st_ent = e\<rparr>"
proof -
  let ?P = "snd (ifx_pce_table_init P)"
  have P: "pce_sub_tbl ?P = zero_handle" "pce_tbl ?P = (pce_tbl P)[0 := zero_row]"
    "pce_act ?P = (pce_act P)[0 := zero_action]" "pce_tbl_used ?P = replicate IFX_PCE_TBL_SIZE 0"
    by (simp_all add: ifx_pce_table_init_def)
  have "shape ?P" using l w by (auto simp: shape_def P nth_list_update)
  moreover have "refs ?P k i = 0" for k i by (simp add: refs_def P)
  then have "counted ?P" by (simp add: counted_def P zero_handle_rows)
  moreover have "sub_inv tbl keep (pce_sub_tbl ?P, h)"
    using h zero_handle_ok by (simp add: sub_inv_def mirrored_def P zero_handle_rows dev_row_def)
  ultimately show ?thesis by (simp add: rules_inv_def st_ok_def)
qed

lemma idle_ref_init: "idle (ref_init n)"
  by (simp add: idle_def ref_init_def rdf.simps fld_get_def ifx_ethsw_ll_DirectAccessRead_def)

lemma norm_zero_img [simp]: "norm_img zero_img = zero_img"
  by (simp add: norm_img_def zero_img_def eval_nat_numeral)

lemma ref_init_tbl: "driver_tbl ref_tbl (ref_init n) t i = zero_img"
  by (simp add: driver_tbl_def ref_tbl_def ref_init_def)

lemma boot_inv: "rules_inv ref_tbl (\<lambda>_ m. m) (boot_state n)"
  unfolding boot_state_def
  by (rule table_init_inv) (simp_all add: zeroed_PCE_def idle_ref_init ref_init_tbl)

section \<open>Rule operations in sequence\<close>

text \<open>
  The states that rule operations lead to, starting with any state in order: a write that succeeds,
  or that fails on a rule in use or on a row that means ``any'' everywhere; a deletion; a read.
\<close>

inductive pce_reach :: "('p hw \<Rightarrow> 'p hw) \<Rightarrow> 'p pce_st \<Rightarrow> 'p pce_st \<Rightarrow> bool" for hwstep s0 where
  start: "pce_reach hwstep s0 s0"
| written: "pce_reach hwstep s0 s \<Longrightarrow> ifx_pce_rule_write hwstep g r s = Some (0, s') \<Longrightarrow> pce_reach hwstep s0 s'"
| refused: "pce_reach hwstep s0 s \<Longrightarrow> ifx_pce_rule_write hwstep g r s = Some (e, s') \<Longrightarrow>
    (let i = unat (nIndex (pattern r)) in
      i < IFX_PCE_TBL_SIZE \<longrightarrow> pce_tbl_used (st_pce s) ! i \<noteq> 0 \<or> (\<forall>f. fget f (fet i s) = fany f)) \<Longrightarrow>
    pce_reach hwstep s0 s'"
| deleted: "pce_reach hwstep s0 s \<Longrightarrow> ifx_pce_pattern_delete hwstep i s = Some (e, s') \<Longrightarrow> pce_reach hwstep s0 s'"
| asked: "pce_reach hwstep s0 s \<Longrightarrow> ifx_pce_rule_read hwstep n (st_pce s) (st_hw s) = Some (q, h') \<Longrightarrow>
    pce_reach hwstep s0 (s\<lparr>st_hw := h'\<rparr>)"

lemma delete_inv:
  assumes E: "pce_engine hwstep tbl keep S" and I: "rules_inv tbl keep s"
  obtains e s' where "ifx_pce_pattern_delete hwstep i s = Some (e, s')" "rules_inv tbl keep s'"
proof -
  consider "IFX_PCE_TBL_SIZE \<le> i" | "i < IFX_PCE_TBL_SIZE" "pce_tbl_used (st_pce s) ! i = 0"
    | "i < IFX_PCE_TBL_SIZE" "pce_tbl_used (st_pce s) ! i \<noteq> 0" by linarith
  then show ?thesis
  proof cases
    case 1 then show ?thesis using I by (intro that [of "-1" s]) (simp_all add: ifx_pce_pattern_delete_def)
  next
    case 2 then show ?thesis using I by (intro that [of 0 s]) (simp_all add: ifx_pce_pattern_delete_def)
  next
    case 3 then show ?thesis by (rule pattern_delete_spec [OF E I]) (rule that)
  qed
qed

lemma write_inv:
  assumes E: "pce_engine hwstep tbl keep S" and I: "rules_inv tbl keep s"
    and w: "ifx_pce_rule_write hwstep g r s = Some (e, s')"
    and f: "e = 0 \<or> (let i = unat (nIndex (pattern r)) in
      i < IFX_PCE_TBL_SIZE \<longrightarrow> pce_tbl_used (st_pce s) ! i \<noteq> 0 \<or> (\<forall>f. fget f (fet i s) = fany f))"
  shows "rules_inv tbl keep s'"
proof -
  let ?i = "unat (nIndex (pattern r))"
  consider "IFX_PCE_TBL_SIZE \<le> ?i" | "?i < IFX_PCE_TBL_SIZE" "\<not> bEnable (pattern r)"
    | "?i < IFX_PCE_TBL_SIZE" "bEnable (pattern r)" by linarith
  then show ?thesis
  proof cases
    case 1 then show ?thesis using w I by (simp add: ifx_pce_rule_write_def Let_def)
  next
    case 2
    then have "ifx_pce_pattern_delete hwstep ?i s = Some (e, s')" using w by (simp add: ifx_pce_rule_write_def Let_def)
    then show ?thesis using delete_inv [OF E I, of ?i] by (metis option.inject prod.inject)
  next
    case 3
    show ?thesis
    proof (rule rule_write_cases [OF E I 3, of g], goal_cases)
      case 1 then show ?case using w by simp
    next
      case 2 then show ?case using w by (simp add: written_def)
    next
      case (3 e' s'')
      then show ?case using w f \<open>?i < IFX_PCE_TBL_SIZE\<close> by (auto simp: Let_def)
    qed
  qed
qed

lemma read_inv:
  assumes E: "pce_engine hwstep tbl keep S" and I: "rules_inv tbl keep s"
    and rd: "ifx_pce_rule_read hwstep n (st_pce s) (st_hw s) = Some (q, h')"
  shows "rules_inv tbl keep (s\<lparr>st_hw := h'\<rparr>)"
proof (cases "unat n < IFX_PCE_TBL_SIZE")
  case False
  then show ?thesis using rd I by (auto simp: ifx_pce_rule_read_def Let_def)
next
  case True
  then show ?thesis using rd by (auto intro: rule_read_total [OF E I True])
qed

lemma reach_inv:
  assumes E: "pce_engine hwstep tbl keep S" and I: "rules_inv tbl keep s0"
  shows "pce_reach hwstep s0 s \<Longrightarrow> rules_inv tbl keep s"
proof (induction rule: pce_reach.induct)
  case (deleted s i e s')
  then show ?case using delete_inv [OF E deleted.IH, of i] by (metis option.inject prod.inject)
qed (use I write_inv [OF E] read_inv [OF E] in blast)+

section \<open>Example rules\<close>

definition sample_garbage :: garbage where
  "sample_garbage = \<lparr>g_pad_eq = False, g_appl_pad = (0xAA, 0x55), g_ip_dst = [1, 2, 3, 4], g_ip_src = [5, 6, 7, 8], g_ptcl_res = 0xABC\<rparr>"

text \<open>UDP to 192.168.1.0/24 from a given station, sent to port 2.\<close>

definition sample_rule :: IFX_FLOW_PCE_rule where
  "sample_rule = \<lparr>
     pattern = zero_pattern\<lparr>nIndex := 3, bEnable := True, bMAC_SrcEnable := True,
       nMAC_Src := [0x00, 0x20, 0xDA, 0x86, 0x23, 0x74], eDstIP_Select := IP_V4,
       nDstIP := [0xC0A8, 0x0100, 0, 0, 0, 0, 0, 0], nDstIP_Mask := 0xFF03, bProtocolEnable := True, nProtocol := 17,
       bDSCP_Enable := True, nDSCP := 46\<rparr>,
     action = zero_action\<lparr>ePortMapAction := PORTMAP_ALTERNATIVE, nForwardPortMap := 4,
       bRMON_Action := True, nRMON_Id := 7\<rparr>\<rparr>"

text \<open>The same with a PPPoE session.\<close>

definition sample_pppoe :: IFX_FLOW_PCE_rule where
  "sample_pppoe = \<lparr>pattern = (pattern sample_rule)\<lparr>bSessionIdEnable := True, nSessionId := 0x1234\<rparr>, action = action sample_rule\<rparr>"

lemma sample_index: "unat (nIndex (pattern sample_rule)) < IFX_PCE_TBL_SIZE"
  "unat (nIndex (pattern sample_pppoe)) < IFX_PCE_TBL_SIZE"
  by (simp_all add: sample_rule_def sample_pppoe_def IFX_PCE_TBL_SIZE_def)

lemma sample_ok: "canonical (pattern sample_rule)" "act_ok (action sample_rule)" "\<not> bVid (pattern sample_rule)"
  "bEnable (pattern sample_rule)" "bEnable (pattern sample_pppoe)" "bSessionIdEnable (pattern sample_pppoe)"
  "nSessionId (pattern sample_pppoe) \<noteq> 0" "act_ok (action sample_pppoe)"
proof -
  have "replicate 6 (0 :: u16) = [0, 0, 0, 0, 0, 0]" "replicate 8 (0 :: u16) = [0, 0, 0, 0, 0, 0, 0, 0]"
    by (simp_all add: eval_nat_numeral)
  then show "canonical (pattern sample_rule)"
    by (simp add: sample_rule_def canonical_def canon_ip_def zero_pattern_def)
qed (simp_all add: sample_pppoe_def sample_rule_def zero_pattern_def act_ok_def zero_action_def)

lemma boot_used: "used_rules (st_pce (boot_state n)) = 0"
  by (simp add: used_rules_def boot_state_def ifx_pce_table_init_def)

lemma boot_value:
  assumes ix: "unat (nIndex (pattern r)) < IFX_PCE_TBL_SIZE" and en: "bEnable (pattern r)"
  shows "rule_value T (st_pce (boot_state n)) (nIndex (pattern r)) \<noteq> Some r"
proof
  assume v: "rule_value T (st_pce (boot_state n)) (nIndex (pattern r)) = Some r"
  have "pce_tbl_used (st_pce (boot_state n)) ! unat (nIndex (pattern r)) = 0"
    using ix by (simp add: boot_state_def ifx_pce_table_init_def)
  then have "r = \<lparr>pattern = zero_pattern\<lparr>nIndex := nIndex (pattern r)\<rparr>, action = zero_action\<rparr>"
    using v by (simp add: rule_value_def)
  then have "bEnable (pattern r) = bEnable (zero_pattern\<lparr>nIndex := nIndex (pattern r)\<rparr>)"
    by (metis IFX_FLOW_PCE_rule.select_convs(1))
  then show False using en by (simp add: zero_pattern_def)
qed

text \<open>The example rules can be written after start-up.\<close>

lemma boot_write:
  assumes ix: "unat (nIndex (pattern r)) < IFX_PCE_TBL_SIZE" and en: "bEnable (pattern r)" and a: "act_ok (action r)"
  obtains s' where "ifx_pce_rule_write ref_step g r (boot_state n) = Some (0, s')"
    "written ref_tbl (\<lambda>_ m. m) g (driver_tbl ref_tbl (st_hw (boot_state n))) (unat (nIndex (pattern r))) r s'"
    "used_rules (st_pce s') < 8"
proof -
  show ?thesis
  proof (rule rule_write_cases [OF ref.pce_engine_axioms boot_inv ix en, of g n], goal_cases)
  case (1 h')
  then show ?case using boot_value [OF ix en] by metis
next
  case (2 s')
  then show ?case using used_rules_frame [OF 2(3) ix] boot_used [of n] by (intro that [of s']) simp_all
next
  case (3 e s')
  have "used_rules (st_pce s') < 8" using used_rules_frame [OF 3(4) ix] boot_used [of n] by simp
  then have "\<not> table_full k (pce_sub_tbl (st_pce s'))" for k using 3(5) by (intro no_table_full)
  then show ?case using 3(6) a by simp
qed
qed

end
