(* ===== verification/PCE_Microcode.thy ===== *)
theory PCE_Microcode
  imports PCE_Access
begin

text \<open>
  The parser microcode of the packet classification engine: the rows of \<^verbatim>\<open>pce_mc_max_ifx_tag_m\<close>,
  the macro \<^verbatim>\<open>IFX_FLOW_PCE_MC_M\<close> that packs a row into four 16-bit values, and the download
  \<^verbatim>\<open>IFX_VR9_Switch_PCE_Micro_Code_Int\<close> of \<^verbatim>\<open>ltq_flow_pce.c\<close>. The lemmas show that the packing
  loses nothing and what the download leaves on the device.
\<close>

unbundle bit_operations_syntax

section \<open>The rows\<close>

record IFX_FLOW_PCE_MICROCODE_ROW =
  val_3 :: u16
  val_2 :: u16
  val_1 :: u16
  val_0 :: u16

abbreviation (input) IFX_FLOW_PCE_MICROCODE_VALUES :: nat where "IFX_FLOW_PCE_MICROCODE_VALUES \<equiv> 64"

abbreviation (input) OUT_ETHTYP :: u32 where "OUT_ETHTYP \<equiv> 6"
abbreviation (input) OUT_VTAG0 :: u32 where "OUT_VTAG0 \<equiv> 7"
abbreviation (input) OUT_ITAG0 :: u32 where "OUT_ITAG0 \<equiv> 9"
abbreviation (input) OUT_IP0 :: u32 where "OUT_IP0 \<equiv> 13"
abbreviation (input) OUT_IP3 :: u32 where "OUT_IP3 \<equiv> 16"
abbreviation (input) OUT_SIP0 :: u32 where "OUT_SIP0 \<equiv> 17"
abbreviation (input) OUT_DIP7 :: u32 where "OUT_DIP7 \<equiv> 32"
abbreviation (input) OUT_PROT :: u32 where "OUT_PROT \<equiv> 34"
abbreviation (input) OUT_APP0 :: u32 where "OUT_APP0 \<equiv> 35"
abbreviation (input) OUT_NONE :: u32 where "OUT_NONE \<equiv> 63"

abbreviation (input) INSTR :: u32 where "INSTR \<equiv> 0"
abbreviation (input) IPV6 :: u32 where "IPV6 \<equiv> 1"
abbreviation (input) LENACCU :: u32 where "LENACCU \<equiv> 2"

abbreviation (input) FLAG_ITAG :: u32 where "FLAG_ITAG \<equiv> 0"
abbreviation (input) FLAG_VLAN :: u32 where "FLAG_VLAN \<equiv> 1"
abbreviation (input) FLAG_SNAP :: u32 where "FLAG_SNAP \<equiv> 2"
abbreviation (input) FLAG_PPPOE :: u32 where "FLAG_PPPOE \<equiv> 3"
abbreviation (input) FLAG_IPV6 :: u32 where "FLAG_IPV6 \<equiv> 4"
abbreviation (input) FLAG_IPV4 :: u32 where "FLAG_IPV4 \<equiv> 6"
abbreviation (input) FLAG_IGMP :: u32 where "FLAG_IGMP \<equiv> 7"
abbreviation (input) FLAG_HOP :: u32 where "FLAG_HOP \<equiv> 9"
abbreviation (input) FLAG_NN1 :: u32 where "FLAG_NN1 \<equiv> 10"
abbreviation (input) FLAG_NN2 :: u32 where "FLAG_NN2 \<equiv> 11"
abbreviation (input) FLAG_END :: u32 where "FLAG_END \<equiv> 12"
abbreviation (input) FLAG_NO :: u32 where "FLAG_NO \<equiv> 13"

definition IFX_FLOW_PCE_MC_M ::
  "u32 \<Rightarrow> u32 \<Rightarrow> u32 \<Rightarrow> u32 \<Rightarrow> u32 \<Rightarrow> u32 \<Rightarrow> u32 \<Rightarrow> u32 \<Rightarrow> IFX_FLOW_PCE_MICROCODE_ROW" where
  "IFX_FLOW_PCE_MC_M val msk ns out len type flags ipv4_len =
     \<lparr>val_3 = ucast val, val_2 = ucast msk,
      val_1 = ucast (push_bit 10 ns OR push_bit 4 out OR drop_bit 1 len),
      val_0 = ucast (push_bit 15 (len AND 1) OR push_bit 13 type OR push_bit 9 flags OR push_bit 8 ipv4_len)\<rparr>"

text \<open>The last 25 rows of the table are the same.\<close>

definition pce_mc_max_ifx_tag_m :: "IFX_FLOW_PCE_MICROCODE_ROW list" where
  "pce_mc_max_ifx_tag_m = [
     IFX_FLOW_PCE_MC_M 0x88c3 0xFFFF 1 OUT_ITAG0 4 INSTR FLAG_ITAG 0,
     IFX_FLOW_PCE_MC_M 0x8100 0xFFFF 2 OUT_VTAG0 2 INSTR FLAG_VLAN 0,
     IFX_FLOW_PCE_MC_M 0x88A8 0xFFFF 1 OUT_VTAG0 2 INSTR FLAG_VLAN 0,
     IFX_FLOW_PCE_MC_M 0x8100 0xFFFF 1 OUT_VTAG0 2 INSTR FLAG_VLAN 0,
     IFX_FLOW_PCE_MC_M 0x8864 0xFFFF 17 OUT_ETHTYP 1 INSTR FLAG_NO 0,
     IFX_FLOW_PCE_MC_M 0x0800 0xFFFF 21 OUT_ETHTYP 1 INSTR FLAG_NO 0,
     IFX_FLOW_PCE_MC_M 0x86DD 0xFFFF 22 OUT_ETHTYP 1 INSTR FLAG_NO 0,
     IFX_FLOW_PCE_MC_M 0x8863 0xFFFF 16 OUT_ETHTYP 1 INSTR FLAG_NO 0,
     IFX_FLOW_PCE_MC_M 0x0000 0xF800 10 OUT_NONE 0 INSTR FLAG_NO 0,
     IFX_FLOW_PCE_MC_M 0x0000 0x0000 38 OUT_ETHTYP 1 INSTR FLAG_NO 0,
     IFX_FLOW_PCE_MC_M 0x0600 0x0600 38 OUT_ETHTYP 1 INSTR FLAG_NO 0,
     IFX_FLOW_PCE_MC_M 0x0000 0x0000 12 OUT_NONE 1 INSTR FLAG_NO 0,
     IFX_FLOW_PCE_MC_M 0xAAAA 0xFFFF 14 OUT_NONE 1 INSTR FLAG_NO 0,
     IFX_FLOW_PCE_MC_M 0x0000 0x0000 39 OUT_NONE 0 INSTR FLAG_NO 0,
     IFX_FLOW_PCE_MC_M 0x0300 0xFF00 39 OUT_NONE 0 INSTR FLAG_SNAP 0,
     IFX_FLOW_PCE_MC_M 0x0000 0x0000 39 OUT_NONE 0 INSTR FLAG_NO 0,
     IFX_FLOW_PCE_MC_M 0x0000 0x0000 39 OUT_DIP7 3 INSTR FLAG_NO 0,
     IFX_FLOW_PCE_MC_M 0x0000 0x0000 18 OUT_DIP7 3 INSTR FLAG_PPPOE 0,
     IFX_FLOW_PCE_MC_M 0x0021 0xFFFF 21 OUT_NONE 1 INSTR FLAG_NO 0,
     IFX_FLOW_PCE_MC_M 0x0057 0xFFFF 22 OUT_NONE 1 INSTR FLAG_NO 0,
     IFX_FLOW_PCE_MC_M 0x0000 0x0000 39 OUT_NONE 0 INSTR FLAG_NO 0,
     IFX_FLOW_PCE_MC_M 0x4000 0xF000 24 OUT_IP0 4 INSTR FLAG_IPV4 1,
     IFX_FLOW_PCE_MC_M 0x6000 0xF000 27 OUT_IP0 3 INSTR FLAG_IPV6 0,
     IFX_FLOW_PCE_MC_M 0x0000 0x0000 39 OUT_NONE 0 INSTR FLAG_NO 0,
     IFX_FLOW_PCE_MC_M 0x0000 0x0000 25 OUT_IP3 2 INSTR FLAG_NO 0,
     IFX_FLOW_PCE_MC_M 0x0000 0x0000 26 OUT_SIP0 4 INSTR FLAG_NO 0,
     IFX_FLOW_PCE_MC_M 0x0000 0x0000 38 OUT_NONE 0 LENACCU FLAG_NO 0,
     IFX_FLOW_PCE_MC_M 0x1100 0xFF00 37 OUT_PROT 1 INSTR FLAG_NO 0,
     IFX_FLOW_PCE_MC_M 0x0600 0xFF00 37 OUT_PROT 1 INSTR FLAG_NO 0,
     IFX_FLOW_PCE_MC_M 0x0000 0xFF00 33 OUT_IP3 17 INSTR FLAG_HOP 0,
     IFX_FLOW_PCE_MC_M 0x2B00 0xFF00 33 OUT_IP3 17 INSTR FLAG_NN1 0,
     IFX_FLOW_PCE_MC_M 0x3C00 0xFF00 33 OUT_IP3 17 INSTR FLAG_NN2 0,
     IFX_FLOW_PCE_MC_M 0x0000 0x0000 37 OUT_PROT 1 INSTR FLAG_NO 0,
     IFX_FLOW_PCE_MC_M 0x0000 0xFF00 33 OUT_NONE 0 IPV6 FLAG_HOP 0,
     IFX_FLOW_PCE_MC_M 0x2B00 0xFF00 33 OUT_NONE 0 IPV6 FLAG_NN1 0,
     IFX_FLOW_PCE_MC_M 0x3C00 0xFF00 33 OUT_NONE 0 IPV6 FLAG_NN2 0,
     IFX_FLOW_PCE_MC_M 0x0000 0x0000 38 OUT_PROT 1 IPV6 FLAG_NO 0,
     IFX_FLOW_PCE_MC_M 0x0000 0x0000 38 OUT_SIP0 16 INSTR FLAG_NO 0,
     IFX_FLOW_PCE_MC_M 0x0000 0x0000 39 OUT_APP0 4 INSTR FLAG_IGMP 0] @
     replicate 25 (IFX_FLOW_PCE_MC_M 0x0000 0x0000 39 OUT_NONE 0 INSTR FLAG_END 0)"

section \<open>Packing\<close>

text \<open>The fields of a packed row.\<close>

definition mc_ns :: "IFX_FLOW_PCE_MICROCODE_ROW \<Rightarrow> nat" where
  "mc_ns r = unat (drop_bit 10 (val_1 r))"

definition mc_out :: "IFX_FLOW_PCE_MICROCODE_ROW \<Rightarrow> nat" where
  "mc_out r = unat (drop_bit 4 (val_1 r) AND mask 6)"

definition mc_len :: "IFX_FLOW_PCE_MICROCODE_ROW \<Rightarrow> nat" where
  "mc_len r = 2 * unat (val_1 r AND mask 4) + unat (drop_bit 15 (val_0 r))"

definition mc_type :: "IFX_FLOW_PCE_MICROCODE_ROW \<Rightarrow> nat" where
  "mc_type r = unat (drop_bit 13 (val_0 r) AND mask 2)"

definition mc_flags :: "IFX_FLOW_PCE_MICROCODE_ROW \<Rightarrow> nat" where
  "mc_flags r = unat (drop_bit 9 (val_0 r) AND mask 4)"

definition mc_ipv4_len :: "IFX_FLOW_PCE_MICROCODE_ROW \<Rightarrow> nat" where
  "mc_ipv4_len r = of_bool (bit (val_0 r) 8)"

lemma bit_less: "unat (w::'a::len word) < 2 ^ n \<Longrightarrow> bit w k \<Longrightarrow> k < n"
proof (rule ccontr)
  assume w: "unat w < 2 ^ n" "bit w k" "\<not> k < n"
  then have t: "take_bit n (unat w) = unat w" by (simp add: take_bit_nat_eq_self)
  have "bit (unat w) k" using w(2) by (simp add: bit_unsigned_iff bit_imp_le_length)
  then have "bit (take_bit n (unat w)) k" by (simp only: t)
  with w(3) show False by (simp add: bit_take_bit_iff)
qed

lemma unat_eq_ucast:
  assumes "unat (w::u32) < 65536" "v = ucast w"
  shows "unat (v::u16) = unat w"
  using assms by (simp add: unsigned_ucast_eq take_bit_nat_eq_self)

lemma packed_fields:
  assumes "unat ns < 64" "unat out < 64" "unat len < 32" "unat type < 4" "unat flags < 16" "unat v4 < 2"
  assumes r_def: "r = IFX_FLOW_PCE_MC_M val msk ns out len type flags v4"
  shows "mc_ns r = unat ns" "mc_out r = unat out" "mc_len r = unat len"
    "mc_type r = unat type" "mc_flags r = unat flags" "mc_ipv4_len r = unat v4"
proof -
  have b: "bit ns k \<Longrightarrow> k < 6" "bit out k \<Longrightarrow> k < 6" "bit len k \<Longrightarrow> k < 5" "bit type k \<Longrightarrow> k < 2"
    "bit flags k \<Longrightarrow> k < 4" "bit v4 k \<Longrightarrow> k = 0" for k
    using assms(1-6) bit_less [of ns 6 k] bit_less [of out 6 k] bit_less [of len 5 k]
      bit_less [of type 2 k] bit_less [of flags 4 k] bit_less [of v4 1 k] by auto
  have one: "w AND 1 = take_bit 1 w" for w :: "'a::len word" by (simp add: take_bit_eq_mask)
  have bd: "unat ns < 65536" "unat out < 65536" "unat len < 65536" "unat type < 65536"
    "unat flags < 65536" "unat v4 < 65536" using assms by auto
  show "mc_ns r = unat ns" unfolding mc_ns_def
    by (rule unat_eq_ucast [OF bd(1)], rule bit_word_eqI)
      (auto simp: r_def IFX_FLOW_PCE_MC_M_def one bit_simps dest: b)
  show "mc_out r = unat out" unfolding mc_out_def
    by (rule unat_eq_ucast [OF bd(2)], rule bit_word_eqI)
      (auto simp: r_def IFX_FLOW_PCE_MC_M_def one bit_simps dest: b)
  have sm: "unat (drop_bit 1 len) < 65536" "unat (take_bit 1 len) < 65536"
    using bd(3) by (simp_all add: drop_bit_eq_div take_bit_eq_mod unat_div_distrib unat_mod_distrib)
  have hi: "unat (val_1 r AND mask 4) = unat (drop_bit 1 len)"
    by (rule unat_eq_ucast, rule sm(1), rule bit_word_eqI)
      (auto simp: r_def IFX_FLOW_PCE_MC_M_def one bit_simps dest: b)
  have lo: "unat (drop_bit 15 (val_0 r)) = unat (take_bit 1 len)"
    by (rule unat_eq_ucast, rule sm(2), rule bit_word_eqI)
      (auto simp: r_def IFX_FLOW_PCE_MC_M_def one bit_simps dest: b)
  show "mc_len r = unat len"
    unfolding mc_len_def hi lo by (simp add: drop_bit_eq_div take_bit_eq_mod unat_div_distrib unat_mod_distrib)
  show "mc_type r = unat type" unfolding mc_type_def
    by (rule unat_eq_ucast [OF bd(4)], rule bit_word_eqI)
      (auto simp: r_def IFX_FLOW_PCE_MC_M_def one bit_simps dest: b)
  show "mc_flags r = unat flags" unfolding mc_flags_def
    by (rule unat_eq_ucast [OF bd(5)], rule bit_word_eqI)
      (auto simp: r_def IFX_FLOW_PCE_MC_M_def one bit_simps dest: b)
  have "bit (val_0 r) 8 = bit v4 0"
    by (auto simp: r_def IFX_FLOW_PCE_MC_M_def one bit_simps dest: b)
  moreover have "unat v4 = of_bool (bit (unat v4) 0)" using assms(6) by (cases "unat v4 = 0") (auto simp: bit_0)
  ultimately show "mc_ipv4_len r = unat v4" by (simp add: mc_ipv4_len_def bit_unsigned_iff)
qed

section \<open>The download\<close>

lemma microcode_length [simp]: "length pce_mc_max_ifx_tag_m = 64"
  by (simp add: pce_mc_max_ifx_tag_m_def)

abbreviation (input) FDMA_PCTRL_EN :: field where "FDMA_PCTRL_EN \<equiv> (0xA80, 0, 1)"
abbreviation (input) SDMA_PCTRL_PEN :: field where "SDMA_PCTRL_PEN \<equiv> (0xBC0, 0, 1)"
abbreviation (input) GLOB_CTRL_SE :: field where "GLOB_CTRL_SE \<equiv> (0x000, 15, 1)"
abbreviation (input) PCE_GCTRL_0_MC_VALID :: field where "PCE_GCTRL_0_MC_VALID \<equiv> (0x456, 3, 1)"
abbreviation (input) PCE_PMAP_2_DMCPMAP :: field where "PCE_PMAP_2_DMCPMAP \<equiv> (0x454, 0, 16)"
abbreviation (input) PCE_PMAP_3_UUCMAP :: field where "PCE_PMAP_3_UUCMAP \<equiv> (0x455, 0, 16)"
abbreviation (input) BM_PCFG_CNTEN :: field where "BM_PCFG_CNTEN \<equiv> (0x080, 0, 1)"
abbreviation (input) BM_QUEUE_GCTRL_GL_MOD :: field where "BM_QUEUE_GCTRL_GL_MOD \<equiv> (0x04A, 10, 2)"

definition mc_entry :: "nat \<Rightarrow> IFX_FLOW_PCE_MICROCODE_ROW \<Rightarrow> pce_entry" where
  "mc_entry i r = zero_entry\<lparr>e_val := [val_0 r, val_1 r, val_2 r, val_3 r, 0, 0, 0],
     e_index := of_nat i, e_table := PCE_PARS_INDEX\<rparr>"

fun mc_download :: "('p hw \<Rightarrow> 'p hw) \<Rightarrow> nat \<Rightarrow> IFX_FLOW_PCE_MICROCODE_ROW list \<Rightarrow> 'p hw \<Rightarrow> 'p hw option" where
  "mc_download hwstep i [] h = Some h"
| "mc_download hwstep i (r # rs) h = do {
     h \<leftarrow> ifx_ethsw_xwayflow_pce_table_write hwstep (mc_entry i r) h;
     mc_download hwstep (Suc i) rs h }"

text \<open>\<open>nPortNumber\<close> is the field of the switch device record.\<close>

definition IFX_VR9_Switch_PCE_Micro_Code_Int ::
  "('p hw \<Rightarrow> 'p hw) \<Rightarrow> u8 \<Rightarrow> 'p hw \<Rightarrow> (int \<times> 'p hw) option" where
  "IFX_VR9_Switch_PCE_Micro_Code_Int hwstep nPortNumber h = do {
     let h = port_loop (unat nPortNumber) (\<lambda>j. [(at FDMA_PCTRL_EN (of_nat j * 0x6), 0),
               (at SDMA_PCTRL_PEN (of_nat j * 0x6), 0)]) h;
     let h = wrf (at GLOB_CTRL_SE 0xC40) 1 h;
     h \<leftarrow> mc_download hwstep 0 pce_mc_max_ifx_tag_m h;
     let h = wrf PCE_GCTRL_0_MC_VALID 0x1 h;
     let h = wrf PCE_PMAP_2_DMCPMAP 0x7F h;
     let h = wrf PCE_PMAP_3_UUCMAP 0x7F h;
     let h = port_loop (unat nPortNumber) (\<lambda>j. [(at BM_PCFG_CNTEN (of_nat j * 0x2), 1)]) h;
     let h = wrf BM_QUEUE_GCTRL_GL_MOD 0 h;
     Some (IFX_SUCCESS, h) }"

lemma mc_entry_wf [simp]: "entry_wf (mc_entry i r)"
  by (simp add: mc_entry_def entry_wf_def zero_entry_def)

lemma download_spec:
  assumes E: "pce_engine hwstep tbl keep S" and h: "idle h" and i: "i + length rs \<le> 64"
  shows "\<exists>h'. mc_download hwstep i rs h = Some h' \<and> idle h' \<and>
    (\<forall>k<length rs. driver_tbl tbl h' 0 (i + k) = keep 0 (img_of (mc_entry (i + k) (rs ! k)))) \<and>
    (\<forall>t k. t \<noteq> 0 \<or> k < i \<longrightarrow> driver_tbl tbl h' t k = driver_tbl tbl h t k) \<and>
    (\<forall>off. off \<in> S \<longrightarrow> \<not> in_window off \<longrightarrow> regs h' off = regs h off)"
  using h i
proof (induction rs arbitrary: i h)
  case Nil then show ?case by simp
next
  case (Cons r rs)
  have x: "unat (e_table (mc_entry i r)) = 0" "unat (e_index (mc_entry i r)) = i" "i < pce_table_size 0"
    using Cons.prems(2) by (simp_all add: mc_entry_def unat_of_nat_small pce_table_size_def)
  from pce_engine.table_write_spec [OF E Cons.prems(1) mc_entry_wf x(1,2) _ _ x(3)]
  obtain g where g: "ifx_ethsw_xwayflow_pce_table_write hwstep (mc_entry i r) h = Some g" "idle g"
    "driver_tbl tbl g = set_row (driver_tbl tbl h) 0 i (keep 0 (img_of (mc_entry i r)))"
    "\<And>off. off \<in> S \<Longrightarrow> \<not> in_window off \<Longrightarrow> regs g off = regs h off" by auto
  from Cons.IH [OF g(2), of "Suc i"] Cons.prems(2)
  obtain h' where h': "mc_download hwstep (Suc i) rs g = Some h'" "idle h'"
    "\<And>k. k < length rs \<Longrightarrow> driver_tbl tbl h' 0 (Suc i + k) = keep 0 (img_of (mc_entry (Suc i + k) (rs ! k)))"
    "\<And>t k. t \<noteq> 0 \<or> k < Suc i \<Longrightarrow> driver_tbl tbl h' t k = driver_tbl tbl g t k"
    "\<And>off. off \<in> S \<Longrightarrow> \<not> in_window off \<Longrightarrow> regs h' off = regs g off" by auto
  have rows: "driver_tbl tbl h' 0 (i + k) = keep 0 (img_of (mc_entry (i + k) ((r # rs) ! k)))"
    if "k < length (r # rs)" for k
    using that h'(3) [of "k - 1"] by (cases k) (simp_all add: h'(4) g(3) set_row_def)
  have rest: "driver_tbl tbl h' t k = driver_tbl tbl h t k" if "t \<noteq> 0 \<or> k < i" for t k
    using that h'(4) [of t k] by (auto simp: g(3) set_row_def)
  show ?case
    by (rule exI [of _ h']) (use g(1,4) h'(1,2,5) rows rest in simp)
qed

lemma idle_wrf: "fdisj F TBL_CTRL_BAS \<Longrightarrow> idle (wrf F v h) = idle h"
  by (simp add: idle_def rdf_wrf_other)

lemma driver_wrf [simp]: "driver_tbl tbl (wrf F v h) = driver_tbl tbl h"
  by (simp add: driver_tbl_def fun_eq_iff)

lemma driver_port_loop [simp]: "driver_tbl tbl (port_loop n f h) = driver_tbl tbl h"
  by (simp add: driver_tbl_def port_loop_def fun_eq_iff)

lemma rdf_stable: "regs h' (fst F) = regs h (fst F) \<Longrightarrow> rdf F h' = rdf F h"
  by (cases F) (simp add: rdf.simps read_fld_get)

lemma window_range: "in_window off \<Longrightarrow> 0x436 \<le> unat off \<and> unat off \<le> 0x44F"
  by (auto simp: in_window_def)

text \<open>The registers the download configures, none of them in the window.\<close>

definition mc_regs :: "nat \<Rightarrow> 16 word set" where
  "mc_regs n = {fst (at GLOB_CTRL_SE 0xC40)} \<union> (\<lambda>j. fst (at FDMA_PCTRL_EN (of_nat j * 0x6))) ` {..<n} \<union>
     (\<lambda>j. fst (at SDMA_PCTRL_PEN (of_nat j * 0x6))) ` {..<n}"

lemma port_loop_other:
  "(\<And>j F v. j < n \<Longrightarrow> (F, v) \<in> set (f j) \<Longrightarrow> fdisj F G) \<Longrightarrow> rdf G (port_loop n f h) = rdf G h"
  unfolding port_loop_def by (intro wrfs_other) auto

lemma port_loop_all:
  assumes "j < n" "(G, v) \<in> set (f j)" "fwf G"
    and "\<And>i F u. i < n \<Longrightarrow> (F, u) \<in> set (f i) \<Longrightarrow> (F, u) = (G, v) \<or> fdisj F G"
  shows "rdf G (port_loop n f h) = v AND mask (fwidth G)"
  unfolding port_loop_def
proof (rule wrfs_all [OF _ assms(3)])
  show "(G, v) \<in> set (concat (map f [0..<n]))" using assms(1,2) by auto
  show "(F, u) = (G, v) \<or> fdisj F G" if "(F, u) \<in> set (concat (map f [0..<n]))" for F u
    using that assms(4) [of _ F u] by auto
qed

lemma micro_code_spec:
  assumes E: "pce_engine hwstep tbl keep S" and h: "idle h" and n: "unat n \<le> 12" and S: "mc_regs (unat n) \<subseteq> S"
  shows "\<exists>h'. IFX_VR9_Switch_PCE_Micro_Code_Int hwstep n h = Some (IFX_SUCCESS, h') \<and> idle h' \<and>
    (\<forall>k<64. driver_tbl tbl h' 0 k = keep 0 (img_of (mc_entry k (pce_mc_max_ifx_tag_m ! k)))) \<and>
    (\<forall>t k. t \<noteq> 0 \<longrightarrow> driver_tbl tbl h' t k = driver_tbl tbl h t k) \<and>
    rdf (at GLOB_CTRL_SE 0xC40) h' = 1 \<and> rdf PCE_GCTRL_0_MC_VALID h' = 1 \<and>
    rdf PCE_PMAP_2_DMCPMAP h' = 0x7F \<and> rdf PCE_PMAP_3_UUCMAP h' = 0x7F \<and>
    (\<forall>j<unat n. rdf (at FDMA_PCTRL_EN (of_nat j * 0x6)) h' = 0 \<and>
      rdf (at SDMA_PCTRL_PEN (of_nat j * 0x6)) h' = 0 \<and> rdf (at BM_PCFG_CNTEN (of_nat j * 0x2)) h' = 1)"
proof -
  let ?off = "\<lambda>j. [(at FDMA_PCTRL_EN (of_nat j * 0x6), 0), (at SDMA_PCTRL_PEN (of_nat j * 0x6), 0 :: u32)]"
  let ?cnt = "\<lambda>j. [(at BM_PCFG_CNTEN (of_nat j * 0x2), 1 :: u32)]"
  define h1 where "h1 = wrf (at GLOB_CTRL_SE 0xC40) 1 (port_loop (unat n) ?off h)"
  have off: "rdf (at FDMA_PCTRL_EN (of_nat j * 0x6)) h1 = 0" "rdf (at SDMA_PCTRL_PEN (of_nat j * 0x6)) h1 = 0"
    if "j < unat n" for j
  proof -
    have "rdf (at FDMA_PCTRL_EN (of_nat j * 0x6)) (port_loop (unat n) ?off h) = 0 AND mask 1"
      by (subst port_loop_all [OF that]) (use n that in \<open>auto simp: port_simps simp del: fdisj.simps\<close>)
    moreover have "rdf (at SDMA_PCTRL_PEN (of_nat j * 0x6)) (port_loop (unat n) ?off h) = 0 AND mask 1"
      by (subst port_loop_all [OF that]) (use n that in \<open>auto simp: port_simps simp del: fdisj.simps\<close>)
    ultimately show "rdf (at FDMA_PCTRL_EN (of_nat j * 0x6)) h1 = 0" "rdf (at SDMA_PCTRL_PEN (of_nat j * 0x6)) h1 = 0"
      using n that by (simp_all add: h1_def rdf_wrf_other port_simps del: fdisj.simps)
  qed
  have "rdf TBL_CTRL_BAS (port_loop (unat n) ?off h) = rdf TBL_CTRL_BAS h"
    by (rule port_loop_other) (use n in \<open>auto simp: port_simps simp del: fdisj.simps\<close>)
  then have i1: "idle h1" using h by (simp add: h1_def idle_def rdf_wrf_other)
  have se: "rdf (at GLOB_CTRL_SE 0xC40) h1 = 1"
    by (simp add: h1_def rdf_wrf_same mask_eq_simps)
  from download_spec [OF E i1, of 0 pce_mc_max_ifx_tag_m]
  obtain h2 where h2: "mc_download hwstep 0 pce_mc_max_ifx_tag_m h1 = Some h2" "idle h2"
    "\<And>k. k < 64 \<Longrightarrow> driver_tbl tbl h2 0 k = keep 0 (img_of (mc_entry k (pce_mc_max_ifx_tag_m ! k)))"
    "\<And>t k. t \<noteq> 0 \<Longrightarrow> driver_tbl tbl h2 t k = driver_tbl tbl h1 t k"
    "\<And>off. off \<in> S \<Longrightarrow> \<not> in_window off \<Longrightarrow> regs h2 off = regs h1 off" by auto
  have r2: "rdf F h2 = rdf F h1" if "fst F \<in> mc_regs (unat n)" for F
  proof (rule rdf_stable, rule h2(5))
    show "fst F \<in> S" using that S by blast
    have "unat (fst F) = 0xC40 \<or> 0xA80 \<le> unat (fst F)"
      using that n by (auto simp: mc_regs_def port_simps)
    then show "\<not> in_window (fst F)" using window_range by force
  qed
  define h3 where "h3 = wrf PCE_PMAP_3_UUCMAP 0x7F (wrf PCE_PMAP_2_DMCPMAP 0x7F (wrf PCE_GCTRL_0_MC_VALID 0x1 h2))"
  define h4 where "h4 = port_loop (unat n) ?cnt h3"
  define h5 where "h5 = wrf BM_QUEUE_GCTRL_GL_MOD 0 h4"
  have run: "IFX_VR9_Switch_PCE_Micro_Code_Int hwstep n h = Some (IFX_SUCCESS, h5)"
    using h2(1) unfolding h1_def by (simp add: IFX_VR9_Switch_PCE_Micro_Code_Int_def h5_def h4_def h3_def)
  have late: "rdf F h5 = rdf F h3" if "fdisj BM_QUEUE_GCTRL_GL_MOD F" "\<And>j. j < unat n \<Longrightarrow> fdisj (at BM_PCFG_CNTEN (of_nat j * 0x2)) F" for F
  proof -
    have "rdf F h4 = rdf F h3" unfolding h4_def by (rule port_loop_other) (use that(2) in auto)
    then show ?thesis unfolding h5_def by (subst rdf_wrf_other [OF that(1)])
  qed
  have r5: "rdf F h5 = rdf F h1" if "fst F \<in> mc_regs (unat n)"
      "fdisj BM_QUEUE_GCTRL_GL_MOD F" "\<And>j. j < unat n \<Longrightarrow> fdisj (at BM_PCFG_CNTEN (of_nat j * 0x2)) F"
      "fdisj PCE_PMAP_3_UUCMAP F" "fdisj PCE_PMAP_2_DMCPMAP F" "fdisj PCE_GCTRL_0_MC_VALID F" for F
    using that(1,4-6) by (simp add: late [OF that(2,3)] h3_def rdf_wrf_other r2)
  show ?thesis
  proof (intro exI [of _ h5] conjI run allI impI)
    have "rdf TBL_CTRL_BAS h5 = rdf TBL_CTRL_BAS h2"
      by (subst late) (use n in \<open>auto simp: port_simps h3_def rdf_wrf_other simp del: fdisj.simps\<close>)
    with h2(2) show "idle h5" by (simp add: idle_def)
    show "driver_tbl tbl h5 0 k = keep 0 (img_of (mc_entry k (pce_mc_max_ifx_tag_m ! k)))" if "k < 64" for k
      using h2(3) [OF that] by (simp add: h5_def h4_def h3_def)
    show "driver_tbl tbl h5 t k = driver_tbl tbl h t k" if "t \<noteq> 0" for t k
      using h2(4) [OF that] by (simp add: h5_def h4_def h3_def h1_def)
    show "rdf (at GLOB_CTRL_SE 0xC40) h5 = 1"
      by (subst r5) (use n se in \<open>auto simp: port_simps mc_regs_def simp del: fdisj.simps\<close>)
    show "rdf PCE_GCTRL_0_MC_VALID h5 = 1" "rdf PCE_PMAP_2_DMCPMAP h5 = 0x7F" "rdf PCE_PMAP_3_UUCMAP h5 = 0x7F"
      by (subst late, simp, use n in \<open>simp add: port_simps del: fdisj.simps\<close>,
          simp add: h3_def field_simps_hw mask_eq_simps)+
    fix j assume j: "j < unat n"
    show "rdf (at FDMA_PCTRL_EN (of_nat j * 0x6)) h5 = 0"
      by (subst r5) (use n j off(1) [OF j] in \<open>auto simp: port_simps mc_regs_def simp del: fdisj.simps\<close>)
    show "rdf (at SDMA_PCTRL_PEN (of_nat j * 0x6)) h5 = 0"
      by (subst r5) (use n j off(2) [OF j] in \<open>auto simp: port_simps mc_regs_def simp del: fdisj.simps\<close>)
    have "rdf (at BM_PCFG_CNTEN (of_nat j * 0x2)) h4 = 1 AND mask 1"
      unfolding h4_def by (subst port_loop_all [OF j]) (use n j in \<open>auto simp: port_simps simp del: fdisj.simps\<close>)
    then show "rdf (at BM_PCFG_CNTEN (of_nat j * 0x2)) h5 = 1"
      unfolding h5_def by (subst rdf_wrf_other) (use n j in \<open>auto simp: port_simps simp del: fdisj.simps\<close>)
  qed
qed

end
