(* ===== verification/Core_State.thy ===== *)
theory Core_State
  imports PCE_Boot PCE_Microcode
begin

text \<open>
  The state of the switch core driver, \<^verbatim>\<open>ltq_flow_core.h\<close>, and its set-up in \<^verbatim>\<open>ltq_flow_core.c\<close>.
  The device record \<open>dev\<close> keeps what the driver knows of ports and VLANs; \<open>pce\<close> keeps
  \<^verbatim>\<open>PCE_Handler\<close> and the device itself. Not kept are the handles of the operating system and the
  sizes of tables that no handler reads.
\<close>

unbundle bit_operations_syntax

section \<open>The device record\<close>

abbreviation (input) MAX_PORT_NUMBER :: nat where "MAX_PORT_NUMBER \<equiv> 12"
abbreviation (input) IFX_HW_VLAN_MAP_TABLE_MAX :: nat where "IFX_HW_VLAN_MAP_TABLE_MAX \<equiv> 64"
abbreviation (input) IFX_FLOW_VLAN_ENTRY_MAX :: nat where "IFX_FLOW_VLAN_ENTRY_MAX \<equiv> 64"
abbreviation (input) IFX_FLOW_MULTICAST_SW_TBL_SIZE :: nat where "IFX_FLOW_MULTICAST_SW_TBL_SIZE \<equiv> 64"
abbreviation (input) LTQ_GSWIP_2_2 :: u16 where "LTQ_GSWIP_2_2 \<equiv> 0x122"
abbreviation (input) IFX_ETHSW_FLOW_TOP_REG_OFFSET :: "16 word" where "IFX_ETHSW_FLOW_TOP_REG_OFFSET \<equiv> 0xC40"
abbreviation (input) DEFAULT_AGING_TIMEOUT :: u32 where "DEFAULT_AGING_TIMEOUT \<equiv> 300"
abbreviation (input) IFX_FALSE :: u32 where "IFX_FALSE \<equiv> 0"
abbreviation (input) IFX_TRUE :: u32 where "IFX_TRUE \<equiv> 1"

abbreviation (input) IFX_ETHSW_PORT_FORWARD_DEFAULT :: u32 where "IFX_ETHSW_PORT_FORWARD_DEFAULT \<equiv> 0"
abbreviation (input) IFX_ETHSW_PORT_FORWARD_DISCARD :: u32 where "IFX_ETHSW_PORT_FORWARD_DISCARD \<equiv> 1"
abbreviation (input) IFX_ETHSW_PORT_FORWARD_CPU :: u32 where "IFX_ETHSW_PORT_FORWARD_CPU \<equiv> 2"
abbreviation (input) IFX_ETHSW_PORT_FORWARD_PORT :: u32 where "IFX_ETHSW_PORT_FORWARD_PORT \<equiv> 3"

record IFX_FLOW_portConfig =
  bPortEnable :: u32
  bTVM :: u32
  bLearningLimitAction :: u32
  bLearningPortLocked :: u32
  nLearningLimit :: u16
  nPortState :: u16
  ifx_stp_state :: u32
  ifx_8021x_state :: u32

record IFX_FLOW_STP_8021X =
  eForwardPort :: u32
  n8021X_ForwardPortId :: u8
  eSTPPortState :: u32
  nSTP_PortID :: u16

record IFX_FLOW_VLAN_tableEntry =
  vt_valid :: u32
  vt_vid :: u16
  vt_fid :: u32
  vt_pm :: u16
  vt_tm :: u16
  vt_reserved :: u32

text \<open>The multicast groups: a row of the software table, and \<^verbatim>\<open>IFX_FLOW_IGMP_t\<close>.\<close>

record IFX_MulticastSW_table_Entry =
  SrcIp_MSB_Index :: u16
  DisIp_MSB_Index :: u16
  SrcIp_LSB_Index :: u16
  DisIp_LSB_Index :: u16
  PortMap :: u16
  eModeMember :: u16
  sw_valid :: u32

record IFX_FLOW_IGMP =
  eIGMP_Mode :: u16
  bIGMPv3 :: u32
  ig_eForwardPort :: u16
  ig_nForwardPortId :: u8
  bCrossVLAN :: u32
  nClassOfService :: u8
  multicast_sw_table :: "IFX_MulticastSW_table_Entry list"
  eRouterPort :: u16
  nSwTblSize :: u8

record IFX_FLOW_switchDev =
  PortConfig :: "IFX_FLOW_portConfig list"
  bVLAN_Aware :: u32
  VLAN_Table :: "IFX_FLOW_VLAN_tableEntry list"
  STP_8021x_Config :: IFX_FLOW_STP_8021X
  IGMP_Flags :: IFX_FLOW_IGMP
  nPortNumber :: u8
  nTotalPortNumber :: u8
  nManagementPortNumber :: u8
  MAC_AgeTimer :: u32
  bResetCalled :: u32
  bHW_InitCalled :: u32
  vlan_table_index :: u8
  mac_table_index :: u16
  multi_hw_table_index :: u16
  multi_sw_table_index :: u16
  nCPU_Port :: u8
  multi_routerport_counter :: u8
  meter_cnt :: u8
  max_mac_bridge_table_size :: u16
  max_meter_table_size :: u16
  max_shapers_table_size :: u16
  GSWIP_Ver :: u16

record 'p core =
  dev :: IFX_FLOW_switchDev
  pce :: "'p pce_st"

abbreviation hw_of :: "'p core \<Rightarrow> 'p hw" where
  "hw_of s \<equiv> st_hw (pce s)"

definition upd_hw :: "('p hw \<Rightarrow> 'p hw) \<Rightarrow> 'p core \<Rightarrow> 'p core" where
  "upd_hw f s = s\<lparr>pce := (pce s)\<lparr>st_hw := f (hw_of s)\<rparr>\<rparr>"

text \<open>A read and a write of a register field by a handler, and a port's register: \<open>stride\<close> words per port.\<close>

abbreviation rd :: "field \<Rightarrow> 'p core \<Rightarrow> u32" where
  "rd F s \<equiv> rdf F (hw_of s)"

definition wr :: "field \<Rightarrow> u32 \<Rightarrow> 'p core \<Rightarrow> 'p core" where
  "wr F v = upd_hw (wrf F v)"

fun wrs :: "(field \<times> u32) list \<Rightarrow> 'p core \<Rightarrow> 'p core" where
  "wrs [] s = s"
| "wrs ((F, v) # ws) s = wrs ws (wr F v s)"

definition upd_dev :: "(IFX_FLOW_switchDev \<Rightarrow> IFX_FLOW_switchDev) \<Rightarrow> 'p core \<Rightarrow> 'p core" where
  "upd_dev f s = s\<lparr>dev := f (dev s)\<rparr>"

definition upd_sw :: "nat \<Rightarrow> (IFX_MulticastSW_table_Entry \<Rightarrow> IFX_MulticastSW_table_Entry) \<Rightarrow> IFX_FLOW_switchDev \<Rightarrow> IFX_FLOW_switchDev" where
  "upd_sw i f d = d\<lparr>IGMP_Flags := (IGMP_Flags d)\<lparr>multicast_sw_table :=
     (multicast_sw_table (IGMP_Flags d))[i := f (multicast_sw_table (IGMP_Flags d) ! i)]\<rparr>\<rparr>"

definition upd_port :: "nat \<Rightarrow> (IFX_FLOW_portConfig \<Rightarrow> IFX_FLOW_portConfig) \<Rightarrow> IFX_FLOW_switchDev \<Rightarrow> IFX_FLOW_switchDev" where
  "upd_port p f d = d\<lparr>PortConfig := (PortConfig d)[p := f (PortConfig d ! p)]\<rparr>"

lemma upd_hw_simps [simp]:
  "dev (upd_hw f s) = dev s" "hw_of (upd_hw f s) = f (hw_of s)"
  "st_pce (pce (upd_hw f s)) = st_pce (pce s)" "st_ent (pce (upd_hw f s)) = st_ent (pce s)"
  by (simp_all add: upd_hw_def)

lemma wr_simps [simp]:
  "dev (wr F v s) = dev s" "hw_of (wr F v s) = wrf F v (hw_of s)"
  "st_pce (pce (wr F v s)) = st_pce (pce s)" "st_ent (pce (wr F v s)) = st_ent (pce s)"
  by (simp_all add: wr_def)

lemma wrs_simps [simp]:
  "dev (wrs ws s) = dev s" "hw_of (wrs ws s) = wrfs ws (hw_of s)"
  "st_pce (pce (wrs ws s)) = st_pce (pce s)" "st_ent (pce (wrs ws s)) = st_ent (pce s)"
proof (induction ws arbitrary: s)
  case (Cons w ws)
  case 1 show ?case using Cons(1) by (cases w) simp
  case 2 show ?case using Cons(2) by (cases w) simp
  case 3 show ?case using Cons(3) by (cases w) simp
  case 4 show ?case using Cons(4) by (cases w) simp
qed simp_all

lemma upd_dev_simps [simp]:
  "dev (upd_dev f s) = f (dev s)" "pce (upd_dev f s) = pce s"
  by (simp_all add: upd_dev_def)

lemma upd_port_simps [simp]:
  "PortConfig (upd_port p f d) = (PortConfig d)[p := f (PortConfig d ! p)]"
  "nPortNumber (upd_port p f d) = nPortNumber d" "nTotalPortNumber (upd_port p f d) = nTotalPortNumber d"
  "VLAN_Table (upd_port p f d) = VLAN_Table d" "STP_8021x_Config (upd_port p f d) = STP_8021x_Config d"
  "GSWIP_Ver (upd_port p f d) = GSWIP_Ver d"
  by (simp_all add: upd_port_def)

section \<open>Set-up\<close>

abbreviation (input) VR9_ETHSW_CAP_1_PPORTS :: field where "VR9_ETHSW_CAP_1_PPORTS \<equiv> (0x007, 0, 4)"
abbreviation (input) VR9_ETHSW_CAP_1_VPORTS :: field where "VR9_ETHSW_CAP_1_VPORTS \<equiv> (0x007, 4, 4)"
abbreviation (input) VR9_MDC_CFG_1_FREQ :: field where "VR9_MDC_CFG_1_FREQ \<equiv> (0x00C, 0, 8)"
abbreviation (input) VR9_ANEG_EEE_0_CLK_STOP_CAPABLE :: field where "VR9_ANEG_EEE_0_CLK_STOP_CAPABLE \<equiv> (0x01C, 2, 2)"
abbreviation (input) VR9_ETHSW_CAP_10_MACBT :: field where "VR9_ETHSW_CAP_10_MACBT \<equiv> (0x010, 0, 13)"
abbreviation (input) VR9_ETHSW_CAP_8_MCAST :: field where "VR9_ETHSW_CAP_8_MCAST \<equiv> (0x00E, 0, 8)"
abbreviation (input) VR9_ETHSW_CAP_3_METERS :: field where "VR9_ETHSW_CAP_3_METERS \<equiv> (0x009, 8, 8)"
abbreviation (input) VR9_ETHSW_CAP_3_SHAPERS :: field where "VR9_ETHSW_CAP_3_SHAPERS \<equiv> (0x009, 0, 8)"

definition zero_portConfig :: IFX_FLOW_portConfig where
  "zero_portConfig = \<lparr>bPortEnable = 0, bTVM = 0, bLearningLimitAction = 0, bLearningPortLocked = 0,
     nLearningLimit = 0, nPortState = 0, ifx_stp_state = 0, ifx_8021x_state = 0\<rparr>"

definition zero_vlan :: IFX_FLOW_VLAN_tableEntry where
  "zero_vlan = \<lparr>vt_valid = 0, vt_vid = 0, vt_fid = 0, vt_pm = 0, vt_tm = 0, vt_reserved = 0\<rparr>"

definition zero_sw :: IFX_MulticastSW_table_Entry where
  "zero_sw = \<lparr>SrcIp_MSB_Index = 0, DisIp_MSB_Index = 0, SrcIp_LSB_Index = 0, DisIp_LSB_Index = 0,
     PortMap = 0, eModeMember = 0, sw_valid = 0\<rparr>"

definition zero_IGMP :: IFX_FLOW_IGMP where
  "zero_IGMP = \<lparr>eIGMP_Mode = 0, bIGMPv3 = 0, ig_eForwardPort = 0, ig_nForwardPortId = 0, bCrossVLAN = 0,
     nClassOfService = 0, multicast_sw_table = replicate IFX_FLOW_MULTICAST_SW_TBL_SIZE zero_sw,
     eRouterPort = 0, nSwTblSize = 0\<rparr>"

text \<open>The device record after \<^verbatim>\<open>memset(pDev, 0, sizeof(IFX_FLOW_switchDev_t))\<close>.\<close>

definition zero_dev :: IFX_FLOW_switchDev where
  "zero_dev = \<lparr>PortConfig = replicate MAX_PORT_NUMBER zero_portConfig, bVLAN_Aware = 0,
     VLAN_Table = replicate IFX_HW_VLAN_MAP_TABLE_MAX zero_vlan,
     STP_8021x_Config = \<lparr>eForwardPort = 0, n8021X_ForwardPortId = 0, eSTPPortState = 0, nSTP_PortID = 0\<rparr>,
     IGMP_Flags = zero_IGMP, nPortNumber = 0, nTotalPortNumber = 0, nManagementPortNumber = 0, MAC_AgeTimer = 0, bResetCalled = 0, bHW_InitCalled = 0,
     vlan_table_index = 0, mac_table_index = 0, multi_hw_table_index = 0, multi_sw_table_index = 0,
     nCPU_Port = 0, multi_routerport_counter = 0, meter_cnt = 0, max_mac_bridge_table_size = 0,
     max_meter_table_size = 0, max_shapers_table_size = 0, GSWIP_Ver = 0\<rparr>"

definition IFX_FLOW_VLAN_Table_Init :: "'p core \<Rightarrow> 'p core" where
  "IFX_FLOW_VLAN_Table_Init =
     fold (\<lambda>i. upd_dev (\<lambda>d. d\<lparr>VLAN_Table := (VLAN_Table d)[i := zero_vlan]\<rparr>)) [0..<IFX_FLOW_VLAN_ENTRY_MAX]"

text \<open>A port number beyond \<^verbatim>\<open>MAX_PORT_NUMBER\<close>, which no device reports, would write past the array in C.\<close>

definition IFX_FLOW_PortCfg_Init :: "'p core \<Rightarrow> 'p core" where
  "IFX_FLOW_PortCfg_Init s =
     (let value = rd VR9_ETHSW_CAP_1_PPORTS s;
          s = upd_dev (\<lambda>d. d\<lparr>nPortNumber := ucast value\<rparr>) s;
          s = fold (\<lambda>i. upd_dev (upd_port i (\<lambda>_. zero_portConfig\<lparr>nLearningLimit := 0xFF, bPortEnable := 1\<rparr>)))
                [0..<unat (nPortNumber (dev s))] s;
          s = upd_dev (\<lambda>d. d\<lparr>STP_8021x_Config := (STP_8021x_Config d)\<lparr>eForwardPort := IFX_ETHSW_PORT_FORWARD_DEFAULT,
                n8021X_ForwardPortId := nCPU_Port d\<rparr>\<rparr>) s;
          value = rd VR9_ETHSW_CAP_1_VPORTS s
      in upd_dev (\<lambda>d. d\<lparr>nTotalPortNumber := ucast (value + ucast (nPortNumber d))\<rparr>) s)"

text \<open>A size beyond the array, which no device reports, would write past it in C; here it does nothing.\<close>

definition IFX_FLOW_MULTICAST_SW_Table_Init :: "'p core \<Rightarrow> 'p core" where
  "IFX_FLOW_MULTICAST_SW_Table_Init s =
     (let value = rd VR9_ETHSW_CAP_8_MCAST s;
          s = upd_dev (\<lambda>d. d\<lparr>IGMP_Flags := zero_IGMP\<rparr>) s;
          s = upd_dev (\<lambda>d. d\<lparr>IGMP_Flags := (IGMP_Flags d)\<lparr>nSwTblSize := ucast value\<rparr>\<rparr>) s
      in fold (\<lambda>i. upd_dev (upd_sw i (\<lambda>e. e\<lparr>SrcIp_LSB_Index := 0x7F, DisIp_LSB_Index := 0x7F,
           SrcIp_MSB_Index := 0x1F, DisIp_MSB_Index := 0x1F\<rparr>)))
           [0..<unat (nSwTblSize (IGMP_Flags (dev s)))] s)"

text \<open>
  \<^verbatim>\<open>IFX_FLOW_SwitchCoreInit\<close>, the allocation of the device record aside; \<open>g\<close> is the uninitialised
  table entry of the classification engine.
\<close>

definition IFX_FLOW_SwitchCoreInit :: "('p hw \<Rightarrow> 'p hw) \<Rightarrow> pce_entry \<Rightarrow> 'p hw \<Rightarrow> 'p core option" where
  "IFX_FLOW_SwitchCoreInit hwstep g h = do {
     let s = \<lparr>dev = zero_dev, pce = \<lparr>st_pce = zeroed_PCE, st_hw = h, st_ent = g\<rparr>\<rparr>;
     let s = IFX_FLOW_VLAN_Table_Init s;
     let s = IFX_FLOW_PortCfg_Init s;
     let s = IFX_FLOW_MULTICAST_SW_Table_Init s;
     let s = s\<lparr>pce := (pce s)\<lparr>st_pce := snd (ifx_pce_table_init (st_pce (pce s)))\<rparr>\<rparr>;
     let s = upd_dev (\<lambda>d. d\<lparr>bResetCalled := IFX_FALSE, bHW_InitCalled := IFX_FALSE,
               MAC_AgeTimer := DEFAULT_AGING_TIMEOUT\<rparr>) s;
     (_, h) \<leftarrow> IFX_VR9_Switch_PCE_Micro_Code_Int hwstep (nPortNumber (dev s)) (hw_of s);
     let s = upd_hw (\<lambda>_. h) s;
     let s = wr (at VR9_MDC_CFG_1_FREQ IFX_ETHSW_FLOW_TOP_REG_OFFSET) 0xFF s;
     let s = wrs (map (\<lambda>j. (at VR9_ANEG_EEE_0_CLK_STOP_CAPABLE (of_nat j + IFX_ETHSW_FLOW_TOP_REG_OFFSET), 0x3))
               [0..<unat (nPortNumber (dev s)) - 1]) s;
     let s = upd_dev (\<lambda>d. d\<lparr>max_mac_bridge_table_size := ucast (rd VR9_ETHSW_CAP_10_MACBT s)\<rparr>) s;
     let s = upd_dev (\<lambda>d. d\<lparr>max_meter_table_size := ucast (rd VR9_ETHSW_CAP_3_METERS s)\<rparr>) s;
     let s = upd_dev (\<lambda>d. d\<lparr>max_shapers_table_size := ucast (rd VR9_ETHSW_CAP_3_SHAPERS s)\<rparr>) s;
     Some (upd_dev (\<lambda>d. d\<lparr>GSWIP_Ver := ucast (rd (0x013, 0, 16) s)\<rparr>) s) }"

text \<open>What every handler relies on: the arrays have their sizes and the port numbers fit them.\<close>

definition dev_ok :: "IFX_FLOW_switchDev \<Rightarrow> bool" where
  "dev_ok d \<longleftrightarrow> length (PortConfig d) = MAX_PORT_NUMBER \<and> length (VLAN_Table d) = IFX_HW_VLAN_MAP_TABLE_MAX \<and>
     unat (nPortNumber d) \<le> unat (nTotalPortNumber d) \<and> unat (nTotalPortNumber d) \<le> MAX_PORT_NUMBER"

section \<open>Table rows\<close>

text \<open>The access routines on the state of the driver.\<close>

definition row_write :: "('p hw \<Rightarrow> 'p hw) \<Rightarrow> pce_entry \<Rightarrow> 'p core \<Rightarrow> 'p core option" where
  "row_write hwstep e s =
     map_option (\<lambda>h. upd_hw (\<lambda>_. h) s) (ifx_ethsw_xwayflow_pce_table_write hwstep e (hw_of s))"

definition row_read :: "('p hw \<Rightarrow> 'p hw) \<Rightarrow> pce_entry \<Rightarrow> 'p core \<Rightarrow> (pce_entry \<times> 'p core) option" where
  "row_read hwstep e s =
     map_option (\<lambda>(e, h). (e, upd_hw (\<lambda>_. h) s)) (ifx_ethsw_xwayflow_pce_table_read hwstep e (hw_of s))"

abbreviation dtbl :: "('p \<Rightarrow> nat \<Rightarrow> nat \<Rightarrow> pce_img) \<Rightarrow> 'p core \<Rightarrow> nat \<Rightarrow> nat \<Rightarrow> pce_img" where
  "dtbl tbl s \<equiv> driver_tbl tbl (hw_of s)"

lemma row_write_spec:
  assumes E: "pce_engine hwstep tbl keep S" and s: "idle (hw_of s)" and e: "entry_wf e"
    and t: "unat (e_table e) = t" "t < 32" "t \<noteq> 11" and i: "unat (e_index e) = i" "i < pce_table_size t"
  obtains h where "row_write hwstep e s = Some (upd_hw (\<lambda>_. h) s)" "idle h"
    "driver_tbl tbl h = set_row (dtbl tbl s) t i (keep t (img_of e))"
    "\<And>off. off \<in> S \<Longrightarrow> \<not> in_window off \<Longrightarrow> regs h off = regs (hw_of s) off"
  by (rule pce_engine.table_write_spec [OF E s e t(1) i(1) t(2,3) i(2)]) (simp add: row_write_def that)

lemma row_read_spec:
  assumes E: "pce_engine hwstep tbl keep S" and s: "idle (hw_of s)"
    and t: "unat (e_table e) = t" "t < 32" "t \<noteq> 11" and i: "unat (e_index e) = i" "i < pce_table_size t"
  obtains h where "row_read hwstep e s = Some (with_img (dtbl tbl s t i) e, upd_hw (\<lambda>_. h) s)" "idle h"
    "driver_tbl tbl h = dtbl tbl s" "length (i_key (dtbl tbl s t i)) = 9" "length (i_val (dtbl tbl s t i)) = 7"
    "\<And>off. off \<in> S \<Longrightarrow> \<not> in_window off \<Longrightarrow> regs h off = regs (hw_of s) off"
  by (rule pce_engine.table_read_spec [OF E s t(1) i(1) t(2,3) i(2)]) (simp add: row_read_def that)

section \<open>What set-up establishes\<close>

lemma fold_upd_dev: "fold (\<lambda>i. upd_dev (f i)) xs s = upd_dev (fold f xs) s"
  by (induction xs arbitrary: s) (simp_all add: upd_dev_def)

lemma fold_clear:
  "fold (\<lambda>i d. d\<lparr>VLAN_Table := (VLAN_Table d)[i := z]\<rparr>) xs d = d\<lparr>VLAN_Table := fold (\<lambda>i t. t[i := z]) xs (VLAN_Table d)\<rparr>"
  by (induction xs arbitrary: d) simp_all

lemma fold_update_replicate: "fold (\<lambda>i t. t[i := z]) xs (replicate n z) = replicate n z"
proof (induction xs)
  case (Cons a xs)
  have "(replicate n z)[a := z] = replicate n z"
  proof (rule nth_equalityI)
    fix i assume "i < length ((replicate n z)[a := z])"
    then show "(replicate n z)[a := z] ! i = replicate n z ! i" by (cases "a = i") simp_all
  qed simp
  with Cons show ?case by simp
qed simp

lemma vlan_init: "IFX_FLOW_VLAN_Table_Init s = upd_dev (\<lambda>d. d\<lparr>VLAN_Table := VLAN_Table d\<rparr>) s"
  if "VLAN_Table (dev s) = replicate IFX_HW_VLAN_MAP_TABLE_MAX zero_vlan"
  unfolding IFX_FLOW_VLAN_Table_Init_def fold_upd_dev
  by (simp add: upd_dev_def fold_clear fold_update_replicate that)

definition init_port :: IFX_FLOW_portConfig where
  "init_port = zero_portConfig\<lparr>nLearningLimit := 0xFF, bPortEnable := 1\<rparr>"

lemma fold_ports:
  "fold (\<lambda>i. upd_port i (\<lambda>_. z)) xs d = d\<lparr>PortConfig := fold (\<lambda>i t. t[i := z]) xs (PortConfig d)\<rparr>"
  by (induction xs arbitrary: d) (simp_all add: upd_port_def)

lemma fold_update_nth:
  "j < length t \<Longrightarrow> fold (\<lambda>i t. t[i := z]) xs t ! j = (if j \<in> set xs then z else t ! j)"
  by (induction xs arbitrary: t) (auto simp: nth_list_update)

lemma fold_update_length [simp]: "length (fold (\<lambda>i t. t[i := z]) xs t) = length t"
  by (induction xs arbitrary: t) simp_all

lemma port_init:
  assumes n_def: "n = rd VR9_ETHSW_CAP_1_PPORTS s" and m_def: "m = rd VR9_ETHSW_CAP_1_VPORTS s"
    and d: "dev s = zero_dev" and nm: "unat n + unat m \<le> MAX_PORT_NUMBER"
  shows "pce (IFX_FLOW_PortCfg_Init s) = pce s" "dev_ok (dev (IFX_FLOW_PortCfg_Init s))"
    "unat (nPortNumber (dev (IFX_FLOW_PortCfg_Init s))) = unat n"
    "unat (nTotalPortNumber (dev (IFX_FLOW_PortCfg_Init s))) = unat n + unat m"
    "VLAN_Table (dev (IFX_FLOW_PortCfg_Init s)) = replicate IFX_HW_VLAN_MAP_TABLE_MAX zero_vlan"
    "\<And>j. j < MAX_PORT_NUMBER \<Longrightarrow>
       PortConfig (dev (IFX_FLOW_PortCfg_Init s)) ! j = (if j < unat n then init_port else zero_portConfig)"
proof -
  have n8: "unat (ucast n :: u8) = unat n" using nm by (simp add: unsigned_ucast_eq take_bit_nat_eq_self)
  have m8: "unat (ucast (m + ucast (ucast n :: u8)) :: u8) = unat n + unat m"
  proof -
    have "unat (ucast (ucast n :: u8) :: u32) = unat n" using n8 by simp
    then have e: "(ucast (ucast n :: u8) :: u32) = n" by (rule unsigned_word_eqI)
    have "unat (m + n) = unat n + unat m" using nm by (simp add: unat_word_ariths)
    then show ?thesis using nm unfolding e by (simp add: unsigned_ucast_eq take_bit_nat_eq_self)
  qed
  let ?d = "zero_dev\<lparr>nPortNumber := ucast n, PortConfig := fold (\<lambda>i t. t[i := init_port]) [0..<unat n] (PortConfig zero_dev),
      STP_8021x_Config := (STP_8021x_Config zero_dev)\<lparr>eForwardPort := 0, n8021X_ForwardPortId := nCPU_Port zero_dev\<rparr>,
      nTotalPortNumber := ucast (m + ucast (ucast n :: u8))\<rparr>"
  have r: "IFX_FLOW_PortCfg_Init s = s\<lparr>dev := ?d\<rparr>"
    using d n8 unfolding IFX_FLOW_PortCfg_Init_def Let_def fold_upd_dev
    by (simp add: upd_dev_def fold_ports init_port_def n_def m_def)
  show "pce (IFX_FLOW_PortCfg_Init s) = pce s" by (simp add: r)
  show "unat (nPortNumber (dev (IFX_FLOW_PortCfg_Init s))) = unat n" by (simp add: r n8)
  show "unat (nTotalPortNumber (dev (IFX_FLOW_PortCfg_Init s))) = unat n + unat m" by (simp add: r m8)
  show "VLAN_Table (dev (IFX_FLOW_PortCfg_Init s)) = replicate IFX_HW_VLAN_MAP_TABLE_MAX zero_vlan"
    by (simp add: r zero_dev_def)
  show "dev_ok (dev (IFX_FLOW_PortCfg_Init s))"
    using nm unfolding r by (simp add: dev_ok_def zero_dev_def n8 m8)
  show "PortConfig (dev (IFX_FLOW_PortCfg_Init s)) ! j = (if j < unat n then init_port else zero_portConfig)"
    if "j < MAX_PORT_NUMBER" for j
    using that nm unfolding r by (simp add: zero_dev_def fold_update_nth)
qed

definition empty_sw :: IFX_MulticastSW_table_Entry where
  "empty_sw = zero_sw\<lparr>SrcIp_LSB_Index := 0x7F, DisIp_LSB_Index := 0x7F, SrcIp_MSB_Index := 0x1F, DisIp_MSB_Index := 0x1F\<rparr>"

lemma fold_sw:
  "fold (\<lambda>i. upd_sw i f) xs d = d\<lparr>IGMP_Flags := (IGMP_Flags d)\<lparr>multicast_sw_table :=
     fold (\<lambda>i t. t[i := f (t ! i)]) xs (multicast_sw_table (IGMP_Flags d))\<rparr>\<rparr>"
  by (induction xs arbitrary: d) (simp_all add: upd_sw_def)

lemma fold_map_nth:
  "distinct xs \<Longrightarrow> j < length t \<Longrightarrow> fold (\<lambda>i t. t[i := f (t ! i)]) xs t ! j = (if j \<in> set xs then f (t ! j) else t ! j)"
proof (induction xs arbitrary: t)
  case (Cons a xs) then show ?case by (cases "a = j") auto
qed simp

lemma fold_map_length [simp]: "length (fold (\<lambda>i t. t[i := f (t ! i)]) xs t) = length t"
  by (induction xs arbitrary: t) simp_all

lemma sw_init:
  obtains G where "IFX_FLOW_MULTICAST_SW_Table_Init s = upd_dev (\<lambda>d. d\<lparr>IGMP_Flags := G\<rparr>) s"
    "nSwTblSize G = ucast (rd VR9_ETHSW_CAP_8_MCAST s)" "length (multicast_sw_table G) = IFX_FLOW_MULTICAST_SW_TBL_SIZE"
    "\<And>i. i < IFX_FLOW_MULTICAST_SW_TBL_SIZE \<Longrightarrow>
       multicast_sw_table G ! i = (if i < unat (nSwTblSize G) then empty_sw else zero_sw)"
    "eIGMP_Mode G = 0" "bIGMPv3 G = 0"
proof
  define f where "f e = e\<lparr>SrcIp_LSB_Index := 0x7F, DisIp_LSB_Index := 0x7F, SrcIp_MSB_Index := 0x1F, DisIp_MSB_Index := 0x1F\<rparr>"
    for e :: IFX_MulticastSW_table_Entry
  let ?G = "zero_IGMP\<lparr>nSwTblSize := ucast (rd VR9_ETHSW_CAP_8_MCAST s), multicast_sw_table :=
     fold (\<lambda>i t. t[i := f (t ! i)]) [0..<unat (ucast (rd VR9_ETHSW_CAP_8_MCAST s) :: u8)] (multicast_sw_table zero_IGMP)\<rparr>"
  show "IFX_FLOW_MULTICAST_SW_Table_Init s = upd_dev (\<lambda>d. d\<lparr>IGMP_Flags := ?G\<rparr>) s"
    unfolding IFX_FLOW_MULTICAST_SW_Table_Init_def Let_def fold_upd_dev
    by (simp add: upd_dev_def fold_sw flip: f_def)
  show "multicast_sw_table ?G ! i = (if i < unat (nSwTblSize ?G) then empty_sw else zero_sw)"
    if "i < IFX_FLOW_MULTICAST_SW_TBL_SIZE" for i
    using that by (simp add: fold_map_nth zero_IGMP_def empty_sw_def f_def [of zero_sw])
  show "length (multicast_sw_table ?G) = IFX_FLOW_MULTICAST_SW_TBL_SIZE" by (simp add: zero_IGMP_def)
qed (simp_all add: zero_IGMP_def)

lemma core_init_spec:
  assumes E: "pce_engine hwstep tbl keep S" and h: "idle h"
    and n: "n = unat (rdf VR9_ETHSW_CAP_1_PPORTS h)" and m: "m = unat (rdf VR9_ETHSW_CAP_1_VPORTS h)"
    and nm: "n + m \<le> MAX_PORT_NUMBER" and S: "mc_regs n \<subseteq> S"
    and z: "\<forall>k. \<forall>i<tsize k. driver_tbl tbl h (tno k) i = keep (tno k) zero_img"
  shows "\<exists>s. IFX_FLOW_SwitchCoreInit hwstep g h = Some s \<and> dev_ok (dev s) \<and> rules_inv tbl keep (pce s) \<and> idle (hw_of s) \<and>
    unat (nPortNumber (dev s)) = n \<and> unat (nTotalPortNumber (dev s)) = n + m \<and>
    VLAN_Table (dev s) = replicate IFX_HW_VLAN_MAP_TABLE_MAX zero_vlan \<and>
    (\<forall>j<MAX_PORT_NUMBER. PortConfig (dev s) ! j = (if j < n then init_port else zero_portConfig)) \<and>
    st_pce (pce s) = snd (ifx_pce_table_init zeroed_PCE) \<and>
    (\<forall>k<64. dtbl tbl s 0 k = keep 0 (img_of (mc_entry k (pce_mc_max_ifx_tag_m ! k)))) \<and>
    (\<forall>t k. t \<noteq> 0 \<longrightarrow> dtbl tbl s t k = driver_tbl tbl h t k)"
proof -
  define s0 :: "'a core" where "s0 = \<lparr>dev = zero_dev, pce = \<lparr>st_pce = zeroed_PCE, st_hw = h, st_ent = g\<rparr>\<rparr>"
  have v: "IFX_FLOW_VLAN_Table_Init s0 = s0"
    by (subst vlan_init) (simp_all add: s0_def zero_dev_def upd_dev_def)
  obtain G where G: "IFX_FLOW_MULTICAST_SW_Table_Init (IFX_FLOW_PortCfg_Init s0)
      = upd_dev (\<lambda>d. d\<lparr>IGMP_Flags := G\<rparr>) (IFX_FLOW_PortCfg_Init s0)"
    by (rule sw_init)
  define s1 where "s1 = IFX_FLOW_MULTICAST_SW_Table_Init (IFX_FLOW_PortCfg_Init s0)"
  have nm': "unat (rd VR9_ETHSW_CAP_1_PPORTS s0) + unat (rd VR9_ETHSW_CAP_1_VPORTS s0) \<le> MAX_PORT_NUMBER"
    using nm n m by (simp add: s0_def)
  have d0: "dev s0 = zero_dev" by (simp add: s0_def)
  note p0 = port_init [OF refl refl d0 nm']
  have p: "pce s1 = pce s0" "dev_ok (dev s1)" "unat (nPortNumber (dev s1)) = unat (rd VR9_ETHSW_CAP_1_PPORTS s0)"
    "unat (nTotalPortNumber (dev s1)) = unat (rd VR9_ETHSW_CAP_1_PPORTS s0) + unat (rd VR9_ETHSW_CAP_1_VPORTS s0)"
    "VLAN_Table (dev s1) = replicate IFX_HW_VLAN_MAP_TABLE_MAX zero_vlan"
    "\<And>j. j < MAX_PORT_NUMBER \<Longrightarrow>
       PortConfig (dev s1) ! j = (if j < unat (rd VR9_ETHSW_CAP_1_PPORTS s0) then init_port else zero_portConfig)"
    using p0 unfolding s1_def G by (simp_all add: dev_ok_def)
  have p1: "hw_of s1 = h" "st_pce (pce s1) = zeroed_PCE" "st_ent (pce s1) = g" by (simp_all add: p(1) s0_def)
  have n1: "unat (nPortNumber (dev s1)) = n" using p(3) n by (simp add: s0_def)
  from micro_code_spec [OF E h, of "nPortNumber (dev s1)"] n1 nm S
  obtain h1 where h1: "IFX_VR9_Switch_PCE_Micro_Code_Int hwstep (nPortNumber (dev s1)) h = Some (IFX_SUCCESS, h1)" "idle h1"
    "\<forall>k<64. driver_tbl tbl h1 0 k = keep 0 (img_of (mc_entry k (pce_mc_max_ifx_tag_m ! k)))"
    "\<forall>t k. t \<noteq> 0 \<longrightarrow> driver_tbl tbl h1 t k = driver_tbl tbl h t k" by auto
  define s2 where "s2 = s1\<lparr>dev := (dev s1)\<lparr>bResetCalled := IFX_FALSE, bHW_InitCalled := IFX_FALSE, MAC_AgeTimer := DEFAULT_AGING_TIMEOUT\<rparr>,
      pce := \<lparr>st_pce = snd (ifx_pce_table_init zeroed_PCE), st_hw = h1, st_ent = g\<rparr>\<rparr>"
  let ?ws = "map (\<lambda>j. (at VR9_ANEG_EEE_0_CLK_STOP_CAPABLE (of_nat j + IFX_ETHSW_FLOW_TOP_REG_OFFSET), 0x3 :: u32)) [0..<n - 1]"
  define s3 where "s3 = wrs ?ws (wr (at VR9_MDC_CFG_1_FREQ IFX_ETHSW_FLOW_TOP_REG_OFFSET) 0xFF s2)"
  obtain d where run: "IFX_FLOW_SwitchCoreInit hwstep g h = Some (s3\<lparr>dev := d\<rparr>)"
    and d: "PortConfig d = PortConfig (dev s3)" "VLAN_Table d = VLAN_Table (dev s3)"
      "nPortNumber d = nPortNumber (dev s3)" "nTotalPortNumber d = nTotalPortNumber (dev s3)"
  proof
    let ?d2 = "(dev s3)\<lparr>max_mac_bridge_table_size := ucast (rd VR9_ETHSW_CAP_10_MACBT s3)\<rparr>"
    let ?d3 = "?d2\<lparr>max_meter_table_size := ucast (rd VR9_ETHSW_CAP_3_METERS s3)\<rparr>"
    let ?d4 = "?d3\<lparr>max_shapers_table_size := ucast (rd VR9_ETHSW_CAP_3_SHAPERS s3)\<rparr>"
    let ?d5 = "?d4\<lparr>GSWIP_Ver := ucast (rd (0x013, 0, 16) s3)\<rparr>"
    let ?sA = "upd_dev (\<lambda>d. d\<lparr>bResetCalled := IFX_FALSE, bHW_InitCalled := IFX_FALSE,
        MAC_AgeTimer := DEFAULT_AGING_TIMEOUT\<rparr>) (s1\<lparr>pce := (pce s1)\<lparr>st_pce := snd (ifx_pce_table_init (st_pce (pce s1)))\<rparr>\<rparr>)"
    have A: "nPortNumber (dev ?sA) = nPortNumber (dev s1)" "hw_of ?sA = h" "upd_hw (\<lambda>_. h1) ?sA = s2"
      using p1 by (simp_all add: s2_def upd_dev_def upd_hw_def)
    have n2: "unat (nPortNumber (dev (wr F v s2))) = n" for F v using n1 by (simp add: s2_def)
    have "IFX_FLOW_SwitchCoreInit hwstep g h = Some (s3\<lparr>dev := ?d5\<rparr>)"
      unfolding IFX_FLOW_SwitchCoreInit_def Let_def s0_def [symmetric] v s1_def [symmetric] A h1(1)
      by (simp only: bind.bind_lunit prod.case A(3) n2 flip: s3_def) (simp add: upd_dev_def)
    then show "IFX_FLOW_SwitchCoreInit hwstep g h = Some (s3\<lparr>dev := ?d5\<rparr>)" .
  qed simp_all
  have f: "PortConfig (dev s3) = PortConfig (dev s1)" "VLAN_Table (dev s3) = VLAN_Table (dev s1)"
    "nPortNumber (dev s3) = nPortNumber (dev s1)" "nTotalPortNumber (dev s3) = nTotalPortNumber (dev s1)"
    by (simp_all add: s3_def s2_def)
  have hw: "hw_of s3 = wrfs ?ws (wrf (at VR9_MDC_CFG_1_FREQ IFX_ETHSW_FLOW_TOP_REG_OFFSET) 0xFF h1)"
    by (simp add: s3_def s2_def)
  have t3: "driver_tbl tbl (hw_of s3) t k = driver_tbl tbl h1 t k" for t k
    unfolding hw by (simp add: driver_tbl_def)
  have i3: "idle (hw_of s3)"
  proof -
    have "rdf TBL_CTRL_BAS (wrfs ?ws h2) = rdf TBL_CTRL_BAS h2" for h2 :: "'a hw"
    proof (rule wrfs_other)
      fix F v assume "(F, v) \<in> set ?ws"
      then obtain j where "F = at VR9_ANEG_EEE_0_CLK_STOP_CAPABLE (of_nat j + IFX_ETHSW_FLOW_TOP_REG_OFFSET)" by auto
      then show "fdisj F TBL_CTRL_BAS" by (simp add: fdisj.simps)
    qed
    then have "rdf TBL_CTRL_BAS (hw_of s3) = rdf TBL_CTRL_BAS h1"
      by (simp add: hw rdf_wrf_other)
    with h1(2) show ?thesis by (simp add: idle_def)
  qed
  have pce3: "pce s3 = \<lparr>st_pce = snd (ifx_pce_table_init zeroed_PCE), st_hw = hw_of s3, st_ent = g\<rparr>"
    by (rule pce_st.equality) (simp_all add: s3_def s2_def)
  have pst: "st_pce (pce s3) = snd (ifx_pce_table_init zeroed_PCE)" by (subst pce3) simp
  have "0 < tno k" for k by (cases k) simp_all
  then have z3: "\<forall>k. \<forall>i<tsize k. driver_tbl tbl h1 (tno k) i = keep (tno k) zero_img"
    using z h1(4) by simp
  have inv: "rules_inv tbl keep (pce s3)"
    by (subst pce3, rule table_init_inv) (use i3 z3 t3 in \<open>simp_all add: zeroed_PCE_def\<close>)
  show ?thesis
    by (rule exI [of _ "s3\<lparr>dev := d\<rparr>"]) (use run inv i3 p f d n1 h1(3,4) t3 n m pst in \<open>simp add: dev_ok_def s0_def\<close>)
qed

end
