(* ===== verification/Core_VLAN.thy ===== *)
theory Core_VLAN
  imports Core_State
begin

text \<open>
  The VLAN handlers of \<^verbatim>\<open>ltq_flow_core.c\<close>: the table of VLANs kept in software, its rows in the
  two VLAN tables of the device, the members of a VLAN, and the VLAN configuration of a port.
  The table is shown to implement a finite map from VLAN identifiers.
\<close>

unbundle bit_operations_syntax

section \<open>Parameters\<close>

record IFX_ETHSW_VLAN_IdCreate =
  vc_nVId :: u16
  vc_nFId :: u32

record IFX_ETHSW_VLAN_IdGet =
  vg_nVId :: u16
  vg_nFId :: u32

record IFX_ETHSW_VLAN_IdDelete =
  vd_nVId :: u16

record IFX_ETHSW_VLAN_portMemberAdd =
  va_nVId :: u16
  va_nPortId :: u8
  va_bVLAN_TagEgress :: u32

record IFX_ETHSW_VLAN_portMemberRemove =
  vr_nVId :: u16
  vr_nPortId :: u8

record IFX_ETHSW_VLAN_portMemberRead =
  vm_bInitial :: u32
  vm_bLast :: u32
  vm_nVId :: u16
  vm_nPortId :: u32
  vm_nTagId :: u32

record IFX_ETHSW_VLAN_portCfg =
  vp_nPortId :: u8
  vp_nPortVId :: u16
  vp_bVLAN_UnknownDrop :: u32
  vp_bVLAN_ReAssign :: u32
  vp_eVLAN_MemberViolation :: u32
  vp_eAdmitMode :: u32
  vp_bTVM :: u32

record IFX_ETHSW_VLAN_reserved =
  vs_nVId :: u16

abbreviation (input) IFX_ETHSW_VLAN_MEMBER_VIOLATION_NO :: u32 where "IFX_ETHSW_VLAN_MEMBER_VIOLATION_NO \<equiv> 0"
abbreviation (input) IFX_ETHSW_VLAN_MEMBER_VIOLATION_INGRESS :: u32 where "IFX_ETHSW_VLAN_MEMBER_VIOLATION_INGRESS \<equiv> 1"
abbreviation (input) IFX_ETHSW_VLAN_MEMBER_VIOLATION_EGRESS :: u32 where "IFX_ETHSW_VLAN_MEMBER_VIOLATION_EGRESS \<equiv> 2"
abbreviation (input) IFX_ETHSW_VLAN_MEMBER_VIOLATION_BOTH :: u32 where "IFX_ETHSW_VLAN_MEMBER_VIOLATION_BOTH \<equiv> 3"

abbreviation (input) IFX_ETHSW_VLAN_ADMIT_ALL :: u32 where "IFX_ETHSW_VLAN_ADMIT_ALL \<equiv> 0"
abbreviation (input) IFX_ETHSW_VLAN_ADMIT_UNTAGGED :: u32 where "IFX_ETHSW_VLAN_ADMIT_UNTAGGED \<equiv> 1"
abbreviation (input) IFX_ETHSW_VLAN_ADMIT_TAGGED :: u32 where "IFX_ETHSW_VLAN_ADMIT_TAGGED \<equiv> 2"

abbreviation (input) VR9_PCE_DEFPVID_PVID :: field where "VR9_PCE_DEFPVID_PVID \<equiv> (0x486, 0, 6)"
abbreviation (input) VR9_PCE_VCTRL_UVR :: field where "VR9_PCE_VCTRL_UVR \<equiv> (0x485, 0, 1)"
abbreviation (input) VR9_PCE_VCTRL_VSR :: field where "VR9_PCE_VCTRL_VSR \<equiv> (0x485, 5, 1)"
abbreviation (input) VR9_PCE_VCTRL_VIMR :: field where "VR9_PCE_VCTRL_VIMR \<equiv> (0x485, 3, 1)"
abbreviation (input) VR9_PCE_VCTRL_VEMR :: field where "VR9_PCE_VCTRL_VEMR \<equiv> (0x485, 4, 1)"
abbreviation (input) VR9_PCE_VCTRL_VINR :: field where "VR9_PCE_VCTRL_VINR \<equiv> (0x485, 1, 2)"
abbreviation (input) VR9_PCE_PCTRL_0_TVM :: field where "VR9_PCE_PCTRL_0_TVM \<equiv> (0x480, 5, 1)"

section \<open>The software table\<close>

definition IFX_FLOW_VLAN_Table_Index_Find :: "IFX_FLOW_switchDev \<Rightarrow> u16 \<Rightarrow> u8" where
  "IFX_FLOW_VLAN_Table_Index_Find d vid =
     (case find (\<lambda>i. vid = vt_vid (VLAN_Table d ! i)) [0..<IFX_FLOW_VLAN_ENTRY_MAX] of
        None \<Rightarrow> 0xFF | Some i \<Rightarrow> of_nat i)"

definition IFX_FLOW_VLAN_Table_Empty_Entry_find :: "IFX_FLOW_switchDev \<Rightarrow> u8" where
  "IFX_FLOW_VLAN_Table_Empty_Entry_find d =
     (let index = (case find (\<lambda>i. vt_valid (VLAN_Table d ! i) = IFX_FALSE) [1..<IFX_FLOW_VLAN_ENTRY_MAX] of
                     None \<Rightarrow> 0xFF | Some i \<Rightarrow> of_nat i)
      in if index = 0xFF \<and> vt_valid (VLAN_Table d ! 0) = IFX_FALSE then 0 else index)"

definition IFX_FLOW_VLAN_Table_Entry_Set :: "u8 \<Rightarrow> IFX_FLOW_VLAN_tableEntry \<Rightarrow> IFX_FLOW_switchDev \<Rightarrow> IFX_FLOW_switchDev" where
  "IFX_FLOW_VLAN_Table_Entry_Set table_index e d =
     d\<lparr>VLAN_Table := (VLAN_Table d)[unat table_index := (VLAN_Table d ! unat table_index)
        \<lparr>vt_valid := vt_valid e, vt_reserved := vt_reserved e, vt_vid := vt_vid e, vt_fid := vt_fid e,
         vt_pm := vt_pm e, vt_tm := vt_tm e\<rparr>]\<rparr>"

definition IFX_FLOW_VLAN_Table_Entry_Get :: "IFX_FLOW_switchDev \<Rightarrow> u8 \<Rightarrow> IFX_FLOW_VLAN_tableEntry \<Rightarrow> IFX_FLOW_VLAN_tableEntry" where
  "IFX_FLOW_VLAN_Table_Entry_Get d table_index e =
     (let r = VLAN_Table d ! unat table_index
      in e\<lparr>vt_valid := vt_valid r, vt_reserved := vt_reserved r, vt_vid := vt_vid r, vt_fid := vt_fid r,
           vt_pm := vt_pm r, vt_tm := vt_tm r\<rparr>)"

section \<open>Creating and deleting a VLAN\<close>

definition set_val :: "nat \<Rightarrow> u16 \<Rightarrow> pce_entry \<Rightarrow> pce_entry" where
  "set_val k v e = e\<lparr>e_val := (e_val e)[k := v]\<rparr>"

definition set_key :: "nat \<Rightarrow> u16 \<Rightarrow> pce_entry \<Rightarrow> pce_entry" where
  "set_key k v e = e\<lparr>e_key := (e_key e)[k := v]\<rparr>"

definition IFX_FLOW_VLAN_IdCreate ::
  "('p hw \<Rightarrow> 'p hw) \<Rightarrow> IFX_ETHSW_VLAN_IdCreate \<Rightarrow> 'p core \<Rightarrow> (int \<times> 'p core) option" where
  "IFX_FLOW_VLAN_IdCreate hwstep q s =
     (if IFX_FLOW_VLAN_Table_Index_Find (dev s) (vc_nVId q) \<noteq> 0xFF then Some (IFX_ERROR, s)
      else let table_index = IFX_FLOW_VLAN_Table_Empty_Entry_find (dev s)
      in if table_index = 0xFF then Some (IFX_ERROR, s)
      else do {
        let VLAN_Table_Entry = zero_vlan\<lparr>vt_valid := IFX_TRUE, vt_vid := vc_nVId q, vt_fid := vc_nFId q\<rparr>;
        let s = upd_dev (IFX_FLOW_VLAN_Table_Entry_Set table_index VLAN_Table_Entry) s;
        let pcetable = zero_entry\<lparr>e_index := ucast table_index, e_table := PCE_ACTVLAN_INDEX\<rparr>;
        let pcetable = set_key 0 (vc_nVId q) pcetable;
        let pcetable = set_val 0 (ucast (vc_nFId q)) pcetable;
        let pcetable = pcetable\<lparr>e_valid := 1\<rparr>;
        s \<leftarrow> row_write hwstep pcetable s;
        let pcetable = pcetable\<lparr>e_table := PCE_VLANMAP_INDEX\<rparr>;
        let pcetable = set_val 2 0 (set_val 1 0 (set_val 0 (vc_nVId q) pcetable));
        s \<leftarrow> row_write hwstep pcetable s;
        Some (IFX_SUCCESS, s) })"

definition IFX_FLOW_VLAN_IdDelete ::
  "('p hw \<Rightarrow> 'p hw) \<Rightarrow> IFX_ETHSW_VLAN_IdDelete \<Rightarrow> 'p core \<Rightarrow> (int \<times> 'p core) option" where
  "IFX_FLOW_VLAN_IdDelete hwstep q s =
     (let table_index = IFX_FLOW_VLAN_Table_Index_Find (dev s) (vd_nVId q)
      in if table_index = 0xFF then Some (IFX_ERROR, s)
      else if get_ifx_pce_tm_vlan_act_tbl_index (pce_sub_tbl (st_pce (pce s))) (unat table_index) \<noteq> IFX_SUCCESS
        then Some (IFX_ERROR, s)
      else do {
        let s = upd_dev (IFX_FLOW_VLAN_Table_Entry_Set table_index zero_vlan) s;
        let pcetable = zero_entry\<lparr>e_index := ucast table_index, e_table := PCE_ACTVLAN_INDEX, e_valid := 0\<rparr>;
        s \<leftarrow> row_write hwstep pcetable s;
        s \<leftarrow> row_write hwstep (pcetable\<lparr>e_table := PCE_VLANMAP_INDEX\<rparr>) s;
        Some (IFX_SUCCESS, s) })"

definition IFX_FLOW_VLAN_IdGet :: "IFX_FLOW_VLAN_tableEntry \<Rightarrow> IFX_ETHSW_VLAN_IdGet \<Rightarrow> 'p core \<Rightarrow> int \<times> IFX_ETHSW_VLAN_IdGet" where
  "IFX_FLOW_VLAN_IdGet g q s =
     (let table_index = IFX_FLOW_VLAN_Table_Index_Find (dev s) (vg_nVId q)
      in if table_index = 0xFF then (IFX_ERROR, q)
      else (IFX_SUCCESS, q\<lparr>vg_nFId := vt_fid (IFX_FLOW_VLAN_Table_Entry_Get (dev s) table_index g)\<rparr>))"

section \<open>Members\<close>

text \<open>
  \<open>nPortId\<close> is a \<^verbatim>\<open>IFX_uint8_t\<close>: it is widened before the test of bit 31, and \<^verbatim>\<open>1 << nPortId\<close> is computed
  with 32 bits (the shift by a larger number, undefined in C, takes its low five bits on MIPS). \<open>g\<close> is the
  uninitialised \<^verbatim>\<open>pcetable\<close>.
\<close>

definition port_bit :: "u8 \<Rightarrow> u32" where
  "port_bit p = push_bit (unat p mod 32) 1"

definition portmap_flag :: "u8 \<Rightarrow> bool" where
  "portmap_flag p \<longleftrightarrow> (ucast p :: u32) AND 0x80000000 \<noteq> 0"

definition IFX_FLOW_VLAN_PortMemberAdd ::
  "('p hw \<Rightarrow> 'p hw) \<Rightarrow> pce_entry \<Rightarrow> IFX_ETHSW_VLAN_portMemberAdd \<Rightarrow> 'p core \<Rightarrow> (int \<times> 'p core) option" where
  "IFX_FLOW_VLAN_PortMemberAdd hwstep g q s =
     (let p = va_nPortId q
      in if p \<ge> nTotalPortNumber (dev s) \<and> \<not> portmap_flag p then Some (IFX_ERROR, s)
      else let table_index = IFX_FLOW_VLAN_Table_Index_Find (dev s) (va_nVId q)
      in if table_index = 0xFF then Some (IFX_ERROR, s)
      else let VLAN_Table_Entry = IFX_FLOW_VLAN_Table_Entry_Get (dev s) table_index zero_vlan
      in if vt_reserved VLAN_Table_Entry = IFX_TRUE then Some (IFX_ERROR, s)
      else let bits = (if portmap_flag p then ucast p AND 0x7FFF else port_bit p);
               VLAN_Table_Entry = VLAN_Table_Entry\<lparr>vt_pm := ucast (ucast (vt_pm VLAN_Table_Entry) OR bits),
                 vt_tm := (if va_bVLAN_TagEgress q \<noteq> 0 then ucast (ucast (vt_tm VLAN_Table_Entry) OR bits)
                           else ucast (ucast (vt_tm VLAN_Table_Entry) AND NOT bits))\<rparr>
      in do {
        let s = upd_dev (IFX_FLOW_VLAN_Table_Entry_Set table_index VLAN_Table_Entry) s;
        let pcetable = g\<lparr>e_table := PCE_VLANMAP_INDEX, e_index := ucast table_index\<rparr>;
        (pcetable, s) \<leftarrow> row_read hwstep pcetable s;
        let pcetable = pcetable\<lparr>e_table := PCE_VLANMAP_INDEX, e_index := ucast table_index\<rparr>;
        let pcetable = set_val 2 (vt_tm VLAN_Table_Entry) (set_val 1 (vt_pm VLAN_Table_Entry) pcetable);
        s \<leftarrow> row_write hwstep pcetable s;
        Some (IFX_SUCCESS, s) })"

definition IFX_FLOW_VLAN_PortMemberRemove ::
  "('p hw \<Rightarrow> 'p hw) \<Rightarrow> pce_entry \<Rightarrow> IFX_ETHSW_VLAN_portMemberRemove \<Rightarrow> 'p core \<Rightarrow> (int \<times> 'p core) option" where
  "IFX_FLOW_VLAN_PortMemberRemove hwstep g q s =
     (let p = vr_nPortId q
      in if p \<ge> nTotalPortNumber (dev s) \<and> \<not> portmap_flag p then Some (IFX_ERROR, s)
      else let table_index = IFX_FLOW_VLAN_Table_Index_Find (dev s) (vr_nVId q)
      in if table_index = 0xFF then Some (IFX_ERROR, s)
      else let VLAN_Table_Entry = IFX_FLOW_VLAN_Table_Entry_Get (dev s) table_index zero_vlan;
               bits = (if portmap_flag p then ucast p AND 0x7FFF else port_bit p);
               VLAN_Table_Entry = VLAN_Table_Entry\<lparr>vt_pm := ucast (ucast (vt_pm VLAN_Table_Entry) AND NOT bits),
                 vt_tm := ucast (ucast (vt_tm VLAN_Table_Entry) AND NOT (port_bit p))\<rparr>
      in do {
        let s = upd_dev (IFX_FLOW_VLAN_Table_Entry_Set table_index VLAN_Table_Entry) s;
        let pcetable = g\<lparr>e_table := PCE_VLANMAP_INDEX, e_index := ucast table_index\<rparr>;
        (pcetable, s) \<leftarrow> row_read hwstep pcetable s;
        let pcetable = set_val 1 (ucast (ucast (e_val pcetable ! 1) AND NOT bits)) pcetable;
        let pcetable = set_val 2 (ucast (ucast (e_val pcetable ! 2) AND NOT bits)) pcetable;
        s \<leftarrow> row_write hwstep pcetable s;
        Some (IFX_SUCCESS, s) })"

text \<open>
  One step of reading the table out. On the first call row 0 is read, but the second \<^verbatim>\<open>if\<close> is
  entered as well and overwrites it with row 1.
\<close>

definition member_row ::
  "('p hw \<Rightarrow> 'p hw) \<Rightarrow> pce_entry \<Rightarrow> IFX_ETHSW_VLAN_portMemberRead \<Rightarrow> 'p core \<Rightarrow>
     (pce_entry \<times> IFX_ETHSW_VLAN_portMemberRead \<times> 'p core) option" where
  "member_row hwstep g q s = do {
     let pcetable = g\<lparr>e_table := PCE_VLANMAP_INDEX, e_index := ucast (vlan_table_index (dev s))\<rparr>;
     (pcetable, s) \<leftarrow> row_read hwstep pcetable s;
     Some (pcetable, q\<lparr>vm_nVId := e_val pcetable ! 0 AND 0xFFF, vm_nPortId := ucast (e_val pcetable ! 1) OR 0x80000000,
           vm_nTagId := ucast (e_val pcetable ! 2) OR 0x80000000\<rparr>, s) }"

definition IFX_FLOW_VLAN_PortMemberRead ::
  "('p hw \<Rightarrow> 'p hw) \<Rightarrow> pce_entry \<Rightarrow> IFX_ETHSW_VLAN_portMemberRead \<Rightarrow> 'p core \<Rightarrow>
     (int \<times> IFX_ETHSW_VLAN_portMemberRead \<times> 'p core) option" where
  "IFX_FLOW_VLAN_PortMemberRead hwstep g q s = do {
     (g, q, s) \<leftarrow>
       (if vm_bInitial q = IFX_TRUE then do {
          let s = upd_dev (\<lambda>d. d\<lparr>vlan_table_index := 0\<rparr>) s;
          (g, q, s) \<leftarrow> member_row hwstep g q s;
          Some (g, q\<lparr>vm_bInitial := IFX_FALSE, vm_bLast := IFX_FALSE\<rparr>, s) }
        else Some (g, q, s));
     if vm_bLast q \<noteq> IFX_TRUE then
       (if unat (vlan_table_index (dev s)) < IFX_HW_VLAN_MAP_TABLE_MAX then do {
          let s = upd_dev (\<lambda>d. d\<lparr>vlan_table_index := vlan_table_index d + 1\<rparr>) s;
          (g, q, s) \<leftarrow> member_row hwstep g q s;
          Some (IFX_SUCCESS, q, s) }
        else Some (IFX_SUCCESS, q\<lparr>vm_bLast := IFX_TRUE\<rparr>, upd_dev (\<lambda>d. d\<lparr>vlan_table_index := 0\<rparr>) s))
     else Some (IFX_SUCCESS, q, s) }"

section \<open>Reserving a VLAN\<close>

definition IFX_FLOW_VLAN_ReservedAdd ::
  "('p hw \<Rightarrow> 'p hw) \<Rightarrow> IFX_ETHSW_VLAN_reserved \<Rightarrow> 'p core \<Rightarrow> (int \<times> 'p core) option" where
  "IFX_FLOW_VLAN_ReservedAdd hwstep q s =
     (let table_index = IFX_FLOW_VLAN_Table_Index_Find (dev s) (vs_nVId q)
      in if table_index = 0xFF then Some (IFX_ERROR, s)
      else let VLAN_Table_Entry = IFX_FLOW_VLAN_Table_Entry_Get (dev s) table_index zero_vlan
      in if vt_pm VLAN_Table_Entry \<noteq> 0 then Some (IFX_ERROR, s)
      else if vt_tm VLAN_Table_Entry \<noteq> 0 then Some (IFX_ERROR, s)
      else do {
        let VLAN_Table_Entry = VLAN_Table_Entry\<lparr>vt_reserved := IFX_TRUE\<rparr>;
        let s = upd_dev (IFX_FLOW_VLAN_Table_Entry_Set table_index VLAN_Table_Entry) s;
        let pcetable = zero_entry\<lparr>e_index := ucast table_index, e_table := PCE_ACTVLAN_INDEX\<rparr>;
        let pcetable = set_val 0 (e_val pcetable ! 0 OR 0x100) pcetable;
        s \<leftarrow> row_write hwstep pcetable s;
        Some (IFX_SUCCESS, s) })"

definition IFX_FLOW_VLAN_ReservedRemove ::
  "('p hw \<Rightarrow> 'p hw) \<Rightarrow> IFX_ETHSW_VLAN_reserved \<Rightarrow> 'p core \<Rightarrow> (int \<times> 'p core) option" where
  "IFX_FLOW_VLAN_ReservedRemove hwstep q s =
     (let table_index = IFX_FLOW_VLAN_Table_Index_Find (dev s) (vs_nVId q)
      in if table_index = 0xFF then Some (IFX_ERROR, s)
      else let VLAN_Table_Entry = IFX_FLOW_VLAN_Table_Entry_Get (dev s) table_index zero_vlan
      in if vt_pm VLAN_Table_Entry \<noteq> 0 then Some (IFX_ERROR, s)
      else if vt_tm VLAN_Table_Entry \<noteq> 0 then Some (IFX_ERROR, s)
      else if vt_reserved VLAN_Table_Entry = IFX_FALSE then Some (IFX_ERROR, s)
      else do {
        let VLAN_Table_Entry = VLAN_Table_Entry\<lparr>vt_reserved := IFX_FALSE\<rparr>;
        let s = upd_dev (IFX_FLOW_VLAN_Table_Entry_Set table_index VLAN_Table_Entry) s;
        let s = upd_dev (IFX_FLOW_VLAN_Table_Entry_Set table_index VLAN_Table_Entry) s;
        let pcetable = zero_entry\<lparr>e_index := ucast table_index, e_table := PCE_ACTVLAN_INDEX\<rparr>;
        let pcetable = set_val 0 (e_val pcetable ! 0 AND NOT 0x100) pcetable;
        s \<leftarrow> row_write hwstep pcetable s;
        Some (IFX_SUCCESS, s) })"

section \<open>The VLAN configuration of a port\<close>

abbreviation (input) vport :: "field \<Rightarrow> u8 \<Rightarrow> field" where
  "vport F p \<equiv> at F (10 * ucast p)"

text \<open>\<open>g\<close> is the uninitialised local entry.\<close>

definition IFX_FLOW_VLAN_PortCfgGet ::
  "IFX_FLOW_VLAN_tableEntry \<Rightarrow> IFX_ETHSW_VLAN_portCfg \<Rightarrow> 'p core \<Rightarrow> int \<times> IFX_ETHSW_VLAN_portCfg" where
  "IFX_FLOW_VLAN_PortCfgGet g q s =
     (let p = vp_nPortId q
      in if p \<ge> nTotalPortNumber (dev s) then (IFX_ERROR, q)
      else let table_index = rd (vport VR9_PCE_DEFPVID_PVID p) s;
               q = q\<lparr>vp_nPortVId := vt_vid (IFX_FLOW_VLAN_Table_Entry_Get (dev s) (ucast table_index) g)\<rparr>;
               bUVR = rd (vport VR9_PCE_VCTRL_UVR p) s;
               q = q\<lparr>vp_bVLAN_UnknownDrop := (if bUVR = 1 then IFX_TRUE else IFX_FALSE)\<rparr>;
               q = q\<lparr>vp_bVLAN_ReAssign := rd (vport VR9_PCE_VCTRL_VSR p) s\<rparr>;
               bVIMR = rd (vport VR9_PCE_VCTRL_VIMR p) s;
               bVEMR = rd (vport VR9_PCE_VCTRL_VEMR p) s;
               v = vp_eVLAN_MemberViolation q;
               v = (if bVIMR = IFX_FALSE \<and> bVEMR = IFX_FALSE then IFX_ETHSW_VLAN_MEMBER_VIOLATION_NO else v);
               v = (if bVIMR = IFX_TRUE \<and> bVEMR = IFX_FALSE then IFX_ETHSW_VLAN_MEMBER_VIOLATION_INGRESS else v);
               v = (if bVIMR = IFX_FALSE \<and> bVEMR = IFX_TRUE then IFX_ETHSW_VLAN_MEMBER_VIOLATION_EGRESS else v);
               v = (if bVIMR = IFX_TRUE \<and> bVEMR = IFX_TRUE then IFX_ETHSW_VLAN_MEMBER_VIOLATION_BOTH else v);
               q = q\<lparr>vp_eVLAN_MemberViolation := v\<rparr>;
               value = rd (vport VR9_PCE_VCTRL_VINR p) s;
               q = q\<lparr>vp_eAdmitMode := (if value = 0 then IFX_ETHSW_VLAN_ADMIT_ALL
                      else if value = 1 then IFX_ETHSW_VLAN_ADMIT_TAGGED
                      else if value = 2 then IFX_ETHSW_VLAN_ADMIT_UNTAGGED else vp_eAdmitMode q)\<rparr>
      in (IFX_SUCCESS, q\<lparr>vp_bTVM := rd (vport VR9_PCE_PCTRL_0_TVM p) s\<rparr>))"

definition IFX_FLOW_VLAN_PortCfgSet :: "IFX_ETHSW_VLAN_portCfg \<Rightarrow> 'p core \<Rightarrow> int \<times> 'p core" where
  "IFX_FLOW_VLAN_PortCfgSet q s =
     (let p = vp_nPortId q
      in if p \<ge> nTotalPortNumber (dev s) then (IFX_ERROR, s)
      else let table_index = IFX_FLOW_VLAN_Table_Index_Find (dev s) (vp_nPortVId q)
      in if table_index = 0xFF then (IFX_ERROR, s)
      else let s = wr (vport VR9_PCE_DEFPVID_PVID p) (ucast table_index) s;
               s = wr (vport VR9_PCE_VCTRL_UVR p) (if vp_bVLAN_UnknownDrop q = IFX_TRUE then 1 else 0) s;
               s = wr (vport VR9_PCE_VCTRL_VSR p) (vp_bVLAN_ReAssign q) s;
               v = vp_eVLAN_MemberViolation q;
               s = (if v = IFX_ETHSW_VLAN_MEMBER_VIOLATION_NO
                    then wr (vport VR9_PCE_VCTRL_VEMR p) 0 (wr (vport VR9_PCE_VCTRL_VIMR p) 0 s)
                    else if v = IFX_ETHSW_VLAN_MEMBER_VIOLATION_INGRESS
                    then wr (vport VR9_PCE_VCTRL_VEMR p) 0 (wr (vport VR9_PCE_VCTRL_VIMR p) 1 s)
                    else if v = IFX_ETHSW_VLAN_MEMBER_VIOLATION_EGRESS
                    then wr (vport VR9_PCE_VCTRL_VEMR p) 1 (wr (vport VR9_PCE_VCTRL_VIMR p) 0 s)
                    else if v = IFX_ETHSW_VLAN_MEMBER_VIOLATION_BOTH
                    then wr (vport VR9_PCE_VCTRL_VEMR p) 1 (wr (vport VR9_PCE_VCTRL_VIMR p) 1 s)
                    else s);
               a = vp_eAdmitMode q;
               value = (if a = IFX_ETHSW_VLAN_ADMIT_ALL then 0 else if a = IFX_ETHSW_VLAN_ADMIT_TAGGED then 1
                        else if a = IFX_ETHSW_VLAN_ADMIT_UNTAGGED then 2 else 0);
               s = wr (vport VR9_PCE_VCTRL_VINR p) value s;
               s = wr (vport VR9_PCE_PCTRL_0_TVM p) (if vp_bTVM q = IFX_TRUE then 1 else 0) s
      in (IFX_SUCCESS, s))"

section \<open>Tables searched by key\<close>

text \<open>
  A table of \<open>size\<close> slots; \<open>key\<close> is the key of an occupied slot. The contract of the accessors, and
  what it gives: a table whose occupied slots have different keys is a finite map.
\<close>

locale slot_table =
  fixes look :: "'d \<Rightarrow> 'k \<Rightarrow> nat option"
    and get :: "'d \<Rightarrow> nat \<Rightarrow> 'v"
    and put :: "nat \<Rightarrow> 'v \<Rightarrow> 'd \<Rightarrow> 'd"
    and key :: "'v \<Rightarrow> 'k option"
    and good :: "'v \<Rightarrow> bool"
    and ok :: "'d \<Rightarrow> bool"
    and size :: nat
  assumes get_put: "ok d \<Longrightarrow> i < size \<Longrightarrow> j < size \<Longrightarrow> get (put i v d) j = (if j = i then v else get d j)"
    and look_iff: "ok d \<Longrightarrow> look d k = Some i \<longleftrightarrow> i < size \<and> key (get d i) = Some k"
    and ok_put: "ok d \<Longrightarrow> i < size \<Longrightarrow> good v \<Longrightarrow>
        (\<And>k j. key v = Some k \<Longrightarrow> look d k = Some j \<Longrightarrow> j = i) \<Longrightarrow> ok (put i v d)"
begin

lemma look_key: "ok d \<Longrightarrow> look d k = Some i \<Longrightarrow> key (get d i) = Some k \<and> i < size"
  by (simp add: look_iff)

lemma look_put:
  assumes "ok d" "i < size" "ok (put i v d)"
  shows "map_option (get (put i v d)) (look (put i v d) k) =
    (if key v = Some k then Some v else if key (get d i) = Some k then None else map_option (get d) (look d k))"
proof -
  have eq: "look (put i v d) k = Some j \<longleftrightarrow> (if j = i then key v = Some k else look d k = Some j)" if "j < size" for j
    using that assms by (simp add: look_iff get_put)
  consider "key v = Some k" | "key v \<noteq> Some k" "key (get d i) = Some k"
    | "key v \<noteq> Some k" "key (get d i) \<noteq> Some k" by blast
  then show ?thesis
  proof cases
    case 1
    then have "look (put i v d) k = Some i" using eq [of i] assms(2) by simp
    with 1 assms show ?thesis by (simp add: get_put)
  next
    case 2
    have "look (put i v d) k = None"
    proof (rule ccontr)
      assume "look (put i v d) k \<noteq> None"
      then obtain j where j: "look (put i v d) k = Some j" by blast
      then have "j < size" using assms(3) by (simp add: look_iff)
      moreover from this j eq [of j] 2(1) have "j \<noteq> i" "look d k = Some j" by (auto split: if_splits)
      moreover have "look d k = Some i" using 2(2) assms by (simp add: look_iff)
      ultimately show False by simp
    qed
    with 2 show ?thesis by simp
  next
    case 3
    show ?thesis
    proof (cases "look d k")
      case None
      have "look (put i v d) k = None"
      proof (rule ccontr)
        assume "look (put i v d) k \<noteq> None"
        then obtain j where j: "look (put i v d) k = Some j" by blast
        then have "j < size" using assms(3) by (simp add: look_iff)
        with j eq [of j] 3(1) None show False by (auto split: if_splits)
      qed
      with 3 None show ?thesis by simp
    next
      case (Some j)
      then have j: "j < size" "j \<noteq> i" using 3(2) look_key [OF assms(1)] by auto
      then have "look (put i v d) k = Some j" using eq [of j] Some by simp
      with 3 Some j assms show ?thesis by (simp add: get_put)
    qed
  qed
qed

end

section \<open>The table of VLANs is a map\<close>

definition vlan_key :: "IFX_FLOW_VLAN_tableEntry \<Rightarrow> u16 option" where
  "vlan_key r = (if vt_valid r = IFX_TRUE then Some (vt_vid r) else None)"

definition vlan_good :: "IFX_FLOW_VLAN_tableEntry \<Rightarrow> bool" where
  "vlan_good r \<longleftrightarrow> r = zero_vlan \<or> (vt_valid r = IFX_TRUE \<and> vt_vid r \<noteq> 0)"

text \<open>Rows are free, and then zero, or in use; no two rows in use have the same identifier.\<close>

definition vlan_wf :: "IFX_FLOW_switchDev \<Rightarrow> bool" where
  "vlan_wf d \<longleftrightarrow> length (VLAN_Table d) = IFX_FLOW_VLAN_ENTRY_MAX \<and>
     (\<forall>i<IFX_FLOW_VLAN_ENTRY_MAX. vlan_good (VLAN_Table d ! i)) \<and>
     (\<forall>i<IFX_FLOW_VLAN_ENTRY_MAX. \<forall>j<IFX_FLOW_VLAN_ENTRY_MAX. \<forall>k.
        vlan_key (VLAN_Table d ! i) = Some k \<longrightarrow> vlan_key (VLAN_Table d ! j) = Some k \<longrightarrow> i = j)"

text \<open>The row of a VLAN as the driver finds it, for identifiers other than 0, which marks the free rows.\<close>

definition vlan_look :: "IFX_FLOW_switchDev \<Rightarrow> u16 \<Rightarrow> nat option" where
  "vlan_look d vid =
     (let i = IFX_FLOW_VLAN_Table_Index_Find d vid in if vid = 0 \<or> i = 0xFF then None else Some (unat i))"

definition vlan_put :: "nat \<Rightarrow> IFX_FLOW_VLAN_tableEntry \<Rightarrow> IFX_FLOW_switchDev \<Rightarrow> IFX_FLOW_switchDev" where
  "vlan_put i = IFX_FLOW_VLAN_Table_Entry_Set (of_nat i)"

definition vlan_map :: "IFX_FLOW_switchDev \<Rightarrow> u16 \<Rightarrow> IFX_FLOW_VLAN_tableEntry option" where
  "vlan_map d vid = map_option (\<lambda>i. VLAN_Table d ! i) (vlan_look d vid)"

lemma u8_index: "i < 64 \<Longrightarrow> unat (of_nat i :: u8) = i" "i < 64 \<Longrightarrow> (of_nat i :: u8) \<noteq> 0xFF"
proof -
  assume i: "i < 64"
  then show u: "unat (of_nat i :: u8) = i" by (intro unat_of_nat_small) simp
  show "(of_nat i :: u8) \<noteq> 0xFF"
  proof
    assume e: "(of_nat i :: u8) = 0xFF"
    have "unat (of_nat i :: u8) = 255" unfolding e by simp
    with i u show False by simp
  qed
qed

lemma index_find:
  assumes "vlan_wf d" "vid \<noteq> 0"
  shows "IFX_FLOW_VLAN_Table_Index_Find d vid = (case vlan_look d vid of None \<Rightarrow> 0xFF | Some i \<Rightarrow> of_nat i)"
  using assms(2) by (auto simp: vlan_look_def Let_def)

lemma vlan_look_iff:
  assumes "vlan_wf d"
  shows "vlan_look d vid = Some i \<longleftrightarrow> i < IFX_FLOW_VLAN_ENTRY_MAX \<and> vlan_key (VLAN_Table d ! i) = Some vid"
proof -
  let ?P = "\<lambda>i. vid = vt_vid (VLAN_Table d ! i)"
  have good: "vlan_good (VLAN_Table d ! j)" if "j < 64" for j using assms that by (simp add: vlan_wf_def)
  show ?thesis
  proof (cases "vid = 0")
    case True
    have "vlan_key (VLAN_Table d ! i) \<noteq> Some 0" if "i < 64"
      using good [OF that] by (auto simp: vlan_good_def vlan_key_def zero_vlan_def)
    with True show ?thesis by (auto simp: vlan_look_def Let_def)
  next
    case False
    have k: "vlan_key (VLAN_Table d ! j) = Some vid \<longleftrightarrow> ?P j" if "j < 64" for j
      using good [OF that] False by (auto simp: vlan_good_def vlan_key_def zero_vlan_def)
    have l: "vlan_look d vid = find ?P [0..<IFX_FLOW_VLAN_ENTRY_MAX]"
    proof (cases "find ?P [0..<IFX_FLOW_VLAN_ENTRY_MAX]")
      case None then show ?thesis by (simp add: vlan_look_def IFX_FLOW_VLAN_Table_Index_Find_def)
    next
      case (Some j)
      then have "j < 64" by (simp add: find_upt_Some)
      with Some False show ?thesis by (simp add: vlan_look_def IFX_FLOW_VLAN_Table_Index_Find_def u8_index)
    qed
    show ?thesis
    proof
      assume "vlan_look d vid = Some i"
      then have "find ?P [0..<64] = Some i" by (simp only: l)
      with k [of i] show "i < 64 \<and> vlan_key (VLAN_Table d ! i) = Some vid" by (simp only: find_upt_Some)
    next
      assume i: "i < 64 \<and> vlan_key (VLAN_Table d ! i) = Some vid"
      have "\<not> ?P j" if "j < i" for j
      proof
        assume "?P j"
        with i that k [of j] have "vlan_key (VLAN_Table d ! j) = Some vid" by simp
        moreover have "j < 64" using i that by simp
        ultimately have "j = i" using assms i unfolding vlan_wf_def by blast
        with that show False by simp
      qed
      with i k [of i] have "find ?P [0..<64] = Some i" by (simp only: find_upt_Some) blast
      then show "vlan_look d vid = Some i" by (simp only: l)
    qed
  qed
qed

lemma vlan_put_table:
  "i < 64 \<Longrightarrow> length (VLAN_Table d) = 64 \<Longrightarrow> VLAN_Table (vlan_put i v d) = (VLAN_Table d)[i := v]"
  by (cases v, cases "VLAN_Table d ! i") (simp add: vlan_put_def IFX_FLOW_VLAN_Table_Entry_Set_def u8_index)

interpretation vt: slot_table vlan_look "\<lambda>d i. VLAN_Table d ! i" vlan_put vlan_key vlan_good vlan_wf IFX_FLOW_VLAN_ENTRY_MAX
proof (unfold_locales, goal_cases)
  case (1 d i j v)
  then show ?case by (simp add: vlan_wf_def vlan_put_table nth_list_update)
next
  case (2 d k i)
  then show ?case by (rule vlan_look_iff)
next
  case (3 d i v)
  have t: "VLAN_Table (vlan_put i v d) = (VLAN_Table d)[i := v]" using 3 by (simp add: vlan_wf_def vlan_put_table)
  have u: "j = i" if "j < 64" "vlan_key v = Some k" "vlan_key (VLAN_Table d ! j) = Some k" for j k
    using 3(4) [OF that(2)] that vlan_look_iff [OF 3(1), of k j] by simp
  show ?case
    using 3(1-3) u unfolding vlan_wf_def t by (auto simp: nth_list_update)
qed

section \<open>The rows of a VLAN on the device\<close>

definition act_img :: "IFX_FLOW_VLAN_tableEntry \<Rightarrow> pce_img" where
  "act_img r = zero_img\<lparr>i_key := (replicate 9 0)[0 := vt_vid r], i_val := (replicate 7 0)[0 := ucast (vt_fid r)],
     i_valid := ucast (vt_valid r)\<rparr>"

definition map_img :: "IFX_FLOW_VLAN_tableEntry \<Rightarrow> pce_img" where
  "map_img r = zero_img\<lparr>i_key := (replicate 9 0)[0 := vt_vid r],
     i_val := [vt_vid r, vt_pm r, vt_tm r, 0, 0, 0, 0], i_valid := ucast (vt_valid r)\<rparr>"

definition vlan_mirror :: "('p \<Rightarrow> nat \<Rightarrow> nat \<Rightarrow> pce_img) \<Rightarrow> (nat \<Rightarrow> pce_img \<Rightarrow> pce_img) \<Rightarrow> 'p core \<Rightarrow> bool" where
  "vlan_mirror tbl keep s \<longleftrightarrow> (\<forall>i<IFX_FLOW_VLAN_ENTRY_MAX. let r = VLAN_Table (dev s) ! i in
     dtbl tbl s 2 i = keep 2 (map_img r) \<and> (vt_reserved r = IFX_FALSE \<longrightarrow> dtbl tbl s 1 i = keep 1 (act_img r)))"

text \<open>
  What the mapping table promises beyond the access protocol: it stores the values 0 to 2, and a
  column written over a stored row is stored as if the whole row had been written.
\<close>

locale vlan_device = pce_engine hwstep tbl keep stable
  for hwstep :: "'p hw \<Rightarrow> 'p hw" and tbl :: "'p \<Rightarrow> nat \<Rightarrow> nat \<Rightarrow> pce_img"
    and keep :: "nat \<Rightarrow> pce_img \<Rightarrow> pce_img" and stable :: "16 word set" +
  assumes stores: "j < 3 \<Longrightarrow> i_val (keep 2 m) ! j = i_val m ! j"
    and columns: "j < 3 \<Longrightarrow> keep 2 ((keep 2 m)\<lparr>i_val := (i_val (keep 2 m))[j := v]\<rparr>) = keep 2 (m\<lparr>i_val := (i_val m)[j := v]\<rparr>)"
begin

lemma two_columns:
  "keep 2 ((keep 2 m)\<lparr>i_val := (i_val (keep 2 m))[Suc 0 := v, 2 := w]\<rparr>) = keep 2 (m\<lparr>i_val := (i_val m)[Suc 0 := v, 2 := w]\<rparr>)"
proof -
  let ?k = "(keep 2 m)\<lparr>i_val := (i_val (keep 2 m))[1 := v]\<rparr>" and ?m = "m\<lparr>i_val := (i_val m)[1 := v]\<rparr>"
  have "keep 2 (?k\<lparr>i_val := (i_val ?k)[2 := w]\<rparr>) = keep 2 ((keep 2 ?k)\<lparr>i_val := (i_val (keep 2 ?k))[2 := w]\<rparr>)"
    using columns [of 2 ?k w] by simp
  also have "\<dots> = keep 2 ((keep 2 ?m)\<lparr>i_val := (i_val (keep 2 ?m))[2 := w]\<rparr>)"
    using columns [of 1 m v] by simp
  also have "\<dots> = keep 2 (?m\<lparr>i_val := (i_val ?m)[2 := w]\<rparr>)"
    using columns [of 2 ?m w] by simp
  finally show ?thesis by simp
qed

end

interpretation refv: vlan_device ref_step ref_tbl "\<lambda>_ m. m" UNIV
  by unfold_locales simp_all

lemma keeps_stores: "vlan_device hwstep tbl keep S \<Longrightarrow> pce_engine hwstep tbl keep S"
  by (simp add: vlan_device_def)

lemma act_img_zero [simp]: "act_img zero_vlan = zero_img" "map_img zero_vlan = zero_img"
  by (simp_all add: act_img_def map_img_def zero_vlan_def zero_img_def numeral_eq_Suc)

section \<open>Outcomes\<close>

lemma vlan_map_put:
  assumes "vlan_wf d" "i < 64" "vlan_wf (vlan_put i v d)"
  shows "vlan_map (vlan_put i v d) k =
    (if vlan_key v = Some k then Some v else if vlan_key (VLAN_Table d ! i) = Some k then None else vlan_map d k)"
  unfolding vlan_map_def by (rule vt.look_put [OF assms])

lemma vlan_map_Some:
  "vlan_wf d \<Longrightarrow> vlan_map d k = Some r \<Longrightarrow> \<exists>i<64. vlan_look d k = Some i \<and> VLAN_Table d ! i = r \<and> vlan_key r = Some k"
  using vt.look_key [of d k] by (fastforce simp: vlan_map_def)

lemma vlan_map_None: "vlan_map d k = None \<longleftrightarrow> vlan_look d k = None"
  by (simp add: vlan_map_def)

lemma empty_find_cases:
  assumes "vlan_wf d"
  obtains (full) "IFX_FLOW_VLAN_Table_Empty_Entry_find d = 0xFF" "\<forall>i<64. vlan_key (VLAN_Table d ! i) \<noteq> None"
  | (free) i where "IFX_FLOW_VLAN_Table_Empty_Entry_find d = of_nat i" "i < 64" "VLAN_Table d ! i = zero_vlan"
proof -
  have g: "vlan_good (VLAN_Table d ! i)" if "i < 64" for i using assms that by (simp add: vlan_wf_def)
  have z: "vt_valid (VLAN_Table d ! i) = 0 \<Longrightarrow> VLAN_Table d ! i = zero_vlan"
    and k: "vt_valid (VLAN_Table d ! i) \<noteq> 0 \<Longrightarrow> vlan_key (VLAN_Table d ! i) \<noteq> None" if "i < 64" for i
    using g [OF that] by (auto simp: vlan_good_def vlan_key_def zero_vlan_def)
  let ?P = "\<lambda>i. vt_valid (VLAN_Table d ! i) = 0"
  show ?thesis
  proof (cases "find ?P [1..<64]")
    case None
    then have n: "\<forall>i. 1 \<le> i \<longrightarrow> i < 64 \<longrightarrow> \<not> ?P i" by (auto simp: find_None_iff)
    show ?thesis
    proof (cases "?P 0")
      case True
      with None z [of 0] show ?thesis
        by (intro free [of 0]) (simp_all add: IFX_FLOW_VLAN_Table_Empty_Entry_find_def)
    next
      case False
      have "\<not> ?P i" if "i < 64" for i using n False that by (cases i) auto
      with None False k show ?thesis
        by (intro full) (simp_all add: IFX_FLOW_VLAN_Table_Empty_Entry_find_def)
    qed
  next
    case (Some i)
    then have i: "i < 64" "?P i" by (auto simp: find_Some_iff)
    with Some z show ?thesis
      by (intro free [of i]) (simp_all add: IFX_FLOW_VLAN_Table_Empty_Entry_find_def u8_index)
  qed
qed

lemma vlan_put_wf:
  "vlan_wf d \<Longrightarrow> i < 64 \<Longrightarrow> vlan_good v \<Longrightarrow> (\<And>k. vlan_key v = Some k \<Longrightarrow> vlan_look d k \<in> {None, Some i}) \<Longrightarrow>
   vlan_wf (vlan_put i v d)"
  by (rule vt.ok_put) auto

text \<open>What the two row writes of \<^verbatim>\<open>IdCreate\<close> and \<^verbatim>\<open>IdDelete\<close> leave on the device.\<close>

lemma two_rows:
  assumes E: "pce_engine hwstep tbl keep S" and s: "idle (hw_of s)" and i: "i < 64"
    and e: "entry_wf e1" "e_table e1 = 1" "unat (e_index e1) = i"
      "entry_wf e2" "e_table e2 = 2" "unat (e_index e2) = i"
  obtains h where "row_write hwstep e1 s \<bind> row_write hwstep e2 = Some (upd_hw (\<lambda>_. h) s)" "idle h"
    "driver_tbl tbl h = set_row (set_row (dtbl tbl s) 1 i (keep 1 (img_of e1))) 2 i (keep 2 (img_of e2))"
proof -
  have sz: "pce_table_size 1 = 64" "pce_table_size 2 = 64" by (simp_all add: pce_table_size_def)
  have u: "unat (e_table e1) = 1" "unat (e_table e2) = 2" by (simp_all add: e)
  from row_write_spec [OF E s e(1) u(1) _ _ e(3)] i sz
  obtain h1 where h1: "row_write hwstep e1 s = Some (upd_hw (\<lambda>_. h1) s)" "idle h1"
    "driver_tbl tbl h1 = set_row (dtbl tbl s) 1 i (keep 1 (img_of e1))" by auto
  from h1(2) have "idle (hw_of (upd_hw (\<lambda>_. h1) s))" by simp
  from row_write_spec [OF E this e(4) u(2) _ _ e(6)] i sz
  obtain h2 where h2: "row_write hwstep e2 (upd_hw (\<lambda>_. h1) s) = Some (upd_hw (\<lambda>_. h2) (upd_hw (\<lambda>_. h1) s))" "idle h2"
    "driver_tbl tbl h2 = set_row (driver_tbl tbl h1) 2 i (keep 2 (img_of e2))" by auto
  have "upd_hw (\<lambda>_. h2) (upd_hw (\<lambda>_. h1) s) = upd_hw (\<lambda>_. h2) s" by (simp add: upd_hw_def)
  with h1(1) h2 show ?thesis by (intro that [of h2]) (simp_all add: h1(3))
qed

definition new_vlan :: "u16 \<Rightarrow> u32 \<Rightarrow> IFX_FLOW_VLAN_tableEntry" where
  "new_vlan vid fid = zero_vlan\<lparr>vt_valid := IFX_TRUE, vt_vid := vid, vt_fid := fid\<rparr>"

text \<open>\<open>vlan_step\<close>: one row changed, in software and on the device, and nothing else of the driver's state.\<close>

definition vlan_step :: "('p \<Rightarrow> nat \<Rightarrow> nat \<Rightarrow> pce_img) \<Rightarrow> nat \<Rightarrow> IFX_FLOW_VLAN_tableEntry \<Rightarrow> 'p core \<Rightarrow> 'p core \<Rightarrow> bool" where
  "vlan_step tbl i r s s' \<longleftrightarrow> i < 64 \<and> dev s' = vlan_put i r (dev s) \<and> st_pce (pce s') = st_pce (pce s) \<and>
     st_ent (pce s') = st_ent (pce s) \<and> idle (hw_of s') \<and>
     (\<forall>t j. (t \<noteq> 1 \<and> t \<noteq> 2) \<or> j \<noteq> i \<longrightarrow> dtbl tbl s' t j = dtbl tbl s t j)"

lemma vlan_step_mirror:
  assumes "vlan_step tbl i r s s'" "vlan_mirror tbl keep s" "vlan_wf (dev s)"
    and "dtbl tbl s' 2 i = keep 2 (map_img r)" "vt_reserved r = 0 \<Longrightarrow> dtbl tbl s' 1 i = keep 1 (act_img r)"
  shows "vlan_mirror tbl keep s'"
proof -
  have t: "VLAN_Table (dev s') = (VLAN_Table (dev s))[i := r]" and l: "length (VLAN_Table (dev s)) = 64"
    using assms(1,3) by (simp_all add: vlan_step_def vlan_wf_def vlan_put_table)
  show ?thesis unfolding vlan_mirror_def Let_def
  proof (intro allI impI)
    fix j :: nat assume j: "j < 64"
    show "dtbl tbl s' 2 j = keep 2 (map_img (VLAN_Table (dev s') ! j)) \<and>
      (vt_reserved (VLAN_Table (dev s') ! j) = 0 \<longrightarrow> dtbl tbl s' 1 j = keep 1 (act_img (VLAN_Table (dev s') ! j)))"
    proof (cases "j = i")
      case True with assms(4,5) l j show ?thesis by (simp add: t)
    next
      case False
      then have "dtbl tbl s' 2 j = dtbl tbl s 2 j" "dtbl tbl s' 1 j = dtbl tbl s 1 j"
        using assms(1) by (simp_all add: vlan_step_def)
      with False assms(2) j show ?thesis by (simp add: t vlan_mirror_def Let_def)
    qed
  qed
qed

lemma img_of_set [simp]:
  "img_of (e\<lparr>e_valid := v\<rparr>) = (img_of e)\<lparr>i_valid := v\<rparr>" "img_of (e\<lparr>e_index := x\<rparr>) = img_of e"
  "img_of (e\<lparr>e_table := x\<rparr>) = img_of e" "img_of (set_val k x e) = (img_of e)\<lparr>i_val := (e_val e)[k := x]\<rparr>"
  by (simp_all add: img_of_def set_val_def)

lemma img_of_set_key [simp]:
  "length (e_key e) = 16 \<Longrightarrow> k < 9 \<Longrightarrow> img_of (set_key k x e) = (img_of e)\<lparr>i_key := (take 9 (e_key e))[k := x]\<rparr>"
  by (simp add: img_of_def set_key_def take_update_swap)

lemma set_val_simps [simp]:
  "e_val (set_val k v e) = (e_val e)[k := v]" "e_table (set_val k v e) = e_table e"
  "e_index (set_val k v e) = e_index e" "entry_wf (set_val k v e) = entry_wf e"
  "e_key (set_val k v e) = e_key e" "e_valid (set_val k v e) = e_valid e"
  "e_val (set_key k v e) = e_val e" "e_table (set_key k v e) = e_table e"
  "e_index (set_key k v e) = e_index e" "entry_wf (set_key k v e) = entry_wf e"
  "e_key (set_key k v e) = (e_key e)[k := v]" "e_valid (set_key k v e) = e_valid e"
  by (simp_all add: set_val_def set_key_def entry_wf_def)

lemma entry_wf_updates [simp]:
  "entry_wf (e\<lparr>e_valid := v\<rparr>) = entry_wf e" "entry_wf (e\<lparr>e_index := x\<rparr>) = entry_wf e"
  "entry_wf (e\<lparr>e_table := y\<rparr>) = entry_wf e"
  by (simp_all add: entry_wf_def)

lemma zero_lists: "e_key zero_entry = replicate 16 0" "e_val zero_entry = replicate 7 0"
  by (simp_all add: zero_entry_def)

lemma create_cases:
  assumes E: "pce_engine hwstep tbl keep S" and s: "idle (hw_of s)" and w: "vlan_wf (dev s)" and v: "vc_nVId q \<noteq> 0"
  obtains (exists) "vlan_map (dev s) (vc_nVId q) \<noteq> None" "IFX_FLOW_VLAN_IdCreate hwstep q s = Some (IFX_ERROR, s)"
  | (full) "vlan_map (dev s) (vc_nVId q) = None" "\<forall>i<64. vlan_key (VLAN_Table (dev s) ! i) \<noteq> None"
      "IFX_FLOW_VLAN_IdCreate hwstep q s = Some (IFX_ERROR, s)"
  | (created) i s' where "vlan_map (dev s) (vc_nVId q) = None" "VLAN_Table (dev s) ! i = zero_vlan"
      "IFX_FLOW_VLAN_IdCreate hwstep q s = Some (IFX_SUCCESS, s')" "vlan_step tbl i (new_vlan (vc_nVId q) (vc_nFId q)) s s'"
      "dtbl tbl s' 1 i = keep 1 (act_img (new_vlan (vc_nVId q) (vc_nFId q)))"
      "dtbl tbl s' 2 i = keep 2 (map_img (new_vlan (vc_nVId q) (vc_nFId q)))"
proof (cases "vlan_look (dev s) (vc_nVId q)")
  case (Some i)
  then have "i < 64" using vt.look_key [OF w] by blast
  with Some index_find [OF w v] show ?thesis
    by (intro exists) (simp_all add: vlan_map_None IFX_FLOW_VLAN_IdCreate_def u8_index)
next
  case None
  then have f: "IFX_FLOW_VLAN_Table_Index_Find (dev s) (vc_nVId q) = 0xFF" using index_find [OF w v] by simp
  show ?thesis
  proof (cases rule: empty_find_cases [OF w])
    case 1
    then show ?thesis using None f by (intro full) (simp_all add: vlan_map_None IFX_FLOW_VLAN_IdCreate_def)
  next
    case (2 i)
    let ?r = "new_vlan (vc_nVId q) (vc_nFId q)"
    let ?s = "upd_dev (IFX_FLOW_VLAN_Table_Entry_Set (of_nat i) ?r) s"
    let ?e1 = "(set_val 0 (ucast (vc_nFId q)) (set_key 0 (vc_nVId q) (zero_entry\<lparr>e_index := ucast (of_nat i :: u8), e_table := PCE_ACTVLAN_INDEX\<rparr>)))\<lparr>e_valid := 1\<rparr>"
    let ?e2 = "set_val 2 0 (set_val 1 0 (set_val 0 (vc_nVId q) (?e1\<lparr>e_table := PCE_VLANMAP_INDEX\<rparr>)))"
    have i: "unat (ucast (of_nat i :: u8) :: u16) = i" using 2(2) by (simp add: u8_index)
    have s1: "idle (hw_of ?s)" using s by simp
    have w1: "entry_wf ?e1" "e_table ?e1 = 1" "unat (e_index ?e1) = i"
      and w2: "entry_wf ?e2" "e_table ?e2 = 2" "unat (e_index ?e2) = i"
      using i by simp_all
    from two_rows [OF E s1 2(2) w1 w2]
    obtain h where h: "row_write hwstep ?e1 ?s \<bind> row_write hwstep ?e2 = Some (upd_hw (\<lambda>_. h) ?s)" "idle h"
      "driver_tbl tbl h = set_row (set_row (dtbl tbl ?s) 1 i (keep 1 (img_of ?e1))) 2 i (keep 2 (img_of ?e2))" by blast
    have im: "img_of ?e1 = act_img ?r" "img_of ?e2 = map_img ?r"
      by (simp_all add: zero_lists act_img_def map_img_def new_vlan_def zero_vlan_def numeral_eq_Suc)
    have run: "IFX_FLOW_VLAN_IdCreate hwstep q s = Some (IFX_SUCCESS, upd_hw (\<lambda>_. h) ?s)"
      using h(1) f 2 by (simp add: IFX_FLOW_VLAN_IdCreate_def u8_index new_vlan_def bind_assoc flip: bind_assoc)
    show ?thesis
    proof (rule created [of i "upd_hw (\<lambda>_. h) ?s"])
      show "vlan_map (dev s) (vc_nVId q) = None" using None by (simp add: vlan_map_None)
      show "vlan_step tbl i ?r s (upd_hw (\<lambda>_. h) ?s)"
        using 2(2) h(2,3) by (simp add: vlan_step_def vlan_put_def set_row_def)
    qed (use 2 run h(3) [unfolded im] in \<open>simp_all add: set_row_def\<close>)
  qed
qed

lemma delete_cases:
  assumes E: "pce_engine hwstep tbl keep S" and s: "idle (hw_of s)" and w: "vlan_wf (dev s)" and v: "vd_nVId q \<noteq> 0"
  obtains (unknown) "vlan_map (dev s) (vd_nVId q) = None" "IFX_FLOW_VLAN_IdDelete hwstep q s = Some (IFX_ERROR, s)"
  | (in_use) i where "vlan_look (dev s) (vd_nVId q) = Some i" "i < 64" "vlan_act_tbl_cnt (pce_sub_tbl (st_pce (pce s))) ! i \<noteq> 0"
      "IFX_FLOW_VLAN_IdDelete hwstep q s = Some (IFX_ERROR, s)"
  | (deleted) i s' where "vlan_look (dev s) (vd_nVId q) = Some i"
      "vlan_act_tbl_cnt (pce_sub_tbl (st_pce (pce s))) ! i = 0"
      "IFX_FLOW_VLAN_IdDelete hwstep q s = Some (IFX_SUCCESS, s')" "vlan_step tbl i zero_vlan s s'"
      "dtbl tbl s' 1 i = keep 1 zero_img" "dtbl tbl s' 2 i = keep 2 zero_img"
proof (cases "vlan_look (dev s) (vd_nVId q)")
  case None
  then show ?thesis using index_find [OF w v]
    by (intro unknown) (simp_all add: vlan_map_None IFX_FLOW_VLAN_IdDelete_def)
next
  case (Some i)
  then have i: "i < 64" using vt.look_key [OF w] by blast
  have f: "IFX_FLOW_VLAN_Table_Index_Find (dev s) (vd_nVId q) = of_nat i" using index_find [OF w v] Some by simp
  let ?c = "vlan_act_tbl_cnt (pce_sub_tbl (st_pce (pce s))) ! i"
  show ?thesis
  proof (cases "?c = 0")
    case False
    then show ?thesis using Some i f
      by (intro in_use [of i]) (simp_all add: IFX_FLOW_VLAN_IdDelete_def get_ifx_pce_tm_vlan_act_tbl_index_def IFX_PCE_VLAN_ACT_TBL_SIZE_def u8_index)
  next
    case True
    let ?s = "upd_dev (IFX_FLOW_VLAN_Table_Entry_Set (of_nat i) zero_vlan) s"
    let ?e1 = "zero_entry\<lparr>e_index := ucast (of_nat i :: u8), e_table := PCE_ACTVLAN_INDEX, e_valid := 0\<rparr>"
    let ?e2 = "?e1\<lparr>e_table := PCE_VLANMAP_INDEX\<rparr>"
    have x: "unat (ucast (of_nat i :: u8) :: u16) = i" using i by (simp add: u8_index)
    have s1: "idle (hw_of ?s)" using s by simp
    have w1: "entry_wf ?e1" "e_table ?e1 = 1" "unat (e_index ?e1) = i"
      and w2: "entry_wf ?e2" "e_table ?e2 = 2" "unat (e_index ?e2) = i"
      using x by simp_all
    from two_rows [OF E s1 i w1 w2]
    obtain h where h: "row_write hwstep ?e1 ?s \<bind> row_write hwstep ?e2 = Some (upd_hw (\<lambda>_. h) ?s)" "idle h"
      "driver_tbl tbl h = set_row (set_row (dtbl tbl ?s) 1 i (keep 1 (img_of ?e1))) 2 i (keep 2 (img_of ?e2))" by blast
    have im: "img_of ?e1 = zero_img" "img_of ?e2 = zero_img" by (simp_all add: zero_img_def)
    have run: "IFX_FLOW_VLAN_IdDelete hwstep q s = Some (IFX_SUCCESS, upd_hw (\<lambda>_. h) ?s)"
      using h(1) f i True
      by (simp add: IFX_FLOW_VLAN_IdDelete_def get_ifx_pce_tm_vlan_act_tbl_index_def IFX_PCE_VLAN_ACT_TBL_SIZE_def u8_index bind_assoc flip: bind_assoc)
    show ?thesis
      by (rule deleted [of i "upd_hw (\<lambda>_. h) ?s"])
        (use Some True run i h(2) h(3) [unfolded im] in
          \<open>simp_all add: vlan_step_def vlan_put_def set_row_def\<close>)
  qed
qed

section \<open>Members, outcomes\<close>

text \<open>The port number has eight bits, so the port-map mode of the interface is never entered.\<close>

lemma no_portmap [simp]: "\<not> portmap_flag p"
proof -
  have "(ucast p :: u32) AND 0x80000000 = 0"
  proof (rule bit_word_eqI)
    fix n assume "n < LENGTH(32)"
    have "bit (0x80000000 :: u32) n \<longleftrightarrow> n = 31" if "n < 32" for n
    proof -
      have "(0x80000000 :: u32) = push_bit 31 1" by simp
      then show ?thesis using that by (simp only: bit_push_bit_iff bit_1_iff) auto
    qed
    with \<open>n < LENGTH(32)\<close> show "bit ((ucast p :: u32) AND 0x80000000) n = bit 0 n"
      by (auto simp: bit_and_iff bit_ucast_iff dest: bit_imp_le_length)
  qed
  then show ?thesis by (simp add: portmap_flag_def)
qed

lemma bit_port_bit: "unat p < 16 \<Longrightarrow> bit (port_bit p) n \<longleftrightarrow> n = unat p"
  by (auto simp: port_bit_def bit_exp_iff)

lemma or_port_bit: "unat p < 16 \<Longrightarrow> (ucast (ucast (w::u16) OR port_bit p) :: u16) = set_bit (unat p) w"
  by (rule bit_word_eqI) (auto simp: bit_ucast_iff bit_or_iff bit_port_bit bit_set_bit_iff)

lemma and_not_port_bit: "unat p < 16 \<Longrightarrow> (ucast (ucast (w::u16) AND NOT (port_bit p)) :: u16) = unset_bit (unat p) w"
  by (rule bit_word_eqI) (auto simp: bit_ucast_iff bit_and_iff bit_not_iff bit_port_bit bit_unset_bit_iff)

definition add_member :: "u8 \<Rightarrow> bool \<Rightarrow> IFX_FLOW_VLAN_tableEntry \<Rightarrow> IFX_FLOW_VLAN_tableEntry" where
  "add_member p tagged r = r\<lparr>vt_pm := set_bit (unat p) (vt_pm r),
     vt_tm := (if tagged then set_bit (unat p) (vt_tm r) else unset_bit (unat p) (vt_tm r))\<rparr>"

definition drop_member :: "u8 \<Rightarrow> IFX_FLOW_VLAN_tableEntry \<Rightarrow> IFX_FLOW_VLAN_tableEntry" where
  "drop_member p r = r\<lparr>vt_pm := unset_bit (unat p) (vt_pm r), vt_tm := unset_bit (unat p) (vt_tm r)\<rparr>"

lemma member_fold:
  "r\<lparr>vt_pm := set_bit (unat p) (vt_pm r), vt_tm := set_bit (unat p) (vt_tm r)\<rparr> = add_member p True r"
  "r\<lparr>vt_pm := set_bit (unat p) (vt_pm r), vt_tm := unset_bit (unat p) (vt_tm r)\<rparr> = add_member p False r"
  "r\<lparr>vt_pm := unset_bit (unat p) (vt_pm r), vt_tm := unset_bit (unat p) (vt_tm r)\<rparr> = drop_member p r"
  by (simp_all add: add_member_def drop_member_def)

lemma member_sel:
  "vt_pm (add_member p b r) = set_bit (unat p) (vt_pm r)"
  "vt_tm (add_member p b r) = (if b then set_bit (unat p) (vt_tm r) else unset_bit (unat p) (vt_tm r))"
  "vt_pm (drop_member p r) = unset_bit (unat p) (vt_pm r)" "vt_tm (drop_member p r) = unset_bit (unat p) (vt_tm r)"
  "vt_reserved (add_member p b r) = vt_reserved r" "vt_reserved (drop_member p r) = vt_reserved r"
  by (simp_all add: add_member_def drop_member_def)

lemma member_good: "vlan_key r = Some k \<Longrightarrow> vlan_good r \<Longrightarrow> vlan_good (add_member p b r) \<and> vlan_good (drop_member p r)"
  by (auto simp: vlan_good_def vlan_key_def zero_vlan_def add_member_def drop_member_def split: if_splits)

lemma member_key [simp]: "vlan_key (add_member p b r) = vlan_key r" "vlan_key (drop_member p r) = vlan_key r"
  by (simp_all add: vlan_key_def add_member_def drop_member_def)

lemma entry_get [simp]: "IFX_FLOW_VLAN_Table_Entry_Get d i g = VLAN_Table d ! unat i"
  by (cases g, cases "VLAN_Table d ! unat i") (simp add: IFX_FLOW_VLAN_Table_Entry_Get_def)

text \<open>Reading a row of the mapping table, replacing two columns and writing it back.\<close>

lemma row_rmw:
  assumes V: "vlan_device hwstep tbl keep S" and s: "idle (hw_of s)" and i: "i < 64"
    and e: "e_table g = 2" "unat (e_index g) = i" "length (e_key g) = 16" and m: "dtbl tbl s 2 i = keep 2 m"
  obtains h1 h2 where "row_read hwstep g s = Some (with_img (keep 2 m) g, upd_hw (\<lambda>_. h1) s)"
    "row_write hwstep (set_val 2 y (set_val 1 x (with_img (keep 2 m) g))) (upd_hw (\<lambda>_. h1) s) = Some (upd_hw (\<lambda>_. h2) s)"
    "idle h2" "driver_tbl tbl h2 = set_row (dtbl tbl s) 2 i (keep 2 (m\<lparr>i_val := (i_val m)[1 := x, 2 := y]\<rparr>))"
proof -
  note E = keeps_stores [OF V]
  have sz: "i < pce_table_size 2" using i by (simp add: pce_table_size_def)
  have t: "unat (e_table g) = 2" by (simp add: e)
  obtain h1 where h1: "row_read hwstep g s = Some (with_img (dtbl tbl s 2 i) g, upd_hw (\<lambda>_. h1) s)" "idle h1"
    "driver_tbl tbl h1 = dtbl tbl s" "length (i_key (dtbl tbl s 2 i)) = 9" "length (i_val (dtbl tbl s 2 i)) = 7"
    by (rule row_read_spec [OF E s t _ _ e(2) sz]) auto
  let ?g = "with_img (keep 2 m) g"
  let ?e = "set_val 2 y (set_val 1 x ?g)"
  have l: "length (i_key (keep 2 m)) = 9" "length (i_val (keep 2 m)) = 7" using h1(4,5) by (simp_all add: m)
  have wf: "entry_wf ?e" "unat (e_table ?e) = 2" "unat (e_index ?e) = i"
    using e l by (simp_all add: entry_wf_def with_img_def)
  have im: "img_of ?e = (keep 2 m)\<lparr>i_val := (i_val (keep 2 m))[1 := x, 2 := y]\<rparr>"
    using l by (cases "keep 2 m") (simp add: img_of_def with_img_def set_val_def)
  have s1: "idle (hw_of (upd_hw (\<lambda>_. h1) s))" using h1(2) by simp
  obtain h2 where h2: "row_write hwstep ?e (upd_hw (\<lambda>_. h1) s) = Some (upd_hw (\<lambda>_. h2) (upd_hw (\<lambda>_. h1) s))" "idle h2"
    "driver_tbl tbl h2 = set_row (driver_tbl tbl h1) 2 i (keep 2 (img_of ?e))"
    by (rule row_write_spec [OF E s1 wf(1,2) _ _ wf(3) sz]) auto
  have "upd_hw (\<lambda>_. h2) (upd_hw (\<lambda>_. h1) s) = upd_hw (\<lambda>_. h2) s" by (simp add: upd_hw_def)
  then show ?thesis
    using h1 h2 im vlan_device.two_columns [OF V, of m x y] by (intro that [of h1 h2]) (simp_all add: m)
qed

lemma low_ports: "p < nTotalPortNumber d \<Longrightarrow> dev_ok d \<Longrightarrow> unat p < 12"
  by (simp add: dev_ok_def word_less_nat_alt)

lemma add_cases:
  assumes V: "vlan_device hwstep tbl keep S" and s: "idle (hw_of s)" and w: "vlan_wf (dev s)" "dev_ok (dev s)"
    and v: "va_nVId q \<noteq> 0" and M: "vlan_mirror tbl keep s" and g: "length (e_key g) = 16"
  obtains (refused) "va_nPortId q \<ge> nTotalPortNumber (dev s) \<or> vlan_map (dev s) (va_nVId q) = None \<or>
        (\<exists>r. vlan_map (dev s) (va_nVId q) = Some r \<and> vt_reserved r = IFX_TRUE)"
      "IFX_FLOW_VLAN_PortMemberAdd hwstep g q s = Some (IFX_ERROR, s)"
  | (added) i r s' where "va_nPortId q < nTotalPortNumber (dev s)" "vlan_look (dev s) (va_nVId q) = Some i"
      "VLAN_Table (dev s) ! i = r" "vt_reserved r \<noteq> IFX_TRUE"
      "IFX_FLOW_VLAN_PortMemberAdd hwstep g q s = Some (IFX_SUCCESS, s')"
      "vlan_step tbl i (add_member (va_nPortId q) (va_bVLAN_TagEgress q \<noteq> 0) r) s s'"
      "dtbl tbl s' 1 i = dtbl tbl s 1 i"
      "dtbl tbl s' 2 i = keep 2 (map_img (add_member (va_nPortId q) (va_bVLAN_TagEgress q \<noteq> 0) r))"
proof (cases "va_nPortId q \<ge> nTotalPortNumber (dev s)")
  case True
  then show ?thesis by (intro refused) (simp_all add: IFX_FLOW_VLAN_PortMemberAdd_def)
next
  case port: False
  then have p: "unat (va_nPortId q) < 16" using low_ports [of "va_nPortId q" "dev s"] w(2) by (simp add: not_le)
  show ?thesis
  proof (cases "vlan_look (dev s) (va_nVId q)")
    case None
    then show ?thesis using port index_find [OF w(1) v]
      by (intro refused) (simp_all add: vlan_map_None IFX_FLOW_VLAN_PortMemberAdd_def)
  next
    case (Some i)
    then have i: "i < 64" using vt.look_key [OF w(1)] by blast
    have f: "IFX_FLOW_VLAN_Table_Index_Find (dev s) (va_nVId q) = of_nat i" using index_find [OF w(1) v] Some by simp
    let ?r = "VLAN_Table (dev s) ! i"
    show ?thesis
    proof (cases "vt_reserved ?r = IFX_TRUE")
      case True
      then show ?thesis using port f i Some
        by (intro refused) (simp_all add: IFX_FLOW_VLAN_PortMemberAdd_def u8_index vlan_map_def)
    next
      case False
      let ?e = "add_member (va_nPortId q) (va_bVLAN_TagEgress q \<noteq> 0) ?r"
      let ?s = "upd_dev (IFX_FLOW_VLAN_Table_Entry_Set (of_nat i) ?e) s"
      let ?g = "g\<lparr>e_table := PCE_VLANMAP_INDEX, e_index := ucast (of_nat i :: u8)\<rparr>"
      have x: "e_table ?g = 2" "unat (e_index ?g) = i" "length (e_key ?g) = 16" using i g by (simp_all add: u8_index)
      have m: "dtbl tbl ?s 2 i = keep 2 (map_img ?r)" using M i by (simp add: vlan_mirror_def Let_def)
      have s1: "idle (hw_of ?s)" using s by simp
      obtain h1 h2 where h: "row_read hwstep ?g ?s = Some (with_img (keep 2 (map_img ?r)) ?g, upd_hw (\<lambda>_. h1) ?s)"
        "row_write hwstep (set_val 2 (vt_tm ?e) (set_val 1 (vt_pm ?e) (with_img (keep 2 (map_img ?r)) ?g))) (upd_hw (\<lambda>_. h1) ?s)
          = Some (upd_hw (\<lambda>_. h2) ?s)" "idle h2"
        "driver_tbl tbl h2 = set_row (dtbl tbl ?s) 2 i (keep 2 ((map_img ?r)\<lparr>i_val := (i_val (map_img ?r))[1 := vt_pm ?e, 2 := vt_tm ?e]\<rparr>))"
        by (rule row_rmw [OF V s1 i x m])
      have im: "(map_img ?r)\<lparr>i_val := (i_val (map_img ?r))[1 := vt_pm ?e, 2 := vt_tm ?e]\<rparr> = map_img ?e"
        by (simp add: map_img_def add_member_def)
      have ti: "(with_img (keep 2 (map_img ?r)) ?g)\<lparr>e_table := PCE_VLANMAP_INDEX, e_index := ucast (of_nat i :: u8)\<rparr>
          = with_img (keep 2 (map_img ?r)) ?g"
        by (simp add: with_img_def)
      have run: "IFX_FLOW_VLAN_PortMemberAdd hwstep g q s = Some (IFX_SUCCESS, upd_hw (\<lambda>_. h2) ?s)"
      proof (cases "va_bVLAN_TagEgress q = 0")
        case True
        then show ?thesis using port f i False h(1,2) ti p unfolding IFX_FLOW_VLAN_PortMemberAdd_def Let_def
          by (simp add: u8_index member_fold member_sel or_port_bit and_not_port_bit)
      next
        case False
        then show ?thesis using port f i \<open>vt_reserved ?r \<noteq> IFX_TRUE\<close> h(1,2) ti p unfolding IFX_FLOW_VLAN_PortMemberAdd_def Let_def
          by (simp add: u8_index member_fold member_sel or_port_bit and_not_port_bit)
      qed
      show ?thesis
        by (rule added [of i ?r "upd_hw (\<lambda>_. h2) ?s"])
          (use port Some False run i h(3) h(4) [unfolded im] in
            \<open>simp_all add: vlan_step_def vlan_put_def set_row_def\<close>)
    qed
  qed
qed

lemma remove_cases:
  assumes V: "vlan_device hwstep tbl keep S" and s: "idle (hw_of s)" and w: "vlan_wf (dev s)" "dev_ok (dev s)"
    and v: "vr_nVId q \<noteq> 0" and M: "vlan_mirror tbl keep s" and g: "length (e_key g) = 16"
  obtains (refused) "vr_nPortId q \<ge> nTotalPortNumber (dev s) \<or> vlan_map (dev s) (vr_nVId q) = None"
      "IFX_FLOW_VLAN_PortMemberRemove hwstep g q s = Some (IFX_ERROR, s)"
  | (removed) i r s' where "vr_nPortId q < nTotalPortNumber (dev s)" "vlan_look (dev s) (vr_nVId q) = Some i"
      "VLAN_Table (dev s) ! i = r" "IFX_FLOW_VLAN_PortMemberRemove hwstep g q s = Some (IFX_SUCCESS, s')"
      "vlan_step tbl i (drop_member (vr_nPortId q) r) s s'" "dtbl tbl s' 1 i = dtbl tbl s 1 i"
      "dtbl tbl s' 2 i = keep 2 (map_img (drop_member (vr_nPortId q) r))"
proof (cases "vr_nPortId q \<ge> nTotalPortNumber (dev s)")
  case True
  then show ?thesis by (intro refused) (simp_all add: IFX_FLOW_VLAN_PortMemberRemove_def)
next
  case port: False
  then have p: "unat (vr_nPortId q) < 16" using low_ports [of "vr_nPortId q" "dev s"] w(2) by (simp add: not_le)
  show ?thesis
  proof (cases "vlan_look (dev s) (vr_nVId q)")
    case None
    then show ?thesis using port index_find [OF w(1) v]
      by (intro refused) (simp_all add: vlan_map_None IFX_FLOW_VLAN_PortMemberRemove_def)
  next
    case (Some i)
    then have i: "i < 64" using vt.look_key [OF w(1)] by blast
    have f: "IFX_FLOW_VLAN_Table_Index_Find (dev s) (vr_nVId q) = of_nat i" using index_find [OF w(1) v] Some by simp
    let ?r = "VLAN_Table (dev s) ! i"
    let ?e = "drop_member (vr_nPortId q) ?r"
    let ?s = "upd_dev (IFX_FLOW_VLAN_Table_Entry_Set (of_nat i) ?e) s"
    let ?g = "g\<lparr>e_table := PCE_VLANMAP_INDEX, e_index := ucast (of_nat i :: u8)\<rparr>"
    have x: "e_table ?g = 2" "unat (e_index ?g) = i" "length (e_key ?g) = 16" using i g by (simp_all add: u8_index)
    have m: "dtbl tbl ?s 2 i = keep 2 (map_img ?r)" using M i by (simp add: vlan_mirror_def Let_def)
    have s1: "idle (hw_of ?s)" using s by simp
    obtain h1 h2 where h: "row_read hwstep ?g ?s = Some (with_img (keep 2 (map_img ?r)) ?g, upd_hw (\<lambda>_. h1) ?s)"
      "row_write hwstep (set_val 2 (vt_tm ?e) (set_val 1 (vt_pm ?e) (with_img (keep 2 (map_img ?r)) ?g))) (upd_hw (\<lambda>_. h1) ?s)
        = Some (upd_hw (\<lambda>_. h2) ?s)" "idle h2"
      "driver_tbl tbl h2 = set_row (dtbl tbl ?s) 2 i (keep 2 ((map_img ?r)\<lparr>i_val := (i_val (map_img ?r))[1 := vt_pm ?e, 2 := vt_tm ?e]\<rparr>))"
      by (rule row_rmw [OF V s1 i x m])
    have im: "(map_img ?r)\<lparr>i_val := (i_val (map_img ?r))[1 := vt_pm ?e, 2 := vt_tm ?e]\<rparr> = map_img ?e"
      by (simp add: map_img_def drop_member_def)
    have vs: "i_val (keep 2 (map_img ?r)) ! Suc 0 = vt_pm ?r" "i_val (keep 2 (map_img ?r)) ! 2 = vt_tm ?r"
      using vlan_device.stores [OF V, of 1 "map_img ?r"] vlan_device.stores [OF V, of 2 "map_img ?r"]
      by (simp_all add: map_img_def)
    have ev: "e_val (with_img (keep 2 (map_img ?r)) ?g) = i_val (keep 2 (map_img ?r))" by (simp add: with_img_def)
    have run: "IFX_FLOW_VLAN_PortMemberRemove hwstep g q s = Some (IFX_SUCCESS, upd_hw (\<lambda>_. h2) ?s)"
      using port f i h(1,2) p unfolding IFX_FLOW_VLAN_PortMemberRemove_def Let_def
      by (simp add: u8_index member_fold member_sel and_not_port_bit ev vs)
    show ?thesis
      by (rule removed [of i ?r "upd_hw (\<lambda>_. h2) ?s"])
        (use port Some run i h(3) h(4) [unfolded im] in \<open>simp_all add: vlan_step_def vlan_put_def set_row_def\<close>)
  qed
qed

section \<open>Reserving, outcomes\<close>

text \<open>
  Reserving a VLAN writes a row with key 0 and without the valid bit over the row of the VLAN, and
  removing the reservation does not write it back.
\<close>

lemma reserve_cases:
  assumes E: "pce_engine hwstep tbl keep S" and s: "idle (hw_of s)" and w: "vlan_wf (dev s)" and v: "vs_nVId q \<noteq> 0"
    and r: "vlan_map (dev s) (vs_nVId q) = Some r" "vt_pm r = 0" "vt_tm r = 0"
  obtains i s' where "vlan_look (dev s) (vs_nVId q) = Some i" "VLAN_Table (dev s) ! i = r"
    "IFX_FLOW_VLAN_ReservedAdd hwstep q s = Some (IFX_SUCCESS, s')"
    "vlan_step tbl i (r\<lparr>vt_reserved := IFX_TRUE\<rparr>) s s'"
    "dtbl tbl s' 1 i = keep 1 (zero_img\<lparr>i_val := [0x100, 0, 0, 0, 0, 0, 0]\<rparr>)" "dtbl tbl s' 2 i = dtbl tbl s 2 i"
proof -
  obtain i where i: "i < 64" "vlan_look (dev s) (vs_nVId q) = Some i" "VLAN_Table (dev s) ! i = r"
    using vlan_map_Some [OF w r(1)] by blast
  have f: "IFX_FLOW_VLAN_Table_Index_Find (dev s) (vs_nVId q) = of_nat i" using index_find [OF w v] i(2) by simp
  let ?s = "upd_dev (IFX_FLOW_VLAN_Table_Entry_Set (of_nat i) (r\<lparr>vt_reserved := IFX_TRUE\<rparr>)) s"
  let ?e = "set_val 0 0x100 (zero_entry\<lparr>e_index := ucast (of_nat i :: u8), e_table := PCE_ACTVLAN_INDEX\<rparr>)"
  have e: "entry_wf ?e" "unat (e_table ?e) = 1" "unat (e_index ?e) = i" using i(1) by (simp_all add: u8_index)
  have s1: "idle (hw_of ?s)" using s by simp
  have sz: "i < pce_table_size 1" using i(1) by (simp add: pce_table_size_def)
  obtain h where h: "row_write hwstep ?e ?s = Some (upd_hw (\<lambda>_. h) ?s)" "idle h"
    "driver_tbl tbl h = set_row (dtbl tbl ?s) 1 i (keep 1 (img_of ?e))"
    by (rule row_write_spec [OF E s1 e(1,2) _ _ e(3) sz]) auto
  have im: "img_of ?e = zero_img\<lparr>i_val := [0x100, 0, 0, 0, 0, 0, 0]\<rparr>" by (simp add: zero_lists numeral_eq_Suc)
  have run: "IFX_FLOW_VLAN_ReservedAdd hwstep q s = Some (IFX_SUCCESS, upd_hw (\<lambda>_. h) ?s)"
    using h(1) f i r(2,3) by (simp add: IFX_FLOW_VLAN_ReservedAdd_def u8_index zero_lists)
  show ?thesis
    by (rule that [of i "upd_hw (\<lambda>_. h) ?s"])
      (use i run h(2) h(3) [unfolded im] in \<open>simp_all add: vlan_step_def vlan_put_def set_row_def\<close>)
qed

section \<open>The invariant\<close>

definition core_inv :: "('p \<Rightarrow> nat \<Rightarrow> nat \<Rightarrow> pce_img) \<Rightarrow> (nat \<Rightarrow> pce_img \<Rightarrow> pce_img) \<Rightarrow> 'p core \<Rightarrow> bool" where
  "core_inv tbl keep s \<longleftrightarrow> dev_ok (dev s) \<and> vlan_wf (dev s) \<and> vlan_mirror tbl keep s \<and> rules_inv tbl keep (pce s)"

lemma rules_idle: "rules_inv tbl keep P \<Longrightarrow> idle (st_hw P)"
  by (simp add: rules_inv_def st_ok_def sub_inv_def)

lemma core_inv_simps:
  "core_inv tbl keep s \<Longrightarrow> idle (hw_of s)" "core_inv tbl keep s \<Longrightarrow> vlan_wf (dev s)"
  "core_inv tbl keep s \<Longrightarrow> dev_ok (dev s)" "core_inv tbl keep s \<Longrightarrow> vlan_mirror tbl keep s"
  using rules_idle by (auto simp: core_inv_def)

lemma rules_inv_frame:
  assumes "rules_inv tbl keep P" "st_pce P' = st_pce P" "idle (st_hw P')"
    and "\<And>k i. driver_tbl tbl (st_hw P') (tno k) i = driver_tbl tbl (st_hw P) (tno k) i"
  shows "rules_inv tbl keep P'"
  using assms by (simp add: rules_inv_def st_ok_def sub_inv_def mirrored_def)

lemma tno_not_vlan: "tno k \<noteq> 1 \<and> tno k \<noteq> 2"
  by (cases k) simp_all

text \<open>A step that writes a row of the right shape preserves the invariant and updates the map.\<close>

lemma vlan_step_inv:
  assumes st: "vlan_step tbl i r s s'" and I: "core_inv tbl keep s" and g: "vlan_good r"
    and k: "\<And>k. vlan_key r = Some k \<Longrightarrow> vlan_look (dev s) k \<in> {None, Some i}"
    and rows: "dtbl tbl s' 2 i = keep 2 (map_img r)" "vt_reserved r = 0 \<Longrightarrow> dtbl tbl s' 1 i = keep 1 (act_img r)"
  shows "core_inv tbl keep s'"
    "vlan_map (dev s') v = (if vlan_key r = Some v then Some r
       else if vlan_key (VLAN_Table (dev s) ! i) = Some v then None else vlan_map (dev s) v)"
proof -
  note w = core_inv_simps(2) [OF I]
  have i: "i < 64" and d: "dev s' = vlan_put i r (dev s)" using st by (simp_all add: vlan_step_def)
  have w': "vlan_wf (dev s')" unfolding d by (rule vlan_put_wf [OF w i g k])
  have t: "VLAN_Table (vlan_put i r (dev s)) = (VLAN_Table (dev s))[i := r]"
    using w i by (simp add: vlan_wf_def vlan_put_table)
  have "dev_ok (dev s')"
    using I w' unfolding core_inv_def dev_ok_def d
    by (simp add: vlan_put_def IFX_FLOW_VLAN_Table_Entry_Set_def)
  moreover have "vlan_mirror tbl keep s'"
    using I by (intro vlan_step_mirror [OF st _ w rows]) (simp_all add: core_inv_def)
  moreover have "rules_inv tbl keep (pce s')"
  proof (rule rules_inv_frame)
    show "rules_inv tbl keep (pce s)" using I by (simp add: core_inv_def)
    show "driver_tbl tbl (st_hw (pce s')) (tno k) j = driver_tbl tbl (st_hw (pce s)) (tno k) j" for k j
      using st tno_not_vlan [of k] by (simp add: vlan_step_def)
  qed (use st in \<open>simp_all add: vlan_step_def\<close>)
  ultimately show "core_inv tbl keep s'" using w' by (simp add: core_inv_def)
  show "vlan_map (dev s') v = (if vlan_key r = Some v then Some r
       else if vlan_key (VLAN_Table (dev s) ! i) = Some v then None else vlan_map (dev s) v)"
    unfolding d by (rule vlan_map_put [OF w i w' [unfolded d]])
qed

lemma new_vlan_simps [simp]:
  "vlan_key (new_vlan v f) = Some v" "v \<noteq> 0 \<Longrightarrow> vlan_good (new_vlan v f)" "vlan_key zero_vlan = None"
  "vlan_good zero_vlan" "vt_reserved zero_vlan = 0"
  by (simp_all add: new_vlan_def vlan_key_def vlan_good_def zero_vlan_def)

lemma create_inv:
  assumes E: "pce_engine hwstep tbl keep S" and I: "core_inv tbl keep s" and v: "vc_nVId q \<noteq> 0"
  obtains (refused) "vlan_map (dev s) (vc_nVId q) \<noteq> None \<or> (\<forall>i<64. vlan_key (VLAN_Table (dev s) ! i) \<noteq> None)"
      "IFX_FLOW_VLAN_IdCreate hwstep q s = Some (IFX_ERROR, s)"
  | (created) s' where "IFX_FLOW_VLAN_IdCreate hwstep q s = Some (IFX_SUCCESS, s')" "core_inv tbl keep s'"
      "vlan_map (dev s) (vc_nVId q) = None"
      "vlan_map (dev s') = (vlan_map (dev s))(vc_nVId q \<mapsto> new_vlan (vc_nVId q) (vc_nFId q))"
proof (cases rule: create_cases [OF E core_inv_simps(1,2) [OF I] v])
  case 1 then show ?thesis by (intro refused) simp_all
next
  case 2 then show ?thesis by (intro refused) simp_all
next
  case (3 i s')
  let ?r = "new_vlan (vc_nVId q) (vc_nFId q)"
  have k: "vlan_look (dev s) k \<in> {None, Some i}" if "vlan_key ?r = Some k" for k
    using that 3(1) by (auto simp: vlan_map_None)
  have g: "vlan_good ?r" using v by simp
  note st = vlan_step_inv [OF 3(4) I g k 3(6) 3(5)]
  have "core_inv tbl keep s'" by (rule st(1))
  moreover have "vlan_map (dev s') v = (if vlan_key ?r = Some v then Some ?r
      else if vlan_key (VLAN_Table (dev s) ! i) = Some v then None else vlan_map (dev s) v)" for v by (rule st(2))
  ultimately show ?thesis using 3(1-3) by (intro created [of s']) (auto simp: fun_eq_iff)
qed

lemma delete_inv_core:
  assumes E: "pce_engine hwstep tbl keep S" and I: "core_inv tbl keep s" and v: "vd_nVId q \<noteq> 0"
  obtains (refused) "vlan_map (dev s) (vd_nVId q) = None \<or> (\<exists>i<64. vlan_look (dev s) (vd_nVId q) = Some i \<and>
        vlan_act_tbl_cnt (pce_sub_tbl (st_pce (pce s))) ! i \<noteq> 0)"
      "IFX_FLOW_VLAN_IdDelete hwstep q s = Some (IFX_ERROR, s)"
  | (deleted) i s' where "vlan_look (dev s) (vd_nVId q) = Some i"
      "vlan_act_tbl_cnt (pce_sub_tbl (st_pce (pce s))) ! i = 0"
      "IFX_FLOW_VLAN_IdDelete hwstep q s = Some (IFX_SUCCESS, s')" "core_inv tbl keep s'"
      "vlan_map (dev s') = (vlan_map (dev s))(vd_nVId q := None)"
proof (cases rule: delete_cases [OF E core_inv_simps(1,2) [OF I] v])
  case 1 then show ?thesis by (intro refused) simp_all
next
  case 2 then show ?thesis by (intro refused) auto
next
  case (3 i s')
  have key: "vlan_key (VLAN_Table (dev s) ! i) = Some (vd_nVId q)" using vt.look_key [OF core_inv_simps(2) [OF I] 3(1)] by simp
  have rows: "dtbl tbl s' 2 i = keep 2 (map_img zero_vlan)" "dtbl tbl s' 1 i = keep 1 (act_img zero_vlan)"
    using 3(5,6) by simp_all
  have k: "vlan_look (dev s) k \<in> {None, Some i}" if "vlan_key zero_vlan = Some k" for k using that by simp
  note st = vlan_step_inv [OF 3(4) I new_vlan_simps(4) k rows]
  have "core_inv tbl keep s'" by (rule st(1))
  moreover have "vlan_map (dev s') v = (if vlan_key zero_vlan = Some v then Some zero_vlan
      else if vlan_key (VLAN_Table (dev s) ! i) = Some v then None else vlan_map (dev s) v)" for v by (rule st(2))
  ultimately show ?thesis using 3(1-3) key by (intro deleted [of i s']) (auto simp: fun_eq_iff)
qed

lemma member_inv:
  assumes I: "core_inv tbl keep s" and l: "vlan_look (dev s) v = Some i" "VLAN_Table (dev s) ! i = r"
    and st: "vlan_step tbl i r' s s'" and r': "vlan_good r'" "vlan_key r' = Some v" "vt_reserved r' = vt_reserved r"
    and a: "act_img r' = act_img r" "dtbl tbl s' 1 i = dtbl tbl s 1 i" and m: "dtbl tbl s' 2 i = keep 2 (map_img r')"
  shows "core_inv tbl keep s' \<and> vlan_map (dev s') = (vlan_map (dev s))(v \<mapsto> r')"
proof -
  note w = core_inv_simps(2) [OF I]
  have key: "vlan_key r = Some v" and i: "i < 64" using vt.look_key [OF w l(1)] l(2) by simp_all
  have act: "vt_reserved r' = 0 \<Longrightarrow> dtbl tbl s' 1 i = keep 1 (act_img r')"
    using core_inv_simps(4) [OF I] i l(2) r'(3) a by (simp add: vlan_mirror_def Let_def)
  have k: "vlan_look (dev s) k \<in> {None, Some i}" if "vlan_key r' = Some k" for k using that r'(2) l(1) by auto
  note st = vlan_step_inv [OF st I r'(1) k m act]
  have "core_inv tbl keep s'" by (rule st(1))
  moreover have "vlan_map (dev s') v = (if vlan_key r' = Some v then Some r'
      else if vlan_key (VLAN_Table (dev s) ! i) = Some v then None else vlan_map (dev s) v)" for v by (rule st(2))
  ultimately show ?thesis using r'(2) key l(2) by (auto simp: fun_eq_iff)
qed

lemma act_img_member [simp]: "act_img (add_member p b r) = act_img r" "act_img (drop_member p r) = act_img r"
  by (simp_all add: act_img_def add_member_def drop_member_def)

lemma reserved_inv:
  assumes E: "pce_engine hwstep tbl keep S" and I: "core_inv tbl keep s" and v: "vs_nVId q \<noteq> 0"
  obtains (refused) "IFX_FLOW_VLAN_ReservedAdd hwstep q s = Some (IFX_ERROR, s)"
  | (reserved) i r s' where "IFX_FLOW_VLAN_ReservedAdd hwstep q s = Some (IFX_SUCCESS, s')" "core_inv tbl keep s'"
      "vlan_look (dev s) (vs_nVId q) = Some i" "vlan_map (dev s) (vs_nVId q) = Some r"
      "vlan_map (dev s') = (vlan_map (dev s))(vs_nVId q \<mapsto> r\<lparr>vt_reserved := IFX_TRUE\<rparr>)"
      "dtbl tbl s' 1 i = keep 1 (zero_img\<lparr>i_val := [0x100, 0, 0, 0, 0, 0, 0]\<rparr>)"
proof -
  note w = core_inv_simps(2) [OF I]
  consider "vlan_map (dev s) (vs_nVId q) = None"
    | r where "vlan_map (dev s) (vs_nVId q) = Some r" "vt_pm r \<noteq> 0 \<or> vt_tm r \<noteq> 0"
    | r where "vlan_map (dev s) (vs_nVId q) = Some r" "vt_pm r = 0" "vt_tm r = 0"
    by (cases "vlan_map (dev s) (vs_nVId q)") auto
  then show ?thesis
  proof cases
    case 1
    then show ?thesis using index_find [OF w v]
      by (intro refused) (simp_all add: vlan_map_None IFX_FLOW_VLAN_ReservedAdd_def)
  next
    case (2 r)
    then obtain i where i: "i < 64" "vlan_look (dev s) (vs_nVId q) = Some i" "VLAN_Table (dev s) ! i = r"
      using vlan_map_Some [OF w 2(1)] by blast
    then show ?thesis using index_find [OF w v] 2(2)
      by (intro refused) (auto simp: IFX_FLOW_VLAN_ReservedAdd_def u8_index Let_def)
  next
    case (3 r)
    obtain i s' where c: "vlan_look (dev s) (vs_nVId q) = Some i" "VLAN_Table (dev s) ! i = r"
      "IFX_FLOW_VLAN_ReservedAdd hwstep q s = Some (IFX_SUCCESS, s')" "vlan_step tbl i (r\<lparr>vt_reserved := IFX_TRUE\<rparr>) s s'"
      "dtbl tbl s' 1 i = keep 1 (zero_img\<lparr>i_val := [0x100, 0, 0, 0, 0, 0, 0]\<rparr>)" "dtbl tbl s' 2 i = dtbl tbl s 2 i"
      by (rule reserve_cases [OF E core_inv_simps(1,2) [OF I] v 3])
    let ?r = "r\<lparr>vt_reserved := IFX_TRUE\<rparr>"
    have key: "vlan_key r = Some (vs_nVId q)" and i: "i < 64" using vt.look_key [OF w c(1)] c(2) by simp_all
    have good: "vlan_good ?r"
    proof -
      have "vlan_good r" using w i c(2) by (auto simp: vlan_wf_def)
      then show ?thesis using key by (auto simp: vlan_good_def vlan_key_def zero_vlan_def split: if_splits)
    qed
    have k: "vlan_look (dev s) k \<in> {None, Some i}" if "vlan_key ?r = Some k" for k
      using that key c(1) by (auto simp: vlan_key_def split: if_splits)
    have m: "dtbl tbl s' 2 i = keep 2 (map_img ?r)"
      using core_inv_simps(4) [OF I] i c(2,6) by (simp add: vlan_mirror_def Let_def map_img_def)
    have a: "dtbl tbl s' 1 i = keep 1 (act_img ?r)" if "vt_reserved ?r = 0" using that by simp
    note st = vlan_step_inv [OF c(4) I good k m a]
    have "core_inv tbl keep s'" by (rule st(1))
    moreover have "vlan_map (dev s') v = (if vlan_key ?r = Some v then Some ?r
        else if vlan_key (VLAN_Table (dev s) ! i) = Some v then None else vlan_map (dev s) v)" for v by (rule st(2))
    then have "vlan_map (dev s') = (vlan_map (dev s))(vs_nVId q \<mapsto> ?r)"
      using key c(2) by (auto simp: fun_eq_iff vlan_key_def split: if_splits)
    ultimately show ?thesis using c(1,3,5) 3(1) by (intro reserved [of s' i r])
  qed
qed

lemma add_inv:
  assumes V: "vlan_device hwstep tbl keep S" and I: "core_inv tbl keep s" and v: "va_nVId q \<noteq> 0" and g: "length (e_key g) = 16"
  obtains (refused) "va_nPortId q \<ge> nTotalPortNumber (dev s) \<or> vlan_map (dev s) (va_nVId q) = None \<or>
        (\<exists>r. vlan_map (dev s) (va_nVId q) = Some r \<and> vt_reserved r = IFX_TRUE)"
      "IFX_FLOW_VLAN_PortMemberAdd hwstep g q s = Some (IFX_ERROR, s)"
  | (added) r s' where "vlan_map (dev s) (va_nVId q) = Some r" "vt_reserved r \<noteq> IFX_TRUE"
      "IFX_FLOW_VLAN_PortMemberAdd hwstep g q s = Some (IFX_SUCCESS, s')" "core_inv tbl keep s'"
      "vlan_map (dev s') = (vlan_map (dev s))(va_nVId q \<mapsto> add_member (va_nPortId q) (va_bVLAN_TagEgress q \<noteq> 0) r)"
proof (cases rule: add_cases [OF V core_inv_simps(1,2,3) [OF I] v core_inv_simps(4) [OF I] g])
  case 1 then show ?thesis by (rule refused)
next
  case (2 i r s')
  have key: "vlan_key r = Some (va_nVId q)" and i: "i < 64"
    using vt.look_key [OF core_inv_simps(2) [OF I] 2(2)] 2(3) by simp_all
  have g: "vlan_good r" using core_inv_simps(2) [OF I] i 2(3) by (auto simp: vlan_wf_def)
  let ?r = "add_member (va_nPortId q) (va_bVLAN_TagEgress q \<noteq> 0) r"
  have "core_inv tbl keep s' \<and> vlan_map (dev s') = (vlan_map (dev s))(va_nVId q \<mapsto> ?r)"
    by (rule member_inv [OF I 2(2,3,6)])
      (use key member_good [OF key g] 2(7,8) in \<open>simp_all add: member_sel\<close>)
  then show ?thesis using 2 by (intro added [of r s']) (simp_all add: vlan_map_def)
qed

lemma remove_inv:
  assumes V: "vlan_device hwstep tbl keep S" and I: "core_inv tbl keep s" and v: "vr_nVId q \<noteq> 0" and g: "length (e_key g) = 16"
  obtains (refused) "vr_nPortId q \<ge> nTotalPortNumber (dev s) \<or> vlan_map (dev s) (vr_nVId q) = None"
      "IFX_FLOW_VLAN_PortMemberRemove hwstep g q s = Some (IFX_ERROR, s)"
  | (removed) r s' where "vlan_map (dev s) (vr_nVId q) = Some r"
      "IFX_FLOW_VLAN_PortMemberRemove hwstep g q s = Some (IFX_SUCCESS, s')" "core_inv tbl keep s'"
      "vlan_map (dev s') = (vlan_map (dev s))(vr_nVId q \<mapsto> drop_member (vr_nPortId q) r)"
proof (cases rule: remove_cases [OF V core_inv_simps(1,2,3) [OF I] v core_inv_simps(4) [OF I] g])
  case 1 then show ?thesis by (rule refused)
next
  case (2 i r s')
  have key: "vlan_key r = Some (vr_nVId q)" and i: "i < 64"
    using vt.look_key [OF core_inv_simps(2) [OF I] 2(2)] 2(3) by simp_all
  have g: "vlan_good r" using core_inv_simps(2) [OF I] i 2(3) by (auto simp: vlan_wf_def)
  let ?r = "drop_member (vr_nPortId q) r"
  have "core_inv tbl keep s' \<and> vlan_map (dev s') = (vlan_map (dev s))(vr_nVId q \<mapsto> ?r)"
    by (rule member_inv [OF I 2(2,3,5)])
      (use key member_good [OF key g] 2(6,7) in \<open>simp_all add: member_sel\<close>)
  then show ?thesis using 2 by (intro removed [of r s']) (simp_all add: vlan_map_def)
qed

text \<open>Identifier 0 is never created.\<close>

lemma create_zero:
  assumes w: "vlan_wf (dev s)" and v: "vc_nVId q = 0"
  shows "IFX_FLOW_VLAN_IdCreate hwstep q s = Some (IFX_ERROR, s)"
proof (cases rule: empty_find_cases [OF w])
  case 1 then show ?thesis by (simp add: IFX_FLOW_VLAN_IdCreate_def)
next
  case (2 i)
  have "find (\<lambda>j. vc_nVId q = vt_vid (VLAN_Table (dev s) ! j)) [0..<64] \<noteq> None"
    using 2 v by (auto simp: find_None_iff zero_vlan_def)
  then obtain j where "find (\<lambda>j. vc_nVId q = vt_vid (VLAN_Table (dev s) ! j)) [0..<64] = Some j" by blast
  then have "IFX_FLOW_VLAN_Table_Index_Find (dev s) (vc_nVId q) = of_nat j" and "j < 64"
    unfolding IFX_FLOW_VLAN_Table_Index_Find_def by (simp, simp only: find_upt_Some)
  then show ?thesis by (simp add: IFX_FLOW_VLAN_IdCreate_def u8_index)
qed

text \<open>
  The states that creating, deleting and reserving VLANs and changing their members lead to, whatever the handlers
  return. Other requests than to create do not name identifier 0, whose rows are free. A request
  that lifts a reservation is not among them: it clears the row of the VLAN in the device.
\<close>


inductive vlan_reach :: "('p hw \<Rightarrow> 'p hw) \<Rightarrow> 'p core \<Rightarrow> 'p core \<Rightarrow> bool" for hwstep s0 where
  start: "vlan_reach hwstep s0 s0"
| created: "vlan_reach hwstep s0 s \<Longrightarrow> IFX_FLOW_VLAN_IdCreate hwstep q s = Some (e, s') \<Longrightarrow>
    vlan_reach hwstep s0 s'"
| deleted: "vlan_reach hwstep s0 s \<Longrightarrow> vd_nVId r \<noteq> 0 \<Longrightarrow> IFX_FLOW_VLAN_IdDelete hwstep r s = Some (e, s') \<Longrightarrow>
    vlan_reach hwstep s0 s'"
| added: "vlan_reach hwstep s0 s \<Longrightarrow> va_nVId a \<noteq> 0 \<Longrightarrow> length (e_key g) = 16 \<Longrightarrow>
    IFX_FLOW_VLAN_PortMemberAdd hwstep g a s = Some (e, s') \<Longrightarrow> vlan_reach hwstep s0 s'"
| removed: "vlan_reach hwstep s0 s \<Longrightarrow> vr_nVId m \<noteq> 0 \<Longrightarrow> length (e_key g) = 16 \<Longrightarrow>
    IFX_FLOW_VLAN_PortMemberRemove hwstep g m s = Some (e, s') \<Longrightarrow> vlan_reach hwstep s0 s'"
| reserved: "vlan_reach hwstep s0 s \<Longrightarrow> vs_nVId v \<noteq> 0 \<Longrightarrow> IFX_FLOW_VLAN_ReservedAdd hwstep v s = Some (e, s') \<Longrightarrow>
    vlan_reach hwstep s0 s'"

lemma vlan_reach_inv:
  assumes "vlan_reach hwstep s0 s" and V: "vlan_device hwstep tbl keep S" and I: "core_inv tbl keep s0"
  shows "core_inv tbl keep s"
  using assms(1)
proof induction
  case start show ?case by (rule I)
next
  case (created s q e s')
  show ?case
  proof (cases "vc_nVId q = 0")
    case True
    then show ?thesis using created create_zero [OF core_inv_simps(2) [OF created.IH]] by auto
  next
    case False
    show ?thesis by (rule create_inv [OF keeps_stores [OF V] created.IH False]) (use created in auto)
  qed
next
  case (deleted s r e s')
  show ?case by (rule delete_inv_core [OF keeps_stores [OF V] deleted.IH deleted.hyps(2)]) (use deleted in auto)
next
  case (added s a g e s')
  show ?case by (rule add_inv [OF V added.IH added.hyps(2,3)]) (use added in auto)
next
  case (removed s m g e s')
  show ?case by (rule remove_inv [OF V removed.IH removed.hyps(2,3)]) (use removed in auto)
next
  case (reserved s v e s')
  show ?case by (rule reserved_inv [OF keeps_stores [OF V] reserved.IH reserved.hyps(2)]) (use reserved in auto)
qed

section \<open>The VLAN configuration of a port, read back\<close>

text \<open>What the fields of the registers keep of a configuration.\<close>

definition vport_norm :: "IFX_ETHSW_VLAN_portCfg \<Rightarrow> IFX_ETHSW_VLAN_portCfg" where
  "vport_norm q = q\<lparr>vp_bVLAN_UnknownDrop := (if vp_bVLAN_UnknownDrop q = 1 then 1 else 0),
     vp_bVLAN_ReAssign := vp_bVLAN_ReAssign q AND 1,
     vp_eAdmitMode := (if vp_eAdmitMode q \<le> 2 then vp_eAdmitMode q else IFX_ETHSW_VLAN_ADMIT_ALL),
     vp_bTVM := (if vp_bTVM q = 1 then 1 else 0)\<rparr>"

lemma less4_cases: "(v::u32) \<le> 3 \<Longrightarrow> v = 0 \<or> v = 1 \<or> v = 2 \<or> v = 3"
proof -
  assume "v \<le> 3"
  then have "unat v \<le> 3" by (simp add: word_le_nat_alt)
  then have "unat v = 0 \<or> unat v = 1 \<or> unat v = 2 \<or> unat v = 3" by linarith
  then have "unat v = unat (0::u32) \<or> unat v = unat (1::u32) \<or> unat v = unat (2::u32) \<or> unat v = unat (3::u32)" by simp
  then show ?thesis by (simp only: word_eq_iff_unsigned [symmetric])
qed

lemma portcfg_read_back:
  assumes w: "vlan_wf (dev s)" and p: "vp_nPortId q < nTotalPortNumber (dev s)"
    and v: "vp_nPortVId q \<noteq> 0" "vlan_look (dev s) (vp_nPortVId q) = Some i" and m: "vp_eVLAN_MemberViolation q \<le> 3"
    and o: "vp_nPortId o' = vp_nPortId q"
  shows "\<exists>s'. IFX_FLOW_VLAN_PortCfgSet q s = (IFX_SUCCESS, s') \<and> dev s' = dev s \<and>
    IFX_FLOW_VLAN_PortCfgGet g o' s' = (IFX_SUCCESS, vport_norm q)"
proof -
  have i: "i < 64" and key: "vlan_key (VLAN_Table (dev s) ! i) = Some (vp_nPortVId q)"
    using vt.look_key [OF w v(2)] by simp_all
  have f: "IFX_FLOW_VLAN_Table_Index_Find (dev s) (vp_nPortVId q) = of_nat i" using index_find [OF w v(1)] v(2) by simp
  have vid: "vt_vid (VLAN_Table (dev s) ! i) = vp_nPortVId q" using key by (auto simp: vlan_key_def split: if_splits)
  have x: "unat (ucast ((ucast (of_nat i :: u8) :: u32) AND mask 6) :: u8) = i"
    using i by (subst and_mask_small) (simp_all add: u8_index)
  let ?s = "snd (IFX_FLOW_VLAN_PortCfgSet q s)"
  have np: "\<not> nTotalPortNumber (dev s) \<le> vp_nPortId q" using p by (simp add: not_le)
  have set: "IFX_FLOW_VLAN_PortCfgSet q s = (IFX_SUCCESS, ?s)" "dev ?s = dev s"
    using np f i by (simp_all add: IFX_FLOW_VLAN_PortCfgSet_def u8_index Let_def)
  have r: "rd (vport VR9_PCE_DEFPVID_PVID (vp_nPortId q)) ?s = ucast (of_nat i :: u8) AND mask 6"
    "rd (vport VR9_PCE_VCTRL_UVR (vp_nPortId q)) ?s = (if vp_bVLAN_UnknownDrop q = 1 then 1 else 0)"
    "rd (vport VR9_PCE_VCTRL_VSR (vp_nPortId q)) ?s = vp_bVLAN_ReAssign q AND 1"
    "rd (vport VR9_PCE_VCTRL_VIMR (vp_nPortId q)) ?s = (if vp_eVLAN_MemberViolation q \<in> {1, 3} then 1 else 0)"
    "rd (vport VR9_PCE_VCTRL_VEMR (vp_nPortId q)) ?s = (if vp_eVLAN_MemberViolation q \<in> {2, 3} then 1 else 0)"
    "rd (vport VR9_PCE_VCTRL_VINR (vp_nPortId q)) ?s = (if vp_eAdmitMode q = 2 then 1 else if vp_eAdmitMode q = 1 then 2 else 0)"
    "rd (vport VR9_PCE_PCTRL_0_TVM (vp_nPortId q)) ?s = (if vp_bTVM q = 1 then 1 else 0)"
    using np f i less4_cases [OF m]
    by (auto simp: IFX_FLOW_VLAN_PortCfgSet_def u8_index Let_def field_simps_hw mask_eq_simps)
  have adm: "(v::u32) \<le> 2 \<longleftrightarrow> v = 0 \<or> v = 1 \<or> v = 2" for v
  proof -
    have "v \<le> 2 \<Longrightarrow> v \<le> 3 \<and> v \<noteq> 3" by (auto simp: word_le_nat_alt)
    then show ?thesis using less4_cases [of v] by (auto simp: word_le_nat_alt)
  qed
  have "IFX_FLOW_VLAN_PortCfgGet g o' ?s = (IFX_SUCCESS, vport_norm q)"
  proof (rule prod_eqI)
    have np': "\<not> nTotalPortNumber (dev ?s) \<le> vp_nPortId o'" using np set(2) o by simp
    have "fst (IFX_FLOW_VLAN_PortCfgGet g o' ?s) = IFX_SUCCESS"
      unfolding IFX_FLOW_VLAN_PortCfgGet_def Let_def by (simp only: np' if_False fst_conv)
    then show "fst (IFX_FLOW_VLAN_PortCfgGet g o' ?s) = fst (IFX_SUCCESS, vport_norm q)" by simp
    have c: "vp_eVLAN_MemberViolation q = 0 \<or> vp_eVLAN_MemberViolation q = 1 \<or> vp_eVLAN_MemberViolation q = 2 \<or>
        vp_eVLAN_MemberViolation q = 3" by (rule less4_cases [OF m])
    have "snd (IFX_FLOW_VLAN_PortCfgGet g o' ?s) = vport_norm q"
      unfolding IFX_FLOW_VLAN_PortCfgGet_def Let_def
      apply (simp only: if_False snd_conv np')
      apply (simp only: r set(2) entry_get o)
      apply (simp only: np' if_False snd_conv o r set(2) entry_get x vid)
      apply (rule IFX_ETHSW_VLAN_portCfg.equality)
      using c apply (elim disjE; simp add: vport_norm_def o adm)+
      done
    then show "snd (IFX_FLOW_VLAN_PortCfgGet g o' ?s) = snd (IFX_SUCCESS, vport_norm q)" by simp
  qed
  with set show ?thesis by blast
qed

section \<open>Reading the table out\<close>

text \<open>What a call returns of row \<open>i\<close>.\<close>

definition row_info :: "pce_img \<Rightarrow> IFX_ETHSW_VLAN_portMemberRead \<Rightarrow> IFX_ETHSW_VLAN_portMemberRead" where
  "row_info m q = q\<lparr>vm_nVId := i_val m ! 0 AND 0xFFF, vm_nPortId := ucast (i_val m ! 1) OR 0x80000000,
     vm_nTagId := ucast (i_val m ! 2) OR 0x80000000\<rparr>"

lemma member_row_spec:
  assumes E: "pce_engine hwstep tbl keep S" and s: "idle (hw_of s)" and i: "unat (vlan_table_index (dev s)) < 64"
  obtains h g' where "member_row hwstep g q s =
      Some (g', row_info (dtbl tbl s 2 (unat (vlan_table_index (dev s)))) q, upd_hw (\<lambda>_. h) s)"
    "idle h" "driver_tbl tbl h = dtbl tbl s"
proof -
  let ?i = "unat (vlan_table_index (dev s))"
  let ?g = "g\<lparr>e_table := PCE_VLANMAP_INDEX, e_index := ucast (vlan_table_index (dev s))\<rparr>"
  have t: "unat (e_table ?g) = 2" "unat (e_index ?g) = ?i" "?i < pce_table_size 2"
    using i by (simp_all add: pce_table_size_def)
  obtain h where h: "row_read hwstep ?g s = Some (with_img (dtbl tbl s 2 ?i) ?g, upd_hw (\<lambda>_. h) s)" "idle h"
    "driver_tbl tbl h = dtbl tbl s"
    by (rule row_read_spec [OF E s t(1) _ _ t(2,3)]) auto
  have v: "e_val (with_img m ?g) = i_val m" for m by (simp add: with_img_def)
  show ?thesis
    by (rule that [of "with_img (dtbl tbl s 2 ?i) ?g" h])
      (use h in \<open>simp_all add: member_row_def v row_info_def\<close>)
qed

text \<open>The first call reads row 0 and returns row 1.\<close>

lemma first_read:
  assumes E: "pce_engine hwstep tbl keep S" and s: "idle (hw_of s)" and q: "vm_bInitial q = IFX_TRUE"
  obtains s' where "IFX_FLOW_VLAN_PortMemberRead hwstep g q s =
      Some (IFX_SUCCESS, row_info (dtbl tbl s 2 1) (q\<lparr>vm_bInitial := IFX_FALSE, vm_bLast := IFX_FALSE\<rparr>), s')"
    "vlan_table_index (dev s') = 1" "dtbl tbl s' = dtbl tbl s" "idle (hw_of s')"
proof -
  let ?s0 = "upd_dev (\<lambda>d. d\<lparr>vlan_table_index := 0\<rparr>) s"
  have i0: "idle (hw_of ?s0)" "unat (vlan_table_index (dev ?s0)) < 64" using s by simp_all
  obtain h0 g0 where r0: "member_row hwstep g q ?s0 = Some (g0, row_info (dtbl tbl ?s0 2 0) q, upd_hw (\<lambda>_. h0) ?s0)"
    "idle h0" "driver_tbl tbl h0 = dtbl tbl ?s0"
    by (rule member_row_spec [OF E i0]) auto
  let ?q0 = "(row_info (dtbl tbl ?s0 2 0) q)\<lparr>vm_bInitial := IFX_FALSE, vm_bLast := IFX_FALSE\<rparr>"
  let ?s1 = "upd_dev (\<lambda>d. d\<lparr>vlan_table_index := vlan_table_index d + 1\<rparr>) (upd_hw (\<lambda>_. h0) ?s0)"
  have i1: "idle (hw_of ?s1)" "unat (vlan_table_index (dev ?s1)) < 64" using r0 by simp_all
  obtain h1 g1 where r1: "member_row hwstep g0 ?q0 ?s1 = Some (g1, row_info (dtbl tbl ?s1 2 1) ?q0, upd_hw (\<lambda>_. h1) ?s1)"
    "idle h1" "driver_tbl tbl h1 = dtbl tbl ?s1"
    by (rule member_row_spec [OF E i1, of g0 ?q0]) auto
  have qq: "row_info m (row_info m' q\<lparr>vm_bInitial := b, vm_bLast := l\<rparr>) = row_info m (q\<lparr>vm_bInitial := b, vm_bLast := l\<rparr>)" for m m' b l
    by (simp add: row_info_def)
  have d: "dtbl tbl ?s1 = dtbl tbl s" using r0(3) by simp
  show ?thesis
  proof (rule that [of "upd_hw (\<lambda>_. h1) ?s1"])
    show "IFX_FLOW_VLAN_PortMemberRead hwstep g q s = Some (IFX_SUCCESS,
        row_info (dtbl tbl s 2 1) (q\<lparr>vm_bInitial := IFX_FALSE, vm_bLast := IFX_FALSE\<rparr>), upd_hw (\<lambda>_. h1) ?s1)"
      using q r0(1) r1(1) unfolding d qq by (simp add: IFX_FLOW_VLAN_PortMemberRead_def)
  qed (use r1 d in simp_all)
qed

lemma id_get:
  assumes w: "vlan_wf (dev s)" and v: "vg_nVId q \<noteq> 0"
  shows "IFX_FLOW_VLAN_IdGet g q s = (case vlan_map (dev s) (vg_nVId q) of
    None \<Rightarrow> (IFX_ERROR, q) | Some r \<Rightarrow> (IFX_SUCCESS, q\<lparr>vg_nFId := vt_fid r\<rparr>))"
proof (cases "vlan_look (dev s) (vg_nVId q)")
  case None
  then show ?thesis using index_find [OF w v] by (simp add: IFX_FLOW_VLAN_IdGet_def vlan_map_def)
next
  case (Some i)
  then have "i < 64" using vt.look_key [OF w] by blast
  with Some index_find [OF w v] show ?thesis by (simp add: IFX_FLOW_VLAN_IdGet_def vlan_map_def u8_index)
qed


end
