(* ===== verification/Core_Ports.thy ===== *)
theory Core_Ports
  imports Core_VLAN
begin

text \<open>
  The ports, \<^verbatim>\<open>ltq_flow_core.c\<close>: the configuration of a port with the management interface (MDIO) of
  its transceiver, the port state that spanning tree and 802.1X decide together, and the two
  rules they install for their own frames.
\<close>

unbundle bit_operations_syntax

section \<open>Parameters\<close>

record IFX_ETHSW_portCfg =
  pg_nPortId :: u8
  pg_eEnable :: u32
  pg_bUnicastUnknownDrop :: u32
  pg_bMulticastUnknownDrop :: u32
  pg_bReservedPacketDrop :: u32
  pg_bBroadcastDrop :: u32
  pg_bAging :: u32
  pg_bLearning :: u32
  pg_bLearningMAC_PortLock :: u32
  pg_nLearningLimit :: u16
  pg_bMAC_SpoofingDetection :: u32
  pg_eFlowCtrl :: u32
  pg_ePortMonitor :: u32

record IFX_ETHSW_STP_portCfg =
  sp_nPortId :: u8
  sp_nFId :: u32
  sp_ePortState :: u32

record IFX_ETHSW_8021X_portCfg =
  xp_nPortId :: u32
  xp_eState :: u32

record IFX_ETHSW_STP_BPDU_Rule =
  sb_eForwardPort :: u32
  sb_nForwardPortId :: u8

record IFX_ETHSW_8021X_EAPOL_Rule =
  xe_eForwardPort :: u32
  xe_nForwardPortId :: u8

record IFX_ETHSW_MDIO_data =
  md_nAddressDev :: u8
  md_nAddressReg :: u8
  md_nData :: u16

record IFX_ETHSW_MDIO_cfg =
  mc_nMDIO_Speed :: u32
  mc_bMDIO_Enable :: u32

abbreviation (input) IFX_ETHSW_STP_PORT_STATE_FORWARD :: u32 where "IFX_ETHSW_STP_PORT_STATE_FORWARD \<equiv> 0"
abbreviation (input) IFX_ETHSW_STP_PORT_STATE_DISABLE :: u32 where "IFX_ETHSW_STP_PORT_STATE_DISABLE \<equiv> 1"
abbreviation (input) IFX_ETHSW_STP_PORT_STATE_LEARNING :: u32 where "IFX_ETHSW_STP_PORT_STATE_LEARNING \<equiv> 2"
abbreviation (input) IFX_ETHSW_STP_PORT_STATE_BLOCKING :: u32 where "IFX_ETHSW_STP_PORT_STATE_BLOCKING \<equiv> 3"

abbreviation (input) IFX_ETHSW_8021X_PORT_STATE_AUTHORIZED :: u32 where "IFX_ETHSW_8021X_PORT_STATE_AUTHORIZED \<equiv> 0"
abbreviation (input) IFX_ETHSW_8021X_PORT_STATE_UNAUTHORIZED :: u32 where "IFX_ETHSW_8021X_PORT_STATE_UNAUTHORIZED \<equiv> 1"
abbreviation (input) IFX_ETHSW_8021X_PORT_STATE_RX_AUTHORIZED :: u32 where "IFX_ETHSW_8021X_PORT_STATE_RX_AUTHORIZED \<equiv> 2"
abbreviation (input) IFX_ETHSW_8021X_PORT_STATE_TX_AUTHORIZED :: u32 where "IFX_ETHSW_8021X_PORT_STATE_TX_AUTHORIZED \<equiv> 3"

abbreviation (input) IFX_ETHSW_PORT_DISABLE :: u32 where "IFX_ETHSW_PORT_DISABLE \<equiv> 0"
abbreviation (input) IFX_ETHSW_PORT_ENABLE_RXTX :: u32 where "IFX_ETHSW_PORT_ENABLE_RXTX \<equiv> 1"
abbreviation (input) IFX_ETHSW_PORT_ENABLE_RX :: u32 where "IFX_ETHSW_PORT_ENABLE_RX \<equiv> 2"
abbreviation (input) IFX_ETHSW_PORT_ENABLE_TX :: u32 where "IFX_ETHSW_PORT_ENABLE_TX \<equiv> 3"

abbreviation (input) IFX_ETHSW_PORT_MONITOR_NONE :: u32 where "IFX_ETHSW_PORT_MONITOR_NONE \<equiv> 0"
abbreviation (input) IFX_ETHSW_PORT_MONITOR_RX :: u32 where "IFX_ETHSW_PORT_MONITOR_RX \<equiv> 1"
abbreviation (input) IFX_ETHSW_PORT_MONITOR_TX :: u32 where "IFX_ETHSW_PORT_MONITOR_TX \<equiv> 2"
abbreviation (input) IFX_ETHSW_PORT_MONITOR_RXTX :: u32 where "IFX_ETHSW_PORT_MONITOR_RXTX \<equiv> 3"
abbreviation (input) IFX_ETHSW_PORT_MONITOR_VLAN_UNKNOWN :: u32 where "IFX_ETHSW_PORT_MONITOR_VLAN_UNKNOWN \<equiv> 4"
abbreviation (input) IFX_ETHSW_PORT_MONITOR_VLAN_MEMBERSHIP :: u32 where "IFX_ETHSW_PORT_MONITOR_VLAN_MEMBERSHIP \<equiv> 16"
abbreviation (input) IFX_ETHSW_PORT_MONITOR_PORT_STATE :: u32 where "IFX_ETHSW_PORT_MONITOR_PORT_STATE \<equiv> 32"
abbreviation (input) IFX_ETHSW_PORT_MONITOR_LEARNING_LIMIT :: u32 where "IFX_ETHSW_PORT_MONITOR_LEARNING_LIMIT \<equiv> 64"
abbreviation (input) IFX_ETHSW_PORT_MONITOR_PORT_LOCK :: u32 where "IFX_ETHSW_PORT_MONITOR_PORT_LOCK \<equiv> 128"

abbreviation (input) IFX_ETHSW_FLOW_AUTO :: u32 where "IFX_ETHSW_FLOW_AUTO \<equiv> 0"
abbreviation (input) IFX_ETHSW_FLOW_RX :: u32 where "IFX_ETHSW_FLOW_RX \<equiv> 1"
abbreviation (input) IFX_ETHSW_FLOW_TX :: u32 where "IFX_ETHSW_FLOW_TX \<equiv> 2"
abbreviation (input) IFX_ETHSW_FLOW_RXTX :: u32 where "IFX_ETHSW_FLOW_RXTX \<equiv> 3"
abbreviation (input) IFX_ETHSW_FLOW_OFF :: u32 where "IFX_ETHSW_FLOW_OFF \<equiv> 4"

abbreviation (input) VR9_PCE_PCTRL_1_LRNLIM :: field where "VR9_PCE_PCTRL_1_LRNLIM \<equiv> (0x481, 0, 8)"
abbreviation (input) VR9_PCE_PCTRL_0_PSTATE :: field where "VR9_PCE_PCTRL_0_PSTATE \<equiv> (0x480, 0, 3)"
abbreviation (input) VR9_SDMA_PCTRL_PEN :: field where "VR9_SDMA_PCTRL_PEN \<equiv> (0xBC0, 0, 1)"
abbreviation (input) VR9_FDMA_PCTRL_EN :: field where "VR9_FDMA_PCTRL_EN \<equiv> (0xA80, 0, 1)"
abbreviation (input) VR9_PCE_PCTRL_0_PLOCK :: field where "VR9_PCE_PCTRL_0_PLOCK \<equiv> (0x480, 4, 1)"
abbreviation (input) VR9_PCE_PCTRL_0_AGEDIS :: field where "VR9_PCE_PCTRL_0_AGEDIS \<equiv> (0x480, 3, 1)"
abbreviation (input) GSWIP_PCE_PCTRL_3_LNDIS :: field where "GSWIP_PCE_PCTRL_3_LNDIS \<equiv> (0x483, 15, 1)"
abbreviation (input) GSWIP_PCE_PCTRL_0_SPFDIS :: field where "GSWIP_PCE_PCTRL_0_SPFDIS \<equiv> (0x480, 14, 1)"
abbreviation (input) VR9_PCE_PMAP_3_UUCMAP :: field where "VR9_PCE_PMAP_3_UUCMAP \<equiv> (0x455, 0, 16)"
abbreviation (input) VR9_PCE_PMAP_2_DMCPMAP :: field where "VR9_PCE_PMAP_2_DMCPMAP \<equiv> (0x454, 0, 16)"
abbreviation (input) VR9_PCE_PCTRL_3_RXVMIR :: field where "VR9_PCE_PCTRL_3_RXVMIR \<equiv> (0x483, 9, 1)"
abbreviation (input) VR9_PCE_PCTRL_3_TXMIR :: field where "VR9_PCE_PCTRL_3_TXMIR \<equiv> (0x483, 8, 1)"
abbreviation (input) VR9_MAC_PSTAT_TXPAUEN :: field where "VR9_MAC_PSTAT_TXPAUEN \<equiv> (0x900, 4, 1)"
abbreviation (input) VR9_MDC_CFG_0_PEN_0 :: field where "VR9_MDC_CFG_0_PEN_0 \<equiv> (0x00B, 0, 1)"
abbreviation (input) VR9_MDIO_STAT_0_PACT :: field where "VR9_MDIO_STAT_0_PACT \<equiv> (0x016, 6, 1)"
abbreviation (input) VR9_PHY_ADDR_0_ADDR :: field where "VR9_PHY_ADDR_0_ADDR \<equiv> (0x015, 0, 5)"
abbreviation (input) VR9_MAC_CTRL_0_FCON :: field where "VR9_MAC_CTRL_0_FCON \<equiv> (0x903, 4, 3)"
abbreviation (input) VR9_PHY_ADDR_0_FCONTX :: field where "VR9_PHY_ADDR_0_FCONTX \<equiv> (0x015, 7, 2)"
abbreviation (input) VR9_PHY_ADDR_0_FCONRX :: field where "VR9_PHY_ADDR_0_FCONRX \<equiv> (0x015, 5, 2)"
abbreviation (input) VR9_MDC_CFG_1_MCEN :: field where "VR9_MDC_CFG_1_MCEN \<equiv> (0x00C, 8, 1)"
abbreviation (input) VR9_MDIO_CTRL_MBUSY :: field where "VR9_MDIO_CTRL_MBUSY \<equiv> (0x008, 12, 1)"
abbreviation (input) VR9_MDIO_READ_RDATA :: field where "VR9_MDIO_READ_RDATA \<equiv> (0x009, 0, 16)"
abbreviation (input) VR9_MDIO_WRITE_WDATA :: field where "VR9_MDIO_WRITE_WDATA \<equiv> (0x00A, 0, 16)"

abbreviation (input) IFX_FLOW_PORT_STATE_LISTENING_ONLY :: u8 where "IFX_FLOW_PORT_STATE_LISTENING_ONLY \<equiv> 0"
abbreviation (input) IFX_FLOW_PORT_STATE_RX_ENABLE_TX_DISABLE :: u8 where "IFX_FLOW_PORT_STATE_RX_ENABLE_TX_DISABLE \<equiv> 1"
abbreviation (input) IFX_FLOW_PORT_STATE_RX_DISABLE_TX_ENABLE :: u8 where "IFX_FLOW_PORT_STATE_RX_DISABLE_TX_ENABLE \<equiv> 2"
abbreviation (input) IFX_FLOW_PORT_STATE_LEARNING :: u8 where "IFX_FLOW_PORT_STATE_LEARNING \<equiv> 4"
abbreviation (input) IFX_FLOW_PORT_STATE_FORWARDING_ENABLE :: u8 where "IFX_FLOW_PORT_STATE_FORWARDING_ENABLE \<equiv> 7"

section \<open>The port state\<close>

record PORT_STATE =
  ps_stp :: u32
  ps_8021x :: u32
  ps_pen :: u8
  ps_pstate :: u8
  ps_lrnlim :: u8

definition port_state_table :: "PORT_STATE list" where
  "port_state_table = [
     \<lparr>ps_stp = IFX_ETHSW_STP_PORT_STATE_FORWARD, ps_8021x = IFX_ETHSW_8021X_PORT_STATE_AUTHORIZED, ps_pen = 1, ps_pstate = IFX_FLOW_PORT_STATE_FORWARDING_ENABLE, ps_lrnlim = 1\<rparr>,
     \<lparr>ps_stp = IFX_ETHSW_STP_PORT_STATE_FORWARD, ps_8021x = IFX_ETHSW_8021X_PORT_STATE_UNAUTHORIZED, ps_pen = 1, ps_pstate = IFX_FLOW_PORT_STATE_LISTENING_ONLY, ps_lrnlim = 1\<rparr>,
     \<lparr>ps_stp = IFX_ETHSW_STP_PORT_STATE_FORWARD, ps_8021x = IFX_ETHSW_8021X_PORT_STATE_RX_AUTHORIZED, ps_pen = 1, ps_pstate = IFX_FLOW_PORT_STATE_RX_ENABLE_TX_DISABLE, ps_lrnlim = 1\<rparr>,
     \<lparr>ps_stp = IFX_ETHSW_STP_PORT_STATE_FORWARD, ps_8021x = IFX_ETHSW_8021X_PORT_STATE_TX_AUTHORIZED, ps_pen = 1, ps_pstate = IFX_FLOW_PORT_STATE_RX_DISABLE_TX_ENABLE, ps_lrnlim = 1\<rparr>,
     \<lparr>ps_stp = IFX_ETHSW_STP_PORT_STATE_DISABLE, ps_8021x = IFX_ETHSW_8021X_PORT_STATE_AUTHORIZED, ps_pen = 0, ps_pstate = IFX_FLOW_PORT_STATE_LISTENING_ONLY, ps_lrnlim = 0\<rparr>,
     \<lparr>ps_stp = IFX_ETHSW_STP_PORT_STATE_DISABLE, ps_8021x = IFX_ETHSW_8021X_PORT_STATE_UNAUTHORIZED, ps_pen = 0, ps_pstate = IFX_FLOW_PORT_STATE_LISTENING_ONLY, ps_lrnlim = 0\<rparr>,
     \<lparr>ps_stp = IFX_ETHSW_STP_PORT_STATE_DISABLE, ps_8021x = IFX_ETHSW_8021X_PORT_STATE_RX_AUTHORIZED, ps_pen = 0, ps_pstate = IFX_FLOW_PORT_STATE_LISTENING_ONLY, ps_lrnlim = 0\<rparr>,
     \<lparr>ps_stp = IFX_ETHSW_STP_PORT_STATE_DISABLE, ps_8021x = IFX_ETHSW_8021X_PORT_STATE_TX_AUTHORIZED, ps_pen = 0, ps_pstate = IFX_FLOW_PORT_STATE_LISTENING_ONLY, ps_lrnlim = 0\<rparr>,
     \<lparr>ps_stp = IFX_ETHSW_STP_PORT_STATE_LEARNING, ps_8021x = IFX_ETHSW_8021X_PORT_STATE_AUTHORIZED, ps_pen = 1, ps_pstate = IFX_FLOW_PORT_STATE_LEARNING, ps_lrnlim = 1\<rparr>,
     \<lparr>ps_stp = IFX_ETHSW_STP_PORT_STATE_LEARNING, ps_8021x = IFX_ETHSW_8021X_PORT_STATE_UNAUTHORIZED, ps_pen = 1, ps_pstate = IFX_FLOW_PORT_STATE_LEARNING, ps_lrnlim = 1\<rparr>,
     \<lparr>ps_stp = IFX_ETHSW_STP_PORT_STATE_LEARNING, ps_8021x = IFX_ETHSW_8021X_PORT_STATE_RX_AUTHORIZED, ps_pen = 1, ps_pstate = IFX_FLOW_PORT_STATE_LEARNING, ps_lrnlim = 1\<rparr>,
     \<lparr>ps_stp = IFX_ETHSW_STP_PORT_STATE_LEARNING, ps_8021x = IFX_ETHSW_8021X_PORT_STATE_TX_AUTHORIZED, ps_pen = 1, ps_pstate = IFX_FLOW_PORT_STATE_LEARNING, ps_lrnlim = 1\<rparr>,
     \<lparr>ps_stp = IFX_ETHSW_STP_PORT_STATE_BLOCKING, ps_8021x = IFX_ETHSW_8021X_PORT_STATE_AUTHORIZED, ps_pen = 1, ps_pstate = IFX_FLOW_PORT_STATE_LISTENING_ONLY, ps_lrnlim = 0\<rparr>,
     \<lparr>ps_stp = IFX_ETHSW_STP_PORT_STATE_BLOCKING, ps_8021x = IFX_ETHSW_8021X_PORT_STATE_UNAUTHORIZED, ps_pen = 1, ps_pstate = IFX_FLOW_PORT_STATE_LISTENING_ONLY, ps_lrnlim = 0\<rparr>,
     \<lparr>ps_stp = IFX_ETHSW_STP_PORT_STATE_BLOCKING, ps_8021x = IFX_ETHSW_8021X_PORT_STATE_RX_AUTHORIZED, ps_pen = 1, ps_pstate = IFX_FLOW_PORT_STATE_LISTENING_ONLY, ps_lrnlim = 0\<rparr>,
     \<lparr>ps_stp = IFX_ETHSW_STP_PORT_STATE_BLOCKING, ps_8021x = IFX_ETHSW_8021X_PORT_STATE_TX_AUTHORIZED, ps_pen = 1, ps_pstate = IFX_FLOW_PORT_STATE_LISTENING_ONLY, ps_lrnlim = 0\<rparr>]"

text \<open>The registers of port \<open>p\<close>, \<open>stride\<close> words apart.\<close>

abbreviation (input) preg :: "field \<Rightarrow> 16 word \<Rightarrow> u8 \<Rightarrow> field" where
  "preg F stride p \<equiv> at F (stride * ucast p)"

definition set_port_state :: "u8 \<Rightarrow> u32 \<Rightarrow> u32 \<Rightarrow> 'p core \<Rightarrow> 'p core" where
  "set_port_state PortID stp_state x_state =
     fold (\<lambda>pTable s.
       if ps_stp pTable = stp_state \<and> ps_8021x pTable = x_state then
         (let s = upd_dev (upd_port (unat PortID) (\<lambda>c. c\<lparr>bPortEnable := ucast (ps_pen pTable),
                    nPortState := ucast (ps_pstate pTable)\<rparr>)) s;
              c = PortConfig (dev s) ! unat PortID;
              s = (if ps_lrnlim pTable = 0 then wr (preg VR9_PCE_PCTRL_1_LRNLIM 0xA PortID) 0 s
                   else wr (preg VR9_PCE_PCTRL_1_LRNLIM 0xA PortID) (ucast (nLearningLimit c)) s);
              s = wr (preg VR9_PCE_PCTRL_0_PSTATE 0xA PortID) (ucast (nPortState c)) s
          in wr (preg VR9_SDMA_PCTRL_PEN 0xA PortID) (bPortEnable c) s)
       else s) port_state_table"

definition IFX_FLOW_STP_PortCfgGet :: "IFX_ETHSW_STP_portCfg \<Rightarrow> 'p core \<Rightarrow> int \<times> IFX_ETHSW_STP_portCfg" where
  "IFX_FLOW_STP_PortCfgGet q s =
     (if sp_nPortId q \<ge> nTotalPortNumber (dev s) then (IFX_ERROR, q)
      else (IFX_SUCCESS, q\<lparr>sp_ePortState := ifx_stp_state (PortConfig (dev s) ! unat (sp_nPortId q))\<rparr>))"

definition IFX_FLOW_STP_PortCfgSet :: "IFX_ETHSW_STP_portCfg \<Rightarrow> 'p core \<Rightarrow> int \<times> 'p core" where
  "IFX_FLOW_STP_PortCfgSet q s =
     (let p = sp_nPortId q
      in if p \<ge> nTotalPortNumber (dev s) then (IFX_ERROR, s)
      else let s = upd_dev (upd_port (unat p) (\<lambda>c. c\<lparr>ifx_stp_state := sp_ePortState q\<rparr>)) s;
               c = PortConfig (dev s) ! unat p
      in (IFX_SUCCESS, set_port_state p (ifx_stp_state c) (ifx_8021x_state c) s))"

text \<open>The port number of this request has 32 bits; past the check it fits in eight.\<close>

definition IFX_FLOW_8021X_PortCfgGet :: "IFX_ETHSW_8021X_portCfg \<Rightarrow> 'p core \<Rightarrow> int \<times> IFX_ETHSW_8021X_portCfg" where
  "IFX_FLOW_8021X_PortCfgGet q s =
     (if xp_nPortId q \<ge> ucast (nTotalPortNumber (dev s)) then (IFX_ERROR, q)
      else (IFX_SUCCESS, q\<lparr>xp_eState := ifx_8021x_state (PortConfig (dev s) ! unat (xp_nPortId q))\<rparr>))"

definition IFX_FLOW_8021X_PortCfgSet :: "IFX_ETHSW_8021X_portCfg \<Rightarrow> 'p core \<Rightarrow> int \<times> 'p core" where
  "IFX_FLOW_8021X_PortCfgSet q s =
     (if xp_nPortId q \<ge> ucast (nTotalPortNumber (dev s)) then (IFX_ERROR, s)
      else let p = ucast (xp_nPortId q);
               s = upd_dev (upd_port (unat p) (\<lambda>c. c\<lparr>ifx_8021x_state := xp_eState q\<rparr>)) s;
               c = PortConfig (dev s) ! unat p
      in (IFX_SUCCESS, set_port_state p (ifx_stp_state c) (ifx_8021x_state c) s))"

section \<open>The rules for BPDUs and for EAPOL frames\<close>

text \<open>The values of \<^verbatim>\<open>IFX_FLOW_PCE_ActionPortmap_t\<close>; \<open>set_portmap\<close> is the guarded assignment both handlers make.\<close>

definition portmap_of :: "u32 \<Rightarrow> ActionPortmap" where
  "portmap_of n = (if n = 0 then PORTMAP_DISABLE else if n = 1 then PORTMAP_REGULAR
     else if n = 2 then PORTMAP_DISCARD else if n = 3 then PORTMAP_CPU else if n = 4 then PORTMAP_ALTERNATIVE
     else if n = 5 then PORTMAP_MULTICAST_ROUTER else PORTMAP_MULTICAST_HW_TABLE)"

definition set_portmap :: "u32 \<Rightarrow> IFX_FLOW_PCE_action \<Rightarrow> IFX_FLOW_PCE_action" where
  "set_portmap f a = (if f < 4 \<and> f > 0 then a\<lparr>ePortMapAction := portmap_of (f + 1)\<rparr> else a)"

definition bpdu_rule :: "IFX_FLOW_STP_8021X \<Rightarrow> IFX_FLOW_PCE_rule" where
  "bpdu_rule c = \<lparr>pattern = zero_pattern\<lparr>nIndex := 61, bEnable := True, bMAC_DstEnable := True,
       nMAC_Dst := [0x01, 0x80, 0xC2, 0x00, 0x00, 0x00]\<rparr>,
     action = (set_portmap (eSTPPortState c) (zero_action\<lparr>eCrossStateAction := CROSS_STATE_CROSS\<rparr>))
       \<lparr>nForwardPortMap := push_bit (unat (nSTP_PortID c) mod 32) 1\<rparr>\<rparr>"

text \<open>The garbage \<open>g\<close> is that of the rule writer's locals.\<close>

definition rule_write :: "('p hw \<Rightarrow> 'p hw) \<Rightarrow> garbage \<Rightarrow> IFX_FLOW_PCE_rule \<Rightarrow> 'p core \<Rightarrow> (int \<times> 'p core) option" where
  "rule_write hwstep g r s =
     map_option (\<lambda>(e, P). (if e \<noteq> 0 then IFX_ERROR else IFX_SUCCESS, s\<lparr>pce := P\<rparr>)) (ifx_pce_rule_write hwstep g r (pce s))"

definition IFX_FLOW_STP_BPDU_RuleGet :: "IFX_ETHSW_STP_BPDU_Rule \<Rightarrow> 'p core \<Rightarrow> int \<times> IFX_ETHSW_STP_BPDU_Rule" where
  "IFX_FLOW_STP_BPDU_RuleGet q s = (IFX_SUCCESS, q\<lparr>sb_eForwardPort := eSTPPortState (STP_8021x_Config (dev s)),
     sb_nForwardPortId := ucast (nSTP_PortID (STP_8021x_Config (dev s)))\<rparr>)"

definition IFX_FLOW_STP_BPDU_RuleSet ::
  "('p hw \<Rightarrow> 'p hw) \<Rightarrow> garbage \<Rightarrow> IFX_ETHSW_STP_BPDU_Rule \<Rightarrow> 'p core \<Rightarrow> (int \<times> 'p core) option" where
  "IFX_FLOW_STP_BPDU_RuleSet hwstep g q s =
     (let s = upd_dev (\<lambda>d. d\<lparr>STP_8021x_Config := (STP_8021x_Config d)\<lparr>eSTPPortState := sb_eForwardPort q,
                nSTP_PortID := ucast (sb_nForwardPortId q)\<rparr>\<rparr>) s
      in rule_write hwstep g (bpdu_rule (STP_8021x_Config (dev s))) s)"

definition eapol_rule :: "IFX_FLOW_STP_8021X \<Rightarrow> u8 \<Rightarrow> IFX_FLOW_PCE_rule" where
  "eapol_rule c portId = \<lparr>pattern = zero_pattern\<lparr>nIndex := 60, bEnable := True, bMAC_DstEnable := True,
       nMAC_Dst := [0x01, 0x80, 0xC2, 0x00, 0x00, 0x03], bEtherTypeEnable := True, nEtherType := 0x888E\<rparr>,
     action = (set_portmap (eForwardPort c) (zero_action\<lparr>eCrossStateAction := CROSS_STATE_CROSS\<rparr>))
       \<lparr>nForwardPortMap := push_bit (unat portId mod 32) 1\<rparr>\<rparr>"

definition IFX_FLOW_8021X_EAPOL_RuleGet :: "IFX_ETHSW_8021X_EAPOL_Rule \<Rightarrow> 'p core \<Rightarrow> int \<times> IFX_ETHSW_8021X_EAPOL_Rule" where
  "IFX_FLOW_8021X_EAPOL_RuleGet q s = (IFX_SUCCESS, q\<lparr>xe_eForwardPort := eForwardPort (STP_8021x_Config (dev s)),
     xe_nForwardPortId := n8021X_ForwardPortId (STP_8021x_Config (dev s))\<rparr>)"

definition IFX_FLOW_8021X_EAPOL_RuleSet ::
  "('p hw \<Rightarrow> 'p hw) \<Rightarrow> garbage \<Rightarrow> IFX_ETHSW_8021X_EAPOL_Rule \<Rightarrow> 'p core \<Rightarrow> (int \<times> 'p core) option" where
  "IFX_FLOW_8021X_EAPOL_RuleSet hwstep g q s =
     (let s = upd_dev (\<lambda>d. d\<lparr>STP_8021x_Config := (STP_8021x_Config d)\<lparr>eForwardPort := xe_eForwardPort q,
                n8021X_ForwardPortId := xe_nForwardPortId q\<rparr>\<rparr>) s
      in rule_write hwstep g (eapol_rule (STP_8021x_Config (dev s)) (xe_nForwardPortId q)) s)"

section \<open>The MDIO interface\<close>

text \<open>
  The polling loop \<^verbatim>\<open>while (value == 1)\<close> on the one-bit busy flag. The driver does not set the flag:
  the device does when the command register is written, and \<open>mdio\<close> is what it does then.
\<close>

abbreviation (input) MDIO_BUSY :: field where "MDIO_BUSY \<equiv> at VR9_MDIO_CTRL_MBUSY IFX_ETHSW_FLOW_TOP_REG_OFFSET"
abbreviation (input) MDIO_CTRL :: field where "MDIO_CTRL \<equiv> at (0x008, 0, 16) IFX_ETHSW_FLOW_TOP_REG_OFFSET"

definition mdio_wait :: "('p hw \<Rightarrow> 'p hw) \<Rightarrow> 'p core \<Rightarrow> 'p core option" where
  "mdio_wait hwstep s = map_option (\<lambda>h. upd_hw (\<lambda>_. h) s) (poll hwstep MDIO_BUSY (hw_of s))"

definition mdio_cmd :: "u32 \<Rightarrow> IFX_ETHSW_MDIO_data \<Rightarrow> u32" where
  "mdio_cmd op q = push_bit 10 op OR push_bit 5 (ucast (md_nAddressDev q) AND 0x1F) OR (ucast (md_nAddressReg q) AND 0x1F)"

definition IFX_FLOW_MDIO_DataRead ::
  "('p hw \<Rightarrow> 'p hw) \<Rightarrow> ('p hw \<Rightarrow> 'p hw) \<Rightarrow> IFX_ETHSW_MDIO_data \<Rightarrow> 'p core \<Rightarrow> (IFX_ETHSW_MDIO_data \<times> 'p core) option" where
  "IFX_FLOW_MDIO_DataRead hwstep mdio q s = do {
     s \<leftarrow> mdio_wait hwstep s;
     let s = upd_hw mdio (wr MDIO_CTRL (mdio_cmd 0x2 q) s);
     s \<leftarrow> mdio_wait hwstep s;
     let value = rd (at VR9_MDIO_READ_RDATA IFX_ETHSW_FLOW_TOP_REG_OFFSET) s;
     Some (q\<lparr>md_nData := ucast (value AND 0xFFFF)\<rparr>, s) }"

definition IFX_FLOW_MDIO_DataWrite ::
  "('p hw \<Rightarrow> 'p hw) \<Rightarrow> ('p hw \<Rightarrow> 'p hw) \<Rightarrow> IFX_ETHSW_MDIO_data \<Rightarrow> 'p core \<Rightarrow> 'p core option" where
  "IFX_FLOW_MDIO_DataWrite hwstep mdio q s = do {
     s \<leftarrow> mdio_wait hwstep s;
     let s = wr (at VR9_MDIO_WRITE_WDATA IFX_ETHSW_FLOW_TOP_REG_OFFSET) (ucast (md_nData q) AND 0xFFFF) s;
     let s = upd_hw mdio (wr MDIO_CTRL (mdio_cmd 0x1 q) s);
     mdio_wait hwstep s }"

definition IFX_FLOW_MDIO_CfgGet :: "IFX_ETHSW_MDIO_cfg \<Rightarrow> 'p core \<Rightarrow> int \<times> IFX_ETHSW_MDIO_cfg" where
  "IFX_FLOW_MDIO_CfgGet q s =
     (let speed = rd (at VR9_MDC_CFG_1_FREQ IFX_ETHSW_FLOW_TOP_REG_OFFSET) s AND 0xFF;
          value = rd (at VR9_MDC_CFG_1_MCEN IFX_ETHSW_FLOW_TOP_REG_OFFSET) s
      in (IFX_SUCCESS, q\<lparr>mc_nMDIO_Speed := speed, mc_bMDIO_Enable := (if value = 1 then 1 else 0)\<rparr>))"

definition IFX_FLOW_MDIO_CfgSet :: "IFX_ETHSW_MDIO_cfg \<Rightarrow> 'p core \<Rightarrow> int \<times> 'p core" where
  "IFX_FLOW_MDIO_CfgSet q s =
     (let s = wr (at VR9_MDC_CFG_1_FREQ IFX_ETHSW_FLOW_TOP_REG_OFFSET) (mc_nMDIO_Speed q) s;
          value = (if mc_bMDIO_Enable q \<noteq> 0 then 0x3F else 0);
          s = wr (at (0x00B, 0, 6) IFX_ETHSW_FLOW_TOP_REG_OFFSET) value s;
          s = wr (at VR9_MDC_CFG_1_MCEN IFX_ETHSW_FLOW_TOP_REG_OFFSET) (mc_bMDIO_Enable q) s
      in (IFX_SUCCESS, s))"

section \<open>The configuration of a port\<close>

definition IFX_FLOW_PortCfgGet :: "IFX_ETHSW_portCfg \<Rightarrow> 'p core \<Rightarrow> int \<times> IFX_ETHSW_portCfg" where
  "IFX_FLOW_PortCfgGet q s =
     (let p = pg_nPortId q
      in if p \<ge> nTotalPortNumber (dev s) then (IFX_ERROR, q)
      else let PEN = rd (preg VR9_SDMA_PCTRL_PEN 0x6 p) s;
               EN = rd (preg VR9_FDMA_PCTRL_EN 0x6 p) s;
               q = q\<lparr>pg_eEnable := (if p \<ge> nPortNumber (dev s) then 1
                      else if PEN = 1 \<and> EN = 1 then IFX_ETHSW_PORT_ENABLE_RXTX
                      else if PEN = 1 \<and> EN = 0 then IFX_ETHSW_PORT_ENABLE_RX
                      else if PEN = 0 \<and> EN = 1 then IFX_ETHSW_PORT_ENABLE_TX
                      else IFX_ETHSW_PORT_DISABLE)\<rparr>;
               q = q\<lparr>pg_nLearningLimit := ucast (rd (preg VR9_PCE_PCTRL_1_LRNLIM 0xA p) s)\<rparr>;
               q = q\<lparr>pg_bLearningMAC_PortLock := rd (preg VR9_PCE_PCTRL_0_PLOCK 0xA p) s\<rparr>;
               q = q\<lparr>pg_bAging := rd VR9_PCE_PCTRL_0_AGEDIS s\<rparr>;
               q = (if GSWIP_Ver (dev s) = LTQ_GSWIP_2_2
                    then q\<lparr>pg_bLearning := rd (preg GSWIP_PCE_PCTRL_3_LNDIS 0xA p) s,
                           pg_bMAC_SpoofingDetection := rd (preg GSWIP_PCE_PCTRL_0_SPFDIS 0xA p) s\<rparr>
                    else q);
               value = rd VR9_PCE_PMAP_3_UUCMAP s;
               q = q\<lparr>pg_bUnicastUnknownDrop := (if value AND push_bit (unat p) 1 = 0 then 1 else 0)\<rparr>;
               value = rd VR9_PCE_PMAP_2_DMCPMAP s;
               d = (if value AND push_bit (unat p) 1 = 0 then 1 else 0);
               q = q\<lparr>pg_bMulticastUnknownDrop := d, pg_bBroadcastDrop := d\<rparr>;
               q = q\<lparr>pg_bReservedPacketDrop := 0\<rparr>;
               rx = rd (preg VR9_PCE_PCTRL_3_RXVMIR 0xA p) s;
               tx = rd (preg VR9_PCE_PCTRL_3_TXMIR 0xA p) s;
               q = q\<lparr>pg_ePortMonitor := (if rx = 1 \<and> tx = 1 then IFX_ETHSW_PORT_MONITOR_RXTX
                      else if rx = 1 \<and> tx = 0 then IFX_ETHSW_PORT_MONITOR_RX
                      else if rx = 0 \<and> tx = 1 then IFX_ETHSW_PORT_MONITOR_TX
                      else IFX_ETHSW_PORT_MONITOR_NONE)\<rparr>
      in (IFX_SUCCESS, q\<lparr>pg_eFlowCtrl := rd (preg (0x900, 4, 2) 0xC p) s\<rparr>))"

text \<open>
  The flow control of a physical port: through the registers of the transceiver when it is polled
  and answers, otherwise in the MAC. The registers of the transceivers are numbered downwards.
\<close>

definition flow_phy :: "('p hw \<Rightarrow> 'p hw) \<Rightarrow> ('p hw \<Rightarrow> 'p hw) \<Rightarrow> IFX_ETHSW_MDIO_data \<Rightarrow> IFX_ETHSW_portCfg \<Rightarrow> 'p core \<Rightarrow> 'p core option" where
  "flow_phy hwstep mdio g q s = do {
     let value = rd (at VR9_PHY_ADDR_0_ADDR (IFX_ETHSW_FLOW_TOP_REG_OFFSET - ucast (pg_nPortId q))) s;
     let m = g\<lparr>md_nAddressDev := ucast value, md_nAddressReg := 0x4\<rparr>;
     (m, s) \<leftarrow> IFX_FLOW_MDIO_DataRead hwstep mdio m s;
     let m = m\<lparr>md_nData := md_nData m AND NOT 0xC00\<rparr>;
     let f = pg_eFlowCtrl q;
     let m = (if f = IFX_ETHSW_FLOW_TX then m\<lparr>md_nData := md_nData m OR 0x800\<rparr>
              else if f = IFX_ETHSW_FLOW_RXTX then m\<lparr>md_nData := md_nData m OR 0x400\<rparr>
              else if f = IFX_ETHSW_FLOW_RX \<or> f = IFX_ETHSW_FLOW_AUTO then m\<lparr>md_nData := md_nData m OR 0xC00\<rparr>
              else m);
     s \<leftarrow> IFX_FLOW_MDIO_DataWrite hwstep mdio m s;
     let m = m\<lparr>md_nAddressReg := 0x0\<rparr>;
     (m, s) \<leftarrow> IFX_FLOW_MDIO_DataRead hwstep mdio m s;
     IFX_FLOW_MDIO_DataWrite hwstep mdio (m\<lparr>md_nData := md_nData m OR 0x1200\<rparr>) s }"

definition flow_mac :: "IFX_ETHSW_portCfg \<Rightarrow> 'p core \<Rightarrow> 'p core" where
  "flow_mac q s =
     (let p = pg_nPortId q; f = pg_eFlowCtrl q;
          RX = (if f = IFX_ETHSW_FLOW_RXTX \<or> f = IFX_ETHSW_FLOW_RX then 1 else 0);
          TX = (if f = IFX_ETHSW_FLOW_RXTX \<or> f = IFX_ETHSW_FLOW_TX then 1 else 0);
          s = wr (preg VR9_MAC_CTRL_0_FCON 0xC p) f s;
          s = wr (at VR9_PHY_ADDR_0_FCONTX (- ucast p)) TX s
      in wr (at VR9_PHY_ADDR_0_FCONRX (- ucast p)) RX s)"

text \<open>A bit of a port map: cleared when packets of the port are to be dropped.\<close>

definition map_write :: "field \<Rightarrow> u8 \<Rightarrow> bool \<Rightarrow> 'p core \<Rightarrow> 'p core" where
  "map_write F p dropped s =
     (let value = rd F s;
          value = (if dropped then value AND NOT (push_bit (unat p) 1) else value OR push_bit (unat p) 1)
      in wr F value s)"

definition learn_value :: "u16 \<Rightarrow> u32" where
  "learn_value l = (if l = 0 then 0 else if l = 0xFFFF then 0xFF else ucast l)"

definition port_head :: "IFX_ETHSW_portCfg \<Rightarrow> 'p core \<Rightarrow> 'p core" where
  "port_head q s =
     (let p = pg_nPortId q;
          s = wr (preg VR9_PCE_PCTRL_0_PLOCK 0xA p) (pg_bLearningMAC_PortLock q) s;
          value = learn_value (pg_nLearningLimit q);
          s = upd_dev (upd_port (unat p) (\<lambda>c. c\<lparr>nLearningLimit := ucast value\<rparr>)) s;
          s = wr (preg VR9_PCE_PCTRL_1_LRNLIM 0xA p) value s;
          s = (if GSWIP_Ver (dev s) = LTQ_GSWIP_2_2
               then wr (preg GSWIP_PCE_PCTRL_0_SPFDIS 0xA p) (pg_bMAC_SpoofingDetection q)
                      (wr (preg GSWIP_PCE_PCTRL_3_LNDIS 0xA p) (pg_bLearning q) s)
               else s);
          s = wr VR9_PCE_PCTRL_0_AGEDIS (pg_bAging q) s;
          s = map_write VR9_PCE_PMAP_3_UUCMAP p (pg_bUnicastUnknownDrop q = 1) s
      in map_write VR9_PCE_PMAP_2_DMCPMAP p (pg_bMulticastUnknownDrop q = 1) s)"

definition port_tail :: "IFX_ETHSW_portCfg \<Rightarrow> 'p core \<Rightarrow> 'p core" where
  "port_tail q s =
     (let p = pg_nPortId q; m = pg_ePortMonitor q; e = pg_eEnable q;
          rx = (if m = IFX_ETHSW_PORT_MONITOR_RXTX \<or> m = IFX_ETHSW_PORT_MONITOR_RX then 1 else 0);
          tx = (if m = IFX_ETHSW_PORT_MONITOR_RXTX \<or> m = IFX_ETHSW_PORT_MONITOR_TX then 1 else 0);
          s = wr (preg VR9_PCE_PCTRL_3_RXVMIR 0xA p) rx s;
          s = wr (preg VR9_PCE_PCTRL_3_TXMIR 0xA p) tx s;
          PEN = (if e = IFX_ETHSW_PORT_ENABLE_RXTX \<or> e = IFX_ETHSW_PORT_ENABLE_RX then 1 else 0);
          EN = (if e = IFX_ETHSW_PORT_ENABLE_RXTX \<or> e = IFX_ETHSW_PORT_ENABLE_TX then 1 else 0);
          s = wr (preg VR9_SDMA_PCTRL_PEN 0x6 p) PEN s
      in wr (preg VR9_FDMA_PCTRL_EN 0x6 p) EN s)"

definition phy_answers :: "u8 \<Rightarrow> 'p core \<Rightarrow> bool" where
  "phy_answers p s \<longleftrightarrow>
     rd (at (0x00B, 0 + unat p, 1) IFX_ETHSW_FLOW_TOP_REG_OFFSET) s = 1 \<and>
     rd (at VR9_MDIO_STAT_0_PACT (IFX_ETHSW_FLOW_TOP_REG_OFFSET + ucast p)) s = 1"

definition IFX_FLOW_PortCfgSet ::
  "('p hw \<Rightarrow> 'p hw) \<Rightarrow> ('p hw \<Rightarrow> 'p hw) \<Rightarrow> IFX_ETHSW_MDIO_data \<Rightarrow> IFX_ETHSW_portCfg \<Rightarrow> 'p core \<Rightarrow> (int \<times> 'p core) option" where
  "IFX_FLOW_PortCfgSet hwstep mdio g q s =
     (let p = pg_nPortId q
      in if p \<ge> nTotalPortNumber (dev s) then Some (IFX_ERROR, s)
      else do {
        let s = port_head q s;
        s \<leftarrow> (if p < nPortNumber (dev s) then
                 (if phy_answers p s then flow_phy hwstep mdio g q s else Some (flow_mac q s))
               else Some s);
        Some (IFX_SUCCESS, port_tail q s) })"

section \<open>The port state, specified\<close>

text \<open>
  Spanning tree decides whether the port is on and whether it learns; 802.1X decides, on a forwarding
  port, in which directions it is authorized.
\<close>

definition port_on :: "u32 \<Rightarrow> bool" where
  "port_on stp \<longleftrightarrow> stp \<noteq> IFX_ETHSW_STP_PORT_STATE_DISABLE"

definition port_learns :: "u32 \<Rightarrow> bool" where
  "port_learns stp \<longleftrightarrow> stp = IFX_ETHSW_STP_PORT_STATE_FORWARD \<or> stp = IFX_ETHSW_STP_PORT_STATE_LEARNING"

definition port_mode :: "u32 \<Rightarrow> u32 \<Rightarrow> u8" where
  "port_mode stp x =
     (if stp = IFX_ETHSW_STP_PORT_STATE_LEARNING then IFX_FLOW_PORT_STATE_LEARNING
      else if stp \<noteq> IFX_ETHSW_STP_PORT_STATE_FORWARD \<or> x = IFX_ETHSW_8021X_PORT_STATE_UNAUTHORIZED
        then IFX_FLOW_PORT_STATE_LISTENING_ONLY
      else if x = IFX_ETHSW_8021X_PORT_STATE_AUTHORIZED then IFX_FLOW_PORT_STATE_FORWARDING_ENABLE
      else if x = IFX_ETHSW_8021X_PORT_STATE_RX_AUTHORIZED then IFX_FLOW_PORT_STATE_RX_ENABLE_TX_DISABLE
      else IFX_FLOW_PORT_STATE_RX_DISABLE_TX_ENABLE)"

definition port_config :: "u32 \<Rightarrow> u32 \<Rightarrow> IFX_FLOW_portConfig \<Rightarrow> IFX_FLOW_portConfig" where
  "port_config stp x c = c\<lparr>bPortEnable := of_bool (port_on stp), nPortState := ucast (port_mode stp x)\<rparr>"

lemma set_port_state_eq:
  assumes "stp \<le> 3" "x \<le> 3" "unat p < length (PortConfig (dev s))"
  shows "set_port_state p stp x s =
    wr (preg VR9_SDMA_PCTRL_PEN 0xA p) (of_bool (port_on stp))
      (wr (preg VR9_PCE_PCTRL_0_PSTATE 0xA p) (ucast (port_mode stp x))
        (wr (preg VR9_PCE_PCTRL_1_LRNLIM 0xA p)
          (if port_learns stp then ucast (nLearningLimit (PortConfig (dev s) ! unat p)) else 0)
          (upd_dev (upd_port (unat p) (port_config stp x)) s)))"
proof -
  have f: "port_config stp x = (\<lambda>c. c\<lparr>bPortEnable := of_bool (port_on stp), nPortState := ucast (port_mode stp x)\<rparr>)" for stp x
    by (simp add: fun_eq_iff port_config_def)
  have "stp = 0 \<or> stp = 1 \<or> stp = 2 \<or> stp = 3" "x = 0 \<or> x = 1 \<or> x = 2 \<or> x = 3"
    using less4_cases assms(1,2) by blast+
  then show ?thesis
    using assms(3)
    by (elim disjE; simp add: set_port_state_def port_state_table_def Let_def port_on_def port_mode_def port_learns_def f)
qed

lemma set_port_state_dev:
  assumes "stp \<le> 3" "x \<le> 3" "unat p < length (PortConfig (dev s))"
  shows "dev (set_port_state p stp x s) = upd_port (unat p) (port_config stp x) (dev s)"
    "st_pce (pce (set_port_state p stp x s)) = st_pce (pce s)" "st_ent (pce (set_port_state p stp x s)) = st_ent (pce s)"
    "priv (hw_of (set_port_state p stp x s)) = priv (hw_of s)"
  by (simp_all add: set_port_state_eq [OF assms])

lemma port_bounds: "unat (p::u8) < 12 \<Longrightarrow> 0x480 + 10 * unat p < (65536::nat)"
  by simp

text \<open>The registers of a port state, and those of the other ports.\<close>

lemma set_port_state_regs:
  assumes "stp \<le> 3" "x \<le> 3" "unat p < length (PortConfig (dev s))" "unat p < 12"
  shows "rd (preg VR9_PCE_PCTRL_0_PSTATE 0xA p) (set_port_state p stp x s) = ucast (port_mode stp x)"
    "rd (preg VR9_PCE_PCTRL_1_LRNLIM 0xA p) (set_port_state p stp x s) =
      (if port_learns stp then ucast (nLearningLimit (PortConfig (dev s) ! unat p)) AND 0xFF else 0)"
    "rd (preg VR9_SDMA_PCTRL_PEN 0xA p) (set_port_state p stp x s) = of_bool (port_on stp)"
proof -
  have m: "unat (port_mode stp x) < 2 ^ 3" by (simp add: port_mode_def)
  have "unat (ucast (port_mode stp x) :: u32) < 2 ^ 3" using m by simp
  then have "(ucast (port_mode stp x) :: u32) AND mask 3 = ucast (port_mode stp x)" by (rule and_mask_small)
  moreover have "mask 8 = (0xFF :: u32)" by (simp add: mask_eq_exp_minus_1)
  ultimately show "rd (preg VR9_PCE_PCTRL_0_PSTATE 0xA p) (set_port_state p stp x s) = ucast (port_mode stp x)"
    "rd (preg VR9_PCE_PCTRL_1_LRNLIM 0xA p) (set_port_state p stp x s) =
      (if port_learns stp then ucast (nLearningLimit (PortConfig (dev s) ! unat p)) AND 0xFF else 0)"
    "rd (preg VR9_SDMA_PCTRL_PEN 0xA p) (set_port_state p stp x s) = of_bool (port_on stp)"
    by (simp_all add: set_port_state_eq [OF assms(1-3)] field_simps_hw mask_eq_simps)
qed

lemma set_port_state_other:
  assumes "stp \<le> 3" "x \<le> 3" "unat p < length (PortConfig (dev s))" "unat p < 12"
    and "fdisj (preg VR9_SDMA_PCTRL_PEN 0xA p) F" "fdisj (preg VR9_PCE_PCTRL_0_PSTATE 0xA p) F"
      "fdisj (preg VR9_PCE_PCTRL_1_LRNLIM 0xA p) F"
  shows "rd F (set_port_state p stp x s) = rd F s"
  using assms(5-) by (simp add: set_port_state_eq [OF assms(1-3)] rdf_wrf_other)

text \<open>Registers of two ports in the blocks of ten words: the same block and another port, or another word.\<close>

lemma ten_disj:
  assumes "unat (p::u8) < 12" "unat (p'::u8) < 12" "p \<noteq> p'"
  shows "fdisj (preg VR9_PCE_PCTRL_0_PSTATE 0xA p) (preg VR9_PCE_PCTRL_0_PSTATE 0xA p')"
    "fdisj (preg VR9_PCE_PCTRL_1_LRNLIM 0xA p) (preg VR9_PCE_PCTRL_1_LRNLIM 0xA p')"
    "fdisj (preg VR9_PCE_PCTRL_0_PSTATE 0xA p) (preg VR9_PCE_PCTRL_1_LRNLIM 0xA p')"
    "fdisj (preg VR9_PCE_PCTRL_1_LRNLIM 0xA p) (preg VR9_PCE_PCTRL_0_PSTATE 0xA p')"
    "fdisj (preg VR9_SDMA_PCTRL_PEN 0xA p) (preg VR9_PCE_PCTRL_0_PSTATE 0xA p')"
    "fdisj (preg VR9_SDMA_PCTRL_PEN 0xA p) (preg VR9_PCE_PCTRL_1_LRNLIM 0xA p')"
proof -
  have n: "unat p \<noteq> unat p'" using assms(3) by (metis unsigned_word_eqI)
  show "fdisj (preg VR9_PCE_PCTRL_0_PSTATE 0xA p) (preg VR9_PCE_PCTRL_0_PSTATE 0xA p')"
    "fdisj (preg VR9_PCE_PCTRL_1_LRNLIM 0xA p) (preg VR9_PCE_PCTRL_1_LRNLIM 0xA p')"
    "fdisj (preg VR9_PCE_PCTRL_0_PSTATE 0xA p) (preg VR9_PCE_PCTRL_1_LRNLIM 0xA p')"
    "fdisj (preg VR9_PCE_PCTRL_1_LRNLIM 0xA p) (preg VR9_PCE_PCTRL_0_PSTATE 0xA p')"
    "fdisj (preg VR9_SDMA_PCTRL_PEN 0xA p) (preg VR9_PCE_PCTRL_0_PSTATE 0xA p')"
    "fdisj (preg VR9_SDMA_PCTRL_PEN 0xA p) (preg VR9_PCE_PCTRL_1_LRNLIM 0xA p')"
    using n assms(1,2) by (simp_all add: port_simps del: fdisj.simps; presburger)+
qed

section \<open>Spanning tree and 802.1X together\<close>

definition ports_ok :: "IFX_FLOW_switchDev \<Rightarrow> bool" where
  "ports_ok d \<longleftrightarrow> (\<forall>p<MAX_PORT_NUMBER. ifx_stp_state (PortConfig d ! p) \<le> 3 \<and> ifx_8021x_state (PortConfig d ! p) \<le> 3)"

definition port_cfg :: "u8 \<Rightarrow> 'p core \<Rightarrow> IFX_FLOW_portConfig" where
  "port_cfg p s = PortConfig (dev s) ! unat p"

text \<open>The registers and the record of port \<open>p\<close> are those of the states \<open>stp\<close> and \<open>x\<close>.\<close>

definition port_shows :: "u8 \<Rightarrow> u32 \<Rightarrow> u32 \<Rightarrow> 'p core \<Rightarrow> bool" where
  "port_shows p stp x s \<longleftrightarrow>
     rd (preg VR9_PCE_PCTRL_0_PSTATE 0xA p) s = ucast (port_mode stp x) \<and>
     rd (preg VR9_PCE_PCTRL_1_LRNLIM 0xA p) s =
       (if port_learns stp then ucast (nLearningLimit (port_cfg p s)) AND 0xFF else 0) \<and>
     bPortEnable (port_cfg p s) = of_bool (port_on stp) \<and> nPortState (port_cfg p s) = ucast (port_mode stp x) \<and>
     ifx_stp_state (port_cfg p s) = stp \<and> ifx_8021x_state (port_cfg p s) = x"

definition other_ports :: "u8 \<Rightarrow> 'p core \<Rightarrow> 'p core \<Rightarrow> bool" where
  "other_ports p s s' \<longleftrightarrow> (\<forall>p'. unat p' < 12 \<longrightarrow> p' \<noteq> p \<longrightarrow> port_cfg p' s' = port_cfg p' s \<and>
     rd (preg VR9_PCE_PCTRL_0_PSTATE 0xA p') s' = rd (preg VR9_PCE_PCTRL_0_PSTATE 0xA p') s \<and>
     rd (preg VR9_PCE_PCTRL_1_LRNLIM 0xA p') s' = rd (preg VR9_PCE_PCTRL_1_LRNLIM 0xA p') s)"

lemma other_ports_trans: "other_ports p s s' \<Longrightarrow> other_ports p s' s'' \<Longrightarrow> other_ports p s s''"
  by (simp add: other_ports_def)

lemma port_update:
  assumes d: "dev_ok (dev s)" "ports_ok (dev s)" and p: "unat p < 12" and st: "stp \<le> 3" "x \<le> 3"
    and f: "ifx_stp_state (f (port_cfg p s)) = stp" "ifx_8021x_state (f (port_cfg p s)) = x"
      "nLearningLimit (f (port_cfg p s)) = nLearningLimit (port_cfg p s)"
    and s': "s' = set_port_state p stp x (upd_dev (upd_port (unat p) f) s)"
  shows "port_shows p stp x s'" "other_ports p s s'" "dev_ok (dev s')" "ports_ok (dev s')"
    "nTotalPortNumber (dev s') = nTotalPortNumber (dev s)" "nLearningLimit (port_cfg p s') = nLearningLimit (port_cfg p s)"
proof -
  let ?s = "upd_dev (upd_port (unat p) f) s"
  have l: "unat p < length (PortConfig (dev ?s))" and l0: "length (PortConfig (dev s)) = 12"
    using d(1) p by (simp_all add: dev_ok_def)
  note dv = set_port_state_dev(1) [OF st l] and rg = set_port_state_regs [OF st l p]
  have c: "port_cfg p s' = port_config stp x (f (port_cfg p s))"
    using l l0 by (simp add: s' port_cfg_def dv)
  have o: "port_cfg p' s' = port_cfg p' s" if "p' \<noteq> p" for p'
  proof -
    have "unat p' \<noteq> unat p" using that by (metis unsigned_word_eqI)
    then show ?thesis by (simp add: s' port_cfg_def dv)
  qed
  show "port_shows p stp x s'"
    using rg(1,2) f l l0 unfolding port_shows_def c by (simp add: s' port_config_def port_cfg_def)
  show "other_ports p s s'"
    unfolding other_ports_def
  proof (intro allI impI conjI)
    fix p' :: u8 assume p': "unat p' < 12" "p' \<noteq> p"
    show "port_cfg p' s' = port_cfg p' s" by (rule o [OF p'(2)])
    note t = ten_disj [OF p p'(1) p'(2) [symmetric]]
    show "rd (preg VR9_PCE_PCTRL_0_PSTATE 0xA p') s' = rd (preg VR9_PCE_PCTRL_0_PSTATE 0xA p') s"
      unfolding s' by (subst set_port_state_other [OF st l p t(5) t(1) t(4)]) simp
    show "rd (preg VR9_PCE_PCTRL_1_LRNLIM 0xA p') s' = rd (preg VR9_PCE_PCTRL_1_LRNLIM 0xA p') s"
      unfolding s' by (subst set_port_state_other [OF st l p t(6) t(3) t(2)]) simp
  qed
  show "dev_ok (dev s')" using d(1) by (simp add: s' dv dev_ok_def)
  show "nTotalPortNumber (dev s') = nTotalPortNumber (dev s)" by (simp add: s' dv)
  show "nLearningLimit (port_cfg p s') = nLearningLimit (port_cfg p s)" using f(3) by (simp add: c port_config_def)
  show "ports_ok (dev s')"
    unfolding ports_ok_def
  proof (intro allI impI)
    fix k :: nat assume k: "k < 12"
    show "ifx_stp_state (PortConfig (dev s') ! k) \<le> 3 \<and> ifx_8021x_state (PortConfig (dev s') ! k) \<le> 3"
      using k d(2) l0 f(1,2) st by (cases "k = unat p") (simp_all add: s' dv ports_ok_def port_config_def port_cfg_def)
  qed
qed

lemma stp_set:
  assumes d: "dev_ok (dev s)" "ports_ok (dev s)" and p: "sp_nPortId q < nTotalPortNumber (dev s)" and v: "sp_ePortState q \<le> 3"
  obtains s' where "IFX_FLOW_STP_PortCfgSet q s = (IFX_SUCCESS, s')"
    "port_shows (sp_nPortId q) (sp_ePortState q) (ifx_8021x_state (port_cfg (sp_nPortId q) s)) s'"
    "other_ports (sp_nPortId q) s s'" "dev_ok (dev s')" "ports_ok (dev s')" "nTotalPortNumber (dev s') = nTotalPortNumber (dev s)"
    "nLearningLimit (port_cfg (sp_nPortId q) s') = nLearningLimit (port_cfg (sp_nPortId q) s)"
proof -
  let ?p = "sp_nPortId q" and ?f = "\<lambda>c. c\<lparr>ifx_stp_state := sp_ePortState q\<rparr>"
  have p12: "unat ?p < 12" using low_ports [OF p d(1)] .
  have l0: "length (PortConfig (dev s)) = 12" using d(1) by (simp add: dev_ok_def)
  have x: "ifx_8021x_state (port_cfg ?p s) \<le> 3" using d(2) p12 by (simp add: ports_ok_def port_cfg_def)
  have run: "IFX_FLOW_STP_PortCfgSet q s = (IFX_SUCCESS,
      set_port_state ?p (sp_ePortState q) (ifx_8021x_state (port_cfg ?p s)) (upd_dev (upd_port (unat ?p) ?f) s))"
    using p p12 l0 by (simp add: IFX_FLOW_STP_PortCfgSet_def port_cfg_def Let_def not_le [symmetric])
  show ?thesis
    by (rule that [OF run]) (rule port_update [OF d p12 v x _ _ _ refl]; simp)+
qed

lemma x_set:
  assumes d: "dev_ok (dev s)" "ports_ok (dev s)" and p: "p < nTotalPortNumber (dev s)" "xp_nPortId q = ucast p" and v: "xp_eState q \<le> 3"
  obtains s' where "IFX_FLOW_8021X_PortCfgSet q s = (IFX_SUCCESS, s')"
    "port_shows p (ifx_stp_state (port_cfg p s)) (xp_eState q) s'"
    "other_ports p s s'" "dev_ok (dev s')" "ports_ok (dev s')" "nTotalPortNumber (dev s') = nTotalPortNumber (dev s)"
    "nLearningLimit (port_cfg p s') = nLearningLimit (port_cfg p s)"
proof -
  let ?f = "\<lambda>c. c\<lparr>ifx_8021x_state := xp_eState q\<rparr>"
  have p12: "unat p < 12" using low_ports [OF p(1) d(1)] .
  have l0: "length (PortConfig (dev s)) = 12" using d(1) by (simp add: dev_ok_def)
  have x: "ifx_stp_state (port_cfg p s) \<le> 3" using d(2) p12 by (simp add: ports_ok_def port_cfg_def)
  have lt: "\<not> (ucast (nTotalPortNumber (dev s)) :: u32) \<le> ucast p" using p(1) by (simp add: word_le_nat_alt word_less_nat_alt)
  have run: "IFX_FLOW_8021X_PortCfgSet q s = (IFX_SUCCESS,
      set_port_state p (ifx_stp_state (port_cfg p s)) (xp_eState q) (upd_dev (upd_port (unat p) ?f) s))"
    using p p12 l0 lt by (simp add: IFX_FLOW_8021X_PortCfgSet_def port_cfg_def)
  show ?thesis
    by (rule that [OF run]) (rule port_update [OF d p12 x v _ _ _ refl]; simp)+
qed

text \<open>
  The stride of the enable register: \<open>set_port_state\<close> steps by ten words where the block has six, so the
  enable bit of port 3 is written over that of port 5.
\<close>

lemma enable_of_port_3: "preg VR9_SDMA_PCTRL_PEN 0xA (3::u8) = preg VR9_SDMA_PCTRL_PEN 0x6 5"
  by simp

lemma disable_port_3:
  assumes "dev_ok (dev s)" "ports_ok (dev s)" "3 < nTotalPortNumber (dev s)" "sp_nPortId q = 3"
    "sp_ePortState q = IFX_ETHSW_STP_PORT_STATE_DISABLE"
  shows "rd (preg VR9_SDMA_PCTRL_PEN 0x6 5) (snd (IFX_FLOW_STP_PortCfgSet q s)) = 0"
    "rd (preg VR9_SDMA_PCTRL_PEN 0x6 3) (snd (IFX_FLOW_STP_PortCfgSet q s)) = rd (preg VR9_SDMA_PCTRL_PEN 0x6 3) s"
proof -
  have l0: "length (PortConfig (dev s)) = 12" using assms(1) by (simp add: dev_ok_def)
  let ?s = "upd_dev (upd_port (unat (3::u8)) (\<lambda>c. c\<lparr>ifx_stp_state := 1\<rparr>)) s"
  have x: "ifx_8021x_state (PortConfig (dev s) ! 3) \<le> 3" using assms(2) by (simp add: ports_ok_def)
  have run: "snd (IFX_FLOW_STP_PortCfgSet q s) = set_port_state 3 1 (ifx_8021x_state (PortConfig (dev s) ! 3)) ?s"
    using assms(3-5) l0 by (simp add: IFX_FLOW_STP_PortCfgSet_def Let_def not_le [symmetric])
  have l: "unat (3::u8) < length (PortConfig (dev ?s))" "unat (3::u8) < 12" using l0 by simp_all
  have one: "(1::u32) \<le> 3" by simp
  have "rd (preg VR9_SDMA_PCTRL_PEN 0xA 3) (snd (IFX_FLOW_STP_PortCfgSet q s)) = 0"
    unfolding run using set_port_state_regs(3) [OF one x l] by (simp add: port_on_def)
  then show "rd (preg VR9_SDMA_PCTRL_PEN 0x6 5) (snd (IFX_FLOW_STP_PortCfgSet q s)) = 0" by simp
  show "rd (preg VR9_SDMA_PCTRL_PEN 0x6 3) (snd (IFX_FLOW_STP_PortCfgSet q s)) = rd (preg VR9_SDMA_PCTRL_PEN 0x6 3) s"
    unfolding run by (subst set_port_state_other [OF one x l]) simp_all
qed

section \<open>The two rules\<close>

lemma zero_pattern_mac: "nMAC_Src zero_pattern = [0, 0, 0, 0, 0, 0]"
  by (simp add: zero_pattern_def eval_nat_numeral)

lemma port_rules_canonical:
  "canonical (pattern (bpdu_rule c))" "canonical (pattern (eapol_rule c p))"
  "act_ok (action (bpdu_rule c))" "act_ok (action (eapol_rule c p))"
proof -
  have "replicate 6 (0 :: u16) = [0, 0, 0, 0, 0, 0]" "replicate 8 (0 :: u16) = [0, 0, 0, 0, 0, 0, 0, 0]"
    by (simp_all add: eval_nat_numeral)
  then show "canonical (pattern (bpdu_rule c))" "canonical (pattern (eapol_rule c p))"
    by (simp_all add: bpdu_rule_def eapol_rule_def canonical_def canon_ip_def zero_pattern_def)
  show "act_ok (action (bpdu_rule c))" "act_ok (action (eapol_rule c p))"
    by (simp_all add: bpdu_rule_def eapol_rule_def act_ok_def set_portmap_def zero_action_def)
qed

text \<open>A rule written by a handler: the driver's own state stays, and so does the VLAN table.\<close>

lemma rule_write_inv:
  assumes E: "pce_engine hwstep tbl keep S" and I: "core_inv tbl keep s"
    and r: "unat (nIndex (pattern r)) < IFX_PCE_TBL_SIZE" "canonical (pattern r)" "act_ok (action r)" "\<not> bVid (pattern r)"
    and u: "used_rules (st_pce (pce s)) < 7"
  obtains s' h' where "rule_write hwstep g r s = Some (IFX_SUCCESS, s')" "core_inv tbl keep s'" "dev s' = dev s"
    "ifx_pce_rule_read hwstep (nIndex (pattern r)) (st_pce (pce s')) (hw_of s') = Some (Some r, h')"
proof -
  have R: "rules_inv tbl keep (pce s)" using I by (simp add: core_inv_def)
  have en: "bEnable (pattern r)" using r(2) by (simp add: canonical_def)
  have v: "bVid (pattern r) \<longrightarrow> vlan_row (driver_tbl tbl (st_hw (pce s))) (nVid (pattern r)) \<noteq> None" using r(4) by simp
  obtain P h' where w: "ifx_pce_rule_write hwstep g r (pce s) = Some (0, P)" "rules_inv tbl keep P"
    "ifx_pce_rule_read hwstep (nIndex (pattern r)) (st_pce P) (st_hw P) = Some (Some r, h')"
    by (rule write_then_read [OF E R r(1-3) v u])
  have fr: "\<forall>t. t \<notin> range tno \<and> t \<noteq> 15 \<longrightarrow> driver_tbl tbl (st_hw P) t = driver_tbl tbl (st_hw (pce s)) t"
  proof (rule rule_write_cases [OF E R r(1) en, of g], goal_cases)
    case (1 h) then show ?case using w(1) by (auto simp: rule_frame_def)
  next
    case (2 s') then show ?case using w(1) by (auto simp: rule_frame_def)
  next
    case (3 e s') then show ?case using w(1) by simp
  qed
  have t12: "1 \<notin> range tno" "2 \<notin> range tno" using tno_not_vlan by (metis rangeE)+
  have m: "vlan_mirror tbl keep (s\<lparr>pce := P\<rparr>)"
    using core_inv_simps(4) [OF I] fr t12 by (simp add: vlan_mirror_def)
  show ?thesis
    by (rule that [of "s\<lparr>pce := P\<rparr>" h']) (use w I m in \<open>simp_all add: rule_write_def core_inv_def\<close>)
qed

end
