(* ===== verification/Core_Boot.thy ===== *)
theory Core_Boot
  imports Core_Ports
begin

text \<open>
  The switch core after \<^verbatim>\<open>IFX_FLOW_SwitchCoreInit\<close>: set-up establishes the invariant of the handlers,
  with no VLAN and no rule. \<open>power_on\<close> is a device of seven ports and five virtual ports on which
  the examples run.
\<close>

unbundle bit_operations_syntax

section \<open>Set-up establishes the invariant\<close>

lemma fresh_table:
  assumes "VLAN_Table d = replicate 64 zero_vlan"
  shows "vlan_wf d" "vlan_map d = Map.empty"
proof -
  have k: "vlan_key (VLAN_Table d ! i) = None" if "i < 64" for i using that by (simp add: assms)
  show w: "vlan_wf d" unfolding vlan_wf_def using k by (simp add: assms)
  have "vlan_map d v = None" for v
  proof (rule ccontr)
    assume "vlan_map d v \<noteq> None"
    then obtain r where "vlan_map d v = Some r" by blast
    then show False using vlan_map_Some [OF w] k by fastforce
  qed
  then show "vlan_map d = Map.empty" by blast
qed

lemma empty_map_free:
  assumes w: "vlan_wf d" and e: "vlan_map d = Map.empty" and i: "i < 64"
  shows "vlan_key (VLAN_Table d ! i) = None"
proof (rule ccontr)
  assume "vlan_key (VLAN_Table d ! i) \<noteq> None"
  then obtain k where "vlan_key (VLAN_Table d ! i) = Some k" by blast
  then have "vlan_look d k = Some i" using vlan_look_iff [OF w] i by simp
  moreover have "vlan_map d k = None" by (simp add: e)
  ultimately show False by (simp add: vlan_map_def)
qed

lemma core_start:
  assumes E: "pce_engine hwstep tbl keep S" and h: "idle h"
    and n: "n = unat (rdf VR9_ETHSW_CAP_1_PPORTS h)" and m: "m = unat (rdf VR9_ETHSW_CAP_1_VPORTS h)"
    and nm: "n + m \<le> MAX_PORT_NUMBER" and S: "mc_regs n \<subseteq> S"
    and z: "\<forall>k. \<forall>i<tsize k. driver_tbl tbl h (tno k) i = keep (tno k) zero_img"
    and v: "\<forall>i<64. driver_tbl tbl h 1 i = keep 1 zero_img \<and> driver_tbl tbl h 2 i = keep 2 zero_img"
  obtains s where "IFX_FLOW_SwitchCoreInit hwstep g h = Some s" "core_inv tbl keep s" "ports_ok (dev s)"
    "vlan_map (dev s) = Map.empty" "used_rules (st_pce (pce s)) = 0"
    "unat (nPortNumber (dev s)) = n" "unat (nTotalPortNumber (dev s)) = n + m"
    "\<forall>k<64. dtbl tbl s 0 k = keep 0 (img_of (mc_entry k (pce_mc_max_ifx_tag_m ! k)))"
    "\<forall>i<64. vlan_act_tbl_cnt (pce_sub_tbl (st_pce (pce s))) ! i = 0"
proof -
  obtain s where s: "IFX_FLOW_SwitchCoreInit hwstep g h = Some s" "dev_ok (dev s)" "rules_inv tbl keep (pce s)"
    "unat (nPortNumber (dev s)) = n" "unat (nTotalPortNumber (dev s)) = n + m"
    "VLAN_Table (dev s) = replicate 64 zero_vlan"
    "\<forall>j<12. PortConfig (dev s) ! j = (if j < n then init_port else zero_portConfig)"
    "st_pce (pce s) = snd (ifx_pce_table_init zeroed_PCE)"
    "\<forall>k<64. dtbl tbl s 0 k = keep 0 (img_of (mc_entry k (pce_mc_max_ifx_tag_m ! k)))"
    "\<forall>t k. t \<noteq> 0 \<longrightarrow> dtbl tbl s t k = driver_tbl tbl h t k"
    using core_init_spec [OF E h n m nm S z, of g] by blast
  note f = fresh_table [OF s(6)]
  have "vlan_mirror tbl keep s" using v s(6,10) by (simp add: vlan_mirror_def)
  with s(2,3) f(1) have "core_inv tbl keep s" by (simp add: core_inv_def)
  moreover have "ports_ok (dev s)"
    using s(7) by (simp add: ports_ok_def init_port_def zero_portConfig_def)
  moreover have "used_rules (st_pce (pce s)) = 0"
    by (simp add: s(8) used_rules_def ifx_pce_table_init_def)
  moreover have "\<forall>i<64. vlan_act_tbl_cnt (pce_sub_tbl (st_pce (pce s))) ! i = 0"
    by (simp add: s(8) ifx_pce_table_init_def zero_handle_def IFX_PCE_VLAN_ACT_TBL_SIZE_def)
  ultimately show ?thesis using that s f(2) by blast
qed

section \<open>An example device\<close>

definition power_on :: "nat \<Rightarrow> ref_priv hw" where
  "power_on n = (ref_init n)\<lparr>regs := (\<lambda>_. 0)(0x007 := 0x2057, 0x009 := 0x0810)\<rparr>"

lemma power_on_regs: "rdf VR9_ETHSW_CAP_1_PPORTS (power_on n) = 7" "rdf VR9_ETHSW_CAP_1_VPORTS (power_on n) = 5"
  "idle (power_on n)"
  by (simp_all add: power_on_def rdf.simps read_fld_get fld_get_def idle_def)

lemma power_on_tbl: "driver_tbl ref_tbl (power_on n) t i = zero_img"
  using ref_init_tbl [of n t i] by (simp add: power_on_def driver_tbl_def split: if_splits)

abbreviation (input) plain :: "nat \<Rightarrow> pce_img \<Rightarrow> pce_img" where "plain \<equiv> \<lambda>_ m. m"

lemma started:
  obtains s where "IFX_FLOW_SwitchCoreInit ref_step zero_entry (power_on 2) = Some s" "core_inv ref_tbl plain s"
    "ports_ok (dev s)" "vlan_map (dev s) = Map.empty" "used_rules (st_pce (pce s)) = 0"
    "nPortNumber (dev s) = 7" "nTotalPortNumber (dev s) = 12"
    "\<forall>i<64. vlan_act_tbl_cnt (pce_sub_tbl (st_pce (pce s))) ! i = 0"
proof (rule core_start [OF ref.pce_engine_axioms power_on_regs(3) refl refl, of 2 zero_entry], goal_cases)
  case (5 s)
  have "unat (nPortNumber (dev s)) = unat (7::u8)" using 5 by (simp add: power_on_regs)
  moreover have "unat (nTotalPortNumber (dev s)) = unat (12::u8)" using 5 by (simp add: power_on_regs)
  ultimately have "nPortNumber (dev s) = 7" "nTotalPortNumber (dev s) = 12" by (simp_all only: word_eq_iff_unsigned [symmetric])
  then show ?case using 5 by (intro that [of s])
qed (simp_all add: power_on_regs power_on_tbl)

text \<open>After start-up, VLAN 5 with filtering identifier 9.\<close>

definition vlan5 :: IFX_ETHSW_VLAN_IdCreate where
  "vlan5 = \<lparr>vc_nVId = 5, vc_nFId = 9\<rparr>"

lemma started_vlan:
  obtains s0 s where "IFX_FLOW_SwitchCoreInit ref_step zero_entry (power_on 2) = Some s0" "core_inv ref_tbl plain s0"
    "vlan_map (dev s0) = Map.empty"
    "IFX_FLOW_VLAN_IdCreate ref_step vlan5 s0 = Some (IFX_SUCCESS, s)" "core_inv ref_tbl plain s"
    "vlan_map (dev s) = [5 \<mapsto> new_vlan 5 9]" "nTotalPortNumber (dev s) = 12"
    "\<forall>i<64. vlan_act_tbl_cnt (pce_sub_tbl (st_pce (pce s))) ! i = 0"
proof (rule started)
  fix s0 :: "ref_priv core"
  assume s0: "IFX_FLOW_SwitchCoreInit ref_step zero_entry (power_on 2) = Some s0" "core_inv ref_tbl plain s0"
    "vlan_map (dev s0) = Map.empty" "nTotalPortNumber (dev s0) = 12"
    "\<forall>i<64. vlan_act_tbl_cnt (pce_sub_tbl (st_pce (pce s0))) ! i = 0"
  note w = core_inv_simps(2) [OF s0(2)]
  have v: "vc_nVId vlan5 = 5" "vc_nFId vlan5 = 9" "vc_nVId vlan5 \<noteq> 0" by (simp_all add: vlan5_def)
  show thesis
  proof (cases rule: create_cases [OF ref.pce_engine_axioms core_inv_simps(1) [OF s0(2)] w v(3)])
    case 1 then show ?thesis using s0(3) by simp
  next
    case 2
    then have "vlan_key (VLAN_Table (dev s0) ! 0) \<noteq> None" by simp
    then show ?thesis using empty_map_free [OF w s0(3), of 0] by simp
  next
    case (3 i s)
    show ?thesis
    proof (rule that [OF s0(1-3) 3(3)])
      show "core_inv ref_tbl plain s" "vlan_map (dev s) = [5 \<mapsto> new_vlan 5 9]"
        by (rule create_inv [OF ref.pce_engine_axioms s0(2), of vlan5]; use 3(3) s0(3) v in simp)+
      show "nTotalPortNumber (dev s) = 12" "\<forall>i<64. vlan_act_tbl_cnt (pce_sub_tbl (st_pce (pce s))) ! i = 0"
        using 3(4) s0(4,5)
        by (simp_all add: vlan_step_def vlan_put_def IFX_FLOW_VLAN_Table_Entry_Set_def)
    qed
  qed
qed

end
