(* ===== verification/Core_Rate.thy ===== *)
theory Core_Rate
  imports Core_State
begin

text \<open>
  Rates: meters and shapers, \<^verbatim>\<open>ltq_flow_core.c\<close>. A rate is kept as mantissa and exponent of its
  inverse; \<^verbatim>\<open>calcToken\<close> and \<^verbatim>\<open>RateCalc\<close> convert, and the theorems bound what the conversion loses.
\<close>

unbundle bit_operations_syntax

section \<open>Parameters\<close>

record IFX_ETHSW_QoS_meterCfg =
  mt_bEnable :: u32
  mt_nMeterId :: u32
  mt_nCbs :: u32
  mt_nEbs :: u32
  mt_nRate :: u32

record IFX_ETHSW_QoS_ShaperCfg =
  rs_nRateShaperId :: u32
  rs_bEnable :: u32
  rs_bAVB :: u32
  rs_nCbs :: u32
  rs_nRate :: u32

abbreviation (input) VR9_PCE_TCM_CTRL_TCMEN :: field where "VR9_PCE_TCM_CTRL_TCMEN \<equiv> (0x580, 0, 1)"
abbreviation (input) VR9_PCE_TCM_CBS_CBS :: field where "VR9_PCE_TCM_CBS_CBS \<equiv> (0x582, 0, 10)"
abbreviation (input) VR9_PCE_TCM_EBS_EBS :: field where "VR9_PCE_TCM_EBS_EBS \<equiv> (0x583, 0, 10)"
abbreviation (input) VR9_PCE_TCM_CIR_EXP_EXP :: field where "VR9_PCE_TCM_CIR_EXP_EXP \<equiv> (0x586, 0, 4)"
abbreviation (input) VR9_PCE_TCM_CIR_MANT_MANT :: field where "VR9_PCE_TCM_CIR_MANT_MANT \<equiv> (0x585, 0, 10)"
abbreviation (input) VR9_PCE_TCM_IBS_IBS :: field where "VR9_PCE_TCM_IBS_IBS \<equiv> (0x584, 0, 2)"
abbreviation (input) VR9_RS_CTRL_RSEN :: field where "VR9_RS_CTRL_RSEN \<equiv> (0x140, 0, 1)"
abbreviation (input) VR9_RS_CBS_CBS :: field where "VR9_RS_CBS_CBS \<equiv> (0x141, 0, 10)"
abbreviation (input) VR9_RS_CIR_EXP_EXP :: field where "VR9_RS_CIR_EXP_EXP \<equiv> (0x143, 0, 4)"
abbreviation (input) VR9_RS_CIR_MANT_MANT :: field where "VR9_RS_CIR_MANT_MANT \<equiv> (0x144, 0, 10)"
abbreviation (input) VR9_RS_IBS_IBS :: field where "VR9_RS_IBS_IBS \<equiv> (0x142, 0, 2)"
abbreviation (input) GSWIP_RS_CTRL_RSMOD :: field where "GSWIP_RS_CTRL_RSMOD \<equiv> (0x140, 1, 1)"

section \<open>Conversion of rates\<close>

definition ibs_table :: "u16 list" where
  "ibs_table = [8 * 8, 32 * 8, 64 * 8, 96 * 8]"

text \<open>\<open>None\<close> is the division by zero.\<close>

definition RateCalc :: "u32 \<Rightarrow> u32 \<Rightarrow> u32 \<Rightarrow> u32 option" where
  "RateCalc pIbsIdx pExp pMant =
     (if pIbsIdx = 0 \<and> pExp = 0 \<and> pMant = 0 then Some 0
      else if pMant = 0 then None
      else let ibs = ibs_table ! unat pIbsIdx
           in Some (drop_bit (unat pExp) (ucast ibs * 25000) div pMant))"

text \<open>
  The outer loop of \<^verbatim>\<open>calcToken\<close>, \<^verbatim>\<open>for (i = 3; i >= 0; i--)\<close> with \<open>i\<close> of eight bits: it never ends by
  its condition; past 0 the next index is 255, out of the table (\<open>None\<close>).
\<close>

function calcToken_loop :: "u8 \<Rightarrow> u32 \<Rightarrow> (u32 \<times> u32 \<times> u32) option" where
  "calcToken_loop i Rate =
     (if 3 < i then None
      else let ibs = ibs_table ! unat i;
               mant = (\<lambda>exp. drop_bit exp (ucast ibs * 25000) div Rate)
      in case find (\<lambda>exp. mant exp < push_bit 10 1) [0..<16] of
           Some exp \<Rightarrow> Some (ucast i, of_nat exp, mant exp)
         | None \<Rightarrow> calcToken_loop (i - 1) Rate)"
  by pat_completeness auto
termination
proof (relation "measure (\<lambda>(i, _). if 3 < i then 0 else unat i + 1)", goal_cases)
  case (2 i Rate ibs mant)
  have m: "unat (- 1 :: u8) = 255" by (simp add: unsigned_minus_1_eq_mask mask_eq_exp_minus_1)
  show ?case
  proof (cases "i = 0")
    case True then show ?thesis using m by (simp add: word_less_nat_alt)
  next
    case False
    then have "0 < unat i" by (simp add: unat_gt_0)
    with 2 False show ?thesis by (simp add: unat_dec_word word_less_nat_alt)
  qed
qed simp

declare calcToken_loop.simps [simp del]

definition calcToken :: "u32 \<Rightarrow> (u32 \<times> u32 \<times> u32) option" where
  "calcToken Rate = (if Rate = 0 then None else calcToken_loop 3 Rate)"

section \<open>The handlers\<close>

text \<open>A burst size in units of 64 bytes, rounded up and limited to the register.\<close>

definition burst :: "u32 \<Rightarrow> u32" where
  "burst n = (if n > 0xFFC0 then 0x3FF else (n + 63) div 64)"

abbreviation (input) mreg :: "field \<Rightarrow> u32 \<Rightarrow> field" where
  "mreg F i \<equiv> at F (7 * ucast i)"

abbreviation (input) sreg :: "field \<Rightarrow> u32 \<Rightarrow> field" where
  "sreg F i \<equiv> at F (5 * ucast i)"

definition IFX_FLOW_QoS_MeterCfgGet :: "IFX_ETHSW_QoS_meterCfg \<Rightarrow> 'p core \<Rightarrow> (int \<times> IFX_ETHSW_QoS_meterCfg) option" where
  "IFX_FLOW_QoS_MeterCfgGet q s =
     (let nMeterId = mt_nMeterId q
      in if nMeterId > 7 then Some (IFX_ERROR, q)
      else let q = q\<lparr>mt_bEnable := rd (mreg VR9_PCE_TCM_CTRL_TCMEN nMeterId) s\<rparr>;
               q = q\<lparr>mt_nCbs := rd (mreg VR9_PCE_TCM_CBS_CBS nMeterId) s * 64\<rparr>;
               q = q\<lparr>mt_nEbs := rd (mreg VR9_PCE_TCM_EBS_EBS nMeterId) s * 64\<rparr>;
               exp = rd (mreg VR9_PCE_TCM_CIR_EXP_EXP nMeterId) s;
               mant = rd (mreg VR9_PCE_TCM_CIR_MANT_MANT nMeterId) s;
               ibs = rd (mreg VR9_PCE_TCM_IBS_IBS nMeterId) s
      in do { r \<leftarrow> RateCalc ibs exp mant; Some (IFX_SUCCESS, q\<lparr>mt_nRate := r\<rparr>) })"

definition IFX_FLOW_QoS_MeterCfgSet :: "IFX_ETHSW_QoS_meterCfg \<Rightarrow> 'p core \<Rightarrow> (int \<times> 'p core) option" where
  "IFX_FLOW_QoS_MeterCfgSet q s =
     (let nMeterId = mt_nMeterId q
      in if nMeterId > 7 then Some (IFX_ERROR, s)
      else let s = wr (mreg VR9_PCE_TCM_CBS_CBS nMeterId) (burst (mt_nCbs q)) s;
               s = wr (mreg VR9_PCE_TCM_EBS_EBS nMeterId) (burst (mt_nEbs q)) s;
               rate = mt_nRate q
      in do {
        (ibs, exp, mant) \<leftarrow> (if rate \<noteq> 0 then calcToken rate else Some (0, 0, 0));
        let s = wr (mreg VR9_PCE_TCM_CIR_EXP_EXP nMeterId) exp s;
        let s = wr (mreg VR9_PCE_TCM_CIR_MANT_MANT nMeterId) mant s;
        let s = wr (mreg VR9_PCE_TCM_IBS_IBS nMeterId) ibs s;
        let s = wr (mreg VR9_PCE_TCM_CTRL_TCMEN nMeterId) (mt_bEnable q) s;
        Some (IFX_SUCCESS, s) })"

definition IFX_FLOW_QoS_ShaperCfgGet :: "IFX_ETHSW_QoS_ShaperCfg \<Rightarrow> 'p core \<Rightarrow> (int \<times> IFX_ETHSW_QoS_ShaperCfg) option" where
  "IFX_FLOW_QoS_ShaperCfgGet q s =
     (let nRateShaperId = rs_nRateShaperId q
      in if nRateShaperId \<ge> rd VR9_ETHSW_CAP_3_SHAPERS s then Some (IFX_ERROR, q)
      else let q = q\<lparr>rs_bEnable := rd (sreg VR9_RS_CTRL_RSEN nRateShaperId) s\<rparr>;
               q = q\<lparr>rs_nCbs := rd (sreg VR9_RS_CBS_CBS nRateShaperId) s * 64\<rparr>;
               exp = rd (sreg VR9_RS_CIR_EXP_EXP nRateShaperId) s;
               mant = rd (sreg VR9_RS_CIR_MANT_MANT nRateShaperId) s;
               ibs = rd (sreg VR9_RS_IBS_IBS nRateShaperId) s
      in do {
        r \<leftarrow> RateCalc ibs exp mant;
        let q = q\<lparr>rs_nRate := r\<rparr>;
        Some (IFX_SUCCESS, if GSWIP_Ver (dev s) = LTQ_GSWIP_2_2
                           then q\<lparr>rs_bAVB := rd (sreg GSWIP_RS_CTRL_RSMOD nRateShaperId) s\<rparr> else q) })"

definition IFX_FLOW_QoS_ShaperCfgSet :: "IFX_ETHSW_QoS_ShaperCfg \<Rightarrow> 'p core \<Rightarrow> (int \<times> 'p core) option" where
  "IFX_FLOW_QoS_ShaperCfgSet q s =
     (let nRateShaperId = rs_nRateShaperId q
      in if nRateShaperId \<ge> rd VR9_ETHSW_CAP_3_SHAPERS s then Some (IFX_ERROR, s)
      else let s = wr (sreg VR9_RS_CBS_CBS nRateShaperId) (burst (rs_nCbs q)) s;
               rate = rs_nRate q
      in do {
        (ibs, exp, mant) \<leftarrow> (if rate \<noteq> 0 then calcToken rate else Some (0, 0, 0));
        let s = wr (sreg VR9_RS_CIR_EXP_EXP nRateShaperId) exp s;
        let s = wr (sreg VR9_RS_CIR_MANT_MANT nRateShaperId) mant s;
        let s = wr (sreg VR9_RS_IBS_IBS nRateShaperId) ibs s;
        let s = wr (sreg VR9_RS_CTRL_RSEN nRateShaperId) (rs_bEnable q) s;
        Some (IFX_SUCCESS, if GSWIP_Ver (dev s) = LTQ_GSWIP_2_2
                           then wr (sreg GSWIP_RS_CTRL_RSMOD nRateShaperId) (rs_bAVB q) s else s) })"

section \<open>What the conversion loses\<close>

text \<open>\<open>rate_exp\<close> is the least exponent whose mantissa fits, \<open>rate_mant\<close> that mantissa.\<close>

definition rate_mant :: "nat \<Rightarrow> nat \<Rightarrow> nat" where
  "rate_mant R e = 19200000 div 2 ^ e div R"

lemma unat_token: "unat (drop_bit e (19200000 :: u32) div R) = rate_mant (unat R) e"
proof -
  have "unat (drop_bit e (19200000 :: u32)) = 19200000 div 2 ^ e"
    by (subst unat_drop_bit_eq) (simp add: drop_bit_eq_div)
  then show ?thesis by (simp add: rate_mant_def unat_div_distrib)
qed

lemma calcToken_some:
  assumes "R \<noteq> 0"
  obtains e where "e < 16" "rate_mant (unat R) e < 1024" "\<forall>d<e. 1024 \<le> rate_mant (unat R) d"
    "calcToken R = Some (3, of_nat e, of_nat (rate_mant (unat R) e))"
proof -
  let ?P = "\<lambda>e. drop_bit e (19200000 :: u32) div R < 1024"
  have P: "?P e \<longleftrightarrow> rate_mant (unat R) e < 1024" for e
    by (simp only: word_less_nat_alt unat_token) simp
  have "0 < unat R" using assms by (simp add: unat_gt_0)
  then have "rate_mant (unat R) 15 \<le> 585" unfolding rate_mant_def
    using div_le_dividend [of "585::nat" "unat R"] by simp
  then have "?P 15" by (simp only: P)
  then obtain e where e: "find ?P [0..<16] = Some e"
    by (cases "find ?P [0..<16]") (auto simp only: find_upt_None)
  then have l: "e < 16" "?P e" "\<forall>d<e. \<not> ?P d" by (simp_all only: find_upt_Some) blast+
  have t: "(ucast (ibs_table ! 3) * 25000 :: u32) = 19200000" by (simp add: ibs_table_def)
  have "calcToken R = Some (3, of_nat e, drop_bit e 19200000 div R)"
    using assms e by (simp add: calcToken_def calcToken_loop.simps t)
  moreover have "drop_bit e (19200000 :: u32) div R = of_nat (rate_mant (unat R) e)"
    using unat_token [of e R] by (metis of_nat_unat ucast_id)
  moreover have "rate_mant (unat R) e < 1024" "\<forall>d<e. 1024 \<le> rate_mant (unat R) d"
    using l(2,3) unfolding P by (simp_all add: not_less)
  ultimately show ?thesis using l(1) by (intro that [of e]) simp_all
qed

lemma rate_error:
  assumes "0 < m" "m = X div R" "0 < (R::nat)"
  shows "R \<le> X div m" "(X div m - R) * m < R"
proof -
  have a: "R * m \<le> X" "X < R * m + R"
    using assms(3) by (simp_all add: assms(2)) (metis add.commute dividend_less_times_div mult.commute)
  show "R \<le> X div m" using a(1) assms(1) by (simp add: less_eq_div_iff_mult_less_eq)
  have "X div m * m \<le> X" by simp
  then show "(X div m - R) * m < R" using a unfolding diff_mult_distrib by linarith
qed

lemma rate_mant_bounds:
  assumes R: "0 < R" "R \<le> 19200000" and e: "rate_mant R e < 1024" "\<forall>d<e. 1024 \<le> rate_mant R d"
  shows "0 < rate_mant R e" "R \<le> 18750 \<Longrightarrow> 512 \<le> rate_mant R e"
proof -
  have half: "512 \<le> rate_mant R e" if "0 < e"
  proof -
    obtain d where d: "e = Suc d" using \<open>0 < e\<close> by (cases e) auto
    have "rate_mant R e = rate_mant R d div 2"
      unfolding rate_mant_def d by (simp add: div_mult2_eq [symmetric] mult.commute mult.left_commute)
    moreover have "1024 \<le> rate_mant R d" using e(2) d by simp
    ultimately show ?thesis by simp
  qed
  show "0 < rate_mant R e"
  proof (cases "e = 0")
    case True
    then show ?thesis using R div_greater_zero_iff [of 19200000 R] by (simp add: rate_mant_def)
  next
    case False
    then show ?thesis using half by simp
  qed
  show "512 \<le> rate_mant R e" if "R \<le> 18750"
  proof (cases "e = 0")
    case True
    have "19200000 div 18750 \<le> 19200000 div R" using R(1) that by (rule div_le_mono2)
    with e(1) True show ?thesis by (simp add: rate_mant_def)
  next
    case False
    then show ?thesis using half by simp
  qed
qed

text \<open>
  Setting a rate \<open>R\<close> and reading it back as \<open>r\<close>, with the exponent \<open>e\<close> and the mantissa \<open>m\<close> that the registers hold:
  \<open>r\<close> is not below \<open>R\<close> and exceeds it by less than the part \<open>1 / m\<close>. The mantissa is at least 512 up to 18750 kbit/s, and the
  number of times the rate goes into 19200000 above. Beyond 19200000 kbit/s it
  is 0, and \<^verbatim>\<open>RateCalc\<close> divides by it.
\<close>

definition rate_kept :: "nat \<Rightarrow> nat \<Rightarrow> nat \<Rightarrow> nat \<Rightarrow> bool" where
  "rate_kept e m R r \<longleftrightarrow> 0 < m \<and> m < 1024 \<and> r = 19200000 div 2 ^ e div m \<and> R \<le> r \<and> (r - R) * m < R \<and>
     (if R \<le> 18750 then 512 \<le> m else e = 0 \<and> m = 19200000 div R)"

lemma token_fields:
  assumes "e < 16" "m < (1024::nat)"
  shows "(of_nat e :: u32) AND mask 4 = of_nat e" "(of_nat m :: u32) AND mask 10 = of_nat m"
    "unat (of_nat e :: u32) = e" "unat (of_nat m :: u32) = m"
proof -
  show u: "unat (of_nat e :: u32) = e" "unat (of_nat m :: u32) = m"
    using assms by (intro unat_of_nat_small; simp)+
  show "(of_nat e :: u32) AND mask 4 = of_nat e" "(of_nat m :: u32) AND mask 10 = of_nat m"
    using assms by (intro and_mask_small; simp add: u)+
qed

lemma rate_back:
  assumes "R \<noteq> 0" "R \<le> 19200000"
  obtains e m r where "calcToken R = Some (3, e, m)" "e AND mask 4 = e" "m AND mask 10 = m"
    "RateCalc 3 e m = Some r" "rate_kept (unat e) (unat m) (unat R) (unat r)"
proof -
  obtain e where e: "e < 16" "rate_mant (unat R) e < 1024" "\<forall>d<e. 1024 \<le> rate_mant (unat R) d"
    "calcToken R = Some (3, of_nat e, of_nat (rate_mant (unat R) e))"
    by (rule calcToken_some [OF assms(1)])
  let ?m = "rate_mant (unat R) e" and ?X = "19200000 div 2 ^ e :: nat"
  have R: "0 < unat R" "unat R \<le> 19200000" using assms by (simp_all add: unat_gt_0 word_le_nat_alt)
  note mb = rate_mant_bounds [OF R e(2,3)] and tf = token_fields [OF e(1,2)]
  have m0: "(of_nat ?m :: u32) \<noteq> 0" using mb(1) tf(4) by (metis less_numeral_extra(3) unsigned_0)
  have t: "(ucast (ibs_table ! 3) * 25000 :: u32) = 19200000" by (simp add: ibs_table_def)
  have rc: "RateCalc 3 (of_nat e) (of_nat ?m) = Some (drop_bit e 19200000 div of_nat ?m)"
    using m0 by (simp add: RateCalc_def Let_def t tf(3))
  have "unat (drop_bit e (19200000 :: u32) div of_nat ?m) = ?X div ?m"
    unfolding unat_div_distrib tf(4) by (subst unat_drop_bit_eq) (simp add: drop_bit_eq_div)
  moreover have "e = 0" if "18750 < unat R"
  proof (rule ccontr)
    assume "e \<noteq> 0"
    then have "1024 \<le> 19200000 div unat R" using e(3) by (auto simp: rate_mant_def)
    moreover have "19200000 div unat R \<le> 19200000 div 18751" by (rule div_le_mono2) (use that in simp_all)
    ultimately show False by simp
  qed
  then have "rate_kept e ?m (unat R) (?X div ?m)"
    using rate_error [OF mb(1) _ R(1), of ?X] mb e(2) unfolding rate_kept_def by (auto simp: rate_mant_def)
  ultimately show ?thesis using that [OF e(4) tf(1,2) rc] by (simp only: tf(3,4))
qed

lemma rate_overflow:
  assumes "R > 19200000"
  shows "calcToken R = Some (3, 0, 0)"
proof -
  have R: "R \<noteq> 0" "19200000 < unat R" using assms by (auto simp: word_less_nat_alt)
  obtain e where e: "\<forall>d<e. 1024 \<le> rate_mant (unat R) d"
    "calcToken R = Some (3, of_nat e, of_nat (rate_mant (unat R) e))"
    by (rule calcToken_some [OF R(1)])
  have z: "rate_mant (unat R) 0 = 0" using R(2) by (simp add: rate_mant_def)
  have "e = 0"
  proof (rule ccontr)
    assume "e \<noteq> 0"
    then have "1024 \<le> rate_mant (unat R) 0" using e(1) by blast
    with z show False by simp
  qed
  with e(2) z show ?thesis by simp
qed

lemma burst_mask [simp]: "burst n AND mask 10 = burst n"
proof (rule and_mask_small)
  show "unat (burst n) < 2 ^ 10"
  proof (cases "n > 0xFFC0")
    case False
    then have n: "unat n \<le> 0xFFC0" by (simp add: word_less_nat_alt not_less)
    then have "unat (n + 63) = unat n + 63" by (simp add: unat_word_ariths)
    then have "unat ((n + 63) div 64) \<le> 1023" using n by (simp add: unat_div_distrib)
    then show ?thesis using False by (simp add: burst_def)
  qed (simp add: burst_def)
qed

lemma small_masks: "mask 1 = (1 :: u32)" "mask (Suc 0) = (1 :: u32)" "(3 :: u32) AND mask 2 = 3"
  by (simp_all add: mask_eq_exp_minus_1)

text \<open>The fields of one meter and of one shaper do not overlap.\<close>

lemma meter_round_trip:
  assumes "mt_nMeterId q \<le> 7" "mt_nRate q \<noteq> 0" "mt_nRate q \<le> 19200000" "mt_nMeterId o' = mt_nMeterId q"
  shows "\<exists>s' r. IFX_FLOW_QoS_MeterCfgSet q s = Some (IFX_SUCCESS, s') \<and> dev s' = dev s \<and>
    IFX_FLOW_QoS_MeterCfgGet o' s' = Some (IFX_SUCCESS, q\<lparr>mt_bEnable := mt_bEnable q AND 1,
      mt_nCbs := burst (mt_nCbs q) * 64, mt_nEbs := burst (mt_nEbs q) * 64, mt_nRate := r\<rparr>) \<and>
    rate_kept (unat (rd (mreg VR9_PCE_TCM_CIR_EXP_EXP (mt_nMeterId q)) s')) (unat (rd (mreg VR9_PCE_TCM_CIR_MANT_MANT (mt_nMeterId q)) s'))
      (unat (mt_nRate q)) (unat r)"
proof -
  have id: "\<not> 7 < mt_nMeterId q" using assms(1) by (simp add: not_less)
  obtain e m r where t: "calcToken (mt_nRate q) = Some (3, e, m)" "e AND mask 4 = e" "m AND mask 10 = m"
    "RateCalc 3 e m = Some r" "rate_kept (unat e) (unat m) (unat (mt_nRate q)) (unat r)"
    by (rule rate_back [OF assms(2,3)])
  let ?F = "\<lambda>F. mreg F (mt_nMeterId q)"
  define s' where "s' = wr (?F VR9_PCE_TCM_CTRL_TCMEN) (mt_bEnable q) (wr (?F VR9_PCE_TCM_IBS_IBS) 3
    (wr (?F VR9_PCE_TCM_CIR_MANT_MANT) m (wr (?F VR9_PCE_TCM_CIR_EXP_EXP) e
    (wr (?F VR9_PCE_TCM_EBS_EBS) (burst (mt_nEbs q)) (wr (?F VR9_PCE_TCM_CBS_CBS) (burst (mt_nCbs q)) s)))))"
  have set: "IFX_FLOW_QoS_MeterCfgSet q s = Some (IFX_SUCCESS, s')" "dev s' = dev s"
    using id assms(2) t(1) by (simp_all add: IFX_FLOW_QoS_MeterCfgSet_def Let_def s'_def)
  have rg: "rd (?F VR9_PCE_TCM_CTRL_TCMEN) s' = mt_bEnable q AND 1" "rd (?F VR9_PCE_TCM_IBS_IBS) s' = 3"
    "rd (?F VR9_PCE_TCM_CIR_MANT_MANT) s' = m" "rd (?F VR9_PCE_TCM_CIR_EXP_EXP) s' = e"
    "rd (?F VR9_PCE_TCM_EBS_EBS) s' = burst (mt_nEbs q)" "rd (?F VR9_PCE_TCM_CBS_CBS) s' = burst (mt_nCbs q)"
    by (simp_all add: s'_def field_simps_hw t small_masks)
  have "IFX_FLOW_QoS_MeterCfgGet o' s' = Some (IFX_SUCCESS, q\<lparr>mt_bEnable := mt_bEnable q AND 1,
      mt_nCbs := burst (mt_nCbs q) * 64, mt_nEbs := burst (mt_nEbs q) * 64, mt_nRate := r\<rparr>)"
    unfolding IFX_FLOW_QoS_MeterCfgGet_def Let_def assms(4) rg t(4)
    using id assms(4) by (cases q, cases o') simp
  with set t(5) show ?thesis unfolding rg(3,4) [symmetric] by blast
qed

lemma meter_overflow:
  assumes "mt_nMeterId q \<le> 7" "mt_nRate q > 19200000" "mt_nMeterId o' = mt_nMeterId q"
  shows "\<exists>s'. IFX_FLOW_QoS_MeterCfgSet q s = Some (IFX_SUCCESS, s') \<and> IFX_FLOW_QoS_MeterCfgGet o' s' = None"
proof -
  have id: "\<not> 7 < mt_nMeterId q" using assms(1) by (simp add: not_less)
  have nz: "mt_nRate q \<noteq> 0" using assms(2) by auto
  let ?F = "\<lambda>F. mreg F (mt_nMeterId q)"
  define s' where "s' = wr (?F VR9_PCE_TCM_CTRL_TCMEN) (mt_bEnable q) (wr (?F VR9_PCE_TCM_IBS_IBS) 3
    (wr (?F VR9_PCE_TCM_CIR_MANT_MANT) 0 (wr (?F VR9_PCE_TCM_CIR_EXP_EXP) 0
    (wr (?F VR9_PCE_TCM_EBS_EBS) (burst (mt_nEbs q)) (wr (?F VR9_PCE_TCM_CBS_CBS) (burst (mt_nCbs q)) s)))))"
  have set: "IFX_FLOW_QoS_MeterCfgSet q s = Some (IFX_SUCCESS, s')"
    using id nz rate_overflow [OF assms(2)] by (simp add: IFX_FLOW_QoS_MeterCfgSet_def Let_def s'_def)
  have rg: "rd (?F VR9_PCE_TCM_IBS_IBS) s' = 3"
    "rd (?F VR9_PCE_TCM_CIR_MANT_MANT) s' = 0" "rd (?F VR9_PCE_TCM_CIR_EXP_EXP) s' = 0"
    by (simp_all add: s'_def field_simps_hw small_masks)
  have "IFX_FLOW_QoS_MeterCfgGet o' s' = None"
    unfolding IFX_FLOW_QoS_MeterCfgGet_def Let_def assms(3) rg using id by (simp add: RateCalc_def)
  with set show ?thesis by blast
qed

lemma shaper_round_trip:
  assumes i: "rs_nRateShaperId q < rd VR9_ETHSW_CAP_3_SHAPERS s" "rs_nRateShaperId o' = rs_nRateShaperId q"
    and r: "rs_nRate q \<noteq> 0" "rs_nRate q \<le> 19200000"
  shows "\<exists>s' r. IFX_FLOW_QoS_ShaperCfgSet q s = Some (IFX_SUCCESS, s') \<and> dev s' = dev s \<and>
    IFX_FLOW_QoS_ShaperCfgGet o' s' = Some (IFX_SUCCESS, q\<lparr>rs_bEnable := rs_bEnable q AND 1,
      rs_bAVB := (if GSWIP_Ver (dev s) = LTQ_GSWIP_2_2 then rs_bAVB q AND 1 else rs_bAVB o'),
      rs_nCbs := burst (rs_nCbs q) * 64, rs_nRate := r\<rparr>) \<and>
    rate_kept (unat (rd (sreg VR9_RS_CIR_EXP_EXP (rs_nRateShaperId q)) s')) (unat (rd (sreg VR9_RS_CIR_MANT_MANT (rs_nRateShaperId q)) s'))
      (unat (rs_nRate q)) (unat r)"
proof -
  obtain e m rb where t: "calcToken (rs_nRate q) = Some (3, e, m)" "e AND mask 4 = e" "m AND mask 10 = m"
    "RateCalc 3 e m = Some rb" "rate_kept (unat e) (unat m) (unat (rs_nRate q)) (unat rb)"
    by (rule rate_back [OF r])
  have "unat (rd VR9_ETHSW_CAP_3_SHAPERS s) < 2 ^ 8"
    using rdf_less [of VR9_ETHSW_CAP_3_SHAPERS "hw_of s"] by simp
  then have id: "unat (rs_nRateShaperId q) < 255" using i(1) by (simp add: word_less_nat_alt)
  let ?F = "\<lambda>F. sreg F (rs_nRateShaperId q)"
  define s1 where "s1 = wr (?F VR9_RS_CTRL_RSEN) (rs_bEnable q) (wr (?F VR9_RS_IBS_IBS) 3
    (wr (?F VR9_RS_CIR_MANT_MANT) m (wr (?F VR9_RS_CIR_EXP_EXP) e (wr (?F VR9_RS_CBS_CBS) (burst (rs_nCbs q)) s))))"
  define s' where "s' = (if GSWIP_Ver (dev s) = LTQ_GSWIP_2_2 then wr (?F GSWIP_RS_CTRL_RSMOD) (rs_bAVB q) s1 else s1)"
  have set: "IFX_FLOW_QoS_ShaperCfgSet q s = Some (IFX_SUCCESS, s')" "dev s' = dev s"
    using i(1) r(1) t(1) by (simp_all add: IFX_FLOW_QoS_ShaperCfgSet_def Let_def s'_def s1_def not_le [symmetric])
  have rg: "rd (?F VR9_RS_CTRL_RSEN) s' = rs_bEnable q AND 1" "rd (?F VR9_RS_IBS_IBS) s' = 3"
    "rd (?F VR9_RS_CIR_MANT_MANT) s' = m" "rd (?F VR9_RS_CIR_EXP_EXP) s' = e" "rd (?F VR9_RS_CBS_CBS) s' = burst (rs_nCbs q)"
    "GSWIP_Ver (dev s) = LTQ_GSWIP_2_2 \<Longrightarrow> rd (?F GSWIP_RS_CTRL_RSMOD) s' = rs_bAVB q AND 1"
    by (simp_all add: s'_def s1_def field_simps_hw t small_masks)
  have far: "fdisj (?F F) VR9_ETHSW_CAP_3_SHAPERS"
    if "F \<in> {VR9_RS_CTRL_RSEN, VR9_RS_IBS_IBS, VR9_RS_CIR_MANT_MANT, VR9_RS_CIR_EXP_EXP, VR9_RS_CBS_CBS, GSWIP_RS_CTRL_RSMOD}" for F
    using that id by (auto simp: port_simps simp del: fdisj.simps)
  have cap: "rd VR9_ETHSW_CAP_3_SHAPERS s' = rd VR9_ETHSW_CAP_3_SHAPERS s"
    using far by (simp add: s'_def s1_def rdf_wrf_other del: at.simps fdisj.simps)
  have "\<not> rs_nRateShaperId q \<ge> rd VR9_ETHSW_CAP_3_SHAPERS s" using i(1) by (simp add: not_le)
  then have "IFX_FLOW_QoS_ShaperCfgGet o' s' = Some (IFX_SUCCESS, q\<lparr>rs_bEnable := rs_bEnable q AND 1,
      rs_bAVB := (if GSWIP_Ver (dev s) = LTQ_GSWIP_2_2 then rs_bAVB q AND 1 else rs_bAVB o'),
      rs_nCbs := burst (rs_nCbs q) * 64, rs_nRate := rb\<rparr>)"
    unfolding IFX_FLOW_QoS_ShaperCfgGet_def Let_def i(2) rg(1-5) t(4) cap set(2)
    using i(2) rg(6) by (cases q, cases o') simp
  with set t(5) show ?thesis unfolding rg(3,4) [symmetric] by blast
qed

end
