(* ===== verification/Core_Classes.thy ===== *)
theory Core_Classes
  imports Core_State
begin

text \<open>
  The traffic class tables, \<^verbatim>\<open>ltq_flow_core.c\<close>: traffic class and drop precedence of a DSCP, the
  DSCP and the priority with which a class is remarked, and the class of a priority. Two of the
  tables hold two settings in one word; each setting is read back, and neither disturbs the other.
\<close>

unbundle bit_operations_syntax

section \<open>Parameters\<close>

record IFX_ETHSW_QoS_DSCP_ClassCfg =
  dc_nTrafficClass :: "u8 list"

record IFX_ETHSW_QoS_ClassDSCP_Cfg =
  cd_nDSCP :: "u8 list"

record IFX_ETHSW_QoS_DSCP_DropPrecedenceCfg =
  dd_nDSCP_DropPrecedence :: "u32 list"

record IFX_ETHSW_QoS_ClassPCP_Cfg =
  cp_nPCP :: "u8 list"

record IFX_ETHSW_QoS_PCP_ClassCfg =
  pc_nTrafficClass :: "u8 list"

section \<open>Loops over the rows of a table\<close>

text \<open>
  The loops of these handlers. \<open>pre\<close> is what happens to the local entry at the start of a turn: nothing,
  or \<^verbatim>\<open>memset\<close>; then table and index are set, the row is read, and a setter changes \<^verbatim>\<open>val[0]\<close> and
  writes the row back. \<open>g\<close> is the entry as the turn finds it.
\<close>

abbreviation val0 :: "pce_entry \<Rightarrow> u16" where
  "val0 e \<equiv> e_val e ! 0"

definition put0 :: "u16 \<Rightarrow> pce_entry \<Rightarrow> pce_entry" where
  "put0 v e = e\<lparr>e_val := (e_val e)[0 := v]\<rparr>"

fun rows_set :: "('p hw \<Rightarrow> 'p hw) \<Rightarrow> (pce_entry \<Rightarrow> pce_entry) \<Rightarrow> u16 \<Rightarrow> (nat \<Rightarrow> u16 \<Rightarrow> u16) \<Rightarrow> nat list \<Rightarrow>
    pce_entry \<Rightarrow> 'p core \<Rightarrow> 'p core option" where
  "rows_set hwstep pre t f [] g s = Some s"
| "rows_set hwstep pre t f (i # is) g s = do {
     (e, s) \<leftarrow> row_read hwstep ((pre g)\<lparr>e_table := t, e_index := of_nat i\<rparr>) s;
     let e = put0 (f i (val0 e)) e;
     s \<leftarrow> row_write hwstep e s;
     rows_set hwstep pre t f is e s }"

fun rows_get :: "('p hw \<Rightarrow> 'p hw) \<Rightarrow> (pce_entry \<Rightarrow> pce_entry) \<Rightarrow> u16 \<Rightarrow> nat list \<Rightarrow>
    pce_entry \<Rightarrow> 'p core \<Rightarrow> (u16 list \<times> 'p core) option" where
  "rows_get hwstep pre t [] g s = Some ([], s)"
| "rows_get hwstep pre t (i # is) g s = do {
     (e, s) \<leftarrow> row_read hwstep ((pre g)\<lparr>e_table := t, e_index := of_nat i\<rparr>) s;
     (vs, s) \<leftarrow> rows_get hwstep pre t is e s;
     Some (val0 e # vs, s) }"

fun rows_fill :: "('p hw \<Rightarrow> 'p hw) \<Rightarrow> u16 \<Rightarrow> (nat \<Rightarrow> u16) \<Rightarrow> nat list \<Rightarrow> 'p core \<Rightarrow> 'p core option" where
  "rows_fill hwstep t f [] s = Some s"
| "rows_fill hwstep t f (i # is) s = do {
     s \<leftarrow> row_write hwstep (put0 (f i) (zero_entry\<lparr>e_table := t, e_index := of_nat i\<rparr>)) s;
     rows_fill hwstep t f is s }"

abbreviation (input) clear :: "pce_entry \<Rightarrow> pce_entry" where
  "clear \<equiv> \<lambda>_. zero_entry"

abbreviation (input) keep_on :: "pce_entry \<Rightarrow> pce_entry" where
  "keep_on \<equiv> \<lambda>e. e"

section \<open>The handlers\<close>

abbreviation (input) PCE_PCP_INDEX :: u16 where "PCE_PCP_INDEX \<equiv> 0x9"
abbreviation (input) PCE_DSCP_INDEX :: u16 where "PCE_DSCP_INDEX \<equiv> 0xA"
abbreviation (input) PCE_REMARKING_INDEX :: u16 where "PCE_REMARKING_INDEX \<equiv> 0x10"

definition put_class :: "u8 \<Rightarrow> u16 \<Rightarrow> u16" where
  "put_class c v = (v AND NOT 0xF) OR (ucast c AND 0xF)"

definition get_class :: "u16 \<Rightarrow> u8" where
  "get_class v = ucast (v AND 0xF)"

definition put_drop :: "u32 \<Rightarrow> u16 \<Rightarrow> u16" where
  "put_drop d v = (v AND NOT (push_bit 4 0x3)) OR ucast (push_bit 4 (d AND 0x3))"

definition get_drop :: "u16 \<Rightarrow> u32" where
  "get_drop v = ucast (drop_bit 4 v AND 0x3)"

definition put_dscp :: "u8 \<Rightarrow> u16 \<Rightarrow> u16" where
  "put_dscp d v = (let nPCP = drop_bit 8 v AND 0x7; nDSCP = ucast d AND 0x3F in push_bit 8 nPCP OR nDSCP)"

definition get_dscp :: "u16 \<Rightarrow> u8" where
  "get_dscp v = ucast (v AND 0x3F)"

definition put_pcp :: "u8 \<Rightarrow> u16 \<Rightarrow> u16" where
  "put_pcp p v = (let nDSCP = v AND 0x3F; nPCP = ucast p AND 0x7 in push_bit 8 nPCP OR nDSCP)"

definition get_pcp :: "u16 \<Rightarrow> u8" where
  "get_pcp v = ucast (drop_bit 8 v AND 0x7)"

text \<open>\<open>g\<close> is the uninitialised local entry.\<close>

definition IFX_FLOW_QoS_DSCP_ClassGet ::
  "('p hw \<Rightarrow> 'p hw) \<Rightarrow> pce_entry \<Rightarrow> IFX_ETHSW_QoS_DSCP_ClassCfg \<Rightarrow> 'p core \<Rightarrow> (int \<times> IFX_ETHSW_QoS_DSCP_ClassCfg \<times> 'p core) option" where
  "IFX_FLOW_QoS_DSCP_ClassGet hwstep g q s = do {
     (vs, s) \<leftarrow> rows_get hwstep keep_on PCE_DSCP_INDEX [0..<64] g s;
     Some (IFX_SUCCESS, q\<lparr>dc_nTrafficClass := map get_class vs\<rparr>, s) }"

definition IFX_FLOW_QoS_DSCP_ClassSet ::
  "('p hw \<Rightarrow> 'p hw) \<Rightarrow> pce_entry \<Rightarrow> IFX_ETHSW_QoS_DSCP_ClassCfg \<Rightarrow> 'p core \<Rightarrow> (int \<times> 'p core) option" where
  "IFX_FLOW_QoS_DSCP_ClassSet hwstep g q s = do {
     s \<leftarrow> rows_set hwstep keep_on PCE_DSCP_INDEX (\<lambda>i. put_class (dc_nTrafficClass q ! i)) [0..<64] g s;
     Some (IFX_SUCCESS, s) }"

definition IFX_FLOW_QoS_ClassDSCP_Get ::
  "('p hw \<Rightarrow> 'p hw) \<Rightarrow> pce_entry \<Rightarrow> IFX_ETHSW_QoS_ClassDSCP_Cfg \<Rightarrow> 'p core \<Rightarrow> (int \<times> IFX_ETHSW_QoS_ClassDSCP_Cfg \<times> 'p core) option" where
  "IFX_FLOW_QoS_ClassDSCP_Get hwstep g q s = do {
     (vs, s) \<leftarrow> rows_get hwstep keep_on PCE_REMARKING_INDEX [0..<16] g s;
     Some (IFX_SUCCESS, q\<lparr>cd_nDSCP := map get_dscp vs\<rparr>, s) }"

definition IFX_FLOW_QoS_ClassDSCP_Set ::
  "('p hw \<Rightarrow> 'p hw) \<Rightarrow> pce_entry \<Rightarrow> IFX_ETHSW_QoS_ClassDSCP_Cfg \<Rightarrow> 'p core \<Rightarrow> (int \<times> 'p core) option" where
  "IFX_FLOW_QoS_ClassDSCP_Set hwstep g q s = do {
     s \<leftarrow> rows_set hwstep keep_on PCE_REMARKING_INDEX (\<lambda>i. put_dscp (cd_nDSCP q ! i)) [0..<16] g s;
     Some (IFX_SUCCESS, s) }"

definition IFX_FLOW_QoS_DSCP_DropPrecedenceCfgGet ::
  "('p hw \<Rightarrow> 'p hw) \<Rightarrow> pce_entry \<Rightarrow> IFX_ETHSW_QoS_DSCP_DropPrecedenceCfg \<Rightarrow> 'p core \<Rightarrow>
     (int \<times> IFX_ETHSW_QoS_DSCP_DropPrecedenceCfg \<times> 'p core) option" where
  "IFX_FLOW_QoS_DSCP_DropPrecedenceCfgGet hwstep g q s = do {
     (vs, s) \<leftarrow> rows_get hwstep clear PCE_DSCP_INDEX [0..<64] g s;
     Some (IFX_SUCCESS, q\<lparr>dd_nDSCP_DropPrecedence := map get_drop vs\<rparr>, s) }"

definition IFX_FLOW_QoS_DSCP_DropPrecedenceCfgSet ::
  "('p hw \<Rightarrow> 'p hw) \<Rightarrow> pce_entry \<Rightarrow> IFX_ETHSW_QoS_DSCP_DropPrecedenceCfg \<Rightarrow> 'p core \<Rightarrow> (int \<times> 'p core) option" where
  "IFX_FLOW_QoS_DSCP_DropPrecedenceCfgSet hwstep g q s = do {
     s \<leftarrow> rows_set hwstep clear PCE_DSCP_INDEX (\<lambda>i. put_drop (dd_nDSCP_DropPrecedence q ! i)) [0..<64] g s;
     Some (IFX_SUCCESS, s) }"

definition IFX_FLOW_QoS_ClassPCP_Get ::
  "('p hw \<Rightarrow> 'p hw) \<Rightarrow> pce_entry \<Rightarrow> IFX_ETHSW_QoS_ClassPCP_Cfg \<Rightarrow> 'p core \<Rightarrow> (int \<times> IFX_ETHSW_QoS_ClassPCP_Cfg \<times> 'p core) option" where
  "IFX_FLOW_QoS_ClassPCP_Get hwstep g q s = do {
     (vs, s) \<leftarrow> rows_get hwstep keep_on PCE_REMARKING_INDEX [0..<16] g s;
     Some (IFX_SUCCESS, q\<lparr>cp_nPCP := map get_pcp vs\<rparr>, s) }"

definition IFX_FLOW_QoS_ClassPCP_Set ::
  "('p hw \<Rightarrow> 'p hw) \<Rightarrow> pce_entry \<Rightarrow> IFX_ETHSW_QoS_ClassPCP_Cfg \<Rightarrow> 'p core \<Rightarrow> (int \<times> 'p core) option" where
  "IFX_FLOW_QoS_ClassPCP_Set hwstep g q s = do {
     s \<leftarrow> rows_set hwstep keep_on PCE_REMARKING_INDEX (\<lambda>i. put_pcp (cp_nPCP q ! i)) [0..<16] g s;
     Some (IFX_SUCCESS, s) }"

definition IFX_FLOW_QoS_PCP_ClassGet ::
  "('p hw \<Rightarrow> 'p hw) \<Rightarrow> pce_entry \<Rightarrow> IFX_ETHSW_QoS_PCP_ClassCfg \<Rightarrow> 'p core \<Rightarrow> (int \<times> IFX_ETHSW_QoS_PCP_ClassCfg \<times> 'p core) option" where
  "IFX_FLOW_QoS_PCP_ClassGet hwstep g q s = do {
     (vs, s) \<leftarrow> rows_get hwstep keep_on PCE_PCP_INDEX [0..<8] g s;
     Some (IFX_SUCCESS, q\<lparr>pc_nTrafficClass := map get_class vs\<rparr>, s) }"

definition IFX_FLOW_QoS_PCP_ClassSet ::
  "('p hw \<Rightarrow> 'p hw) \<Rightarrow> IFX_ETHSW_QoS_PCP_ClassCfg \<Rightarrow> 'p core \<Rightarrow> (int \<times> 'p core) option" where
  "IFX_FLOW_QoS_PCP_ClassSet hwstep q s = do {
     s \<leftarrow> rows_fill hwstep PCE_PCP_INDEX (\<lambda>i. ucast (pc_nTrafficClass q ! i) AND 0xF) [0..<8] s;
     Some (IFX_SUCCESS, s) }"

section \<open>The loops, specified\<close>

text \<open>The bits of \<^verbatim>\<open>val[0]\<close> that the class tables store: what their handlers use.\<close>

definition class_bits :: "nat \<Rightarrow> nat set" where
  "class_bits t = (if t = 9 then {..<4} else if t = 10 then {..<6} else if t = 16 then {..<6} \<union> {8..<11}
     else if t = 17 then {..<5} else {})"

locale class_device = pce_engine hwstep tbl keep stable
  for hwstep :: "'p hw \<Rightarrow> 'p hw" and tbl :: "'p \<Rightarrow> nat \<Rightarrow> nat \<Rightarrow> pce_img"
    and keep :: "nat \<Rightarrow> pce_img \<Rightarrow> pce_img" and stable :: "16 word set" +
  assumes holds_bits: "n \<in> class_bits t \<Longrightarrow> bit (i_val (keep t m) ! 0) n = bit (i_val m ! 0) n"

interpretation refc: class_device ref_step ref_tbl "\<lambda>_ m. m" UNIV
  by unfold_locales simp

lemma class_engine: "class_device hwstep tbl keep S \<Longrightarrow> pce_engine hwstep tbl keep S"
  by (simp add: class_device_def)

definition put_img :: "u16 \<Rightarrow> pce_img \<Rightarrow> pce_img" where
  "put_img v m = m\<lparr>i_val := (i_val m)[0 := v]\<rparr>"

lemma rows_set_spec:
  assumes E: "pce_engine hwstep tbl keep S" and t: "unat t = T" "T < 32" "T \<noteq> 11"
    and pre: "\<And>e. length (e_key e) = 16 \<Longrightarrow> length (e_key (pre e)) = 16"
  shows "idle (hw_of s) \<Longrightarrow> length (e_key g) = 16 \<Longrightarrow> distinct js \<Longrightarrow> \<forall>i\<in>set js. i < pce_table_size T \<Longrightarrow>
    \<exists>h. rows_set hwstep pre t f js g s = Some (upd_hw (\<lambda>_. h) s) \<and> idle h \<and>
      (\<forall>i\<in>set js. length (i_val (dtbl tbl s T i)) = 7 \<and>
        driver_tbl tbl h T i = keep T (put_img (f i (i_val (dtbl tbl s T i) ! 0)) (dtbl tbl s T i))) \<and>
      (\<forall>t' i. t' \<noteq> T \<or> i \<notin> set js \<longrightarrow> driver_tbl tbl h t' i = dtbl tbl s t' i)"
proof (induction js arbitrary: g s)
  case Nil
  then show ?case by (intro exI [of _ "hw_of s"]) (simp add: upd_hw_def)
next
  case (Cons i js)
  let ?g = "(pre g)\<lparr>e_table := t, e_index := of_nat i\<rparr>" and ?m = "dtbl tbl s T i"
  have i: "i < pce_table_size T" using Cons.prems(4) by simp
  then have "i < 65536" by (auto simp: pce_table_size_def split: if_splits)
  then have ix: "unat (e_index ?g) = i" and tt: "unat (e_table ?g) = T" by (simp_all add: unat_of_nat_small t)
  obtain h1 where h1: "row_read hwstep ?g s = Some (with_img ?m ?g, upd_hw (\<lambda>_. h1) s)" "idle h1"
    "driver_tbl tbl h1 = dtbl tbl s" "length (i_key ?m) = 9" "length (i_val ?m) = 7"
    by (rule row_read_spec [OF E Cons.prems(1) tt t(2,3) ix i])
  let ?e = "put0 (f i (val0 (with_img ?m ?g))) (with_img ?m ?g)" and ?s1 = "upd_hw (\<lambda>_. h1) s"
  have v: "val0 (with_img ?m ?g) = i_val ?m ! 0" by (simp add: with_img_def)
  have wf: "entry_wf ?e" "unat (e_table ?e) = T" "unat (e_index ?e) = i" "length (e_key ?e) = 16"
    using h1(4,5) pre [OF Cons.prems(2)] t(1) \<open>i < 65536\<close>
    by (simp_all add: entry_wf_def put0_def with_img_def unat_of_nat_small)
  have im: "img_of ?e = put_img (f i (i_val ?m ! 0)) ?m"
    using h1(4,5) by (cases ?m) (simp add: img_of_def put0_def with_img_def put_img_def)
  have s1: "idle (hw_of ?s1)" using h1(2) by simp
  obtain h2 where h2: "row_write hwstep ?e ?s1 = Some (upd_hw (\<lambda>_. h2) ?s1)" "idle h2"
    "driver_tbl tbl h2 = set_row (dtbl tbl ?s1) T i (keep T (img_of ?e))"
    by (rule row_write_spec [OF E s1 wf(1,2) t(2,3) wf(3) i])
  let ?s2 = "upd_hw (\<lambda>_. h2) ?s1"
  have s2: "idle (hw_of ?s2)" "distinct js" "\<forall>i\<in>set js. i < pce_table_size T" "i \<notin> set js"
    using h2(2) Cons.prems(3,4) by simp_all
  obtain h where h: "rows_set hwstep pre t f js ?e ?s2 = Some (upd_hw (\<lambda>_. h) ?s2)" "idle h"
    "\<forall>i\<in>set js. length (i_val (dtbl tbl ?s2 T i)) = 7 \<and>
        driver_tbl tbl h T i = keep T (put_img (f i (i_val (dtbl tbl ?s2 T i) ! 0)) (dtbl tbl ?s2 T i))"
    "\<forall>t' i. t' \<noteq> T \<or> i \<notin> set js \<longrightarrow> driver_tbl tbl h t' i = dtbl tbl ?s2 t' i"
    using Cons.IH [OF s2(1) wf(4) s2(2,3)] by blast
  have d2: "dtbl tbl ?s2 = set_row (dtbl tbl s) T i (keep T (put_img (f i (i_val ?m ! 0)) ?m))"
    using h1(3) h2(3) im by simp
  have u: "upd_hw (\<lambda>_. h) ?s2 = upd_hw (\<lambda>_. h) s" by (simp add: upd_hw_def)
  show ?case
    using h1(1,5) h2(1) h s2(4) u unfolding d2 by (intro exI [of _ h]) (auto simp: set_row_def Let_def)
qed

lemma rows_get_spec:
  assumes E: "pce_engine hwstep tbl keep S" and t: "unat t = T" "T < 32" "T \<noteq> 11"
  shows "idle (hw_of s) \<Longrightarrow> \<forall>i\<in>set js. i < pce_table_size T \<Longrightarrow>
    \<exists>h. rows_get hwstep pre t js g s = Some (map (\<lambda>i. i_val (dtbl tbl s T i) ! 0) js, upd_hw (\<lambda>_. h) s) \<and>
      idle h \<and> driver_tbl tbl h = dtbl tbl s"
proof (induction js arbitrary: g s)
  case Nil
  then show ?case by (intro exI [of _ "hw_of s"]) (simp add: upd_hw_def)
next
  case (Cons i js)
  let ?g = "(pre g)\<lparr>e_table := t, e_index := of_nat i\<rparr>" and ?m = "dtbl tbl s T i"
  have i: "i < pce_table_size T" using Cons.prems(2) by simp
  then have "i < 65536" by (auto simp: pce_table_size_def split: if_splits)
  then have ix: "unat (e_index ?g) = i" and tt: "unat (e_table ?g) = T" by (simp_all add: unat_of_nat_small t)
  obtain h1 where h1: "row_read hwstep ?g s = Some (with_img ?m ?g, upd_hw (\<lambda>_. h1) s)" "idle h1"
    "driver_tbl tbl h1 = dtbl tbl s"
    by (rule row_read_spec [OF E Cons.prems(1) tt t(2,3) ix i])
  let ?s1 = "upd_hw (\<lambda>_. h1) s"
  have s1: "idle (hw_of ?s1)" "\<forall>i\<in>set js. i < pce_table_size T" using h1(2) Cons.prems(2) by simp_all
  obtain h where h: "rows_get hwstep pre t js (with_img ?m ?g) ?s1 =
      Some (map (\<lambda>i. i_val (dtbl tbl ?s1 T i) ! 0) js, upd_hw (\<lambda>_. h) ?s1)" "idle h" "driver_tbl tbl h = dtbl tbl ?s1"
    using Cons.IH [OF s1] by blast
  have "upd_hw (\<lambda>_. h) ?s1 = upd_hw (\<lambda>_. h) s" by (simp add: upd_hw_def)
  then show ?case using h1(1,3) h by (intro exI [of _ h]) (simp add: with_img_def)
qed

lemma rows_fill_spec:
  assumes E: "pce_engine hwstep tbl keep S" and t: "unat t = T" "T < 32" "T \<noteq> 11"
  shows "idle (hw_of s) \<Longrightarrow> distinct js \<Longrightarrow> \<forall>i\<in>set js. i < pce_table_size T \<Longrightarrow>
    \<exists>h. rows_fill hwstep t f js s = Some (upd_hw (\<lambda>_. h) s) \<and> idle h \<and>
      (\<forall>i\<in>set js. driver_tbl tbl h T i = keep T (put_img (f i) (img_of zero_entry))) \<and>
      (\<forall>t' i. t' \<noteq> T \<or> i \<notin> set js \<longrightarrow> driver_tbl tbl h t' i = dtbl tbl s t' i)"
proof (induction "js" arbitrary: s)
  case Nil
  then show ?case by (intro exI [of _ "hw_of s"]) (simp add: upd_hw_def)
next
  case (Cons i "js")
  let ?e = "put0 (f i) (zero_entry\<lparr>e_table := t, e_index := of_nat i\<rparr>)"
  have i: "i < pce_table_size T" using Cons.prems(3) by simp
  then have "i < 65536" by (auto simp: pce_table_size_def split: if_splits)
  then have wf: "entry_wf ?e" "unat (e_table ?e) = T" "unat (e_index ?e) = i"
    by (simp_all add: entry_wf_def put0_def zero_entry_def unat_of_nat_small t)
  have im: "img_of ?e = put_img (f i) (img_of zero_entry)" by (simp add: img_of_def put0_def put_img_def)
  obtain h1 where h1: "row_write hwstep ?e s = Some (upd_hw (\<lambda>_. h1) s)" "idle h1"
    "driver_tbl tbl h1 = set_row (dtbl tbl s) T i (keep T (img_of ?e))"
    by (rule row_write_spec [OF E Cons.prems(1) wf(1,2) t(2,3) wf(3) i])
  let ?s1 = "upd_hw (\<lambda>_. h1) s"
  have s1: "idle (hw_of ?s1)" "distinct js" "\<forall>i\<in>set js. i < pce_table_size T" "i \<notin> set js"
    using h1(2) Cons.prems(2,3) by simp_all
  obtain h where h: "rows_fill hwstep t f js ?s1 = Some (upd_hw (\<lambda>_. h) ?s1)" "idle h"
    "\<forall>i\<in>set js. driver_tbl tbl h T i = keep T (put_img (f i) (img_of zero_entry))"
    "\<forall>t' i. t' \<noteq> T \<or> i \<notin> set js \<longrightarrow> driver_tbl tbl h t' i = dtbl tbl ?s1 t' i"
    using Cons.IH [OF s1(1-3)] by blast
  have d1: "dtbl tbl ?s1 = set_row (dtbl tbl s) T i (keep T (put_img (f i) (img_of zero_entry)))"
    using h1(3) im by simp
  have u: "upd_hw (\<lambda>_. h) ?s1 = upd_hw (\<lambda>_. h) s" by (simp add: upd_hw_def)
  show ?case
    using h1(1) h s1(4) u unfolding d1 by (intro exI [of _ h]) (auto simp: set_row_def Let_def)
qed

text \<open>One setting of every row of a table, read off the tables of the device.\<close>

definition column :: "(u16 \<Rightarrow> 'v) \<Rightarrow> nat \<Rightarrow> nat \<Rightarrow> (nat \<Rightarrow> nat \<Rightarrow> pce_img) \<Rightarrow> 'v list" where
  "column get T n d = map (\<lambda>i. get (i_val (d T i) ! 0)) [0..<n]"

lemma column_cong: "(\<And>i. d T i = d' T i) \<Longrightarrow> column get T n d = column get T n d'"
  by (simp add: column_def)

section \<open>Packed settings\<close>

text \<open>A setting in some of the bits that a table stores, and two settings in different bits.\<close>

locale packed =
  fixes T :: nat and get :: "u16 \<Rightarrow> 'v" and put :: "'v \<Rightarrow> u16 \<Rightarrow> u16" and norm :: "'v \<Rightarrow> 'v"
  assumes get_put: "get (put x v) = norm x"
    and get_bits: "(\<And>n. n \<in> class_bits T \<Longrightarrow> bit v n = bit w n) \<Longrightarrow> get v = get w"
    and small: "T < 32" "T \<noteq> 11"
begin

lemma get_stored:
  assumes "class_device hwstep tbl keep S" "length (i_val m) = 7"
  shows "get (i_val (keep T (put_img v m)) ! 0) = get v"
proof (rule get_bits)
  fix n assume "n \<in> class_bits T"
  then show "bit (i_val (keep T (put_img v m)) ! 0) n = bit v n"
    using class_device.holds_bits [OF assms(1)] assms(2) by (simp add: put_img_def)
qed

lemma set_rows:
  assumes D: "class_device hwstep tbl keep S" and s: "idle (hw_of s)" and g: "length (e_key g) = 16"
    and pre: "\<And>e. length (e_key e) = 16 \<Longrightarrow> length (e_key (pre e)) = 16"
    and n: "n \<le> pce_table_size T" and t: "unat t = T"
  obtains h where "rows_set hwstep pre t (\<lambda>i. put (x i)) [0..<n] g s = Some (upd_hw (\<lambda>_. h) s)" "idle h"
    "column get T n (driver_tbl tbl h) = map (\<lambda>i. norm (x i)) [0..<n]"
    "\<And>i. i < n \<Longrightarrow> length (i_val (dtbl tbl s T i)) = 7 \<and>
       driver_tbl tbl h T i = keep T (put_img (put (x i) (i_val (dtbl tbl s T i) ! 0)) (dtbl tbl s T i))"
    "\<And>t' i. t' \<noteq> T \<Longrightarrow> driver_tbl tbl h t' i = dtbl tbl s t' i"
proof -
  obtain h where h: "rows_set hwstep pre t (\<lambda>i. put (x i)) [0..<n] g s = Some (upd_hw (\<lambda>_. h) s)" "idle h"
    "\<forall>i\<in>set [0..<n]. length (i_val (dtbl tbl s T i)) = 7 \<and>
       driver_tbl tbl h T i = keep T (put_img (put (x i) (i_val (dtbl tbl s T i) ! 0)) (dtbl tbl s T i))"
    "\<forall>t' i. t' \<noteq> T \<or> i \<notin> set [0..<n] \<longrightarrow> driver_tbl tbl h t' i = dtbl tbl s t' i"
    using rows_set_spec [where pre = pre and js = "[0..<n]" and f = "\<lambda>i. put (x i)", OF class_engine [OF D] t small pre s g] n by auto
  show ?thesis
    by (rule that [OF h(1,2)]) (use h(3,4) get_stored [OF D] get_put in \<open>auto simp: column_def\<close>)
qed

lemma fill_rows:
  assumes D: "class_device hwstep tbl keep S" and s: "idle (hw_of s)"
    and n: "n \<le> pce_table_size T" and t: "unat t = T" and f: "\<And>i. i < n \<Longrightarrow> get (f i) = norm (x i)"
  obtains h where "rows_fill hwstep t f [0..<n] s = Some (upd_hw (\<lambda>_. h) s)" "idle h"
    "column get T n (driver_tbl tbl h) = map (\<lambda>i. norm (x i)) [0..<n]"
    "\<And>t' i. t' \<noteq> T \<Longrightarrow> driver_tbl tbl h t' i = dtbl tbl s t' i"
proof -
  obtain h where h: "rows_fill hwstep t f [0..<n] s = Some (upd_hw (\<lambda>_. h) s)" "idle h"
    "\<forall>i\<in>set [0..<n]. driver_tbl tbl h T i = keep T (put_img (f i) (img_of zero_entry))"
    "\<forall>t' i. t' \<noteq> T \<or> i \<notin> set [0..<n] \<longrightarrow> driver_tbl tbl h t' i = dtbl tbl s t' i"
    using rows_fill_spec [where js = "[0..<n]" and f = f, OF class_engine [OF D] t small s] n by auto
  have "length (i_val (img_of zero_entry)) = 7" by (simp add: img_of_def zero_entry_def)
  then have "get (i_val (driver_tbl tbl h T i) ! 0) = norm (x i)" if "i < n" for i
    using get_stored [OF D] f h(3) that by simp
  then show ?thesis by (intro that [OF h(1,2)]) (use h(4) in \<open>auto simp: column_def\<close>)
qed

lemma read_rows:
  assumes D: "class_device hwstep tbl keep S" and s: "idle (hw_of s)" and n: "n \<le> pce_table_size T" and t: "unat t = T"
  obtains vs h where "rows_get hwstep pre t [0..<n] g s = Some (vs, upd_hw (\<lambda>_. h) s)"
    "map get vs = column get T n (dtbl tbl s)" "idle h" "driver_tbl tbl h = dtbl tbl s"
proof -
  obtain h where "rows_get hwstep pre t [0..<n] g s = Some (map (\<lambda>i. i_val (dtbl tbl s T i) ! 0) [0..<n], upd_hw (\<lambda>_. h) s)"
    "idle h" "driver_tbl tbl h = dtbl tbl s"
    using rows_get_spec [OF class_engine [OF D] t small s, where js = "[0..<n]" and pre = pre and g = g] n by auto
  from that [OF this(1) _ this(2,3)] show ?thesis by (simp add: column_def o_def)
qed

end

locale packed_pair = packed T get put norm + other: packed T get' put' norm'
  for T :: nat and get :: "u16 \<Rightarrow> 'v" and put norm and get' :: "u16 \<Rightarrow> 'w" and put' norm' +
  assumes apart: "get' (put x v) = get' v"
begin

lemma other_kept:
  assumes "class_device hwstep tbl keep S" "length (i_val m) = 7"
  shows "get' (i_val (keep T (put_img (put x (i_val m ! 0)) m)) ! 0) = get' (i_val m ! 0)"
  using other.get_stored [OF assms] by (simp add: apart)

lemma set_pair:
  assumes "class_device hwstep tbl keep S" "idle (hw_of s)" "length (e_key g) = 16"
    and "\<And>e. length (e_key e) = 16 \<Longrightarrow> length (e_key (pre e)) = 16"
    and "n \<le> pce_table_size T" "unat t = T"
  obtains h where "rows_set hwstep pre t (\<lambda>i. put (x i)) [0..<n] g s = Some (upd_hw (\<lambda>_. h) s)" "idle h"
    "column get T n (driver_tbl tbl h) = map (\<lambda>i. norm (x i)) [0..<n]"
    "column get' T n (driver_tbl tbl h) = column get' T n (dtbl tbl s)"
    "\<And>t' i. t' \<noteq> T \<Longrightarrow> driver_tbl tbl h t' i = dtbl tbl s t' i"
proof (rule set_rows [OF assms, where x = x])
  fix h assume h: "rows_set hwstep pre t (\<lambda>i. put (x i)) [0..<n] g s = Some (upd_hw (\<lambda>_. h) s)" "idle h"
    "column get T n (driver_tbl tbl h) = map (\<lambda>i. norm (x i)) [0..<n]"
    "\<And>i. i < n \<Longrightarrow> length (i_val (dtbl tbl s T i)) = 7 \<and>
       driver_tbl tbl h T i = keep T (put_img (put (x i) (i_val (dtbl tbl s T i) ! 0)) (dtbl tbl s T i))"
    "\<And>t' i. t' \<noteq> T \<Longrightarrow> driver_tbl tbl h t' i = dtbl tbl s t' i"
  have "column get' T n (driver_tbl tbl h) = column get' T n (dtbl tbl s)"
    using other_kept [OF assms(1)] h(4) by (simp add: column_def)
  from that [OF h(1-3) this h(5)] show thesis .
qed

end

section \<open>The settings of the class tables\<close>

lemma class_bits_simps:
  "class_bits 9 = {..<4}" "class_bits 10 = {..<6}" "class_bits 16 = {..<6} \<union> {8..<11}" "class_bits 17 = {..<5}"
  by (simp_all add: class_bits_def)

lemma bit_low_masks:
  "bit (3 :: 'a::len word) n \<longleftrightarrow> n < 2 \<and> n < LENGTH('a)"
  "bit (7 :: 'a::len word) n \<longleftrightarrow> n < 3 \<and> n < LENGTH('a)"
  "bit (0xF :: 'a::len word) n \<longleftrightarrow> n < 4 \<and> n < LENGTH('a)"
  "bit (0x3F :: 'a::len word) n \<longleftrightarrow> n < 6 \<and> n < LENGTH('a)"
proof -
  have m: "(3 :: 'a word) = mask 2" "(7 :: 'a word) = mask 3" "(0xF :: 'a word) = mask 4" "(0x3F :: 'a word) = mask 6"
    by (simp_all add: mask_eq_exp_minus_1)
  show "bit (3 :: 'a word) n \<longleftrightarrow> n < 2 \<and> n < LENGTH('a)" unfolding m(1) bit_mask_iff by auto
  show "bit (7 :: 'a word) n \<longleftrightarrow> n < 3 \<and> n < LENGTH('a)" unfolding m(2) bit_mask_iff by auto
  show "bit (0xF :: 'a word) n \<longleftrightarrow> n < 4 \<and> n < LENGTH('a)" unfolding m(3) bit_mask_iff by auto
  show "bit (0x3F :: 'a word) n \<longleftrightarrow> n < 6 \<and> n < LENGTH('a)" unfolding m(4) bit_mask_iff by auto
qed

lemmas setting_defs = get_class_def put_class_def get_drop_def put_drop_def get_dscp_def put_dscp_def
  get_pcp_def put_pcp_def Let_def

lemmas setting_bits = setting_defs bit_and_iff bit_or_iff bit_not_iff bit_ucast_iff bit_push_bit_iff
  bit_drop_bit_eq o_def bit_low_masks class_bits_simps

interpretation dscp_class: packed 10 get_class put_class "\<lambda>c. c AND 0xF"
proof unfold_locales
  show "get_class (put_class x v) = (\<lambda>c. c AND 0xF) x" for x v
    by (rule bit_word_eqI) (simp only: setting_bits, auto)
  show "get_class v = get_class w" if "\<And>n. n \<in> class_bits 10 \<Longrightarrow> bit v n = bit w n" for v w
    using that by (intro bit_word_eqI) (simp only: setting_bits, auto)
qed simp_all

interpretation dscp_drop: packed 10 get_drop put_drop "\<lambda>d. d AND 3"
proof unfold_locales
  show "get_drop (put_drop x v) = (\<lambda>d. d AND 3) x" for x v
    by (rule bit_word_eqI) (simp only: setting_bits, auto)
  show "get_drop v = get_drop w" if "\<And>n. n \<in> class_bits 10 \<Longrightarrow> bit v n = bit w n" for v w
    using that by (intro bit_word_eqI) (simp only: setting_bits, auto)
qed simp_all

interpretation class_dscp: packed 16 get_dscp put_dscp "\<lambda>d. d AND 0x3F"
proof unfold_locales
  show "get_dscp (put_dscp x v) = (\<lambda>d. d AND 0x3F) x" for x v
    by (rule bit_word_eqI) (simp only: setting_bits, auto)
  show "get_dscp v = get_dscp w" if "\<And>n. n \<in> class_bits 16 \<Longrightarrow> bit v n = bit w n" for v w
    using that by (intro bit_word_eqI) (simp only: setting_bits, auto)
qed simp_all

interpretation class_pcp: packed 16 get_pcp put_pcp "\<lambda>p. p AND 7"
proof unfold_locales
  show "get_pcp (put_pcp x v) = (\<lambda>p. p AND 7) x" for x v
    by (rule bit_word_eqI) (simp only: setting_bits, auto)
  show "get_pcp v = get_pcp w" if "\<And>n. n \<in> class_bits 16 \<Longrightarrow> bit v n = bit w n" for v w
    using that by (intro bit_word_eqI) (simp only: setting_bits, auto)
qed simp_all

interpretation pcp_class: packed 9 get_class put_class "\<lambda>c. c AND 0xF"
proof unfold_locales
  show "get_class (put_class x v) = (\<lambda>c. c AND 0xF) x" for x v
    by (rule bit_word_eqI) (simp only: setting_bits, auto)
  show "get_class v = get_class w" if "\<And>n. n \<in> class_bits 9 \<Longrightarrow> bit v n = bit w n" for v w
    using that by (intro bit_word_eqI) (simp only: setting_bits, auto)
qed simp_all

interpretation dscp_class_then_drop: packed_pair 10 get_class put_class "\<lambda>c. c AND 0xF" get_drop put_drop "\<lambda>d. d AND 3"
proof unfold_locales
  show "get_drop (put_class x v) = get_drop v" for x v
    by (rule bit_word_eqI) (simp only: setting_bits, auto)
qed

interpretation dscp_drop_then_class: packed_pair 10 get_drop put_drop "\<lambda>d. d AND 3" get_class put_class "\<lambda>c. c AND 0xF"
proof unfold_locales
  show "get_class (put_drop x v) = get_class v" for x v
    by (rule bit_word_eqI) (simp only: setting_bits, auto)
qed

interpretation class_dscp_then_pcp: packed_pair 16 get_dscp put_dscp "\<lambda>d. d AND 0x3F" get_pcp put_pcp "\<lambda>p. p AND 7"
proof unfold_locales
  show "get_pcp (put_dscp x v) = get_pcp v" for x v
    by (rule bit_word_eqI) (simp only: setting_bits, auto)
qed

interpretation class_pcp_then_dscp: packed_pair 16 get_pcp put_pcp "\<lambda>p. p AND 7" get_dscp put_dscp "\<lambda>d. d AND 0x3F"
proof unfold_locales
  show "get_dscp (put_pcp x v) = get_dscp v" for x v
    by (rule bit_word_eqI) (simp only: setting_bits, auto)
qed

section \<open>The handlers, specified\<close>

text \<open>What the five pairs of handlers set and report, as one abstract state.\<close>

record class_settings =
  class_of_dscp :: "u8 list"
  drop_of_dscp :: "u32 list"
  dscp_of_class :: "u8 list"
  pcp_of_class :: "u8 list"
  class_of_pcp :: "u8 list"

definition class_settings_of :: "(nat \<Rightarrow> nat \<Rightarrow> pce_img) \<Rightarrow> class_settings" where
  "class_settings_of d = \<lparr>class_of_dscp = column get_class 10 64 d, drop_of_dscp = column get_drop 10 64 d,
     dscp_of_class = column get_dscp 16 16 d, pcp_of_class = column get_pcp 16 16 d,
     class_of_pcp = column get_class 9 8 d\<rparr>"

lemma pre_lengths: "length (e_key zero_entry) = 16"
  by (simp add: zero_entry_def)

lemma class_sizes: "64 \<le> pce_table_size 10" "16 \<le> pce_table_size 16" "8 \<le> pce_table_size 9"
  by (simp_all add: pce_table_size_def)

lemma class_indices: "unat (0xA :: u16) = 10" "unat (0x10 :: u16) = 16" "unat (0x9 :: u16) = 9"
  by simp_all

lemma DSCP_ClassSet_spec:
  assumes "class_device hwstep tbl keep S" "idle (hw_of s)" "length (e_key g) = 16"
  obtains h where "IFX_FLOW_QoS_DSCP_ClassSet hwstep g q s = Some (IFX_SUCCESS, upd_hw (\<lambda>_. h) s)" "idle h"
    "class_settings_of (driver_tbl tbl h) = (class_settings_of (dtbl tbl s))\<lparr>class_of_dscp := map (\<lambda>i. dc_nTrafficClass q ! i AND 0xF) [0..<64]\<rparr>"
    "\<And>t i. t \<noteq> 10 \<Longrightarrow> driver_tbl tbl h t i = dtbl tbl s t i"
  by (rule dscp_class_then_drop.set_pair [OF assms _ class_sizes(1) class_indices(1), of "\<lambda>e. e" "\<lambda>i. dc_nTrafficClass q ! i"])
    (simp_all add: pre_lengths, rule that [rotated], assumption,
     simp_all add: IFX_FLOW_QoS_DSCP_ClassSet_def class_settings_of_def column_def)

lemma DSCP_DropPrecedenceCfgSet_spec:
  assumes "class_device hwstep tbl keep S" "idle (hw_of s)" "length (e_key g) = 16"
  obtains h where "IFX_FLOW_QoS_DSCP_DropPrecedenceCfgSet hwstep g q s = Some (IFX_SUCCESS, upd_hw (\<lambda>_. h) s)" "idle h"
    "class_settings_of (driver_tbl tbl h) = (class_settings_of (dtbl tbl s))\<lparr>drop_of_dscp := map (\<lambda>i. dd_nDSCP_DropPrecedence q ! i AND 3) [0..<64]\<rparr>"
    "\<And>t i. t \<noteq> 10 \<Longrightarrow> driver_tbl tbl h t i = dtbl tbl s t i"
  by (rule dscp_drop_then_class.set_pair [OF assms _ class_sizes(1) class_indices(1), of "\<lambda>_. zero_entry" "\<lambda>i. dd_nDSCP_DropPrecedence q ! i"])
    (simp_all add: pre_lengths, rule that [rotated], assumption,
     simp_all add: IFX_FLOW_QoS_DSCP_DropPrecedenceCfgSet_def class_settings_of_def column_def)

lemma ClassDSCP_Set_spec:
  assumes "class_device hwstep tbl keep S" "idle (hw_of s)" "length (e_key g) = 16"
  obtains h where "IFX_FLOW_QoS_ClassDSCP_Set hwstep g q s = Some (IFX_SUCCESS, upd_hw (\<lambda>_. h) s)" "idle h"
    "class_settings_of (driver_tbl tbl h) = (class_settings_of (dtbl tbl s))\<lparr>dscp_of_class := map (\<lambda>i. cd_nDSCP q ! i AND 0x3F) [0..<16]\<rparr>"
    "\<And>t i. t \<noteq> 16 \<Longrightarrow> driver_tbl tbl h t i = dtbl tbl s t i"
  by (rule class_dscp_then_pcp.set_pair [OF assms _ class_sizes(2) class_indices(2), of "\<lambda>e. e" "\<lambda>i. cd_nDSCP q ! i"])
    (simp_all add: pre_lengths, rule that [rotated], assumption,
     simp_all add: IFX_FLOW_QoS_ClassDSCP_Set_def class_settings_of_def column_def)

lemma ClassPCP_Set_spec:
  assumes "class_device hwstep tbl keep S" "idle (hw_of s)" "length (e_key g) = 16"
  obtains h where "IFX_FLOW_QoS_ClassPCP_Set hwstep g q s = Some (IFX_SUCCESS, upd_hw (\<lambda>_. h) s)" "idle h"
    "class_settings_of (driver_tbl tbl h) = (class_settings_of (dtbl tbl s))\<lparr>pcp_of_class := map (\<lambda>i. cp_nPCP q ! i AND 7) [0..<16]\<rparr>"
    "\<And>t i. t \<noteq> 16 \<Longrightarrow> driver_tbl tbl h t i = dtbl tbl s t i"
  by (rule class_pcp_then_dscp.set_pair [OF assms _ class_sizes(2) class_indices(2), of "\<lambda>e. e" "\<lambda>i. cp_nPCP q ! i"])
    (simp_all add: pre_lengths, rule that [rotated], assumption,
     simp_all add: IFX_FLOW_QoS_ClassPCP_Set_def class_settings_of_def column_def)

lemma PCP_ClassSet_spec:
  assumes "class_device hwstep tbl keep S" "idle (hw_of s)"
  obtains h where "IFX_FLOW_QoS_PCP_ClassSet hwstep q s = Some (IFX_SUCCESS, upd_hw (\<lambda>_. h) s)" "idle h"
    "class_settings_of (driver_tbl tbl h) = (class_settings_of (dtbl tbl s))\<lparr>class_of_pcp := map (\<lambda>i. pc_nTrafficClass q ! i AND 0xF) [0..<8]\<rparr>"
    "\<And>t i. t \<noteq> 9 \<Longrightarrow> driver_tbl tbl h t i = dtbl tbl s t i"
proof (rule pcp_class.fill_rows [OF assms class_sizes(3) class_indices(3),
    where f = "\<lambda>i. ucast (pc_nTrafficClass q ! i) AND 0xF" and x = "\<lambda>i. pc_nTrafficClass q ! i"])
  show "get_class (ucast (pc_nTrafficClass q ! i) AND 0xF) = pc_nTrafficClass q ! i AND 0xF" for i
    by (rule bit_word_eqI) (simp only: setting_bits, auto)
  fix h assume "rows_fill hwstep 9 (\<lambda>i. ucast (pc_nTrafficClass q ! i) AND 0xF) [0..<8] s = Some (upd_hw (\<lambda>_. h) s)"
    "idle h" "column get_class 9 8 (driver_tbl tbl h) = map (\<lambda>i. pc_nTrafficClass q ! i AND 0xF) [0..<8]"
    "\<And>t' i. t' \<noteq> 9 \<Longrightarrow> driver_tbl tbl h t' i = dtbl tbl s t' i"
  then show thesis
    by (intro that [of h]) (simp_all add: IFX_FLOW_QoS_PCP_ClassSet_def class_settings_of_def column_def)
qed

lemma DSCP_ClassGet_spec:
  assumes "class_device hwstep tbl keep S" "idle (hw_of s)"
  obtains h where "IFX_FLOW_QoS_DSCP_ClassGet hwstep g q s = Some (IFX_SUCCESS,
      q\<lparr>dc_nTrafficClass := class_of_dscp (class_settings_of (dtbl tbl s))\<rparr>, upd_hw (\<lambda>_. h) s)" "idle h"
    "driver_tbl tbl h = dtbl tbl s"
  by (rule dscp_class.read_rows [OF assms class_sizes(1) class_indices(1), of "\<lambda>e. e" g])
    (rule that [rotated], assumption, simp_all add: IFX_FLOW_QoS_DSCP_ClassGet_def class_settings_of_def)

lemma DSCP_DropPrecedenceCfgGet_spec:
  assumes "class_device hwstep tbl keep S" "idle (hw_of s)"
  obtains h where "IFX_FLOW_QoS_DSCP_DropPrecedenceCfgGet hwstep g q s = Some (IFX_SUCCESS,
      q\<lparr>dd_nDSCP_DropPrecedence := drop_of_dscp (class_settings_of (dtbl tbl s))\<rparr>, upd_hw (\<lambda>_. h) s)" "idle h"
    "driver_tbl tbl h = dtbl tbl s"
  by (rule dscp_drop.read_rows [OF assms class_sizes(1) class_indices(1), of "\<lambda>_. zero_entry" g])
    (rule that [rotated], assumption, simp_all add: IFX_FLOW_QoS_DSCP_DropPrecedenceCfgGet_def class_settings_of_def)

lemma ClassDSCP_Get_spec:
  assumes "class_device hwstep tbl keep S" "idle (hw_of s)"
  obtains h where "IFX_FLOW_QoS_ClassDSCP_Get hwstep g q s = Some (IFX_SUCCESS,
      q\<lparr>cd_nDSCP := dscp_of_class (class_settings_of (dtbl tbl s))\<rparr>, upd_hw (\<lambda>_. h) s)" "idle h"
    "driver_tbl tbl h = dtbl tbl s"
  by (rule class_dscp.read_rows [OF assms class_sizes(2) class_indices(2), of "\<lambda>e. e" g])
    (rule that [rotated], assumption, simp_all add: IFX_FLOW_QoS_ClassDSCP_Get_def class_settings_of_def)

lemma ClassPCP_Get_spec:
  assumes "class_device hwstep tbl keep S" "idle (hw_of s)"
  obtains h where "IFX_FLOW_QoS_ClassPCP_Get hwstep g q s = Some (IFX_SUCCESS,
      q\<lparr>cp_nPCP := pcp_of_class (class_settings_of (dtbl tbl s))\<rparr>, upd_hw (\<lambda>_. h) s)" "idle h"
    "driver_tbl tbl h = dtbl tbl s"
  by (rule class_pcp.read_rows [OF assms class_sizes(2) class_indices(2), of "\<lambda>e. e" g])
    (rule that [rotated], assumption, simp_all add: IFX_FLOW_QoS_ClassPCP_Get_def class_settings_of_def)

lemma PCP_ClassGet_spec:
  assumes "class_device hwstep tbl keep S" "idle (hw_of s)"
  obtains h where "IFX_FLOW_QoS_PCP_ClassGet hwstep g q s = Some (IFX_SUCCESS,
      q\<lparr>pc_nTrafficClass := class_of_pcp (class_settings_of (dtbl tbl s))\<rparr>, upd_hw (\<lambda>_. h) s)" "idle h"
    "driver_tbl tbl h = dtbl tbl s"
  by (rule pcp_class.read_rows [OF assms class_sizes(3) class_indices(3), of "\<lambda>e. e" g])
    (rule that [rotated], assumption, simp_all add: IFX_FLOW_QoS_PCP_ClassGet_def class_settings_of_def)

end
