(* ===== verification/Core_Meter.thy ===== *)
theory Core_Meter
  imports Core_Classes
begin

text \<open>
  Meters assigned to ports, \<^verbatim>\<open>ltq_flow_core.c\<close>: two tables of eight rows, each row a pair of ports, a
  direction and a meter. The handlers are refined by functions on the contents of the two tables.
\<close>

unbundle bit_operations_syntax

section \<open>Parameters\<close>

record IFX_ETHSW_QoS_meterPort =
  mp_nMeterId :: u32
  mp_eDir :: u32
  mp_nPortIngressId :: u32
  mp_nPortEgressId :: u32

record IFX_ETHSW_QoS_meterPortGet =
  mg_bInitial :: u32
  mg_bLast :: u32
  mg_eDir :: u32
  mg_nMeterId :: u8
  mg_nPortIngressId :: u8
  mg_nPortEgressId :: u8

abbreviation (input) IFX_ETHSW_DIRECTION_NONE :: u32 where "IFX_ETHSW_DIRECTION_NONE \<equiv> 0"
abbreviation (input) IFX_ETHSW_DIRECTION_INGRESS :: u32 where "IFX_ETHSW_DIRECTION_INGRESS \<equiv> 1"
abbreviation (input) IFX_ETHSW_DIRECTION_EGRESS :: u32 where "IFX_ETHSW_DIRECTION_EGRESS \<equiv> 2"
abbreviation (input) IFX_ETHSW_DIRECTION_BOTH :: u32 where "IFX_ETHSW_DIRECTION_BOTH \<equiv> 3"

abbreviation (input) PCE_METER_INS_0_INDEX :: u16 where "PCE_METER_INS_0_INDEX \<equiv> 0x12"
abbreviation (input) PCE_METER_INS_1_INDEX :: u16 where "PCE_METER_INS_1_INDEX \<equiv> 0x13"

section \<open>The handlers\<close>

definition ingress_of :: "u16 \<Rightarrow> u32" where
  "ingress_of k = ucast k AND 0xF"

definition egress_of :: "u16 \<Rightarrow> u32" where
  "egress_of k = ucast (drop_bit 8 k) AND 0xF"

text \<open>A valid row of these two ports.\<close>

definition row_matches :: "IFX_ETHSW_QoS_meterPort \<Rightarrow> pce_entry \<Rightarrow> bool" where
  "row_matches q e \<longleftrightarrow> e_valid e = 1 \<and> egress_of (e_key e ! 0) = mp_nPortEgressId q \<and>
     ingress_of (e_key e ! 0) = mp_nPortIngressId q"

text \<open>The inner loop over the second table: was a row found?\<close>

fun meter_scan_1 :: "('p hw \<Rightarrow> 'p hw) \<Rightarrow> IFX_ETHSW_QoS_meterPort \<Rightarrow> nat list \<Rightarrow> pce_entry \<Rightarrow> 'p core \<Rightarrow>
    (bool \<times> pce_entry \<times> 'p core) option" where
  "meter_scan_1 hwstep q [] e s = Some (False, e, s)"
| "meter_scan_1 hwstep q (i # is) e s = do {
     (e, s) \<leftarrow> row_read hwstep (e\<lparr>e_table := PCE_METER_INS_1_INDEX, e_index := of_nat i\<rparr>) s;
     if row_matches q e then Some (True, e, s) else meter_scan_1 hwstep q is e s }"

text \<open>The outer loop over the first table: error, \<^verbatim>\<open>EntryFound_Tbl\<close>, state.\<close>

fun meter_scan_0 :: "('p hw \<Rightarrow> 'p hw) \<Rightarrow> IFX_ETHSW_QoS_meterPort \<Rightarrow> nat list \<Rightarrow> bool \<Rightarrow> pce_entry \<Rightarrow> 'p core \<Rightarrow>
    (bool \<times> bool \<times> 'p core) option" where
  "meter_scan_0 hwstep q [] found e s = Some (False, found, s)"
| "meter_scan_0 hwstep q (i # is) found e s = do {
     (e, s) \<leftarrow> row_read hwstep (e\<lparr>e_table := PCE_METER_INS_0_INDEX, e_index := of_nat i\<rparr>) s;
     if row_matches q e then do {
       (dup, e, s) \<leftarrow> meter_scan_1 hwstep q [0..<8] e s;
       if dup then Some (True, True, s) else meter_scan_0 hwstep q is True e s }
     else meter_scan_0 hwstep q is found e s }"

text \<open>Key and mask of a direction.\<close>

definition meter_key :: "IFX_ETHSW_QoS_meterPort \<Rightarrow> u16 \<times> u16" where
  "meter_key q =
     (if mp_eDir q = IFX_ETHSW_DIRECTION_BOTH
      then (ucast (push_bit 8 (mp_nPortEgressId q AND 0xF) OR (mp_nPortIngressId q AND 0xF)), 0)
      else if mp_eDir q = IFX_ETHSW_DIRECTION_EGRESS
      then (ucast (push_bit 8 (mp_nPortEgressId q AND 0xF) OR 0xF), 1)
      else if mp_eDir q = IFX_ETHSW_DIRECTION_INGRESS
      then (ucast (0xF00 OR (mp_nPortIngressId q AND 0xF)), 4)
      else (0, 5))"

definition meter_row :: "IFX_ETHSW_QoS_meterPort \<Rightarrow> pce_entry \<Rightarrow> pce_entry" where
  "meter_row q e = e\<lparr>e_key := (e_key e)[0 := fst (meter_key q)], e_mask := snd (meter_key q),
     e_val := (e_val e)[0 := ucast (mp_nMeterId q AND 0x3F)], e_valid := 1\<rparr>"

text \<open>The search for an empty row, which is filled: was there one?\<close>

fun meter_fill :: "('p hw \<Rightarrow> 'p hw) \<Rightarrow> u16 \<Rightarrow> IFX_ETHSW_QoS_meterPort \<Rightarrow> nat list \<Rightarrow> pce_entry \<Rightarrow> 'p core \<Rightarrow>
    (bool \<times> 'p core) option" where
  "meter_fill hwstep t q [] e s = Some (False, s)"
| "meter_fill hwstep t q (i # is) e s = do {
     (e, s) \<leftarrow> row_read hwstep (e\<lparr>e_table := t, e_index := of_nat i\<rparr>) s;
     if e_valid e = 0 then do {
       s \<leftarrow> row_write hwstep (meter_row q e) s;
       Some (True, s) }
     else meter_fill hwstep t q is e s }"

definition IFX_FLOW_QoS_MeterPortAssign ::
  "('p hw \<Rightarrow> 'p hw) \<Rightarrow> IFX_ETHSW_QoS_meterPort \<Rightarrow> 'p core \<Rightarrow> (int \<times> 'p core) option" where
  "IFX_FLOW_QoS_MeterPortAssign hwstep q s = do {
     (err, found, s) \<leftarrow> meter_scan_0 hwstep q [0..<8] False zero_entry s;
     if err then Some (IFX_ERROR, s) else do {
       (done, s) \<leftarrow> (if \<not> found then meter_fill hwstep PCE_METER_INS_0_INDEX q [0..<8] zero_entry s else Some (False, s));
       if done then Some (IFX_SUCCESS, s) else do {
         (_, s) \<leftarrow> meter_fill hwstep PCE_METER_INS_1_INDEX q [0..<8] zero_entry s;
         Some (IFX_SUCCESS, s) } } }"

definition meter_of :: "u16 \<Rightarrow> u32" where
  "meter_of v = ucast v AND 0x1F"

fun meter_clear :: "('p hw \<Rightarrow> 'p hw) \<Rightarrow> u16 \<Rightarrow> IFX_ETHSW_QoS_meterPort \<Rightarrow> nat list \<Rightarrow> pce_entry \<Rightarrow> 'p core \<Rightarrow>
    'p core option" where
  "meter_clear hwstep t q [] e s = Some s"
| "meter_clear hwstep t q (i # is) e s = do {
     (e, s) \<leftarrow> row_read hwstep (e\<lparr>e_table := t, e_index := of_nat i\<rparr>) s;
     if row_matches q e \<and> meter_of (e_val e ! 0) = mp_nMeterId q then do {
       let e = e\<lparr>e_key := (e_key e)[0 := 0], e_val := (e_val e)[0 := 0], e_valid := 0\<rparr>;
       s \<leftarrow> row_write hwstep e s;
       meter_clear hwstep t q is e s }
     else meter_clear hwstep t q is e s }"

definition IFX_FLOW_QoS_MeterPortDeassign ::
  "('p hw \<Rightarrow> 'p hw) \<Rightarrow> IFX_ETHSW_QoS_meterPort \<Rightarrow> 'p core \<Rightarrow> (int \<times> 'p core) option" where
  "IFX_FLOW_QoS_MeterPortDeassign hwstep q s = do {
     s \<leftarrow> meter_clear hwstep PCE_METER_INS_0_INDEX q [0..<8] zero_entry s;
     s \<leftarrow> meter_clear hwstep PCE_METER_INS_1_INDEX q [0..<8] zero_entry s;
     Some (IFX_SUCCESS, s) }"

definition IFX_FLOW_QoS_MeterPortGet ::
  "('p hw \<Rightarrow> 'p hw) \<Rightarrow> IFX_ETHSW_QoS_meterPortGet \<Rightarrow> 'p core \<Rightarrow> (int \<times> IFX_ETHSW_QoS_meterPortGet \<times> 'p core) option" where
  "IFX_FLOW_QoS_MeterPortGet hwstep q s =
     (let value = rd VR9_ETHSW_CAP_3_METERS s;
          (q, s) = (if mg_bInitial q = IFX_TRUE
                    then (q\<lparr>mg_bInitial := IFX_FALSE\<rparr>, upd_dev (\<lambda>d. d\<lparr>meter_cnt := 0\<rparr>) s)
                    else if ucast (meter_cnt (dev s)) > value * 2 then (q\<lparr>mg_bLast := IFX_TRUE\<rparr>, s) else (q, s));
          t = (if ucast (meter_cnt (dev s)) > value then PCE_METER_INS_1_INDEX else PCE_METER_INS_0_INDEX)
      in do {
        (e, s) \<leftarrow> row_read hwstep (zero_entry\<lparr>e_table := t, e_index := ucast (meter_cnt (dev s))\<rparr>) s;
        let q = (if e_valid e \<noteq> 0 then q\<lparr>mg_nMeterId := ucast (e_val e ! 0 AND 0x3F),
                     mg_nPortEgressId := ucast (egress_of (e_key e ! 0)),
                     mg_nPortIngressId := ucast (ingress_of (e_key e ! 0)),
                     mg_eDir := (if e_mask e AND 0x5 = 0 then IFX_ETHSW_DIRECTION_BOTH
                                 else if e_mask e AND 0x5 = 1 then IFX_ETHSW_DIRECTION_EGRESS
                                 else if e_mask e AND 0x5 = 4 then IFX_ETHSW_DIRECTION_INGRESS
                                 else IFX_ETHSW_DIRECTION_NONE)\<rparr>
                 else q);
        Some (IFX_SUCCESS, q, upd_dev (\<lambda>d. d\<lparr>meter_cnt := meter_cnt d + 1\<rparr>) s) })"

section \<open>The abstract handlers\<close>

type_synonym tables = "nat \<Rightarrow> nat \<Rightarrow> pce_img"

definition img_matches :: "IFX_ETHSW_QoS_meterPort \<Rightarrow> pce_img \<Rightarrow> bool" where
  "img_matches q m \<longleftrightarrow> i_valid m = 1 \<and> egress_of (i_key m ! 0) = mp_nPortEgressId q \<and>
     ingress_of (i_key m ! 0) = mp_nPortIngressId q"

definition meter_img :: "IFX_ETHSW_QoS_meterPort \<Rightarrow> pce_img \<Rightarrow> pce_img" where
  "meter_img q m = m\<lparr>i_key := (i_key m)[0 := fst (meter_key q)], i_mask := snd (meter_key q),
     i_val := (i_val m)[0 := ucast (mp_nMeterId q AND 0x3F)], i_valid := 1\<rparr>"

definition cleared_img :: "pce_img \<Rightarrow> pce_img" where
  "cleared_img m = m\<lparr>i_key := (i_key m)[0 := 0], i_val := (i_val m)[0 := 0], i_valid := 0\<rparr>"

definition in_table :: "IFX_ETHSW_QoS_meterPort \<Rightarrow> tables \<Rightarrow> nat \<Rightarrow> bool" where
  "in_table q d t = list_ex (\<lambda>i. img_matches q (d t i)) [0..<8]"

definition free_row :: "tables \<Rightarrow> nat \<Rightarrow> nat option" where
  "free_row d t = find (\<lambda>i. i_valid (d t i) = 0) [0..<8]"

definition put_meter :: "(nat \<Rightarrow> pce_img \<Rightarrow> pce_img) \<Rightarrow> IFX_ETHSW_QoS_meterPort \<Rightarrow> tables \<Rightarrow> nat \<Rightarrow> tables" where
  "put_meter keep q d t = (case free_row d t of
     Some i \<Rightarrow> set_row d t i (keep t (meter_img q (d t i))) | None \<Rightarrow> d)"

definition meter_assign :: "(nat \<Rightarrow> pce_img \<Rightarrow> pce_img) \<Rightarrow> IFX_ETHSW_QoS_meterPort \<Rightarrow> tables \<Rightarrow> int \<times> tables" where
  "meter_assign keep q d =
     (if in_table q d 18 \<and> in_table q d 19 then (IFX_ERROR, d)
      else if in_table q d 18 \<or> free_row d 18 = None then (IFX_SUCCESS, put_meter keep q d 19)
      else (IFX_SUCCESS, put_meter keep q d 18))"

definition meter_deassign :: "(nat \<Rightarrow> pce_img \<Rightarrow> pce_img) \<Rightarrow> IFX_ETHSW_QoS_meterPort \<Rightarrow> tables \<Rightarrow> tables" where
  "meter_deassign keep q d = (\<lambda>t i.
     if (t = 18 \<or> t = 19) \<and> i < 8 \<and> img_matches q (d t i) \<and> meter_of (i_val (d t i) ! 0) = mp_nMeterId q
     then keep t (cleared_img (d t i)) else d t i)"

section \<open>The loops, specified\<close>

lemma meter_size: "T = 18 \<or> T = 19 \<Longrightarrow> pce_table_size T = 8"
  by (auto simp: pce_table_size_def)

text \<open>One turn of a loop: the row read, as an entry.\<close>

lemma meter_read:
  assumes E: "pce_engine hwstep tbl keep S" and s: "idle (hw_of s)" and e: "length (e_key e) = 16"
    and t: "unat t = T" "T = 18 \<or> T = 19" and i: "i < 8"
  obtains e' h where "row_read hwstep (e\<lparr>e_table := t, e_index := of_nat i\<rparr>) s = Some (e', upd_hw (\<lambda>_. h) s)"
    "idle h" "driver_tbl tbl h = dtbl tbl s"
    "e_table e' = t" "unat (e_index e') = i" "length (e_key e') = 16" "length (e_val e') = 7" "img_of e' = dtbl tbl s T i"
    "e_valid e' = i_valid (dtbl tbl s T i)" "e_val e' = i_val (dtbl tbl s T i)" "\<And>q. row_matches q e' = img_matches q (dtbl tbl s T i)"
proof -
  let ?e = "e\<lparr>e_table := t, e_index := of_nat i\<rparr>" and ?m = "dtbl tbl s T i"
  have ix: "unat (e_index ?e) = i" "unat (e_table ?e) = T" "T < 32" "T \<noteq> 11" "i < pce_table_size T"
    using i t by (auto simp: unat_of_nat_small meter_size)
  obtain h where h: "row_read hwstep ?e s = Some (with_img ?m ?e, upd_hw (\<lambda>_. h) s)" "idle h"
    "driver_tbl tbl h = dtbl tbl s" "length (i_key ?m) = 9" "length (i_val ?m) = 7"
    by (rule row_read_spec [OF E s ix(2-4) ix(1,5)])
  have "img_of (with_img ?m ?e) = ?m" using h(4,5) by (cases ?m) (simp add: img_of_def with_img_def)
  moreover have "row_matches q (with_img ?m ?e) = img_matches q ?m" for q
    using h(4) by (simp add: row_matches_def img_matches_def with_img_def nth_append)
  ultimately show ?thesis
    using h e i by (intro that [OF h(1-3)]) (simp_all add: with_img_def unat_of_nat_small)
qed

lemma meter_scan_1_spec:
  assumes E: "pce_engine hwstep tbl keep S"
  shows "idle (hw_of s) \<Longrightarrow> length (e_key e) = 16 \<Longrightarrow> \<forall>i\<in>set js. i < 8 \<Longrightarrow>
    \<exists>e' h. meter_scan_1 hwstep q js e s = Some (list_ex (\<lambda>i. img_matches q (dtbl tbl s 19 i)) js, e', upd_hw (\<lambda>_. h) s) \<and>
      idle h \<and> driver_tbl tbl h = dtbl tbl s \<and> length (e_key e') = 16"
proof (induction js arbitrary: e s)
  case Nil
  then show ?case by (intro exI [of _ e] exI [of _ "hw_of s"]) (simp add: upd_hw_def)
next
  case (Cons i js)
  have i: "i < 8" using Cons.prems(3) by simp
  obtain e1 h1 where r: "row_read hwstep (e\<lparr>e_table := 0x13, e_index := of_nat i\<rparr>) s = Some (e1, upd_hw (\<lambda>_. h1) s)"
    "idle h1" "driver_tbl tbl h1 = dtbl tbl s" "length (e_key e1) = 16"
    "\<And>q. row_matches q e1 = img_matches q (dtbl tbl s 19 i)"
    by (rule meter_read [OF E Cons.prems(1,2), of "0x13" 19 i]) (use i in auto)
  show ?case
  proof (cases "img_matches q (dtbl tbl s 19 i)")
    case True
    then show ?thesis using r by (intro exI [of _ e1] exI [of _ h1]) simp
  next
    case False
    have "idle (hw_of (upd_hw (\<lambda>_. h1) s))" "\<forall>i\<in>set js. i < 8" using r(2) Cons.prems(3) by simp_all
    from Cons.IH [OF this(1) r(4) this(2)] r False show ?thesis by (auto simp: upd_hw_def)
  qed
qed

lemma meter_scan_0_spec:
  assumes E: "pce_engine hwstep tbl keep S"
  shows "idle (hw_of s) \<Longrightarrow> length (e_key e) = 16 \<Longrightarrow> \<forall>i\<in>set js. i < 8 \<Longrightarrow>
    \<exists>h. meter_scan_0 hwstep q js found e s =
      (let m = list_ex (\<lambda>i. img_matches q (dtbl tbl s 18 i)) js
       in Some (m \<and> in_table q (dtbl tbl s) 19, found \<or> m, upd_hw (\<lambda>_. h) s)) \<and>
      idle h \<and> driver_tbl tbl h = dtbl tbl s"
proof (induction js arbitrary: e s found)
  case Nil
  then show ?case by (intro exI [of _ "hw_of s"]) (simp add: upd_hw_def)
next
  case (Cons i js)
  have i: "i < 8" using Cons.prems(3) by simp
  obtain e1 h1 where r: "row_read hwstep (e\<lparr>e_table := 0x12, e_index := of_nat i\<rparr>) s = Some (e1, upd_hw (\<lambda>_. h1) s)"
    "idle h1" "driver_tbl tbl h1 = dtbl tbl s" "length (e_key e1) = 16"
    "\<And>q. row_matches q e1 = img_matches q (dtbl tbl s 18 i)"
    by (rule meter_read [OF E Cons.prems(1,2), of "0x12" 18 i]) (use i in auto)
  let ?s1 = "upd_hw (\<lambda>_. h1) s"
  have s1: "idle (hw_of ?s1)" "\<forall>i\<in>set js. i < 8" using r(2) Cons.prems(3) by simp_all
  show ?case
  proof (cases "img_matches q (dtbl tbl s 18 i)")
    case False
    with Cons.IH [OF s1(1) r(4) s1(2), of found] r show ?thesis by (auto simp: upd_hw_def Let_def)
  next
    case True
    obtain e2 h2 where r2: "meter_scan_1 hwstep q [0..<8] e1 ?s1 =
        Some (in_table q (dtbl tbl s) 19, e2, upd_hw (\<lambda>_. h2) ?s1)"
      "idle h2" "driver_tbl tbl h2 = dtbl tbl s" "length (e_key e2) = 16"
      using meter_scan_1_spec [OF E s1(1) r(4), of "[0..<8]" q] r(3) by (auto simp: in_table_def)
    show ?thesis
    proof (cases "in_table q (dtbl tbl s) 19")
      case True
      with \<open>img_matches _ _\<close> r r2 show ?thesis
        by (intro exI [of _ h2]) (simp add: upd_hw_def)
    next
      case False
      have "idle (hw_of (upd_hw (\<lambda>_. h2) ?s1))" using r2(2) by simp
      from Cons.IH [OF this r2(4) s1(2), of True] False \<open>img_matches _ _\<close> r r2 show ?thesis
        by (auto simp: upd_hw_def Let_def)
    qed
  qed
qed

lemma meter_fill_spec:
  assumes E: "pce_engine hwstep tbl keep S" and t: "unat t = T" "T = 18 \<or> T = 19"
  shows "idle (hw_of s) \<Longrightarrow> length (e_key e) = 16 \<Longrightarrow> \<forall>i\<in>set js. i < 8 \<Longrightarrow>
    \<exists>h. meter_fill hwstep t q js e s =
      Some (find (\<lambda>i. i_valid (dtbl tbl s T i) = 0) js \<noteq> None, upd_hw (\<lambda>_. h) s) \<and> idle h \<and>
      driver_tbl tbl h = (case find (\<lambda>i. i_valid (dtbl tbl s T i) = 0) js of
        Some i \<Rightarrow> set_row (dtbl tbl s) T i (keep T (meter_img q (dtbl tbl s T i))) | None \<Rightarrow> dtbl tbl s)"
proof (induction js arbitrary: e s)
  case Nil
  then show ?case by (intro exI [of _ "hw_of s"]) (simp add: upd_hw_def)
next
  case (Cons i js)
  have i: "i < 8" using Cons.prems(3) by simp
  obtain e1 h1 where r: "row_read hwstep (e\<lparr>e_table := t, e_index := of_nat i\<rparr>) s = Some (e1, upd_hw (\<lambda>_. h1) s)"
    "idle h1" "driver_tbl tbl h1 = dtbl tbl s" "e_table e1 = t" "unat (e_index e1) = i"
    "length (e_key e1) = 16" "length (e_val e1) = 7" "img_of e1 = dtbl tbl s T i"
    "e_valid e1 = i_valid (dtbl tbl s T i)"
    by (rule meter_read [OF E Cons.prems(1,2) t i])
  let ?s1 = "upd_hw (\<lambda>_. h1) s"
  have s1: "idle (hw_of ?s1)" "\<forall>i\<in>set js. i < 8" using r(2) Cons.prems(3) by simp_all
  show ?case
  proof (cases "i_valid (dtbl tbl s T i) = 0")
    case False
    obtain h where h: "meter_fill hwstep t q js e1 ?s1 =
        Some (find (\<lambda>i. i_valid (dtbl tbl ?s1 T i) = 0) js \<noteq> None, upd_hw (\<lambda>_. h) ?s1)" "idle h"
      "driver_tbl tbl h = (case find (\<lambda>i. i_valid (dtbl tbl ?s1 T i) = 0) js of
        Some i \<Rightarrow> set_row (dtbl tbl ?s1) T i (keep T (meter_img q (dtbl tbl ?s1 T i))) | None \<Rightarrow> dtbl tbl ?s1)"
      using Cons.IH [OF s1(1) r(6) s1(2)] by blast
    have "upd_hw (\<lambda>_. h) ?s1 = upd_hw (\<lambda>_. h) s" by (simp add: upd_hw_def)
    then show ?thesis using False r(1,3,9) h by (intro exI [of _ h]) (simp split: option.split)
  next
    case True
    have wf: "entry_wf (meter_row q e1)" "unat (e_table (meter_row q e1)) = T" "T < 32" "T \<noteq> 11"
      "unat (e_index (meter_row q e1)) = i" "i < pce_table_size T"
      using r(4-7) t i by (auto simp: meter_row_def entry_wf_def meter_size)
    have "img_of (meter_row q e1) = meter_img q (img_of e1)"
      by (simp add: img_of_def meter_row_def meter_img_def take_update_swap)
    then have im: "img_of (meter_row q e1) = meter_img q (dtbl tbl s T i)" using r(8) by simp
    obtain h2 where w: "row_write hwstep (meter_row q e1) ?s1 = Some (upd_hw (\<lambda>_. h2) ?s1)" "idle h2"
      "driver_tbl tbl h2 = set_row (dtbl tbl ?s1) T i (keep T (img_of (meter_row q e1)))"
      by (rule row_write_spec [OF E s1(1) wf])
    then show ?thesis using True r im by (intro exI [of _ h2]) (simp add: upd_hw_def)
  qed
qed

lemma meter_clear_spec:
  assumes E: "pce_engine hwstep tbl keep S" and t: "unat t = T" "T = 18 \<or> T = 19"
  shows "idle (hw_of s) \<Longrightarrow> length (e_key e) = 16 \<Longrightarrow> distinct js \<Longrightarrow> \<forall>i\<in>set js. i < 8 \<Longrightarrow>
    \<exists>h. meter_clear hwstep t q js e s = Some (upd_hw (\<lambda>_. h) s) \<and> idle h \<and>
      driver_tbl tbl h = (\<lambda>t i. if t = T \<and> i \<in> set js \<and> img_matches q (dtbl tbl s t i) \<and>
          meter_of (i_val (dtbl tbl s t i) ! 0) = mp_nMeterId q
        then keep T (cleared_img (dtbl tbl s t i)) else dtbl tbl s t i)"
proof (induction js arbitrary: e s)
  case Nil
  then show ?case by (intro exI [of _ "hw_of s"]) (simp add: upd_hw_def)
next
  case (Cons i js)
  have i: "i < 8" "distinct js" "i \<notin> set js" using Cons.prems(3,4) by simp_all
  obtain e1 h1 where r: "row_read hwstep (e\<lparr>e_table := t, e_index := of_nat i\<rparr>) s = Some (e1, upd_hw (\<lambda>_. h1) s)"
    "idle h1" "driver_tbl tbl h1 = dtbl tbl s" "e_table e1 = t" "unat (e_index e1) = i"
    "length (e_key e1) = 16" "length (e_val e1) = 7" "img_of e1 = dtbl tbl s T i"
    "e_valid e1 = i_valid (dtbl tbl s T i)" "e_val e1 = i_val (dtbl tbl s T i)"
    "\<And>q. row_matches q e1 = img_matches q (dtbl tbl s T i)"
    by (rule meter_read [OF E Cons.prems(1,2) t i(1)]) (use i in auto)
  let ?s1 = "upd_hw (\<lambda>_. h1) s" and ?m = "dtbl tbl s T i"
  have s1: "idle (hw_of ?s1)" "\<forall>i\<in>set js. i < 8" using r(2) Cons.prems(4) by simp_all
  show ?case
  proof (cases "img_matches q ?m \<and> meter_of (i_val ?m ! 0) = mp_nMeterId q")
    case False
    obtain h where h: "meter_clear hwstep t q js e1 ?s1 = Some (upd_hw (\<lambda>_. h) ?s1)" "idle h"
      "driver_tbl tbl h = (\<lambda>t i. if t = T \<and> i \<in> set js \<and> img_matches q (dtbl tbl ?s1 t i) \<and>
          meter_of (i_val (dtbl tbl ?s1 t i) ! 0) = mp_nMeterId q
        then keep T (cleared_img (dtbl tbl ?s1 t i)) else dtbl tbl ?s1 t i)"
      using Cons.IH [OF s1(1) r(6) i(2) s1(2)] by blast
    show ?thesis using False r h i(3) by (intro exI [of _ h]) (auto simp: upd_hw_def fun_eq_iff)
  next
    case True
    let ?e2 = "e1\<lparr>e_key := (e_key e1)[0 := 0], e_val := (e_val e1)[0 := 0], e_valid := 0\<rparr>"
    have wf: "entry_wf ?e2" "unat (e_table ?e2) = T" "T < 32" "T \<noteq> 11" "unat (e_index ?e2) = i" "i < pce_table_size T"
      "length (e_key ?e2) = 16"
      using r(4-7) t i by (auto simp: entry_wf_def meter_size)
    have "img_of ?e2 = cleared_img (img_of e1)" by (simp add: img_of_def cleared_img_def take_update_swap)
    then have im: "img_of ?e2 = cleared_img ?m" using r(8) by simp
    obtain h2 where w: "row_write hwstep ?e2 ?s1 = Some (upd_hw (\<lambda>_. h2) ?s1)" "idle h2"
      "driver_tbl tbl h2 = set_row (dtbl tbl ?s1) T i (keep T (img_of ?e2))"
      by (rule row_write_spec [OF E s1(1) wf(1-6)])
    let ?s2 = "upd_hw (\<lambda>_. h2) ?s1"
    have s2: "idle (hw_of ?s2)" using w(2) by simp
    obtain h where h: "meter_clear hwstep t q js ?e2 ?s2 = Some (upd_hw (\<lambda>_. h) ?s2)" "idle h"
      "driver_tbl tbl h = (\<lambda>t i. if t = T \<and> i \<in> set js \<and> img_matches q (dtbl tbl ?s2 t i) \<and>
          meter_of (i_val (dtbl tbl ?s2 t i) ! 0) = mp_nMeterId q
        then keep T (cleared_img (dtbl tbl ?s2 t i)) else dtbl tbl ?s2 t i)"
      using Cons.IH [OF s2 wf(7) i(2) s1(2)] by blast
    have d2: "dtbl tbl ?s2 = set_row (dtbl tbl s) T i (keep T (cleared_img ?m))" using w(3) r(3) im by simp
    have "upd_hw (\<lambda>_. h) ?s2 = upd_hw (\<lambda>_. h) s" by (simp add: upd_hw_def)
    then show ?thesis using True r(1,10,11) w(1) h(1,2) i(3) h(3) unfolding d2
      by (intro exI [of _ h]) (auto simp: fun_eq_iff set_row_def)
  qed
qed

section \<open>Refinement\<close>

lemma length_key_zero: "length (e_key zero_entry) = 16"
  by (simp add: zero_entry_def)

lemma eight: "\<forall>i\<in>set [0..<8]. i < (8::nat)" "distinct [0..<8::nat]"
  by simp_all

lemma assign_refines:
  assumes E: "pce_engine hwstep tbl keep S" and s: "idle (hw_of s)"
  obtains h where "IFX_FLOW_QoS_MeterPortAssign hwstep q s =
      Some (fst (meter_assign keep q (dtbl tbl s)), upd_hw (\<lambda>_. h) s)" "idle h"
    "driver_tbl tbl h = snd (meter_assign keep q (dtbl tbl s))"
proof -
  let ?d = "dtbl tbl s"
  obtain h0 where h0: "meter_scan_0 hwstep q [0..<8] False zero_entry s =
      Some (in_table q ?d 18 \<and> in_table q ?d 19, in_table q ?d 18, upd_hw (\<lambda>_. h0) s)" "idle h0" "driver_tbl tbl h0 = ?d"
    using meter_scan_0_spec [OF E s length_key_zero eight(1), where q = q and found = False] by (auto simp: Let_def in_table_def)
  have fill: "\<exists>h'. meter_fill hwstep t q [0..<8] zero_entry (upd_hw (\<lambda>_. h) s) = Some (free_row ?d T \<noteq> None, upd_hw (\<lambda>_. h') s) \<and>
      idle h' \<and> driver_tbl tbl h' = put_meter keep q ?d T"
    if h: "idle h" "driver_tbl tbl h = ?d" and t: "unat t = T" "T = 18 \<or> T = 19" for h t T
  proof -
    have "idle (hw_of (upd_hw (\<lambda>_. h) s))" "dtbl tbl (upd_hw (\<lambda>_. h) s) = ?d" using h by simp_all
    then obtain h' where h': "meter_fill hwstep t q [0..<8] zero_entry (upd_hw (\<lambda>_. h) s) =
        Some (free_row ?d T \<noteq> None, upd_hw (\<lambda>_. h') (upd_hw (\<lambda>_. h) s))" "idle h'"
      "driver_tbl tbl h' = (case free_row (dtbl tbl (upd_hw (\<lambda>_. h) s)) T of
         Some i \<Rightarrow> set_row (dtbl tbl (upd_hw (\<lambda>_. h) s)) T i (keep T (meter_img q (dtbl tbl (upd_hw (\<lambda>_. h) s) T i)))
       | None \<Rightarrow> dtbl tbl (upd_hw (\<lambda>_. h) s))"
      using meter_fill_spec [OF E t _ length_key_zero eight(1), where q = q and s = "upd_hw (\<lambda>_. h) s"]
      unfolding free_row_def by auto
    have "upd_hw (\<lambda>_. h') (upd_hw (\<lambda>_. h) s) = upd_hw (\<lambda>_. h') s" by (simp add: upd_hw_def)
    then show ?thesis using h' h(2) unfolding put_meter_def by (intro exI [of _ h']) (simp split: option.split)
  qed
  consider (dup) "in_table q ?d 18" "in_table q ?d 19" | (second) "in_table q ?d 18" "\<not> in_table q ?d 19"
    | (first) "\<not> in_table q ?d 18" by blast
  then show ?thesis
  proof cases
    case dup
    then show ?thesis using h0 by (intro that [of h0]) (simp_all add: IFX_FLOW_QoS_MeterPortAssign_def meter_assign_def)
  next
    case second
    obtain h1 where "meter_fill hwstep 0x13 q [0..<8] zero_entry (upd_hw (\<lambda>_. h0) s) = Some (free_row ?d 19 \<noteq> None, upd_hw (\<lambda>_. h1) s)"
      "idle h1" "driver_tbl tbl h1 = put_meter keep q ?d 19"
      using fill [OF h0(2,3), of "0x13" 19] by auto
    with second h0 show ?thesis
      by (intro that [of h1]) (simp_all add: IFX_FLOW_QoS_MeterPortAssign_def meter_assign_def)
  next
    case first
    obtain h1 where h1: "meter_fill hwstep 0x12 q [0..<8] zero_entry (upd_hw (\<lambda>_. h0) s) = Some (free_row ?d 18 \<noteq> None, upd_hw (\<lambda>_. h1) s)"
      "idle h1" "driver_tbl tbl h1 = put_meter keep q ?d 18"
      using fill [OF h0(2,3), of "0x12" 18] by auto
    show ?thesis
    proof (cases "free_row ?d 18")
      case (Some i)
      with first h0 h1 show ?thesis
        by (intro that [of h1]) (simp_all add: IFX_FLOW_QoS_MeterPortAssign_def meter_assign_def)
    next
      case None
      then have "driver_tbl tbl h1 = ?d" using h1(3) by (simp add: put_meter_def)
      then obtain h2 where "meter_fill hwstep 0x13 q [0..<8] zero_entry (upd_hw (\<lambda>_. h1) s) = Some (free_row ?d 19 \<noteq> None, upd_hw (\<lambda>_. h2) s)"
        "idle h2" "driver_tbl tbl h2 = put_meter keep q ?d 19"
        using fill [OF h1(2), of "0x13" 19] by auto
      with None first h0 h1 show ?thesis
        by (intro that [of h2]) (simp_all add: IFX_FLOW_QoS_MeterPortAssign_def meter_assign_def)
    qed
  qed
qed

lemma deassign_refines:
  assumes E: "pce_engine hwstep tbl keep S" and s: "idle (hw_of s)"
  obtains h where "IFX_FLOW_QoS_MeterPortDeassign hwstep q s = Some (IFX_SUCCESS, upd_hw (\<lambda>_. h) s)" "idle h"
    "driver_tbl tbl h = meter_deassign keep q (dtbl tbl s)"
proof -
  obtain h1 where h1: "meter_clear hwstep 0x12 q [0..<8] zero_entry s = Some (upd_hw (\<lambda>_. h1) s)" "idle h1"
    "driver_tbl tbl h1 = (\<lambda>t i. if t = 18 \<and> i \<in> set [0..<8] \<and> img_matches q (dtbl tbl s t i) \<and>
        meter_of (i_val (dtbl tbl s t i) ! 0) = mp_nMeterId q then keep 18 (cleared_img (dtbl tbl s t i)) else dtbl tbl s t i)"
    using meter_clear_spec [OF E _ _ s length_key_zero eight(2,1), of "0x12" 18 q] by auto
  let ?s1 = "upd_hw (\<lambda>_. h1) s"
  have s1: "idle (hw_of ?s1)" using h1(2) by simp
  obtain h2 where h2: "meter_clear hwstep 0x13 q [0..<8] zero_entry ?s1 = Some (upd_hw (\<lambda>_. h2) ?s1)" "idle h2"
    "driver_tbl tbl h2 = (\<lambda>t i. if t = 19 \<and> i \<in> set [0..<8] \<and> img_matches q (dtbl tbl ?s1 t i) \<and>
        meter_of (i_val (dtbl tbl ?s1 t i) ! 0) = mp_nMeterId q then keep 19 (cleared_img (dtbl tbl ?s1 t i)) else dtbl tbl ?s1 t i)"
    using meter_clear_spec [OF E _ _ s1 length_key_zero eight(2,1), of "0x13" 19 q] by auto
  show ?thesis
  proof (rule that [of h2])
    show "IFX_FLOW_QoS_MeterPortDeassign hwstep q s = Some (IFX_SUCCESS, upd_hw (\<lambda>_. h2) s)"
      using h1(1) h2(1) by (simp add: IFX_FLOW_QoS_MeterPortDeassign_def upd_hw_def)
    show "driver_tbl tbl h2 = meter_deassign keep q (dtbl tbl s)"
      using h2(3) h1(3) by (auto simp: meter_deassign_def fun_eq_iff)
  qed (rule h2(2))
qed

section \<open>What the tables say\<close>

text \<open>
  The assignments as the device reads its rows: two ports, of which a direction leaves one open, and a meter. A request asks for
  one of these; the port left open has number 15, and a request with no direction leaves both open.
\<close>

record metering =
  egress :: nat
  ingress :: nat
  any_egress :: bool
  any_ingress :: bool
  meter :: nat

definition metering_of :: "pce_img \<Rightarrow> metering option" where
  "metering_of m = (if i_valid m = 1 then Some \<lparr>egress = unat (i_key m ! 0) div 256 mod 16, ingress = unat (i_key m ! 0) mod 16,
     any_egress = bit (i_mask m) 2, any_ingress = bit (i_mask m) 0, meter = unat (i_val m ! 0) mod 64\<rparr> else None)"

definition meters :: "tables \<Rightarrow> nat \<Rightarrow> metering option list" where
  "meters d t = map (\<lambda>i. metering_of (d t i)) [0..<8]"

definition metering_asked :: "IFX_ETHSW_QoS_meterPort \<Rightarrow> metering" where
  "metering_asked q = (let e = unat (mp_nPortEgressId q) mod 16; i = unat (mp_nPortIngressId q) mod 16; k = unat (mp_nMeterId q) mod 64 in
     if mp_eDir q = IFX_ETHSW_DIRECTION_BOTH then \<lparr>egress = e, ingress = i, any_egress = False, any_ingress = False, meter = k\<rparr>
     else if mp_eDir q = IFX_ETHSW_DIRECTION_EGRESS then \<lparr>egress = e, ingress = 15, any_egress = False, any_ingress = True, meter = k\<rparr>
     else if mp_eDir q = IFX_ETHSW_DIRECTION_INGRESS then \<lparr>egress = 15, ingress = i, any_egress = True, any_ingress = False, meter = k\<rparr>
     else \<lparr>egress = 0, ingress = 0, any_egress = True, any_ingress = True, meter = k\<rparr>)"

text \<open>
  Assigning and taking back, on two lists of assignments. A request looks for rows with the numbers of its two ports. In a row
  the meter has six bits, five of which are compared.
\<close>

definition same_ports :: "IFX_ETHSW_QoS_meterPort \<Rightarrow> metering \<Rightarrow> bool" where
  "same_ports q x \<longleftrightarrow> egress x = unat (mp_nPortEgressId q) \<and> ingress x = unat (mp_nPortIngressId q)"

definition with_ports :: "IFX_ETHSW_QoS_meterPort \<Rightarrow> metering option list \<Rightarrow> bool" where
  "with_ports q A \<longleftrightarrow> (\<exists>x. Some x \<in> set A \<and> same_ports q x)"

definition put_first :: "metering \<Rightarrow> metering option list \<Rightarrow> metering option list" where
  "put_first x A = (case find (\<lambda>i. A ! i = None) [0..<length A] of Some i \<Rightarrow> A[i := Some x] | None \<Rightarrow> A)"

definition assigned :: "IFX_ETHSW_QoS_meterPort \<Rightarrow> metering option list \<times> metering option list \<Rightarrow>
    int \<times> metering option list \<times> metering option list" where
  "assigned q = (\<lambda>(A, B). if with_ports q A \<and> with_ports q B then (IFX_ERROR, A, B)
     else if with_ports q A \<or> None \<notin> set A then (IFX_SUCCESS, A, put_first (metering_asked q) B)
     else (IFX_SUCCESS, put_first (metering_asked q) A, B))"

definition taken_back :: "IFX_ETHSW_QoS_meterPort \<Rightarrow> metering option list \<Rightarrow> metering option list" where
  "taken_back q A = map (\<lambda>x. case x of None \<Rightarrow> None
     | Some x \<Rightarrow> if same_ports q x \<and> meter x mod 32 = unat (mp_nMeterId q) then None else Some x) A"

lemma valid_cases: "(v :: 1 word) = 0 \<or> v = 1"
proof -
  have "unat v < 2" using unsigned_less [of v] by simp
  then have "unat v = unat (0 :: 1 word) \<or> unat v = unat (1 :: 1 word)" by auto
  then show ?thesis by (simp only: word_unat_eq_iff)
qed

lemma unat_mask: "unat (w AND mask n) = unat w mod 2 ^ n"
  by (simp only: take_bit_eq_mask [symmetric] unsigned_take_bit_eq) (simp add: take_bit_eq_mod)

lemma low_nat: "unat ((x :: u32) AND 0xF) = unat x mod 16" "unat ((x :: u32) AND 0x1F) = unat x mod 32" "unat ((x :: u32) AND 0x3F) = unat x mod 64"
  using unat_mask [of x 4] unat_mask [of x 5] unat_mask [of x 6] by (simp_all add: mask_eq_exp_minus_1)

lemma high_nat: "unat (drop_bit 8 (k :: u16)) = unat k div 256"
  by (subst unat_drop_bit_eq) (simp add: drop_bit_eq_div)

lemma ports_nat: "egress_of k = p \<longleftrightarrow> unat k div 256 mod 16 = unat p" "ingress_of k = p \<longleftrightarrow> unat k mod 16 = unat p"
  by (simp_all add: egress_of_def ingress_of_def word_unat_eq_iff low_nat high_nat unat_ucast_up del: drop_bit_numeral_bit0)

lemma meter_nat: "meter_of v = n \<longleftrightarrow> unat v mod 64 mod 32 = unat n"
  by (simp add: meter_of_def word_unat_eq_iff low_nat mod_mod_cancel unat_ucast_up)

lemma matches_metering: "img_matches q m \<longleftrightarrow> (\<exists>x. metering_of m = Some x \<and> same_ports q x)"
  by (auto simp: img_matches_def metering_of_def same_ports_def ports_nat)

lemma free_metering: "i_valid m = 0 \<longleftrightarrow> metering_of m = None"
  using valid_cases [of "i_valid m"] by (auto simp: metering_of_def)

lemma in_table_meters: "in_table q d t \<longleftrightarrow> with_ports q (meters d t)"
  by (auto simp: in_table_def with_ports_def meters_def list_ex_iff matches_metering image_iff) (metis atLeastLessThan_iff zero_le)+

lemma free_row_meters: "free_row d t = find (\<lambda>i. meters d t ! i = None) [0..<length (meters d t)]"
  unfolding free_row_def free_metering by (rule find_cong) (simp_all add: meters_def)

section \<open>Assigning and taking back\<close>

text \<open>A device that stores what the handlers look at.\<close>

locale meter_device = pce_engine hwstep tbl keep stable
  for hwstep :: "'p hw \<Rightarrow> 'p hw" and tbl :: "'p \<Rightarrow> nat \<Rightarrow> nat \<Rightarrow> pce_img"
    and keep :: "nat \<Rightarrow> pce_img \<Rightarrow> pce_img" and stable :: "16 word set" +
  assumes holds_row: "t = 18 \<or> t = 19 \<Longrightarrow> i_valid (keep t m) = i_valid m \<and>
    egress_of (i_key (keep t m) ! 0) = egress_of (i_key m ! 0) \<and>
    ingress_of (i_key (keep t m) ! 0) = ingress_of (i_key m ! 0) \<and>
    meter_of (i_val (keep t m) ! 0) = meter_of (i_val m ! 0)"
    and holds_metering: "t = 18 \<or> t = 19 \<Longrightarrow> metering_of (keep t m) = metering_of m"

interpretation refm: meter_device ref_step ref_tbl "\<lambda>_ m. m" UNIV
  by unfold_locales simp_all

lemma meter_engine: "meter_device hwstep tbl keep S \<Longrightarrow> pce_engine hwstep tbl keep S"
  by (simp add: meter_device_def)

lemma meter_masks: "(0xF00 :: u32) = push_bit 8 0xF" "(0x1F :: u32) = mask 5" "(0x3F :: u32) = mask 6"
  by (simp_all add: mask_eq_exp_minus_1 push_bit_eq_mult)

lemma meter_bits:
  "egress_of (ucast (push_bit 8 (p AND 0xF) OR (r AND 0xF))) = p AND 0xF"
  "ingress_of (ucast (push_bit 8 (p AND 0xF) OR (r AND 0xF))) = r AND 0xF"
  "egress_of (ucast (0xF00 OR (r AND 0xF))) = 0xF"
  by (rule bit_word_eqI; simp only: egress_of_def ingress_of_def meter_masks(1) bit_and_iff bit_or_iff bit_ucast_iff
      bit_push_bit_iff bit_drop_bit_eq o_def bit_low_masks; auto)+

lemma meter_id_bits: "meter_of (ucast (v AND 0x3F)) = v AND 0x1F"
  by (rule bit_word_eqI, simp only: meter_of_def meter_masks bit_and_iff bit_ucast_iff bit_mask_iff, auto)

lemma row_lengths:
  assumes "pce_engine hwstep tbl keep S" "idle (hw_of s)" "T = 18 \<or> T = 19" "i < 8"
  shows "length (i_key (dtbl tbl s T i)) = 9" "length (i_val (dtbl tbl s T i)) = 7"
proof -
  let ?e = "zero_entry\<lparr>e_table := of_nat T, e_index := of_nat i\<rparr>"
  have e: "unat (e_table ?e) = T" "T < 32" "T \<noteq> 11" "unat (e_index ?e) = i" "i < pce_table_size T"
    using assms(3,4) by (auto simp: unat_of_nat_small meter_size)
  show "length (i_key (dtbl tbl s T i)) = 9" "length (i_val (dtbl tbl s T i)) = 7"
    by (rule row_read_spec [OF assms(1,2) e], assumption)+
qed

lemma free_row_some: "free_row d t = Some i \<Longrightarrow> i < 8 \<and> i_valid (d t i) = 0"
  unfolding free_row_def by (auto simp: find_upt_Some)

lemma not_in_table: "\<not> in_table q d t \<Longrightarrow> i < 8 \<Longrightarrow> \<not> img_matches q (d t i)"
  by (auto simp: in_table_def list_ex_iff)

lemma both_directions_round_trip:
  assumes D: "meter_device hwstep tbl keep S" and s: "idle (hw_of s)"
    and q: "mp_eDir q = IFX_ETHSW_DIRECTION_BOTH" "mp_nPortEgressId q AND 0xF = mp_nPortEgressId q"
      "mp_nPortIngressId q AND 0xF = mp_nPortIngressId q" "mp_nMeterId q AND 0x1F = mp_nMeterId q"
    and new: "\<not> in_table q (dtbl tbl s) 18" "\<not> in_table q (dtbl tbl s) 19" and i: "free_row (dtbl tbl s) 18 = Some i"
  shows "\<exists>s1 s2. IFX_FLOW_QoS_MeterPortAssign hwstep q s = Some (IFX_SUCCESS, s1) \<and> img_matches q (dtbl tbl s1 18 i) \<and>
    IFX_FLOW_QoS_MeterPortDeassign hwstep q s1 = Some (IFX_SUCCESS, s2) \<and> i_valid (dtbl tbl s2 18 i) = 0 \<and>
    (\<forall>t j. t \<noteq> 18 \<or> j \<noteq> i \<longrightarrow> dtbl tbl s2 t j = dtbl tbl s t j)"
proof -
  note E = meter_engine [OF D]
  let ?m = "dtbl tbl s 18 i" and ?k = "keep 18 (meter_img q (dtbl tbl s 18 i))"
  obtain h1 where h1: "IFX_FLOW_QoS_MeterPortAssign hwstep q s = Some (IFX_SUCCESS, upd_hw (\<lambda>_. h1) s)" "idle h1"
    "driver_tbl tbl h1 = set_row (dtbl tbl s) 18 i ?k"
    by (rule assign_refines [OF E s, where q = q]) (use new(1) i in \<open>auto simp: meter_assign_def put_meter_def\<close>)
  let ?s1 = "upd_hw (\<lambda>_. h1) s"
  have s1: "idle (hw_of ?s1)" using h1(2) by simp
  obtain h2 where h2: "IFX_FLOW_QoS_MeterPortDeassign hwstep q ?s1 = Some (IFX_SUCCESS, upd_hw (\<lambda>_. h2) ?s1)"
    "driver_tbl tbl h2 = meter_deassign keep q (dtbl tbl ?s1)"
    by (rule deassign_refines [OF E s1, where q = q]) auto
  have i8: "i < 8" using free_row_some [OF i] by simp
  have l: "length (i_key ?m) = 9" "length (i_val ?m) = 7" using row_lengths [OF E s _ i8, of 18] by simp_all
  note hold = meter_device.holds_row [OF D]
  have img: "egress_of (i_key (meter_img q ?m) ! 0) = mp_nPortEgressId q" "i_valid (meter_img q ?m) = 1"
    "ingress_of (i_key (meter_img q ?m) ! 0) = mp_nPortIngressId q" "meter_of (i_val (meter_img q ?m) ! 0) = mp_nMeterId q"
    using l q meter_bits(1,2) [of "mp_nPortEgressId q" "mp_nPortIngressId q"] meter_id_bits [of "mp_nMeterId q"]
    by (simp_all add: meter_img_def meter_key_def)
  have k: "img_matches q ?k" "meter_of (i_val ?k ! 0) = mp_nMeterId q"
    using img hold [of 18 "meter_img q ?m"] unfolding img_matches_def by simp_all
  have row: "driver_tbl tbl h2 18 i = keep 18 (cleared_img ?k)"
    using h1(3) h2(2) i8 k by (simp add: meter_deassign_def set_row_def)
  have "i_valid (driver_tbl tbl h2 18 i) = 0"
    using hold [of 18 "cleared_img ?k"] unfolding row by (simp add: cleared_img_def)
  moreover have "driver_tbl tbl h2 t j = dtbl tbl s t j" if "t \<noteq> 18 \<or> j \<noteq> i" for t j
    using that not_in_table [OF new(1), of j] not_in_table [OF new(2), of j] h1(3) h2(2)
    by (auto simp: meter_deassign_def set_row_def)
  ultimately show ?thesis using h1 h2(1) k(1) by (intro exI [of _ ?s1] exI [of _ "upd_hw (\<lambda>_. h2) ?s1"]) (simp add: set_row_def)
qed

text \<open>The row of an ingress direction names the egress port 15; what was assigned cannot be taken back.\<close>

lemma ingress_not_taken_back:
  assumes D: "meter_device hwstep tbl keep S" and s: "idle (hw_of s)"
    and q: "mp_eDir q = IFX_ETHSW_DIRECTION_INGRESS" "mp_nPortEgressId q \<noteq> 0xF"
    and new: "\<not> in_table q (dtbl tbl s) 18" and i: "free_row (dtbl tbl s) 18 = Some i"
  shows "\<exists>s1 s2. IFX_FLOW_QoS_MeterPortAssign hwstep q s = Some (IFX_SUCCESS, s1) \<and>
    IFX_FLOW_QoS_MeterPortDeassign hwstep q s1 = Some (IFX_SUCCESS, s2) \<and>
    i_valid (dtbl tbl s2 18 i) = 1 \<and> dtbl tbl s2 18 i = dtbl tbl s1 18 i"
proof -
  note E = meter_engine [OF D]
  let ?m = "dtbl tbl s 18 i" and ?k = "keep 18 (meter_img q (dtbl tbl s 18 i))"
  obtain h1 where h1: "IFX_FLOW_QoS_MeterPortAssign hwstep q s = Some (IFX_SUCCESS, upd_hw (\<lambda>_. h1) s)" "idle h1"
    "driver_tbl tbl h1 = set_row (dtbl tbl s) 18 i ?k"
    by (rule assign_refines [OF E s, where q = q]) (use new(1) i in \<open>auto simp: meter_assign_def put_meter_def\<close>)
  let ?s1 = "upd_hw (\<lambda>_. h1) s"
  have s1: "idle (hw_of ?s1)" using h1(2) by simp
  obtain h2 where h2: "IFX_FLOW_QoS_MeterPortDeassign hwstep q ?s1 = Some (IFX_SUCCESS, upd_hw (\<lambda>_. h2) ?s1)"
    "driver_tbl tbl h2 = meter_deassign keep q (dtbl tbl ?s1)"
    by (rule deassign_refines [OF E s1, where q = q]) auto
  have i8: "i < 8" using free_row_some [OF i] by simp
  have l: "length (i_key ?m) = 9" using row_lengths [OF E s _ i8, of 18] by simp
  have k: "\<not> img_matches q ?k" "i_valid ?k = 1"
    using l q meter_device.holds_row [OF D, of 18 "meter_img q ?m"] unfolding img_matches_def
    by (auto simp: meter_img_def meter_key_def meter_bits)
  have row: "driver_tbl tbl h2 18 i = ?k" "driver_tbl tbl h1 18 i = ?k"
    using h1(3) h2(2) i8 k(1) by (simp_all add: meter_deassign_def set_row_def)
  then show ?thesis using h1 h2(1) k(2) by (intro exI [of _ ?s1] exI [of _ "upd_hw (\<lambda>_. h2) ?s1"]) simp
qed

text \<open>The rows that the handlers write, as assignments.\<close>

lemma asked_img:
  assumes "length (i_key m) = 9" "length (i_val m) = 7"
  shows "metering_of (meter_img q m) = Some (metering_asked q)"
proof -
  have l: "unat (mp_nMeterId q AND 0x3F) < 2 ^ 16" by (simp add: low_nat)
  have v: "unat (ucast (mp_nMeterId q AND 0x3F) :: u16) mod 64 = unat (mp_nMeterId q) mod 64"
    using l by (simp add: unsigned_ucast_eq unsigned_take_bit_eq take_bit_nat_eq_self low_nat)
  have n: "unat (x AND 0xF) = unat x mod 16" for x :: u32 by (rule low_nat(1))
  have k: "unat w div 256 mod 16 = unat (egress_of w)" "unat w mod 16 = unat (ingress_of w)" for w
    using ports_nat(1) [of w "egress_of w"] ports_nat(2) [of w "ingress_of w"] by simp_all
  have o: "egress_of (ucast (push_bit 8 (p AND 0xF) OR 0xF)) = p AND 0xF" "ingress_of (ucast (push_bit 8 (p AND 0xF) OR 0xF)) = 0xF"
    "ingress_of (ucast (0xF00 OR (p AND 0xF))) = p AND 0xF" for p
    by (rule bit_word_eqI; simp only: egress_of_def ingress_of_def meter_masks(1) bit_and_iff bit_or_iff bit_ucast_iff
      bit_push_bit_iff bit_drop_bit_eq o_def bit_low_masks; auto)+
  have z: "egress_of 0 = 0" "ingress_of 0 = 0" by (simp_all add: egress_of_def ingress_of_def)
  have e: "egress_of (fst (meter_key q)) = (if mp_eDir q = IFX_ETHSW_DIRECTION_BOTH then mp_nPortEgressId q AND 0xF
      else if mp_eDir q = IFX_ETHSW_DIRECTION_EGRESS then mp_nPortEgressId q AND 0xF
      else if mp_eDir q = IFX_ETHSW_DIRECTION_INGRESS then 0xF else 0)"
    and i: "ingress_of (fst (meter_key q)) = (if mp_eDir q = IFX_ETHSW_DIRECTION_BOTH then mp_nPortIngressId q AND 0xF
      else if mp_eDir q = IFX_ETHSW_DIRECTION_EGRESS then 0xF
      else if mp_eDir q = IFX_ETHSW_DIRECTION_INGRESS then mp_nPortIngressId q AND 0xF else 0)"
    unfolding meter_key_def
    by (simp_all only: if_distrib [of fst] if_distrib [of egress_of] if_distrib [of ingress_of] fst_conv meter_bits o z)
  have b: "bit (snd (meter_key q)) 2 \<longleftrightarrow> mp_eDir q \<notin> {IFX_ETHSW_DIRECTION_BOTH, IFX_ETHSW_DIRECTION_EGRESS}"
    "bit (snd (meter_key q)) 0 \<longleftrightarrow> mp_eDir q \<notin> {IFX_ETHSW_DIRECTION_BOTH, IFX_ETHSW_DIRECTION_INGRESS}"
    by (simp_all add: meter_key_def bit_numeral_rec)
  have "metering_of (meter_img q m) = Some \<lparr>egress = unat (egress_of (fst (meter_key q))), ingress = unat (ingress_of (fst (meter_key q))),
      any_egress = bit (snd (meter_key q)) 2, any_ingress = bit (snd (meter_key q)) 0, meter = unat (mp_nMeterId q) mod 64\<rparr>"
    using assms v unfolding metering_of_def meter_img_def k by simp
  then show ?thesis unfolding e i b by (auto simp: metering_asked_def Let_def n)
qed

context meter_device
begin

lemma meters_put:
  assumes s: "idle (hw_of s)" and t: "t = 18 \<or> t = 19"
  shows "meters (put_meter keep q (dtbl tbl s) t) t = put_first (metering_asked q) (meters (dtbl tbl s) t)"
    "u \<noteq> t \<Longrightarrow> put_meter keep q (dtbl tbl s) t u = dtbl tbl s u"
    "8 \<le> i \<Longrightarrow> put_meter keep q (dtbl tbl s) t t i = dtbl tbl s t i"
proof -
  let ?d = "dtbl tbl s"
  show "meters (put_meter keep q ?d t) t = put_first (metering_asked q) (meters ?d t)"
  proof (cases "free_row ?d t")
    case None
    then have "find (\<lambda>i. meters ?d t ! i = None) [0..<length (meters ?d t)] = None" using free_row_meters [of ?d t] by simp
    with None show ?thesis by (simp only: put_meter_def put_first_def option.case)
  next
    case (Some i)
    then have f: "find (\<lambda>i. meters ?d t ! i = None) [0..<length (meters ?d t)] = Some i" using free_row_meters [of ?d t] by simp
    have i: "i < 8" using free_row_some [OF Some] by simp
    have l: "length (i_key (?d t i)) = 9" "length (i_val (?d t i)) = 7"
      using row_lengths [OF pce_engine_axioms s t i] by simp_all
    have "meters (set_row ?d t i (keep t (meter_img q (?d t i)))) t = (meters ?d t)[i := Some (metering_asked q)]"
      by (rule nth_equalityI) (use i holds_metering [OF t, of "meter_img q (?d t i)"] asked_img [OF l, of q] in
          \<open>auto simp: meters_def set_row_def nth_list_update\<close>)
    then show ?thesis using Some by (simp only: put_meter_def put_first_def f option.case)
  qed
  show "u \<noteq> t \<Longrightarrow> put_meter keep q ?d t u = ?d u" by (simp add: put_meter_def set_row_def split: option.split)
  show "8 \<le> i \<Longrightarrow> put_meter keep q ?d t t i = ?d t i"
    using free_row_some [of ?d t] by (auto simp: put_meter_def set_row_def split: option.split)
qed

lemma meters_back:
  assumes "t = 18 \<or> t = 19"
  shows "meters (meter_deassign keep q d) t = taken_back q (meters d t)"
proof -
  have c: "metering_of (keep t (cleared_img m)) = None" for m
    unfolding holds_metering [OF assms] by (simp add: metering_of_def cleared_img_def)
  have "metering_of (meter_deassign keep q d t i) = (case metering_of (d t i) of None \<Rightarrow> None
      | Some x \<Rightarrow> if same_ports q x \<and> meter x mod 32 = unat (mp_nMeterId q) then None else Some x)" if "i < 8" for i
  proof (cases "metering_of (d t i)")
    case None
    then show ?thesis using assms c by (auto simp: meter_deassign_def matches_metering)
  next
    case (Some x)
    then have "meter x = unat (i_val (d t i) ! 0) mod 64" by (auto simp: metering_of_def split: if_splits)
    then show ?thesis using assms that c Some by (auto simp: meter_deassign_def matches_metering meter_nat)
  qed
  then show ?thesis by (simp add: meters_def taken_back_def)
qed

lemma assign_meters:
  assumes s: "idle (hw_of s)"
  obtains s' where "IFX_FLOW_QoS_MeterPortAssign hwstep q s = Some (fst (assigned q (meters (dtbl tbl s) 18, meters (dtbl tbl s) 19)), s')"
    "(meters (dtbl tbl s') 18, meters (dtbl tbl s') 19) = snd (assigned q (meters (dtbl tbl s) 18, meters (dtbl tbl s) 19))"
    "\<And>t i. t \<noteq> 18 \<and> t \<noteq> 19 \<or> 8 \<le> i \<Longrightarrow> dtbl tbl s' t i = dtbl tbl s t i" "idle (hw_of s')" "dev s' = dev s"
proof -
  let ?d = "dtbl tbl s"
  obtain h where h: "IFX_FLOW_QoS_MeterPortAssign hwstep q s = Some (fst (meter_assign keep q ?d), upd_hw (\<lambda>_. h) s)" "idle h"
    "driver_tbl tbl h = snd (meter_assign keep q ?d)"
    by (rule assign_refines [OF pce_engine_axioms s, where q = q])
  note p = meters_put [OF s, where q = q]
  have f: "free_row ?d 18 = None \<longleftrightarrow> None \<notin> set (meters ?d 18)"
    unfolding free_row_def find_upt_None meters_def free_metering set_map set_upt image_iff by (metis atLeastLessThan_iff zero_le)
  have m: "meters (put_meter keep q ?d 18) 19 = meters ?d 19" "meters (put_meter keep q ?d 19) 18 = meters ?d 18"
    using p(2) [of 18 19] p(2) [of 19 18] by (simp_all add: meters_def)
  have e: "fst (meter_assign keep q ?d) = fst (assigned q (meters ?d 18, meters ?d 19))"
    "(meters (snd (meter_assign keep q ?d)) 18, meters (snd (meter_assign keep q ?d)) 19) = snd (assigned q (meters ?d 18, meters ?d 19))"
    using p(1) [of 18] p(1) [of 19] by (auto simp: meter_assign_def assigned_def in_table_meters f m)
  have o: "snd (meter_assign keep q ?d) t i = ?d t i" if "t \<noteq> 18 \<and> t \<noteq> 19 \<or> 8 \<le> i" for t i
    using that p(2) [of 18 t] p(2) [of 19 t] p(3) [of 18 i] p(3) [of 19 i] by (cases "t = 18"; cases "t = 19") (auto simp: meter_assign_def)
  show thesis by (rule that [of "upd_hw (\<lambda>_. h) s"]) (use h e o in simp_all)
qed

lemma deassign_meters:
  assumes s: "idle (hw_of s)"
  obtains s' where "IFX_FLOW_QoS_MeterPortDeassign hwstep q s = Some (IFX_SUCCESS, s')"
    "meters (dtbl tbl s') 18 = taken_back q (meters (dtbl tbl s) 18)" "meters (dtbl tbl s') 19 = taken_back q (meters (dtbl tbl s) 19)"
    "\<And>t i. t \<noteq> 18 \<and> t \<noteq> 19 \<or> 8 \<le> i \<Longrightarrow> dtbl tbl s' t i = dtbl tbl s t i" "idle (hw_of s')" "dev s' = dev s"
proof -
  obtain h where h: "IFX_FLOW_QoS_MeterPortDeassign hwstep q s = Some (IFX_SUCCESS, upd_hw (\<lambda>_. h) s)" "idle h"
    "driver_tbl tbl h = meter_deassign keep q (dtbl tbl s)"
    by (rule deassign_refines [OF pce_engine_axioms s, where q = q])
  show thesis
    by (rule that [of "upd_hw (\<lambda>_. h) s"]) (use h meters_back [of 18 q] meters_back [of 19 q] in \<open>auto simp: meter_deassign_def\<close>)
qed

end

lemma full_tables:
  assumes E: "pce_engine hwstep tbl keep S" and s: "idle (hw_of s)"
    and full: "free_row (dtbl tbl s) 18 = None" "free_row (dtbl tbl s) 19 = None"
    and new: "\<not> in_table q (dtbl tbl s) 19"
  shows "\<exists>s1. IFX_FLOW_QoS_MeterPortAssign hwstep q s = Some (IFX_SUCCESS, s1) \<and> dtbl tbl s1 = dtbl tbl s"
  by (rule assign_refines [OF E s, where q = q]) (use full new in \<open>auto simp: meter_assign_def put_meter_def\<close>)

end
