(* ===== verification/Core_QoS.thy ===== *)
theory Core_QoS
  imports Core_Rate
begin

text \<open>
  Quality of service settings kept in registers, \<^verbatim>\<open>ltq_flow_core.c\<close>: remarking and classification per
  port, the two rate shapers of a queue, storm control, and the thresholds of random early discard.
\<close>

unbundle bit_operations_syntax

section \<open>Parameters and registers\<close>

record IFX_ETHSW_QoS_portRemarkingCfg =
  pr_nPortId :: u8
  pr_eDSCP_IngressRemarkingEnable :: u32
  pr_bDSCP_EgressRemarkingEnable :: u32
  pr_bPCP_IngressRemarkingEnable :: u32
  pr_bPCP_EgressRemarkingEnable :: u32

record IFX_ETHSW_QoS_portCfg =
  qp_nPortId :: u8
  qp_eClassMode :: u32
  qp_nTrafficClass :: u8

record IFX_ETHSW_QoS_ShaperQueue =
  sq_nRateShaperId :: u8
  sq_nQueueId :: u8

record IFX_ETHSW_QoS_ShaperQueueGet =
  sg_nQueueId :: u8
  sg_bAssigned :: u32
  sg_nRateShaperId :: u8

record IFX_ETHSW_QoS_stormCfg =
  st_nMeterId :: u32
  st_bBroadcast :: u32
  st_bMulticast :: u32
  st_bUnknownUnicast :: u32

record IFX_ETHSW_QoS_WRED_Cfg =
  wc_eProfile :: u32
  wc_nRed_Min :: u32
  wc_nRed_Max :: u32
  wc_nYellow_Min :: u32
  wc_nYellow_Max :: u32
  wc_nGreen_Min :: u32
  wc_nGreen_Max :: u32

abbreviation (input) VR9_PCE_PCTRL_0_CLPEN :: field where "VR9_PCE_PCTRL_0_CLPEN \<equiv> (0x480, 9, 1)"
abbreviation (input) VR9_PCE_PCTRL_0_DPEN :: field where "VR9_PCE_PCTRL_0_DPEN \<equiv> (0x480, 8, 1)"
abbreviation (input) VR9_PCE_PCTRL_2_DSCPMOD :: field where "VR9_PCE_PCTRL_2_DSCPMOD \<equiv> (0x482, 7, 1)"
abbreviation (input) VR9_PCE_PCTRL_0_PCPEN :: field where "VR9_PCE_PCTRL_0_PCPEN \<equiv> (0x480, 10, 1)"
abbreviation (input) VR9_FDMA_PCTRL_DSCPRM :: field where "VR9_FDMA_PCTRL_DSCPRM \<equiv> (0xA80, 2, 1)"
abbreviation (input) VR9_FDMA_PCTRL_VLANMOD :: field where "VR9_FDMA_PCTRL_VLANMOD \<equiv> (0xA80, 3, 2)"
abbreviation (input) VR9_PCE_PCTRL_2_DSCP :: field where "VR9_PCE_PCTRL_2_DSCP \<equiv> (0x482, 5, 2)"
abbreviation (input) VR9_PCE_PCTRL_2_PCP :: field where "VR9_PCE_PCTRL_2_PCP \<equiv> (0x482, 4, 1)"
abbreviation (input) VR9_PCE_PCTRL_2_PCLASS :: field where "VR9_PCE_PCTRL_2_PCLASS \<equiv> (0x482, 0, 4)"
abbreviation (input) VR9_ETHSW_CAP_1_QUEUE :: field where "VR9_ETHSW_CAP_1_QUEUE \<equiv> (0x007, 8, 7)"
abbreviation (input) VR9_PQM_RS_EN1 :: field where "VR9_PQM_RS_EN1 \<equiv> (0x101, 7, 1)"
abbreviation (input) VR9_PQM_RS_RS1 :: field where "VR9_PQM_RS_RS1 \<equiv> (0x101, 0, 4)"
abbreviation (input) VR9_PQM_RS_EN2 :: field where "VR9_PQM_RS_EN2 \<equiv> (0x101, 15, 1)"
abbreviation (input) VR9_PQM_RS_RS2 :: field where "VR9_PQM_RS_RS2 \<equiv> (0x101, 8, 4)"
abbreviation (input) VR9_PCE_GCTRL_0_SCONMOD :: field where "VR9_PCE_GCTRL_0_SCONMOD \<equiv> (0x456, 8, 2)"
abbreviation (input) VR9_PCE_GCTRL_0_SCONBC :: field where "VR9_PCE_GCTRL_0_SCONBC \<equiv> (0x456, 10, 1)"
abbreviation (input) VR9_PCE_GCTRL_0_SCONMC :: field where "VR9_PCE_GCTRL_0_SCONMC \<equiv> (0x456, 11, 1)"
abbreviation (input) VR9_PCE_GCTRL_0_SCONUC :: field where "VR9_PCE_GCTRL_0_SCONUC \<equiv> (0x456, 12, 1)"
abbreviation (input) VR9_PCE_GCTRL_0_SCONMET :: field where "VR9_PCE_GCTRL_0_SCONMET \<equiv> (0x456, 4, 4)"
abbreviation (input) VR9_BM_QUEUE_GCTRL_DPROB :: field where "VR9_BM_QUEUE_GCTRL_DPROB \<equiv> (0x04A, 0, 2)"
abbreviation (input) VR9_BM_QUEUE_GCTRL_GL_MOD :: field where "VR9_BM_QUEUE_GCTRL_GL_MOD \<equiv> (0x04A, 10, 2)"
abbreviation (input) VR9_BM_WRED_RTH_0_MINTH :: field where "VR9_BM_WRED_RTH_0_MINTH \<equiv> (0x04B, 0, 10)"
abbreviation (input) VR9_BM_WRED_RTH_1_MAXTH :: field where "VR9_BM_WRED_RTH_1_MAXTH \<equiv> (0x04C, 0, 10)"
abbreviation (input) VR9_BM_WRED_YTH_0_MINTH :: field where "VR9_BM_WRED_YTH_0_MINTH \<equiv> (0x04D, 0, 10)"
abbreviation (input) VR9_BM_WRED_YTH_1_MAXTH :: field where "VR9_BM_WRED_YTH_1_MAXTH \<equiv> (0x04E, 0, 10)"
abbreviation (input) VR9_BM_WRED_GTH_0_MINTH :: field where "VR9_BM_WRED_GTH_0_MINTH \<equiv> (0x04F, 0, 10)"
abbreviation (input) VR9_BM_WRED_GTH_1_MAXTH :: field where "VR9_BM_WRED_GTH_1_MAXTH \<equiv> (0x050, 0, 10)"

abbreviation (input) qport :: "field \<Rightarrow> 16 word \<Rightarrow> u8 \<Rightarrow> field" where
  "qport F stride p \<equiv> at F (stride * ucast p)"

section \<open>Remarking and classification of a port\<close>

text \<open>The three bits of an ingress mode, and the mode that three bits are read as, if any.\<close>

definition remark_bits :: "u32 \<Rightarrow> u32 \<times> u32 \<times> u32" where
  "remark_bits e = (if e = 0 then (0, 0, 0) else if e = 1 then (1, 0, 1) else if e = 2 then (1, 1, 1)
     else if e = 3 then (0, 1, 1) else if e = 4 then (1, 1, 1) else (0, 0, 0))"

definition IFX_FLOW_QoS_PortRemarkingCfgGet :: "IFX_ETHSW_QoS_portRemarkingCfg \<Rightarrow> 'p core \<Rightarrow> int \<times> IFX_ETHSW_QoS_portRemarkingCfg" where
  "IFX_FLOW_QoS_PortRemarkingCfgGet q s =
     (let p = pr_nPortId q
      in if p \<ge> nTotalPortNumber (dev s) then (IFX_ERROR, q)
      else let value_CLPEN = rd (qport VR9_PCE_PCTRL_0_CLPEN 10 p) s;
               value_DPEN = rd (qport VR9_PCE_PCTRL_0_DPEN 10 p) s;
               value_DSCPMOD = rd (qport VR9_PCE_PCTRL_2_DSCPMOD 10 p) s;
               q = (if value_CLPEN = 0 \<and> value_DPEN = 0 \<and> value_DSCPMOD = 0 then q\<lparr>pr_eDSCP_IngressRemarkingEnable := 0\<rparr>
                    else if value_CLPEN = 1 \<and> value_DPEN = 0 \<and> value_DSCPMOD = 1 then q\<lparr>pr_eDSCP_IngressRemarkingEnable := 1\<rparr>
                    else if value_CLPEN = 1 \<and> value_DPEN = 1 \<and> value_DSCPMOD = 1 then q\<lparr>pr_eDSCP_IngressRemarkingEnable := 2\<rparr>
                    else if value_CLPEN = 0 \<and> value_DPEN = 1 \<and> value_DSCPMOD = 1 then q\<lparr>pr_eDSCP_IngressRemarkingEnable := 3\<rparr>
                    else if value_CLPEN = 1 \<and> value_DPEN = 1 \<and> value_DSCPMOD = 1 then q\<lparr>pr_eDSCP_IngressRemarkingEnable := 4\<rparr>
                    else q);
               q = q\<lparr>pr_bPCP_IngressRemarkingEnable := rd (qport VR9_PCE_PCTRL_0_PCPEN 10 p) s\<rparr>;
               q = q\<lparr>pr_bDSCP_EgressRemarkingEnable := rd (qport VR9_FDMA_PCTRL_DSCPRM 6 p) s\<rparr>
           in (IFX_SUCCESS, q\<lparr>pr_bPCP_EgressRemarkingEnable :=
                 if rd (qport VR9_FDMA_PCTRL_VLANMOD 6 p) s = 3 then 1 else 0\<rparr>))"

definition IFX_FLOW_QoS_PortRemarkingCfgSet :: "IFX_ETHSW_QoS_portRemarkingCfg \<Rightarrow> 'p core \<Rightarrow> int \<times> 'p core" where
  "IFX_FLOW_QoS_PortRemarkingCfgSet q s =
     (let p = pr_nPortId q
      in if p \<ge> nTotalPortNumber (dev s) then (IFX_ERROR, s)
      else let (value_CLPEN, value_DPEN, value_DSCPMOD) = remark_bits (pr_eDSCP_IngressRemarkingEnable q)
      in (IFX_SUCCESS, wrs [
        (qport VR9_PCE_PCTRL_0_CLPEN 10 p, value_CLPEN),
        (qport VR9_PCE_PCTRL_0_DPEN 10 p, value_DPEN),
        (qport VR9_PCE_PCTRL_2_DSCPMOD 10 p, value_DSCPMOD),
        (qport VR9_FDMA_PCTRL_DSCPRM 6 p, if pr_bDSCP_EgressRemarkingEnable q > 0 then pr_bDSCP_EgressRemarkingEnable q else 0),
        (qport VR9_PCE_PCTRL_0_PCPEN 10 p, if pr_bPCP_IngressRemarkingEnable q > 0 then pr_bPCP_IngressRemarkingEnable q else 0),
        (qport VR9_FDMA_PCTRL_VLANMOD 6 p, if pr_bPCP_EgressRemarkingEnable q > 0 then 3 else 0)] s))"

definition IFX_FLOW_QoS_PortCfgGet :: "IFX_ETHSW_QoS_portCfg \<Rightarrow> 'p core \<Rightarrow> int \<times> IFX_ETHSW_QoS_portCfg" where
  "IFX_FLOW_QoS_PortCfgGet q s =
     (let p = qp_nPortId q
      in if p \<ge> nTotalPortNumber (dev s) then (IFX_ERROR, q)
      else let value_DSCP = rd (qport VR9_PCE_PCTRL_2_DSCP 10 p) s;
               value_PCP = rd (qport VR9_PCE_PCTRL_2_PCP 10 p) s;
               mode = (if value_DSCP = 1 \<and> value_PCP = 1 then 4
                       else if value_DSCP = 2 \<and> value_PCP = 1 then 3
                       else if value_DSCP = 0 \<and> value_PCP = 1 then 2
                       else if value_DSCP = 2 \<and> value_PCP = 0 then 1
                       else 0)
           in (IFX_SUCCESS, q\<lparr>qp_eClassMode := mode, qp_nTrafficClass := ucast (rd (qport VR9_PCE_PCTRL_2_PCLASS 10 p) s)\<rparr>))"

text \<open>The writes of the \<^verbatim>\<open>switch\<close>: \<open>DSCP\<close> and \<open>PCP\<close>; none for a mode that is not in the enumeration.\<close>

definition class_mode_bits :: "u32 \<Rightarrow> (u32 \<times> u32) option" where
  "class_mode_bits m = (if m = 0 then Some (0, 0) else if m = 1 then Some (2, 0) else if m = 2 then Some (0, 1)
     else if m = 3 then Some (2, 1) else if m = 4 then Some (1, 1) else None)"

definition IFX_FLOW_QoS_PortCfgSet :: "IFX_ETHSW_QoS_portCfg \<Rightarrow> 'p core \<Rightarrow> int \<times> 'p core" where
  "IFX_FLOW_QoS_PortCfgSet q s =
     (let p = qp_nPortId q
      in if p \<ge> nTotalPortNumber (dev s) then (IFX_ERROR, s)
      else let s = (case class_mode_bits (qp_eClassMode q) of
                      None \<Rightarrow> s
                    | Some (d, c) \<Rightarrow> wrs [(qport VR9_PCE_PCTRL_2_DSCP 10 p, d), (qport VR9_PCE_PCTRL_2_PCP 10 p, c)] s)
      in if qp_nTrafficClass q > 0xF then (IFX_ERROR, s)
         else (IFX_SUCCESS, wr (qport VR9_PCE_PCTRL_2_PCLASS 10 p) (ucast (qp_nTrafficClass q)) s))"

section \<open>The shapers of a queue\<close>

abbreviation (input) queue_reg :: "field \<Rightarrow> u8 \<Rightarrow> field" where
  "queue_reg F q \<equiv> at F (2 * ucast q)"

abbreviation (input) shaper_reg :: "field \<Rightarrow> u8 \<Rightarrow> field" where
  "shaper_reg F i \<equiv> at F (5 * ucast i)"

definition IFX_FLOW_QoS_ShaperQueueAssign :: "IFX_ETHSW_QoS_ShaperQueue \<Rightarrow> 'p core \<Rightarrow> int \<times> 'p core" where
  "IFX_FLOW_QoS_ShaperQueueAssign q s =
     (let nRateShaperId = sq_nRateShaperId q; nQueueId = sq_nQueueId q
      in if ucast nQueueId \<ge> rd VR9_ETHSW_CAP_1_QUEUE s then (IFX_ERROR, s)
      else if ucast nRateShaperId \<ge> rd VR9_ETHSW_CAP_3_SHAPERS s then (IFX_ERROR, s)
      else let value1_RS = rd (queue_reg VR9_PQM_RS_EN1 nQueueId) s;
               value1_ShaperId = rd (queue_reg VR9_PQM_RS_RS1 nRateShaperId) s;
               value2_RS = rd (queue_reg VR9_PQM_RS_EN2 nQueueId) s;
               value2_ShaperId = rd (queue_reg VR9_PQM_RS_RS2 nRateShaperId) s
      in if value1_RS = 1 \<and> value1_ShaperId = ucast nRateShaperId then (IFX_SUCCESS, s)
      else if value2_RS = 1 \<and> value2_ShaperId = ucast nRateShaperId then (IFX_SUCCESS, s)
      else if value1_RS = 0 then (IFX_SUCCESS, wrs [
        (queue_reg VR9_PQM_RS_RS1 nQueueId, ucast nRateShaperId),
        (queue_reg VR9_PQM_RS_EN1 nQueueId, 1),
        (shaper_reg VR9_RS_CTRL_RSEN nRateShaperId, 1)] s)
      else if value2_RS = 0 then (IFX_SUCCESS, wrs [
        (queue_reg VR9_PQM_RS_RS2 nQueueId, ucast nRateShaperId),
        (queue_reg VR9_PQM_RS_EN2 nQueueId, 1),
        (shaper_reg VR9_RS_CTRL_RSEN nRateShaperId, 1)] s)
      else (IFX_ERROR, s))"

definition IFX_FLOW_QoS_ShaperQueueDeassign :: "IFX_ETHSW_QoS_ShaperQueue \<Rightarrow> 'p core \<Rightarrow> int \<times> 'p core" where
  "IFX_FLOW_QoS_ShaperQueueDeassign q s =
     (let nRateShaperId = sq_nRateShaperId q; nQueueId = sq_nQueueId q
      in if ucast nQueueId \<ge> rd VR9_ETHSW_CAP_1_QUEUE s then (IFX_ERROR, s)
      else if ucast nRateShaperId \<ge> rd VR9_ETHSW_CAP_3_SHAPERS s then (IFX_ERROR, s)
      else let value1 = rd (queue_reg VR9_PQM_RS_EN1 nQueueId) s;
               value2 = rd (queue_reg VR9_PQM_RS_RS1 nQueueId) s;
               value3 = rd (queue_reg VR9_PQM_RS_EN2 nQueueId) s;
               value4 = rd (queue_reg VR9_PQM_RS_RS2 nQueueId) s
      in if value1 = 1 \<and> value2 = ucast nRateShaperId then (IFX_SUCCESS, wrs [
        (queue_reg VR9_PQM_RS_EN1 nQueueId, 0), (queue_reg VR9_PQM_RS_RS1 nQueueId, 0)] s)
      else if value3 = 1 \<and> value4 = ucast nRateShaperId then (IFX_SUCCESS, wrs [
        (queue_reg VR9_PQM_RS_EN2 nQueueId, 0), (queue_reg VR9_PQM_RS_RS2 nQueueId, 0)] s)
      else (IFX_ERROR, s))"

definition IFX_FLOW_QoS_ShaperQueueGet :: "IFX_ETHSW_QoS_ShaperQueueGet \<Rightarrow> 'p core \<Rightarrow> int \<times> IFX_ETHSW_QoS_ShaperQueueGet" where
  "IFX_FLOW_QoS_ShaperQueueGet q s =
     (let nQueueId = sg_nQueueId q
      in if ucast nQueueId \<ge> rd VR9_ETHSW_CAP_1_QUEUE s then (IFX_ERROR, q)
      else let q = q\<lparr>sg_bAssigned := IFX_FALSE, sg_nRateShaperId := 0\<rparr>;
               value1_RS = rd (queue_reg VR9_PQM_RS_EN1 nQueueId) s;
               q = (if value1_RS = 1 then q\<lparr>sg_bAssigned := IFX_TRUE,
                      sg_nRateShaperId := ucast (rd (queue_reg VR9_PQM_RS_RS1 nQueueId) s)\<rparr> else q);
               q = (if value1_RS = 2 then q\<lparr>sg_nRateShaperId := ucast (rd (queue_reg VR9_PQM_RS_RS2 nQueueId) s)\<rparr> else q)
           in (IFX_SUCCESS, q))"

section \<open>Storm control\<close>

definition IFX_FLOW_QoS_StormCfgSet :: "IFX_ETHSW_QoS_stormCfg \<Rightarrow> 'p core \<Rightarrow> int \<times> 'p core" where
  "IFX_FLOW_QoS_StormCfgSet q s =
     (let s = (if st_bBroadcast q = IFX_FALSE \<and> st_bMulticast q = IFX_FALSE \<and> st_bUnknownUnicast q = IFX_FALSE
               then wrs [(VR9_PCE_GCTRL_0_SCONMOD, 0), (VR9_PCE_GCTRL_0_SCONBC, 0),
                         (VR9_PCE_GCTRL_0_SCONMC, 0), (VR9_PCE_GCTRL_0_SCONUC, 0)] s
               else s);
          MeterID = rd VR9_PCE_GCTRL_0_SCONMET s;
          SCONBC = rd VR9_PCE_GCTRL_0_SCONBC s;
          SCONMC = rd VR9_PCE_GCTRL_0_SCONMC s;
          SCONUC = rd VR9_PCE_GCTRL_0_SCONUC s;
          r = (if SCONBC = 1 \<or> SCONMC = 1 \<or> SCONMC = 1 then
                 if st_nMeterId q = MeterID + 1 then (None, wr VR9_PCE_GCTRL_0_SCONMOD 3 s)
                 else if st_nMeterId q \<noteq> MeterID then (Some IFX_ERROR, s) else (None, s)
               else (None, wrs [(VR9_PCE_GCTRL_0_SCONMOD, 1), (VR9_PCE_GCTRL_0_SCONMET, st_nMeterId q)] s))
      in case r of
           (Some e, s) \<Rightarrow> (e, s)
         | (None, s) \<Rightarrow> (IFX_SUCCESS, wrs [(VR9_PCE_GCTRL_0_SCONBC, st_bBroadcast q),
             (VR9_PCE_GCTRL_0_SCONMC, st_bMulticast q), (VR9_PCE_GCTRL_0_SCONUC, st_bUnknownUnicast q)] s))"

definition IFX_FLOW_QoS_StormCfgGet :: "IFX_ETHSW_QoS_stormCfg \<Rightarrow> 'p core \<Rightarrow> int \<times> IFX_ETHSW_QoS_stormCfg" where
  "IFX_FLOW_QoS_StormCfgGet q s =
     (IFX_SUCCESS,
      if rd VR9_PCE_GCTRL_0_SCONMOD s = 0
      then q\<lparr>st_nMeterId := 0, st_bBroadcast := IFX_FALSE, st_bMulticast := IFX_FALSE, st_bUnknownUnicast := IFX_FALSE\<rparr>
      else q\<lparr>st_nMeterId := rd VR9_PCE_GCTRL_0_SCONMET s, st_bBroadcast := rd VR9_PCE_GCTRL_0_SCONBC s,
             st_bMulticast := rd VR9_PCE_GCTRL_0_SCONMC s, st_bUnknownUnicast := rd VR9_PCE_GCTRL_0_SCONUC s\<rparr>)"

section \<open>Random early discard\<close>

definition IFX_FLOW_QoS_WredCfgGet :: "IFX_ETHSW_QoS_WRED_Cfg \<Rightarrow> 'p core \<Rightarrow> int \<times> IFX_ETHSW_QoS_WRED_Cfg" where
  "IFX_FLOW_QoS_WredCfgGet q s =
     (IFX_SUCCESS, q\<lparr>wc_eProfile := rd VR9_BM_QUEUE_GCTRL_DPROB s,
        wc_nRed_Min := rd VR9_BM_WRED_RTH_0_MINTH s, wc_nRed_Max := rd VR9_BM_WRED_RTH_1_MAXTH s,
        wc_nYellow_Min := rd VR9_BM_WRED_YTH_0_MINTH s, wc_nYellow_Max := rd VR9_BM_WRED_YTH_1_MAXTH s,
        wc_nGreen_Min := rd VR9_BM_WRED_GTH_0_MINTH s, wc_nGreen_Max := rd VR9_BM_WRED_GTH_1_MAXTH s\<rparr>)"

definition IFX_FLOW_QoS_WredCfgSet :: "IFX_ETHSW_QoS_WRED_Cfg \<Rightarrow> 'p core \<Rightarrow> int \<times> 'p core" where
  "IFX_FLOW_QoS_WredCfgSet q s = (IFX_SUCCESS, wrs [
     (VR9_BM_QUEUE_GCTRL_GL_MOD, 1), (VR9_BM_QUEUE_GCTRL_DPROB, wc_eProfile q),
     (VR9_BM_WRED_RTH_0_MINTH, wc_nRed_Min q), (VR9_BM_WRED_RTH_1_MAXTH, wc_nRed_Max q),
     (VR9_BM_WRED_YTH_0_MINTH, wc_nYellow_Min q), (VR9_BM_WRED_YTH_1_MAXTH, wc_nYellow_Max q),
     (VR9_BM_WRED_GTH_0_MINTH, wc_nGreen_Min q), (VR9_BM_WRED_GTH_1_MAXTH, wc_nGreen_Max q)] s)"

section \<open>Settings of a port are read back\<close>

lemma wrs_dev [simp]: "dev (wrs ws s) = dev s"
  by (induction ws s rule: wrs.induct) simp_all

lemma qos_masks: "mask 1 = (1 :: u32)" "mask (Suc 0) = (1 :: u32)" "mask 2 = (3 :: u32)" "mask 4 = (0xF :: u32)"
  by (simp_all add: mask_eq_exp_minus_1)

definition remark_kept :: "IFX_ETHSW_QoS_portRemarkingCfg \<Rightarrow> IFX_ETHSW_QoS_portRemarkingCfg" where
  "remark_kept q = q\<lparr>
     pr_eDSCP_IngressRemarkingEnable := (let e = pr_eDSCP_IngressRemarkingEnable q in if e = 4 then 2 else if e \<le> 3 then e else 0),
     pr_bDSCP_EgressRemarkingEnable := pr_bDSCP_EgressRemarkingEnable q AND 1,
     pr_bPCP_IngressRemarkingEnable := pr_bPCP_IngressRemarkingEnable q AND 1,
     pr_bPCP_EgressRemarkingEnable := (if pr_bPCP_EgressRemarkingEnable q = 0 then 0 else 1)\<rparr>"

lemma le3: "(e :: u32) \<le> 3 \<longleftrightarrow> e = 0 \<or> e = 1 \<or> e = 2 \<or> e = 3"
  by (auto simp: word_le_nat_alt word_unat_eq_iff)

lemma remark_round_trip:
  assumes p: "pr_nPortId q < nTotalPortNumber (dev s)" "unat (nTotalPortNumber (dev s)) \<le> 12" "pr_nPortId q' = pr_nPortId q"
  shows "\<exists>s'. IFX_FLOW_QoS_PortRemarkingCfgSet q s = (IFX_SUCCESS, s') \<and> dev s' = dev s \<and>
    IFX_FLOW_QoS_PortRemarkingCfgGet q' s' = (IFX_SUCCESS, remark_kept q)"
proof -
  have ok: "\<not> nTotalPortNumber (dev s) \<le> pr_nPortId q" using p(1) by (simp add: not_le)
  have n: "unat (pr_nPortId q) < 12" using p(1,2) by (simp add: word_less_nat_alt)
  obtain c d m where b: "remark_bits (pr_eDSCP_IngressRemarkingEnable q) = (c, d, m)" by (metis prod.exhaust)
  let ?F = "\<lambda>F k. qport F k (pr_nPortId q)"
  define s' where "s' = snd (IFX_FLOW_QoS_PortRemarkingCfgSet q s)"
  have set: "IFX_FLOW_QoS_PortRemarkingCfgSet q s = (IFX_SUCCESS, s')" "dev s' = dev s"
    using ok by (simp_all add: s'_def IFX_FLOW_QoS_PortRemarkingCfgSet_def Let_def b)
  have far: "fdisj (?F (0xA80, sh, sz) 6) (?F (0x480, sh', sz') 10)" "fdisj (?F (0x480, sh, sz) 10) (?F (0xA80, sh', sz') 6)"
    "fdisj (?F (0xA80, sh, sz) 6) (?F (0x482, sh', sz') 10)" "fdisj (?F (0x482, sh, sz) 10) (?F (0xA80, sh', sz') 6)" for sh sz sh' sz'
    using n by (simp_all add: port_simps del: fdisj.simps)
  have rg: "rd (?F VR9_PCE_PCTRL_0_CLPEN 10) s' = c AND mask 1" "rd (?F VR9_PCE_PCTRL_0_DPEN 10) s' = d AND mask 1"
    "rd (?F VR9_PCE_PCTRL_2_DSCPMOD 10) s' = m AND mask 1"
    "rd (?F VR9_FDMA_PCTRL_DSCPRM 6) s' = pr_bDSCP_EgressRemarkingEnable q AND mask 1"
    "rd (?F VR9_PCE_PCTRL_0_PCPEN 10) s' = pr_bPCP_IngressRemarkingEnable q AND mask 1"
    "rd (?F VR9_FDMA_PCTRL_VLANMOD 6) s' = (if pr_bPCP_EgressRemarkingEnable q = 0 then 0 else 3) AND mask 2"
    using ok far by (auto simp: s'_def IFX_FLOW_QoS_PortRemarkingCfgSet_def Let_def b field_simps_hw word_gt_0)
  have "IFX_FLOW_QoS_PortRemarkingCfgGet q' s' = (IFX_SUCCESS, remark_kept q)"
    unfolding IFX_FLOW_QoS_PortRemarkingCfgGet_def Let_def p(3) rg set(2) using ok b p(3)
    by (cases q, cases q') (auto simp: remark_kept_def remark_bits_def qos_masks le3 split: if_splits)
  with set show ?thesis by blast
qed

lemma class_mode_round_trip:
  assumes p: "qp_nPortId q < nTotalPortNumber (dev s)" "qp_nPortId q' = qp_nPortId q"
    and q: "qp_eClassMode q \<le> 4" "qp_nTrafficClass q \<le> 0xF"
  shows "\<exists>s'. IFX_FLOW_QoS_PortCfgSet q s = (IFX_SUCCESS, s') \<and> dev s' = dev s \<and>
    IFX_FLOW_QoS_PortCfgGet q' s' = (IFX_SUCCESS, q)"
proof -
  have ok: "\<not> nTotalPortNumber (dev s) \<le> qp_nPortId q" "\<not> 0xF < qp_nTrafficClass q" using p(1) q(2) by (simp_all add: not_le not_less)
  have m: "qp_eClassMode q = 0 \<or> qp_eClassMode q = 1 \<or> qp_eClassMode q = 2 \<or> qp_eClassMode q = 3 \<or> qp_eClassMode q = 4"
    using q(1) by (auto simp: word_le_nat_alt word_unat_eq_iff)
  then obtain d c where b: "class_mode_bits (qp_eClassMode q) = Some (d, c)" by (auto simp: class_mode_bits_def)
  let ?F = "\<lambda>F. qport F 10 (qp_nPortId q)"
  define s' where "s' = snd (IFX_FLOW_QoS_PortCfgSet q s)"
  have set: "IFX_FLOW_QoS_PortCfgSet q s = (IFX_SUCCESS, s')" "dev s' = dev s"
    using ok by (simp_all add: s'_def IFX_FLOW_QoS_PortCfgSet_def Let_def b)
  have rg: "rd (?F VR9_PCE_PCTRL_2_DSCP) s' = d AND mask 2" "rd (?F VR9_PCE_PCTRL_2_PCP) s' = c AND mask 1"
    "rd (?F VR9_PCE_PCTRL_2_PCLASS) s' = ucast (qp_nTrafficClass q) AND mask 4"
    using ok by (simp_all add: s'_def IFX_FLOW_QoS_PortCfgSet_def Let_def b field_simps_hw)
  have "unat (ucast (qp_nTrafficClass q) :: u32) < 2 ^ 4" using q(2) by (simp add: word_le_nat_alt unat_ucast_up)
  then have tc: "ucast (ucast (qp_nTrafficClass q) AND mask 4 :: u32) = qp_nTrafficClass q"
    by (simp add: and_mask_small)
  have "IFX_FLOW_QoS_PortCfgGet q' s' = (IFX_SUCCESS, q)"
    unfolding IFX_FLOW_QoS_PortCfgGet_def Let_def p(2) rg set(2) tc using ok m b p(2)
    by (cases q, cases q') (auto simp: class_mode_bits_def qos_masks)
  with set show ?thesis by blast
qed

text \<open>A traffic class that does not exist is an error, but the classification mode is written before the test.\<close>

lemma class_error_writes_mode:
  assumes "qp_nPortId q < nTotalPortNumber (dev s)" "qp_nTrafficClass q > 0xF" "qp_eClassMode q = 1"
  shows "fst (IFX_FLOW_QoS_PortCfgSet q s) = IFX_ERROR"
    "rd (qport VR9_PCE_PCTRL_2_DSCP 10 (qp_nPortId q)) (snd (IFX_FLOW_QoS_PortCfgSet q s)) = 2"
  using assms by (simp_all add: IFX_FLOW_QoS_PortCfgSet_def Let_def class_mode_bits_def field_simps_hw qos_masks not_le [symmetric])

lemma wred_round_trip:
  "\<exists>s'. IFX_FLOW_QoS_WredCfgSet q s = (IFX_SUCCESS, s') \<and> dev s' = dev s \<and>
    IFX_FLOW_QoS_WredCfgGet q' s' = (IFX_SUCCESS, \<lparr>wc_eProfile = wc_eProfile q AND 3,
      wc_nRed_Min = wc_nRed_Min q AND 0x3FF, wc_nRed_Max = wc_nRed_Max q AND 0x3FF,
      wc_nYellow_Min = wc_nYellow_Min q AND 0x3FF, wc_nYellow_Max = wc_nYellow_Max q AND 0x3FF,
      wc_nGreen_Min = wc_nGreen_Min q AND 0x3FF, wc_nGreen_Max = wc_nGreen_Max q AND 0x3FF\<rparr>)"
proof -
  have "mask 10 = (0x3FF :: u32)" by (simp add: mask_eq_exp_minus_1)
  then show ?thesis
    by (cases q') (simp add: IFX_FLOW_QoS_WredCfgSet_def IFX_FLOW_QoS_WredCfgGet_def field_simps_hw qos_masks)
qed

section \<open>Shapers of a queue\<close>

text \<open>The two slots of a queue: the shapers that act on it.\<close>

definition shaper_slots :: "u8 \<Rightarrow> 'p core \<Rightarrow> u32 option \<times> u32 option" where
  "shaper_slots n s =
     (if rd (queue_reg VR9_PQM_RS_EN1 n) s = 1 then Some (rd (queue_reg VR9_PQM_RS_RS1 n) s) else None,
      if rd (queue_reg VR9_PQM_RS_EN2 n) s = 1 then Some (rd (queue_reg VR9_PQM_RS_RS2 n) s) else None)"

lemma one_bit: "fwidth F = 1 \<Longrightarrow> rdf F h = 0 \<or> rdf F h = 1"
proof -
  assume "fwidth F = 1"
  then have "unat (rdf F h) < 2" using rdf_less [of F h] by simp
  then show ?thesis by (auto simp: word_unat_eq_iff less_2_cases_iff)
qed

lemma enable_bits:
  "rd (queue_reg VR9_PQM_RS_EN1 n) s \<noteq> 0 \<longleftrightarrow> rd (queue_reg VR9_PQM_RS_EN1 n) s = 1"
  "rd (queue_reg VR9_PQM_RS_EN2 n) s \<noteq> 0 \<longleftrightarrow> rd (queue_reg VR9_PQM_RS_EN2 n) s = 1"
  using one_bit [of "queue_reg VR9_PQM_RS_EN1 n" "hw_of s"] one_bit [of "queue_reg VR9_PQM_RS_EN2 n" "hw_of s"] by auto

lemma shaper_regs_apart:
  assumes "unat n < 32"
  shows "fdisj (shaper_reg VR9_RS_CTRL_RSEN r) (queue_reg (0x101, sh, sz) n)"
proof -
  have "unat r < 2 ^ LENGTH(8)" by (rule unsigned_less)
  then show ?thesis using assms by (simp add: port_simps del: fdisj.simps)
qed

text \<open>Assigning to a queue whose first slot is free fills that slot, and the query reports it.\<close>

lemma assign_first_slot:
  assumes q: "unat (sq_nQueueId q) < 32" "ucast (sq_nQueueId q) < rd VR9_ETHSW_CAP_1_QUEUE s"
    and r: "sq_nRateShaperId q < 16" "ucast (sq_nRateShaperId q) < rd VR9_ETHSW_CAP_3_SHAPERS s"
    and free: "shaper_slots (sq_nQueueId q) s = (None, None)"
  shows "\<exists>s'. IFX_FLOW_QoS_ShaperQueueAssign q s = (IFX_SUCCESS, s') \<and> dev s' = dev s \<and>
    shaper_slots (sq_nQueueId q) s' = (Some (ucast (sq_nRateShaperId q)), None) \<and>
    rd (shaper_reg VR9_RS_CTRL_RSEN (sq_nRateShaperId q)) s' = 1 \<and>
    rd VR9_ETHSW_CAP_1_QUEUE s' = rd VR9_ETHSW_CAP_1_QUEUE s \<and> rd VR9_ETHSW_CAP_3_SHAPERS s' = rd VR9_ETHSW_CAP_3_SHAPERS s"
proof -
  have ok: "\<not> rd VR9_ETHSW_CAP_1_QUEUE s \<le> ucast (sq_nQueueId q)" "\<not> rd VR9_ETHSW_CAP_3_SHAPERS s \<le> ucast (sq_nRateShaperId q)"
    using q(2) r(2) by (simp_all add: not_le)
  have e: "rd (queue_reg VR9_PQM_RS_EN1 (sq_nQueueId q)) s = 0" "rd (queue_reg VR9_PQM_RS_EN2 (sq_nQueueId q)) s = 0"
    using free enable_bits [of "sq_nQueueId q" s] by (auto simp: shaper_slots_def split: if_splits)
  have "unat (ucast (sq_nRateShaperId q) :: u32) < 2 ^ 4" using r(1) by (simp add: word_less_nat_alt unat_ucast_up)
  then have m: "ucast (sq_nRateShaperId q) AND mask 4 = (ucast (sq_nRateShaperId q) :: u32)" by (rule and_mask_small)
  have far: "fdisj (shaper_reg VR9_RS_CTRL_RSEN (sq_nRateShaperId q)) (queue_reg (0x101, 0, 4) (sq_nQueueId q))"
    by (rule shaper_regs_apart [OF q(1)])
  define s' where "s' = snd (IFX_FLOW_QoS_ShaperQueueAssign q s)"
  have "IFX_FLOW_QoS_ShaperQueueAssign q s = (IFX_SUCCESS, s')"
    using ok e by (simp add: s'_def IFX_FLOW_QoS_ShaperQueueAssign_def Let_def)
  moreover have "rd (queue_reg VR9_PQM_RS_EN1 (sq_nQueueId q)) s' = 1"
    "rd (queue_reg VR9_PQM_RS_RS1 (sq_nQueueId q)) s' = ucast (sq_nRateShaperId q)"
    "rd (queue_reg VR9_PQM_RS_EN2 (sq_nQueueId q)) s' = 0"
    "rd (shaper_reg VR9_RS_CTRL_RSEN (sq_nRateShaperId q)) s' = 1" "dev s' = dev s"
    using ok e m far by (auto simp: s'_def IFX_FLOW_QoS_ShaperQueueAssign_def Let_def field_simps_hw qos_masks)
  moreover have "rd (off, sh, sz) s' = rd (off, sh, sz) s" if "unat off < 16" for off sh sz
  proof -
    have sm: "unat (sq_nRateShaperId q) < 16" using r(1) by (simp add: word_less_nat_alt)
    have far: "fdisj (queue_reg (0x101, a, b) (sq_nQueueId q)) (off, sh, sz)"
      "fdisj (shaper_reg VR9_RS_CTRL_RSEN (sq_nRateShaperId q)) (off, sh, sz)" for a b
      using q(1) sm that by (simp_all add: port_simps del: fdisj.simps)
    show ?thesis using ok e far
      by (simp add: s'_def IFX_FLOW_QoS_ShaperQueueAssign_def Let_def rdf_wrf_other del: fdisj.simps at.simps)
  qed
  ultimately show ?thesis by (auto simp: shaper_slots_def)
qed

text \<open>The query reports the first slot only.\<close>

lemma query_first_slot:
  assumes "ucast (sg_nQueueId g) < rd VR9_ETHSW_CAP_1_QUEUE s"
  shows "IFX_FLOW_QoS_ShaperQueueGet g s = (IFX_SUCCESS, case fst (shaper_slots (sg_nQueueId g) s) of
      Some r \<Rightarrow> g\<lparr>sg_bAssigned := IFX_TRUE, sg_nRateShaperId := ucast r\<rparr>
    | None \<Rightarrow> g\<lparr>sg_bAssigned := IFX_FALSE, sg_nRateShaperId := 0\<rparr>)"
proof -
  have "\<not> rd VR9_ETHSW_CAP_1_QUEUE s \<le> ucast (sg_nQueueId g)" using assms by (simp add: not_le)
  moreover have "rd (queue_reg VR9_PQM_RS_EN1 (sg_nQueueId g)) s \<noteq> 2"
    using enable_bits [of "sg_nQueueId g" s] by auto
  ultimately show ?thesis by (auto simp: IFX_FLOW_QoS_ShaperQueueGet_def Let_def shaper_slots_def)
qed

text \<open>
  Assignment looks for the shaper in the registers of the queue whose number is the shaper's, not of the
  queue at hand. If that queue is shaped by it, nothing is assigned and the answer is success; if it is
  not, a queue that has the shaper gets it a second time.
\<close>

lemma assign_lost:
  assumes "ucast (sq_nQueueId q) < rd VR9_ETHSW_CAP_1_QUEUE s" "ucast (sq_nRateShaperId q) < rd VR9_ETHSW_CAP_3_SHAPERS s"
    and "fst (shaper_slots (sq_nQueueId q) s) \<noteq> None"
    and "rd (queue_reg VR9_PQM_RS_RS1 (sq_nRateShaperId q)) s = ucast (sq_nRateShaperId q)"
  shows "IFX_FLOW_QoS_ShaperQueueAssign q s = (IFX_SUCCESS, s)"
  using assms by (auto simp: IFX_FLOW_QoS_ShaperQueueAssign_def Let_def shaper_slots_def not_le [symmetric] split: if_splits)

lemma assign_twice:
  assumes q: "unat (sq_nQueueId q) < 32" "ucast (sq_nQueueId q) < rd VR9_ETHSW_CAP_1_QUEUE s"
    and r: "sq_nRateShaperId q < 16" "ucast (sq_nRateShaperId q) < rd VR9_ETHSW_CAP_3_SHAPERS s"
    and slots: "shaper_slots (sq_nQueueId q) s = (Some (ucast (sq_nRateShaperId q)), None)"
    and other: "rd (queue_reg VR9_PQM_RS_RS1 (sq_nRateShaperId q)) s \<noteq> ucast (sq_nRateShaperId q)"
  shows "\<exists>s'. IFX_FLOW_QoS_ShaperQueueAssign q s = (IFX_SUCCESS, s') \<and>
    shaper_slots (sq_nQueueId q) s' = (Some (ucast (sq_nRateShaperId q)), Some (ucast (sq_nRateShaperId q)))"
proof -
  have ok: "\<not> rd VR9_ETHSW_CAP_1_QUEUE s \<le> ucast (sq_nQueueId q)" "\<not> rd VR9_ETHSW_CAP_3_SHAPERS s \<le> ucast (sq_nRateShaperId q)"
    using q(2) r(2) by (simp_all add: not_le)
  have e: "rd (queue_reg VR9_PQM_RS_EN1 (sq_nQueueId q)) s = 1" "rd (queue_reg VR9_PQM_RS_EN2 (sq_nQueueId q)) s = 0"
    "rd (queue_reg VR9_PQM_RS_RS1 (sq_nQueueId q)) s = ucast (sq_nRateShaperId q)"
    using slots enable_bits [of "sq_nQueueId q" s] by (auto simp: shaper_slots_def split: if_splits)
  have "unat (ucast (sq_nRateShaperId q) :: u32) < 2 ^ 4" using r(1) by (simp add: word_less_nat_alt unat_ucast_up)
  then have m: "ucast (sq_nRateShaperId q) AND mask 4 = (ucast (sq_nRateShaperId q) :: u32)" by (rule and_mask_small)
  have far: "fdisj (shaper_reg VR9_RS_CTRL_RSEN (sq_nRateShaperId q)) (queue_reg (0x101, 0, 4) (sq_nQueueId q))"
    by (rule shaper_regs_apart [OF q(1)])
  define s' where "s' = snd (IFX_FLOW_QoS_ShaperQueueAssign q s)"
  have "IFX_FLOW_QoS_ShaperQueueAssign q s = (IFX_SUCCESS, s')"
    using ok e other by (simp add: s'_def IFX_FLOW_QoS_ShaperQueueAssign_def Let_def)
  moreover have "rd (queue_reg VR9_PQM_RS_EN1 (sq_nQueueId q)) s' = 1" "rd (queue_reg VR9_PQM_RS_EN2 (sq_nQueueId q)) s' = 1"
    "rd (queue_reg VR9_PQM_RS_RS1 (sq_nQueueId q)) s' = ucast (sq_nRateShaperId q)"
    "rd (queue_reg VR9_PQM_RS_RS2 (sq_nQueueId q)) s' = ucast (sq_nRateShaperId q)"
    using ok e m far other by (auto simp: s'_def IFX_FLOW_QoS_ShaperQueueAssign_def Let_def field_simps_hw qos_masks)
  ultimately show ?thesis by (auto simp: shaper_slots_def)
qed

lemma deassign_slots:
  assumes q: "ucast (sq_nQueueId q) < rd VR9_ETHSW_CAP_1_QUEUE s" "ucast (sq_nRateShaperId q) < rd VR9_ETHSW_CAP_3_SHAPERS s"
  shows "let r = Some (ucast (sq_nRateShaperId q)); (ret, s') = IFX_FLOW_QoS_ShaperQueueDeassign q s in
    case shaper_slots (sq_nQueueId q) s of (a, b) \<Rightarrow>
      if a = r then ret = IFX_SUCCESS \<and> shaper_slots (sq_nQueueId q) s' = (None, b)
      else if b = r then ret = IFX_SUCCESS \<and> shaper_slots (sq_nQueueId q) s' = (a, None)
      else ret = IFX_ERROR \<and> s' = s"
proof -
  have ok: "\<not> rd VR9_ETHSW_CAP_1_QUEUE s \<le> ucast (sq_nQueueId q)" "\<not> rd VR9_ETHSW_CAP_3_SHAPERS s \<le> ucast (sq_nRateShaperId q)"
    using q by (simp_all add: not_le)
  then show ?thesis
    by (auto simp: IFX_FLOW_QoS_ShaperQueueDeassign_def Let_def shaper_slots_def field_simps_hw split: if_splits)
qed

lemma assign_query_deassign:
  assumes "unat (sq_nQueueId q) < 32" "ucast (sq_nQueueId q) < rd VR9_ETHSW_CAP_1_QUEUE s"
    "sq_nRateShaperId q < 16" "ucast (sq_nRateShaperId q) < rd VR9_ETHSW_CAP_3_SHAPERS s"
    "shaper_slots (sq_nQueueId q) s = (None, None)" "sg_nQueueId g = sq_nQueueId q"
  shows "\<exists>s1 s2. IFX_FLOW_QoS_ShaperQueueAssign q s = (IFX_SUCCESS, s1) \<and>
    rd (shaper_reg VR9_RS_CTRL_RSEN (sq_nRateShaperId q)) s1 = 1 \<and>
    IFX_FLOW_QoS_ShaperQueueGet g s1 = (IFX_SUCCESS, g\<lparr>sg_bAssigned := IFX_TRUE, sg_nRateShaperId := sq_nRateShaperId q\<rparr>) \<and>
    IFX_FLOW_QoS_ShaperQueueDeassign q s1 = (IFX_SUCCESS, s2) \<and> shaper_slots (sq_nQueueId q) s2 = (None, None)"
proof -
  obtain s1 where s1: "IFX_FLOW_QoS_ShaperQueueAssign q s = (IFX_SUCCESS, s1)"
    "shaper_slots (sq_nQueueId q) s1 = (Some (ucast (sq_nRateShaperId q)), None)"
    "rd (shaper_reg VR9_RS_CTRL_RSEN (sq_nRateShaperId q)) s1 = 1"
    "ucast (sq_nQueueId q) < rd VR9_ETHSW_CAP_1_QUEUE s1" "ucast (sq_nRateShaperId q) < rd VR9_ETHSW_CAP_3_SHAPERS s1"
    using assign_first_slot [OF assms(1-5)] assms(2,4) by metis
  have g: "ucast (sg_nQueueId g) < rd VR9_ETHSW_CAP_1_QUEUE s1" using s1(4) assms(6) by simp
  have "IFX_FLOW_QoS_ShaperQueueGet g s1 = (IFX_SUCCESS, g\<lparr>sg_bAssigned := IFX_TRUE, sg_nRateShaperId := sq_nRateShaperId q\<rparr>)"
    unfolding query_first_slot [OF g] assms(6) s1(2) by simp
  moreover obtain s2 where "IFX_FLOW_QoS_ShaperQueueDeassign q s1 = (IFX_SUCCESS, s2)" "shaper_slots (sq_nQueueId q) s2 = (None, None)"
    using deassign_slots [OF s1(4,5)] s1(2) by (auto simp: Let_def split: prod.splits)
  ultimately show ?thesis using s1(1,3) by blast
qed

section \<open>Storm control is read back\<close>

abbreviation storm_off :: "IFX_ETHSW_QoS_stormCfg \<Rightarrow> bool" where
  "storm_off q \<equiv> st_bBroadcast q = 0 \<and> st_bMulticast q = 0 \<and> st_bUnknownUnicast q = 0"

definition storm_kept :: "IFX_ETHSW_QoS_stormCfg \<Rightarrow> IFX_ETHSW_QoS_stormCfg" where
  "storm_kept q = \<lparr>st_nMeterId = st_nMeterId q AND 0xF, st_bBroadcast = st_bBroadcast q AND 1,
     st_bMulticast = st_bMulticast q AND 1, st_bUnknownUnicast = st_bUnknownUnicast q AND 1\<rparr>"

lemma storm_round_trip:
  assumes "storm_off q \<or> rd VR9_PCE_GCTRL_0_SCONBC s \<noteq> 1 \<and> rd VR9_PCE_GCTRL_0_SCONMC s \<noteq> 1"
  shows "\<exists>s'. IFX_FLOW_QoS_StormCfgSet q s = (IFX_SUCCESS, s') \<and> rd VR9_PCE_GCTRL_0_SCONMOD s' = 1 \<and>
    IFX_FLOW_QoS_StormCfgGet q' s' = (IFX_SUCCESS, storm_kept q)"
proof -
  define s' where "s' = snd (IFX_FLOW_QoS_StormCfgSet q s)"
  have "IFX_FLOW_QoS_StormCfgSet q s = (IFX_SUCCESS, s')"
    using assms by (auto simp: s'_def IFX_FLOW_QoS_StormCfgSet_def Let_def field_simps_hw)
  moreover have "rd VR9_PCE_GCTRL_0_SCONMOD s' = 1" "rd VR9_PCE_GCTRL_0_SCONMET s' = st_nMeterId q AND 0xF"
    "rd VR9_PCE_GCTRL_0_SCONBC s' = st_bBroadcast q AND 1" "rd VR9_PCE_GCTRL_0_SCONMC s' = st_bMulticast q AND 1"
    "rd VR9_PCE_GCTRL_0_SCONUC s' = st_bUnknownUnicast q AND 1"
    using assms by (auto simp: s'_def IFX_FLOW_QoS_StormCfgSet_def Let_def field_simps_hw qos_masks)
  ultimately show ?thesis by (cases q') (simp add: IFX_FLOW_QoS_StormCfgGet_def storm_kept_def)
qed

lemma storm_meter_busy:
  assumes "\<not> storm_off q" "rd VR9_PCE_GCTRL_0_SCONBC s = 1 \<or> rd VR9_PCE_GCTRL_0_SCONMC s = 1"
    and "st_nMeterId q \<noteq> rd VR9_PCE_GCTRL_0_SCONMET s" "st_nMeterId q \<noteq> rd VR9_PCE_GCTRL_0_SCONMET s + 1"
  shows "IFX_FLOW_QoS_StormCfgSet q s = (IFX_ERROR, s)"
  using assms by (auto simp: IFX_FLOW_QoS_StormCfgSet_def Let_def)

end
