(* ===== verification/Core_BM.thy ===== *)
theory Core_BM
  imports Core_QoS Core_Classes
begin

text \<open>
  The memory of the buffer manager, \<^verbatim>\<open>ltq_flow_core.c\<close>: the queue of a port and class, the scheduler of
  a queue, and the discard thresholds of a queue. A row is reached through a window of registers of its
  own, with a busy bit; what the device does with it is the interface \<open>bm_engine\<close>.
\<close>

unbundle bit_operations_syntax

section \<open>Parameters and registers\<close>

record IFX_ETHSW_QoS_queuePort =
  qq_nPortId :: u8
  qq_nTrafficClassId :: u8
  qq_nQueueId :: u8

record IFX_ETHSW_QoS_schedulerCfg =
  sc_nQueueId :: u8
  sc_eType :: u32
  sc_nWeight :: u32

record IFX_ETHSW_QoS_WRED_QueueCfg =
  wq_nQueueId :: u32
  wq_nRed_Min :: u32
  wq_nRed_Max :: u32
  wq_nYellow_Min :: u32
  wq_nYellow_Max :: u32
  wq_nGreen_Min :: u32
  wq_nGreen_Max :: u32

record IFX_ETHSW_QoS_QueueBufferReserveCfg =
  br_nQueueId :: u8
  br_nBufferReserved :: u32

abbreviation (input) VR9_BM_RAM_VAL_0_VAL0 :: field where "VR9_BM_RAM_VAL_0_VAL0 \<equiv> (0x043, 0, 16)"
abbreviation (input) VR9_BM_RAM_VAL_1_VAL1 :: field where "VR9_BM_RAM_VAL_1_VAL1 \<equiv> (0x042, 0, 16)"
abbreviation (input) VR9_BM_RAM_ADDR_ADDR :: field where "VR9_BM_RAM_ADDR_ADDR \<equiv> (0x044, 0, 11)"
abbreviation (input) VR9_BM_RAM_CTRL_ADDR :: field where "VR9_BM_RAM_CTRL_ADDR \<equiv> (0x045, 0, 5)"
abbreviation (input) VR9_BM_RAM_CTRL_OPMOD :: field where "VR9_BM_RAM_CTRL_OPMOD \<equiv> (0x045, 5, 1)"
abbreviation (input) VR9_BM_RAM_CTRL_BAS :: field where "VR9_BM_RAM_CTRL_BAS \<equiv> (0x045, 15, 1)"

abbreviation (input) IFX_ETHSW_QOS_SCHEDULER_STRICT :: u32 where "IFX_ETHSW_QOS_SCHEDULER_STRICT \<equiv> 0"
abbreviation (input) IFX_ETHSW_QOS_SCHEDULER_WFQ :: u32 where "IFX_ETHSW_QOS_SCHEDULER_WFQ \<equiv> 1"
abbreviation (input) PCE_QUEUE_MAP_INDEX :: u16 where "PCE_QUEUE_MAP_INDEX \<equiv> 0x11"

section \<open>The handlers\<close>

definition bm_poll :: "('p hw \<Rightarrow> 'p hw) \<Rightarrow> 'p core \<Rightarrow> 'p core option" where
  "bm_poll hwstep s = map_option (\<lambda>h. upd_hw (\<lambda>_. h) s) (poll hwstep VR9_BM_RAM_CTRL_BAS (hw_of s))"

definition queue_map_index :: "IFX_ETHSW_QoS_queuePort \<Rightarrow> u16" where
  "queue_map_index q = (push_bit 4 (ucast (qq_nPortId q)) AND 0x70) OR (ucast (qq_nTrafficClassId q) AND 0xF)"

definition IFX_FLOW_QoS_QueuePortGet ::
  "('p hw \<Rightarrow> 'p hw) \<Rightarrow> IFX_ETHSW_QoS_queuePort \<Rightarrow> 'p core \<Rightarrow> (int \<times> IFX_ETHSW_QoS_queuePort \<times> 'p core) option" where
  "IFX_FLOW_QoS_QueuePortGet hwstep q s = do {
     (e, s) \<leftarrow> row_read hwstep (zero_entry\<lparr>e_table := PCE_QUEUE_MAP_INDEX, e_index := queue_map_index q\<rparr>) s;
     Some (IFX_SUCCESS, q\<lparr>qq_nQueueId := ucast (e_val e ! 0 AND 0x1F)\<rparr>, s) }"

definition IFX_FLOW_QoS_QueuePortSet ::
  "('p hw \<Rightarrow> 'p hw) \<Rightarrow> IFX_ETHSW_QoS_queuePort \<Rightarrow> 'p core \<Rightarrow> (int \<times> 'p core) option" where
  "IFX_FLOW_QoS_QueuePortSet hwstep q s = do {
     s \<leftarrow> row_write hwstep (put0 (ucast (qq_nQueueId q) AND 0x1F)
       (zero_entry\<lparr>e_table := PCE_QUEUE_MAP_INDEX, e_index := queue_map_index q\<rparr>)) s;
     let EgressPortId = ucast (qq_nPortId q) AND 0x7;
     s \<leftarrow> bm_poll hwstep (wrs [(VR9_BM_RAM_VAL_0_VAL0, EgressPortId),
       (VR9_BM_RAM_ADDR_ADDR, ucast (qq_nQueueId q)), (VR9_BM_RAM_CTRL_ADDR, 0xE),
       (VR9_BM_RAM_CTRL_OPMOD, 1), (VR9_BM_RAM_CTRL_BAS, 1)] s);
     Some (IFX_SUCCESS, s) }"

definition IFX_FLOW_QoS_SchedulerCfgGet ::
  "('p hw \<Rightarrow> 'p hw) \<Rightarrow> IFX_ETHSW_QoS_schedulerCfg \<Rightarrow> 'p core \<Rightarrow> (int \<times> IFX_ETHSW_QoS_schedulerCfg \<times> 'p core) option" where
  "IFX_FLOW_QoS_SchedulerCfgGet hwstep q s =
     (let nQueueId = ucast (sc_nQueueId q)
      in if nQueueId \<ge> rd VR9_ETHSW_CAP_1_QUEUE s then Some (IFX_ERROR, q, s)
      else do {
        s \<leftarrow> bm_poll hwstep (wrs [(VR9_BM_RAM_ADDR_ADDR, nQueueId), (VR9_BM_RAM_CTRL_ADDR, 0x8),
          (VR9_BM_RAM_CTRL_OPMOD, 0), (VR9_BM_RAM_CTRL_BAS, 1)] s);
        let value = rd VR9_BM_RAM_VAL_0_VAL0 s;
        Some (IFX_SUCCESS, q\<lparr>sc_nWeight := value,
          sc_eType := (if value = 0xFFFF \<or> value = 0x1800 then IFX_ETHSW_QOS_SCHEDULER_STRICT
                       else IFX_ETHSW_QOS_SCHEDULER_WFQ)\<rparr>, s) })"

definition IFX_FLOW_QoS_SchedulerCfgSet ::
  "('p hw \<Rightarrow> 'p hw) \<Rightarrow> IFX_ETHSW_QoS_schedulerCfg \<Rightarrow> 'p core \<Rightarrow> (int \<times> 'p core) option" where
  "IFX_FLOW_QoS_SchedulerCfgSet hwstep q s =
     (let nQueueId = ucast (sc_nQueueId q)
      in if nQueueId \<ge> rd VR9_ETHSW_CAP_1_QUEUE s then Some (IFX_ERROR, s)
      else let value = (if sc_eType q = IFX_ETHSW_QOS_SCHEDULER_STRICT then 0xFFFF else sc_nWeight q)
      in do {
        s \<leftarrow> bm_poll hwstep (wrs [(VR9_BM_RAM_ADDR_ADDR, nQueueId), (VR9_BM_RAM_CTRL_ADDR, 0x8),
          (VR9_BM_RAM_VAL_0_VAL0, value), (VR9_BM_RAM_CTRL_OPMOD, 1), (VR9_BM_RAM_CTRL_BAS, 1)] s);
        Some (IFX_SUCCESS, s) })"

text \<open>The loops over \<^verbatim>\<open>ColorCode\<close>: 0 (not dropped), 1 (green), 2 (yellow), 3 (red).\<close>

definition wred_read :: "u32 \<Rightarrow> u32 \<Rightarrow> u32 \<Rightarrow> IFX_ETHSW_QoS_WRED_QueueCfg \<Rightarrow> IFX_ETHSW_QoS_WRED_QueueCfg" where
  "wred_read c data0 data1 q =
     (if c = 3 then q\<lparr>wq_nRed_Max := data1, wq_nRed_Min := data0\<rparr>
      else if c = 2 then q\<lparr>wq_nYellow_Max := data1, wq_nYellow_Min := data0\<rparr>
      else if c = 1 then q\<lparr>wq_nGreen_Max := data1, wq_nGreen_Min := data0\<rparr>
      else q)"

fun wred_get_loop :: "('p hw \<Rightarrow> 'p hw) \<Rightarrow> u32 list \<Rightarrow> IFX_ETHSW_QoS_WRED_QueueCfg \<Rightarrow> 'p core \<Rightarrow>
    (IFX_ETHSW_QoS_WRED_QueueCfg \<times> 'p core) option" where
  "wred_get_loop hwstep [] q s = Some (q, s)"
| "wred_get_loop hwstep (c # cs) q s = do {
     let addr = push_bit 3 (wq_nQueueId q) OR c;
     s \<leftarrow> bm_poll hwstep (wrs [(VR9_BM_RAM_ADDR_ADDR, addr), (VR9_BM_RAM_CTRL_ADDR, 0x9),
       (VR9_BM_RAM_CTRL_OPMOD, 0), (VR9_BM_RAM_CTRL_BAS, 1)] s);
     wred_get_loop hwstep cs (wred_read c (rd VR9_BM_RAM_VAL_0_VAL0 s) (rd VR9_BM_RAM_VAL_1_VAL1 s) q) s }"

definition IFX_FLOW_QoS_WredQueueCfgGet ::
  "('p hw \<Rightarrow> 'p hw) \<Rightarrow> IFX_ETHSW_QoS_WRED_QueueCfg \<Rightarrow> 'p core \<Rightarrow> (int \<times> IFX_ETHSW_QoS_WRED_QueueCfg \<times> 'p core) option" where
  "IFX_FLOW_QoS_WredQueueCfgGet hwstep q s =
     (if wq_nQueueId q \<ge> rd VR9_ETHSW_CAP_1_QUEUE s then Some (IFX_ERROR, q, s)
      else do {
        (q, s) \<leftarrow> wred_get_loop hwstep [0, 1, 2, 3] q s;
        Some (IFX_SUCCESS, q, s) })"

text \<open>What a turn writes, the lower and the upper threshold.\<close>

definition wred_data :: "IFX_ETHSW_QoS_WRED_QueueCfg \<Rightarrow> u32 \<Rightarrow> u32 \<times> u32" where
  "wred_data q c =
     (if c = 3 then (wq_nRed_Min q, wq_nRed_Max q) else if c = 2 then (wq_nYellow_Min q, wq_nYellow_Max q)
      else if c = 1 then (wq_nGreen_Min q, wq_nGreen_Max q) else (0, 0))"

fun wred_set_loop :: "('p hw \<Rightarrow> 'p hw) \<Rightarrow> u32 list \<Rightarrow> IFX_ETHSW_QoS_WRED_QueueCfg \<Rightarrow> 'p core \<Rightarrow> 'p core option" where
  "wred_set_loop hwstep [] q s = Some s"
| "wred_set_loop hwstep (c # cs) q s = do {
     let addr = (push_bit 3 (wq_nQueueId q) AND 0xF8) OR c;
     s \<leftarrow> bm_poll hwstep (wrs [(VR9_BM_RAM_ADDR_ADDR, addr), (VR9_BM_RAM_CTRL_ADDR, 0x9),
       (VR9_BM_RAM_CTRL_OPMOD, 1), (VR9_BM_RAM_VAL_0_VAL0, fst (wred_data q c)),
       (VR9_BM_RAM_VAL_1_VAL1, snd (wred_data q c)), (VR9_BM_RAM_CTRL_BAS, 1)] s);
     wred_set_loop hwstep cs q s }"

definition IFX_FLOW_QoS_WredQueueCfgSet ::
  "('p hw \<Rightarrow> 'p hw) \<Rightarrow> IFX_ETHSW_QoS_WRED_QueueCfg \<Rightarrow> 'p core \<Rightarrow> (int \<times> 'p core) option" where
  "IFX_FLOW_QoS_WredQueueCfgSet hwstep q s =
     (if wq_nQueueId q \<ge> rd VR9_ETHSW_CAP_1_QUEUE s then Some (IFX_ERROR, s)
      else do {
        s \<leftarrow> wred_set_loop hwstep [0, 1, 2, 3] q s;
        Some (IFX_SUCCESS, wr VR9_BM_QUEUE_GCTRL_GL_MOD 0 s) })"

text \<open>
  The buffers reserved for a queue, on version 2.2 of the switch. They are kept in the row of the queue and
  the colour 0 of the same table.
\<close>

definition IFX_FLOW_QoS_QueueBufferReserveCfgGet ::
  "('p hw \<Rightarrow> 'p hw) \<Rightarrow> IFX_ETHSW_QoS_QueueBufferReserveCfg \<Rightarrow> 'p core \<Rightarrow>
     (int \<times> IFX_ETHSW_QoS_QueueBufferReserveCfg \<times> 'p core) option" where
  "IFX_FLOW_QoS_QueueBufferReserveCfgGet hwstep q s =
     (if ucast (br_nQueueId q) \<ge> rd VR9_ETHSW_CAP_1_QUEUE s then Some (IFX_ERROR, q, s)
      else if GSWIP_Ver (dev s) = LTQ_GSWIP_2_2 then do {
        let addr = push_bit 3 (ucast (br_nQueueId q)) AND 0xF8;
        s \<leftarrow> bm_poll hwstep (wrs [(VR9_BM_RAM_ADDR_ADDR, addr), (VR9_BM_RAM_CTRL_ADDR, 0x9),
          (VR9_BM_RAM_CTRL_OPMOD, 0), (VR9_BM_RAM_CTRL_BAS, 1)] s);
        Some (IFX_SUCCESS, q\<lparr>br_nBufferReserved := rd VR9_BM_RAM_VAL_0_VAL0 s\<rparr>, s) }
      else Some (IFX_ERROR, q, s))"

definition IFX_FLOW_QoS_QueueBufferReserveCfgSet ::
  "('p hw \<Rightarrow> 'p hw) \<Rightarrow> IFX_ETHSW_QoS_QueueBufferReserveCfg \<Rightarrow> 'p core \<Rightarrow> (int \<times> 'p core) option" where
  "IFX_FLOW_QoS_QueueBufferReserveCfgSet hwstep q s =
     (if ucast (br_nQueueId q) \<ge> rd VR9_ETHSW_CAP_1_QUEUE s then Some (IFX_ERROR, s)
      else if GSWIP_Ver (dev s) = LTQ_GSWIP_2_2 then do {
        let addr = push_bit 3 (ucast (br_nQueueId q)) AND 0xF8;
        s \<leftarrow> bm_poll hwstep (wrs [(VR9_BM_RAM_ADDR_ADDR, addr), (VR9_BM_RAM_VAL_0_VAL0, br_nBufferReserved q),
          (VR9_BM_RAM_CTRL_ADDR, 0x9), (VR9_BM_RAM_CTRL_OPMOD, 1), (VR9_BM_RAM_CTRL_BAS, 1)] s);
        Some (IFX_SUCCESS, s) }
      else Some (IFX_ERROR, s))"

section \<open>The interface of the memory\<close>

text \<open>
  \<open>ram p t a\<close> is row \<open>a\<close> of table \<open>t\<close>, two values of 16 bits, \<open>kept\<close> what a table stores of them,
  \<open>bm_size\<close> the rows that are used. Setting the busy bit starts an access, which ends. Neither the
  registers named by \<open>stable\<close> nor the tables of the classification engine are touched.
\<close>

definition bm_size :: "nat \<Rightarrow> nat" where
  "bm_size t = (if t = 8 \<or> t = 14 then 32 else if t = 9 then 256 else 0)"

definition bm_vals :: "'p hw \<Rightarrow> u16 \<times> u16" where
  "bm_vals h = (ucast (rdf VR9_BM_RAM_VAL_0_VAL0 h), ucast (rdf VR9_BM_RAM_VAL_1_VAL1 h))"

definition bm_window :: "16 word set" where
  "bm_window = {0x042, 0x043, 0x044, 0x045}"

definition bm_command :: "'p hw \<Rightarrow> nat \<Rightarrow> nat \<Rightarrow> nat \<Rightarrow> bool" where
  "bm_command h op t a \<longleftrightarrow> rdf VR9_BM_RAM_CTRL_BAS h = 1 \<and> unat (rdf VR9_BM_RAM_CTRL_OPMOD h) = op \<and>
     unat (rdf VR9_BM_RAM_CTRL_ADDR h) = t \<and> unat (rdf VR9_BM_RAM_ADDR_ADDR h) = a"

locale bm_engine =
  fixes hwstep :: "'p hw \<Rightarrow> 'p hw" and ram :: "'p \<Rightarrow> nat \<Rightarrow> nat \<Rightarrow> u16 \<times> u16"
    and kept :: "nat \<Rightarrow> u16 \<times> u16 \<Rightarrow> u16 \<times> u16" and stable :: "16 word set"
  assumes bm_write: "bm_command h 1 t a \<Longrightarrow> a < bm_size t \<Longrightarrow> \<exists>h'. poll hwstep VR9_BM_RAM_CTRL_BAS h = Some h' \<and>
      ram (priv h') = (ram (priv h))(t := (ram (priv h) t)(a := kept t (bm_vals h))) \<and>
      (\<forall>off\<in>stable. off \<notin> bm_window \<longrightarrow> regs h' off = regs h off)"
    and bm_read: "bm_command h 0 t a \<Longrightarrow> a < bm_size t \<Longrightarrow> \<exists>h'. poll hwstep VR9_BM_RAM_CTRL_BAS h = Some h' \<and>
      ram (priv h') = ram (priv h) \<and> bm_vals h' = ram (priv h) t a \<and>
      (\<forall>off\<in>stable. off \<notin> bm_window \<longrightarrow> regs h' off = regs h off)"

section \<open>Accesses\<close>

lemma bm_masks: "mask 16 = (0xFFFF :: u32)" "mask 5 = (0x1F :: u32)" "mask 1 = (1 :: u32)" "mask (Suc 0) = (1 :: u32)"
  by (simp_all add: mask_eq_exp_minus_1)

lemma bm_ramD:
  assumes E: "bm_engine hwstep ram kept S" and c: "bm_command (hw_of s) 1 t a" "a < bm_size t"
  obtains h where "bm_poll hwstep s = Some (upd_hw (\<lambda>_. h) s)"
    "ram (priv h) = (ram (priv (hw_of s)))(t := (ram (priv (hw_of s)) t)(a := kept t (bm_vals (hw_of s))))"
    "\<forall>off\<in>S. off \<notin> bm_window \<longrightarrow> regs h off = regs (hw_of s) off"
  using bm_engine.bm_write [OF E c] by (auto simp: bm_poll_def intro: that)

lemma bm_ramR:
  assumes E: "bm_engine hwstep ram kept S" and c: "bm_command (hw_of s) 0 t a" "a < bm_size t"
  obtains h where "bm_poll hwstep s = Some (upd_hw (\<lambda>_. h) s)" "ram (priv h) = ram (priv (hw_of s))"
    "bm_vals h = ram (priv (hw_of s)) t a"
    "\<forall>off\<in>S. off \<notin> bm_window \<longrightarrow> regs h off = regs (hw_of s) off"
  using bm_engine.bm_read [OF E c] by (auto simp: bm_poll_def intro: that)

lemma rdf_regs: "regs h (fst F) = regs h' (fst F) \<Longrightarrow> rdf F h = rdf F h'"
  by (cases F) (simp add: rdf.simps read_fld_get)

lemma sixteen_back: "ucast (ucast v :: u16) = (v :: u32) AND 0xFFFF"
  by (rule bit_word_eqI) (simp only: flip: bm_masks(1), auto simp: bit_simps)

lemma bm_vals_back:
  "ucast (fst (bm_vals h)) = rdf VR9_BM_RAM_VAL_0_VAL0 h" "ucast (snd (bm_vals h)) = rdf VR9_BM_RAM_VAL_1_VAL1 h"
proof -
  have "unat (rdf F h) < 2 ^ 16" if "fwidth F = 16" for F
    using rdf_less [of F h] that by simp
  then have "rdf F h AND mask 16 = rdf F h" if "fwidth F = 16" for F
    using that by (intro and_mask_small) simp
  then show "ucast (fst (bm_vals h)) = rdf VR9_BM_RAM_VAL_0_VAL0 h" "ucast (snd (bm_vals h)) = rdf VR9_BM_RAM_VAL_1_VAL1 h"
    unfolding bm_vals_def fst_conv snd_conv sixteen_back bm_masks(1) [symmetric] by simp_all
qed

lemma ucast_and_mask16: "(ucast (v AND mask 16 :: u32) :: u16) = ucast v"
  by (rule bit_word_eqI) (auto simp: bit_simps)

lemma wred_addr:
  assumes "unat q < 32" "c \<in> {0, 1, 2, 3}"
  shows "unat (push_bit 3 q OR c :: u32) = 8 * unat q + unat c" "(push_bit 3 q AND 0xF8) OR c = push_bit 3 q OR (c :: u32)"
proof -
  have q: "unat (push_bit 3 q) = 8 * unat q"
    using assms(1) by (simp add: push_bit_eq_mult unat_word_ariths)
  have c: "unat c < 4" using assms(2) by auto
  have d: "push_bit 3 q AND c = 0"
  proof (rule bit_word_eqI)
    fix n
    have "bit c n \<Longrightarrow> n < 2" using assms(2) bit_low_masks(1) [where 'a = 32, of n] by (auto simp: bit_1_iff bit_2_iff)
    then show "bit (push_bit 3 q AND c) n = bit (0 :: u32) n" by (auto simp: bit_and_iff bit_push_bit_iff)
  qed
  have "push_bit 3 q OR c = push_bit 3 q + c" using d by (simp add: disjunctive_add_eq_or)
  then show "unat (push_bit 3 q OR c :: u32) = 8 * unat q + unat c"
    using q c assms(1) by (simp add: unat_word_ariths)
  have "push_bit 3 q AND 0xF8 = push_bit 3 q"
  proof -
    have "push_bit 3 q AND mask 8 = push_bit 3 q" by (rule and_mask_small) (use q assms(1) in simp)
    moreover have "push_bit 3 q AND 0xF8 = push_bit 3 q AND mask 8"
    proof (rule bit_word_eqI)
      fix n
      have e: "(0xF8 :: u32) = mask 8 AND NOT (mask 3)" by (simp add: mask_eq_exp_minus_1)
      show "bit (push_bit 3 q AND 0xF8) n = bit (push_bit 3 q AND mask 8) n"
        unfolding e by (auto simp: bit_simps)
    qed
    ultimately show ?thesis by simp
  qed
  then show "(push_bit 3 q AND 0xF8) OR c = push_bit 3 q OR c" by simp
qed

section \<open>The scheduler of a queue\<close>

lemma scheduler_round_trip:
  assumes E: "bm_engine hwstep ram kept S" and S: "0x007 \<in> S" and k: "\<And>v. fst (kept 8 v) = fst v"
    and q: "unat (sc_nQueueId q) < 32" "ucast (sc_nQueueId q) < rd VR9_ETHSW_CAP_1_QUEUE s" "sc_nQueueId q' = sc_nQueueId q"
    and w: "w = (if sc_eType q = IFX_ETHSW_QOS_SCHEDULER_STRICT then 0xFFFF else sc_nWeight q AND 0xFFFF)"
  shows "\<exists>s1 s2. IFX_FLOW_QoS_SchedulerCfgSet hwstep q s = Some (IFX_SUCCESS, s1) \<and>
    IFX_FLOW_QoS_SchedulerCfgGet hwstep q' s1 = Some (IFX_SUCCESS, \<lparr>sc_nQueueId = sc_nQueueId q,
      sc_eType = (if w = 0xFFFF \<or> w = 0x1800 then IFX_ETHSW_QOS_SCHEDULER_STRICT else IFX_ETHSW_QOS_SCHEDULER_WFQ),
      sc_nWeight = w\<rparr>, s2)"
proof -
  let ?id = "ucast (sc_nQueueId q) :: u32" and ?v = "if sc_eType q = 0 then 0xFFFF else sc_nWeight q"
  let ?w1 = "wrs [(VR9_BM_RAM_ADDR_ADDR, ?id), (VR9_BM_RAM_CTRL_ADDR, 0x8), (VR9_BM_RAM_VAL_0_VAL0, ?v),
      (VR9_BM_RAM_CTRL_OPMOD, 1), (VR9_BM_RAM_CTRL_BAS, 1)]"
  let ?w2 = "wrs [(VR9_BM_RAM_ADDR_ADDR, ?id), (VR9_BM_RAM_CTRL_ADDR, 0x8), (VR9_BM_RAM_CTRL_OPMOD, 0), (VR9_BM_RAM_CTRL_BAS, 1)]"
  have id: "unat (?id AND mask 11) = unat (sc_nQueueId q)"
    using q(1) by (subst and_mask_small) (simp_all add: unat_ucast_up)
  have b: "unat (sc_nQueueId q) < bm_size 8" using q(1) by (simp add: bm_size_def)
  have c1: "bm_command (hw_of (?w1 s)) 1 8 (unat (sc_nQueueId q))"
    using id by (simp add: bm_command_def field_simps_hw) (simp add: bm_masks)
  have v1: "fst (bm_vals (hw_of (?w1 s))) = ucast (?v AND 0xFFFF)"
    by (simp add: bm_vals_def field_simps_hw) (simp add: bm_masks)
  obtain h1 where h1: "bm_poll hwstep (?w1 s) = Some (upd_hw (\<lambda>_. h1) (?w1 s))"
    "ram (priv h1) = (ram (priv (hw_of (?w1 s))))(8 := (ram (priv (hw_of (?w1 s))) 8)
       (unat (sc_nQueueId q) := kept 8 (bm_vals (hw_of (?w1 s)))))"
    "\<forall>off\<in>S. off \<notin> bm_window \<longrightarrow> regs h1 off = regs (hw_of (?w1 s)) off"
    by (rule bm_ramD [OF E c1 b])
  let ?s1 = "upd_hw (\<lambda>_. h1) (?w1 s)"
  have cap: "rd VR9_ETHSW_CAP_1_QUEUE ?s1 = rd VR9_ETHSW_CAP_1_QUEUE s"
    by (rule rdf_regs) (use h1(3) S in \<open>simp add: bm_window_def\<close>)
  have c2: "bm_command (hw_of (?w2 ?s1)) 0 8 (unat (sc_nQueueId q))"
    using id by (simp add: bm_command_def field_simps_hw) (simp add: bm_masks)
  obtain h2 where h2: "bm_poll hwstep (?w2 ?s1) = Some (upd_hw (\<lambda>_. h2) (?w2 ?s1))"
    "bm_vals h2 = ram (priv (hw_of (?w2 ?s1))) 8 (unat (sc_nQueueId q))"
    by (rule bm_ramR [OF E c2 b])
  have "rdf VR9_BM_RAM_VAL_0_VAL0 h2 = ucast (fst (bm_vals h2))" by (rule bm_vals_back(1) [symmetric])
  also have "\<dots> = w"
    using v1 w unfolding h2(2) by (simp add: h1(2) k sixteen_back and.assoc)
  finally have val: "rd VR9_BM_RAM_VAL_0_VAL0 (upd_hw (\<lambda>_. h2) (?w2 ?s1)) = w" by simp
  have ok: "\<not> rd VR9_ETHSW_CAP_1_QUEUE s \<le> ?id" using q(2) by (simp add: not_le)
  have "IFX_FLOW_QoS_SchedulerCfgSet hwstep q s = Some (IFX_SUCCESS, ?s1)"
    using h1(1) ok by (simp add: IFX_FLOW_QoS_SchedulerCfgSet_def Let_def)
  moreover have "IFX_FLOW_QoS_SchedulerCfgGet hwstep q' ?s1 = Some (IFX_SUCCESS, \<lparr>sc_nQueueId = sc_nQueueId q,
      sc_eType = (if w = 0xFFFF \<or> w = 0x1800 then 0 else 1), sc_nWeight = w\<rparr>, upd_hw (\<lambda>_. h2) (?w2 ?s1))"
    unfolding IFX_FLOW_QoS_SchedulerCfgGet_def Let_def q(3) cap if_not_P [OF ok] h2(1)
    using val q(3) by (cases q') simp
  ultimately show ?thesis by blast
qed

section \<open>The discard thresholds of a queue\<close>

text \<open>The row of a queue and a colour.\<close>

definition wred_row :: "u32 \<Rightarrow> u32 \<Rightarrow> nat" where
  "wred_row q c = 8 * unat q + unat c"

lemma wred_row_inj: "c \<in> {0, 1, 2, 3} \<Longrightarrow> c' \<in> {0, 1, 2, 3} \<Longrightarrow> wred_row q c = wred_row q' c' \<longleftrightarrow> q = q' \<and> c = c'"
  by (auto simp: wred_row_def word_unat_eq_iff; presburger?)

lemma wred_row_fresh:
  assumes "c \<in> {0, 1, 2, 3}" "C \<subseteq> {0, 1, 2, 3}" "n \<noteq> q \<or> c \<notin> C"
  shows "wred_row n c \<notin> wred_row q ` C"
proof
  assume "wred_row n c \<in> wred_row q ` C"
  then obtain c' where c': "c' \<in> C" "wred_row n c = wred_row q c'" by blast
  then have "c' \<in> {0, 1, 2, 3}" using assms(2) by blast
  with wred_row_inj [OF assms(1) this] c' have "n = q" "c = c'" by simp_all
  with assms(3) c'(1) show False by simp
qed

definition wred_value :: "IFX_ETHSW_QoS_WRED_QueueCfg \<Rightarrow> u32 \<Rightarrow> u16 \<times> u16" where
  "wred_value q c = (ucast (fst (wred_data q c)), ucast (snd (wred_data q c)))"

lemma wred_set_loop_spec:
  assumes E: "bm_engine hwstep ram kept S" and q: "unat (wq_nQueueId q) < 32"
  shows "set cs \<subseteq> {0, 1, 2, 3} \<Longrightarrow> distinct cs \<Longrightarrow>
    \<exists>h. wred_set_loop hwstep cs q s = Some (upd_hw (\<lambda>_. h) s) \<and>
      (\<forall>c\<in>set cs. ram (priv h) 9 (wred_row (wq_nQueueId q) c) = kept 9 (wred_value q c)) \<and>
      (\<forall>t a. t \<noteq> 9 \<or> a \<notin> wred_row (wq_nQueueId q) ` set cs \<longrightarrow> ram (priv h) t a = ram (priv (hw_of s)) t a) \<and>
      (\<forall>off\<in>S. off \<notin> bm_window \<longrightarrow> regs h off = regs (hw_of s) off)"
proof (induction cs arbitrary: s)
  case Nil
  then show ?case by (intro exI [of _ "hw_of s"]) (simp add: upd_hw_def)
next
  case (Cons c cs)
  let ?addr = "(push_bit 3 (wq_nQueueId q) AND 0xF8) OR c"
  let ?w = "wrs [(VR9_BM_RAM_ADDR_ADDR, ?addr), (VR9_BM_RAM_CTRL_ADDR, 0x9), (VR9_BM_RAM_CTRL_OPMOD, 1),
      (VR9_BM_RAM_VAL_0_VAL0, fst (wred_data q c)), (VR9_BM_RAM_VAL_1_VAL1, snd (wred_data q c)), (VR9_BM_RAM_CTRL_BAS, 1)] s"
  have c: "c \<in> {0, 1, 2, 3}" "set cs \<subseteq> {0, 1, 2, 3}" "distinct cs" "c \<notin> set cs" using Cons.prems by auto
  have a: "unat ?addr = wred_row (wq_nQueueId q) c" using wred_addr [OF q c(1)] by (simp only: wred_row_def)
  have r: "wred_row (wq_nQueueId q) c < 256" using q c(1) by (auto simp: wred_row_def)
  then have "?addr AND mask 11 = ?addr" using a by (intro and_mask_small) simp
  then have cmd: "bm_command (hw_of ?w) 1 9 (wred_row (wq_nQueueId q) c)"
    using a by (simp add: bm_command_def field_simps_hw del: word_bw_same) (simp add: bm_masks)
  have v: "bm_vals (hw_of ?w) = wred_value q c"
    by (simp add: bm_vals_def wred_value_def field_simps_hw ucast_and_mask16)
  have b: "wred_row (wq_nQueueId q) c < bm_size 9" using r by (simp add: bm_size_def)
  obtain h1 where h1: "bm_poll hwstep ?w = Some (upd_hw (\<lambda>_. h1) ?w)"
    "ram (priv h1) = (ram (priv (hw_of ?w)))(9 := (ram (priv (hw_of ?w)) 9)(wred_row (wq_nQueueId q) c := kept 9 (bm_vals (hw_of ?w))))"
    "\<forall>off\<in>S. off \<notin> bm_window \<longrightarrow> regs h1 off = regs (hw_of ?w) off"
    by (rule bm_ramD [OF E cmd b])
  let ?s1 = "upd_hw (\<lambda>_. h1) ?w"
  obtain h where h: "wred_set_loop hwstep cs q ?s1 = Some (upd_hw (\<lambda>_. h) ?s1)"
    "\<forall>c\<in>set cs. ram (priv h) 9 (wred_row (wq_nQueueId q) c) = kept 9 (wred_value q c)"
    "\<forall>t a. t \<noteq> 9 \<or> a \<notin> wred_row (wq_nQueueId q) ` set cs \<longrightarrow> ram (priv h) t a = ram (priv (hw_of ?s1)) t a"
    "\<forall>off\<in>S. off \<notin> bm_window \<longrightarrow> regs h off = regs (hw_of ?s1) off"
    using Cons.IH [OF c(2,3), of ?s1] by blast
  have u: "upd_hw (\<lambda>_. h) ?s1 = upd_hw (\<lambda>_. h) s" by (simp add: upd_hw_def wr_def)
  have fresh: "wred_row (wq_nQueueId q) c \<notin> wred_row (wq_nQueueId q) ` set cs"
    by (rule wred_row_fresh [OF c(1,2)]) (simp add: c(4))
  have ram1: "ram (priv (hw_of ?s1)) = (ram (priv (hw_of s)))(9 := (ram (priv (hw_of s)) 9)(wred_row (wq_nQueueId q) c := kept 9 (wred_value q c)))"
    using h1(2) v by simp
  have regs1: "regs (hw_of ?s1) off = regs (hw_of s) off" if "off \<in> S" "off \<notin> bm_window" for off
    using h1(3) that by (auto simp: bm_window_def)
  show ?case
    using h1(1) h fresh ram1 regs1 u by (intro exI [of _ h]) (auto simp: Let_def)
qed

lemma wred_get_loop_spec:
  assumes E: "bm_engine hwstep ram kept S"
  shows "unat (wq_nQueueId q) < 32 \<Longrightarrow> set cs \<subseteq> {0, 1, 2, 3} \<Longrightarrow>
    \<exists>h. wred_get_loop hwstep cs q s = Some (fold (\<lambda>c. wred_read c
        (ucast (fst (ram (priv (hw_of s)) 9 (wred_row (wq_nQueueId q) c))))
        (ucast (snd (ram (priv (hw_of s)) 9 (wred_row (wq_nQueueId q) c))))) cs q, upd_hw (\<lambda>_. h) s)"
proof (induction cs arbitrary: q s)
  case Nil
  then show ?case by (intro exI [of _ "hw_of s"]) (simp add: upd_hw_def)
next
  case (Cons c cs)
  let ?addr = "push_bit 3 (wq_nQueueId q) OR c" and ?row = "wred_row (wq_nQueueId q) c"
  let ?w = "wrs [(VR9_BM_RAM_ADDR_ADDR, ?addr), (VR9_BM_RAM_CTRL_ADDR, 0x9), (VR9_BM_RAM_CTRL_OPMOD, 0), (VR9_BM_RAM_CTRL_BAS, 1)] s"
  have c: "c \<in> {0, 1, 2, 3}" "set cs \<subseteq> {0, 1, 2, 3}" using Cons.prems by auto
  have a: "unat ?addr = ?row" using wred_addr(1) [OF Cons.prems(1) c(1)] by (simp only: wred_row_def)
  have r: "?row < 256" using Cons.prems(1) c(1) by (auto simp: wred_row_def)
  then have "?addr AND mask 11 = ?addr" using a by (intro and_mask_small) simp
  then have cmd: "bm_command (hw_of ?w) 0 9 ?row"
    using a by (simp add: bm_command_def field_simps_hw del: word_bw_same) (simp add: bm_masks)
  have b: "?row < bm_size 9" using r by (simp add: bm_size_def)
  obtain h1 where h1: "bm_poll hwstep ?w = Some (upd_hw (\<lambda>_. h1) ?w)" "ram (priv h1) = ram (priv (hw_of ?w))"
    "bm_vals h1 = ram (priv (hw_of ?w)) 9 ?row"
    by (rule bm_ramR [OF E cmd b])
  let ?s1 = "upd_hw (\<lambda>_. h1) ?w"
  have rv: "rdf VR9_BM_RAM_VAL_0_VAL0 h1 = ucast (fst (ram (priv (hw_of s)) 9 ?row))"
    "rdf VR9_BM_RAM_VAL_1_VAL1 h1 = ucast (snd (ram (priv (hw_of s)) 9 ?row))"
    using bm_vals_back [of h1] unfolding h1(3) by simp_all
  let ?q = "wred_read c (rdf VR9_BM_RAM_VAL_0_VAL0 h1) (rdf VR9_BM_RAM_VAL_1_VAL1 h1) q"
  have id: "wq_nQueueId (wred_read c x y q) = wq_nQueueId q" for x y by (simp add: wred_read_def)
  have "unat (wq_nQueueId ?q) < 32" using Cons.prems(1) by (simp only: id)
  from Cons.IH [OF this c(2), of ?s1] obtain h where
    h: "wred_get_loop hwstep cs ?q ?s1 = Some (fold (\<lambda>c. wred_read c
        (ucast (fst (ram (priv (hw_of ?s1)) 9 (wred_row (wq_nQueueId q) c))))
        (ucast (snd (ram (priv (hw_of ?s1)) 9 (wred_row (wq_nQueueId q) c))))) cs ?q, upd_hw (\<lambda>_. h) ?s1)"
    unfolding id by blast
  have u: "upd_hw (\<lambda>_. h) ?s1 = upd_hw (\<lambda>_. h) s" by (simp add: upd_hw_def wr_def)
  have ram1: "ram (priv (hw_of ?s1)) = ram (priv (hw_of s))" using h1(2) by simp
  show ?case
    using h1(1) h unfolding u ram1 by (intro exI [of _ h]) (simp add: Let_def rv)
qed

text \<open>What is stored of the thresholds of a colour, and all of them as the query reports them.\<close>

definition stored_min :: "(nat \<Rightarrow> u16 \<times> u16 \<Rightarrow> u16 \<times> u16) \<Rightarrow> u32 \<Rightarrow> u32 \<Rightarrow> u32" where
  "stored_min kept a b = ucast (fst (kept 9 (ucast a, ucast b)))"

definition stored_max :: "(nat \<Rightarrow> u16 \<times> u16 \<Rightarrow> u16 \<times> u16) \<Rightarrow> u32 \<Rightarrow> u32 \<Rightarrow> u32" where
  "stored_max kept a b = ucast (snd (kept 9 (ucast a, ucast b)))"

lemma wred_queue_round_trip:
  assumes E: "bm_engine hwstep ram kept S" and S: "0x007 \<in> S"
    and q: "unat (wq_nQueueId q) < 32" "wq_nQueueId q < rd VR9_ETHSW_CAP_1_QUEUE s" "wq_nQueueId q' = wq_nQueueId q"
  shows "\<exists>s1 s2. IFX_FLOW_QoS_WredQueueCfgSet hwstep q s = Some (IFX_SUCCESS, s1) \<and>
    IFX_FLOW_QoS_WredQueueCfgGet hwstep q' s1 = Some (IFX_SUCCESS, \<lparr>wq_nQueueId = wq_nQueueId q,
      wq_nRed_Min = stored_min kept (wq_nRed_Min q) (wq_nRed_Max q),
      wq_nRed_Max = stored_max kept (wq_nRed_Min q) (wq_nRed_Max q),
      wq_nYellow_Min = stored_min kept (wq_nYellow_Min q) (wq_nYellow_Max q),
      wq_nYellow_Max = stored_max kept (wq_nYellow_Min q) (wq_nYellow_Max q),
      wq_nGreen_Min = stored_min kept (wq_nGreen_Min q) (wq_nGreen_Max q),
      wq_nGreen_Max = stored_max kept (wq_nGreen_Min q) (wq_nGreen_Max q)\<rparr>, s2) \<and>
    (\<forall>n c. n \<noteq> wq_nQueueId q \<longrightarrow> c \<in> {0, 1, 2, 3} \<longrightarrow>
       ram (priv (hw_of s1)) 9 (wred_row n c) = ram (priv (hw_of s)) 9 (wred_row n c))"
proof -
  have cs: "set [0, 1, 2, 3 :: u32] \<subseteq> {0, 1, 2, 3}" "distinct [0, 1, 2, 3 :: u32]" by simp_all
  obtain h where h: "wred_set_loop hwstep [0, 1, 2, 3] q s = Some (upd_hw (\<lambda>_. h) s)"
    "\<forall>c\<in>set [0, 1, 2, 3]. ram (priv h) 9 (wred_row (wq_nQueueId q) c) = kept 9 (wred_value q c)"
    "\<forall>t a. t \<noteq> 9 \<or> a \<notin> wred_row (wq_nQueueId q) ` set [0, 1, 2, 3] \<longrightarrow> ram (priv h) t a = ram (priv (hw_of s)) t a"
    "\<forall>off\<in>S. off \<notin> bm_window \<longrightarrow> regs h off = regs (hw_of s) off"
    using wred_set_loop_spec [OF E q(1) cs, of s] by blast
  let ?s1 = "wr VR9_BM_QUEUE_GCTRL_GL_MOD 0 (upd_hw (\<lambda>_. h) s)"
  have ok: "\<not> rd VR9_ETHSW_CAP_1_QUEUE s \<le> wq_nQueueId q" using q(2) by (simp add: not_le)
  have set: "IFX_FLOW_QoS_WredQueueCfgSet hwstep q s = Some (IFX_SUCCESS, ?s1)"
    using ok h(1) by (simp add: IFX_FLOW_QoS_WredQueueCfgSet_def)
  have cap: "rd VR9_ETHSW_CAP_1_QUEUE ?s1 = rd VR9_ETHSW_CAP_1_QUEUE s"
    by (rule rdf_regs) (use h(4) S in \<open>simp add: bm_window_def\<close>)
  have ram1: "ram (priv (hw_of ?s1)) = ram (priv h)" by simp
  obtain h2 where "wred_get_loop hwstep [0, 1, 2, 3] q' ?s1 = Some (fold (\<lambda>c. wred_read c
        (ucast (fst (ram (priv h) 9 (wred_row (wq_nQueueId q) c))))
        (ucast (snd (ram (priv h) 9 (wred_row (wq_nQueueId q) c))))) [0, 1, 2, 3] q', upd_hw (\<lambda>_. h2) ?s1)"
    using wred_get_loop_spec [OF E _ cs(1), of q' ?s1] q(1,3) unfolding ram1 by auto
  then have "IFX_FLOW_QoS_WredQueueCfgGet hwstep q' ?s1 = Some (IFX_SUCCESS, \<lparr>wq_nQueueId = wq_nQueueId q,
      wq_nRed_Min = stored_min kept (wq_nRed_Min q) (wq_nRed_Max q),
      wq_nRed_Max = stored_max kept (wq_nRed_Min q) (wq_nRed_Max q),
      wq_nYellow_Min = stored_min kept (wq_nYellow_Min q) (wq_nYellow_Max q),
      wq_nYellow_Max = stored_max kept (wq_nYellow_Min q) (wq_nYellow_Max q),
      wq_nGreen_Min = stored_min kept (wq_nGreen_Min q) (wq_nGreen_Max q),
      wq_nGreen_Max = stored_max kept (wq_nGreen_Min q) (wq_nGreen_Max q)\<rparr>, upd_hw (\<lambda>_. h2) ?s1)"
    unfolding IFX_FLOW_QoS_WredQueueCfgGet_def q(3) cap if_not_P [OF ok]
    using h(2) q(3) by (cases q') (simp add: wred_read_def wred_value_def wred_data_def stored_min_def stored_max_def)
  moreover have "ram (priv (hw_of ?s1)) 9 (wred_row n c) = ram (priv (hw_of s)) 9 (wred_row n c)"
    if "n \<noteq> wq_nQueueId q" "c \<in> {0, 1, 2, 3}" for n c
  proof -
    have "wred_row n c \<notin> wred_row (wq_nQueueId q) ` set [0, 1, 2, 3]"
      by (rule wred_row_fresh [OF that(2) cs(1)]) (simp add: that(1))
    with h(3) show ?thesis unfolding ram1 by blast
  qed
  ultimately show ?thesis using set by blast
qed

section \<open>Reserved buffers\<close>

lemma wred_zero_row:
  assumes "unat q < 32"
  shows "unat (push_bit 3 q AND 0xF8 :: u32) = wred_row q 0" "(push_bit 3 q AND 0xF8) AND mask 11 = (push_bit 3 q AND 0xF8 :: u32)"
    "wred_row q 0 < bm_size 9"
proof -
  have "(0 :: u32) \<in> {0, 1, 2, 3}" by simp
  from wred_addr [OF assms this] show u: "unat (push_bit 3 q AND 0xF8 :: u32) = wred_row q 0"
    by (simp only: wred_row_def or.right_neutral unat_0)
  show "wred_row q 0 < bm_size 9" using assms by (simp add: wred_row_def bm_size_def)
  then show "(push_bit 3 q AND 0xF8) AND mask 11 = (push_bit 3 q AND 0xF8 :: u32)"
    using u by (intro and_mask_small) (simp add: bm_size_def)
qed

lemma reserve_set_spec:
  assumes E: "bm_engine hwstep ram kept S"
    and q: "unat (br_nQueueId q) < 32" "ucast (br_nQueueId q) < rd VR9_ETHSW_CAP_1_QUEUE s" "GSWIP_Ver (dev s) = LTQ_GSWIP_2_2"
  obtains s' v where "IFX_FLOW_QoS_QueueBufferReserveCfgSet hwstep q s = Some (IFX_SUCCESS, s')" "dev s' = dev s"
    "ram (priv (hw_of s')) 9 (wred_row (ucast (br_nQueueId q)) 0) = kept 9 (ucast (br_nBufferReserved q), v)"
    "\<forall>off\<in>S. off \<notin> bm_window \<longrightarrow> regs (hw_of s') off = regs (hw_of s) off"
proof -
  let ?n = "ucast (br_nQueueId q) :: u32" and ?addr = "push_bit 3 (ucast (br_nQueueId q)) AND 0xF8 :: u32"
  let ?w = "wrs [(VR9_BM_RAM_ADDR_ADDR, ?addr), (VR9_BM_RAM_VAL_0_VAL0, br_nBufferReserved q),
      (VR9_BM_RAM_CTRL_ADDR, 0x9), (VR9_BM_RAM_CTRL_OPMOD, 1), (VR9_BM_RAM_CTRL_BAS, 1)] s"
  have n: "unat ?n < 32" using q(1) by (simp add: unat_ucast_up)
  note z = wred_zero_row [OF n]
  have cmd: "bm_command (hw_of ?w) 1 9 (wred_row ?n 0)"
    using z(1,2) by (simp add: bm_command_def field_simps_hw del: word_bw_same) (simp add: bm_masks)
  obtain h where h: "bm_poll hwstep ?w = Some (upd_hw (\<lambda>_. h) ?w)"
    "ram (priv h) = (ram (priv (hw_of ?w)))(9 := (ram (priv (hw_of ?w)) 9)(wred_row ?n 0 := kept 9 (bm_vals (hw_of ?w))))"
    "\<forall>off\<in>S. off \<notin> bm_window \<longrightarrow> regs h off = regs (hw_of ?w) off"
    by (rule bm_ramD [OF E cmd z(3)])
  have v: "fst (bm_vals (hw_of ?w)) = ucast (br_nBufferReserved q)"
    by (simp add: bm_vals_def field_simps_hw ucast_and_mask16)
  show thesis
  proof (rule that [of "upd_hw (\<lambda>_. h) ?w" "snd (bm_vals (hw_of ?w))"])
    show "IFX_FLOW_QoS_QueueBufferReserveCfgSet hwstep q s = Some (IFX_SUCCESS, upd_hw (\<lambda>_. h) ?w)"
      using q(2,3) h(1) by (simp add: IFX_FLOW_QoS_QueueBufferReserveCfgSet_def Let_def not_le [symmetric])
    show "ram (priv (hw_of (upd_hw (\<lambda>_. h) ?w))) 9 (wred_row ?n 0) =
        kept 9 (ucast (br_nBufferReserved q), snd (bm_vals (hw_of ?w)))"
      using v [symmetric] h(2) by simp
    show "\<forall>off\<in>S. off \<notin> bm_window \<longrightarrow> regs (hw_of (upd_hw (\<lambda>_. h) ?w)) off = regs (hw_of s) off"
      using h(3) by (auto simp: bm_window_def)
  qed simp
qed

lemma reserve_get_spec:
  assumes E: "bm_engine hwstep ram kept S"
    and q: "unat (br_nQueueId q) < 32" "ucast (br_nQueueId q) < rd VR9_ETHSW_CAP_1_QUEUE s" "GSWIP_Ver (dev s) = LTQ_GSWIP_2_2"
  obtains s' where "IFX_FLOW_QoS_QueueBufferReserveCfgGet hwstep q s = Some (IFX_SUCCESS, q\<lparr>br_nBufferReserved :=
      ucast (fst (ram (priv (hw_of s)) 9 (wred_row (ucast (br_nQueueId q)) 0)))\<rparr>, s')"
proof -
  let ?n = "ucast (br_nQueueId q) :: u32" and ?addr = "push_bit 3 (ucast (br_nQueueId q)) AND 0xF8 :: u32"
  let ?w = "wrs [(VR9_BM_RAM_ADDR_ADDR, ?addr), (VR9_BM_RAM_CTRL_ADDR, 0x9),
      (VR9_BM_RAM_CTRL_OPMOD, 0), (VR9_BM_RAM_CTRL_BAS, 1)] s"
  have n: "unat ?n < 32" using q(1) by (simp add: unat_ucast_up)
  note z = wred_zero_row [OF n]
  have cmd: "bm_command (hw_of ?w) 0 9 (wred_row ?n 0)"
    using z(1,2) by (simp add: bm_command_def field_simps_hw del: word_bw_same) (simp add: bm_masks)
  obtain h where h: "bm_poll hwstep ?w = Some (upd_hw (\<lambda>_. h) ?w)" "ram (priv h) = ram (priv (hw_of ?w))"
    "bm_vals h = ram (priv (hw_of ?w)) 9 (wred_row ?n 0)"
    by (rule bm_ramR [OF E cmd z(3)])
  have "rdf VR9_BM_RAM_VAL_0_VAL0 h = ucast (fst (ram (priv (hw_of s)) 9 (wred_row ?n 0)))"
    using bm_vals_back(1) [of h] unfolding h(3) by simp
  then show thesis
    using q(2,3) h(1) by (intro that) (simp add: IFX_FLOW_QoS_QueueBufferReserveCfgGet_def Let_def not_le [symmetric])
qed

text \<open>
  Setting the thresholds of a queue writes 0 to the row of the colour 0, where the reservation is: the
  reservation of the queue is lost.
\<close>

lemma thresholds_erase_reservation:
  assumes E: "bm_engine hwstep ram kept S" and S: "0x007 \<in> S"
    and q: "unat (br_nQueueId r) < 32" "ucast (br_nQueueId r) < rd VR9_ETHSW_CAP_1_QUEUE s" "GSWIP_Ver (dev s) = LTQ_GSWIP_2_2"
      "wq_nQueueId w = ucast (br_nQueueId r)"
  shows "\<exists>s1 s2 s3 v. IFX_FLOW_QoS_QueueBufferReserveCfgSet hwstep r s = Some (IFX_SUCCESS, s1) \<and>
    (\<exists>s2'. IFX_FLOW_QoS_QueueBufferReserveCfgGet hwstep r s1 = Some (IFX_SUCCESS,
       r\<lparr>br_nBufferReserved := ucast (fst (kept 9 (ucast (br_nBufferReserved r), v)))\<rparr>, s2')) \<and>
    IFX_FLOW_QoS_WredQueueCfgSet hwstep w s1 = Some (IFX_SUCCESS, s2) \<and>
    IFX_FLOW_QoS_QueueBufferReserveCfgGet hwstep r s2 = Some (IFX_SUCCESS,
       r\<lparr>br_nBufferReserved := ucast (fst (kept 9 (0, 0)))\<rparr>, s3)"
proof -
  obtain s1 v where s1: "IFX_FLOW_QoS_QueueBufferReserveCfgSet hwstep r s = Some (IFX_SUCCESS, s1)" "dev s1 = dev s"
    "ram (priv (hw_of s1)) 9 (wred_row (ucast (br_nQueueId r)) 0) = kept 9 (ucast (br_nBufferReserved r), v)"
    "\<forall>off\<in>S. off \<notin> bm_window \<longrightarrow> regs (hw_of s1) off = regs (hw_of s) off"
    by (rule reserve_set_spec [OF E q(1-3)])
  have cap1: "rd VR9_ETHSW_CAP_1_QUEUE s1 = rd VR9_ETHSW_CAP_1_QUEUE s"
    by (rule rdf_regs) (use s1(4) S in \<open>simp add: bm_window_def\<close>)
  have q1: "ucast (br_nQueueId r) < rd VR9_ETHSW_CAP_1_QUEUE s1" "GSWIP_Ver (dev s1) = LTQ_GSWIP_2_2"
    using q(2,3) cap1 s1(2) by simp_all
  obtain s2' where g1: "IFX_FLOW_QoS_QueueBufferReserveCfgGet hwstep r s1 = Some (IFX_SUCCESS,
      r\<lparr>br_nBufferReserved := ucast (fst (kept 9 (ucast (br_nBufferReserved r), v)))\<rparr>, s2')"
    by (rule reserve_get_spec [OF E q(1) q1]) (simp add: s1(3))
  have w: "unat (wq_nQueueId w) < 32" using q(1,4) by (simp add: unat_ucast_up)
  have cs: "set [0, 1, 2, 3 :: u32] \<subseteq> {0, 1, 2, 3}" "distinct [0, 1, 2, 3 :: u32]" by simp_all
  obtain h where h: "wred_set_loop hwstep [0, 1, 2, 3] w s1 = Some (upd_hw (\<lambda>_. h) s1)"
    "\<forall>c\<in>set [0, 1, 2, 3]. ram (priv h) 9 (wred_row (wq_nQueueId w) c) = kept 9 (wred_value w c)"
    "\<forall>off\<in>S. off \<notin> bm_window \<longrightarrow> regs h off = regs (hw_of s1) off"
    using wred_set_loop_spec [OF E w cs, of s1] by blast
  let ?s2 = "wr VR9_BM_QUEUE_GCTRL_GL_MOD 0 (upd_hw (\<lambda>_. h) s1)"
  have set: "IFX_FLOW_QoS_WredQueueCfgSet hwstep w s1 = Some (IFX_SUCCESS, ?s2)"
    using h(1) q1(1) q(4) by (simp add: IFX_FLOW_QoS_WredQueueCfgSet_def not_le [symmetric])
  have cap2: "rd VR9_ETHSW_CAP_1_QUEUE ?s2 = rd VR9_ETHSW_CAP_1_QUEUE s1"
    by (rule rdf_regs) (use h(3) S in \<open>simp add: bm_window_def\<close>)
  have q2: "ucast (br_nQueueId r) < rd VR9_ETHSW_CAP_1_QUEUE ?s2" "GSWIP_Ver (dev ?s2) = LTQ_GSWIP_2_2"
    using q1 cap2 by simp_all
  have z: "ram (priv (hw_of ?s2)) 9 (wred_row (ucast (br_nQueueId r)) 0) = kept 9 (0, 0)"
    using h(2) q(4) by (simp add: wred_value_def wred_data_def)
  obtain s3 where "IFX_FLOW_QoS_QueueBufferReserveCfgGet hwstep r ?s2 = Some (IFX_SUCCESS,
      r\<lparr>br_nBufferReserved := ucast (fst (kept 9 (0, 0)))\<rparr>, s3)"
    by (rule reserve_get_spec [OF E q(1) q2]) (simp only: z)
  with s1(1) g1 set show ?thesis by blast
qed

section \<open>A device\<close>

text \<open>
  A device with both memories, which executes an access at the next turn: the tables of the
  classification engine as full rows, the memory of the buffer manager as pairs of values.
\<close>

record dual_priv =
  d_rows :: "nat \<Rightarrow> nat \<Rightarrow> pce_img"
  d_ram :: "nat \<Rightarrow> nat \<Rightarrow> u16 \<times> u16"

definition dual_pce :: "dual_priv hw \<Rightarrow> dual_priv hw" where
  "dual_pce h = (if idle h then h else
     wrf TBL_CTRL_BAS 0 (
       if cmd_op h = 1 then h\<lparr>priv := (priv h)\<lparr>d_rows := set_row (d_rows (priv h)) (cmd_tbl h) (cmd_idx h) (win h)\<rparr>\<rparr>
       else if cmd_op h = 0 then load_img (d_rows (priv h) (cmd_tbl h) (cmd_idx h)) h
       else h))"

definition dual_bm :: "dual_priv hw \<Rightarrow> dual_priv hw" where
  "dual_bm h = (if rdf VR9_BM_RAM_CTRL_BAS h = 0 then h else
     let t = unat (rdf VR9_BM_RAM_CTRL_ADDR h); a = unat (rdf VR9_BM_RAM_ADDR_ADDR h)
     in wrf VR9_BM_RAM_CTRL_BAS 0 (
       if rdf VR9_BM_RAM_CTRL_OPMOD h = 1
       then h\<lparr>priv := (priv h)\<lparr>d_ram := (d_ram (priv h))(t := (d_ram (priv h) t)(a := bm_vals h))\<rparr>\<rparr>
       else wrfs [(VR9_BM_RAM_VAL_0_VAL0, ucast (fst (d_ram (priv h) t a))),
                  (VR9_BM_RAM_VAL_1_VAL1, ucast (snd (d_ram (priv h) t a)))] h))"

definition dual_step :: "dual_priv hw \<Rightarrow> dual_priv hw" where
  "dual_step h = dual_bm (dual_pce h)"

definition dual_tbl :: "dual_priv \<Rightarrow> nat \<Rightarrow> nat \<Rightarrow> pce_img" where
  "dual_tbl p t i = norm_img (d_rows p t i)"

lemma dual_pce_keeps:
  "off \<notin> set (map fst (TBL_KEYS @ TBL_VALS @ [TBL_MASK_0, TBL_ADDR_ADDR, TBL_CTRL_BAS])) \<Longrightarrow> regs (dual_pce h) off = regs h off"
  "d_ram (priv (dual_pce h)) = d_ram (priv h)"
proof -
  assume "off \<notin> set (map fst (TBL_KEYS @ TBL_VALS @ [TBL_MASK_0, TBL_ADDR_ADDR, TBL_CTRL_BAS]))"
  then have "\<not> in_window off" by (simp add: in_window_def)
  then show "regs (dual_pce h) off = regs h off" by (auto simp: dual_pce_def in_window_def)
qed (simp add: dual_pce_def)

lemma dual_bm_keeps:
  "off \<notin> bm_window \<Longrightarrow> regs (dual_bm h) off = regs h off" "d_rows (priv (dual_bm h)) = d_rows (priv h)"
  by (simp_all add: dual_bm_def Let_def bm_window_def)

lemma bm_fields_kept:
  "fst F \<in> bm_window \<Longrightarrow> rdf F (dual_pce h) = rdf F h"
  by (rule rdf_regs, rule dual_pce_keeps) (auto simp: bm_window_def)

lemma pce_fields_kept: "fst F \<notin> bm_window \<Longrightarrow> rdf F (dual_bm h) = rdf F h"
  by (rule rdf_regs, rule dual_bm_keeps)

lemma win_dual_bm: "win (dual_bm h) = win h" "idle (dual_bm h) = idle h"
  by (simp_all add: win_def read_keys_def read_vals_def idle_def pce_fields_kept bm_window_def)

lemma dual_poll_pce: "\<not> idle h \<Longrightarrow> poll dual_step TBL_CTRL_BAS h = Some (dual_step h)"
proof -
  assume "\<not> idle h"
  then have "idle (dual_step h)" by (simp add: dual_step_def win_dual_bm dual_pce_def del: One_nat_def)
  with \<open>\<not> idle h\<close> show ?thesis by (simp add: idle_def poll_step)
qed

interpretation dual: pce_engine dual_step dual_tbl "\<lambda>_ m. m" "- bm_window"
proof (unfold_locales, goal_cases)
  case (1 h)
  then show ?case using dual_poll_pce by blast
next
  case (2 h h')
  then have "h' = dual_step h" using dual_poll_pce [of h] by simp
  with 2 show ?case
    by (auto simp: dual_step_def dual_bm_keeps dual_pce_def driver_tbl_def dual_tbl_def set_row_def fun_eq_iff)
next
  case (3 h h')
  then have "h' = dual_step h" using dual_poll_pce [of h] by simp
  with 3 show ?case
    by (auto simp: dual_step_def dual_bm_keeps win_dual_bm dual_pce_def driver_tbl_def dual_tbl_def win_clear_bas win_load_img fun_eq_iff simp del: One_nat_def)
next
  case (4 h h' off)
  then have "h' = dual_step h" using dual_poll_pce [of h] by simp
  with 4 show ?case by (auto simp: dual_step_def dual_bm_keeps dual_pce_keeps in_window_def)
qed

lemma dual_poll_bm:
  assumes "rdf VR9_BM_RAM_CTRL_BAS h = 1"
  shows "poll dual_step VR9_BM_RAM_CTRL_BAS h = Some (dual_step h)"
proof -
  have "rdf VR9_BM_RAM_CTRL_BAS (dual_bm h) = 0" for h by (simp add: dual_bm_def Let_def field_simps_hw)
  then show ?thesis using assms by (simp add: dual_step_def poll_step)
qed

interpretation dual_bm: bm_engine dual_step d_ram "\<lambda>_ v. v" "{off. \<not> in_window off}"
proof (unfold_locales, goal_cases)
  case (1 h t a)
  then have c: "rdf VR9_BM_RAM_CTRL_BAS h = 1" "rdf VR9_BM_RAM_CTRL_OPMOD h = 1"
    "unat (rdf VR9_BM_RAM_CTRL_ADDR h) = t" "unat (rdf VR9_BM_RAM_ADDR_ADDR h) = a"
    by (simp_all add: bm_command_def word_unat_eq_iff)
  have v: "bm_vals (dual_pce h) = bm_vals h" by (simp add: bm_vals_def bm_fields_kept bm_window_def)
  have "d_ram (priv (dual_step h)) = (d_ram (priv h))(t := (d_ram (priv h) t)(a := bm_vals h))"
    using c v by (simp add: dual_step_def dual_bm_def bm_fields_kept bm_window_def dual_pce_keeps)
  then show ?case
    using dual_poll_bm [OF c(1)] by (intro exI [of _ "dual_step h"])
      (auto simp: dual_step_def dual_bm_keeps dual_pce_keeps in_window_def)
next
  case (2 h t a)
  then have c: "rdf VR9_BM_RAM_CTRL_BAS h = 1" "rdf VR9_BM_RAM_CTRL_OPMOD h = 0"
    "unat (rdf VR9_BM_RAM_CTRL_ADDR h) = t" "unat (rdf VR9_BM_RAM_ADDR_ADDR h) = a"
    by (simp_all add: bm_command_def word_unat_eq_iff)
  have "d_ram (priv (dual_step h)) = d_ram (priv h)" "bm_vals (dual_step h) = d_ram (priv h) t a"
    using c by (simp_all add: dual_step_def dual_bm_def bm_fields_kept bm_window_def dual_pce_keeps bm_vals_def
        field_simps_hw ucast_and_mask16)
  then show ?case
    using dual_poll_bm [OF c(1)] by (intro exI [of _ "dual_step h"])
      (auto simp: dual_step_def dual_bm_keeps dual_pce_keeps in_window_def)
qed

section \<open>The queue of a port and class\<close>

text \<open>Both engines in one device; the memory is accessed without disturbing the tables.\<close>

locale queue_device = pce_engine hwstep tbl keep stable + memory: bm_engine hwstep ram kept bm_stable
  for hwstep :: "'p hw \<Rightarrow> 'p hw" and tbl keep stable ram kept bm_stable +
  assumes apart: "idle h \<Longrightarrow> bm_command h op t a \<Longrightarrow> poll hwstep VR9_BM_RAM_CTRL_BAS h = Some h' \<Longrightarrow>
      idle h' \<and> driver_tbl tbl h' = driver_tbl tbl h"
    and holds_queue: "i_val (keep 17 m) ! 0 AND 0x1F = i_val m ! 0 AND 0x1F"

interpretation dualq: queue_device dual_step dual_tbl "\<lambda>_ m. m" "- bm_window" d_ram "\<lambda>_ v. v" "{off. \<not> in_window off}"
proof (unfold_locales, goal_cases)
  case (1 h op t a h')
  then have "h' = dual_step h" using dual_poll_bm [of h] by (simp add: bm_command_def)
  moreover have "dual_pce h = h" using 1(1) by (simp add: dual_pce_def)
  ultimately show ?case using 1(1)
    by (simp add: dual_step_def win_dual_bm driver_tbl_def dual_tbl_def dual_bm_keeps fun_eq_iff)
qed simp

lemma queue_engines:
  assumes "queue_device hwstep tbl keep S ram kept B"
  shows "pce_engine hwstep tbl keep S" "bm_engine hwstep ram kept B"
  using assms by (simp_all add: queue_device_def)

lemma bm_poll_Some: "bm_poll hwstep s = Some (upd_hw (\<lambda>_. h) s) \<Longrightarrow> poll hwstep VR9_BM_RAM_CTRL_BAS (hw_of s) = Some h"
proof -
  assume "bm_poll hwstep s = Some (upd_hw (\<lambda>_. h) s)"
  then obtain h' where h': "poll hwstep VR9_BM_RAM_CTRL_BAS (hw_of s) = Some h'" "upd_hw (\<lambda>_. h') s = upd_hw (\<lambda>_. h) s"
    unfolding bm_poll_def by blast
  from arg_cong [OF h'(2), of hw_of] h'(1) show ?thesis by simp
qed

lemma queue_map_small: "unat (queue_map_index q) < 128"
proof -
  have "queue_map_index q AND mask 7 = queue_map_index q"
  proof (rule bit_word_eqI)
    fix n
    have e: "(0x70 :: u16) = mask 7 AND NOT (mask 4)" by (simp add: mask_eq_exp_minus_1)
    show "bit (queue_map_index q AND mask 7) n = bit (queue_map_index q) n"
      unfolding queue_map_index_def e by (auto simp only: bit_and_iff bit_or_iff bit_mask_iff bit_low_masks) auto
  qed
  then show ?thesis using and_mask_less' [of 7 "queue_map_index q"] by (simp add: word_less_nat_alt)
qed

lemma queue_port_round_trip:
  assumes D: "queue_device hwstep tbl keep S ram kept B" and s: "idle (hw_of s)"
    and q: "qq_nQueueId q < 32" "qq_nPortId q' = qq_nPortId q" "qq_nTrafficClassId q' = qq_nTrafficClassId q"
  shows "\<exists>s1 s2 v. IFX_FLOW_QoS_QueuePortSet hwstep q s = Some (IFX_SUCCESS, s1) \<and>
    IFX_FLOW_QoS_QueuePortGet hwstep q' s1 = Some (IFX_SUCCESS, q, s2) \<and>
    ram (priv (hw_of s1)) 14 (unat (qq_nQueueId q)) = kept 14 (ucast (qq_nPortId q) AND 0x7, v) \<and>
    (\<forall>t i. t \<noteq> 17 \<or> i \<noteq> unat (queue_map_index q) \<longrightarrow> dtbl tbl s1 t i = dtbl tbl s t i)"
proof -
  note E = queue_engines(1) [OF D] and M = queue_engines(2) [OF D]
  let ?x = "unat (queue_map_index q)" and ?n = "ucast (qq_nQueueId q) AND 0x1F :: u16"
  let ?e = "put0 ?n (zero_entry\<lparr>e_table := 0x11, e_index := queue_map_index q\<rparr>)"
  have wf: "entry_wf ?e" "unat (e_table ?e) = 17" "17 < (32::nat)" "17 \<noteq> (11::nat)" "unat (e_index ?e) = ?x" "?x < pce_table_size 17"
    using queue_map_small by (simp_all add: entry_wf_def put0_def zero_entry_def pce_table_size_def)
  obtain h1 where h1: "row_write hwstep ?e s = Some (upd_hw (\<lambda>_. h1) s)" "idle h1"
    "driver_tbl tbl h1 = set_row (dtbl tbl s) 17 ?x (keep 17 (img_of ?e))"
    by (rule row_write_spec [OF E s wf])
  let ?w = "wrs [(VR9_BM_RAM_VAL_0_VAL0, ucast (qq_nPortId q) AND 0x7), (VR9_BM_RAM_ADDR_ADDR, ucast (qq_nQueueId q)),
      (VR9_BM_RAM_CTRL_ADDR, 0xE), (VR9_BM_RAM_CTRL_OPMOD, 1), (VR9_BM_RAM_CTRL_BAS, 1)] (upd_hw (\<lambda>_. h1) s)"
  have id: "unat (qq_nQueueId q) < 32" using q(1) by (simp add: word_less_nat_alt)
  have "unat (ucast (qq_nQueueId q) AND mask 11 :: u32) = unat (qq_nQueueId q)"
    using id by (subst and_mask_small) (simp_all add: unat_ucast_up)
  then have cmd: "bm_command (hw_of ?w) 1 14 (unat (qq_nQueueId q))"
    by (simp add: bm_command_def field_simps_hw) (simp add: bm_masks)
  have b: "unat (qq_nQueueId q) < bm_size 14" using id by (simp add: bm_size_def)
  obtain h2 where h2: "bm_poll hwstep ?w = Some (upd_hw (\<lambda>_. h2) ?w)"
    "ram (priv h2) = (ram (priv (hw_of ?w)))(14 := (ram (priv (hw_of ?w)) 14)(unat (qq_nQueueId q) := kept 14 (bm_vals (hw_of ?w))))"
    by (rule bm_ramD [OF M cmd b])
  let ?s1 = "upd_hw (\<lambda>_. h2) ?w"
  have "fst (bm_vals (hw_of ?w)) = ucast (qq_nPortId q) AND 0x7"
    by (rule bit_word_eqI) (auto simp: bm_vals_def field_simps_hw ucast_and_mask16 bit_simps bit_low_masks)
  then obtain v where v: "ram (priv (hw_of ?s1)) 14 (unat (qq_nQueueId q)) = kept 14 (ucast (qq_nPortId q) AND 0x7, v)"
    using h2(2) by (cases "bm_vals (hw_of ?w)") simp
  have wi: "idle (hw_of ?w)" "dtbl tbl ?w = driver_tbl tbl h1"
    using h1(2) by (simp_all add: idle_def field_simps_hw driver_tbl_def fun_eq_iff)
  from bm_poll_Some [OF h2(1)] have s1: "idle (hw_of ?s1)" "dtbl tbl ?s1 = driver_tbl tbl h1"
    using queue_device.apart [OF D wi(1) cmd] wi(2) by simp_all
  have set: "IFX_FLOW_QoS_QueuePortSet hwstep q s = Some (IFX_SUCCESS, ?s1)"
    using h1(1) h2(1) by (simp add: IFX_FLOW_QoS_QueuePortSet_def Let_def)
  have qx: "queue_map_index q' = queue_map_index q" using q(2,3) by (simp add: queue_map_index_def)
  let ?g = "zero_entry\<lparr>e_table := 0x11, e_index := queue_map_index q'\<rparr>"
  have g: "unat (e_table ?g) = 17" "unat (e_index ?g) = ?x" by (simp_all add: qx)
  obtain h3 where h3: "row_read hwstep ?g ?s1 = Some (with_img (dtbl tbl ?s1 17 ?x) ?g, upd_hw (\<lambda>_. h3) ?s1)"
    by (rule row_read_spec [OF E s1(1) g(1) wf(3,4) g(2) wf(6)])
  have "i_val (dtbl tbl ?s1 17 ?x) ! 0 AND 0x1F = ?n"
    unfolding s1(2) h1(3)
    using queue_device.holds_queue [OF D] by (simp add: set_row_def img_of_def put0_def zero_entry_def)
  moreover have "ucast ?n = qq_nQueueId q"
  proof -
    have "ucast (qq_nQueueId q) AND mask 5 = (ucast (qq_nQueueId q) :: u16)"
      by (rule less_mask_eq) (use id in \<open>simp add: word_less_nat_alt unat_ucast_up\<close>)
    then show ?thesis by (simp add: mask_eq_exp_minus_1)
  qed
  ultimately have "IFX_FLOW_QoS_QueuePortGet hwstep q' ?s1 = Some (IFX_SUCCESS, q, upd_hw (\<lambda>_. h3) ?s1)"
    using h3 q(2,3) unfolding IFX_FLOW_QoS_QueuePortGet_def by (cases q, cases q') (simp add: with_img_def)
  moreover have "dtbl tbl ?s1 t i = dtbl tbl s t i" if "t \<noteq> 17 \<or> i \<noteq> ?x" for t i
    using that unfolding s1(2) h1(3) by (auto simp: set_row_def)
  ultimately show ?thesis using set v by blast
qed

end
