(* ===== verification/Core_GSWIP.thy ===== *)
theory Core_GSWIP
  imports Core_QoS
begin

text \<open>
  Requests that need version 2.2 of the switch, \<^verbatim>\<open>ltq_flow_core.c\<close>, and are errors on an older one: link
  aggregation, discard thresholds of a port, flow control thresholds, and the time stamp timer.
\<close>

unbundle bit_operations_syntax

section \<open>Parameters and registers\<close>

record IFX_ETHSW_trunkingCfg =
  tk_bIP_Src :: u32
  tk_bIP_Dst :: u32
  tk_bMAC_Src :: u32
  tk_bMAC_Dst :: u32

record IFX_ETHSW_trunkingPortCfg =
  tp_bAggregateEnable :: u32
  tp_nPortId :: u32
  tp_nAggrPortId :: u32

record IFX_ETHSW_QoS_WRED_PortCfg =
  wp_nPortId :: u32
  wp_nRed_Min :: u32
  wp_nRed_Max :: u32
  wp_nYellow_Min :: u32
  wp_nYellow_Max :: u32
  wp_nGreen_Min :: u32
  wp_nGreen_Max :: u32

record IFX_ETHSW_QoS_FlowCtrlCfg =
  fc_nFlowCtrlNonConform_Min :: u32
  fc_nFlowCtrlNonConform_Max :: u32
  fc_nFlowCtrlConform_Min :: u32
  fc_nFlowCtrlConform_Max :: u32

record IFX_ETHSW_QoS_FlowCtrlPortCfg =
  fp_nPortId :: u32
  fp_nFlowCtrl_Min :: u32
  fp_nFlowCtrl_Max :: u32

record IFX_FLOW_TIMESTAMP_Timer =
  tt_nSec :: u32
  tt_nNanoSec :: u32
  tt_nFractionalNanoSec :: u32

record IFX_FLOW_TIMESTAMP_PortRead =
  tr_nPortId :: u8
  tr_nIngressSec :: u32
  tr_nIngressNanoSec :: u32
  tr_nEgressSec :: u32
  tr_nEgressNanoSec :: u32

abbreviation (input) GSWIP_PCE_TRUNK_CONF_DIP :: field where "GSWIP_PCE_TRUNK_CONF_DIP \<equiv> (0x46B, 3, 1)"
abbreviation (input) GSWIP_PCE_TRUNK_CONF_SIP :: field where "GSWIP_PCE_TRUNK_CONF_SIP \<equiv> (0x46B, 2, 1)"
abbreviation (input) GSWIP_PCE_TRUNK_CONF_DA :: field where "GSWIP_PCE_TRUNK_CONF_DA \<equiv> (0x46B, 1, 1)"
abbreviation (input) GSWIP_PCE_TRUNK_CONF_SA :: field where "GSWIP_PCE_TRUNK_CONF_SA \<equiv> (0x46B, 0, 1)"
abbreviation (input) GSWIP_PCE_PTRUNK_EN :: field where "GSWIP_PCE_PTRUNK_EN \<equiv> (0x521, 15, 1)"
abbreviation (input) GSWIP_PCE_PTRUNK_PARTER :: field where "GSWIP_PCE_PTRUNK_PARTER \<equiv> (0x521, 0, 4)"
abbreviation (input) GSWIP_BM_PWRED_RTH_0_MINTH :: field where "GSWIP_BM_PWRED_RTH_0_MINTH \<equiv> (0x0A0, 0, 10)"
abbreviation (input) GSWIP_BM_PWRED_RTH_1_MAXTH :: field where "GSWIP_BM_PWRED_RTH_1_MAXTH \<equiv> (0x0A1, 0, 10)"
abbreviation (input) GSWIP_BM_PWRED_YTH_0_MINTH :: field where "GSWIP_BM_PWRED_YTH_0_MINTH \<equiv> (0x0A2, 0, 10)"
abbreviation (input) GSWIP_BM_PWRED_YTH_1_MAXTH :: field where "GSWIP_BM_PWRED_YTH_1_MAXTH \<equiv> (0x0A3, 0, 10)"
abbreviation (input) GSWIP_BM_PWRED_GTH_0_MINTH :: field where "GSWIP_BM_PWRED_GTH_0_MINTH \<equiv> (0x0A4, 0, 10)"
abbreviation (input) GSWIP_BM_PWRED_GTH_1_MAXTH :: field where "GSWIP_BM_PWRED_GTH_1_MAXTH \<equiv> (0x0A5, 0, 10)"
abbreviation (input) VR9_SDMA_FCTHR1_THR1 :: field where "VR9_SDMA_FCTHR1_THR1 \<equiv> (0xB41, 0, 10)"
abbreviation (input) VR9_SDMA_FCTHR2_THR2 :: field where "VR9_SDMA_FCTHR2_THR2 \<equiv> (0xB42, 0, 10)"
abbreviation (input) VR9_SDMA_FCTHR3_THR3 :: field where "VR9_SDMA_FCTHR3_THR3 \<equiv> (0xB43, 0, 10)"
abbreviation (input) VR9_SDMA_FCTHR4_THR4 :: field where "VR9_SDMA_FCTHR4_THR4 \<equiv> (0xB44, 0, 10)"
abbreviation (input) GSWIP_SDMA_PFCTHR8_THR8 :: field where "GSWIP_SDMA_PFCTHR8_THR8 \<equiv> (0xC0E, 0, 11)"
abbreviation (input) GSWIP_SDMA_PFCTHR9_THR9 :: field where "GSWIP_SDMA_PFCTHR9_THR9 \<equiv> (0xC0F, 0, 11)"
abbreviation (input) GSWIP_TIMER_SEC_LSB_SECLSB :: field where "GSWIP_TIMER_SEC_LSB_SECLSB \<equiv> (0x024, 0, 16)"
abbreviation (input) GSWIP_TIMER_SEC_MSB_SECMSB :: field where "GSWIP_TIMER_SEC_MSB_SECMSB \<equiv> (0x025, 0, 16)"
abbreviation (input) GSWIP_TIMER_NS_LSB_NSLSB :: field where "GSWIP_TIMER_NS_LSB_NSLSB \<equiv> (0x022, 0, 16)"
abbreviation (input) GSWIP_TIMER_NS_MSB_NSMSB :: field where "GSWIP_TIMER_NS_MSB_NSMSB \<equiv> (0x023, 0, 16)"
abbreviation (input) GSWIP_TIMER_FS_LSB_FSLSB :: field where "GSWIP_TIMER_FS_LSB_FSLSB \<equiv> (0x020, 0, 15)"
abbreviation (input) GSWIP_TIMER_FS_MSB_FSMSB :: field where "GSWIP_TIMER_FS_MSB_FSMSB \<equiv> (0x021, 0, 16)"
abbreviation (input) GSWIP_TIMER_CTRL_WR :: field where "GSWIP_TIMER_CTRL_WR \<equiv> (0x026, 15, 1)"
abbreviation (input) GSWIP_TIMER_CTRL_RD :: field where "GSWIP_TIMER_CTRL_RD \<equiv> (0x026, 14, 1)"
abbreviation (input) VR9_FDMA_TSTAMP0_TSTL :: field where "VR9_FDMA_TSTAMP0_TSTL \<equiv> (0xA84, 0, 16)"
abbreviation (input) VR9_FDMA_TSTAMP1_TSTH :: field where "VR9_FDMA_TSTAMP1_TSTH \<equiv> (0xA85, 0, 16)"
abbreviation (input) VR9_SDMA_TSTAMP0_TSTL :: field where "VR9_SDMA_TSTAMP0_TSTL \<equiv> (0xBC4, 0, 16)"
abbreviation (input) VR9_SDMA_TSTAMP1_TSTH :: field where "VR9_SDMA_TSTAMP1_TSTH \<equiv> (0xBC5, 0, 16)"

abbreviation is_2_2 :: "'p core \<Rightarrow> bool" where
  "is_2_2 s \<equiv> GSWIP_Ver (dev s) = LTQ_GSWIP_2_2"

abbreviation (input) nport :: "field \<Rightarrow> 16 word \<Rightarrow> u32 \<Rightarrow> field" where
  "nport F stride p \<equiv> at F (stride * ucast p)"

section \<open>Link aggregation\<close>

definition IFX_FLOW_TrunkingCfgGet :: "IFX_ETHSW_trunkingCfg \<Rightarrow> 'p core \<Rightarrow> int \<times> IFX_ETHSW_trunkingCfg" where
  "IFX_FLOW_TrunkingCfgGet q s =
     (if is_2_2 s then (IFX_SUCCESS, q\<lparr>tk_bIP_Dst := rd GSWIP_PCE_TRUNK_CONF_DIP s,
        tk_bIP_Src := rd GSWIP_PCE_TRUNK_CONF_SIP s, tk_bMAC_Dst := rd GSWIP_PCE_TRUNK_CONF_DA s,
        tk_bMAC_Src := rd GSWIP_PCE_TRUNK_CONF_SA s\<rparr>)
      else (IFX_ERROR, q))"

definition IFX_FLOW_TrunkingCfgSet :: "IFX_ETHSW_trunkingCfg \<Rightarrow> 'p core \<Rightarrow> int \<times> 'p core" where
  "IFX_FLOW_TrunkingCfgSet q s =
     (if is_2_2 s then (IFX_SUCCESS, wrs [
        (GSWIP_PCE_TRUNK_CONF_DIP, if tk_bIP_Dst q = 1 then 1 else 0),
        (GSWIP_PCE_TRUNK_CONF_SIP, if tk_bIP_Src q = 1 then 1 else 0),
        (GSWIP_PCE_TRUNK_CONF_DA, if tk_bMAC_Dst q = 1 then 1 else 0),
        (GSWIP_PCE_TRUNK_CONF_SA, if tk_bMAC_Src q = 1 then 1 else 0)] s)
      else (IFX_ERROR, s))"

definition IFX_FLOW_TrunkingPortCfgGet :: "IFX_ETHSW_trunkingPortCfg \<Rightarrow> 'p core \<Rightarrow> int \<times> IFX_ETHSW_trunkingPortCfg" where
  "IFX_FLOW_TrunkingPortCfgGet q s =
     (if tp_nPortId q \<ge> ucast (nTotalPortNumber (dev s)) then (IFX_ERROR, q)
      else if is_2_2 s then (IFX_SUCCESS, q\<lparr>tp_bAggregateEnable := rd (nport GSWIP_PCE_PTRUNK_EN 2 (tp_nPortId q)) s,
        tp_nAggrPortId := rd (nport GSWIP_PCE_PTRUNK_PARTER 2 (tp_nPortId q)) s\<rparr>)
      else (IFX_ERROR, q))"

definition IFX_FLOW_TrunkingPortCfgSet :: "IFX_ETHSW_trunkingPortCfg \<Rightarrow> 'p core \<Rightarrow> int \<times> 'p core" where
  "IFX_FLOW_TrunkingPortCfgSet q s =
     (if tp_nPortId q \<ge> ucast (nTotalPortNumber (dev s)) then (IFX_ERROR, s)
      else if is_2_2 s then (IFX_SUCCESS,
        if tp_bAggregateEnable q = 1 then wrs [(nport GSWIP_PCE_PTRUNK_EN 2 (tp_nPortId q), 1),
          (nport GSWIP_PCE_PTRUNK_PARTER 2 (tp_nPortId q), tp_nAggrPortId q AND 0xF)] s
        else s)
      else (IFX_ERROR, s))"

section \<open>Thresholds\<close>

definition IFX_FLOW_QoS_WredPortCfgGet :: "IFX_ETHSW_QoS_WRED_PortCfg \<Rightarrow> 'p core \<Rightarrow> int \<times> IFX_ETHSW_QoS_WRED_PortCfg" where
  "IFX_FLOW_QoS_WredPortCfgGet q s =
     (let p = wp_nPortId q
      in if p \<ge> ucast (nPortNumber (dev s)) then (IFX_ERROR, q)
      else if is_2_2 s then (IFX_SUCCESS, q\<lparr>
        wp_nRed_Min := rd (nport GSWIP_BM_PWRED_RTH_0_MINTH 6 p) s, wp_nRed_Max := rd (nport GSWIP_BM_PWRED_RTH_1_MAXTH 6 p) s,
        wp_nYellow_Min := rd (nport GSWIP_BM_PWRED_YTH_0_MINTH 6 p) s, wp_nYellow_Max := rd (nport GSWIP_BM_PWRED_YTH_1_MAXTH 6 p) s,
        wp_nGreen_Min := rd (nport GSWIP_BM_PWRED_GTH_0_MINTH 6 p) s, wp_nGreen_Max := rd (nport GSWIP_BM_PWRED_GTH_1_MAXTH 6 p) s\<rparr>)
      else (IFX_ERROR, q))"

definition IFX_FLOW_QoS_WredPortCfgSet :: "IFX_ETHSW_QoS_WRED_PortCfg \<Rightarrow> 'p core \<Rightarrow> int \<times> 'p core" where
  "IFX_FLOW_QoS_WredPortCfgSet q s =
     (let p = wp_nPortId q
      in if p \<ge> ucast (nPortNumber (dev s)) then (IFX_ERROR, s)
      else if is_2_2 s then (IFX_SUCCESS, wrs [
        (nport GSWIP_BM_PWRED_RTH_0_MINTH 6 p, wp_nRed_Min q), (nport GSWIP_BM_PWRED_RTH_1_MAXTH 6 p, wp_nRed_Max q),
        (nport GSWIP_BM_PWRED_YTH_0_MINTH 6 p, wp_nYellow_Min q), (nport GSWIP_BM_PWRED_YTH_1_MAXTH 6 p, wp_nYellow_Max q),
        (nport GSWIP_BM_PWRED_GTH_0_MINTH 6 p, wp_nGreen_Min q), (nport GSWIP_BM_PWRED_GTH_1_MAXTH 6 p, wp_nGreen_Max q)] s)
      else (IFX_ERROR, s))"

definition IFX_FLOW_QoS_FlowctrlCfgGet :: "IFX_ETHSW_QoS_FlowCtrlCfg \<Rightarrow> 'p core \<Rightarrow> int \<times> IFX_ETHSW_QoS_FlowCtrlCfg" where
  "IFX_FLOW_QoS_FlowctrlCfgGet q s =
     (if is_2_2 s then (IFX_SUCCESS, q\<lparr>
        fc_nFlowCtrlNonConform_Min := rd VR9_SDMA_FCTHR1_THR1 s, fc_nFlowCtrlNonConform_Max := rd VR9_SDMA_FCTHR2_THR2 s,
        fc_nFlowCtrlConform_Min := rd VR9_SDMA_FCTHR3_THR3 s, fc_nFlowCtrlConform_Max := rd VR9_SDMA_FCTHR4_THR4 s\<rparr>)
      else (IFX_ERROR, q))"

definition IFX_FLOW_QoS_FlowctrlCfgSet :: "IFX_ETHSW_QoS_FlowCtrlCfg \<Rightarrow> 'p core \<Rightarrow> int \<times> 'p core" where
  "IFX_FLOW_QoS_FlowctrlCfgSet q s =
     (if is_2_2 s then (IFX_SUCCESS, wrs [
        (VR9_SDMA_FCTHR1_THR1, fc_nFlowCtrlNonConform_Min q), (VR9_SDMA_FCTHR2_THR2, fc_nFlowCtrlNonConform_Max q),
        (VR9_SDMA_FCTHR3_THR3, fc_nFlowCtrlConform_Min q), (VR9_SDMA_FCTHR4_THR4, fc_nFlowCtrlConform_Max q)] s)
      else (IFX_ERROR, s))"

definition IFX_FLOW_QoS_FlowctrlPortCfgGet :: "IFX_ETHSW_QoS_FlowCtrlPortCfg \<Rightarrow> 'p core \<Rightarrow> int \<times> IFX_ETHSW_QoS_FlowCtrlPortCfg" where
  "IFX_FLOW_QoS_FlowctrlPortCfgGet q s =
     (let p = fp_nPortId q
      in if p \<ge> ucast (nPortNumber (dev s)) then (IFX_ERROR, q)
      else if is_2_2 s then (IFX_SUCCESS, q\<lparr>fp_nFlowCtrl_Min := rd (nport GSWIP_SDMA_PFCTHR8_THR8 4 p) s,
        fp_nFlowCtrl_Max := rd (nport GSWIP_SDMA_PFCTHR9_THR9 4 p) s\<rparr>)
      else (IFX_ERROR, q))"

definition IFX_FLOW_QoS_FlowctrlPortCfgSet :: "IFX_ETHSW_QoS_FlowCtrlPortCfg \<Rightarrow> 'p core \<Rightarrow> int \<times> 'p core" where
  "IFX_FLOW_QoS_FlowctrlPortCfgSet q s =
     (let p = fp_nPortId q
      in if p \<ge> ucast (nPortNumber (dev s)) then (IFX_ERROR, s)
      else if is_2_2 s then (IFX_SUCCESS, wrs [(nport GSWIP_SDMA_PFCTHR8_THR8 4 p, fp_nFlowCtrl_Min q),
        (nport GSWIP_SDMA_PFCTHR9_THR9 4 p, fp_nFlowCtrl_Max q)] s)
      else (IFX_ERROR, s))"

section \<open>Time stamps\<close>

text \<open>
  \<^verbatim>\<open>value & 0xFFFF << 16\<close>, in which the shift binds more tightly than the conjunction, and the loops on the
  busy bits of the timer.
\<close>

definition high_half :: "u32 \<Rightarrow> u32" where
  "high_half value = value AND push_bit 16 0xFFFF"

definition timer_poll :: "('p hw \<Rightarrow> 'p hw) \<Rightarrow> field \<Rightarrow> 'p core \<Rightarrow> 'p core option" where
  "timer_poll hwstep F s = map_option (\<lambda>h. upd_hw (\<lambda>_. h) s) (while_option (\<lambda>h. rdf F h = 1) hwstep (hw_of s))"

definition IFX_FLOW_TimestampTimerSet :: "('p hw \<Rightarrow> 'p hw) \<Rightarrow> IFX_FLOW_TIMESTAMP_Timer \<Rightarrow> 'p core \<Rightarrow> (int \<times> 'p core) option" where
  "IFX_FLOW_TimestampTimerSet hwstep q s =
     (if is_2_2 s then do {
        s \<leftarrow> timer_poll hwstep GSWIP_TIMER_CTRL_WR (wrs [
          (GSWIP_TIMER_SEC_LSB_SECLSB, tt_nSec q AND 0xFFFF), (GSWIP_TIMER_SEC_MSB_SECMSB, drop_bit 16 (tt_nSec q) AND 0xFFFF),
          (GSWIP_TIMER_NS_LSB_NSLSB, tt_nNanoSec q AND 0xFFFF), (GSWIP_TIMER_NS_MSB_NSMSB, drop_bit 16 (tt_nNanoSec q) AND 0xFFFF),
          (GSWIP_TIMER_FS_LSB_FSLSB, tt_nFractionalNanoSec q AND 0xFFFF),
          (GSWIP_TIMER_FS_MSB_FSMSB, drop_bit 16 (tt_nFractionalNanoSec q) AND 0xFFFF),
          (GSWIP_TIMER_CTRL_WR, 1)] s);
        Some (IFX_SUCCESS, s) }
      else Some (IFX_ERROR, s))"

definition IFX_FLOW_TimestampTimerGet ::
  "('p hw \<Rightarrow> 'p hw) \<Rightarrow> IFX_FLOW_TIMESTAMP_Timer \<Rightarrow> 'p core \<Rightarrow> (int \<times> IFX_FLOW_TIMESTAMP_Timer \<times> 'p core) option" where
  "IFX_FLOW_TimestampTimerGet hwstep q s =
     (if is_2_2 s then do {
        s \<leftarrow> timer_poll hwstep GSWIP_TIMER_CTRL_RD (wr GSWIP_TIMER_CTRL_RD 1 s);
        let q = q\<lparr>tt_nSec := (rd GSWIP_TIMER_SEC_LSB_SECLSB s AND 0xFFFF) OR high_half (rd GSWIP_TIMER_SEC_MSB_SECMSB s)\<rparr>;
        let q = q\<lparr>tt_nNanoSec := (rd GSWIP_TIMER_NS_LSB_NSLSB s AND 0xFFFF) OR high_half (rd GSWIP_TIMER_NS_MSB_NSMSB s)\<rparr>;
        let q = q\<lparr>tt_nFractionalNanoSec := (rd GSWIP_TIMER_FS_LSB_FSLSB s AND 0xFFFF) OR high_half (rd GSWIP_TIMER_FS_MSB_FSMSB s)\<rparr>;
        Some (IFX_SUCCESS, q, s) }
      else Some (IFX_ERROR, q, s))"

definition IFX_FLOW_TimestampPortRead :: "IFX_FLOW_TIMESTAMP_PortRead \<Rightarrow> 'p core \<Rightarrow> int \<times> IFX_FLOW_TIMESTAMP_PortRead" where
  "IFX_FLOW_TimestampPortRead q s =
     (let p = ucast (tr_nPortId q)
      in if tr_nPortId q \<ge> nPortNumber (dev s) then (IFX_ERROR, q)
      else if is_2_2 s then
        let stamp = (\<lambda>F G. rd (nport F 6 p) s OR push_bit 16 (rd (nport G 6 p) s));
            e = stamp VR9_FDMA_TSTAMP0_TSTL VR9_FDMA_TSTAMP1_TSTH;
            i = stamp VR9_SDMA_TSTAMP0_TSTL VR9_SDMA_TSTAMP1_TSTH
        in (IFX_SUCCESS, q\<lparr>tr_nEgressSec := drop_bit 30 e, tr_nEgressNanoSec := e AND 0x7FFFFFFF,
              tr_nIngressSec := drop_bit 30 i, tr_nIngressNanoSec := i AND 0x7FFFFFFF\<rparr>)
      else (IFX_ERROR, q))"

section \<open>What is read back\<close>

lemma trunking_round_trip:
  assumes "is_2_2 s"
  shows "\<exists>s'. IFX_FLOW_TrunkingCfgSet q s = (IFX_SUCCESS, s') \<and> IFX_FLOW_TrunkingCfgGet q' s' = (IFX_SUCCESS,
    \<lparr>tk_bIP_Src = of_bool (tk_bIP_Src q = 1), tk_bIP_Dst = of_bool (tk_bIP_Dst q = 1),
     tk_bMAC_Src = of_bool (tk_bMAC_Src q = 1), tk_bMAC_Dst = of_bool (tk_bMAC_Dst q = 1)\<rparr>)"
  using assms
  by (cases q') (simp add: IFX_FLOW_TrunkingCfgSet_def IFX_FLOW_TrunkingCfgGet_def field_simps_hw qos_masks)

text \<open>Aggregation of a port is switched on and read back; a request to switch it off succeeds and changes nothing.\<close>

lemma trunk_port_round_trip:
  assumes "is_2_2 s" "tp_nPortId q < ucast (nTotalPortNumber (dev s))" "tp_bAggregateEnable q = 1" "tp_nPortId q' = tp_nPortId q"
  shows "\<exists>s'. IFX_FLOW_TrunkingPortCfgSet q s = (IFX_SUCCESS, s') \<and>
    IFX_FLOW_TrunkingPortCfgGet q' s' = (IFX_SUCCESS, q\<lparr>tp_nAggrPortId := tp_nAggrPortId q AND 0xF\<rparr>)"
proof -
  have "\<not> ucast (nTotalPortNumber (dev s)) \<le> tp_nPortId q" using assms(2) by (simp add: not_le)
  then show ?thesis using assms
    by (cases q, cases q') (simp add: IFX_FLOW_TrunkingPortCfgSet_def IFX_FLOW_TrunkingPortCfgGet_def field_simps_hw qos_masks)
qed

lemma trunk_port_stays_on:
  assumes "tp_nPortId q < ucast (nTotalPortNumber (dev s))" "is_2_2 s" "tp_bAggregateEnable q \<noteq> 1"
  shows "IFX_FLOW_TrunkingPortCfgSet q s = (IFX_SUCCESS, s)"
  using assms by (simp add: IFX_FLOW_TrunkingPortCfgSet_def not_le [symmetric])

lemma flow_control_round_trip:
  assumes "is_2_2 s"
  shows "\<exists>s'. IFX_FLOW_QoS_FlowctrlCfgSet q s = (IFX_SUCCESS, s') \<and> IFX_FLOW_QoS_FlowctrlCfgGet q' s' = (IFX_SUCCESS,
    \<lparr>fc_nFlowCtrlNonConform_Min = fc_nFlowCtrlNonConform_Min q AND mask 10,
     fc_nFlowCtrlNonConform_Max = fc_nFlowCtrlNonConform_Max q AND mask 10,
     fc_nFlowCtrlConform_Min = fc_nFlowCtrlConform_Min q AND mask 10,
     fc_nFlowCtrlConform_Max = fc_nFlowCtrlConform_Max q AND mask 10\<rparr>)"
  using assms by (cases q') (simp add: IFX_FLOW_QoS_FlowctrlCfgSet_def IFX_FLOW_QoS_FlowctrlCfgGet_def field_simps_hw)

text \<open>The upper halves of the timer are lost: they are read from registers of sixteen bits and masked to the upper half.\<close>

lemma high_half_zero: "fwidth F = 16 \<Longrightarrow> high_half (rdf F h) = 0"
proof -
  assume "fwidth F = 16"
  then have "rdf F h AND mask 16 = rdf F h" using rdf_less [of F h] by (intro and_mask_small) simp
  moreover have "high_half (v AND mask 16) = 0" for v
    unfolding high_half_def by (rule bit_word_eqI, simp only: bit_and_iff bit_push_bit_iff bit_mask_iff, auto)
  ultimately show ?thesis by metis
qed

lemma timer_upper_half_lost:
  assumes "is_2_2 s" "timer_poll hwstep GSWIP_TIMER_CTRL_RD (wr GSWIP_TIMER_CTRL_RD 1 s) = Some s'"
  shows "IFX_FLOW_TimestampTimerGet hwstep q s = Some (IFX_SUCCESS,
    \<lparr>tt_nSec = rd GSWIP_TIMER_SEC_LSB_SECLSB s' AND 0xFFFF, tt_nNanoSec = rd GSWIP_TIMER_NS_LSB_NSLSB s' AND 0xFFFF,
     tt_nFractionalNanoSec = rd GSWIP_TIMER_FS_LSB_FSLSB s' AND 0xFFFF\<rparr>, s')"
  using assms by (cases q) (simp add: IFX_FLOW_TimestampTimerGet_def high_half_zero)

end
