(* ===== verification/Core_MAC.thy ===== *)
theory Core_MAC
  imports Core_VLAN
begin

text \<open>
  The MAC address table (the bridging table of the classification engine, table 11), \<^verbatim>\<open>ltq_flow_core.c\<close>.
  The device finds a row by its address and filtering identifier, learns addresses and lets them age
  by itself. \<open>mac_engine\<close> states what it promises of the addresses that no traffic carries;
  \<open>learning_step\<close> is a device that learns and honours it.
\<close>

unbundle bit_operations_syntax

section \<open>Parameters and registers\<close>

record IFX_ETHSW_MAC_tableRead =
  mr_bInitial :: u32
  mr_bLast :: u32
  mr_nFId :: u32
  mr_nPortId :: u32
  mr_nAgeTimer :: u32
  mr_bStaticEntry :: u32
  mr_nMAC :: "u8 list"

record IFX_ETHSW_MAC_tableQuery =
  mq_nMAC :: "u8 list"
  mq_nFId :: u32
  mq_bFound :: u32
  mq_nPortId :: u32
  mq_nAgeTimer :: u32
  mq_bStaticEntry :: u32

record IFX_ETHSW_MAC_tableAdd =
  ma_nFId :: u32
  ma_nPortId :: u32
  ma_nAgeTimer :: u32
  ma_bStaticEntry :: u32
  ma_nTrafficClass :: u8
  ma_nMAC :: "u8 list"

record IFX_ETHSW_MAC_tableRemove =
  md_nFId :: u32
  md_nMAC :: "u8 list"

abbreviation (input) VR9_PCE_GCTRL_0_MTFL :: field where "VR9_PCE_GCTRL_0_MTFL \<equiv> (0x456, 0, 1)"
abbreviation (input) VR9_PCE_AGE_1_MANT :: field where "VR9_PCE_AGE_1_MANT \<equiv> (0x452, 0, 16)"
abbreviation (input) IFX_HW_MAC_TABLE_MAX :: nat where "IFX_HW_MAC_TABLE_MAX \<equiv> 2048"

text \<open>The access by key, on the state of the driver.\<close>

definition row_key_write :: "('p hw \<Rightarrow> 'p hw) \<Rightarrow> pce_entry \<Rightarrow> 'p core \<Rightarrow> 'p core option" where
  "row_key_write hwstep e s =
     map_option (\<lambda>h. upd_hw (\<lambda>_. h) s) (ifx_ethsw_xwayflow_pce_table_key_write hwstep e (hw_of s))"

definition row_key_read :: "('p hw \<Rightarrow> 'p hw) \<Rightarrow> pce_entry \<Rightarrow> 'p core \<Rightarrow> (pce_entry \<times> 'p core) option" where
  "row_key_read hwstep e s =
     map_option (\<lambda>(e, h). (e, upd_hw (\<lambda>_. h) s)) (ifx_ethsw_xwayflow_pce_table_key_read hwstep e (hw_of s))"

section \<open>The handlers\<close>

text \<open>\<^verbatim>\<open>nMAC[4] << 8 | nMAC[5]\<close> and so on: the four key words of an address.\<close>

definition mac_words :: "u8 list \<Rightarrow> u32 \<Rightarrow> u16 list" where
  "mac_words a fid =
     [push_bit 8 (ucast (a ! 4)) OR ucast (a ! 5), push_bit 8 (ucast (a ! 2)) OR ucast (a ! 3),
      push_bit 8 (ucast (a ! 0)) OR ucast (a ! 1), ucast fid]"

definition mac_bytes :: "u16 list \<Rightarrow> u8 list" where
  "mac_bytes k = [ucast (drop_bit 8 (k ! 2)), ucast (k ! 2 AND 0xFF), ucast (drop_bit 8 (k ! 1)), ucast (k ! 1 AND 0xFF),
     ucast (drop_bit 8 (k ! 0)), ucast (k ! 0 AND 0xFF)]"

definition set_mac_key :: "u16 list \<Rightarrow> pce_entry \<Rightarrow> pce_entry" where
  "set_mac_key k e = e\<lparr>e_table := PCE_MAC_BRIDGE_INDEX, e_key := take 4 k @ drop 4 (e_key e)\<rparr>"

definition IFX_FLOW_MAC_TableClear :: "'p core \<Rightarrow> int \<times> 'p core" where
  "IFX_FLOW_MAC_TableClear s = (IFX_SUCCESS, wr VR9_PCE_GCTRL_0_MTFL 1 s)"

text \<open>
  The entry to write. The local variable \<open>g\<close> is not initialised: of its columns only those set here
  are known, and \<^verbatim>\<open>val[1]\<close>, the static flag, is not set for a dynamic entry.
\<close>

definition mac_add_entry :: "pce_entry \<Rightarrow> IFX_ETHSW_MAC_tableAdd \<Rightarrow> pce_entry" where
  "mac_add_entry g q =
     (let pData = (set_mac_key (mac_words (ma_nMAC q) (ma_nFId q)) g)\<lparr>e_valid := 1\<rparr>
      in if ma_bStaticEntry q \<noteq> 0
         then pData\<lparr>e_val := (e_val pData)[0 :=
                (if ma_nPortId q AND 0x80000000 \<noteq> 0 then ucast (ma_nPortId q AND 0x7FFF)
                 else ucast (push_bit (unat (ma_nPortId q)) (1 :: u32))), 1 := 1]\<rparr>
         else pData\<lparr>e_val := (e_val pData)[0 :=
                ucast (push_bit 4 (ma_nPortId q AND 0xF) OR (ma_nAgeTimer q AND 0xF))]\<rparr>)"

text \<open>The read that follows only decides whether a warning is printed.\<close>

definition IFX_FLOW_MAC_TableEntryAdd ::
  "('p hw \<Rightarrow> 'p hw) \<Rightarrow> pce_entry \<Rightarrow> IFX_ETHSW_MAC_tableAdd \<Rightarrow> 'p core \<Rightarrow> (int \<times> 'p core) option" where
  "IFX_FLOW_MAC_TableEntryAdd hwstep g q s =
     (if ma_nPortId q \<ge> ucast (nTotalPortNumber (dev s)) \<and> ma_nPortId q AND 0x80000000 = 0 then Some (IFX_ERROR, s)
      else do {
        s \<leftarrow> row_key_write hwstep (mac_add_entry g q) s;
        (_, s) \<leftarrow> row_key_read hwstep (set_mac_key (mac_words (ma_nMAC q) (ma_nFId q)) zero_entry) s;
        Some (IFX_SUCCESS, s) })"

text \<open>The seconds a full ageing counter stands for.\<close>

definition age_seconds :: "u32 \<Rightarrow> u32" where
  "age_seconds mant =
     (if mant = 0xFB75 then 86400 else if mant = 0xA7BA then 3600 else if mant = 0xDF84 then 300
      else if mant = 0x784 then 10 else if mant = 0xBF then 1 else 300)"

text \<open>Whether the entry is static, its age in seconds and its port.\<close>

definition mac_attr :: "pce_entry \<Rightarrow> 'p core \<Rightarrow> u32 \<times> u32 \<times> u32" where
  "mac_attr e s =
     (if e_val e ! 1 AND 1 = 1 then (1, 0, ucast (e_val e ! 0))
      else (0, (age_seconds (rd VR9_PCE_AGE_1_MANT s) * ucast (e_val e ! 0 AND 0xF)) div 0xF,
            ucast (drop_bit 4 (e_val e ! 0) AND 0xF)))"

definition IFX_FLOW_MAC_TableEntryQuery ::
  "('p hw \<Rightarrow> 'p hw) \<Rightarrow> IFX_ETHSW_MAC_tableQuery \<Rightarrow> 'p core \<Rightarrow> (int \<times> IFX_ETHSW_MAC_tableQuery \<times> 'p core) option" where
  "IFX_FLOW_MAC_TableEntryQuery hwstep q s = do {
     let q = q\<lparr>mq_bFound := IFX_FALSE\<rparr>;
     (e, s) \<leftarrow> row_key_read hwstep (set_mac_key (mac_words (mq_nMAC q) (mq_nFId q)) zero_entry) s;
     if e_valid e = 1 then (case mac_attr e s of (st, age, port) \<Rightarrow>
       Some (IFX_SUCCESS, q\<lparr>mq_bFound := IFX_TRUE, mq_bStaticEntry := st, mq_nAgeTimer := age, mq_nPortId := port\<rparr>, s))
     else Some (IFX_SUCCESS, q, s) }"

text \<open>
  The \<open>do\<close> loop of a read: rows from \<open>i\<close> on until one is valid; the entry read last and the
  index after it. The index, a 16-bit number below 2048, does not wrap around.
\<close>

function mac_scan :: "('p hw \<Rightarrow> 'p hw) \<Rightarrow> nat \<Rightarrow> pce_entry \<Rightarrow> 'p core \<Rightarrow> (pce_entry \<times> nat \<times> 'p core) option" where
  "mac_scan hwstep i e s =
     (case row_read hwstep (e\<lparr>e_index := of_nat i\<rparr>) s of
        None \<Rightarrow> None
      | Some (e, s) \<Rightarrow>
          if e_valid e \<noteq> 0 \<or> \<not> i + 1 < IFX_HW_MAC_TABLE_MAX then Some (e, i + 1, s)
          else mac_scan hwstep (i + 1) e s)"
  by auto
termination by (relation "measure (\<lambda>(_, i, _). IFX_HW_MAC_TABLE_MAX - i)") auto

declare mac_scan.simps [simp del]

definition zero_MAC_tableRead :: IFX_ETHSW_MAC_tableRead where
  "zero_MAC_tableRead = \<lparr>mr_bInitial = 0, mr_bLast = 0, mr_nFId = 0, mr_nPortId = 0, mr_nAgeTimer = 0,
     mr_bStaticEntry = 0, mr_nMAC = replicate 6 0\<rparr>"

definition IFX_FLOW_MAC_TableEntryRead ::
  "('p hw \<Rightarrow> 'p hw) \<Rightarrow> pce_entry \<Rightarrow> IFX_ETHSW_MAC_tableRead \<Rightarrow> 'p core \<Rightarrow> (int \<times> IFX_ETHSW_MAC_tableRead \<times> 'p core) option" where
  "IFX_FLOW_MAC_TableEntryRead hwstep g q s =
     (let s = (if mr_bInitial q = IFX_TRUE then upd_dev (\<lambda>d. d\<lparr>mac_table_index := 0\<rparr>) s else s)
      in if unat (mac_table_index (dev s)) \<ge> IFX_HW_MAC_TABLE_MAX
         then Some (IFX_SUCCESS, zero_MAC_tableRead\<lparr>mr_bLast := IFX_TRUE\<rparr>, upd_dev (\<lambda>d. d\<lparr>mac_table_index := 0\<rparr>) s)
         else do {
           (e, i, s) \<leftarrow> mac_scan hwstep (unat (mac_table_index (dev s))) (g\<lparr>e_table := PCE_MAC_BRIDGE_INDEX\<rparr>) s;
           let s = upd_dev (\<lambda>d. d\<lparr>mac_table_index := of_nat i\<rparr>) s;
           if e_valid e = 1 then (case mac_attr e s of (st, age, port) \<Rightarrow>
             Some (IFX_SUCCESS, q\<lparr>mr_nFId := ucast (e_key e ! 3 AND 0x3F), mr_bStaticEntry := st, mr_nAgeTimer := age,
                mr_nPortId := port, mr_nMAC := mac_bytes (e_key e), mr_bInitial := IFX_FALSE, mr_bLast := IFX_FALSE\<rparr>, s))
           else Some (IFX_SUCCESS, zero_MAC_tableRead\<lparr>mr_bLast := IFX_TRUE\<rparr>, s) })"

text \<open>The loop of a removal over the rows: a row with the address is overwritten with zeros.\<close>

fun mac_remove_rows :: "('p hw \<Rightarrow> 'p hw) \<Rightarrow> IFX_ETHSW_MAC_tableRemove \<Rightarrow> nat list \<Rightarrow> 'p core \<Rightarrow> 'p core option" where
  "mac_remove_rows hwstep q [] s = Some s"
| "mac_remove_rows hwstep q (i # is) s = do {
     (e, s) \<leftarrow> row_read hwstep (zero_entry\<lparr>e_table := PCE_MAC_BRIDGE_INDEX, e_index := of_nat i\<rparr>) s;
     s \<leftarrow> (if mac_bytes (e_key e) = take 6 (md_nMAC q) \<and> md_nFId q = ucast (e_key e ! 3 AND 0x3F)
           then row_write hwstep (zero_entry\<lparr>e_table := PCE_MAC_BRIDGE_INDEX, e_index := of_nat i\<rparr>) s
           else Some s);
     mac_remove_rows hwstep q is s }"

definition IFX_FLOW_MAC_TableEntryRemove ::
  "('p hw \<Rightarrow> 'p hw) \<Rightarrow> IFX_ETHSW_MAC_tableRemove \<Rightarrow> 'p core \<Rightarrow> (int \<times> 'p core) option" where
  "IFX_FLOW_MAC_TableEntryRemove hwstep q s =
     (if rd VR9_PCE_GCTRL_0_MTFL s = 0
      then map_option (\<lambda>s. (IFX_SUCCESS, s)) (mac_remove_rows hwstep q [0..<IFX_HW_MAC_TABLE_MAX] s)
      else Some (IFX_SUCCESS, s))"

section \<open>What the device promises\<close>

text \<open>
  A row is found by the first four words of its key, the filtering identifier having six bits. Rows
  with keys in \<open>Q\<close>, which no traffic carries, do not appear, change or vanish by themselves; the others
  do as they please (\<open>moved\<close>). \<open>mac_stored m\<close> puts the row \<open>m\<close> where its key is, else into a free
  row, and nowhere only when all rows are taken.
\<close>

definition mac_key :: "pce_img \<Rightarrow> u16 list" where
  "mac_key m = [i_key m ! 0, i_key m ! 1, i_key m ! 2, i_key m ! 3 AND 0x3F]"

definition has_key :: "u16 list \<Rightarrow> pce_img \<Rightarrow> bool" where
  "has_key k m \<longleftrightarrow> i_valid m = 1 \<and> mac_key m = k"

definition quiet_row :: "u16 list set \<Rightarrow> pce_img \<Rightarrow> bool" where
  "quiet_row Q m \<longleftrightarrow> i_valid m = 1 \<and> mac_key m \<in> Q"

definition moved :: "u16 list set \<Rightarrow> (nat \<Rightarrow> pce_img) \<Rightarrow> (nat \<Rightarrow> pce_img) \<Rightarrow> bool" where
  "moved Q B B' \<longleftrightarrow> (\<forall>i. B' i = B i \<or> \<not> quiet_row Q (B i) \<and> \<not> quiet_row Q (B' i))"

definition mac_stored :: "pce_img \<Rightarrow> (nat \<Rightarrow> pce_img) \<Rightarrow> (nat \<Rightarrow> pce_img) \<Rightarrow> bool" where
  "mac_stored m B B' \<longleftrightarrow>
     (\<exists>i<IFX_HW_MAC_TABLE_MAX. has_key (mac_key m) (B i) \<and> B' = B(i := m)) \<or>
     (\<forall>i<IFX_HW_MAC_TABLE_MAX. \<not> has_key (mac_key m) (B i)) \<and>
     ((\<exists>i<IFX_HW_MAC_TABLE_MAX. i_valid (B i) \<noteq> 1 \<and> B' = B(i := m)) \<or>
      (\<forall>i<IFX_HW_MAC_TABLE_MAX. i_valid (B i) = 1) \<and> B' = B)"

definition mac_full :: "(nat \<Rightarrow> pce_img) \<Rightarrow> bool" where
  "mac_full B \<longleftrightarrow> (\<forall>i<IFX_HW_MAC_TABLE_MAX. i_valid (B i) = 1)"

definition mac_found :: "u16 list \<Rightarrow> (nat \<Rightarrow> pce_img) \<Rightarrow> pce_img \<Rightarrow> bool" where
  "mac_found k B m \<longleftrightarrow>
     (\<exists>i<IFX_HW_MAC_TABLE_MAX. has_key k (B i) \<and> i_valid m = 1 \<and> i_val m = i_val (B i)) \<or>
     (\<forall>i<IFX_HW_MAC_TABLE_MAX. \<not> has_key k (B i)) \<and> i_valid m = 0"

text \<open>
  The addresses as a map to port word and static flag, and the invariant that an address of \<open>Q\<close> has
  one row at most.
\<close>

definition mac_vals :: "pce_img \<Rightarrow> u16 \<times> u16" where
  "mac_vals m = (i_val m ! 0, i_val m ! 1 AND 1)"

definition mac_map :: "(nat \<Rightarrow> pce_img) \<Rightarrow> u16 list \<Rightarrow> (u16 \<times> u16) option" where
  "mac_map B k = map_option (\<lambda>i. mac_vals (B i)) (find (\<lambda>i. has_key k (B i)) [0..<IFX_HW_MAC_TABLE_MAX])"

definition mac_ok :: "u16 list set \<Rightarrow> (nat \<Rightarrow> pce_img) \<Rightarrow> bool" where
  "mac_ok Q B \<longleftrightarrow> (\<forall>i<IFX_HW_MAC_TABLE_MAX. \<forall>j<IFX_HW_MAC_TABLE_MAX.
     quiet_row Q (B i) \<longrightarrow> quiet_row Q (B j) \<longrightarrow> mac_key (B i) = mac_key (B j) \<longrightarrow> i = j)"

lemma moved_refl [simp]: "moved Q B B"
  by (simp add: moved_def)

lemma moved_trans [trans]: "moved Q B B' \<Longrightarrow> moved Q B' B'' \<Longrightarrow> moved Q B B''"
  unfolding moved_def by metis

lemma moved_has_key: "moved Q B B' \<Longrightarrow> k \<in> Q \<Longrightarrow> has_key k (B' i) = has_key k (B i)"
  unfolding moved_def has_key_def quiet_row_def by metis

lemma moved_row: "moved Q B B' \<Longrightarrow> k \<in> Q \<Longrightarrow> has_key k (B i) \<Longrightarrow> B' i = B i"
  unfolding moved_def has_key_def quiet_row_def by metis

lemma mac_map_cases:
  obtains (present) i where "i < IFX_HW_MAC_TABLE_MAX" "has_key k (B i)" "mac_map B k = Some (mac_vals (B i))"
  | (absent) "\<And>i. i < IFX_HW_MAC_TABLE_MAX \<Longrightarrow> \<not> has_key k (B i)" "mac_map B k = None"
proof (cases "find (\<lambda>i. has_key k (B i)) [0..<IFX_HW_MAC_TABLE_MAX]")
  case None then show thesis by (intro absent) (auto simp: mac_map_def find_upt_None)
next
  case (Some i) then show thesis by (intro present [of i]) (auto simp: mac_map_def find_upt_Some)
qed

lemma mac_map_None: "mac_map B k = None \<longleftrightarrow> (\<forall>i<IFX_HW_MAC_TABLE_MAX. \<not> has_key k (B i))"
  by (simp add: mac_map_def find_upt_None)

lemma has_key_row: "has_key k m \<Longrightarrow> has_key l m \<Longrightarrow> l = k"
  by (simp add: has_key_def)

lemma mac_map_row:
  assumes ok: "mac_ok Q B" and k: "k \<in> Q" and i: "i < IFX_HW_MAC_TABLE_MAX" "has_key k (B i)"
  shows "mac_map B k = Some (mac_vals (B i))"
proof (cases rule: mac_map_cases [where B = B and k = k])
  case (present j)
  have "j = i" using ok present(1,2) i k unfolding mac_ok_def has_key_def quiet_row_def by metis
  with present(3) show ?thesis by simp
qed (use i in auto)

lemma mac_map_cong:
  "(\<And>i. i < IFX_HW_MAC_TABLE_MAX \<Longrightarrow> has_key k (B' i) = has_key k (B i)) \<Longrightarrow>
   (\<And>i. i < IFX_HW_MAC_TABLE_MAX \<Longrightarrow> has_key k (B i) \<Longrightarrow> mac_vals (B' i) = mac_vals (B i)) \<Longrightarrow> mac_map B' k = mac_map B k"
proof -
  assume h: "\<And>i. i < IFX_HW_MAC_TABLE_MAX \<Longrightarrow> has_key k (B' i) = has_key k (B i)"
    and v: "\<And>i. i < IFX_HW_MAC_TABLE_MAX \<Longrightarrow> has_key k (B i) \<Longrightarrow> mac_vals (B' i) = mac_vals (B i)"
  have "find (\<lambda>i. has_key k (B' i)) [0..<IFX_HW_MAC_TABLE_MAX] = find (\<lambda>i. has_key k (B i)) [0..<IFX_HW_MAC_TABLE_MAX]"
    by (rule find_cong) (use h in auto)
  then have "mac_map B' k = map_option (\<lambda>i. mac_vals (B' i)) (find (\<lambda>i. has_key k (B i)) [0..<IFX_HW_MAC_TABLE_MAX])"
    by (simp add: mac_map_def)
  also have "\<dots> = mac_map B k"
    unfolding mac_map_def by (rule option.map_cong) (auto simp: find_upt_Some v)
  finally show ?thesis .
qed

lemma moved_map: "moved Q B B' \<Longrightarrow> k \<in> Q \<Longrightarrow> mac_map B' k = mac_map B k"
  by (rule mac_map_cong) (simp_all add: moved_has_key moved_row)

lemma moved_ok: "moved Q B B' \<Longrightarrow> mac_ok Q B \<Longrightarrow> mac_ok Q B'"
  unfolding moved_def mac_ok_def by metis

lemma stored_cases:
  assumes "mac_stored m B B'"
  obtains (row) i where "i < IFX_HW_MAC_TABLE_MAX" "B' = B(i := m)"
      "has_key (mac_key m) (B i) \<or> i_valid (B i) \<noteq> 1 \<and> (\<forall>j<IFX_HW_MAC_TABLE_MAX. \<not> has_key (mac_key m) (B j))"
  | (full) "B' = B" "\<And>j. j < IFX_HW_MAC_TABLE_MAX \<Longrightarrow> \<not> has_key (mac_key m) (B j)"
      "\<And>j. j < IFX_HW_MAC_TABLE_MAX \<Longrightarrow> i_valid (B j) = 1"
  using assms unfolding mac_stored_def by blast

lemma stored_other:
  assumes st: "mac_stored m B B'" and k: "k \<noteq> mac_key m"
  shows "mac_map B' k = mac_map B k"
proof (cases rule: stored_cases [OF st])
  case row: (1 i)
  then have "\<not> has_key k (B i)" using k by (auto simp: has_key_def)
  moreover have "\<not> has_key k m" using k by (simp add: has_key_def)
  ultimately show ?thesis by (intro mac_map_cong) (auto simp: row(2))
qed simp

lemma stored_ok:
  assumes st: "mac_stored m B B'" and ok: "mac_ok Q B"
  shows "mac_ok Q B'"
proof (cases rule: stored_cases [OF st])
  case row: (1 i)
  have *: "j = i" if "j < IFX_HW_MAC_TABLE_MAX" "quiet_row Q (B j)" "mac_key (B j) = mac_key m" for j
  proof -
    from that have h: "has_key (mac_key m) (B j)" by (simp add: has_key_def quiet_row_def)
    with row(3) that(1) have "has_key (mac_key m) (B i)" by blast
    then show ?thesis using ok row(1) that unfolding mac_ok_def has_key_def quiet_row_def by metis
  qed
  have "a = b" if "a < IFX_HW_MAC_TABLE_MAX" "b < IFX_HW_MAC_TABLE_MAX" "quiet_row Q (B' a)" "quiet_row Q (B' b)"
    "mac_key (B' a) = mac_key (B' b)" for a b
  proof -
    have "a = i \<longleftrightarrow> b = i" using that * [of a] * [of b] by (auto simp: row(2) split: if_splits)
    moreover have "a = b" if "a \<noteq> i" "b \<noteq> i"
      using ok \<open>a < _\<close> \<open>b < _\<close> \<open>quiet_row Q (B' a)\<close> \<open>quiet_row Q (B' b)\<close> \<open>mac_key (B' a) = _\<close> that
      by (simp add: row(2) mac_ok_def)
    ultimately show ?thesis by blast
  qed
  then show ?thesis unfolding mac_ok_def by blast
qed (use ok in simp)

lemma stored_same:
  assumes st: "mac_stored m B B'" and ok: "mac_ok Q B" and m: "i_valid m = 1" "mac_key m \<in> Q"
  shows "mac_map B' (mac_key m) = Some (mac_vals m) \<or>
    mac_map B (mac_key m) = None \<and> mac_map B' (mac_key m) = None \<and> mac_full B"
proof (cases rule: stored_cases [OF st])
  case row: (1 i)
  have "mac_map B' (mac_key m) = Some (mac_vals (B' i))"
    by (rule mac_map_row [OF stored_ok [OF st ok] m(2) row(1)]) (simp add: row(2) has_key_def m(1))
  then show ?thesis by (simp add: row(2))
next
  case 2 then show ?thesis by (simp add: mac_map_None mac_full_def)
qed

lemma stored_known:
  assumes st: "mac_stored m B B'" and ok: "mac_ok Q B" and m: "i_valid m = 1" "mac_key m \<in> Q"
    and k: "mac_map B (mac_key m) \<noteq> None"
  shows "mac_map B' (mac_key m) = Some (mac_vals m)"
  using stored_same [OF st ok m] k by auto

lemma erased_ok: "mac_ok Q B \<Longrightarrow> i_valid z \<noteq> 1 \<Longrightarrow> mac_ok Q (B(i := z))"
  unfolding mac_ok_def by (simp add: quiet_row_def)

lemma erased_other: "\<not> has_key k (B i) \<Longrightarrow> i_valid z \<noteq> 1 \<Longrightarrow> mac_map (B(i := z)) k = mac_map B k"
  by (rule mac_map_cong) (auto simp: has_key_def)

lemma found_map:
  assumes f: "mac_found k B m" and ok: "mac_ok Q B" and k: "k \<in> Q"
  shows "(if i_valid m = 1 then Some (mac_vals m) else None) = mac_map B k"
proof -
  consider i where "i < IFX_HW_MAC_TABLE_MAX" "has_key k (B i)" "i_valid m = 1" "i_val m = i_val (B i)"
    | "\<forall>i<IFX_HW_MAC_TABLE_MAX. \<not> has_key k (B i)" "i_valid m = 0"
    using f unfolding mac_found_def by blast
  then show ?thesis
  proof cases
    case 1 then show ?thesis using mac_map_row [OF ok k 1(1,2)] by (simp add: mac_vals_def)
  next
    case 2 then show ?thesis using mac_map_None [of B k] by simp
  qed
qed

section \<open>The interface\<close>

definition key_write_setup :: "pce_entry \<Rightarrow> 'p hw \<Rightarrow> 'p hw" where
  "key_write_setup e h1 = wrfs (flag_writes e @ [(TBL_CTRL_BAS, 1)])
     (wrfs (key_writes e @ [(TBL_MASK_0, ucast (e_mask e))] @ val_writes e)
       (wrfs [(TBL_CTRL_ADDR, ucast (e_table e)), (TBL_CTRL_OPMOD, OP_KSWR)] h1))"

definition key_read_setup :: "pce_entry \<Rightarrow> 'p hw \<Rightarrow> 'p hw" where
  "key_read_setup e h1 = wrfs ([(TBL_CTRL_ADDR, ucast (e_table e))] @ key_writes e @
     [(TBL_CTRL_OPMOD, OP_KSRD), (TBL_CTRL_BAS, 1)]) h1"

lemma key_write_idle:
  "idle h \<Longrightarrow> ifx_ethsw_xwayflow_pce_table_key_write hwstep e h = poll hwstep TBL_CTRL_BAS (key_write_setup e h)"
  by (simp add: ifx_ethsw_xwayflow_pce_table_key_write_def key_write_setup_def idle_def)

lemma key_read_idle:
  "idle h \<Longrightarrow> ifx_ethsw_xwayflow_pce_table_key_read hwstep e h =
     map_option (\<lambda>h. (read_flags h (e\<lparr>e_val := read_vals h\<rparr>), h)) (poll hwstep TBL_CTRL_BAS (key_read_setup e h))"
  by (simp add: ifx_ethsw_xwayflow_pce_table_key_read_def key_read_setup_def idle_def map_option_case
      split: bind_split option.splits)

lemma key_write_win: "entry_wf e \<Longrightarrow> win (key_write_setup e h) = img_of e"
  by (simp add: win_def read_keys_def read_vals_def key_write_setup_def setup_defs field_simps_hw img_of_def
      nine_keys seven_vals entry_wf_def)

lemma key_read_keys: "entry_wf e \<Longrightarrow> i_key (win (key_read_setup e h)) = take 9 (e_key e)"
  by (simp add: win_def read_keys_def key_read_setup_def setup_defs field_simps_hw nine_keys entry_wf_def)

lemma key_setup_cmd:
  "\<not> idle (key_write_setup e h)" "cmd_op (key_write_setup e h) = 3"
  "unat (e_table e) < 32 \<Longrightarrow> cmd_tbl (key_write_setup e h) = unat (e_table e)"
  "\<not> idle (key_read_setup e h)" "cmd_op (key_read_setup e h) = 2"
  "unat (e_table e) < 32 \<Longrightarrow> cmd_tbl (key_read_setup e h) = unat (e_table e)"
  by (simp_all add: key_write_setup_def key_read_setup_def setup_defs field_simps_hw idle_def cmd_op_def cmd_tbl_def
      mask_eq_simps flip: mask_eq_simps(3)) (simp_all add: unat_low_bits)

lemma key_setup_frame [simp]:
  "priv (key_write_setup e h) = priv h" "priv (key_read_setup e h) = priv h"
  "\<not> in_window off \<Longrightarrow> regs (key_write_setup e h) off = regs h off"
  "\<not> in_window off \<Longrightarrow> regs (key_read_setup e h) off = regs h off"
  by (simp_all add: key_write_setup_def key_read_setup_def setup_defs in_window_def)

abbreviation busy_to :: "('p hw \<Rightarrow> 'p hw) \<Rightarrow> 'p hw \<Rightarrow> 'p hw \<Rightarrow> bool" where
  "busy_to hwstep h h' \<equiv> \<not> idle h \<and> poll hwstep TBL_CTRL_BAS h = Some h'"

locale mac_engine = pce_engine hwstep tbl keep stable
  for hwstep :: "'p hw \<Rightarrow> 'p hw" and tbl keep stable +
  fixes brow :: "'p \<Rightarrow> nat \<Rightarrow> pce_img"
    and Q :: "u16 list set"
  assumes mac_keep: "i_valid (keep 11 m) = i_valid m \<and> mac_key (keep 11 m) = mac_key m \<and> mac_vals (keep 11 m) = mac_vals m"
    and kswr: "busy_to hwstep h h' \<Longrightarrow> cmd_op h = 3 \<Longrightarrow> cmd_tbl h = 11 \<Longrightarrow> i_valid (win h) = 1 \<Longrightarrow>
      \<exists>B B'. moved Q (brow (priv h)) B \<and> mac_stored (keep 11 (win h)) B B' \<and> moved Q B' (brow (priv h'))"
    and ksrd: "busy_to hwstep h h' \<Longrightarrow> cmd_op h = 2 \<Longrightarrow> cmd_tbl h = 11 \<Longrightarrow>
      \<exists>B. moved Q (brow (priv h)) B \<and> mac_found (mac_key (win h)) B (win h') \<and> moved Q B (brow (priv h'))"
    and brd: "busy_to hwstep h h' \<Longrightarrow> cmd_op h = 0 \<Longrightarrow> cmd_tbl h = 11 \<Longrightarrow> cmd_idx h < IFX_HW_MAC_TABLE_MAX \<Longrightarrow>
      \<exists>B. moved Q (brow (priv h)) B \<and> win h' = B (cmd_idx h) \<and> moved Q B (brow (priv h'))"
    and bwr: "busy_to hwstep h h' \<Longrightarrow> cmd_op h = 1 \<Longrightarrow> cmd_tbl h = 11 \<Longrightarrow> cmd_idx h < IFX_HW_MAC_TABLE_MAX \<Longrightarrow>
      \<exists>B. moved Q (brow (priv h)) B \<and> moved Q (B(cmd_idx h := keep 11 (win h))) (brow (priv h'))"
    and apart: "busy_to hwstep h h' \<Longrightarrow> cmd_tbl h = 11 \<Longrightarrow> driver_tbl tbl h' = driver_tbl tbl h"
begin

lemma key_write_spec:
  assumes h: "idle h" and e: "entry_wf e" "e_table e = 11" "e_valid e = 1"
  obtains h' B B' where "ifx_ethsw_xwayflow_pce_table_key_write hwstep e h = Some h'" "idle h'"
    "moved Q (brow (priv h)) B" "mac_stored (keep 11 (img_of e)) B B'" "moved Q B' (brow (priv h'))"
    "driver_tbl tbl h' = driver_tbl tbl h"
    "\<And>off. off \<in> stable \<Longrightarrow> \<not> in_window off \<Longrightarrow> regs h' off = regs h off"
proof -
  let ?s = "key_write_setup e h"
  note c = key_setup_cmd(1-3) [of e h]
  from completes [OF c(1)] obtain h' where h': "poll hwstep TBL_CTRL_BAS ?s = Some h'" by blast
  then have b: "busy_to hwstep ?s h'" using c(1) by simp
  have t: "cmd_tbl ?s = 11" using c(3) e(2) by simp
  have w: "win ?s = img_of e" by (rule key_write_win [OF e(1)])
  have v: "i_valid (win ?s) = 1" using e(3) by (simp add: w img_of_def)
  obtain B B' where B: "moved Q (brow (priv h)) B" "mac_stored (keep 11 (img_of e)) B B'" "moved Q B' (brow (priv h'))"
    using kswr [OF b c(2) t v] by (auto simp: w)
  have d: "driver_tbl tbl h' = driver_tbl tbl h" using apart [OF b t] by (simp add: driver_tbl_def fun_eq_iff)
  show thesis
  proof (rule that [OF _ _ B d])
    show "ifx_ethsw_xwayflow_pce_table_key_write hwstep e h = Some h'" using h' by (simp add: key_write_idle h)
    show "idle h'" using poll_done [OF h'] by (simp add: idle_def)
    show "regs h' off = regs h off" if "off \<in> stable" "\<not> in_window off" for off
      using frame [OF c(1) h' that] that by simp
  qed
qed

lemma key_read_spec:
  assumes h: "idle h" and e: "entry_wf e" "e_table e = 11"
  obtains h' B where "ifx_ethsw_xwayflow_pce_table_key_read hwstep e h
      = Some (e\<lparr>e_val := i_val (win h'), e_mask := i_mask (win h'), e_type := i_type (win h'),
          e_valid := i_valid (win h'), e_group := i_group (win h')\<rparr>, h')" "idle h'"
    "moved Q (brow (priv h)) B" "mac_found (mac_key (img_of e)) B (win h')" "moved Q B (brow (priv h'))"
    "driver_tbl tbl h' = driver_tbl tbl h"
    "\<And>off. off \<in> stable \<Longrightarrow> \<not> in_window off \<Longrightarrow> regs h' off = regs h off"
proof -
  let ?s = "key_read_setup e h"
  note c = key_setup_cmd(4-6) [of e h]
  from completes [OF c(1)] obtain h' where h': "poll hwstep TBL_CTRL_BAS ?s = Some h'" by blast
  then have b: "busy_to hwstep ?s h'" using c(1) by simp
  have t: "cmd_tbl ?s = 11" using c(3) e(2) by simp
  have k: "mac_key (win ?s) = mac_key (img_of e)"
    using key_read_keys [OF e(1), of h] by (simp add: mac_key_def img_of_def)
  obtain B where B: "moved Q (brow (priv h)) B" "mac_found (mac_key (img_of e)) B (win h')" "moved Q B (brow (priv h'))"
    using ksrd [OF b c(2) t] by (auto simp: k)
  have d: "driver_tbl tbl h' = driver_tbl tbl h" using apart [OF b t] by (simp add: driver_tbl_def fun_eq_iff)
  show thesis
  proof (rule that [OF _ _ B d])
    show "ifx_ethsw_xwayflow_pce_table_key_read hwstep e h
      = Some (e\<lparr>e_val := i_val (win h'), e_mask := i_mask (win h'), e_type := i_type (win h'),
          e_valid := i_valid (win h'), e_group := i_group (win h')\<rparr>, h')"
      using h' by (simp add: key_read_idle h read_flags_def win_def)
    show "idle h'" using poll_done [OF h'] by (simp add: idle_def)
    show "regs h' off = regs h off" if "off \<in> stable" "\<not> in_window off" for off
      using frame [OF c(1) h' that] that by simp
  qed
qed

lemma row_access:
  assumes h: "idle h" and e: "e_table e = 11" "unat (e_index e) = i" "i < IFX_HW_MAC_TABLE_MAX"
  obtains h' B where "ifx_ethsw_xwayflow_pce_table_read hwstep e h = Some (with_img (win h') e, h')" "idle h'"
    "moved Q (brow (priv h)) B" "win h' = B i" "moved Q B (brow (priv h'))" "driver_tbl tbl h' = driver_tbl tbl h"
    "\<And>off. off \<in> stable \<Longrightarrow> \<not> in_window off \<Longrightarrow> regs h' off = regs h off"
proof -
  let ?s = "read_setup e h"
  have b: "\<not> idle ?s" using read_setup_cmd(1) [of e h] by (simp add: idle_def)
  have t: "cmd_tbl ?s = 11" using e by (simp add: cmd_tbl_def read_setup_cmd mask_eq_simps)
  have x: "cmd_idx ?s = i" using e by (simp add: cmd_idx_def read_setup_cmd unat_low_bits)
  have o: "cmd_op ?s = 0" by (simp add: cmd_op_def read_setup_cmd)
  from completes [OF b] obtain h' where h': "poll hwstep TBL_CTRL_BAS ?s = Some h'" by blast
  then have b': "busy_to hwstep ?s h'" using b by simp
  obtain B where B: "moved Q (brow (priv h)) B" "win h' = B i" "moved Q B (brow (priv h'))"
    using brd [OF b' o t] e(3) by (auto simp: x)
  have d: "driver_tbl tbl h' = driver_tbl tbl h" using apart [OF b' t] by (simp add: driver_tbl_def fun_eq_iff)
  show thesis
  proof (rule that [OF _ _ B d])
    show "ifx_ethsw_xwayflow_pce_table_read hwstep e h = Some (with_img (win h') e, h')"
      using h' by (simp add: table_read_idle h)
    show "idle h'" using poll_done [OF h'] by (simp add: idle_def)
    show "regs h' off = regs h off" if "off \<in> stable" "\<not> in_window off" for off
      using frame [OF b h' that] that by simp
  qed
qed

lemma row_erase:
  assumes h: "idle h" and e: "e_table e = 11" "unat (e_index e) = i" "i < IFX_HW_MAC_TABLE_MAX" "entry_wf e"
  obtains h' B where "ifx_ethsw_xwayflow_pce_table_write hwstep e h = Some h'" "idle h'"
    "moved Q (brow (priv h)) B" "moved Q (B(i := keep 11 (img_of e))) (brow (priv h'))"
    "driver_tbl tbl h' = driver_tbl tbl h"
    "\<And>off. off \<in> stable \<Longrightarrow> \<not> in_window off \<Longrightarrow> regs h' off = regs h off"
proof -
  let ?s = "write_setup e h"
  have b: "\<not> idle ?s" using write_setup_cmd(1) [of e h] by (simp add: idle_def)
  have t: "cmd_tbl ?s = 11" using e by (simp add: cmd_tbl_def write_setup_cmd mask_eq_simps)
  have x: "cmd_idx ?s = i" using e by (simp add: cmd_idx_def write_setup_cmd unat_low_bits)
  have o: "cmd_op ?s = 1" by (simp add: cmd_op_def write_setup_cmd)
  from completes [OF b] obtain h' where h': "poll hwstep TBL_CTRL_BAS ?s = Some h'" by blast
  then have b': "busy_to hwstep ?s h'" using b by simp
  obtain B where B: "moved Q (brow (priv h)) B" "moved Q (B(i := keep 11 (img_of e))) (brow (priv h'))"
    using bwr [OF b' o t] e(3) by (auto simp: x write_setup_win [OF e(4)])
  have d: "driver_tbl tbl h' = driver_tbl tbl h" using apart [OF b' t] by (simp add: driver_tbl_def fun_eq_iff)
  show thesis
  proof (rule that [OF _ _ B d])
    show "ifx_ethsw_xwayflow_pce_table_write hwstep e h = Some h'"
      using h' by (simp add: table_write_idle h)
    show "idle h'" using poll_done [OF h'] by (simp add: idle_def)
    show "regs h' off = regs h off" if "off \<in> stable" "\<not> in_window off" for off
      using frame [OF b h' that] that by simp
  qed
qed

end

section \<open>The handlers on the map of addresses\<close>

abbreviation maddr :: "('p \<Rightarrow> nat \<Rightarrow> pce_img) \<Rightarrow> 'p core \<Rightarrow> nat \<Rightarrow> pce_img" where
  "maddr brow s \<equiv> brow (priv (hw_of s))"

definition mac_id :: "u8 list \<Rightarrow> u32 \<Rightarrow> u16 list" where
  "mac_id a fid = take 3 (mac_words a fid) @ [ucast fid AND 0x3F]"

text \<open>What a handler of this table leaves alone: everything but the table and its read position.\<close>

definition mac_only :: "('p \<Rightarrow> nat \<Rightarrow> nat \<Rightarrow> pce_img) \<Rightarrow> 16 word set \<Rightarrow> 'p core \<Rightarrow> 'p core \<Rightarrow> bool" where
  "mac_only tbl S s s' \<longleftrightarrow> (\<exists>x. dev s' = (dev s)\<lparr>mac_table_index := x\<rparr>) \<and> st_pce (pce s') = st_pce (pce s) \<and>
     st_ent (pce s') = st_ent (pce s) \<and> idle (hw_of s') \<and> dtbl tbl s' = dtbl tbl s \<and>
     (\<forall>off\<in>S. \<not> in_window off \<longrightarrow> regs (hw_of s') off = regs (hw_of s) off)"

lemma mac_only_refl: "idle (hw_of s) \<Longrightarrow> mac_only tbl S s s"
  unfolding mac_only_def by (auto intro: exI [of _ "mac_table_index (dev s)"])

lemma mac_only_trans [trans]: "mac_only tbl S s t \<Longrightarrow> mac_only tbl S t u \<Longrightarrow> mac_only tbl S s u"
  unfolding mac_only_def by auto

lemma mac_only_hw:
  "idle h \<Longrightarrow> driver_tbl tbl h = dtbl tbl s \<Longrightarrow> (\<And>off. off \<in> S \<Longrightarrow> \<not> in_window off \<Longrightarrow> regs h off = regs (hw_of s) off) \<Longrightarrow>
   mac_only tbl S s (upd_hw (\<lambda>_. h) s)"
  unfolding mac_only_def by (auto intro: exI [of _ "mac_table_index (dev s)"])

lemma mac_only_pos: "mac_only tbl S s t \<Longrightarrow> mac_only tbl S s (upd_dev (\<lambda>d. d\<lparr>mac_table_index := x\<rparr>) t)"
  unfolding mac_only_def by auto

lemma mac_only_inv: "mac_only tbl S s s' \<Longrightarrow> core_inv tbl keep s \<Longrightarrow> core_inv tbl keep s'"
proof -
  assume m: "mac_only tbl S s s'" and I: "core_inv tbl keep s"
  then obtain x where d: "dev s' = (dev s)\<lparr>mac_table_index := x\<rparr>" by (auto simp: mac_only_def)
  have "dev_ok (dev s')" "vlan_wf (dev s')" "vlan_mirror tbl keep s'"
    using I m by (simp_all add: core_inv_def dev_ok_def vlan_wf_def vlan_mirror_def d mac_only_def)
  moreover have "rules_inv tbl keep (pce s')"
    by (rule rules_inv_frame [where P = "pce s"]) (use I m in \<open>simp_all add: core_inv_def mac_only_def\<close>)
  ultimately show ?thesis by (simp add: core_inv_def)
qed

lemma mac_only_field: "mac_only tbl S s s' \<Longrightarrow> fst F \<in> S \<Longrightarrow> \<not> in_window (fst F) \<Longrightarrow> rd F s' = rd F s"
  by (cases F) (simp add: mac_only_def rdf.simps read_fld_get)

lemma mac_words_take: "take 4 (mac_words a f) = mac_words a f"
  by (simp add: mac_words_def)

lemma set_mac_key_wf: "entry_wf e \<Longrightarrow> entry_wf (set_mac_key (mac_words a f) e)"
  by (simp add: entry_wf_def set_mac_key_def mac_words_def)

lemma set_mac_key_id: "mac_key (img_of (set_mac_key (mac_words a f) e)) = mac_id a f"
  by (simp add: mac_key_def img_of_def set_mac_key_def mac_words_def mac_id_def)

lemma mac_add_entry_simps:
  assumes "entry_wf g"
  shows "entry_wf (mac_add_entry g q)" "e_table (mac_add_entry g q) = 11" "e_valid (mac_add_entry g q) = 1"
    "mac_key (img_of (mac_add_entry g q)) = mac_id (ma_nMAC q) (ma_nFId q)"
  using assms by (simp_all add: mac_add_entry_def Let_def entry_wf_def set_mac_key_def mac_words_def mac_key_def
      img_of_def mac_id_def)

lemma engine_mac: "mac_engine hwstep tbl keep S brow Q \<Longrightarrow> pce_engine hwstep tbl keep S"
  by (simp add: mac_engine_def)

lemma key_read_step:
  assumes M: "mac_engine hwstep tbl keep S brow Q" and s: "idle (hw_of s)" and ok: "mac_ok Q (maddr brow s)"
  obtains e s' where "row_key_read hwstep (set_mac_key (mac_words a f) zero_entry) s = Some (e, s')"
    "mac_only tbl S s s'" "moved Q (maddr brow s) (maddr brow s')" "dev s' = dev s"
    "mac_id a f \<in> Q \<Longrightarrow> (if e_valid e = 1 then Some (e_val e ! 0, e_val e ! 1 AND 1) else None) = mac_map (maddr brow s) (mac_id a f)"
proof (rule mac_engine.key_read_spec [OF M s])
  show "entry_wf (set_mac_key (mac_words a f) zero_entry)" by (rule set_mac_key_wf) simp
  show "e_table (set_mac_key (mac_words a f) zero_entry) = 11" by (simp add: set_mac_key_def)
  fix h' B
  assume h: "ifx_ethsw_xwayflow_pce_table_key_read hwstep (set_mac_key (mac_words a f) zero_entry) (hw_of s) =
      Some ((set_mac_key (mac_words a f) zero_entry)\<lparr>e_val := i_val (win h'), e_mask := i_mask (win h'),
        e_type := i_type (win h'), e_valid := i_valid (win h'), e_group := i_group (win h')\<rparr>, h')"
    "idle h'" "moved Q (maddr brow s) B" "mac_found (mac_key (img_of (set_mac_key (mac_words a f) zero_entry))) B (win h')"
    "moved Q B (brow (priv h'))" "driver_tbl tbl h' = dtbl tbl s"
    "\<And>off. off \<in> S \<Longrightarrow> \<not> in_window off \<Longrightarrow> regs h' off = regs (hw_of s) off"
  let ?e = "(set_mac_key (mac_words a f) zero_entry)\<lparr>e_val := i_val (win h'), e_mask := i_mask (win h'),
        e_type := i_type (win h'), e_valid := i_valid (win h'), e_group := i_group (win h')\<rparr>"
  show thesis
  proof (rule that)
    show "row_key_read hwstep (set_mac_key (mac_words a f) zero_entry) s = Some (?e, upd_hw (\<lambda>_. h') s)"
      by (simp add: row_key_read_def h(1))
    show "mac_only tbl S s (upd_hw (\<lambda>_. h') s)" by (rule mac_only_hw [OF h(2,6,7)])
    show "moved Q (maddr brow s) (maddr brow (upd_hw (\<lambda>_. h') s))" using moved_trans [OF h(3,5)] by simp
    assume k: "mac_id a f \<in> Q"
    have "(if i_valid (win h') = 1 then Some (mac_vals (win h')) else None) = mac_map B (mac_id a f)"
      by (rule found_map [OF _ moved_ok [OF h(3) ok] k]) (use h(4) in \<open>simp add: set_mac_key_id\<close>)
    then show "(if e_valid ?e = 1 then Some (e_val ?e ! 0, e_val ?e ! 1 AND 1) else None) = mac_map (maddr brow s) (mac_id a f)"
      using moved_map [OF h(3) k] by (simp add: mac_vals_def split: if_splits)
  qed simp
qed

lemma mac_add_spec:
  assumes M: "mac_engine hwstep tbl keep S brow Q" and s: "idle (hw_of s)" and ok: "mac_ok Q (maddr brow s)"
    and g: "entry_wf g" and p: "ma_nPortId q < ucast (nTotalPortNumber (dev s)) \<or> ma_nPortId q AND 0x80000000 \<noteq> 0"
  obtains s' where "IFX_FLOW_MAC_TableEntryAdd hwstep g q s = Some (IFX_SUCCESS, s')" "mac_only tbl S s s'"
    "mac_ok Q (maddr brow s')" "dev s' = dev s"
    "\<And>k. k \<in> Q \<Longrightarrow> k \<noteq> mac_id (ma_nMAC q) (ma_nFId q) \<Longrightarrow> mac_map (maddr brow s') k = mac_map (maddr brow s) k"
    "mac_id (ma_nMAC q) (ma_nFId q) \<in> Q \<Longrightarrow>
       mac_map (maddr brow s') (mac_id (ma_nMAC q) (ma_nFId q)) = Some (mac_vals (img_of (mac_add_entry g q))) \<or>
       mac_map (maddr brow s) (mac_id (ma_nMAC q) (ma_nFId q)) = None \<and> mac_map (maddr brow s') (mac_id (ma_nMAC q) (ma_nFId q)) = None \<and>
       (\<exists>B. moved Q (maddr brow s) B \<and> mac_full B)"
proof -
  let ?e = "mac_add_entry g q" and ?k = "mac_id (ma_nMAC q) (ma_nFId q)"
  note e = mac_add_entry_simps [OF g, of q]
  obtain h B B' where h: "ifx_ethsw_xwayflow_pce_table_key_write hwstep ?e (hw_of s) = Some h" "idle h"
    "moved Q (maddr brow s) B" "mac_stored (keep 11 (img_of ?e)) B B'" "moved Q B' (brow (priv h))"
    "driver_tbl tbl h = dtbl tbl s" "\<And>off. off \<in> S \<Longrightarrow> \<not> in_window off \<Longrightarrow> regs h off = regs (hw_of s) off"
    by (rule mac_engine.key_write_spec [OF M s e(1-3)]) blast
  let ?t = "upd_hw (\<lambda>_. h) s"
  have m: "mac_key (keep 11 (img_of ?e)) = ?k" "i_valid (keep 11 (img_of ?e)) = 1"
    "mac_vals (keep 11 (img_of ?e)) = mac_vals (img_of ?e)"
    using mac_engine.mac_keep [OF M, of "img_of ?e"] e by (simp_all add: img_of_def)
  have okB: "mac_ok Q B" by (rule moved_ok [OF h(3) ok])
  have okt: "mac_ok Q (maddr brow ?t)" using moved_ok [OF h(5) stored_ok [OF h(4) okB]] by simp
  obtain e' s' where r: "row_key_read hwstep (set_mac_key (mac_words (ma_nMAC q) (ma_nFId q)) zero_entry) ?t = Some (e', s')"
    "mac_only tbl S ?t s'" "moved Q (maddr brow ?t) (maddr brow s')" "dev s' = dev ?t"
    by (rule key_read_step [OF M _ okt]) (use h(2) in auto)
  have q: "\<not> (ma_nPortId q \<ge> ucast (nTotalPortNumber (dev s)) \<and> ma_nPortId q AND 0x80000000 = 0)" using p by auto
  have same: "mac_map (maddr brow s') k = mac_map B' k" if "k \<in> Q" for k
    using moved_map [OF r(3) that] moved_map [OF h(5) that] by simp
  show thesis
  proof (rule that)
    show "IFX_FLOW_MAC_TableEntryAdd hwstep g q s = Some (IFX_SUCCESS, s')"
      unfolding IFX_FLOW_MAC_TableEntryAdd_def if_not_P [OF q] by (simp add: row_key_write_def h(1) r(1))
    show "mac_only tbl S s s'" by (rule mac_only_trans [OF mac_only_hw [OF h(2,6,7)] r(2)])
    show "mac_ok Q (maddr brow s')" by (rule moved_ok [OF r(3) okt])
    show "dev s' = dev s" using r(4) by simp
    show "mac_map (maddr brow s') k = mac_map (maddr brow s) k" if "k \<in> Q" "k \<noteq> ?k" for k
      using same [OF that(1)] stored_other [OF h(4), of k] that m(1) moved_map [OF h(3) that(1)] by simp
    assume k: "?k \<in> Q"
    show "mac_map (maddr brow s') ?k = Some (mac_vals (img_of ?e)) \<or>
       mac_map (maddr brow s) ?k = None \<and> mac_map (maddr brow s') ?k = None \<and> (\<exists>B. moved Q (maddr brow s) B \<and> mac_full B)"
      using stored_same [OF h(4) okB m(2)] k m(1,3) same [OF k] moved_map [OF h(3) k] h(3) by auto
  qed
qed

text \<open>What the handlers report of the two values of a row, given the ageing register.\<close>

definition attr_of :: "u32 \<Rightarrow> u16 \<times> u16 \<Rightarrow> u32 \<times> u32 \<times> u32" where
  "attr_of mant v =
     (if snd v = 1 then (1, 0, ucast (fst v))
      else (0, (age_seconds mant * ucast (fst v AND 0xF)) div 0xF, ucast (drop_bit 4 (fst v) AND 0xF)))"

lemma mac_attr_of: "mac_attr e s = attr_of (rd VR9_PCE_AGE_1_MANT s) (e_val e ! 0, e_val e ! 1 AND 1)"
  by (simp add: mac_attr_def attr_of_def)

definition found_in :: "u32 \<Rightarrow> (u16 \<times> u16) option \<Rightarrow> IFX_ETHSW_MAC_tableQuery \<Rightarrow> IFX_ETHSW_MAC_tableQuery" where
  "found_in mant r q = (case r of None \<Rightarrow> q\<lparr>mq_bFound := 0\<rparr>
     | Some v \<Rightarrow> q\<lparr>mq_bFound := 1, mq_bStaticEntry := fst (attr_of mant v),
         mq_nAgeTimer := fst (snd (attr_of mant v)), mq_nPortId := snd (snd (attr_of mant v))\<rparr>)"

text \<open>The age is computed without overflow: the counter, of four bits, times the seconds, divided by 15.\<close>

lemma age_exact:
  "unat ((age_seconds mant * ucast (w AND 0xF :: u16)) div 0xF) = unat (age_seconds mant) * unat (w AND 0xF) div 15"
  "unat (age_seconds mant) \<le> 86400" "unat (w AND 0xF :: u16) \<le> 15"
proof -
  show a: "unat (age_seconds mant) \<le> 86400" by (simp add: age_seconds_def)
  have "w AND 0xF \<le> 0xF" by (rule word_and_le1)
  then show w: "unat (w AND 0xF :: u16) \<le> 15" by (simp add: word_le_nat_alt)
  have "unat (age_seconds mant) * unat (w AND 0xF) \<le> 86400 * 15" by (rule mult_le_mono [OF a w])
  then show "unat ((age_seconds mant * ucast (w AND 0xF)) div 0xF) = unat (age_seconds mant) * unat (w AND 0xF) div 15"
    by (simp add: unat_div unat_word_ariths unat_ucast_up)
qed

lemma mac_query_spec:
  assumes M: "mac_engine hwstep tbl keep S brow Q" and s: "idle (hw_of s)" and ok: "mac_ok Q (maddr brow s)"
    and S: "0x452 \<in> S" and k: "mac_id (mq_nMAC q) (mq_nFId q) \<in> Q"
  obtains s' where "IFX_FLOW_MAC_TableEntryQuery hwstep q s = Some (IFX_SUCCESS,
      found_in (rd VR9_PCE_AGE_1_MANT s) (mac_map (maddr brow s) (mac_id (mq_nMAC q) (mq_nFId q))) q, s')"
    "mac_only tbl S s s'" "moved Q (maddr brow s) (maddr brow s')" "dev s' = dev s"
proof -
  obtain e s' where r: "row_key_read hwstep (set_mac_key (mac_words (mq_nMAC q) (mq_nFId q)) zero_entry) s = Some (e, s')"
    "mac_only tbl S s s'" "moved Q (maddr brow s) (maddr brow s')" "dev s' = dev s"
    "mac_id (mq_nMAC q) (mq_nFId q) \<in> Q \<Longrightarrow> (if e_valid e = 1 then Some (e_val e ! 0, e_val e ! 1 AND 1) else None)
      = mac_map (maddr brow s) (mac_id (mq_nMAC q) (mq_nFId q))"
    by (rule key_read_step [OF M s ok, where a = "mq_nMAC q" and f = "mq_nFId q"]) blast
  have a: "rd VR9_PCE_AGE_1_MANT s' = rd VR9_PCE_AGE_1_MANT s"
    by (rule mac_only_field [OF r(2)]) (simp_all add: S in_window_def)
  have "IFX_FLOW_MAC_TableEntryQuery hwstep q s = Some (IFX_SUCCESS,
      found_in (rd VR9_PCE_AGE_1_MANT s) (mac_map (maddr brow s) (mac_id (mq_nMAC q) (mq_nFId q))) q, s')"
    unfolding IFX_FLOW_MAC_TableEntryQuery_def r(5) [OF k, symmetric]
    by (simp add: r(1) found_in_def mac_attr_of a split: prod.split)
  then show thesis using that r(2-4) by blast
qed

subsection \<open>Removal\<close>

lemma word_halves:
  "ucast (drop_bit 8 w) = (a :: u8) \<and> ucast (w AND 0xFF) = (b :: u8) \<longleftrightarrow> (w :: u16) = push_bit 8 (ucast a) OR ucast b"
proof (intro iffI conjI; (elim conjE)?)
  assume "ucast (drop_bit 8 w) = a" "ucast (w AND 0xFF) = b"
  moreover have "w = push_bit 8 (ucast (ucast (drop_bit 8 w) :: u8)) OR ucast (ucast (w AND mask 8) :: u8)"
    by (rule bit_word_eqI) (auto simp: bit_simps)
  ultimately show "w = push_bit 8 (ucast a) OR ucast b" by (simp add: mask_eq_exp_minus_1)
next
  assume w: "w = push_bit 8 (ucast a) OR ucast b"
  show "ucast (drop_bit 8 w) = a" unfolding w by (rule bit_word_eqI) (auto simp: bit_simps dest: bit_imp_le_length)
  have "ucast (w AND mask 8) = b" unfolding w by (rule bit_word_eqI) (auto simp: bit_simps dest: bit_imp_le_length)
  then show "ucast (w AND 0xFF) = b" by (simp add: mask_eq_exp_minus_1)
qed

lemma fid_back:
  assumes "unat (f :: u32) < 64"
  shows "f = ucast (k AND 0x3F :: u16) \<longleftrightarrow> k AND 0x3F = ucast f AND 0x3F"
proof -
  have f: "ucast (ucast f AND mask 6 :: u16) = f"
  proof -
    have "take_bit 6 f = f" using assms by (simp add: take_bit_eq_mask and_mask_small)
    then have "f = f AND mask 6" by (simp add: take_bit_eq_mask)
    moreover have "ucast (ucast f AND mask 6 :: u16) = f AND mask 6"
      by (rule bit_word_eqI) (auto simp: bit_simps)
    ultimately show ?thesis by simp
  qed
  have m: "mask 6 = (0x3F :: u16)" by (simp add: mask_eq_exp_minus_1)
  show ?thesis
  proof
    assume "f = ucast (k AND 0x3F)"
    moreover have "ucast (ucast (k AND 0x3F) :: u32) AND 0x3F = k AND (0x3F :: u16)" by simp
    ultimately show "k AND 0x3F = ucast f AND 0x3F" by simp
  next
    assume "k AND 0x3F = ucast f AND 0x3F"
    with f show "f = ucast (k AND 0x3F)" by (simp add: m)
  qed
qed

lemma six_bytes: "length a = 6 \<Longrightarrow> a = [a ! 0, a ! 1, a ! 2, a ! 3, a ! 4, a ! 5]"
  by (rule nth_equalityI) (auto simp: less_Suc_eq numeral_eq_Suc)

lemma mac_match:
  assumes a: "length a = 6" and f: "unat f < 64"
  shows "mac_bytes k = take 6 a \<and> f = ucast (k ! 3 AND 0x3F) \<longleftrightarrow> [k ! 0, k ! 1, k ! 2, k ! 3 AND 0x3F] = mac_id a f"
proof -
  have "mac_bytes k = take 6 a \<longleftrightarrow> mac_bytes k = [a ! 0, a ! 1, a ! 2, a ! 3, a ! 4, a ! 5]"
    using six_bytes [OF a] a by simp
  also have "\<dots> \<longleftrightarrow> k ! 0 = mac_words a f ! 0 \<and> k ! 1 = mac_words a f ! 1 \<and> k ! 2 = mac_words a f ! 2"
    using word_halves [of "k ! 0" "a ! 4" "a ! 5"] word_halves [of "k ! 1" "a ! 2" "a ! 3"] word_halves [of "k ! 2" "a ! 0" "a ! 1"]
    by (auto simp: mac_bytes_def mac_words_def)
  finally show ?thesis using fid_back [OF f, of "k ! 3"] by (auto simp: mac_id_def mac_words_def)
qed

lemma remove_row_step:
  assumes M: "mac_engine hwstep tbl keep S brow Q" and s: "idle (hw_of s)" and ok: "mac_ok Q (maddr brow s)"
    and q: "length (md_nMAC q) = 6" "unat (md_nFId q) < 64" and i: "i < IFX_HW_MAC_TABLE_MAX"
    and K: "K = mac_id (md_nMAC q) (md_nFId q)"
  obtains s' where "\<And>is. mac_remove_rows hwstep q (i # is) s = mac_remove_rows hwstep q is s'" "mac_only tbl S s s'"
    "mac_ok Q (maddr brow s')" "dev s' = dev s"
    "\<And>k. k \<in> Q \<Longrightarrow> k \<noteq> K \<Longrightarrow> mac_map (maddr brow s') k = mac_map (maddr brow s) k"
    "K \<in> Q \<Longrightarrow> \<not> has_key K (maddr brow s' i)"
    "\<And>j. K \<in> Q \<Longrightarrow> \<not> has_key K (maddr brow s j) \<Longrightarrow> \<not> has_key K (maddr brow s' j)"
proof -
  let ?e = "zero_entry\<lparr>e_table := PCE_MAC_BRIDGE_INDEX, e_index := of_nat i\<rparr>"
  have e: "e_table ?e = 11" "unat (e_index ?e) = i" "entry_wf ?e" using i by (simp_all add: unat_of_nat_small)
  obtain h B where h: "ifx_ethsw_xwayflow_pce_table_read hwstep ?e (hw_of s) = Some (with_img (win h) ?e, h)" "idle h"
    "moved Q (maddr brow s) B" "win h = B i" "moved Q B (brow (priv h))" "driver_tbl tbl h = dtbl tbl s"
    "\<And>off. off \<in> S \<Longrightarrow> \<not> in_window off \<Longrightarrow> regs h off = regs (hw_of s) off"
    by (rule mac_engine.row_access [OF M s e(1,2) i]) blast
  let ?t = "upd_hw (\<lambda>_. h) s"
  have t: "mac_only tbl S s ?t" by (rule mac_only_hw [OF h(2,6,7)])
  have st: "moved Q (maddr brow s) (maddr brow ?t)" using moved_trans [OF h(3,5)] by simp
  have r: "row_read hwstep ?e s = Some (with_img (win h) ?e, ?t)" by (simp add: row_read_def h(1))
  have kl: "e_key (with_img (win h) ?e) ! n = i_key (B i) ! n" if "n < 9" for n
  proof -
    have "length (i_key (win h)) = 9" by (simp add: win_def read_keys_def)
    with that show ?thesis by (simp add: with_img_def nth_append flip: h(4))
  qed
  let ?m = "mac_bytes (e_key (with_img (win h) ?e)) = take 6 (md_nMAC q) \<and> md_nFId q = ucast (e_key (with_img (win h) ?e) ! 3 AND 0x3F)"
  have m: "?m \<longleftrightarrow> mac_key (B i) = K"
    unfolding mac_match [OF q] by (simp add: kl mac_key_def K)
  show thesis
  proof (cases "mac_key (B i) = K")
    case False
    then have nm: "\<not> ?m" using m by simp
    have n: "\<not> has_key K (B i)" using False by (simp add: has_key_def)
    show thesis
    proof (rule that [of ?t])
      show "mac_remove_rows hwstep q (i # is) s = mac_remove_rows hwstep q is ?t" for "is"
        unfolding mac_remove_rows.simps r using nm by (simp only: bind.bind_lunit prod.case if_False)
      show "mac_map (maddr brow ?t) k = mac_map (maddr brow s) k" if "k \<in> Q" "k \<noteq> K" for k
        by (rule moved_map [OF st that(1)])
      show "\<not> has_key K (maddr brow ?t i)" if "K \<in> Q" using n moved_has_key [OF h(5) that] by simp
      show "\<not> has_key K (maddr brow ?t j)" if "K \<in> Q" "\<not> has_key K (maddr brow s j)" for j
        using that moved_has_key [OF st that(1)] by simp
    qed (use t moved_ok [OF st ok] in auto)
  next
    case True
    then have mt: ?m using m by simp
    obtain h' B' where h': "ifx_ethsw_xwayflow_pce_table_write hwstep ?e h = Some h'" "idle h'"
      "moved Q (brow (priv h)) B'" "moved Q (B'(i := keep 11 (img_of ?e))) (brow (priv h'))"
      "driver_tbl tbl h' = driver_tbl tbl h"
      "\<And>off. off \<in> S \<Longrightarrow> \<not> in_window off \<Longrightarrow> regs h' off = regs h off"
      by (rule mac_engine.row_erase [OF M h(2) e(1,2) i e(3)]) blast
    let ?u = "upd_hw (\<lambda>_. h') ?t"
    have w: "row_write hwstep ?e ?t = Some ?u" by (simp add: row_write_def h'(1))
    have u: "mac_only tbl S ?t ?u" by (rule mac_only_hw) (use h' in simp_all)
    have z: "i_valid (keep 11 (img_of ?e)) \<noteq> 1"
      using mac_engine.mac_keep [OF M, of "img_of ?e"] by (simp add: img_of_def zero_entry_def)
    have bb: "moved Q B B'" by (rule moved_trans [OF h(5) h'(3)])
    have sb: "moved Q (maddr brow s) B'" by (rule moved_trans [OF h(3) bb])
    show thesis
    proof (rule that [of ?u])
      show "mac_remove_rows hwstep q (i # is) s = mac_remove_rows hwstep q is ?u" for "is"
        by (simp only: mac_remove_rows.simps r bind.bind_lunit prod.case if_P [OF mt] w)
      show "mac_only tbl S s ?u" by (rule mac_only_trans [OF t u])
      show "mac_ok Q (maddr brow ?u)"
        using moved_ok [OF h'(4) erased_ok [OF moved_ok [OF sb ok] z]] by simp
      show "mac_map (maddr brow ?u) k = mac_map (maddr brow s) k" if "k \<in> Q" "k \<noteq> K" for k
      proof -
        have "\<not> has_key k (B i)" using True that(2) by (auto simp: has_key_def)
        then have "\<not> has_key k (B' i)" using moved_has_key [OF bb that(1)] by simp
        then have "mac_map (B'(i := keep 11 (img_of ?e))) k = mac_map B' k" by (rule erased_other [OF _ z])
        then show ?thesis using moved_map [OF h'(4) that(1)] moved_map [OF sb that(1)] by simp
      qed
      show "\<not> has_key K (maddr brow ?u i)" if "K \<in> Q"
        using moved_has_key [OF h'(4) that, of i] z by (simp add: has_key_def)
      show "\<not> has_key K (maddr brow ?u j)" if "K \<in> Q" "\<not> has_key K (maddr brow s j)" for j
        using moved_has_key [OF h'(4) that(1), of j] moved_has_key [OF sb that(1), of j] that(2) z
        by (auto simp: has_key_def)
    qed simp
  qed
qed

lemma remove_rows_spec:
  assumes M: "mac_engine hwstep tbl keep S brow Q"
    and q: "length (md_nMAC q) = 6" "unat (md_nFId q) < 64" and K: "K = mac_id (md_nMAC q) (md_nFId q)"
  shows "idle (hw_of s) \<Longrightarrow> mac_ok Q (maddr brow s) \<Longrightarrow> \<forall>i\<in>set is. i < IFX_HW_MAC_TABLE_MAX \<Longrightarrow>
    \<exists>s'. mac_remove_rows hwstep q is s = Some s' \<and> mac_only tbl S s s' \<and> mac_ok Q (maddr brow s') \<and> dev s' = dev s \<and>
      (\<forall>k\<in>Q. k \<noteq> K \<longrightarrow> mac_map (maddr brow s') k = mac_map (maddr brow s) k) \<and>
      (K \<in> Q \<longrightarrow> (\<forall>i\<in>set is. \<not> has_key K (maddr brow s' i)) \<and>
        (\<forall>j. \<not> has_key K (maddr brow s j) \<longrightarrow> \<not> has_key K (maddr brow s' j)))"
proof (induction "is" arbitrary: s)
  case Nil then show ?case by (simp add: mac_only_refl)
next
  case (Cons i "is")
  then have i: "i < IFX_HW_MAC_TABLE_MAX" by simp
  obtain t where t: "\<And>is. mac_remove_rows hwstep q (i # is) s = mac_remove_rows hwstep q is t" "mac_only tbl S s t"
    "mac_ok Q (maddr brow t)" "dev t = dev s"
    "\<And>k. k \<in> Q \<Longrightarrow> k \<noteq> K \<Longrightarrow> mac_map (maddr brow t) k = mac_map (maddr brow s) k"
    "K \<in> Q \<Longrightarrow> \<not> has_key K (maddr brow t i)"
    "\<And>j. K \<in> Q \<Longrightarrow> \<not> has_key K (maddr brow s j) \<Longrightarrow> \<not> has_key K (maddr brow t j)"
    by (rule remove_row_step [OF M Cons.prems(1,2) q i K]) blast
  have it: "idle (hw_of t)" using t(2) by (simp add: mac_only_def)
  obtain s' where s': "mac_remove_rows hwstep q is t = Some s'" "mac_only tbl S t s'" "mac_ok Q (maddr brow s')"
    "dev s' = dev t" "\<forall>k\<in>Q. k \<noteq> K \<longrightarrow> mac_map (maddr brow s') k = mac_map (maddr brow t) k"
    "K \<in> Q \<longrightarrow> (\<forall>i\<in>set is. \<not> has_key K (maddr brow s' i)) \<and>
        (\<forall>j. \<not> has_key K (maddr brow t j) \<longrightarrow> \<not> has_key K (maddr brow s' j))"
    using Cons.IH [OF it t(3)] Cons.prems(3) by auto
  show ?case
    by (rule exI [of _ s']) (use s' t mac_only_trans [OF t(2) s'(2)] in auto)
qed

lemma mac_remove_spec:
  assumes M: "mac_engine hwstep tbl keep S brow Q" and s: "idle (hw_of s)" and ok: "mac_ok Q (maddr brow s)"
    and q: "length (md_nMAC q) = 6" "unat (md_nFId q) < 64" and z: "rd VR9_PCE_GCTRL_0_MTFL s = 0"
  obtains s' where "IFX_FLOW_MAC_TableEntryRemove hwstep q s = Some (IFX_SUCCESS, s')" "mac_only tbl S s s'"
    "mac_ok Q (maddr brow s')" "dev s' = dev s"
    "\<And>k. k \<in> Q \<Longrightarrow> mac_map (maddr brow s') k = (if k = mac_id (md_nMAC q) (md_nFId q) then None else mac_map (maddr brow s) k)"
proof -
  obtain s' where s': "mac_remove_rows hwstep q [0..<IFX_HW_MAC_TABLE_MAX] s = Some s'" "mac_only tbl S s s'"
    "mac_ok Q (maddr brow s')" "dev s' = dev s"
    "\<forall>k\<in>Q. k \<noteq> mac_id (md_nMAC q) (md_nFId q) \<longrightarrow> mac_map (maddr brow s') k = mac_map (maddr brow s) k"
    "mac_id (md_nMAC q) (md_nFId q) \<in> Q \<longrightarrow>
       (\<forall>i\<in>set [0..<IFX_HW_MAC_TABLE_MAX]. \<not> has_key (mac_id (md_nMAC q) (md_nFId q)) (maddr brow s' i))"
    using remove_rows_spec [OF M q refl s ok, of "[0..<IFX_HW_MAC_TABLE_MAX]"] by auto
  show thesis
  proof (rule that [OF _ s'(2-4)])
    show "IFX_FLOW_MAC_TableEntryRemove hwstep q s = Some (IFX_SUCCESS, s')"
      unfolding IFX_FLOW_MAC_TableEntryRemove_def if_P [OF z] s'(1) by simp
    show "mac_map (maddr brow s') k = (if k = mac_id (md_nMAC q) (md_nFId q) then None else mac_map (maddr brow s) k)"
      if "k \<in> Q" for k using s'(5,6) that by (auto simp: mac_map_None)
  qed
qed

subsection \<open>Reading the table\<close>

text \<open>The key words of an entry read, and the words and values it has in common with a row.\<close>

definition entry_id :: "pce_entry \<Rightarrow> u16 list" where
  "entry_id e = [e_key e ! 0, e_key e ! 1, e_key e ! 2, e_key e ! 3 AND 0x3F]"

definition reads_row :: "u16 list set \<Rightarrow> pce_entry \<Rightarrow> pce_img \<Rightarrow> bool" where
  "reads_row Q e m \<longleftrightarrow> (if e_valid e = 1 \<and> entry_id e \<in> Q
     then has_key (entry_id e) m \<and> mac_vals m = (e_val e ! 0, e_val e ! 1 AND 1) else \<not> quiet_row Q m)"

lemma quiet_has_key: "quiet_row Q m \<longleftrightarrow> (\<exists>k\<in>Q. has_key k m)"
  by (auto simp: quiet_row_def has_key_def)

lemma moved_quiet: "moved Q B B' \<Longrightarrow> quiet_row Q (B' i) = quiet_row Q (B i)"
  by (simp add: quiet_has_key moved_has_key)

lemma moved_reads_row: "moved Q B B' \<Longrightarrow> reads_row Q e (B' i) = reads_row Q e (B i)"
proof -
  assume m: "moved Q B B'"
  have "reads_row Q e m \<longleftrightarrow> \<not> (e_valid e = 1 \<and> entry_id e \<in> Q)" if "\<not> quiet_row Q m" for m
    using that by (auto simp: reads_row_def quiet_has_key)
  then show ?thesis using m unfolding moved_def by metis
qed

lemma one_bit_cases: "(v :: 1 word) \<noteq> 0 \<longleftrightarrow> v = 1"
proof -
  have "unat v < 2" using unsigned_less [of v] by simp
  then have "unat v = unat (0 :: 1 word) \<or> unat v = unat (1 :: 1 word)" by auto
  then have "v = 0 \<or> v = 1" by (simp only: word_unat_eq_iff)
  then show ?thesis by auto
qed

lemma row_read_mac:
  assumes M: "mac_engine hwstep tbl keep S brow Q" and s: "idle (hw_of s)" and i: "i < IFX_HW_MAC_TABLE_MAX"
    and e: "e_table e = 11"
  obtains e' s' where "row_read hwstep (e\<lparr>e_index := of_nat i\<rparr>) s = Some (e', s')" "e_table e' = 11"
    "mac_only tbl S s s'" "moved Q (maddr brow s) (maddr brow s')" "dev s' = dev s" "reads_row Q e' (maddr brow s i)"
proof -
  let ?e = "e\<lparr>e_index := of_nat i\<rparr>"
  have e: "e_table ?e = 11" "unat (e_index ?e) = i" using i e by (simp_all add: unat_of_nat_small)
  obtain h B where h: "ifx_ethsw_xwayflow_pce_table_read hwstep ?e (hw_of s) = Some (with_img (win h) ?e, h)" "idle h"
    "moved Q (maddr brow s) B" "win h = B i" "moved Q B (brow (priv h))" "driver_tbl tbl h = dtbl tbl s"
    "\<And>off. off \<in> S \<Longrightarrow> \<not> in_window off \<Longrightarrow> regs h off = regs (hw_of s) off"
    by (rule mac_engine.row_access [OF M s e i]) blast
  have l: "length (i_key (win h)) = 9" by (simp add: win_def read_keys_def)
  have k: "entry_id (with_img (win h) ?e) = mac_key (B i)"
    using l by (simp add: entry_id_def with_img_def nth_append mac_key_def flip: h(4))
  have v: "e_valid (with_img (win h) ?e) = i_valid (B i)" "e_val (with_img (win h) ?e) = i_val (B i)"
    by (simp_all add: with_img_def h(4))
  have "reads_row Q (with_img (win h) ?e) (B i)"
    unfolding reads_row_def k v by (simp add: has_key_def mac_vals_def quiet_row_def)
  then have "reads_row Q (with_img (win h) ?e) (maddr brow s i)" using moved_reads_row [OF h(3)] by simp
  then show thesis
    using that [of "with_img (win h) ?e" "upd_hw (\<lambda>_. h) s"] moved_trans [OF h(3,5)] mac_only_hw [OF h(2,6,7)] e(1)
    by (simp add: row_read_def h(1) with_img_def)
qed

lemma mac_scan_spec:
  assumes M: "mac_engine hwstep tbl keep S brow Q"
  shows "idle (hw_of s) \<Longrightarrow> i < IFX_HW_MAC_TABLE_MAX \<Longrightarrow> e_table e = 11 \<Longrightarrow>
    \<exists>e' j s'. mac_scan hwstep i e s = Some (e', j + 1, s') \<and> mac_only tbl S s s' \<and> moved Q (maddr brow s) (maddr brow s') \<and>
      dev s' = dev s \<and> i \<le> j \<and> j < IFX_HW_MAC_TABLE_MAX \<and> (\<forall>l. i \<le> l \<and> l < j \<longrightarrow> \<not> quiet_row Q (maddr brow s l)) \<and>
      reads_row Q e' (maddr brow s j) \<and> (e_valid e' \<noteq> 1 \<longrightarrow> j + 1 = IFX_HW_MAC_TABLE_MAX)"
proof (induction "IFX_HW_MAC_TABLE_MAX - i" arbitrary: i e s rule: less_induct)
  case less
  obtain e' t where t: "row_read hwstep (e\<lparr>e_index := of_nat i\<rparr>) s = Some (e', t)" "e_table e' = 11"
    "mac_only tbl S s t" "moved Q (maddr brow s) (maddr brow t)" "dev t = dev s" "reads_row Q e' (maddr brow s i)"
    by (rule row_read_mac [OF M less.prems])
  have b: "e_valid e' \<noteq> 0 \<longleftrightarrow> e_valid e' = 1" by (rule one_bit_cases)
  show ?case
  proof (cases "e_valid e' \<noteq> 0 \<or> \<not> i + 1 < IFX_HW_MAC_TABLE_MAX")
    case True
    have "mac_scan hwstep i e s = Some (e', i + 1, t)"
      by (subst mac_scan.simps) (simp only: t(1) option.case prod.case if_P [OF True])
    then show ?thesis using t True less.prems(2) b by (intro exI [of _ e'] exI [of _ i] exI [of _ t]) auto
  next
    case False
    have r: "mac_scan hwstep i e s = mac_scan hwstep (i + 1) e' t"
      by (subst mac_scan.simps) (simp only: t(1) option.case prod.case if_not_P [OF False])
    have it: "idle (hw_of t)" using t(3) by (simp add: mac_only_def)
    have lt: "IFX_HW_MAC_TABLE_MAX - (i + 1) < IFX_HW_MAC_TABLE_MAX - i" "i + 1 < IFX_HW_MAC_TABLE_MAX"
      using less.prems(2) False by auto
    obtain e2 j s' where u: "mac_scan hwstep (i + 1) e' t = Some (e2, j + 1, s')" "mac_only tbl S t s'"
      "moved Q (maddr brow t) (maddr brow s')" "dev s' = dev t" "i + 1 \<le> j" "j < IFX_HW_MAC_TABLE_MAX"
      "\<forall>l. i + 1 \<le> l \<and> l < j \<longrightarrow> \<not> quiet_row Q (maddr brow t l)" "reads_row Q e2 (maddr brow t j)"
      "e_valid e2 \<noteq> 1 \<longrightarrow> j + 1 = IFX_HW_MAC_TABLE_MAX"
      using less.hyps [OF lt(1) it lt(2) t(2)] by blast
    have "\<not> quiet_row Q (maddr brow s i)" using t(6) False by (simp add: reads_row_def)
    then have "\<not> quiet_row Q (maddr brow s l)" if "i \<le> l" "l < j" for l
      using that u(7) moved_quiet [OF t(4), of l] by (cases "l = i") auto
    moreover have "reads_row Q e2 (maddr brow s j)" using u(8) moved_reads_row [OF t(4)] by simp
    ultimately show ?thesis
      using r u t(5) mac_only_trans [OF t(3) u(2)] moved_trans [OF t(4) u(3)]
      by (intro exI [of _ e2] exI [of _ j] exI [of _ s']) auto
  qed
qed

text \<open>What a caller sees of a row.\<close>

definition read_id :: "IFX_ETHSW_MAC_tableRead \<Rightarrow> u16 list" where
  "read_id q = mac_id (mr_nMAC q) (mr_nFId q)"

definition read_attr :: "IFX_ETHSW_MAC_tableRead \<Rightarrow> u32 \<times> u32 \<times> u32" where
  "read_attr q = (mr_bStaticEntry q, mr_nAgeTimer q, mr_nPortId q)"

lemma mac_id_bytes: "mac_id (mac_bytes k) (ucast (k ! 3 AND 0x3F)) = [k ! 0, k ! 1, k ! 2, k ! 3 AND 0x3F]"
proof -
  have "ucast (k ! 3 AND mask 6) = (ucast (k ! 3) AND mask 6 :: u32)" by (rule bit_word_eqI) (auto simp: bit_simps)
  then have "unat (ucast (k ! 3 AND 0x3F) :: u32) < 64"
    using and_mask_less' [of 6 "ucast (k ! 3) :: u32"] by (simp add: mask_eq_exp_minus_1 word_less_nat_alt)
  from mac_match [OF _ this, of "mac_bytes k" k] show ?thesis by (simp add: mac_bytes_def)
qed

definition reports :: "u16 list set \<Rightarrow> u32 \<Rightarrow> IFX_ETHSW_MAC_tableRead \<Rightarrow> pce_img \<Rightarrow> bool" where
  "reports Q mant q m \<longleftrightarrow> (if read_id q \<in> Q then has_key (read_id q) m \<and> read_attr q = attr_of mant (mac_vals m)
     else \<not> quiet_row Q m)"

lemma mac_read_spec:
  assumes M: "mac_engine hwstep tbl keep S brow Q" and s: "idle (hw_of s)" and S: "0x452 \<in> S"
    and a: "a = (if mr_bInitial q = 1 then 0 else unat (mac_table_index (dev s)))" "a < IFX_HW_MAC_TABLE_MAX"
  obtains (row) j q' s' where "IFX_FLOW_MAC_TableEntryRead hwstep g q s = Some (IFX_SUCCESS, q', s')"
      "mr_bLast q' = 0" "mr_bInitial q' = 0" "mac_only tbl S s s'" "moved Q (maddr brow s) (maddr brow s')"
      "a \<le> j" "j < IFX_HW_MAC_TABLE_MAX" "unat (mac_table_index (dev s')) = j + 1"
      "\<forall>l. a \<le> l \<and> l < j \<longrightarrow> \<not> quiet_row Q (maddr brow s l)" "reports Q (rd VR9_PCE_AGE_1_MANT s) q' (maddr brow s j)"
  | (last) s' where "IFX_FLOW_MAC_TableEntryRead hwstep g q s
        = Some (IFX_SUCCESS, zero_MAC_tableRead\<lparr>mr_bLast := 1\<rparr>, s')" "mac_only tbl S s s'"
      "moved Q (maddr brow s) (maddr brow s')" "\<forall>l. a \<le> l \<and> l < IFX_HW_MAC_TABLE_MAX \<longrightarrow> \<not> quiet_row Q (maddr brow s l)"
proof -
  define s0 where "s0 = (if mr_bInitial q = 1 then upd_dev (\<lambda>d. d\<lparr>mac_table_index := 0\<rparr>) s else s)"
  have s0: "hw_of s0 = hw_of s" "pce s0 = pce s" "unat (mac_table_index (dev s0)) = a" "mac_only tbl S s s0"
    using s mac_only_pos [OF mac_only_refl [OF s], of tbl S 0] mac_only_refl [OF s, of tbl S]
    by (simp_all add: s0_def a(1))
  obtain e j t where t: "mac_scan hwstep a (g\<lparr>e_table := 11\<rparr>) s0 = Some (e, j + 1, t)" "mac_only tbl S s0 t"
    "moved Q (maddr brow s0) (maddr brow t)" "dev t = dev s0" "a \<le> j" "j < IFX_HW_MAC_TABLE_MAX"
    "\<forall>l. a \<le> l \<and> l < j \<longrightarrow> \<not> quiet_row Q (maddr brow s0 l)" "reads_row Q e (maddr brow s0 j)"
    "e_valid e \<noteq> 1 \<longrightarrow> j + 1 = IFX_HW_MAC_TABLE_MAX"
    using mac_scan_spec [OF M, of s0 a "g\<lparr>e_table := 11\<rparr>"] s a(2) by (auto simp: s0(1))
  let ?u = "upd_dev (\<lambda>d. d\<lparr>mac_table_index := of_nat (j + 1)\<rparr>) t"
  have u: "mac_only tbl S s ?u" by (rule mac_only_pos [OF mac_only_trans [OF s0(4) t(2)]])
  have ix: "unat (mac_table_index (dev ?u)) = j + 1"
    using t(6) unat_of_nat_small [of "j + 1", where 'a = 16] by simp
  have m: "moved Q (maddr brow s) (maddr brow ?u)" using t(3) by (simp add: s0)
  have age: "rd VR9_PCE_AGE_1_MANT ?u = rd VR9_PCE_AGE_1_MANT s"
    by (rule mac_only_field [OF u]) (simp_all add: S in_window_def)
  then have age': "rd VR9_PCE_AGE_1_MANT t = rd VR9_PCE_AGE_1_MANT s" by simp
  have na: "\<not> IFX_HW_MAC_TABLE_MAX \<le> a" using a(2) by simp
  note run = IFX_FLOW_MAC_TableEntryRead_def [of hwstep g q s, folded s0_def, unfolded Let_def s0(3) if_not_P [OF na] t(1)]
  show thesis
  proof (cases "e_valid e = 1")
    case True
    let ?q = "q\<lparr>mr_nFId := ucast (e_key e ! 3 AND 0x3F), mr_bStaticEntry := fst (mac_attr e ?u),
       mr_nAgeTimer := fst (snd (mac_attr e ?u)), mr_nPortId := snd (snd (mac_attr e ?u)),
       mr_nMAC := mac_bytes (e_key e), mr_bInitial := 0, mr_bLast := 0\<rparr>"
    have id: "read_id ?q = entry_id e" by (simp add: read_id_def entry_id_def mac_id_bytes)
    have "reports Q (rd VR9_PCE_AGE_1_MANT s) ?q (maddr brow s j)"
      using t(8) True unfolding reports_def id reads_row_def
      by (simp add: s0 mac_attr_of age' read_attr_def split: if_splits)
    moreover have "IFX_FLOW_MAC_TableEntryRead hwstep g q s = Some (IFX_SUCCESS, ?q, ?u)"
      using run True by (simp split: prod.split)
    ultimately show thesis
      by (intro row [of ?q ?u j]) (use u m t(5-7) ix in \<open>simp_all add: s0\<close>)
  next
    case False
    have "\<not> quiet_row Q (maddr brow s l)" if "a \<le> l" "l < IFX_HW_MAC_TABLE_MAX" for l
    proof (cases "l = j")
      case True then show ?thesis using t(8) False by (simp add: reads_row_def s0)
    next
      case False': False
      then have "l < j" using t(9) False that(2) by simp
      then show ?thesis using t(7) that(1) by (simp add: s0)
    qed
    then show thesis using run False u m by (intro last [of ?u]) auto
  qed
qed

lemma mac_read_end:
  assumes "mr_bInitial q \<noteq> 1" "unat (mac_table_index (dev s)) \<ge> IFX_HW_MAC_TABLE_MAX"
  shows "IFX_FLOW_MAC_TableEntryRead hwstep g q s = Some (IFX_SUCCESS, zero_MAC_tableRead\<lparr>mr_bLast := 1\<rparr>,
     upd_dev (\<lambda>d. d\<lparr>mac_table_index := 0\<rparr>) s)"
  using assms by (simp add: IFX_FLOW_MAC_TableEntryRead_def)

text \<open>
  The loop of a caller, as \<^verbatim>\<open>ifx_ethsw.h\<close> documents it: calls until \<open>bLast\<close>, at most \<open>n\<close> of them;
  \<open>None\<close> when \<open>n\<close> calls are not enough.
\<close>

fun mac_dump :: "('p hw \<Rightarrow> 'p hw) \<Rightarrow> pce_entry \<Rightarrow> nat \<Rightarrow> IFX_ETHSW_MAC_tableRead \<Rightarrow> 'p core \<Rightarrow>
    (IFX_ETHSW_MAC_tableRead list \<times> 'p core) option" where
  "mac_dump hwstep g 0 q s = None"
| "mac_dump hwstep g (Suc n) q s = do {
     (_, q, s) \<leftarrow> IFX_FLOW_MAC_TableEntryRead hwstep g q s;
     if mr_bLast q = IFX_TRUE then Some ([], s)
     else map_option (\<lambda>(L, s). (q # L, s)) (mac_dump hwstep g n q s) }"

definition dumped :: "u16 list set \<Rightarrow> u32 \<Rightarrow> (nat \<Rightarrow> pce_img) \<Rightarrow> nat \<Rightarrow> IFX_ETHSW_MAC_tableRead list \<Rightarrow> bool" where
  "dumped Q mant B a L \<longleftrightarrow> (\<forall>k\<in>Q. map read_attr (filter (\<lambda>r. read_id r = k) L) =
     map (\<lambda>i. attr_of mant (mac_vals (B i))) (filter (\<lambda>i. has_key k (B i)) [a..<IFX_HW_MAC_TABLE_MAX]))"

lemma dumped_nil: "\<forall>l. a \<le> l \<and> l < IFX_HW_MAC_TABLE_MAX \<longrightarrow> \<not> quiet_row Q (B l) \<Longrightarrow> dumped Q mant B a []"
  by (auto simp: dumped_def quiet_has_key filter_empty_conv)

lemma dumped_cons:
  assumes L: "dumped Q mant B (j + 1) L" and r: "reports Q mant q (B j)" and j: "a \<le> j" "j < IFX_HW_MAC_TABLE_MAX"
    and n: "\<forall>l. a \<le> l \<and> l < j \<longrightarrow> \<not> quiet_row Q (B l)"
  shows "dumped Q mant B a (q # L)"
  unfolding dumped_def
proof
  fix k assume k: "k \<in> Q"
  have u: "[a..<IFX_HW_MAC_TABLE_MAX] = [a..<j] @ j # [j + 1..<IFX_HW_MAC_TABLE_MAX]"
  proof -
    have "[a..<IFX_HW_MAC_TABLE_MAX] = [a..<j] @ [j..<IFX_HW_MAC_TABLE_MAX]"
      using upt_add_eq_append [of a j "IFX_HW_MAC_TABLE_MAX - j"] j by simp
    then show ?thesis using upt_rec [of j IFX_HW_MAC_TABLE_MAX] j(2) by (simp only: if_True Suc_eq_plus1)
  qed
  have e: "filter (\<lambda>i. has_key k (B i)) [a..<j] = []"
    using n k by (auto simp: filter_empty_conv quiet_has_key)
  have h: "map read_attr (filter (\<lambda>r. read_id r = k) [q]) = map (\<lambda>i. attr_of mant (mac_vals (B i))) (filter (\<lambda>i. has_key k (B i)) [j])"
    using r k unfolding reports_def by (auto simp: quiet_has_key has_key_def split: if_splits)
  show "map read_attr (filter (\<lambda>r. read_id r = k) (q # L)) =
    map (\<lambda>i. attr_of mant (mac_vals (B i))) (filter (\<lambda>i. has_key k (B i)) [a..<IFX_HW_MAC_TABLE_MAX])"
    using bspec [OF L [unfolded dumped_def] k] h by (simp only: u filter_append e append_Nil filter.simps map_append split: if_splits) auto
qed

lemma dumped_cong:
  assumes "moved Q B B'" shows "dumped Q mant B' a L = dumped Q mant B a L"
proof -
  have "map (\<lambda>i. attr_of mant (mac_vals (B' i))) (filter (\<lambda>i. has_key k (B' i)) xs) =
    map (\<lambda>i. attr_of mant (mac_vals (B i))) (filter (\<lambda>i. has_key k (B i)) xs)" if "k \<in> Q" for k xs
    using moved_has_key [OF assms that] moved_row [OF assms that] by (induction xs) simp_all
  then show ?thesis by (simp add: dumped_def)
qed

lemma mac_dump_spec:
  assumes M: "mac_engine hwstep tbl keep S brow Q" and S: "0x452 \<in> S"
  shows "idle (hw_of s) \<Longrightarrow> a = (if mr_bInitial q = 1 then 0 else unat (mac_table_index (dev s))) \<Longrightarrow>
    a \<le> IFX_HW_MAC_TABLE_MAX \<Longrightarrow> IFX_HW_MAC_TABLE_MAX - a < n \<Longrightarrow>
    \<exists>L s'. mac_dump hwstep g n q s = Some (L, s') \<and> mac_only tbl S s s' \<and> moved Q (maddr brow s) (maddr brow s') \<and>
      dumped Q (rd VR9_PCE_AGE_1_MANT s) (maddr brow s) a L"
proof (induction n arbitrary: q s a)
  case (Suc n)
  note idle_s = Suc.prems(1) and a = Suc.prems(2)
  show ?case
  proof (cases "a < IFX_HW_MAC_TABLE_MAX")
    case False
    then have q: "mr_bInitial q \<noteq> 1" "unat (mac_table_index (dev s)) \<ge> IFX_HW_MAC_TABLE_MAX" using a by (auto split: if_splits)
    have "mac_dump hwstep g (Suc n) q s = Some ([], upd_dev (\<lambda>d. d\<lparr>mac_table_index := 0\<rparr>) s)"
      by (simp add: mac_read_end [OF q])
    moreover have "dumped Q (rd VR9_PCE_AGE_1_MANT s) (maddr brow s) a []" using False by (intro dumped_nil) auto
    ultimately show ?thesis
      using mac_only_pos [OF mac_only_refl [OF idle_s], of tbl S 0]
      by (intro exI [of _ "[]"] exI [of _ "upd_dev (\<lambda>d. d\<lparr>mac_table_index := 0\<rparr>) s"]) simp
  next
    case True
    show ?thesis
    proof (rule mac_read_spec [OF M idle_s S a True, of g])
      fix s' assume l: "IFX_FLOW_MAC_TableEntryRead hwstep g q s = Some (IFX_SUCCESS, zero_MAC_tableRead\<lparr>mr_bLast := 1\<rparr>, s')"
        "mac_only tbl S s s'" "moved Q (maddr brow s) (maddr brow s')"
        "\<forall>l. a \<le> l \<and> l < IFX_HW_MAC_TABLE_MAX \<longrightarrow> \<not> quiet_row Q (maddr brow s l)"
      show ?thesis
        by (rule exI [of _ "[]"], rule exI [of _ s']) (use l dumped_nil [OF l(4)] in simp)
    next
      fix j q' t assume r: "IFX_FLOW_MAC_TableEntryRead hwstep g q s = Some (IFX_SUCCESS, q', t)"
        "mr_bLast q' = 0" "mr_bInitial q' = 0" "mac_only tbl S s t" "moved Q (maddr brow s) (maddr brow t)"
        "a \<le> j" "j < IFX_HW_MAC_TABLE_MAX" "unat (mac_table_index (dev t)) = j + 1"
        "\<forall>l. a \<le> l \<and> l < j \<longrightarrow> \<not> quiet_row Q (maddr brow s l)" "reports Q (rd VR9_PCE_AGE_1_MANT s) q' (maddr brow s j)"
      have it: "idle (hw_of t)" using r(4) by (simp add: mac_only_def)
      have p: "j + 1 = (if mr_bInitial q' = 1 then 0 else unat (mac_table_index (dev t)))" "j + 1 \<le> IFX_HW_MAC_TABLE_MAX"
        "IFX_HW_MAC_TABLE_MAX - (j + 1) < n"
        using r(3,6-8) Suc.prems(4) True by auto
      have age: "rd VR9_PCE_AGE_1_MANT t = rd VR9_PCE_AGE_1_MANT s"
        by (rule mac_only_field [OF r(4)]) (simp_all add: S in_window_def)
      obtain L s' where L: "mac_dump hwstep g n q' t = Some (L, s')" "mac_only tbl S t s'" "moved Q (maddr brow t) (maddr brow s')"
        "dumped Q (rd VR9_PCE_AGE_1_MANT s) (maddr brow t) (j + 1) L"
        using Suc.IH [OF it p] unfolding age by blast
      have "mac_dump hwstep g (Suc n) q s = Some (q' # L, s')" by (simp add: r(1,2) L(1))
      moreover have "dumped Q (rd VR9_PCE_AGE_1_MANT s) (maddr brow s) a (q' # L)"
        by (rule dumped_cons [OF _ r(10,6,7,9)]) (use L(4) dumped_cong [OF r(5)] in simp)
      ultimately show ?thesis using mac_only_trans [OF r(4) L(2)] moved_trans [OF r(5) L(3)] by blast
    qed
  qed
qed simp

lemma filter_unique:
  "distinct xs \<Longrightarrow> (\<And>i j. i \<in> set xs \<Longrightarrow> j \<in> set xs \<Longrightarrow> P i \<Longrightarrow> P j \<Longrightarrow> i = j) \<Longrightarrow>
   filter P xs = (case find P xs of None \<Rightarrow> [] | Some i \<Rightarrow> [i])"
proof (induction xs)
  case (Cons x xs)
  show ?case
  proof (cases "P x")
    case True
    then have "filter P xs = []" using Cons.prems by (auto simp: filter_empty_conv)
    then show ?thesis using True by simp
  next
    case False
    have "filter P xs = (case find P xs of None \<Rightarrow> [] | Some i \<Rightarrow> [i])"
      using Cons.prems by (intro Cons.IH) auto
    then show ?thesis using False by simp
  qed
qed simp

text \<open>Every address of \<open>Q\<close> in the table is reported, once and with its attributes, and no other one of \<open>Q\<close>.\<close>

lemma dumped_all:
  assumes d: "dumped Q mant B 0 L" and ok: "mac_ok Q B" and k: "k \<in> Q"
  shows "map read_attr (filter (\<lambda>r. read_id r = k) L) = (case mac_map B k of None \<Rightarrow> [] | Some v \<Rightarrow> [attr_of mant v])"
proof -
  have "filter (\<lambda>i. has_key k (B i)) [0..<IFX_HW_MAC_TABLE_MAX]
      = (case find (\<lambda>i. has_key k (B i)) [0..<IFX_HW_MAC_TABLE_MAX] of None \<Rightarrow> [] | Some i \<Rightarrow> [i])"
  proof (rule filter_unique)
    fix i j assume "i \<in> set [0..<IFX_HW_MAC_TABLE_MAX]" "j \<in> set [0..<IFX_HW_MAC_TABLE_MAX]" "has_key k (B i)" "has_key k (B j)"
    then show "i = j" using ok k unfolding mac_ok_def has_key_def quiet_row_def by auto
  qed simp
  then show ?thesis
    using bspec [OF d [unfolded dumped_def] k] by (simp add: mac_map_def split: option.splits)
qed

section \<open>Adding and asking\<close>

lemma mac_add_lookup:
  assumes M: "mac_engine hwstep tbl keep S brow Q" and I: "core_inv tbl keep s" and ok: "mac_ok Q (maddr brow s)"
    and g: "entry_wf g" and S: "0x452 \<in> S" and p: "ma_nPortId q < ucast (nTotalPortNumber (dev s)) \<or> ma_nPortId q AND 0x80000000 \<noteq> 0"
    and k: "mac_id (ma_nMAC q) (ma_nFId q) \<in> Q" and r: "mq_nMAC r = ma_nMAC q" "mq_nFId r = ma_nFId q"
  obtains s' s'' v where "IFX_FLOW_MAC_TableEntryAdd hwstep g q s = Some (IFX_SUCCESS, s')"
    "IFX_FLOW_MAC_TableEntryQuery hwstep r s' = Some (IFX_SUCCESS, found_in (rd VR9_PCE_AGE_1_MANT s) v r, s'')"
    "core_inv tbl keep s''" "mac_ok Q (maddr brow s'')"
    "v = Some (mac_vals (img_of (mac_add_entry g q))) \<or>
      v = None \<and> mac_map (maddr brow s) (mac_id (ma_nMAC q) (ma_nFId q)) = None \<and> (\<exists>B. moved Q (maddr brow s) B \<and> mac_full B)"
    "\<forall>k\<in>Q. k \<noteq> mac_id (ma_nMAC q) (ma_nFId q) \<longrightarrow> mac_map (maddr brow s'') k = mac_map (maddr brow s) k"
proof (rule mac_add_spec [OF M core_inv_simps(1) [OF I] ok g p])
  fix s'
  let ?k = "mac_id (ma_nMAC q) (ma_nFId q)"
  assume s': "IFX_FLOW_MAC_TableEntryAdd hwstep g q s = Some (IFX_SUCCESS, s')" "mac_only tbl S s s'" "mac_ok Q (maddr brow s')"
    and others: "\<And>k. k \<in> Q \<Longrightarrow> k \<noteq> ?k \<Longrightarrow> mac_map (maddr brow s') k = mac_map (maddr brow s) k"
    and this_one: "?k \<in> Q \<Longrightarrow> mac_map (maddr brow s') ?k = Some (mac_vals (img_of (mac_add_entry g q))) \<or>
       mac_map (maddr brow s) ?k = None \<and> mac_map (maddr brow s') ?k = None \<and> (\<exists>B. moved Q (maddr brow s) B \<and> mac_full B)"
  have I': "core_inv tbl keep s'" by (rule mac_only_inv [OF s'(2) I])
  have m: "rd VR9_PCE_AGE_1_MANT s' = rd VR9_PCE_AGE_1_MANT s"
    by (rule mac_only_field [OF s'(2)]) (use S in \<open>simp_all add: in_window_def\<close>)
  from k have kr: "mac_id (mq_nMAC r) (mq_nFId r) \<in> Q" by (simp add: r)
  obtain s'' where s'': "IFX_FLOW_MAC_TableEntryQuery hwstep r s' = Some (IFX_SUCCESS,
      found_in (rd VR9_PCE_AGE_1_MANT s') (mac_map (maddr brow s') (mac_id (mq_nMAC r) (mq_nFId r))) r, s'')"
    "mac_only tbl S s' s''" "moved Q (maddr brow s') (maddr brow s'')"
    by (rule mac_query_spec [OF M core_inv_simps(1) [OF I'] s'(3) S kr])
  show thesis
  proof (rule that [OF s'(1)])
    show "IFX_FLOW_MAC_TableEntryQuery hwstep r s' = Some (IFX_SUCCESS,
        found_in (rd VR9_PCE_AGE_1_MANT s) (mac_map (maddr brow s') ?k) r, s'')" using s''(1) by (simp add: m r)
    show "core_inv tbl keep s''" by (rule mac_only_inv [OF s''(2) I'])
    show "mac_ok Q (maddr brow s'')" by (rule moved_ok [OF s''(3) s'(3)])
    show "mac_map (maddr brow s') ?k = Some (mac_vals (img_of (mac_add_entry g q))) \<or>
      mac_map (maddr brow s') ?k = None \<and> mac_map (maddr brow s) ?k = None \<and> (\<exists>B. moved Q (maddr brow s) B \<and> mac_full B)"
      using this_one k by blast
    show "\<forall>k\<in>Q. k \<noteq> ?k \<longrightarrow> mac_map (maddr brow s'') k = mac_map (maddr brow s) k"
      using others moved_map [OF s''(3)] by simp
  qed
qed

lemma static_vals:
  assumes "entry_wf g" "ma_bStaticEntry q \<noteq> 0" "ma_nPortId q AND 0x80000000 = 0"
  shows "mac_vals (img_of (mac_add_entry g q)) = (push_bit (unat (ma_nPortId q)) 1, 1)"
proof -
  have "(ucast (push_bit n (1 :: u32)) :: u16) = push_bit n 1" for n by (rule bit_word_eqI) (auto simp: bit_simps)
  then show ?thesis using assms
    by (simp add: mac_vals_def img_of_def mac_add_entry_def Let_def entry_wf_def set_mac_key_def)
qed

lemma dynamic_vals:
  assumes "entry_wf g" "ma_bStaticEntry q = 0"
  shows "mac_vals (img_of (mac_add_entry g q)) =
    (ucast (push_bit 4 (ma_nPortId q AND 0xF) OR (ma_nAgeTimer q AND 0xF)), e_val g ! 1 AND 1)"
  using assms by (simp add: mac_vals_def img_of_def mac_add_entry_def Let_def entry_wf_def set_mac_key_def)

lemma small_port: "dev_ok d \<Longrightarrow> p < ucast (nTotalPortNumber d) \<Longrightarrow> (p :: u32) AND 0x80000000 = 0"
proof -
  assume "dev_ok d" "p < ucast (nTotalPortNumber d)"
  then have p: "unat p < 12" by (simp add: dev_ok_def word_less_nat_alt)
  have "unat p < 2 ^ 31" using p by simp
  then have "\<not> bit (unat p) 31" by (simp add: bit_iff_odd)
  then have "\<not> bit p 31" by (simp add: bit_unsigned_iff)
  then have "p AND push_bit 31 1 = 0"
    by (intro bit_word_eqI) (auto simp only: bit_simps bit_0_eq bot_fun_def bot_bool_def dest: le_antisym)
  then show ?thesis by simp
qed

lemma low_bit_cases: "(v :: u16) AND 1 = 0 \<or> v AND 1 = 1"
  by (cases "even v") (simp_all add: and_one_eq even_iff_mod_2_eq_zero odd_iff_mod_2_eq_one)

section \<open>A device that learns\<close>

text \<open>
  A device with the tables as full rows that executes an access at the next turn. At each turn it
  also learns the next address of its traffic, all of it in filtering identifier 0.
\<close>

record mac_priv =
  m_rows :: "nat \<Rightarrow> nat \<Rightarrow> pce_img"
  m_traffic :: "pce_img list"

definition fid_not_0 :: "u16 list set" where
  "fid_not_0 = {k. k ! 3 \<noteq> 0}"

definition mac_place :: "(nat \<Rightarrow> pce_img) \<Rightarrow> pce_img \<Rightarrow> nat \<Rightarrow> pce_img" where
  "mac_place B m = (case find (\<lambda>i. has_key (mac_key m) (B i)) [0..<IFX_HW_MAC_TABLE_MAX] of
      Some i \<Rightarrow> B(i := m)
    | None \<Rightarrow> (case find (\<lambda>i. i_valid (B i) \<noteq> 1) [0..<IFX_HW_MAC_TABLE_MAX] of
        Some i \<Rightarrow> B(i := m) | None \<Rightarrow> B))"

definition as_learned :: "pce_img \<Rightarrow> pce_img" where
  "as_learned m = m\<lparr>i_key := [i_key m ! 0, i_key m ! 1, i_key m ! 2, 0, 0, 0, 0, 0, 0], i_valid := 1\<rparr>"

definition mac_learn :: "mac_priv hw \<Rightarrow> mac_priv hw" where
  "mac_learn h = (case m_traffic (priv h) of [] \<Rightarrow> h
     | m # ms \<Rightarrow> h\<lparr>priv := (priv h)\<lparr>m_rows := (m_rows (priv h))(11 := mac_place (m_rows (priv h) 11) (as_learned m)),
         m_traffic := ms\<rparr>\<rparr>)"

definition mac_exec :: "mac_priv hw \<Rightarrow> mac_priv hw" where
  "mac_exec h = (let p = priv h; B = m_rows p 11; t = cmd_tbl h in
     if cmd_op h = 1 then h\<lparr>priv := p\<lparr>m_rows := set_row (m_rows p) t (cmd_idx h) (win h)\<rparr>\<rparr>
     else if cmd_op h = 0 then load_img (m_rows p t (cmd_idx h)) h
     else if t \<noteq> 11 then h
     else if cmd_op h = 3 then h\<lparr>priv := p\<lparr>m_rows := (m_rows p)(11 := mac_place B (win h))\<rparr>\<rparr>
     else (case find (\<lambda>i. has_key (mac_key (win h)) (B i)) [0..<IFX_HW_MAC_TABLE_MAX] of
         Some i \<Rightarrow> load_img (B i) h | None \<Rightarrow> wrf TBL_CTRL_VLD 0 h))"

definition learning_step :: "mac_priv hw \<Rightarrow> mac_priv hw" where
  "learning_step h = (if idle h then h else wrf TBL_CTRL_BAS 0 (mac_exec (mac_learn h)))"

definition learning_tbl :: "mac_priv \<Rightarrow> nat \<Rightarrow> nat \<Rightarrow> pce_img" where
  "learning_tbl p t i = norm_img (m_rows p t i)"

abbreviation learning_rows :: "mac_priv \<Rightarrow> nat \<Rightarrow> pce_img" where
  "learning_rows p \<equiv> learning_tbl p 11"

lemma mac_place_stored: "mac_stored m B (mac_place B m)"
  unfolding mac_stored_def mac_place_def
  by (auto simp: find_upt_None find_upt_Some split: option.split)

lemma norm_img_simps [simp]: "mac_key (norm_img m) = mac_key m" "i_valid (norm_img m) = i_valid m"
  "has_key k (norm_img m) = has_key k m" "quiet_row R (norm_img m) = quiet_row R m"
  by (simp_all add: norm_img_def mac_key_def has_key_def quiet_row_def)

lemma stored_norm:
  assumes "mac_stored m B B'" "norm_img m = m"
  shows "mac_stored m (\<lambda>i. norm_img (B i)) (\<lambda>i. norm_img (B' i))"
proof -
  have "(\<lambda>i. norm_img ((B(j := m)) i)) = (\<lambda>i. norm_img (B i))(j := m)" for j using assms(2) by auto
  then show ?thesis using assms(1) unfolding mac_stored_def by auto
qed

lemma learned_moved: "moved fid_not_0 B (mac_place B (as_learned m))"
proof -
  have n: "\<not> quiet_row fid_not_0 (as_learned m)"
    by (simp add: quiet_row_def fid_not_0_def mac_key_def as_learned_def)
  have "\<not> quiet_row fid_not_0 x" if "has_key (mac_key (as_learned m)) x" for x
    using that by (simp add: has_key_def quiet_row_def fid_not_0_def mac_key_def as_learned_def)
  moreover have "\<not> quiet_row fid_not_0 x" if "i_valid x \<noteq> 1" for x using that by (simp add: quiet_row_def)
  ultimately show ?thesis using n
    by (auto simp: mac_place_def moved_def find_upt_Some split: option.split)
qed

lemma moved_norm: "moved R B B' \<Longrightarrow> moved R (\<lambda>i. norm_img (B i)) (\<lambda>i. norm_img (B' i))"
  by (simp add: moved_def) metis

lemma mac_learn_simps [simp]:
  "regs (mac_learn h) = regs h" "t \<noteq> 11 \<Longrightarrow> m_rows (priv (mac_learn h)) t = m_rows (priv h) t"
  "moved fid_not_0 (m_rows (priv h) 11) (m_rows (priv (mac_learn h)) 11)"
  by (auto simp: mac_learn_def learned_moved split: list.split)

lemma rdf_same_regs: "regs h = regs h' \<Longrightarrow> rdf F h = rdf F h'"
  by (cases F) (simp add: rdf.simps read_fld_get)

lemma mac_learn_window [simp]:
  "rdf F (mac_learn h) = rdf F h" "win (mac_learn h) = win h" "cmd_op (mac_learn h) = cmd_op h"
  "cmd_tbl (mac_learn h) = cmd_tbl h" "cmd_idx (mac_learn h) = cmd_idx h"
proof -
  show r: "rdf F (mac_learn h) = rdf F h" for F by (rule rdf_same_regs) simp
  show "win (mac_learn h) = win h" "cmd_op (mac_learn h) = cmd_op h"
    "cmd_tbl (mac_learn h) = cmd_tbl h" "cmd_idx (mac_learn h) = cmd_idx h"
    by (simp_all add: win_def read_keys_def read_vals_def cmd_op_def cmd_tbl_def cmd_idx_def r)
qed

lemma learning_poll: "\<not> idle h \<Longrightarrow> poll learning_step TBL_CTRL_BAS h = Some (wrf TBL_CTRL_BAS 0 (mac_exec (mac_learn h)))"
proof -
  assume "\<not> idle h"
  then have "learning_step h = wrf TBL_CTRL_BAS 0 (mac_exec (mac_learn h))" by (simp add: learning_step_def)
  moreover have "idle (wrf TBL_CTRL_BAS 0 (mac_exec (mac_learn h)))" by (rule idle_clear_bas)
  ultimately show ?thesis using \<open>\<not> idle h\<close> by (simp add: idle_def poll_step)
qed

lemma learning_poll_eq:
  "busy_to learning_step h h' \<Longrightarrow> h' = wrf TBL_CTRL_BAS 0 (mac_exec (mac_learn h))"
  using learning_poll [of h] by simp

lemma mac_exec_frame:
  "\<not> in_window off \<Longrightarrow> regs (mac_exec h) off = regs h off"
  "cmd_tbl h = 11 \<Longrightarrow> t \<noteq> 11 \<Longrightarrow> m_rows (priv (mac_exec h)) t = m_rows (priv h) t"
  by (simp_all add: mac_exec_def Let_def in_window_def set_row_def split: option.split)

interpretation learning: pce_engine learning_step learning_tbl "\<lambda>_ m. m" UNIV
proof (unfold_locales, goal_cases)
  case (1 h) then show ?case using learning_poll by blast
next
  case (2 h h')
  then have h': "h' = wrf TBL_CTRL_BAS 0 (mac_exec (mac_learn h))" using learning_poll_eq by blast
  have "m_rows (priv (mac_learn h)) t = m_rows (priv h) t" if "t \<noteq> 11" for t using that by simp
  with 2 show ?case
    by (auto simp: h' mac_exec_def Let_def driver_tbl_def learning_tbl_def set_row_def fun_eq_iff)
next
  case (3 h h')
  then have h': "h' = wrf TBL_CTRL_BAS 0 (mac_exec (mac_learn h))" using learning_poll_eq by blast
  have "mac_exec (mac_learn h) = load_img (m_rows (priv h) (cmd_tbl h) (cmd_idx h)) (mac_learn h)"
    using 3 by (simp add: mac_exec_def)
  then show ?case
    using 3(4) by (simp add: h' win_clear_bas [simplified] win_load_img driver_tbl_def learning_tbl_def fun_eq_iff)
next
  case (4 h h' off)
  then have h': "h' = wrf TBL_CTRL_BAS 0 (mac_exec (mac_learn h))" using learning_poll_eq by blast
  with 4 show ?case by (simp add: mac_exec_frame in_window_def)
qed

interpretation learning_mac: mac_engine learning_step learning_tbl "\<lambda>_ m. m" UNIV learning_rows fid_not_0
proof (unfold_locales, goal_cases)
  case (2 h h')
  let ?R = "m_rows (priv (mac_learn h)) 11"
  have h': "h' = wrf TBL_CTRL_BAS 0 (mac_exec (mac_learn h))" by (rule learning_poll_eq [OF 2(1)])
  have e: "learning_rows (priv h') = (\<lambda>i. norm_img (mac_place ?R (win h) i))"
    using 2(2,3) by (simp add: h' mac_exec_def Let_def learning_tbl_def [abs_def])
  have "mac_stored (win h) (\<lambda>i. norm_img (?R i)) (\<lambda>i. norm_img (mac_place ?R (win h) i))"
    by (rule stored_norm [OF mac_place_stored]) simp
  moreover have "moved fid_not_0 (learning_rows (priv h)) (\<lambda>i. norm_img (?R i))"
    using moved_norm [OF mac_learn_simps(3)] by (simp add: learning_tbl_def [abs_def])
  ultimately show ?case unfolding e by (meson moved_refl)
next
  case (3 h h')
  let ?R = "m_rows (priv (mac_learn h)) 11"
  have h': "h' = wrf TBL_CTRL_BAS 0 (mac_exec (mac_learn h))" by (rule learning_poll_eq [OF 3(1)])
  have e: "learning_rows (priv h') = (\<lambda>i. norm_img (?R i))"
    using 3(2,3) by (simp add: h' mac_exec_def Let_def learning_tbl_def [abs_def] split: option.split)
  have "mac_found (mac_key (win h)) (\<lambda>i. norm_img (?R i)) (win h')"
  proof (cases "find (\<lambda>i. has_key (mac_key (win h)) (?R i)) [0..<IFX_HW_MAC_TABLE_MAX]")
    case None
    then have "win h' = win (wrf TBL_CTRL_BAS 0 (wrf TBL_CTRL_VLD 0 (mac_learn h)))"
      using 3(2,3) by (simp add: h' mac_exec_def Let_def)
    then have "i_valid (win h') = 0" by (simp add: win_def field_simps_hw)
    then show ?thesis using None by (simp add: mac_found_def find_upt_None)
  next
    case (Some i)
    then have "win h' = win (wrf TBL_CTRL_BAS 0 (load_img (?R i) (mac_learn h)))"
      using 3(2,3) by (simp add: h' mac_exec_def Let_def)
    then have w: "win h' = norm_img (?R i)" by (simp only: win_clear_bas win_load_img)
    have i: "i < IFX_HW_MAC_TABLE_MAX" "has_key (mac_key (win h)) (?R i)" using Some by (auto simp: find_upt_Some)
    show ?thesis unfolding mac_found_def
      by (rule disjI1, rule exI [of _ i]) (use i in \<open>simp add: w has_key_def\<close>)
  qed
  moreover have "moved fid_not_0 (learning_rows (priv h)) (\<lambda>i. norm_img (?R i))"
    using moved_norm [OF mac_learn_simps(3)] by (simp add: learning_tbl_def [abs_def])
  ultimately show ?case unfolding e by (meson moved_refl)
next
  case (4 h h')
  let ?R = "m_rows (priv (mac_learn h)) 11"
  have h': "h' = wrf TBL_CTRL_BAS 0 (mac_exec (mac_learn h))" by (rule learning_poll_eq [OF 4(1)])
  have e: "learning_rows (priv h') = (\<lambda>i. norm_img (?R i))"
    using 4(2,3) by (simp add: h' mac_exec_def Let_def learning_tbl_def [abs_def])
  have "win h' = win (wrf TBL_CTRL_BAS 0 (load_img (?R (cmd_idx h)) (mac_learn h)))"
    using 4(2,3) by (simp add: h' mac_exec_def Let_def)
  then have "win h' = norm_img (?R (cmd_idx h))" by (simp only: win_clear_bas win_load_img)
  moreover have "moved fid_not_0 (learning_rows (priv h)) (\<lambda>i. norm_img (?R i))"
    using moved_norm [OF mac_learn_simps(3)] by (simp add: learning_tbl_def [abs_def])
  ultimately show ?case unfolding e by (meson moved_refl)
next
  case (5 h h')
  let ?R = "m_rows (priv (mac_learn h)) 11"
  have h': "h' = wrf TBL_CTRL_BAS 0 (mac_exec (mac_learn h))" by (rule learning_poll_eq [OF 5(1)])
  have "learning_rows (priv h') = (\<lambda>i. norm_img (?R i))(cmd_idx h := win h)"
    using 5(2,3) by (auto simp: h' mac_exec_def Let_def learning_tbl_def set_row_def)
  moreover have "moved fid_not_0 (learning_rows (priv h)) (\<lambda>i. norm_img (?R i))"
    using moved_norm [OF mac_learn_simps(3)] by (simp add: learning_tbl_def [abs_def])
  ultimately show ?case by (metis moved_refl)
next
  case (6 h h')
  have h': "h' = wrf TBL_CTRL_BAS 0 (mac_exec (mac_learn h))" by (rule learning_poll_eq [OF 6(1)])
  have "m_rows (priv h') t = m_rows (priv h) t" if "t \<noteq> 11" for t
    using mac_exec_frame(2) [of "mac_learn h" t] 6(2) that by (simp add: h')
  then show ?case by (simp add: driver_tbl_def learning_tbl_def fun_eq_iff)
qed simp

end
