(* ===== verification/PCE_Others.thy ===== *)
theory PCE_Others
  imports PCE_Roundtrip
begin

text \<open>
  What a rule means apart from its IP addresses, and that writing or deleting one rule leaves it as it
  is for all others. \<open>rule_core\<close> is the rule that a read returns without the IP addresses: their rows
  are shared between rules without being counted, so that another rule may take them away. \<open>normal\<close>
  is what remains of a pattern when it is read back.
\<close>

unbundle bit_operations_syntax

section \<open>Patterns without IP addresses\<close>

definition without_ip :: "IFX_FLOW_PCE_pattern \<Rightarrow> IFX_FLOW_PCE_pattern" where
  "without_ip p = p\<lparr>eDstIP_Select := IP_DISABLED, nDstIP := replicate 8 0, nDstIP_Mask := 0,
     eSrcIP_Select := IP_DISABLED, nSrcIP := replicate 8 0, nSrcIP_Mask := 0\<rparr>"

text \<open>
  The values of fields that are not enabled do not count, and port 255 means any port.
\<close>

definition normal :: "IFX_FLOW_PCE_pattern \<Rightarrow> IFX_FLOW_PCE_pattern" where
  "normal p = without_ip (p\<lparr>
     bPortIdEnable := (bPortIdEnable p \<and> nPortId p \<noteq> 0xFF),
     nPortId := (if bPortIdEnable p \<and> nPortId p \<noteq> 0xFF then nPortId p else 0),
     nDSCP := (if bDSCP_Enable p then nDSCP p else 0), nPCP := (if bPCP_Enable p then nPCP p else 0),
     nPktLng := (if bPktLngEnable p then nPktLng p else 0), nPktLngRange := (if bPktLngEnable p then nPktLngRange p else 0),
     nMAC_Dst := (if bMAC_DstEnable p then nMAC_Dst p else replicate 6 0),
     nMAC_DstMask := (if bMAC_DstEnable p then nMAC_DstMask p else 0),
     nMAC_Src := (if bMAC_SrcEnable p then nMAC_Src p else replicate 6 0),
     nMAC_SrcMask := (if bMAC_SrcEnable p then nMAC_SrcMask p else 0),
     nAppDataMSB := (if bAppDataMSB_Enable p then nAppDataMSB p else 0),
     bAppMaskRangeMSB_Select := (bAppDataMSB_Enable p \<and> bAppMaskRangeMSB_Select p),
     nAppMaskRangeMSB := (if bAppDataMSB_Enable p then nAppMaskRangeMSB p else 0),
     nAppDataLSB := (if bAppDataLSB_Enable p then nAppDataLSB p else 0),
     bAppMaskRangeLSB_Select := (bAppDataLSB_Enable p \<and> bAppMaskRangeLSB_Select p),
     nAppMaskRangeLSB := (if bAppDataLSB_Enable p then nAppMaskRangeLSB p else 0),
     nEtherType := (if bEtherTypeEnable p then nEtherType p else 0),
     nEtherTypeMask := (if bEtherTypeEnable p then nEtherTypeMask p else 0),
     nProtocol := (if bProtocolEnable p then nProtocol p else 0),
     nProtocolMask := (if bProtocolEnable p then nProtocolMask p else 0),
     nSessionId := (if bSessionIdEnable p then nSessionId p else 0), nVid := (if bVid p then nVid p else 0)\<rparr>)"

text \<open>The values fit the bits that the driver keeps of them; the session of PPPoE is not kept at all.\<close>

definition fits :: "IFX_FLOW_PCE_pattern \<Rightarrow> bool" where
  "fits p \<longleftrightarrow> bEnable p \<and> (bDSCP_Enable p \<longrightarrow> nDSCP p < 0x7F) \<and> (bPCP_Enable p \<longrightarrow> nPCP p < 0xF) \<and>
     (bMAC_DstEnable p \<longrightarrow> length (nMAC_Dst p) = 6) \<and> (bMAC_SrcEnable p \<longrightarrow> length (nMAC_Src p) = 6) \<and>
     (bProtocolEnable p \<longrightarrow> nProtocolMask p < 4) \<and> (bSessionIdEnable p \<longrightarrow> nSessionId p = 0) \<and> (bVid p \<longrightarrow> nVid p < 0x1000)"

lemma fits_canonical: "fits p \<Longrightarrow> canonical (normal p)"
  by (simp add: fits_def canonical_def normal_def without_ip_def canon_ip_def)

lemma normal_idem [simp]: "without_ip (normal p) = normal p" "nIndex (normal p) = nIndex p" "bEnable (normal p) = bEnable p"
  "bVid (normal p) = bVid p" "bVid p \<Longrightarrow> nVid (normal p) = nVid p"
  by (simp_all add: normal_def without_ip_def)

section \<open>The rule that a read returns, without the addresses\<close>

definition rule_core :: "(nat \<Rightarrow> nat \<Rightarrow> pce_img) \<Rightarrow> IFX_PCE \<Rightarrow> u32 \<Rightarrow> IFX_FLOW_PCE_rule option" where
  "rule_core T P n = map_option (\<lambda>v. v\<lparr>pattern := without_ip (pattern v)\<rparr>) (rule_value T P n)"

definition no_ip_row :: "IFX_PCE_TBL \<Rightarrow> IFX_PCE_TBL" where
  "no_ip_row F = F\<lparr>dip_msb_idx := 0xFF, dip_lsb_idx := 0xFF, sip_msb_idx := 0xFF, sip_lsb_idx := 0xFF\<rparr>"

lemma no_ip_row_get: "fget f (no_ip_row F) = (if exact (fkind f) then fget f F else fany f)"
  by (cases f) (simp_all add: no_ip_row_def exact_def)

lemma no_ip_row_simps [simp]:
  "vlan_idx (no_ip_row F) = vlan_idx F" "port_id (no_ip_row F) = port_id F" "dscp (no_ip_row F) = dscp F" "pcp (no_ip_row F) = pcp F"
  by (simp_all add: no_ip_row_def)

lemma rd_without_ip:
  "rd_port (no_ip_row F) (without_ip p) = without_ip (rd_port F p)"
  "rd_dscp (no_ip_row F) (without_ip p) = without_ip (rd_dscp F p)"
  "rd_pcp (no_ip_row F) (without_ip p) = without_ip (rd_pcp F p)"
  "rd_pkt_lng H (no_ip_row F) (without_ip p) = map_option without_ip (rd_pkt_lng H F p)"
  "rd_dst_mac H (no_ip_row F) (without_ip p) = map_option without_ip (rd_dst_mac H F p)"
  "rd_src_mac H (no_ip_row F) (without_ip p) = map_option without_ip (rd_src_mac H F p)"
  "rd_dst_appl H (no_ip_row F) (without_ip p) = map_option without_ip (rd_dst_appl H F p)"
  "rd_src_appl H (no_ip_row F) (without_ip p) = map_option without_ip (rd_src_appl H F p)"
  "rd_ethertype H (no_ip_row F) (without_ip p) = map_option without_ip (rd_ethertype H F p)"
  "rd_prot H (no_ip_row F) (without_ip p) = map_option without_ip (rd_prot H F p)"
  "rd_pppoe H (no_ip_row F) (without_ip p) = map_option without_ip (rd_pppoe H F p)"
  by (auto simp: rd_port_def rd_dscp_def rd_pcp_def rd_defs without_ip_def no_ip_row_def split: bind_splits)

lemma rd_ip_without:
  assumes "row_wf F"
  shows "rd_dip H (no_ip_row F) (without_ip p) = map_option without_ip (rd_dip H F p)"
    "rd_sip H (no_ip_row F) (without_ip p) = map_option without_ip (rd_sip H F p)"
proof -
  obtain q r where q: "rd_dip H F p = Some q" and r: "rd_sip H F p = Some r"
    using rd_total(6,7) [OF assms, of H p] by blast
  have "without_ip q = without_ip p" using q
    by (auto simp: rd_dip_def without_ip_def split: if_splits bind_splits)
  then show "rd_dip H (no_ip_row F) (without_ip p) = map_option without_ip (rd_dip H F p)"
    by (simp add: q) (simp add: rd_dip_def no_ip_row_def)
  have "without_ip r = without_ip p" using r
    by (auto simp: rd_sip_def without_ip_def split: if_splits bind_splits)
  then show "rd_sip H (no_ip_row F) (without_ip p) = map_option without_ip (rd_sip H F p)"
    by (simp add: r) (simp add: rd_sip_def no_ip_row_def)
qed

lemma bind_map_step: "m' = map_option g m \<Longrightarrow> (\<And>x. f' (g x) = map_option g (f x)) \<Longrightarrow>
    Option.bind m' f' = map_option g (Option.bind m f)"
  by (cases m) simp_all

lemma rd_fields_without_ip:
  assumes "row_wf F"
  shows "rd_fields H (no_ip_row F) (without_ip p) = map_option without_ip (rd_fields H F p)"
  unfolding rd_fields_def Let_def rd_without_ip(1-3)
  by (intro bind_map_step rd_without_ip rd_ip_without [OF assms])

text \<open>What is read depends only on the rows that the rule names.\<close>

lemma rd_fields_cong:
  assumes wf: "row_wf F" and ok: "tables_ok H" "tables_ok H'"
    and t: "\<And>f. fget f F < tsize (fkind f) \<Longrightarrow> tabs H' (fkind f) ! fget f F = tabs H (fkind f) ! fget f F"
  shows "rd_fields H' F p = rd_fields H F p"
proof -
  have l: "length (tabs H k) = tsize k" "length (tabs H' k) = tsize k" for k using ok by (simp_all add: tables_ok_def)
  have e: "tabs H' (fkind f) ! fget f F = tabs H (fkind f) ! fget f F" if "fget f F \<noteq> fany f" for f
    using t [of f] wf that by (auto simp: row_wf_def)
  note l' = l [of PKG] l [of MAC] l [of APPL] l [of IPMSB] l [of IPLSB] l [of PTCL] l [of PPPOE]
  note w = row_wf_cases [OF wf]
  have "rd_pkt_lng H' F p = rd_pkt_lng H F p" for p
    using w(1) e [of FPkt] l' by (cases "pkt_lng_idx F = 0x1F") (simp_all add: rd_defs read_defs unat_eq_num)
  moreover have "rd_dst_mac H' F p = rd_dst_mac H F p" for p
    using w(2) e [of FDMac] l' by (cases "dst_mac_addr_idx F = 0xFF") (simp_all add: rd_defs read_defs unat_eq_num)
  moreover have "rd_src_mac H' F p = rd_src_mac H F p" for p
    using w(3) e [of FSMac] l' by (cases "src_mac_addr_idx F = 0xFF") (simp_all add: rd_defs read_defs unat_eq_num)
  moreover have "rd_dst_appl H' F p = rd_dst_appl H F p" for p
    using w(4) e [of FDAppl] l' by (cases "dst_appl_fld_idx F = 0xFF") (simp_all add: rd_defs read_defs unat_eq_num)
  moreover have "rd_src_appl H' F p = rd_src_appl H F p" for p
    using w(5) e [of FSAppl] l' by (cases "src_appl_fld_idx F = 0xFF") (simp_all add: rd_defs read_defs unat_eq_num)
  moreover have "rd_ethertype H' F p = rd_ethertype H F p" for p
    using w(11) e [of FEty] l' by (cases "ethertype_idx F = 0xFF") (simp_all add: rd_defs read_defs unat_eq_num)
  moreover have "rd_prot H' F p = rd_prot H F p" for p
    using w(10) e [of FProt] l' by (cases "ip_prot_idx F = 0xFF") (simp_all add: rd_defs read_defs unat_eq_num)
  moreover have "rd_pppoe H' F p = rd_pppoe H F p" for p
    using w(12) e [of FPpp] l' by (cases "pppoe_idx F = 0x1F") (simp_all add: rd_defs read_defs unat_eq_num)
  moreover have "rd_dip H' F p = rd_dip H F p" for p
    using w(6,7) e [of FDMsb] e [of FDLsb] l'
    by (cases "dip_msb_idx F = 0xFF"; cases "dip_lsb_idx F = 0xFF") (simp_all add: rd_defs read_defs unat_eq_num)
  moreover have "rd_sip H' F p = rd_sip H F p" for p
    using w(8,9) e [of FSMsb] e [of FSLsb] l'
    by (cases "sip_msb_idx F = 0xFF"; cases "sip_lsb_idx F = 0xFF") (simp_all add: rd_defs read_defs unat_eq_num)
  ultimately show ?thesis by (simp only: rd_fields_def)
qed

definition add_vlan :: "(nat \<Rightarrow> nat \<Rightarrow> pce_img) \<Rightarrow> IFX_PCE_TBL \<Rightarrow> IFX_FLOW_PCE_pattern \<Rightarrow> IFX_FLOW_PCE_pattern" where
  "add_vlan T F p = (let m = T 1 (unat (vlan_idx F)) in
     if vlan_idx F = 0x7F then p else if i_valid m = 1 then p\<lparr>bVid := True, nVid := row_key0 m AND 0xFFF\<rparr> else p\<lparr>bVid := True\<rparr>)"

lemma without_ip_vlan: "without_ip (add_vlan T F p) = add_vlan T F (without_ip p)"
  by (simp add: add_vlan_def without_ip_def Let_def)

lemma without_ip_start [simp]: "without_ip (zero_pattern\<lparr>nIndex := n, bEnable := b\<rparr>) = zero_pattern\<lparr>nIndex := n, bEnable := b\<rparr>"
  by (simp add: without_ip_def zero_pattern_def)

lemma rule_core_unused:
  "pce_tbl_used P ! unat n = 0 \<Longrightarrow>
   rule_core T P n = Some \<lparr>pattern = without_ip (zero_pattern\<lparr>nIndex := n\<rparr>), action = zero_action\<rparr>"
  by (simp add: rule_core_def rule_value_def)

lemma rule_core_used:
  assumes u: "pce_tbl_used P ! unat n \<noteq> 0" and wf: "row_wf (pce_tbl P ! unat n)"
  shows "rule_core T P n = map_option (\<lambda>q. \<lparr>pattern = add_vlan T (pce_tbl P ! unat n) q, action = pce_act P ! unat n\<rparr>)
    (rd_fields (pce_sub_tbl P) (no_ip_row (pce_tbl P ! unat n)) (zero_pattern\<lparr>nIndex := n, bEnable := True\<rparr>))"
proof -
  let ?F = "pce_tbl P ! unat n" and ?p = "zero_pattern\<lparr>nIndex := n, bEnable := True\<rparr>"
  have "rule_core T P n = map_option (\<lambda>q. \<lparr>pattern = without_ip (add_vlan T ?F q), action = pce_act P ! unat n\<rparr>)
      (rd_fields (pce_sub_tbl P) ?F ?p)"
    using u by (simp add: rule_core_def rule_value_def Let_def option.map_comp comp_def add_vlan_def)
  also have "\<dots> = map_option (\<lambda>q. \<lparr>pattern = add_vlan T ?F q, action = pce_act P ! unat n\<rparr>)
      (map_option without_ip (rd_fields (pce_sub_tbl P) ?F ?p))"
    by (simp add: option.map_comp comp_def without_ip_vlan)
  finally show ?thesis using rd_fields_without_ip [OF wf, of "pce_sub_tbl P" ?p] by simp
qed

text \<open>The rows that the exact fields of another rule name are among those that others count on.\<close>

lemma kept_row:
  assumes c: "counted P" and k: "rows_kept idx P P'" and n: "n \<noteq> idx" "n < IFX_PCE_TBL_SIZE" "idx < IFX_PCE_TBL_SIZE"
    and u: "pce_tbl_used P ! n \<noteq> 0" and f: "exact (fkind f)" "fget f (pce_tbl P ! n) < tsize (fkind f)"
  shows "tabs (pce_sub_tbl P') (fkind f) ! fget f (pce_tbl P ! n) = tabs (pce_sub_tbl P) (fkind f) ! fget f (pce_tbl P ! n)"
    "cnts (pce_sub_tbl P') (fkind f) ! fget f (pce_tbl P ! n) > 0"
proof -
  let ?k = "fkind f" and ?i = "fget f (pce_tbl P ! n)"
  let ?o = "\<lambda>r. own_refs UNIV (pce_tbl_used P ! r) (pce_tbl P ! r) ?k ?i"
  have "f \<in> {g \<in> UNIV. fkind g = ?k \<and> fget g (pce_tbl P ! n) = ?i}" by simp
  then have "1 \<le> ?o n" using u by (auto simp: own_refs_def Suc_le_eq card_gt_0_iff)
  also have "\<dots> \<le> other_refs idx P ?k ?i"
    unfolding other_refs_def using n by (intro member_le_sum) auto
  finally have "?o idx < refs P ?k ?i" using refs_split [OF n(3), of P ?k ?i] by simp
  also have "\<dots> = unat (cnts (pce_sub_tbl P) ?k ! ?i)" using c f by (simp add: counted_def)
  finally show "tabs (pce_sub_tbl P') ?k ! ?i = tabs (pce_sub_tbl P) ?k ! ?i" "cnts (pce_sub_tbl P') ?k ! ?i > 0"
    using k f(2) by (auto simp: rows_kept_def)
qed

text \<open>Writing or deleting rule \<open>idx\<close> leaves every other rule as it was, IP addresses aside.\<close>

lemma rule_frame_core:
  assumes I: "rules_inv tbl keep s" and ok: "st_ok tbl keep s'" and fr: "rule_frame tbl S idx s s'"
    and n: "unat n \<noteq> idx" "unat n < IFX_PCE_TBL_SIZE" "idx < IFX_PCE_TBL_SIZE"
  shows "rule_core (driver_tbl tbl (st_hw s')) (st_pce s') n = rule_core (driver_tbl tbl (st_hw s)) (st_pce s) n"
proof -
  let ?P = "st_pce s" and ?P' = "st_pce s'" and ?F = "pce_tbl (st_pce s) ! unat n"
  have same: "pce_tbl_used ?P' ! unat n = pce_tbl_used ?P ! unat n" "pce_tbl ?P' ! unat n = ?F"
    "pce_act ?P' ! unat n = pce_act ?P ! unat n" using fr n(1) by (auto simp: rule_frame_def)
  have T: "driver_tbl tbl (st_hw s') 1 = driver_tbl tbl (st_hw s) 1" using fr by (rule rule_frame_vlan)
  have wf: "row_wf ?F" using I n(2) by (simp add: rules_inv_def st_ok_def shape_def)
  show ?thesis
  proof (cases "pce_tbl_used ?P ! unat n = 0")
    case True then show ?thesis using same by (simp add: rule_core_unused)
  next
    case False
    have wn: "row_wf (no_ip_row ?F)" using wf by (simp add: row_wf_def no_ip_row_get)
    have "tabs (pce_sub_tbl ?P') (fkind f) ! fget f (no_ip_row ?F) = tabs (pce_sub_tbl ?P) (fkind f) ! fget f (no_ip_row ?F)"
      if "fget f (no_ip_row ?F) < tsize (fkind f)" for f
      using kept_row(1) [of ?P idx ?P' "unat n" f] that n I fr False tsize_any [of f]
      by (auto simp: no_ip_row_get rules_inv_def rule_frame_def split: if_splits)
    then have "rd_fields (pce_sub_tbl ?P') (no_ip_row ?F) p = rd_fields (pce_sub_tbl ?P) (no_ip_row ?F) p" for p
      using I ok by (intro rd_fields_cong [OF wn]) (auto simp: rules_inv_def dest: st_ok_tables)
    then show ?thesis
      using False same wf by (simp add: rule_core_used) (simp add: add_vlan_def T [unfolded One_nat_def])
  qed
qed

text \<open>The removal of a rule in these terms.\<close>

lemma pattern_delete_frame:
  assumes "pce_engine hwstep tbl keep S" "rules_inv tbl keep s" "idx < IFX_PCE_TBL_SIZE" "pce_tbl_used (st_pce s) ! idx \<noteq> 0"
  obtains s' where "ifx_pce_pattern_delete hwstep idx s = Some (0, s')" "rules_inv tbl keep s'"
    "released idx UNIV (st_pce s) (pce_sub_tbl (st_pce s'))" "rule_frame tbl S idx s s'"
    "pce_tbl_used (st_pce s') ! idx = 0" "fet idx s' = ones_row" "pce_act (st_pce s') ! idx = zero_action"
    "driver_tbl tbl (st_hw s') 15 idx = keep 15 ((driver_tbl tbl (st_hw s) 15 idx)\<lparr>i_valid := 0\<rparr>)"
proof (rule pattern_delete_spec [OF assms], goal_cases)
  case (1 H h)
  let ?s = "s\<lparr>st_pce := (st_pce s)\<lparr>pce_sub_tbl := H, pce_tbl := (pce_tbl (st_pce s))[idx := ones_row],
    pce_act := (pce_act (st_pce s))[idx := zero_action], pce_tbl_used := (pce_tbl_used (st_pce s))[idx := 0]\<rparr>, st_hw := h\<rparr>"
  have sh: "shape (st_pce s)" using assms(2) by (simp add: rules_inv_def st_ok_def)
  have "rows_kept idx (st_pce s) (st_pce ?s)" by (rule released_rows_kept) (use 1 in simp)
  then have "rule_frame tbl S idx s ?s"
    using 1 by (simp add: rule_frame_def) (simp add: set_row_def)
  then show thesis
    using 1 sh assms(3) by (intro that [of ?s]) (simp_all add: fet_def shape_def set_row_def)
qed

section \<open>What is read\<close>

definition tidy :: "IFX_FLOW_PCE_pattern \<Rightarrow> bool" where
  "tidy p \<longleftrightarrow> (if bPortIdEnable p then nPortId p \<noteq> 0xFF else nPortId p = 0) \<and> (\<not> bDSCP_Enable p \<longrightarrow> nDSCP p = 0) \<and>
     (\<not> bPCP_Enable p \<longrightarrow> nPCP p = 0) \<and> (\<not> bPktLngEnable p \<longrightarrow> nPktLng p = 0 \<and> nPktLngRange p = 0) \<and>
     (\<not> bMAC_DstEnable p \<longrightarrow> nMAC_Dst p = replicate 6 0 \<and> nMAC_DstMask p = 0) \<and>
     (\<not> bMAC_SrcEnable p \<longrightarrow> nMAC_Src p = replicate 6 0 \<and> nMAC_SrcMask p = 0) \<and>
     (\<not> bAppDataMSB_Enable p \<longrightarrow> nAppDataMSB p = 0 \<and> \<not> bAppMaskRangeMSB_Select p \<and> nAppMaskRangeMSB p = 0) \<and>
     (\<not> bAppDataLSB_Enable p \<longrightarrow> nAppDataLSB p = 0 \<and> \<not> bAppMaskRangeLSB_Select p \<and> nAppMaskRangeLSB p = 0) \<and>
     (\<not> bEtherTypeEnable p \<longrightarrow> nEtherType p = 0 \<and> nEtherTypeMask p = 0) \<and>
     (\<not> bProtocolEnable p \<longrightarrow> nProtocol p = 0 \<and> nProtocolMask p = 0) \<and>
     (\<not> bSessionIdEnable p \<longrightarrow> nSessionId p = 0) \<and> (\<not> bVid p \<longrightarrow> nVid p = 0)"

lemma tidy_normal: "tidy p \<Longrightarrow> normal p = without_ip p"
  by (rule IFX_FLOW_PCE_pattern.equality; simp add: tidy_def normal_def without_ip_def; metis)

lemma tidy_start: "tidy (rd_pcp F (rd_dscp F (rd_port F (zero_pattern\<lparr>nIndex := n, bEnable := b\<rparr>))))"
  by (simp add: tidy_def rd_pcp_def rd_dscp_def rd_port_def zero_pattern_def)

lemma tidy_upd:
  assumes "tidy p"
  shows "tidy (p\<lparr>bPktLngEnable := True, nPktLng := a, nPktLngRange := b\<rparr>)"
    "tidy (p\<lparr>bMAC_DstEnable := True, nMAC_Dst := c, nMAC_DstMask := d\<rparr>)"
    "tidy (p\<lparr>bMAC_SrcEnable := True, nMAC_Src := c, nMAC_SrcMask := d\<rparr>)"
    "tidy (p\<lparr>bAppDataMSB_Enable := True, nAppDataMSB := a, bAppMaskRangeMSB_Select := e, nAppMaskRangeMSB := b\<rparr>)"
    "tidy (p\<lparr>bAppDataLSB_Enable := True, nAppDataLSB := a, bAppMaskRangeLSB_Select := e, nAppMaskRangeLSB := b\<rparr>)"
    "tidy (p\<lparr>bEtherTypeEnable := True, nEtherType := a, nEtherTypeMask := b\<rparr>)"
    "tidy (p\<lparr>bProtocolEnable := True, nProtocol := k, nProtocolMask := l\<rparr>)"
    "tidy (p\<lparr>bSessionIdEnable := True, nSessionId := a\<rparr>)"
    "tidy (p\<lparr>eDstIP_Select := i, nDstIP := ip, nDstIP_Mask := m\<rparr>)" "tidy (p\<lparr>eSrcIP_Select := i, nSrcIP := ip, nSrcIP_Mask := m\<rparr>)"
  using assms unfolding tidy_def by simp_all

lemma tidy_rd:
  "rd_pkt_lng H F p = Some q \<Longrightarrow> tidy p \<Longrightarrow> tidy q" "rd_dst_mac H F p = Some q \<Longrightarrow> tidy p \<Longrightarrow> tidy q"
  "rd_src_mac H F p = Some q \<Longrightarrow> tidy p \<Longrightarrow> tidy q" "rd_dst_appl H F p = Some q \<Longrightarrow> tidy p \<Longrightarrow> tidy q"
  "rd_src_appl H F p = Some q \<Longrightarrow> tidy p \<Longrightarrow> tidy q" "rd_dip H F p = Some q \<Longrightarrow> tidy p \<Longrightarrow> tidy q"
  "rd_sip H F p = Some q \<Longrightarrow> tidy p \<Longrightarrow> tidy q" "rd_ethertype H F p = Some q \<Longrightarrow> tidy p \<Longrightarrow> tidy q"
  "rd_prot H F p = Some q \<Longrightarrow> tidy p \<Longrightarrow> tidy q" "rd_pppoe H F p = Some q \<Longrightarrow> tidy p \<Longrightarrow> tidy q"
  unfolding rd_defs by (auto simp: bind_eq_Some_conv split: if_splits intro!: tidy_upd)

lemma tidy_fields: "rd_fields H F (zero_pattern\<lparr>nIndex := n, bEnable := b\<rparr>) = Some q \<Longrightarrow> tidy q"
  unfolding rd_fields_def Let_def bind_eq_Some_conv
  by (elim exE conjE, (erule tidy_rd)+, rule tidy_start)

lemma tidy_vlan: "tidy p \<Longrightarrow> tidy (add_vlan T F p)"
  by (simp add: add_vlan_def tidy_def Let_def)

lemma read_core:
  assumes "rule_value T P (nIndex (pattern r)) = Some r"
  shows "rule_core T P (nIndex (pattern r)) = Some \<lparr>pattern = normal (pattern r), action = action r\<rparr>"
proof -
  have "tidy (pattern r)"
  proof (cases "pce_tbl_used P ! unat (nIndex (pattern r)) = 0")
    case True
    then have "pattern r = zero_pattern\<lparr>nIndex := nIndex (pattern r)\<rparr>"
      using assms by (simp add: rule_value_def) (metis IFX_FLOW_PCE_rule.select_convs(1))
    moreover have "tidy (zero_pattern\<lparr>nIndex := n\<rparr>)" for n by (simp add: tidy_def zero_pattern_def)
    ultimately show ?thesis by metis
  next
    case False
    let ?F = "pce_tbl P ! unat (nIndex (pattern r))"
    obtain q where q: "rd_fields (pce_sub_tbl P) ?F (zero_pattern\<lparr>nIndex := nIndex (pattern r), bEnable := True\<rparr>) = Some q"
      "r = \<lparr>pattern = add_vlan T ?F q, action = pce_act P ! unat (nIndex (pattern r))\<rparr>"
      using assms False by (auto simp: rule_value_def Let_def add_vlan_def)
    then have "pattern r = add_vlan T ?F q" by (metis IFX_FLOW_PCE_rule.select_convs(1))
    then show ?thesis using tidy_vlan [OF tidy_fields [OF q(1)]] by metis
  qed
  then show ?thesis using assms by (simp add: rule_core_def tidy_normal)
qed

section \<open>What is written\<close>

lemma want_normal: "exact (fkind f) \<Longrightarrow> want g (normal p) f = want g p f" "\<not> exact (fkind f) \<Longrightarrow> want g (normal p) f = None"
  by (cases f; simp add: normal_def without_ip_def prot_row_def exact_def)+

lemma plain_normal: "plain (normal p) t 14 F = plain p t 14 F"
  by (auto simp: plain_def normal_def without_ip_def)

lemma written_core:
  assumes w: "written tbl keep g T (unat (nIndex (pattern r))) r s" and i: "unat (nIndex (pattern r)) < IFX_PCE_TBL_SIZE"
    and f: "fits (pattern r)" and T: "driver_tbl tbl (st_hw s) 1 = T 1"
    and v: "bVid (pattern r) \<longrightarrow> vlan_row T (nVid (pattern r)) \<noteq> None"
  shows "rule_core (driver_tbl tbl (st_hw s)) (st_pce s) (nIndex (pattern r))
    = Some \<lparr>pattern = normal (pattern r), action = action r\<rparr>"
proof -
  let ?p = "pattern r" and ?H = "pce_sub_tbl (st_pce s)"
  let ?i = "unat (nIndex ?p)" and ?T = "driver_tbl tbl (st_hw s)"
  let ?F = "fet ?i s"
  have ok: "st_ok tbl keep s" using w by (simp add: written_def rules_inv_def)
  have c: "canonical (normal ?p)" by (rule fits_canonical [OF f])
  have wf: "row_wf ?F" using ok i by (simp add: st_ok_def shape_def fet_def)
  have st: "stored (want g (normal ?p)) (no_ip_row ?F) ?H"
    unfolding stored_def
  proof
    fix h
    have fo: "field_ok (want g ?p) h ?F ?H" using w by (simp add: written_def)
    show "case want g (normal ?p) h of None \<Rightarrow> fget h (no_ip_row ?F) = fany h
      | Some e \<Rightarrow> fget h (no_ip_row ?F) < tsize (fkind h) \<and> tabs ?H (fkind h) ! fget h (no_ip_row ?F) = e"
    proof (cases "exact (fkind h)")
      case True
      then show ?thesis using fo by (auto simp: want_normal no_ip_row_get field_ok_def holds_def exact_def split: option.splits)
    next
      case False
      then show ?thesis by (simp add: want_normal no_ip_row_get)
    qed
  qed
  have pl: "plain (normal ?p) (want_vlan T ?p) 14 (no_ip_row ?F)"
    using w by (simp add: written_def plain_normal) (simp add: plain_def)
  have ix: "nIndex (normal ?p) < 64" using i by (simp add: word_less_nat_alt IFX_PCE_TBL_SIZE_def)
  have rd: "rd_fields ?H (no_ip_row ?F) (zero_pattern\<lparr>nIndex := nIndex ?p, bEnable := True\<rparr>)
      = Some ((normal ?p)\<lparr>bVid := False, nVid := 0\<rparr>)"
    using rd_fields_stored [OF st st_ok_tables [OF ok] c ix pl] by simp
  have idx: "vlan_idx ?F = of_int (want_vlan T ?p)" using w by (simp add: written_def plain_def)
  have "add_vlan ?T ?F ((normal ?p)\<lparr>bVid := False, nVid := 0\<rparr>) = normal ?p"
  proof (cases "bVid ?p")
    case False
    then have "False = bVid (normal ?p)" "0 = nVid (normal ?p)" by (simp_all add: normal_def without_ip_def)
    then have "(normal ?p)\<lparr>bVid := False, nVid := 0\<rparr> = normal ?p" by simp
    then show ?thesis using False by (simp add: add_vlan_def idx want_vlan_def)
  next
    case True
    then obtain j where j: "vlan_row T (nVid ?p) = Some j" using v by blast
    then have r: "j < 64" "i_valid (T 1 j) = 1" "row_key0 (T 1 j) = nVid ?p"
      by (auto simp: vlan_row_def find_upt_Some IFX_PCE_VLAN_ACT_TBL_SIZE_def)
    have u: "unat (vlan_idx ?F) = j"
      using True j r(1) by (simp add: idx want_vlan_def vlan_result_def unat_of_nat_small)
    then have n: "vlan_idx ?F \<noteq> 0x7F" using r(1) by auto
    have "nVid ?p < 0x1000" using f True by (simp add: fits_def)
    then have m: "row_key0 (T 1 j) AND 0xFFF = nVid (normal ?p)" using r(3) vid_mask True by simp
    have "True = bVid (normal ?p)" using True by simp
    then have "(normal ?p)\<lparr>bVid := True, nVid := nVid (normal ?p)\<rparr> = normal ?p" by simp
    then show ?thesis using u n r(2) m by (simp add: add_vlan_def T [unfolded One_nat_def] Let_def)
  qed
  then show ?thesis
    using rule_core_used [of "st_pce s" "nIndex ?p" ?T] wf w rd by (simp add: written_def fet_def)
qed
end
