(* ===== verification/Core_System.thy ===== *)
theory Core_System
  imports Core_Boot Core_MAC Core_BM PCE_Others
begin

text \<open>
  The switch as a whole, \<^verbatim>\<open>ltq_flow_core.c\<close> and \<^verbatim>\<open>ltq_xrx_platform.c\<close>: capabilities, versions, the
  global configuration, reset and initialisation, switching the ports on and off, monitoring and
  redirection of ports, wake on LAN, interrupts, raw registers, and the requests for single rules. The
  interface \<open>reset_engine\<close> states what a reset does to the device.
\<close>

unbundle bit_operations_syntax

section \<open>Parameters and registers\<close>

record IFX_ETHSW_cap =
  cp_nCapType :: u32
  cp_cDesc :: string
  cp_nCap :: u32

record IFX_ETHSW_version =
  vn_nId :: u16
  vn_cName :: string
  vn_cVersion :: string

record IFX_ETHSW_cfg =
  cg_eMAC_TableAgeTimer :: u32
  cg_bVLAN_Aware :: u32
  cg_nMaxPacketLen :: u16
  cg_bLearningLimitAction :: u32
  cg_bMAC_SpoofingAction :: u32
  cg_bPauseMAC_ModeSrc :: u32
  cg_nPauseMAC_Src :: "u8 list"

record IFX_ETHSW_monitorPortCfg =
  mn_nPortId :: u8
  mn_bMonitorPort :: u32

record IFX_ETHSW_portRedirectCfg =
  rr_nPortId :: u8
  rr_bRedirectEgress :: u32
  rr_bRedirectIngress :: u32

record IFX_ETHSW_WoL_Cfg =
  wl_nWolMAC :: "u8 list"
  wl_nWolPassword :: "u8 list"
  wl_bWolPasswordEnable :: u32

record IFX_ETHSW_WoL_PortCfg =
  wo_nPortId :: u8
  wo_bWakeOnLAN_Enable :: u32

record IFX_FLOW_register =
  rg_nRegAddr :: u16
  rg_nData :: u16

record IFX_FLOW_irq =
  iq_nPortId :: u32
  iq_eIrqSrc :: u32

record IFX_FLOW_PCE_ruleDelete =
  rd_nIndex :: u32

abbreviation (input) VR9_ETHSW_CAP_11_BSIZEL :: field where "VR9_ETHSW_CAP_11_BSIZEL \<equiv> (0x011, 0, 16)"
abbreviation (input) VR9_ETHSW_CAP_12_BSIZEH :: field where "VR9_ETHSW_CAP_12_BSIZEH \<equiv> (0x012, 0, 3)"
abbreviation (input) VR9_ETHSW_CAP_1_QUEUES :: field where "VR9_ETHSW_CAP_1_QUEUES \<equiv> (0x007, 8, 7)"
abbreviation (input) VR9_ETHSW_CAP_4_VLAN :: field where "VR9_ETHSW_CAP_4_VLAN \<equiv> (0x00A, 0, 8)"
abbreviation (input) VR9_ETHSW_CAP_4_PPPOE :: field where "VR9_ETHSW_CAP_4_PPPOE \<equiv> (0x00A, 8, 8)"
abbreviation (input) VR9_MAC_FLEN_LEN :: field where "VR9_MAC_FLEN_LEN \<equiv> (0x8C5, 0, 14)"
abbreviation (input) VR9_MAC_PFAD_CFG_SAMOD :: field where "VR9_MAC_PFAD_CFG_SAMOD \<equiv> (0x8C1, 0, 1)"
abbreviation (input) VR9_PCE_GCTRL_0_VLAN :: field where "VR9_PCE_GCTRL_0_VLAN \<equiv> (0x456, 14, 1)"
abbreviation (input) VR9_PCE_GCTRL_0_PLIMMOD :: field where "VR9_PCE_GCTRL_0_PLIMMOD \<equiv> (0x456, 1, 1)"
abbreviation (input) VR9_PCE_GCTRL_0_PLCKMOD :: field where "VR9_PCE_GCTRL_0_PLCKMOD \<equiv> (0x456, 2, 1)"
abbreviation (input) VR9_MAC_PFSA_0_PFAD :: field where "VR9_MAC_PFSA_0_PFAD \<equiv> (0x8C2, 0, 16)"
abbreviation (input) VR9_MAC_PFSA_1_PFAD :: field where "VR9_MAC_PFSA_1_PFAD \<equiv> (0x8C3, 0, 16)"
abbreviation (input) VR9_MAC_PFSA_2_PFAD :: field where "VR9_MAC_PFSA_2_PFAD \<equiv> (0x8C4, 0, 16)"
abbreviation (input) VR9_PCE_AGE_0_EXP :: field where "VR9_PCE_AGE_0_EXP \<equiv> (0x451, 0, 4)"
abbreviation (input) VR9_MAC_CTRL_2_MLEN :: field where "VR9_MAC_CTRL_2_MLEN \<equiv> (0x905, 3, 1)"
abbreviation (input) VR9_PCE_PMAP_1_MPMAP :: field where "VR9_PCE_PMAP_1_MPMAP \<equiv> (0x453, 0, 16)"
abbreviation (input) VR9_PCE_PCTRL_3_EDIR :: field where "VR9_PCE_PCTRL_3_EDIR \<equiv> (0x483, 11, 1)"
abbreviation (input) VR9_BM_PCFG_CNTEN :: field where "VR9_BM_PCFG_CNTEN \<equiv> (0x080, 0, 1)"
abbreviation (input) VR9_WOL_GLB_CTRL_PASSEN :: field where "VR9_WOL_GLB_CTRL_PASSEN \<equiv> (0x45E, 0, 1)"
abbreviation (input) VR9_WOL_DA_2_DA2 :: field where "VR9_WOL_DA_2_DA2 \<equiv> (0x461, 0, 16)"
abbreviation (input) VR9_WOL_DA_1_DA1 :: field where "VR9_WOL_DA_1_DA1 \<equiv> (0x460, 0, 16)"
abbreviation (input) VR9_WOL_DA_0_DA0 :: field where "VR9_WOL_DA_0_DA0 \<equiv> (0x45F, 0, 16)"
abbreviation (input) VR9_WOL_PW_2_PW2 :: field where "VR9_WOL_PW_2_PW2 \<equiv> (0x464, 0, 16)"
abbreviation (input) VR9_WOL_PW_1_PW1 :: field where "VR9_WOL_PW_1_PW1 \<equiv> (0x463, 0, 16)"
abbreviation (input) VR9_WOL_PW_0_PW0 :: field where "VR9_WOL_PW_0_PW0 \<equiv> (0x462, 0, 16)"
abbreviation (input) VR9_WOL_CTRL_PORT :: field where "VR9_WOL_CTRL_PORT \<equiv> (0x484, 0, 1)"
abbreviation (input) VR9_PCE_PIER_WOL :: field where "VR9_PCE_PIER_WOL \<equiv> (0x488, 2, 1)"
abbreviation (input) VR9_PCE_PIER_LOCK :: field where "VR9_PCE_PIER_LOCK \<equiv> (0x488, 1, 1)"
abbreviation (input) VR9_PCE_PIER_LIM :: field where "VR9_PCE_PIER_LIM \<equiv> (0x488, 0, 1)"
abbreviation (input) VR9_ETHSW_SWRES_R0 :: field where "VR9_ETHSW_SWRES_R0 \<equiv> (0x000, 0, 1)"

abbreviation (input) IFX_ETHSW_AGETIMER_1_SEC :: u32 where "IFX_ETHSW_AGETIMER_1_SEC \<equiv> 1"
abbreviation (input) IFX_ETHSW_AGETIMER_10_SEC :: u32 where "IFX_ETHSW_AGETIMER_10_SEC \<equiv> 2"
abbreviation (input) IFX_ETHSW_AGETIMER_300_SEC :: u32 where "IFX_ETHSW_AGETIMER_300_SEC \<equiv> 3"
abbreviation (input) IFX_ETHSW_AGETIMER_1_HOUR :: u32 where "IFX_ETHSW_AGETIMER_1_HOUR \<equiv> 4"
abbreviation (input) IFX_ETHSW_AGETIMER_1_DAY :: u32 where "IFX_ETHSW_AGETIMER_1_DAY \<equiv> 5"

abbreviation (input) IFX_FLOW_IRQ_WOL :: u32 where "IFX_FLOW_IRQ_WOL \<equiv> 0"
abbreviation (input) IFX_FLOW_IRQ_LIMIT_ALERT :: u32 where "IFX_FLOW_IRQ_LIMIT_ALERT \<equiv> 1"
abbreviation (input) IFX_FLOW_IRQ_LOCK_ALERT :: u32 where "IFX_FLOW_IRQ_LOCK_ALERT \<equiv> 2"

section \<open>Capabilities and versions\<close>

text \<open>The strings are those before the terminating zero.\<close>

definition CAP_Description :: "string list" where
  "CAP_Description = [
     ''Number of physical Ethernet ports'',
     ''Number of virtual Ethernet ports'',
     ''Size of internal packet memory [in Bytes]'',
     ''Number of Segment size per device'',
     ''Number of priority queues per device'',
     ''Number of meter instances'',
     ''Number of rate shaper instances'',
     ''Number of VLAN groups that can be configured on the switch hardware'',
     ''Number of Forwarding database IDs [FIDs]'',
     ''Number of MAC table entries'',
     ''Number of multicast level 3 hardware table entries'',
     ''Number of supported PPPoE sessions'',
     ''Last Capability Index'']"

definition IFX_FLOW_CapGet :: "IFX_ETHSW_cap \<Rightarrow> 'p core \<Rightarrow> int \<times> IFX_ETHSW_cap" where
  "IFX_FLOW_CapGet q s =
     (let c = cp_nCapType q
      in if c \<ge> 12 then (IFX_ERROR, q)
      else let q = q\<lparr>cp_cDesc := CAP_Description ! unat c\<rparr>
      in (IFX_SUCCESS, q\<lparr>cp_nCap :=
           (if c = 0 then rd VR9_ETHSW_CAP_1_PPORTS s
            else if c = 1 then rd VR9_ETHSW_CAP_1_VPORTS s
            else if c = 2 then push_bit 16 (rd VR9_ETHSW_CAP_12_BSIZEH s) OR rd VR9_ETHSW_CAP_11_BSIZEL s
            else if c = 3 then 256
            else if c = 4 then rd VR9_ETHSW_CAP_1_QUEUES s
            else if c = 5 then rd VR9_ETHSW_CAP_3_METERS s
            else if c = 6 then rd VR9_ETHSW_CAP_3_SHAPERS s
            else if c = 7 then rd VR9_ETHSW_CAP_4_VLAN s
            else if c = 8 then 64
            else if c = 9 then rd VR9_ETHSW_CAP_10_MACBT s
            else if c = 10 then rd VR9_ETHSW_CAP_8_MCAST s
            else if c = 11 then rd VR9_ETHSW_CAP_4_PPPOE s
            else 0)\<rparr>))"

definition IFX_FLOW_VersionGet :: "IFX_ETHSW_version \<Rightarrow> int \<times> IFX_ETHSW_version" where
  "IFX_FLOW_VersionGet q = (IFX_SUCCESS,
     (if vn_nId q = 0 then q\<lparr>vn_cName := ''IFX ETHSW SWITCH API for GSWITCH Platform'', vn_cVersion := ''1.2.6''\<rparr>
      else if vn_nId q = 1 then q\<lparr>vn_cName := '' GSWIP macro revision ID'', vn_cVersion := ''0x212''\<rparr>
      else q))"

section \<open>The global configuration\<close>

text \<open>The ageing time: mantissa, exponent, and the seconds the driver remembers.\<close>

definition age_timer :: "u32 \<Rightarrow> u32 \<times> u32 \<times> u32" where
  "age_timer t =
     (if t = IFX_ETHSW_AGETIMER_1_SEC then (0xBF, 0x2, 1)
      else if t = IFX_ETHSW_AGETIMER_10_SEC then (0x784, 0x2, 10)
      else if t = IFX_ETHSW_AGETIMER_300_SEC then (0xDF84, 0x2, 300)
      else if t = IFX_ETHSW_AGETIMER_1_HOUR then (0xA7BA, 0x6, 3600)
      else if t = IFX_ETHSW_AGETIMER_1_DAY then (0xFB75, 0xA, 86400)
      else (0xDF84, 0x2, 300))"

definition IFX_FLOW_CfgGet :: "IFX_ETHSW_cfg \<Rightarrow> 'p core \<Rightarrow> int \<times> IFX_ETHSW_cfg" where
  "IFX_FLOW_CfgGet q s =
     (let data2 = rd VR9_PCE_AGE_1_MANT s;
          q = q\<lparr>cg_eMAC_TableAgeTimer :=
                (if data2 = 0xFB75 then IFX_ETHSW_AGETIMER_1_DAY
                 else if data2 = 0xA7BA then IFX_ETHSW_AGETIMER_1_HOUR
                 else if data2 = 0xDF84 then IFX_ETHSW_AGETIMER_300_SEC
                 else if data2 = 0x784 then IFX_ETHSW_AGETIMER_10_SEC
                 else if data2 = 0xBF then IFX_ETHSW_AGETIMER_1_SEC
                 else 0)\<rparr>;
          q = q\<lparr>cg_nMaxPacketLen := ucast (rd VR9_MAC_FLEN_LEN s),
                cg_bPauseMAC_ModeSrc := rd VR9_MAC_PFAD_CFG_SAMOD s,
                cg_bVLAN_Aware := rd VR9_PCE_GCTRL_0_VLAN s,
                cg_bLearningLimitAction := rd VR9_PCE_GCTRL_0_PLIMMOD s\<rparr>;
          q = (if GSWIP_Ver (dev s) = LTQ_GSWIP_2_2 then q\<lparr>cg_bMAC_SpoofingAction := rd VR9_PCE_GCTRL_0_PLCKMOD s\<rparr> else q);
          v0 = rd VR9_MAC_PFSA_0_PFAD s; v1 = rd VR9_MAC_PFSA_1_PFAD s; v2 = rd VR9_MAC_PFSA_2_PFAD s
      in (IFX_SUCCESS, q\<lparr>cg_nPauseMAC_Src := [ucast (drop_bit 8 v2 AND 0xFF), ucast (v2 AND 0xFF),
           ucast (drop_bit 8 v1 AND 0xFF), ucast (v1 AND 0xFF), ucast (drop_bit 8 v0 AND 0xFF), ucast (v0 AND 0xFF)]\<rparr>))"

definition two_bytes :: "u8 \<Rightarrow> u8 \<Rightarrow> u32" where
  "two_bytes a b = push_bit 8 (ucast a) OR ucast b"

definition IFX_FLOW_CfgSet :: "IFX_ETHSW_cfg \<Rightarrow> 'p core \<Rightarrow> int \<times> 'p core" where
  "IFX_FLOW_CfgSet q s =
     (case age_timer (cg_eMAC_TableAgeTimer q) of (MANT, EXP, seconds) \<Rightarrow>
      let s = upd_dev (\<lambda>d. d\<lparr>MAC_AgeTimer := seconds\<rparr>) s;
          s = wr VR9_PCE_AGE_0_EXP EXP s;
          s = wr VR9_PCE_AGE_1_MANT MANT s;
          value = (if cg_nMaxPacketLen q < 0xFFFF then ucast (cg_nMaxPacketLen q) else 9600);
          s = wr VR9_MAC_FLEN_LEN value s;
          s = (if cg_nMaxPacketLen q > 0x5EE
               then wrs (map (\<lambda>i. (at VR9_MAC_CTRL_2_MLEN (of_nat i * 0xC), 1)) [0..<6]) s else s);
          s = wr VR9_PCE_GCTRL_0_PLIMMOD (cg_bLearningLimitAction q) s;
          s = (if GSWIP_Ver (dev s) = LTQ_GSWIP_2_2 then wr VR9_PCE_GCTRL_0_PLCKMOD (cg_bMAC_SpoofingAction q) s else s);
          s = wr VR9_PCE_GCTRL_0_VLAN (cg_bVLAN_Aware q) s;
          a = cg_nPauseMAC_Src q;
          s = (if cg_bPauseMAC_ModeSrc q = IFX_TRUE
               then wrs [(VR9_MAC_PFAD_CFG_SAMOD, cg_bPauseMAC_ModeSrc q), (VR9_MAC_PFSA_0_PFAD, two_bytes (a ! 4) (a ! 5)),
                      (VR9_MAC_PFSA_1_PFAD, two_bytes (a ! 2) (a ! 3)), (VR9_MAC_PFSA_2_PFAD, two_bytes (a ! 0) (a ! 1))] s
               else s)
      in (IFX_SUCCESS, s))"

section \<open>Reset and initialisation\<close>

text \<open>A read and write of a whole register, \<^verbatim>\<open>GSWIP_REG_ACCESS\<close>.\<close>

definition reg_modify :: "16 word \<Rightarrow> (u32 \<Rightarrow> u32) \<Rightarrow> 'p core \<Rightarrow> 'p core" where
  "reg_modify off f = upd_hw (\<lambda>h. h\<lparr>regs := (regs h)(off := f (regs h off))\<rparr>)"

text \<open>
  \<^verbatim>\<open>platform_device_init\<close>: addresses of the transceivers from the register \<^verbatim>\<open>GFMDIO_ADD\<close> of the chip, and
  settings of port 6 that depend on the identifier of the chip, \<^verbatim>\<open>MPS_CHIPID\<close>. Both registers are not the
  switch's; their values are \<open>gfmdio\<close> and \<open>chipid\<close>. \<open>fe\<close> is \<^verbatim>\<open>CONFIG_FE_MODE\<close>.
\<close>

definition platform_device_init :: "bool \<Rightarrow> u32 \<Rightarrow> u32 \<Rightarrow> 'p core \<Rightarrow> 'p core" where
  "platform_device_init fe gfmdio chipid s =
     (let s = reg_modify 0xC53 (\<lambda>v. (v AND NOT 0x1F) OR (gfmdio AND 0x1F)) s;
          s = reg_modify 0xC52 (\<lambda>v. (v AND NOT 0x1F) OR (drop_bit 5 gfmdio AND 0x1F)) s;
          s = reg_modify 0xC51 (\<lambda>v. (v AND NOT 0x1F) OR (drop_bit 10 gfmdio AND 0x1F)) s;
          s = (if fe then reg_modify 0xC50 (\<lambda>v. (v AND NOT 0x1F) OR (drop_bit 15 gfmdio AND 0x1F)) s else s);
          chip = drop_bit 12 (chipid AND 0xFFF000)
      in if chip \<in> {0x1C0, 0x1C1, 0x1C2, 0x1C8, 0x1C9}
         then reg_modify 0xCCB (\<lambda>v. v OR 0xB) (reg_modify 0x951 (\<lambda>v. v OR push_bit 6 1) s)
         else s)"

definition IFX_FLOW_HW_Init ::
  "('p hw \<Rightarrow> 'p hw) \<Rightarrow> bool \<Rightarrow> u32 \<Rightarrow> u32 \<Rightarrow> 'p core \<Rightarrow> (int \<times> 'p core) option" where
  "IFX_FLOW_HW_Init hwstep fe gfmdio chipid s = do {
     let s = platform_device_init fe gfmdio chipid s;
     let s = upd_dev (\<lambda>d. d\<lparr>bHW_InitCalled := IFX_TRUE\<rparr>) s;
     let s = IFX_FLOW_VLAN_Table_Init s;
     let s = IFX_FLOW_PortCfg_Init s;
     let s = IFX_FLOW_MULTICAST_SW_Table_Init s;
     let s = s\<lparr>pce := (pce s)\<lparr>st_pce := snd (ifx_pce_table_init (st_pce (pce s)))\<rparr>\<rparr>;
     (_, h) \<leftarrow> IFX_VR9_Switch_PCE_Micro_Code_Int hwstep (nPortNumber (dev s)) (hw_of s);
     let s = upd_hw (\<lambda>_. h) s;
     let s = wr (at VR9_MDC_CFG_1_FREQ IFX_ETHSW_FLOW_TOP_REG_OFFSET) 0xFF s;
     let s = wrs (map (\<lambda>j. (at VR9_ANEG_EEE_0_CLK_STOP_CAPABLE (of_nat j + IFX_ETHSW_FLOW_TOP_REG_OFFSET), 0x3))
               [0..<unat (nPortNumber (dev s)) - 1]) s;
     let s = upd_dev (\<lambda>d. d\<lparr>max_mac_bridge_table_size := ucast (rd VR9_ETHSW_CAP_10_MACBT s)\<rparr>) s;
     let s = upd_dev (\<lambda>d. d\<lparr>max_meter_table_size := ucast (rd VR9_ETHSW_CAP_3_METERS s)\<rparr>) s;
     let s = upd_dev (\<lambda>d. d\<lparr>max_shapers_table_size := ucast (rd VR9_ETHSW_CAP_3_SHAPERS s)\<rparr>) s;
     Some (IFX_SUCCESS, upd_dev (\<lambda>d. d\<lparr>GSWIP_Ver := ucast (rd (0x013, 0, 16) s)\<rparr>) s) }"

definition IFX_FLOW_Reset :: "('p hw \<Rightarrow> 'p hw) \<Rightarrow> 'p core \<Rightarrow> (int \<times> 'p core) option" where
  "IFX_FLOW_Reset hwstep s =
     (let s = upd_dev (\<lambda>d. d\<lparr>bResetCalled := IFX_TRUE, bHW_InitCalled := IFX_FALSE\<rparr>) s;
          s = wr VR9_ETHSW_SWRES_R0 1 s
      in map_option (\<lambda>h. (IFX_SUCCESS, upd_hw (\<lambda>_. h) s)) (poll hwstep VR9_ETHSW_SWRES_R0 (hw_of s)))"

definition IFX_FLOW_Enable :: "bool \<Rightarrow> u32 \<Rightarrow> u32 \<Rightarrow> 'p core \<Rightarrow> int \<times> 'p core" where
  "IFX_FLOW_Enable fe gfmdio chipid s =
     (let s = (if bHW_InitCalled (dev s) = IFX_FALSE then platform_device_init fe gfmdio chipid s else s)
      in (IFX_SUCCESS, upd_hw (port_loop (unat (nPortNumber (dev s))) (\<lambda>j.
           [(at VR9_FDMA_PCTRL_EN (of_nat j * 0x6), 1), (at VR9_SDMA_PCTRL_PEN (of_nat j * 0x6), 1),
            (at VR9_BM_PCFG_CNTEN (of_nat j * 2), 1)])) s))"

definition IFX_FLOW_Disable :: "'p core \<Rightarrow> int \<times> 'p core" where
  "IFX_FLOW_Disable s =
     (IFX_SUCCESS, upd_hw (port_loop (unat (nPortNumber (dev s))) (\<lambda>j.
        [(at VR9_FDMA_PCTRL_EN (of_nat j * 0x6), 0), (at VR9_SDMA_PCTRL_PEN (of_nat j * 0x6), 0)])) s)"

section \<open>Monitoring and redirection\<close>

definition IFX_FLOW_MonitorPortCfgGet :: "IFX_ETHSW_monitorPortCfg \<Rightarrow> 'p core \<Rightarrow> int \<times> IFX_ETHSW_monitorPortCfg" where
  "IFX_FLOW_MonitorPortCfgGet q s =
     (let portIdx = unat (mn_nPortId q)
      in if mn_nPortId q \<ge> nTotalPortNumber (dev s) then (IFX_ERROR, q)
      else let value = rd VR9_PCE_PMAP_1_MPMAP s
      in (IFX_SUCCESS, q\<lparr>mn_bMonitorPort :=
           (if drop_bit portIdx (value AND push_bit portIdx 1) = 1 then IFX_TRUE else IFX_FALSE)\<rparr>))"

definition IFX_FLOW_MonitorPortCfgSet :: "IFX_ETHSW_monitorPortCfg \<Rightarrow> 'p core \<Rightarrow> int \<times> 'p core" where
  "IFX_FLOW_MonitorPortCfgSet q s =
     (let portIdx = unat (mn_nPortId q)
      in if mn_nPortId q \<ge> nTotalPortNumber (dev s) then (IFX_ERROR, s)
      else let value = rd VR9_PCE_PMAP_1_MPMAP s;
               value = (if mn_bMonitorPort q = 1 then value OR push_bit portIdx (mn_bMonitorPort q)
                        else value AND NOT (push_bit portIdx 1))
      in (IFX_SUCCESS, wr VR9_PCE_PMAP_1_MPMAP value s))"

text \<open>
  The static variable \<^verbatim>\<open>PortRedirectFlag\<close>, eight bits shared by all devices, is the argument \<open>flag\<close>; a
  setting returns its new value. The loop leaves at the first rule that cannot be written or deleted.
\<close>

definition IFX_FLOW_PortRedirectGet :: "u8 \<Rightarrow> IFX_ETHSW_portRedirectCfg \<Rightarrow> 'p core \<Rightarrow> int \<times> IFX_ETHSW_portRedirectCfg" where
  "IFX_FLOW_PortRedirectGet flag q s =
     (if rr_nPortId q \<ge> nTotalPortNumber (dev s) then (IFX_ERROR, q)
      else (IFX_SUCCESS, q\<lparr>rr_bRedirectEgress := rd (preg VR9_PCE_PCTRL_3_EDIR 0xA (rr_nPortId q)) s,
             rr_bRedirectIngress := (if flag > 0 then IFX_TRUE else IFX_FALSE)\<rparr>))"

definition redirect_rule :: "nat \<Rightarrow> u32 \<Rightarrow> u32 \<Rightarrow> IFX_FLOW_PCE_rule" where
  "redirect_rule i ingress RedirectPort =
     \<lparr>pattern = zero_pattern\<lparr>nIndex := 30 + of_nat i, bEnable := True, bPortIdEnable := True, nPortId := of_nat i\<rparr>,
      action = (if ingress = IFX_TRUE then zero_action\<lparr>ePortMapAction := PORTMAP_ALTERNATIVE\<rparr> else zero_action)
        \<lparr>nForwardPortMap := RedirectPort\<rparr>\<rparr>"

fun redirect_loop :: "('p hw \<Rightarrow> 'p hw) \<Rightarrow> garbage \<Rightarrow> u8 \<Rightarrow> u32 \<Rightarrow> u32 \<Rightarrow> nat list \<Rightarrow> 'p core \<Rightarrow> (int \<times> 'p core) option" where
  "redirect_loop hwstep g flag ingress RedirectPort [] s = Some (IFX_SUCCESS, s)"
| "redirect_loop hwstep g flag ingress RedirectPort (i # is) s = do {
     (e, P) \<leftarrow> (if drop_bit i flag AND 1 = 1 then ifx_pce_rule_write hwstep g (redirect_rule i ingress RedirectPort) (pce s)
                else ifx_pce_pattern_delete hwstep (30 + i) (pce s));
     let s = s\<lparr>pce := P\<rparr>;
     if e \<noteq> 0 then Some (IFX_ERROR, s) else redirect_loop hwstep g flag ingress RedirectPort is s }"

definition IFX_FLOW_PortRedirectSet ::
  "('p hw \<Rightarrow> 'p hw) \<Rightarrow> garbage \<Rightarrow> u8 \<Rightarrow> IFX_ETHSW_portRedirectCfg \<Rightarrow> 'p core \<Rightarrow> (int \<times> u8 \<times> 'p core) option" where
  "IFX_FLOW_PortRedirectSet hwstep g flag q s =
     (if rr_nPortId q \<ge> nTotalPortNumber (dev s) then Some (IFX_ERROR, flag, s)
      else let RedirectPort = push_bit (unat (nManagementPortNumber (dev s)) mod 32) 1;
               s = wr VR9_PCE_PMAP_1_MPMAP RedirectPort s;
               s = wr (preg VR9_PCE_PCTRL_3_EDIR 0xA (rr_nPortId q)) (rr_bRedirectEgress q) s;
               flag = (if rr_bRedirectIngress q = IFX_TRUE then flag OR push_bit (unat (rr_nPortId q)) 1
                       else flag AND NOT (push_bit (unat (rr_nPortId q)) 1))
      in map_option (\<lambda>(e, s). (e, flag, s))
           (redirect_loop hwstep g flag (rr_bRedirectIngress q) RedirectPort [0..<unat (nPortNumber (dev s))] s))"

section \<open>Wake on LAN\<close>

definition IFX_FLOW_WoL_CfgGet :: "IFX_ETHSW_WoL_Cfg \<Rightarrow> 'p core \<Rightarrow> int \<times> IFX_ETHSW_WoL_Cfg" where
  "IFX_FLOW_WoL_CfgGet q s =
     (let high = (\<lambda>F. ucast (drop_bit 8 (rd F s) AND 0xFF)); low = (\<lambda>F. ucast (rd F s AND 0xFF))
      in (IFX_SUCCESS, q\<lparr>wl_bWolPasswordEnable := rd VR9_WOL_GLB_CTRL_PASSEN s,
           wl_nWolMAC := [high VR9_WOL_DA_2_DA2, low VR9_WOL_DA_2_DA2, high VR9_WOL_DA_1_DA1, low VR9_WOL_DA_1_DA1,
             high VR9_WOL_DA_0_DA0, low VR9_WOL_DA_0_DA0],
           wl_nWolPassword := [high VR9_WOL_PW_2_PW2, low VR9_WOL_PW_2_PW2, high VR9_WOL_PW_1_PW1, low VR9_WOL_PW_1_PW1,
             high VR9_WOL_PW_0_PW0, low VR9_WOL_PW_0_PW0]\<rparr>))"

definition IFX_FLOW_WoL_CfgSet :: "IFX_ETHSW_WoL_Cfg \<Rightarrow> 'p core \<Rightarrow> int \<times> 'p core" where
  "IFX_FLOW_WoL_CfgSet q s =
     (let m = wl_nWolMAC q; w = wl_nWolPassword q
      in (IFX_SUCCESS, wrs [(VR9_WOL_GLB_CTRL_PASSEN, wl_bWolPasswordEnable q),
           (VR9_WOL_DA_2_DA2, two_bytes (m ! 0) (m ! 1)), (VR9_WOL_DA_1_DA1, two_bytes (m ! 2) (m ! 3)),
           (VR9_WOL_DA_0_DA0, two_bytes (m ! 4) (m ! 5)),
           (VR9_WOL_PW_2_PW2, two_bytes (w ! 0) (w ! 1)), (VR9_WOL_PW_1_PW1, two_bytes (w ! 2) (w ! 3)),
           (VR9_WOL_PW_0_PW0, two_bytes (w ! 4) (w ! 5))] s))"

definition IFX_FLOW_WoL_PortCfgGet :: "IFX_ETHSW_WoL_PortCfg \<Rightarrow> 'p core \<Rightarrow> int \<times> IFX_ETHSW_WoL_PortCfg" where
  "IFX_FLOW_WoL_PortCfgGet q s =
     (if wo_nPortId q \<ge> nTotalPortNumber (dev s) then (IFX_ERROR, q)
      else (IFX_SUCCESS, q\<lparr>wo_bWakeOnLAN_Enable := rd (preg VR9_WOL_CTRL_PORT 0xA (wo_nPortId q)) s\<rparr>))"

definition IFX_FLOW_WoL_PortCfgSet :: "IFX_ETHSW_WoL_PortCfg \<Rightarrow> 'p core \<Rightarrow> int \<times> 'p core" where
  "IFX_FLOW_WoL_PortCfgSet q s =
     (if wo_nPortId q \<ge> nTotalPortNumber (dev s) then (IFX_ERROR, s)
      else (IFX_SUCCESS, wr (preg VR9_WOL_CTRL_PORT 0xA (wo_nPortId q)) (wo_bWakeOnLAN_Enable q) s))"

section \<open>Registers, interrupts and single rules\<close>

text \<open>
  These two address a register by an unsigned number. \<open>None\<close> when it lies beyond the bank, whose offsets
  are signed: there is no telling what is there.
\<close>

definition IFX_FLOW_RegisterGet :: "IFX_FLOW_register \<Rightarrow> 'p core \<Rightarrow> (int \<times> IFX_FLOW_register) option" where
  "IFX_FLOW_RegisterGet q s =
     (if rg_nRegAddr q \<ge> 0x8000 then None
      else Some (IFX_SUCCESS, q\<lparr>rg_nData := ucast (regs (hw_of s) (rg_nRegAddr q))\<rparr>))"

definition IFX_FLOW_RegisterSet :: "IFX_FLOW_register \<Rightarrow> 'p core \<Rightarrow> (int \<times> 'p core) option" where
  "IFX_FLOW_RegisterSet q s =
     (if rg_nRegAddr q \<ge> 0x8000 then None
      else Some (IFX_SUCCESS, reg_modify (rg_nRegAddr q) (\<lambda>_. ucast (rg_nData q)) s))"

definition IFX_FLOW_IrqGet :: "IFX_FLOW_irq \<Rightarrow> 'p core \<Rightarrow> int" where
  "IFX_FLOW_IrqGet q s = (if iq_nPortId q \<ge> ucast (nTotalPortNumber (dev s)) then IFX_ERROR else IFX_SUCCESS)"

text \<open>The mask is only printed: the second component is the number printed, with the name of the interrupt.\<close>

definition IFX_FLOW_IrqMaskGet :: "IFX_FLOW_irq \<Rightarrow> 'p core \<Rightarrow> int \<times> (string \<times> u32) option" where
  "IFX_FLOW_IrqMaskGet q s =
     (let portIdx = ucast (iq_nPortId q) :: u8
      in if iq_nPortId q \<ge> ucast (nTotalPortNumber (dev s)) then (IFX_ERROR, None)
      else (IFX_SUCCESS,
        if iq_eIrqSrc q = IFX_FLOW_IRQ_WOL then Some (''Wake-on-LAN'', rd (preg VR9_PCE_PIER_WOL 0xA portIdx) s)
        else if iq_eIrqSrc q = IFX_FLOW_IRQ_LIMIT_ALERT then Some (''Port Limit Alert'', rd (preg VR9_PCE_PIER_LOCK 0xA portIdx) s)
        else if iq_eIrqSrc q = IFX_FLOW_IRQ_LOCK_ALERT then Some (''Port Lock Alert'', rd (preg VR9_PCE_PIER_LIM 0xA portIdx) s)
        else None))"

definition IFX_FLOW_IrqMaskSet :: "IFX_FLOW_irq \<Rightarrow> 'p core \<Rightarrow> int \<times> 'p core" where
  "IFX_FLOW_IrqMaskSet q s =
     (let portIdx = ucast (iq_nPortId q) :: u8
      in if iq_nPortId q \<ge> ucast (nTotalPortNumber (dev s)) then (IFX_ERROR, s)
      else (IFX_SUCCESS,
        if iq_eIrqSrc q = IFX_FLOW_IRQ_WOL then wr (preg VR9_PCE_PIER_WOL 0xA portIdx) 1 s
        else if iq_eIrqSrc q = IFX_FLOW_IRQ_LIMIT_ALERT then wr (preg VR9_PCE_PIER_LOCK 0xA portIdx) 1 s
        else if iq_eIrqSrc q = IFX_FLOW_IRQ_LOCK_ALERT then wr (preg VR9_PCE_PIER_LIM 0xA portIdx) 1 s
        else s))"

definition IFX_FLOW_IrqStatusClear :: "IFX_FLOW_irq \<Rightarrow> 'p core \<Rightarrow> int" where
  "IFX_FLOW_IrqStatusClear q s = IFX_SUCCESS"

definition IFX_FLOW_PceRuleRead ::
  "('p hw \<Rightarrow> 'p hw) \<Rightarrow> IFX_FLOW_PCE_rule \<Rightarrow> 'p core \<Rightarrow> (int \<times> IFX_FLOW_PCE_rule \<times> 'p core) option" where
  "IFX_FLOW_PceRuleRead hwstep q s =
     map_option (\<lambda>(r, h). case r of None \<Rightarrow> (IFX_ERROR, q, upd_hw (\<lambda>_. h) s) | Some r \<Rightarrow> (IFX_SUCCESS, r, upd_hw (\<lambda>_. h) s))
       (ifx_pce_rule_read hwstep (nIndex (pattern q)) (st_pce (pce s)) (hw_of s))"

definition IFX_FLOW_PceRuleWrite ::
  "('p hw \<Rightarrow> 'p hw) \<Rightarrow> garbage \<Rightarrow> IFX_FLOW_PCE_rule \<Rightarrow> 'p core \<Rightarrow> (int \<times> 'p core) option" where
  "IFX_FLOW_PceRuleWrite hwstep g q s = rule_write hwstep g q s"

definition IFX_FLOW_PceRuleDelete ::
  "('p hw \<Rightarrow> 'p hw) \<Rightarrow> IFX_FLOW_PCE_ruleDelete \<Rightarrow> 'p core \<Rightarrow> (int \<times> 'p core) option" where
  "IFX_FLOW_PceRuleDelete hwstep q s = do {
     (e, P) \<leftarrow> ifx_pce_pattern_delete hwstep (unat (rd_nIndex q)) (pce s);
     let s = s\<lparr>pce := P\<rparr>;
     if e \<noteq> 0 then Some (IFX_ERROR, s)
     else do {
       (e, P) \<leftarrow> ifx_pce_action_delete hwstep (unat (rd_nIndex q)) (pce s);
       let s = s\<lparr>pce := P\<rparr>;
       Some (if e \<noteq> 0 then IFX_ERROR else IFX_SUCCESS, s) } }"

section \<open>Reset and initialisation restore the invariant\<close>

text \<open>
  A reset ends, with an idle device whose tables are empty, and what the device reports of its ports
  unchanged.
\<close>

locale reset_engine = pce_engine hwstep tbl keep stable
  for hwstep :: "'p hw \<Rightarrow> 'p hw" and tbl keep stable +
  assumes resets: "rdf VR9_ETHSW_SWRES_R0 h = 1 \<Longrightarrow> \<exists>h'. poll hwstep VR9_ETHSW_SWRES_R0 h = Some h' \<and> idle h' \<and>
      (\<forall>t i. driver_tbl tbl h' t i = keep t zero_img) \<and> regs h' 0x007 = regs h 0x007"

lemma engine_reset: "reset_engine hwstep tbl keep S \<Longrightarrow> pce_engine hwstep tbl keep S"
  by (simp add: reset_engine_def)

lemma reg_modify_simps [simp]:
  "dev (reg_modify off f s) = dev s" "st_pce (pce (reg_modify off f s)) = st_pce (pce s)"
  "st_ent (pce (reg_modify off f s)) = st_ent (pce s)" "priv (hw_of (reg_modify off f s)) = priv (hw_of s)"
  "off \<noteq> o' \<Longrightarrow> regs (hw_of (reg_modify off f s)) o' = regs (hw_of s) o'"
  by (simp_all add: reg_modify_def)

lemma platform_init_frame:
  "dev (platform_device_init fe a c s) = dev s" "st_pce (pce (platform_device_init fe a c s)) = st_pce (pce s)"
  "st_ent (pce (platform_device_init fe a c s)) = st_ent (pce s)"
  "dtbl tbl (platform_device_init fe a c s) = dtbl tbl s"
  "off \<notin> {0xC50, 0xC51, 0xC52, 0xC53, 0x951, 0xCCB} \<Longrightarrow> regs (hw_of (platform_device_init fe a c s)) off = regs (hw_of s) off"
  by (simp_all add: platform_device_init_def Let_def driver_tbl_def fun_eq_iff)

lemma fold_update_all: "fold (\<lambda>i t. t[i := z]) [0..<length t] t = replicate (length t) z"
  by (rule nth_equalityI) (simp_all add: fold_update_nth)

lemma vlan_clear:
  "length (VLAN_Table (dev s)) = 64 \<Longrightarrow> IFX_FLOW_VLAN_Table_Init s = upd_dev (\<lambda>d. d\<lparr>VLAN_Table := replicate 64 zero_vlan\<rparr>) s"
  using fold_update_all [of zero_vlan "VLAN_Table (dev s)"]
  unfolding IFX_FLOW_VLAN_Table_Init_def fold_upd_dev by (simp add: upd_dev_def fold_clear)

lemma port_restart:
  assumes n: "n = unat (rd VR9_ETHSW_CAP_1_PPORTS s)" and m: "m = unat (rd VR9_ETHSW_CAP_1_VPORTS s)"
    and nm: "n + m \<le> MAX_PORT_NUMBER" and l: "length (PortConfig (dev s)) = MAX_PORT_NUMBER"
  obtains d where "IFX_FLOW_PortCfg_Init s = upd_dev (\<lambda>_. d) s" "unat (nPortNumber d) = n" "unat (nTotalPortNumber d) = n + m"
    "VLAN_Table d = VLAN_Table (dev s)" "length (PortConfig d) = MAX_PORT_NUMBER"
    "\<forall>j<MAX_PORT_NUMBER. PortConfig d ! j = (if j < n then init_port else PortConfig (dev s) ! j)"
proof -
  let ?n = "rd VR9_ETHSW_CAP_1_PPORTS s" and ?m = "rd VR9_ETHSW_CAP_1_VPORTS s"
  have n8: "unat (ucast ?n :: u8) = n" using nm n by (simp add: unsigned_ucast_eq take_bit_nat_eq_self)
  have m8: "unat (ucast (?m + ucast (ucast ?n :: u8)) :: u8) = n + m"
  proof -
    have "unat (ucast (ucast ?n :: u8) :: u32) = unat ?n" using n8 n by simp
    then have e: "(ucast (ucast ?n :: u8) :: u32) = ?n" by (rule unsigned_word_eqI)
    have "unat (?m + ?n) = n + m" using nm n m by (simp add: unat_word_ariths)
    then show ?thesis using nm unfolding e by (simp add: unsigned_ucast_eq take_bit_nat_eq_self)
  qed
  let ?d = "(dev s)\<lparr>nPortNumber := ucast ?n, PortConfig := fold (\<lambda>i t. t[i := init_port]) [0..<n] (PortConfig (dev s)),
      STP_8021x_Config := (STP_8021x_Config (dev s))\<lparr>eForwardPort := 0, n8021X_ForwardPortId := nCPU_Port (dev s)\<rparr>,
      nTotalPortNumber := ucast (?m + ucast (ucast ?n :: u8))\<rparr>"
  show thesis
  proof (rule that)
    show "IFX_FLOW_PortCfg_Init s = upd_dev (\<lambda>_. ?d) s"
      unfolding IFX_FLOW_PortCfg_Init_def Let_def fold_upd_dev
      by (simp add: upd_dev_def fold_ports n8 flip: init_port_def)
  qed (use n8 m8 l in \<open>simp_all add: fold_update_nth\<close>)
qed

lemma hw_init_spec:
  assumes E: "pce_engine hwstep tbl keep S" and h: "idle (hw_of s)"
    and n: "n = unat (rd VR9_ETHSW_CAP_1_PPORTS s)" and m: "m = unat (rd VR9_ETHSW_CAP_1_VPORTS s)"
    and nm: "n + m \<le> MAX_PORT_NUMBER" and S: "mc_regs n \<subseteq> S"
    and z: "\<And>t i. dtbl tbl s t i = keep t zero_img" and d: "dev_ok (dev s)" and P: "shape (st_pce (pce s))"
  obtains s' where "IFX_FLOW_HW_Init hwstep fe gfmdio chipid s = Some (IFX_SUCCESS, s')" "core_inv tbl keep s'"
    "vlan_map (dev s') = Map.empty" "used_rules (st_pce (pce s')) = 0"
    "unat (nPortNumber (dev s')) = n" "unat (nTotalPortNumber (dev s')) = n + m" "bHW_InitCalled (dev s') = 1"
    "\<And>j. j < n \<Longrightarrow> PortConfig (dev s') ! j = init_port"
    "\<And>k. k < 64 \<Longrightarrow> dtbl tbl s' 0 k = keep 0 (img_of (mc_entry k (pce_mc_max_ifx_tag_m ! k)))"
proof -
  define s0 where "s0 = upd_dev (\<lambda>d. d\<lparr>bHW_InitCalled := IFX_TRUE\<rparr>) (platform_device_init fe gfmdio chipid s)"
  have r0: "rd (0x007, sh, sz) s0 = rd (0x007, sh, sz) s" for sh sz
    unfolding s0_def upd_dev_simps by (rule rdf_regs) (simp add: platform_init_frame(5))
  have h0: "idle (hw_of s0)"
  proof -
    have "rd TBL_CTRL_BAS s0 = rd TBL_CTRL_BAS s"
      unfolding s0_def upd_dev_simps by (rule rdf_regs) (simp add: platform_init_frame(5))
    with h show ?thesis by (simp add: idle_def)
  qed
  have t0: "dtbl tbl s0 t i = keep t zero_img" for t i by (simp add: s0_def platform_init_frame z)
  define s1 where "s1 = IFX_FLOW_VLAN_Table_Init s0"
  have s1: "s1 = upd_dev (\<lambda>d. d\<lparr>VLAN_Table := replicate 64 zero_vlan\<rparr>) s0"
    unfolding s1_def by (rule vlan_clear) (use d in \<open>simp add: s0_def platform_init_frame dev_ok_def\<close>)
  have l1: "length (PortConfig (dev s1)) = MAX_PORT_NUMBER" using d by (simp add: s1 s0_def platform_init_frame dev_ok_def)
  have nm1: "n = unat (rd VR9_ETHSW_CAP_1_PPORTS s1)" "m = unat (rd VR9_ETHSW_CAP_1_VPORTS s1)" using n m r0 by (simp_all add: s1)
  obtain d2 where d2: "IFX_FLOW_PortCfg_Init s1 = upd_dev (\<lambda>_. d2) s1" "unat (nPortNumber d2) = n" "unat (nTotalPortNumber d2) = n + m"
    "VLAN_Table d2 = VLAN_Table (dev s1)" "length (PortConfig d2) = MAX_PORT_NUMBER"
    "\<forall>j<MAX_PORT_NUMBER. PortConfig d2 ! j = (if j < n then init_port else PortConfig (dev s1) ! j)"
    by (rule port_restart [OF nm1 nm l1])
  obtain G where G: "IFX_FLOW_MULTICAST_SW_Table_Init (upd_dev (\<lambda>_. d2) s1)
      = upd_dev (\<lambda>d. d\<lparr>IGMP_Flags := G\<rparr>) (upd_dev (\<lambda>_. d2) s1)"
    by (rule sw_init)
  let ?P = "snd (ifx_pce_table_init (st_pce (pce s)))"
  define s3 where "s3 = (let s = upd_dev (\<lambda>_. d2\<lparr>IGMP_Flags := G\<rparr>) s1 in s\<lparr>pce := (pce s)\<lparr>st_pce := ?P\<rparr>\<rparr>)"
  have s3: "dev s3 = d2\<lparr>IGMP_Flags := G\<rparr>" "hw_of s3 = hw_of s0" "st_pce (pce s3) = ?P" by (simp_all add: s3_def s1)
  from micro_code_spec [OF E h0, of "nPortNumber d2"] d2(2) nm S
  obtain h1 where h1: "IFX_VR9_Switch_PCE_Micro_Code_Int hwstep (nPortNumber d2) (hw_of s0) = Some (IFX_SUCCESS, h1)" "idle h1"
    "\<forall>k<64. driver_tbl tbl h1 0 k = keep 0 (img_of (mc_entry k (pce_mc_max_ifx_tag_m ! k)))"
    "\<forall>t k. t \<noteq> 0 \<longrightarrow> driver_tbl tbl h1 t k = dtbl tbl s0 t k" by auto
  let ?ws = "map (\<lambda>j. (at VR9_ANEG_EEE_0_CLK_STOP_CAPABLE (of_nat j + IFX_ETHSW_FLOW_TOP_REG_OFFSET), 0x3 :: u32)) [0..<n - 1]"
  define s4 where "s4 = wrs ?ws (wr (at VR9_MDC_CFG_1_FREQ IFX_ETHSW_FLOW_TOP_REG_OFFSET) 0xFF (upd_hw (\<lambda>_. h1) s3))"
  let ?d4 = "d2\<lparr>IGMP_Flags := G, max_mac_bridge_table_size := ucast (rd VR9_ETHSW_CAP_10_MACBT s4),
      max_meter_table_size := ucast (rd VR9_ETHSW_CAP_3_METERS s4), max_shapers_table_size := ucast (rd VR9_ETHSW_CAP_3_SHAPERS s4),
      GSWIP_Ver := ucast (rd (0x013, 0, 16) s4)\<rparr>"
  have run: "IFX_FLOW_HW_Init hwstep fe gfmdio chipid s = Some (IFX_SUCCESS, s4\<lparr>dev := ?d4\<rparr>)"
  proof -
    have c: "upd_dev (\<lambda>d. d\<lparr>IGMP_Flags := G\<rparr>) (upd_dev (\<lambda>_. d2) s1) = upd_dev (\<lambda>_. d2\<lparr>IGMP_Flags := G\<rparr>) s1"
      by (simp add: upd_dev_def)
    have p: "st_pce (pce (upd_dev (\<lambda>_. d2\<lparr>IGMP_Flags := G\<rparr>) s1)) = st_pce (pce s)" by (simp add: s1 s0_def platform_init_frame)
    have h: "hw_of s3 = hw_of s0" "nPortNumber (dev s3) = nPortNumber d2" by (simp_all add: s3)
    have n4: "unat (nPortNumber (dev (wr F v (upd_hw (\<lambda>_. h1) s3)))) = n" for F v using d2(2) by (simp add: s3)
    have d4: "dev s4 = d2\<lparr>IGMP_Flags := G\<rparr>" by (simp add: s4_def s3)
    show ?thesis
      unfolding IFX_FLOW_HW_Init_def s0_def [symmetric] s1_def [symmetric] d2(1) G c Let_def p
        s3_def [unfolded Let_def p, symmetric] h h1(1)
      by (simp only: bind.bind_lunit prod.case n4 flip: s4_def) (simp add: upd_dev_def d4)
  qed
  have hw: "hw_of s4 = wrfs ?ws (wrf (at VR9_MDC_CFG_1_FREQ IFX_ETHSW_FLOW_TOP_REG_OFFSET) 0xFF h1)" by (simp add: s4_def)
  have t4: "dtbl tbl s4 t k = driver_tbl tbl h1 t k" for t k unfolding hw by (simp add: driver_tbl_def)
  have i4: "idle (hw_of s4)"
  proof -
    have "rdf TBL_CTRL_BAS (wrfs ?ws h2) = rdf TBL_CTRL_BAS h2" for h2 :: "'a hw"
      by (rule wrfs_other) (auto simp: fdisj.simps)
    then have "rdf TBL_CTRL_BAS (hw_of s4) = rdf TBL_CTRL_BAS h1" by (simp add: hw rdf_wrf_other)
    with h1(2) show ?thesis by (simp add: idle_def)
  qed
  have pst: "st_pce (pce s4) = ?P" by (simp add: s4_def s3)
  have e4: "pce s4 = \<lparr>st_pce = ?P, st_hw = hw_of s4, st_ent = st_ent (pce s4)\<rparr>" by (rule pce_st.equality) (simp_all add: pst)
  have "0 < tno k" for k by (cases k) simp_all
  then have z4: "\<forall>k. \<forall>i<tsize k. dtbl tbl s4 (tno k) i = keep (tno k) zero_img" using t0 h1(4) by (simp add: t4)
  have inv: "rules_inv tbl keep (pce s4)"
    by (subst e4, rule table_init_inv) (use i4 z4 P in \<open>simp_all add: shape_def\<close>)
  have vt: "VLAN_Table ?d4 = replicate 64 zero_vlan" by (simp add: d2(4) s1)
  note f = fresh_table [OF vt]
  have "vlan_mirror tbl keep (s4\<lparr>dev := ?d4\<rparr>)"
    using t0 h1(4) vt by (simp add: vlan_mirror_def t4)
  moreover have "dev_ok ?d4" using d2(2,3,5) nm vt by (simp add: dev_ok_def)
  ultimately have I: "core_inv tbl keep (s4\<lparr>dev := ?d4\<rparr>)" using inv f(1) by (simp add: core_inv_def)
  have u: "used_rules ?P = 0" by (simp add: used_rules_def ifx_pce_table_init_def)
  have b: "bHW_InitCalled d2 = 1"
    using arg_cong [OF d2(1), of "\<lambda>s. bHW_InitCalled (dev s)"]
    by (simp add: IFX_FLOW_PortCfg_Init_def Let_def fold_upd_dev fold_ports s1 s0_def)
  show thesis
    by (rule that [OF run I]) (use f(2) u pst d2(2,3,6) nm b h1(3) t4 in auto)
qed

lemma reset_spec:
  assumes R: "reset_engine hwstep tbl keep S"
  obtains h where "IFX_FLOW_Reset hwstep s = Some (IFX_SUCCESS, upd_hw (\<lambda>_. h)
      (upd_dev (\<lambda>d. d\<lparr>bResetCalled := 1, bHW_InitCalled := 0\<rparr>) s))" "idle h"
    "\<And>t i. driver_tbl tbl h t i = keep t zero_img" "regs h 0x007 = regs (hw_of s) 0x007"
proof -
  have "rdf VR9_ETHSW_SWRES_R0 (wrf VR9_ETHSW_SWRES_R0 1 (hw_of s)) = 1" by (simp add: rdf_wrf_same mask_eq_exp_minus_1)
  from reset_engine.resets [OF R this] obtain h where
    h: "poll hwstep VR9_ETHSW_SWRES_R0 (wrf VR9_ETHSW_SWRES_R0 1 (hw_of s)) = Some h" "idle h"
      "\<forall>t i. driver_tbl tbl h t i = keep t zero_img" "regs h 0x007 = regs (wrf VR9_ETHSW_SWRES_R0 1 (hw_of s)) 0x007" by blast
  show thesis
    by (rule that [of h]) (use h in \<open>simp_all add: IFX_FLOW_Reset_def Let_def upd_hw_def wr_def\<close>)
qed

text \<open>
  The sequence of a restart: a reset and an initialisation. Whatever rules and VLANs there were, driver and
  device are in step again, with none of them.
\<close>

lemma restart_spec:
  assumes R: "reset_engine hwstep tbl keep S" and I: "core_inv tbl keep s" and n: "n = unat (rd VR9_ETHSW_CAP_1_PPORTS s)"
    and m: "m = unat (rd VR9_ETHSW_CAP_1_VPORTS s)" and nm: "n + m \<le> MAX_PORT_NUMBER" and S: "mc_regs n \<subseteq> S"
  obtains s1 s2 where "IFX_FLOW_Reset hwstep s = Some (IFX_SUCCESS, s1)"
    "IFX_FLOW_HW_Init hwstep fe gfmdio chipid s1 = Some (IFX_SUCCESS, s2)" "core_inv tbl keep s2"
    "vlan_map (dev s2) = Map.empty" "used_rules (st_pce (pce s2)) = 0"
    "unat (nPortNumber (dev s2)) = n" "unat (nTotalPortNumber (dev s2)) = n + m" "bHW_InitCalled (dev s2) = 1"
    "\<And>j. j < n \<Longrightarrow> PortConfig (dev s2) ! j = init_port"
    "\<And>k. k < 64 \<Longrightarrow> dtbl tbl s2 0 k = keep 0 (img_of (mc_entry k (pce_mc_max_ifx_tag_m ! k)))"
proof -
  obtain h where h: "IFX_FLOW_Reset hwstep s = Some (IFX_SUCCESS, upd_hw (\<lambda>_. h)
      (upd_dev (\<lambda>d. d\<lparr>bResetCalled := 1, bHW_InitCalled := 0\<rparr>) s))" "idle h"
    "\<And>t i. driver_tbl tbl h t i = keep t zero_img" "regs h 0x007 = regs (hw_of s) 0x007"
    by (rule reset_spec [OF R, of s]) blast
  let ?s1 = "upd_hw (\<lambda>_. h) (upd_dev (\<lambda>d. d\<lparr>bResetCalled := 1, bHW_InitCalled := 0\<rparr>) s)"
  have r: "rd (0x007, sh, sz) ?s1 = rd (0x007, sh, sz) s" for sh sz
    unfolding upd_hw_simps by (rule rdf_regs) (simp add: h(4))
  have n1: "n = unat (rd VR9_ETHSW_CAP_1_PPORTS ?s1)" "m = unat (rd VR9_ETHSW_CAP_1_VPORTS ?s1)"
    by (simp_all only: r n m)
  have i1: "idle (hw_of ?s1)" and z1: "\<And>t i. dtbl tbl ?s1 t i = keep t zero_img" using h(2,3) by simp_all
  have d1: "dev_ok (dev ?s1)" using core_inv_simps(3) [OF I] by (simp add: dev_ok_def)
  have p1: "shape (st_pce (pce ?s1))" using I by (simp add: core_inv_def rules_inv_def st_ok_def)
  show thesis
    by (rule hw_init_spec [OF engine_reset [OF R] i1 n1 nm S z1 d1 p1, of fe gfmdio chipid]) (rule that [OF h(1)])
qed

text \<open>A device that can be reset: it finishes the access it is at, then empties its tables.\<close>

definition emptied :: "mac_priv hw \<Rightarrow> mac_priv hw" where
  "emptied h = wrf VR9_ETHSW_SWRES_R0 0 (h\<lparr>priv := (priv h)\<lparr>m_rows := (\<lambda>_ _. zero_img)\<rparr>\<rparr>)"

definition resetting_step :: "mac_priv hw \<Rightarrow> mac_priv hw" where
  "resetting_step h = (if \<not> idle h then learning_step h else if rdf VR9_ETHSW_SWRES_R0 h \<noteq> 0 then emptied h else h)"

lemma learning_step_busy: "\<not> idle h \<Longrightarrow> idle (learning_step h)"
  unfolding learning_step_def by (simp add: idle_clear_bas [simplified])

lemma resetting_poll: "poll resetting_step TBL_CTRL_BAS h = poll learning_step TBL_CTRL_BAS h"
proof (cases "idle h")
  case False
  then have r: "rdf TBL_CTRL_BAS h \<noteq> 0" "rdf TBL_CTRL_BAS (learning_step h) = 0" "resetting_step h = learning_step h"
    using learning_step_busy [OF False] by (simp_all add: idle_def resetting_step_def)
  show ?thesis using poll_step [OF r(1), of resetting_step] poll_step [OF r(1), of learning_step] r(2,3) by simp
qed (simp add: idle_def)

lemma resetting_reset:
  assumes "rdf VR9_ETHSW_SWRES_R0 h = 1"
  shows "\<exists>h'. poll resetting_step VR9_ETHSW_SWRES_R0 h = Some h' \<and> idle h' \<and>
    (\<forall>t i. driver_tbl learning_tbl h' t i = zero_img) \<and> regs h' 0x007 = regs h 0x007"
proof -
  have e: "\<exists>h'. poll resetting_step VR9_ETHSW_SWRES_R0 k = Some h' \<and> idle h' \<and>
      (\<forall>t i. driver_tbl learning_tbl h' t i = zero_img) \<and> regs h' 0x007 = regs k 0x007"
    if k: "idle k" "rdf VR9_ETHSW_SWRES_R0 k \<noteq> 0" for k
  proof -
    have s: "resetting_step k = emptied k" using k by (simp add: resetting_step_def)
    have "rdf TBL_CTRL_BAS (emptied k) = rdf TBL_CTRL_BAS k"
      by (rule rdf_regs) (simp add: emptied_def)
    then have i: "idle (emptied k)" using k(1) by (simp add: idle_def)
    have "rdf VR9_ETHSW_SWRES_R0 (emptied k) = 0" unfolding emptied_def by (simp add: rdf_wrf_same)
    then have "poll resetting_step VR9_ETHSW_SWRES_R0 k = Some (emptied k)" using poll_step [OF k(2), of resetting_step] by (simp add: s)
    moreover have "driver_tbl learning_tbl (emptied k) t i = zero_img" for t i
      by (simp add: driver_tbl_def learning_tbl_def emptied_def)
    moreover have "regs (emptied k) 0x007 = regs k 0x007" by (simp add: emptied_def)
    ultimately show ?thesis using i by blast
  qed
  show ?thesis
  proof (cases "idle h")
    case True with e [OF True] assms show ?thesis by simp
  next
    case False
    have s: "resetting_step h = learning_step h" using False by (simp add: resetting_step_def)
    have w: "regs (learning_step h) off = regs h off" if "\<not> in_window off" for off
      using that False by (simp add: learning_step_def mac_exec_frame(1) in_window_def)
    have "rdf VR9_ETHSW_SWRES_R0 (learning_step h) = rdf VR9_ETHSW_SWRES_R0 h"
      by (rule rdf_regs) (simp add: w in_window_def)
    moreover have "poll resetting_step VR9_ETHSW_SWRES_R0 h = poll resetting_step VR9_ETHSW_SWRES_R0 (learning_step h)"
      using poll_step [of VR9_ETHSW_SWRES_R0 h resetting_step] assms by (simp add: s)
    ultimately show ?thesis using e [OF learning_step_busy [OF False]] assms w [of "0x007"] by (simp add: in_window_def)
  qed
qed

interpretation resetting: reset_engine resetting_step learning_tbl "\<lambda>_ m. m" UNIV
  by unfold_locales (use learning.completes learning.adwr learning.adrd learning.frame resetting_reset
      in \<open>simp_all only: resetting_poll, blast+\<close>)

section \<open>What the settings do\<close>

text \<open>
  The configuration read back. The version tells whether the spoofing action is kept; the length is cut to
  14 bits; the source of pause frames is kept only when the request switches it on.
\<close>

lemma two_bytes_back: "ucast (drop_bit 8 (two_bytes a b AND mask 16) AND 0xFF) = a" "ucast ((two_bytes a b AND mask 16) AND 0xFF) = b"
proof -
  have m: "(0xFF :: u32) = mask 8" by (simp add: mask_eq_exp_minus_1)
  show "ucast (drop_bit 8 (two_bytes a b AND mask 16) AND 0xFF) = a" "ucast ((two_bytes a b AND mask 16) AND 0xFF) = b"
    unfolding two_bytes_def m by (rule bit_word_eqI; auto simp: bit_simps dest: bit_imp_le_length)+
qed

section \<open>Redirection\<close>

lemma core_inv_pce:
  assumes I: "core_inv tbl keep s" and P: "rules_inv tbl keep P"
    and t: "\<And>t. t \<notin> range tno \<Longrightarrow> t \<noteq> 15 \<Longrightarrow> driver_tbl tbl (st_hw P) t = dtbl tbl s t"
  shows "core_inv tbl keep (s\<lparr>pce := P\<rparr>)"
proof -
  have t12: "1 \<notin> range tno" "2 \<notin> range tno" using tno_not_vlan by (metis rangeE)+
  then have "vlan_mirror tbl keep (s\<lparr>pce := P\<rparr>)"
    using core_inv_simps(4) [OF I] t [of 1] t [of 2] by (simp add: vlan_mirror_def)
  with I P show ?thesis by (simp add: core_inv_def)
qed

text \<open>
  The other rules: their rows in the driver, and what a read of them returns (\<open>rule_core\<close>: IP addresses aside).
  \<open>only_rules\<close>: rules with index in \<open>A\<close> may change; of the device only their rows and the pattern tables do.
\<close>

definition rules_same :: "nat set \<Rightarrow> IFX_PCE \<Rightarrow> IFX_PCE \<Rightarrow> bool" where
  "rules_same A P P' \<longleftrightarrow> (\<forall>r. r \<notin> A \<longrightarrow> pce_tbl_used P' ! r = pce_tbl_used P ! r \<and>
     pce_tbl P' ! r = pce_tbl P ! r \<and> pce_act P' ! r = pce_act P ! r)"

definition core_of :: "('p \<Rightarrow> nat \<Rightarrow> nat \<Rightarrow> pce_img) \<Rightarrow> 'p core \<Rightarrow> u32 \<Rightarrow> IFX_FLOW_PCE_rule option" where
  "core_of tbl s n = rule_core (dtbl tbl s) (st_pce (pce s)) n"

definition cores_same :: "('p \<Rightarrow> nat \<Rightarrow> nat \<Rightarrow> pce_img) \<Rightarrow> nat set \<Rightarrow> 'p core \<Rightarrow> 'p core \<Rightarrow> bool" where
  "cores_same tbl A s s' \<longleftrightarrow> (\<forall>n. unat n < IFX_PCE_TBL_SIZE \<and> unat n \<notin> A \<longrightarrow> core_of tbl s' n = core_of tbl s n)"

definition only_rules :: "('p \<Rightarrow> nat \<Rightarrow> nat \<Rightarrow> pce_img) \<Rightarrow> 16 word set \<Rightarrow> nat set \<Rightarrow> 'p core \<Rightarrow> 'p core \<Rightarrow> bool" where
  "only_rules tbl S A s s' \<longleftrightarrow> dev s' = dev s \<and> rules_same A (st_pce (pce s)) (st_pce (pce s')) \<and> cores_same tbl A s s' \<and>
     (\<forall>t. t \<notin> range tno \<and> t \<noteq> 15 \<longrightarrow> dtbl tbl s' t = dtbl tbl s t) \<and>
     (\<forall>off\<in>S. \<not> in_window off \<longrightarrow> regs (hw_of s') off = regs (hw_of s) off)"

lemma only_rules_refl: "only_rules tbl S A s s"
  by (simp add: only_rules_def rules_same_def cores_same_def)

lemma only_rules_trans:
  assumes "only_rules tbl S A s t" "only_rules tbl S B t u" "A \<subseteq> C" "B \<subseteq> C"
  shows "only_rules tbl S C s u"
proof -
  have "rules_same C (st_pce (pce s)) (st_pce (pce u))"
    unfolding rules_same_def
  proof (intro allI impI)
    fix r assume "r \<notin> C"
    then have "r \<notin> A" "r \<notin> B" using assms(3,4) by auto
    then show "pce_tbl_used (st_pce (pce u)) ! r = pce_tbl_used (st_pce (pce s)) ! r \<and>
      pce_tbl (st_pce (pce u)) ! r = pce_tbl (st_pce (pce s)) ! r \<and> pce_act (st_pce (pce u)) ! r = pce_act (st_pce (pce s)) ! r"
      using assms(1,2) by (simp add: only_rules_def rules_same_def)
  qed
  moreover have "cores_same tbl C s u" using assms unfolding only_rules_def cores_same_def by (metis in_mono)
  ultimately show ?thesis using assms(1,2) by (simp add: only_rules_def)
qed

lemma only_rules_frame:
  assumes "core_inv tbl keep s" "core_inv tbl keep (s\<lparr>pce := P\<rparr>)" "rule_frame tbl S i (pce s) P" "i < IFX_PCE_TBL_SIZE"
  shows "only_rules tbl S {i} s (s\<lparr>pce := P\<rparr>)"
proof -
  have "rules_inv tbl keep (pce s)" "st_ok tbl keep P" using assms(1,2) by (simp_all add: core_inv_def rules_inv_def)
  then have "cores_same tbl {i} s (s\<lparr>pce := P\<rparr>)"
    using rule_frame_core [OF _ _ assms(3)] assms(4) by (simp add: cores_same_def core_of_def)
  then show ?thesis using assms(3) by (auto simp: only_rules_def rule_frame_def rules_same_def)
qed

lemma only_rules_rd: "only_rules tbl S A s s' \<Longrightarrow> fst F \<in> S \<Longrightarrow> \<not> in_window (fst F) \<Longrightarrow> rd F s' = rd F s"
  unfolding only_rules_def by (rule rdf_regs) simp

text \<open>
  A rule is installed if it is in use and a read returns it: its action, and its pattern in normal form
  without IP addresses. A write needs room only in the three large tables, as long as fewer than 15 rules are in use.
\<close>

abbreviation rule_no :: "IFX_FLOW_PCE_rule \<Rightarrow> nat" where
  "rule_no r \<equiv> unat (nIndex (pattern r))"

definition installed :: "('p \<Rightarrow> nat \<Rightarrow> nat \<Rightarrow> pce_img) \<Rightarrow> IFX_FLOW_PCE_rule \<Rightarrow> 'p core \<Rightarrow> bool" where
  "installed tbl r s \<longleftrightarrow> pce_tbl_used (st_pce (pce s)) ! rule_no r \<noteq> 0 \<and>
     core_of tbl s (nIndex (pattern r)) = Some \<lparr>pattern = normal (pattern r), action = action r\<rparr>"

lemma installed_same:
  "only_rules tbl S A s s' \<Longrightarrow> rule_no r \<notin> A \<Longrightarrow> rule_no r < IFX_PCE_TBL_SIZE \<Longrightarrow> installed tbl r s' = installed tbl r s"
  by (simp add: only_rules_def rules_same_def cores_same_def installed_def)

definition large_tables :: "garbage \<Rightarrow> IFX_FLOW_PCE_rule \<Rightarrow> bool" where
  "large_tables g r \<longleftrightarrow> (\<forall>f. want g (pattern r) f \<noteq> None \<longrightarrow> fkind f \<in> {APPL, IPLSB, PTCL})"

lemma large_room:
  assumes "covered P" "used_rules P \<le> 15" "k \<in> {APPL, IPLSB, PTCL}"
  shows "\<not> table_full k (pce_sub_tbl P)"
proof (rule no_table_full_kind [OF assms(1)])
  have "used_rules P * card {f. fkind f = k} \<le> 15 * 2"
    using assms(2,3) fields_of_kind [of k] by (intro mult_le_mono) auto
  then show "used_rules P * card {f. fkind f = k} < tsize k" using assms(3) by (auto simp: tbl_sizes)
qed

lemma rule_write_act:
  assumes E: "pce_engine hwstep tbl keep S" and I: "core_inv tbl keep s"
    and r: "rule_no r < IFX_PCE_TBL_SIZE" "fits (pattern r)" "act_ok (action r)" and v: "\<not> bVid (pattern r)"
    and n: "(\<forall>f. want g (pattern r) f = None) \<or> large_tables g r \<and> used_rules (st_pce (pce s)) < 15"
  obtains P where "ifx_pce_rule_write hwstep g r (pce s) = Some (0, P)" "core_inv tbl keep (s\<lparr>pce := P\<rparr>)"
    "installed tbl r (s\<lparr>pce := P\<rparr>)" "only_rules tbl S {rule_no r} s (s\<lparr>pce := P\<rparr>)"
    "used_rules (st_pce P) \<le> Suc (used_rules (st_pce (pce s)))"
proof -
  let ?i = "unat (nIndex (pattern r))"
  have Rv: "rules_inv tbl keep (pce s)" using I by (simp add: core_inv_def)
  have fr: "\<And>t. t \<notin> range tno \<Longrightarrow> t \<noteq> 15 \<Longrightarrow> driver_tbl tbl (st_hw P) t = dtbl tbl s t"
    if "rule_frame tbl S ?i (pce s) P" for P using that by (simp add: rule_frame_def)
  have en: "bEnable (pattern r)" using r(2) by (simp add: fits_def)
  show thesis
  proof (rule rule_write_cases [OF E Rv r(1) en, of g], goal_cases)
    case (1 h')
    have "pce_tbl_used (st_pce (pce s)) ! ?i \<noteq> 0"
    proof
      assume "pce_tbl_used (st_pce (pce s)) ! ?i = 0"
      then have "r = \<lparr>pattern = zero_pattern\<lparr>nIndex := nIndex (pattern r)\<rparr>, action = zero_action\<rparr>"
        using 1(6) by (simp add: rule_value_def)
      then have "bEnable (pattern r) = bEnable (zero_pattern\<lparr>nIndex := nIndex (pattern r)\<rparr>)"
        by (metis IFX_FLOW_PCE_rule.select_convs(1))
      then show False using en by (simp add: zero_pattern_def)
    qed
    then have "installed tbl r (s\<lparr>pce := (pce s)\<lparr>st_hw := h'\<rparr>\<rparr>)"
      using read_core [OF 1(6)] 1(4) by (simp add: installed_def core_of_def)
    moreover have Ic: "core_inv tbl keep (s\<lparr>pce := (pce s)\<lparr>st_hw := h'\<rparr>\<rparr>)"
      using 1 by (intro core_inv_pce [OF I]) auto
    ultimately show thesis
      using 1 only_rules_frame [OF I Ic 1(5) r(1)] by (intro that [of "(pce s)\<lparr>st_hw := h'\<rparr>"]) auto
  next
    case (2 P)
    have Ic: "core_inv tbl keep (s\<lparr>pce := P\<rparr>)" using 2 by (intro core_inv_pce [OF I] fr) (simp_all add: written_def)
    have "installed tbl r (s\<lparr>pce := P\<rparr>)"
      using written_core [OF 2(2) r(1,2) rule_frame_vlan [OF 2(3)]] v 2(2) by (simp add: installed_def core_of_def written_def)
    then show thesis
      using 2(1) Ic only_rules_frame [OF I Ic 2(3) r(1)] used_rules_frame [OF 2(3) r(1)] by (intro that [of P])
  next
    case (3 e P)
    have "used_rules (st_pce P) \<le> 15" if "used_rules (st_pce (pce s)) < 15"
      using used_rules_frame [OF 3(4) r(1)] that by simp
    with 3(5,6) n r(3) large_room [OF 3(5)] have False by (auto simp: large_tables_def)
    then show thesis ..
  qed
qed

lemma rule_delete_act:
  assumes E: "pce_engine hwstep tbl keep S" and I: "core_inv tbl keep s" and i: "i < IFX_PCE_TBL_SIZE"
  obtains P where "ifx_pce_pattern_delete hwstep i (pce s) = Some (0, P)" "core_inv tbl keep (s\<lparr>pce := P\<rparr>)"
    "pce_tbl_used (st_pce P) ! i = 0" "only_rules tbl S {i} s (s\<lparr>pce := P\<rparr>)"
proof (cases "pce_tbl_used (st_pce (pce s)) ! i = 0")
  case True
  have "s\<lparr>pce := pce s\<rparr> = s" by simp
  with True i I show thesis by (intro that [of "pce s"]) (simp_all add: ifx_pce_pattern_delete_def only_rules_refl)
next
  case used: False
  have Rv: "rules_inv tbl keep (pce s)" using I by (simp add: core_inv_def)
  show thesis
  proof (rule pattern_delete_frame [OF E Rv i used])
    fix P assume P: "ifx_pce_pattern_delete hwstep i (pce s) = Some (0, P)" "rules_inv tbl keep P"
      "rule_frame tbl S i (pce s) P" "pce_tbl_used (st_pce P) ! i = 0"
    have Ic: "core_inv tbl keep (s\<lparr>pce := P\<rparr>)"
      using P(2,3) by (intro core_inv_pce [OF I]) (simp_all add: rule_frame_def)
    then show thesis using P only_rules_frame [OF I Ic P(3) i] by (intro that [of P])
  qed
qed

text \<open>
  Direct forwarding of the packets from a port: rule \<open>30 + i\<close> matches every packet from port \<open>i\<close>, and no other, and
  sends it to one port. That is what a read of the rule has to return.
\<close>

definition direct_rule :: "nat \<Rightarrow> nat \<Rightarrow> IFX_FLOW_PCE_rule" where
  "direct_rule target i = \<lparr>pattern = zero_pattern\<lparr>nIndex := of_nat (30 + i), bEnable := True, bPortIdEnable := True, nPortId := of_nat i\<rparr>,
     action = zero_action\<lparr>ePortMapAction := PORTMAP_ALTERNATIVE, nForwardPortMap := push_bit target 1\<rparr>\<rparr>"

definition directed :: "('p \<Rightarrow> nat \<Rightarrow> nat \<Rightarrow> pce_img) \<Rightarrow> nat \<Rightarrow> nat \<Rightarrow> 'p core \<Rightarrow> bool" where
  "directed tbl target i s \<longleftrightarrow> pce_tbl_used (st_pce (pce s)) ! (30 + i) \<noteq> 0 \<and>
     core_of tbl s (of_nat (30 + i)) = Some (direct_rule target i)"

lemma redirect_no_table: "want g (pattern (redirect_rule i ingress R)) f = None"
  by (cases f) (simp_all add: redirect_rule_def zero_pattern_def)

lemma redirect_rule_simps:
  "i < 12 \<Longrightarrow> unat (nIndex (pattern (redirect_rule i ingress R))) = 30 + i" "fits (pattern (redirect_rule i ingress R))"
  "act_ok (action (redirect_rule i ingress R))" "\<not> bVid (pattern (redirect_rule i ingress R))"
  "i < 12 \<Longrightarrow> normal (pattern (redirect_rule i ingress R)) = pattern (redirect_rule i ingress R)"
proof -
  assume i: "i < 12"
  then have "unat (of_nat (30 + i) :: u32) = 30 + i" by (intro unat_of_nat_small) simp
  then show "unat (nIndex (pattern (redirect_rule i ingress R))) = 30 + i" by (simp add: redirect_rule_def)
  have "unat (of_nat i :: u8) = i" using i by (intro unat_of_nat_small) simp
  then have "(of_nat i :: u8) \<noteq> 0xFF" using i by (auto simp: word_unat_eq_iff)
  then show "normal (pattern (redirect_rule i ingress R)) = pattern (redirect_rule i ingress R)"
    by (simp add: redirect_rule_def normal_def without_ip_def zero_pattern_def)
qed (simp_all add: redirect_rule_def act_ok_def zero_action_def fits_def zero_pattern_def)

text \<open>The state of rule \<open>30 + i\<close> after the loop.\<close>

definition redirects :: "('p \<Rightarrow> nat \<Rightarrow> nat \<Rightarrow> pce_img) \<Rightarrow> u8 \<Rightarrow> u32 \<Rightarrow> u32 \<Rightarrow> nat \<Rightarrow> 'p core \<Rightarrow> bool" where
  "redirects tbl flag ingress R i s \<longleftrightarrow>
     (if bit flag i then installed tbl (redirect_rule i ingress R) s else pce_tbl_used (st_pce (pce s)) ! (30 + i) = 0)"

lemma redirects_same: "only_rules tbl S A s s' \<Longrightarrow> 30 + i \<notin> A \<Longrightarrow> i < 12 \<Longrightarrow> redirects tbl flag ingress R i s' = redirects tbl flag ingress R i s"
  using installed_same [of tbl S A s s' "redirect_rule i ingress R"]
  by (simp add: redirects_def redirect_rule_simps(1) IFX_PCE_TBL_SIZE_def) (simp add: only_rules_def rules_same_def)

lemma redirect_turn:
  assumes E: "pce_engine hwstep tbl keep S" and I: "core_inv tbl keep s" and i: "i < 12"
  obtains P where "(if drop_bit i flag AND 1 = 1 then ifx_pce_rule_write hwstep g (redirect_rule i ingress R) (pce s)
                else ifx_pce_pattern_delete hwstep (30 + i) (pce s)) = Some (0, P)"
    "core_inv tbl keep (s\<lparr>pce := P\<rparr>)" "redirects tbl flag ingress R i (s\<lparr>pce := P\<rparr>)" "only_rules tbl S {30 + i} s (s\<lparr>pce := P\<rparr>)"
proof -
  note r = redirect_rule_simps(1) [OF i, of ingress R] redirect_rule_simps(2-4) [of i ingress R]
  have ix: "30 + i < IFX_PCE_TBL_SIZE" using i by (simp add: IFX_PCE_TBL_SIZE_def)
  have b: "drop_bit i flag AND 1 = 1 \<longleftrightarrow> bit flag i" by (simp add: bit_iff_and_drop_bit_eq_1)
  show thesis
  proof (cases "bit flag i")
    case True
    have rn: "rule_no (redirect_rule i ingress R) < IFX_PCE_TBL_SIZE" unfolding r(1) by (rule ix)
    have n: "(\<forall>f. want g (pattern (redirect_rule i ingress R)) f = None) \<or>
      large_tables g (redirect_rule i ingress R) \<and> used_rules (st_pce (pce s)) < 15" using redirect_no_table by blast
    obtain P where "ifx_pce_rule_write hwstep g (redirect_rule i ingress R) (pce s) = Some (0, P)" "core_inv tbl keep (s\<lparr>pce := P\<rparr>)"
      "installed tbl (redirect_rule i ingress R) (s\<lparr>pce := P\<rparr>)" "only_rules tbl S {30 + i} s (s\<lparr>pce := P\<rparr>)"
      by (rule rule_write_act [OF E I rn r(2-4) n]) (rule that, simp_all only: r(1))
    then show thesis by (intro that [of P]) (simp_all add: b True redirects_def)
  next
    case False
    obtain P where "ifx_pce_pattern_delete hwstep (30 + i) (pce s) = Some (0, P)" "core_inv tbl keep (s\<lparr>pce := P\<rparr>)"
      "pce_tbl_used (st_pce P) ! (30 + i) = 0" "only_rules tbl S {30 + i} s (s\<lparr>pce := P\<rparr>)"
      by (rule rule_delete_act [OF E I ix]) (rule that)
    then show thesis by (intro that [of P]) (simp_all add: b False redirects_def)
  qed
qed

lemma redirect_loop_spec:
  assumes E: "pce_engine hwstep tbl keep S" and n: "n \<le> 12"
  shows "core_inv tbl keep s \<Longrightarrow> k \<le> n \<Longrightarrow> \<exists>s'. redirect_loop hwstep g flag ingress R [k..<n] s = Some (IFX_SUCCESS, s') \<and>
    core_inv tbl keep s' \<and> (\<forall>i. k \<le> i \<and> i < n \<longrightarrow> redirects tbl flag ingress R i s') \<and> only_rules tbl S {30 + k..<30 + n} s s'"
proof (induction "n - k" arbitrary: k s)
  case 0
  then have "[k..<n] = []" by simp
  with 0 show ?case by (auto simp: only_rules_refl)
next
  case (Suc d)
  then have k: "k < n" "[k..<n] = k # [Suc k..<n]" by (simp_all add: upt_conv_Cons)
  from k(1) n have k12: "k < 12" by simp
  obtain P where P: "(if drop_bit k flag AND 1 = 1 then ifx_pce_rule_write hwstep g (redirect_rule k ingress R) (pce s)
                else ifx_pce_pattern_delete hwstep (30 + k) (pce s)) = Some (0, P)"
    "core_inv tbl keep (s\<lparr>pce := P\<rparr>)" "redirects tbl flag ingress R k (s\<lparr>pce := P\<rparr>)" "only_rules tbl S {30 + k} s (s\<lparr>pce := P\<rparr>)"
    by (rule redirect_turn [OF E Suc.prems(1) k12])
  have "d = n - Suc k" "Suc k \<le> n" using Suc(2) k(1) by simp_all
  from Suc(1) [OF this(1) P(2) this(2)] obtain s' where
    s': "redirect_loop hwstep g flag ingress R [Suc k..<n] (s\<lparr>pce := P\<rparr>) = Some (IFX_SUCCESS, s')" "core_inv tbl keep s'"
      "\<forall>i. Suc k \<le> i \<and> i < n \<longrightarrow> redirects tbl flag ingress R i s'"
      "only_rules tbl S {30 + Suc k..<30 + n} (s\<lparr>pce := P\<rparr>) s'" by blast
  have "redirects tbl flag ingress R k s'"
    using P(3) redirects_same [OF s'(4) _ k12, of flag ingress R] by simp
  then have "\<forall>i. k \<le> i \<and> i < n \<longrightarrow> redirects tbl flag ingress R i s'"
    using s'(3) by (metis Suc_leI le_neq_implies_less)
  moreover have "only_rules tbl S {30 + k..<30 + n} s s'"
    by (rule only_rules_trans [OF P(4) s'(4)]) (use k(1) in auto)
  moreover have "redirect_loop hwstep g flag ingress R [k..<n] s = Some (IFX_SUCCESS, s')"
    using P(1) s'(1) unfolding k(2) redirect_loop.simps by simp
  ultimately show ?case using s'(2) by blast
qed

section \<open>The invariant under settings\<close>

lemma hw_inv:
  assumes I: "core_inv tbl keep s" and h: "idle h" "driver_tbl tbl h = dtbl tbl s"
  shows "core_inv tbl keep (upd_hw (\<lambda>_. h) s)"
proof -
  have "rules_inv tbl keep (pce (upd_hw (\<lambda>_. h) s))"
    by (rule rules_inv_frame [where P = "pce s"]) (use I h in \<open>simp_all add: core_inv_def\<close>)
  with I h show ?thesis by (simp add: core_inv_def vlan_mirror_def)
qed

lemma regs_inv:
  assumes I: "core_inv tbl keep s" and p: "dev t = dev s" "st_pce (pce t) = st_pce (pce s)" "st_ent (pce t) = st_ent (pce s)"
    and r: "rd TBL_CTRL_BAS t = rd TBL_CTRL_BAS s" "priv (hw_of t) = priv (hw_of s)"
  shows "core_inv tbl keep t"
proof -
  have "t = upd_hw (\<lambda>_. hw_of t) s"
    by (rule core.equality; simp add: p)
  moreover have "idle (hw_of t)" using core_inv_simps(1) [OF I] r(1) by (simp add: idle_def)
  moreover have "driver_tbl tbl (hw_of t) = dtbl tbl s" using r(2) by (simp add: driver_tbl_def fun_eq_iff)
  ultimately show ?thesis using hw_inv [OF I] by metis
qed

lemma wr_inv: "core_inv tbl keep s \<Longrightarrow> fdisj F TBL_CTRL_BAS \<Longrightarrow> core_inv tbl keep (wr F v s)"
  by (erule regs_inv) (simp_all add: rdf_wrf_other)

lemma wrs_inv: "core_inv tbl keep s \<Longrightarrow> (\<And>F v. (F, v) \<in> set ws \<Longrightarrow> fdisj F TBL_CTRL_BAS) \<Longrightarrow> core_inv tbl keep (wrs ws s)"
  by (erule regs_inv) (simp_all add: wrfs_other)

lemma port_loop_inv:
  assumes "core_inv tbl keep s" "\<And>j F v. j < n \<Longrightarrow> (F, v) \<in> set (f j) \<Longrightarrow> fdisj F TBL_CTRL_BAS"
  shows "core_inv tbl keep (upd_hw (port_loop n f) s)"
proof (rule regs_inv [OF assms(1)])
  have "rdf TBL_CTRL_BAS (wrfs (concat (map f [0..<n])) h) = rdf TBL_CTRL_BAS h" for h :: "'a hw"
  proof (rule wrfs_other)
    fix F v assume "(F, v) \<in> set (concat (map f [0..<n]))"
    then obtain j where "j < n" "(F, v) \<in> set (f j)" by auto
    then show "fdisj F TBL_CTRL_BAS" by (rule assms(2))
  qed
  then show "rd TBL_CTRL_BAS (upd_hw (port_loop n f) s) = rd TBL_CTRL_BAS s" by (simp add: port_loop_def)
qed (simp_all add: port_loop_def)

lemma reg_modify_inv: "core_inv tbl keep s \<Longrightarrow> off \<noteq> 0x44F \<Longrightarrow> core_inv tbl keep (reg_modify off f s)"
  by (erule regs_inv) (simp_all, rule rdf_regs, simp)

lemma dev_inv:
  "core_inv tbl keep s \<Longrightarrow> dev_ok d \<Longrightarrow> VLAN_Table d = VLAN_Table (dev s) \<Longrightarrow> core_inv tbl keep (upd_dev (\<lambda>_. d) s)"
  by (simp add: core_inv_def vlan_wf_def vlan_mirror_def)

lemma platform_inv: "core_inv tbl keep s \<Longrightarrow> core_inv tbl keep (platform_device_init fe a c s)"
  unfolding platform_device_init_def Let_def by (simp add: reg_modify_inv)

text \<open>A setting of a port: its registers lie outside the table window.\<close>

lemma preg_disj [simp]:
  "p < 12 \<Longrightarrow> fdisj (preg VR9_PCE_PCTRL_3_EDIR 0xA (p :: u8)) TBL_CTRL_BAS"
  "p < 12 \<Longrightarrow> fdisj (preg VR9_WOL_CTRL_PORT 0xA p) TBL_CTRL_BAS"
  "p < 12 \<Longrightarrow> fdisj (preg VR9_PCE_PIER_WOL 0xA p) TBL_CTRL_BAS"
  by (simp_all add: port_simps word_less_nat_alt)

text \<open>The settings of this theory that only write registers: all keep the invariant.\<close>

definition settings :: "('p core \<Rightarrow> int \<times> 'p core) set" where
  "settings = range IFX_FLOW_CfgSet \<union> range IFX_FLOW_MonitorPortCfgSet \<union> range IFX_FLOW_WoL_CfgSet \<union>
     range IFX_FLOW_WoL_PortCfgSet \<union> range IFX_FLOW_IrqMaskSet \<union> {IFX_FLOW_Disable} \<union>
     {IFX_FLOW_Enable fe a c |fe a c. True}"

lemma small_ports: "dev_ok d \<Longrightarrow> p < nTotalPortNumber d \<Longrightarrow> p < 12"
  by (simp add: dev_ok_def word_less_nat_alt)

lemma low_port_ucast: "dev_ok d \<Longrightarrow> p < ucast (nTotalPortNumber d) \<Longrightarrow> unat (ucast (p :: u32) :: u8) = unat p \<and> (ucast p :: u8) < 12"
proof -
  assume "dev_ok d" "p < ucast (nTotalPortNumber d)"
  then have p: "unat p < 12" by (simp add: dev_ok_def word_less_nat_alt)
  then have "unat (ucast p :: u8) = unat p" by (simp add: unsigned_ucast_eq take_bit_nat_eq_self)
  with p show ?thesis by (simp add: word_less_nat_alt)
qed

lemma cfg_set_inv: "core_inv tbl keep s \<Longrightarrow> core_inv tbl keep (snd (IFX_FLOW_CfgSet q s))"
proof -
  assume I: "core_inv tbl keep s"
  let ?d = "\<lambda>x. upd_dev (\<lambda>d. d\<lparr>MAC_AgeTimer := x\<rparr>) s"
  have J: "core_inv tbl keep (?d x)" for x
    using I by (simp add: core_inv_def dev_ok_def vlan_wf_def vlan_mirror_def)
  have m: "fdisj (at VR9_MAC_CTRL_2_MLEN (of_nat i * 0xC)) TBL_CTRL_BAS" if "i < 6" for i :: nat
    using that by (simp add: port_simps)
  show ?thesis
    unfolding IFX_FLOW_CfgSet_def Let_def
    by (auto split: prod.split intro!: wr_inv wrs_inv J simp: fdisj.simps m)
qed

lemma settings_inv: "f \<in> settings \<Longrightarrow> core_inv tbl keep s \<Longrightarrow> core_inv tbl keep (snd (f s))"
proof -
  assume f: "f \<in> settings" and I: "core_inv tbl keep s"
  note d = core_inv_simps(3) [OF I]
  have n: "unat (nPortNumber (dev s)) \<le> 12" using d by (simp add: dev_ok_def)
  have ports: "fdisj (at VR9_FDMA_PCTRL_EN (of_nat j * 0x6)) TBL_CTRL_BAS"
    "fdisj (at VR9_SDMA_PCTRL_PEN (of_nat j * 0x6)) TBL_CTRL_BAS"
    "fdisj (at VR9_BM_PCFG_CNTEN (of_nat j * 0x2)) TBL_CTRL_BAS" if "j < 12" for j :: nat
    using that by (simp_all add: port_simps)
  consider q where "f = IFX_FLOW_CfgSet q" | q where "f = IFX_FLOW_MonitorPortCfgSet q" | q where "f = IFX_FLOW_WoL_CfgSet q"
    | q where "f = IFX_FLOW_WoL_PortCfgSet q" | q where "f = IFX_FLOW_IrqMaskSet q" | "f = IFX_FLOW_Disable"
    | fe a c where "f = IFX_FLOW_Enable fe a c" using f unfolding settings_def by blast
  then show ?thesis
  proof cases
    case 1 then show ?thesis using cfg_set_inv [OF I] by simp
  next
    case 2 then show ?thesis using I by (simp add: IFX_FLOW_MonitorPortCfgSet_def Let_def wr_inv fdisj.simps)
  next
    case 3 then show ?thesis using I by (auto simp: IFX_FLOW_WoL_CfgSet_def Let_def fdisj.simps simp del: wrs.simps intro!: wrs_inv)
  next
    case (4 q) then show ?thesis using I small_ports [OF d, of "wo_nPortId q"]
      by (auto simp: IFX_FLOW_WoL_PortCfgSet_def not_le intro!: wr_inv preg_disj)
  next
    case (5 q) then show ?thesis using I low_port_ucast [OF d, of "iq_nPortId q"]
      by (auto simp: IFX_FLOW_IrqMaskSet_def Let_def not_le port_simps word_less_nat_alt intro!: wr_inv)
  next
    case 6 then show ?thesis using I n ports
      by (auto simp: IFX_FLOW_Disable_def intro!: port_loop_inv)
  next
    case 7 then show ?thesis using platform_inv [OF I] I n ports
      by (auto simp: IFX_FLOW_Enable_def Let_def platform_init_frame(1) intro!: port_loop_inv)
  qed
qed

lemma redirect_spec:
  assumes E: "pce_engine hwstep tbl keep S" and I: "core_inv tbl keep s" and p: "rr_nPortId q < nTotalPortNumber (dev s)"
  obtains flag' s1 s' where "IFX_FLOW_PortRedirectSet hwstep g flag q s = Some (IFX_SUCCESS, flag', s')" "core_inv tbl keep s'"
    "flag' = (if rr_bRedirectIngress q = IFX_TRUE then flag OR push_bit (unat (rr_nPortId q)) 1 else flag AND NOT (push_bit (unat (rr_nPortId q)) 1))"
    "s1 = wr (preg VR9_PCE_PCTRL_3_EDIR 0xA (rr_nPortId q)) (rr_bRedirectEgress q)
       (wr VR9_PCE_PMAP_1_MPMAP (push_bit (unat (nManagementPortNumber (dev s)) mod 32) 1) s)"
    "\<And>i. i < unat (nPortNumber (dev s)) \<Longrightarrow> redirects tbl flag' (rr_bRedirectIngress q)
       (push_bit (unat (nManagementPortNumber (dev s)) mod 32) 1) i s'"
    "only_rules tbl S {30..<30 + unat (nPortNumber (dev s))} s1 s'"
proof -
  note d = core_inv_simps(3) [OF I]
  let ?R = "push_bit (unat (nManagementPortNumber (dev s)) mod 32) 1 :: u32" and ?p = "unat (rr_nPortId q)"
  define flag' where "flag' = (if rr_bRedirectIngress q = IFX_TRUE then flag OR push_bit ?p 1 else flag AND NOT (push_bit ?p 1))"
  define s1 where "s1 = wr (preg VR9_PCE_PCTRL_3_EDIR 0xA (rr_nPortId q)) (rr_bRedirectEgress q) (wr VR9_PCE_PMAP_1_MPMAP ?R s)"
  have I1: "core_inv tbl keep s1"
    unfolding s1_def by (intro wr_inv I preg_disj small_ports [OF d p]) (simp add: fdisj.simps)
  have n: "unat (nPortNumber (dev s)) \<le> 12" using d by (simp add: dev_ok_def)
  obtain s' where s': "redirect_loop hwstep g flag' (rr_bRedirectIngress q) ?R [0..<unat (nPortNumber (dev s))] s1 = Some (IFX_SUCCESS, s')"
    "core_inv tbl keep s'"
    "\<forall>i. 0 \<le> i \<and> i < unat (nPortNumber (dev s)) \<longrightarrow> redirects tbl flag' (rr_bRedirectIngress q) ?R i s'"
    "only_rules tbl S {30 + 0..<30 + unat (nPortNumber (dev s))} s1 s'"
    using redirect_loop_spec [where g = g and flag = flag' and ingress = "rr_bRedirectIngress q" and R = ?R, OF E n I1 le0] by blast
  show thesis
  proof (rule that [OF _ s'(2) flag'_def s1_def])
    have d1: "dev s1 = dev s" by (simp add: s1_def)
    have np: "\<not> nTotalPortNumber (dev s) \<le> rr_nPortId q" using p by (simp add: not_le)
    have "IFX_FLOW_PortRedirectSet hwstep g flag q s = map_option (\<lambda>(e, s). (e, flag', s))
        (redirect_loop hwstep g flag' (rr_bRedirectIngress q) ?R [0..<unat (nPortNumber (dev s1))] s1)"
      unfolding IFX_FLOW_PortRedirectSet_def Let_def if_not_P [OF np] s1_def flag'_def by (rule refl)
    then show "IFX_FLOW_PortRedirectSet hwstep g flag q s = Some (IFX_SUCCESS, flag', s')"
      unfolding d1 s'(1) by simp
    show "redirects tbl flag' (rr_bRedirectIngress q) ?R i s'" if "i < unat (nPortNumber (dev s))" for i
      using s'(3) that by blast
    show "only_rules tbl S {30..<30 + unat (nPortNumber (dev s))} s1 s'" using s'(4) by (simp only: add_0_right)
  qed
qed

text \<open>
  The rules against the documented meaning: right after a request that switches direct forwarding of a port on; after
  one that switches it off the rules of the other ports are in use but do not forward.
\<close>

lemma redirects_on:
  assumes "redirects tbl flag 1 (push_bit m 1) i s" "i < 12"
  shows "if bit flag i then directed tbl m i s else pce_tbl_used (st_pce (pce s)) ! (30 + i) = 0"
proof -
  have "redirect_rule i 1 (push_bit m 1) = direct_rule m i" by (simp add: redirect_rule_def direct_rule_def)
  then show ?thesis
    using assms redirect_rule_simps(1,5) [OF assms(2), of 1 "push_bit m 1"]
    by (auto simp: redirects_def directed_def installed_def direct_rule_def)
qed

lemma redirects_off:
  assumes "redirects tbl flag c R i s" "i < 12" "c \<noteq> 1"
  shows "if bit flag i then \<exists>r. pce_tbl_used (st_pce (pce s)) ! (30 + i) \<noteq> 0 \<and> core_of tbl s (of_nat (30 + i)) = Some r \<and>
      ePortMapAction (action r) = PORTMAP_DISABLE else pce_tbl_used (st_pce (pce s)) ! (30 + i) = 0"
proof -
  have "ePortMapAction (action (redirect_rule i c R)) = PORTMAP_DISABLE" "nIndex (pattern (redirect_rule i c R)) = of_nat (30 + i)"
    using assms(3) by (simp_all add: redirect_rule_def zero_action_def)
  then show ?thesis
    using assms(1) redirect_rule_simps(1) [OF assms(2), of c R] by (auto simp: redirects_def installed_def)
qed

section \<open>Reading settings back\<close>

text \<open>What \<^verbatim>\<open>CfgGet\<close> reports in the state \<open>s'\<close> after the request \<open>q\<close> on a state \<open>s\<close>.\<close>

definition cfg_back :: "IFX_ETHSW_cfg \<Rightarrow> IFX_ETHSW_cfg \<Rightarrow> 'p core \<Rightarrow> IFX_ETHSW_cfg" where
  "cfg_back r q s = \<lparr>cg_eMAC_TableAgeTimer = (if 1 \<le> cg_eMAC_TableAgeTimer q \<and> cg_eMAC_TableAgeTimer q \<le> 5
       then cg_eMAC_TableAgeTimer q else IFX_ETHSW_AGETIMER_300_SEC),
     cg_bVLAN_Aware = cg_bVLAN_Aware q AND 1,
     cg_nMaxPacketLen = (if cg_nMaxPacketLen q < 0xFFFF then cg_nMaxPacketLen q AND 0x3FFF else 9600),
     cg_bLearningLimitAction = cg_bLearningLimitAction q AND 1,
     cg_bMAC_SpoofingAction = (if GSWIP_Ver (dev s) = LTQ_GSWIP_2_2 then cg_bMAC_SpoofingAction q AND 1 else cg_bMAC_SpoofingAction r),
     cg_bPauseMAC_ModeSrc = (if cg_bPauseMAC_ModeSrc q = 1 then 1 else cg_bPauseMAC_ModeSrc (snd (IFX_FLOW_CfgGet r s))),
     cg_nPauseMAC_Src = (if cg_bPauseMAC_ModeSrc q = 1 then cg_nPauseMAC_Src q else cg_nPauseMAC_Src (snd (IFX_FLOW_CfgGet r s)))\<rparr>"

lemma age_timer_back:
  "fst (age_timer t) AND mask 16 = fst (age_timer t)"
  "(if fst (age_timer t) = 0xFB75 then 5 else if fst (age_timer t) = 0xA7BA then 4 else if fst (age_timer t) = 0xDF84 then 3
    else if fst (age_timer t) = 0x784 then 2 else if fst (age_timer t) = 0xBF then 1 else 0)
   = (if 1 \<le> t \<and> t \<le> 5 then t else (3 :: u32))"
proof -
  have "t \<in> {1, 2, 3, 4, 5}" if "1 \<le> t \<and> t \<le> 5"
  proof -
    from that have "1 \<le> unat t" "unat t \<le> 5" by (simp_all add: word_le_nat_alt)
    then have "unat t \<in> {unat (1 :: u32), unat (2 :: u32), unat (3 :: u32), unat (4 :: u32), unat (5 :: u32)}" by auto
    then show ?thesis by (simp only: insert_iff empty_iff word_eq_iff_unsigned [symmetric] HOL.simp_thms)
  qed
  then show "(if fst (age_timer t) = 0xFB75 then 5 else if fst (age_timer t) = 0xA7BA then 4 else if fst (age_timer t) = 0xDF84 then 3
    else if fst (age_timer t) = 0x784 then 2 else if fst (age_timer t) = 0xBF then 1 else 0)
   = (if 1 \<le> t \<and> t \<le> 5 then t else (3 :: u32))"
    by (auto simp: age_timer_def)
  show "fst (age_timer t) AND mask 16 = fst (age_timer t)" by (simp add: age_timer_def mask_eq_exp_minus_1)
qed

lemma mlen_other:
  "\<lbrakk>\<And>i. i < 6 \<Longrightarrow> fdisj (at VR9_MAC_CTRL_2_MLEN (of_nat i * 0xC)) F\<rbrakk> \<Longrightarrow>
   rdf F (wrfs (map (\<lambda>i. (at VR9_MAC_CTRL_2_MLEN (of_nat i * 0xC), 1)) [0..<6]) h) = rdf F h"
  by (rule wrfs_other) auto

lemma len_back: "(ucast ((if l < 0xFFFF then ucast l else 9600 :: u32) AND mask 14) :: u16) = (if l < 0xFFFF then l AND 0x3FFF else 9600)"
proof -
  have m: "(0x3FFF :: u16) = mask 14" by (simp add: mask_eq_exp_minus_1)
  have "(ucast (ucast l AND mask 14 :: u32) :: u16) = l AND mask 14" by (rule bit_word_eqI) (auto simp: bit_simps)
  then show ?thesis by (simp add: m) (simp add: mask_eq_exp_minus_1)
qed

lemma cfg_read_back:
  assumes "length (cg_nPauseMAC_Src q) = 6"
  shows "IFX_FLOW_CfgGet r (snd (IFX_FLOW_CfgSet q s)) = (IFX_SUCCESS, cfg_back r q s)"
proof -
  obtain M X t where a: "age_timer (cg_eMAC_TableAgeTimer q) = (M, X, t)" by (cases "age_timer (cg_eMAC_TableAgeTimer q)")
  note b = age_timer_back [of "cg_eMAC_TableAgeTimer q", unfolded a fst_conv]
  have m: "fdisj (at VR9_MAC_CTRL_2_MLEN (of_nat i * 0xC)) F" if "i < 6" "fst F \<in> {0x451, 0x452, 0x8C5, 0x456, 0x8C1, 0x8C2, 0x8C3, 0x8C4}" for i F
  proof -
    from that(1) have "i = 0 \<or> i = 1 \<or> i = 2 \<or> i = 3 \<or> i = 4 \<or> i = 5" by linarith
    then show ?thesis using that(2) by (cases F) (elim disjE; simp add: fdisj.simps; elim disjE; simp)
  qed
  have six: "[cg_nPauseMAC_Src q ! 0, cg_nPauseMAC_Src q ! Suc 0, cg_nPauseMAC_Src q ! 2, cg_nPauseMAC_Src q ! 3,
      cg_nPauseMAC_Src q ! 4, cg_nPauseMAC_Src q ! 5] = cg_nPauseMAC_Src q" using six_bytes [OF assms] by simp
  define s1 where "s1 = wr VR9_PCE_AGE_1_MANT M (wr VR9_PCE_AGE_0_EXP X (upd_dev (\<lambda>d. d\<lparr>MAC_AgeTimer := t\<rparr>) s))"
  define s2 where "s2 = wr VR9_MAC_FLEN_LEN (if cg_nMaxPacketLen q < 0xFFFF then ucast (cg_nMaxPacketLen q) else 9600) s1"
  define s3 where "s3 = (if cg_nMaxPacketLen q > 0x5EE
      then wrs (map (\<lambda>i. (at VR9_MAC_CTRL_2_MLEN (of_nat i * 0xC), 1)) [0..<6]) s2 else s2)"
  define s4 where "s4 = wr VR9_PCE_GCTRL_0_PLIMMOD (cg_bLearningLimitAction q) s3"
  define s5 where "s5 = (if GSWIP_Ver (dev s4) = LTQ_GSWIP_2_2 then wr VR9_PCE_GCTRL_0_PLCKMOD (cg_bMAC_SpoofingAction q) s4 else s4)"
  define s6 where "s6 = wr VR9_PCE_GCTRL_0_VLAN (cg_bVLAN_Aware q) s5"
  let ?a = "cg_nPauseMAC_Src q"
  define s7 where "s7 = (if cg_bPauseMAC_ModeSrc q = IFX_TRUE
      then wrs [(VR9_MAC_PFAD_CFG_SAMOD, cg_bPauseMAC_ModeSrc q), (VR9_MAC_PFSA_0_PFAD, two_bytes (?a ! 4) (?a ! 5)),
        (VR9_MAC_PFSA_1_PFAD, two_bytes (?a ! 2) (?a ! 3)), (VR9_MAC_PFSA_2_PFAD, two_bytes (?a ! 0) (?a ! 1))] s6 else s6)"
  have run: "snd (IFX_FLOW_CfgSet q s) = s7"
    unfolding IFX_FLOW_CfgSet_def a prod.case Let_def snd_conv
    by (simp only: flip: s1_def s2_def s3_def s4_def s5_def s6_def s7_def)
  have v: "GSWIP_Ver (dev s7) = GSWIP_Ver (dev s)" "GSWIP_Ver (dev s4) = GSWIP_Ver (dev s)"
    by (simp_all add: s7_def s6_def s5_def s4_def s3_def s2_def s1_def)
  have r3: "rd F s3 = rd F s2" if "fst F \<in> {0x451, 0x452, 0x8C5, 0x456, 0x8C1, 0x8C2, 0x8C3, 0x8C4}" for F
    unfolding s3_def using mlen_other [OF m [OF _ that]] by (auto simp only: wrs_simps split: if_splits)
  have r6: "rd F s6 = (if F = VR9_PCE_GCTRL_0_VLAN then cg_bVLAN_Aware q AND 1 else if F = VR9_PCE_GCTRL_0_PLIMMOD then cg_bLearningLimitAction q AND 1
      else if F = VR9_PCE_GCTRL_0_PLCKMOD \<and> GSWIP_Ver (dev s) = LTQ_GSWIP_2_2 then cg_bMAC_SpoofingAction q AND 1 else rd F s3)"
    if "F \<in> {VR9_PCE_GCTRL_0_VLAN, VR9_PCE_GCTRL_0_PLIMMOD, VR9_PCE_GCTRL_0_PLCKMOD} \<or> fst F \<noteq> 0x456" for F
    using that v(2) by (cases F) (auto simp: s6_def s5_def s4_def field_simps_hw fdisj.simps mask_eq_exp_minus_1)
  have r7: "rd F s7 = rd F s6" if "fst F \<in> {0x451, 0x452, 0x8C5, 0x456}" for F
    using that by (cases F) (auto simp: s7_def field_simps_hw fdisj.simps)
  have r1: "rd F s2 = rd F s" if "fst F \<in> {0x8C1, 0x8C2, 0x8C3, 0x8C4}" for F
    using that by (cases F) (auto simp: s2_def s1_def field_simps_hw fdisj.simps)
  have e: "rd VR9_MAC_FLEN_LEN s7 = (if cg_nMaxPacketLen q < 0xFFFF then ucast (cg_nMaxPacketLen q) else 9600) AND mask 14"
    by (simp only: r7 r6 r3 fst_conv insert_iff simp_thms) (simp add: s2_def r7 r6 r3 field_simps_hw)
  have f: "rd VR9_PCE_AGE_1_MANT s7 = M" "ucast (rd VR9_MAC_FLEN_LEN s7) = (if cg_nMaxPacketLen q < 0xFFFF then cg_nMaxPacketLen q AND 0x3FFF else 9600)"
    using b(1) unfolding e len_back by (simp_all add: r7 r6 r3) (simp_all add: s2_def s1_def field_simps_hw)
  have g: "rd VR9_PCE_GCTRL_0_VLAN s7 = cg_bVLAN_Aware q AND 1" "rd VR9_PCE_GCTRL_0_PLIMMOD s7 = cg_bLearningLimitAction q AND 1"
    "GSWIP_Ver (dev s) = LTQ_GSWIP_2_2 \<Longrightarrow> rd VR9_PCE_GCTRL_0_PLCKMOD s7 = cg_bMAC_SpoofingAction q AND 1"
    by (simp_all add: r7 r6)
  have k: "rd F s6 = rd F s" if "fst F \<in> {0x8C1, 0x8C2, 0x8C3, 0x8C4}" for F
    using that r1 [of F] by (subst r6) (auto simp: r3)
  have h: "rd VR9_MAC_PFAD_CFG_SAMOD s7 = (if cg_bPauseMAC_ModeSrc q = 1 then 1 else rd VR9_MAC_PFAD_CFG_SAMOD s)"
    "rd VR9_MAC_PFSA_0_PFAD s7 = (if cg_bPauseMAC_ModeSrc q = 1 then two_bytes (?a ! 4) (?a ! 5) AND mask 16 else rd VR9_MAC_PFSA_0_PFAD s)"
    "rd VR9_MAC_PFSA_1_PFAD s7 = (if cg_bPauseMAC_ModeSrc q = 1 then two_bytes (?a ! 2) (?a ! 3) AND mask 16 else rd VR9_MAC_PFSA_1_PFAD s)"
    "rd VR9_MAC_PFSA_2_PFAD s7 = (if cg_bPauseMAC_ModeSrc q = 1 then two_bytes (?a ! 0) (?a ! 1) AND mask 16 else rd VR9_MAC_PFSA_2_PFAD s)"
    by (simp_all add: s7_def k field_simps_hw mask_eq_exp_minus_1 [where n = 1])
  show ?thesis
    unfolding run IFX_FLOW_CfgGet_def Let_def cfg_back_def v(1) f b(2) g(1,2) h
    by (cases "GSWIP_Ver (dev s) = LTQ_GSWIP_2_2"; cases "cg_bPauseMAC_ModeSrc q = 1"; cases r;
      simp only: if_True if_False simp_thms g(3) two_bytes_back; simp add: six)
qed

end
