(* ===== verification/Core_RMON.thy ===== *)
theory Core_RMON
  imports Core_Ports Core_BM
begin

text \<open>
  The counters of a port (RMON), \<^verbatim>\<open>ltq_flow_core.c\<close>: 64 words of the memory of the buffer manager per port, read
  one after the other while traffic goes on. \<open>rmon_engine\<close> states what a read delivers.
\<close>

unbundle bit_operations_syntax

section \<open>Parameters and registers\<close>

record IFX_ETHSW_RMON_clear =
  rc_nPortId :: u8

record IFX_ETHSW_RMON_cnt =
  rn_nPortId :: u8
  rn_nRxGoodPkts :: u32
  rn_nRxUnicastPkts :: u32
  rn_nRxBroadcastPkts :: u32
  rn_nRxMulticastPkts :: u32
  rn_nRxFCSErrorPkts :: u32
  rn_nRxUnderSizeGoodPkts :: u32
  rn_nRxOversizeGoodPkts :: u32
  rn_nRxUnderSizeErrorPkts :: u32
  rn_nRxGoodPausePkts :: u32
  rn_nRxOversizeErrorPkts :: u32
  rn_nRxAlignErrorPkts :: u32
  rn_nRxFilteredPkts :: u32
  rn_nRx64BytePkts :: u32
  rn_nRx127BytePkts :: u32
  rn_nRx255BytePkts :: u32
  rn_nRx511BytePkts :: u32
  rn_nRx1023BytePkts :: u32
  rn_nRxMaxBytePkts :: u32
  rn_nTxGoodPkts :: u32
  rn_nTxUnicastPkts :: u32
  rn_nTxBroadcastPkts :: u32
  rn_nTxMulticastPkts :: u32
  rn_nTxSingleCollCount :: u32
  rn_nTxMultCollCount :: u32
  rn_nTxLateCollCount :: u32
  rn_nTxExcessCollCount :: u32
  rn_nTxCollCount :: u32
  rn_nTxPauseCount :: u32
  rn_nTx64BytePkts :: u32
  rn_nTx127BytePkts :: u32
  rn_nTx255BytePkts :: u32
  rn_nTx511BytePkts :: u32
  rn_nTx1023BytePkts :: u32
  rn_nTxMaxBytePkts :: u32
  rn_nTxDroppedPkts :: u32
  rn_nTxAcmDroppedPkts :: u32
  rn_nRxDroppedPkts :: u32
  rn_nRxGoodBytes :: "64 word"
  rn_nRxBadBytes :: "64 word"
  rn_nTxGoodBytes :: "64 word"

record IFX_FLOW_RMON_extendGet =
  rx_nPortId :: u8
  rx_nTrafficFlowCnt :: "u32 list"

abbreviation (input) VR9_BM_RMON_CTRL_RAM1_RES :: field where "VR9_BM_RMON_CTRL_RAM1_RES \<equiv> (0x081, 0, 1)"
abbreviation (input) VR9_BM_RMON_CTRL_RAM2_RES :: field where "VR9_BM_RMON_CTRL_RAM2_RES \<equiv> (0x081, 1, 1)"
abbreviation (input) GSWIP_BM_RMON_CTRL_BCAST_CNT :: field where "GSWIP_BM_RMON_CTRL_BCAST_CNT \<equiv> (0x081, 2, 1)"
abbreviation (input) IFX_ETHSW_RMON_COUNTER_OFFSET :: nat where "IFX_ETHSW_RMON_COUNTER_OFFSET \<equiv> 64"
abbreviation (input) IFX_FLOW_RMON_EXTEND_NUM :: nat where "IFX_FLOW_RMON_EXTEND_NUM \<equiv> 24"
abbreviation (input) RMON_EXTEND_TRAFFIC_FLOW_COUNT_1 :: nat where "RMON_EXTEND_TRAFFIC_FLOW_COUNT_1 \<equiv> 0x28"

section \<open>The handlers\<close>

definition IFX_FLOW_RMON_Clear :: "IFX_ETHSW_RMON_clear \<Rightarrow> 'p core \<Rightarrow> int \<times> 'p core" where
  "IFX_FLOW_RMON_Clear q s =
     (if rc_nPortId q \<ge> nPortNumber (dev s) then (IFX_ERROR, s)
      else (IFX_SUCCESS, wrs [(preg VR9_BM_RMON_CTRL_RAM1_RES 2 (rc_nPortId q), 0x1),
             (preg VR9_BM_RMON_CTRL_RAM2_RES 2 (rc_nPortId q), 0x1)] s))"

text \<open>The body both loops share: counter \<open>i\<close> of port \<open>p\<close>.\<close>

definition rmon_fetch :: "('p hw \<Rightarrow> 'p hw) \<Rightarrow> nat \<Rightarrow> u8 \<Rightarrow> 'p core \<Rightarrow> (u32 \<times> 'p core) option" where
  "rmon_fetch hwstep i p s = do {
     s \<leftarrow> bm_poll hwstep (wrs [(VR9_BM_RAM_ADDR_ADDR, of_nat i), (VR9_BM_RAM_CTRL_ADDR, ucast p),
       (VR9_BM_RAM_CTRL_OPMOD, 0), (VR9_BM_RAM_CTRL_BAS, 1)] s);
     let data0 = rd VR9_BM_RAM_VAL_0_VAL0 s;
     let data1 = rd VR9_BM_RAM_VAL_1_VAL1 s;
     Some (push_bit 16 data1 OR data0, s) }"

text \<open>The structure to fill and the local variables.\<close>

definition zero_RMON_cnt :: IFX_ETHSW_RMON_cnt where
  "zero_RMON_cnt = \<lparr>rn_nPortId = 0, rn_nRxGoodPkts = 0, rn_nRxUnicastPkts = 0, rn_nRxBroadcastPkts = 0,
     rn_nRxMulticastPkts = 0, rn_nRxFCSErrorPkts = 0, rn_nRxUnderSizeGoodPkts = 0, rn_nRxOversizeGoodPkts = 0,
     rn_nRxUnderSizeErrorPkts = 0, rn_nRxGoodPausePkts = 0, rn_nRxOversizeErrorPkts = 0, rn_nRxAlignErrorPkts = 0,
     rn_nRxFilteredPkts = 0, rn_nRx64BytePkts = 0, rn_nRx127BytePkts = 0, rn_nRx255BytePkts = 0, rn_nRx511BytePkts
     = 0, rn_nRx1023BytePkts = 0, rn_nRxMaxBytePkts = 0, rn_nTxGoodPkts = 0, rn_nTxUnicastPkts = 0,
     rn_nTxBroadcastPkts = 0, rn_nTxMulticastPkts = 0, rn_nTxSingleCollCount = 0, rn_nTxMultCollCount = 0,
     rn_nTxLateCollCount = 0, rn_nTxExcessCollCount = 0, rn_nTxCollCount = 0, rn_nTxPauseCount = 0,
     rn_nTx64BytePkts = 0, rn_nTx127BytePkts = 0, rn_nTx255BytePkts = 0, rn_nTx511BytePkts = 0, rn_nTx1023BytePkts
     = 0, rn_nTxMaxBytePkts = 0, rn_nTxDroppedPkts = 0, rn_nTxAcmDroppedPkts = 0, rn_nRxDroppedPkts = 0,
     rn_nRxGoodBytes = 0, rn_nRxBadBytes = 0, rn_nTxGoodBytes = 0\<rparr>"

record rmon_locals =
  cnt :: IFX_ETHSW_RMON_cnt
  r_frame :: u32
  r_unicast :: u32
  r_multicast :: u32
  t_frame :: u32
  t_unicast :: u32
  t_multicast :: u32
  R_GoodByteCount_L :: u32
  R_BadByteCount_L :: u32
  T_GoodByteCount_L :: u32
  R_GoodByteCount_H :: "64 word"
  R_BadByteCount_H :: "64 word"
  T_GoodByteCount_H :: "64 word"

definition on_cnt :: "(IFX_ETHSW_RMON_cnt \<Rightarrow> IFX_ETHSW_RMON_cnt) \<Rightarrow> rmon_locals \<Rightarrow> rmon_locals" where
  "on_cnt f a = a\<lparr>cnt := f (cnt a)\<rparr>"

definition rmon_store :: "u32 \<Rightarrow> nat \<Rightarrow> u32 \<Rightarrow> rmon_locals \<Rightarrow> rmon_locals" where
  "rmon_store bcast i data a =
     (if i = 0x1F then (if bcast = 1 then on_cnt (\<lambda>c. c\<lparr>rn_nRxBroadcastPkts := data\<rparr>) a
        else on_cnt (\<lambda>c. c\<lparr>rn_nRxGoodPkts := data\<rparr>) a)\<lparr>r_frame := data\<rparr>
      else if i = 0x23 then (on_cnt (\<lambda>c. c\<lparr>rn_nRxUnicastPkts := data\<rparr>) a)\<lparr>r_unicast := data\<rparr>
      else if i = 0x22 then (on_cnt (\<lambda>c. c\<lparr>rn_nRxMulticastPkts := data\<rparr>) a)\<lparr>r_multicast := data\<rparr>
      else if i = 0x21 then on_cnt (\<lambda>c. c\<lparr>rn_nRxFCSErrorPkts := data\<rparr>) a
      else if i = 0x1D then on_cnt (\<lambda>c. c\<lparr>rn_nRxUnderSizeGoodPkts := data\<rparr>) a
      else if i = 0x1B then on_cnt (\<lambda>c. c\<lparr>rn_nRxOversizeGoodPkts := data\<rparr>) a
      else if i = 0x1E then on_cnt (\<lambda>c. c\<lparr>rn_nRxUnderSizeErrorPkts := data\<rparr>) a
      else if i = 0x20 then on_cnt (\<lambda>c. c\<lparr>rn_nRxGoodPausePkts := data\<rparr>) a
      else if i = 0x1C then on_cnt (\<lambda>c. c\<lparr>rn_nRxOversizeErrorPkts := data\<rparr>) a
      else if i = 0x1A then on_cnt (\<lambda>c. c\<lparr>rn_nRxAlignErrorPkts := data\<rparr>) a
      else if i = 0x12 then on_cnt (\<lambda>c. c\<lparr>rn_nRx64BytePkts := data\<rparr>) a
      else if i = 0x13 then on_cnt (\<lambda>c. c\<lparr>rn_nRx127BytePkts := data\<rparr>) a
      else if i = 0x14 then on_cnt (\<lambda>c. c\<lparr>rn_nRx255BytePkts := data\<rparr>) a
      else if i = 0x15 then on_cnt (\<lambda>c. c\<lparr>rn_nRx511BytePkts := data\<rparr>) a
      else if i = 0x16 then on_cnt (\<lambda>c. c\<lparr>rn_nRx1023BytePkts := data\<rparr>) a
      else if i = 0x17 then on_cnt (\<lambda>c. c\<lparr>rn_nRxMaxBytePkts := data\<rparr>) a
      else if i = 0x18 then on_cnt (\<lambda>c. c\<lparr>rn_nRxDroppedPkts := data\<rparr>) a
      else if i = 0x19 then on_cnt (\<lambda>c. c\<lparr>rn_nRxFilteredPkts := data\<rparr>) a
      else if i = 0x24 then a\<lparr>R_GoodByteCount_L := data\<rparr>
      else if i = 0x25 then a\<lparr>R_GoodByteCount_H := ucast data\<rparr>
      else if i = 0x26 then a\<lparr>R_BadByteCount_L := data\<rparr>
      else if i = 0x27 then a\<lparr>R_BadByteCount_H := ucast data\<rparr>
      else if i = 0x0C then (if bcast = 1 then on_cnt (\<lambda>c. c\<lparr>rn_nTxBroadcastPkts := data\<rparr>) a
        else on_cnt (\<lambda>c. c\<lparr>rn_nTxGoodPkts := data\<rparr>) a)\<lparr>t_frame := data\<rparr>
      else if i = 0x06 then (on_cnt (\<lambda>c. c\<lparr>rn_nTxUnicastPkts := data\<rparr>) a)\<lparr>t_unicast := data\<rparr>
      else if i = 0x07 then (on_cnt (\<lambda>c. c\<lparr>rn_nTxMulticastPkts := data\<rparr>) a)\<lparr>t_multicast := data\<rparr>
      else if i = 0x00 then on_cnt (\<lambda>c. c\<lparr>rn_nTx64BytePkts := data\<rparr>) a
      else if i = 0x01 then on_cnt (\<lambda>c. c\<lparr>rn_nTx127BytePkts := data\<rparr>) a
      else if i = 0x02 then on_cnt (\<lambda>c. c\<lparr>rn_nTx255BytePkts := data\<rparr>) a
      else if i = 0x03 then on_cnt (\<lambda>c. c\<lparr>rn_nTx511BytePkts := data\<rparr>) a
      else if i = 0x04 then on_cnt (\<lambda>c. c\<lparr>rn_nTx1023BytePkts := data\<rparr>) a
      else if i = 0x05 then on_cnt (\<lambda>c. c\<lparr>rn_nTxMaxBytePkts := data\<rparr>) a
      else if i = 0x08 then on_cnt (\<lambda>c. c\<lparr>rn_nTxSingleCollCount := data\<rparr>) a
      else if i = 0x09 then on_cnt (\<lambda>c. c\<lparr>rn_nTxMultCollCount := data\<rparr>) a
      else if i = 0x0A then on_cnt (\<lambda>c. c\<lparr>rn_nTxLateCollCount := data\<rparr>) a
      else if i = 0x0B then on_cnt (\<lambda>c. c\<lparr>rn_nTxExcessCollCount := data\<rparr>) a
      else if i = 0x0D then on_cnt (\<lambda>c. c\<lparr>rn_nTxPauseCount := data\<rparr>) a
      else if i = 0x10 then on_cnt (\<lambda>c. c\<lparr>rn_nTxDroppedPkts := data\<rparr>) a
      else if i = 0x0E then a\<lparr>T_GoodByteCount_L := data\<rparr>
      else if i = 0x0F then a\<lparr>T_GoodByteCount_H := ucast data\<rparr>
      else if i = 0x11 then on_cnt (\<lambda>c. c\<lparr>rn_nTxAcmDroppedPkts := data\<rparr>) a
      else a)"

fun rmon_loop :: "('p hw \<Rightarrow> 'p hw) \<Rightarrow> u32 \<Rightarrow> u8 \<Rightarrow> nat list \<Rightarrow> rmon_locals \<Rightarrow> 'p core \<Rightarrow> (rmon_locals \<times> 'p core) option" where
  "rmon_loop hwstep bcast p [] a s = Some (a, s)"
| "rmon_loop hwstep bcast p (i # is) a s = do {
     (data, s) \<leftarrow> rmon_fetch hwstep i p s;
     rmon_loop hwstep bcast p is (rmon_store bcast i data a) s }"

definition rmon_finish :: "u32 \<Rightarrow> rmon_locals \<Rightarrow> IFX_ETHSW_RMON_cnt" where
  "rmon_finish bcast a =
     (let c = cnt a;
          c = (if bcast = 1 then c\<lparr>rn_nRxGoodPkts := r_frame a + r_unicast a + r_multicast a,
                 rn_nTxGoodPkts := t_frame a + t_unicast a + t_multicast a\<rparr>
               else c\<lparr>rn_nRxBroadcastPkts := r_frame a - r_unicast a - r_multicast a,
                 rn_nTxBroadcastPkts := t_frame a - t_unicast a - t_multicast a\<rparr>)
      in c\<lparr>rn_nRxGoodBytes := push_bit 32 (R_GoodByteCount_H a) OR ucast (R_GoodByteCount_L a),
           rn_nRxBadBytes := push_bit 32 (R_BadByteCount_H a) OR ucast (R_BadByteCount_L a),
           rn_nTxGoodBytes := push_bit 32 (T_GoodByteCount_H a) OR ucast (T_GoodByteCount_L a)\<rparr>)"

definition zero_locals :: "IFX_ETHSW_RMON_cnt \<Rightarrow> rmon_locals" where
  "zero_locals c = \<lparr>cnt = c, r_frame = 0, r_unicast = 0, r_multicast = 0, t_frame = 0, t_unicast = 0, t_multicast = 0,
     R_GoodByteCount_L = 0, R_BadByteCount_L = 0, T_GoodByteCount_L = 0, R_GoodByteCount_H = 0, R_BadByteCount_H = 0,
     T_GoodByteCount_H = 0\<rparr>"

definition IFX_FLOW_RMON_Get ::
  "('p hw \<Rightarrow> 'p hw) \<Rightarrow> IFX_ETHSW_RMON_cnt \<Rightarrow> 'p core \<Rightarrow> (int \<times> IFX_ETHSW_RMON_cnt \<times> 'p core) option" where
  "IFX_FLOW_RMON_Get hwstep q s =
     (let portIdx = rn_nPortId q
      in if portIdx \<ge> nPortNumber (dev s) then Some (IFX_ERROR, q, s)
      else do {
        let bcast_cnt = rd (preg GSWIP_BM_RMON_CTRL_BCAST_CNT 2 portIdx) s;
        (a, s) \<leftarrow> rmon_loop hwstep bcast_cnt portIdx [0..<IFX_ETHSW_RMON_COUNTER_OFFSET]
          (zero_locals (zero_RMON_cnt\<lparr>rn_nPortId := portIdx\<rparr>)) s;
        Some (IFX_SUCCESS, rmon_finish bcast_cnt a, s) })"

text \<open>The structure is cleared with the port number in it, and the port number is not set again.\<close>

fun rmon_extend_loop :: "('p hw \<Rightarrow> 'p hw) \<Rightarrow> u8 \<Rightarrow> nat list \<Rightarrow> u32 list \<Rightarrow> 'p core \<Rightarrow> (u32 list \<times> 'p core) option" where
  "rmon_extend_loop hwstep p [] l s = Some (l, s)"
| "rmon_extend_loop hwstep p (i # is) l s = do {
     (data, s) \<leftarrow> rmon_fetch hwstep (i + RMON_EXTEND_TRAFFIC_FLOW_COUNT_1) p s;
     rmon_extend_loop hwstep p is (l[i := data]) s }"

definition IFX_FLOW_RMON_ExtendGet ::
  "('p hw \<Rightarrow> 'p hw) \<Rightarrow> IFX_FLOW_RMON_extendGet \<Rightarrow> 'p core \<Rightarrow> (int \<times> IFX_FLOW_RMON_extendGet \<times> 'p core) option" where
  "IFX_FLOW_RMON_ExtendGet hwstep q s =
     (let portIdx = rx_nPortId q
      in if portIdx \<ge> nPortNumber (dev s) then Some (IFX_ERROR, q, s)
      else do {
        (l, s) \<leftarrow> rmon_extend_loop hwstep portIdx [0..<IFX_FLOW_RMON_EXTEND_NUM] (replicate IFX_FLOW_RMON_EXTEND_NUM 0) s;
        Some (IFX_SUCCESS, \<lparr>rx_nPortId = 0, rx_nTrafficFlowCnt = l\<rparr>, s) })"

section \<open>What a read delivers\<close>

text \<open>
  Counter \<open>i\<close> of port \<open>p\<close>, as it is when the access ends. Meanwhile the counters may move; without traffic
  they stay.
\<close>

definition counters_stay :: "('p hw \<Rightarrow> 'p hw) \<Rightarrow> ('p \<Rightarrow> nat \<Rightarrow> nat \<Rightarrow> u32) \<Rightarrow> bool" where
  "counters_stay hwstep count \<longleftrightarrow>
     (\<forall>h p i h'. bm_command h 0 p i \<longrightarrow> poll hwstep VR9_BM_RAM_CTRL_BAS h = Some h' \<longrightarrow> count (priv h') = count (priv h))"

locale rmon_engine =
  fixes hwstep :: "'p hw \<Rightarrow> 'p hw" and count :: "'p \<Rightarrow> nat \<Rightarrow> nat \<Rightarrow> u32"
  assumes counter: "bm_command h 0 p i \<Longrightarrow> p < 12 \<Longrightarrow> i < 64 \<Longrightarrow> \<exists>h'. poll hwstep VR9_BM_RAM_CTRL_BAS h = Some h' \<and>
      push_bit 16 (rdf VR9_BM_RAM_VAL_1_VAL1 h') OR rdf VR9_BM_RAM_VAL_0_VAL0 h' = count (priv h') p i"
begin

lemma fetches:
  assumes "i < 64" "p < 12"
  obtains v s' where "rmon_fetch hwstep i p s = Some (v, s')" "dev s' = dev s" "st_pce (pce s') = st_pce (pce s)"
    "counters_stay hwstep count \<Longrightarrow> v = count (priv (hw_of s)) (unat p) i \<and> count (priv (hw_of s')) = count (priv (hw_of s))"
proof -
  let ?s = "wrs [(VR9_BM_RAM_ADDR_ADDR, of_nat i), (VR9_BM_RAM_CTRL_ADDR, ucast p), (VR9_BM_RAM_CTRL_OPMOD, 0), (VR9_BM_RAM_CTRL_BAS, 1)] s"
  have p: "unat p < 12" using assms(2) by (simp add: word_less_nat_alt)
  have i: "unat (of_nat i AND mask 11 :: u32) = i" using assms(1) by (subst and_mask_small) (simp_all add: unat_of_nat_small)
  have a: "unat (ucast p AND mask 5 :: u32) = unat p" using p by (subst and_mask_small) (simp_all add: unat_ucast_up)
  have c: "bm_command (hw_of ?s) 0 (unat p) i"
    using i a by (simp add: bm_command_def field_simps_hw)
  from counter [OF c p assms(1)] obtain h where h: "poll hwstep VR9_BM_RAM_CTRL_BAS (hw_of ?s) = Some h"
    "push_bit 16 (rdf VR9_BM_RAM_VAL_1_VAL1 h) OR rdf VR9_BM_RAM_VAL_0_VAL0 h = count (priv h) (unat p) i" by blast
  have q: "count (priv h) = count (priv (hw_of s))" if "counters_stay hwstep count"
    using that c h(1) unfolding counters_stay_def by fastforce
  show thesis
    by (rule that [of "count (priv h) (unat p) i" "upd_hw (\<lambda>_. h) ?s"]) (use h q in \<open>simp_all add: rmon_fetch_def bm_poll_def\<close>)
qed

lemma loops:
  "p < 12 \<Longrightarrow> distinct js \<Longrightarrow> (\<And>i. i \<in> set js \<Longrightarrow> i < 64) \<Longrightarrow> \<exists>f s'. rmon_loop hwstep bcast p js a s
     = Some (fold (\<lambda>i. rmon_store bcast i (f i)) js a, s') \<and> dev s' = dev s \<and> st_pce (pce s') = st_pce (pce s) \<and>
     (counters_stay hwstep count \<longrightarrow> (\<forall>i\<in>set js. f i = count (priv (hw_of s)) (unat p) i))"
proof (induction js arbitrary: a s)
  case (Cons j js)
  obtain v s1 where v: "rmon_fetch hwstep j p s = Some (v, s1)" "dev s1 = dev s" "st_pce (pce s1) = st_pce (pce s)"
    "counters_stay hwstep count \<Longrightarrow> v = count (priv (hw_of s)) (unat p) j \<and> count (priv (hw_of s1)) = count (priv (hw_of s))"
    using fetches [of j p s] Cons.prems by auto
  have "\<exists>f s'. rmon_loop hwstep bcast p js (rmon_store bcast j v a) s1
     = Some (fold (\<lambda>i. rmon_store bcast i (f i)) js (rmon_store bcast j v a), s') \<and> dev s' = dev s1 \<and>
     st_pce (pce s') = st_pce (pce s1) \<and> (counters_stay hwstep count \<longrightarrow> (\<forall>i\<in>set js. f i = count (priv (hw_of s1)) (unat p) i))"
    by (rule Cons.IH) (use Cons.prems in auto)
  then obtain f s' where f: "rmon_loop hwstep bcast p js (rmon_store bcast j v a) s1
     = Some (fold (\<lambda>i. rmon_store bcast i (f i)) js (rmon_store bcast j v a), s')" "dev s' = dev s1"
    "st_pce (pce s') = st_pce (pce s1)" "counters_stay hwstep count \<longrightarrow> (\<forall>i\<in>set js. f i = count (priv (hw_of s1)) (unat p) i)" by blast
  have "fold (\<lambda>i. rmon_store bcast i ((f(j := v)) i)) js b = fold (\<lambda>i. rmon_store bcast i (f i)) js b" for b
    by (rule fold_cong) (use Cons.prems in auto)
  then have "rmon_loop hwstep bcast p (j # js) a s = Some (fold (\<lambda>i. rmon_store bcast i ((f(j := v)) i)) (j # js) a, s')"
    using v(1) f(1) by simp
  then show ?case using v f by (intro exI [of _ "f(j := v)"] exI [of _ s']) auto
qed simp

end

text \<open>The report of counters \<open>f\<close>: where each of them goes.\<close>

definition rmon_report :: "u32 \<Rightarrow> u8 \<Rightarrow> (nat \<Rightarrow> u32) \<Rightarrow> IFX_ETHSW_RMON_cnt" where
  "rmon_report bcast p f = \<lparr>rn_nPortId = p,
     rn_nRxGoodPkts = (if bcast = 1 then f 0x1F + f 0x23 + f 0x22 else f 0x1F),
     rn_nRxUnicastPkts = f 0x23,
     rn_nRxBroadcastPkts = (if bcast = 1 then f 0x1F else f 0x1F - f 0x23 - f 0x22),
     rn_nRxMulticastPkts = f 0x22,
     rn_nRxFCSErrorPkts = f 0x21,
     rn_nRxUnderSizeGoodPkts = f 0x1D,
     rn_nRxOversizeGoodPkts = f 0x1B,
     rn_nRxUnderSizeErrorPkts = f 0x1E,
     rn_nRxGoodPausePkts = f 0x20,
     rn_nRxOversizeErrorPkts = f 0x1C,
     rn_nRxAlignErrorPkts = f 0x1A,
     rn_nRxFilteredPkts = f 0x19,
     rn_nRx64BytePkts = f 0x12,
     rn_nRx127BytePkts = f 0x13,
     rn_nRx255BytePkts = f 0x14,
     rn_nRx511BytePkts = f 0x15,
     rn_nRx1023BytePkts = f 0x16,
     rn_nRxMaxBytePkts = f 0x17,
     rn_nTxGoodPkts = (if bcast = 1 then f 0x0C + f 0x06 + f 0x07 else f 0x0C),
     rn_nTxUnicastPkts = f 0x06,
     rn_nTxBroadcastPkts = (if bcast = 1 then f 0x0C else f 0x0C - f 0x06 - f 0x07),
     rn_nTxMulticastPkts = f 0x07,
     rn_nTxSingleCollCount = f 0x08,
     rn_nTxMultCollCount = f 0x09,
     rn_nTxLateCollCount = f 0x0A,
     rn_nTxExcessCollCount = f 0x0B,
     rn_nTxCollCount = 0,
     rn_nTxPauseCount = f 0x0D,
     rn_nTx64BytePkts = f 0x00,
     rn_nTx127BytePkts = f 0x01,
     rn_nTx255BytePkts = f 0x02,
     rn_nTx511BytePkts = f 0x03,
     rn_nTx1023BytePkts = f 0x04,
     rn_nTxMaxBytePkts = f 0x05,
     rn_nTxDroppedPkts = f 0x10,
     rn_nTxAcmDroppedPkts = f 0x11,
     rn_nRxDroppedPkts = f 0x18,
     rn_nRxGoodBytes = push_bit 32 (ucast (f 0x25)) OR ucast (f 0x24),
     rn_nRxBadBytes = push_bit 32 (ucast (f 0x27)) OR ucast (f 0x26),
     rn_nTxGoodBytes = push_bit 32 (ucast (f 0x0F)) OR ucast (f 0x0E)\<rparr>"

lemma store_report:
  "rmon_finish bcast (fold (\<lambda>i. rmon_store bcast i (f i)) [0..<64] (zero_locals (zero_RMON_cnt\<lparr>rn_nPortId := p\<rparr>)))
   = rmon_report bcast p f"
proof -
  have l: "[0..<64] = [0, 1, 2, 3, 4, 5, 6, 7, 8, 9, 10, 11, 12, 13, 14, 15, 16, 17, 18, 19, 20, 21, 22, 23, 24, 25, 26,
     27, 28, 29, 30, 31, 32, 33, 34, 35, 36, 37, 38, 39, 40, 41, 42, 43, 44, 45, 46, 47, 48, 49, 50, 51,
     52, 53, 54, 55, 56, 57, 58, 59, 60, 61, 62, 63]"
    by (simp add: upt_conv_Cons)
  show ?thesis unfolding l
    by (cases "bcast = 1") (simp_all add: rmon_store_def on_cnt_def zero_locals_def zero_RMON_cnt_def
      rmon_finish_def rmon_report_def)
qed

context rmon_engine begin

lemma reports:
  assumes "rn_nPortId q < nPortNumber (dev s)" "rn_nPortId q < 12"
  obtains f s' where "IFX_FLOW_RMON_Get hwstep q s = Some (IFX_SUCCESS,
      rmon_report (rd (preg GSWIP_BM_RMON_CTRL_BCAST_CNT 2 (rn_nPortId q)) s) (rn_nPortId q) f, s')" "dev s' = dev s"
    "counters_stay hwstep count \<Longrightarrow> \<forall>i<64. f i = count (priv (hw_of s)) (unat (rn_nPortId q)) i"
proof -
  let ?b = "rd (preg GSWIP_BM_RMON_CTRL_BCAST_CNT 2 (rn_nPortId q)) s" and ?a = "zero_locals (zero_RMON_cnt\<lparr>rn_nPortId := rn_nPortId q\<rparr>)"
  obtain f s' where f: "rmon_loop hwstep ?b (rn_nPortId q) [0..<64] ?a s
      = Some (fold (\<lambda>i. rmon_store ?b i (f i)) [0..<64] ?a, s')" "dev s' = dev s"
    "counters_stay hwstep count \<longrightarrow> (\<forall>i\<in>set [0..<64]. f i = count (priv (hw_of s)) (unat (rn_nPortId q)) i)"
    using loops [OF assms(2) distinct_upt, of 0 64 ?b ?a s] by auto
  have "IFX_FLOW_RMON_Get hwstep q s = Some (IFX_SUCCESS, rmon_report ?b (rn_nPortId q) f, s')"
    using assms(1) f(1) unfolding IFX_FLOW_RMON_Get_def Let_def
    by (simp only: not_le [symmetric] if_False bind.bind_lunit prod.case store_report simp_thms)
  then show thesis using that f(2,3) by auto
qed

end

text \<open>Every packet counted as good is in one of the three classes, and byte counts have 64 bits.\<close>

lemma two_halves: "unat (push_bit 32 (ucast (a :: u32)) OR ucast (b :: u32) :: 64 word) = 2 ^ 32 * unat a + unat b"
proof -
  have b: "a' < 2 ^ 32" if "a' = unat (c :: u32)" for a' c using that unsigned_less [of c] by simp
  have "push_bit 32 (ucast a) OR ucast b = (push_bit 32 (ucast a) + ucast b :: 64 word)"
    by (rule disjunctive_add [symmetric]) (auto simp: bit_simps dest: bit_imp_le_length)
  moreover have "unat (push_bit 32 (ucast a) :: 64 word) = 2 ^ 32 * unat a"
    using b [OF refl, of a] unfolding push_bit_eq_mult by (simp add: unat_word_ariths unat_ucast_up)
  ultimately show ?thesis
    using b [OF refl, of a] b [OF refl, of b] by (simp add: unat_word_ariths unat_ucast_up)
qed

lemma report_totals:
  "rn_nRxGoodPkts (rmon_report b p f) = rn_nRxUnicastPkts (rmon_report b p f) + rn_nRxMulticastPkts (rmon_report b p f)
     + rn_nRxBroadcastPkts (rmon_report b p f)"
  "rn_nTxGoodPkts (rmon_report b p f) = rn_nTxUnicastPkts (rmon_report b p f) + rn_nTxMulticastPkts (rmon_report b p f)
     + rn_nTxBroadcastPkts (rmon_report b p f)"
  "unat (rn_nRxGoodBytes (rmon_report b p f)) = 2 ^ 32 * unat (f 0x25) + unat (f 0x24)"
  "unat (rn_nRxBadBytes (rmon_report b p f)) = 2 ^ 32 * unat (f 0x27) + unat (f 0x26)"
  "unat (rn_nTxGoodBytes (rmon_report b p f)) = 2 ^ 32 * unat (f 0x0F) + unat (f 0x0E)"
  by (simp_all add: rmon_report_def two_halves [simplified])

section \<open>A device\<close>

definition ram_count :: "dual_priv \<Rightarrow> nat \<Rightarrow> nat \<Rightarrow> u32" where
  "ram_count d p i = push_bit 16 (ucast (snd (d_ram d p i))) OR ucast (fst (d_ram d p i))"

lemma dual_counter:
  assumes "bm_command h 0 p i"
  shows "poll dual_step VR9_BM_RAM_CTRL_BAS h = Some (dual_step h)" "d_ram (priv (dual_step h)) = d_ram (priv h)"
    "bm_vals (dual_step h) = d_ram (priv h) p i"
proof -
  have c: "rdf VR9_BM_RAM_CTRL_BAS h = 1" "rdf VR9_BM_RAM_CTRL_OPMOD h = 0"
    "unat (rdf VR9_BM_RAM_CTRL_ADDR h) = p" "unat (rdf VR9_BM_RAM_ADDR_ADDR h) = i"
    using assms by (simp_all add: bm_command_def word_unat_eq_iff)
  show "poll dual_step VR9_BM_RAM_CTRL_BAS h = Some (dual_step h)" by (rule dual_poll_bm [OF c(1)])
  show "d_ram (priv (dual_step h)) = d_ram (priv h)" "bm_vals (dual_step h) = d_ram (priv h) p i"
    using c by (simp_all add: dual_step_def dual_bm_def bm_fields_kept bm_window_def dual_pce_keeps bm_vals_def
        field_simps_hw ucast_and_mask16)
qed

interpretation dualr: rmon_engine dual_step ram_count
proof unfold_locales
  fix h :: "dual_priv hw" and p i assume c: "bm_command h 0 p i"
  show "\<exists>h'. poll dual_step VR9_BM_RAM_CTRL_BAS h = Some h' \<and>
    push_bit 16 (rdf VR9_BM_RAM_VAL_1_VAL1 h') OR rdf VR9_BM_RAM_VAL_0_VAL0 h' = ram_count (priv h') p i"
    using dual_counter [OF c] bm_vals_back [of "dual_step h"] by (simp add: ram_count_def)
qed

lemma dual_quiet: "counters_stay dual_step ram_count"
  unfolding counters_stay_def using dual_counter by (auto simp: ram_count_def fun_eq_iff)

end
