(* ===== verification/Core_CPU.thy ===== *)
theory Core_CPU
  imports Core_System
begin

text \<open>
  The port of the processor, \<^verbatim>\<open>ltq_flow_core.c\<close>: special tags and check sums of the port, and the header that the
  interface between switch and processor adds to packets or removes from them.
\<close>

unbundle bit_operations_syntax

section \<open>Parameters and registers\<close>

record IFX_ETHSW_CPU_PortCfg =
  cc_nPortId :: u8
  cc_bCPU_PortValid :: u32
  cc_bSpecialTagIngress :: u32
  cc_bSpecialTagEgress :: u32
  cc_bFcsCheck :: u32
  cc_bFcsGenerate :: u32
  cc_bSpecialTagEthType :: u32

record IFX_ETHSW_CPU_Header =
  ch_nMAC_Src :: "u8 list"
  ch_nMAC_Dst :: "u8 list"
  ch_nEthertype :: u16
  ch_nVLAN_Prio :: u8
  ch_nVLAN_CFI :: u8
  ch_nVLAN_ID :: u16

record IFX_ETHSW_CPU_PortExtendCfg =
  ce_eHeaderAdd :: u32
  ce_bHeaderRemove :: u32
  ce_sHeader :: IFX_ETHSW_CPU_Header
  ce_ePauseCtrl :: u32
  ce_bFcsRemove :: u32
  ce_nWAN_Ports :: u32

abbreviation (input) VR9_FDMA_PCTRL_STEN :: field where "VR9_FDMA_PCTRL_STEN \<equiv> (0xA80, 1, 1)"
abbreviation (input) VR9_PCE_PCTRL_0_IGSTEN :: field where "VR9_PCE_PCTRL_0_IGSTEN \<equiv> (0x480, 11, 1)"
abbreviation (input) VR9_SDMA_PCTRL_FCSIGN :: field where "VR9_SDMA_PCTRL_FCSIGN \<equiv> (0xBC0, 5, 1)"
abbreviation (input) VR9_MAC_CTRL_0_FCS :: field where "VR9_MAC_CTRL_0_FCS \<equiv> (0x903, 7, 1)"
abbreviation (input) VR9_FDMA_PCTRL_ST_TYPE :: field where "VR9_FDMA_PCTRL_ST_TYPE \<equiv> (0xA80, 5, 1)"

text \<open>The registers of the interface, at \<^verbatim>\<open>IFX_ETHSW_FLOW_TOP_REG_OFFSET\<close>.\<close>

abbreviation (input) PMAC_HD_CTL_RST :: field where "PMAC_HD_CTL_RST \<equiv> at (0x082, 8, 1) IFX_ETHSW_FLOW_TOP_REG_OFFSET"
abbreviation (input) PMAC_HD_CTL_AS :: field where "PMAC_HD_CTL_AS \<equiv> at (0x082, 3, 1) IFX_ETHSW_FLOW_TOP_REG_OFFSET"
abbreviation (input) PMAC_HD_CTL_AST :: field where "PMAC_HD_CTL_AST \<equiv> at (0x082, 7, 1) IFX_ETHSW_FLOW_TOP_REG_OFFSET"
abbreviation (input) PMAC_HD_CTL_RXSH :: field where "PMAC_HD_CTL_RXSH \<equiv> at (0x082, 6, 1) IFX_ETHSW_FLOW_TOP_REG_OFFSET"
abbreviation (input) PMAC_HD_CTL_ADD :: field where "PMAC_HD_CTL_ADD \<equiv> at (0x082, 0, 1) IFX_ETHSW_FLOW_TOP_REG_OFFSET"
abbreviation (input) PMAC_HD_CTL_TAG :: field where "PMAC_HD_CTL_TAG \<equiv> at (0x082, 1, 1) IFX_ETHSW_FLOW_TOP_REG_OFFSET"
abbreviation (input) PMAC_HD_CTL_RL2 :: field where "PMAC_HD_CTL_RL2 \<equiv> at (0x082, 5, 1) IFX_ETHSW_FLOW_TOP_REG_OFFSET"
abbreviation (input) PMAC_HD_CTL_FC :: field where "PMAC_HD_CTL_FC \<equiv> at (0x082, 10, 1) IFX_ETHSW_FLOW_TOP_REG_OFFSET"
abbreviation (input) PMAC_HD_CTL_RC :: field where "PMAC_HD_CTL_RC \<equiv> at (0x082, 4, 1) IFX_ETHSW_FLOW_TOP_REG_OFFSET"
abbreviation (input) PMAC_SA3_SA_15_0 :: field where "PMAC_SA3_SA_15_0 \<equiv> at (0x086, 0, 16) IFX_ETHSW_FLOW_TOP_REG_OFFSET"
abbreviation (input) PMAC_SA2_SA_31_16 :: field where "PMAC_SA2_SA_31_16 \<equiv> at (0x085, 0, 16) IFX_ETHSW_FLOW_TOP_REG_OFFSET"
abbreviation (input) PMAC_SA1_SA_47_32 :: field where "PMAC_SA1_SA_47_32 \<equiv> at (0x084, 0, 16) IFX_ETHSW_FLOW_TOP_REG_OFFSET"
abbreviation (input) PMAC_DA3_DA_15_0 :: field where "PMAC_DA3_DA_15_0 \<equiv> at (0x089, 0, 16) IFX_ETHSW_FLOW_TOP_REG_OFFSET"
abbreviation (input) PMAC_DA2_DA_31_16 :: field where "PMAC_DA2_DA_31_16 \<equiv> at (0x088, 0, 16) IFX_ETHSW_FLOW_TOP_REG_OFFSET"
abbreviation (input) PMAC_DA1_SA_47_32 :: field where "PMAC_DA1_SA_47_32 \<equiv> at (0x087, 0, 16) IFX_ETHSW_FLOW_TOP_REG_OFFSET"
abbreviation (input) PMAC_TL_TYPE_LEN :: field where "PMAC_TL_TYPE_LEN \<equiv> at (0x083, 0, 16) IFX_ETHSW_FLOW_TOP_REG_OFFSET"
abbreviation (input) PMAC_VLAN_PRI :: field where "PMAC_VLAN_PRI \<equiv> at (0x08A, 13, 3) IFX_ETHSW_FLOW_TOP_REG_OFFSET"
abbreviation (input) PMAC_VLAN_CFI :: field where "PMAC_VLAN_CFI \<equiv> at (0x08A, 12, 1) IFX_ETHSW_FLOW_TOP_REG_OFFSET"
abbreviation (input) PMAC_VLAN_VLAN_ID :: field where "PMAC_VLAN_VLAN_ID \<equiv> at (0x08A, 0, 12) IFX_ETHSW_FLOW_TOP_REG_OFFSET"
abbreviation (input) PMAC_EWAN_EWAN :: field where "PMAC_EWAN_EWAN \<equiv> at (0x08D, 0, 6) IFX_ETHSW_FLOW_TOP_REG_OFFSET"

abbreviation (input) IFX_ETHSW_CPU_HEADER_NO :: u32 where "IFX_ETHSW_CPU_HEADER_NO \<equiv> 0"
abbreviation (input) IFX_ETHSW_CPU_HEADER_MAC :: u32 where "IFX_ETHSW_CPU_HEADER_MAC \<equiv> 1"
abbreviation (input) IFX_ETHSW_CPU_HEADER_VLAN :: u32 where "IFX_ETHSW_CPU_HEADER_VLAN \<equiv> 2"

section \<open>The handlers\<close>

definition IFX_FLOW_CPU_PortCfgGet :: "IFX_ETHSW_CPU_PortCfg \<Rightarrow> 'p core \<Rightarrow> int \<times> IFX_ETHSW_CPU_PortCfg" where
  "IFX_FLOW_CPU_PortCfgGet q s =
     (let p = cc_nPortId q
      in if p \<ge> nPortNumber (dev s) then (IFX_ERROR, q)
      else (IFX_SUCCESS, q\<lparr>cc_bCPU_PortValid := (if p = nCPU_Port (dev s) then 1 else 0),
             cc_bSpecialTagEgress := rd (preg VR9_FDMA_PCTRL_STEN 0x6 p) s,
             cc_bSpecialTagIngress := rd (preg VR9_PCE_PCTRL_0_IGSTEN 0xA p) s,
             cc_bFcsCheck := rd (preg VR9_SDMA_PCTRL_FCSIGN 0x6 p) s,
             cc_bFcsGenerate := rd (preg VR9_MAC_CTRL_0_FCS 0xC p) s,
             cc_bSpecialTagEthType := rd (preg VR9_FDMA_PCTRL_ST_TYPE 0x6 p) s\<rparr>))"

definition IFX_FLOW_CPU_PortCfgSet :: "IFX_ETHSW_CPU_PortCfg \<Rightarrow> 'p core \<Rightarrow> int \<times> IFX_ETHSW_CPU_PortCfg \<times> 'p core" where
  "IFX_FLOW_CPU_PortCfgSet q s =
     (let p = cc_nPortId q
      in if p \<ge> nPortNumber (dev s) then (IFX_ERROR, q, s)
      else let q = q\<lparr>cc_bCPU_PortValid := (if p = nCPU_Port (dev s) then 1 else 0)\<rparr>;
               s = upd_dev (\<lambda>d. d\<lparr>nManagementPortNumber := p\<rparr>) s;
               s = wr (preg VR9_FDMA_PCTRL_STEN 0x6 p) (cc_bSpecialTagEgress q) s;
               s = (if p = nCPU_Port (dev s)
                    then wrs [(PMAC_HD_CTL_RST, if cc_bSpecialTagEgress q = IFX_FALSE then 1 else 0),
                           (PMAC_HD_CTL_AS, if cc_bSpecialTagEgress q = IFX_FALSE then 0 else 1)] s
                    else s);
               s = wr (preg VR9_PCE_PCTRL_0_IGSTEN 0xA p) (cc_bSpecialTagIngress q) s;
               on = (if cc_bSpecialTagIngress q = IFX_FALSE then 0 else 1);
               s = wrs [(PMAC_HD_CTL_AST, on), (PMAC_HD_CTL_RXSH, on)] s;
               s = wr (preg VR9_SDMA_PCTRL_FCSIGN 0x6 p) (cc_bFcsCheck q) s;
               s = wr (preg VR9_MAC_CTRL_0_FCS 0xC p) (cc_bFcsGenerate q) s;
               s = wr (preg VR9_FDMA_PCTRL_ST_TYPE 0x6 p) (if cc_bSpecialTagEthType q = 1 then 1 else 0) s
      in (IFX_SUCCESS, q, s))"

text \<open>Bytes are stored with the first one in the low half.\<close>

definition low_high :: "u32 \<Rightarrow> u8 list" where
  "low_high v = [ucast (v AND 0xFF), ucast (drop_bit 8 v AND 0xFF)]"

definition zero_header :: IFX_ETHSW_CPU_Header where
  "zero_header = \<lparr>ch_nMAC_Src = replicate 6 0, ch_nMAC_Dst = replicate 6 0, ch_nEthertype = 0, ch_nVLAN_Prio = 0,
     ch_nVLAN_CFI = 0, ch_nVLAN_ID = 0\<rparr>"

definition IFX_FLOW_CPU_PortExtendCfgGet :: "IFX_ETHSW_CPU_PortExtendCfg \<Rightarrow> 'p core \<Rightarrow> int \<times> IFX_ETHSW_CPU_PortExtendCfg" where
  "IFX_FLOW_CPU_PortExtendCfgGet q s =
     (let value_add = rd PMAC_HD_CTL_ADD s; value_vlan = rd PMAC_HD_CTL_TAG s;
          q = q\<lparr>ce_eHeaderAdd := (if value_add = 0 \<and> value_vlan = 0 then 0 else if value_add = 1 \<and> value_vlan = 0 then 1
                 else if value_add = 1 \<and> value_vlan = 1 then 2 else 0),
                ce_bHeaderRemove := rd PMAC_HD_CTL_RL2 s\<rparr>;
          h = zero_header;
          h = (if value_add = 1
               then h\<lparr>ch_nMAC_Src := low_high (rd PMAC_SA3_SA_15_0 s) @ low_high (rd PMAC_SA2_SA_31_16 s) @ low_high (rd PMAC_SA1_SA_47_32 s),
                      ch_nMAC_Dst := low_high (rd PMAC_DA3_DA_15_0 s) @ low_high (rd PMAC_DA2_DA_31_16 s) @ low_high (rd PMAC_DA1_SA_47_32 s),
                      ch_nEthertype := ucast (rd PMAC_TL_TYPE_LEN s)\<rparr>
               else h);
          h = (if value_vlan = 1
               then h\<lparr>ch_nVLAN_Prio := ucast (rd PMAC_VLAN_PRI s), ch_nVLAN_CFI := ucast (rd PMAC_VLAN_CFI s),
                      ch_nVLAN_ID := ucast (rd PMAC_VLAN_VLAN_ID s)\<rparr>
               else h)
      in (IFX_SUCCESS, q\<lparr>ce_sHeader := h, ce_ePauseCtrl := rd PMAC_HD_CTL_FC s, ce_bFcsRemove := rd PMAC_HD_CTL_RC s,
           ce_nWAN_Ports := rd PMAC_EWAN_EWAN s\<rparr>))"

definition IFX_FLOW_CPU_PortExtendCfgSet :: "IFX_ETHSW_CPU_PortExtendCfg \<Rightarrow> 'p core \<Rightarrow> int \<times> 'p core" where
  "IFX_FLOW_CPU_PortExtendCfgSet q s =
     (let (value_add, value_vlan) =
            (if ce_eHeaderAdd q = IFX_ETHSW_CPU_HEADER_MAC then (1, 0)
             else if ce_eHeaderAdd q = IFX_ETHSW_CPU_HEADER_VLAN then (1, 1) else (0, 0));
          h = ce_sHeader q; a = ch_nMAC_Src h; b = ch_nMAC_Dst h
      in if ce_bHeaderRemove q = 1 \<and> ce_eHeaderAdd q \<noteq> IFX_ETHSW_CPU_HEADER_NO then (IFX_ERROR, s)
      else (IFX_SUCCESS, wrs (
        [(PMAC_HD_CTL_RL2, ce_bHeaderRemove q), (PMAC_HD_CTL_ADD, value_add), (PMAC_HD_CTL_TAG, value_vlan)] @
        (if ce_eHeaderAdd q = IFX_ETHSW_CPU_HEADER_MAC then
           [(PMAC_SA3_SA_15_0, two_bytes (a ! 1) (a ! 0)), (PMAC_SA2_SA_31_16, two_bytes (a ! 3) (a ! 2)),
            (PMAC_SA1_SA_47_32, two_bytes (a ! 5) (a ! 4)),
            (PMAC_DA3_DA_15_0, two_bytes (b ! 1) (b ! 0)), (PMAC_DA2_DA_31_16, two_bytes (b ! 3) (b ! 2)),
            (PMAC_DA1_SA_47_32, two_bytes (b ! 5) (b ! 4)), (PMAC_TL_TYPE_LEN, ucast (ch_nEthertype h))] else []) @
        (if ce_eHeaderAdd q = IFX_ETHSW_CPU_HEADER_VLAN then
           [(PMAC_VLAN_PRI, ucast (ch_nVLAN_Prio h)), (PMAC_VLAN_CFI, ucast (ch_nVLAN_CFI h)),
            (PMAC_VLAN_VLAN_ID, ucast (ch_nVLAN_ID h))] else []) @
        [(PMAC_HD_CTL_FC, ce_ePauseCtrl q), (PMAC_HD_CTL_RC, ce_bFcsRemove q), (PMAC_EWAN_EWAN, ce_nWAN_Ports q)]) s))"

section \<open>Reading the header back\<close>

text \<open>
  What is reported after a request that succeeds: with a header of addresses, its addresses and type; with
  a header and a VLAN tag the tag, but the addresses and the type that were there before.
\<close>

lemma low_high_back: "low_high (two_bytes a b AND mask 16) = [b, a]"
  unfolding low_high_def two_bytes_back ..

lemma six_back:
  assumes "length a = 6"
  shows "low_high (two_bytes (a ! Suc 0) (a ! 0) AND mask 16) @ low_high (two_bytes (a ! 3) (a ! 2) AND mask 16) @
    low_high (two_bytes (a ! 5) (a ! 4) AND mask 16) = a"
  unfolding low_high_back using six_bytes [OF assms] by simp

definition stale_addresses :: "'p core \<Rightarrow> IFX_ETHSW_CPU_Header" where
  "stale_addresses s = zero_header
     \<lparr>ch_nMAC_Src := low_high (rd PMAC_SA3_SA_15_0 s) @ low_high (rd PMAC_SA2_SA_31_16 s) @ low_high (rd PMAC_SA1_SA_47_32 s),
      ch_nMAC_Dst := low_high (rd PMAC_DA3_DA_15_0 s) @ low_high (rd PMAC_DA2_DA_31_16 s) @ low_high (rd PMAC_DA1_SA_47_32 s),
      ch_nEthertype := ucast (rd PMAC_TL_TYPE_LEN s)\<rparr>"

definition header_back :: "IFX_ETHSW_CPU_PortExtendCfg \<Rightarrow> 'p core \<Rightarrow> IFX_ETHSW_CPU_Header" where
  "header_back q s =
     (if ce_eHeaderAdd q = IFX_ETHSW_CPU_HEADER_MAC
      then zero_header\<lparr>ch_nMAC_Src := ch_nMAC_Src (ce_sHeader q), ch_nMAC_Dst := ch_nMAC_Dst (ce_sHeader q),
             ch_nEthertype := ch_nEthertype (ce_sHeader q)\<rparr>
      else if ce_eHeaderAdd q = IFX_ETHSW_CPU_HEADER_VLAN
      then (stale_addresses s)\<lparr>ch_nVLAN_Prio := ch_nVLAN_Prio (ce_sHeader q) AND 7,
             ch_nVLAN_CFI := ch_nVLAN_CFI (ce_sHeader q) AND 1, ch_nVLAN_ID := ch_nVLAN_ID (ce_sHeader q) AND 0xFFF\<rparr>
      else zero_header)"

lemma narrow_back:
  "(ucast (ucast (v :: u8) AND mask n :: u32) :: u8) = v AND mask n" "(ucast (ucast (w :: u16) AND mask n :: u32) :: u16) = w AND mask n"
  by (rule bit_word_eqI; auto simp: bit_simps)+

lemma narrow_bit: "(ucast (ucast (v :: u8) AND 1 :: u32) :: u8) = v AND 1"
  using narrow_back(1) [of v 1] by (simp add: mask_eq_exp_minus_1)

definition extend_back :: "IFX_ETHSW_CPU_PortExtendCfg \<Rightarrow> 'p core \<Rightarrow> IFX_ETHSW_CPU_PortExtendCfg" where
  "extend_back q s = \<lparr>ce_eHeaderAdd = ce_eHeaderAdd q, ce_bHeaderRemove = ce_bHeaderRemove q AND 1,
      ce_sHeader = header_back q s, ce_ePauseCtrl = ce_ePauseCtrl q AND 1,
      ce_bFcsRemove = ce_bFcsRemove q AND 1, ce_nWAN_Ports = ce_nWAN_Ports q AND 0x3F\<rparr>"

lemma low_masks:
  "(7 :: u8) = mask 3" "(1 :: u8) = mask 1" "(0xFFF :: u16) = mask 12" "(0x3F :: u32) = mask 6" "(1 :: u32) = mask 1"
  by (simp_all add: mask_eq_exp_minus_1)

lemma cpu_header_back:
  assumes "length (ch_nMAC_Src (ce_sHeader q)) = 6" "length (ch_nMAC_Dst (ce_sHeader q)) = 6"
    "ce_eHeaderAdd q \<in> {0, 1, 2}" "\<not> (ce_bHeaderRemove q = 1 \<and> ce_eHeaderAdd q \<noteq> 0)"
  shows "fst (IFX_FLOW_CPU_PortExtendCfgSet q s) = IFX_SUCCESS"
    "IFX_FLOW_CPU_PortExtendCfgGet r (snd (IFX_FLOW_CPU_PortExtendCfgSet q s)) = (IFX_SUCCESS, extend_back q s)"
proof -
  show "fst (IFX_FLOW_CPU_PortExtendCfgSet q s) = IFX_SUCCESS"
    using assms(4) by (auto simp: IFX_FLOW_CPU_PortExtendCfgSet_def Let_def split: prod.split)
  note defs = IFX_FLOW_CPU_PortExtendCfgSet_def IFX_FLOW_CPU_PortExtendCfgGet_def Let_def header_back_def extend_back_def
  consider "ce_eHeaderAdd q = 0" | "ce_eHeaderAdd q = 1" "ce_bHeaderRemove q \<noteq> 1" | "ce_eHeaderAdd q = 2" "ce_bHeaderRemove q \<noteq> 1"
    using assms(3,4) by auto
  then show "IFX_FLOW_CPU_PortExtendCfgGet r (snd (IFX_FLOW_CPU_PortExtendCfgSet q s)) = (IFX_SUCCESS, extend_back q s)"
  proof cases
    case 1
    then show ?thesis by (simp add: defs field_simps_hw mask_eq_exp_minus_1)
  next
    case 2
    then show ?thesis
      by (simp add: defs field_simps_hw six_back [OF assms(1)] six_back [OF assms(2)] low_masks(4))
  next
    case 3
    then show ?thesis
      by (simp add: defs field_simps_hw stale_addresses_def narrow_back narrow_bit low_masks(1,3,4))
  qed
qed

end
