(* ===== verification/Core_Groups.thy ===== *)
theory Core_Groups
  imports Core_VLAN
begin

text \<open>
  The multicast groups of software snooping, \<^verbatim>\<open>ifx_multicast_sw_table_write\<close> and
  \<^verbatim>\<open>ifx_multicast_sw_table_remove\<close> of \<^verbatim>\<open>ltq_flow_core.c\<close>. A row of the table names the group and the
  source by indices into the reference-counted address tables of the classification engine, and holds
  the ports of the members; it is mirrored in table 13 of the device.
\<close>

unbundle bit_operations_syntax

section \<open>Parameters and rows\<close>

record IFX_ETHSW_multicastTable =
  mt_nPortId :: u8
  mt_eIPVersion :: u32
  mt_uIP_Gda :: "u16 list"
  mt_uIP_Gsa :: "u16 list"
  mt_eModeMember :: u32

abbreviation (input) IFX_ETHSW_IP_SELECT_IPV4 :: u32 where "IFX_ETHSW_IP_SELECT_IPV4 \<equiv> 0"
abbreviation (input) IFX_ETHSW_IP_SELECT_IPV6 :: u32 where "IFX_ETHSW_IP_SELECT_IPV6 \<equiv> 1"
abbreviation (input) IFX_ETHSW_IGMP_MEMBER_INCLUDE :: u32 where "IFX_ETHSW_IGMP_MEMBER_INCLUDE \<equiv> 0"
abbreviation (input) IFX_ETHSW_IGMP_MEMBER_EXCLUDE :: u32 where "IFX_ETHSW_IGMP_MEMBER_EXCLUDE \<equiv> 1"
abbreviation (input) IFX_ETHSW_IGMP_MEMBER_DONT_CARE :: u32 where "IFX_ETHSW_IGMP_MEMBER_DONT_CARE \<equiv> 2"
abbreviation (input) PCE_MULTICAST_SW_INDEX :: u16 where "PCE_MULTICAST_SW_INDEX \<equiv> 0x0D"

abbreviation v6 :: "IFX_ETHSW_multicastTable \<Rightarrow> bool" where
  "v6 q \<equiv> mt_eIPVersion q = IFX_ETHSW_IP_SELECT_IPV6"

abbreviation excluding :: "IFX_ETHSW_multicastTable \<Rightarrow> bool" where
  "excluding q \<equiv> mt_eModeMember q = IFX_ETHSW_IGMP_MEMBER_EXCLUDE"

abbreviation filtered :: "IFX_ETHSW_multicastTable \<Rightarrow> bool" where
  "filtered q \<equiv> mt_eModeMember q = IFX_ETHSW_IGMP_MEMBER_INCLUDE \<or> excluding q"

abbreviation sw_at :: "'p core \<Rightarrow> nat \<Rightarrow> IFX_MulticastSW_table_Entry" where
  "sw_at s i \<equiv> multicast_sw_table (IGMP_Flags (dev s)) ! i"

abbreviation sw_size :: "'p core \<Rightarrow> nat" where
  "sw_size s \<equiv> unat (nSwTblSize (IGMP_Flags (dev s)))"

text \<open>The address tables, and a call of one of their routines.\<close>

abbreviation handle :: "'p core \<Rightarrow> IFX_PCE_HANDLE" where
  "handle s \<equiv> pce_sub_tbl (st_pce (pce s))"

definition upd_sub :: "(IFX_PCE_HANDLE \<Rightarrow> IFX_PCE_HANDLE) \<Rightarrow> 'p core \<Rightarrow> 'p core" where
  "upd_sub f s = s\<lparr>pce := (pce s)\<lparr>st_pce := (st_pce (pce s))\<lparr>pce_sub_tbl := f (handle s)\<rparr>\<rparr>\<rparr>"

definition sub_call :: "('p sub \<Rightarrow> ('r \<times> 'p sub) option) \<Rightarrow> 'p core \<Rightarrow> ('r \<times> 'p core) option" where
  "sub_call f s = map_option (\<lambda>(r, H, h). (r, upd_hw (\<lambda>_. h) (upd_sub (\<lambda>_. H) s))) (f (handle s, hw_of s))"

section \<open>Addresses\<close>

text \<open>\<^verbatim>\<open>dasa_lsb_tbl\<close>, cleared at first: an IPv4 address, or the lower half of an IPv6 address.\<close>

definition group_lsb_row :: "IFX_ETHSW_multicastTable \<Rightarrow> u16 list \<Rightarrow> IFX_PCE_IP_DASA_TBL" where
  "group_lsb_row q ip = (if v6 q then lsb_row ip 0 else v4_row ip 0 (replicate 4 0))"

text \<open>The row of an address, else a row newly taken (the flag); negative when the table is full.\<close>

definition group_index ::
  "(IFX_PCE_HANDLE \<Rightarrow> int) \<Rightarrow> ('p sub \<Rightarrow> (int \<times> 'p sub) option) \<Rightarrow> 'p core \<Rightarrow> (int \<times> bool \<times> 'p core) option" where
  "group_index look w s =
     (if look (handle s) = 0xFF then map_option (\<lambda>(i, s). (i, True, s)) (sub_call w s)
      else Some (look (handle s), False, s))"

definition group_msb :: "('p hw \<Rightarrow> 'p hw) \<Rightarrow> IFX_PCE_IP_DASA_TBL \<Rightarrow> 'p core \<Rightarrow> (int \<times> bool \<times> 'p core) option" where
  "group_msb hwstep e = group_index (\<lambda>H. find_software_msb_tbl_entry H e) (ifx_pce_tm_ip_dasa_msb_tbl_write hwstep e)"

definition group_lsb :: "('p hw \<Rightarrow> 'p hw) \<Rightarrow> IFX_PCE_IP_DASA_TBL \<Rightarrow> 'p core \<Rightarrow> (int \<times> bool \<times> 'p core) option" where
  "group_lsb hwstep e = group_index (\<lambda>H. find_software_tbl_entry H e) (ifx_pce_tm_ip_dasa_lsb_tbl_write hwstep e)"

text \<open>The local variables \<^verbatim>\<open>Dip_lsb_tab_index\<close> to \<^verbatim>\<open>Sip_msb_tab_index\<close> and \<^verbatim>\<open>dip_lsb_ind\<close> to \<^verbatim>\<open>sip_msb_ind\<close>.\<close>

record group_idx =
  gi_dl :: int
  gi_dm :: int
  gi_sl :: int
  gi_sm :: int
  gn_dl :: bool
  gn_dm :: bool
  gn_sl :: bool
  gn_sm :: bool

definition any_idx :: group_idx where
  "any_idx = \<lparr>gi_dl = 0x7F, gi_dm = 0x7F, gi_sl = 0x7F, gi_sm = 0x7F,
     gn_dl = False, gn_dm = False, gn_sl = False, gn_sm = False\<rparr>"

text \<open>The indices of the group; \<open>None\<close> is the return of an error.\<close>

definition group_dip ::
  "('p hw \<Rightarrow> 'p hw) \<Rightarrow> IFX_ETHSW_multicastTable \<Rightarrow> 'p core \<Rightarrow> (group_idx option \<times> 'p core) option" where
  "group_dip hwstep q s = do {
     (dm, ndm, s) \<leftarrow> (if v6 q then group_msb hwstep (msb_row (mt_uIP_Gda q) 0) s else Some (0x7F, False, s));
     if dm < 0 then Some (None, s) else do {
       (dl, ndl, s) \<leftarrow> group_lsb hwstep (group_lsb_row q (mt_uIP_Gda q)) s;
       if dl < 0 then Some (None, s)
       else Some (Some (any_idx\<lparr>gi_dl := dl, gi_dm := dm, gn_dl := ndl, gn_dm := ndm\<rparr>), s) }}"

definition wild_source :: "IFX_ETHSW_multicastTable \<Rightarrow> bool" where
  "wild_source q = list_all (\<lambda>b. b = 0)
     (if v6 q then ip_bytes (msb_row (mt_uIP_Gsa q) 0) @ ip_bytes (lsb_row (mt_uIP_Gsa q) 0)
      else take 4 (ip_bytes (group_lsb_row q (mt_uIP_Gsa q))))"

definition group_sip ::
  "('p hw \<Rightarrow> 'p hw) \<Rightarrow> IFX_ETHSW_multicastTable \<Rightarrow> group_idx \<Rightarrow> 'p core \<Rightarrow> (group_idx option \<times> 'p core) option" where
  "group_sip hwstep q x s =
     (if \<not> filtered q then Some (Some x, s)
      else if excluding q \<and> wild_source q then Some (None, s)
      else do {
        (sm, nsm, s) \<leftarrow> (if v6 q then group_msb hwstep (msb_row (mt_uIP_Gsa q) 0) s else Some (0x7F, False, s));
        if sm < 0 then Some (None, s) else do {
          (sl, nsl, s) \<leftarrow> group_lsb hwstep (group_lsb_row q (mt_uIP_Gsa q)) s;
          if sl < 0 then Some (None, s)
          else Some (Some (x\<lparr>gi_sl := sl, gi_sm := sm, gn_sl := nsl, gn_sm := nsm\<rparr>), s) }})"

section \<open>Adding a member\<close>

definition row_is :: "int \<Rightarrow> int \<Rightarrow> int \<Rightarrow> int \<Rightarrow> IFX_MulticastSW_table_Entry \<Rightarrow> bool" where
  "row_is dl dm sl sm r \<longleftrightarrow> int (unat (DisIp_LSB_Index r)) = dl \<and> int (unat (DisIp_MSB_Index r)) = dm \<and>
     int (unat (SrcIp_LSB_Index r)) = sl \<and> int (unat (SrcIp_MSB_Index r)) = sm \<and> sw_valid r = IFX_TRUE"

definition member :: "u8 \<Rightarrow> IFX_MulticastSW_table_Entry \<Rightarrow> bool" where
  "member p r \<longleftrightarrow> drop_bit (unat p) (PortMap r) AND 1 = 1"

definition add_port :: "u8 \<Rightarrow> IFX_MulticastSW_table_Entry \<Rightarrow> IFX_MulticastSW_table_Entry" where
  "add_port p r = r\<lparr>PortMap := PortMap r OR push_bit (unat p) 1\<rparr>"

definition sw_entry :: "nat \<Rightarrow> IFX_MulticastSW_table_Entry \<Rightarrow> u16 \<Rightarrow> pce_entry" where
  "sw_entry i r v = zero_entry\<lparr>e_table := PCE_MULTICAST_SW_INDEX, e_index := of_nat i,
     e_key := (e_key zero_entry)[0 := push_bit 8 (DisIp_MSB_Index r) OR DisIp_LSB_Index r,
       1 := push_bit 8 (SrcIp_MSB_Index r) OR SrcIp_LSB_Index r],
     e_val := (e_val zero_entry)[0 := v], e_valid := ucast (sw_valid r)\<rparr>"

text \<open>One more use of an address; a row just taken has its count set to one.\<close>

definition use :: "bool \<Rightarrow> int \<Rightarrow> u16 list \<Rightarrow> u16 list" where
  "use new i c = c[nat i := (if new then 1 else c ! nat i + 1)]"

definition use_dip :: "IFX_ETHSW_multicastTable \<Rightarrow> bool \<Rightarrow> group_idx \<Rightarrow> IFX_PCE_HANDLE \<Rightarrow> IFX_PCE_HANDLE" where
  "use_dip q new x H = H\<lparr>ip_dasa_lsb_tbl_cnt := use (new \<and> gn_dl x) (gi_dl x) (ip_dasa_lsb_tbl_cnt H),
     ip_dasa_msb_tbl_cnt := (if v6 q then use (new \<and> gn_dm x) (gi_dm x) (ip_dasa_msb_tbl_cnt H) else ip_dasa_msb_tbl_cnt H)\<rparr>"

definition use_sip :: "IFX_ETHSW_multicastTable \<Rightarrow> bool \<Rightarrow> group_idx \<Rightarrow> IFX_PCE_HANDLE \<Rightarrow> IFX_PCE_HANDLE" where
  "use_sip q new x H = H\<lparr>ip_dasa_lsb_tbl_cnt := use (new \<and> gn_sl x) (gi_sl x) (ip_dasa_lsb_tbl_cnt H),
     ip_dasa_msb_tbl_cnt := (if v6 q then use (new \<and> gn_sm x) (gi_sm x) (ip_dasa_msb_tbl_cnt H) else ip_dasa_msb_tbl_cnt H)\<rparr>"

text \<open>
  The loop over the rows of the same group and source: whether the function returns, and the flags
  \<^verbatim>\<open>exclude_rule\<close> and \<^verbatim>\<open>new_entry\<close>.
\<close>

fun sw_add_existing ::
  "('p hw \<Rightarrow> 'p hw) \<Rightarrow> IFX_ETHSW_multicastTable \<Rightarrow> group_idx \<Rightarrow> nat list \<Rightarrow> bool \<Rightarrow> bool \<Rightarrow> 'p core \<Rightarrow>
    (bool \<times> bool \<times> bool \<times> 'p core) option" where
  "sw_add_existing hwstep q x [] ex new s = Some (False, ex, new, s)"
| "sw_add_existing hwstep q x (i # is) ex new s =
     (let r = sw_at s i in
      if \<not> row_is (gi_dl x) (gi_dm x) (gi_sl x) (gi_sm x) r then sw_add_existing hwstep q x is ex new s
      else if member (mt_nPortId q) r then Some (True, ex, new, s)
      else let m = ucast (eModeMember r) :: u32;
             s = (if m = IFX_ETHSW_IGMP_MEMBER_DONT_CARE
                  then upd_dev (upd_sw i (add_port (mt_nPortId q))) (upd_sub (use_dip q False x) s)
                  else if m = IFX_ETHSW_IGMP_MEMBER_EXCLUDE \<or> m = IFX_ETHSW_IGMP_MEMBER_INCLUDE
                  then upd_sub (use_sip q False x) (upd_sub (use_dip q False x) (upd_dev (upd_sw i (add_port (mt_nPortId q))) s))
                  else s);
             ex = (ex \<or> m = IFX_ETHSW_IGMP_MEMBER_EXCLUDE)
        in do {
          s \<leftarrow> row_write hwstep (sw_entry i (sw_at s i) (if excluding q then 0 else PortMap (sw_at s i))) s;
          if \<not> ex then Some (True, ex, True, s) else sw_add_existing hwstep q x is ex True s })"

text \<open>The row of the group for any source, if it exists, gets the port too; the flag says that it exists.\<close>

definition sw_add_wildcard ::
  "('p hw \<Rightarrow> 'p hw) \<Rightarrow> IFX_ETHSW_multicastTable \<Rightarrow> group_idx \<Rightarrow> 'p core \<Rightarrow> (bool \<times> 'p core) option" where
  "sw_add_wildcard hwstep q x s =
     (case find (\<lambda>i. row_is (gi_dl x) (gi_dm x) 0x7F 0x7F (sw_at s i)) [0..<sw_size s] of
        None \<Rightarrow> Some (False, s)
      | Some i \<Rightarrow>
          if member (mt_nPortId q) (sw_at s i) then Some (True, s)
          else let s = upd_dev (upd_sw i (\<lambda>r. (add_port (mt_nPortId q) r)\<lparr>eModeMember := 2\<rparr>)) (upd_sub (use_dip q False x) s)
            in map_option (\<lambda>s. (True, s)) (row_write hwstep (sw_entry i (sw_at s i) (PortMap (sw_at s i))) s))"

text \<open>The search for a free row: upwards for a filtered group, else downwards, ending at row 0.\<close>

definition free_up :: "'p core \<Rightarrow> nat" where
  "free_up s = (case find (\<lambda>i. sw_valid (sw_at s i) = IFX_FALSE) [0..<sw_size s] of None \<Rightarrow> sw_size s | Some i \<Rightarrow> i)"

definition free_down :: "'p core \<Rightarrow> nat" where
  "free_down s = (case find (\<lambda>i. sw_valid (sw_at s i) = IFX_FALSE) (rev [1..<64]) of None \<Rightarrow> 0 | Some i \<Rightarrow> i)"

text \<open>
  A new row. When no row is free \<^verbatim>\<open>i\<close> is the size of the table, and the row written to the device is
  read past the end of the array: \<open>past\<close> is what is there.
\<close>

definition sw_new_row :: "IFX_ETHSW_multicastTable \<Rightarrow> group_idx \<Rightarrow> IFX_MulticastSW_table_Entry \<Rightarrow> IFX_MulticastSW_table_Entry" where
  "sw_new_row q x r =
     (let r = (add_port (mt_nPortId q) r)\<lparr>DisIp_LSB_Index := of_int (gi_dl x), DisIp_MSB_Index := of_int (gi_dm x),
                sw_valid := IFX_TRUE, eModeMember := ucast (mt_eModeMember q)\<rparr>
      in if filtered q then r\<lparr>SrcIp_LSB_Index := of_int (gi_sl x), SrcIp_MSB_Index := of_int (gi_sm x)\<rparr>
         else if mt_eModeMember q = IFX_ETHSW_IGMP_MEMBER_DONT_CARE then r\<lparr>SrcIp_LSB_Index := 0x7F, SrcIp_MSB_Index := 0x7F\<rparr>
         else r)"

definition sw_add_row ::
  "('p hw \<Rightarrow> 'p hw) \<Rightarrow> IFX_MulticastSW_table_Entry \<Rightarrow> IFX_ETHSW_multicastTable \<Rightarrow> group_idx \<Rightarrow> 'p core \<Rightarrow> 'p core option" where
  "sw_add_row hwstep past q x s =
     (let i = (if filtered q then free_up s
               else if mt_eModeMember q = IFX_ETHSW_IGMP_MEMBER_DONT_CARE then free_down s else sw_size s);
          s = (if i < sw_size s
               then (let s = upd_sub (use_dip q True x) (upd_dev (upd_sw i (sw_new_row q x)) s)
                     in if filtered q then upd_sub (use_sip q True x) s else s)
               else s);
          r = (if i < IFX_FLOW_MULTICAST_SW_TBL_SIZE then sw_at s i else past)
      in row_write hwstep (sw_entry i r (if excluding q then 0 else PortMap r)) s)"

definition sw_wild_row :: "IFX_ETHSW_multicastTable \<Rightarrow> group_idx \<Rightarrow> IFX_MulticastSW_table_Entry \<Rightarrow> IFX_MulticastSW_table_Entry" where
  "sw_wild_row q x r = (add_port (mt_nPortId q) r)\<lparr>DisIp_LSB_Index := of_int (gi_dl x), DisIp_MSB_Index := of_int (gi_dm x),
     SrcIp_LSB_Index := 0x7F, SrcIp_MSB_Index := 0x7F, eModeMember := 2, sw_valid := IFX_TRUE\<rparr>"

definition sw_add_wild_row ::
  "('p hw \<Rightarrow> 'p hw) \<Rightarrow> IFX_ETHSW_multicastTable \<Rightarrow> group_idx \<Rightarrow> 'p core \<Rightarrow> 'p core option" where
  "sw_add_wild_row hwstep q x s =
     (let i = free_down s
      in if i < sw_size s
         then let s = upd_sub (use_dip q False x) (upd_dev (upd_sw i (sw_wild_row q x)) s)
           in row_write hwstep (sw_entry i (sw_at s i) (PortMap (sw_at s i))) s
         else Some s)"

definition sw_create ::
  "('p hw \<Rightarrow> 'p hw) \<Rightarrow> IFX_MulticastSW_table_Entry \<Rightarrow> IFX_ETHSW_multicastTable \<Rightarrow> group_idx \<Rightarrow> 'p core \<Rightarrow> 'p core option" where
  "sw_create hwstep past q x s = do {
     s \<leftarrow> sw_add_row hwstep past q x s;
     if excluding q then do {
       (found, s) \<leftarrow> sw_add_wildcard hwstep q x s;
       if found then Some s else sw_add_wild_row hwstep q x s }
     else Some s }"

definition ifx_multicast_sw_table_write ::
  "('p hw \<Rightarrow> 'p hw) \<Rightarrow> IFX_MulticastSW_table_Entry \<Rightarrow> IFX_ETHSW_multicastTable \<Rightarrow> 'p core \<Rightarrow> (int \<times> 'p core) option" where
  "ifx_multicast_sw_table_write hwstep past q s =
     (if filtered q \<and> bIGMPv3 (IGMP_Flags (dev s)) \<noteq> IFX_TRUE then Some (IFX_ERROR, s)
      else if mt_eIPVersion q \<noteq> IFX_ETHSW_IP_SELECT_IPV4 \<and> mt_eIPVersion q \<noteq> IFX_ETHSW_IP_SELECT_IPV6 then Some (IFX_ERROR, s)
      else do {
        (r, s) \<leftarrow> group_dip hwstep q s;
        case r of None \<Rightarrow> Some (IFX_ERROR, s) | Some x \<Rightarrow> do {
          (r, s) \<leftarrow> group_sip hwstep q x s;
          case r of None \<Rightarrow> Some (IFX_ERROR, s) | Some x \<Rightarrow> do {
            (returned, exclude_rule, new_entry, s) \<leftarrow> sw_add_existing hwstep q x [0..<sw_size s] False False s;
            if returned then Some (IFX_SUCCESS, s)
            else if new_entry then
              (if exclude_rule then map_option (\<lambda>(_, s). (IFX_SUCCESS, s)) (sw_add_wildcard hwstep q x s)
               else Some (IFX_SUCCESS, s))
            else map_option (\<lambda>s. (IFX_SUCCESS, s)) (sw_create hwstep past q x s) }}})"

section \<open>Removing a member\<close>

text \<open>
  A use given back, and the row cleared when it was the last. The counter of an IPv4 group in the
  table of upper halves has index \<open>0x7F\<close>, outside the array: \<open>oob\<close> is the memory read there.
\<close>

definition give_lsb :: "('p hw \<Rightarrow> 'p hw) \<Rightarrow> (IFX_PCE_HANDLE \<Rightarrow> nat \<Rightarrow> u16) \<Rightarrow> nat \<Rightarrow> 'p core \<Rightarrow> 'p core option" where
  "give_lsb hwstep oob i s =
     (let cnt = (\<lambda>H. if i < IFX_PCE_IP_DASA_LSB_TBL_SIZE then ip_dasa_lsb_tbl_cnt H ! i else oob H i)
      in if cnt (handle s) > 0
         then let s = upd_sub (\<lambda>H. snd (ifx_pce_tm_ip_dasa_lsb_tbl_idx_delete i H)) s
           in if cnt (handle s) = 0 then map_option snd (sub_call (ifx_pce_tm_ip_dasa_lsb_tbl_delete hwstep i) s) else Some s
         else Some s)"

definition give_msb :: "('p hw \<Rightarrow> 'p hw) \<Rightarrow> (IFX_PCE_HANDLE \<Rightarrow> nat \<Rightarrow> u16) \<Rightarrow> bool \<Rightarrow> nat \<Rightarrow> 'p core \<Rightarrow> 'p core option" where
  "give_msb hwstep oob clear i s =
     (let cnt = (\<lambda>H. if i < IFX_PCE_IP_DASA_MSB_TBL_SIZE then ip_dasa_msb_tbl_cnt H ! i else oob H i)
      in if cnt (handle s) > 0
         then let s = upd_sub (\<lambda>H. snd (ifx_pce_tm_ip_dasa_msb_tbl_idx_delete i H)) s
           in if cnt (handle s) = 0 \<and> clear then map_option snd (sub_call (ifx_pce_tm_ip_dasa_msb_tbl_delete hwstep i) s) else Some s
         else Some s)"

definition remove_port :: "u8 \<Rightarrow> IFX_MulticastSW_table_Entry \<Rightarrow> IFX_MulticastSW_table_Entry" where
  "remove_port p r = r\<lparr>PortMap := PortMap r AND NOT (push_bit (unat p) 1)\<rparr>"

definition drop_empty :: "nat \<Rightarrow> nat \<Rightarrow> IFX_FLOW_switchDev \<Rightarrow> IFX_FLOW_switchDev" where
  "drop_empty j i d = (if PortMap (multicast_sw_table (IGMP_Flags d) ! j) = 0 then upd_sw i (\<lambda>r. r\<lparr>sw_valid := IFX_FALSE\<rparr>) d else d)"

text \<open>The rows of the group for any source lose the port, when the source \<open>i\<close> was excluded.\<close>

fun sw_remove_wild ::
  "('p hw \<Rightarrow> 'p hw) \<Rightarrow> (IFX_PCE_HANDLE \<Rightarrow> nat \<Rightarrow> u16) \<Rightarrow> IFX_ETHSW_multicastTable \<Rightarrow> group_idx \<Rightarrow> nat \<Rightarrow> nat list \<Rightarrow>
    'p core \<Rightarrow> 'p core option" where
  "sw_remove_wild hwstep oob q x i [] s = Some s"
| "sw_remove_wild hwstep oob q x i (j # js) s = do {
     s \<leftarrow> (if row_is (gi_dl x) (gi_dm x) 0x7F 0x7F (sw_at s j) \<and> member (mt_nPortId q) (sw_at s j) then do {
            s \<leftarrow> give_lsb hwstep oob (nat (gi_dl x)) (upd_dev (upd_sw j (remove_port (mt_nPortId q))) s);
            s \<leftarrow> give_msb hwstep oob True (nat (gi_dm x)) s;
            let s = upd_dev (\<lambda>d. drop_empty j i (drop_empty j j d)) s;
            row_write hwstep ((sw_entry j (sw_at s j) (PortMap (sw_at s j)))
              \<lparr>e_key := (e_key zero_entry)[0 := push_bit 8 (DisIp_MSB_Index (sw_at s j)) OR DisIp_LSB_Index (sw_at s i), 1 := 0x7F7F]\<rparr>) s }
          else Some s);
     sw_remove_wild hwstep oob q x i js s }"

text \<open>The loop over the rows; the flag is \<^verbatim>\<open>MATCH\<close>.\<close>

fun sw_remove_rows ::
  "('p hw \<Rightarrow> 'p hw) \<Rightarrow> (IFX_PCE_HANDLE \<Rightarrow> nat \<Rightarrow> u16) \<Rightarrow> IFX_ETHSW_multicastTable \<Rightarrow> group_idx \<Rightarrow> nat list \<Rightarrow> bool \<Rightarrow>
    'p core \<Rightarrow> 'p core option" where
  "sw_remove_rows hwstep oob q x [] hit s = Some s"
| "sw_remove_rows hwstep oob q x (i # is) hit s =
     (let r = sw_at s i; m = ucast (eModeMember r) :: u32 in
      if \<not> row_is (gi_dl x) (gi_dm x) (gi_sl x) (gi_sm x) r then sw_remove_rows hwstep oob q x is hit s
      else do {
        (hit, s) \<leftarrow>
          (if \<not> member (mt_nPortId q) r then Some (hit, s)
           else if m = IFX_ETHSW_IGMP_MEMBER_DONT_CARE then do {
             s \<leftarrow> give_lsb hwstep oob (nat (gi_dl x)) (upd_dev (upd_sw i (remove_port (mt_nPortId q))) s);
             s \<leftarrow> give_msb hwstep oob (v6 q) (nat (gi_dm x)) s;
             Some (True, upd_dev (drop_empty i i) s) }
           else if m = IFX_ETHSW_IGMP_MEMBER_INCLUDE \<or> m = IFX_ETHSW_IGMP_MEMBER_EXCLUDE then do {
             s \<leftarrow> give_lsb hwstep oob (nat (gi_dl x)) (upd_dev (upd_sw i (remove_port (mt_nPortId q))) s);
             s \<leftarrow> give_msb hwstep oob True (nat (gi_dm x)) s;
             s \<leftarrow> give_lsb hwstep oob (nat (gi_sl x)) s;
             s \<leftarrow> give_msb hwstep oob True (nat (gi_sm x)) s;
             let s = upd_dev (drop_empty i i) s;
             s \<leftarrow> (if excluding q then sw_remove_wild hwstep oob q x i [0..<sw_size s] s else Some s);
             Some (True, s) }
           else Some (hit, s));
        s \<leftarrow> (if hit then row_write hwstep (sw_entry i (sw_at s i) (PortMap (sw_at s i))) s else Some s);
        sw_remove_rows hwstep oob q x is hit s })"

text \<open>The indices looked for; \<open>None\<close> when an address is unknown or the excluded source is zero.\<close>

definition group_find :: "IFX_ETHSW_multicastTable \<Rightarrow> IFX_PCE_HANDLE \<Rightarrow> group_idx option" where
  "group_find q H =
     (let dm = (if v6 q then find_software_msb_tbl_entry H (msb_row (mt_uIP_Gda q) 0) else 0x7F);
          dl = find_software_tbl_entry H (group_lsb_row q (mt_uIP_Gda q));
          sm = (if v6 q then find_software_msb_tbl_entry H (msb_row (mt_uIP_Gsa q) 0) else 0x7F);
          sl = find_software_tbl_entry H (group_lsb_row q (mt_uIP_Gsa q));
          x = any_idx\<lparr>gi_dl := dl, gi_dm := dm\<rparr>
      in if dm = 0xFF \<or> dl = 0xFF then None
         else if \<not> filtered q then Some x
         else if excluding q \<and> wild_source q \<or> sm = 0xFF \<or> sl = 0xFF then None
         else Some (x\<lparr>gi_sl := sl, gi_sm := sm\<rparr>))"

definition ifx_multicast_sw_table_remove ::
  "('p hw \<Rightarrow> 'p hw) \<Rightarrow> (IFX_PCE_HANDLE \<Rightarrow> nat \<Rightarrow> u16) \<Rightarrow> IFX_ETHSW_multicastTable \<Rightarrow> 'p core \<Rightarrow> (int \<times> 'p core) option" where
  "ifx_multicast_sw_table_remove hwstep oob q s =
     (if mt_eIPVersion q \<noteq> IFX_ETHSW_IP_SELECT_IPV4 \<and> mt_eIPVersion q \<noteq> IFX_ETHSW_IP_SELECT_IPV6 then Some (IFX_ERROR, s)
      else if mt_eModeMember q = IFX_ETHSW_IGMP_MEMBER_INCLUDE \<and> mt_eModeMember q = IFX_ETHSW_IGMP_MEMBER_EXCLUDE \<and>
         mt_eModeMember q = IFX_ETHSW_IGMP_MEMBER_DONT_CARE then Some (IFX_ERROR, s)
      else case group_find q (handle s) of
        None \<Rightarrow> Some (IFX_ERROR, s)
      | Some x \<Rightarrow> map_option (\<lambda>s. (IFX_SUCCESS, s)) (sw_remove_rows hwstep oob q x [0..<sw_size s] False s))"

end
