(* ===== verification/Core_Multicast.thy ===== *)
theory Core_Multicast
  imports Core_Groups Core_System
begin

text \<open>
  The multicast handlers of \<^verbatim>\<open>ltq_flow_core.c\<close>: router ports, the configuration of IGMP snooping with
  its rules 40 to 47, and the table of groups, which the device learns itself (table 14) or which
  software keeps (\<open>Core_Groups\<close>).
\<close>

unbundle bit_operations_syntax

section \<open>Parameters and registers\<close>

record IFX_ETHSW_multicastRouter =
  rp_nPortId :: u8

record IFX_ETHSW_multicastRouterRead =
  ro_bInitial :: u32
  ro_bLast :: u32
  ro_nPortId :: u8

record IFX_ETHSW_multicastSnoopCfg =
  sn_eIGMP_Mode :: u32
  sn_bIGMPv3 :: u32
  sn_bCrossVLAN :: u32
  sn_eForwardPort :: u32
  sn_nForwardPortId :: u8
  sn_nClassOfService :: u8
  sn_nRobust :: u8
  sn_nQueryInterval :: u8
  sn_eSuppressionAggregation :: u32
  sn_bFastLeave :: u32
  sn_bLearningRouter :: u32
  sn_bMulticastUnknownDrop :: u32

record IFX_ETHSW_multicastTableRead =
  mm_bInitial :: u32
  mm_bLast :: u32
  mm_nPortId :: u8
  mm_eIPVersion :: u32
  mm_uIP_Gda :: "u16 list"
  mm_uIP_Gsa :: "u16 list"
  mm_eModeMember :: u32

abbreviation (input) SNOOP_MODE_DISABLED :: u32 where "SNOOP_MODE_DISABLED \<equiv> 0"
abbreviation (input) SNOOP_MODE_AUTOLEARNING :: u32 where "SNOOP_MODE_AUTOLEARNING \<equiv> 1"
abbreviation (input) SNOOP_MODE_FORWARD :: u32 where "SNOOP_MODE_FORWARD \<equiv> 2"
abbreviation (input) MULTICAST_REPORT_JOIN :: u32 where "MULTICAST_REPORT_JOIN \<equiv> 0"
abbreviation (input) MULTICAST_REPORT :: u32 where "MULTICAST_REPORT \<equiv> 1"
abbreviation (input) MULTICAST_TRANSPARENT :: u32 where "MULTICAST_TRANSPARENT \<equiv> 2"
abbreviation (input) MULTI_PCE_RULES_INDEX :: u32 where "MULTI_PCE_RULES_INDEX \<equiv> 40"
abbreviation (input) IFX_FLOW_MULTICAST_HW_TBL_SIZE :: nat where "IFX_FLOW_MULTICAST_HW_TBL_SIZE \<equiv> 64"
abbreviation (input) PCE_MULTICAST_HW_INDEX :: u16 where "PCE_MULTICAST_HW_INDEX \<equiv> 0x0E"

abbreviation (input) VR9_PCE_IGMP_DRPM_DRPM :: field where "VR9_PCE_IGMP_DRPM_DRPM \<equiv> (0x45A, 0, 16)"
abbreviation (input) VR9_PCE_IGMP_STAT_IGPM :: field where "VR9_PCE_IGMP_STAT_IGPM \<equiv> (0x45D, 0, 16)"
abbreviation (input) VR9_PCE_IGMP_CTRL_ROB :: field where "VR9_PCE_IGMP_CTRL_ROB \<equiv> (0x459, 8, 2)"
abbreviation (input) VR9_PCE_IGMP_CTRL_DMRT :: field where "VR9_PCE_IGMP_CTRL_DMRT \<equiv> (0x459, 0, 8)"
abbreviation (input) VR9_PCE_IGMP_CTRL_DMRTEN :: field where "VR9_PCE_IGMP_CTRL_DMRTEN \<equiv> (0x459, 13, 1)"
abbreviation (input) VR9_PCE_IGMP_CTRL_REPSUP :: field where "VR9_PCE_IGMP_CTRL_REPSUP \<equiv> (0x459, 11, 1)"
abbreviation (input) VR9_PCE_IGMP_CTRL_JASUP :: field where "VR9_PCE_IGMP_CTRL_JASUP \<equiv> (0x459, 12, 1)"
abbreviation (input) VR9_PCE_IGMP_CTRL_FLEAVE :: field where "VR9_PCE_IGMP_CTRL_FLEAVE \<equiv> (0x459, 14, 1)"
abbreviation (input) VR9_PCE_IGMP_CTRL_SRPEN :: field where "VR9_PCE_IGMP_CTRL_SRPEN \<equiv> (0x459, 10, 1)"
abbreviation (input) VR9_PCE_GCTRL_0_IGMP :: field where "VR9_PCE_GCTRL_0_IGMP \<equiv> (0x456, 15, 1)"
abbreviation (input) VR9_PCE_PCTRL_0_MCST :: field where "VR9_PCE_PCTRL_0_MCST \<equiv> (0x480, 13, 1)"

abbreviation igmp :: "'p core \<Rightarrow> IFX_FLOW_IGMP" where "igmp s \<equiv> IGMP_Flags (dev s)"
abbreviation snoop_mode :: "'p core \<Rightarrow> u32" where "snoop_mode s \<equiv> ucast (eIGMP_Mode (igmp s))"

definition upd_igmp :: "(IFX_FLOW_IGMP \<Rightarrow> IFX_FLOW_IGMP) \<Rightarrow> 'p core \<Rightarrow> 'p core" where
  "upd_igmp f = upd_dev (\<lambda>d. d\<lparr>IGMP_Flags := f (IGMP_Flags d)\<rparr>)"

section \<open>Writing and deleting rules\<close>

text \<open>Rules written in turn until one fails; \<open>g\<close> is the garbage each call finds on its stack.\<close>

fun write_rules ::
  "('p hw \<Rightarrow> 'p hw) \<Rightarrow> (u32 \<Rightarrow> garbage) \<Rightarrow> IFX_FLOW_PCE_rule list \<Rightarrow> 'p core \<Rightarrow> (int \<times> 'p core) option" where
  "write_rules hwstep g [] s = Some (IFX_SUCCESS, s)"
| "write_rules hwstep g (r # rs) s = do {
     (e, s) \<leftarrow> rule_write hwstep (g (nIndex (pattern r))) r s;
     if e \<noteq> 0 then Some (IFX_ERROR, s) else write_rules hwstep g rs s }"

fun delete_rules :: "('p hw \<Rightarrow> 'p hw) \<Rightarrow> nat list \<Rightarrow> 'p core \<Rightarrow> (int \<times> 'p core) option" where
  "delete_rules hwstep [] s = Some (IFX_SUCCESS, s)"
| "delete_rules hwstep (i # is) s = do {
     (e, P) \<leftarrow> ifx_pce_pattern_delete hwstep i (pce s);
     let s = s\<lparr>pce := P\<rparr>;
     if e \<noteq> 0 then Some (IFX_ERROR, s) else delete_rules hwstep is s }"

section \<open>Router ports\<close>

text \<open>
  The two rules of the management port: reports and leaves go to the router ports. A class of service
  is stored next to the action value 1, \<^verbatim>\<open>IFX_FLOW_PCE_ACTION_TRAFFIC_CLASS_REGULAR\<close>.
\<close>

definition class_action :: "u8 \<Rightarrow> IFX_FLOW_PCE_action \<Rightarrow> IFX_FLOW_PCE_action" where
  "class_action c a = (if c \<noteq> 0 then a\<lparr>eTrafficClassAction := TRAFFIC_CLASS_REGULAR, nTrafficClassAlternate := c\<rparr> else a)"

definition cross_action :: "u32 \<Rightarrow> IFX_FLOW_PCE_action \<Rightarrow> IFX_FLOW_PCE_action" where
  "cross_action x a = a\<lparr>eVLAN_CrossAction := (if x \<noteq> 0 then CROSS_VLAN_CROSS else CROSS_VLAN_DISABLE)\<rparr>"

definition router_rule :: "nat \<Rightarrow> u32 \<Rightarrow> IFX_FLOW_switchDev \<Rightarrow> IFX_FLOW_PCE_rule" where
  "router_rule i portmap d =
     (let G = IGMP_Flags d;
          p = zero_pattern\<lparr>bEnable := True, bProtocolEnable := True, bAppDataMSB_Enable := True,
                bAppMaskRangeMSB_Select := True, bPortIdEnable := True\<rparr>;
          p = (if i = 0 then p\<lparr>nIndex := MULTI_PCE_RULES_INDEX, nProtocol := 0x2, nAppDataMSB := 0x1200, nAppMaskRangeMSB := 0x1DFF\<rparr>
               else p\<lparr>nIndex := MULTI_PCE_RULES_INDEX + 3, nProtocol := 0x3A, nAppDataMSB := 0x8300, nAppMaskRangeMSB := 0x1FF\<rparr>);
          p = (if ucast (ig_eForwardPort G) = IFX_ETHSW_PORT_FORWARD_PORT then p\<lparr>nPortId := ig_nForwardPortId G\<rparr>
               else if ucast (ig_eForwardPort G) = IFX_ETHSW_PORT_FORWARD_CPU then p\<lparr>nPortId := nCPU_Port d\<rparr> else p)
      in \<lparr>pattern = p, action = cross_action (bCrossVLAN G) (class_action (nClassOfService G)
            (zero_action\<lparr>ePortMapAction := PORTMAP_ALTERNATIVE, nForwardPortMap := portmap\<rparr>))\<rparr>)"

definition IFX_FLOW_MulticastRouterPortAdd ::
  "('p hw \<Rightarrow> 'p hw) \<Rightarrow> (u32 \<Rightarrow> garbage) \<Rightarrow> IFX_ETHSW_multicastRouter \<Rightarrow> 'p core \<Rightarrow> (int \<times> 'p core) option" where
  "IFX_FLOW_MulticastRouterPortAdd hwstep g q s =
     (if rp_nPortId q \<ge> nTotalPortNumber (dev s) then Some (IFX_ERROR, s)
      else let value = rd VR9_PCE_IGMP_DRPM_DRPM s; p = unat (rp_nPortId q);
               (value, s) = (if drop_bit p value AND 1 = 1 then (value, s)
                  else let value = value OR push_bit p 1 in (value, wr VR9_PCE_IGMP_DRPM_DRPM value s))
      in if snoop_mode s = SNOOP_MODE_FORWARD
         then write_rules hwstep g (map (\<lambda>i. router_rule i value (dev s)) [0, 1]) s else Some (IFX_SUCCESS, s))"

text \<open>
  The loop of a read: the next port of the map from \<open>c\<close> on, below the number of ports; the counter
  and whether a port was found. It tests the map before the bound.
\<close>

function router_scan :: "u16 \<Rightarrow> nat \<Rightarrow> nat \<Rightarrow> bool \<times> nat" where
  "router_scan m n c =
     (if drop_bit c (ucast m :: u32) AND 1 \<noteq> 0 then (True, c)
      else if int (c + 1) > int n - 1 then (False, c + 1) else router_scan m n (c + 1))"
  by auto
termination by (relation "measure (\<lambda>(_, n, c). n - c)") auto

declare router_scan.simps [simp del]

definition IFX_FLOW_MulticastRouterPortRead ::
  "IFX_ETHSW_multicastRouterRead \<Rightarrow> 'p core \<Rightarrow> int \<times> IFX_ETHSW_multicastRouterRead \<times> 'p core" where
  "IFX_FLOW_MulticastRouterPortRead q s =
     (let (q, s) = (if ro_bInitial q = IFX_TRUE
            then (q\<lparr>ro_bInitial := IFX_FALSE\<rparr>,
              upd_dev (\<lambda>d. d\<lparr>IGMP_Flags := (IGMP_Flags d)\<lparr>eRouterPort :=
                 ucast (rd VR9_PCE_IGMP_DRPM_DRPM s OR rd VR9_PCE_IGMP_STAT_IGPM s)\<rparr>, multi_routerport_counter := 0\<rparr>) s)
            else (q, s))
      in if ro_bLast q = IFX_FALSE
         then let (found, c) = router_scan (eRouterPort (igmp s)) (unat (nTotalPortNumber (dev s))) (unat (multi_routerport_counter (dev s)));
                  s = upd_dev (\<lambda>d. d\<lparr>multi_routerport_counter := of_nat c\<rparr>) s
           in if \<not> found then (IFX_SUCCESS, q\<lparr>ro_bLast := IFX_TRUE\<rparr>, s)
              else let q = q\<lparr>ro_nPortId := of_nat c\<rparr>
                in if of_nat c < nTotalPortNumber (dev s)
                   then (IFX_SUCCESS, q, upd_dev (\<lambda>d. d\<lparr>multi_routerport_counter := multi_routerport_counter d + 1\<rparr>) s)
                   else (IFX_SUCCESS, q\<lparr>ro_bLast := IFX_TRUE\<rparr>, s)
         else (IFX_SUCCESS, q, s))"

definition IFX_FLOW_MulticastRouterPortRemove ::
  "('p hw \<Rightarrow> 'p hw) \<Rightarrow> (u32 \<Rightarrow> garbage) \<Rightarrow> IFX_ETHSW_multicastRouter \<Rightarrow> 'p core \<Rightarrow> (int \<times> 'p core) option" where
  "IFX_FLOW_MulticastRouterPortRemove hwstep g q s =
     (if rp_nPortId q \<ge> nTotalPortNumber (dev s) then Some (IFX_ERROR, s)
      else let value_1 = rd VR9_PCE_IGMP_DRPM_DRPM s; p = unat (rp_nPortId q)
      in if drop_bit p value_1 AND 1 = 0 then Some (IFX_SUCCESS, s)
      else let value_1 = value_1 AND NOT (push_bit p 1); s = wr VR9_PCE_IGMP_DRPM_DRPM value_1 s
      in if snoop_mode s = SNOOP_MODE_FORWARD
         then if value_1 \<noteq> 0 then write_rules hwstep g (map (\<lambda>i. router_rule i value_1 (dev s)) [0, 1]) s
              else delete_rules hwstep [40, 43] s
         else Some (IFX_SUCCESS, s))"

section \<open>The configuration of snooping\<close>

definition IFX_FLOW_MulticastSnoopCfgGet :: "IFX_ETHSW_multicastSnoopCfg \<Rightarrow> 'p core \<Rightarrow> int \<times> IFX_ETHSW_multicastSnoopCfg" where
  "IFX_FLOW_MulticastSnoopCfgGet q s =
     (let data_1 = rd VR9_PCE_IGMP_CTRL_REPSUP s; data_2 = rd VR9_PCE_IGMP_CTRL_JASUP s
      in (IFX_SUCCESS, q\<lparr>sn_eIGMP_Mode := ucast (eIGMP_Mode (igmp s)), sn_bIGMPv3 := bIGMPv3 (igmp s),
        sn_bCrossVLAN := bCrossVLAN (igmp s), sn_eForwardPort := ucast (ig_eForwardPort (igmp s)),
        sn_nForwardPortId := ig_nForwardPortId (igmp s), sn_nClassOfService := nClassOfService (igmp s),
        sn_nRobust := ucast (rd VR9_PCE_IGMP_CTRL_ROB s), sn_nQueryInterval := ucast (rd VR9_PCE_IGMP_CTRL_DMRT s),
        sn_eSuppressionAggregation :=
          (if data_1 = 0 \<and> data_2 = 0 then MULTICAST_TRANSPARENT else if data_1 = 1 \<and> data_2 = 0 then MULTICAST_REPORT
           else if data_1 = 1 \<and> data_2 = 1 then MULTICAST_REPORT_JOIN else MULTICAST_TRANSPARENT),
        sn_bFastLeave := (if rd VR9_PCE_IGMP_CTRL_FLEAVE s = 1 then 1 else 0),
        sn_bLearningRouter := rd VR9_PCE_IGMP_CTRL_SRPEN s\<rparr>))"

text \<open>The rules of hardware snooping, \<open>k\<close> the offset from the first.\<close>

definition learn_rule :: "IFX_ETHSW_multicastSnoopCfg \<Rightarrow> u8 \<Rightarrow> nat \<Rightarrow> IFX_FLOW_PCE_rule" where
  "learn_rule q cos k =
     (let p = zero_pattern\<lparr>nIndex := MULTI_PCE_RULES_INDEX + of_nat k, bEnable := True, bAppDataMSB_Enable := True,
            nAppDataMSB := [0x1100, 0x1100, 0x1100, 0x1200, 0x1600, 0x1700, 0x3100, 0x3000] ! k,
            bAppMaskRangeMSB_Select := False, nAppMaskRangeMSB := 0x3\<rparr>;
          p = (if k \<in> {0, 1, 6, 7} then p\<lparr>eDstIP_Select := IP_V4\<rparr> else p);
          p = (if k = 0 \<or> k = 1 then p\<lparr>nDstIP := set_nIPv4 0xE0000001 (nDstIP p)\<rparr>
               else if k = 6 then p\<lparr>nDstIP := set_nIPv4 0xE0000002 (nDstIP p)\<rparr>
               else if k = 7 then p\<lparr>nDstIP := set_nIPv4 0xE00000A6 (nDstIP p)\<rparr> else p);
          p = p\<lparr>nDstIP_Mask := 0xFF00, eSrcIP_Select := (if k = 1 then IP_V4 else IP_DISABLED),
            nSrcIP_Mask := (if k = 1 then 0xFF00 else 0xFFFF), bProtocolEnable := True, nProtocol := 0x2\<rparr>;
          a = (if cos = 0 then zero_action\<lparr>eTrafficClassAction := TRAFFIC_CLASS_DISABLE, nTrafficClassAlternate := 0\<rparr>
               else zero_action\<lparr>eTrafficClassAction := TRAFFIC_CLASS_REGULAR, nTrafficClassAlternate := cos\<rparr>);
          a = a\<lparr>eSnoopingTypeAction := [SNOOP_QUERY, SNOOP_QUERY_NO_ROUTER, SNOOP_QUERY_GROUP, SNOOP_REPORT, SNOOP_REPORT,
                 SNOOP_LEAVE, SNOOP_AD, SNOOP_AD] ! k, ePortMapAction := PORTMAP_MULTICAST_ROUTER\<rparr>
      in \<lparr>pattern = p, action = cross_action (sn_bCrossVLAN q) a\<rparr>)"

text \<open>The rules of software snooping; those at offsets 0 and 3 belong to the router ports.\<close>

definition forward_rule :: "IFX_ETHSW_multicastSnoopCfg \<Rightarrow> IFX_FLOW_switchDev \<Rightarrow> nat \<Rightarrow> IFX_FLOW_PCE_rule" where
  "forward_rule q d k =
     (let p = zero_pattern\<lparr>nIndex := MULTI_PCE_RULES_INDEX + of_nat k, bEnable := True, bProtocolEnable := True,
            nProtocol := (if k = 1 \<or> k = 2 then 0x2 else 0x3A)\<rparr>;
          p = (if k = 1 then p\<lparr>bPortIdEnable := True\<rparr>
               else if k = 4 then p\<lparr>bPortIdEnable := True, nPortId := sn_nForwardPortId q\<rparr>
               else if k = 5 then p\<lparr>bAppDataMSB_Enable := True, bAppMaskRangeMSB_Select := True, nAppDataMSB := 0x8200, nAppMaskRangeMSB := 0x2FF\<rparr>
               else if k = 6 then p\<lparr>bAppDataMSB_Enable := True, nAppDataMSB := 0x8F00, nAppMaskRangeMSB := 0x3\<rparr>
               else if k = 7 then p\<lparr>bAppDataMSB_Enable := True, bAppMaskRangeMSB_Select := True, nAppDataMSB := 0x9700, nAppMaskRangeMSB := 0x2FF\<rparr>
               else p);
          a = class_action (nClassOfService (IGMP_Flags d))
            (zero_action\<lparr>ePortMapAction := (if k = 1 \<or> k = 4 then PORTMAP_REGULAR else PORTMAP_ALTERNATIVE)\<rparr>);
          port = (if sn_eForwardPort q = IFX_ETHSW_PORT_FORWARD_PORT then Some (sn_nForwardPortId q)
                  else if sn_eForwardPort q = IFX_ETHSW_PORT_FORWARD_CPU then Some (nCPU_Port d) else None);
          (p, a) = (case port of None \<Rightarrow> (p, a)
             | Some i \<Rightarrow> (p\<lparr>nPortId := i\<rparr>, a\<lparr>nForwardPortMap := push_bit (unat i) 1\<rparr>))
      in \<lparr>pattern = p, action = cross_action (sn_bCrossVLAN q) a\<rparr>)"

text \<open>The registers of a mode: learning of router ports, forwarding to software, and the ports one by one.\<close>

definition mode_writes :: "u32 \<Rightarrow> u8 \<Rightarrow> (field \<times> u32) list" where
  "mode_writes m n =
     (if m = SNOOP_MODE_DISABLED then [(VR9_PCE_IGMP_CTRL_SRPEN, 0), (VR9_PCE_GCTRL_0_IGMP, 0)]
      else if m = SNOOP_MODE_AUTOLEARNING then [(VR9_PCE_GCTRL_0_IGMP, 0), (VR9_PCE_IGMP_CTRL_SRPEN, 1)]
      else [(VR9_PCE_IGMP_CTRL_SRPEN, 0), (VR9_PCE_GCTRL_0_IGMP, 1)]) @
     map (\<lambda>i. (at VR9_PCE_PCTRL_0_MCST (0xA * of_nat i), if m = SNOOP_MODE_DISABLED then 0 else 1)) [0..<unat n + 1]"

definition set_snoop :: "IFX_ETHSW_multicastSnoopCfg \<Rightarrow> IFX_FLOW_switchDev \<Rightarrow> IFX_FLOW_switchDev" where
  "set_snoop q d = d\<lparr>IGMP_Flags := (IGMP_Flags d)\<lparr>eIGMP_Mode := ucast (sn_eIGMP_Mode q), bIGMPv3 := sn_bIGMPv3 q,
     bCrossVLAN := sn_bCrossVLAN q, ig_eForwardPort := ucast (sn_eForwardPort q),
     ig_nForwardPortId := (if sn_eForwardPort q = IFX_ETHSW_PORT_FORWARD_CPU then push_bit (unat (nCPU_Port d)) 1
       else sn_nForwardPortId q), nClassOfService := sn_nClassOfService q\<rparr>\<rparr>"

definition snoop_writes :: "IFX_ETHSW_multicastSnoopCfg \<Rightarrow> (field \<times> u32) list" where
  "snoop_writes q =
     [(VR9_PCE_IGMP_CTRL_ROB, ucast (sn_nRobust q)), (VR9_PCE_IGMP_CTRL_DMRTEN, 1),
      (VR9_PCE_IGMP_CTRL_DMRT, ucast (sn_nQueryInterval q))] @
     (if sn_eIGMP_Mode q = SNOOP_MODE_AUTOLEARNING
      then [(VR9_PCE_IGMP_CTRL_REPSUP, if sn_eSuppressionAggregation q \<le> MULTICAST_REPORT then 1 else 0),
            (VR9_PCE_IGMP_CTRL_JASUP, if sn_eSuppressionAggregation q = MULTICAST_REPORT_JOIN then 1 else 0),
            (VR9_PCE_IGMP_CTRL_SRPEN, sn_bLearningRouter q),
            (VR9_PCE_IGMP_CTRL_FLEAVE, if sn_bFastLeave q = 1 then 1 else 0)]
      else [(VR9_PCE_IGMP_CTRL_FLEAVE, 0)])"

definition IFX_FLOW_MulticastSnoopCfgSet ::
  "('p hw \<Rightarrow> 'p hw) \<Rightarrow> (u32 \<Rightarrow> garbage) \<Rightarrow> IFX_ETHSW_multicastSnoopCfg \<Rightarrow> 'p core \<Rightarrow> (int \<times> 'p core) option" where
  "IFX_FLOW_MulticastSnoopCfgSet hwstep g q s =
     (let m = sn_eIGMP_Mode q in
      if m > SNOOP_MODE_FORWARD then Some (IFX_ERROR, s)
      else do {
        let s = upd_dev (set_snoop q) (wrs (mode_writes m (nTotalPortNumber (dev s))) s);
        (e, s) \<leftarrow> (if m = SNOOP_MODE_AUTOLEARNING
                   then write_rules hwstep g (map (learn_rule q (nClassOfService (igmp s))) [0..<8]) s
                   else if m = SNOOP_MODE_FORWARD
                   then write_rules hwstep g (map (forward_rule q (dev s)) [1, 2, 4, 5, 6, 7]) s
                   else delete_rules hwstep [40..<48] s);
        if e \<noteq> 0 \<or> \<not> sn_nRobust q < 4 then Some (IFX_ERROR, s)
        else Some (IFX_SUCCESS, wrs (snoop_writes q) s) })"

section \<open>The table of groups\<close>

text \<open>
  A search of the learned table: the first row that satisfies \<open>P\<close>, with the local \<^verbatim>\<open>pData\<close>, which
  keeps the row read last.
\<close>

fun hw_find ::
  "('p hw \<Rightarrow> 'p hw) \<Rightarrow> (pce_entry \<Rightarrow> bool) \<Rightarrow> nat list \<Rightarrow> pce_entry \<Rightarrow> 'p core \<Rightarrow> (nat option \<times> pce_entry \<times> 'p core) option" where
  "hw_find hwstep P [] e s = Some (None, e, s)"
| "hw_find hwstep P (i # is) e s = do {
     (e, s) \<leftarrow> row_read hwstep (e\<lparr>e_index := of_nat i\<rparr>) s;
     if P e then Some (Some i, e, s) else hw_find hwstep P is e s }"

definition hw_group :: "u32 \<Rightarrow> pce_entry \<Rightarrow> bool" where
  "hw_group gda e \<longleftrightarrow> e_valid e \<noteq> 0 \<and> ucast (e_key e ! 0) = gda AND 0xFFFF \<and> ucast (e_key e ! 1) = drop_bit 16 gda AND 0xFFFF"

text \<open>The row to write: the row read last, with the group and one port more.\<close>

definition hw_row :: "u32 \<Rightarrow> u8 \<Rightarrow> nat \<Rightarrow> pce_entry \<Rightarrow> pce_entry" where
  "hw_row gda p i e = e\<lparr>e_table := PCE_MULTICAST_HW_INDEX, e_index := of_nat i,
     e_key := (e_key e)[1 := ucast (drop_bit 16 gda AND 0xFFFF), 0 := ucast (gda AND 0xFFFF)],
     e_val := (e_val e)[0 := e_val e ! 0 OR push_bit (unat p) 1, 4 := e_val e ! 4 OR push_bit 14 1], e_valid := 1\<rparr>"

definition hw_group_add :: "('p hw \<Rightarrow> 'p hw) \<Rightarrow> IFX_ETHSW_multicastTable \<Rightarrow> 'p core \<Rightarrow> (int \<times> 'p core) option" where
  "hw_group_add hwstep q s =
     (if bIGMPv3 (igmp s) = 1 \<or> v6 q then Some (IFX_ERROR, s)
      else do {
        let gda = nIPv4 (mt_uIP_Gda q);
        (r, e, s) \<leftarrow> hw_find hwstep (hw_group gda) [0..<IFX_FLOW_MULTICAST_HW_TBL_SIZE] (zero_entry\<lparr>e_table := PCE_MULTICAST_HW_INDEX\<rparr>) s;
        (r, e, s) \<leftarrow> (case r of Some i \<Rightarrow> Some (Some i, e, s)
          | None \<Rightarrow> hw_find hwstep (\<lambda>e. e_valid e = 0) [0..<IFX_FLOW_MULTICAST_HW_TBL_SIZE] e s);
        case r of None \<Rightarrow> Some (IFX_ERROR, s)
        | Some i \<Rightarrow> map_option (\<lambda>s. (IFX_SUCCESS, s)) (row_write hwstep (hw_row gda (mt_nPortId q) i e) s) })"

definition IFX_FLOW_MulticastTableEntryAdd ::
  "('p hw \<Rightarrow> 'p hw) \<Rightarrow> IFX_MulticastSW_table_Entry \<Rightarrow> IFX_ETHSW_multicastTable \<Rightarrow> 'p core \<Rightarrow> (int \<times> 'p core) option" where
  "IFX_FLOW_MulticastTableEntryAdd hwstep past q s =
     (if mt_nPortId q \<ge> nTotalPortNumber (dev s) then Some (IFX_ERROR, s)
      else if snoop_mode s = SNOOP_MODE_AUTOLEARNING then hw_group_add hwstep q s
      else if snoop_mode s = SNOOP_MODE_FORWARD
      then map_option (\<lambda>(_, s). (IFX_SUCCESS, s)) (ifx_multicast_sw_table_write hwstep past q s)
      else Some (IFX_SUCCESS, s))"

text \<open>The \<open>do\<close> loop of a read: rows of table \<open>t\<close> from \<open>i\<close> on until one is valid.\<close>

function multi_scan :: "('p hw \<Rightarrow> 'p hw) \<Rightarrow> u16 \<Rightarrow> nat \<Rightarrow> 'p core \<Rightarrow> (pce_entry \<times> nat \<times> 'p core) option" where
  "multi_scan hwstep t i s =
     (case row_read hwstep (zero_entry\<lparr>e_table := t, e_index := of_nat i\<rparr>) s of
        None \<Rightarrow> None
      | Some (e, s) \<Rightarrow> if e_valid e \<noteq> 0 \<or> \<not> i + 1 < 64 then Some (e, i + 1, s) else multi_scan hwstep t (i + 1) s)"
  by auto
termination by (relation "measure (\<lambda>(_, _, i, _). 64 - i)") auto

declare multi_scan.simps [simp del]

definition zero_multicastTableRead :: IFX_ETHSW_multicastTableRead where
  "zero_multicastTableRead = \<lparr>mm_bInitial = 0, mm_bLast = 0, mm_nPortId = 0, mm_eIPVersion = 0,
     mm_uIP_Gda = replicate 8 0, mm_uIP_Gsa = replicate 8 0, mm_eModeMember = 0\<rparr>"

text \<open>The port map, marked as one in bit 31 before it is cut to eight bits.\<close>

definition map_port :: "pce_entry \<Rightarrow> u8" where
  "map_port e = ucast (ucast (e_val e ! 0) OR (0x80000000 :: u32))"

definition key_ipv4 :: "pce_entry \<Rightarrow> u32" where
  "key_ipv4 e = push_bit 16 (ucast (e_key e ! 1)) OR ucast (e_key e ! 0)"

definition hw_group_read ::
  "('p hw \<Rightarrow> 'p hw) \<Rightarrow> IFX_ETHSW_multicastTableRead \<Rightarrow> 'p core \<Rightarrow> (int \<times> IFX_ETHSW_multicastTableRead \<times> 'p core) option" where
  "hw_group_read hwstep q s =
     (let (q, s) = (if mm_bInitial q = IFX_TRUE then (q\<lparr>mm_bInitial := IFX_FALSE\<rparr>, upd_dev (\<lambda>d. d\<lparr>multi_hw_table_index := 0\<rparr>) s) else (q, s))
      in if unat (multi_hw_table_index (dev s)) \<ge> IFX_FLOW_MULTICAST_HW_TBL_SIZE
         then Some (IFX_SUCCESS, zero_multicastTableRead\<lparr>mm_bLast := IFX_TRUE\<rparr>, upd_dev (\<lambda>d. d\<lparr>multi_hw_table_index := 0\<rparr>) s)
         else do {
           (e, i, s) \<leftarrow> multi_scan hwstep PCE_MULTICAST_HW_INDEX (unat (multi_hw_table_index (dev s))) s;
           if e_valid e \<noteq> 0
           then Some (IFX_SUCCESS, q\<lparr>mm_nPortId := map_port e, mm_uIP_Gda := set_nIPv4 (key_ipv4 e) (mm_uIP_Gda q),
                  mm_uIP_Gsa := set_nIPv4 0 (mm_uIP_Gsa q), mm_eModeMember := IFX_ETHSW_IGMP_MEMBER_DONT_CARE,
                  mm_eIPVersion := IFX_ETHSW_IP_SELECT_IPV4, mm_bInitial := IFX_FALSE, mm_bLast := IFX_FALSE\<rparr>,
                upd_dev (\<lambda>d. d\<lparr>multi_hw_table_index := of_nat i\<rparr>) s)
           else Some (IFX_SUCCESS, zero_multicastTableRead\<lparr>mm_bLast := IFX_TRUE\<rparr>, upd_dev (\<lambda>d. d\<lparr>multi_hw_table_index := 0\<rparr>) s) })"

text \<open>Four words of an IPv6 address from the key of an address row; a row of the address tables, if the index is one.\<close>

definition put_half :: "nat \<Rightarrow> pce_entry \<Rightarrow> u16 list \<Rightarrow> u16 list" where
  "put_half k e ip = ip[k := e_key e ! 3, k + 1 := e_key e ! 2, k + 2 := e_key e ! 1, k + 3 := e_key e ! 0]"

definition address_row :: "('p hw \<Rightarrow> 'p hw) \<Rightarrow> u16 \<Rightarrow> u16 \<Rightarrow> u16 \<Rightarrow> 'p core \<Rightarrow> (pce_entry option \<times> 'p core) option" where
  "address_row hwstep t bound i s =
     (if i \<le> bound then do {
        (e, s) \<leftarrow> row_read hwstep (zero_entry\<lparr>e_table := t, e_index := i\<rparr>) s;
        Some (if e_valid e = 1 then Some e else None, s) }
      else Some (None, s))"

definition put_lsb :: "pce_entry option \<Rightarrow> u16 list \<Rightarrow> u16 list" where
  "put_lsb r ip = (case r of None \<Rightarrow> ip
     | Some e \<Rightarrow> if e_mask e = 0xFF00 then set_nIPv4 (key_ipv4 e) ip else if e_mask e = 0 then put_half 4 e ip else ip)"

definition put_msb :: "pce_entry option \<Rightarrow> u16 list \<Rightarrow> u16 list" where
  "put_msb r ip = (case r of None \<Rightarrow> ip | Some e \<Rightarrow> if e_mask e = 0 then put_half 0 e ip else ip)"

definition put_version :: "pce_entry option \<Rightarrow> u32 \<Rightarrow> u32" where
  "put_version r v = (case r of None \<Rightarrow> v
     | Some e \<Rightarrow> if e_mask e = 0xFF00 then IFX_ETHSW_IP_SELECT_IPV4 else if e_mask e = 0 then IFX_ETHSW_IP_SELECT_IPV6 else v)"

definition sw_group_read ::
  "('p hw \<Rightarrow> 'p hw) \<Rightarrow> IFX_ETHSW_multicastTableRead \<Rightarrow> 'p core \<Rightarrow> (int \<times> IFX_ETHSW_multicastTableRead \<times> 'p core) option" where
  "sw_group_read hwstep q s =
     (let (q, s) = (if mm_bInitial q = IFX_TRUE then (q\<lparr>mm_bInitial := IFX_FALSE\<rparr>, upd_dev (\<lambda>d. d\<lparr>multi_sw_table_index := 0\<rparr>) s) else (q, s))
      in if unat (multi_sw_table_index (dev s)) \<ge> IFX_FLOW_MULTICAST_SW_TBL_SIZE
         then Some (IFX_SUCCESS, zero_multicastTableRead\<lparr>mm_bLast := IFX_TRUE\<rparr>, upd_dev (\<lambda>d. d\<lparr>multi_sw_table_index := 0\<rparr>) s)
         else do {
           (e, i, s) \<leftarrow> multi_scan hwstep PCE_MULTICAST_SW_INDEX (unat (multi_sw_table_index (dev s))) s;
           if e_valid e = 1 then do {
             let s = upd_dev (\<lambda>d. d\<lparr>multi_sw_table_index := of_nat i\<rparr>) s;
             (dl, s) \<leftarrow> address_row hwstep PCE_IP_DASA_LSB_INDEX 0x3F (e_key e ! 0 AND 0xFF) s;
             (sl, s) \<leftarrow> address_row hwstep PCE_IP_DASA_LSB_INDEX 0x3F (e_key e ! 1 AND 0xFF) s;
             (dm, s) \<leftarrow> address_row hwstep PCE_IP_DASA_MSB_INDEX 0xF (drop_bit 8 (e_key e ! 0) AND 0xFF) s;
             (sm, s) \<leftarrow> address_row hwstep PCE_IP_DASA_MSB_INDEX 0xF (drop_bit 8 (e_key e ! 1) AND 0xFF) s;
             Some (IFX_SUCCESS, q\<lparr>mm_nPortId := map_port e, mm_uIP_Gda := put_msb dm (put_lsb dl (mm_uIP_Gda q)),
               mm_uIP_Gsa := put_msb sm (put_lsb sl (mm_uIP_Gsa q)), mm_eIPVersion := put_version dl (mm_eIPVersion q),
               mm_eModeMember := ucast (eModeMember (sw_at s (i - 1))), mm_bInitial := IFX_FALSE, mm_bLast := IFX_FALSE\<rparr>, s) }
           else Some (IFX_SUCCESS, zero_multicastTableRead\<lparr>mm_bLast := IFX_TRUE\<rparr>, upd_dev (\<lambda>d. d\<lparr>multi_sw_table_index := 0\<rparr>) s) })"

definition IFX_FLOW_MulticastTableEntryRead ::
  "('p hw \<Rightarrow> 'p hw) \<Rightarrow> IFX_ETHSW_multicastTableRead \<Rightarrow> 'p core \<Rightarrow> (int \<times> IFX_ETHSW_multicastTableRead \<times> 'p core) option" where
  "IFX_FLOW_MulticastTableEntryRead hwstep q s =
     (if snoop_mode s = SNOOP_MODE_DISABLED then Some (IFX_ERROR, q, s)
      else if snoop_mode s = SNOOP_MODE_AUTOLEARNING then hw_group_read hwstep q s
      else if snoop_mode s = SNOOP_MODE_FORWARD then sw_group_read hwstep q s
      else Some (IFX_SUCCESS, q, s))"

text \<open>
  The loop of a removal from the learned table. The last member gone, the row loses its ports and
  the upper half of its key and is written back, still valid.
\<close>

definition hw_row_less :: "u8 \<Rightarrow> pce_entry \<Rightarrow> pce_entry" where
  "hw_row_less p e =
     (let v = e_val e ! 0 AND NOT (push_bit (unat p) 1)
      in if v = 0 then e\<lparr>e_val := (e_val e)[0 := 0, 4 := 0], e_key := (e_key e)[1 := 0]\<rparr>
         else e\<lparr>e_val := (e_val e)[0 := v]\<rparr>)"

fun hw_remove_rows ::
  "('p hw \<Rightarrow> 'p hw) \<Rightarrow> IFX_ETHSW_multicastTable \<Rightarrow> nat list \<Rightarrow> 'p core \<Rightarrow> 'p core option" where
  "hw_remove_rows hwstep q [] s = Some s"
| "hw_remove_rows hwstep q (i # is) s = do {
     (e, s) \<leftarrow> row_read hwstep (zero_entry\<lparr>e_table := PCE_MULTICAST_HW_INDEX, e_index := of_nat i\<rparr>) s;
     s \<leftarrow> (if drop_bit (unat (mt_nPortId q)) (e_val e ! 0) AND 1 = 1 \<and> nIPv4 (mt_uIP_Gda q) = key_ipv4 e
           then row_write hwstep (hw_row_less (mt_nPortId q) e) s else Some s);
     hw_remove_rows hwstep q is s }"

definition IFX_FLOW_MulticastTableEntryRemove ::
  "('p hw \<Rightarrow> 'p hw) \<Rightarrow> (IFX_PCE_HANDLE \<Rightarrow> nat \<Rightarrow> u16) \<Rightarrow> IFX_ETHSW_multicastTable \<Rightarrow> 'p core \<Rightarrow> (int \<times> 'p core) option" where
  "IFX_FLOW_MulticastTableEntryRemove hwstep oob q s =
     (if mt_nPortId q \<ge> nTotalPortNumber (dev s) then Some (IFX_ERROR, s)
      else if snoop_mode s = SNOOP_MODE_AUTOLEARNING
      then if bIGMPv3 (igmp s) = 1 then Some (IFX_ERROR, s)
           else map_option (\<lambda>s. (IFX_SUCCESS, s)) (hw_remove_rows hwstep q [0..<IFX_FLOW_MULTICAST_HW_TBL_SIZE] s)
      else if snoop_mode s = SNOOP_MODE_FORWARD
      then map_option (\<lambda>(_, s). (IFX_SUCCESS, s)) (ifx_multicast_sw_table_remove hwstep oob q s)
      else Some (IFX_SUCCESS, s))"

end
