(* ===== verification/Core_Snooping.thy ===== *)
theory Core_Snooping
  imports Core_Multicast
begin

text \<open>
  Router ports and the configuration of snooping: what the handlers of \<open>Core_Multicast\<close> establish. The
  router ports are the set of the bits of a register, and the rules 40 to 47 belong to snooping.
\<close>

unbundle bit_operations_syntax

section \<open>Lists of rules\<close>

definition snoop_rule_ok :: "(u32 \<Rightarrow> garbage) \<Rightarrow> IFX_FLOW_PCE_rule \<Rightarrow> bool" where
  "snoop_rule_ok g r \<longleftrightarrow> rule_no r < IFX_PCE_TBL_SIZE \<and> fits (pattern r) \<and> act_ok (action r) \<and> \<not> bVid (pattern r) \<and>
     large_tables (g (nIndex (pattern r))) r"

lemma write_rules_spec:
  assumes E: "pce_engine hwstep tbl keep S"
  shows "core_inv tbl keep s \<Longrightarrow> \<forall>r\<in>set rs. snoop_rule_ok g r \<Longrightarrow> distinct (map rule_no rs) \<Longrightarrow>
    used_rules (st_pce (pce s)) + length rs \<le> 15 \<Longrightarrow>
    \<exists>s'. write_rules hwstep g rs s = Some (IFX_SUCCESS, s') \<and> core_inv tbl keep s' \<and>
      only_rules tbl S (rule_no ` set rs) s s' \<and> (\<forall>r\<in>set rs. installed tbl r s')"
proof (induction rs arbitrary: s)
  case Nil then show ?case by (simp add: only_rules_refl)
next
  case (Cons r rs)
  have r: "rule_no r < IFX_PCE_TBL_SIZE" "fits (pattern r)" "act_ok (action r)" "\<not> bVid (pattern r)"
    "large_tables (g (nIndex (pattern r))) r" using Cons.prems(2) by (simp_all add: snoop_rule_ok_def)
  have n: "(\<forall>f. want (g (nIndex (pattern r))) (pattern r) f = None) \<or>
    large_tables (g (nIndex (pattern r))) r \<and> used_rules (st_pce (pce s)) < 15" using r(5) Cons.prems(4) by simp
  show ?case
  proof (rule rule_write_act [OF E Cons.prems(1) r(1-4) n])
    fix P assume P: "ifx_pce_rule_write hwstep (g (nIndex (pattern r))) r (pce s) = Some (0, P)"
      "core_inv tbl keep (s\<lparr>pce := P\<rparr>)" "installed tbl r (s\<lparr>pce := P\<rparr>)" "only_rules tbl S {rule_no r} s (s\<lparr>pce := P\<rparr>)"
      "used_rules (st_pce P) \<le> Suc (used_rules (st_pce (pce s)))"
    have u: "used_rules (st_pce (pce (s\<lparr>pce := P\<rparr>))) + length rs \<le> 15"
      using P(5) Cons.prems(4) by simp
    have d: "\<forall>r\<in>set rs. snoop_rule_ok g r" "distinct (map rule_no rs)" "rule_no r \<notin> rule_no ` set rs"
      using Cons.prems(2,3) by simp_all
    obtain s' where s': "write_rules hwstep g rs (s\<lparr>pce := P\<rparr>) = Some (IFX_SUCCESS, s')" "core_inv tbl keep s'"
      "only_rules tbl S (rule_no ` set rs) (s\<lparr>pce := P\<rparr>) s'" "\<forall>r\<in>set rs. installed tbl r s'"
      using Cons.IH [OF P(2) d(1,2) u] by blast
    have "installed tbl r s'" using installed_same [OF s'(3) d(3) r(1)] P(3) by simp
    moreover have "only_rules tbl S (rule_no ` set (r # rs)) s s'"
      by (rule only_rules_trans [OF P(4) s'(3)]) auto
    ultimately show ?thesis using P(1) s'(1,2,4) by (simp add: rule_write_def)
  qed
qed

lemma delete_rules_spec:
  assumes E: "pce_engine hwstep tbl keep S"
  shows "core_inv tbl keep s \<Longrightarrow> \<forall>i\<in>set is. i < IFX_PCE_TBL_SIZE \<Longrightarrow> distinct is \<Longrightarrow>
    \<exists>s'. delete_rules hwstep is s = Some (IFX_SUCCESS, s') \<and> core_inv tbl keep s' \<and>
      only_rules tbl S (set is) s s' \<and> (\<forall>i\<in>set is. pce_tbl_used (st_pce (pce s')) ! i = 0)"
proof (induction "is" arbitrary: s)
  case Nil then show ?case by (simp add: only_rules_refl)
next
  case (Cons i "is")
  have i: "i < IFX_PCE_TBL_SIZE" "\<forall>i\<in>set is. i < IFX_PCE_TBL_SIZE" "i \<notin> set is" "distinct is"
    using Cons.prems(2,3) by simp_all
  show ?case
  proof (rule rule_delete_act [OF E Cons.prems(1) i(1)])
    fix P assume P: "ifx_pce_pattern_delete hwstep i (pce s) = Some (0, P)"
      "core_inv tbl keep (s\<lparr>pce := P\<rparr>)" "pce_tbl_used (st_pce P) ! i = 0" "only_rules tbl S {i} s (s\<lparr>pce := P\<rparr>)"
    obtain s' where s': "delete_rules hwstep is (s\<lparr>pce := P\<rparr>) = Some (IFX_SUCCESS, s')" "core_inv tbl keep s'"
      "only_rules tbl S (set is) (s\<lparr>pce := P\<rparr>) s'" "\<forall>i\<in>set is. pce_tbl_used (st_pce (pce s')) ! i = 0"
      using Cons.IH [OF P(2) i(2,4)] by blast
    have "pce_tbl_used (st_pce (pce s')) ! i = 0"
      using s'(3) i(3) P(3) by (simp add: only_rules_def rules_same_def)
    moreover have "only_rules tbl S (set (i # is)) s s'"
      by (rule only_rules_trans [OF P(4) s'(3)]) auto
    ultimately show ?thesis using P(1) s'(1,2,4) by simp
  qed
qed

section \<open>Router ports\<close>

definition router_ports :: "'p core \<Rightarrow> nat set" where
  "router_ports s = {i. bit (rd VR9_PCE_IGMP_DRPM_DRPM s) i}"

text \<open>
  What a read of a rule has to return: a pattern of an IP protocol, of the two bytes that follow the IP header
  (the message type and code; given as first value and span, or as value and mask of nibbles) and of the port a packet comes from, and
  nothing else. Port 255 is any port.
\<close>

datatype message = Any_message | Span u16 u16 | Masked u16 u16

fun message_pattern :: "message \<Rightarrow> IFX_FLOW_PCE_pattern \<Rightarrow> IFX_FLOW_PCE_pattern" where
  "message_pattern Any_message p = p"
| "message_pattern (Span v n) p = p\<lparr>bAppDataMSB_Enable := True, nAppDataMSB := v, bAppMaskRangeMSB_Select := True, nAppMaskRangeMSB := n\<rparr>"
| "message_pattern (Masked v m) p = p\<lparr>bAppDataMSB_Enable := True, nAppDataMSB := v, bAppMaskRangeMSB_Select := False, nAppMaskRangeMSB := m\<rparr>"

definition ip_pattern :: "u32 \<Rightarrow> u8 \<Rightarrow> message \<Rightarrow> u8 option \<Rightarrow> IFX_FLOW_PCE_pattern" where
  "ip_pattern n protocol msg port = (let p = message_pattern msg
       (zero_pattern\<lparr>nIndex := n, bEnable := True, bProtocolEnable := True, nProtocol := protocol\<rparr>)
     in case port of None \<Rightarrow> p | Some i \<Rightarrow> if i = 0xFF then p else p\<lparr>bPortIdEnable := True, nPortId := i\<rparr>)"

text \<open>
  In forwarding mode rule 40 sends the IGMP messages of types \<open>0x12\<close> to \<open>0x2F\<close> (the reports and the leave message, not the queries,
  \<open>0x11\<close>), and rule 43 the MLD reports and done messages (ICMPv6 types 131 and 132), that come from the
  management port to exactly the router ports; without router ports they are not in use. The management
  port is the one of the snooping configuration, and port 0 if that names none.
\<close>

definition management_port :: "IFX_FLOW_switchDev \<Rightarrow> u8" where
  "management_port d = (if ucast (ig_eForwardPort (IGMP_Flags d)) = IFX_ETHSW_PORT_FORWARD_PORT then ig_nForwardPortId (IGMP_Flags d)
     else if ucast (ig_eForwardPort (IGMP_Flags d)) = IFX_ETHSW_PORT_FORWARD_CPU then nCPU_Port d else 0)"

definition sends_reports :: "('p \<Rightarrow> nat \<Rightarrow> nat \<Rightarrow> pce_img) \<Rightarrow> u32 \<Rightarrow> u8 \<Rightarrow> message \<Rightarrow> 'p core \<Rightarrow> bool" where
  "sends_reports tbl n protocol msg s \<longleftrightarrow> pce_tbl_used (st_pce (pce s)) ! unat n \<noteq> 0 \<and>
     (\<exists>r. core_of tbl s n = Some r \<and> pattern r = ip_pattern n protocol msg (Some (management_port (dev s))) \<and>
        ePortMapAction (action r) = PORTMAP_ALTERNATIVE \<and> (\<forall>i. bit (nForwardPortMap (action r)) i \<longleftrightarrow> i \<in> router_ports s))"

definition router_ok :: "('p \<Rightarrow> nat \<Rightarrow> nat \<Rightarrow> pce_img) \<Rightarrow> 'p core \<Rightarrow> bool" where
  "router_ok tbl s \<longleftrightarrow> (snoop_mode s = SNOOP_MODE_FORWARD \<longrightarrow>
     (if router_ports s = {} then pce_tbl_used (st_pce (pce s)) ! 40 = 0 \<and> pce_tbl_used (st_pce (pce s)) ! 43 = 0
      else sends_reports tbl 40 0x2 (Span 0x1200 0x1DFF) s \<and> sends_reports tbl 43 0x3A (Span 0x8300 0x1FF) s))"

lemma router_rule_simps:
  "rule_no (router_rule 0 v d) = 40" "rule_no (router_rule 1 v d) = 43" "rule_no (router_rule (Suc 0) v d) = 43"
  "fits (pattern (router_rule i v d))" "\<not> bVid (pattern (router_rule i v d))"
  "act_ok (action (router_rule i v d))" "large_tables g (router_rule i v d)"
proof -
  show "large_tables g (router_rule i v d)"
    unfolding large_tables_def
  proof
    fix f show "want g (pattern (router_rule i v d)) f \<noteq> None \<longrightarrow> fkind f \<in> {APPL, IPLSB, PTCL}"
      by (cases f) (simp_all add: router_rule_def Let_def zero_pattern_def)
  qed
qed (simp_all add: router_rule_def Let_def zero_pattern_def zero_action_def act_ok_def cross_action_def class_action_def fits_def)

lemma router_rule_means:
  "installed tbl (router_rule 0 v (dev s)) s \<Longrightarrow> (\<And>i. bit v i \<longleftrightarrow> i \<in> router_ports s) \<Longrightarrow> sends_reports tbl 40 0x2 (Span 0x1200 0x1DFF) s"
  "installed tbl (router_rule 1 v (dev s)) s \<Longrightarrow> (\<And>i. bit v i \<longleftrightarrow> i \<in> router_ports s) \<Longrightarrow> sends_reports tbl 43 0x3A (Span 0x8300 0x1FF) s"
  by (auto simp: installed_def sends_reports_def router_rule_def Let_def ip_pattern_def management_port_def normal_def without_ip_def
      zero_pattern_def cross_action_def class_action_def)

lemma cores_same_refl [simp]: "cores_same tbl A s s"
  by (simp add: cores_same_def)

lemma router_rules_ok: "\<forall>r\<in>set (map (\<lambda>i. router_rule i v d) [0, 1]). snoop_rule_ok g r"
  by (simp add: snoop_rule_ok_def router_rule_simps IFX_PCE_TBL_SIZE_def)

lemma drpm_simps [simp]: "fdisj VR9_PCE_IGMP_DRPM_DRPM TBL_CTRL_BAS" "\<not> in_window 0x45A"
  by (simp_all add: fdisj.simps in_window_def)

lemma drpm_bit: "bit (rd VR9_PCE_IGMP_DRPM_DRPM (wr VR9_PCE_IGMP_DRPM_DRPM v s)) i \<longleftrightarrow> bit v i \<and> i < 16"
proof -
  have "rd VR9_PCE_IGMP_DRPM_DRPM (wr VR9_PCE_IGMP_DRPM_DRPM v s) = v AND mask 16"
    by (simp add: field_simps_hw)
  then show ?thesis by (auto simp: bit_simps)
qed

lemma drpm_low: "bit (rd VR9_PCE_IGMP_DRPM_DRPM s) i \<Longrightarrow> i < 16"
proof -
  assume b: "bit (rd VR9_PCE_IGMP_DRPM_DRPM s) i"
  have "rd VR9_PCE_IGMP_DRPM_DRPM s = rd VR9_PCE_IGMP_DRPM_DRPM s AND mask 16"
    by (simp add: rdf.simps read_fld_get fld_get_mask)
  with b have "bit (rd VR9_PCE_IGMP_DRPM_DRPM s AND mask 16) i" by simp
  then show ?thesis by (simp add: bit_simps)
qed

lemma drpm_same: "(\<And>i. i < 16 \<Longrightarrow> bit (rd VR9_PCE_IGMP_DRPM_DRPM s) i = bit v i) \<Longrightarrow> (\<And>i. bit v i \<Longrightarrow> i < 16) \<Longrightarrow>
    rd VR9_PCE_IGMP_DRPM_DRPM s = v"
  by (rule bit_word_eqI) (use drpm_low [of s] in blast)

text \<open>After a write of the two rules, and after their removal.\<close>

lemma router_written:
  assumes E: "pce_engine hwstep tbl keep S" and I: "core_inv tbl keep s" and u: "used_rules (st_pce (pce s)) \<le> 13"
    and S: "0x45A \<in> S" and v: "v = rd VR9_PCE_IGMP_DRPM_DRPM s" "v \<noteq> 0"
  obtains s' where "write_rules hwstep g (map (\<lambda>i. router_rule i v (dev s)) [0, 1]) s = Some (IFX_SUCCESS, s')"
    "core_inv tbl keep s'" "dev s' = dev s" "router_ports s' = router_ports s" "router_ok tbl s'" "cores_same tbl {40, 43} s s'"
proof -
  have d: "distinct (map rule_no (map (\<lambda>i. router_rule i v (dev s)) [0, 1]))" by (simp add: router_rule_simps)
  have l: "used_rules (st_pce (pce s)) + length (map (\<lambda>i. router_rule i v (dev s)) [0, 1]) \<le> 15" using u by simp
  obtain s' where s': "write_rules hwstep g (map (\<lambda>i. router_rule i v (dev s)) [0, 1]) s = Some (IFX_SUCCESS, s')"
    "core_inv tbl keep s'" "only_rules tbl S (rule_no ` set (map (\<lambda>i. router_rule i v (dev s)) [0, 1])) s s'"
    "\<forall>r\<in>set (map (\<lambda>i. router_rule i v (dev s)) [0, 1]). installed tbl r s'"
    using write_rules_spec [OF E I router_rules_ok d l] by blast
  have cs: "cores_same tbl {40, 43} s s'" using s'(3) by (simp add: only_rules_def router_rule_simps)
  have p: "rd VR9_PCE_IGMP_DRPM_DRPM s' = v" "dev s' = dev s"
    using only_rules_rd [OF s'(3), of VR9_PCE_IGMP_DRPM_DRPM] S v(1) s'(3) by (simp_all add: only_rules_def)
  have "router_ports s' = router_ports s" using p v(1) by (simp add: router_ports_def)
  moreover have "router_ports s' \<noteq> {}"
    using v(2) p(1) by (auto simp: router_ports_def bit_eq_iff)
  moreover have b: "bit v i \<longleftrightarrow> i \<in> router_ports s'" for i using p(1) by (simp add: router_ports_def)
  have "sends_reports tbl 40 0x2 (Span 0x1200 0x1DFF) s'" "sends_reports tbl 43 0x3A (Span 0x8300 0x1FF) s'"
    using router_rule_means [OF _ b] s'(4) p(2) by simp_all
  ultimately show thesis using s' p cs by (intro that [of s']) (simp_all add: router_ok_def)
qed

lemma router_deleted:
  assumes E: "pce_engine hwstep tbl keep S" and I: "core_inv tbl keep s"
    and S: "0x45A \<in> S" and v: "rd VR9_PCE_IGMP_DRPM_DRPM s = 0"
  obtains s' where "delete_rules hwstep [40, 43] s = Some (IFX_SUCCESS, s')"
    "core_inv tbl keep s'" "dev s' = dev s" "router_ports s' = router_ports s" "router_ok tbl s'" "cores_same tbl {40, 43} s s'"
proof -
  have i: "\<forall>i\<in>set [40, 43]. i < IFX_PCE_TBL_SIZE" "distinct [40, 43 :: nat]" by (simp_all add: IFX_PCE_TBL_SIZE_def)
  obtain s' where s': "delete_rules hwstep [40, 43] s = Some (IFX_SUCCESS, s')" "core_inv tbl keep s'"
    "only_rules tbl S (set [40, 43]) s s'" "\<forall>i\<in>set [40, 43]. pce_tbl_used (st_pce (pce s')) ! i = 0"
    using delete_rules_spec [OF E I i] by blast
  have p: "rd VR9_PCE_IGMP_DRPM_DRPM s' = 0" "dev s' = dev s"
    using only_rules_rd [OF s'(3), of VR9_PCE_IGMP_DRPM_DRPM] S v s'(3) by (simp_all add: only_rules_def)
  moreover have "cores_same tbl {40, 43} s s'" using s'(3) by (simp add: only_rules_def)
  ultimately show thesis using s' v by (intro that [of s']) (simp_all add: router_ok_def router_ports_def)
qed

lemma test_bit_word: "drop_bit n (w :: 'a::len word) AND 1 = 1 \<longleftrightarrow> bit w n" "drop_bit n (w :: 'a::len word) AND 1 = 0 \<longleftrightarrow> \<not> bit w n"
  by (simp_all add: bit_iff_and_drop_bit_eq_1 and_one_eq odd_iff_mod_2_eq_one)

lemma router_add_spec:
  assumes E: "pce_engine hwstep tbl keep S" and I: "core_inv tbl keep s" and p: "rp_nPortId q < nTotalPortNumber (dev s)"
    and S: "0x45A \<in> S" and u: "snoop_mode s = SNOOP_MODE_FORWARD \<longrightarrow> used_rules (st_pce (pce s)) \<le> 13"
  obtains s' where "IFX_FLOW_MulticastRouterPortAdd hwstep g q s = Some (IFX_SUCCESS, s')" "core_inv tbl keep s'"
    "dev s' = dev s" "router_ports s' = insert (unat (rp_nPortId q)) (router_ports s)" "router_ok tbl s'" "cores_same tbl {40, 43} s s'"
proof -
  let ?p = "unat (rp_nPortId q)" and ?v = "rd VR9_PCE_IGMP_DRPM_DRPM s"
  let ?n = "?v OR push_bit ?p 1" and ?w = "if bit ?v ?p then s else wr VR9_PCE_IGMP_DRPM_DRPM (?v OR push_bit ?p 1) s"
  have p12: "?p < 12" using p core_inv_simps(3) [OF I] by (simp add: dev_ok_def word_less_nat_alt)
  have b: "bit ?n i \<longleftrightarrow> bit ?v i \<or> i = ?p" for i
    using p12 by (auto simp: bit_simps)
  have n: "(if bit ?v ?p then ?v else ?n) = ?n"
  proof (cases "bit ?v ?p")
    case True
    have "bit ?v i \<longleftrightarrow> bit ?n i" for i unfolding b using True by blast
    then show ?thesis using True by (simp add: bit_eq_iff)
  qed simp
  have W: "rd VR9_PCE_IGMP_DRPM_DRPM ?w = ?n"
  proof (cases "bit ?v ?p")
    case True
    then show ?thesis using n by simp
  next
    case False
    have l: "i < 16" if "bit ?n i" for i using that drpm_low [of s i] p12 unfolding b by auto
    have "rd VR9_PCE_IGMP_DRPM_DRPM (wr VR9_PCE_IGMP_DRPM_DRPM ?n s) = ?n"
      by (rule drpm_same) (use l drpm_bit [of ?n s] in blast)+
    with False show ?thesis by simp
  qed
  have Iw: "core_inv tbl keep ?w" using I by (simp add: wr_inv)
  have d: "dev ?w = dev s" "st_pce (pce ?w) = st_pce (pce s)" by simp_all
  have cw: "cores_same tbl A ?w t = cores_same tbl A s t" "cores_same tbl A s ?w = cores_same tbl A s s" for A t
    by (simp_all add: cores_same_def core_of_def)
  have ports: "router_ports ?w = insert ?p (router_ports s)" unfolding router_ports_def W b by auto
  have ne: "?n \<noteq> 0" using b [of ?p] by auto
  have run: "IFX_FLOW_MulticastRouterPortAdd hwstep g q s = (if snoop_mode s = SNOOP_MODE_FORWARD
      then write_rules hwstep g (map (\<lambda>i. router_rule i ?n (dev ?w)) [0, 1]) ?w else Some (IFX_SUCCESS, ?w))"
    using p n unfolding IFX_FLOW_MulticastRouterPortAdd_def Let_def test_bit_word
    by (cases "bit ?v ?p") (simp_all add: not_le [symmetric])
  show thesis
  proof (cases "snoop_mode s = SNOOP_MODE_FORWARD")
    case True
    have u': "used_rules (st_pce (pce ?w)) \<le> 13" using u True by simp
    show thesis
    proof (rule router_written [OF E Iw u' S W [symmetric] ne, of g], goal_cases)
      case (1 s')
      show ?case
        by (rule that [of s']) (use run True ports d 1 cw in \<open>simp_all only: simp_thms if_True\<close>)
    qed
  next
    case False
    have "router_ok tbl ?w" using False d by (simp add: router_ok_def)
    moreover have "cores_same tbl {40, 43} s ?w" using cw cores_same_refl by blast
    ultimately show thesis using False run ports d Iw that [of ?w] by (simp only: if_False)
  qed
qed

lemma router_remove_spec:
  assumes E: "pce_engine hwstep tbl keep S" and I: "core_inv tbl keep s" and p: "rp_nPortId q < nTotalPortNumber (dev s)"
    and S: "0x45A \<in> S" and u: "snoop_mode s = SNOOP_MODE_FORWARD \<longrightarrow> used_rules (st_pce (pce s)) \<le> 13"
  obtains s' where "IFX_FLOW_MulticastRouterPortRemove hwstep g q s = Some (IFX_SUCCESS, s')" "core_inv tbl keep s'"
    "dev s' = dev s" "router_ports s' = router_ports s - {unat (rp_nPortId q)}" "cores_same tbl {40, 43} s s'"
    "if unat (rp_nPortId q) \<in> router_ports s then router_ok tbl s' else s' = s"
proof -
  let ?p = "unat (rp_nPortId q)" and ?v = "rd VR9_PCE_IGMP_DRPM_DRPM s"
  let ?n = "?v AND NOT (push_bit ?p 1)"
  let ?w = "wr VR9_PCE_IGMP_DRPM_DRPM ?n s"
  have p12: "?p < 12" using p core_inv_simps(3) [OF I] by (simp add: dev_ok_def word_less_nat_alt)
  show thesis
  proof (cases "bit ?v ?p")
    case False
    then have "IFX_FLOW_MulticastRouterPortRemove hwstep g q s = Some (IFX_SUCCESS, s)"
      using p unfolding IFX_FLOW_MulticastRouterPortRemove_def Let_def test_bit_word by (simp add: not_le [symmetric])
    moreover have "router_ports s = router_ports s - {?p}" using False by (simp add: router_ports_def)
    ultimately show thesis using that [of s] I False by (simp add: router_ports_def)
  next
    case True
    then have pin: "?p \<in> router_ports s" by (simp add: router_ports_def)
    have b: "bit ?n i \<longleftrightarrow> bit ?v i \<and> i \<noteq> ?p" for i
      using p12 drpm_low [of s i] by (auto simp: bit_simps)
    have W: "rd VR9_PCE_IGMP_DRPM_DRPM ?w = ?n"
    proof (rule drpm_same)
      have l: "i < 16" if "bit ?n i" for i using that drpm_low [of s i] unfolding b by simp
      then show "i < 16" if "bit ?n i" for i using that .
      show "bit (rd VR9_PCE_IGMP_DRPM_DRPM ?w) i = bit ?n i" if "i < 16" for i using that drpm_bit [of ?n s i] by simp
    qed
    have Iw: "core_inv tbl keep ?w" using I by (simp add: wr_inv)
    have d: "dev ?w = dev s" "st_pce (pce ?w) = st_pce (pce s)" by simp_all
    have cw: "cores_same tbl A ?w t = cores_same tbl A s t" "cores_same tbl A s ?w" for A t
      by (simp_all add: cores_same_def core_of_def)
    have ports: "router_ports ?w = router_ports s - {?p}" unfolding router_ports_def W b by auto
    have run: "IFX_FLOW_MulticastRouterPortRemove hwstep g q s = (if snoop_mode s = SNOOP_MODE_FORWARD
        then if ?n \<noteq> 0 then write_rules hwstep g (map (\<lambda>i. router_rule i ?n (dev ?w)) [0, 1]) ?w
          else delete_rules hwstep [40, 43] ?w else Some (IFX_SUCCESS, ?w))"
      using p True unfolding IFX_FLOW_MulticastRouterPortRemove_def Let_def test_bit_word by (simp add: not_le [symmetric])
    consider (other) "snoop_mode s \<noteq> SNOOP_MODE_FORWARD" | (some) "snoop_mode s = SNOOP_MODE_FORWARD" "?n \<noteq> 0"
      | (none) "snoop_mode s = SNOOP_MODE_FORWARD" "?n = 0" by blast
    then show thesis
    proof cases
      case other
      have "router_ok tbl ?w" using other d by (simp add: router_ok_def)
      with other run ports d Iw pin cw(2) that [of ?w] show thesis by (simp only: simp_thms if_False if_True)
    next
      case some
      have u': "used_rules (st_pce (pce ?w)) \<le> 13" using u some(1) by simp
      show thesis
      proof (rule router_written [OF E Iw u' S W [symmetric] some(2), of g], goal_cases)
        case (1 s')
        show ?case by (rule that [of s']) (use run some ports d pin cw 1 in \<open>simp_all only: simp_thms if_True if_False\<close>)
      qed
    next
      case none
      have z: "rd VR9_PCE_IGMP_DRPM_DRPM ?w = 0" using W none(2) by simp
      show thesis
      proof (rule router_deleted [OF E Iw S z], goal_cases)
        case (1 s')
        show ?case by (rule that [of s']) (use run none ports d pin cw 1 in \<open>simp_all only: simp_thms if_True if_False\<close>)
      qed
    qed
  qed
qed

section \<open>Reading the router ports\<close>

fun router_dump :: "nat \<Rightarrow> IFX_ETHSW_multicastRouterRead \<Rightarrow> 'p core \<Rightarrow> (u8 list \<times> 'p core) option" where
  "router_dump 0 q s = None"
| "router_dump (Suc n) q s =
     (case IFX_FLOW_MulticastRouterPortRead q s of (_, q, s) \<Rightarrow>
        if ro_bLast q = IFX_TRUE then Some ([], s)
        else map_option (\<lambda>(L, s). (ro_nPortId q # L, s)) (router_dump n q s))"

lemma router_scan_spec:
  assumes n: "n \<le> 12" and c: "c \<le> n" and m: "\<And>i. bit m i \<Longrightarrow> i < n"
  shows "router_scan m n c =
    (case find (bit m) [c..<n] of Some i \<Rightarrow> (True, i) | None \<Rightarrow> (False, if c < n then n else n + 1))"
  using c
proof (induction "n - c" arbitrary: c)
  case 0
  then have e: "c = n" by simp
  have "\<not> bit (ucast m :: u32) n" using m [of n] by (auto simp: bit_simps)
  then have "drop_bit n (ucast m :: u32) AND 1 = 0" by (simp only: test_bit_word simp_thms)
  then show ?case using e by (subst router_scan.simps) simp
next
  case (Suc d)
  then have cn: "c < n" and u: "[c..<n] = c # [Suc c..<n]" by (simp_all add: upt_conv_Cons)
  have b: "drop_bit c (ucast m :: u32) AND 1 \<noteq> 0 \<longleftrightarrow> bit m c"
    using n cn by (simp add: test_bit_word bit_simps)
  show ?case
  proof (cases "bit m c")
    case True
    then show ?thesis using b by (subst router_scan.simps) (simp add: u)
  next
    case False
    have ih: "router_scan m n (Suc c) =
      (case find (bit m) [Suc c..<n] of Some i \<Rightarrow> (True, i) | None \<Rightarrow> (False, if Suc c < n then n else n + 1))"
      using Suc by (intro Suc(1)) simp_all
    show ?thesis
    proof (cases "Suc c = n")
      case True
      then show ?thesis using b False by (subst router_scan.simps) (simp add: u)
    next
      case neq: False
      have "router_scan m n c = router_scan m n (Suc c)"
        using b False neq cn by (subst router_scan.simps) simp
      with ih False neq cn show ?thesis by (simp add: u split: option.splits)
    qed
  qed
qed

lemma find_upt_from:
  assumes "find P [a..<n] = Some i"
  shows "a \<le> i" "i < n" "P i" "\<forall>j. a \<le> j \<and> j < i \<longrightarrow> \<not> P j"
proof -
  from assms obtain k where k: "k < n - a" "P (a + k)" "i = a + k" "\<forall>j<k. \<not> P (a + j)"
    by (auto simp: find_Some_iff)
  from k show "a \<le> i" "i < n" "P i" by simp_all
  show "\<forall>j. a \<le> j \<and> j < i \<longrightarrow> \<not> P j"
  proof (intro allI impI)
    fix j assume "a \<le> j \<and> j < i"
    with k(3) have "j - a < k" "a + (j - a) = j" by linarith+
    with k(4) show "\<not> P j" by metis
  qed
qed

text \<open>The rest of a reading, from the counter on; of the device record only the counter changes.\<close>

lemma router_dump_rest:
  assumes n: "n \<le> 12" and m: "\<And>i. bit m i \<Longrightarrow> i < n"
  shows "eRouterPort (igmp s) = m \<Longrightarrow> unat (nTotalPortNumber (dev s)) = n \<Longrightarrow> unat (multi_routerport_counter (dev s)) = c \<Longrightarrow>
    c \<le> n \<Longrightarrow> ro_bInitial q = 0 \<Longrightarrow> ro_bLast q = 0 \<Longrightarrow> n - c < k \<Longrightarrow>
    \<exists>x. router_dump k q s = Some (map of_nat (filter (bit m) [c..<n]), upd_dev (\<lambda>d. d\<lparr>multi_routerport_counter := x\<rparr>) s)"
proof (induction k arbitrary: c q s)
  case (Suc k)
  note sc = router_scan_spec [OF n Suc.prems(4) m]
  show ?case
  proof (cases "find (bit m) [c..<n]")
    case None
    then have f: "filter (bit m) [c..<n] = []" by (simp add: find_None_iff filter_empty_conv)
    have "IFX_FLOW_MulticastRouterPortRead q s = (IFX_SUCCESS, q\<lparr>ro_bLast := 1\<rparr>,
        upd_dev (\<lambda>d. d\<lparr>multi_routerport_counter := of_nat (if c < n then n else n + 1)\<rparr>) s)"
      using Suc.prems None sc by (simp add: IFX_FLOW_MulticastRouterPortRead_def)
    then show ?thesis by (auto simp: f)
  next
    case (Some i)
    note i = find_upt_from [OF Some]
    have u: "unat (of_nat i :: u8) = i" "unat (of_nat i + 1 :: u8) = i + 1"
      using i(2) n by (simp_all add: unat_of_nat_small unat_word_ariths unsigned_of_nat take_bit_nat_eq_self)
    let ?s = "upd_dev (\<lambda>d. d\<lparr>multi_routerport_counter := of_nat i + 1\<rparr>) s" and ?q = "q\<lparr>ro_nPortId := of_nat i\<rparr>"
    have lt: "of_nat i < nTotalPortNumber (dev s)" using u(1) i(2) Suc.prems(2) by (simp add: word_less_nat_alt)
    have r: "IFX_FLOW_MulticastRouterPortRead q s = (IFX_SUCCESS, ?q, ?s)"
      using Suc.prems Some sc lt by (simp add: IFX_FLOW_MulticastRouterPortRead_def upd_dev_def)
    obtain x where x: "router_dump k ?q ?s = Some (map of_nat (filter (bit m) [i + 1..<n]),
        upd_dev (\<lambda>d. d\<lparr>multi_routerport_counter := x\<rparr>) ?s)"
    proof -
      have "\<exists>x. router_dump k ?q ?s = Some (map of_nat (filter (bit m) [i + 1..<n]), upd_dev (\<lambda>d. d\<lparr>multi_routerport_counter := x\<rparr>) ?s)"
        by (rule Suc.IH) (use Suc.prems i u in simp_all)
      with that show thesis by blast
    qed
    have "[c..<n] = [c..<i] @ i # [i + 1..<n]"
      using i(1,2) by (metis Suc_eq_plus1 le_add_diff_inverse less_imp_le_nat upt_add_eq_append upt_conv_Cons)
    moreover have "filter (bit m) [c..<i] = []" using i(4) by (simp add: filter_empty_conv)
    ultimately have "filter (bit m) [c..<n] = i # filter (bit m) [i + 1..<n]" using i(3) by simp
    then show ?thesis using r x Suc.prems(6) by (auto simp: upd_dev_def)
  qed
qed simp

lemma router_dump_spec:
  assumes I: "core_inv tbl keep s" and q: "ro_bInitial q = 1" "ro_bLast q = 0"
    and m: "\<And>i. bit (rd VR9_PCE_IGMP_DRPM_DRPM s OR rd VR9_PCE_IGMP_STAT_IGPM s) i \<Longrightarrow> i < unat (nTotalPortNumber (dev s))"
  obtains s' where "router_dump 13 q s = Some (map of_nat (filter (bit (rd VR9_PCE_IGMP_DRPM_DRPM s OR rd VR9_PCE_IGMP_STAT_IGPM s))
      [0..<unat (nTotalPortNumber (dev s))]), s')" "core_inv tbl keep s'"
proof -
  let ?m = "rd VR9_PCE_IGMP_DRPM_DRPM s OR rd VR9_PCE_IGMP_STAT_IGPM s" and ?n = "unat (nTotalPortNumber (dev s))"
  let ?s = "upd_dev (\<lambda>d. d\<lparr>IGMP_Flags := (IGMP_Flags d)\<lparr>eRouterPort := ucast ?m\<rparr>, multi_routerport_counter := 0\<rparr>) s"
  let ?q = "q\<lparr>ro_bInitial := 0\<rparr>"
  have n: "?n \<le> 12" using core_inv_simps(3) [OF I] by (simp add: dev_ok_def)
  have b: "bit (ucast ?m :: u16) i \<longleftrightarrow> bit ?m i" for i
    using m [of i] n by (auto simp: bit_simps)
  then have bb: "bit (ucast ?m :: u16) = bit ?m" by (simp add: fun_eq_iff)
  have "IFX_FLOW_MulticastRouterPortRead q s = IFX_FLOW_MulticastRouterPortRead ?q ?s"
    using q by (simp add: IFX_FLOW_MulticastRouterPortRead_def)
  then have e: "router_dump 13 q s = router_dump 13 ?q ?s"
    by (simp add: eval_nat_numeral)
  have m': "i < ?n" if "bit (ucast ?m :: u16) i" for i using that m b by simp
  have "\<exists>x. router_dump 13 ?q ?s = Some (map of_nat (filter (bit (ucast ?m :: u16)) [0..<?n]), upd_dev (\<lambda>d. d\<lparr>multi_routerport_counter := x\<rparr>) ?s)"
    by (rule router_dump_rest [OF n m']) (use q n in simp_all)
  then obtain x where x: "router_dump 13 ?q ?s = Some (map of_nat (filter (bit (ucast ?m :: u16)) [0..<?n]),
      upd_dev (\<lambda>d. d\<lparr>multi_routerport_counter := x\<rparr>) ?s)" by blast
  show thesis
    by (rule that [OF x [folded e, unfolded bb]])
      (use I in \<open>simp add: core_inv_def dev_ok_def vlan_wf_def vlan_mirror_def\<close>)
qed

section \<open>The configuration of snooping\<close>

definition snoop_rules :: "IFX_ETHSW_multicastSnoopCfg \<Rightarrow> IFX_FLOW_switchDev \<Rightarrow> IFX_FLOW_PCE_rule list" where
  "snoop_rules q d = (if sn_eIGMP_Mode q = SNOOP_MODE_AUTOLEARNING then map (learn_rule q (nClassOfService (IGMP_Flags d))) [0..<8]
     else if sn_eIGMP_Mode q = SNOOP_MODE_FORWARD then map (forward_rule q d) [1, 2, 4, 5, 6, 7] else [])"

text \<open>
  What the rules have to be. Hardware snooping: IGMP messages (protocol 2) by their type, any code: general queries (\<open>0x11\<close>;
  the three rules differ in their addresses, which are not looked at here), reports of version 1 and 2, leave messages, and the solicitations and
  advertisements of multicast routers, each with its snooping action and sent to the router ports.
  Software snooping: IGMP (protocol 2) and, of ICMPv6 (\<open>0x3A\<close>), the MLD messages of types 130 to 132, those of type 143, and
  the router discovery of types 151 to 153 go to the management port, but not those that come from it.
\<close>

definition snoop_spec :: "u32 \<Rightarrow> (u32 \<times> u8 \<times> message \<times> bool \<times> ActionIGMP_Snoop \<times> ActionPortmap) list" where
  "snoop_spec m =
     (if m = SNOOP_MODE_AUTOLEARNING then
        [(40, 0x2, Masked 0x1100 3, False, SNOOP_QUERY, PORTMAP_MULTICAST_ROUTER),
         (41, 0x2, Masked 0x1100 3, False, SNOOP_QUERY_NO_ROUTER, PORTMAP_MULTICAST_ROUTER),
         (42, 0x2, Masked 0x1100 3, False, SNOOP_QUERY_GROUP, PORTMAP_MULTICAST_ROUTER),
         (43, 0x2, Masked 0x1200 3, False, SNOOP_REPORT, PORTMAP_MULTICAST_ROUTER),
         (44, 0x2, Masked 0x1600 3, False, SNOOP_REPORT, PORTMAP_MULTICAST_ROUTER),
         (45, 0x2, Masked 0x1700 3, False, SNOOP_LEAVE, PORTMAP_MULTICAST_ROUTER),
         (46, 0x2, Masked 0x3100 3, False, SNOOP_AD, PORTMAP_MULTICAST_ROUTER),
         (47, 0x2, Masked 0x3000 3, False, SNOOP_AD, PORTMAP_MULTICAST_ROUTER)]
      else if m = SNOOP_MODE_FORWARD then
        [(41, 0x2, Any_message, True, SNOOP_DISABLE, PORTMAP_REGULAR), (42, 0x2, Any_message, False, SNOOP_DISABLE, PORTMAP_ALTERNATIVE),
         (44, 0x3A, Any_message, True, SNOOP_DISABLE, PORTMAP_REGULAR),
         (45, 0x3A, Span 0x8200 0x2FF, False, SNOOP_DISABLE, PORTMAP_ALTERNATIVE),
         (46, 0x3A, Masked 0x8F00 3, False, SNOOP_DISABLE, PORTMAP_ALTERNATIVE),
         (47, 0x3A, Span 0x9700 0x2FF, False, SNOOP_DISABLE, PORTMAP_ALTERNATIVE)]
      else [])"

text \<open>
  The port of forwarding, if there is one. (With neither forwarding to a port nor to the CPU the rules forward to no port, and the
  port to be spared is 0 for IGMP and the number in the request for ICMPv6.)
\<close>

definition snoop_port :: "IFX_ETHSW_multicastSnoopCfg \<Rightarrow> IFX_FLOW_switchDev \<Rightarrow> u8 option" where
  "snoop_port q d = (if sn_eForwardPort q = IFX_ETHSW_PORT_FORWARD_PORT then Some (sn_nForwardPortId q)
     else if sn_eForwardPort q = IFX_ETHSW_PORT_FORWARD_CPU then Some (nCPU_Port d) else None)"

definition snoops :: "('p \<Rightarrow> nat \<Rightarrow> nat \<Rightarrow> pce_img) \<Rightarrow> IFX_ETHSW_multicastSnoopCfg \<Rightarrow> 'p core \<Rightarrow> bool" where
  "snoops tbl q s \<longleftrightarrow> (\<forall>(n, protocol, msg, own, sn, pm)\<in>set (snoop_spec (sn_eIGMP_Mode q)).
     pce_tbl_used (st_pce (pce s)) ! unat n \<noteq> 0 \<and> (\<exists>r. core_of tbl s n = Some r \<and>
       pattern r = ip_pattern n protocol msg
         (if own then Some (case snoop_port q (dev s) of Some i \<Rightarrow> i | None \<Rightarrow> if n = 41 then 0 else sn_nForwardPortId q) else None) \<and>
       eSnoopingTypeAction (action r) = sn \<and> ePortMapAction (action r) = pm \<and>
       eVLAN_CrossAction (action r) = (if sn_bCrossVLAN q \<noteq> 0 then CROSS_VLAN_CROSS else CROSS_VLAN_DISABLE) \<and>
       (sn_eIGMP_Mode q = SNOOP_MODE_FORWARD \<longrightarrow>
          nForwardPortMap (action r) = (case snoop_port q (dev s) of Some i \<Rightarrow> push_bit (unat i) 1 | None \<Rightarrow> 0))))"

text \<open>The rules that a mode owns: forwarding leaves 40 and 43 to the router ports.\<close>

definition snoop_rows :: "IFX_ETHSW_multicastSnoopCfg \<Rightarrow> nat set" where
  "snoop_rows q = (if sn_eIGMP_Mode q = SNOOP_MODE_FORWARD then {41, 42, 44, 45, 46, 47} else {40..<48})"

lemma learn_rule_ok: "k < 8 \<Longrightarrow> rule_no (learn_rule q c k) = 40 + k" "k < 8 \<Longrightarrow> snoop_rule_ok g (learn_rule q c k)"
proof -
  assume k: "k < 8"
  have n: "nIndex (pattern (learn_rule q c k)) = 40 + of_nat k" by (simp add: learn_rule_def Let_def)
  show no: "rule_no (learn_rule q c k) = 40 + k"
    unfolding n using k by (simp add: unat_word_ariths unat_of_nat_small)
  have "large_tables h (learn_rule q c k)" for h
    unfolding large_tables_def
  proof
    fix f show "want h (pattern (learn_rule q c k)) f \<noteq> None \<longrightarrow> fkind f \<in> {APPL, IPLSB, PTCL}"
      by (cases f) (simp_all add: learn_rule_def Let_def zero_pattern_def)
  qed
  moreover have "fits (pattern (learn_rule q c k))" "\<not> bVid (pattern (learn_rule q c k))" "act_ok (action (learn_rule q c k))"
    by (simp_all add: learn_rule_def Let_def act_ok_def cross_action_def zero_action_def fits_def zero_pattern_def)
  ultimately show "snoop_rule_ok g (learn_rule q c k)"
    using k unfolding snoop_rule_ok_def no by (simp add: IFX_PCE_TBL_SIZE_def)
qed

lemma forward_rule_ok: "k < 8 \<Longrightarrow> rule_no (forward_rule q d k) = 40 + k" "k < 8 \<Longrightarrow> snoop_rule_ok g (forward_rule q d k)"
proof -
  assume k: "k < 8"
  have n: "nIndex (pattern (forward_rule q d k)) = 40 + of_nat k"
    by (simp add: forward_rule_def Let_def split: option.split prod.split)
  show no: "rule_no (forward_rule q d k) = 40 + k"
    unfolding n using k by (simp add: unat_word_ariths unat_of_nat_small)
  have "large_tables h (forward_rule q d k)" for h
    unfolding large_tables_def
  proof
    fix f show "want h (pattern (forward_rule q d k)) f \<noteq> None \<longrightarrow> fkind f \<in> {APPL, IPLSB, PTCL}"
      by (cases f) (auto simp: forward_rule_def Let_def zero_pattern_def split: option.splits prod.splits)
  qed
  moreover have "fits (pattern (forward_rule q d k))" "\<not> bVid (pattern (forward_rule q d k))" "act_ok (action (forward_rule q d k))"
    by (auto simp: fits_def forward_rule_def Let_def act_ok_def cross_action_def class_action_def zero_action_def zero_pattern_def
        split: option.splits prod.splits)
  ultimately show "snoop_rule_ok g (forward_rule q d k)"
    using k unfolding snoop_rule_ok_def no by (simp add: IFX_PCE_TBL_SIZE_def)
qed

lemma snoop_rules_ok:
  "\<forall>r\<in>set (snoop_rules q d). snoop_rule_ok g r" "distinct (map rule_no (snoop_rules q d))"
  "length (snoop_rules q d) \<le> 8" "rule_no ` set (snoop_rules q d) \<subseteq> snoop_rows q"
proof -
  have m: "map rule_no (map (learn_rule q c) [0..<8]) = map (\<lambda>k. 40 + k) [0..<8]"
    "map rule_no (map (forward_rule q d) [1, 2, 4, 5, 6, 7]) = [41, 42, 44, 45, 46, 47]" for c
    by (simp_all add: learn_rule_ok(1) forward_rule_ok(1))
  show "\<forall>r\<in>set (snoop_rules q d). snoop_rule_ok g r"
    by (auto simp: snoop_rules_def learn_rule_ok(2) forward_rule_ok(2))
  show "distinct (map rule_no (snoop_rules q d))"
  proof -
    have D: "distinct (map rule_no (map (learn_rule q c) [0..<8]))" for c unfolding m by (simp add: distinct_map)
    have D': "distinct (map rule_no (map (forward_rule q d) [1, 2, 4, 5, 6, 7]))" unfolding m by simp
    consider "sn_eIGMP_Mode q = SNOOP_MODE_AUTOLEARNING" | "sn_eIGMP_Mode q \<noteq> SNOOP_MODE_AUTOLEARNING" "sn_eIGMP_Mode q = SNOOP_MODE_FORWARD"
      | "sn_eIGMP_Mode q \<noteq> SNOOP_MODE_AUTOLEARNING" "sn_eIGMP_Mode q \<noteq> SNOOP_MODE_FORWARD" by blast
    then show ?thesis
    proof cases
      case 1 show ?thesis unfolding snoop_rules_def if_P [OF 1] by (rule D)
    next
      case 2 show ?thesis unfolding snoop_rules_def if_not_P [OF 2(1)] if_P [OF 2(2)] by (rule D')
    next
      case 3 show ?thesis unfolding snoop_rules_def if_not_P [OF 3(1)] if_not_P [OF 3(2)] by simp
    qed
  qed
  show "length (snoop_rules q d) \<le> 8" by (simp add: snoop_rules_def)
  show "rule_no ` set (snoop_rules q d) \<subseteq> snoop_rows q"
    by (auto simp: snoop_rules_def snoop_rows_def learn_rule_ok(1) forward_rule_ok(1))
qed

text \<open>The registers of a mode and those set last lie outside the window of the tables.\<close>

lemma mode_writes_in:
  assumes "(F, v) \<in> set (mode_writes m n)" "unat n \<le> 12"
  shows "F = VR9_PCE_IGMP_CTRL_SRPEN \<or> F = VR9_PCE_GCTRL_0_IGMP \<or> (\<exists>i<13. F = at VR9_PCE_PCTRL_0_MCST (0xA * of_nat i))"
proof -
  have "F = VR9_PCE_IGMP_CTRL_SRPEN \<or> F = VR9_PCE_GCTRL_0_IGMP \<or> (\<exists>i\<in>set [0..<unat n + 1]. F = at VR9_PCE_PCTRL_0_MCST (0xA * of_nat i))"
    using assms(1) unfolding mode_writes_def by (auto simp del: at.simps upt.simps split: if_splits)
  moreover have "i < 13" if "i \<in> set [0..<unat n + 1]" for i using that assms(2) by auto
  ultimately show ?thesis by blast
qed

lemma mcst_off: "i < (13::nat) \<Longrightarrow> fdisj (at VR9_PCE_PCTRL_0_MCST (0xA * of_nat i)) TBL_CTRL_BAS"
  "i < (13::nat) \<Longrightarrow> fst G = 0x459 \<Longrightarrow> fdisj (at VR9_PCE_PCTRL_0_MCST (0xA * of_nat i)) G"
proof -
  assume i: "i < 13"
  have u: "unat (0x480 + 0xA * of_nat i :: 16 word) = 0x480 + 0xA * i"
    using i by (simp add: unat_word_ariths unat_of_nat_small)
  have ne: "0x480 + 0xA * of_nat i \<noteq> (y :: 16 word)" if "unat y < 0x480" for y using u that by auto
  from ne [of "0x44F"] ne [of "0x459"]
  have "0x480 + 0xA * of_nat i \<noteq> (0x44F :: 16 word)" "0x480 + 0xA * of_nat i \<noteq> (0x459 :: 16 word)" by simp_all
  then show "fdisj (at VR9_PCE_PCTRL_0_MCST (0xA * of_nat i)) TBL_CTRL_BAS"
    "fst G = 0x459 \<Longrightarrow> fdisj (at VR9_PCE_PCTRL_0_MCST (0xA * of_nat i)) G"
    by (simp_all add: fdisj.simps) (cases G, simp add: fdisj.simps)
qed

lemma wrfs_append: "wrfs (xs @ ys) h = wrfs ys (wrfs xs h)"
  by (induction xs h rule: wrfs.induct) auto

lemma mode_writes_rd:
  assumes "unat n \<le> 12"
  shows "(F, v) \<in> set (mode_writes m n) \<Longrightarrow> fdisj F TBL_CTRL_BAS"
    "fst G = 0x459 \<Longrightarrow> fdisj VR9_PCE_IGMP_CTRL_SRPEN G \<Longrightarrow> rdf G (wrfs (mode_writes m n) h) = rdf G h"
    "rdf VR9_PCE_IGMP_CTRL_SRPEN (wrfs (mode_writes m n) h) = (if m = SNOOP_MODE_AUTOLEARNING then 1 else 0)"
proof -
  show "fdisj F TBL_CTRL_BAS" if "(F, v) \<in> set (mode_writes m n)"
    using mode_writes_in [OF that assms] mcst_off(1) by (auto simp: fdisj.simps simp del: at.simps)
  show "rdf G (wrfs (mode_writes m n) h) = rdf G h" if "fst G = 0x459" "fdisj VR9_PCE_IGMP_CTRL_SRPEN G"
  proof (rule wrfs_other)
    fix F v assume "(F, v) \<in> set (mode_writes m n)"
    from mode_writes_in [OF this assms] consider "F = VR9_PCE_IGMP_CTRL_SRPEN" | "F = VR9_PCE_GCTRL_0_IGMP"
      | i where "i < 13" "F = at VR9_PCE_PCTRL_0_MCST (0xA * of_nat i)" by blast
    then show "fdisj F G"
    proof cases
      case 1 then show ?thesis using that(2) by simp
    next
      case 2 then show ?thesis using that(1) by (cases G) (simp add: fdisj.simps)
    next
      case 3 then show ?thesis using mcst_off(2) [OF _ that(1)] by simp
    qed
  qed
  show "rdf VR9_PCE_IGMP_CTRL_SRPEN (wrfs (mode_writes m n) h) = (if m = SNOOP_MODE_AUTOLEARNING then 1 else 0)"
  proof -
    let ?M = "map (\<lambda>i. (at VR9_PCE_PCTRL_0_MCST (0xA * of_nat i), if m = SNOOP_MODE_DISABLED then 0 else 1)) [0..<unat n + 1]"
    have a: "rdf VR9_PCE_IGMP_CTRL_SRPEN (wrfs ?M h) = rdf VR9_PCE_IGMP_CTRL_SRPEN h" for h :: "'a hw"
    proof (rule wrfs_other)
      fix F v assume "(F, v) \<in> set ?M"
      then obtain i where "i \<in> set [0..<unat n + 1]" "F = at VR9_PCE_PCTRL_0_MCST (0xA * of_nat i)" by (auto simp del: at.simps upt.simps)
      moreover from this(1) assms have "i < 13" by auto
      ultimately show "fdisj F VR9_PCE_IGMP_CTRL_SRPEN" using mcst_off(2) [of i VR9_PCE_IGMP_CTRL_SRPEN] by simp
    qed
    show ?thesis unfolding mode_writes_def wrfs_append a by (auto simp: field_simps_hw)
  qed
qed

lemma installed_kept:
  "rules_same A (st_pce (pce s)) (st_pce (pce s')) \<Longrightarrow> cores_same tbl A s s' \<Longrightarrow> rule_no r \<notin> A \<Longrightarrow> rule_no r < IFX_PCE_TBL_SIZE \<Longrightarrow>
   installed tbl r s' = installed tbl r s"
  by (simp add: rules_same_def cores_same_def installed_def)

lemma driver_wrfs: "driver_tbl tbl (wrfs ws h) = driver_tbl tbl h"
  by (induction ws h rule: wrfs.induct) simp_all

lemma installed_wrs [simp]: "installed tbl r (wrs ws s) = installed tbl r s" "core_of tbl (wrs ws s) = core_of tbl s"
  "core_of tbl (upd_dev f s) = core_of tbl s" "core_of tbl (wr F v s) = core_of tbl s"
  by (simp_all add: installed_def core_of_def fun_eq_iff driver_wrfs)

lemma snoop_rules_length:
  "length (snoop_rules q d) = (if sn_eIGMP_Mode q = SNOOP_MODE_AUTOLEARNING then 8 else if sn_eIGMP_Mode q = SNOOP_MODE_FORWARD then 6 else 0)"
  by (simp add: snoop_rules_def)

lemma used_rules_same: "rules_same A P P' \<Longrightarrow> finite A \<Longrightarrow> used_rules P' \<le> used_rules P + card A"
proof -
  assume A: "rules_same A P P'" "finite A"
  have "{r. r < IFX_PCE_TBL_SIZE \<and> pce_tbl_used P' ! r \<noteq> 0} \<subseteq> {r. r < IFX_PCE_TBL_SIZE \<and> pce_tbl_used P ! r \<noteq> 0} \<union> A"
    using A(1) by (auto simp: rules_same_def)
  then have "used_rules P' \<le> card ({r. r < IFX_PCE_TBL_SIZE \<and> pce_tbl_used P ! r \<noteq> 0} \<union> A)"
    unfolding used_rules_def using A(2) by (intro card_mono) auto
  then show ?thesis unfolding used_rules_def using card_Un_le le_trans by blast
qed

lemma snoop_set_spec:
  assumes E: "pce_engine hwstep tbl keep S" and I: "core_inv tbl keep s" and S: "0x459 \<in> S"
    and m: "sn_eIGMP_Mode q \<le> SNOOP_MODE_FORWARD" and rob: "sn_nRobust q < 4" and u: "used_rules (st_pce (pce s)) + length (snoop_rules q (dev s)) \<le> 15"
  obtains s' h2 where "IFX_FLOW_MulticastSnoopCfgSet hwstep g q s = Some (IFX_SUCCESS, s')" "core_inv tbl keep s'"
    "dev s' = set_snoop q (dev s)" "rules_same (snoop_rows q) (st_pce (pce s)) (st_pce (pce s'))" "cores_same tbl (snoop_rows q) s s'"
    "\<forall>r\<in>set (snoop_rules q (dev s')). installed tbl r s'"
    "sn_eIGMP_Mode q = SNOOP_MODE_DISABLED \<longrightarrow> (\<forall>i\<in>{40..<48}. pce_tbl_used (st_pce (pce s')) ! i = 0)"
    "hw_of s' = wrfs (snoop_writes q) h2"
    "\<And>G. fst G = 0x459 \<Longrightarrow> rdf G h2 = rdf G (wrfs (mode_writes (sn_eIGMP_Mode q) (nTotalPortNumber (dev s))) (hw_of s))"
proof -
  let ?m = "sn_eIGMP_Mode q" and ?ws = "mode_writes (sn_eIGMP_Mode q) (nTotalPortNumber (dev s))"
  let ?s1 = "upd_dev (set_snoop q) (wrs ?ws s)"
  have n: "unat (nTotalPortNumber (dev s)) \<le> 12" using core_inv_simps(3) [OF I] by (simp add: dev_ok_def)
  have I0: "core_inv tbl keep (wrs ?ws s)" using mode_writes_rd(1) [OF n] by (rule wrs_inv [OF I])
  then have I1: "core_inv tbl keep ?s1"
    by (simp add: core_inv_def dev_ok_def vlan_wf_def vlan_mirror_def set_snoop_def)
  let ?act = "if ?m = SNOOP_MODE_AUTOLEARNING then write_rules hwstep g (map (learn_rule q (nClassOfService (igmp ?s1))) [0..<8]) ?s1
      else if ?m = SNOOP_MODE_FORWARD then write_rules hwstep g (map (forward_rule q (dev ?s1)) [1, 2, 4, 5, 6, 7]) ?s1
      else delete_rules hwstep [40..<48] ?s1"
  have u1: "used_rules (st_pce (pce ?s1)) + length (snoop_rules q (dev ?s1)) \<le> 15"
    using u by (simp add: snoop_rules_length)
  obtain s2 where s2: "?act = Some (IFX_SUCCESS, s2)" "core_inv tbl keep s2" "only_rules tbl S (snoop_rows q) ?s1 s2"
    "\<forall>r\<in>set (snoop_rules q (dev ?s1)). installed tbl r s2"
    "?m = SNOOP_MODE_DISABLED \<longrightarrow> (\<forall>i\<in>{40..<48}. pce_tbl_used (st_pce (pce s2)) ! i = 0)"
  proof (cases "?m = SNOOP_MODE_AUTOLEARNING \<or> ?m = SNOOP_MODE_FORWARD")
    case True
    obtain s2 where w: "write_rules hwstep g (snoop_rules q (dev ?s1)) ?s1 = Some (IFX_SUCCESS, s2)" "core_inv tbl keep s2"
      "only_rules tbl S (rule_no ` set (snoop_rules q (dev ?s1))) ?s1 s2"
      "\<forall>r\<in>set (snoop_rules q (dev ?s1)). installed tbl r s2"
      using write_rules_spec [OF E I1 snoop_rules_ok(1,2) u1, of g] by blast
    have "only_rules tbl S (snoop_rows q) ?s1 s2"
      by (rule only_rules_trans [OF only_rules_refl w(3) empty_subsetI snoop_rules_ok(4)])
    moreover have "?act = Some (IFX_SUCCESS, s2)" using w(1) True unfolding snoop_rules_def by (auto split: if_splits)
    ultimately show thesis using w(2,4) True by (intro that [of s2]) auto
  next
    case False
    then have d: "snoop_rules q (dev ?s1) = []" and R: "snoop_rows q = {40..<48}" by (simp_all add: snoop_rules_def snoop_rows_def)
    have i: "\<forall>i\<in>set [40..<48]. i < IFX_PCE_TBL_SIZE" "distinct [40..<48 :: nat]" by (simp_all add: IFX_PCE_TBL_SIZE_def)
    obtain s2 where w: "delete_rules hwstep [40..<48] ?s1 = Some (IFX_SUCCESS, s2)" "core_inv tbl keep s2"
      "only_rules tbl S (set [40..<48]) ?s1 s2" "\<forall>i\<in>set [40..<48]. pce_tbl_used (st_pce (pce s2)) ! i = 0"
      using delete_rules_spec [OF E I1 i] by blast
    have "?act = Some (IFX_SUCCESS, s2)" using w(1) False by (simp only: de_Morgan_disj if_False simp_thms)
    moreover have "only_rules tbl S (snoop_rows q) ?s1 s2" "\<forall>i\<in>{40..<48}. pce_tbl_used (st_pce (pce s2)) ! i = 0"
      using w(3,4) R by (simp_all only: set_upt)
    ultimately show thesis using w(2) d by (intro that [of s2]) simp_all
  qed
  let ?s' = "wrs (snoop_writes q) s2"
  have run: "IFX_FLOW_MulticastSnoopCfgSet hwstep g q s = Some (IFX_SUCCESS, ?s')"
    using m rob s2(1) unfolding IFX_FLOW_MulticastSnoopCfgSet_def Let_def by (simp only: not_less [symmetric] if_False simp_thms) simp
  have d: "dev s2 = set_snoop q (dev s)" using s2(3) by (simp add: only_rules_def)
  have fw: "fdisj F TBL_CTRL_BAS" if "(F, v) \<in> set (snoop_writes q)" for F v
    using that by (auto simp: snoop_writes_def fdisj.simps split: if_splits)
  show thesis
  proof (rule that [of ?s' "hw_of s2", OF run])
    show "core_inv tbl keep ?s'" by (rule wrs_inv [OF s2(2) fw])
    show "rules_same (snoop_rows q) (st_pce (pce s)) (st_pce (pce ?s'))" using s2(3) by (simp add: only_rules_def)
    show "cores_same tbl (snoop_rows q) s ?s'" using s2(3) by (simp add: only_rules_def cores_same_def)
    show "rdf G (hw_of s2) = rdf G (wrfs ?ws (hw_of s))" if "fst G = 0x459" for G
    proof -
      have "\<not> in_window (fst G)" unfolding that by (simp add: in_window_def)
      then have "rd G s2 = rd G ?s1" using that S by (intro only_rules_rd [OF s2(3)]) simp_all
      then show ?thesis by simp
    qed
  qed (use d s2(4,5) in simp_all)
qed

text \<open>The rules that the handlers write are those of the specification.\<close>

lemma learn_means:
  assumes "k < 8" "sn_eIGMP_Mode q = SNOOP_MODE_AUTOLEARNING" "installed tbl (learn_rule q c k) s"
    "snoop_spec SNOOP_MODE_AUTOLEARNING ! k = (n, protocol, msg, own, sn, pm)"
  shows "pce_tbl_used (st_pce (pce s)) ! unat n \<noteq> 0 \<and> (\<exists>r. core_of tbl s n = Some r \<and> pattern r = ip_pattern n protocol msg None \<and>
    \<not> own \<and> eSnoopingTypeAction (action r) = sn \<and> ePortMapAction (action r) = pm \<and>
    eVLAN_CrossAction (action r) = (if sn_bCrossVLAN q \<noteq> 0 then CROSS_VLAN_CROSS else CROSS_VLAN_DISABLE))"
proof -
  have "k = 0 \<or> k = 1 \<or> k = 2 \<or> k = 3 \<or> k = 4 \<or> k = 5 \<or> k = 6 \<or> k = 7" using assms(1) by linarith
  then show ?thesis
    using assms(3,4)
    by (elim disjE) (simp_all add: snoop_spec_def installed_def learn_rule_def Let_def normal_def without_ip_def zero_pattern_def
        ip_pattern_def cross_action_def, auto)
qed

lemma forward_means:
  assumes "sn_eIGMP_Mode q = SNOOP_MODE_FORWARD" "\<forall>k\<in>{1, 2, 4, 5, 6, 7}. installed tbl (forward_rule q (dev s) k) s"
  shows "snoops tbl q s"
  using assms(2)
  by (cases "snoop_port q (dev s)")
    (auto simp: snoops_def assms(1) snoop_spec_def installed_def forward_rule_def Let_def normal_def without_ip_def zero_pattern_def
      ip_pattern_def cross_action_def class_action_def snoop_port_def zero_action_def split: if_splits)

lemma snoop_rules_mean:
  assumes "\<forall>r\<in>set (snoop_rules q (dev s)). installed tbl r s" "sn_eIGMP_Mode q \<le> SNOOP_MODE_FORWARD"
  shows "snoops tbl q s"
proof -
  consider "sn_eIGMP_Mode q = SNOOP_MODE_AUTOLEARNING" | "sn_eIGMP_Mode q = SNOOP_MODE_FORWARD" | "sn_eIGMP_Mode q = SNOOP_MODE_DISABLED"
    using assms(2) by (auto simp: word_le_nat_alt word_unat_eq_iff) linarith
  then show ?thesis
  proof cases
    case 1
    have l: "length (snoop_spec SNOOP_MODE_AUTOLEARNING) = 8" by (simp add: snoop_spec_def)
    have i: "installed tbl (learn_rule q (nClassOfService (IGMP_Flags (dev s))) k) s" if "k < 8" for k
      using assms(1) that by (simp add: snoop_rules_def 1 del: upt.simps)
    show ?thesis
      unfolding snoops_def 1
    proof (intro ballI, clarify)
      fix n protocol msg own sn pm assume "(n, protocol, msg, own, sn, pm) \<in> set (snoop_spec SNOOP_MODE_AUTOLEARNING)"
      then obtain k where k: "k < 8" "snoop_spec SNOOP_MODE_AUTOLEARNING ! k = (n, protocol, msg, own, sn, pm)"
        using l by (metis in_set_conv_nth)
      show "pce_tbl_used (st_pce (pce s)) ! unat n \<noteq> 0 \<and> (\<exists>r. core_of tbl s n = Some r \<and>
         pattern r = ip_pattern n protocol msg
           (if own then Some (case snoop_port q (dev s) of Some i \<Rightarrow> i | None \<Rightarrow> if n = 41 then 0 else sn_nForwardPortId q) else None) \<and>
         eSnoopingTypeAction (action r) = sn \<and> ePortMapAction (action r) = pm \<and>
         eVLAN_CrossAction (action r) = (if sn_bCrossVLAN q \<noteq> 0 then CROSS_VLAN_CROSS else CROSS_VLAN_DISABLE) \<and>
         (SNOOP_MODE_AUTOLEARNING = SNOOP_MODE_FORWARD \<longrightarrow>
            nForwardPortMap (action r) = (case snoop_port q (dev s) of Some i \<Rightarrow> push_bit (unat i) 1 | None \<Rightarrow> 0)))"
        using learn_means [OF k(1) 1 i [OF k(1)] k(2)] by auto
    qed
  next
    case 2
    have "\<forall>k\<in>{1, 2, 4, 5, 6, 7}. installed tbl (forward_rule q (dev s) k) s" using assms(1) by (simp add: snoop_rules_def 2)
    then show ?thesis by (rule forward_means [OF 2])
  next
    case 3 then show ?thesis by (simp add: snoops_def snoop_spec_def)
  qed
qed

text \<open>Learning first, then forwarding with no router port: the first and the fourth rule of learning are left.\<close>

lemma snoop_left:
  assumes E: "pce_engine hwstep tbl keep S" and I: "core_inv tbl keep s" and S: "0x459 \<in> S"
    and q: "sn_eIGMP_Mode q = SNOOP_MODE_AUTOLEARNING" "sn_nRobust q < 4" and q': "sn_eIGMP_Mode q' = SNOOP_MODE_FORWARD" "sn_nRobust q' < 4"
    and u: "used_rules (st_pce (pce s)) = 0"
  obtains s1 s2 where "IFX_FLOW_MulticastSnoopCfgSet hwstep g q s = Some (IFX_SUCCESS, s1)"
    "IFX_FLOW_MulticastSnoopCfgSet hwstep g q' s1 = Some (IFX_SUCCESS, s2)" "core_inv tbl keep s2"
    "\<forall>k\<in>{0, 3}. installed tbl (learn_rule q (sn_nClassOfService q) k) s2"
    "\<forall>r\<in>set (snoop_rules q' (dev s2)). installed tbl r s2"
proof -
  obtain s1 where s1: "IFX_FLOW_MulticastSnoopCfgSet hwstep g q s = Some (IFX_SUCCESS, s1)" "core_inv tbl keep s1"
    "dev s1 = set_snoop q (dev s)" "rules_same (snoop_rows q) (st_pce (pce s)) (st_pce (pce s1))" "cores_same tbl (snoop_rows q) s s1"
    "\<forall>r\<in>set (snoop_rules q (dev s1)). installed tbl r s1"
    by (rule snoop_set_spec [OF E I S _ q(2), of g]) (use q(1) u in \<open>simp_all add: snoop_rules_def\<close>)
  have "used_rules (st_pce (pce s1)) \<le> 8"
    using used_rules_same [OF s1(4)] u by (simp add: snoop_rows_def q(1))
  then have u1: "used_rules (st_pce (pce s1)) + length (snoop_rules q' (dev s1)) \<le> 15"
    by (simp add: snoop_rules_def q'(1))
  obtain s2 where s2: "IFX_FLOW_MulticastSnoopCfgSet hwstep g q' s1 = Some (IFX_SUCCESS, s2)" "core_inv tbl keep s2"
    "rules_same (snoop_rows q') (st_pce (pce s1)) (st_pce (pce s2))" "cores_same tbl (snoop_rows q') s1 s2"
    "\<forall>r\<in>set (snoop_rules q' (dev s2)). installed tbl r s2"
    by (rule snoop_set_spec [OF E s1(2) S _ q'(2) u1, of g]) (simp_all add: q'(1))
  have "installed tbl (learn_rule q (sn_nClassOfService q) k) s2" if "k \<in> {0, 3}" for k
  proof -
    have k: "k < 8" "rule_no (learn_rule q (sn_nClassOfService q) k) \<notin> snoop_rows q'"
      "rule_no (learn_rule q (sn_nClassOfService q) k) < IFX_PCE_TBL_SIZE"
      using that by (auto simp: learn_rule_ok(1) snoop_rows_def q'(1) IFX_PCE_TBL_SIZE_def)
    have "installed tbl (learn_rule q (sn_nClassOfService q) k) s1"
      using s1(6) k(1) by (simp add: snoop_rules_def q(1) s1(3) set_snoop_def del: upt.simps)
    then show ?thesis using installed_kept [OF s2(3,4) k(2)] k(1,3) by simp
  qed
  then show thesis using that [OF s1(1) s2(1,2)] s2(5) by blast
qed

text \<open>What a read returns afterwards. Learning of router ports and suppression belong to hardware
  snooping; neither handler touches what is done with unknown groups. For the CPU a port map is
  reported in place of the port of the request.\<close>

definition reported_port :: "u8 \<Rightarrow> IFX_ETHSW_multicastSnoopCfg \<Rightarrow> u8" where
  "reported_port cpu q = (if sn_eForwardPort q = IFX_ETHSW_PORT_FORWARD_CPU then push_bit (unat cpu) 1 else sn_nForwardPortId q)"

definition snoop_kept :: "u8 \<Rightarrow> IFX_ETHSW_multicastSnoopCfg \<Rightarrow> IFX_ETHSW_multicastSnoopCfg \<Rightarrow> IFX_ETHSW_multicastSnoopCfg" where
  "snoop_kept cpu old q = (if sn_eIGMP_Mode q = SNOOP_MODE_AUTOLEARNING
     then q\<lparr>sn_nForwardPortId := reported_port cpu q, sn_bMulticastUnknownDrop := sn_bMulticastUnknownDrop old\<rparr>
     else q\<lparr>sn_nForwardPortId := reported_port cpu q, sn_bMulticastUnknownDrop := sn_bMulticastUnknownDrop old,
       sn_eSuppressionAggregation := sn_eSuppressionAggregation old, sn_bFastLeave := 0, sn_bLearningRouter := 0\<rparr>)"

definition snoop_cfg_ok :: "IFX_ETHSW_multicastSnoopCfg \<Rightarrow> bool" where
  "snoop_cfg_ok q \<longleftrightarrow> sn_eIGMP_Mode q \<le> SNOOP_MODE_FORWARD \<and> sn_nRobust q < 4 \<and> sn_eForwardPort q < 0x10000 \<and>
     sn_eSuppressionAggregation q \<le> MULTICAST_TRANSPARENT \<and>
     sn_bFastLeave q \<le> 1 \<and> sn_bLearningRouter q \<le> 1"

lemma snoop_set_get:
  assumes q: "snoop_cfg_ok q" and d: "dev s' = set_snoop q (dev s)" and h: "hw_of s' = wrfs (snoop_writes q) h2"
    and h2: "\<And>G. fst G = 0x459 \<Longrightarrow> rdf G h2 = rdf G (wrfs (mode_writes (sn_eIGMP_Mode q) (nTotalPortNumber (dev s))) (hw_of s))"
    and n: "unat (nTotalPortNumber (dev s)) \<le> 12"
  shows "IFX_FLOW_MulticastSnoopCfgGet r s' = (IFX_SUCCESS, snoop_kept (nCPU_Port (dev s)) (snd (IFX_FLOW_MulticastSnoopCfgGet r s)) q)"
proof -
  have c16: "ucast (ucast x :: u16) = x" if "x < 0x10000" for x :: u32
  proof -
    have "unat (ucast (ucast x :: u16) :: u32) = unat x"
      using that by (simp add: word_less_nat_alt unsigned_ucast_eq unsigned_take_bit_eq take_bit_nat_eq_self)
    then show ?thesis by (simp only: word_unat_eq_iff)
  qed
  have rob: "ucast (sn_nRobust q) AND mask 2 = (ucast (sn_nRobust q) :: u32)"
    using q by (intro less_mask_eq) (simp add: snoop_cfg_ok_def word_less_nat_alt unat_ucast_up)
  have qi: "ucast (x :: u8) AND mask 8 = (ucast x :: u32)" and c8: "ucast (ucast x :: u32) = x" for x :: u8
    by (rule bit_word_eqI, auto simp: bit_simps dest: bit_imp_le_length)+
  let ?A = "sn_eIGMP_Mode q = SNOOP_MODE_AUTOLEARNING" and ?r = "sn_eSuppressionAggregation q"
  have mw: "rdf G (wrfs (mode_writes (sn_eIGMP_Mode q) (nTotalPortNumber (dev s))) (hw_of s)) = rd G s"
    if "fst G = 0x459" "fdisj VR9_PCE_IGMP_CTRL_SRPEN G" for G by (rule mode_writes_rd(2) [OF n that])
  have r: "rd VR9_PCE_IGMP_CTRL_ROB s' = ucast (sn_nRobust q) AND mask 2" "rd VR9_PCE_IGMP_CTRL_DMRT s' = ucast (sn_nQueryInterval q) AND mask 8"
    "rd VR9_PCE_IGMP_CTRL_FLEAVE s' = (if ?A \<and> sn_bFastLeave q = 1 then 1 else 0)"
    by (cases ?A; simp add: h snoop_writes_def field_simps_hw mask_eq_exp_minus_1)+
  have a: "rd VR9_PCE_IGMP_CTRL_REPSUP s' = (if ?r \<le> MULTICAST_REPORT then 1 else 0)" "rd VR9_PCE_IGMP_CTRL_JASUP s' = (if ?r = MULTICAST_REPORT_JOIN then 1 else 0)"
    "rd VR9_PCE_IGMP_CTRL_SRPEN s' = sn_bLearningRouter q AND mask 1" if ?A
    using that by (simp_all add: h snoop_writes_def field_simps_hw mask_eq_exp_minus_1)
  have b: "rd VR9_PCE_IGMP_CTRL_REPSUP s' = rd VR9_PCE_IGMP_CTRL_REPSUP s" "rd VR9_PCE_IGMP_CTRL_JASUP s' = rd VR9_PCE_IGMP_CTRL_JASUP s"
    "rd VR9_PCE_IGMP_CTRL_SRPEN s' = 0" if "\<not> ?A"
    using that mode_writes_rd(3) [OF n, of "sn_eIGMP_Mode q" "hw_of s"] by (simp_all add: h snoop_writes_def field_simps_hw h2 mw)
  have i: "igmp s' = IGMP_Flags (set_snoop q (dev s))" by (simp add: d)
  have f: "igmp s' = IGMP_Flags (set_snoop q (dev s))" by (simp add: d)
  have fl: "ucast (eIGMP_Mode (igmp s')) = sn_eIGMP_Mode q" "bIGMPv3 (igmp s') = sn_bIGMPv3 q" "bCrossVLAN (igmp s') = sn_bCrossVLAN q"
    "ucast (ig_eForwardPort (igmp s')) = sn_eForwardPort q" "ig_nForwardPortId (igmp s') = reported_port (nCPU_Port (dev s)) q"
    "nClassOfService (igmp s') = sn_nClassOfService q"
    using q unfolding f by (auto simp: set_snoop_def snoop_cfg_ok_def reported_port_def intro!: c16 simp: word_le_nat_alt word_less_nat_alt)
  have two: "x \<le> 1 \<Longrightarrow> x = 0 \<or> x = 1" "x \<le> 2 \<Longrightarrow> x = 0 \<or> x = 1 \<or> x = 2" for x :: u32
    by (simp_all add: word_le_nat_alt word_unat_eq_iff) arith+
  have rg: "?r = 0 \<or> ?r = 1 \<or> ?r = 2" "sn_bFastLeave q = 0 \<or> sn_bFastLeave q = 1" "sn_bLearningRouter q AND mask 1 = sn_bLearningRouter q"
    using q two(1) [of "sn_bFastLeave q"] two(2) [of ?r] two(1) [of "sn_bLearningRouter q"] by (auto simp: snoop_cfg_ok_def)
  show ?thesis
  proof (cases ?A)
    case True
    have "(if (if ?r \<le> MULTICAST_REPORT then 1 else 0) = (0::u32) \<and> (if ?r = MULTICAST_REPORT_JOIN then 1 else 0) = (0::u32) then MULTICAST_TRANSPARENT
        else if (if ?r \<le> MULTICAST_REPORT then 1 else 0) = (1::u32) \<and> (if ?r = MULTICAST_REPORT_JOIN then 1 else 0) = (0::u32) then MULTICAST_REPORT
        else if (if ?r \<le> MULTICAST_REPORT then 1 else 0) = (1::u32) \<and> (if ?r = MULTICAST_REPORT_JOIN then 1 else 0) = (1::u32) then MULTICAST_REPORT_JOIN
        else MULTICAST_TRANSPARENT) = ?r"
      using rg(1) by (auto simp: word_le_nat_alt)
    then show ?thesis
      using rg(2) True unfolding IFX_FLOW_MulticastSnoopCfgGet_def Let_def r a [OF True] fl rob qi c8 rg(3) snoop_kept_def if_P [OF True]
      by (simp only: simp_thms if_True if_False) (cases q, cases r, auto)
  next
    case False
    then show ?thesis
      unfolding IFX_FLOW_MulticastSnoopCfgGet_def Let_def r b [OF False] fl rob qi c8 snoop_kept_def if_not_P [OF False] by simp
  qed
qed

end
