(* ===== verification/Core_Members.thy ===== *)
theory Core_Members
  imports Core_Snooping
begin

text \<open>
  The groups that hardware snooping learns. The rows of table 14 together give each group the set of
  its member ports; a call adds a port to the set of a group or removes it.
\<close>

unbundle bit_operations_syntax

section \<open>Rows as sets of members\<close>

text \<open>The group of a row, and whether it gives the group a port.\<close>

definition img_gda :: "pce_img \<Rightarrow> u32" where
  "img_gda m = push_bit 16 (ucast (i_key m ! 1)) OR ucast (i_key m ! 0)"

definition gives :: "pce_img \<Rightarrow> u32 \<Rightarrow> nat \<Rightarrow> bool" where
  "gives m g p \<longleftrightarrow> i_valid m \<noteq> 0 \<and> img_gda m = g \<and> bit (i_val m ! 0) p"

definition members_of :: "(nat \<Rightarrow> pce_img) \<Rightarrow> u32 \<Rightarrow> nat set" where
  "members_of T g = {p. \<exists>i<IFX_FLOW_MULTICAST_HW_TBL_SIZE. gives (T i) g p}"

abbreviation members :: "('p \<Rightarrow> nat \<Rightarrow> nat \<Rightarrow> pce_img) \<Rightarrow> 'p core \<Rightarrow> u32 \<Rightarrow> nat set" where
  "members tbl s \<equiv> members_of (dtbl tbl s 14)"

text \<open>Free rows have no ports; the device stores what identifies a row as written.\<close>

definition free_empty :: "(nat \<Rightarrow> pce_img) \<Rightarrow> bool" where
  "free_empty T \<longleftrightarrow> (\<forall>i<IFX_FLOW_MULTICAST_HW_TBL_SIZE. i_valid (T i) = 0 \<longrightarrow> i_val (T i) ! 0 = 0)"

definition keeps_groups :: "(nat \<Rightarrow> pce_img \<Rightarrow> pce_img) \<Rightarrow> bool" where
  "keeps_groups keep \<longleftrightarrow> (\<forall>m. i_valid (keep 14 m) = i_valid m \<and> i_key (keep 14 m) ! 0 = i_key m ! 0 \<and>
     i_key (keep 14 m) ! 1 = i_key m ! 1 \<and> i_val (keep 14 m) ! 0 = i_val m ! 0)"

definition valid_rows :: "(nat \<Rightarrow> pce_img) \<Rightarrow> nat set" where
  "valid_rows T = {i. i < IFX_FLOW_MULTICAST_HW_TBL_SIZE \<and> i_valid (T i) \<noteq> 0}"

lemma members_add:
  assumes i: "i < IFX_FLOW_MULTICAST_HW_TBL_SIZE" and m: "\<And>g' q. gives m g' q \<longleftrightarrow> gives (T i) g' q \<or> g' = g \<and> q = p"
  shows "members_of (T(i := m)) = (members_of T)(g := insert p (members_of T g))"
proof (rule ext, rule set_eqI)
  fix g' q
  have "(q \<in> members_of (T(i := m)) g') \<longleftrightarrow> q \<in> members_of T g' \<or> g' = g \<and> q = p"
    using i m by (auto simp: members_of_def) metis+
  then show "(q \<in> members_of (T(i := m)) g') \<longleftrightarrow> q \<in> ((members_of T)(g := insert p (members_of T g))) g'" by auto
qed

lemma members_less:
  assumes "\<And>i g' q. i < IFX_FLOW_MULTICAST_HW_TBL_SIZE \<Longrightarrow> gives (U i) g' q \<longleftrightarrow> gives (T i) g' q \<and> \<not> (g' = g \<and> q = p)"
  shows "members_of U = (members_of T)(g := members_of T g - {p})"
  using assms by (auto simp: members_of_def fun_eq_iff)

lemma join_bit: "bit (push_bit 16 (ucast (b :: u16)) OR ucast (a :: u16) :: u32) n \<longleftrightarrow> (if n < 16 then bit a n else bit b (n - 16))"
  by (auto simp: bit_simps dest: bit_imp_le_length)

lemma low_mask: "(0xFFFF :: u32) = mask 16"
  by (simp add: mask_eq_exp_minus_1)

lemma gda_halves: "push_bit 16 (ucast (ucast (drop_bit 16 g AND 0xFFFF :: u32) :: u16)) OR ucast (ucast (g AND 0xFFFF :: u32) :: u16) = (g :: u32)"
proof (rule bit_word_eqI)
  fix n assume n: "n < LENGTH(32)"
  have "n - 16 < 16" "\<not> n < 16 \<Longrightarrow> 16 + (n - 16) = n" using n by simp_all
  then show "bit (push_bit 16 (ucast (ucast (drop_bit 16 g AND 0xFFFF :: u32) :: u16)) OR ucast (ucast (g AND 0xFFFF :: u32) :: u16) :: u32) n = bit g n"
    unfolding join_bit unfolding low_mask by (simp add: bit_simps)
qed

lemma gda_eq: "ucast (a :: u16) = g AND (0xFFFF :: u32) \<and> ucast (b :: u16) = drop_bit 16 g AND 0xFFFF \<longleftrightarrow> push_bit 16 (ucast b) OR ucast a = g"
proof
  assume h: "ucast a = g AND (0xFFFF :: u32) \<and> ucast b = drop_bit 16 g AND 0xFFFF"
  have "a = ucast (ucast a :: u32)" "b = ucast (ucast b :: u32)" by simp_all
  with h have "a = ucast (g AND 0xFFFF)" "b = ucast (drop_bit 16 g AND 0xFFFF)" by simp_all
  then show "push_bit 16 (ucast b) OR ucast a = g" by (simp only: gda_halves)
next
  assume g: "push_bit 16 (ucast b) OR ucast a = g"
  have B: "bit g n = (if n < 16 then bit a n else bit b (n - 16))" for n unfolding g [symmetric] join_bit ..
  have n: "\<not> bit (x :: u16) n" if "\<not> n < 16" for x n using that bit_imp_le_length [of x n] by auto
  have "ucast a = g AND (mask 16 :: u32)" "ucast b = drop_bit 16 g AND (mask 16 :: u32)"
    by (rule bit_word_eqI, use n in \<open>auto simp: bit_simps B\<close>)+
  then show "ucast a = g AND (0xFFFF :: u32) \<and> ucast b = drop_bit 16 g AND 0xFFFF" by (simp only: low_mask simp_thms)
qed

lemma bit_test: "drop_bit n (x :: 'a :: len word) AND 1 = 1 \<longleftrightarrow> bit x n"
  by (simp add: bit_iff_odd_drop_bit and_one_eq odd_iff_mod_2_eq_one)

section \<open>Access to the rows\<close>

text \<open>Only table 14 of the device may have changed.\<close>

definition groups_only :: "('p \<Rightarrow> nat \<Rightarrow> nat \<Rightarrow> pce_img) \<Rightarrow> 16 word set \<Rightarrow> 'p core \<Rightarrow> 'p core \<Rightarrow> bool" where
  "groups_only tbl S s s' \<longleftrightarrow> dev s' = dev s \<and> st_pce (pce s') = st_pce (pce s) \<and> st_ent (pce s') = st_ent (pce s) \<and>
     idle (hw_of s') \<and> (\<forall>t. t \<noteq> 14 \<longrightarrow> dtbl tbl s' t = dtbl tbl s t) \<and>
     (\<forall>off\<in>S. \<not> in_window off \<longrightarrow> regs (hw_of s') off = regs (hw_of s) off)"

lemma groups_only_refl: "idle (hw_of s) \<Longrightarrow> groups_only tbl S s s"
  by (simp add: groups_only_def)

lemma groups_only_trans: "groups_only tbl S s t \<Longrightarrow> groups_only tbl S t u \<Longrightarrow> groups_only tbl S s u"
  unfolding groups_only_def by auto

lemma groups_only_inv: "groups_only tbl S s s' \<Longrightarrow> core_inv tbl keep s \<Longrightarrow> core_inv tbl keep s'"
proof -
  assume m: "groups_only tbl S s s'" and I: "core_inv tbl keep s"
  have "tno k \<noteq> 14" for k by (cases k) simp_all
  then have d: "dtbl tbl s' (tno k) i = dtbl tbl s (tno k) i" for k i using m by (simp add: groups_only_def)
  have "rules_inv tbl keep (pce s')"
    by (rule rules_inv_frame [OF _ _ _ d, simplified]) (use I m in \<open>simp_all add: core_inv_def groups_only_def\<close>)
  with I m show ?thesis by (simp add: core_inv_def vlan_mirror_def groups_only_def)
qed

lemma group_read:
  assumes E: "pce_engine hwstep tbl keep S" and s: "idle (hw_of s)" and e: "e_table e = PCE_MULTICAST_HW_INDEX" "entry_wf e" and i: "i < 64"
  obtains s' where "row_read hwstep (e\<lparr>e_index := of_nat i\<rparr>) s = Some (with_img (dtbl tbl s 14 i) (e\<lparr>e_index := of_nat i\<rparr>), s')"
    "groups_only tbl S s s'" "dtbl tbl s' 14 = dtbl tbl s 14" "entry_wf (with_img (dtbl tbl s 14 i) (e\<lparr>e_index := of_nat i\<rparr>))"
    "length (i_key (dtbl tbl s 14 i)) = 9"
proof (rule row_read_spec [OF E s, of "e\<lparr>e_index := of_nat i\<rparr>" 14 i])
  show "unat (e_index (e\<lparr>e_index := of_nat i\<rparr>)) = i" "i < pce_table_size 14"
    using i by (simp_all add: unat_of_nat_small pce_table_size_def)
  fix h assume h: "row_read hwstep (e\<lparr>e_index := of_nat i\<rparr>) s = Some (with_img (dtbl tbl s 14 i) (e\<lparr>e_index := of_nat i\<rparr>), upd_hw (\<lambda>_. h) s)"
    "idle h" "driver_tbl tbl h = dtbl tbl s" "length (i_key (dtbl tbl s 14 i)) = 9" "length (i_val (dtbl tbl s 14 i)) = 7"
    "\<And>off. off \<in> S \<Longrightarrow> \<not> in_window off \<Longrightarrow> regs h off = regs (hw_of s) off"
  show thesis
    by (rule that [OF h(1)]) (use h e in \<open>simp_all add: groups_only_def entry_wf_def with_img_def\<close>)
qed (use e in simp_all)

lemma group_write:
  assumes E: "pce_engine hwstep tbl keep S" and s: "idle (hw_of s)" and e: "e_table e = PCE_MULTICAST_HW_INDEX" "entry_wf e"
    and i: "e_index e = of_nat i" "i < 64"
  obtains s' where "row_write hwstep e s = Some s'" "groups_only tbl S s s'"
    "dtbl tbl s' 14 = (dtbl tbl s 14)(i := keep 14 (img_of e))"
proof (rule row_write_spec [OF E s, of e 14 i])
  show "unat (e_index e) = i" "i < pce_table_size 14"
    using i by (simp_all add: unat_of_nat_small pce_table_size_def)
  fix h assume h: "row_write hwstep e s = Some (upd_hw (\<lambda>_. h) s)" "idle h"
    "driver_tbl tbl h = set_row (dtbl tbl s) 14 i (keep 14 (img_of e))"
    "\<And>off. off \<in> S \<Longrightarrow> \<not> in_window off \<Longrightarrow> regs h off = regs (hw_of s) off"
  show thesis
    by (rule that [OF h(1)]) (use h in \<open>simp_all add: groups_only_def set_row_def\<close>)
qed (use e in simp_all)

lemma hw_find_spec:
  assumes E: "pce_engine hwstep tbl keep S" and P: "\<forall>m e. length (i_key m) = 9 \<longrightarrow> P (with_img m e) = Q m"
  shows "idle (hw_of s) \<Longrightarrow> e_table e = PCE_MULTICAST_HW_INDEX \<Longrightarrow> entry_wf e \<Longrightarrow> set is \<subseteq> {..<64} \<Longrightarrow>
    \<exists>e' s'. hw_find hwstep P is e s = Some (List.find (\<lambda>i. Q (dtbl tbl s 14 i)) is, e', s') \<and>
      groups_only tbl S s s' \<and> dtbl tbl s' 14 = dtbl tbl s 14 \<and> e_table e' = PCE_MULTICAST_HW_INDEX \<and> entry_wf e' \<and>
      (\<forall>i. List.find (\<lambda>i. Q (dtbl tbl s 14 i)) is = Some i \<longrightarrow>
        length (i_key (dtbl tbl s 14 i)) = 9 \<and> (\<exists>e0. e' = with_img (dtbl tbl s 14 i) e0))"
proof (induction "is" arbitrary: e s)
  case Nil then show ?case by (simp add: groups_only_refl)
next
  case (Cons i "is")
  let ?e = "with_img (dtbl tbl s 14 i) (e\<lparr>e_index := of_nat i\<rparr>)"
  have i: "i < 64" "set is \<subseteq> {..<64}" using Cons.prems(4) by auto
  obtain t where t: "row_read hwstep (e\<lparr>e_index := of_nat i\<rparr>) s = Some (?e, t)" "groups_only tbl S s t"
    "dtbl tbl t 14 = dtbl tbl s 14" "entry_wf ?e" "length (i_key (dtbl tbl s 14 i)) = 9"
    by (rule group_read [OF E Cons.prems(1-3) i(1)])
  have e: "e_table ?e = PCE_MULTICAST_HW_INDEX" using Cons.prems(2) by (simp add: with_img_def)
  have it: "idle (hw_of t)" using t(2) by (simp add: groups_only_def)
  show ?case
  proof (cases "Q (dtbl tbl s 14 i)")
    case True
    then show ?thesis using t e P t(5) by (auto simp: t(1))
  next
    case False
    then show ?thesis
      using Cons.IH [OF it e t(4) i(2)] groups_only_trans [OF t(2)] P t(5) by (auto simp: t(1,3))
  qed
qed

section \<open>Adding a member\<close>

lemma hw_group_img: "\<forall>m e. length (i_key m) = 9 \<longrightarrow> hw_group g (with_img m e) = (i_valid m \<noteq> 0 \<and> img_gda m = g)"
  unfolding hw_group_def gda_eq by (simp add: with_img_def img_gda_def nth_append)

lemma free_img: "\<forall>m e. length (i_key m) = 9 \<longrightarrow> (e_valid (with_img m e) = 0) = (i_valid m = 0)"
  by (simp add: with_img_def)

lemmas find_known = hw_find_spec [OF _ hw_group_img]
lemmas find_free = hw_find_spec [OF _ free_img]

lemma gives_row:
  assumes k: "keeps_groups keep" and e: "entry_wf (with_img m e)" and p: "p < 16" "unat (port :: u8) = p"
  shows "gives (keep 14 (img_of (hw_row g port i (with_img m e)))) g' q \<longleftrightarrow> g' = g \<and> (bit (i_val m ! 0) q \<or> q = p)"
proof -
  let ?m = "img_of (hw_row g port i (with_img m e))"
  have l: "length (e_key (with_img m e)) = 16" "length (i_val m) = 7" using e by (simp_all add: entry_wf_def with_img_def)
  have "img_gda ?m = g" using l(1) by (simp add: img_gda_def img_of_def hw_row_def gda_halves)
  moreover have "bit (i_val ?m ! 0) q \<longleftrightarrow> bit (i_val m ! 0) q \<or> q = p"
    using l(2) p by (auto simp: img_of_def hw_row_def with_img_def bit_simps)
  moreover have "i_valid ?m = 1" by (simp add: img_of_def hw_row_def)
  ultimately show ?thesis using k by (auto simp: gives_def keeps_groups_def img_gda_def)
qed

lemma group_write_row:
  assumes E: "pce_engine hwstep tbl keep S" and K: "keeps_groups keep" and s: "idle (hw_of s)" "free_empty (dtbl tbl s 14)"
    and e: "entry_wf (with_img (dtbl tbl s 14 i) e)" and i: "i < 64" and p: "unat port < 16"
    and r: "i_valid (dtbl tbl s 14 i) = 0 \<or> img_gda (dtbl tbl s 14 i) = g"
  obtains s' where "row_write hwstep (hw_row g port i (with_img (dtbl tbl s 14 i) e)) s = Some s'" "groups_only tbl S s s'"
    "free_empty (dtbl tbl s' 14)" "members tbl s' = (members tbl s)(g := insert (unat port) (members tbl s g))"
proof -
  let ?m = "dtbl tbl s 14 i"
  let ?r = "hw_row g port i (with_img ?m e)"
  have w: "e_table ?r = PCE_MULTICAST_HW_INDEX" "entry_wf ?r" "e_index ?r = of_nat i"
    using e by (simp_all add: hw_row_def entry_wf_def)
  obtain s' where s': "row_write hwstep ?r s = Some s'" "groups_only tbl S s s'"
    "dtbl tbl s' 14 = (dtbl tbl s 14)(i := keep 14 (img_of ?r))" by (rule group_write [OF E s(1) w i])
  have "gives (keep 14 (img_of ?r)) g' q \<longleftrightarrow> gives ?m g' q \<or> g' = g \<and> q = unat port" for g' q
    unfolding gives_row [OF K e p refl] using r s(2) i by (auto simp: gives_def free_empty_def)
  then have "members tbl s' = (members tbl s)(g := insert (unat port) (members tbl s g))"
    unfolding s'(3) by (rule members_add [OF i])
  moreover have "i_valid (keep 14 (img_of ?r)) = 1" using K by (simp add: keeps_groups_def img_of_def hw_row_def)
  then have "free_empty (dtbl tbl s' 14)" using s(2) unfolding s'(3) by (simp add: free_empty_def)
  ultimately show thesis using that [OF s'(1,2)] by blast
qed

lemma learned_add_spec:
  assumes E: "pce_engine hwstep tbl keep S" and K: "keeps_groups keep" and s: "idle (hw_of s)" "free_empty (dtbl tbl s 14)"
    and q: "bIGMPv3 (igmp s) \<noteq> 1" "\<not> v6 q" and p: "unat (mt_nPortId q) < 16"
  shows "if \<exists>i<64. i_valid (dtbl tbl s 14 i) = 0 \<or> img_gda (dtbl tbl s 14 i) = nIPv4 (mt_uIP_Gda q)
    then \<exists>s'. hw_group_add hwstep q s = Some (IFX_SUCCESS, s') \<and> groups_only tbl S s s' \<and> free_empty (dtbl tbl s' 14) \<and>
      members tbl s' = (members tbl s)(nIPv4 (mt_uIP_Gda q) := insert (unat (mt_nPortId q)) (members tbl s (nIPv4 (mt_uIP_Gda q))))
    else \<exists>s'. hw_group_add hwstep q s = Some (IFX_ERROR, s') \<and> groups_only tbl S s s' \<and> dtbl tbl s' 14 = dtbl tbl s 14"
proof -
  let ?g = "nIPv4 (mt_uIP_Gda q)" and ?T = "dtbl tbl s 14" and ?is = "[0..<64 :: nat]"
  let ?f = "List.find (\<lambda>i. i_valid (?T i) \<noteq> 0 \<and> img_gda (?T i) = ?g) ?is" and ?n = "List.find (\<lambda>i. i_valid (?T i) = 0) ?is"
  let ?e = "zero_entry\<lparr>e_table := PCE_MULTICAST_HW_INDEX\<rparr>"
  have r: "set ?is \<subseteq> {..<64}" by auto
  have wf: "entry_wf ?e" by (simp add: entry_wf_def zero_entry_def)
  obtain e t where t: "hw_find hwstep (hw_group ?g) ?is ?e s = Some (?f, e, t)" "groups_only tbl S s t" "dtbl tbl t 14 = ?T"
    "e_table e = PCE_MULTICAST_HW_INDEX" "entry_wf e" "\<forall>i. ?f = Some i \<longrightarrow> length (i_key (?T i)) = 9 \<and> (\<exists>e0. e = with_img (?T i) e0)"
    using find_known [OF E s(1) _ wf r, of ?g] by auto
  have it: "idle (hw_of t)" "free_empty (dtbl tbl t 14)" using t(2,3) s(2) by (simp_all add: groups_only_def)
  have m: "members tbl t = members tbl s" by (simp add: t(3))
  consider (known) i where "?f = Some i" | (new) i where "?f = None" "?n = Some i" | (full) "?f = None" "?n = None"
    by (cases ?f; cases ?n) auto
  then show ?thesis
  proof cases
    case known
    then have i: "i < 64" "img_gda (?T i) = ?g" by (auto simp: find_Some_iff)
    obtain e0 where e: "e = with_img (dtbl tbl t 14 i) e0" using t(3,6) known by auto
    have w: "entry_wf (with_img (dtbl tbl t 14 i) e0)" using t(5) e by simp
    have r': "i_valid (dtbl tbl t 14 i) = 0 \<or> img_gda (dtbl tbl t 14 i) = ?g" using i(2) t(3) by simp
    obtain s' where s': "row_write hwstep (hw_row ?g (mt_nPortId q) i e) t = Some s'" "groups_only tbl S t s'"
      "free_empty (dtbl tbl s' 14)" "members tbl s' = (members tbl t)(?g := insert (unat (mt_nPortId q)) (members tbl t ?g))"
      unfolding e by (rule group_write_row [OF E K it w i(1) p r'])
    have "hw_group_add hwstep q s = Some (IFX_SUCCESS, s')"
      using q by (simp add: hw_group_add_def Let_def t(1) known s'(1))
    then show ?thesis using i s'(3,4) groups_only_trans [OF t(2) s'(2)] unfolding m by auto
  next
    case new
    then have i: "i < 64" "i_valid (?T i) = 0" by (auto simp: find_Some_iff)
    obtain e' u where u: "hw_find hwstep (\<lambda>e. e_valid e = 0) ?is e t = Some (?n, e', u)" "groups_only tbl S t u" "dtbl tbl u 14 = ?T"
      "e_table e' = PCE_MULTICAST_HW_INDEX" "entry_wf e'" "\<forall>i. ?n = Some i \<longrightarrow> length (i_key (?T i)) = 9 \<and> (\<exists>e0. e' = with_img (?T i) e0)"
      using find_free [OF E it(1) t(4,5) r] unfolding t(3) by auto
    have iu: "idle (hw_of u)" "free_empty (dtbl tbl u 14)" using u(2,3) s(2) by (simp_all add: groups_only_def)
    obtain e0 where e: "e' = with_img (dtbl tbl u 14 i) e0" using u(3,6) new by auto
    have w: "entry_wf (with_img (dtbl tbl u 14 i) e0)" using u(5) e by simp
    have r': "i_valid (dtbl tbl u 14 i) = 0 \<or> img_gda (dtbl tbl u 14 i) = ?g" using i(2) u(3) by simp
    obtain s' where s': "row_write hwstep (hw_row ?g (mt_nPortId q) i e') u = Some s'" "groups_only tbl S u s'"
      "free_empty (dtbl tbl s' 14)" "members tbl s' = (members tbl u)(?g := insert (unat (mt_nPortId q)) (members tbl u ?g))"
      unfolding e by (rule group_write_row [OF E K iu w i(1) p r'])
    have "hw_group_add hwstep q s = Some (IFX_SUCCESS, s')"
      using q by (simp add: hw_group_add_def Let_def t(1) new u(1) s'(1))
    moreover have "members tbl u = members tbl s" by (simp add: u(3))
    ultimately show ?thesis using i s'(3,4) groups_only_trans [OF groups_only_trans [OF t(2) u(2)] s'(2)] by auto
  next
    case full
    obtain e' u where u: "hw_find hwstep (\<lambda>e. e_valid e = 0) ?is e t = Some (?n, e', u)" "groups_only tbl S t u" "dtbl tbl u 14 = ?T"
      using find_free [OF E it(1) t(4,5) r] unfolding t(3) by auto
    have "hw_group_add hwstep q s = Some (IFX_ERROR, u)"
      using q by (simp add: hw_group_add_def Let_def t(1) full u(1))
    moreover have "\<not> (\<exists>i<64. i_valid (?T i) = 0 \<or> img_gda (?T i) = ?g)" using full by (auto simp: find_None_iff)
    ultimately show ?thesis using groups_only_trans [OF t(2) u(2)] u(3) by auto
  qed
qed

section \<open>Removing a member\<close>

text \<open>A row that gives the group the port, and the row written in its place.\<close>

lemma less_img:
  assumes l: "length (i_key m) = 9" and k: "keeps_groups keep" and e: "entry_wf (with_img m e)" and p: "unat port = p" "p < 16"
    and b: "bit (i_val m ! 0) p" "img_gda m = g" "i_valid m \<noteq> 0"
  shows "gives (keep 14 (img_of (hw_row_less port (with_img m e)))) g' q \<longleftrightarrow> gives m g' q \<and> \<not> (g' = g \<and> q = p)"
    "i_valid (keep 14 (img_of (hw_row_less port (with_img m e)))) = i_valid m"
proof -
  let ?v = "i_val m ! 0 AND NOT (push_bit p 1)" and ?m = "img_of (hw_row_less port (with_img m e))"
  have lv: "length (i_val m) = 7" using e by (simp add: entry_wf_def with_img_def)
  have v: "bit ?v q \<longleftrightarrow> bit (i_val m ! 0) q \<and> q \<noteq> p" for q
    using p(2) bit_imp_le_length [of "i_val m ! 0" q] by (auto simp: bit_simps)
  have "i_valid ?m = i_valid m" "i_val ?m ! 0 = ?v" "?v \<noteq> 0 \<Longrightarrow> img_gda ?m = img_gda m"
    using lv l p(1) by (auto simp: hw_row_less_def Let_def img_of_def with_img_def img_gda_def nth_append)
  then show "gives (keep 14 ?m) g' q \<longleftrightarrow> gives m g' q \<and> \<not> (g' = g \<and> q = p)" "i_valid (keep 14 ?m) = i_valid m"
    using k b(2,3) v by (cases "?v = 0"; auto simp: gives_def keeps_groups_def img_gda_def)+
qed

lemma less_cond:
  assumes l: "length (i_key m) = 9"
  shows "drop_bit n (e_val (with_img m e) ! 0) AND 1 = 1 \<and> g = key_ipv4 (with_img m e) \<longleftrightarrow> bit (i_val m ! 0) n \<and> img_gda m = g"
  using l unfolding bit_test by (auto simp: key_ipv4_def with_img_def img_gda_def nth_append)

lemma hw_remove_spec:
  assumes E: "pce_engine hwstep tbl keep S" and K: "keeps_groups keep" and p: "unat (mt_nPortId q) = p" "p < 16" and g: "nIPv4 (mt_uIP_Gda q) = g"
  shows "idle (hw_of s) \<Longrightarrow> free_empty (dtbl tbl s 14) \<Longrightarrow> set is \<subseteq> {..<64} \<Longrightarrow>
    \<exists>s'. hw_remove_rows hwstep q is s = Some s' \<and> groups_only tbl S s s' \<and> free_empty (dtbl tbl s' 14) \<and>
      (\<forall>i<64. i_valid (dtbl tbl s' 14 i) = i_valid (dtbl tbl s 14 i) \<and>
        (\<forall>g' r. gives (dtbl tbl s' 14 i) g' r \<longleftrightarrow> gives (dtbl tbl s 14 i) g' r \<and> \<not> (i \<in> set is \<and> g' = g \<and> r = p)))"
proof (induction "is" arbitrary: s)
  case Nil then show ?case by (simp add: groups_only_refl)
next
  case (Cons i "is")
  let ?z = "zero_entry\<lparr>e_table := PCE_MULTICAST_HW_INDEX\<rparr>" and ?m = "dtbl tbl s 14 i"
  let ?e = "with_img ?m (?z\<lparr>e_index := of_nat i\<rparr>)"
  have i: "i < 64" "set is \<subseteq> {..<64}" using Cons.prems(3) by auto
  obtain t where t: "row_read hwstep (?z\<lparr>e_index := of_nat i\<rparr>) s = Some (?e, t)" "groups_only tbl S s t" "dtbl tbl t 14 = dtbl tbl s 14"
    "entry_wf ?e" "length (i_key ?m) = 9"
    by (rule group_read [OF E Cons.prems(1) _ _ i(1), of ?z]) (simp_all add: entry_wf_def zero_entry_def)
  have it: "idle (hw_of t)" "free_empty (dtbl tbl t 14)" using t(2,3) Cons.prems(2) by (simp_all add: groups_only_def)
  show ?case
  proof (cases "bit (i_val ?m ! 0) p \<and> img_gda ?m = g")
    case True
    then have v: "i_valid ?m \<noteq> 0" using Cons.prems(2) i(1) by (auto simp: free_empty_def)
    let ?r = "hw_row_less (mt_nPortId q) ?e"
    have w: "e_table ?r = PCE_MULTICAST_HW_INDEX" "entry_wf ?r" "e_index ?r = of_nat i"
      using t(4) by (auto simp: hw_row_less_def Let_def entry_wf_def with_img_def zero_entry_def)
    obtain u where u: "row_write hwstep ?r t = Some u" "groups_only tbl S t u" "dtbl tbl u 14 = (dtbl tbl t 14)(i := keep 14 (img_of ?r))"
      by (rule group_write [OF E it(1) w i(1)])
    note m = less_img [OF t(5) K t(4) p(1,2) True [THEN conjunct1] True [THEN conjunct2] v]
    have iu: "idle (hw_of u)" "free_empty (dtbl tbl u 14)"
      using u(2,3) it(2) m(2) v by (simp_all add: groups_only_def free_empty_def)
    obtain s' where s': "hw_remove_rows hwstep q is u = Some s'" "groups_only tbl S u s'" "free_empty (dtbl tbl s' 14)"
      "\<forall>i<64. i_valid (dtbl tbl s' 14 i) = i_valid (dtbl tbl u 14 i) \<and>
        (\<forall>g' r. gives (dtbl tbl s' 14 i) g' r \<longleftrightarrow> gives (dtbl tbl u 14 i) g' r \<and> \<not> (i \<in> set is \<and> g' = g \<and> r = p))"
      using Cons.IH [OF iu i(2)] by blast
    have "hw_remove_rows hwstep q (i # is) s = Some s'"
      using t(1) u(1) s'(1) True less_cond [OF t(5), of p "?z\<lparr>e_index := of_nat i\<rparr>" g] p(1) g by simp
    moreover have "\<forall>j<64. i_valid (dtbl tbl s' 14 j) = i_valid (dtbl tbl s 14 j) \<and>
        (\<forall>g' r. gives (dtbl tbl s' 14 j) g' r \<longleftrightarrow> gives (dtbl tbl s 14 j) g' r \<and> \<not> (j \<in> set (i # is) \<and> g' = g \<and> r = p))"
      using s'(4) m unfolding u(3) t(3) by auto
    ultimately show ?thesis using s'(3) groups_only_trans [OF groups_only_trans [OF t(2) u(2)] s'(2)] by blast
  next
    case False
    then have n: "\<not> gives ?m g p" by (auto simp: gives_def)
    obtain s' where s': "hw_remove_rows hwstep q is t = Some s'" "groups_only tbl S t s'" "free_empty (dtbl tbl s' 14)"
      "\<forall>i<64. i_valid (dtbl tbl s' 14 i) = i_valid (dtbl tbl t 14 i) \<and>
        (\<forall>g' r. gives (dtbl tbl s' 14 i) g' r \<longleftrightarrow> gives (dtbl tbl t 14 i) g' r \<and> \<not> (i \<in> set is \<and> g' = g \<and> r = p))"
      using Cons.IH [OF it i(2)] by blast
    have "hw_remove_rows hwstep q (i # is) s = Some s'"
      using t(1) s'(1) False less_cond [OF t(5), of p "?z\<lparr>e_index := of_nat i\<rparr>" g] p(1) g by auto
    moreover have "\<forall>j<64. i_valid (dtbl tbl s' 14 j) = i_valid (dtbl tbl s 14 j) \<and>
        (\<forall>g' r. gives (dtbl tbl s' 14 j) g' r \<longleftrightarrow> gives (dtbl tbl s 14 j) g' r \<and> \<not> (j \<in> set (i # is) \<and> g' = g \<and> r = p))"
      using s'(4) n unfolding t(3) by auto
    ultimately show ?thesis using s'(3) groups_only_trans [OF t(2) s'(2)] by blast
  qed
qed

section \<open>Reading the rows\<close>

lemma multi_scan_spec:
  assumes E: "pce_engine hwstep tbl keep S"
  shows "idle (hw_of s) \<Longrightarrow> i < 64 \<Longrightarrow>
    \<exists>j s'. multi_scan hwstep PCE_MULTICAST_HW_INDEX i s = Some (with_img (dtbl tbl s 14 j) (zero_entry\<lparr>e_table := PCE_MULTICAST_HW_INDEX, e_index := of_nat j\<rparr>), j + 1, s') \<and>
      groups_only tbl S s s' \<and> dtbl tbl s' 14 = dtbl tbl s 14 \<and> length (i_key (dtbl tbl s 14 j)) = 9 \<and> i \<le> j \<and> j < 64 \<and>
      (\<forall>l. i \<le> l \<and> l < j \<longrightarrow> i_valid (dtbl tbl s 14 l) = 0) \<and> (i_valid (dtbl tbl s 14 j) = 0 \<longrightarrow> j = 63)"
proof (induction "64 - i" arbitrary: i s rule: less_induct)
  case less
  let ?z = "zero_entry\<lparr>e_table := PCE_MULTICAST_HW_INDEX\<rparr>" and ?m = "dtbl tbl s 14 i"
  obtain t where t: "row_read hwstep (?z\<lparr>e_index := of_nat i\<rparr>) s = Some (with_img ?m (?z\<lparr>e_index := of_nat i\<rparr>), t)"
    "groups_only tbl S s t" "dtbl tbl t 14 = dtbl tbl s 14" "length (i_key ?m) = 9"
    by (rule group_read [OF E less.prems(1) _ _ less.prems(2), of ?z]) (simp_all add: entry_wf_def zero_entry_def)
  have v: "e_valid (with_img ?m e) = i_valid ?m" for e by (simp add: with_img_def)
  show ?case
  proof (cases "i_valid ?m \<noteq> 0 \<or> \<not> i + 1 < 64")
    case True
    have "multi_scan hwstep PCE_MULTICAST_HW_INDEX i s = Some (with_img ?m (?z\<lparr>e_index := of_nat i\<rparr>), i + 1, t)"
      by (subst multi_scan.simps) (use t(1) True v in simp)
    then show ?thesis using t True less.prems(2) by (intro exI [of _ i] exI [of _ t]) auto
  next
    case False
    have r: "multi_scan hwstep PCE_MULTICAST_HW_INDEX i s = multi_scan hwstep PCE_MULTICAST_HW_INDEX (i + 1) t"
      by (subst multi_scan.simps) (use t(1) False v in simp)
    have lt: "64 - (i + 1) < 64 - i" "i + 1 < 64" "idle (hw_of t)" using False t(2) by (auto simp: groups_only_def)
    obtain j s' where u: "multi_scan hwstep PCE_MULTICAST_HW_INDEX (i + 1) t = Some (with_img (dtbl tbl t 14 j) (?z\<lparr>e_index := of_nat j\<rparr>), j + 1, s')"
      "groups_only tbl S t s'" "dtbl tbl s' 14 = dtbl tbl t 14" "length (i_key (dtbl tbl t 14 j)) = 9" "i + 1 \<le> j" "j < 64"
      "\<forall>l. i + 1 \<le> l \<and> l < j \<longrightarrow> i_valid (dtbl tbl t 14 l) = 0" "i_valid (dtbl tbl t 14 j) = 0 \<longrightarrow> j = 63"
      using less.hyps [OF lt(1,3,2)] by auto
    have "i_valid (dtbl tbl s 14 l) = 0" if "i \<le> l" "l < j" for l
      using that u(7) t(3) False by (cases "l = i") auto
    then show ?thesis using r u t(3) groups_only_trans [OF t(2) u(2)] by (intro exI [of _ j] exI [of _ s']) auto
  qed
qed

text \<open>A row as it is reported: the group, and the low eight ports of its map.\<close>

definition group_report :: "pce_img \<Rightarrow> IFX_ETHSW_multicastTableRead \<Rightarrow> IFX_ETHSW_multicastTableRead" where
  "group_report m q = q\<lparr>mm_nPortId := ucast (i_val m ! 0), mm_uIP_Gda := set_nIPv4 (img_gda m) (mm_uIP_Gda q),
     mm_uIP_Gsa := set_nIPv4 0 (mm_uIP_Gsa q), mm_eModeMember := IFX_ETHSW_IGMP_MEMBER_DONT_CARE,
     mm_eIPVersion := IFX_ETHSW_IP_SELECT_IPV4, mm_bInitial := IFX_FALSE, mm_bLast := IFX_FALSE\<rparr>"

definition next_group :: "(nat \<Rightarrow> pce_img) \<Rightarrow> nat \<Rightarrow> nat option" where
  "next_group T i = List.find (\<lambda>j. i_valid (T j) \<noteq> 0) [i..<IFX_FLOW_MULTICAST_HW_TBL_SIZE]"

lemma next_group_first:
  assumes "i \<le> j" "j < 64" "\<forall>l. i \<le> l \<and> l < j \<longrightarrow> i_valid (T l) = 0" "i_valid (T j) = 0 \<longrightarrow> j = 63"
  shows "next_group T i = (if i_valid (T j) = 0 then None else Some j)"
proof (cases "i_valid (T j) = 0")
  case True
  then have "i_valid (T l) = 0" if "i \<le> l" "l < 64" for l using assms that by (cases "l = 63") auto
  then have "next_group T i = None" unfolding next_group_def find_None_iff by auto
  with True show ?thesis by simp
next
  case False
  then have "next_group T i = Some j"
    unfolding next_group_def find_Some_iff using assms(1-3) by (intro exI [of _ "j - i"]) auto
  with False show ?thesis by simp
qed

lemma hw_group_read_spec:
  assumes E: "pce_engine hwstep tbl keep S" and I: "core_inv tbl keep s" and n: "mm_bInitial q \<noteq> IFX_TRUE"
    and i: "i = unat (multi_hw_table_index (dev s))" "i \<le> 64"
  obtains s' where "core_inv tbl keep s'" "dtbl tbl s' = dtbl tbl s"
    "dev s' = (dev s)\<lparr>multi_hw_table_index := of_nat (case next_group (dtbl tbl s 14) i of None \<Rightarrow> 0 | Some j \<Rightarrow> j + 1)\<rparr>"
    "hw_group_read hwstep q s = Some (IFX_SUCCESS, (case next_group (dtbl tbl s 14) i of
       None \<Rightarrow> zero_multicastTableRead\<lparr>mm_bLast := IFX_TRUE\<rparr> | Some j \<Rightarrow> group_report (dtbl tbl s 14 j) q), s')"
proof -
  have inv: "core_inv tbl keep (upd_dev (\<lambda>d. d\<lparr>multi_hw_table_index := x\<rparr>) t)" if "core_inv tbl keep t" for x t
    using that by (simp add: core_inv_def dev_ok_def vlan_wf_def vlan_mirror_def)
  show thesis
  proof (cases "i < 64")
    case False
    then have "next_group (dtbl tbl s 14) i = None" by (simp add: next_group_def)
    with False show ?thesis
      using n i by (intro that [OF inv [OF I, of 0]]) (simp_all add: hw_group_read_def Let_def)
  next
    case True
    obtain j t where t: "multi_scan hwstep PCE_MULTICAST_HW_INDEX i s = Some (with_img (dtbl tbl s 14 j) (zero_entry\<lparr>e_table := PCE_MULTICAST_HW_INDEX, e_index := of_nat j\<rparr>), j + 1, t)"
      "groups_only tbl S s t" "dtbl tbl t 14 = dtbl tbl s 14" "length (i_key (dtbl tbl s 14 j)) = 9" "i \<le> j" "j < 64"
      "\<forall>l. i \<le> l \<and> l < j \<longrightarrow> i_valid (dtbl tbl s 14 l) = 0" "i_valid (dtbl tbl s 14 j) = 0 \<longrightarrow> j = 63"
      using multi_scan_spec [OF E core_inv_simps(1) [OF I] True] by blast
    have It: "core_inv tbl keep t" by (rule groups_only_inv [OF t(2) I])
    have d: "dtbl tbl t = dtbl tbl s" "dev t = dev s"
      using t(2,3) by (auto simp: groups_only_def fun_eq_iff) (metis)
    have nx: "next_group (dtbl tbl s 14) i = (if i_valid (dtbl tbl s 14 j) = 0 then None else Some j)"
      by (rule next_group_first [OF t(5-8)])
    let ?e = "with_img (dtbl tbl s 14 j) (zero_entry\<lparr>e_table := PCE_MULTICAST_HW_INDEX, e_index := of_nat j\<rparr>)"
    have c: "(0x80000000 :: u32) = push_bit 31 1" by simp
    have "(ucast (ucast x OR push_bit 31 (1 :: u32)) :: u8) = ucast x" for x :: u16
      by (rule bit_word_eqI) (auto simp only: bit_simps, auto)
    then have e: "map_port ?e = ucast (i_val (dtbl tbl s 14 j) ! 0)" "key_ipv4 ?e = img_gda (dtbl tbl s 14 j)" "e_valid ?e = i_valid (dtbl tbl s 14 j)"
      using t(4) by (simp_all only: map_port_def c) (simp_all add: key_ipv4_def img_gda_def with_img_def nth_append)
    show thesis
      using n i True t(1) e nx d
      by (intro that [OF inv [OF It, of "of_nat (case next_group (dtbl tbl s 14) i of None \<Rightarrow> 0 | Some j \<Rightarrow> j + 1)"]])
        (simp_all add: hw_group_read_def Let_def group_report_def)
  qed
qed

section \<open>The handlers\<close>

lemma port_small: "core_inv tbl keep s \<Longrightarrow> x < nTotalPortNumber (dev s) \<Longrightarrow> unat x < 16"
  using core_inv_simps(3) [of tbl keep s] by (simp add: dev_ok_def word_less_nat_alt)

lemma learned_add_handler:
  assumes E: "pce_engine hwstep tbl keep S" and K: "keeps_groups keep" and I: "core_inv tbl keep s" and f: "free_empty (dtbl tbl s 14)"
    and m: "snoop_mode s = SNOOP_MODE_AUTOLEARNING" "bIGMPv3 (igmp s) \<noteq> 1" and q: "\<not> v6 q" "mt_nPortId q < nTotalPortNumber (dev s)"
    and g: "g = nIPv4 (mt_uIP_Gda q)"
  shows "if \<exists>i<64. i_valid (dtbl tbl s 14 i) = 0 \<or> img_gda (dtbl tbl s 14 i) = g
    then \<exists>s'. IFX_FLOW_MulticastTableEntryAdd hwstep past q s = Some (IFX_SUCCESS, s') \<and> core_inv tbl keep s' \<and>
      free_empty (dtbl tbl s' 14) \<and> members tbl s' = (members tbl s)(g := insert (unat (mt_nPortId q)) (members tbl s g))
    else \<exists>s'. IFX_FLOW_MulticastTableEntryAdd hwstep past q s = Some (IFX_ERROR, s') \<and> core_inv tbl keep s' \<and>
      dtbl tbl s' 14 = dtbl tbl s 14"
proof -
  have run: "IFX_FLOW_MulticastTableEntryAdd hwstep past q s = hw_group_add hwstep q s"
    using q(2) m(1) by (simp add: IFX_FLOW_MulticastTableEntryAdd_def flip: not_less)
  show ?thesis
    using learned_add_spec [OF E K core_inv_simps(1) [OF I] f m(2) q(1) port_small [OF I q(2)]]
    unfolding run g by (auto split: if_splits dest: groups_only_inv [OF _ I])
qed

lemma learned_remove_handler:
  assumes E: "pce_engine hwstep tbl keep S" and K: "keeps_groups keep" and I: "core_inv tbl keep s" and f: "free_empty (dtbl tbl s 14)"
    and m: "snoop_mode s = SNOOP_MODE_AUTOLEARNING" "bIGMPv3 (igmp s) \<noteq> 1" and q: "mt_nPortId q < nTotalPortNumber (dev s)"
    and g: "g = nIPv4 (mt_uIP_Gda q)"
  obtains s' where "IFX_FLOW_MulticastTableEntryRemove hwstep oob q s = Some (IFX_SUCCESS, s')" "core_inv tbl keep s'"
    "free_empty (dtbl tbl s' 14)" "members tbl s' = (members tbl s)(g := members tbl s g - {unat (mt_nPortId q)})"
    "valid_rows (dtbl tbl s' 14) = valid_rows (dtbl tbl s 14)" "dev s' = dev s"
proof -
  have b: "set [0..<64] \<subseteq> {..<64 :: nat}" by auto
  obtain s' where s': "hw_remove_rows hwstep q [0..<64] s = Some s'" "groups_only tbl S s s'" "free_empty (dtbl tbl s' 14)"
    "\<forall>i<64. i_valid (dtbl tbl s' 14 i) = i_valid (dtbl tbl s 14 i) \<and>
      (\<forall>g' r. gives (dtbl tbl s' 14 i) g' r \<longleftrightarrow> gives (dtbl tbl s 14 i) g' r \<and> \<not> (i \<in> set [0..<64] \<and> g' = g \<and> r = unat (mt_nPortId q)))"
    using hw_remove_spec [OF E K refl port_small [OF I q] g [symmetric] core_inv_simps(1) [OF I] f b] by blast
  show thesis
  proof (rule that [OF _ groups_only_inv [OF s'(2) I] s'(3)])
    show "IFX_FLOW_MulticastTableEntryRemove hwstep oob q s = Some (IFX_SUCCESS, s')"
      using q m s'(1) by (simp add: IFX_FLOW_MulticastTableEntryRemove_def del: upt.simps flip: not_less)
    show "members tbl s' = (members tbl s)(g := members tbl s g - {unat (mt_nPortId q)})"
      by (rule members_less) (use s'(4) in simp)
    show "valid_rows (dtbl tbl s' 14) = valid_rows (dtbl tbl s 14)" using s'(4) by (auto simp: valid_rows_def)
    show "dev s' = dev s" using s'(2) by (simp add: groups_only_def)
  qed
qed

end
