(* ===== verification/Core_Link.thy ===== *)
theory Core_Link
  imports Core_Ports
begin

text \<open>
  The link settings, \<^verbatim>\<open>ltq_flow_core.c\<close>: speed, duplex mode and interface of a port, the registers of
  its transceiver (PHY) over MDIO, and the extended registers (MMD) behind two of them. The delays
  (\<^verbatim>\<open>ltq_mdelay\<close>) and the report to the power manager are left out.
\<close>

unbundle bit_operations_syntax

section \<open>Parameters and registers\<close>

record IFX_ETHSW_portLinkCfg =
  lk_nPortId :: u8
  lk_bDuplexForce :: u32
  lk_eDuplex :: u32
  lk_bSpeedForce :: u32
  lk_eSpeed :: u32
  lk_bLinkForce :: u32
  lk_eLink :: u32
  lk_eMII_Mode :: u32
  lk_eMII_Type :: u32
  lk_eClkMode :: u32
  lk_bLPI :: u32

record IFX_ETHSW_MMD_data =
  xm_nAddressDev :: u8
  xm_nAddressReg :: u32
  xm_nData :: u16

record IFX_ETHSW_portRGMII_ClkCfg =
  ck_nPortId :: u8
  ck_nDelayRx :: u8
  ck_nDelayTx :: u8

record IFX_ETHSW_portPHY_Query =
  pq_nPortId :: u8
  pq_bPHY_Present :: u32

record IFX_ETHSW_portPHY_Addr =
  pa_nPortId :: u8
  pa_nAddressDev :: u8

abbreviation (input) IFX_ETHSW_DUPLEX_FULL :: u32 where "IFX_ETHSW_DUPLEX_FULL \<equiv> 0"
abbreviation (input) IFX_ETHSW_DUPLEX_HALF :: u32 where "IFX_ETHSW_DUPLEX_HALF \<equiv> 1"
abbreviation (input) IFX_ETHSW_PORT_LINK_UP :: u32 where "IFX_ETHSW_PORT_LINK_UP \<equiv> 0"
abbreviation (input) IFX_ETHSW_PORT_LINK_DOWN :: u32 where "IFX_ETHSW_PORT_LINK_DOWN \<equiv> 1"
abbreviation (input) IFX_ETHSW_PORT_HW_MII :: u32 where "IFX_ETHSW_PORT_HW_MII \<equiv> 0"
abbreviation (input) IFX_ETHSW_PORT_HW_RMII :: u32 where "IFX_ETHSW_PORT_HW_RMII \<equiv> 1"
abbreviation (input) IFX_ETHSW_PORT_HW_GMII :: u32 where "IFX_ETHSW_PORT_HW_GMII \<equiv> 2"
abbreviation (input) IFX_ETHSW_PORT_HW_RGMII :: u32 where "IFX_ETHSW_PORT_HW_RGMII \<equiv> 3"
abbreviation (input) IFX_ETHSW_PORT_MAC :: u32 where "IFX_ETHSW_PORT_MAC \<equiv> 0"
abbreviation (input) IFX_ETHSW_PORT_PHY :: u32 where "IFX_ETHSW_PORT_PHY \<equiv> 1"
abbreviation (input) IFX_ETHSW_PORT_CLK_NA :: u32 where "IFX_ETHSW_PORT_CLK_NA \<equiv> 0"
abbreviation (input) IFX_ETHSW_PORT_CLK_MASTER :: u32 where "IFX_ETHSW_PORT_CLK_MASTER \<equiv> 1"
abbreviation (input) IFX_ETHSW_PORT_CLK_SLAVE :: u32 where "IFX_ETHSW_PORT_CLK_SLAVE \<equiv> 2"
abbreviation (input) DUPLEX_AUTO :: u32 where "DUPLEX_AUTO \<equiv> 0"
abbreviation (input) DUPLEX_EN :: u32 where "DUPLEX_EN \<equiv> 1"
abbreviation (input) DUPLEX_DIS :: u32 where "DUPLEX_DIS \<equiv> 3"
abbreviation (input) PHY_AN_ADV_10HDX :: u16 where "PHY_AN_ADV_10HDX \<equiv> 0x20"
abbreviation (input) PHY_AN_ADV_10FDX :: u16 where "PHY_AN_ADV_10FDX \<equiv> 0x40"
abbreviation (input) PHY_AN_ADV_100HDX :: u16 where "PHY_AN_ADV_100HDX \<equiv> 0x80"
abbreviation (input) PHY_AN_ADV_100FDX :: u16 where "PHY_AN_ADV_100FDX \<equiv> 0x100"
abbreviation (input) PHY_AN_ADV_1000HDX :: u16 where "PHY_AN_ADV_1000HDX \<equiv> 0x100"
abbreviation (input) PHY_AN_ADV_1000FDX :: u16 where "PHY_AN_ADV_1000FDX \<equiv> 0x200"

abbreviation (input) VR9_MAC_PSTAT_FDUP :: field where "VR9_MAC_PSTAT_FDUP \<equiv> (0x900, 8, 1)"
abbreviation (input) VR9_MAC_PSTAT_MBIT :: field where "VR9_MAC_PSTAT_MBIT \<equiv> (0x900, 9, 1)"
abbreviation (input) VR9_MAC_PSTAT_GBIT :: field where "VR9_MAC_PSTAT_GBIT \<equiv> (0x900, 10, 1)"
abbreviation (input) VR9_MAC_PSTAT_PACT :: field where "VR9_MAC_PSTAT_PACT \<equiv> (0x900, 11, 1)"
abbreviation (input) VR9_MAC_PSTAT_LSTAT :: field where "VR9_MAC_PSTAT_LSTAT \<equiv> (0x900, 3, 1)"
abbreviation (input) VR9_MAC_CTRL_4_LPIEN :: field where "VR9_MAC_CTRL_4_LPIEN \<equiv> (0x907, 7, 1)"
abbreviation (input) VR9_MAC_CTRL_4_GWAIT :: field where "VR9_MAC_CTRL_4_GWAIT \<equiv> (0x907, 8, 7)"
abbreviation (input) VR9_MAC_CTRL_4_WAIT :: field where "VR9_MAC_CTRL_4_WAIT \<equiv> (0x907, 0, 7)"
abbreviation (input) VR9_FDMA_CTRL_LPI_MODE :: field where "VR9_FDMA_CTRL_LPI_MODE \<equiv> (0xA40, 4, 3)"
abbreviation (input) VR9_MII_CFG_0_MIIMODE :: field where "VR9_MII_CFG_0_MIIMODE \<equiv> (0x036, 0, 4)"
abbreviation (input) VR9_MII_CFG_0_RMII :: field where "VR9_MII_CFG_0_RMII \<equiv> (0x036, 7, 1)"
abbreviation (input) VR9_PCDU_0_RXDLY :: field where "VR9_PCDU_0_RXDLY \<equiv> (0x037, 7, 3)"
abbreviation (input) VR9_PCDU_0_TXDLY :: field where "VR9_PCDU_0_TXDLY \<equiv> (0x037, 0, 3)"

text \<open>
  The registers of a port among those of the top level: two apart for the interface, one apart and
  counted downwards for the transceiver; the latter as a whole, and the polling of the transceivers.
\<close>

definition top_reg :: "field \<Rightarrow> u8 \<Rightarrow> field" where
  "top_reg F p = at F (IFX_ETHSW_FLOW_TOP_REG_OFFSET + 2 * ucast p)"

definition phy_addr :: "nat \<Rightarrow> field" where
  "phy_addr i = at VR9_PHY_ADDR_0_ADDR (IFX_ETHSW_FLOW_TOP_REG_OFFSET - of_nat i)"

definition phy_word :: "nat \<Rightarrow> field" where
  "phy_word i = at (0x015, 0, 16) (IFX_ETHSW_FLOW_TOP_REG_OFFSET - of_nat i)"

definition mdio_stat :: "nat \<Rightarrow> field" where
  "mdio_stat i = at (0x016, 0, 16) (IFX_ETHSW_FLOW_TOP_REG_OFFSET + of_nat i)"

abbreviation mdc_poll :: field where "mdc_poll \<equiv> at (0x00B, 0, 6) IFX_ETHSW_FLOW_TOP_REG_OFFSET"

text \<open>\<^verbatim>\<open>portIdx >= (nPortNumber - 1)\<close>, compared as integers.\<close>

definition no_phy_port :: "u8 \<Rightarrow> 'p core \<Rightarrow> bool" where
  "no_phy_port p s \<longleftrightarrow> int (unat p) \<ge> int (unat (nPortNumber (dev s))) - 1"

section \<open>The transceiver behind the MAC\<close>

text \<open>What the transceiver reports, as the word that fixes the mode of the MAC.\<close>

definition fixed_mode :: "u32 \<Rightarrow> u32 \<Rightarrow> u32" where
  "fixed_mode stat a =
     (let a = a AND NOT 0xFFE0 OR push_bit 13 1;
          a = a OR push_bit 11 (drop_bit 3 stat AND 0x3);
          a = (if drop_bit 2 stat AND 0x1 \<noteq> 0 then a OR push_bit 9 0x1 else a OR push_bit 9 0x3);
          a = (if drop_bit 1 stat AND 0x1 \<noteq> 0 then a OR push_bit 5 0x1 else a OR push_bit 5 0x3)
      in if drop_bit 0 stat AND 0x1 \<noteq> 0 then a OR push_bit 7 0x1 else a OR push_bit 7 0x3)"

definition force_to_configure_phy_settings :: "u8 \<Rightarrow> u8 \<Rightarrow> 'p core \<Rightarrow> int \<times> 'p core" where
  "force_to_configure_phy_settings p link_status s =
     (if no_phy_port p s then (IFX_ERROR, s)
      else let phy_addr_reg = rd (phy_word (unat p)) s; stat = rd (mdio_stat (unat p)) s
      in if link_status \<noteq> 0
         then if drop_bit 6 stat AND 0x1 \<noteq> 0 \<and> drop_bit 5 stat AND 0x1 \<noteq> 0
              then (1, wr (phy_word (unat p)) (fixed_mode stat phy_addr_reg) s) else (1, s)
         else (1, wr (phy_word (unat p)) (phy_addr_reg AND NOT 0xFFE0 OR push_bit 11 0x3) s))"

section \<open>Extended registers\<close>

text \<open>
  An extended register \<open>reg\<close> of the device \<open>dev\<close> in the transceiver is reached through two registers:
  13 selects the device and what 14 stands for, the number of the register or its data.
\<close>

definition mmd_select ::
  "('p hw \<Rightarrow> 'p hw) \<Rightarrow> ('p hw \<Rightarrow> 'p hw) \<Rightarrow> u8 \<Rightarrow> u16 \<Rightarrow> u16 \<Rightarrow> u16 \<Rightarrow> 'p core \<Rightarrow> 'p core option" where
  "mmd_select hwstep mdio a dv reg sel s = do {
     s \<leftarrow> IFX_FLOW_MDIO_DataWrite hwstep mdio \<lparr>md_nAddressDev = a, md_nAddressReg = 0xd, md_nData = dv\<rparr> s;
     s \<leftarrow> IFX_FLOW_MDIO_DataWrite hwstep mdio \<lparr>md_nAddressDev = a, md_nAddressReg = 0xe, md_nData = reg\<rparr> s;
     IFX_FLOW_MDIO_DataWrite hwstep mdio \<lparr>md_nAddressDev = a, md_nAddressReg = 0xd, md_nData = 0x4000 OR sel\<rparr> s }"

text \<open>
  An access while the port is not polled and its MAC is fixed to the present mode; \<open>f\<close> is the access.
  The mask \<^verbatim>\<open>mdc_reg\<close> is the one read before.
\<close>

definition unpolled ::
  "nat \<Rightarrow> ('p core \<Rightarrow> ('r \<times> 'p core) option) \<Rightarrow> 'p core \<Rightarrow> ('r \<times> 'p core) option" where
  "unpolled i f s = do {
     let s = snd (force_to_configure_phy_settings (of_nat i) 1 s);
     let mdc_reg = rd mdc_poll s AND NOT (push_bit i 1);
     (r, s) \<leftarrow> f (wr mdc_poll mdc_reg s);
     let s = wr mdc_poll (mdc_reg OR push_bit i 1) s;
     Some (r, snd (force_to_configure_phy_settings (of_nat i) 0 s)) }"

text \<open>The port of a transceiver; the bound is an unsigned difference.\<close>

definition phy_port :: "u8 \<Rightarrow> 'p core \<Rightarrow> nat option" where
  "phy_port a s = find (\<lambda>i. rd (phy_addr i) s = ucast a) [0..<unat (ucast (nPortNumber (dev s)) - 1 :: u32)]"

definition mmd_dev :: "IFX_ETHSW_MMD_data \<Rightarrow> u16" where
  "mmd_dev q = ucast (drop_bit 16 (xm_nAddressReg q) AND 0x1F)"

definition mmd_reg :: "IFX_ETHSW_MMD_data \<Rightarrow> u16" where
  "mmd_reg q = ucast (xm_nAddressReg q AND 0xFFFF)"

definition IFX_FLOW_MmdDataRead ::
  "('p hw \<Rightarrow> 'p hw) \<Rightarrow> ('p hw \<Rightarrow> 'p hw) \<Rightarrow> IFX_ETHSW_MMD_data \<Rightarrow> 'p core \<Rightarrow> (int \<times> IFX_ETHSW_MMD_data \<times> 'p core) option" where
  "IFX_FLOW_MmdDataRead hwstep mdio q s =
     (case phy_port (xm_nAddressDev q) s of
        None \<Rightarrow> Some (IFX_SUCCESS, q, s)
      | Some i \<Rightarrow> do {
          (m, s) \<leftarrow> unpolled i (\<lambda>s. do {
             s \<leftarrow> mmd_select hwstep mdio (xm_nAddressDev q) (mmd_dev q) (mmd_reg q) (mmd_dev q) s;
             IFX_FLOW_MDIO_DataRead hwstep mdio \<lparr>md_nAddressDev = xm_nAddressDev q, md_nAddressReg = 0xe, md_nData = 0x4000 OR mmd_dev q\<rparr> s }) s;
          Some (IFX_SUCCESS, q\<lparr>xm_nData := md_nData m\<rparr>, s) })"

definition IFX_FLOW_MmdDataWrite ::
  "('p hw \<Rightarrow> 'p hw) \<Rightarrow> ('p hw \<Rightarrow> 'p hw) \<Rightarrow> IFX_ETHSW_MMD_data \<Rightarrow> 'p core \<Rightarrow> (int \<times> 'p core) option" where
  "IFX_FLOW_MmdDataWrite hwstep mdio q s =
     (case phy_port (xm_nAddressDev q) s of
        None \<Rightarrow> Some (IFX_SUCCESS, s)
      | Some i \<Rightarrow> unpolled i (\<lambda>s. do {
             s \<leftarrow> mmd_select hwstep mdio (xm_nAddressDev q) (mmd_dev q) (mmd_reg q) (mmd_dev q) s;
             s \<leftarrow> IFX_FLOW_MDIO_DataWrite hwstep mdio \<lparr>md_nAddressDev = xm_nAddressDev q, md_nAddressReg = 0xe, md_nData = xm_nData q\<rparr> s;
             Some (IFX_SUCCESS, s) }) s)"

definition IFX_FLOW_MMD_MDIO_DataWrite ::
  "('p hw \<Rightarrow> 'p hw) \<Rightarrow> ('p hw \<Rightarrow> 'p hw) \<Rightarrow> IFX_ETHSW_MDIO_data \<Rightarrow> u8 \<Rightarrow> u8 \<Rightarrow> 'p core \<Rightarrow> (int \<times> 'p core) option" where
  "IFX_FLOW_MMD_MDIO_DataWrite hwstep mdio q p dv s =
     (if no_phy_port p s then Some (IFX_ERROR, s)
      else unpolled (unat p) (\<lambda>s. do {
             s \<leftarrow> mmd_select hwstep mdio (md_nAddressDev q) (ucast dv) (ucast (md_nAddressReg q)) (ucast dv AND 0x1F) s;
             s \<leftarrow> IFX_FLOW_MDIO_DataWrite hwstep mdio \<lparr>md_nAddressDev = md_nAddressDev q, md_nAddressReg = 0xe, md_nData = md_nData q\<rparr> s;
             Some (IFX_SUCCESS, s) }) s)"

section \<open>The link of a port\<close>

definition IFX_FLOW_PortLinkCfgGet :: "IFX_ETHSW_portLinkCfg \<Rightarrow> 'p core \<Rightarrow> int \<times> IFX_ETHSW_portLinkCfg" where
  "IFX_FLOW_PortLinkCfgGet q s =
     (let p = lk_nPortId q in
      if no_phy_port p s then (IFX_ERROR, q)
      else let q = q\<lparr>lk_eDuplex := (if rd (preg VR9_MAC_PSTAT_FDUP 0xC p) s \<noteq> 0 then IFX_ETHSW_DUPLEX_FULL else IFX_ETHSW_DUPLEX_HALF),
                 lk_eSpeed := (if rd (preg VR9_MAC_PSTAT_GBIT 0xC p) s \<noteq> 0 then 1000
                   else if rd (preg VR9_MAC_PSTAT_MBIT 0xC p) s \<noteq> 0 then 100 else 10),
                 lk_bLPI := rd (preg VR9_MAC_CTRL_4_LPIEN 0xC p) s,
                 lk_eLink := (if rd (preg VR9_MAC_PSTAT_LSTAT 0xC p) s \<noteq> 0 then IFX_ETHSW_PORT_LINK_UP else IFX_ETHSW_PORT_LINK_DOWN)\<rparr>;
               value = rd (top_reg VR9_MII_CFG_0_MIIMODE p) s;
               q = (if value = 0 then q\<lparr>lk_eMII_Mode := IFX_ETHSW_PORT_HW_MII, lk_eMII_Type := IFX_ETHSW_PORT_PHY\<rparr>
                    else if value = 1 then q\<lparr>lk_eMII_Mode := IFX_ETHSW_PORT_HW_MII, lk_eMII_Type := IFX_ETHSW_PORT_MAC\<rparr>
                    else if value = 2 then q\<lparr>lk_eMII_Mode := IFX_ETHSW_PORT_HW_RMII, lk_eMII_Type := IFX_ETHSW_PORT_PHY\<rparr>
                    else if value = 3 then q\<lparr>lk_eMII_Mode := IFX_ETHSW_PORT_HW_RMII, lk_eMII_Type := IFX_ETHSW_PORT_MAC\<rparr>
                    else if value = 4 then q\<lparr>lk_eMII_Mode := IFX_ETHSW_PORT_HW_RGMII, lk_eMII_Type := IFX_ETHSW_PORT_MAC\<rparr>
                    else q)
           in (IFX_SUCCESS, q\<lparr>lk_eClkMode := (if lk_eMII_Mode q = IFX_ETHSW_PORT_HW_RMII
                  then if rd (top_reg VR9_MII_CFG_0_RMII p) s = 1 then IFX_ETHSW_PORT_CLK_MASTER else IFX_ETHSW_PORT_CLK_SLAVE
                  else IFX_ETHSW_PORT_CLK_NA)\<rparr>))"

text \<open>The duplex mode; the speed as \<^verbatim>\<open>data\<close> and \<^verbatim>\<open>phy_ctrl\<close>, \<open>None\<close> for the speed that is refused.\<close>

definition link_duplex :: "IFX_ETHSW_portLinkCfg \<Rightarrow> u32" where
  "link_duplex q = (if lk_bDuplexForce q = IFX_TRUE
     then if lk_eDuplex q = IFX_ETHSW_DUPLEX_FULL then DUPLEX_EN else DUPLEX_DIS else DUPLEX_AUTO)"

definition link_speed :: "IFX_ETHSW_portLinkCfg \<Rightarrow> (u32 \<times> u16) option" where
  "link_speed q =
     (let half = (link_duplex q = DUPLEX_DIS); v = lk_eSpeed q
      in if lk_bSpeedForce q \<noteq> IFX_TRUE then Some (3, 0)
         else if v = 10 then Some (0, if half then PHY_AN_ADV_10HDX else PHY_AN_ADV_10FDX)
         else if v = 100 then Some (1, if half then PHY_AN_ADV_100HDX else PHY_AN_ADV_100FDX)
         else if v = 200 then None
         else if v = 1000 then Some (2, if half then PHY_AN_ADV_1000HDX else PHY_AN_ADV_1000FDX)
         else Some (3, 0))"

abbreviation adv_low :: u16 where
  "adv_low \<equiv> PHY_AN_ADV_10HDX OR PHY_AN_ADV_10FDX OR PHY_AN_ADV_100HDX OR PHY_AN_ADV_100FDX"

abbreviation adv_giga :: u16 where
  "adv_giga \<equiv> PHY_AN_ADV_1000HDX OR PHY_AN_ADV_1000FDX"

text \<open>A register of the transceiver read, changed and written back.\<close>

definition phy_update ::
  "('p hw \<Rightarrow> 'p hw) \<Rightarrow> ('p hw \<Rightarrow> 'p hw) \<Rightarrow> u8 \<Rightarrow> (u16 \<Rightarrow> u16) \<Rightarrow> IFX_ETHSW_MDIO_data \<Rightarrow> 'p core \<Rightarrow> (IFX_ETHSW_MDIO_data \<times> 'p core) option" where
  "phy_update hwstep mdio r f m s = do {
     (m, s) \<leftarrow> IFX_FLOW_MDIO_DataRead hwstep mdio (m\<lparr>md_nAddressReg := r\<rparr>) s;
     let m = m\<lparr>md_nData := f (md_nData m)\<rparr>;
     s \<leftarrow> IFX_FLOW_MDIO_DataWrite hwstep mdio m s;
     Some (m, s) }"

text \<open>What the transceiver is to offer in auto-negotiation, in its registers 4 and 9.\<close>

definition link_advertise ::
  "('p hw \<Rightarrow> 'p hw) \<Rightarrow> ('p hw \<Rightarrow> 'p hw) \<Rightarrow> u32 \<Rightarrow> u16 \<Rightarrow> u32 \<Rightarrow> IFX_ETHSW_MDIO_data \<Rightarrow> 'p core \<Rightarrow> (IFX_ETHSW_MDIO_data \<times> 'p core) option" where
  "link_advertise hwstep mdio data phy_ctrl duplex m s =
     (if data = 0 \<or> data = 1 then do {
        (m, s) \<leftarrow> phy_update hwstep mdio 4 (\<lambda>d. d AND NOT adv_low OR phy_ctrl) m s;
        phy_update hwstep mdio 9 (\<lambda>d. d AND NOT adv_giga) m s }
      else if data = 2 then do {
        (m, s) \<leftarrow> phy_update hwstep mdio 9 (\<lambda>d. d AND NOT adv_giga OR phy_ctrl) m s;
        phy_update hwstep mdio 4 (\<lambda>d. d AND NOT adv_low) m s }
      else if data = 3 then do {
        (m, s) \<leftarrow> phy_update hwstep mdio 4 (\<lambda>d. if duplex = DUPLEX_DIS
             then d AND NOT adv_low OR (PHY_AN_ADV_10HDX OR PHY_AN_ADV_100HDX) else d OR adv_low) m s;
        phy_update hwstep mdio 9 (\<lambda>d. if duplex = DUPLEX_DIS
             then d AND NOT adv_giga OR PHY_AN_ADV_1000HDX else d OR adv_giga) m s }
      else Some (m, s))"

text \<open>The mode of the interface; a GMII port keeps it.\<close>

definition link_mii :: "IFX_ETHSW_portLinkCfg \<Rightarrow> u32" where
  "link_mii q =
     (if lk_eMII_Mode q = IFX_ETHSW_PORT_HW_MII then if lk_eMII_Type q = IFX_ETHSW_PORT_PHY then 0 else 1
      else if lk_eMII_Mode q = IFX_ETHSW_PORT_HW_RMII then if lk_eMII_Type q = IFX_ETHSW_PORT_PHY then 2 else 3
      else 4)"

definition IFX_FLOW_PortLinkCfgSet ::
  "('p hw \<Rightarrow> 'p hw) \<Rightarrow> ('p hw \<Rightarrow> 'p hw) \<Rightarrow> IFX_ETHSW_MDIO_data \<Rightarrow> IFX_ETHSW_portLinkCfg \<Rightarrow> 'p core \<Rightarrow> (int \<times> 'p core) option" where
  "IFX_FLOW_PortLinkCfgSet hwstep mdio g q s =
     (let p = lk_nPortId q in
      if int (unat p) > int (unat (nPortNumber (dev s))) - 1 then Some (IFX_ERROR, s)
      else case link_speed q of None \<Rightarrow> Some (IFX_ERROR, s)
      | Some (data, phy_ctrl) \<Rightarrow> do {
          let a = ucast (rd (phy_addr (unat p)) s);
          (m, s) \<leftarrow> IFX_FLOW_MDIO_DataRead hwstep mdio (g\<lparr>md_nAddressDev := a\<rparr>) s;
          (m, s) \<leftarrow> link_advertise hwstep mdio data phy_ctrl (link_duplex q) m s;
          let s = wrs [(preg VR9_MAC_CTRL_4_LPIEN 0xC p, lk_bLPI q), (preg VR9_MAC_CTRL_4_GWAIT 0xC p, 0x32),
                   (preg VR9_MAC_CTRL_4_WAIT 0xC p, 0x15), (VR9_FDMA_CTRL_LPI_MODE, 0x4)] s;
          (_, s) \<leftarrow> IFX_FLOW_MMD_MDIO_DataWrite hwstep mdio
             \<lparr>md_nAddressDev = a, md_nAddressReg = 0x3C, md_nData = (if lk_bLPI q = IFX_TRUE then 0x6 else 0x0)\<rparr> p 0x07 s;
          (m, s) \<leftarrow> IFX_FLOW_MDIO_DataRead hwstep mdio (m\<lparr>md_nAddressDev := a, md_nAddressReg := 0\<rparr>) s;
          let m = m\<lparr>md_nData := (if lk_bLinkForce q = IFX_TRUE \<and> lk_eLink q \<noteq> IFX_ETHSW_PORT_LINK_UP then 0x800 else 0x1200)\<rparr>;
          s \<leftarrow> IFX_FLOW_MDIO_DataWrite hwstep mdio m s;
          let s = (if lk_eMII_Mode q \<noteq> IFX_ETHSW_PORT_HW_GMII then wr (top_reg VR9_MII_CFG_0_MIIMODE p) (link_mii q) s else s);
          Some (IFX_SUCCESS, if lk_eMII_Mode q = IFX_ETHSW_PORT_HW_RMII
            then wr (top_reg VR9_MII_CFG_0_RMII p) (if lk_eClkMode q = IFX_ETHSW_PORT_CLK_MASTER then 1 else 0) s else s) })"

definition IFX_FLOW_PortPHY_AddrGet :: "IFX_ETHSW_portPHY_Addr \<Rightarrow> 'p core \<Rightarrow> int \<times> IFX_ETHSW_portPHY_Addr" where
  "IFX_FLOW_PortPHY_AddrGet q s =
     (if no_phy_port (pa_nPortId q) s then (IFX_ERROR, q)
      else (IFX_SUCCESS, q\<lparr>pa_nAddressDev := ucast (rd (phy_addr (unat (pa_nPortId q))) s)\<rparr>))"

definition IFX_FLOW_PortPHY_Query :: "IFX_ETHSW_portPHY_Query \<Rightarrow> 'p core \<Rightarrow> int \<times> IFX_ETHSW_portPHY_Query" where
  "IFX_FLOW_PortPHY_Query q s =
     (if no_phy_port (pq_nPortId q) s then (IFX_ERROR, q)
      else (IFX_SUCCESS, q\<lparr>pq_bPHY_Present := rd (preg VR9_MAC_PSTAT_PACT 0xC (pq_nPortId q)) s\<rparr>))"

definition IFX_FLOW_PortRGMII_ClkCfgGet :: "IFX_ETHSW_portRGMII_ClkCfg \<Rightarrow> 'p core \<Rightarrow> int \<times> IFX_ETHSW_portRGMII_ClkCfg" where
  "IFX_FLOW_PortRGMII_ClkCfgGet q s =
     (if no_phy_port (ck_nPortId q) s then (IFX_ERROR, q)
      else (IFX_SUCCESS, q\<lparr>ck_nDelayRx := ucast (rd (top_reg VR9_PCDU_0_RXDLY (ck_nPortId q)) s),
        ck_nDelayTx := ucast (rd (top_reg VR9_PCDU_0_TXDLY (ck_nPortId q)) s)\<rparr>))"

definition IFX_FLOW_PortRGMII_ClkCfgSet :: "IFX_ETHSW_portRGMII_ClkCfg \<Rightarrow> 'p core \<Rightarrow> int \<times> 'p core" where
  "IFX_FLOW_PortRGMII_ClkCfgSet q s =
     (if no_phy_port (ck_nPortId q) s then (IFX_ERROR, s)
      else (IFX_SUCCESS, wrs [(top_reg VR9_PCDU_0_RXDLY (ck_nPortId q), ucast (ck_nDelayRx q)),
        (top_reg VR9_PCDU_0_TXDLY (ck_nPortId q), ucast (ck_nDelayTx q))] s))"

section \<open>Power and link of a transceiver\<close>

text \<open>\<^verbatim>\<open>GSWIP_SET_BITS\<close> and \<^verbatim>\<open>GSWIP_GET_BITS\<close> of one bit; the results of the status are booleans.\<close>

definition IFX_FLOW_PHY_PDN_Set :: "('p hw \<Rightarrow> 'p hw) \<Rightarrow> ('p hw \<Rightarrow> 'p hw) \<Rightarrow> u16 \<Rightarrow> u8 \<Rightarrow> 'p core \<Rightarrow> (int \<times> 'p core) option" where
  "IFX_FLOW_PHY_PDN_Set hwstep mdio d a s =
     map_option (\<lambda>(_, s). (IFX_SUCCESS, s))
       (phy_update hwstep mdio 0 (\<lambda>d. d OR push_bit 11 1) \<lparr>md_nAddressDev = a, md_nAddressReg = 0, md_nData = d\<rparr> s)"

definition IFX_FLOW_PHY_PDN_Clear :: "('p hw \<Rightarrow> 'p hw) \<Rightarrow> ('p hw \<Rightarrow> 'p hw) \<Rightarrow> u16 \<Rightarrow> u8 \<Rightarrow> 'p core \<Rightarrow> (int \<times> 'p core) option" where
  "IFX_FLOW_PHY_PDN_Clear hwstep mdio d a s =
     map_option (\<lambda>(_, s). (IFX_SUCCESS, s))
       (phy_update hwstep mdio 0 (\<lambda>d. d AND NOT (push_bit 11 1)) \<lparr>md_nAddressDev = a, md_nAddressReg = 0, md_nData = d\<rparr> s)"

definition IFX_FLOW_PHY_mediumDetectStatusGet :: "('p hw \<Rightarrow> 'p hw) \<Rightarrow> ('p hw \<Rightarrow> 'p hw) \<Rightarrow> u16 \<Rightarrow> u8 \<Rightarrow> 'p core \<Rightarrow> (bool \<times> 'p core) option" where
  "IFX_FLOW_PHY_mediumDetectStatusGet hwstep mdio d a s =
     map_option (\<lambda>(m, s). (drop_bit 10 (md_nData m AND mask 11) \<noteq> 0, s))
       (IFX_FLOW_MDIO_DataRead hwstep mdio \<lparr>md_nAddressDev = a, md_nAddressReg = 0x16, md_nData = d\<rparr> s)"

definition IFX_FLOW_PHY_Link_Status_Get :: "('p hw \<Rightarrow> 'p hw) \<Rightarrow> ('p hw \<Rightarrow> 'p hw) \<Rightarrow> u16 \<Rightarrow> u8 \<Rightarrow> 'p core \<Rightarrow> (bool \<times> 'p core) option" where
  "IFX_FLOW_PHY_Link_Status_Get hwstep mdio d a s =
     map_option (\<lambda>(m, s). (md_nData m \<noteq> 0xFFFF \<and> drop_bit 2 (md_nData m AND mask 3) \<noteq> 0, s))
       (IFX_FLOW_MDIO_DataRead hwstep mdio \<lparr>md_nAddressDev = a, md_nAddressReg = 0x1, md_nData = d\<rparr> s)"

end
