(* ===== verification/Core_Phy.thy ===== *)
theory Core_Phy
  imports Core_Link Core_Snooping
begin

text \<open>
  Transceivers on the MDIO bus: the interface of the bus and of the transceivers behind it, and the modes
  they offer on behalf of a link.
\<close>

unbundle bit_operations_syntax

section \<open>The bus\<close>

text \<open>The command in the control register: operation, transceiver and register.\<close>

definition mdio_op :: "'p hw \<Rightarrow> u32" where
  "mdio_op h = drop_bit 10 (rdf MDIO_CTRL h) AND mask 2"

definition mdio_phy :: "'p hw \<Rightarrow> nat" where
  "mdio_phy h = unat (drop_bit 5 (rdf MDIO_CTRL h) AND mask 5)"

definition mdio_no :: "'p hw \<Rightarrow> nat" where
  "mdio_no h = unat (rdf MDIO_CTRL h AND mask 5)"

abbreviation MDIO_WDATA :: field where "MDIO_WDATA \<equiv> at VR9_MDIO_WRITE_WDATA IFX_ETHSW_FLOW_TOP_REG_OFFSET"
abbreviation MDIO_RDATA :: field where "MDIO_RDATA \<equiv> at VR9_MDIO_READ_RDATA IFX_ETHSW_FLOW_TOP_REG_OFFSET"

abbreviation mdio_idle :: "'p hw \<Rightarrow> bool" where "mdio_idle h \<equiv> rdf MDIO_BUSY h = 0"

text \<open>
  A command ends. \<open>view\<close> is the stable part of what a transceiver holds (not, for instance, its link status):
  \<open>put\<close> is what writing a register does to it, \<open>still\<close> says that reading a register leaves it as it is and
  \<open>told\<close> that reading gives \<open>get\<close>. In the switch, only the control register and the data read change.
\<close>

locale mdio_bus =
  fixes hwstep mdio :: "'p hw \<Rightarrow> 'p hw"
    and view :: "'p \<Rightarrow> nat \<Rightarrow> 'v"
    and put :: "nat \<Rightarrow> u16 \<Rightarrow> 'v \<Rightarrow> 'v"
    and get :: "nat \<Rightarrow> 'v \<Rightarrow> u16"
    and still told :: "nat \<Rightarrow> 'v \<Rightarrow> bool"
  assumes ends: "mdio_idle h \<Longrightarrow> \<exists>h'. poll hwstep MDIO_BUSY (mdio h) = Some h'"
    and frame: "mdio_idle h \<Longrightarrow> poll hwstep MDIO_BUSY (mdio h) = Some h' \<Longrightarrow> off \<notin> {0xC48, 0xC49} \<Longrightarrow> regs h' off = regs h off"
    and written: "mdio_idle h \<Longrightarrow> poll hwstep MDIO_BUSY (mdio h) = Some h' \<Longrightarrow> mdio_op h = 1 \<Longrightarrow>
      view (priv h') = (view (priv h))(mdio_phy h := put (mdio_no h) (ucast (rdf MDIO_WDATA h)) (view (priv h) (mdio_phy h)))"
    and read_still: "mdio_idle h \<Longrightarrow> poll hwstep MDIO_BUSY (mdio h) = Some h' \<Longrightarrow> mdio_op h = 2 \<Longrightarrow>
      still (mdio_no h) (view (priv h) (mdio_phy h)) \<Longrightarrow> view (priv h') = view (priv h)"
    and read_told: "mdio_idle h \<Longrightarrow> poll hwstep MDIO_BUSY (mdio h) = Some h' \<Longrightarrow> mdio_op h = 2 \<Longrightarrow>
      told (mdio_no h) (view (priv h) (mdio_phy h)) \<Longrightarrow> rdf MDIO_RDATA h' = ucast (get (mdio_no h) (view (priv h) (mdio_phy h)))"

lemma mdio_cmd_bit:
  assumes "k < 2"
  shows "bit (mdio_cmd (2 ^ k) q) n \<longleftrightarrow> n = 10 + k \<or> 5 \<le> n \<and> n < 10 \<and> bit (md_nAddressDev q) (n - 5) \<or> n < 5 \<and> bit (md_nAddressReg q) n"
proof -
  have m: "(0x1F :: u32) = mask 5" by (simp add: mask_eq_exp_minus_1)
  show ?thesis unfolding mdio_cmd_def m using assms
    by (cases "n < 5"; cases "n < 10"; auto simp: bit_simps simp flip: push_bit_of_1)
qed

lemma mdio_cmd_bits:
  assumes "k < 2"
  shows "drop_bit 10 (mdio_cmd (2 ^ k) q AND mask 16) AND mask 2 = 2 ^ k"
    "drop_bit 5 (mdio_cmd (2 ^ k) q AND mask 16) AND mask 5 = ucast (md_nAddressDev q) AND mask 5"
    "(mdio_cmd (2 ^ k) q AND mask 16) AND mask 5 = ucast (md_nAddressReg q) AND mask 5"
    "drop_bit 12 (mdio_cmd (2 ^ k) q AND mask 16) AND mask 1 = 0"
  by (rule bit_word_eqI, use assms in \<open>auto simp: bit_simps mdio_cmd_bit dest: bit_imp_le_length\<close>)+

abbreviation bus_phy :: "IFX_ETHSW_MDIO_data \<Rightarrow> nat" where "bus_phy q \<equiv> unat (md_nAddressDev q AND mask 5)"
abbreviation bus_no :: "IFX_ETHSW_MDIO_data \<Rightarrow> nat" where "bus_no q \<equiv> unat (md_nAddressReg q AND mask 5)"

lemma mdio_sent:
  assumes k: "k < 2"
  shows "mdio_idle (wrf MDIO_CTRL (mdio_cmd (2 ^ k) q) h)" "mdio_op (wrf MDIO_CTRL (mdio_cmd (2 ^ k) q) h) = 2 ^ k"
    "mdio_phy (wrf MDIO_CTRL (mdio_cmd (2 ^ k) q) h) = bus_phy q" "mdio_no (wrf MDIO_CTRL (mdio_cmd (2 ^ k) q) h) = bus_no q"
proof -
  let ?h = "wrf MDIO_CTRL (mdio_cmd (2 ^ k) q) h"
  have c: "rdf MDIO_CTRL ?h = mdio_cmd (2 ^ k) q AND mask 16" by (simp add: rdf_wrf_same)
  have u: "unat (ucast x AND mask 5 :: u32) = unat (x AND mask 5)" for x :: u8
  proof -
    have "ucast x AND mask 5 = (ucast (x AND mask 5) :: u32)" by (rule bit_word_eqI) (auto simp: bit_simps)
    then show ?thesis by (simp add: unat_ucast_up)
  qed
  have "rdf MDIO_BUSY ?h = drop_bit 12 (rdf MDIO_CTRL ?h) AND mask 1"
    by (rule bit_word_eqI) (auto simp: rdf.simps read_fld_get fld_get_def bit_simps)
  then show "mdio_idle ?h" unfolding c using mdio_cmd_bits(4) [OF k, of q] by simp
  show "mdio_op ?h = 2 ^ k" "mdio_phy ?h = bus_phy q" "mdio_no ?h = bus_no q"
    unfolding mdio_op_def mdio_phy_def mdio_no_def c mdio_cmd_bits [OF k] u by simp_all
qed

text \<open>Of the switch, only the registers of the bus changed.\<close>

definition bus_only :: "16 word set \<Rightarrow> 'p core \<Rightarrow> 'p core \<Rightarrow> bool" where
  "bus_only A s s' \<longleftrightarrow> dev s' = dev s \<and> mdio_idle (hw_of s') \<and> (\<forall>off. off \<notin> A \<longrightarrow> regs (hw_of s') off = regs (hw_of s) off)"

abbreviation bus_regs :: "16 word set" where "bus_regs \<equiv> {0xC48, 0xC49, 0xC4A}"

lemma bus_only_trans: "bus_only A s t \<Longrightarrow> bus_only A t u \<Longrightarrow> bus_only A s u"
  by (simp add: bus_only_def)

lemma bus_only_mono: "bus_only A s t \<Longrightarrow> A \<subseteq> B \<Longrightarrow> bus_only B s t"
  by (auto simp: bus_only_def)

lemma bus_only_rd: "bus_only A s t \<Longrightarrow> fst F \<notin> A \<Longrightarrow> rd F t = rd F s"
  by (rule rdf_regs) (simp add: bus_only_def)

lemma sixteen_ones: "(0xFFFF :: u32) = mask 16"
  by (simp add: mask_eq_exp_minus_1)

lemma five_bits: "d < 32 \<Longrightarrow> take_bit 5 d = (d :: u16)"
  by (rule iffD1 [OF word_unat_eq_iff [symmetric]])
    (simp add: unsigned_take_bit_eq take_bit_nat_eq_self_iff word_less_nat_alt)

lemma read_value: "x = ucast (y :: u16) \<Longrightarrow> ucast (x AND (0xFFFF :: u32)) = y"
  unfolding sixteen_ones by (simp only:) (rule bit_word_eqI, auto simp: bit_simps)

context mdio_bus
begin

abbreviation views :: "'p core \<Rightarrow> nat \<Rightarrow> 'v" where "views s \<equiv> view (priv (hw_of s))"

lemma data_write:
  assumes "mdio_idle (hw_of s)"
  obtains s' where "IFX_FLOW_MDIO_DataWrite hwstep mdio q s = Some s'" "bus_only bus_regs s s'"
    "views s' = (views s)(bus_phy q := put (bus_no q) (md_nData q) (views s (bus_phy q)))"
proof -
  let ?w = "wrf MDIO_WDATA (ucast (md_nData q) AND 0xFFFF) (hw_of s)"
  let ?h = "wrf MDIO_CTRL (mdio_cmd (2 ^ 0) q) ?w"
  have z: "(0::nat) < 2" by simp
  note c = mdio_sent [OF z, of q ?w]
  have o: "mdio_op ?h = 1" using c(2) by simp
  obtain h' where h': "poll hwstep MDIO_BUSY (mdio ?h) = Some h'" using ends [OF c(1)] by blast
  have d: "(ucast (rdf MDIO_WDATA ?h) :: u16) = md_nData q"
  proof -
    have "rdf MDIO_WDATA ?h = (ucast (md_nData q) AND 0xFFFF) AND mask 16"
      by (simp add: rdf_wrf_other fdisj.simps rdf_wrf_same)
    then have "rdf MDIO_WDATA ?h = (ucast (md_nData q) AND mask 16) AND mask 16" by (simp only: sixteen_ones)
    then show ?thesis by (simp only:) (rule bit_word_eqI, auto simp: bit_simps)
  qed
  show thesis
  proof (rule that)
    show "IFX_FLOW_MDIO_DataWrite hwstep mdio q s = Some (upd_hw (\<lambda>_. h') s)"
      using h' assms by (simp add: IFX_FLOW_MDIO_DataWrite_def mdio_wait_def)
    show "bus_only bus_regs s (upd_hw (\<lambda>_. h') s)"
      using frame [OF c(1) h'] poll_done [OF h'] by (simp add: bus_only_def)
    show "views (upd_hw (\<lambda>_. h') s) = (views s)(bus_phy q := put (bus_no q) (md_nData q) (views s (bus_phy q)))"
      using written [OF c(1) h' o] unfolding c(3,4) d by simp
  qed
qed

lemma data_read:
  assumes "mdio_idle (hw_of s)" "still (bus_no q) (views s (bus_phy q))"
  obtains x s' where "IFX_FLOW_MDIO_DataRead hwstep mdio q s = Some (q\<lparr>md_nData := x\<rparr>, s')" "bus_only bus_regs s s'"
    "views s' = views s" "told (bus_no q) (views s (bus_phy q)) \<longrightarrow> x = get (bus_no q) (views s (bus_phy q))"
proof -
  let ?h = "wrf MDIO_CTRL (mdio_cmd (2 ^ 1) q) (hw_of s)"
  have z: "(1::nat) < 2" by simp
  note c = mdio_sent [OF z, of q "hw_of s"]
  have o: "mdio_op ?h = 2" using c(2) by simp
  obtain h' where h': "poll hwstep MDIO_BUSY (mdio ?h) = Some h'" using ends [OF c(1)] by blast
  show thesis
  proof (rule that)
    show "IFX_FLOW_MDIO_DataRead hwstep mdio q s = Some (q\<lparr>md_nData := ucast (rdf MDIO_RDATA h' AND 0xFFFF)\<rparr>, upd_hw (\<lambda>_. h') s)"
      using h' assms by (simp add: IFX_FLOW_MDIO_DataRead_def mdio_wait_def)
    show "bus_only bus_regs s (upd_hw (\<lambda>_. h') s)"
      using frame [OF c(1) h'] poll_done [OF h'] by (simp add: bus_only_def)
    show "views (upd_hw (\<lambda>_. h') s) = views s"
      using read_still [OF c(1) h' o] assms(2) unfolding c(3,4) by simp
    have "ucast (rdf MDIO_RDATA h' AND 0xFFFF) = get (bus_no q) (views s (bus_phy q))" if "told (bus_no q) (views s (bus_phy q))"
      by (rule read_value) (use read_told [OF c(1) h' o] that c(3,4) in simp)
    then show "told (bus_no q) (views s (bus_phy q)) \<longrightarrow>
      ucast (rdf MDIO_RDATA h' AND 0xFFFF) = get (bus_no q) (views s (bus_phy q))" by blast
  qed
qed

lemma update:
  assumes "mdio_idle (hw_of s)" "still n (views s (bus_phy m))" "told n (views s (bus_phy m))" "unat (r AND mask 5) = n"
  obtains m' s' where "phy_update hwstep mdio r f m s = Some (m', s')" "bus_only bus_regs s s'" "md_nAddressDev m' = md_nAddressDev m"
    "views s' = (views s)(bus_phy m := put n (f (get n (views s (bus_phy m)))) (views s (bus_phy m)))"
proof -
  let ?q = "m\<lparr>md_nAddressReg := r\<rparr>"
  have "still (bus_no ?q) (views s (bus_phy ?q))" using assms by simp
  then obtain x t where r: "IFX_FLOW_MDIO_DataRead hwstep mdio ?q s = Some (?q\<lparr>md_nData := x\<rparr>, t)" "bus_only bus_regs s t"
    "views t = views s" "told (bus_no ?q) (views s (bus_phy ?q)) \<longrightarrow> x = get (bus_no ?q) (views s (bus_phy ?q))"
    by (rule data_read [OF assms(1)])
  have "mdio_idle (hw_of t)" using r(2) by (simp add: bus_only_def)
  then obtain s' where w: "IFX_FLOW_MDIO_DataWrite hwstep mdio (?q\<lparr>md_nData := f x\<rparr>) t = Some s'" "bus_only bus_regs t s'"
    "views s' = (views t)(bus_phy (?q\<lparr>md_nData := f x\<rparr>) := put (bus_no (?q\<lparr>md_nData := f x\<rparr>)) (f x) (views t (bus_phy (?q\<lparr>md_nData := f x\<rparr>))))"
    by (rule data_write [where q = "?q\<lparr>md_nData := f x\<rparr>"]) simp
  show thesis
  proof (rule that)
    show "phy_update hwstep mdio r f m s = Some (?q\<lparr>md_nData := f x\<rparr>, s')"
      by (simp add: phy_update_def r(1) w(1))
    show "bus_only bus_regs s s'" using r(2) w(2) by (rule bus_only_trans)
    show "views s' = (views s)(bus_phy m := put n (f (get n (views s (bus_phy m)))) (views s (bus_phy m)))"
      using w(3) r(3,4) assms(3,4) by simp
  qed simp
qed

end

section \<open>The transceivers\<close>

text \<open>
  Of the stable part, the registers \<open>settable\<close> hold what is written to them; the extended registers \<open>held\<close>, each of a
  device and a number, hold what is written through the registers 13 (\<open>ctl\<close>) and 14, which gives a device its
  register number (\<open>adr\<close>) or the data. A write may not ask for a reset, bit 15 of register 0.
\<close>

abbreviation no_reset :: "nat \<Rightarrow> u16 \<Rightarrow> bool" where "no_reset n x \<equiv> n = 0 \<longrightarrow> \<not> bit x 15"

locale transceiver =
  fixes put :: "nat \<Rightarrow> u16 \<Rightarrow> 'v \<Rightarrow> 'v"
    and get :: "nat \<Rightarrow> 'v \<Rightarrow> u16"
    and still told :: "nat \<Rightarrow> 'v \<Rightarrow> bool"
    and settable :: "nat set"
    and held :: "(u16 \<times> u16) set"
    and ctl :: "'v \<Rightarrow> u16"
    and adr :: "'v \<Rightarrow> u16 \<Rightarrow> u16"
    and ext :: "'v \<Rightarrow> u16 \<Rightarrow> u16 \<Rightarrow> u16"
  assumes still_other: "n \<noteq> 14 \<Longrightarrow> still n v"
    and settable_told: "r \<in> settable \<Longrightarrow> told r v"
    and settable_apart: "13 \<notin> settable" "14 \<notin> settable"
    and held_dev: "(d, e) \<in> held \<Longrightarrow> d < 32"
    and get_put: "no_reset n x \<Longrightarrow> r \<in> settable \<Longrightarrow> get r (put n x v) = (if n = r then x else get r v)"
    and ctl_put: "no_reset n x \<Longrightarrow> ctl (put n x v) = (if n = 13 then x else ctl v)"
    and adr_put: "no_reset n x \<Longrightarrow> d < 32 \<Longrightarrow> adr (put n x v) d = (if n = 14 \<and> ctl v = d then x else adr v d)"
    and ext_put: "no_reset n x \<Longrightarrow> (d, e) \<in> held \<Longrightarrow>
      ext (put n x v) d e = (if n = 14 \<and> ctl v = 0x4000 OR d \<and> adr v d = e then x else ext v d e)"
    and ext_get: "(d, e) \<in> held \<Longrightarrow> ctl v = 0x4000 OR d \<Longrightarrow> adr v d = e \<Longrightarrow> still 14 v \<and> told 14 v \<and> get 14 v = ext v d e"
begin

text \<open>What a change leaves as it is.\<close>

definition leaves :: "nat set \<Rightarrow> (u16 \<times> u16) set \<Rightarrow> 'v \<Rightarrow> 'v \<Rightarrow> bool" where
  "leaves R X v v' \<longleftrightarrow> (\<forall>r\<in>settable - R. get r v' = get r v) \<and> (\<forall>d r. (d, r) \<in> held - X \<longrightarrow> ext v' d r = ext v d r)"

lemma leaves_trans: "leaves R X u v \<Longrightarrow> leaves R' X' v w \<Longrightarrow> leaves (R \<union> R') (X \<union> X') u w"
  by (auto simp: leaves_def)

lemma leaves_put: "no_reset n x \<Longrightarrow> n \<noteq> 14 \<Longrightarrow> leaves {n} {} v (put n x v)"
  by (auto simp: leaves_def get_put ext_put)

text \<open>The extended register selected and its number given; then written.\<close>

lemma selected:
  assumes "d < 32" "v' = put 13 (0x4000 OR d) (put 14 r (put 13 d v))"
  shows "ctl v' = 0x4000 OR d" "adr v' d = r" "leaves {} {} v v'"
proof -
  show "ctl v' = 0x4000 OR d" using assms(2) by (simp add: ctl_put)
  show "adr v' d = r" using assms by (simp add: adr_put ctl_put)
  have "e < 32 \<Longrightarrow> d \<noteq> 0x4000 OR e" for e :: u16
  proof
    assume "d = 0x4000 OR e"
    then have "bit d 14" by (simp add: bit_simps)
    moreover have "\<not> bit (take_bit 5 d) 14" by (simp add: bit_take_bit_iff)
    ultimately show False by (simp add: five_bits [OF assms(1)])
  qed
  then show "leaves {} {} v v'" unfolding assms(2) leaves_def
    using settable_apart held_dev by (auto simp: get_put ext_put ctl_put)
qed

lemma ext_written:
  assumes "(d, r) \<in> held" "v' = put 13 (0x4000 OR d) (put 14 r (put 13 d v))"
  shows "ext (put 14 x v') d r = x" "leaves {} {(d, r)} v (put 14 x v')"
proof -
  note S = selected [OF held_dev [OF assms(1)] assms(2)]
  show "ext (put 14 x v') d r = x" using S(1,2) assms(1) by (simp add: ext_put)
  have "0x4000 OR d = 0x4000 OR e \<Longrightarrow> e < 32 \<Longrightarrow> e = d" for e
  proof -
    have d: "d < 32" by (rule held_dev [OF assms(1)])
    assume e: "0x4000 OR d = 0x4000 OR e" "e < 32"
    have "d = take_bit 5 (0x4000 OR d)" "e = take_bit 5 (0x4000 OR e)"
      using d e(2) by (simp_all add: five_bits)
    with e(1) show "e = d" by metis
  qed
  then have "leaves {} {(d, r)} v' (put 14 x v')" unfolding leaves_def
    using settable_apart held_dev S(1,2) by (auto simp: get_put ext_put)
  from leaves_trans [OF S(3) this] show "leaves {} {(d, r)} v (put 14 x v')" by simp
qed

end

section \<open>Offered modes\<close>

text \<open>
  The modes, speed and whether full duplex, that registers 4 and 9 of a transceiver offer to the other side.
\<close>

definition offers :: "u16 \<Rightarrow> u16 \<Rightarrow> (nat \<times> bool) set" where
  "offers a4 a9 = {(v, full). v = 10 \<and> bit a4 (if full then 6 else 5) \<or> v = 100 \<and> bit a4 (if full then 8 else 7) \<or>
     v = 1000 \<and> bit a9 (if full then 9 else 8)}"

text \<open>
  The modes that a request asks for, by the documentation of its fields: the speed forced, or each of the three;
  and the duplex mode forced, or both.
\<close>

definition wanted :: "IFX_ETHSW_portLinkCfg \<Rightarrow> (nat \<times> bool) set" where
  "wanted q = (if lk_bSpeedForce q = IFX_TRUE then {unat (lk_eSpeed q)} else {10, 100, 1000}) \<times>
     (if lk_bDuplexForce q = IFX_TRUE then {lk_eDuplex q = IFX_ETHSW_DUPLEX_FULL} else UNIV)"

text \<open>
  The modes that the handler offers: only a half duplex mode that is forced counts, and a speed that
  is forced otherwise means full duplex.
\<close>

definition half_forced :: "IFX_ETHSW_portLinkCfg \<Rightarrow> bool" where
  "half_forced q \<longleftrightarrow> lk_bDuplexForce q = IFX_TRUE \<and> lk_eDuplex q \<noteq> IFX_ETHSW_DUPLEX_FULL"

definition speed_forced :: "IFX_ETHSW_portLinkCfg \<Rightarrow> bool" where
  "speed_forced q \<longleftrightarrow> lk_bSpeedForce q = IFX_TRUE \<and> lk_eSpeed q \<in> {10, 100, 1000}"

definition offered :: "IFX_ETHSW_portLinkCfg \<Rightarrow> (nat \<times> bool) set" where
  "offered q = (if speed_forced q then {(unat (lk_eSpeed q), \<not> half_forced q)}
     else {10, 100, 1000} \<times> (if half_forced q then {False} else UNIV))"

definition speed_valid :: "IFX_ETHSW_portLinkCfg \<Rightarrow> bool" where
  "speed_valid q \<longleftrightarrow> (lk_bSpeedForce q = IFX_TRUE \<longrightarrow> lk_eSpeed q \<in> {10, 100, 1000})"

lemma offered_wanted:
  assumes "speed_valid q"
  shows "offered q =
    (if lk_bSpeedForce q \<noteq> IFX_TRUE \<and> lk_bDuplexForce q = IFX_TRUE \<and> lk_eDuplex q = IFX_ETHSW_DUPLEX_FULL then {10, 100, 1000} \<times> UNIV
     else if lk_bSpeedForce q = IFX_TRUE \<and> lk_bDuplexForce q \<noteq> IFX_TRUE then {(unat (lk_eSpeed q), True)}
     else wanted q)"
  using assms by (auto simp: offered_def wanted_def speed_valid_def speed_forced_def half_forced_def)

lemma speed_valid_some: "speed_valid q \<Longrightarrow> link_speed q \<noteq> None"
  by (auto simp: speed_valid_def link_speed_def Let_def)

lemma link_duplex_half: "link_duplex q = DUPLEX_DIS \<longleftrightarrow> half_forced q"
  by (simp add: link_duplex_def half_forced_def)

lemma link_speed_cases:
  assumes "link_speed q = Some (data, c)"
  obtains (low) "data = 0 \<or> data = 1" "speed_forced q" "\<And>a b. offers (a AND NOT adv_low OR c) (b AND NOT adv_giga) = offered q"
      "c AND NOT adv_low = 0"
  | (giga) "data = 2" "speed_forced q" "\<And>a b. offers (a AND NOT adv_low) (b AND NOT adv_giga OR c) = offered q"
      "c AND NOT adv_giga = 0"
  | (auto) "data = 3" "\<not> speed_forced q"
proof -
  show thesis
  proof (cases "speed_forced q")
    case True
    then consider "lk_eSpeed q = 10" | "lk_eSpeed q = 100" | "lk_eSpeed q = 1000" and "lk_bSpeedForce q = IFX_TRUE"
      by (auto simp: speed_forced_def)
    then show thesis
    proof cases
      case 1
      show thesis by (rule low) (use 1 True assms in \<open>auto simp: link_speed_def link_duplex_half speed_forced_def
        offered_def offers_def bit_simps Let_def split: if_splits\<close>)
    next
      case 2
      show thesis by (rule low) (use 2 True assms in \<open>auto simp: link_speed_def link_duplex_half speed_forced_def
        offered_def offers_def bit_simps Let_def split: if_splits\<close>)
    next
      case 3
      show thesis by (rule giga) (use 3 True assms in \<open>auto simp: link_speed_def link_duplex_half speed_forced_def
        offered_def offers_def bit_simps Let_def split: if_splits\<close>)
    qed
  next
    case False
    show thesis by (rule auto) (use False assms in \<open>auto simp: link_speed_def speed_forced_def Let_def split: if_splits\<close>)
  qed
qed

lemma offers_free:
  "\<not> speed_forced q \<Longrightarrow> offers (if half_forced q then a AND NOT adv_low OR (PHY_AN_ADV_10HDX OR PHY_AN_ADV_100HDX) else a OR adv_low)
     (if half_forced q then b AND NOT adv_giga OR PHY_AN_ADV_1000HDX else b OR adv_giga) = offered q"
  by (auto simp: offers_def offered_def bit_simps)

lemma masked:
  fixes a :: u16
  shows "c AND NOT m = 0 \<Longrightarrow> (a AND NOT m OR c) AND NOT m = a AND NOT m" "a AND NOT m AND NOT m = a AND NOT m"
    "(a OR m) AND NOT m = a AND NOT m"
proof -
  assume c: "c AND NOT m = 0"
  show "(a AND NOT m OR c) AND NOT m = a AND NOT m"
  proof (rule bit_word_eqI)
    fix n assume "n < LENGTH(16)"
    moreover have "\<not> bit (c AND NOT m) n" by (simp add: c)
    ultimately show "bit ((a AND NOT m OR c) AND NOT m) n = bit (a AND NOT m) n" by (auto simp: bit_simps)
  qed
qed (rule bit_word_eqI; auto simp: bit_simps)+

locale phy_bus = mdio_bus hwstep mdio view put get still told + transceiver put get still told settable held ctl adr ext
  for hwstep mdio :: "'p hw \<Rightarrow> 'p hw" and view :: "'p \<Rightarrow> nat \<Rightarrow> 'v" and put get still told settable held ctl adr ext
begin

text \<open>How a transceiver changes when it offers the modes of a link.\<close>

definition offering :: "IFX_ETHSW_portLinkCfg \<Rightarrow> 'v \<Rightarrow> 'v \<Rightarrow> bool" where
  "offering q v v' \<longleftrightarrow> leaves {4, 9} {} v v' \<and> offers (get 4 v') (get 9 v') = offered q \<and>
     get 4 v' AND NOT adv_low = get 4 v AND NOT adv_low \<and> get 9 v' AND NOT adv_giga = get 9 v AND NOT adv_giga"

lemma advertise:
  assumes s: "mdio_idle (hw_of s)" and p: "{4, 9} \<subseteq> settable" and l: "link_speed q = Some (data, c)"
  obtains m' s' v' where "link_advertise hwstep mdio data c (link_duplex q) m s = Some (m', s')" "bus_only bus_regs s s'"
    "views s' = (views s)(bus_phy m := v')" "offering q (views s (bus_phy m)) v'" "md_nAddressDev m' = md_nAddressDev m"
proof -
  have n: "unat ((4 :: u8) AND mask 5) = 4" "unat ((9 :: u8) AND mask 5) = 9" by (simp_all add: mask_eq_exp_minus_1)
  have P: "still 4 v \<and> told 4 v" "still 9 v \<and> told 9 v" for v using p settable_told still_other by auto
  let ?v = "views s (bus_phy m)"
  note found = that
  have two: thesis
    if L: "link_advertise hwstep mdio data c (link_duplex q) m s = do {
        (m, s) \<leftarrow> phy_update hwstep mdio (of_nat i) f m s; phy_update hwstep mdio (of_nat j) g m s }"
      and ij: "(i, j) \<in> {(4, 9), (9, 4)}"
      and o: "offering q ?v (put j (g (get j ?v)) (put i (f (get i ?v)) ?v))" for i j f g
  proof -
    have I: "still i v" "told i v" "unat (of_nat i AND mask 5 :: u8) = i" "still j v" "told j v" "unat (of_nat j AND mask 5 :: u8) = j" for v
      using ij n P by auto
    from update [OF s I(1-3), where m = m and f = f] obtain m1 s1 where 1: "phy_update hwstep mdio (of_nat i) f m s = Some (m1, s1)"
      "bus_only bus_regs s s1" "md_nAddressDev m1 = md_nAddressDev m" "views s1 = (views s)(bus_phy m := put i (f (get i ?v)) ?v)" .
    have "mdio_idle (hw_of s1)" using 1(2) by (simp add: bus_only_def)
    from update [OF this I(4-6), where m = m1 and f = g] obtain m2 s2 where 2: "phy_update hwstep mdio (of_nat j) g m1 s1 = Some (m2, s2)"
      "bus_only bus_regs s1 s2" "md_nAddressDev m2 = md_nAddressDev m1"
      "views s2 = (views s1)(bus_phy m1 := put j (g (get j (views s1 (bus_phy m1)))) (views s1 (bus_phy m1)))" .
    have "j \<in> settable" "i \<noteq> j" "no_reset i x" for x using ij p by auto
    then have "get j (put i x ?v) = get j ?v" for x by (simp add: get_put)
    then have "views s2 = (views s)(bus_phy m := put j (g (get j ?v)) (put i (f (get i ?v)) ?v))"
      using 2(4) 1(3,4) by simp
    with 1(1-3) 2(1-3) o show thesis by (intro found [of m2 s2]) (auto intro: bus_only_trans simp: L)
  qed
  have keep: "leaves {4, 9} {} v (put 9 y (put 4 x v))" "leaves {4, 9} {} v (put 4 x (put 9 y v))" for x y v
    using leaves_trans [OF leaves_put [of 4 x v] leaves_put [of 9 y "put 4 x v"]]
      leaves_trans [OF leaves_put [of 9 y v] leaves_put [of 4 x "put 9 y v"]] by (simp_all add: insert_commute)
  from l show thesis
  proof (cases rule: link_speed_cases)
    case low
    show thesis
      by (rule two [of 4 "\<lambda>d. d AND NOT adv_low OR c" 9 "\<lambda>d. d AND NOT adv_giga"])
        (use low p keep masked(1) [OF low(4)] in \<open>auto simp: link_advertise_def offering_def get_put\<close>)
  next
    case giga
    show thesis
      by (rule two [of 9 "\<lambda>d. d AND NOT adv_giga OR c" 4 "\<lambda>d. d AND NOT adv_low"])
        (use giga p keep masked(1) [OF giga(4)] in \<open>auto simp: link_advertise_def offering_def get_put\<close>)
  next
    case auto
    show thesis
      by (rule two [of 4 "\<lambda>d. if half_forced q then d AND NOT adv_low OR (PHY_AN_ADV_10HDX OR PHY_AN_ADV_100HDX) else d OR adv_low"
          9 "\<lambda>d. if half_forced q then d AND NOT adv_giga OR PHY_AN_ADV_1000HDX else d OR adv_giga"])
        (use auto p keep masked(1) [of "PHY_AN_ADV_10HDX OR PHY_AN_ADV_100HDX" adv_low] masked(1) [of PHY_AN_ADV_1000HDX adv_giga]
          masked(3) [where m = adv_low] masked(3) [where m = adv_giga] offers_free [of q] in \<open>auto simp: link_advertise_def offering_def get_put link_duplex_half\<close>)
  qed
qed

end

end
