(* ===== verification/Core_Mode.thy ===== *)
theory Core_Mode
  imports Core_Phy
begin

text \<open>
  The handlers of the link settings on a bus of transceivers: extended registers, link configuration, and a
  reference device.
\<close>

unbundle bit_operations_syntax

section \<open>Polling switched off\<close>

lemma below_ten: "i < 10 \<Longrightarrow> i = 0 \<or> i = 1 \<or> i = 2 \<or> i = 3 \<or> i = 4 \<or> i = 5 \<or> i = 6 \<or> i = 7 \<or> i = 8 \<or> i = (9::nat)"
  by presburger

text \<open>The registers an access to the transceiver of a port may change in the switch.\<close>

definition poll_regs :: "nat \<Rightarrow> 16 word set" where
  "poll_regs i = bus_regs \<union> {0xC4B, fst (phy_word i)}"

lemma phy_word_off: "i < 10 \<Longrightarrow> fst (phy_word i) \<notin> {0xC48, 0xC49, 0xC4A, 0xC4B, 0xC56}"
  by (drule below_ten) (auto simp: phy_word_def at.simps)

lemma phy_word_inj: "i < 10 \<Longrightarrow> j < 10 \<Longrightarrow> i \<noteq> j \<Longrightarrow> fst (phy_word i) \<noteq> fst (phy_word j)"
  by (drule below_ten, drule below_ten) (auto simp: phy_word_def at.simps)

lemma phy_addr_word: "rdf (phy_addr j) h = rdf (phy_word j) h AND mask 5"
proof -
  have "fld_get x 0 5 = fld_get x 0 16 AND mask 5" for x
    by (rule bit_word_eqI) (auto simp: fld_get_mask bit_simps simp del: mask_numeral)
  then show ?thesis by (simp add: phy_addr_def phy_word_def at.simps rdf.simps read_fld_get)
qed

lemma low_five: "(\<And>n. n \<in> {0, 1, 2, 3, 4} \<Longrightarrow> bit (x :: u32) n = bit y n) \<Longrightarrow> x AND mask 5 = y AND mask 5"
proof (rule bit_word_eqI)
  fix n assume *: "\<And>n. n \<in> {0, 1, 2, 3, 4} \<Longrightarrow> bit x n = bit y n"
  have "n < 5 \<Longrightarrow> n \<in> {0, 1, 2, 3, 4}" for n :: nat by auto
  with * [of n] have "n < 5 \<Longrightarrow> bit x n = bit y n" by blast
  then show "bit (x AND mask 5) n = bit (y AND mask 5) n" by (auto simp only: bit_and_iff bit_mask_iff)
qed

lemma fixed_mode_low: "fixed_mode stat a AND mask 5 = a AND mask 5"
proof (rule low_five)
  fix n :: nat assume "n \<in> {0, 1, 2, 3, 4}"
  then consider "n = 0" | "n = 1" | "n = 2" | "n = 3" | "n = 4" by blast
  then show "bit (fixed_mode stat a) n = bit a n"
    by cases (auto simp: fixed_mode_def Let_def bit_simps)
qed

lemma down_mode_low: "(a AND NOT 0xFFE0 OR push_bit 11 0x3) AND mask 5 = (a :: u32) AND mask 5"
  by (rule low_five) (auto simp: bit_simps)

lemma forced:
  assumes s: "mdio_idle (hw_of s)" and i: "i < 10"
    and s': "s' = snd (force_to_configure_phy_settings (of_nat i) l s)"
  shows "bus_only {fst (phy_word i)} s s'" "priv (hw_of s') = priv (hw_of s)" "j < 10 \<Longrightarrow> rd (phy_addr j) s' = rd (phy_addr j) s"
proof -
  have u: "unat (of_nat i :: u8) = i" by (rule unat_of_nat_small) (use i in simp)
  have w: "fst (phy_word k) = fst (phy_word j) \<longleftrightarrow> k = j" if "k < 10" "j < 10" for k j
    using phy_word_inj [OF that] by auto
  have "s' = s \<or> (\<exists>v. v AND mask 5 = rd (phy_word i) s AND mask 5 \<and> s' = wr (phy_word i) v s)"
    unfolding s' force_to_configure_phy_settings_def Let_def u
    using fixed_mode_low down_mode_low by (auto simp del: mask_numeral)
  moreover have "bus_only {fst (phy_word i)} s s" using s by (simp add: bus_only_def)
  moreover have "bus_only {fst (phy_word i)} s (wr (phy_word i) v s)" for v
    using s phy_word_off [OF i] by (auto simp: bus_only_def rdf_wrf_other phy_word_def fdisj.simps at.simps)
  moreover have "rd (phy_addr j) (wr (phy_word i) v s) = rd (phy_addr j) s"
    if "j < 10" "v AND mask 5 = rd (phy_word i) s AND mask 5" for j v
  proof (cases "i = j")
    case True
    have "rd (phy_word i) (wr (phy_word i) v s) = v AND mask 16" by (simp add: phy_word_def rdf_wrf_same)
    moreover have "(v AND mask 16) AND mask 5 = v AND mask 5" by (rule bit_word_eqI) (auto simp: bit_simps simp del: mask_numeral)
    ultimately show ?thesis using that True by (simp add: phy_addr_word del: mask_numeral)
  next
    case False
    then have "fdisj (phy_word i) (phy_word j)" using phy_word_inj [OF i that(1)]
      by (simp add: phy_word_def fdisj.simps at.simps)
    then show ?thesis by (simp add: phy_addr_word rdf_wrf_other del: mask_numeral)
  qed
  ultimately show "bus_only {fst (phy_word i)} s s'" "priv (hw_of s') = priv (hw_of s)" "j < 10 \<Longrightarrow> rd (phy_addr j) s' = rd (phy_addr j) s"
    by auto
qed

text \<open>An access with the polling of its port switched off: the port is polled again, and no transceiver has another address.\<close>

abbreviation same_addr :: "'p core \<Rightarrow> 'p core \<Rightarrow> bool" where
  "same_addr s s' \<equiv> \<forall>j<10. rd (phy_addr j) s' = rd (phy_addr j) s"

lemma bus_only_addr:
  assumes "bus_only A s s'" "A \<subseteq> insert 0xC4B bus_regs" shows "same_addr s s'"
proof (intro allI impI)
  fix j :: nat assume "j < 10"
  then have "fst (phy_addr j) \<notin> A" using phy_word_off [of j] assms(2) by (auto simp: phy_word_def phy_addr_def at.simps)
  then show "rd (phy_addr j) s' = rd (phy_addr j) s" by (rule bus_only_rd [OF assms(1)])
qed

lemma polled: "mdio_idle (hw_of s) \<Longrightarrow> bus_only {0xC4B} s (wr mdc_poll v s)"
  by (simp add: bus_only_def rdf_wrf_other fdisj.simps)

lemma unpolled_run:
  assumes s: "mdio_idle (hw_of s)" and i: "i < 10"
    and f: "\<And>t. bus_only (poll_regs i) s t \<Longrightarrow> priv (hw_of t) = priv (hw_of s) \<Longrightarrow>
      \<exists>r t'. f t = Some (r, t') \<and> bus_only bus_regs t t' \<and> Q r (priv (hw_of t'))"
  obtains r s' where "unpolled i f s = Some (r, s')" "bus_only (poll_regs i) s s'" "same_addr s s'" "Q r (priv (hw_of s'))"
    "i < 6 \<longrightarrow> bit (rd mdc_poll s') i"
proof -
  define s1 where "s1 = snd (force_to_configure_phy_settings (of_nat i) 1 s)"
  note 1 = forced [OF s i s1_def]
  let ?r = "rd mdc_poll s1 AND NOT (push_bit i 1)"
  have i1: "mdio_idle (hw_of s1)" using 1(1) by (simp add: bus_only_def)
  let ?t = "wr mdc_poll ?r s1"
  have b0: "bus_only (poll_regs i) s ?t"
    by (rule bus_only_trans [OF bus_only_mono [OF 1(1)] bus_only_mono [OF polled [OF i1]]]) (auto simp: poll_regs_def)
  from f [OF b0] 1(2) obtain r t' where t': "f ?t = Some (r, t')" "bus_only bus_regs ?t t'" "Q r (priv (hw_of t'))" by auto
  have b: "bus_only (poll_regs i) s t'"
    by (rule bus_only_trans [OF b0 bus_only_mono [OF t'(2)]]) (auto simp: poll_regs_def)
  then have i2: "mdio_idle (hw_of t')" by (simp add: bus_only_def)
  let ?u = "wr mdc_poll (?r OR push_bit i 1) t'"
  note p = polled [OF i2, of "?r OR push_bit i 1"]
  have i3: "mdio_idle (hw_of ?u)" using p by (simp add: bus_only_def)
  define s' where "s' = snd (force_to_configure_phy_settings (of_nat i) 0 ?u)"
  note 2 = forced [OF i3 i s'_def]
  show thesis
  proof (rule that)
    show "unpolled i f s = Some (r, s')" using t'(1) by (simp add: unpolled_def s1_def s'_def Let_def)
    show "bus_only (poll_regs i) s s'"
      by (rule bus_only_trans [OF b bus_only_trans [OF bus_only_mono [OF p] bus_only_mono [OF 2(1)]]]) (auto simp: poll_regs_def)
    show "same_addr s s'"
      using 1(3) bus_only_addr [OF polled [OF i1, of ?r]] bus_only_addr [OF t'(2)] bus_only_addr [OF p] 2(3) by auto
    show "Q r (priv (hw_of s'))" using t'(3) 2(2) by simp
    have "fst mdc_poll \<notin> {fst (phy_word i)}" using phy_word_off [OF i] by auto
    then have "rd mdc_poll s' = rd mdc_poll ?u" by (rule bus_only_rd [OF 2(1)])
    then show "i < 6 \<longrightarrow> bit (rd mdc_poll s') i" by (auto simp: rdf_wrf_same bit_simps simp del: mask_numeral)
  qed
qed

section \<open>Extended registers\<close>

lemma bus_no_lit: "unat (0xd AND mask 5 :: u8) = 13" "unat (0xe AND mask 5 :: u8) = 14" "unat (0 AND mask 5 :: u8) = 0"
  by (simp_all add: mask_eq_exp_minus_1)

abbreviation phy_no :: "u8 \<Rightarrow> nat" where "phy_no a \<equiv> unat (a AND mask 5)"

lemma phy_no_addr: "phy_no (ucast (rdf (phy_addr j) h)) = unat (rdf (phy_addr j) h)"
proof -
  have "(ucast (rdf (phy_addr j) h) AND mask 5 :: u8) = ucast (rdf (phy_addr j) h)"
    unfolding phy_addr_word by (rule bit_word_eqI) (auto simp: bit_simps simp del: mask_numeral)
  moreover have "unat (rdf (phy_addr j) h) < 2 ^ 5"
    using rdf_less [of "phy_addr j" h] by (simp add: phy_addr_def)
  ultimately show ?thesis by (simp add: unsigned_ucast_eq take_bit_nat_eq_self_iff)
qed

context mdio_bus
begin

text \<open>What selecting an extended register does to a transceiver.\<close>

abbreviation pointed :: "u16 \<Rightarrow> u16 \<Rightarrow> 'v \<Rightarrow> 'v" where
  "pointed d e v \<equiv> put 13 (0x4000 OR d) (put 14 e (put 13 d v))"

lemma select:
  assumes "mdio_idle (hw_of s)"
  obtains s' where "mmd_select hwstep mdio a d e d s = Some s'" "bus_only bus_regs s s'"
    "views s' = (views s)(phy_no a := pointed d e (views s (phy_no a)))"
proof -
  let ?c = "\<lambda>n x. \<lparr>md_nAddressDev = a, md_nAddressReg = n, md_nData = x\<rparr>"
  obtain s1 where 1: "IFX_FLOW_MDIO_DataWrite hwstep mdio (?c 0xd d) s = Some s1" "bus_only bus_regs s s1"
    "views s1 = (views s)(phy_no a := put 13 d (views s (phy_no a)))"
    by (rule data_write [OF assms, of "?c 0xd d"]) (simp add: bus_no_lit)
  then have "mdio_idle (hw_of s1)" by (simp add: bus_only_def)
  then obtain s2 where 2: "IFX_FLOW_MDIO_DataWrite hwstep mdio (?c 0xe e) s1 = Some s2" "bus_only bus_regs s1 s2"
    "views s2 = (views s1)(phy_no a := put 14 e (views s1 (phy_no a)))"
    by (rule data_write [of _ "?c 0xe e"]) (simp add: bus_no_lit)
  then have "mdio_idle (hw_of s2)" by (simp add: bus_only_def)
  then obtain s3 where 3: "IFX_FLOW_MDIO_DataWrite hwstep mdio (?c 0xd (0x4000 OR d)) s2 = Some s3" "bus_only bus_regs s2 s3"
    "views s3 = (views s2)(phy_no a := put 13 (0x4000 OR d) (views s2 (phy_no a)))"
    by (rule data_write [of _ "?c 0xd (0x4000 OR d)"]) (simp add: bus_no_lit)
  show thesis
    by (rule that [of s3]) (use 1 2 3 in \<open>auto simp: mmd_select_def intro: bus_only_trans\<close>)
qed

text \<open>An extended register written while its port is not polled.\<close>

lemma pointed_write:
  assumes "mdio_idle (hw_of s)"
  obtains s' where "mmd_select hwstep mdio a d e d s \<bind> IFX_FLOW_MDIO_DataWrite hwstep mdio \<lparr>md_nAddressDev = a, md_nAddressReg = 0xe, md_nData = x\<rparr> = Some s'"
    "bus_only bus_regs s s'" "views s' = (views s)(phy_no a := put 14 x (pointed d e (views s (phy_no a))))"
proof -
  let ?q = "\<lparr>md_nAddressDev = a, md_nAddressReg = 0xe, md_nData = x\<rparr>"
  obtain t where t: "mmd_select hwstep mdio a d e d s = Some t" "bus_only bus_regs s t"
    "views t = (views s)(phy_no a := pointed d e (views s (phy_no a)))"
    by (rule select [OF assms])
  then have "mdio_idle (hw_of t)" by (simp add: bus_only_def)
  then obtain s' where "IFX_FLOW_MDIO_DataWrite hwstep mdio ?q t = Some s'" "bus_only bus_regs t s'"
    "views s' = (views t)(phy_no a := put 14 x (views t (phy_no a)))"
    by (rule data_write [of _ ?q]) (simp add: bus_no_lit)
  with t show thesis by (intro that [of s']) (auto intro: bus_only_trans)
qed

lemma unpolled_write:
  assumes s: "mdio_idle (hw_of s)" and i: "i < 10"
  obtains s' where "unpolled i (\<lambda>s. do {
       s \<leftarrow> mmd_select hwstep mdio a d e d s;
       s \<leftarrow> IFX_FLOW_MDIO_DataWrite hwstep mdio \<lparr>md_nAddressDev = a, md_nAddressReg = 0xe, md_nData = x\<rparr> s;
       Some (IFX_SUCCESS, s) }) s = Some (IFX_SUCCESS, s')"
    "bus_only (poll_regs i) s s'" "same_addr s s'" "i < 6 \<longrightarrow> bit (rd mdc_poll s') i"
    "views s' = (views s)(phy_no a := put 14 x (pointed d e (views s (phy_no a))))"
proof -
  let ?f = "\<lambda>s. do {
       s \<leftarrow> mmd_select hwstep mdio a d e d s;
       s \<leftarrow> IFX_FLOW_MDIO_DataWrite hwstep mdio \<lparr>md_nAddressDev = a, md_nAddressReg = 0xe, md_nData = x\<rparr> s;
       Some (IFX_SUCCESS, s) }"
  have "\<exists>r t'. ?f t = Some (r, t') \<and> bus_only bus_regs t t' \<and>
      (r = IFX_SUCCESS \<and> view (priv (hw_of t')) = (views s)(phy_no a := put 14 x (pointed d e (views s (phy_no a)))))"
    if "bus_only (poll_regs i) s t" "priv (hw_of t) = priv (hw_of s)" for t
  proof -
    have "mdio_idle (hw_of t)" using that(1) by (simp add: bus_only_def)
    then obtain t' where "mmd_select hwstep mdio a d e d t \<bind> IFX_FLOW_MDIO_DataWrite hwstep mdio \<lparr>md_nAddressDev = a, md_nAddressReg = 0xe, md_nData = x\<rparr> = Some t'"
      "bus_only bus_regs t t'" "views t' = (views t)(phy_no a := put 14 x (pointed d e (views t (phy_no a))))"
      by (rule pointed_write)
    with that(2) show ?thesis by (auto simp: bind_eq_Some_conv)
  qed
  from unpolled_run [where f = ?f and Q = "\<lambda>r v. r = IFX_SUCCESS \<and> view v = (views s)(phy_no a := put 14 x (pointed d e (views s (phy_no a))))",
      OF s i this] that show thesis by blast
qed

end

text \<open>Ports whose registers lie apart from those of the bus.\<close>

abbreviation few_ports :: "'p core \<Rightarrow> bool" where
  "few_ports s \<equiv> 1 \<le> unat (nPortNumber (dev s)) \<and> unat (nPortNumber (dev s)) \<le> 11"

lemma port_count: "1 \<le> unat (n :: u8) \<Longrightarrow> unat (ucast n - 1 :: u32) = unat n - 1"
  by (subst unat_sub) (simp_all add: word_le_nat_alt unat_ucast_up)

lemma phy_port_less: "few_ports s \<Longrightarrow> phy_port a s = Some i \<Longrightarrow> i < 10"
  by (auto simp: phy_port_def find_Some_iff port_count)

lemma find_port_same: "(\<And>j. j \<in> set xs \<Longrightarrow> P j = Q j) \<Longrightarrow> find P xs = find Q xs"
  by (induction xs) auto

lemma phy_port_same:
  assumes "few_ports s" "dev s' = dev s" "same_addr s s'" shows "phy_port a s' = phy_port a s"
  unfolding phy_port_def assms(2) using assms(1,3) by (intro find_port_same) (auto simp: port_count)

context phy_bus
begin

lemma mmd_write:
  assumes s: "mdio_idle (hw_of s)" "few_ports s" and i: "phy_port (xm_nAddressDev q) s = Some i" and h: "(mmd_dev q, mmd_reg q) \<in> held"
  obtains s' v where "IFX_FLOW_MmdDataWrite hwstep mdio q s = Some (IFX_SUCCESS, s')" "bus_only (poll_regs i) s s'" "same_addr s s'"
    "views s' = (views s)(phy_no (xm_nAddressDev q) := v)" "ext v (mmd_dev q) (mmd_reg q) = xm_nData q"
    "leaves {} {(mmd_dev q, mmd_reg q)} (views s (phy_no (xm_nAddressDev q))) v"
proof -
  from unpolled_write [OF s(1) phy_port_less [OF s(2) i]] obtain s' where
    "unpolled i (\<lambda>s. do {
       s \<leftarrow> mmd_select hwstep mdio (xm_nAddressDev q) (mmd_dev q) (mmd_reg q) (mmd_dev q) s;
       s \<leftarrow> IFX_FLOW_MDIO_DataWrite hwstep mdio \<lparr>md_nAddressDev = xm_nAddressDev q, md_nAddressReg = 0xe, md_nData = xm_nData q\<rparr> s;
       Some (IFX_SUCCESS, s) }) s = Some (IFX_SUCCESS, s')"
    "bus_only (poll_regs i) s s'" "same_addr s s'"
    "views s' = (views s)(phy_no (xm_nAddressDev q) := put 14 (xm_nData q) (pointed (mmd_dev q) (mmd_reg q) (views s (phy_no (xm_nAddressDev q)))))"
    by blast
  with ext_written [OF h refl] i show thesis
    by (intro that [of s']) (auto simp: IFX_FLOW_MmdDataWrite_def)
qed

lemma mmd_read:
  assumes s: "mdio_idle (hw_of s)" "few_ports s" and i: "phy_port (xm_nAddressDev q) s = Some i" and h: "(mmd_dev q, mmd_reg q) \<in> held"
  obtains s' v where "IFX_FLOW_MmdDataRead hwstep mdio q s =
      Some (IFX_SUCCESS, q\<lparr>xm_nData := ext (views s (phy_no (xm_nAddressDev q))) (mmd_dev q) (mmd_reg q)\<rparr>, s')"
    "bus_only (poll_regs i) s s'" "same_addr s s'" "views s' = (views s)(phy_no (xm_nAddressDev q) := v)"
    "leaves {} {} (views s (phy_no (xm_nAddressDev q))) v"
proof -
  let ?A = "phy_no (xm_nAddressDev q)"
  let ?q = "\<lparr>md_nAddressDev = xm_nAddressDev q, md_nAddressReg = 0xe, md_nData = 0x4000 OR mmd_dev q\<rparr>"
  let ?v = "pointed (mmd_dev q) (mmd_reg q) (views s ?A)"
  let ?f = "\<lambda>s. do {
       s \<leftarrow> mmd_select hwstep mdio (xm_nAddressDev q) (mmd_dev q) (mmd_reg q) (mmd_dev q) s;
       IFX_FLOW_MDIO_DataRead hwstep mdio ?q s }"
  note S = selected [OF held_dev [OF h] refl, where r = "mmd_reg q" and v = "views s ?A"]
  have e: "still 14 ?v" "told 14 ?v" "get 14 ?v = ext (views s ?A) (mmd_dev q) (mmd_reg q)"
    using ext_get [OF h S(1,2)] S(3) h by (auto simp: leaves_def)
  have "\<exists>r t'. ?f t = Some (r, t') \<and> bus_only bus_regs t t' \<and>
      (md_nData r = ext (views s ?A) (mmd_dev q) (mmd_reg q) \<and> view (priv (hw_of t')) = (views s)(?A := ?v))"
    if "bus_only (poll_regs i) s t" "priv (hw_of t) = priv (hw_of s)" for t
  proof -
    have "mdio_idle (hw_of t)" using that(1) by (simp add: bus_only_def)
    then obtain u where u: "mmd_select hwstep mdio (xm_nAddressDev q) (mmd_dev q) (mmd_reg q) (mmd_dev q) t = Some u"
      "bus_only bus_regs t u" "views u = (views t)(?A := pointed (mmd_dev q) (mmd_reg q) (views t ?A))"
      by (rule select)
    have v: "views u = (views s)(?A := ?v)" using u(3) that(2) by simp
    have "mdio_idle (hw_of u)" "still (bus_no ?q) (views u (bus_phy ?q))" using u(2) e(1) v by (simp_all add: bus_only_def bus_no_lit)
    then obtain x t' where "IFX_FLOW_MDIO_DataRead hwstep mdio ?q u = Some (?q\<lparr>md_nData := x\<rparr>, t')" "bus_only bus_regs u t'"
      "views t' = views u" "told (bus_no ?q) (views u (bus_phy ?q)) \<longrightarrow> x = get (bus_no ?q) (views u (bus_phy ?q))"
      by (rule data_read)
    with u(1,2) v e show ?thesis by (auto simp: bus_no_lit intro: bus_only_trans)
  qed
  from unpolled_run [where f = ?f and Q = "\<lambda>r v. md_nData r = ext (views s ?A) (mmd_dev q) (mmd_reg q) \<and> view v = (views s)(?A := ?v)",
      OF s(1) phy_port_less [OF s(2) i] this]
  obtain r s' where "unpolled i ?f s = Some (r, s')" "bus_only (poll_regs i) s s'" "same_addr s s'"
    "md_nData r = ext (views s ?A) (mmd_dev q) (mmd_reg q)" "views s' = (views s)(?A := ?v)" by blast
  with S(3) i show thesis by (intro that [of s' ?v]) (auto simp: IFX_FLOW_MmdDataRead_def)
qed

lemma mmd_write_read:
  assumes s: "mdio_idle (hw_of s)" "few_ports s" and i: "phy_port (xm_nAddressDev q) s = Some i" and h: "(mmd_dev q, mmd_reg q) \<in> held"
    and r: "xm_nAddressDev r = xm_nAddressDev q" "xm_nAddressReg r = xm_nAddressReg q"
  obtains s1 s2 v where "IFX_FLOW_MmdDataWrite hwstep mdio q s = Some (IFX_SUCCESS, s1)"
    "IFX_FLOW_MmdDataRead hwstep mdio r s1 = Some (IFX_SUCCESS, r\<lparr>xm_nData := xm_nData q\<rparr>, s2)"
    "dev s2 = dev s" "same_addr s s2" "views s2 = (views s)(phy_no (xm_nAddressDev q) := v)"
    "leaves {} {(mmd_dev q, mmd_reg q)} (views s (phy_no (xm_nAddressDev q))) v"
proof -
  let ?A = "phy_no (xm_nAddressDev q)"
  obtain s1 v where 1: "IFX_FLOW_MmdDataWrite hwstep mdio q s = Some (IFX_SUCCESS, s1)" "bus_only (poll_regs i) s s1" "same_addr s s1"
    "views s1 = (views s)(?A := v)" "ext v (mmd_dev q) (mmd_reg q) = xm_nData q" "leaves {} {(mmd_dev q, mmd_reg q)} (views s ?A) v"
    by (rule mmd_write [OF s i h])
  have d: "mdio_idle (hw_of s1)" "dev s1 = dev s" using 1(2) by (simp_all add: bus_only_def)
  have m: "mmd_dev r = mmd_dev q" "mmd_reg r = mmd_reg q" using r by (simp_all add: mmd_dev_def mmd_reg_def)
  have f: "few_ports s1" "phy_port (xm_nAddressDev r) s1 = Some i" "(mmd_dev r, mmd_reg r) \<in> held"
    using s(2) i h phy_port_same [OF s(2) d(2) 1(3)] d(2) r m by simp_all
  obtain s2 w where 2: "IFX_FLOW_MmdDataRead hwstep mdio r s1 =
      Some (IFX_SUCCESS, r\<lparr>xm_nData := ext (views s1 (phy_no (xm_nAddressDev r))) (mmd_dev r) (mmd_reg r)\<rparr>, s2)"
    "bus_only (poll_regs i) s1 s2" "same_addr s1 s2" "views s2 = (views s1)(phy_no (xm_nAddressDev r) := w)"
    "leaves {} {} (views s1 (phy_no (xm_nAddressDev r))) w"
    by (rule mmd_read [OF d(1) f])
  show thesis
  proof (rule that [OF 1(1)])
    show "IFX_FLOW_MmdDataRead hwstep mdio r s1 = Some (IFX_SUCCESS, r\<lparr>xm_nData := xm_nData q\<rparr>, s2)"
      using 2(1) 1(4,5) m r by simp
    show "dev s2 = dev s" using 2(2) d(2) by (simp add: bus_only_def)
    show "same_addr s s2" using 1(3) 2(3) by simp
    show "views s2 = (views s)(?A := w)" using 1(4) 2(4) r by simp
    have "leaves {} {} v w" using 2(5) 1(4) r by simp
    from leaves_trans [OF 1(6) this] show "leaves {} {(mmd_dev q, mmd_reg q)} (views s ?A) w" by simp
  qed
qed

end

section \<open>The link of a port\<close>

text \<open>What the handler writes to register 0: power down for a link forced down, otherwise auto-negotiation anew.\<close>

definition link_command :: "IFX_ETHSW_portLinkCfg \<Rightarrow> u16" where
  "link_command q = (if lk_bLinkForce q = IFX_TRUE \<and> lk_eLink q \<noteq> IFX_ETHSW_PORT_LINK_UP then 0x800 else 0x1200)"

abbreviation lpi_writes :: "IFX_ETHSW_portLinkCfg \<Rightarrow> (field \<times> u32) list" where
  "lpi_writes q \<equiv> [(preg VR9_MAC_CTRL_4_LPIEN 0xC (lk_nPortId q), lk_bLPI q), (preg VR9_MAC_CTRL_4_GWAIT 0xC (lk_nPortId q), 0x32),
     (preg VR9_MAC_CTRL_4_WAIT 0xC (lk_nPortId q), 0x15), (VR9_FDMA_CTRL_LPI_MODE, 0x4)]"

definition link_tail :: "IFX_ETHSW_portLinkCfg \<Rightarrow> 'p core \<Rightarrow> 'p core" where
  "link_tail q s =
     (let s = (if lk_eMII_Mode q \<noteq> IFX_ETHSW_PORT_HW_GMII then wr (top_reg VR9_MII_CFG_0_MIIMODE (lk_nPortId q)) (link_mii q) s else s)
      in if lk_eMII_Mode q = IFX_ETHSW_PORT_HW_RMII
         then wr (top_reg VR9_MII_CFG_0_RMII (lk_nPortId q)) (if lk_eClkMode q = IFX_ETHSW_PORT_CLK_MASTER then 1 else 0) s else s)"

text \<open>The registers of the switch after the handler, for a port below ten.\<close>

definition link_regs_ok :: "IFX_ETHSW_portLinkCfg \<Rightarrow> 'p core \<Rightarrow> bool" where
  "link_regs_ok q s \<longleftrightarrow> rd (preg VR9_MAC_CTRL_4_LPIEN 0xC (lk_nPortId q)) s = lk_bLPI q AND 1 \<and>
     (lk_eMII_Mode q \<noteq> IFX_ETHSW_PORT_HW_GMII \<longrightarrow> rd (top_reg VR9_MII_CFG_0_MIIMODE (lk_nPortId q)) s = link_mii q) \<and>
     (lk_eMII_Mode q = IFX_ETHSW_PORT_HW_RMII \<longrightarrow>
        rd (top_reg VR9_MII_CFG_0_RMII (lk_nPortId q)) s = (if lk_eClkMode q = IFX_ETHSW_PORT_CLK_MASTER then 1 else 0))"

lemma link_port_off:
  assumes "unat (p :: u8) < 10"
  shows "unat (0x907 + 0xC * ucast p :: 16 word) = 0x907 + 0xC * unat p" "unat (0xC76 + 2 * ucast p :: 16 word) = 0xC76 + 2 * unat p"
  by (rule unat_preg, use assms in simp)+

lemma poll_regs_range: "i < 10 \<Longrightarrow> off \<in> poll_regs i \<Longrightarrow> 0xC48 \<le> unat off \<and> unat off \<le> 0xC55"
  by (drule below_ten) (auto simp: poll_regs_def phy_word_def at.simps)

lemma lpi_kept:
  assumes "unat (lk_nPortId q) < 10" "bus_only (poll_regs (unat (lk_nPortId q))) (wrs (lpi_writes q) s) t"
  shows "rd (preg VR9_MAC_CTRL_4_LPIEN 0xC (lk_nPortId q)) t = lk_bLPI q AND 1"
proof -
  let ?F = "preg VR9_MAC_CTRL_4_LPIEN 0xC (lk_nPortId q)"
  have "fst ?F \<notin> poll_regs (unat (lk_nPortId q))"
    using poll_regs_range [OF assms(1), of "fst ?F"] link_port_off(1) [OF assms(1)] assms(1) by auto
  then have "rd ?F t = rd ?F (wrs (lpi_writes q) s)" by (rule bus_only_rd [OF assms(2)])
  also have "\<dots> = lk_bLPI q AND 1"
    using link_port_off(1) [OF assms(1)] assms(1) by (simp add: rdf_wrf_same rdf_wrf_other fdisj_unat del: fdisj.simps)
  finally show ?thesis .
qed

lemma link_tail_regs:
  assumes p: "unat (lk_nPortId q) < 10" and l: "rd (preg VR9_MAC_CTRL_4_LPIEN 0xC (lk_nPortId q)) s = lk_bLPI q AND 1"
  shows "link_regs_ok q (link_tail q s)" "dev (link_tail q s) = dev s" "priv (hw_of (link_tail q s)) = priv (hw_of s)"
    "mdio_idle (hw_of s) \<Longrightarrow> mdio_idle (hw_of (link_tail q s))"
proof -
  note u = link_port_off [OF p]
  have "link_mii q AND mask 4 = link_mii q" by (simp add: link_mii_def mask_eq_exp_minus_1)
  then show "link_regs_ok q (link_tail q s)"
    using l u p by (simp add: link_regs_ok_def link_tail_def top_reg_def at.simps rdf_wrf_same rdf_wrf_other fdisj_unat Let_def del: fdisj.simps)
  show "dev (link_tail q s) = dev s" "priv (hw_of (link_tail q s)) = priv (hw_of s)" by (simp_all add: link_tail_def Let_def)
  show "mdio_idle (hw_of (link_tail q s))" if "mdio_idle (hw_of s)"
    using that u p by (simp add: link_tail_def top_reg_def at.simps rdf_wrf_other fdisj_unat Let_def del: fdisj.simps)
qed

lemma link_set_tail:
  "IFX_FLOW_PortLinkCfgSet hwstep mdio g q s =
     (let p = lk_nPortId q in
      if int (unat p) > int (unat (nPortNumber (dev s))) - 1 then Some (IFX_ERROR, s)
      else case link_speed q of None \<Rightarrow> Some (IFX_ERROR, s)
      | Some (data, phy_ctrl) \<Rightarrow> do {
          let a = ucast (rd (phy_addr (unat p)) s);
          (m, s) \<leftarrow> IFX_FLOW_MDIO_DataRead hwstep mdio (g\<lparr>md_nAddressDev := a\<rparr>) s;
          (m, s) \<leftarrow> link_advertise hwstep mdio data phy_ctrl (link_duplex q) m s;
          (_, s) \<leftarrow> IFX_FLOW_MMD_MDIO_DataWrite hwstep mdio
             \<lparr>md_nAddressDev = a, md_nAddressReg = 0x3C, md_nData = (if lk_bLPI q = IFX_TRUE then 0x6 else 0x0)\<rparr> p 0x07 (wrs (lpi_writes q) s);
          (m, s) \<leftarrow> IFX_FLOW_MDIO_DataRead hwstep mdio (m\<lparr>md_nAddressDev := a, md_nAddressReg := 0\<rparr>) s;
          s \<leftarrow> IFX_FLOW_MDIO_DataWrite hwstep mdio (m\<lparr>md_nData := link_command q\<rparr>) s;
          Some (IFX_SUCCESS, link_tail q s) })"
  by (simp add: IFX_FLOW_PortLinkCfgSet_def link_tail_def link_command_def Let_def cong: option.case_cong)

lemma mmd_dev7: "(ucast (0x07 :: u8) :: u16) = 7" "(ucast (0x07 :: u8) AND 0x1F :: u16) = 7" "(ucast (0x3C :: u8) :: u16) = 0x3C"
  by simp_all

context phy_bus
begin

lemma link_set:
  assumes s: "mdio_idle (hw_of s)" "unat (nPortNumber (dev s)) \<le> 11" "unat (lk_nPortId q) + 1 < unat (nPortNumber (dev s))"
    and c: "{4, 9} \<subseteq> settable" "(7, 0x3C) \<in> held" "link_speed q \<noteq> None"
    and A: "A = unat (rd (phy_addr (unat (lk_nPortId q))) s)" and g: "still (bus_no g) (views s A)"
  obtains s' v where "IFX_FLOW_PortLinkCfgSet hwstep mdio g q s = Some (IFX_SUCCESS, s')" "dev s' = dev s" "mdio_idle (hw_of s')"
    "views s' = (views s)(A := put 0 (link_command q) v)" "offers (get 4 v) (get 9 v) = offered q"
    "ext v 7 0x3C = (if lk_bLPI q = IFX_TRUE then 0x6 else 0x0)" "leaves {4, 9} {(7, 0x3C)} (views s A) v" "link_regs_ok q s'"
proof -
  let ?i = "unat (lk_nPortId q)" and ?x = "if lk_bLPI q = IFX_TRUE then 0x6 else 0x0 :: u16"
  define a :: u8 where "a = ucast (rd (phy_addr ?i) s)"
  have i: "?i < 10" using s(2,3) by simp
  have a: "phy_no a = A" unfolding a_def A phy_no_addr ..
  obtain data ctrl where ls: "link_speed q = Some (data, ctrl)" using c(3) by (cases "link_speed q") auto
  let ?g = "g\<lparr>md_nAddressDev := a\<rparr>"
  have "still (bus_no ?g) (views s (bus_phy ?g))" using g a by simp
  then obtain x s1 where 1: "IFX_FLOW_MDIO_DataRead hwstep mdio ?g s = Some (?g\<lparr>md_nData := x\<rparr>, s1)" "bus_only bus_regs s s1"
    "views s1 = views s" "told (bus_no ?g) (views s (bus_phy ?g)) \<longrightarrow> x = get (bus_no ?g) (views s (bus_phy ?g))"
    by (rule data_read [OF s(1)])
  have i1: "mdio_idle (hw_of s1)" using 1(2) by (simp add: bus_only_def)
  obtain m s2 v2 where 2: "link_advertise hwstep mdio data ctrl (link_duplex q) (?g\<lparr>md_nData := x\<rparr>) s1 = Some (m, s2)" "bus_only bus_regs s1 s2"
    "views s2 = (views s1)(A := v2)" "offering q (views s1 A) v2" "md_nAddressDev m = a"
    by (rule advertise [OF i1 c(1) ls, of "?g\<lparr>md_nData := x\<rparr>"]) (use a in simp)
  let ?s3 = "wrs (lpi_writes q) s2"
  have o: "2311 + 12 * ?i \<noteq> 3144" using i by linarith
  have i3: "mdio_idle (hw_of ?s3)" using 2(2) link_port_off(1) [OF i] o by (simp add: bus_only_def rdf_wrf_other fdisj_unat del: fdisj.simps)
  have d3: "dev ?s3 = dev s" using 1(2) 2(2) by (simp add: bus_only_def)
  let ?m = "\<lparr>md_nAddressDev = a, md_nAddressReg = 0x3C, md_nData = ?x\<rparr>"
  obtain s4 where 4: "IFX_FLOW_MMD_MDIO_DataWrite hwstep mdio ?m (lk_nPortId q) 0x07 ?s3 = Some (IFX_SUCCESS, s4)" "bus_only (poll_regs ?i) ?s3 s4"
    "views s4 = (views ?s3)(A := put 14 ?x (pointed 7 0x3C (views ?s3 A)))"
  proof -
    have "\<not> no_phy_port (lk_nPortId q) ?s3" unfolding no_phy_port_def d3 using s(3) by linarith
    with unpolled_write [OF i3 i, of a 7 "0x3C" ?x] that show thesis
      by (auto simp: IFX_FLOW_MMD_MDIO_DataWrite_def mmd_dev7 a simp del: wrs.simps)
  qed
  note E = ext_written [OF c(2) refl, where v = v2 and x = ?x]
  have v4: "views s4 = (views s)(A := put 14 ?x (pointed 7 0x3C v2))" using 4(3) 2(3) 1(3) by simp
  have i4: "mdio_idle (hw_of s4)" using 4(2) by (simp add: bus_only_def)
  let ?n = "m\<lparr>md_nAddressDev := a, md_nAddressReg := 0\<rparr>"
  have n: "bus_no ?n = 0" "bus_phy ?n = A" using a by (simp_all add: bus_no_lit)
  have "still (bus_no ?n) (views s4 (bus_phy ?n))" unfolding n by (simp add: still_other)
  then obtain y s5 where 5: "IFX_FLOW_MDIO_DataRead hwstep mdio ?n s4 = Some (?n\<lparr>md_nData := y\<rparr>, s5)" "bus_only bus_regs s4 s5" "views s5 = views s4"
    "told (bus_no ?n) (views s4 (bus_phy ?n)) \<longrightarrow> y = get (bus_no ?n) (views s4 (bus_phy ?n))"
    by (rule data_read [OF i4])
  have i5: "mdio_idle (hw_of s5)" using 5(2) by (simp add: bus_only_def)
  obtain s6 where 6: "IFX_FLOW_MDIO_DataWrite hwstep mdio (?n\<lparr>md_nData := link_command q\<rparr>) s5 = Some s6" "bus_only bus_regs s5 s6"
    "views s6 = (views s5)(A := put 0 (link_command q) (views s5 A))"
    by (rule data_write [OF i5, of "?n\<lparr>md_nData := link_command q\<rparr>"]) (use a in \<open>simp add: bus_no_lit\<close>)
  have b: "bus_only (poll_regs ?i) ?s3 s6"
    by (rule bus_only_trans [OF 4(2) bus_only_mono [OF bus_only_trans [OF 5(2) 6(2)]]]) (simp add: poll_regs_def)
  have i6: "mdio_idle (hw_of s6)" using 6(2) by (simp add: bus_only_def)
  note T = link_tail_regs [OF i lpi_kept [OF i b]]
  have r: "\<not> int (unat (lk_nPortId q)) > int (unat (nPortNumber (dev s))) - 1" using s(3) by linarith
  show thesis
  proof (rule that)
    show "IFX_FLOW_PortLinkCfgSet hwstep mdio g q s = Some (IFX_SUCCESS, link_tail q s6)"
      using r 1(1) 2(1) 4(1) 5(1) 6(1) ls unfolding link_set_tail a_def [symmetric] Let_def
      by (simp add: a_def [symmetric] del: wrs.simps)
    show "dev (link_tail q s6) = dev s" using b d3 T(2) by (simp add: bus_only_def)
    show "mdio_idle (hw_of (link_tail q s6))" by (rule T(4) [OF i6])
    show "views (link_tail q s6) = (views s)(A := put 0 (link_command q) (put 14 ?x (pointed 7 0x3C v2)))"
      using 6(3) 5(3) v4 T(3) by simp
    have o: "leaves {4, 9} {} (views s A) v2" "offers (get 4 v2) (get 9 v2) = offered q" using 2(4) 1(3) by (simp_all add: offering_def)
    have "get 4 (put 14 ?x (pointed 7 0x3C v2)) = get 4 v2" "get 9 (put 14 ?x (pointed 7 0x3C v2)) = get 9 v2"
      using E(2) c(1) by (auto simp: leaves_def)
    with o(2) show "offers (get 4 (put 14 ?x (pointed 7 0x3C v2))) (get 9 (put 14 ?x (pointed 7 0x3C v2))) = offered q" by simp
    show "ext (put 14 ?x (pointed 7 0x3C v2)) 7 0x3C = ?x" by (rule E(1))
    from leaves_trans [OF o(1) E(2)] show "leaves {4, 9} {(7, 0x3C)} (views s A) (put 14 ?x (pointed 7 0x3C v2))" by simp
    show "link_regs_ok q (link_tail q s6)" by (rule T(1))
  qed
qed

end

section \<open>Clock delays and power\<close>

lemma clock_round_trip:
  assumes "\<not> no_phy_port (ck_nPortId q) s"
  obtains s' where "IFX_FLOW_PortRGMII_ClkCfgSet q s = (IFX_SUCCESS, s')"
    "IFX_FLOW_PortRGMII_ClkCfgGet \<lparr>ck_nPortId = ck_nPortId q, ck_nDelayRx = 0, ck_nDelayTx = 0\<rparr> s' =
       (IFX_SUCCESS, q\<lparr>ck_nDelayRx := ck_nDelayRx q AND 7, ck_nDelayTx := ck_nDelayTx q AND 7\<rparr>)"
proof -
  have "ucast (ucast x AND mask 3 :: u32) = x AND mask 3" for x :: u8 by (rule bit_word_eqI) (auto simp: bit_simps simp del: mask_numeral)
  moreover have "(7 :: u8) = mask 3" by (simp add: mask_eq_exp_minus_1)
  ultimately show thesis using assms
    by (intro that) (auto simp: IFX_FLOW_PortRGMII_ClkCfgSet_def IFX_FLOW_PortRGMII_ClkCfgGet_def no_phy_port_def top_reg_def at.simps
      rdf_wrf_same rdf_wrf_other fdisj.simps simp del: mask_numeral)
qed

context mdio_bus
begin

lemma power_down:
  assumes "mdio_idle (hw_of s)" "still 0 (views s (phy_no a))" "told 0 (views s (phy_no a))"
  obtains s' where "IFX_FLOW_PHY_PDN_Set hwstep mdio d a s = Some (IFX_SUCCESS, s')" "bus_only bus_regs s s'"
    "views s' = (views s)(phy_no a := put 0 (get 0 (views s (phy_no a)) OR 0x800) (views s (phy_no a)))"
proof -
  let ?m = "\<lparr>md_nAddressDev = a, md_nAddressReg = 0, md_nData = d\<rparr>"
  obtain m s' where "phy_update hwstep mdio 0 (\<lambda>d. d OR push_bit 11 1) ?m s = Some (m, s')" "bus_only bus_regs s s'"
    "md_nAddressDev m = md_nAddressDev ?m"
    "views s' = (views s)(bus_phy ?m := put 0 (get 0 (views s (bus_phy ?m)) OR push_bit 11 1) (views s (bus_phy ?m)))"
    by (rule update [OF assms(1), of 0 ?m 0 "\<lambda>d. d OR push_bit 11 1"]) (use assms(2,3) in \<open>simp_all add: bus_no_lit\<close>)
  then show thesis by (intro that [of s']) (simp_all add: IFX_FLOW_PHY_PDN_Set_def)
qed

end

end
