(* ===== verification/Core_PhyRef.thy ===== *)
theory Core_PhyRef
  imports Core_Mode
begin

text \<open>
  A reference device: transceivers that hold their registers and their extended registers, on a bus that is busy
  for one step after a command.
\<close>

unbundle bit_operations_syntax

section \<open>The transceivers\<close>

record phy_state =
  ph_regs :: "nat \<Rightarrow> u16"
  ph_adr :: "u16 \<Rightarrow> u16"
  ph_ext :: "u16 \<Rightarrow> u16 \<Rightarrow> u16"

definition phy_fresh :: phy_state where
  "phy_fresh = \<lparr>ph_regs = (\<lambda>_. 0)(0 := 0x1000, 4 := 0x1E1, 9 := 0x300), ph_adr = (\<lambda>_. 0), ph_ext = (\<lambda>_ _. 0)\<rparr>"

definition phy_put :: "nat \<Rightarrow> u16 \<Rightarrow> phy_state \<Rightarrow> phy_state" where
  "phy_put n x v =
     (let c = ph_regs v 13; d = c AND 0x1F
      in if n = 0 \<and> bit x 15 then phy_fresh
         else if n \<noteq> 14 then v\<lparr>ph_regs := (ph_regs v)(n := x)\<rparr>
         else if c = d then v\<lparr>ph_adr := (ph_adr v)(d := x)\<rparr>
         else if c = 0x4000 OR d then v\<lparr>ph_ext := (ph_ext v)(d := (ph_ext v d)(ph_adr v d := x))\<rparr>
         else v)"

definition phy_get :: "nat \<Rightarrow> phy_state \<Rightarrow> u16" where
  "phy_get n v =
     (let c = ph_regs v 13; d = c AND 0x1F
      in if n \<noteq> 14 then ph_regs v n else if c = d then ph_adr v d else ph_ext v d (ph_adr v d))"

definition mmd_all :: "(u16 \<times> u16) set" where
  "mmd_all = {(d, e). d < 32}"

lemma five_and: "d < 32 \<Longrightarrow> d AND 0x1F = (d :: u16)"
proof -
  have "(0x1F :: u16) = mask 5" by (simp add: mask_eq_exp_minus_1)
  then show "d < 32 \<Longrightarrow> d AND 0x1F = d" using five_bits [of d] by (simp only: take_bit_eq_mask)
qed

lemma mmd_function: "d < 32 \<Longrightarrow> (0x4000 OR d) AND 0x1F = (d :: u16)" "0x4000 OR d \<noteq> d \<or> 32 \<le> (d :: u16)"
proof -
  show "(0x4000 OR d) AND 0x1F = (d :: u16)" if "d < 32"
  proof -
    have m: "(0x1F :: u16) = mask 5" by (simp add: mask_eq_exp_minus_1)
    have "take_bit 5 (0x4000 :: u16) = 0" by simp
    then have "take_bit 5 (0x4000 OR d) = d" by (simp only: take_bit_or five_bits [OF that] or.left_neutral)
    then show ?thesis by (simp only: m take_bit_eq_mask)
  qed
  show "0x4000 OR d \<noteq> d \<or> 32 \<le> d"
  proof (rule disjCI, rule notI)
    assume "\<not> 32 \<le> d" "0x4000 OR d = d"
    moreover have "bit (0x4000 OR d) 14" by (simp add: bit_simps)
    moreover have "\<not> bit (take_bit 5 d) 14" by (simp add: bit_take_bit_iff)
    ultimately show False using five_bits [of d] by (simp add: not_le)
  qed
qed

interpretation reft: transceiver phy_put phy_get "\<lambda>_ _. True" "\<lambda>_ _. True" "UNIV - {13, 14}" mmd_all "\<lambda>v. ph_regs v 13" ph_adr ph_ext
proof unfold_locales
  fix n x r v assume "no_reset n x" "r \<in> UNIV - {13, 14 :: nat}"
  then show "phy_get r (phy_put n x v) = (if n = r then x else phy_get r v)" by (auto simp: phy_get_def phy_put_def Let_def)
next
  fix n x and v :: phy_state assume "no_reset n x"
  then show "ph_regs (phy_put n x v) 13 = (if n = 13 then x else ph_regs v 13)" by (auto simp: phy_put_def Let_def)
next
  fix n x d and v :: phy_state assume "no_reset n x" "d < (32 :: u16)"
  then show "ph_adr (phy_put n x v) d = (if n = 14 \<and> ph_regs v 13 = d then x else ph_adr v d)"
    using five_and [of d] by (auto simp: phy_put_def Let_def)
next
  fix n x d e and v :: phy_state assume "no_reset n x" "(d, e) \<in> mmd_all"
  then show "ph_ext (phy_put n x v) d e = (if n = 14 \<and> ph_regs v 13 = 0x4000 OR d \<and> ph_adr v d = e then x else ph_ext v d e)"
    using mmd_function [of d] five_and [of d] by (auto simp: phy_put_def Let_def mmd_all_def)
next
  fix d e and v :: phy_state assume "(d, e) \<in> mmd_all" "ph_regs v 13 = 0x4000 OR d" "ph_adr v d = e"
  then show "True \<and> True \<and> phy_get 14 v = ph_ext v d e"
    using mmd_function [of d] by (auto simp: phy_get_def Let_def mmd_all_def)
qed (auto simp: mmd_all_def)

section \<open>The bus\<close>

definition phy_mdio :: "(nat \<Rightarrow> phy_state) hw \<Rightarrow> (nat \<Rightarrow> phy_state) hw" where
  "phy_mdio h = wrf MDIO_BUSY 1 h"

definition phy_exec :: "(nat \<Rightarrow> phy_state) hw \<Rightarrow> (nat \<Rightarrow> phy_state) hw" where
  "phy_exec h =
     (let a = mdio_phy h; n = mdio_no h; v = priv h a
      in if mdio_op h = 1 then h\<lparr>priv := (priv h)(a := phy_put n (ucast (rdf MDIO_WDATA h)) v)\<rparr>
         else if mdio_op h = 2 then wrf MDIO_RDATA (ucast (phy_get n v)) h
         else h)"

definition phy_step :: "(nat \<Rightarrow> phy_state) hw \<Rightarrow> (nat \<Rightarrow> phy_state) hw" where
  "phy_step h = (if rdf MDIO_BUSY h \<noteq> 0 then wrf MDIO_BUSY 0 (phy_exec h) else h)"

lemma mdio_parts:
  "mdio_op h = rdf (0xC48, 10, 2) h" "mdio_phy h = unat (rdf (0xC48, 5, 5) h)" "mdio_no h = unat (rdf (0xC48, 0, 5) h)"
proof -
  have "drop_bit 10 (rdf MDIO_CTRL h) AND mask 2 = rdf (0xC48, 10, 2) h" "drop_bit 5 (rdf MDIO_CTRL h) AND mask 5 = rdf (0xC48, 5, 5) h"
    "rdf MDIO_CTRL h AND mask 5 = rdf (0xC48, 0, 5) h"
    by (rule bit_word_eqI; auto simp: rdf.simps at.simps read_fld_get fld_get_mask bit_simps simp del: mask_numeral)+
  then show "mdio_op h = rdf (0xC48, 10, 2) h" "mdio_phy h = unat (rdf (0xC48, 5, 5) h)" "mdio_no h = unat (rdf (0xC48, 0, 5) h)"
    by (simp_all only: mdio_op_def mdio_phy_def mdio_no_def)
qed

lemma phy_poll: "poll phy_step MDIO_BUSY (phy_mdio h) = Some (wrf MDIO_BUSY 0 (phy_exec (phy_mdio h)))"
proof -
  have b: "rdf MDIO_BUSY (phy_mdio h) \<noteq> 0" by (simp add: phy_mdio_def rdf_wrf_same)
  have z: "rdf MDIO_BUSY (wrf MDIO_BUSY 0 (phy_exec (phy_mdio h))) = 0" by (simp add: rdf_wrf_same)
  have "phy_step (phy_mdio h) = wrf MDIO_BUSY 0 (phy_exec (phy_mdio h))" using b by (simp add: phy_step_def)
  then show ?thesis unfolding poll_step [OF b] by (simp only: poll_ready [OF z])
qed

lemma phy_exec_mdio:
  "mdio_op (phy_mdio h) = mdio_op h" "mdio_phy (phy_mdio h) = mdio_phy h" "mdio_no (phy_mdio h) = mdio_no h"
  "rdf MDIO_WDATA (phy_mdio h) = rdf MDIO_WDATA h" "priv (phy_mdio h) = priv h"
  by (simp_all add: mdio_parts phy_mdio_def rdf_wrf_other)

interpretation refp: mdio_bus phy_step phy_mdio "\<lambda>p. p" phy_put phy_get "\<lambda>_ _. True" "\<lambda>_ _. True"
proof unfold_locales
  fix h h' and off :: "16 word"
  assume h: "poll phy_step MDIO_BUSY (phy_mdio h) = Some h'"
  then have h': "h' = wrf MDIO_BUSY 0 (phy_exec (phy_mdio h))" by (simp only: phy_poll option.inject)
  show "regs h' off = regs h off" if "off \<notin> {0xC48, 0xC49}"
    using that by (auto simp: h' phy_exec_def phy_mdio_def Let_def)
  show "priv h' = (priv h)(mdio_phy h := phy_put (mdio_no h) (ucast (rdf MDIO_WDATA h)) (priv h (mdio_phy h)))" if "mdio_op h = 1"
    using that unfolding h' phy_exec_def Let_def phy_exec_mdio by (simp add: phy_mdio_def)
  show "priv h' = priv h" if "mdio_op h = 2"
    using that unfolding h' phy_exec_def Let_def phy_exec_mdio by (simp add: phy_mdio_def)
  show "rdf MDIO_RDATA h' = ucast (phy_get (mdio_no h) (priv h (mdio_phy h)))" if "mdio_op h = 2"
  proof -
    have "ucast x AND mask 16 = (ucast x :: u32)" for x :: u16 by (rule bit_word_eqI) (auto simp: bit_simps dest: bit_imp_le_length)
    then show ?thesis using that unfolding h' phy_exec_def Let_def phy_exec_mdio
      by (simp add: rdf_wrf_other rdf_wrf_same del: mask_numeral)
  qed
qed (blast intro: phy_poll)

interpretation refk: phy_bus phy_step phy_mdio "\<lambda>p. p" phy_put phy_get "\<lambda>_ _. True" "\<lambda>_ _. True" "UNIV - {13, 14}" mmd_all
  "\<lambda>v. ph_regs v 13" ph_adr ph_ext
  by unfold_locales

end
