(* ===== verification/Core_Samples.thy ===== *)
theory Core_Samples
  imports Core_Boot Core_Rate Core_Meter Core_BM Core_GSWIP Core_MAC Core_System Core_RMON Core_CPU Core_Members Core_PhyRef
begin

text \<open>
  States on which the examples run: a driver of seven ports and five virtual ports on an empty device,
  of one memory (\<open>power_on\<close>) or of two (\<open>dual_on\<close>).
\<close>

unbundle bit_operations_syntax

definition core_on :: "'p hw \<Rightarrow> 'p core" where
  "core_on h = \<lparr>dev = zero_dev\<lparr>nPortNumber := 7, nTotalPortNumber := 12\<rparr>,
     pce = \<lparr>st_pce = snd (ifx_pce_table_init zeroed_PCE), st_hw = h, st_ent = zero_entry\<rparr>\<rparr>"

definition dual_on :: "dual_priv hw" where
  "dual_on = \<lparr>regs = (\<lambda>_. 0)(0x007 := 0x2057, 0x009 := 0x0810),
     priv = \<lparr>d_rows = (\<lambda>_ _. zero_img), d_ram = (\<lambda>_ _. (0, 0))\<rparr>\<rparr>"

lemma core_on_simps [simp]:
  "hw_of (core_on h) = h" "nTotalPortNumber (dev (core_on h)) = 12" "nPortNumber (dev (core_on h)) = 7"
  by (simp_all add: core_on_def)

lemma power_on_caps:
  "rdf VR9_ETHSW_CAP_1_QUEUE (power_on n) = 32" "rdf VR9_ETHSW_CAP_3_SHAPERS (power_on n) = 16"
  "rdf VR9_ETHSW_CAP_3_METERS (power_on n) = 8"
  "rdf VR9_ETHSW_CAP_1_QUEUE dual_on = 32" "idle dual_on"
  by (simp_all add: power_on_def dual_on_def rdf.simps read_fld_get fld_get_def idle_def)

lemma power_on_zero: "fst F \<noteq> 0x007 \<Longrightarrow> fst F \<noteq> 0x009 \<Longrightarrow> rdf F (power_on n) = 0"
  by (cases F) (simp add: power_on_def ref_init_def rdf.simps read_fld_get fld_get_def)

lemma power_on_rows: "dtbl ref_tbl (core_on (power_on n)) t i = zero_img"
  by (simp add: power_on_tbl)

definition core_2_2 :: "'p hw \<Rightarrow> 'p core" where
  "core_2_2 h = upd_dev (\<lambda>d. d\<lparr>GSWIP_Ver := LTQ_GSWIP_2_2\<rparr>) (core_on h)"

lemma core_2_2_simps [simp]: "hw_of (core_2_2 h) = h" "GSWIP_Ver (dev (core_2_2 h)) = LTQ_GSWIP_2_2"
  by (simp_all add: core_2_2_def upd_dev_def)

section \<open>Meters and shapers\<close>

definition sample_meter :: IFX_ETHSW_QoS_meterPort where
  "sample_meter = \<lparr>mp_nMeterId = 5, mp_eDir = 3, mp_nPortIngressId = 2, mp_nPortEgressId = 4\<rparr>"

lemma no_meter:
  "\<not> in_table q (dtbl ref_tbl (core_on (power_on n))) t" "free_row (dtbl ref_tbl (core_on (power_on n))) t = Some 0"
  by (simp_all add: in_table_def list_ex_iff img_matches_def power_on_tbl zero_img_def free_row_def upt_conv_Cons)

lemma no_shapers: "unat n < 32 \<Longrightarrow> shaper_slots n (core_on (power_on k)) = (None, None)"
proof -
  assume "unat n < 32"
  then have "unat (0x101 + 2 * ucast n :: 16 word) \<noteq> 7" "unat (0x101 + 2 * ucast n :: 16 word) \<noteq> 9"
    by (simp_all add: port_simps)
  moreover have "x \<noteq> 7 \<and> x \<noteq> 9" if "unat x \<noteq> 7" "unat x \<noteq> 9" for x :: "16 word"
    using that by auto
  ultimately have "(0x101 + 2 * ucast n :: 16 word) \<noteq> 7 \<and> (0x101 + 2 * ucast n :: 16 word) \<noteq> 9" by blast
  then show ?thesis by (simp add: shaper_slots_def power_on_zero)
qed

definition busy_queues :: "ref_priv core" where
  "busy_queues = wrs [(queue_reg VR9_PQM_RS_EN1 9, 1), (queue_reg VR9_PQM_RS_RS1 9, 1),
     (queue_reg VR9_PQM_RS_EN1 3, 1), (queue_reg VR9_PQM_RS_RS1 3, 3)] (core_on (power_on 2))"

section \<open>MAC addresses\<close>

text \<open>A switch whose table is empty at first and that hears the addresses of \<open>ms\<close> meanwhile.\<close>

definition learning_on :: "pce_img list \<Rightarrow> mac_priv hw" where
  "learning_on ms = \<lparr>regs = (\<lambda>_. 0)(0x007 := 0x2057, 0x009 := 0x0810, 0x452 := 0xDF84),
     priv = \<lparr>m_rows = (\<lambda>_ _. zero_img), m_traffic = ms\<rparr>\<rparr>"

lemma core_on_inv:
  assumes "idle h" "\<And>t i. driver_tbl tbl h t i = keep t zero_img"
  shows "core_inv tbl keep (core_on h)"
proof -
  have t: "VLAN_Table (dev (core_on h)) = replicate 64 zero_vlan" by (simp add: core_on_def zero_dev_def)
  have "rules_inv tbl keep (pce (core_on h))"
    unfolding core_on_def core.simps by (rule table_init_inv) (use assms in \<open>simp_all add: zeroed_PCE_def\<close>)
  moreover have "dev_ok (dev (core_on h))" by (simp add: core_on_def dev_ok_def zero_dev_def)
  moreover have "vlan_mirror tbl keep (core_on h)" using assms(2) t by (simp add: vlan_mirror_def)
  ultimately show ?thesis using fresh_table(1) [OF t] by (simp add: core_inv_def)
qed

lemma learning_start:
  "core_inv learning_tbl (\<lambda>_ m. m) (core_on (learning_on ms))"
  "mac_ok fid_not_0 (maddr learning_rows (core_on (learning_on ms)))"
  "mac_map (maddr learning_rows (core_on (learning_on ms))) k = None"
proof -
  have r: "learning_tbl (priv (learning_on ms)) t i = zero_img" for t i
    by (simp add: learning_tbl_def learning_on_def)
  show "core_inv learning_tbl (\<lambda>_ m. m) (core_on (learning_on ms))"
    by (rule core_on_inv) (simp_all add: driver_tbl_def r, simp add: idle_def learning_on_def rdf.simps read_fld_get fld_get_def)
  show "mac_ok fid_not_0 (maddr learning_rows (core_on (learning_on ms)))"
    by (simp add: mac_ok_def quiet_row_def r zero_img_def)
  show "mac_map (maddr learning_rows (core_on (learning_on ms))) k = None"
    by (simp add: mac_map_None has_key_def r zero_img_def)
qed

lemma learning_age: "rd VR9_PCE_AGE_1_MANT (core_on (learning_on ms)) = 0xDF84"
  by (simp add: learning_on_def rdf.simps read_fld_get fld_get_def)

definition known_mac :: "u8 list" where "known_mac = [0x00, 0x1C, 0x28, 0x12, 0x34, 0x56]"

lemma known_quiet: "mac_id known_mac 5 \<in> fid_not_0"
  by (simp add: fid_not_0_def mac_id_def mac_words_def)

definition static_mac :: IFX_ETHSW_MAC_tableAdd where
  "static_mac = \<lparr>ma_nFId = 5, ma_nPortId = 3, ma_nAgeTimer = 0, ma_bStaticEntry = 1, ma_nTrafficClass = 0, ma_nMAC = known_mac\<rparr>"

definition dynamic_mac :: IFX_ETHSW_MAC_tableAdd where
  "dynamic_mac = static_mac\<lparr>ma_bStaticEntry := 0, ma_nAgeTimer := 0xF\<rparr>"

definition heard :: pce_img where "heard = zero_img\<lparr>i_key := [1, 2, 3, 0, 0, 0, 0, 0, 0], i_valid := 1\<rparr>"

definition mac_question :: "u8 list \<Rightarrow> u32 \<Rightarrow> IFX_ETHSW_MAC_tableQuery" where
  "mac_question a f = \<lparr>mq_nMAC = a, mq_nFId = f, mq_bFound = 0, mq_nPortId = 0, mq_nAgeTimer = 0, mq_bStaticEntry = 0\<rparr>"

text \<open>The switch when it has learned \<open>known_mac\<close> at port 3, with the ageing counter at 10.\<close>

definition known_row :: pce_img where
  "known_row = zero_img\<lparr>i_key := [0x3456, 0x2812, 0x001C, 5, 0, 0, 0, 0, 0], i_val := [0x3A, 0, 0, 0, 0, 0, 0], i_valid := 1\<rparr>"

definition learned_on :: "mac_priv hw" where
  "learned_on = (learning_on [])\<lparr>priv := \<lparr>m_rows = (\<lambda>_ _. zero_img)(11 := (\<lambda>_. zero_img)(7 := known_row)), m_traffic = []\<rparr>\<rparr>"

lemma learned_start:
  "core_inv learning_tbl (\<lambda>_ m. m) (core_on learned_on)"
  "mac_ok fid_not_0 (maddr learning_rows (core_on learned_on))"
  "has_key (mac_id known_mac 5) (maddr learning_rows (core_on learned_on) 7)"
  "i_val (maddr learning_rows (core_on learned_on) 7) ! 0 = 0x3A" "i_val (maddr learning_rows (core_on learned_on) 7) ! 1 = 0"
  "rd VR9_PCE_AGE_1_MANT (core_on learned_on) = 0xDF84"
proof -
  have r: "learning_tbl (priv learned_on) t i = (if t = 11 \<and> i = 7 then norm_img known_row else norm_img zero_img)" for t i
    by (simp add: learning_tbl_def learned_on_def)
  show "core_inv learning_tbl (\<lambda>_ m. m) (core_on learned_on)"
    by (rule core_on_inv) (simp_all add: driver_tbl_def r, simp add: idle_def learned_on_def learning_on_def rdf.simps read_fld_get fld_get_def)
  show "mac_ok fid_not_0 (maddr learning_rows (core_on learned_on))"
    by (simp add: mac_ok_def r) (simp add: quiet_row_def zero_img_def)
  show "has_key (mac_id known_mac 5) (maddr learning_rows (core_on learned_on) 7)"
    by (simp add: r) (simp add: has_key_def mac_key_def known_row_def mac_id_def mac_words_def known_mac_def)
  show "i_val (maddr learning_rows (core_on learned_on) 7) ! 0 = 0x3A" "i_val (maddr learning_rows (core_on learned_on) 7) ! 1 = 0"
    by (simp_all add: r) (simp_all add: known_row_def norm_img_def)
  show "rd VR9_PCE_AGE_1_MANT (core_on learned_on) = 0xDF84"
    by (simp add: learned_on_def learning_on_def rdf.simps read_fld_get fld_get_def)
qed

lemma learning_unflushed: "rd VR9_PCE_GCTRL_0_MTFL (core_on (learning_on ms)) = 0"
  by (simp add: learning_on_def rdf.simps read_fld_get fld_get_def)

section \<open>The switch and its counters\<close>

lemma learning_ports:
  "7 = unat (rd VR9_ETHSW_CAP_1_PPORTS (core_on (learning_on ms)))" "5 = unat (rd VR9_ETHSW_CAP_1_VPORTS (core_on (learning_on ms)))"
  by (simp_all add: learning_on_def rdf.simps read_fld_get fld_get_def)

definition sample_cfg :: IFX_ETHSW_cfg where
  "sample_cfg = \<lparr>cg_eMAC_TableAgeTimer = 4, cg_bVLAN_Aware = 1, cg_nMaxPacketLen = 1536, cg_bLearningLimitAction = 1,
     cg_bMAC_SpoofingAction = 0, cg_bPauseMAC_ModeSrc = 1, cg_nPauseMAC_Src = known_mac\<rparr>"

text \<open>A device whose counter \<open>i\<close> of any port stands at \<open>i\<close>.\<close>

definition counting_on :: "dual_priv hw" where
  "counting_on = dual_on\<lparr>priv := \<lparr>d_rows = (\<lambda>_ _. zero_img), d_ram = (\<lambda>_ i. (of_nat i, 0))\<rparr>\<rparr>"

lemma counting: "i < 64 \<Longrightarrow> ram_count (priv counting_on) p i = of_nat i"
  by (simp add: counting_on_def ram_count_def) (rule word_unat_eq_iff [THEN iffD2], simp add: unat_of_nat_small unat_ucast_up)

definition sample_header :: IFX_ETHSW_CPU_PortExtendCfg where
  "sample_header = \<lparr>ce_eHeaderAdd = 2, ce_bHeaderRemove = 0, ce_sHeader = \<lparr>ch_nMAC_Src = known_mac, ch_nMAC_Dst = known_mac,
      ch_nEthertype = 0x800, ch_nVLAN_Prio = 3, ch_nVLAN_CFI = 0, ch_nVLAN_ID = 100\<rparr>,
     ce_ePauseCtrl = 1, ce_bFcsRemove = 1, ce_nWAN_Ports = 0x2\<rparr>"

section \<open>Multicast\<close>

lemma power_started:
  "core_inv ref_tbl (\<lambda>_ m. m) (core_on (power_on n))" "used_rules (st_pce (pce (core_on (power_on n)))) = 0"
proof -
  show "core_inv ref_tbl (\<lambda>_ m. m) (core_on (power_on n))"
    by (rule core_on_inv) (simp_all add: power_on_tbl power_on_regs(3))
  show "used_rules (st_pce (pce (core_on (power_on n)))) = 0"
    by (simp add: core_on_def used_rules_def ifx_pce_table_init_def zeroed_PCE_def)
qed

definition router_port :: IFX_ETHSW_multicastRouter where
  "router_port = \<lparr>rp_nPortId = 3\<rparr>"

definition learn_cfg :: IFX_ETHSW_multicastSnoopCfg where
  "learn_cfg = \<lparr>sn_eIGMP_Mode = SNOOP_MODE_AUTOLEARNING, sn_bIGMPv3 = 0, sn_bCrossVLAN = 0, sn_eForwardPort = 0, sn_nForwardPortId = 0,
     sn_nClassOfService = 5, sn_nRobust = 2, sn_nQueryInterval = 125, sn_eSuppressionAggregation = MULTICAST_REPORT,
     sn_bFastLeave = 1, sn_bLearningRouter = 1, sn_bMulticastUnknownDrop = 0\<rparr>"

definition forward_cfg :: IFX_ETHSW_multicastSnoopCfg where
  "forward_cfg = learn_cfg\<lparr>sn_eIGMP_Mode := SNOOP_MODE_FORWARD\<rparr>"

definition learning_core :: "'p hw \<Rightarrow> 'p core" where
  "learning_core h = upd_igmp (\<lambda>G. G\<lparr>eIGMP_Mode := 1\<rparr>) (core_on h)"

definition group_member :: IFX_ETHSW_multicastTable where
  "group_member = \<lparr>mt_nPortId = 3, mt_eIPVersion = IFX_ETHSW_IP_SELECT_IPV4, mt_uIP_Gda = set_nIPv4 0xE0010203 (replicate 8 0),
     mt_uIP_Gsa = replicate 8 0, mt_eModeMember = IFX_ETHSW_IGMP_MEMBER_DONT_CARE\<rparr>"

lemma learning_core_ok:
  "core_inv ref_tbl (\<lambda>_ m. m) (learning_core (power_on n))" "free_empty (dtbl ref_tbl (learning_core (power_on n)) 14)"
  "members ref_tbl (learning_core (power_on n)) g = {}" "snoop_mode (learning_core (power_on n)) = SNOOP_MODE_AUTOLEARNING"
  "bIGMPv3 (igmp (learning_core (power_on n))) = 0" "nTotalPortNumber (dev (learning_core (power_on n))) = 12"
proof -
  show "core_inv ref_tbl (\<lambda>_ m. m) (learning_core (power_on n))"
    using power_started(1) [of n] by (simp add: learning_core_def upd_igmp_def core_inv_def dev_ok_def vlan_wf_def vlan_mirror_def)
  show "free_empty (dtbl ref_tbl (learning_core (power_on n)) 14)" "members ref_tbl (learning_core (power_on n)) g = {}"
    by (simp_all add: learning_core_def upd_igmp_def free_empty_def members_of_def gives_def power_on_tbl zero_img_def)
qed (simp_all add: learning_core_def upd_igmp_def core_on_def zero_dev_def zero_IGMP_def)

section \<open>Transceivers\<close>

text \<open>The transceiver of port 2 has the address 5, that of port 0 the address 17.\<close>

definition phy_on :: "(nat \<Rightarrow> phy_state) core" where
  "phy_on = core_on \<lparr>regs = (\<lambda>_. 0)(0xC53 := 0x1805, 0xC55 := 0x1811), priv = (\<lambda>_. phy_fresh)\<rparr>"

definition half_100 :: IFX_ETHSW_portLinkCfg where
  "half_100 = \<lparr>lk_nPortId = 2, lk_bDuplexForce = 1, lk_eDuplex = IFX_ETHSW_DUPLEX_HALF, lk_bSpeedForce = 1, lk_eSpeed = 100,
     lk_bLinkForce = 0, lk_eLink = IFX_ETHSW_PORT_LINK_DOWN, lk_eMII_Mode = IFX_ETHSW_PORT_HW_RMII, lk_eMII_Type = IFX_ETHSW_PORT_MAC,
     lk_eClkMode = IFX_ETHSW_PORT_CLK_MASTER, lk_bLPI = 1\<rparr>"

definition eee_partner :: IFX_ETHSW_MMD_data where
  "eee_partner = \<lparr>xm_nAddressDev = 5, xm_nAddressReg = 0x7003D, xm_nData = 6\<rparr>"

lemma phy_on_simps [simp]:
  "nPortNumber (dev phy_on) = 7" "priv (hw_of phy_on) = (\<lambda>_. phy_fresh)" "rd MDIO_BUSY phy_on = 0"
  "rd (phy_addr 2) phy_on = 5"
  by (simp_all add: phy_on_def phy_addr_def at.simps rdf.simps read_fld_get fld_get_def)

lemma eee_partner_reg: "mmd_dev eee_partner = 7" "mmd_reg eee_partner = 0x3D"
  by (simp_all add: mmd_dev_def mmd_reg_def eee_partner_def)

lemma eee_partner_port: "phy_port (xm_nAddressDev eee_partner) phy_on = Some 2"
proof -
  have "unat (ucast (nPortNumber (dev phy_on)) - 1 :: u32) = 6" by simp
  then show ?thesis
    by (simp add: phy_port_def eee_partner_def upt_conv_Cons phy_on_def phy_addr_def at.simps rdf.simps read_fld_get fld_get_def)
qed

end
