(* ===== verification/Spec2Isabelle.thy ===== *)
theory Spec2Isabelle
  imports PCE_Action Core_Samples
begin

text \<open>
  The switch driver of the HomeBox 6441: the driver of the Lantiq GSWIP switch (VR9), under
  \<^verbatim>\<open>src/target/linux/ltqcpe/files-2.6.32/drivers/net/ifxmips_switch_api\<close>. It offers requests (ioctl
  handlers) to configure ports, VLANs and the packet classification engine (PCE), keeps the state
  they share, and drives the registers and the tables of the device. Modelled are the register access
  (\<^verbatim>\<open>ltq_flow_ral.c\<close>), the classification engine (\<^verbatim>\<open>ltq_flow_pce.c\<close>) and, of the handlers
  (\<^verbatim>\<open>ltq_flow_core.c\<close>), those named below.

  Layers, each theory on the one before:

  \<^item> \<open>Prelude\<close>: commands that may return early with an error code and their triples; bit fields of words.
  \<^item> \<open>Regs\<close>: \<^verbatim>\<open>ifx_ethsw_ll_DirectAccessRead\<close> and \<open>Write\<close> on a bank of registers; a field is
    (offset, shift, size) as the register headers give it; polling loops, \<open>None\<close> when they spin for ever.
  \<^item> \<open>PCE_Access\<close>: a row of a device table is written and read through a window of registers. The device
    is the locale \<open>pce_engine\<close>: what it does with the window when the driver sets the busy bit, and that
    it becomes ready. \<open>keep\<close> is what a table stores of a row. \<open>ref_step\<close> is a device that satisfies it.
  \<^item> \<open>PCE_Tables\<close>: the reference-counted pattern tables (\<^verbatim>\<open>ifx_pce_tm_*\<close>) of \<^verbatim>\<open>IFX_PCE_HANDLE_t\<close>.
  \<^item> \<open>PCE_Rules\<close>: writing, reading and deleting a rule, in the order of the code, each group of the pattern
    and of the action a definition of its own; \<open>garbage\<close> is what the C code leaves uninitialised.
  \<^item> \<open>PCE_Refcount\<close>, \<open>PCE_Write\<close>, \<open>PCE_Read\<close>, \<open>PCE_Roundtrip\<close>, \<open>PCE_Action\<close>: the proofs. \<open>rules_inv\<close> is
    the invariant: counters equal references (at most, for the two IP tables), free rows are zero, the device holds the rows in use.
    \<open>asked\<close> is the row of a table that a pattern asks for, \<open>want\<close> the row that the code stores.
  \<^item> \<open>PCE_Others\<close>: what an operation does to the other rules. \<open>rule_core\<close> is what a read of a rule returns, IP addresses aside,
    whose rows the code may share without counting them; \<open>normal\<close> is the form in which a pattern is read back.
  \<^item> \<open>PCE_Boot\<close>: the state after \<^verbatim>\<open>ifx_pce_table_init\<close>, the states reachable by rule operations, examples.
  \<^item> \<open>PCE_Microcode\<close>: the parser microcode and its download.
  \<^item> \<open>Core_State\<close>: \<^verbatim>\<open>IFX_FLOW_switchDev_t\<close> (\<open>dev\<close> and \<open>pce\<close> of the record \<open>core\<close>) and \<^verbatim>\<open>IFX_FLOW_SwitchCoreInit\<close>.
  \<^item> \<open>Core_VLAN\<close>: the VLAN handlers. The locale \<open>slot_table\<close> says when a table searched by key is a finite
    map; \<open>vlan_map\<close> is that map for \<^verbatim>\<open>VLAN_Table\<close>, \<open>vlan_mirror\<close> that the device has the same VLANs,
    \<open>core_inv\<close> the invariant of all handlers. \<open>vlan_device\<close> adds to \<open>pce_engine\<close> what the mapping table stores.
  \<^item> \<open>Core_Ports\<close>: port configuration, spanning tree and 802.1X, MDIO; \<open>port_mode\<close>, \<open>port_on\<close> and \<open>port_learns\<close>
    specify the state of a port.
  \<^item> \<open>Core_Boot\<close>: set-up establishes \<open>core_inv\<close>; the device of the examples.
  \<^item> \<open>Core_Rate\<close>, \<open>Core_Classes\<close>, \<open>Core_QoS\<close>, \<open>Core_Meter\<close>, \<open>Core_BM\<close>: quality of service. \<open>Core_Rate\<close> has
    meters, shapers and the conversion of rates; \<open>Core_Classes\<close> the traffic class tables, with the locales
    \<open>packed\<close> and \<open>packed_pair\<close> for settings that share a word and \<open>class_settings\<close> as their abstract state;
    \<open>Core_QoS\<close> the settings kept in registers; \<open>Core_Meter\<close> the assignment of meters to ports, as two lists of
    assignments (\<open>meters\<close>) on which \<open>assigned\<close> and \<open>taken_back\<close> specify the handlers; \<open>Core_BM\<close> the memory of the buffer manager, whose interface is the
    locale \<open>bm_engine\<close>, and \<open>queue_device\<close> for a device with both engines.
  \<^item> \<open>Core_GSWIP\<close>: link aggregation, thresholds and time stamps, on version 2.2 of the switch only.
  \<^item> \<open>Core_MAC\<close>: the MAC address table. The device finds, learns and forgets addresses by itself: the locale
    \<open>mac_engine\<close> states what it promises of the addresses \<open>Q\<close> that no traffic carries, \<open>mac_map\<close> is the table
    as a map, \<open>learning_step\<close> a device that learns from the traffic it is given.
  \<^item> \<open>Core_System\<close>: capabilities, version, global configuration, \<^verbatim>\<open>IFX_FLOW_HW_Init\<close>, \<^verbatim>\<open>IFX_FLOW_Reset\<close>, enabling,
    monitoring, redirection, wake on LAN, register and rule access, interrupt masks. \<open>installed\<close> says that a rule is in
    use and read back, \<open>only_rules\<close> that no other rule changes, \<open>directed\<close> what a port with direct forwarding needs;
    \<open>reset_engine\<close> is a device that can be reset. The board registers outside the switch (\<^verbatim>\<open>platform_device_init\<close>) are parameters.
  \<^item> \<open>Core_RMON\<close>: the counters, on a device of the locale \<open>rmon_engine\<close>; \<open>rmon_report\<close> specifies the report.
  \<^item> \<open>Core_CPU\<close>: the port of the processor.
  \<^item> \<open>Core_Groups\<close>, \<open>Core_Multicast\<close>: multicast. \<open>Core_Groups\<close> has the table of groups that software keeps
    (\<^verbatim>\<open>ifx_multicast_sw_table_write\<close> and \<open>_remove\<close>; \<open>past\<close> and \<open>oob\<close> are what the code reads outside of its arrays),
    \<open>Core_Multicast\<close> the handlers: router ports, the configuration of snooping, the groups learned by the device.
  \<^item> \<open>Core_Snooping\<close>, \<open>Core_Members\<close>: the proofs about them. \<open>router_ports\<close> is the set of router ports,
    \<open>router_ok\<close> says that the rules follow it, \<open>snoop_spec\<close> is the table of the rules that a mode has to have and \<open>snoops\<close>
    that they are installed, \<open>snoop_rules\<close> are those that the code writes; \<open>members\<close> is the table of
    learned groups as a map to sets of ports, \<open>keeps_groups\<close> what the device keeps of a row.
  \<^item> \<open>Core_Link\<close>, \<open>Core_Phy\<close>, \<open>Core_Mode\<close>, \<open>Core_PhyRef\<close>: the link of a port and its transceiver. \<open>Core_Link\<close> has
    the handlers, \<open>Core_Phy\<close> the locales \<open>mdio_bus\<close> (a command ends and writes or reads a register of one
    transceiver) and \<open>transceiver\<close> (its registers and extended registers), and \<open>offers\<close>, \<open>wanted\<close> and \<open>offered\<close>: the modes
    that registers offer, those a request asks for and those the handler offers for it; \<open>Core_Mode\<close> the proofs, \<open>Core_PhyRef\<close> transceivers that satisfy both locales.
  \<^item> \<open>Core_Samples\<close>: the states of the examples.

  Results. C1 to C8: a rule written is read back, every outcome of the rule operations, exact counters,
  the device row of a rule, table access, and what is lost of a rule.
  C9 and C10: the microcode and set-up. C11 to C15: VLANs. C16 to C19: MAC addresses. C20: port states.
  C21 to C26: quality of service. C28: members of a VLAN. C27 and C29 to C32: restart, settings, redirection, counters, the
  processor port.
  C33 to C38: multicast. C39 and C40: links and extended registers. The theorems without a number and the lemmas
  of the theories show the rest: table initialisation, the layout of the action values, the rule of the spanning
  tree, the removal of members, the other round trips (remarking, classification, storm control, schedulers,
  aggregation, clock delays), and requests that lose or misplace what they are given.

  Bounds. Loops of the source that run over constant tables are structural recursions or \<open>find\<close>; the
  polling loops are \<open>while_option\<close>, and every property that mentions a handler which polls states that it
  returns. The only fuel is that of
  \<open>mac_dump\<close> and \<open>router_dump\<close>, the loops of a client that reads the MAC table or the router ports; C18 and C34 show
  that 2049 and 13 calls are enough. Integers have the width of their C types; an index beyond an array, where the
  C code would leave it, is excluded by the invariants (\<open>dev_ok\<close>) or stated as a hypothesis.

  The invariant \<open>core_inv\<close> counts the references of the rules to the address tables. The groups of software
  snooping hold references of their own, so their handlers (\<open>Core_Groups\<close>) are definitions without theorems, and
  the theorems about handlers of the classification engine hold while software snooping has no group.

  Not modelled. Debug output (\<^verbatim>\<open>*_Print\<close>); allocation, power management and the ioctl dispatch, which copy
  structures between user space and the handlers; the drivers of the older switches (\<^verbatim>\<open>ltq_tantos_*\<close>), and
  everything outside the switch driver: vendored drivers, kernel patches, packages, build files.
\<close>

unbundle bit_operations_syntax

section \<open>Rules\<close>

lemmas ref_boot = ref.pce_engine_axioms boot_inv [of 2]

text \<open>
  C1. A rule whose pattern is in canonical form (values that fit, nothing in the fields that are not enabled, session 0), whose action is acceptable and whose VLAN, if it names one, has a row in the
  VLAN table of the device can always be written while fewer than seven rules are in use, and reading
  it back gives the same rule. (A VLAN without a row is stored as any VLAN, with success: \<open>inline_fields\<close>.)
\<close>

theorem rule_write_read_back:
  assumes "pce_engine hwstep tbl keep S" "rules_inv tbl keep s" "unat (nIndex (pattern r)) < IFX_PCE_TBL_SIZE"
    "canonical (pattern r)" "act_ok (action r)"
    "bVid (pattern r) \<longrightarrow> vlan_row (driver_tbl tbl (st_hw s)) (nVid (pattern r)) \<noteq> None"
    "used_rules (st_pce s) < 7"
  shows "\<exists>s' h'. ifx_pce_rule_write hwstep g r s = Some (0, s') \<and>
    ifx_pce_rule_read hwstep (nIndex (pattern r)) (st_pce s') (st_hw s') = Some (Some r, h')"
  by (rule write_then_read [OF assms, of g]) blast

theorem rule_write_read_back_witness:
  "\<exists>s' h'. ifx_pce_rule_write ref_step sample_garbage sample_rule (boot_state 2) = Some (0, s') \<and>
    ifx_pce_rule_read ref_step 3 (st_pce s') (st_hw s') = Some (Some sample_rule, h')"
  using rule_write_read_back [OF ref_boot sample_index(1) sample_ok(1,2), where g = sample_garbage] sample_ok(3)
  by (simp add: boot_used) (simp add: sample_rule_def)

text \<open>
  C2. Writing an enabled rule always ends. It returns a negative value only if the action is not acceptable or a table
  that the pattern needs has no free row. Otherwise it returns 0, and the rule was already there, or it is stored: its
  fields are as \<open>written\<close> says, which excepts IP addresses (a field of a full IP table becomes any, an all-zero row may be a free
  one) and the session of PPPoE (C8); if its values fit and its VLAN exists, the rule that a read returns, IP addresses aside, is the
  rule in normal form. In any case all other rules are read back as before, IP addresses aside, the rows of
  the pattern tables that they count on keep their content, and no other device table and no register outside
  the access window changes.
\<close>

theorem rule_write_outcome:
  assumes "pce_engine hwstep tbl keep S" "rules_inv tbl keep s" "unat (nIndex (pattern r)) < IFX_PCE_TBL_SIZE"
    "bEnable (pattern r)"
  shows "\<exists>e s'. ifx_pce_rule_write hwstep g r s = Some (e, s') \<and> st_ok tbl keep s' \<and>
    rule_frame tbl S (unat (nIndex (pattern r))) s s' \<and>
    (\<forall>n. unat n < IFX_PCE_TBL_SIZE \<and> unat n \<noteq> unat (nIndex (pattern r)) \<longrightarrow>
       rule_core (driver_tbl tbl (st_hw s')) (st_pce s') n = rule_core (driver_tbl tbl (st_hw s)) (st_pce s) n) \<and>
    (e = 0 \<and> rules_inv tbl keep s' \<and>
       (written tbl keep g (driver_tbl tbl (st_hw s)) (unat (nIndex (pattern r))) r s' \<and> act_ok (action r) \<or>
        rule_value (driver_tbl tbl (st_hw s)) (st_pce s) (nIndex (pattern r)) = Some r \<and> st_pce s' = st_pce s) \<and>
       (fits (pattern r) \<and> (bVid (pattern r) \<longrightarrow> vlan_row (driver_tbl tbl (st_hw s)) (nVid (pattern r)) \<noteq> None) \<longrightarrow>
        rule_core (driver_tbl tbl (st_hw s')) (st_pce s') (nIndex (pattern r))
          = Some \<lparr>pattern = normal (pattern r), action = action r\<rparr>) \<or>
     e < 0 \<and> (\<not> act_ok (action r) \<or>
       (\<exists>f. want g (pattern r) f \<noteq> None \<and> table_full (fkind f) (pce_sub_tbl (st_pce s')))))"
proof (rule rule_write_cases [OF assms, of g], goal_cases)
  case (1 h')
  have "st_ok tbl keep (s\<lparr>st_hw := h'\<rparr>)" using 1(3) by (simp add: rules_inv_def)
  then show ?case
    using 1 rule_frame_core [OF assms(2) _ 1(5)] assms(3) read_core [OF 1(6)]
    by (intro exI [of _ 0] exI [of _ "s\<lparr>st_hw := h'\<rparr>"]) auto
next
  case (2 s')
  have ok: "st_ok tbl keep s'" "rules_inv tbl keep s'" using 2(2) by (simp_all add: written_def rules_inv_def)
  show ?case
    using 2 ok rule_frame_core [OF assms(2) ok(1) 2(3)] assms(3) written_core [OF 2(2) assms(3) _ rule_frame_vlan [OF 2(3)]]
    by (intro exI [of _ 0] exI [of _ s']) auto
next
  case (3 e s')
  then show ?case using rule_frame_core [OF assms(2) 3(3,4)] assms(3) by (intro exI [of _ e] exI [of _ s']) auto
qed

theorem rule_write_outcome_witness:
  "\<exists>e s'. ifx_pce_rule_write ref_step sample_garbage sample_rule (boot_state 2) = Some (e, s') \<and>
    st_ok ref_tbl (\<lambda>_ m. m) s'"
  using rule_write_outcome [OF ref_boot sample_index(1) sample_ok(4), where g = sample_garbage] by blast

text \<open>
  C3. Deleting a rule in use always succeeds. The counter of each row of the pattern tables falls by the number of fields of the
  rule that name the row, for all tables, and not below zero (which only rows shared without being counted could reach);
  a row whose counter is zero is cleared and every other row keeps its content. The invariant holds again, the rule is free, its device row is
  written back invalid, and every other rule is read back as before, IP addresses aside.
\<close>

theorem rule_delete:
  assumes "pce_engine hwstep tbl keep S" "rules_inv tbl keep s" "idx < IFX_PCE_TBL_SIZE"
    "pce_tbl_used (st_pce s) ! idx \<noteq> 0"
  shows "\<exists>s'. ifx_pce_pattern_delete hwstep idx s = Some (0, s') \<and> rules_inv tbl keep s' \<and>
    (\<forall>k. \<forall>i<tsize k.
       unat (cnts (pce_sub_tbl (st_pce s')) k ! i) = unat (cnts (pce_sub_tbl (st_pce s)) k ! i) - card {f. fkind f = k \<and> fget f (fet idx s) = i} \<and>
       tabs (pce_sub_tbl (st_pce s')) k ! i
         = (if cnts (pce_sub_tbl (st_pce s')) k ! i = 0 then tzero k else tabs (pce_sub_tbl (st_pce s)) k ! i)) \<and>
    pce_tbl_used (st_pce s') ! idx = 0 \<and> fet idx s' = ones_row \<and> pce_act (st_pce s') ! idx = zero_action \<and>
    driver_tbl tbl (st_hw s') 15 idx = keep 15 ((driver_tbl tbl (st_hw s) 15 idx)\<lparr>i_valid := 0\<rparr>) \<and>
    (\<forall>n. unat n < IFX_PCE_TBL_SIZE \<and> unat n \<noteq> idx \<longrightarrow>
       rule_core (driver_tbl tbl (st_hw s')) (st_pce s') n = rule_core (driver_tbl tbl (st_hw s)) (st_pce s) n)"
proof (rule pattern_delete_frame [OF assms])
  fix s' assume d: "ifx_pce_pattern_delete hwstep idx s = Some (0, s')" "rules_inv tbl keep s'"
    "released idx UNIV (st_pce s) (pce_sub_tbl (st_pce s'))" "rule_frame tbl S idx s s'"
    "pce_tbl_used (st_pce s') ! idx = 0" "fet idx s' = ones_row" "pce_act (st_pce s') ! idx = zero_action"
    "driver_tbl tbl (st_hw s') 15 idx = keep 15 ((driver_tbl tbl (st_hw s) 15 idx)\<lparr>i_valid := 0\<rparr>)"
  have "st_ok tbl keep s'" using d(2) by (simp add: rules_inv_def)
  then show ?thesis
    using d assms(3,4) rule_frame_core [OF assms(2) _ d(4)]
    by (intro exI [of _ s']) (simp add: released_def own_refs_def fet_def)
qed

theorem rule_delete_witness:
  "\<exists>s s'. rules_inv ref_tbl (\<lambda>_ m. m) s \<and> pce_tbl_used (st_pce s) ! 3 = 1 \<and>
    ifx_pce_pattern_delete ref_step 3 s = Some (0, s') \<and> pce_tbl_used (st_pce s') ! 3 = 0"
proof -
  have i: "unat (nIndex (pattern sample_rule)) = 3" by (simp add: sample_rule_def)
  obtain s where s: "rules_inv ref_tbl (\<lambda>_ m. m) s" "pce_tbl_used (st_pce s) ! 3 = 1"
    by (rule boot_write [OF sample_index(1) sample_ok(4,2), of sample_garbage 2]) (auto simp: written_def i intro: that)
  then show ?thesis
    using rule_delete [OF ref.pce_engine_axioms s(1), of 3] by (auto simp: IFX_PCE_TBL_SIZE_def)
qed

text \<open>C4. Reading a rule of the table never fails and changes no table.\<close>

theorem rule_read_never_fails:
  assumes "pce_engine hwstep tbl keep S" "rules_inv tbl keep s" "unat n < IFX_PCE_TBL_SIZE"
  shows "\<exists>r h'. ifx_pce_rule_read hwstep n (st_pce s) (st_hw s) = Some (Some r, h') \<and>
    rules_inv tbl keep (s\<lparr>st_hw := h'\<rparr>) \<and> driver_tbl tbl h' = driver_tbl tbl (st_hw s)"
  by (rule rule_read_total [OF assms]) blast

theorem rule_read_never_fails_witness:
  "\<exists>r h'. ifx_pce_rule_read ref_step 5 (st_pce (boot_state 2)) (st_hw (boot_state 2)) = Some (Some r, h')"
  using rule_read_never_fails [OF ref_boot, of 5] by (auto simp: IFX_PCE_TBL_SIZE_def)

text \<open>
  C5. Along any sequence of writes, deletions and reads in which a write that fails concerns a rule
  in use or an unused all-any row, each counter of a pattern table equals the number of fields of
  rules in use that name the row (for the two IP tables it is at most that), free rows are zero,
  and the device holds exactly the rows in use.
\<close>

theorem reachable_counts_exact:
  assumes "pce_engine hwstep tbl keep S" "rules_inv tbl keep s0" "pce_reach hwstep s0 s" "i < tsize k"
  shows "unat (cnts (pce_sub_tbl (st_pce s)) k ! i) \<le> refs (st_pce s) k i \<and>
    (exact k \<longrightarrow> unat (cnts (pce_sub_tbl (st_pce s)) k ! i) = refs (st_pce s) k i) \<and>
    (cnts (pce_sub_tbl (st_pce s)) k ! i = 0 \<longrightarrow> tabs (pce_sub_tbl (st_pce s)) k ! i = tzero k) \<and>
    driver_tbl tbl (st_hw s) (tno k) i
      = keep (tno k) (dev_row (tabs (pce_sub_tbl (st_pce s)) k ! i) (cnts (pce_sub_tbl (st_pce s)) k ! i))"
proof -
  have "rules_inv tbl keep s" by (rule reach_inv [OF assms(1-3)])
  then show ?thesis
    using assms(4) by (simp add: rules_inv_def counted_def st_ok_def sub_inv_def tables_ok_def mirrored_def)
qed

theorem reachable_counts_exact_witness:
  "\<exists>s. pce_reach ref_step (boot_state 2) s \<and> pce_tbl_used (st_pce s) ! 3 = 1 \<and>
    unat (cnts (pce_sub_tbl (st_pce s)) MAC ! 0) = refs (st_pce s) MAC 0"
proof -
  have i: "unat (nIndex (pattern sample_rule)) = 3" by (simp add: sample_rule_def)
  obtain s where s: "ifx_pce_rule_write ref_step sample_garbage sample_rule (boot_state 2) = Some (0, s)"
    "pce_tbl_used (st_pce s) ! 3 = 1"
    by (rule boot_write [OF sample_index(1) sample_ok(4,2), of sample_garbage 2]) (auto simp: written_def i intro: that)
  have r: "pce_reach ref_step (boot_state 2) s" by (rule pce_reach.written [OF pce_reach.start s(1)])
  then show ?thesis
    using reachable_counts_exact [OF ref_boot r, of 0 MAC] s(2) by (auto simp: exact_def tbl_sizes)
qed



text \<open>
  Table initialisation puts the driver in order: whatever the tables held before, as long as the
  rule rows that it does not clear hold no index out of range, and the pattern tables of the device are empty.
\<close>

theorem table_init_in_order:
  assumes "length (pce_tbl P) = IFX_PCE_TBL_SIZE" "length (pce_act P) = IFX_PCE_TBL_SIZE"
    "\<forall>r<IFX_PCE_TBL_SIZE. 0 < r \<longrightarrow> row_wf (pce_tbl P ! r)"
    "idle h" "\<forall>k. \<forall>i<tsize k. driver_tbl tbl h (tno k) i = keep (tno k) zero_img"
  shows "rules_inv tbl keep \<lparr>st_pce = snd (ifx_pce_table_init P), st_hw = h, st_ent = e\<rparr>"
  by (rule table_init_inv) (use assms in simp_all)

theorem table_init_in_order_witness:
  "rules_inv ref_tbl (\<lambda>_ m. m) \<lparr>st_pce = snd (ifx_pce_table_init zeroed_PCE), st_hw = ref_init 1, st_ent = zero_entry\<rparr>"
  by (rule table_init_in_order) (simp_all add: zeroed_PCE_def idle_ref_init ref_init_tbl)

text \<open>
  C7. Access to the device tables: a row written is the row read back, through the same index, for
  every table and index of the device; reading changes no table and writing only that row.
\<close>

theorem table_write_read:
  assumes "pce_engine hwstep tbl keep S" "idle h" "entry_wf e" "unat (e_table e) = t" "unat (e_index e) = i"
    "t < 32" "t \<noteq> 11" "i < pce_table_size t"
  shows "\<exists>h' h''. ifx_ethsw_xwayflow_pce_table_write hwstep e h = Some h' \<and>
    driver_tbl tbl h' = set_row (driver_tbl tbl h) t i (keep t (img_of e)) \<and>
    ifx_ethsw_xwayflow_pce_table_read hwstep (zero_entry\<lparr>e_table := e_table e, e_index := e_index e\<rparr>) h' =
      Some (with_img (keep t (img_of e)) (zero_entry\<lparr>e_table := e_table e, e_index := e_index e\<rparr>), h'') \<and>
    driver_tbl tbl h'' = driver_tbl tbl h' \<and> idle h''"
proof -
  obtain h' where w: "ifx_ethsw_xwayflow_pce_table_write hwstep e h = Some h'" "idle h'"
    "driver_tbl tbl h' = set_row (driver_tbl tbl h) t i (keep t (img_of e))"
    using pce_engine.table_write_spec [OF assms] by metis
  let ?e = "zero_entry\<lparr>e_table := e_table e, e_index := e_index e\<rparr>"
  obtain h'' where r: "ifx_ethsw_xwayflow_pce_table_read hwstep ?e h' = Some (with_img (driver_tbl tbl h' t i) ?e, h'')"
    "idle h''" "driver_tbl tbl h'' = driver_tbl tbl h'"
    using pce_engine.table_read_spec [OF assms(1) w(2), of ?e t i] assms(4-) by auto
  show ?thesis using w r by (auto simp: set_row_def)
qed

theorem table_write_read_witness:
  "\<exists>h' h''. ifx_ethsw_xwayflow_pce_table_write ref_step (zero_entry\<lparr>e_table := 2, e_index := 9, e_mask := 0x3FF\<rparr>) (ref_init 3) = Some h' \<and>
    ifx_ethsw_xwayflow_pce_table_read ref_step (zero_entry\<lparr>e_table := 2, e_index := 9\<rparr>) h' =
      Some (zero_entry\<lparr>e_table := 2, e_index := 9, e_mask := 0x3FF\<rparr>, h'')"
proof -
  let ?e = "zero_entry\<lparr>e_table := 2, e_index := 9, e_mask := 0x3FF\<rparr>"
  have m: "with_img (img_of ?e) (zero_entry\<lparr>e_table := 2, e_index := 9\<rparr>) = ?e"
    by (simp add: with_img_def img_of_def zero_entry_def flip: replicate_add)
  show ?thesis
    using table_write_read [OF ref.pce_engine_axioms idle_ref_init [of 3], of ?e 2 9] m
    by (simp add: pce_table_size_def entry_wf_def zero_entry_def) blast
qed

text \<open>
  C8. The session id of a PPPoE field is never used: the table row a rule with such a field names
  holds the upper half of the rule's index, which is 0, for whatever session id was asked for.
\<close>

theorem pppoe_session_lost:
  assumes "pce_engine hwstep tbl keep S" "rules_inv tbl keep s" "unat (nIndex (pattern r)) < IFX_PCE_TBL_SIZE"
    "bEnable (pattern r)" "bSessionIdEnable (pattern r)"
    "ifx_pce_rule_write hwstep g r s = Some (0, s')" "st_pce s' \<noteq> st_pce s"
  shows "sess_id (pppoe_tbl (pce_sub_tbl (st_pce s')) ! unat (pppoe_idx (fet (unat (nIndex (pattern r))) s'))) = 0"
proof (rule rule_write_cases [OF assms(1-4), of g], goal_cases)
  case (1 h') then show ?case using assms(6,7) by simp
next
  case (2 s'')
  have i: "nIndex (pattern r) < 64" using assms(3) by (simp add: word_less_nat_alt IFX_PCE_TBL_SIZE_def)
  let ?F = "fet (unat (nIndex (pattern r))) s''" and ?H = "pce_sub_tbl (st_pce s'')"
  have "field_ok (want g (pattern r)) FPpp ?F ?H" using 2(2) unfolding written_def by blast
  then have h: "holds ?H PPPOE (unat (pppoe_idx ?F)) (E_pppoe \<lparr>sess_id = 0\<rparr>)"
    using assms(5) by (simp add: field_ok_def sess_id_zero [OF i] exact_def)
  have "tables_ok ?H" using 2(2) by (auto simp: written_def rules_inv_def intro: st_ok_tables)
  then have "length (tabs ?H PPPOE) = tsize PPPOE" by (simp only: tables_ok_def)
  then show ?case using h 2(1) assms(6) by (auto simp: holds_def nth_map)
next
  case (3 e s'') then show ?case using assms(6) by simp
qed

theorem pppoe_session_lost_witness:
  "\<exists>s'. ifx_pce_rule_write ref_step sample_garbage sample_pppoe (boot_state 2) = Some (0, s') \<and>
    nSessionId (pattern sample_pppoe) = 0x1234 \<and>
    sess_id (pppoe_tbl (pce_sub_tbl (st_pce s')) ! unat (pppoe_idx (fet 3 s'))) = 0"
proof -
  have i: "unat (nIndex (pattern sample_pppoe)) = 3" by (simp add: sample_rule_def sample_pppoe_def)
  obtain s where s: "ifx_pce_rule_write ref_step sample_garbage sample_pppoe (boot_state 2) = Some (0, s)"
    "pce_tbl_used (st_pce s) ! 3 = 1"
    by (rule boot_write [OF sample_index(2) sample_ok(5,8), of sample_garbage 2]) (auto simp: written_def i intro: that)
  have "st_pce s \<noteq> st_pce (boot_state 2)"
    using s(2) by (auto simp: boot_state_def ifx_pce_table_init_def IFX_PCE_TBL_SIZE_def)
  then show ?thesis
    using pppoe_session_lost [OF ref_boot sample_index(2) sample_ok(5,6) s(1)] s(1)
    by (auto simp: i) (simp add: sample_pppoe_def)
qed

section \<open>Actions\<close>

text \<open>
  The first action value of a rule: its sixteen bits are the enable bits of the action groups
  and three alternatives, each decided by its own part of the action.
\<close>

theorem action_enable_bits: "n < 16 \<Longrightarrow> bit (act_vals r a ! 0) n \<longleftrightarrow> enable_bits r a ! n"
  by (rule act_vals_enable)

theorem action_enable_bits_witness: "bit (act_vals (0x7F, 0) (action sample_rule) ! 0) 12 \<longleftrightarrow> True"
  using action_enable_bits [of 12 "(0x7F, 0)" "action sample_rule"]
  by (simp add: enable_bits_def sample_rule_def zero_action_def)

text \<open>
  The fifth action value of an acceptable action packs, without overlap, the learning code, the
  forwarding code, the flow-id bit, the snooping code, the RMON counter (one based) and the three
  override bits.
\<close>

theorem action_code_bits:
  assumes "n < 16" "act_ok a"
  shows "bit (act_vals r a ! 4) n \<longleftrightarrow>
    (if n < 2 then bit (learn_code a) n
     else if n < 4 then bit (forward_code a) (n - 2)
     else if n = 4 then bFlowID_Action a
     else if n < 8 then bit (snoop_code a) (n - 5)
     else if n < 13 then bit (rmon_code a) (n - 8)
     else if n = 13 then eCrossStateAction a = CROSS_STATE_CROSS
     else if n = 14 then eCritFrameAction a = CRITICAL_FRAME_CRITICAL
     else eTimestampAction a = TIMESTAMP_STORED)"
  by (rule act_vals_code [OF assms])

theorem action_code_bits_witness: "bit (act_vals (0x7F, 0) (action sample_rule) ! 4) 11"
  using action_code_bits [of 11 "action sample_rule" "(0x7F, 0)"] sample_ok(2)
  by (simp add: rmon_code_def) (simp add: sample_rule_def zero_action_def)

text \<open>
  The fourth action value. With a meter it holds only the meter and the remarking bits: an
  alternative traffic class and the cross-VLAN override, stored before it, are lost.
\<close>

theorem action_meter_bits:
  assumes "n < 16"
  shows "bit (act_vals r a ! 3) n \<longleftrightarrow>
    (if n = 12 then \<not> bRemarkDSCP a else if n = 13 then \<not> bRemarkClass a else if n = 14 then \<not> bRemarkPCP a
     else if eMeterAction a \<noteq> METER_DISABLE then bit (meter_code a) n
     else if n < 5 then True
     else if 8 \<le> n \<and> n < 12 then bit (tclass_code a) (n - 8)
     else n = 15 \<and> eVLAN_CrossAction a = CROSS_VLAN_CROSS)"
  by (rule act_vals_meter [OF assms])

theorem action_meter_bits_witness:
  "\<not> bit (act_vals (0x7F, 0) (zero_action\<lparr>eMeterAction := METER_1, nMeterId := 3, eVLAN_CrossAction := CROSS_VLAN_CROSS\<rparr>) ! 3) 15"
  using action_meter_bits [of 15 "(0x7F, 0)" "zero_action\<lparr>eMeterAction := METER_1, nMeterId := 3, eVLAN_CrossAction := CROSS_VLAN_CROSS\<rparr>"]
  by (simp add: meter_code_def)

section \<open>The parser microcode and the set-up\<close>

text \<open>
  C9. The macro that writes a row of the parser microcode keeps the value and the mask as they are and packs the six control fields into
  two words without overlap: each field within its range is found at its bits of the packed row (next row, 6 bits; output, 6;
  length, 5 across the two words; type, 2; flags, 4; the bit for the IPv4 length), and the low byte is 0.
\<close>

theorem microcode_row_fields:
  assumes "unat ns < 64" "unat out < 64" "unat len < 32" "unat type < 4" "unat flags < 16" "unat v4 < 2"
  shows "mc_ns (IFX_FLOW_PCE_MC_M val msk ns out len type flags v4) = unat ns \<and>
    mc_out (IFX_FLOW_PCE_MC_M val msk ns out len type flags v4) = unat out \<and>
    mc_len (IFX_FLOW_PCE_MC_M val msk ns out len type flags v4) = unat len \<and>
    mc_type (IFX_FLOW_PCE_MC_M val msk ns out len type flags v4) = unat type \<and>
    mc_flags (IFX_FLOW_PCE_MC_M val msk ns out len type flags v4) = unat flags \<and>
    mc_ipv4_len (IFX_FLOW_PCE_MC_M val msk ns out len type flags v4) = unat v4 \<and>
    val_3 (IFX_FLOW_PCE_MC_M val msk ns out len type flags v4) = ucast val \<and>
    val_2 (IFX_FLOW_PCE_MC_M val msk ns out len type flags v4) = ucast msk \<and>
    val_0 (IFX_FLOW_PCE_MC_M val msk ns out len type flags v4) AND 0xFF = 0"
proof -
  have "val_0 (IFX_FLOW_PCE_MC_M val msk ns out len type flags v4) AND mask 8 = 0"
    by (rule bit_word_eqI) (auto simp: IFX_FLOW_PCE_MC_M_def bit_simps)
  then show ?thesis
    using packed_fields [OF assms refl, of val msk] by (simp add: mask_eq_exp_minus_1) (simp add: IFX_FLOW_PCE_MC_M_def)
qed

theorem microcode_row_fields_witness:
  "mc_ns (IFX_FLOW_PCE_MC_M 0x8100 0xFFFF 4 5 9 2 FLAG_VLAN 1) = 4 \<and>
   mc_len (IFX_FLOW_PCE_MC_M 0x8100 0xFFFF 4 5 9 2 FLAG_VLAN 1) = 9"
  using microcode_row_fields [of 4 5 9 2 FLAG_VLAN 1] by simp

text \<open>
  C10. Set-up always ends and leaves the driver and the device in order: on a device that is idle,
  with empty tables and at most twelve ports, no VLAN and no rule is in use, the invariant of all
  handlers holds, and the parser table of the device holds the microcode, row by row.
\<close>

theorem core_init_in_order:
  assumes "pce_engine hwstep tbl keep S" "idle h"
    "n = unat (rdf VR9_ETHSW_CAP_1_PPORTS h)" "m = unat (rdf VR9_ETHSW_CAP_1_VPORTS h)"
    "n + m \<le> MAX_PORT_NUMBER" "mc_regs n \<subseteq> S"
    "\<forall>k. \<forall>i<tsize k. driver_tbl tbl h (tno k) i = keep (tno k) zero_img"
    "\<forall>i<64. driver_tbl tbl h 1 i = keep 1 zero_img \<and> driver_tbl tbl h 2 i = keep 2 zero_img"
  shows "\<exists>s. IFX_FLOW_SwitchCoreInit hwstep g h = Some s \<and> core_inv tbl keep s \<and> ports_ok (dev s) \<and>
    vlan_map (dev s) = Map.empty \<and> used_rules (st_pce (pce s)) = 0 \<and>
    unat (nPortNumber (dev s)) = n \<and> unat (nTotalPortNumber (dev s)) = n + m \<and>
    (\<forall>k<64. dtbl tbl s 0 k = keep 0 (img_of (mc_entry k (pce_mc_max_ifx_tag_m ! k))))"
  by (rule core_start [OF assms, of g]) blast

theorem core_init_in_order_witness:
  "\<exists>s. IFX_FLOW_SwitchCoreInit ref_step zero_entry (power_on 2) = Some s \<and> core_inv ref_tbl (\<lambda>_ m. m) s \<and>
    vlan_map (dev s) = Map.empty \<and> unat (nTotalPortNumber (dev s)) = 12"
  using core_init_in_order [OF ref.pce_engine_axioms power_on_regs(3) refl refl, of 2 zero_entry]
  by (auto simp: power_on_regs power_on_tbl)

section \<open>VLANs\<close>

text \<open>
  C11. Creating a VLAN always ends. It is refused, with nothing changed, for identifier 0, which is
  taken for a free row, when the identifier is in use, and when the table is full; otherwise the map of VLANs has the new VLAN,
  with no members, and the two rows of the device say so. No other identifier is refused: the documentation
  has 0 to 4095 and an error beyond, but 4096 and above are accepted.
\<close>

theorem vlan_create:
  assumes "pce_engine hwstep tbl keep S" "core_inv tbl keep s"
  shows "IFX_FLOW_VLAN_IdCreate hwstep q s = Some (IFX_ERROR, s) \<and>
      (vc_nVId q = 0 \<or> vlan_map (dev s) (vc_nVId q) \<noteq> None \<or> (\<forall>i<64. vlan_key (VLAN_Table (dev s) ! i) \<noteq> None)) \<or>
    (\<exists>s' i. IFX_FLOW_VLAN_IdCreate hwstep q s = Some (IFX_SUCCESS, s') \<and> core_inv tbl keep s' \<and>
      vc_nVId q \<noteq> 0 \<and> vlan_map (dev s) (vc_nVId q) = None \<and>
      vlan_map (dev s') = (vlan_map (dev s))(vc_nVId q \<mapsto> new_vlan (vc_nVId q) (vc_nFId q)) \<and> i < 64 \<and>
      dtbl tbl s' 1 i = keep 1 (act_img (new_vlan (vc_nVId q) (vc_nFId q))) \<and>
      dtbl tbl s' 2 i = keep 2 (map_img (new_vlan (vc_nVId q) (vc_nFId q))))"
proof (cases "vc_nVId q = 0")
  case True
  then show ?thesis using create_zero [OF core_inv_simps(2) [OF assms(2)] True, of hwstep] by blast
next
  case v: False
  show ?thesis
  proof (rule create_inv [OF assms v], goal_cases)
    case 1 then show ?case by blast
  next
    case (2 s')
    let ?r = "new_vlan (vc_nVId q) (vc_nFId q)"
    have "vlan_map (dev s') (vc_nVId q) = Some ?r" using 2(4) by simp
    then obtain i where i: "i < 64" "VLAN_Table (dev s') ! i = ?r"
      using vlan_map_Some [OF core_inv_simps(2) [OF 2(2)]] by blast
    then have "dtbl tbl s' 1 i = keep 1 (act_img ?r)" "dtbl tbl s' 2 i = keep 2 (map_img ?r)"
      using core_inv_simps(4) [OF 2(2)] by (auto simp: vlan_mirror_def Let_def new_vlan_def zero_vlan_def)
    then show ?case using v i(1) 2 by blast
  qed
qed

theorem vlan_create_witness:
  "\<exists>s0 s. IFX_FLOW_SwitchCoreInit ref_step zero_entry (power_on 2) = Some s0 \<and>
    IFX_FLOW_VLAN_IdCreate ref_step vlan5 s0 = Some (IFX_SUCCESS, s) \<and> vlan_map (dev s) = [5 \<mapsto> new_vlan 5 9]"
proof (rule started_vlan)
  fix s0 s :: "ref_priv core"
  assume s: "IFX_FLOW_SwitchCoreInit ref_step zero_entry (power_on 2) = Some s0" "core_inv ref_tbl (\<lambda>_ m. m) s0"
    "vlan_map (dev s0) = Map.empty" "IFX_FLOW_VLAN_IdCreate ref_step vlan5 s0 = Some (IFX_SUCCESS, s)"
  from vlan_create [OF ref.pce_engine_axioms s(2), of vlan5] s(3,4)
  have "vlan_map (dev s) = [5 \<mapsto> new_vlan 5 9]" by (auto simp: vlan5_def)
  then show ?thesis using s by blast
qed

text \<open>
  C12. Deleting a VLAN, with an identifier other than 0: refused, with nothing changed, when there is none or when rules refer to its
  row; otherwise it is gone from the map, and the invariant holds. Members do not matter: a VLAN that still
  has ports is deleted with them, where the documentation lets only a VLAN without ports be removed.
\<close>

theorem vlan_delete:
  assumes "pce_engine hwstep tbl keep S" "core_inv tbl keep s" "vd_nVId q \<noteq> 0"
  shows "IFX_FLOW_VLAN_IdDelete hwstep q s = Some (IFX_ERROR, s) \<and>
      (vlan_map (dev s) (vd_nVId q) = None \<or> (\<exists>i<64. vlan_look (dev s) (vd_nVId q) = Some i \<and>
        vlan_act_tbl_cnt (pce_sub_tbl (st_pce (pce s))) ! i \<noteq> 0)) \<or>
    (\<exists>i s'. IFX_FLOW_VLAN_IdDelete hwstep q s = Some (IFX_SUCCESS, s') \<and> core_inv tbl keep s' \<and>
      vlan_look (dev s) (vd_nVId q) = Some i \<and> vlan_act_tbl_cnt (pce_sub_tbl (st_pce (pce s))) ! i = 0 \<and>
      vlan_map (dev s') = (vlan_map (dev s))(vd_nVId q := None))"
  by (rule delete_inv_core [OF assms]) blast+

theorem vlan_delete_witness:
  "\<exists>s s'. core_inv ref_tbl (\<lambda>_ m. m) s \<and> vlan_map (dev s) = [5 \<mapsto> new_vlan 5 9] \<and>
    IFX_FLOW_VLAN_IdDelete ref_step \<lparr>vd_nVId = 5\<rparr> s = Some (IFX_SUCCESS, s') \<and> vlan_map (dev s') = Map.empty"
proof (rule started_vlan)
  fix s :: "ref_priv core"
  assume s: "core_inv ref_tbl (\<lambda>_ m. m) s" "vlan_map (dev s) = [5 \<mapsto> new_vlan 5 9]"
    "\<forall>i<64. vlan_act_tbl_cnt (pce_sub_tbl (st_pce (pce s))) ! i = 0"
  then show ?thesis using vlan_delete [OF ref.pce_engine_axioms s(1), of "\<lparr>vd_nVId = 5\<rparr>"] by auto
qed

text \<open>
  C28. Adding a port to a VLAN, with an identifier other than 0: refused, with nothing changed, when there is no such port or VLAN or
  the VLAN is reserved; otherwise the port is a member, tagged or untagged as asked for, and no other
  port and no other VLAN changes. The invariant holds, by which the device has the same members.
\<close>

theorem vlan_member_add:
  assumes "vlan_device hwstep tbl keep S" "core_inv tbl keep s" "va_nVId q \<noteq> 0" "length (e_key g) = 16"
  shows "IFX_FLOW_VLAN_PortMemberAdd hwstep g q s = Some (IFX_ERROR, s) \<and>
      (va_nPortId q \<ge> nTotalPortNumber (dev s) \<or> vlan_map (dev s) (va_nVId q) = None \<or>
        (\<exists>r. vlan_map (dev s) (va_nVId q) = Some r \<and> vt_reserved r = IFX_TRUE)) \<or>
    (\<exists>r s'. IFX_FLOW_VLAN_PortMemberAdd hwstep g q s = Some (IFX_SUCCESS, s') \<and> core_inv tbl keep s' \<and>
      vlan_map (dev s) (va_nVId q) = Some r \<and> vt_reserved r \<noteq> IFX_TRUE \<and>
      vlan_map (dev s') = (vlan_map (dev s))(va_nVId q \<mapsto>
        r\<lparr>vt_pm := set_bit (unat (va_nPortId q)) (vt_pm r),
          vt_tm := (if va_bVLAN_TagEgress q \<noteq> 0 then set_bit (unat (va_nPortId q)) (vt_tm r)
                    else unset_bit (unat (va_nPortId q)) (vt_tm r))\<rparr>))"
  by (rule add_inv [OF assms]) (auto simp: add_member_def)

theorem vlan_member_add_witness:
  "\<exists>s s' r. core_inv ref_tbl (\<lambda>_ m. m) s \<and>
    IFX_FLOW_VLAN_PortMemberAdd ref_step zero_entry \<lparr>va_nVId = 5, va_nPortId = 3, va_bVLAN_TagEgress = 1\<rparr> s = Some (IFX_SUCCESS, s') \<and>
    vlan_map (dev s') 5 = Some r \<and> vt_pm r = 8 \<and> vt_tm r = 8"
proof (rule started_vlan)
  let ?q = "\<lparr>va_nVId = 5, va_nPortId = 3, va_bVLAN_TagEgress = 1\<rparr>"
  fix s :: "ref_priv core"
  assume s: "core_inv ref_tbl (\<lambda>_ m. m) s" "vlan_map (dev s) = [5 \<mapsto> new_vlan 5 9]" "nTotalPortNumber (dev s) = 12"
  have f: "vt_reserved (new_vlan 5 9) = 0" "vt_pm (new_vlan 5 9) = 0" "vt_tm (new_vlan 5 9) = 0"
    by (simp_all add: new_vlan_def zero_vlan_def)
  have b: "set_bit 3 (0::u16) = 8" by (simp add: set_bit_eq_or push_bit_eq_mult)
  have l: "length (e_key zero_entry) = 16" by (simp add: zero_entry_def)
  from vlan_member_add [OF refv.vlan_device_axioms s(1) _ l, of ?q] s(2,3) f b
  show ?thesis using s(1) by auto
qed

text \<open>
  Removing a port from a VLAN: refused when there is no such port or VLAN; otherwise the port is
  no member any more, neither tagged nor untagged, and the device has the same members.
\<close>

theorem vlan_member_remove:
  assumes "vlan_device hwstep tbl keep S" "core_inv tbl keep s" "vr_nVId q \<noteq> 0" "length (e_key g) = 16"
  shows "IFX_FLOW_VLAN_PortMemberRemove hwstep g q s = Some (IFX_ERROR, s) \<and>
      (vr_nPortId q \<ge> nTotalPortNumber (dev s) \<or> vlan_map (dev s) (vr_nVId q) = None) \<or>
    (\<exists>r s'. IFX_FLOW_VLAN_PortMemberRemove hwstep g q s = Some (IFX_SUCCESS, s') \<and> core_inv tbl keep s' \<and>
      vlan_map (dev s) (vr_nVId q) = Some r \<and>
      vlan_map (dev s') = (vlan_map (dev s))(vr_nVId q \<mapsto>
        r\<lparr>vt_pm := unset_bit (unat (vr_nPortId q)) (vt_pm r), vt_tm := unset_bit (unat (vr_nPortId q)) (vt_tm r)\<rparr>))"
  by (rule remove_inv [OF assms]) (auto simp: drop_member_def)

theorem vlan_member_remove_witness:
  "\<exists>s s'. core_inv ref_tbl (\<lambda>_ m. m) s \<and> core_inv ref_tbl (\<lambda>_ m. m) s' \<and>
    IFX_FLOW_VLAN_PortMemberRemove ref_step zero_entry \<lparr>vr_nVId = 5, vr_nPortId = 3\<rparr> s = Some (IFX_SUCCESS, s')"
proof (rule started_vlan)
  let ?q = "\<lparr>vr_nVId = 5, vr_nPortId = 3\<rparr>"
  fix s :: "ref_priv core"
  assume s: "core_inv ref_tbl (\<lambda>_ m. m) s" "vlan_map (dev s) = [5 \<mapsto> new_vlan 5 9]" "nTotalPortNumber (dev s) = 12"
  have l: "length (e_key zero_entry) = 16" by (simp add: zero_entry_def)
  from vlan_member_remove [OF refv.vlan_device_axioms s(1) _ l, of ?q] s(2,3)
  show ?thesis using s(1) by auto
qed


text \<open>
  C13. Whatever sequence of requests the driver serves to create, delete and reserve VLANs and to add and remove members, refused
  ones included, the device has exactly the VLANs of the driver: row for row the identifier and the members, and of the VLANs not
  reserved the identifier, the filtering identifier and the validity; no two rows have the same identifier.
  The requests, other than to create, name identifiers other than 0. Lifting a reservation is not covered: it leaves the
  row of the VLAN in the device cleared.
\<close>

theorem vlans_on_device:
  assumes "vlan_device hwstep tbl keep S" "core_inv tbl keep s0" "vlan_reach hwstep s0 s" "i < 64"
  shows "dtbl tbl s 2 i = keep 2 (map_img (VLAN_Table (dev s) ! i)) \<and>
    (vt_reserved (VLAN_Table (dev s) ! i) = IFX_FALSE \<longrightarrow> dtbl tbl s 1 i = keep 1 (act_img (VLAN_Table (dev s) ! i))) \<and>
    (\<forall>j<64. \<forall>k. vlan_key (VLAN_Table (dev s) ! i) = Some k \<longrightarrow> vlan_key (VLAN_Table (dev s) ! j) = Some k \<longrightarrow> i = j)"
proof -
  note I = vlan_reach_inv [OF assms(3,1,2)]
  show ?thesis using core_inv_simps(2,4) [OF I] assms(4) by (simp add: vlan_mirror_def vlan_wf_def Let_def)
qed

theorem vlans_on_device_witness:
  "\<exists>s0 s. vlan_reach ref_step s0 s \<and> vlan_map (dev s0) = Map.empty \<and> vlan_map (dev s) = [5 \<mapsto> new_vlan 5 9] \<and>
    dtbl ref_tbl s 2 1 = map_img (VLAN_Table (dev s) ! 1)"
proof (rule started_vlan)
  fix s0 s :: "ref_priv core"
  assume s: "core_inv ref_tbl (\<lambda>_ m. m) s0" "vlan_map (dev s0) = Map.empty" "vlan_map (dev s) = [5 \<mapsto> new_vlan 5 9]"
    "IFX_FLOW_VLAN_IdCreate ref_step vlan5 s0 = Some (IFX_SUCCESS, s)"
  have r: "vlan_reach ref_step s0 s"
    by (rule vlan_reach.created [OF vlan_reach.start s(4)])
  show ?thesis using vlans_on_device [OF refv.vlan_device_axioms s(1) r, of 1] r s(2,3) by auto
qed

text \<open>
  C14. Reserving a VLAN loses its row of the active VLAN table: the handler writes the row from a
  cleared entry, so the device has there no identifier and no valid row, while the driver still
  has the VLAN.
\<close>

theorem vlan_reserve_loses_row:
  assumes "pce_engine hwstep tbl keep S" "core_inv tbl keep s" "vs_nVId q \<noteq> 0"
    "IFX_FLOW_VLAN_ReservedAdd hwstep q s = Some (IFX_SUCCESS, s')"
  shows "\<exists>i r. vlan_look (dev s) (vs_nVId q) = Some i \<and> vlan_map (dev s) (vs_nVId q) = Some r \<and>
    vlan_map (dev s') = (vlan_map (dev s))(vs_nVId q \<mapsto> r\<lparr>vt_reserved := IFX_TRUE\<rparr>) \<and>
    dtbl tbl s' 1 i = keep 1 (zero_img\<lparr>i_val := [0x100, 0, 0, 0, 0, 0, 0]\<rparr>)"
  by (rule reserved_inv [OF assms(1-3)]) (use assms(4) in auto)

theorem vlan_reserve_loses_row_witness:
  "\<exists>s s' i. vlan_map (dev s) = [5 \<mapsto> new_vlan 5 9] \<and> IFX_FLOW_VLAN_ReservedAdd ref_step \<lparr>vs_nVId = 5\<rparr> s = Some (IFX_SUCCESS, s') \<and>
    vlan_look (dev s) 5 = Some i \<and> i_valid (dtbl ref_tbl s' 1 i) = 0"
proof (rule started_vlan)
  fix s :: "ref_priv core"
  assume s: "core_inv ref_tbl (\<lambda>_ m. m) s" "vlan_map (dev s) = [5 \<mapsto> new_vlan 5 9]"
  have v: "vs_nVId \<lparr>vs_nVId = 5\<rparr> \<noteq> 0" "vlan_map (dev s) (vs_nVId \<lparr>vs_nVId = 5\<rparr>) = Some (new_vlan 5 9)"
    "vt_pm (new_vlan 5 9) = 0" "vt_tm (new_vlan 5 9) = 0"
    using s(2) by (simp_all add: new_vlan_def zero_vlan_def)
  obtain s' where r: "IFX_FLOW_VLAN_ReservedAdd ref_step \<lparr>vs_nVId = 5\<rparr> s = Some (IFX_SUCCESS, s')"
    by (rule reserve_cases [OF ref.pce_engine_axioms core_inv_simps(1,2) [OF s(1)] v])
  from vlan_reserve_loses_row [OF ref.pce_engine_axioms s(1) v(1) r]
  show ?thesis using s(2) r by (auto simp: zero_img_def)
qed

text \<open>
  C15. The VLAN configuration of a port is read back as it was set, up to what the register fields
  keep of it, and setting it changes nothing the driver keeps.
\<close>

theorem vlan_port_config_round_trip:
  assumes "vlan_wf (dev s)" "vp_nPortId q < nTotalPortNumber (dev s)" "vp_nPortVId q \<noteq> 0"
    "vlan_look (dev s) (vp_nPortVId q) = Some i" "vp_eVLAN_MemberViolation q \<le> 3" "vp_nPortId o' = vp_nPortId q"
  shows "\<exists>s'. IFX_FLOW_VLAN_PortCfgSet q s = (IFX_SUCCESS, s') \<and> dev s' = dev s \<and>
    IFX_FLOW_VLAN_PortCfgGet g o' s' = (IFX_SUCCESS, q\<lparr>vp_bVLAN_UnknownDrop := (if vp_bVLAN_UnknownDrop q = 1 then 1 else 0),
     vp_bVLAN_ReAssign := vp_bVLAN_ReAssign q AND 1,
     vp_eAdmitMode := (if vp_eAdmitMode q \<le> 2 then vp_eAdmitMode q else IFX_ETHSW_VLAN_ADMIT_ALL),
     vp_bTVM := (if vp_bTVM q = 1 then 1 else 0)\<rparr>)"
  using portcfg_read_back [OF assms] by (simp only: vport_norm_def)

theorem vlan_port_config_round_trip_witness:
  "\<exists>s s' :: ref_priv core. vlan_map (dev s) = [5 \<mapsto> new_vlan 5 9] \<and>
    IFX_FLOW_VLAN_PortCfgSet \<lparr>vp_nPortId = 11, vp_nPortVId = 5, vp_bVLAN_UnknownDrop = 1, vp_bVLAN_ReAssign = 1,
      vp_eVLAN_MemberViolation = 2, vp_eAdmitMode = 1, vp_bTVM = 1\<rparr> s = (IFX_SUCCESS, s') \<and>
    IFX_FLOW_VLAN_PortCfgGet zero_vlan \<lparr>vp_nPortId = 11, vp_nPortVId = 5, vp_bVLAN_UnknownDrop = 1, vp_bVLAN_ReAssign = 1,
      vp_eVLAN_MemberViolation = 2, vp_eAdmitMode = 1, vp_bTVM = 1\<rparr> s' = (IFX_SUCCESS, \<lparr>vp_nPortId = 11, vp_nPortVId = 5,
      vp_bVLAN_UnknownDrop = 1, vp_bVLAN_ReAssign = 1, vp_eVLAN_MemberViolation = 2, vp_eAdmitMode = 1, vp_bTVM = 1\<rparr>)"
proof (rule started_vlan)
  let ?q = "\<lparr>vp_nPortId = 11, vp_nPortVId = 5, vp_bVLAN_UnknownDrop = 1, vp_bVLAN_ReAssign = 1,
      vp_eVLAN_MemberViolation = 2, vp_eAdmitMode = 1, vp_bTVM = 1\<rparr>"
  fix s :: "ref_priv core"
  assume s: "core_inv ref_tbl (\<lambda>_ m. m) s" "vlan_map (dev s) = [5 \<mapsto> new_vlan 5 9]" "nTotalPortNumber (dev s) = 12"
  note w = core_inv_simps(2) [OF s(1)]
  obtain i where i: "vlan_look (dev s) 5 = Some i" using vlan_map_Some [OF w, of 5 "new_vlan 5 9"] s(2) by auto
  have "\<exists>s'. IFX_FLOW_VLAN_PortCfgSet ?q s = (IFX_SUCCESS, s') \<and> IFX_FLOW_VLAN_PortCfgGet zero_vlan ?q s' = (IFX_SUCCESS, ?q)"
    using vlan_port_config_round_trip [OF w, of ?q i ?q zero_vlan] i s(3) by auto
  then show ?thesis using s(2) by blast
qed

text \<open>
  Reading the VLAN members out skips the first row: the first call reads row 0 of the mapping
  table, goes on to row 1 and returns that one.
\<close>

theorem vlan_read_skips_row_0:
  assumes "pce_engine hwstep tbl keep S" "idle (hw_of s)" "vm_bInitial q = IFX_TRUE"
  shows "\<exists>s'. IFX_FLOW_VLAN_PortMemberRead hwstep g q s = Some (IFX_SUCCESS,
      q\<lparr>vm_bInitial := IFX_FALSE, vm_bLast := IFX_FALSE, vm_nVId := i_val (dtbl tbl s 2 1) ! 0 AND 0xFFF,
        vm_nPortId := ucast (i_val (dtbl tbl s 2 1) ! 1) OR 0x80000000,
        vm_nTagId := ucast (i_val (dtbl tbl s 2 1) ! 2) OR 0x80000000\<rparr>, s') \<and>
    vlan_table_index (dev s') = 1 \<and> dtbl tbl s' = dtbl tbl s"
  by (rule first_read [OF assms, of g]) (auto simp: row_info_def)

theorem vlan_read_skips_row_0_witness:
  "\<exists>s s' q. core_inv ref_tbl (\<lambda>_ m. m) s \<and> IFX_FLOW_VLAN_PortMemberRead ref_step zero_entry
      \<lparr>vm_bInitial = 1, vm_bLast = 0, vm_nVId = 0, vm_nPortId = 0, vm_nTagId = 0\<rparr> s = Some (IFX_SUCCESS, q, s') \<and>
    vlan_table_index (dev s') = 1"
proof (rule started)
  let ?q = "\<lparr>vm_bInitial = 1, vm_bLast = 0, vm_nVId = 0, vm_nPortId = 0, vm_nTagId = 0\<rparr>"
  fix s :: "ref_priv core" assume s: "core_inv ref_tbl (\<lambda>_ m. m) s"
  from vlan_read_skips_row_0 [OF ref.pce_engine_axioms core_inv_simps(1) [OF s], of ?q zero_entry] s
  show ?thesis by auto
qed

text \<open>VLAN 0 is never created: free rows have identifier 0, so the search finds one.\<close>

theorem vlan_zero_refused:
  assumes "vlan_wf (dev s)" "vc_nVId q = 0"
  shows "IFX_FLOW_VLAN_IdCreate hwstep q s = Some (IFX_ERROR, s)"
  by (rule create_zero [OF assms])

theorem vlan_zero_refused_witness:
  "\<exists>s. core_inv ref_tbl (\<lambda>_ m. m) s \<and> IFX_FLOW_VLAN_IdCreate ref_step \<lparr>vc_nVId = 0, vc_nFId = 1\<rparr> s = Some (IFX_ERROR, s)"
proof (rule started)
  fix s :: "ref_priv core" assume s: "core_inv ref_tbl (\<lambda>_ m. m) s"
  show ?thesis using vlan_zero_refused [OF core_inv_simps(2) [OF s], of "\<lparr>vc_nVId = 0, vc_nFId = 1\<rparr>"] s by auto
qed

section \<open>MAC addresses\<close>

text \<open>
  C16. A static address added to the table is found by a query that follows, as a static one, and reported with the map of
  ports that has just the bit of its port (the number of the port, which the query documents without the mark of a map, is
  not reported). It is not found only when it was new and the table, with what traffic had put there meanwhile,
  had no free row: the request succeeds then too. The other addresses that no traffic carries
  keep their entries, and the invariants hold. Both requests return.
\<close>

theorem mac_add_query:
  assumes "mac_engine hwstep tbl keep S brow Q" "core_inv tbl keep s" "mac_ok Q (maddr brow s)" "entry_wf g" "0x452 \<in> S"
    "ma_nPortId q < ucast (nTotalPortNumber (dev s))" "ma_bStaticEntry q \<noteq> 0"
    "mac_id (ma_nMAC q) (ma_nFId q) \<in> Q" "mq_nMAC r = ma_nMAC q" "mq_nFId r = ma_nFId q"
  shows "\<exists>s' r' s''. IFX_FLOW_MAC_TableEntryAdd hwstep g q s = Some (IFX_SUCCESS, s') \<and>
    IFX_FLOW_MAC_TableEntryQuery hwstep r s' = Some (IFX_SUCCESS, r', s'') \<and>
    core_inv tbl keep s'' \<and> mac_ok Q (maddr brow s'') \<and>
    (r' = r\<lparr>mq_bFound := 1, mq_bStaticEntry := 1, mq_nAgeTimer := 0, mq_nPortId := ucast (push_bit (unat (ma_nPortId q)) 1 :: u16)\<rparr> \<or>
     r' = r\<lparr>mq_bFound := 0\<rparr> \<and> mac_map (maddr brow s) (mac_id (ma_nMAC q) (ma_nFId q)) = None \<and>
       (\<exists>B. moved Q (maddr brow s) B \<and> (\<forall>i<IFX_HW_MAC_TABLE_MAX. i_valid (B i) = 1))) \<and>
    (\<forall>k\<in>Q. k \<noteq> mac_id (ma_nMAC q) (ma_nFId q) \<longrightarrow> mac_map (maddr brow s'') k = mac_map (maddr brow s) k)"
proof (rule mac_add_lookup [OF assms(1,2,3,4,5) disjI1 [OF assms(6)] assms(8,9,10)], goal_cases)
  case (1 s' s'' v)
  have p: "ma_nPortId q AND 0x80000000 = 0" by (rule small_port [OF core_inv_simps(3) [OF assms(2)] assms(6)])
  show ?case
  proof (intro exI conjI)
    show "found_in (rd VR9_PCE_AGE_1_MANT s) v r = r\<lparr>mq_bFound := 1, mq_bStaticEntry := 1, mq_nAgeTimer := 0,
          mq_nPortId := ucast (push_bit (unat (ma_nPortId q)) 1 :: u16)\<rparr> \<or>
        found_in (rd VR9_PCE_AGE_1_MANT s) v r = r\<lparr>mq_bFound := 0\<rparr> \<and> mac_map (maddr brow s) (mac_id (ma_nMAC q) (ma_nFId q)) = None \<and>
          (\<exists>B. moved Q (maddr brow s) B \<and> (\<forall>i<IFX_HW_MAC_TABLE_MAX. i_valid (B i) = 1))"
      using 1(5) unfolding mac_full_def by (auto simp: found_in_def static_vals [OF assms(4,7) p] attr_of_def)
  qed (use 1 in simp_all)
qed

theorem mac_add_query_witness:
  "\<exists>s' r' s''. IFX_FLOW_MAC_TableEntryAdd learning_step zero_entry static_mac (core_on (learning_on [heard])) = Some (IFX_SUCCESS, s') \<and>
    IFX_FLOW_MAC_TableEntryQuery learning_step (mac_question known_mac 5) s' = Some (IFX_SUCCESS, r', s'') \<and>
    core_inv learning_tbl (\<lambda>_ m. m) s''"
  using mac_add_query [OF learning_mac.mac_engine_axioms learning_start(1,2) entry_wf_zero, of static_mac "[heard]" "mac_question known_mac 5"]
    known_quiet by (simp add: static_mac_def mac_question_def) blast

text \<open>
  C17. Removing an address removes its entry, whether it was static or learned, and leaves every other
  address that no traffic carries: on the table as a map, it is the removal of a key.
\<close>

theorem mac_remove_refines:
  assumes "mac_engine hwstep tbl keep S brow Q" "core_inv tbl keep s" "mac_ok Q (maddr brow s)"
    "length (md_nMAC q) = 6" "unat (md_nFId q) < 64" "rd VR9_PCE_GCTRL_0_MTFL s = 0"
  shows "\<exists>s'. IFX_FLOW_MAC_TableEntryRemove hwstep q s = Some (IFX_SUCCESS, s') \<and> core_inv tbl keep s' \<and> mac_ok Q (maddr brow s') \<and>
    mac_map (maddr brow s') |` Q = ((mac_map (maddr brow s)) (mac_id (md_nMAC q) (md_nFId q) := None)) |` Q"
proof (rule mac_remove_spec [OF assms(1) core_inv_simps(1) [OF assms(2)] assms(3-6)], goal_cases)
  case (1 s')
  have "mac_map (maddr brow s') |` Q = ((mac_map (maddr brow s)) (mac_id (md_nMAC q) (md_nFId q) := None)) |` Q"
    using 1(5) by (auto simp: restrict_map_def fun_eq_iff)
  with 1(1,3) mac_only_inv [OF 1(2) assms(2)] show ?case by blast
qed

theorem mac_remove_refines_witness:
  "\<exists>s'. IFX_FLOW_MAC_TableEntryRemove learning_step \<lparr>md_nFId = 5, md_nMAC = known_mac\<rparr> (core_on (learning_on [heard])) = Some (IFX_SUCCESS, s') \<and>
    mac_map (maddr learning_rows s') (mac_id known_mac 5) = None"
proof -
  let ?q = "\<lparr>md_nFId = 5, md_nMAC = known_mac\<rparr>" and ?s = "core_on (learning_on [heard])"
  have q: "length (md_nMAC ?q) = 6" "unat (md_nFId ?q) < 64" by (simp_all add: known_mac_def)
  obtain s' where s': "IFX_FLOW_MAC_TableEntryRemove learning_step ?q ?s = Some (IFX_SUCCESS, s')"
    "mac_map (maddr learning_rows s') |` fid_not_0 = ((mac_map (maddr learning_rows ?s)) (mac_id (md_nMAC ?q) (md_nFId ?q) := None)) |` fid_not_0"
    using mac_remove_refines [OF learning_mac.mac_engine_axioms learning_start(1,2) q learning_unflushed] by blast
  from fun_cong [OF s'(2), of "mac_id known_mac 5"] s'(1) known_quiet show ?thesis by (auto simp: restrict_map_def)
qed

text \<open>
  C18. Reading the table, with a first call that asks for the first entry and repeated until the
  last one is reported, ends after at most 2049 calls, and reports every address that no traffic
  carries exactly once, as it is in the table, and none that is not there.
\<close>

theorem mac_table_read_through:
  assumes "mac_engine hwstep tbl keep S brow Q" "core_inv tbl keep s" "mac_ok Q (maddr brow s)" "0x452 \<in> S" "mr_bInitial q = 1"
  shows "\<exists>L s'. mac_dump hwstep g 2049 q s = Some (L, s') \<and> core_inv tbl keep s' \<and>
    (\<forall>k\<in>Q. map read_attr (filter (\<lambda>r. read_id r = k) L) =
       (case mac_map (maddr brow s) k of None \<Rightarrow> [] | Some v \<Rightarrow> [attr_of (rd VR9_PCE_AGE_1_MANT s) v]))"
proof -
  obtain L s' where d: "mac_dump hwstep g 2049 q s = Some (L, s')" "mac_only tbl S s s'"
    "dumped Q (rd VR9_PCE_AGE_1_MANT s) (maddr brow s) 0 L"
    using mac_dump_spec [OF assms(1,4) core_inv_simps(1) [OF assms(2)], of 0 q 2049, where g = g] assms(5) by auto
  show ?thesis
    by (rule exI [of _ L], rule exI [of _ s'])
      (use d(1) mac_only_inv [OF d(2) assms(2)] dumped_all [OF d(3) assms(3)] in blast)
qed

theorem mac_table_read_through_witness:
  "\<exists>L s'. mac_dump learning_step zero_entry 2049 (zero_MAC_tableRead\<lparr>mr_bInitial := 1\<rparr>) (core_on (learning_on [heard, heard])) = Some (L, s') \<and>
    filter (\<lambda>r. read_id r = mac_id known_mac 5) L = []"
proof -
  let ?q = "zero_MAC_tableRead\<lparr>mr_bInitial := 1\<rparr>" and ?s = "core_on (learning_on [heard, heard])"
  have q: "mr_bInitial ?q = 1" by simp
  obtain L s' where d: "mac_dump learning_step zero_entry 2049 ?q ?s = Some (L, s')"
    "\<forall>k\<in>fid_not_0. map read_attr (filter (\<lambda>r. read_id r = k) L) =
       (case mac_map (maddr learning_rows ?s) k of None \<Rightarrow> [] | Some v \<Rightarrow> [attr_of (rd VR9_PCE_AGE_1_MANT ?s) v])"
    using mac_table_read_through [OF learning_mac.mac_engine_axioms learning_start(1,2) UNIV_I q, of zero_entry] by blast
  from bspec [OF d(2) known_quiet] have "map read_attr (filter (\<lambda>r. read_id r = mac_id known_mac 5) L) = []"
    unfolding learning_start(3) by simp
  with d(1) show ?thesis by auto
qed

text \<open>
  C19. The age a query reports for a learned address: when a row of the table has the address and is not static, the query finds
  it, and the age is the ageing counter of that row, its four low bits, in fifteenths of the ageing time of the
  switch, computed without overflow: at most a day. The port is the number in the four bits above.
\<close>

theorem mac_age_bounds:
  assumes "mac_engine hwstep tbl keep S brow Q" "core_inv tbl keep s" "mac_ok Q (maddr brow s)" "0x452 \<in> S"
    "mac_id (mq_nMAC q) (mq_nFId q) \<in> Q" "i < IFX_HW_MAC_TABLE_MAX" "has_key (mac_id (mq_nMAC q) (mq_nFId q)) (maddr brow s i)"
    "i_val (maddr brow s i) ! 1 AND 1 = 0" "w = i_val (maddr brow s i) ! 0"
  shows "\<exists>r s'. IFX_FLOW_MAC_TableEntryQuery hwstep q s = Some (IFX_SUCCESS, r, s') \<and> mq_bFound r = 1 \<and> mq_bStaticEntry r = 0 \<and>
    unat (mq_nAgeTimer r) = unat (age_seconds (rd VR9_PCE_AGE_1_MANT s)) * (unat w mod 16) div 15 \<and>
    unat (mq_nAgeTimer r) \<le> 86400 \<and> unat (mq_nPortId r) = unat w div 16 mod 16"
proof (rule mac_query_spec [OF assms(1) core_inv_simps(1) [OF assms(2)] assms(3-5)], goal_cases)
  case (1 s')
  let ?m = "rd VR9_PCE_AGE_1_MANT s"
  have v: "mac_map (maddr brow s) (mac_id (mq_nMAC q) (mq_nFId q)) = Some (w, 0)"
    using mac_map_row [OF assms(3,5,6,7)] assms(8,9) by (simp add: mac_vals_def)
  have c: "unat (w AND 0xF) = unat w mod 16" using unat_mask [of w 4] by (simp add: mask_eq_exp_minus_1)
  have d: "unat (drop_bit 4 w) = unat w div 16" by (subst unat_drop_bit_eq) (simp add: drop_bit_eq_div)
  have p: "unat (drop_bit 4 w AND 0xF) = unat w div 16 mod 16"
    using unat_mask [of "drop_bit 4 w" 4] unfolding d by (simp add: mask_eq_exp_minus_1)
  have b: "unat (age_seconds ?m) * (unat w mod 16) div 15 \<le> 86400"
  proof -
    have "unat (age_seconds ?m) * (unat w mod 16) \<le> 86400 * 15" by (rule mult_le_mono [OF age_exact(2)]) simp
    then show ?thesis by linarith
  qed
  from 1(1) show ?case
    unfolding v using age_exact(1) [of ?m w] b c p by (simp add: found_in_def attr_of_def)
qed

theorem mac_age_bounds_witness:
  "\<exists>r s'. IFX_FLOW_MAC_TableEntryQuery learning_step (mac_question known_mac 5) (core_on learned_on) = Some (IFX_SUCCESS, r, s') \<and>
    mq_bFound r = 1 \<and> unat (mq_nAgeTimer r) = 200 \<and> unat (mq_nPortId r) = 3"
proof -
  have q: "mac_id (mq_nMAC (mac_question known_mac 5)) (mq_nFId (mac_question known_mac 5)) = mac_id known_mac 5" "(7 :: nat) < IFX_HW_MAC_TABLE_MAX"
    "i_val (maddr learning_rows (core_on learned_on) 7) ! 1 AND 1 = 0"
    unfolding learned_start(5) by (simp_all add: mac_question_def)
  from mac_age_bounds [OF learning_mac.mac_engine_axioms learned_start(1,2) UNIV_I _ q(2) _ q(3) refl, of "mac_question known_mac 5"]
  show ?thesis unfolding q(1) learned_start(4,6) using known_quiet learned_start(3) by (auto simp: age_seconds_def)
qed

text \<open>
  Whether a dynamic address is added as static is decided by the value word the request does not
  set: the query reports the lowest bit of whatever the local entry \<open>g\<close> held.
\<close>

theorem mac_dynamic_flag:
  assumes "mac_engine hwstep tbl keep S brow Q" "core_inv tbl keep s" "mac_ok Q (maddr brow s)" "entry_wf g" "0x452 \<in> S"
    "ma_nPortId q < ucast (nTotalPortNumber (dev s))" "ma_bStaticEntry q = 0"
    "mac_id (ma_nMAC q) (ma_nFId q) \<in> Q" "mq_nMAC r = ma_nMAC q" "mq_nFId r = ma_nFId q"
  shows "\<exists>s' r' s''. IFX_FLOW_MAC_TableEntryAdd hwstep g q s = Some (IFX_SUCCESS, s') \<and>
    IFX_FLOW_MAC_TableEntryQuery hwstep r s' = Some (IFX_SUCCESS, r', s'') \<and>
    (mq_bFound r' = 1 \<and> mq_bStaticEntry r' = ucast (e_val g ! 1 AND 1) \<or>
     mq_bFound r' = 0 \<and> mac_map (maddr brow s) (mac_id (ma_nMAC q) (ma_nFId q)) = None)"
proof (rule mac_add_lookup [OF assms(1,2,3,4,5) disjI1 [OF assms(6)] assms(8,9,10)], goal_cases)
  case (1 s' s'' v)
  show ?case
    by (rule exI [of _ s'], rule exI [of _ "found_in (rd VR9_PCE_AGE_1_MANT s) v r"], rule exI [of _ s''])
      (use 1(1,2,5) low_bit_cases [of "e_val g ! 1"] in \<open>auto simp: found_in_def dynamic_vals [OF assms(4,7)] attr_of_def\<close>)
qed

theorem mac_dynamic_flag_witness:
  "\<exists>s' r' s''. IFX_FLOW_MAC_TableEntryAdd learning_step (zero_entry\<lparr>e_val := replicate 7 1\<rparr>) dynamic_mac (core_on (learning_on [])) = Some (IFX_SUCCESS, s') \<and>
    IFX_FLOW_MAC_TableEntryQuery learning_step (mac_question known_mac 5) s' = Some (IFX_SUCCESS, r', s'') \<and>
    (mq_bFound r' = 1 \<and> mq_bStaticEntry r' = 1 \<or> mq_bFound r' = 0)"
  using mac_dynamic_flag [OF learning_mac.mac_engine_axioms learning_start(1,2), of "zero_entry\<lparr>e_val := replicate 7 1\<rparr>" dynamic_mac "[]" "mac_question known_mac 5"]
    known_quiet entry_wf_zero by (auto simp: dynamic_mac_def static_mac_def mac_question_def entry_wf_def)

section \<open>Ports\<close>

text \<open>
  C20. Spanning tree and 802.1X decide the state of a port together, whichever is set first: setting
  both, in either order, leaves the registers and the record of the port as the two states say, and
  those of the other ports unchanged (the enable bit excepted, see the next claim).
\<close>

theorem port_state_order:
  assumes "dev_ok (dev s)" "ports_ok (dev s)" "p < nTotalPortNumber (dev s)"
    "sp_nPortId q = p" "xp_nPortId r = ucast p" "sp_ePortState q \<le> 3" "xp_eState r \<le> 3"
  shows "(\<exists>s1 s2. IFX_FLOW_STP_PortCfgSet q s = (IFX_SUCCESS, s1) \<and> IFX_FLOW_8021X_PortCfgSet r s1 = (IFX_SUCCESS, s2) \<and>
      port_shows p (sp_ePortState q) (xp_eState r) s2 \<and> other_ports p s s2) \<and>
    (\<exists>s1 s2. IFX_FLOW_8021X_PortCfgSet r s = (IFX_SUCCESS, s1) \<and> IFX_FLOW_STP_PortCfgSet q s1 = (IFX_SUCCESS, s2) \<and>
      port_shows p (sp_ePortState q) (xp_eState r) s2 \<and> other_ports p s s2)"
proof -
  have p: "sp_nPortId q < nTotalPortNumber (dev s)" using assms(3,4) by simp
  obtain s1 where s1: "IFX_FLOW_STP_PortCfgSet q s = (IFX_SUCCESS, s1)"
    "port_shows p (sp_ePortState q) (ifx_8021x_state (port_cfg p s)) s1" "other_ports p s s1"
    "dev_ok (dev s1)" "ports_ok (dev s1)" "nTotalPortNumber (dev s1) = nTotalPortNumber (dev s)"
    by (rule stp_set [OF assms(1,2) p assms(6)]) (use assms(4) in auto)
  have p1: "p < nTotalPortNumber (dev s1)" using assms(3) s1(6) by simp
  obtain s2 where s2: "IFX_FLOW_8021X_PortCfgSet r s1 = (IFX_SUCCESS, s2)"
    "port_shows p (ifx_stp_state (port_cfg p s1)) (xp_eState r) s2" "other_ports p s1 s2"
    by (rule x_set [OF s1(4,5) p1 assms(5,7)])
  have stp: "\<exists>s1 s2. IFX_FLOW_STP_PortCfgSet q s = (IFX_SUCCESS, s1) \<and> IFX_FLOW_8021X_PortCfgSet r s1 = (IFX_SUCCESS, s2) \<and>
    port_shows p (sp_ePortState q) (xp_eState r) s2 \<and> other_ports p s s2"
    using s1(1-3) s2 other_ports_trans by (fastforce simp: port_shows_def)
  obtain t1 where t1: "IFX_FLOW_8021X_PortCfgSet r s = (IFX_SUCCESS, t1)"
    "port_shows p (ifx_stp_state (port_cfg p s)) (xp_eState r) t1" "other_ports p s t1"
    "dev_ok (dev t1)" "ports_ok (dev t1)" "nTotalPortNumber (dev t1) = nTotalPortNumber (dev s)"
    by (rule x_set [OF assms(1-3,5,7)])
  have q1: "sp_nPortId q < nTotalPortNumber (dev t1)" using p t1(6) by simp
  obtain t2 where t2: "IFX_FLOW_STP_PortCfgSet q t1 = (IFX_SUCCESS, t2)"
    "port_shows p (sp_ePortState q) (ifx_8021x_state (port_cfg p t1)) t2" "other_ports p t1 t2"
    by (rule stp_set [OF t1(4,5) q1 assms(6)]) (use assms(4) in auto)
  have "\<exists>s1 s2. IFX_FLOW_8021X_PortCfgSet r s = (IFX_SUCCESS, s1) \<and> IFX_FLOW_STP_PortCfgSet q s1 = (IFX_SUCCESS, s2) \<and>
    port_shows p (sp_ePortState q) (xp_eState r) s2 \<and> other_ports p s s2"
    using t1(1-3) t2 other_ports_trans by (fastforce simp: port_shows_def)
  with stp show ?thesis by blast
qed

theorem port_state_order_witness:
  "\<exists>s s1 s2. core_inv ref_tbl (\<lambda>_ m. m) s \<and> IFX_FLOW_STP_PortCfgSet \<lparr>sp_nPortId = 2, sp_nFId = 0, sp_ePortState = 0\<rparr> s = (IFX_SUCCESS, s1) \<and>
    IFX_FLOW_8021X_PortCfgSet \<lparr>xp_nPortId = 2, xp_eState = 2\<rparr> s1 = (IFX_SUCCESS, s2) \<and> port_shows 2 0 2 s2"
proof (rule started)
  let ?q = "\<lparr>sp_nPortId = 2, sp_nFId = 0, sp_ePortState = 0\<rparr>" and ?r = "\<lparr>xp_nPortId = 2, xp_eState = 2\<rparr>"
  fix s :: "ref_priv core" assume s: "core_inv ref_tbl (\<lambda>_ m. m) s" "ports_ok (dev s)" "nTotalPortNumber (dev s) = 12"
  from port_state_order [OF core_inv_simps(3) [OF s(1)] s(2), of 2 ?q ?r] s
  show ?thesis by auto
qed

text \<open>
  The enable bit a port state sets is in the register of another port: the block has six words
  per port and \<^verbatim>\<open>set_port_state\<close> steps by ten. Disabling port 3 by spanning tree disables port 5, and
  leaves port 3 enabled.
\<close>

theorem port_3_disables_port_5:
  assumes "dev_ok (dev s)" "ports_ok (dev s)" "3 < nTotalPortNumber (dev s)" "sp_nPortId q = 3"
    "sp_ePortState q = IFX_ETHSW_STP_PORT_STATE_DISABLE"
  shows "rd (preg VR9_SDMA_PCTRL_PEN 0x6 5) (snd (IFX_FLOW_STP_PortCfgSet q s)) = 0 \<and>
    rd (preg VR9_SDMA_PCTRL_PEN 0x6 3) (snd (IFX_FLOW_STP_PortCfgSet q s)) = rd (preg VR9_SDMA_PCTRL_PEN 0x6 3) s"
  using disable_port_3 [OF assms] by simp

theorem port_3_disables_port_5_witness:
  "\<exists>s. core_inv ref_tbl (\<lambda>_ m. m) s \<and>
    rd (preg VR9_SDMA_PCTRL_PEN 0x6 5) (snd (IFX_FLOW_STP_PortCfgSet \<lparr>sp_nPortId = 3, sp_nFId = 0, sp_ePortState = 1\<rparr> s)) = 0"
proof (rule started)
  let ?q = "\<lparr>sp_nPortId = 3, sp_nFId = 0, sp_ePortState = 1\<rparr>"
  fix s :: "ref_priv core" assume s: "core_inv ref_tbl (\<lambda>_ m. m) s" "ports_ok (dev s)" "nTotalPortNumber (dev s) = 12"
  from port_3_disables_port_5 [OF core_inv_simps(3) [OF s(1)] s(2), of ?q] s show ?thesis by auto
qed

text \<open>
  Setting the rule for BPDUs: with fewer than seven rules in use it succeeds, the rule read back
  is the one for the bridge group address with the forwarding asked for, and the invariant holds.
\<close>

theorem bpdu_rule_installed:
  assumes "pce_engine hwstep tbl keep S" "core_inv tbl keep s" "used_rules (st_pce (pce s)) < 7"
  shows "\<exists>s' h'. IFX_FLOW_STP_BPDU_RuleSet hwstep g q s = Some (IFX_SUCCESS, s') \<and> core_inv tbl keep s' \<and>
    ifx_pce_rule_read hwstep 61 (st_pce (pce s')) (hw_of s') = Some (Some (bpdu_rule (STP_8021x_Config (dev s'))), h') \<and>
    IFX_FLOW_STP_BPDU_RuleGet q s' = (IFX_SUCCESS, q)"
proof -
  let ?s = "upd_dev (\<lambda>d. d\<lparr>STP_8021x_Config := (STP_8021x_Config d)\<lparr>eSTPPortState := sb_eForwardPort q,
                nSTP_PortID := ucast (sb_nForwardPortId q)\<rparr>\<rparr>) s"
  have I: "core_inv tbl keep ?s"
    using assms(2) by (simp add: core_inv_def dev_ok_def vlan_wf_def vlan_mirror_def)
  have i: "nIndex (pattern (bpdu_rule c)) = 61" "\<not> bVid (pattern (bpdu_rule c))" for c
    by (simp_all add: bpdu_rule_def zero_pattern_def)
  have u: "used_rules (st_pce (pce ?s)) < 7" using assms(3) by simp
  show ?thesis
    by (rule rule_write_inv [OF assms(1) I _ port_rules_canonical(1,3) i(2) u, of "STP_8021x_Config (dev ?s)" g])
      (auto simp: i IFX_PCE_TBL_SIZE_def IFX_FLOW_STP_BPDU_RuleSet_def IFX_FLOW_STP_BPDU_RuleGet_def Let_def)
qed

theorem bpdu_rule_installed_witness:
  "\<exists>s s' h'. core_inv ref_tbl (\<lambda>_ m. m) s \<and>
    IFX_FLOW_STP_BPDU_RuleSet ref_step sample_garbage \<lparr>sb_eForwardPort = 2, sb_nForwardPortId = 6\<rparr> s = Some (IFX_SUCCESS, s') \<and>
    ifx_pce_rule_read ref_step 61 (st_pce (pce s')) (hw_of s') = Some (Some (bpdu_rule (STP_8021x_Config (dev s'))), h')"
proof (rule started)
  fix s :: "ref_priv core" assume s: "core_inv ref_tbl (\<lambda>_ m. m) s" "used_rules (st_pce (pce s)) = 0"
  then show ?thesis using bpdu_rule_installed [OF ref.pce_engine_axioms s(1)] by fastforce
qed

text \<open>The same for the rule for EAPOL frames, of 802.1X.\<close>

theorem eapol_rule_installed:
  assumes "pce_engine hwstep tbl keep S" "core_inv tbl keep s" "used_rules (st_pce (pce s)) < 7"
  shows "\<exists>s' h'. IFX_FLOW_8021X_EAPOL_RuleSet hwstep g q s = Some (IFX_SUCCESS, s') \<and> core_inv tbl keep s' \<and>
    ifx_pce_rule_read hwstep 60 (st_pce (pce s')) (hw_of s') =
      Some (Some (eapol_rule (STP_8021x_Config (dev s')) (xe_nForwardPortId q)), h') \<and>
    IFX_FLOW_8021X_EAPOL_RuleGet q s' = (IFX_SUCCESS, q)"
proof -
  let ?s = "upd_dev (\<lambda>d. d\<lparr>STP_8021x_Config := (STP_8021x_Config d)\<lparr>eForwardPort := xe_eForwardPort q,
                n8021X_ForwardPortId := xe_nForwardPortId q\<rparr>\<rparr>) s"
  have I: "core_inv tbl keep ?s"
    using assms(2) by (simp add: core_inv_def dev_ok_def vlan_wf_def vlan_mirror_def)
  have i: "nIndex (pattern (eapol_rule c p)) = 60" "\<not> bVid (pattern (eapol_rule c p))" for c p
    by (simp_all add: eapol_rule_def zero_pattern_def)
  have u: "used_rules (st_pce (pce ?s)) < 7" using assms(3) by simp
  show ?thesis
    by (rule rule_write_inv [OF assms(1) I _ port_rules_canonical(2,4) i(2) u, of "STP_8021x_Config (dev ?s)" "xe_nForwardPortId q" g])
      (auto simp: i IFX_PCE_TBL_SIZE_def IFX_FLOW_8021X_EAPOL_RuleSet_def IFX_FLOW_8021X_EAPOL_RuleGet_def Let_def)
qed

theorem eapol_rule_installed_witness:
  "\<exists>s s' h'. core_inv ref_tbl (\<lambda>_ m. m) s \<and>
    IFX_FLOW_8021X_EAPOL_RuleSet ref_step sample_garbage \<lparr>xe_eForwardPort = 2, xe_nForwardPortId = 6\<rparr> s = Some (IFX_SUCCESS, s') \<and>
    ifx_pce_rule_read ref_step 60 (st_pce (pce s')) (hw_of s') = Some (Some (eapol_rule (STP_8021x_Config (dev s')) 6), h')"
proof (rule started)
  fix s :: "ref_priv core" assume s: "core_inv ref_tbl (\<lambda>_ m. m) s" "used_rules (st_pce (pce s)) = 0"
  then show ?thesis
    using eapol_rule_installed [OF ref.pce_engine_axioms s(1), of sample_garbage "\<lparr>xe_eForwardPort = 2, xe_nForwardPortId = 6\<rparr>"]
    by fastforce
qed

section \<open>Quality of service\<close>

text \<open>
  C21. A rate from 1 to 19200000 kbit/s set to a meter is read back as a rate that is not below it and exceeds it by less than one
  part in the mantissa that the register of the meter holds: at least 512 for rates up to 18750 kbit/s, and 19200000 divided by the
  rate above, so that the error grows with the rate. The other settings come back as the registers keep them. Excluded are rate 0 and
  the rates above 19200000, whose read divides by zero.
\<close>

theorem meter_rate_kept:
  assumes "mt_nMeterId q \<le> 7" "mt_nRate q \<noteq> 0" "mt_nRate q \<le> 19200000" "mt_nMeterId o' = mt_nMeterId q"
  shows "\<exists>s' r. IFX_FLOW_QoS_MeterCfgSet q s = Some (IFX_SUCCESS, s') \<and> dev s' = dev s \<and>
    IFX_FLOW_QoS_MeterCfgGet o' s' = Some (IFX_SUCCESS, q\<lparr>mt_bEnable := mt_bEnable q AND 1,
      mt_nCbs := burst (mt_nCbs q) * 64, mt_nEbs := burst (mt_nEbs q) * 64, mt_nRate := r\<rparr>) \<and>
    rate_kept (unat (rd (mreg VR9_PCE_TCM_CIR_EXP_EXP (mt_nMeterId q)) s')) (unat (rd (mreg VR9_PCE_TCM_CIR_MANT_MANT (mt_nMeterId q)) s'))
      (unat (mt_nRate q)) (unat r)"
  by (rule meter_round_trip [OF assms])

theorem meter_rate_kept_witness:
  "\<exists>s' r. IFX_FLOW_QoS_MeterCfgSet \<lparr>mt_bEnable = 1, mt_nMeterId = 3, mt_nCbs = 100, mt_nEbs = 0, mt_nRate = 10000\<rparr>
      (core_on (power_on 2)) = Some (IFX_SUCCESS, s') \<and>
    IFX_FLOW_QoS_MeterCfgGet \<lparr>mt_bEnable = 0, mt_nMeterId = 3, mt_nCbs = 0, mt_nEbs = 0, mt_nRate = 0\<rparr> s' =
      Some (IFX_SUCCESS, \<lparr>mt_bEnable = 1, mt_nMeterId = 3, mt_nCbs = 128, mt_nEbs = 0, mt_nRate = r\<rparr>) \<and>
    10000 \<le> unat r \<and> unat r < 10020"
proof -
  have u: "r < 10020" if "rate_kept e m 10000 r" for e m r
  proof -
    have m: "512 \<le> m" "(r - 10000) * m < 10000" using that unfolding rate_kept_def by auto
    have "(r - 10000) * 512 \<le> (r - 10000) * m" using m(1) by simp
    with m(2) show ?thesis by linarith
  qed
  have l: "10000 \<le> r" if "rate_kept e m 10000 r" for e m r using that unfolding rate_kept_def by blast
  show ?thesis
  using meter_rate_kept [of "\<lparr>mt_bEnable = 1, mt_nMeterId = 3, mt_nCbs = 100, mt_nEbs = 0, mt_nRate = 10000\<rparr>"
      "\<lparr>mt_bEnable = 0, mt_nMeterId = 3, mt_nCbs = 0, mt_nEbs = 0, mt_nRate = 0\<rparr>" "core_on (power_on 2)"] u l
  by (fastforce simp: burst_def)
qed

text \<open>
  A rate above 19200000 kbit/s is accepted and stored with mantissa 0; reading the meter back then
  divides by zero.
\<close>

theorem rate_above_limit_traps:
  assumes "mt_nMeterId q \<le> 7" "mt_nRate q > 19200000" "mt_nMeterId o' = mt_nMeterId q"
  shows "\<exists>s'. IFX_FLOW_QoS_MeterCfgSet q s = Some (IFX_SUCCESS, s') \<and> IFX_FLOW_QoS_MeterCfgGet o' s' = None"
  by (rule meter_overflow [OF assms])

theorem rate_above_limit_traps_witness:
  "\<exists>s'. IFX_FLOW_QoS_MeterCfgSet \<lparr>mt_bEnable = 1, mt_nMeterId = 0, mt_nCbs = 0, mt_nEbs = 0, mt_nRate = 20000000\<rparr>
      (core_on (power_on 2)) = Some (IFX_SUCCESS, s') \<and>
    IFX_FLOW_QoS_MeterCfgGet \<lparr>mt_bEnable = 0, mt_nMeterId = 0, mt_nCbs = 0, mt_nEbs = 0, mt_nRate = 0\<rparr> s' = None"
  using rate_above_limit_traps [of "\<lparr>mt_bEnable = 1, mt_nMeterId = 0, mt_nCbs = 0, mt_nEbs = 0, mt_nRate = 20000000\<rparr>"
      "\<lparr>mt_bEnable = 0, mt_nMeterId = 0, mt_nCbs = 0, mt_nEbs = 0, mt_nRate = 0\<rparr>" "core_on (power_on 2)"]
  by simp

text \<open>
  C22. The traffic class tables as one abstract state of five settings: each of the five requests to set
  updates its setting, masked to the width of the table, and no other, though two pairs of them share
  their words; each request to read reports its setting and changes none.
\<close>

theorem class_settings_refined:
  assumes "class_device hwstep tbl keep S" "idle (hw_of s)" "length (e_key g) = 16"
  shows "(\<exists>s'. IFX_FLOW_QoS_DSCP_ClassSet hwstep g c s = Some (IFX_SUCCESS, s') \<and> class_settings_of (dtbl tbl s') =
      (class_settings_of (dtbl tbl s))\<lparr>class_of_dscp := map (\<lambda>i. dc_nTrafficClass c ! i AND 0xF) [0..<64]\<rparr>) \<and>
    (\<exists>s'. IFX_FLOW_QoS_DSCP_DropPrecedenceCfgSet hwstep g d s = Some (IFX_SUCCESS, s') \<and> class_settings_of (dtbl tbl s') =
      (class_settings_of (dtbl tbl s))\<lparr>drop_of_dscp := map (\<lambda>i. dd_nDSCP_DropPrecedence d ! i AND 3) [0..<64]\<rparr>) \<and>
    (\<exists>s'. IFX_FLOW_QoS_ClassDSCP_Set hwstep g e s = Some (IFX_SUCCESS, s') \<and> class_settings_of (dtbl tbl s') =
      (class_settings_of (dtbl tbl s))\<lparr>dscp_of_class := map (\<lambda>i. cd_nDSCP e ! i AND 0x3F) [0..<16]\<rparr>) \<and>
    (\<exists>s'. IFX_FLOW_QoS_ClassPCP_Set hwstep g p s = Some (IFX_SUCCESS, s') \<and> class_settings_of (dtbl tbl s') =
      (class_settings_of (dtbl tbl s))\<lparr>pcp_of_class := map (\<lambda>i. cp_nPCP p ! i AND 7) [0..<16]\<rparr>) \<and>
    (\<exists>s'. IFX_FLOW_QoS_PCP_ClassSet hwstep b s = Some (IFX_SUCCESS, s') \<and> class_settings_of (dtbl tbl s') =
      (class_settings_of (dtbl tbl s))\<lparr>class_of_pcp := map (\<lambda>i. pc_nTrafficClass b ! i AND 0xF) [0..<8]\<rparr>) \<and>
    (\<exists>s'. IFX_FLOW_QoS_DSCP_ClassGet hwstep g c s = Some (IFX_SUCCESS,
      c\<lparr>dc_nTrafficClass := class_of_dscp (class_settings_of (dtbl tbl s))\<rparr>, s') \<and> dtbl tbl s' = dtbl tbl s) \<and>
    (\<exists>s'. IFX_FLOW_QoS_DSCP_DropPrecedenceCfgGet hwstep g d s = Some (IFX_SUCCESS,
      d\<lparr>dd_nDSCP_DropPrecedence := drop_of_dscp (class_settings_of (dtbl tbl s))\<rparr>, s') \<and> dtbl tbl s' = dtbl tbl s) \<and>
    (\<exists>s'. IFX_FLOW_QoS_ClassDSCP_Get hwstep g e s = Some (IFX_SUCCESS,
      e\<lparr>cd_nDSCP := dscp_of_class (class_settings_of (dtbl tbl s))\<rparr>, s') \<and> dtbl tbl s' = dtbl tbl s) \<and>
    (\<exists>s'. IFX_FLOW_QoS_ClassPCP_Get hwstep g p s = Some (IFX_SUCCESS,
      p\<lparr>cp_nPCP := pcp_of_class (class_settings_of (dtbl tbl s))\<rparr>, s') \<and> dtbl tbl s' = dtbl tbl s) \<and>
    (\<exists>s'. IFX_FLOW_QoS_PCP_ClassGet hwstep g b s = Some (IFX_SUCCESS,
      b\<lparr>pc_nTrafficClass := class_of_pcp (class_settings_of (dtbl tbl s))\<rparr>, s') \<and> dtbl tbl s' = dtbl tbl s)"
  by (intro conjI;
      (rule DSCP_ClassSet_spec [OF assms, where q = c] DSCP_DropPrecedenceCfgSet_spec [OF assms, where q = d]
          ClassDSCP_Set_spec [OF assms, where q = e] ClassPCP_Set_spec [OF assms, where q = p]
          PCP_ClassSet_spec [OF assms(1,2), where q = b] DSCP_ClassGet_spec [OF assms(1,2), where q = c and g = g]
          DSCP_DropPrecedenceCfgGet_spec [OF assms(1,2), where q = d and g = g]
          ClassDSCP_Get_spec [OF assms(1,2), where q = e and g = g] ClassPCP_Get_spec [OF assms(1,2), where q = p and g = g]
          PCP_ClassGet_spec [OF assms(1,2), where q = b and g = g], fastforce))
theorem class_settings_refined_witness:
  "\<exists>s'. IFX_FLOW_QoS_DSCP_ClassSet ref_step zero_entry \<lparr>dc_nTrafficClass = replicate 64 0x13\<rparr> (core_on (power_on 2)) =
      Some (IFX_SUCCESS, s') \<and>
    class_of_dscp (class_settings_of (dtbl ref_tbl s')) = replicate 64 3 \<and>
    drop_of_dscp (class_settings_of (dtbl ref_tbl s')) = replicate 64 0"
proof -
  let ?c = "\<lparr>dc_nTrafficClass = replicate 64 0x13 :: u8 list\<rparr>"
  have i: "idle (hw_of (core_on (power_on 2)))" "length (e_key zero_entry) = 16"
    by (simp_all add: power_on_regs zero_entry_def)
  have l: "map (\<lambda>i. dc_nTrafficClass ?c ! i AND 0xF) [0..<64] = replicate 64 3"
    by (rule nth_equalityI) simp_all
  have z: "drop_of_dscp (class_settings_of (dtbl ref_tbl (core_on (power_on 2)))) = replicate 64 0"
    by (rule nth_equalityI) (simp_all add: class_settings_of_def column_def power_on_tbl zero_img_def get_drop_def)
  from class_settings_refined [OF refc.class_device_axioms i, of ?c] show ?thesis
    unfolding l using z by fastforce
qed

text \<open>
  C23. The two tables of meters, as two lists of assignments: assigning a meter to a pair of ports puts the assignment that the request
  asks for, by its direction, into the first free row, of the first table or, if a row there has the numbers of the pair
  already or none is free, of the second; a pair whose numbers are in both is an error. When the tables have no room the request succeeds without
  effect. Direction none, which the documentation has remove the assignments, adds one for any pair of ports like the
  other directions. Taking back clears the rows with the numbers of the pair and the meter (five of the six bits of the meter
  are compared). No other row and no other table changes.
\<close>

theorem meter_ports_refined:
  assumes "meter_device hwstep tbl keep S" "idle (hw_of s)"
  shows "(\<exists>s'. IFX_FLOW_QoS_MeterPortAssign hwstep q s = Some (fst (assigned q (meters (dtbl tbl s) 18, meters (dtbl tbl s) 19)), s') \<and>
      (meters (dtbl tbl s') 18, meters (dtbl tbl s') 19) = snd (assigned q (meters (dtbl tbl s) 18, meters (dtbl tbl s) 19)) \<and>
      (\<forall>t i. t \<noteq> 18 \<and> t \<noteq> 19 \<or> 8 \<le> i \<longrightarrow> dtbl tbl s' t i = dtbl tbl s t i) \<and> idle (hw_of s') \<and> dev s' = dev s) \<and>
    (\<exists>s'. IFX_FLOW_QoS_MeterPortDeassign hwstep q s = Some (IFX_SUCCESS, s') \<and>
      meters (dtbl tbl s') 18 = taken_back q (meters (dtbl tbl s) 18) \<and> meters (dtbl tbl s') 19 = taken_back q (meters (dtbl tbl s) 19) \<and>
      (\<forall>t i. t \<noteq> 18 \<and> t \<noteq> 19 \<or> 8 \<le> i \<longrightarrow> dtbl tbl s' t i = dtbl tbl s t i) \<and> idle (hw_of s') \<and> dev s' = dev s)"
proof -
  show ?thesis
    by (rule meter_device.assign_meters [OF assms, of q], rule meter_device.deassign_meters [OF assms, of q],
        intro conjI exI; (assumption | simp))
qed

theorem meter_ports_refined_witness:
  "\<exists>s'. IFX_FLOW_QoS_MeterPortAssign ref_step sample_meter (core_on (power_on 2)) = Some (IFX_SUCCESS, s') \<and>
    meters (dtbl ref_tbl s') 18 ! 0 = Some (metering_asked sample_meter) \<and> meters (dtbl ref_tbl s') 19 = replicate 8 None"
proof -
  have i: "idle (hw_of (core_on (power_on 2)))" by (simp add: power_on_regs)
  have m: "meters (dtbl ref_tbl (core_on (power_on 2))) t = replicate 8 None" for t
    by (rule nth_equalityI) (simp_all add: meters_def metering_of_def power_on_tbl zero_img_def)
  have a: "assigned sample_meter (replicate 8 None, replicate 8 None) =
    (IFX_SUCCESS, (replicate 8 None)[0 := Some (metering_asked sample_meter)], replicate 8 None)"
    by (simp add: assigned_def with_ports_def put_first_def upt_conv_Cons)
  from meter_ports_refined [OF refm.meter_device_axioms i, of sample_meter] show ?thesis
    unfolding m a by auto
qed

text \<open>A meter assigned to a pair of ports in both directions can be taken back: the tables are as before.\<close>

theorem meter_assign_deassign:
  assumes "meter_device hwstep tbl keep S" "idle (hw_of s)" "mp_eDir q = IFX_ETHSW_DIRECTION_BOTH"
    "mp_nPortEgressId q AND 0xF = mp_nPortEgressId q" "mp_nPortIngressId q AND 0xF = mp_nPortIngressId q"
    "mp_nMeterId q AND 0x1F = mp_nMeterId q" "\<not> in_table q (dtbl tbl s) 18" "\<not> in_table q (dtbl tbl s) 19"
    "free_row (dtbl tbl s) 18 = Some i"
  shows "\<exists>s1 s2. IFX_FLOW_QoS_MeterPortAssign hwstep q s = Some (IFX_SUCCESS, s1) \<and> img_matches q (dtbl tbl s1 18 i) \<and>
    IFX_FLOW_QoS_MeterPortDeassign hwstep q s1 = Some (IFX_SUCCESS, s2) \<and> i_valid (dtbl tbl s2 18 i) = 0 \<and>
    (\<forall>t j. (t, j) \<noteq> (18, i) \<longrightarrow> dtbl tbl s2 t j = dtbl tbl s t j)"
  using both_directions_round_trip [OF assms] by auto

theorem meter_assign_deassign_witness:
  "\<exists>s1 s2. IFX_FLOW_QoS_MeterPortAssign ref_step sample_meter (core_on (power_on 2)) = Some (IFX_SUCCESS, s1) \<and>
    i_valid (dtbl ref_tbl s1 18 0) = 1 \<and>
    IFX_FLOW_QoS_MeterPortDeassign ref_step sample_meter s1 = Some (IFX_SUCCESS, s2) \<and> i_valid (dtbl ref_tbl s2 18 0) = 0"
proof -
  have i: "idle (hw_of (core_on (power_on 2)))" by (simp add: power_on_regs)
  from meter_assign_deassign [OF refm.meter_device_axioms i, of sample_meter 0] show ?thesis
    using no_meter by (auto simp: sample_meter_def img_matches_def)
qed

text \<open>
  A meter assigned for the ingress direction cannot be taken back by the same request: its row names
  the egress port 15, and the search looks for the egress port of the request.
\<close>

theorem ingress_meter_stays:
  assumes "meter_device hwstep tbl keep S" "idle (hw_of s)" "mp_eDir q = IFX_ETHSW_DIRECTION_INGRESS"
    "mp_nPortEgressId q \<noteq> 0xF" "\<not> in_table q (dtbl tbl s) 18" "free_row (dtbl tbl s) 18 = Some i"
  shows "\<exists>s1 s2. IFX_FLOW_QoS_MeterPortAssign hwstep q s = Some (IFX_SUCCESS, s1) \<and>
    IFX_FLOW_QoS_MeterPortDeassign hwstep q s1 = Some (IFX_SUCCESS, s2) \<and>
    i_valid (dtbl tbl s2 18 i) = 1 \<and> dtbl tbl s2 18 i = dtbl tbl s1 18 i"
  by (rule ingress_not_taken_back [OF assms])

theorem ingress_meter_stays_witness:
  "\<exists>s1 s2. IFX_FLOW_QoS_MeterPortAssign ref_step (sample_meter\<lparr>mp_eDir := 1\<rparr>) (core_on (power_on 2)) = Some (IFX_SUCCESS, s1) \<and>
    IFX_FLOW_QoS_MeterPortDeassign ref_step (sample_meter\<lparr>mp_eDir := 1\<rparr>) s1 = Some (IFX_SUCCESS, s2) \<and>
    i_valid (dtbl ref_tbl s2 18 0) = 1"
proof -
  have i: "idle (hw_of (core_on (power_on 2)))" by (simp add: power_on_regs)
  have q: "mp_eDir (sample_meter\<lparr>mp_eDir := 1\<rparr>) = 1" "mp_nPortEgressId (sample_meter\<lparr>mp_eDir := 1\<rparr>) \<noteq> 0xF"
    by (simp_all add: sample_meter_def)
  from ingress_meter_stays [OF refm.meter_device_axioms i q no_meter] show ?thesis by auto
qed

text \<open>
  C24. A shaper assigned to a queue without shapers is switched on and reported by the query, and taking it
  back leaves the queue without shapers.
\<close>

theorem shaper_assign_query_deassign:
  assumes "unat (sq_nQueueId q) < 32" "ucast (sq_nQueueId q) < rd VR9_ETHSW_CAP_1_QUEUE s"
    "sq_nRateShaperId q < 16" "ucast (sq_nRateShaperId q) < rd VR9_ETHSW_CAP_3_SHAPERS s"
    "shaper_slots (sq_nQueueId q) s = (None, None)" "sg_nQueueId g = sq_nQueueId q"
  shows "\<exists>s1 s2. IFX_FLOW_QoS_ShaperQueueAssign q s = (IFX_SUCCESS, s1) \<and>
    rd (shaper_reg VR9_RS_CTRL_RSEN (sq_nRateShaperId q)) s1 = 1 \<and>
    IFX_FLOW_QoS_ShaperQueueGet g s1 = (IFX_SUCCESS, g\<lparr>sg_bAssigned := IFX_TRUE, sg_nRateShaperId := sq_nRateShaperId q\<rparr>) \<and>
    IFX_FLOW_QoS_ShaperQueueDeassign q s1 = (IFX_SUCCESS, s2) \<and> shaper_slots (sq_nQueueId q) s2 = (None, None)"
  by (rule assign_query_deassign [OF assms])

theorem shaper_assign_query_deassign_witness:
  "\<exists>s1 s2. IFX_FLOW_QoS_ShaperQueueAssign \<lparr>sq_nRateShaperId = 3, sq_nQueueId = 9\<rparr> (core_on (power_on 2)) = (IFX_SUCCESS, s1) \<and>
    IFX_FLOW_QoS_ShaperQueueGet \<lparr>sg_nQueueId = 9, sg_bAssigned = 0, sg_nRateShaperId = 0\<rparr> s1 =
      (IFX_SUCCESS, \<lparr>sg_nQueueId = 9, sg_bAssigned = 1, sg_nRateShaperId = 3\<rparr>) \<and>
    IFX_FLOW_QoS_ShaperQueueDeassign \<lparr>sq_nRateShaperId = 3, sq_nQueueId = 9\<rparr> s1 = (IFX_SUCCESS, s2) \<and>
    shaper_slots 9 s2 = (None, None)"
  using shaper_assign_query_deassign [of "\<lparr>sq_nRateShaperId = 3, sq_nQueueId = 9\<rparr>" "core_on (power_on 2)"
      "\<lparr>sg_nQueueId = 9, sg_bAssigned = 0, sg_nRateShaperId = 0\<rparr>"]
    no_shapers [of 9 2]
  by (auto simp: power_on_caps)

text \<open>
  The test whether a queue has a shaper already looks at the registers of the queue whose number is
  the shaper's. When a queue has a shaper, and queue \<open>r\<close> has shaper \<open>r\<close> as its first, assigning shaper
  \<open>r\<close> to the former answers success and does nothing.
\<close>

theorem shaper_assign_lost:
  assumes "ucast (sq_nQueueId q) < rd VR9_ETHSW_CAP_1_QUEUE s" "ucast (sq_nRateShaperId q) < rd VR9_ETHSW_CAP_3_SHAPERS s"
    "fst (shaper_slots (sq_nQueueId q) s) \<noteq> None"
    "rd (queue_reg VR9_PQM_RS_RS1 (sq_nRateShaperId q)) s = ucast (sq_nRateShaperId q)"
  shows "IFX_FLOW_QoS_ShaperQueueAssign q s = (IFX_SUCCESS, s)"
  by (rule assign_lost [OF assms])
theorem shaper_assign_lost_witness:
  "shaper_slots 9 busy_queues = (Some 1, None) \<and>
    IFX_FLOW_QoS_ShaperQueueAssign \<lparr>sq_nRateShaperId = 3, sq_nQueueId = 9\<rparr> busy_queues = (IFX_SUCCESS, busy_queues)"
proof -
  have s: "shaper_slots 9 busy_queues = (Some 1, None)"
    by (simp add: shaper_slots_def busy_queues_def field_simps_hw power_on_zero qos_masks)
  have c: "rd VR9_ETHSW_CAP_1_QUEUE busy_queues = 32" "rd VR9_ETHSW_CAP_3_SHAPERS busy_queues = 16"
    "rd (queue_reg VR9_PQM_RS_RS1 3) busy_queues = 3"
    using power_on_caps(1,2) [of 2] by (simp_all add: busy_queues_def field_simps_hw qos_masks)
  show ?thesis using shaper_assign_lost [of "\<lparr>sq_nRateShaperId = 3, sq_nQueueId = 9\<rparr>" busy_queues] s c by simp
qed

text \<open>
  C25. The discard thresholds set for a queue are read back, as far as the memory keeps them, and those of
  the other queues are unchanged.
\<close>

theorem wred_thresholds_kept:
  assumes "bm_engine hwstep ram kept S" "0x007 \<in> S"
    "unat (wq_nQueueId q) < 32" "wq_nQueueId q < rd VR9_ETHSW_CAP_1_QUEUE s" "wq_nQueueId q' = wq_nQueueId q"
  shows "\<exists>s1 s2. IFX_FLOW_QoS_WredQueueCfgSet hwstep q s = Some (IFX_SUCCESS, s1) \<and>
    IFX_FLOW_QoS_WredQueueCfgGet hwstep q' s1 = Some (IFX_SUCCESS, \<lparr>wq_nQueueId = wq_nQueueId q,
      wq_nRed_Min = stored_min kept (wq_nRed_Min q) (wq_nRed_Max q),
      wq_nRed_Max = stored_max kept (wq_nRed_Min q) (wq_nRed_Max q),
      wq_nYellow_Min = stored_min kept (wq_nYellow_Min q) (wq_nYellow_Max q),
      wq_nYellow_Max = stored_max kept (wq_nYellow_Min q) (wq_nYellow_Max q),
      wq_nGreen_Min = stored_min kept (wq_nGreen_Min q) (wq_nGreen_Max q),
      wq_nGreen_Max = stored_max kept (wq_nGreen_Min q) (wq_nGreen_Max q)\<rparr>, s2) \<and>
    (\<forall>n c. n \<noteq> wq_nQueueId q \<and> c < 4 \<longrightarrow>
       ram (priv (hw_of s1)) 9 (wred_row n c) = ram (priv (hw_of s)) 9 (wred_row n c))"
proof -
  have "c \<in> {0, 1, 2, 3}" if "c < 4" for c :: u32
    using that by (auto simp: word_less_nat_alt word_unat_eq_iff)
  then show ?thesis using wred_queue_round_trip [OF assms] by meson
qed

theorem wred_thresholds_kept_witness:
  "\<exists>s1 s2. IFX_FLOW_QoS_WredQueueCfgSet dual_step \<lparr>wq_nQueueId = 4, wq_nRed_Min = 10, wq_nRed_Max = 20,
      wq_nYellow_Min = 30, wq_nYellow_Max = 40, wq_nGreen_Min = 50, wq_nGreen_Max = 60\<rparr> (core_on dual_on) = Some (IFX_SUCCESS, s1) \<and>
    IFX_FLOW_QoS_WredQueueCfgGet dual_step \<lparr>wq_nQueueId = 4, wq_nRed_Min = 0, wq_nRed_Max = 0,
      wq_nYellow_Min = 0, wq_nYellow_Max = 0, wq_nGreen_Min = 0, wq_nGreen_Max = 0\<rparr> s1 = Some (IFX_SUCCESS,
      \<lparr>wq_nQueueId = 4, wq_nRed_Min = 10, wq_nRed_Max = 20, wq_nYellow_Min = 30, wq_nYellow_Max = 40,
       wq_nGreen_Min = 50, wq_nGreen_Max = 60\<rparr>, s2)"
  using wred_thresholds_kept [OF dual_bm.bm_engine_axioms, of "\<lparr>wq_nQueueId = 4, wq_nRed_Min = 10, wq_nRed_Max = 20,
      wq_nYellow_Min = 30, wq_nYellow_Max = 40, wq_nGreen_Min = 50, wq_nGreen_Max = 60\<rparr>" "core_on dual_on"
      "\<lparr>wq_nQueueId = 4, wq_nRed_Min = 0, wq_nRed_Max = 0, wq_nYellow_Min = 0, wq_nYellow_Max = 0, wq_nGreen_Min = 0, wq_nGreen_Max = 0\<rparr>"]
  by (auto simp: power_on_caps in_window_def stored_min_def stored_max_def)

text \<open>
  C26. The queue set for a port and class is read back, the queue is bound to the port in the memory of the buffer manager, and the
  other rows of the tables are unchanged. Of the port only the three low bits count, for the row of the class as for the memory: the
  request refuses no port, and a port from 8 on stands for the one of the ports 0 to 7 with the same bits, where the documentation has an
  error for a port that is not available.
\<close>

theorem queue_port_mapped:
  assumes "queue_device hwstep tbl keep S ram kept B" "idle (hw_of s)" "qq_nQueueId q < 32"
    "qq_nPortId q' = qq_nPortId q" "qq_nTrafficClassId q' = qq_nTrafficClassId q"
  shows "\<exists>s1 s2 v. IFX_FLOW_QoS_QueuePortSet hwstep q s = Some (IFX_SUCCESS, s1) \<and>
    IFX_FLOW_QoS_QueuePortGet hwstep q' s1 = Some (IFX_SUCCESS, q, s2) \<and>
    ram (priv (hw_of s1)) 14 (unat (qq_nQueueId q)) = kept 14 (of_nat (unat (qq_nPortId q) mod 8), v) \<and>
    (\<forall>t i. (t, i) \<noteq> (17, unat (queue_map_index q)) \<longrightarrow> dtbl tbl s1 t i = dtbl tbl s t i)"
proof -
  have "(ucast (qq_nPortId q) AND 0x7 :: u16) = of_nat (unat (qq_nPortId q) mod 8)"
    by (rule word_unat_eq_iff [THEN iffD2]) (use unat_mask [of "ucast (qq_nPortId q) :: u16" 3] in
      \<open>simp add: mask_eq_exp_minus_1 unat_ucast_up unat_of_nat_small\<close>)
  with queue_port_round_trip [OF assms] show ?thesis by simp
qed

theorem queue_port_mapped_witness:
  "\<exists>s1 s2. IFX_FLOW_QoS_QueuePortSet dual_step \<lparr>qq_nPortId = 2, qq_nTrafficClassId = 7, qq_nQueueId = 20\<rparr> (core_on dual_on) = Some (IFX_SUCCESS, s1) \<and>
    IFX_FLOW_QoS_QueuePortGet dual_step \<lparr>qq_nPortId = 2, qq_nTrafficClassId = 7, qq_nQueueId = 0\<rparr> s1 =
      Some (IFX_SUCCESS, \<lparr>qq_nPortId = 2, qq_nTrafficClassId = 7, qq_nQueueId = 20\<rparr>, s2) \<and>
    fst (d_ram (priv (hw_of s1)) 14 20) = 2"
proof -
  have i: "idle (hw_of (core_on dual_on))" by (simp add: power_on_caps)
  from queue_port_mapped [OF dualq.queue_device_axioms i, of "\<lparr>qq_nPortId = 2, qq_nTrafficClassId = 7, qq_nQueueId = 20\<rparr>"
      "\<lparr>qq_nPortId = 2, qq_nTrafficClassId = 7, qq_nQueueId = 0\<rparr>"]
  show ?thesis by fastforce
qed

text \<open>
  Setting the discard thresholds of a queue erases the buffers reserved for it: they are kept in the
  row of the queue with colour 0, to which the loop over the colours writes 0.
\<close>

theorem thresholds_erase_reserved:
  assumes "bm_engine hwstep ram kept S" "0x007 \<in> S" "unat (br_nQueueId r) < 32"
    "ucast (br_nQueueId r) < rd VR9_ETHSW_CAP_1_QUEUE s" "GSWIP_Ver (dev s) = LTQ_GSWIP_2_2"
    "wq_nQueueId w = ucast (br_nQueueId r)"
  shows "\<exists>s1 s2 s3 v. IFX_FLOW_QoS_QueueBufferReserveCfgSet hwstep r s = Some (IFX_SUCCESS, s1) \<and>
    (\<exists>s1'. IFX_FLOW_QoS_QueueBufferReserveCfgGet hwstep r s1 = Some (IFX_SUCCESS,
       r\<lparr>br_nBufferReserved := ucast (fst (kept 9 (ucast (br_nBufferReserved r), v)))\<rparr>, s1')) \<and>
    IFX_FLOW_QoS_WredQueueCfgSet hwstep w s1 = Some (IFX_SUCCESS, s2) \<and>
    IFX_FLOW_QoS_QueueBufferReserveCfgGet hwstep r s2 = Some (IFX_SUCCESS,
       r\<lparr>br_nBufferReserved := ucast (fst (kept 9 (0, 0)))\<rparr>, s3)"
  by (rule thresholds_erase_reservation [OF assms])

theorem thresholds_erase_reserved_witness:
  "\<exists>s1 s2 s3 s4. IFX_FLOW_QoS_QueueBufferReserveCfgSet dual_step \<lparr>br_nQueueId = 4, br_nBufferReserved = 50\<rparr> (core_2_2 dual_on) =
      Some (IFX_SUCCESS, s1) \<and>
    IFX_FLOW_QoS_QueueBufferReserveCfgGet dual_step \<lparr>br_nQueueId = 4, br_nBufferReserved = 50\<rparr> s1 =
      Some (IFX_SUCCESS, \<lparr>br_nQueueId = 4, br_nBufferReserved = 50\<rparr>, s2) \<and>
    IFX_FLOW_QoS_WredQueueCfgSet dual_step \<lparr>wq_nQueueId = 4, wq_nRed_Min = 10, wq_nRed_Max = 20,
      wq_nYellow_Min = 30, wq_nYellow_Max = 40, wq_nGreen_Min = 50, wq_nGreen_Max = 60\<rparr> s1 = Some (IFX_SUCCESS, s3) \<and>
    IFX_FLOW_QoS_QueueBufferReserveCfgGet dual_step \<lparr>br_nQueueId = 4, br_nBufferReserved = 50\<rparr> s3 =
      Some (IFX_SUCCESS, \<lparr>br_nQueueId = 4, br_nBufferReserved = 0\<rparr>, s4)"
  using thresholds_erase_reserved [OF dual_bm.bm_engine_axioms, of "\<lparr>br_nQueueId = 4, br_nBufferReserved = 50\<rparr>" "core_2_2 dual_on"
      "\<lparr>wq_nQueueId = 4, wq_nRed_Min = 10, wq_nRed_Max = 20, wq_nYellow_Min = 30, wq_nYellow_Max = 40, wq_nGreen_Min = 50, wq_nGreen_Max = 60\<rparr>"]
  by (fastforce simp: power_on_caps in_window_def)

section \<open>The switch as a whole\<close>

text \<open>
  C27. Reset and initialisation restart the switch: from any state the driver can be in, whatever rules and
  VLANs it has, both requests succeed and leave no rule and no VLAN, the ports as at first, the microcode in
  the device, and the invariant of all handlers.
\<close>

theorem restart_restores:
  assumes "reset_engine hwstep tbl keep S" "core_inv tbl keep s" "n = unat (rd VR9_ETHSW_CAP_1_PPORTS s)"
    "m = unat (rd VR9_ETHSW_CAP_1_VPORTS s)" "n + m \<le> MAX_PORT_NUMBER" "mc_regs n \<subseteq> S"
  shows "\<exists>s1 s2. IFX_FLOW_Reset hwstep s = Some (IFX_SUCCESS, s1) \<and>
    IFX_FLOW_HW_Init hwstep fe gfmdio chipid s1 = Some (IFX_SUCCESS, s2) \<and> core_inv tbl keep s2 \<and>
    vlan_map (dev s2) = Map.empty \<and> used_rules (st_pce (pce s2)) = 0 \<and> bHW_InitCalled (dev s2) = 1 \<and>
    unat (nPortNumber (dev s2)) = n \<and> unat (nTotalPortNumber (dev s2)) = n + m \<and>
    (\<forall>j<n. PortConfig (dev s2) ! j = init_port) \<and>
    (\<forall>k<64. dtbl tbl s2 0 k = keep 0 (img_of (mc_entry k (pce_mc_max_ifx_tag_m ! k))))"
  by (rule restart_spec [OF assms, of fe gfmdio chipid]) blast

theorem restart_restores_witness:
  "\<exists>s1 s2. IFX_FLOW_Reset resetting_step (core_on (learning_on [heard])) = Some (IFX_SUCCESS, s1) \<and>
    IFX_FLOW_HW_Init resetting_step False 0 0 s1 = Some (IFX_SUCCESS, s2) \<and> core_inv learning_tbl (\<lambda>_ m. m) s2 \<and>
    unat (nTotalPortNumber (dev s2)) = 12"
  using restart_restores [OF resetting.reset_engine_axioms learning_start(1) learning_ports _ subset_UNIV, of "[heard]" False 0 0]
  by auto

text \<open>
  C29. The global configuration is read back as it was set, up to what the registers keep: an unknown ageing time
  becomes 300 seconds, the frame length has 14 bits, the spoofing action exists from version 2.2 on,
  and the source of pause frames is kept only by a request that switches it on.
\<close>

theorem cfg_round_trip:
  assumes "length (cg_nPauseMAC_Src q) = 6"
  shows "IFX_FLOW_CfgGet r (snd (IFX_FLOW_CfgSet q s)) = (IFX_SUCCESS, cfg_back r q s)"
  by (rule cfg_read_back [OF assms])

theorem cfg_round_trip_witness:
  "IFX_FLOW_CfgGet sample_cfg (snd (IFX_FLOW_CfgSet sample_cfg (core_2_2 (power_on 2)))) = (IFX_SUCCESS, sample_cfg)"
  using cfg_round_trip [of sample_cfg sample_cfg "core_2_2 (power_on 2)"]
  by (simp add: cfg_back_def sample_cfg_def known_mac_def)

text \<open>
  C30. Direct forwarding of a port sets or clears the bit of the port in the eight-bit mask of such ports, in which the ports from 8 on
  have no bit. The rule \<open>30 + i\<close> of a physical port \<open>i\<close> outside the mask is then out of use. For a port in the mask, a
  request that switches forwarding on leaves the rule that sends every packet of port \<open>i\<close> to the management port;
  one that switches forwarding off for some port leaves the rules of all ports in the mask in use but with no port map action, so these
  ports are no longer forwarded either. No other rule changes.
\<close>

theorem port_redirect:
  assumes "pce_engine hwstep tbl keep S" "core_inv tbl keep s" "rr_nPortId q < nTotalPortNumber (dev s)"
  shows "\<exists>flag' s'. IFX_FLOW_PortRedirectSet hwstep g flag q s = Some (IFX_SUCCESS, flag', s') \<and> core_inv tbl keep s' \<and> dev s' = dev s \<and>
    (\<forall>i<8. bit flag' i = (if i = unat (rr_nPortId q) then rr_bRedirectIngress q = 1 else bit flag i)) \<and>
    (\<forall>i<unat (nPortNumber (dev s)).
       if \<not> bit flag' i then pce_tbl_used (st_pce (pce s')) ! (30 + i) = 0
       else if rr_bRedirectIngress q = 1 then directed tbl (unat (nManagementPortNumber (dev s)) mod 32) i s'
       else pce_tbl_used (st_pce (pce s')) ! (30 + i) \<noteq> 0 \<and>
         (\<exists>r. core_of tbl s' (of_nat (30 + i)) = Some r \<and> ePortMapAction (action r) = PORTMAP_DISABLE)) \<and>
    rules_same {30..<30 + unat (nPortNumber (dev s))} (st_pce (pce s)) (st_pce (pce s')) \<and>
    cores_same tbl {30..<30 + unat (nPortNumber (dev s))} s s'"
proof (rule redirect_spec [OF assms, of g flag])
  let ?m = "unat (nManagementPortNumber (dev s)) mod 32" and ?in = "rr_bRedirectIngress q"
  fix flag' s1 s'
  assume r: "IFX_FLOW_PortRedirectSet hwstep g flag q s = Some (IFX_SUCCESS, flag', s')" "core_inv tbl keep s'"
    "flag' = (if ?in = IFX_TRUE then flag OR push_bit (unat (rr_nPortId q)) 1 else flag AND NOT (push_bit (unat (rr_nPortId q)) 1))"
    "s1 = wr (preg VR9_PCE_PCTRL_3_EDIR 0xA (rr_nPortId q)) (rr_bRedirectEgress q) (wr VR9_PCE_PMAP_1_MPMAP (push_bit ?m 1) s)"
    "\<And>i. i < unat (nPortNumber (dev s)) \<Longrightarrow> redirects tbl flag' ?in (push_bit ?m 1) i s'"
    "only_rules tbl S {30..<30 + unat (nPortNumber (dev s))} s1 s'"
  have p: "i < 12" if "i < unat (nPortNumber (dev s))" for i
    using that core_inv_simps(3) [OF assms(2)] by (simp add: dev_ok_def)
  have "\<forall>i<8. bit flag' i = (if i = unat (rr_nPortId q) then ?in = 1 else bit flag i)" unfolding r(3) by (auto simp: bit_simps)
  moreover have "if \<not> bit flag' i then pce_tbl_used (st_pce (pce s')) ! (30 + i) = 0
      else if ?in = 1 then directed tbl ?m i s'
      else pce_tbl_used (st_pce (pce s')) ! (30 + i) \<noteq> 0 \<and>
        (\<exists>r. core_of tbl s' (of_nat (30 + i)) = Some r \<and> ePortMapAction (action r) = PORTMAP_DISABLE)"
    if i: "i < unat (nPortNumber (dev s))" for i
    using redirects_on [of tbl flag' ?m i s'] redirects_off [OF r(5) [OF i] p [OF i]] r(5) [OF i] p [OF i] by (cases "?in = 1") auto
  moreover have "rules_same {30..<30 + unat (nPortNumber (dev s))} (st_pce (pce s)) (st_pce (pce s'))"
    "cores_same tbl {30..<30 + unat (nPortNumber (dev s))} s s'" "dev s' = dev s"
    using r(6) unfolding r(4) by (simp_all add: only_rules_def cores_same_def)
  ultimately show ?thesis using r(1,2) by blast
qed

theorem port_redirect_witness:
  "\<exists>s flag' s'. IFX_FLOW_PortRedirectSet ref_step sample_garbage 0 \<lparr>rr_nPortId = 3, rr_bRedirectEgress = 0, rr_bRedirectIngress = 1\<rparr> s =
      Some (IFX_SUCCESS, flag', s') \<and> bit flag' 3 \<and> directed ref_tbl (unat (nManagementPortNumber (dev s)) mod 32) 3 s'"
proof (rule started)
  fix s :: "ref_priv core"
  assume s: "core_inv ref_tbl (\<lambda>_ m. m) s" "nPortNumber (dev s) = 7" "nTotalPortNumber (dev s) = 12"
  have "rr_nPortId \<lparr>rr_nPortId = 3, rr_bRedirectEgress = 0, rr_bRedirectIngress = 1\<rparr> < nTotalPortNumber (dev s)" using s(3) by simp
  from port_redirect [OF ref.pce_engine_axioms s(1) this, of sample_garbage 0] obtain flag' s' where
    r: "IFX_FLOW_PortRedirectSet ref_step sample_garbage 0 \<lparr>rr_nPortId = 3, rr_bRedirectEgress = 0, rr_bRedirectIngress = 1\<rparr> s =
      Some (IFX_SUCCESS, flag', s')"
      "\<forall>i<8. bit flag' i = (if i = 3 then True else bit (0 :: u8) i)"
      "\<forall>i<7. bit flag' i \<longrightarrow> directed ref_tbl (unat (nManagementPortNumber (dev s)) mod 32) i s'"
    using s(2) by (auto split: if_splits)
  have "bit flag' 3" "directed ref_tbl (unat (nManagementPortNumber (dev s)) mod 32) 3 s'" using r(2,3) by simp_all
  with r(1) show ?thesis by blast
qed

text \<open>
  C31. The counters of a port: each of the 64 counters is read once, those of the report go to their place, and when nothing is
  counted meanwhile, with the value they have; the counters \<open>0x28\<close> to \<open>0x3F\<close> are read but not reported. Whichever way the device counts broadcasts, the packets of the three classes make up
  the good ones, modulo \<open>2^32\<close>, in both directions; byte counts have 64 bits.
\<close>

theorem counters_reported:
  assumes "rmon_engine hwstep count" "rn_nPortId q < nPortNumber (dev s)" "rn_nPortId q < 12"
  shows "\<exists>f r s'. IFX_FLOW_RMON_Get hwstep q s = Some (IFX_SUCCESS, r, s') \<and> dev s' = dev s \<and>
    r = rmon_report (rd (preg GSWIP_BM_RMON_CTRL_BCAST_CNT 2 (rn_nPortId q)) s) (rn_nPortId q) f \<and>
    (counters_stay hwstep count \<longrightarrow> (\<forall>i<64. f i = count (priv (hw_of s)) (unat (rn_nPortId q)) i)) \<and>
    rn_nRxGoodPkts r = rn_nRxUnicastPkts r + rn_nRxMulticastPkts r + rn_nRxBroadcastPkts r \<and>
    rn_nTxGoodPkts r = rn_nTxUnicastPkts r + rn_nTxMulticastPkts r + rn_nTxBroadcastPkts r \<and>
    unat (rn_nRxGoodBytes r) = 2 ^ 32 * unat (f 0x25) + unat (f 0x24)"
proof (rule rmon_engine.reports [OF assms], goal_cases)
  case (1 f s')
  show ?case
    by (intro exI [of _ f] exI [of _ s'] exI [of _ "rmon_report _ _ f"] conjI refl report_totals) (use 1 in simp_all)
qed

theorem counters_reported_witness:
  "\<exists>r s'. IFX_FLOW_RMON_Get dual_step (zero_RMON_cnt\<lparr>rn_nPortId := 2\<rparr>) (core_on counting_on) = Some (IFX_SUCCESS, r, s') \<and>
    rn_nRxUnicastPkts r = 0x23 \<and> unat (rn_nRxGoodBytes r) = 2 ^ 32 * 0x25 + 0x24"
proof -
  have p: "rn_nPortId (zero_RMON_cnt\<lparr>rn_nPortId := 2\<rparr>) < nPortNumber (dev (core_on counting_on))"
    "rn_nPortId (zero_RMON_cnt\<lparr>rn_nPortId := 2\<rparr>) < 12" by simp_all
  from counters_reported [OF dualr.rmon_engine_axioms p] dual_quiet obtain f r s' where
    r: "IFX_FLOW_RMON_Get dual_step (zero_RMON_cnt\<lparr>rn_nPortId := 2\<rparr>) (core_on counting_on) = Some (IFX_SUCCESS, r, s')"
      "r = rmon_report (rd (preg GSWIP_BM_RMON_CTRL_BCAST_CNT 2 2) (core_on counting_on)) 2 f"
      "\<forall>i<64. f i = ram_count (priv counting_on) 2 i" "unat (rn_nRxGoodBytes r) = 2 ^ 32 * unat (f 0x25) + unat (f 0x24)"
    by auto
  have f: "f 0x23 = 0x23" "f 0x25 = 0x25" "f 0x24 = 0x24" using r(3) counting by simp_all
  have "rn_nRxUnicastPkts r = 0x23" using f(1) unfolding r(2) by (simp add: rmon_report_def)
  moreover have "unat (rn_nRxGoodBytes r) = 2 ^ 32 * 0x25 + 0x24" unfolding r(4) f by simp
  ultimately show ?thesis using r(1) by blast
qed

text \<open>
  C32. The header for the processor is read back as it was set, with one exception: with a header and a VLAN tag
  the addresses and the type are not written, and those of before are reported.
\<close>

theorem cpu_header_stale:
  assumes "length (ch_nMAC_Src (ce_sHeader q)) = 6" "length (ch_nMAC_Dst (ce_sHeader q)) = 6"
    "ce_eHeaderAdd q \<in> {0, 1, 2}" "\<not> (ce_bHeaderRemove q = 1 \<and> ce_eHeaderAdd q \<noteq> 0)"
  shows "fst (IFX_FLOW_CPU_PortExtendCfgSet q s) = IFX_SUCCESS \<and>
    IFX_FLOW_CPU_PortExtendCfgGet r (snd (IFX_FLOW_CPU_PortExtendCfgSet q s)) = (IFX_SUCCESS, extend_back q s)"
  using cpu_header_back [OF assms] by blast

theorem cpu_header_stale_witness:
  "ch_nMAC_Src (ce_sHeader sample_header) = known_mac \<and>
   ch_nMAC_Src (ce_sHeader (snd (IFX_FLOW_CPU_PortExtendCfgGet sample_header
     (snd (IFX_FLOW_CPU_PortExtendCfgSet sample_header (core_on (power_on 2))))))) = [0, 0, 0, 0, 0, 0]"
proof -
  have q: "length (ch_nMAC_Src (ce_sHeader sample_header)) = 6" "length (ch_nMAC_Dst (ce_sHeader sample_header)) = 6"
    "ce_eHeaderAdd sample_header \<in> {0, 1, 2}" "\<not> (ce_bHeaderRemove sample_header = 1 \<and> ce_eHeaderAdd sample_header \<noteq> 0)"
    by (simp_all add: sample_header_def known_mac_def)
  from cpu_header_stale [OF q, of "core_on (power_on 2)" sample_header] show ?thesis
    by (simp add: extend_back_def header_back_def stale_addresses_def sample_header_def low_high_def power_on_zero)
qed

section \<open>Multicast\<close>

text \<open>
  C33. The router ports are a set of ports: adding a port inserts it and removing a port takes it out, and both keep
  the invariant of all handlers. Both requests need room in forwarding mode, which at most 13 rules in use ensure. After
  adding a port, and after removing a port of the set, the rules are right for the mode: in forwarding mode rule 40 matches the reports and leave messages
  of IGMP and rule 43 those of MLD that come from the management port, both send them to exactly the ports of the set, and both are out
  of use when the set is empty. Removing a port that is not in the set changes nothing. A read of any rule but these two returns what it did
  before (IP addresses aside).
\<close>

theorem router_ports_refined:
  assumes "pce_engine hwstep tbl keep S" "core_inv tbl keep s" "rp_nPortId q < nTotalPortNumber (dev s)" "0x45A \<in> S"
    "snoop_mode s = SNOOP_MODE_FORWARD \<longrightarrow> used_rules (st_pce (pce s)) \<le> 13"
  shows "(\<exists>s'. IFX_FLOW_MulticastRouterPortAdd hwstep g q s = Some (IFX_SUCCESS, s') \<and> core_inv tbl keep s' \<and>
      router_ports s' = insert (unat (rp_nPortId q)) (router_ports s) \<and> router_ok tbl s' \<and> cores_same tbl {40, 43} s s') \<and>
    (\<exists>s'. IFX_FLOW_MulticastRouterPortRemove hwstep g q s = Some (IFX_SUCCESS, s') \<and> core_inv tbl keep s' \<and>
      router_ports s' = router_ports s - {unat (rp_nPortId q)} \<and>
      (if unat (rp_nPortId q) \<in> router_ports s then router_ok tbl s' else s' = s) \<and> cores_same tbl {40, 43} s s')"
proof (intro conjI)
  show "\<exists>s'. IFX_FLOW_MulticastRouterPortAdd hwstep g q s = Some (IFX_SUCCESS, s') \<and> core_inv tbl keep s' \<and>
      router_ports s' = insert (unat (rp_nPortId q)) (router_ports s) \<and> router_ok tbl s' \<and> cores_same tbl {40, 43} s s'"
    by (rule router_add_spec [OF assms, of g]) blast
  show "\<exists>s'. IFX_FLOW_MulticastRouterPortRemove hwstep g q s = Some (IFX_SUCCESS, s') \<and> core_inv tbl keep s' \<and>
      router_ports s' = router_ports s - {unat (rp_nPortId q)} \<and>
      (if unat (rp_nPortId q) \<in> router_ports s then router_ok tbl s' else s' = s) \<and> cores_same tbl {40, 43} s s'"
    by (rule router_remove_spec [OF assms, of g]) blast
qed

theorem router_ports_refined_witness:
  "\<exists>s'. IFX_FLOW_MulticastRouterPortAdd ref_step (\<lambda>_. sample_garbage) router_port (core_on (power_on 2)) = Some (IFX_SUCCESS, s') \<and>
    3 \<in> router_ports s' \<and> router_ok ref_tbl s'"
proof -
  have p: "rp_nPortId router_port < nTotalPortNumber (dev (core_on (power_on 2)))" by (simp add: router_port_def)
  have u: "snoop_mode (core_on (power_on 2)) = SNOOP_MODE_FORWARD \<longrightarrow> used_rules (st_pce (pce (core_on (power_on 2)))) \<le> 13"
    by (simp add: power_started)
  from router_ports_refined [OF ref.pce_engine_axioms power_started(1) p UNIV_I u, of "\<lambda>_. sample_garbage"]
  show ?thesis by (auto simp: router_port_def)
qed

text \<open>
  C34. Reading the router ports ends: when the ports that the device reports exist, at most 13 calls report exactly
  them, those configured and those learned, each once and in order, and then the end.
\<close>

theorem router_ports_reported:
  assumes "core_inv tbl keep s" "ro_bInitial q = 1" "ro_bLast q = 0"
    "\<forall>i. bit (rd VR9_PCE_IGMP_DRPM_DRPM s OR rd VR9_PCE_IGMP_STAT_IGPM s) i \<longrightarrow> i < unat (nTotalPortNumber (dev s))"
  shows "\<exists>s'. router_dump 13 q s = Some (map of_nat (filter (bit (rd VR9_PCE_IGMP_DRPM_DRPM s OR rd VR9_PCE_IGMP_STAT_IGPM s))
      [0..<unat (nTotalPortNumber (dev s))]), s') \<and> core_inv tbl keep s'"
  by (rule router_dump_spec [OF assms(1-3)]) (use assms(4) in blast)+

theorem router_ports_reported_witness:
  "\<exists>s'. router_dump 13 \<lparr>ro_bInitial = 1, ro_bLast = 0, ro_nPortId = 0\<rparr> (wr VR9_PCE_IGMP_DRPM_DRPM 0x12 (core_on (power_on 2))) = Some ([1, 4], s')"
proof -
  let ?s = "wr VR9_PCE_IGMP_DRPM_DRPM 0x12 (core_on (power_on 2))"
  have I: "core_inv ref_tbl (\<lambda>_ m. m) ?s"
    using wrs_inv [OF power_started(1), of "[(VR9_PCE_IGMP_DRPM_DRPM, 0x12)]"] by simp
  have m: "rd VR9_PCE_IGMP_DRPM_DRPM ?s OR rd VR9_PCE_IGMP_STAT_IGPM ?s = 0x12"
    by (simp add: field_simps_hw power_on_zero mask_eq_exp_minus_1)
  have b: "bit (0x12 :: u32) i \<longleftrightarrow> i = 1 \<or> i = 4" for i
    using bit_imp_le_length [of "0x12 :: u32" i] by (cases "i < 5") (auto simp: bit_numeral_rec less_Suc_eq numeral_eq_Suc)
  have "\<forall>i. bit (rd VR9_PCE_IGMP_DRPM_DRPM ?s OR rd VR9_PCE_IGMP_STAT_IGPM ?s) i \<longrightarrow> i < unat (nTotalPortNumber (dev ?s))"
    unfolding m b by auto
  from router_ports_reported [OF I _ _ this, of "\<lparr>ro_bInitial = 1, ro_bLast = 0, ro_nPortId = 0\<rparr>"]
  show ?thesis unfolding m by (auto simp: b upt_conv_Cons)
qed



text \<open>
  C36. Going over from hardware to software snooping leaves two rules of the former in place: forwarding mode writes only
  six of the eight rules, and until a router port is added, rules 40 and 43 still treat queries and
  reports as hardware snooping does.
\<close>

theorem snoop_rules_left:
  assumes "pce_engine hwstep tbl keep S" "core_inv tbl keep s" "0x459 \<in> S" "sn_eIGMP_Mode q = SNOOP_MODE_AUTOLEARNING" "sn_nRobust q < 4"
    "sn_eIGMP_Mode q' = SNOOP_MODE_FORWARD" "sn_nRobust q' < 4" "used_rules (st_pce (pce s)) = 0"
  shows "\<exists>s1 s2. IFX_FLOW_MulticastSnoopCfgSet hwstep g q s = Some (IFX_SUCCESS, s1) \<and>
    IFX_FLOW_MulticastSnoopCfgSet hwstep g q' s1 = Some (IFX_SUCCESS, s2) \<and>
    (\<forall>r\<in>set (snoop_rules q' (dev s2)). installed tbl r s2) \<and>
    (\<forall>k\<in>{0, 3}. installed tbl (learn_rule q (sn_nClassOfService q) k) s2)"
  by (rule snoop_left [OF assms, of g]) blast

theorem snoop_rules_left_witness:
  "\<exists>s1 s2. IFX_FLOW_MulticastSnoopCfgSet ref_step (\<lambda>_. sample_garbage) learn_cfg (core_on (power_on 2)) = Some (IFX_SUCCESS, s1) \<and>
    IFX_FLOW_MulticastSnoopCfgSet ref_step (\<lambda>_. sample_garbage) forward_cfg s1 = Some (IFX_SUCCESS, s2) \<and>
    installed ref_tbl (learn_rule learn_cfg 5 3) s2"
proof -
  have c: "sn_eIGMP_Mode learn_cfg = SNOOP_MODE_AUTOLEARNING" "sn_nRobust learn_cfg < 4" "sn_eIGMP_Mode forward_cfg = SNOOP_MODE_FORWARD"
    "sn_nRobust forward_cfg < 4" by (simp_all add: learn_cfg_def forward_cfg_def)
  have n: "sn_nClassOfService learn_cfg = 5" by (simp add: learn_cfg_def)
  show ?thesis
    using snoop_rules_left [OF ref.pce_engine_axioms power_started(1) UNIV_I c power_started(2), of "\<lambda>_. sample_garbage"] unfolding n by blast
qed

text \<open>
  C37. The groups learned by the device are a map from groups to sets of ports. Adding a member inserts the port into
  the set of the group, when the group or a free row is there, and is refused otherwise; removing a member takes
  the port out of the set; no other group changes. No row is freed: the rows in use
  after a removal are those before, so a group left by its last member still takes a row of the table.
\<close>

theorem learned_groups_refined:
  assumes "pce_engine hwstep tbl keep S" "keeps_groups keep" "core_inv tbl keep s" "free_empty (dtbl tbl s 14)"
    "snoop_mode s = SNOOP_MODE_AUTOLEARNING" "bIGMPv3 (igmp s) \<noteq> 1" "\<not> v6 q" "mt_nPortId q < nTotalPortNumber (dev s)"
    "g = nIPv4 (mt_uIP_Gda q)"
  shows "(if \<exists>i<64. i_valid (dtbl tbl s 14 i) = 0 \<or> img_gda (dtbl tbl s 14 i) = g
      then \<exists>s'. IFX_FLOW_MulticastTableEntryAdd hwstep past q s = Some (IFX_SUCCESS, s') \<and> core_inv tbl keep s' \<and>
        free_empty (dtbl tbl s' 14) \<and> members tbl s' = (members tbl s)(g := insert (unat (mt_nPortId q)) (members tbl s g))
      else \<exists>s'. IFX_FLOW_MulticastTableEntryAdd hwstep past q s = Some (IFX_ERROR, s') \<and> core_inv tbl keep s' \<and>
        dtbl tbl s' 14 = dtbl tbl s 14) \<and>
    (\<exists>s'. IFX_FLOW_MulticastTableEntryRemove hwstep oob q s = Some (IFX_SUCCESS, s') \<and> core_inv tbl keep s' \<and>
      free_empty (dtbl tbl s' 14) \<and> members tbl s' = (members tbl s)(g := members tbl s g - {unat (mt_nPortId q)}) \<and>
      valid_rows (dtbl tbl s' 14) = valid_rows (dtbl tbl s 14))"
proof (rule conjI [OF learned_add_handler [OF assms]])
  show "\<exists>s'. IFX_FLOW_MulticastTableEntryRemove hwstep oob q s = Some (IFX_SUCCESS, s') \<and> core_inv tbl keep s' \<and>
      free_empty (dtbl tbl s' 14) \<and> members tbl s' = (members tbl s)(g := members tbl s g - {unat (mt_nPortId q)}) \<and>
      valid_rows (dtbl tbl s' 14) = valid_rows (dtbl tbl s 14)"
    by (rule learned_remove_handler [OF assms(1-6,8,9), of oob]) blast
qed

theorem learned_groups_refined_witness:
  "\<forall>past. \<exists>s'. IFX_FLOW_MulticastTableEntryAdd ref_step past group_member (learning_core (power_on 2)) = Some (IFX_SUCCESS, s') \<and>
    members ref_tbl s' 0xE0010203 = {3}"
proof
  fix past
  note L = learning_core_ok [of 2]
  have k: "keeps_groups (\<lambda>_ m. m)" by (simp add: keeps_groups_def)
  have q: "bIGMPv3 (igmp (learning_core (power_on 2))) \<noteq> 1" "\<not> v6 group_member"
    "mt_nPortId group_member < nTotalPortNumber (dev (learning_core (power_on 2)))" "0xE0010203 = nIPv4 (mt_uIP_Gda group_member)"
    using L(5,6) by (simp_all add: group_member_def nIPv4_def set_nIPv4_def)
  have f: "\<exists>i<64. i_valid (dtbl ref_tbl (learning_core (power_on 2)) 14 i) = 0 \<or> img_gda (dtbl ref_tbl (learning_core (power_on 2)) 14 i) = 0xE0010203"
    by (intro exI [of _ 0]) (simp add: learning_core_def upd_igmp_def power_on_tbl zero_img_def)
  from learned_groups_refined [OF ref.pce_engine_axioms k L(1,2,4) q, of past "\<lambda>_ _. 0"] f
  show "\<exists>s'. IFX_FLOW_MulticastTableEntryAdd ref_step past group_member (learning_core (power_on 2)) = Some (IFX_SUCCESS, s') \<and>
    members ref_tbl s' 0xE0010203 = {3}" by (auto simp: L(3)) (auto simp: group_member_def)
qed

text \<open>
  C38. Reading the groups learned: a call reports the next row in use, the group and the low eight ports of its members,
  and remembers the row after it; when there is none left it reports the end and starts again.
\<close>

theorem learned_groups_reported:
  assumes "pce_engine hwstep tbl keep S" "core_inv tbl keep s" "snoop_mode s = SNOOP_MODE_AUTOLEARNING" "mm_bInitial q \<noteq> IFX_TRUE"
    "i = unat (multi_hw_table_index (dev s))" "i \<le> 64"
  shows "\<exists>s'. core_inv tbl keep s' \<and> dtbl tbl s' = dtbl tbl s \<and>
    dev s' = (dev s)\<lparr>multi_hw_table_index := of_nat (case next_group (dtbl tbl s 14) i of None \<Rightarrow> 0 | Some j \<Rightarrow> j + 1)\<rparr> \<and>
    IFX_FLOW_MulticastTableEntryRead hwstep q s = Some (IFX_SUCCESS, (case next_group (dtbl tbl s 14) i of
       None \<Rightarrow> zero_multicastTableRead\<lparr>mm_bLast := IFX_TRUE\<rparr> | Some j \<Rightarrow> group_report (dtbl tbl s 14 j) q), s')"
proof -
  have "IFX_FLOW_MulticastTableEntryRead hwstep q s = hw_group_read hwstep q s"
    using assms(3) by (simp add: IFX_FLOW_MulticastTableEntryRead_def)
  then show ?thesis by (simp only:) (rule hw_group_read_spec [OF assms(1,2,4-6)], blast)
qed

theorem learned_groups_reported_witness:
  "\<exists>s'. IFX_FLOW_MulticastTableEntryRead ref_step zero_multicastTableRead (learning_core (power_on 2)) =
    Some (IFX_SUCCESS, zero_multicastTableRead\<lparr>mm_bLast := IFX_TRUE\<rparr>, s')"
proof -
  note L = learning_core_ok [of 2]
  have i: "0 = unat (multi_hw_table_index (dev (learning_core (power_on 2))))"
    by (simp add: learning_core_def upd_igmp_def core_on_def zero_dev_def)
  have "next_group (dtbl ref_tbl (learning_core (power_on 2)) 14) 0 = None"
    by (simp add: next_group_def find_None_iff learning_core_def upd_igmp_def power_on_tbl zero_img_def)
  then show ?thesis
    using learned_groups_reported [OF ref.pce_engine_axioms L(1,4) _ i, of zero_multicastTableRead] by (auto simp: zero_multicastTableRead_def)
qed

text \<open>
  C39. Configuring the link of a port whose transceiver has the address \<open>A\<close>: for a speed that exists the call returns, and the transceiver
  offers the modes that the request asks for and no other, unless just one of speed and duplex mode is forced: then full duplex forced
  with the speed negotiated offers every mode, half duplex too, and a speed forced with the duplex mode negotiated offers
  full duplex only. In all cases the transceiver advertises energy-efficient Ethernet (register 0x3C of device 7) as asked for,
  is told in register 0 to negotiate anew or to power down, and keeps its other registers and extended
  registers; the other transceivers keep everything, and the interface of the port is set.
\<close>

theorem link_configured:
  assumes "phy_bus hwstep mdio view put get still told settable held ctl adr ext" "rd MDIO_BUSY s = 0"
    "unat (nPortNumber (dev s)) \<le> 11" "unat (lk_nPortId q) + 1 < unat (nPortNumber (dev s))"
    "{4, 9} \<subseteq> settable" "(7, 0x3C) \<in> held" "lk_bSpeedForce q = IFX_TRUE \<longrightarrow> lk_eSpeed q \<in> {10, 100, 1000}"
    "A = unat (rd (phy_addr (unat (lk_nPortId q))) s)" "still (unat (md_nAddressReg g AND mask 5)) (view (priv (hw_of s)) A)"
  shows "\<exists>s' v. IFX_FLOW_PortLinkCfgSet hwstep mdio g q s = Some (IFX_SUCCESS, s') \<and> dev s' = dev s \<and> link_regs_ok q s' \<and>
    view (priv (hw_of s')) = (view (priv (hw_of s)))(A := put 0 (link_command q) v) \<and>
    offers (get 4 v) (get 9 v) =
      (if lk_bSpeedForce q \<noteq> IFX_TRUE \<and> lk_bDuplexForce q = IFX_TRUE \<and> lk_eDuplex q = IFX_ETHSW_DUPLEX_FULL then {10, 100, 1000} \<times> UNIV
       else if lk_bSpeedForce q = IFX_TRUE \<and> lk_bDuplexForce q \<noteq> IFX_TRUE then {(unat (lk_eSpeed q), True)}
       else wanted q) \<and>
    ext v 7 0x3C = (if lk_bLPI q = IFX_TRUE then 0x6 else 0x0) \<and>
    (\<forall>r. r \<in> settable - {4, 9} \<longrightarrow> get r v = get r (view (priv (hw_of s)) A)) \<and>
    (\<forall>d e. (d, e) \<in> held - {(7, 0x3C)} \<longrightarrow> ext v d e = ext (view (priv (hw_of s)) A) d e)"
proof -
  have t: "transceiver put get still told settable held ctl adr ext" by (rule phy_bus.axioms(2) [OF assms(1)])
  have v: "speed_valid q" using assms(7) by (simp add: speed_valid_def)
  show ?thesis
    unfolding offered_wanted [OF v, symmetric]
    by (rule phy_bus.link_set [OF assms(1-6) speed_valid_some [OF v] assms(8,9)]) (auto simp: transceiver.leaves_def [OF t])
qed

theorem link_configured_witness:
  "\<exists>s' v. IFX_FLOW_PortLinkCfgSet phy_step phy_mdio \<lparr>md_nAddressDev = 0, md_nAddressReg = 0, md_nData = 0\<rparr> half_100 phy_on = Some (IFX_SUCCESS, s') \<and>
    priv (hw_of s') = (\<lambda>_. phy_fresh)(5 := phy_put 0 0x1200 v) \<and> offers (ph_regs v 4) (ph_regs v 9) = {(100, False)} \<and> ph_ext v 7 0x3C = 6"
proof -
  have h: "(7, 0x3C) \<in> mmd_all" by (simp add: mmd_all_def)
  have p: "unat (nPortNumber (dev phy_on)) \<le> 11" "unat (lk_nPortId half_100) + 1 < unat (nPortNumber (dev phy_on))"
    "{4, 9} \<subseteq> UNIV - {13, 14 :: nat}" "lk_bSpeedForce half_100 = IFX_TRUE \<longrightarrow> lk_eSpeed half_100 \<in> {10, 100, 1000}"
    "5 = unat (rd (phy_addr (unat (lk_nPortId half_100))) phy_on)"
    by (simp_all add: half_100_def)
  have w: "wanted half_100 = {(100, False)}" "link_command half_100 = 0x1200" "lk_bLPI half_100 = IFX_TRUE"
    "lk_bSpeedForce half_100 = IFX_TRUE" "lk_bDuplexForce half_100 = IFX_TRUE"
    by (simp_all add: wanted_def half_100_def link_command_def)
  from link_configured [OF refk.phy_bus_axioms phy_on_simps(3) p(1-3) h p(4,5) TrueI, of "\<lparr>md_nAddressDev = 0, md_nAddressReg = 0, md_nData = 0\<rparr>"]
  show ?thesis unfolding w by (auto simp: phy_get_def)
qed

text \<open>
  C40. An extended register that is written is read back, by any request for the same register: the register of its
  number in the device, of the transceiver with the address given. Every other extended register keeps its value,
  every other transceiver everything, and every transceiver its address, although both accesses rewrite the
  register with the address to fix the mode of the port and release it again.
\<close>

theorem mmd_round_trip:
  assumes "phy_bus hwstep mdio view put get still told settable held ctl adr ext" "rd MDIO_BUSY s = 0"
    "1 \<le> unat (nPortNumber (dev s)) \<and> unat (nPortNumber (dev s)) \<le> 11"
    "phy_port (xm_nAddressDev q) s = Some i" "(mmd_dev q, mmd_reg q) \<in> held"
    "xm_nAddressDev r = xm_nAddressDev q" "xm_nAddressReg r = xm_nAddressReg q"
  shows "\<exists>s1 s2 v. IFX_FLOW_MmdDataWrite hwstep mdio q s = Some (IFX_SUCCESS, s1) \<and>
    IFX_FLOW_MmdDataRead hwstep mdio r s1 = Some (IFX_SUCCESS, r\<lparr>xm_nData := xm_nData q\<rparr>, s2) \<and>
    dev s2 = dev s \<and> (\<forall>j<10. rd (phy_addr j) s2 = rd (phy_addr j) s) \<and>
    view (priv (hw_of s2)) = (view (priv (hw_of s)))(unat (xm_nAddressDev q AND mask 5) := v) \<and>
    (\<forall>d e. (d, e) \<in> held - {(mmd_dev q, mmd_reg q)} \<longrightarrow> ext v d e = ext (view (priv (hw_of s)) (unat (xm_nAddressDev q AND mask 5))) d e)"
proof -
  have t: "transceiver put get still told settable held ctl adr ext" by (rule phy_bus.axioms(2) [OF assms(1)])
  show ?thesis
    by (rule phy_bus.mmd_write_read [OF assms]) (unfold transceiver.leaves_def [OF t], blast)
qed

theorem mmd_round_trip_witness:
  "\<exists>s1 s2. IFX_FLOW_MmdDataWrite phy_step phy_mdio eee_partner phy_on = Some (IFX_SUCCESS, s1) \<and>
    IFX_FLOW_MmdDataRead phy_step phy_mdio (eee_partner\<lparr>xm_nData := 0\<rparr>) s1 = Some (IFX_SUCCESS, eee_partner, s2)"
proof -
  have h: "(mmd_dev eee_partner, mmd_reg eee_partner) \<in> mmd_all" by (simp add: eee_partner_reg mmd_all_def)
  have p: "1 \<le> unat (nPortNumber (dev phy_on)) \<and> unat (nPortNumber (dev phy_on)) \<le> 11" by simp
  from mmd_round_trip [OF refk.phy_bus_axioms phy_on_simps(3) p eee_partner_port h, of "eee_partner\<lparr>xm_nData := 0\<rparr>"]
  show ?thesis by auto
qed

end
